(* ===== verification/Prelude.thy ===== *)
theory Prelude
  imports Main "HOL-Library.Multiset" "HOL-Library.Sublist"
begin

text \<open>
  The vocabulary every other theory of the development uses: the two JavaScript list
  searches the engine is written with (first matching index, first occurrence), thrown
  errors as the left side of a sum, insertion by \<^verbatim>\<open>splice\<close>, and the facts about them.
  The collection \<open>engine_simps\<close> gathers the characteristic equations that \<open>simp\<close> and
  \<open>auto\<close> need in the component theories.
\<close>

named_theorems engine_simps

section \<open>Errors\<close>

text \<open>A TypeScript function that may throw returns \<open>Inl message\<close> for the thrown error.\<close>

type_synonym 'a throws = "string + 'a"

section \<open>Text of diagnostics\<close>

text \<open>\<open>join sep xs\<close> is \<^verbatim>\<open>xs.join(sep)\<close>; \<open>int_str\<close> is the text of an integer in a template.\<close>

fun join :: "string \<Rightarrow> string list \<Rightarrow> string" where
  "join sep [] = []"
| "join sep [x] = x"
| "join sep (x # y # xs) = x @ sep @ join sep (y # xs)"

fun nat_str :: "nat \<Rightarrow> string" where
  "nat_str n = (if n < 10 then [char_of (48 + n)]
                else nat_str (n div 10) @ [char_of (48 + n mod 10)])"

declare nat_str.simps [simp del]

definition int_str :: "int \<Rightarrow> string" where
  "int_str i = (if i < 0 then CHR ''-'' # nat_str (nat (- i)) else nat_str (nat i))"

section \<open>Strings\<close>

text \<open>
  \<^verbatim>\<open>startsWith\<close>, \<^verbatim>\<open>endsWith\<close>, \<^verbatim>\<open>split\<close> on one character, and digit strings.
\<close>

definition starts_with :: "string \<Rightarrow> string \<Rightarrow> bool" where
  "starts_with s pre = (take (length pre) s = pre)"

definition ends_with :: "string \<Rightarrow> string \<Rightarrow> bool" where
  "ends_with s suf = (length suf \<le> length s \<and> drop (length s - length suf) s = suf)"

lemma ends_with_append [simp]: "ends_with (s @ suf) suf"
  by (simp add: ends_with_def)

definition is_digit :: "char \<Rightarrow> bool" where
  "is_digit c = (48 \<le> (of_char c :: nat) \<and> (of_char c :: nat) \<le> 57)"

definition digits_value :: "string \<Rightarrow> int" where
  "digits_value ds = foldl (\<lambda>a c. 10 * a + (of_char c - 48)) 0 ds"

fun split_on :: "char \<Rightarrow> string \<Rightarrow> string list" where
  "split_on c [] = [[]]"
| "split_on c (x # xs) =
     (if x = c then [] # split_on c xs
      else (case split_on c xs of [] \<Rightarrow> [[x]] | y # ys \<Rightarrow> (x # y) # ys))"

text \<open>The characters \<^verbatim>\<open>String.prototype.trim\<close> removes, below U+0100.\<close>

definition js_space :: "char \<Rightarrow> bool" where
  "js_space c = ((of_char c :: nat) \<in> {9, 10, 11, 12, 13, 32, 160})"

definition js_trim :: "string \<Rightarrow> string" where
  "js_trim s = rev (dropWhile js_space (rev (dropWhile js_space s)))"

text \<open>ASCII lower case, for the case-insensitive patterns, and all suffixes of a text.\<close>

definition lower_char :: "char \<Rightarrow> char" where
  "lower_char c = (if 65 \<le> (of_char c :: nat) \<and> (of_char c :: nat) \<le> 90 then char_of (of_char c + 32 :: nat) else c)"

definition lower :: "string \<Rightarrow> string" where
  "lower s = map lower_char s"

fun tails :: "'a list \<Rightarrow> 'a list list" where
  "tails [] = [[]]"
| "tails (x # xs) = (x # xs) # tails xs"

lemma set_tails: "ys \<in> set (tails xs) \<longleftrightarrow> suffix ys xs"
  by (induction xs) (auto simp: suffix_Cons)

section \<open>Array searches\<close>

text \<open>
  \<open>find_idx P xs\<close> is \<^verbatim>\<open>xs.findIndex(P)\<close>: the least index whose element satisfies \<open>P\<close>. The
  JavaScript sentinel \<^verbatim>\<open>-1\<close> is \<open>None\<close>. \<open>index_of x xs\<close> is \<^verbatim>\<open>xs.indexOf(x)\<close>.
\<close>

primrec find_idx :: "('a \<Rightarrow> bool) \<Rightarrow> 'a list \<Rightarrow> nat option" where
  "find_idx P [] = None"
| "find_idx P (x # xs) = (if P x then Some 0 else map_option Suc (find_idx P xs))"

definition index_of :: "'a \<Rightarrow> 'a list \<Rightarrow> nat option" where
  "index_of x xs = find_idx (\<lambda>y. y = x) xs"

lemma find_idx_SomeD:
  "find_idx P xs = Some i \<Longrightarrow> i < length xs \<and> P (xs ! i) \<and> (\<forall>j<i. \<not> P (xs ! j))"
proof (induction xs arbitrary: i)
  case Nil
  then show ?case by simp
next
  case (Cons x xs)
  show ?case
  proof (cases "P x")
    case True
    with Cons.prems show ?thesis by simp
  next
    case False
    with Cons.prems obtain k where k: "find_idx P xs = Some k" and i: "i = Suc k"
      by (auto split: if_splits)
    show ?thesis using Cons.IH [OF k] False i
      by (auto simp: nth_Cons split: nat.splits)
  qed
qed

lemma find_idx_None_iff [engine_simps]: "find_idx P xs = None \<longleftrightarrow> (\<forall>x\<in>set xs. \<not> P x)"
  by (induction xs) auto

lemma find_idx_SomeI:
  assumes "i < length xs" "P (xs ! i)" "\<And>j. j < i \<Longrightarrow> \<not> P (xs ! j)"
  shows "find_idx P xs = Some i"
proof -
  have "find_idx P xs \<noteq> None" using assms(1,2) by (auto simp: find_idx_None_iff)
  then obtain k where k: "find_idx P xs = Some k" by auto
  from find_idx_SomeD [OF k] assms have "k = i"
    by (metis linorder_neqE_nat)
  with k show ?thesis by simp
qed

lemma find_idx_Some_iff:
  "find_idx P xs = Some i \<longleftrightarrow> i < length xs \<and> P (xs ! i) \<and> (\<forall>j<i. \<not> P (xs ! j))"
  by (metis find_idx_SomeD find_idx_SomeI)

lemma find_idx_append:
  "find_idx P (xs @ ys) =
     (case find_idx P xs of Some i \<Rightarrow> Some i
      | None \<Rightarrow> map_option (\<lambda>i. length xs + i) (find_idx P ys))"
proof (induction xs)
  case Nil
  then show ?case by (cases "find_idx P ys") auto
next
  case (Cons x xs)
  then show ?case by (cases "find_idx P ys") (auto split: option.splits)
qed

lemma find_idx_cong_map: "find_idx P (map f xs) = find_idx (\<lambda>x. P (f x)) xs"
  by (induction xs) auto

lemma index_of_SomeD: "index_of x xs = Some i \<Longrightarrow> i < length xs \<and> xs ! i = x"
  by (auto simp: index_of_def dest: find_idx_SomeD)

lemma index_of_None_iff [engine_simps]: "index_of x xs = None \<longleftrightarrow> x \<notin> set xs"
  by (auto simp: index_of_def find_idx_None_iff)

lemma index_of_nth: "distinct xs \<Longrightarrow> i < length xs \<Longrightarrow> index_of (xs ! i) xs = Some i"
  unfolding index_of_def
  by (rule find_idx_SomeI) (auto simp: nth_eq_iff_index_eq)

text \<open>
  \<open>scan_from i P xs\<close>: the engine's loops of the form
  \<^verbatim>\<open>for (let k = i; k < xs.length; k++) if (P(k, xs[k])) return k\<close>, with \<^verbatim>\<open>-1\<close> as \<open>None\<close>.
\<close>

function scan_from :: "nat \<Rightarrow> (nat \<Rightarrow> 'a \<Rightarrow> bool) \<Rightarrow> 'a list \<Rightarrow> nat option" where
  "scan_from i P xs =
     (if i < length xs then (if P i (xs ! i) then Some i else scan_from (Suc i) P xs)
      else None)"
  by pat_completeness auto
termination
  by (relation "measure (\<lambda>(i, P, xs). length xs - i)") auto

declare scan_from.simps [simp del]

lemma scan_from_SomeD:
  "scan_from i P xs = Some k \<Longrightarrow> i \<le> k \<and> k < length xs \<and> P k (xs ! k) \<and> (\<forall>j. i \<le> j \<and> j < k \<longrightarrow> \<not> P j (xs ! j))"
proof (induction i P xs rule: scan_from.induct)
  case (1 i P xs)
  show ?case
  proof (cases "i < length xs \<and> \<not> P i (xs ! i)")
    case True
    with "1.prems" have s: "scan_from (Suc i) P xs = Some k" by (subst (asm) scan_from.simps) simp
    have ih: "Suc i \<le> k \<and> k < length xs \<and> P k (xs ! k) \<and> (\<forall>j. Suc i \<le> j \<and> j < k \<longrightarrow> \<not> P j (xs ! j))"
      using "1.IH" [OF conjunct1 [OF True] conjunct2 [OF True] s] .
    have "\<not> P j (xs ! j)" if "i \<le> j" "j < k" for j
      using that ih True by (cases "j = i") auto
    with ih show ?thesis by auto
  next
    case False
    with "1.prems" show ?thesis by (subst (asm) scan_from.simps) (auto split: if_splits)
  qed
qed

lemma scan_from_None_iff:
  "scan_from i P xs = None \<longleftrightarrow> (\<forall>j. i \<le> j \<and> j < length xs \<longrightarrow> \<not> P j (xs ! j))"
proof (induction i P xs rule: scan_from.induct)
  case (1 i P xs)
  show ?case
  proof (cases "i < length xs \<and> \<not> P i (xs ! i)")
    case True
    have "scan_from i P xs = scan_from (Suc i) P xs"
      using True by (subst scan_from.simps) simp
    moreover have "scan_from (Suc i) P xs = None \<longleftrightarrow> (\<forall>j. Suc i \<le> j \<and> j < length xs \<longrightarrow> \<not> P j (xs ! j))"
      using "1.IH" True by blast
    moreover have "i \<le> j \<longleftrightarrow> j = i \<or> Suc i \<le> j" for j by auto
    ultimately show ?thesis using True by auto
  next
    case False
    then show ?thesis by (subst scan_from.simps) auto
  qed
qed

lemma scan_from_SomeI:
  assumes "i \<le> k" "k < length xs" "P k (xs ! k)" "\<And>j. i \<le> j \<Longrightarrow> j < k \<Longrightarrow> \<not> P j (xs ! j)"
  shows "scan_from i P xs = Some k"
proof (cases "scan_from i P xs")
  case None
  with assms show ?thesis by (auto simp: scan_from_None_iff)
next
  case (Some m)
  from scan_from_SomeD [OF Some] assms have "m = k"
    by (metis linorder_neqE_nat)
  with Some show ?thesis by simp
qed

section \<open>Insertion and stable de-duplication\<close>

text \<open>\<open>insert_at k y xs\<close> is \<^verbatim>\<open>xs.splice(k, 0, y)\<close>: a start beyond the end appends.\<close>

definition insert_at :: "nat \<Rightarrow> 'a \<Rightarrow> 'a list \<Rightarrow> 'a list" where
  "insert_at k y xs = take k xs @ y # drop k xs"

lemma set_insert_at [simp]: "set (insert_at k y xs) = insert y (set xs)"
  by (metis insert_at_def append_take_drop_id list.simps(15) set_append Un_insert_right)

lemma length_insert_at [simp]: "length (insert_at k y xs) = Suc (length xs)"
  by (simp add: insert_at_def min_def)

lemma map_insert_at: "map f (insert_at k y xs) = insert_at k (f y) (map f xs)"
  by (simp add: insert_at_def take_map drop_map)

lemma distinct_insert_at [simp]: "distinct (insert_at k y xs) \<longleftrightarrow> y \<notin> set xs \<and> distinct xs"
proof -
  have "mset (insert_at k y xs) = mset (y # xs)"
    by (simp add: insert_at_def) (metis append_take_drop_id mset_append)
  then have "distinct (insert_at k y xs) = distinct (y # xs)"
    by (rule mset_eq_imp_distinct_iff)
  then show ?thesis by simp
qed

lemma distinct_move_insert:
  "distinct (xs @ a # ys @ zs) \<Longrightarrow> distinct (xs @ ys @ insert_at k a zs)"
  by simp

lemma subseq_insert_at: "subseq xs (insert_at k y xs)"
proof -
  have "subseq (take k xs @ drop k xs) (take k xs @ y # drop k xs)"
    by (intro list_emb_append_mono) auto
  then show ?thesis by (simp add: insert_at_def)
qed

lemma subseq_set_mono: "subseq xs ys \<Longrightarrow> set xs \<subseteq> set ys"
  by (induction rule: list_emb.induct) auto

text \<open>\<open>stable_unique\<close> is \<^verbatim>\<open>[...new Set(xs)]\<close>: first occurrences in their order.\<close>

fun stable_unique_acc :: "'a list \<Rightarrow> 'a list \<Rightarrow> 'a list" where
  "stable_unique_acc acc [] = acc"
| "stable_unique_acc acc (x # xs) =
     stable_unique_acc (if x \<in> set acc then acc else acc @ [x]) xs"

definition stable_unique :: "'a list \<Rightarrow> 'a list" where
  "stable_unique xs = stable_unique_acc [] xs"

lemma set_stable_unique_acc: "set (stable_unique_acc acc xs) = set acc \<union> set xs"
  by (induction xs arbitrary: acc) auto

lemma distinct_stable_unique_acc: "distinct acc \<Longrightarrow> distinct (stable_unique_acc acc xs)"
  by (induction xs arbitrary: acc) auto

lemma stable_unique_acc_prefix: "\<exists>ys. stable_unique_acc acc xs = acc @ ys"
proof (induction xs arbitrary: acc)
  case Nil
  then show ?case by simp
next
  case (Cons x xs)
  show ?case using Cons.IH [of "if x \<in> set acc then acc else acc @ [x]"] by (auto split: if_splits)
qed

lemma stable_unique_acc_append:
  "stable_unique_acc acc (xs @ ys) = stable_unique_acc (stable_unique_acc acc xs) ys"
  by (induction xs arbitrary: acc) auto

lemma stable_unique_acc_subset: "set xs \<subseteq> set acc \<Longrightarrow> stable_unique_acc acc xs = acc"
  by (induction xs arbitrary: acc) auto

lemma stable_unique_acc_distinct:
  "distinct xs \<Longrightarrow> set xs \<inter> set acc = {} \<Longrightarrow> stable_unique_acc acc xs = acc @ xs"
  by (induction xs arbitrary: acc) auto

lemma set_stable_unique [simp]: "set (stable_unique xs) = set xs"
  by (simp add: stable_unique_def set_stable_unique_acc)

lemma distinct_stable_unique [simp]: "distinct (stable_unique xs)"
  by (simp add: stable_unique_def distinct_stable_unique_acc)

lemma stable_unique_id: "distinct xs \<Longrightarrow> stable_unique xs = xs"
  by (simp add: stable_unique_def stable_unique_acc_distinct)

lemma stable_unique_append: "\<exists>ys. stable_unique (xs @ zs) = stable_unique xs @ ys"
  unfolding stable_unique_def stable_unique_acc_append by (rule stable_unique_acc_prefix)

section \<open>Results\<close>

lemma map_sum_Inr_iff: "map_sum id f x = Inr y \<longleftrightarrow> (\<exists>z. x = Inr z \<and> f z = y)"
  by (cases x) auto

section \<open>Finite maps\<close>

lemma map_upd_None_iff: "(m(k \<mapsto> v)) x = None \<longleftrightarrow> x \<noteq> k \<and> m x = None"
  by auto

end
