(* ===== verification/Json.thy ===== *)
theory Json
  imports Prelude
begin

text \<open>
  Values of type \<^verbatim>\<open>unknown\<close> that reach the engine through \<^verbatim>\<open>JSON.parse\<close>: the persisted
  state, gate verdicts, ledgers and event records. Numbers are integers (the engine's
  counters and epoch milliseconds, all below 2^53); an object is its association list of
  own properties, in which \<^verbatim>\<open>JSON.parse\<close> leaves every key once.
\<close>

datatype jval =
    JNull
  | JBool bool
  | JNum int
  | JStr string
  | JArr "jval list"
  | JObj "(string \<times> jval) list"

text \<open>\<open>jget v k\<close> is \<^verbatim>\<open>v.k\<close> on a parsed value: \<open>None\<close> is \<^verbatim>\<open>undefined\<close>.\<close>

fun jget :: "jval \<Rightarrow> string \<Rightarrow> jval option" where
  "jget (JObj kvs) k = map_of kvs k"
| "jget _ k = None"

text \<open>\<open>jhas v k\<close> is \<^verbatim>\<open>k in v\<close> for an object.\<close>

definition jhas :: "jval \<Rightarrow> string \<Rightarrow> bool" where
  "jhas v k = (jget v k \<noteq> None)"

text \<open>\<open>jstring v k\<close> reads \<^verbatim>\<open>typeof v.k === 'string' ? v.k : undefined\<close>.\<close>

definition jstring :: "jval \<Rightarrow> string \<Rightarrow> string option" where
  "jstring v k = (case jget v k of Some (JStr s) \<Rightarrow> Some s | _ \<Rightarrow> None)"

text \<open>
  A primitive is compared by value; an array or an object of a freshly parsed document is a
  reference of its own. \<open>set_size xs\<close> is \<^verbatim>\<open>new Set(xs).size\<close> for such values.
\<close>

fun primitive :: "jval \<Rightarrow> bool" where
  "primitive (JArr _) = False"
| "primitive (JObj _) = False"
| "primitive _ = True"

definition set_size :: "jval list \<Rightarrow> nat" where
  "set_size xs = length (remdups (filter primitive xs)) + length (filter (\<lambda>v. \<not> primitive v) xs)"

lemma set_size_full: "set_size xs = length xs \<longleftrightarrow> distinct (filter primitive xs)"
proof -
  have "length (filter primitive xs) + length (filter (\<lambda>v. \<not> primitive v) xs) = length xs"
    by (rule sum_length_filter_compl)
  moreover have "length (remdups (filter primitive xs)) = length (filter primitive xs)
      \<longleftrightarrow> distinct (filter primitive xs)"
    by (simp add: remdups_id_iff_distinct)
  ultimately show ?thesis unfolding set_size_def by (metis add_right_cancel)
qed

lemma jstring_Some [simp]: "jstring v k = Some s \<longleftrightarrow> jget v k = Some (JStr s)"
  by (auto simp: jstring_def split: option.splits jval.splits)

end
