(* ===== verification/Steps.thy ===== *)
theory Steps
  imports Json
begin

text \<open>
  The step registry (\<^verbatim>\<open>src/conductor/src/types/steps.ts\<close>, \<^verbatim>\<open>engine/steps.ts\<close>): the step
  definitions of the SDLC flow, their lookups and skip rules, and the assembly of the
  resolved registry from the custom steps of a project's configuration.
  A \<^verbatim>\<open>StepName\<close> is a string, since the engine casts every configured name to it.
\<close>

section \<open>Step definitions\<close>

type_synonym step_name = string

datatype step_status = Pending | In_progress | Done | Failed | Refused | Skipped | Stale

datatype phase = SETUP | UNDERSTAND | DECIDE | BUILD | SHIP

datatype complexity_tier = TierS | TierM | TierL

datatype track = Product | Technical

datatype enforcement_level = Advisory | Gating | Structural | Mechanical

datatype bootstrap_mode = ModeNew | ModeFresh | ModePartial | ModeReBootstrap

text \<open>
  \<^verbatim>\<open>interface StepDefinition\<close>. An optional property is an \<open>option\<close>; a property whose only
  value is \<^verbatim>\<open>true\<close> is a \<open>bool\<close>.
\<close>

record step_def =
  sd_name :: step_name
  sd_label :: string
  sd_phase :: phase
  sd_enforcement :: enforcement_level
  sd_prerequisites :: "step_name list"
  sd_skippableForTiers :: "complexity_tier list"
  sd_isCheckpoint :: bool
  sd_absentArtifactReason :: "string option"
  sd_skippableForTracks :: "track list option"
  sd_skillName :: "string option"
  sd_featureInapplicableAllowed :: bool
  sd_treeAttestingCompletion :: "bool option"
  sd_preservableOnStale :: "bool option"
  sd_loopGate :: "bool option"
  sd_kickbackTarget :: "bool option"
  sd_skipWhenSkipped :: "step_name option"
  sd_configDisableAllowed :: "bool option"

text \<open>
  The object literal with its seven required properties. \<^verbatim>\<open>absentArtifactDisposition\<close>
  (only ever \<^verbatim>\<open>'skipped'\<close>) is set exactly where the reason is, and is not kept apart.
\<close>

definition step_literal ::
  "step_name \<Rightarrow> string \<Rightarrow> phase \<Rightarrow> enforcement_level \<Rightarrow> step_name list \<Rightarrow> complexity_tier list \<Rightarrow> bool \<Rightarrow> step_def" where
  "step_literal nm lab ph enf pre tiers cp =
     \<lparr>sd_name = nm, sd_label = lab, sd_phase = ph, sd_enforcement = enf,
      sd_prerequisites = pre, sd_skippableForTiers = tiers, sd_isCheckpoint = cp,
      sd_absentArtifactReason = None, sd_skippableForTracks = None, sd_skillName = None,
      sd_featureInapplicableAllowed = False, sd_treeAttestingCompletion = None,
      sd_preservableOnStale = None, sd_loopGate = None, sd_kickbackTarget = None,
      sd_skipWhenSkipped = None, sd_configDisableAllowed = None\<rparr>"

text \<open>A truthy optional flag: \<^verbatim>\<open>if (s.flag)\<close>.\<close>

definition truthy_flag :: "bool option \<Rightarrow> bool" where
  "truthy_flag b = (b = Some True)"

section \<open>The built-in table\<close>

definition step_worktree :: step_def where
  "step_worktree = step_literal ''worktree'' ''Worktree'' SETUP Structural [] [] False"

definition step_memory :: step_def where
  "step_memory = (step_literal ''memory'' ''Memory'' UNDERSTAND Advisory [] [] False)
     \<lparr>sd_skillName := Some ''memory''\<rparr>"

definition step_explore :: step_def where
  "step_explore = (step_literal ''explore'' ''Explore'' DECIDE Advisory [] [] False)
     \<lparr>sd_skillName := Some ''explore''\<rparr>"

definition step_complexity :: step_def where
  "step_complexity = step_literal ''complexity'' ''Complexity'' DECIDE Advisory [''explore''] [] False"

definition step_prd :: step_def where
  "step_prd = (step_literal ''prd'' ''PRD'' DECIDE Gating [''explore''] [] False)
     \<lparr>sd_skippableForTracks := Some [Technical], sd_skillName := Some ''prd'',
      sd_kickbackTarget := Some True\<rparr>"

definition step_architecture_diagram :: step_def where
  "step_architecture_diagram =
     (step_literal ''architecture_diagram'' ''Architecture Diagram'' DECIDE Advisory [''complexity''] [TierS] False)
     \<lparr>sd_skillName := Some ''architecture-diagram''\<rparr>"

definition step_architecture_review :: step_def where
  "step_architecture_review =
     (step_literal ''architecture_review'' ''Architecture Review'' DECIDE Gating [''architecture_diagram''] [TierS] False)
     \<lparr>sd_skillName := Some ''architecture-review'', sd_kickbackTarget := Some True\<rparr>"

definition step_stories :: step_def where
  "step_stories = (step_literal ''stories'' ''Stories'' DECIDE Gating [''architecture_review''] [] False)
     \<lparr>sd_skillName := Some ''stories'', sd_kickbackTarget := Some True\<rparr>"

definition step_conflict_check :: step_def where
  "step_conflict_check =
     (step_literal ''conflict_check'' ''Conflict Check'' DECIDE Gating [''stories''] [TierS] False)
     \<lparr>sd_skillName := Some ''conflict-check''\<rparr>"

definition step_plan :: step_def where
  "step_plan = (step_literal ''plan'' ''Plan'' DECIDE Gating [''conflict_check''] [] False)
     \<lparr>sd_skillName := Some ''plan'', sd_kickbackTarget := Some True\<rparr>"

definition step_coherence_check :: step_def where
  "step_coherence_check =
     (step_literal ''coherence_check'' ''Coherence Check'' DECIDE Gating [''plan''] [TierS] False)
     \<lparr>sd_skillName := Some ''coherence-check''\<rparr>"

definition step_plan_review :: step_def where
  "step_plan_review =
     (step_literal ''plan_review'' ''Plan Review'' DECIDE Gating [''coherence_check''] [TierS] False)
     \<lparr>sd_skillName := Some ''plan-review'', sd_absentArtifactReason := Some ''landed-before-plan-review''\<rparr>"

definition step_acceptance_specs :: step_def where
  "step_acceptance_specs =
     (step_literal ''acceptance_specs'' ''Acceptance Specs'' BUILD Gating [''plan''] [TierS] False)
     \<lparr>sd_skillName := Some ''writing-system-tests'', sd_featureInapplicableAllowed := True\<rparr>"

definition step_build :: step_def where
  "step_build = (step_literal ''build'' ''Build'' BUILD Structural [''plan''] [] True)
     \<lparr>sd_skillName := Some ''pipeline'', sd_loopGate := Some True,
      sd_treeAttestingCompletion := Some True\<rparr>"

definition step_test_suite :: step_def where
  "step_test_suite = (step_literal ''test_suite'' ''Test Suite'' BUILD Gating [''build''] [] False)
     \<lparr>sd_loopGate := Some True, sd_treeAttestingCompletion := Some True\<rparr>"

definition step_build_review :: step_def where
  "step_build_review = (step_literal ''build_review'' ''Build Review'' BUILD Gating [''test_suite''] [] False)
     \<lparr>sd_loopGate := Some True, sd_preservableOnStale := Some True\<rparr>"

definition step_manual_test :: step_def where
  "step_manual_test = (step_literal ''manual_test'' ''Manual Test'' SHIP Gating [''test_suite''] [TierS] True)
     \<lparr>sd_skillName := Some ''manual-test'', sd_featureInapplicableAllowed := True,
      sd_loopGate := Some True, sd_preservableOnStale := Some True,
      sd_configDisableAllowed := Some True\<rparr>"

definition step_prd_audit :: step_def where
  "step_prd_audit = (step_literal ''prd_audit'' ''PRD Audit'' SHIP Gating [''manual_test''] [] False)
     \<lparr>sd_skillName := Some ''prd-audit'', sd_loopGate := Some True,
      sd_preservableOnStale := Some True, sd_configDisableAllowed := Some True\<rparr>"

definition step_architecture_review_as_built :: step_def where
  "step_architecture_review_as_built =
     (step_literal ''architecture_review_as_built'' ''Architecture Review (as-built)'' SHIP Gating
        [''prd_audit''] [] False)
     \<lparr>sd_skillName := Some ''architecture-review'', sd_loopGate := Some True,
      sd_preservableOnStale := Some True\<rparr>"

definition step_rebase :: step_def where
  "step_rebase =
     (step_literal ''rebase'' ''Rebase'' SHIP Structural [''architecture_review_as_built''] [] False)
     \<lparr>sd_loopGate := Some True\<rparr>"

definition step_finish :: step_def where
  "step_finish = (step_literal ''finish'' ''Finish'' SHIP Gating [''rebase''] [] False)
     \<lparr>sd_skillName := Some ''finish'', sd_loopGate := Some True\<rparr>"

definition ALL_STEPS :: "step_def list" where
  "ALL_STEPS =
     [step_worktree, step_memory, step_explore, step_complexity, step_prd,
      step_architecture_diagram, step_architecture_review, step_stories, step_conflict_check,
      step_plan, step_coherence_check, step_plan_review, step_acceptance_specs, step_build,
      step_test_suite, step_build_review, step_manual_test, step_prd_audit,
      step_architecture_review_as_built, step_rebase, step_finish]"

lemmas builtin_step_defs =
  step_worktree_def step_memory_def step_explore_def step_complexity_def step_prd_def
  step_architecture_diagram_def step_architecture_review_def step_stories_def
  step_conflict_check_def step_plan_def step_coherence_check_def step_plan_review_def
  step_acceptance_specs_def step_build_def step_test_suite_def step_build_review_def
  step_manual_test_def step_prd_audit_def step_architecture_review_as_built_def
  step_rebase_def step_finish_def step_literal_def

definition oob_bootstrap :: step_def where
  "oob_bootstrap = (step_literal ''bootstrap'' ''Bootstrap'' UNDERSTAND Advisory [] [] False)
     \<lparr>sd_skillName := Some ''bootstrap''\<rparr>"

definition oob_assess :: step_def where
  "oob_assess = (step_literal ''assess'' ''Assess'' UNDERSTAND Advisory [] [] False)
     \<lparr>sd_skillName := Some ''assess''\<rparr>"

definition oob_remediate :: step_def where
  "oob_remediate = (step_literal ''remediate'' ''Remediate'' SHIP Advisory [''prd_audit''] [] False)
     \<lparr>sd_skillName := Some ''remediate''\<rparr>"

definition oob_attribution_verify :: step_def where
  "oob_attribution_verify =
     step_literal ''attribution_verify'' ''Attribution Verify'' SHIP Advisory [] [] False"

definition OUT_OF_BAND_STEPS :: "string \<rightharpoonup> step_def" where
  "OUT_OF_BAND_STEPS =
     [''bootstrap'' \<mapsto> oob_bootstrap, ''assess'' \<mapsto> oob_assess, ''remediate'' \<mapsto> oob_remediate,
      ''attribution_verify'' \<mapsto> oob_attribution_verify]"

record step_group =
  sg_name :: string
  sg_members :: "step_name list"

definition VALIDATION_GROUP :: step_group where
  "VALIDATION_GROUP =
     \<lparr>sg_name = ''validation'',
      sg_members = [''manual_test'', ''prd_audit'', ''architecture_review_as_built'']\<rparr>"

definition STEP_GROUPS :: "step_group list" where
  "STEP_GROUPS = [VALIDATION_GROUP]"

text \<open>The module-level loop that fills \<^verbatim>\<open>stepToGroupMap\<close>: later groups overwrite.\<close>

definition stepToGroupMap :: "step_name \<rightharpoonup> step_group" where
  "stepToGroupMap =
     foldl (\<lambda>m g. foldl (\<lambda>m' mem. m'(mem \<mapsto> g)) m (sg_members g)) Map.empty STEP_GROUPS"

definition getGroupForStep :: "step_name \<Rightarrow> step_group option" where
  "getGroupForStep nm = stepToGroupMap nm"

definition stepMap :: "step_name \<rightharpoonup> step_def" where
  "stepMap nm = find (\<lambda>s. sd_name s = nm) ALL_STEPS"

definition stepIndexMap :: "step_name \<rightharpoonup> nat" where
  "stepIndexMap nm = find_idx (\<lambda>s. sd_name s = nm) ALL_STEPS"

section \<open>Lookups\<close>

text \<open>
  The module's mutable \<^verbatim>\<open>customStepMap\<close> is the argument \<open>customs\<close> of the lookups that read
  it and part of the result of \<open>buildStepRegistry\<close>, which writes it.
\<close>

type_synonym custom_step_map = "string \<rightharpoonup> step_def"

definition resetCustomStepRegistrations :: "custom_step_map \<Rightarrow> custom_step_map" where
  "resetCustomStepRegistrations customs = Map.empty"

definition getStepDefinition :: "custom_step_map \<Rightarrow> step_name \<Rightarrow> step_def throws" where
  "getStepDefinition customs nm =
     (case stepMap nm of Some d \<Rightarrow> Inr d
      | None \<Rightarrow> (case OUT_OF_BAND_STEPS nm of Some d \<Rightarrow> Inr d
        | None \<Rightarrow> (case customs nm of Some d \<Rightarrow> Inr d
          | None \<Rightarrow> Inl (''Unknown step: '' @ nm))))"

definition getStepIndex :: "step_name \<Rightarrow> nat throws" where
  "getStepIndex nm =
     (case stepIndexMap nm of None \<Rightarrow> Inl (''Unknown step: '' @ nm) | Some i \<Rightarrow> Inr i)"

definition tryGetStepIndex :: "step_name \<Rightarrow> nat option" where
  "tryGetStepIndex nm = stepIndexMap nm"

definition getStepByIndex :: "int \<Rightarrow> step_def throws" where
  "getStepByIndex i =
     (if i < 0 \<or> int (length ALL_STEPS) \<le> i then Inl (''Step index out of range: '' @ int_str i)
      else Inr (ALL_STEPS ! nat i))"

section \<open>Skip rules\<close>

definition shouldSkipForTier :: "custom_step_map \<Rightarrow> step_name \<Rightarrow> complexity_tier \<Rightarrow> bool throws" where
  "shouldSkipForTier customs nm tier =
     map_sum id (\<lambda>d. tier \<in> set (sd_skippableForTiers d)) (getStepDefinition customs nm)"

definition shouldSkipForTrack :: "custom_step_map \<Rightarrow> step_name \<Rightarrow> track option \<Rightarrow> bool throws" where
  "shouldSkipForTrack customs nm trk =
     map_sum id (\<lambda>d. (case trk of None \<Rightarrow> Product | Some t \<Rightarrow> t)
                     \<in> set (case sd_skippableForTracks d of None \<Rightarrow> [] | Some ts \<Rightarrow> ts))
       (getStepDefinition customs nm)"

definition STEPS_SKIPPED_WHEN_NEW :: "step_name list" where
  "STEPS_SKIPPED_WHEN_NEW = [''assess'']"

definition shouldSkipForBootstrapMode :: "step_name \<Rightarrow> bootstrap_mode option \<Rightarrow> bool" where
  "shouldSkipForBootstrapMode nm mode =
     (if mode \<noteq> Some ModeNew then False else nm \<in> set STEPS_SKIPPED_WHEN_NEW)"

text \<open>\<open>status\<close> is the state's raw entry for a step, \<open>None\<close> when the field is absent.\<close>

definition shouldSkipForUpstreamSkip :: "step_def \<Rightarrow> (step_name \<Rightarrow> step_status option) \<Rightarrow> bool" where
  "shouldSkipForUpstreamSkip st status =
     (case sd_skipWhenSkipped st of None \<Rightarrow> False
      | Some dep \<Rightarrow> dep \<noteq> [] \<and> status dep = Some Skipped)"

definition getSkippableSteps :: "complexity_tier \<Rightarrow> step_name list" where
  "getSkippableSteps tier =
     map sd_name (filter (\<lambda>s. tier \<in> set (sd_skippableForTiers s)) ALL_STEPS)"

datatype feature_declarability = Declarable | NotDeclarable string

definition isFeatureDeclarable :: "string \<Rightarrow> string list \<Rightarrow> feature_declarability" where
  "isFeatureDeclarable nm customStepNames =
     (if nm \<in> set customStepNames then NotDeclarable nm
      else (case stepMap nm of
              Some d \<Rightarrow> if sd_featureInapplicableAllowed d then Declarable else NotDeclarable nm
            | None \<Rightarrow> NotDeclarable nm))"

definition isCheckpointStep :: "custom_step_map \<Rightarrow> step_name \<Rightarrow> bool throws" where
  "isCheckpointStep customs nm = map_sum id sd_isCheckpoint (getStepDefinition customs nm)"

definition getPrerequisites :: "custom_step_map \<Rightarrow> step_name \<Rightarrow> step_name list throws" where
  "getPrerequisites customs nm = map_sum id sd_prerequisites (getStepDefinition customs nm)"

section \<open>Assembling the registry\<close>

text \<open>
  An entry of \<^verbatim>\<open>config.steps\<close>: its property values, \<open>None\<close> for an absent one. The entries
  come in \<^verbatim>\<open>Object.entries\<close> order; an entry that is no object is \<open>None\<close>.
\<close>

record step_config =
  sc_after :: "string option"
  sc_skill :: "string option"
  sc_parallel :: "jval list option"
  sc_enforcement :: "enforcement_level option"
  sc_gate :: "bool option"
  sc_kickback_target :: "bool option"

type_synonym config_steps = "(string \<times> step_config option) list"

record addition =
  ad_name :: string
  ad_after :: string
  ad_skill :: "string option"
  ad_enforcement :: enforcement_level
  ad_gate :: "bool option"
  ad_kickbackTarget :: "bool option"

text \<open>The falsy string values of an optional string property: absent or empty.\<close>

definition falsy_string :: "string option \<Rightarrow> bool" where
  "falsy_string s = (s = None \<or> s = Some [])"

fun registry_additions :: "config_steps \<Rightarrow> addition list" where
  "registry_additions [] = []"
| "registry_additions ((nm, cfg) # rest) =
     (if nm \<in> set (map sd_name ALL_STEPS) then registry_additions rest
      else (case cfg of None \<Rightarrow> registry_additions rest
        | Some c \<Rightarrow>
            if falsy_string (sc_after c) \<or>
               (falsy_string (sc_skill c) \<and> (sc_parallel c = None \<or> sc_parallel c = Some []))
            then registry_additions rest
            else \<lparr>ad_name = nm, ad_after = the (sc_after c), ad_skill = sc_skill c,
                  ad_enforcement = (case sc_enforcement c of None \<Rightarrow> Advisory | Some e \<Rightarrow> e),
                  ad_gate = sc_gate c, ad_kickbackTarget = sc_kickback_target c\<rparr>
                 # registry_additions rest))"

definition custom_step :: "addition \<Rightarrow> step_def \<Rightarrow> step_def" where
  "custom_step custom targetStep =
     (step_literal (ad_name custom) (ad_name custom) (sd_phase targetStep) (ad_enforcement custom)
        [ad_after custom] [] False)
     \<lparr>sd_skillName := ad_skill custom,
      sd_loopGate := (case ad_gate custom of None \<Rightarrow> sd_loopGate targetStep | Some g \<Rightarrow> Some g),
      sd_kickbackTarget := Some (case ad_kickbackTarget custom of None \<Rightarrow> False | Some k \<Rightarrow> k)\<rparr>"

text \<open>
  One pass of the insertion loop over \<open>pending\<close>, in configuration order: the registry, the
  custom map, the per-target anchor of the last sibling, the additions still pending, and
  whether the pass made progress.
\<close>

fun insert_pass ::
  "addition list \<Rightarrow> step_def list \<Rightarrow> custom_step_map \<Rightarrow> (string \<rightharpoonup> nat) \<Rightarrow> addition list \<Rightarrow> bool
   \<Rightarrow> step_def list \<times> custom_step_map \<times> addition list \<times> bool" where
  "insert_pass [] result customs lastInsert still progress = (result, customs, still, progress)"
| "insert_pass (custom # pending) result customs lastInsert still progress =
     (case find_idx (\<lambda>s. sd_name s = ad_after custom) result of
        None \<Rightarrow> insert_pass pending result customs lastInsert (still @ [custom]) progress
      | Some existingIdx \<Rightarrow>
          let insertAt = (case lastInsert (ad_after custom) of
                            Some siblingAnchor \<Rightarrow> siblingAnchor | None \<Rightarrow> existingIdx) + 1;
              newStep = custom_step custom (result ! existingIdx)
          in insert_pass pending (insert_at insertAt newStep result)
               (customs(ad_name custom \<mapsto> newStep)) (lastInsert(ad_after custom \<mapsto> insertAt))
               still True)"

lemma insert_pass_still_length:
  "insert_pass pending result customs li still progress = (r, c, still', p) \<Longrightarrow>
     length still' \<le> length still + length pending \<and>
     (\<not> progress \<longrightarrow> p \<longrightarrow> length still' < length still + length pending)"
proof (induction pending result customs li still progress rule: insert_pass.induct)
  case (1 result customs lastInsert still progress)
  then show ?case by auto
next
  case (2 custom pending result customs lastInsert still progress)
  show ?case
  proof (cases "find_idx (\<lambda>s. sd_name s = ad_after custom) result")
    case None
    with "2.prems" "2.IH"(1) show ?thesis by auto
  next
    case (Some k)
    note ih = "2.IH"(2) [OF Some refl refl]
    have "insert_pass pending
        (insert_at ((case lastInsert (ad_after custom) of Some a \<Rightarrow> a | None \<Rightarrow> k) + 1)
           (custom_step custom (result ! k)) result)
        (customs(ad_name custom \<mapsto> custom_step custom (result ! k)))
        (lastInsert(ad_after custom \<mapsto>
           (case lastInsert (ad_after custom) of Some a \<Rightarrow> a | None \<Rightarrow> k) + 1)) still True
      = (r, c, still', p)"
      using Some "2.prems" by (simp add: Let_def)
    from ih [OF this] show ?thesis by auto
  qed
qed

lemma insert_pass_progress:
  "(r, c, s, True) = insert_pass pending result customs li [] False \<Longrightarrow> length s < length pending"
  using insert_pass_still_length [of pending result customs li "[]" False r c s True] by simp

text \<open>The outer \<^verbatim>\<open>while (pending.length > 0 && progress)\<close>.\<close>

function insert_rounds ::
  "addition list \<Rightarrow> step_def list \<Rightarrow> custom_step_map \<Rightarrow> step_def list \<times> custom_step_map \<times> addition list" where
  "insert_rounds pending result customs =
     (if pending = [] then (result, customs, [])
      else (case insert_pass pending result customs Map.empty [] False of
              (result', customs', still, progress) \<Rightarrow>
                if progress then insert_rounds still result' customs'
                else (result', customs', still)))"
  by pat_completeness auto
termination
  by (relation "measure (\<lambda>(pending, result, customs). length pending)")
     (auto dest: insert_pass_progress)

declare insert_rounds.simps [simp del]

definition buildStepRegistry ::
  "config_steps \<Rightarrow> custom_step_map \<Rightarrow> step_def list \<times> custom_step_map" where
  "buildStepRegistry cfg customs =
     (case insert_rounds (registry_additions cfg) ALL_STEPS customs of (r, c, _) \<Rightarrow> (r, c))"

definition invalid_from_message :: "string \<Rightarrow> step_name list \<Rightarrow> string" where
  "invalid_from_message from validStepNames =
     ''Invalid --from step '' @ [CHR 0x22] @ from @ [CHR 0x22] @ ''.'' @ [CHR 0x0A]
     @ ''Valid steps: '' @ join '', '' validStepNames"

definition validateFromStep ::
  "string option \<Rightarrow> config_steps \<Rightarrow> custom_step_map \<Rightarrow> string option \<times> custom_step_map" where
  "validateFromStep from cfg customs =
     (if falsy_string from then (None, customs)
      else (case buildStepRegistry cfg customs of (steps, customs') \<Rightarrow>
             let validStepNames = map sd_name steps in
             (if the from \<in> set validStepNames then None
              else Some (invalid_from_message (the from) validStepNames), customs')))"

definition firstShipConsumer :: "step_def list \<Rightarrow> step_def option" where
  "firstShipConsumer steps = find (\<lambda>s. sd_phase s = SHIP) steps"

section \<open>Well-formed step lists\<close>

text \<open>
  \<open>prereqs_ok seen steps\<close>: every step's prerequisites are named by an earlier step of the
  list or by \<open>seen\<close>. The conductor walks the list in order and refuses a step whose
  prerequisites are not satisfied, so this is what lets a run get through it.
\<close>

fun prereqs_ok :: "step_name list \<Rightarrow> step_def list \<Rightarrow> bool" where
  "prereqs_ok seen [] = True"
| "prereqs_ok seen (s # ss) =
     (set (sd_prerequisites s) \<subseteq> set seen \<and> prereqs_ok (seen @ [sd_name s]) ss)"

definition prereqs_precede :: "step_def list \<Rightarrow> bool" where
  "prereqs_precede steps = prereqs_ok [] steps"

lemma prereqs_ok_append:
  "prereqs_ok seen (xs @ ys) \<longleftrightarrow> prereqs_ok seen xs \<and> prereqs_ok (seen @ map sd_name xs) ys"
  by (induction xs arbitrary: seen) auto

lemma prereqs_ok_mono: "prereqs_ok seen xs \<Longrightarrow> set seen \<subseteq> set seen' \<Longrightarrow> prereqs_ok seen' xs"
proof (induction xs arbitrary: seen seen')
  case Nil
  then show ?case by simp
next
  case (Cons x xs)
  have "prereqs_ok (seen' @ [sd_name x]) xs"
    by (rule Cons.IH [of "seen @ [sd_name x]"]) (use Cons.prems in auto)
  with Cons.prems show ?case by auto
qed

lemma prereqs_precede_nth:
  assumes "prereqs_precede steps" "i < length steps" "p \<in> set (sd_prerequisites (steps ! i))"
  shows "\<exists>j<i. sd_name (steps ! j) = p"
proof -
  have "prereqs_ok [] (take i steps @ steps ! i # drop (Suc i) steps)"
    using assms(1,2) by (simp add: prereqs_precede_def id_take_nth_drop [symmetric])
  then have "p \<in> set (map sd_name (take i steps))"
    using assms(3) by (auto simp: prereqs_ok_append)
  then obtain j where "j < length (take i steps)" "sd_name (take i steps ! j) = p"
    by (auto simp: in_set_conv_nth)
  with assms(2) show ?thesis by auto
qed

lemma prereqs_precede_insert:
  assumes "prereqs_precede steps" "k < length steps"
    "set (sd_prerequisites y) \<subseteq> {sd_name (steps ! k)}"
  shows "prereqs_precede (insert_at (Suc k) y steps)"
proof -
  let ?a = "take (Suc k) steps" and ?b = "drop (Suc k) steps"
  have "prereqs_ok [] (?a @ ?b)" using assms(1) by (simp add: prereqs_precede_def)
  then have a: "prereqs_ok [] ?a" and b: "prereqs_ok (map sd_name ?a) ?b"
    by (auto simp: prereqs_ok_append simp del: append_take_drop_id)
  have y: "set (sd_prerequisites y) \<subseteq> set (map sd_name ?a)"
    using assms(2,3) by (auto simp: take_Suc_conv_app_nth)
  have "prereqs_ok (map sd_name ?a @ [sd_name y]) ?b"
    by (rule prereqs_ok_mono [OF b]) auto
  with a y show ?thesis by (simp add: prereqs_precede_def insert_at_def prereqs_ok_append)
qed

lemma ALL_STEPS_names:
  "map sd_name ALL_STEPS =
     [''worktree'', ''memory'', ''explore'', ''complexity'', ''prd'', ''architecture_diagram'',
      ''architecture_review'', ''stories'', ''conflict_check'', ''plan'', ''coherence_check'',
      ''plan_review'', ''acceptance_specs'', ''build'', ''test_suite'', ''build_review'',
      ''manual_test'', ''prd_audit'', ''architecture_review_as_built'', ''rebase'', ''finish'']"
  by (simp add: ALL_STEPS_def builtin_step_defs)

lemma ALL_STEPS_distinct: "distinct (map sd_name ALL_STEPS)"
  by (simp add: ALL_STEPS_names)

lemma ALL_STEPS_prereqs: "prereqs_precede ALL_STEPS"
  by (simp add: prereqs_precede_def ALL_STEPS_def builtin_step_defs)

lemma ALL_STEPS_stepMap: "s \<in> set ALL_STEPS \<Longrightarrow> stepMap (sd_name s) = Some s"
proof -
  assume s: "s \<in> set ALL_STEPS"
  then obtain t where t: "stepMap (sd_name s) = Some t"
    by (cases "stepMap (sd_name s)") (auto simp: stepMap_def find_None_iff)
  then have "t \<in> set ALL_STEPS" "sd_name t = sd_name s"
    by (auto simp: stepMap_def find_Some_iff)
  with s ALL_STEPS_distinct have "t = s" by (auto simp: distinct_map dest: inj_onD)
  with t show ?thesis by simp
qed

lemma stepMap_None_iff: "stepMap nm = None \<longleftrightarrow> nm \<notin> set (map sd_name ALL_STEPS)"
  by (auto simp: stepMap_def find_None_iff)

section \<open>Invariants of the assembly\<close>

abbreviation target_index :: "addition \<Rightarrow> step_def list \<Rightarrow> nat option" where
  "target_index a res \<equiv> find_idx (\<lambda>s. sd_name s = ad_after a) res"

lemma insert_pass_invariant:
  assumes run: "insert_pass pending result customs li still progress = (r, c, s, p)"
    and init: "J pending result customs li still"
    and skip: "\<And>a pend res cu l st. J (a # pend) res cu l st \<Longrightarrow> target_index a res = None
      \<Longrightarrow> J pend res cu l (st @ [a])"
    and ins: "\<And>a pend res cu l st k at. J (a # pend) res cu l st \<Longrightarrow> target_index a res = Some k
      \<Longrightarrow> at = Suc (case l (ad_after a) of Some x \<Rightarrow> x | None \<Rightarrow> k)
      \<Longrightarrow> J pend (insert_at at (custom_step a (res ! k)) res)
            (cu(ad_name a \<mapsto> custom_step a (res ! k))) (l(ad_after a \<mapsto> at)) st"
  shows "\<exists>l. J [] r c l s"
  using run init
proof (induction pending arbitrary: result customs li still progress)
  case Nil
  then show ?case by auto
next
  case (Cons a pending)
  show ?case
  proof (cases "target_index a result")
    case None
    with Cons.prems have run': "insert_pass pending result customs li (still @ [a]) progress = (r, c, s, p)"
      by simp
    show ?thesis by (rule Cons.IH [OF run' skip [OF Cons.prems(2) None]])
  next
    case (Some k)
    let ?at = "Suc (case li (ad_after a) of Some x \<Rightarrow> x | None \<Rightarrow> k)"
    from Some Cons.prems have run': "insert_pass pending (insert_at ?at (custom_step a (result ! k)) result)
       (customs(ad_name a \<mapsto> custom_step a (result ! k))) (li(ad_after a \<mapsto> ?at)) still True = (r, c, s, p)"
      by (simp add: Let_def)
    show ?thesis by (rule Cons.IH [OF run' ins [OF Cons.prems(2) Some refl]])
  qed
qed

lemma insert_rounds_invariant:
  assumes run: "insert_rounds pending result customs = (R, C, S)"
    and init: "I pending result customs"
    and pass: "\<And>pend res cu r c s p. I pend res cu
      \<Longrightarrow> insert_pass pend res cu Map.empty [] False = (r, c, s, p) \<Longrightarrow> I s r c"
  shows "I S R C"
  using run init
proof (induction pending result customs rule: insert_rounds.induct)
  case (1 pending result customs)
  obtain r c s p where pas: "insert_pass pending result customs Map.empty [] False = (r, c, s, p)"
    using prod_cases4 by blast
  show ?case
  proof (cases "pending = []")
    case True
    with "1.prems" show ?thesis by (subst (asm) insert_rounds.simps) simp
  next
    case False
    have I: "I s r c" by (rule pass [OF "1.prems"(2) pas])
    show ?thesis
    proof (cases p)
      case True
      with False pas "1.prems"(1) have "insert_rounds s r c = (R, C, S)"
        by (subst (asm) insert_rounds.simps) simp
      from "1.IH" [OF False pas [symmetric] refl refl True this I] show ?thesis .
    next
      case False
      with pas "1.prems"(1) \<open>pending \<noteq> []\<close> have "(r, c, s) = (R, C, S)"
        by (subst (asm) insert_rounds.simps) simp
      with I show ?thesis by simp
    qed
  qed
qed

lemma custom_step_simps [simp]:
  "sd_name (custom_step a t) = ad_name a"
  "sd_prerequisites (custom_step a t) = [ad_after a]"
  "sd_phase (custom_step a t) = sd_phase t"
  "sd_enforcement (custom_step a t) = ad_enforcement a"
  by (simp_all add: custom_step_def step_literal_def)

text \<open>The result of the assembly is the state the rounds stop in.\<close>

lemma buildStepRegistry_invariant:
  assumes init: "I (registry_additions cfg) ALL_STEPS customs"
    and pass: "\<And>pend res cu r c s p. I pend res cu
      \<Longrightarrow> insert_pass pend res cu Map.empty [] False = (r, c, s, p) \<Longrightarrow> I s r c"
  shows "\<exists>S. I S (fst (buildStepRegistry cfg customs)) (snd (buildStepRegistry cfg customs))"
proof -
  obtain R C S where run: "insert_rounds (registry_additions cfg) ALL_STEPS customs = (R, C, S)"
    using prod_cases3 by blast
  have "I S R C" by (rule insert_rounds_invariant [where I = I, OF run init]) (rule pass)
  with run show ?thesis by (auto simp: buildStepRegistry_def)
qed

definition order_inv :: "addition list \<Rightarrow> step_def list \<Rightarrow> custom_step_map \<Rightarrow> bool" where
  "order_inv pend res cu \<longleftrightarrow> subseq ALL_STEPS res"

lemma order_inv_pass:
  assumes "order_inv pend res cu" "insert_pass pend res cu Map.empty [] False = (r, c, s, p)"
  shows "order_inv s r c"
proof -
  let ?J = "\<lambda>(pend :: addition list) res (cu :: custom_step_map) (l :: string \<rightharpoonup> nat) (st :: addition list).
      subseq ALL_STEPS res"
  have "\<exists>l. ?J [] r c l s"
    by (rule insert_pass_invariant [where J = ?J, OF assms(2)])
       (use assms(1) in \<open>auto simp: order_inv_def intro: subseq_order.order_trans subseq_insert_at\<close>)
  then show ?thesis by (simp add: order_inv_def)
qed

definition resolvable :: "step_def list \<Rightarrow> custom_step_map \<Rightarrow> bool" where
  "resolvable res cu \<longleftrightarrow> (\<forall>s\<in>set res. s \<in> set ALL_STEPS \<or> cu (sd_name s) \<noteq> None)"

lemma resolvable_pass:
  assumes "resolvable res cu" "insert_pass pend res cu Map.empty [] False = (r, c, s, p)"
  shows "resolvable r c"
proof -
  let ?J = "\<lambda>(pend :: addition list) res cu (l :: string \<rightharpoonup> nat) (st :: addition list). resolvable res cu"
  have "\<exists>l. ?J [] r c l s"
    by (rule insert_pass_invariant [where J = ?J, OF assms(2)]) (use assms(1) in \<open>auto simp: resolvable_def\<close>)
  then show ?thesis by simp
qed

text \<open>The names of a duplicate-free configuration stay apart, in the registry and outside it.\<close>

definition names_inv :: "addition list \<Rightarrow> step_def list \<Rightarrow> custom_step_map \<Rightarrow> bool" where
  "names_inv pend res cu \<longleftrightarrow>
     distinct (map ad_name pend @ map sd_name res) \<and>
     (\<forall>s\<in>set res. s \<in> set ALL_STEPS \<or> cu (sd_name s) = Some s)"

lemma names_inv_pass:
  assumes "names_inv pend res cu" "insert_pass pend res cu Map.empty [] False = (r, c, s, p)"
  shows "names_inv s r c"
proof -
  let ?J = "\<lambda>pend res cu (l :: string \<rightharpoonup> nat) st. names_inv (st @ pend) res cu"
  have "\<exists>l. ?J [] r c l s"
  proof (rule insert_pass_invariant [where J = ?J, OF assms(2)])
    show "names_inv ([] @ pend) res cu" using assms(1) by simp
  next
    fix a pend res cu l st k at
    assume inv: "names_inv (st @ a # pend) res cu"
    let ?r = "insert_at at (custom_step a (res ! k)) res"
    have dist: "distinct (map ad_name st @ ad_name a # map ad_name pend @ map sd_name res)"
      using inv by (simp only: names_inv_def map_append list.map append_assoc append_Cons)
    have "distinct (map ad_name (st @ pend) @ map sd_name ?r)"
      using distinct_move_insert [OF dist, of at] by (simp add: map_insert_at)
    moreover have "sd_name x \<noteq> ad_name a" if "x \<in> set res" for x
    proof -
      have "ad_name a \<notin> set (map sd_name res)" using dist by simp
      with that show ?thesis by (metis image_eqI list.set_map)
    qed
    ultimately show "names_inv (st @ pend) ?r (cu(ad_name a \<mapsto> custom_step a (res ! k)))"
      using inv by (simp add: names_inv_def)
  qed simp
  then show ?thesis by simp
qed

lemma additions_name_set: "set (map ad_name (registry_additions cfg)) \<subseteq> set (map fst cfg) - set (map sd_name ALL_STEPS)"
  by (induction cfg rule: registry_additions.induct) (auto split: option.splits)

lemma additions_names_distinct: "distinct (map fst cfg) \<Longrightarrow> distinct (map ad_name (registry_additions cfg))"
proof (induction cfg rule: registry_additions.induct)
  case 1
  then show ?case by simp
next
  case (2 nm c rest)
  have "nm \<notin> set (map ad_name (registry_additions rest))"
    using additions_name_set [of rest] "2.prems" by auto
  with 2 show ?case by (auto split: option.splits)
qed

lemma names_inv_init:
  "distinct (map fst cfg) \<Longrightarrow> names_inv (registry_additions cfg) ALL_STEPS customs"
  using additions_names_distinct additions_name_set [of cfg] ALL_STEPS_distinct
  by (fastforce simp: names_inv_def)

text \<open>What the loop leaves behind: nothing resolvable.\<close>

definition covered :: "addition set \<Rightarrow> addition list \<Rightarrow> step_def list \<Rightarrow> bool" where
  "covered A pend res \<longleftrightarrow> (\<forall>a\<in>A. a \<in> set pend \<or> ad_name a \<in> set (map sd_name res))"

lemma covered_pass:
  assumes "covered A pend res" "insert_pass pend res cu Map.empty [] False = (r, c, s, p)"
  shows "covered A s r"
proof -
  let ?J = "\<lambda>pend res (cu :: custom_step_map) (l :: string \<rightharpoonup> nat) st. covered A (st @ pend) res"
  have "\<exists>l. ?J [] r c l s"
    by (rule insert_pass_invariant [where J = ?J, OF assms(2)])
       (use assms(1) in \<open>auto simp: covered_def map_insert_at\<close>)
  then show ?thesis by simp
qed

lemma insert_pass_stuck:
  "insert_pass pend res cu li still progress = (r, c, s, False) \<Longrightarrow>
     r = res \<and> s = still @ pend \<and> (\<forall>a\<in>set pend. target_index a res = None)"
proof (induction pend res cu li still progress rule: insert_pass.induct)
  case (1 result customs lastInsert still progress)
  then show ?case by simp
next
  case (2 a pend res cu li still progress)
  have mono: "\<And>pend res cu li still r c s. insert_pass pend res cu li still True \<noteq> (r, c, s, False)"
  proof -
    fix pend res cu li still r c s
    show "insert_pass pend res cu li still True \<noteq> (r, c, s, False)"
      by (induction pend res cu li still "True" rule: insert_pass.induct)
         (auto simp: Let_def split: option.splits)
  qed
  show ?case
  proof (cases "target_index a res")
    case None
    with 2 show ?thesis by auto
  next
    case (Some k)
    with "2.prems" mono show ?thesis by (simp add: Let_def)
  qed
qed

lemma insert_rounds_stuck:
  "insert_rounds pend res cu = (R, C, S) \<Longrightarrow> \<forall>a\<in>set S. target_index a R = None"
proof (induction pend res cu rule: insert_rounds.induct)
  case (1 pend res cu)
  obtain r c s p where pas: "insert_pass pend res cu Map.empty [] False = (r, c, s, p)"
    using prod_cases4 by blast
  show ?case
  proof (cases "pend \<noteq> [] \<and> p")
    case True
    with pas "1.prems" have "insert_rounds s r c = (R, C, S)"
      by (subst (asm) insert_rounds.simps) simp
    from "1.IH" [OF conjunct1 [OF True] pas [symmetric] refl refl conjunct2 [OF True] this]
    show ?thesis .
  next
    case False
    with pas "1.prems" have "pend = [] \<and> S = [] \<or> (\<not> p \<and> (r, c, s) = (R, C, S))"
      by (subst (asm) insert_rounds.simps) (auto split: if_splits)
    then show ?thesis using pas insert_pass_stuck by fastforce
  qed
qed

text \<open>With one custom step per target, every anchor of a pass is fresh.\<close>

definition single_target_inv :: "addition list \<Rightarrow> step_def list \<Rightarrow> custom_step_map \<Rightarrow> bool" where
  "single_target_inv pend res cu \<longleftrightarrow> distinct (map ad_after pend) \<and> prereqs_precede res"

lemma single_target_pass:
  assumes "single_target_inv pend res cu" "insert_pass pend res cu Map.empty [] False = (r, c, s, p)"
  shows "single_target_inv s r c"
proof -
  let ?J = "\<lambda>pend res (cu :: custom_step_map) l st. distinct (map ad_after (st @ pend)) \<and> prereqs_precede res
      \<and> (\<forall>a\<in>set pend. l (ad_after a) = (None :: nat option))"
  have "\<exists>l. ?J [] r c l s"
  proof (rule insert_pass_invariant [OF assms(2), where J = ?J])
    show "?J pend res cu Map.empty []" using assms(1) by (simp add: single_target_inv_def)
  next
    fix a pend res cu l st k at
    assume J: "?J (a # pend) res cu l st" and k: "target_index a res = Some k"
      and at: "at = Suc (case l (ad_after a) of Some x \<Rightarrow> x | None \<Rightarrow> k)"
    from J have "at = Suc k" by (simp add: at)
    moreover have "k < length res \<and> sd_name (res ! k) = ad_after a"
      using find_idx_SomeD [OF k] by simp
    ultimately have "prereqs_precede (insert_at at (custom_step a (res ! k)) res)"
      using J by (auto intro: prereqs_precede_insert)
    moreover have "\<forall>x\<in>set pend. ad_after x \<noteq> ad_after a" using J by (auto simp: image_iff)
    ultimately show "?J pend (insert_at at (custom_step a (res ! k)) res)
        (cu(ad_name a \<mapsto> custom_step a (res ! k))) (l(ad_after a \<mapsto> at)) st"
      using J by simp
  qed auto
  then show ?thesis by (auto simp: single_target_inv_def)
qed

end
