(* ===== verification/Registry.thy ===== *)
theory Registry
  imports Steps
begin

text \<open>
  What the assembly of the step registry guarantees: the built-in order survives, every
  scheduled step resolves by name to its own definition, no resolvable custom step is left
  out, and prerequisites come first when no two custom steps share a target. With shared
  targets the last guarantee fails, and a concrete configuration shows it.
\<close>

section \<open>Properties of the registry\<close>

text \<open>Two custom steps of a small configuration, one chained to the other.\<close>

definition custom_entry :: "string \<Rightarrow> step_config option" where
  "custom_entry after =
     Some \<lparr>sc_after = Some after, sc_skill = Some ''skills/x/SKILL.md'', sc_parallel = None,
           sc_enforcement = Some Gating, sc_gate = None, sc_kickback_target = None\<rparr>"

definition chained_config :: config_steps where
  "chained_config = [(''lint_report'', custom_entry ''lint''), (''lint'', custom_entry ''build'')]"

lemmas registry_eval_simps =
  buildStepRegistry_def insert_rounds.simps insert_at_def custom_step_def Let_def
  custom_entry_def falsy_string_def ALL_STEPS_def builtin_step_defs

lemma chained_registry_names:
  "map sd_name (fst (buildStepRegistry chained_config Map.empty)) =
     [''worktree'', ''memory'', ''explore'', ''complexity'', ''prd'', ''architecture_diagram'',
      ''architecture_review'', ''stories'', ''conflict_check'', ''plan'', ''coherence_check'',
      ''plan_review'', ''acceptance_specs'', ''build'', ''lint'', ''lint_report'', ''test_suite'',
      ''build_review'', ''manual_test'', ''prd_audit'', ''architecture_review_as_built'', ''rebase'',
      ''finish'']"
  by (simp add: chained_config_def registry_eval_simps)

lemma registry_builtins_subseq: "subseq ALL_STEPS (fst (buildStepRegistry cfg customs))"
proof -
  have "\<exists>S. order_inv S (fst (buildStepRegistry cfg customs)) (snd (buildStepRegistry cfg customs))"
    by (rule buildStepRegistry_invariant [where I = order_inv], simp add: order_inv_def,
        rule order_inv_pass)
  then show ?thesis by (auto simp: order_inv_def)
qed

lemma registry_names_inv:
  assumes "distinct (map fst cfg)"
  shows "\<exists>S. names_inv S (fst (buildStepRegistry cfg customs)) (snd (buildStepRegistry cfg customs))"
  by (rule buildStepRegistry_invariant [where I = names_inv], rule names_inv_init [OF assms],
      rule names_inv_pass)

text \<open>
  For a configuration with distinct step names the resolved registry contains
  every built-in step, in the built-in order, and no step name twice, whatever custom
  steps are spliced in.
\<close>

theorem registry_keeps_builtins:
  assumes "distinct (map fst cfg)"
  shows "subseq ALL_STEPS (fst (buildStepRegistry cfg customs)) \<and>
         distinct (map sd_name (fst (buildStepRegistry cfg customs)))"
  using registry_builtins_subseq registry_names_inv [OF assms] by (auto simp: names_inv_def)

theorem registry_keeps_builtins_witness:
  "subseq ALL_STEPS (fst (buildStepRegistry chained_config Map.empty)) \<and>
   distinct (map sd_name (fst (buildStepRegistry chained_config Map.empty)))"
  by (rule registry_keeps_builtins) (simp add: chained_config_def)

text \<open>
  C29: a step of the resolved registry resolves by name, through the static table, the
  out-of-band table and the recorded custom definitions, to exactly the definition the
  loop schedules (an out-of-band name excepted, where the engine's own definition wins).
  The dispatch path therefore never throws \<^verbatim>\<open>Unknown step\<close> for a scheduled step.
\<close>

theorem registry_step_resolves:
  assumes "distinct (map fst cfg)" "s \<in> set (fst (buildStepRegistry cfg customs))"
    and "OUT_OF_BAND_STEPS (sd_name s) = None"
  shows "getStepDefinition (snd (buildStepRegistry cfg customs)) (sd_name s) = Inr s"
proof -
  let ?R = "fst (buildStepRegistry cfg customs)" and ?C = "snd (buildStepRegistry cfg customs)"
  have inv: "distinct (map sd_name ?R)" "s \<in> set ALL_STEPS \<or> ?C (sd_name s) = Some s"
    using registry_names_inv [OF assms(1), of customs] assms(2) by (auto simp: names_inv_def)
  have sub: "set ALL_STEPS \<subseteq> set ?R"
    using registry_builtins_subseq [of cfg customs] by (rule subseq_set_mono)
  show ?thesis
  proof (cases "s \<in> set ALL_STEPS")
    case True
    then show ?thesis by (simp add: getStepDefinition_def ALL_STEPS_stepMap)
  next
    case False
    have "sd_name s \<notin> set (map sd_name ALL_STEPS)"
    proof
      assume "sd_name s \<in> set (map sd_name ALL_STEPS)"
      then obtain t where "t \<in> set ALL_STEPS" "sd_name t = sd_name s" by auto
      moreover have "t = s"
        using inv(1) assms(2) sub calculation by (auto simp: distinct_map dest: inj_onD)
      ultimately show False using False by simp
    qed
    then have "stepMap (sd_name s) = None" using stepMap_None_iff by blast
    then show ?thesis using False inv(2) assms(3) by (simp add: getStepDefinition_def)
  qed
qed

lemma chained_registry_lint:
  "\<exists>s\<in>set (fst (buildStepRegistry chained_config Map.empty)). sd_name s = ''lint'' \<and> sd_prerequisites s = [''build'']"
  by (simp add: chained_config_def registry_eval_simps)

theorem registry_step_resolves_witness:
  "\<exists>s. getStepDefinition (snd (buildStepRegistry chained_config Map.empty)) ''lint'' = Inr s \<and>
       sd_prerequisites s = [''build'']"
proof -
  obtain s where s: "s \<in> set (fst (buildStepRegistry chained_config Map.empty))"
      "sd_name s = ''lint''" "sd_prerequisites s = [''build'']"
    using chained_registry_lint by blast
  have "getStepDefinition (snd (buildStepRegistry chained_config Map.empty)) (sd_name s) = Inr s"
    by (rule registry_step_resolves [OF _ s(1)])
       (simp_all add: s(2) chained_config_def OUT_OF_BAND_STEPS_def)
  with s show ?thesis by auto
qed

text \<open>
  The insertion loop stops only when nothing more can be inserted: every
  well-formed addition of the configuration is in the registry, or its \<^verbatim>\<open>after\<close> target is
  not.
\<close>

theorem registry_omits_only_unresolvable:
  assumes "a \<in> set (registry_additions cfg)"
  shows "ad_name a \<in> set (map sd_name (fst (buildStepRegistry cfg customs))) \<or>
         ad_after a \<notin> set (map sd_name (fst (buildStepRegistry cfg customs)))"
proof -
  let ?A = "set (registry_additions cfg)"
  obtain R C S where run: "insert_rounds (registry_additions cfg) ALL_STEPS customs = (R, C, S)"
    using prod_cases3 by blast
  have "covered ?A S R"
    by (rule insert_rounds_invariant [where I = "\<lambda>p r c. covered ?A p r", OF run])
       (simp add: covered_def, rule covered_pass)
  moreover have "\<forall>a\<in>set S. target_index a R = None" by (rule insert_rounds_stuck [OF run])
  ultimately have "a \<in> set S \<Longrightarrow> target_index a R = None"
    and cov: "a \<in> set S \<or> ad_name a \<in> set (map sd_name R)"
    using assms by (auto simp: covered_def)
  then have "a \<in> set S \<Longrightarrow> ad_after a \<notin> set (map sd_name R)"
    by (auto simp: find_idx_None_iff)
  with cov show ?thesis by (auto simp: buildStepRegistry_def run)
qed

theorem registry_omits_only_unresolvable_witness:
  "''lint'' \<in> set (map sd_name (fst (buildStepRegistry chained_config Map.empty)))"
proof -
  have a: "\<lparr>ad_name = ''lint'', ad_after = ''build'', ad_skill = Some ''skills/x/SKILL.md'',
      ad_enforcement = Gating, ad_gate = None, ad_kickbackTarget = None\<rparr>
      \<in> set (registry_additions chained_config)"
    by (simp add: chained_config_def custom_entry_def falsy_string_def ALL_STEPS_names)
  have "''build'' \<in> set (map sd_name (fst (buildStepRegistry chained_config Map.empty)))"
    unfolding chained_registry_names by simp
  with registry_omits_only_unresolvable [OF a, of Map.empty] show ?thesis by (simp del: set_map)
qed

text \<open>
  When no two custom steps name the same \<^verbatim>\<open>after\<close> target, every prerequisite of
  every step of the resolved registry is an earlier step of it, so the linear walk can
  always reach each step with its gate open.
\<close>

theorem registry_prerequisites_precede:
  assumes "distinct (map ad_after (registry_additions cfg))"
    and "i < length (fst (buildStepRegistry cfg customs))"
    and "p \<in> set (sd_prerequisites (fst (buildStepRegistry cfg customs) ! i))"
  shows "\<exists>j<i. sd_name (fst (buildStepRegistry cfg customs) ! j) = p"
proof -
  have "\<exists>S. single_target_inv S (fst (buildStepRegistry cfg customs)) (snd (buildStepRegistry cfg customs))"
    by (rule buildStepRegistry_invariant [where I = single_target_inv],
        simp add: single_target_inv_def assms(1) ALL_STEPS_prereqs, rule single_target_pass)
  then have "prereqs_precede (fst (buildStepRegistry cfg customs))" by (auto simp: single_target_inv_def)
  from prereqs_precede_nth [OF this assms(2,3)] show ?thesis .
qed

theorem registry_prerequisites_precede_witness:
  "\<exists>j<15. sd_name (fst (buildStepRegistry chained_config Map.empty) ! j) = ''lint''"
proof -
  have d: "distinct (map ad_after (registry_additions chained_config))"
    by (simp add: chained_config_def custom_entry_def falsy_string_def ALL_STEPS_names)
  have l: "15 < length (fst (buildStepRegistry chained_config Map.empty))"
    and p: "''lint'' \<in> set (sd_prerequisites (fst (buildStepRegistry chained_config Map.empty) ! 15))"
    by (simp_all add: chained_config_def registry_eval_simps)
  show ?thesis by (rule registry_prerequisites_precede [OF d l p])
qed

text \<open>
  Two custom steps after \<^verbatim>\<open>plan\<close>, with two others inserted after the earlier \<^verbatim>\<open>explore\<close>
  between them in the file.
\<close>

definition interleaved_config :: config_steps where
  "interleaved_config =
     [(''risk'', custom_entry ''plan''), (''scan_a'', custom_entry ''explore''),
      (''scan_b'', custom_entry ''explore''), (''budget'', custom_entry ''plan'')]"

text \<open>
  The anchor of a sibling is an index recorded before later insertions shift the
  list. For the configuration above the second step after \<^verbatim>\<open>plan\<close> is spliced in before
  \<^verbatim>\<open>plan\<close> itself: it is scheduled ahead of its own prerequisite, and ahead of the sibling
  that precedes it in the file, where the code promises file order after the target.
\<close>

theorem registry_stale_anchor:
  "drop 9 (take 14 (map sd_name (fst (buildStepRegistry interleaved_config Map.empty)))) =
     [''stories'', ''conflict_check'', ''budget'', ''plan'', ''risk''] \<and>
   \<not> prereqs_precede (fst (buildStepRegistry interleaved_config Map.empty))"
  by (simp add: interleaved_config_def registry_eval_simps prereqs_precede_def)

end
