(* ===== verification/ConductState.thy ===== *)
theory ConductState
  imports Steps
begin

text \<open>
  The conduct state (\<^verbatim>\<open>src/conductor/src/types/state.ts\<close>, \<^verbatim>\<open>engine/state.ts\<close>): the flat JSON
  document that keeps step statuses and feature metadata side by side, how it is read and
  migrated, and the pure operations on it.
\<close>

section \<open>The flat document\<close>

text \<open>
  A field is absent or holds a parsed value. The typed readers below return what the
  declared type of the field allows; \<^verbatim>\<open>undefined\<close> and a value outside the type read as \<open>None\<close>.
\<close>

type_synonym conduct_state = "string \<rightharpoonup> jval"

fun status_json :: "step_status \<Rightarrow> jval" where
  "status_json Pending = JStr ''pending''"
| "status_json In_progress = JStr ''in_progress''"
| "status_json Done = JStr ''done''"
| "status_json Failed = JStr ''failed''"
| "status_json Refused = JStr ''refused''"
| "status_json Skipped = JStr ''skipped''"
| "status_json Stale = JStr ''stale''"

definition status_of_json :: "jval \<Rightarrow> step_status option" where
  "status_of_json v =
     find (\<lambda>x. status_json x = v) [Pending, In_progress, Done, Failed, Refused, Skipped, Stale]"

lemma status_json_inj [simp]: "status_json a = status_json b \<longleftrightarrow> a = b"
  by (cases a; cases b) simp_all

lemma status_of_status_json [simp]: "status_of_json (status_json x) = Some x"
  by (cases x) (simp_all add: status_of_json_def)

lemma status_of_json_Some_iff [simp]: "status_of_json v = Some x \<longleftrightarrow> v = status_json x"
  by (cases x) (auto simp: status_of_json_def)

declare status_json.simps [simp del]

lemmas status_json_strings = status_json.simps

text \<open>\<open>step_field s step\<close> is the raw \<^verbatim>\<open>state[step]\<close>.\<close>

definition step_field :: "conduct_state \<Rightarrow> step_name \<Rightarrow> step_status option" where
  "step_field s step = (case s step of None \<Rightarrow> None | Some v \<Rightarrow> status_of_json v)"

lemma step_field_upd [simp]:
  "step_field (s(f \<mapsto> v)) step = (if step = f then status_of_json v else step_field s step)"
  by (simp add: step_field_def)

lemma step_field_Some_iff: "step_field s step = Some x \<longleftrightarrow> s step = Some (status_json x)"
  by (auto simp: step_field_def split: option.splits)

fun tier_of_json :: "jval \<Rightarrow> complexity_tier option" where
  "tier_of_json (JStr t) =
     (if t = ''S'' then Some TierS else if t = ''M'' then Some TierM
      else if t = ''L'' then Some TierL else None)"
| "tier_of_json _ = None"

definition state_tier :: "conduct_state \<Rightarrow> complexity_tier option" where
  "state_tier s = Option.bind (s ''complexity_tier'') tier_of_json"

fun mode_of_json :: "jval \<Rightarrow> bootstrap_mode option" where
  "mode_of_json (JStr t) =
     (if t = ''new'' then Some ModeNew else if t = ''fresh'' then Some ModeFresh
      else if t = ''partial'' then Some ModePartial
      else if t = ''re-bootstrap'' then Some ModeReBootstrap else None)"
| "mode_of_json _ = None"

definition state_bootstrap_mode :: "conduct_state \<Rightarrow> bootstrap_mode option" where
  "state_bootstrap_mode s = Option.bind (s ''bootstrap_mode'') mode_of_json"

definition feature_complete :: "conduct_state \<Rightarrow> bool" where
  "feature_complete s = (s ''feature_status'' = Some (JStr ''complete''))"

section \<open>Reading the document\<close>

datatype state_error = Corrupted string | IoError string

text \<open>
  What the state path holds, up to the first parse: no file, a read failure, a blank file,
  text that is no JSON, or a parsed object.
\<close>

datatype state_doc =
    DocMissing
  | DocIoError string
  | DocBlank
  | DocInvalid
  | DocState conduct_state

text \<open>Truthiness of a field value.\<close>

fun truthy :: "jval option \<Rightarrow> bool" where
  "truthy None = False"
| "truthy (Some JNull) = False"
| "truthy (Some (JBool b)) = b"
| "truthy (Some (JNum n)) = (n \<noteq> 0)"
| "truthy (Some (JStr s)) = (s \<noteq> [])"
| "truthy (Some (JArr _)) = True"
| "truthy (Some (JObj _)) = True"

definition migrateState :: "conduct_state \<Rightarrow> conduct_state" where
  "migrateState s =
     (let brainstorm = s ''brainstorm'' in
      if \<not> truthy brainstorm then s
      else let m1 = (if s ''explore'' = None then s(''explore'' := brainstorm) else s);
               m2 = (if m1 ''prd'' = None then m1(''prd'' := brainstorm) else m1)
           in m2)"

definition readState :: "custom_step_map \<Rightarrow> state_doc \<Rightarrow> state_error + conduct_state" where
  "readState customs doc =
     (case doc of
        DocMissing \<Rightarrow> Inr Map.empty
      | DocIoError msg \<Rightarrow> Inl (IoError msg)
      | DocBlank \<Rightarrow> Inl (Corrupted ''State file is empty'')
      | DocInvalid \<Rightarrow> Inl (Corrupted ''Invalid JSON in state file'')
      | DocState parsed \<Rightarrow>
          (case (if parsed ''retro'' \<noteq> None then getStepDefinition customs ''retro''
                 else Inr step_worktree) of
             Inl msg \<Rightarrow> Inl (Corrupted msg)
           | Inr _ \<Rightarrow> Inr (migrateState parsed)))"

section \<open>Step status predicates\<close>

definition getStepStatus :: "conduct_state \<Rightarrow> step_name \<Rightarrow> step_status" where
  "getStepStatus s step = (case step_field s step of None \<Rightarrow> Pending | Some x \<Rightarrow> x)"

definition stepDone :: "conduct_state \<Rightarrow> step_name \<Rightarrow> bool" where
  "stepDone s step = (let status = getStepStatus s step in status = Done \<or> status = Skipped)"

definition stepSatisfied :: "conduct_state \<Rightarrow> step_name \<Rightarrow> bool" where
  "stepSatisfied s step =
     (let status = getStepStatus s step in status = Done \<or> status = Skipped \<or> status = Stale)"

lemma getStepStatus_upd [simp]:
  "getStepStatus (s(f \<mapsto> status_json x)) step = (if step = f then x else getStepStatus s step)"
  by (simp add: getStepStatus_def)

section \<open>Restaging\<close>

text \<open>The loop of \<open>markDownstreamStale\<close>, over the names after the target.\<close>

fun stale_loop :: "step_name list \<Rightarrow> step_name list \<Rightarrow> conduct_state \<Rightarrow> conduct_state" where
  "stale_loop preserve [] updated = updated"
| "stale_loop preserve (step # rest) updated =
     stale_loop preserve rest
       (if step \<in> set preserve then updated
        else if step_field updated step = Some Done then updated(step \<mapsto> status_json Stale)
        else updated)"

definition markDownstreamStale ::
  "conduct_state \<Rightarrow> step_name \<Rightarrow> step_name list \<Rightarrow> step_name list \<Rightarrow> conduct_state" where
  "markDownstreamStale s targetStep allStepNames preserve =
     (let start = (case index_of targetStep allStepNames of None \<Rightarrow> 0 | Some i \<Rightarrow> i + 1)
      in stale_loop preserve (drop start allStepNames) s)"

definition filterRestageChanges ::
  "conduct_state \<Rightarrow> (string \<times> jval) list \<Rightarrow> (string \<times> jval) list" where
  "filterRestageChanges s changes =
     filter (\<lambda>(field, _). s field \<noteq> Some (status_json Skipped)) changes"

lemma stale_loop_field:
  "stale_loop preserve steps s f =
     (if f \<in> set steps \<and> f \<notin> set preserve \<and> s f = Some (status_json Done)
      then Some (status_json Stale) else s f)"
  by (induction preserve steps s rule: stale_loop.induct) (auto simp: step_field_Some_iff)

text \<open>Every field after a restage, in one equation.\<close>

lemma markDownstreamStale_field:
  "markDownstreamStale s target names preserve f =
     (if f \<in> set (drop (case index_of target names of None \<Rightarrow> 0 | Some i \<Rightarrow> i + 1) names) \<and>
         f \<notin> set preserve \<and> s f = Some (status_json Done)
      then Some (status_json Stale) else s f)"
  by (simp add: markDownstreamStale_def stale_loop_field Let_def)

lemma getStepStatus_markDownstreamStale:
  "getStepStatus (markDownstreamStale s target names preserve) f =
     (if f \<in> set (drop (case index_of target names of None \<Rightarrow> 0 | Some i \<Rightarrow> i + 1) names) \<and>
         f \<notin> set preserve \<and> getStepStatus s f = Done
      then Stale else getStepStatus s f)"
proof -
  have "getStepStatus s f = Done \<longleftrightarrow> s f = Some (status_json Done)"
    by (auto simp: getStepStatus_def step_field_def split: option.splits)
  then show ?thesis
    by (simp add: getStepStatus_def step_field_def markDownstreamStale_field)
qed

section \<open>Migration facts\<close>

lemma migrateState_idem [simp]: "migrateState (migrateState s) = migrateState s"
  by (cases "truthy (s ''brainstorm'')"; cases "s ''explore''"; cases "s ''prd''"; cases "s ''brainstorm''")
     (simp_all add: migrateState_def Let_def)

lemma migrateState_keeps: "s f \<noteq> None \<Longrightarrow> migrateState s f = s f"
  by (auto simp: migrateState_def Let_def)

lemma migrateState_noop:
  "\<not> truthy (s ''brainstorm'') \<or> (s ''explore'' \<noteq> None \<and> s ''prd'' \<noteq> None) \<Longrightarrow> migrateState s = s"
  by (auto simp: migrateState_def Let_def)

lemma migrateState_fixed: "migrateState s = s \<longleftrightarrow>
    \<not> truthy (s ''brainstorm'') \<or> (s ''explore'' \<noteq> None \<and> s ''prd'' \<noteq> None)"
proof
  assume fx: "migrateState s = s"
  show "\<not> truthy (s ''brainstorm'') \<or> (s ''explore'' \<noteq> None \<and> s ''prd'' \<noteq> None)"
  proof (rule ccontr)
    assume "\<not> ?thesis"
    then have t: "truthy (s ''brainstorm'')" "s ''explore'' = None \<or> s ''prd'' = None" by auto
    then have "s ''brainstorm'' \<noteq> None" by (cases "s ''brainstorm''") auto
    moreover have "migrateState s ''explore'' \<noteq> None \<and> migrateState s ''prd'' \<noteq> None"
      using t(1) calculation by (auto simp: migrateState_def Let_def)
    ultimately show False using t fx by auto
  qed
qed (rule migrateState_noop)

lemma migrateState_upd:
  "migrateState s = s \<Longrightarrow> f \<noteq> ''brainstorm'' \<Longrightarrow> migrateState (s(f \<mapsto> v)) = s(f \<mapsto> v)"
  by (auto simp: migrateState_fixed)

lemma readState_migrated: "readState customs doc = Inr s \<Longrightarrow> migrateState s = s"
  by (auto simp: readState_def split: state_doc.splits sum.splits if_splits)
     (simp_all add: migrateState_def Let_def)

end
