(* ===== verification/StateStore.thy ===== *)
theory StateStore
  imports ConductState
begin

text \<open>
  The authoritative store of the conduct state: the conflict rules of a single mutation
  (\<^verbatim>\<open>engine/conduct-state-conflicts.ts\<close>), the filesystem adapter that applies mutations
  under a lease (\<^verbatim>\<open>engine/filesystem-conduct-state-store.ts\<close>), and the adapter that routes
  build-region fields to the active child's document (\<^verbatim>\<open>engine/conduct-state-store.ts\<close>).
\<close>

section \<open>Mutations and their results\<close>

record mutation =
  mu_field :: string
  mu_expected :: "jval option"
  mu_intent :: string
  mu_next :: jval

record deletion =
  del_field :: string
  del_expected :: "jval option"
  del_intent :: string

record correction =
  co_name :: string
  co_deletions :: "deletion list"
  co_mutations :: "mutation list"

datatype mutation_result =
    Applied "string list option"
  | Idempotent
  | Resolved
  | Conflict string
  | LeaseError string
  | Persistence string

section \<open>Deep equality and value summaries\<close>

text \<open>
  \<^verbatim>\<open>isDeepStrictEqual\<close> on parsed values: arrays in order, objects by own property.
\<close>

fun jeq :: "jval \<Rightarrow> jval \<Rightarrow> bool"
and jeq_list :: "jval list \<Rightarrow> jval list \<Rightarrow> bool"
and jeq_fields :: "(string \<times> jval) list \<Rightarrow> (string \<times> jval) list \<Rightarrow> bool" where
  "jeq (JArr xs) (JArr ys) = jeq_list xs ys"
| "jeq (JObj a) (JObj b) = (length a = length b \<and> jeq_fields a b)"
| "jeq x y = (x = y)"
| "jeq_list [] [] = True"
| "jeq_list (x # xs) (y # ys) = (jeq x y \<and> jeq_list xs ys)"
| "jeq_list _ _ = False"
| "jeq_fields [] b = True"
| "jeq_fields ((k, v) # a) b =
     ((case map_of b k of None \<Rightarrow> False | Some w \<Rightarrow> jeq v w) \<and> jeq_fields a b)"

fun stateMutationValuesEqual :: "jval option \<Rightarrow> jval option \<Rightarrow> bool" where
  "stateMutationValuesEqual (Some l) (Some r) = (l = r \<or> jeq l r)"
| "stateMutationValuesEqual l r = (l = r)"

lemma values_equal_refl [simp]: "stateMutationValuesEqual v v"
  by (cases v) simp_all

lemma jeq_str [simp]: "jeq (JStr s) v \<longleftrightarrow> v = JStr s" "jeq v (JStr s) \<longleftrightarrow> v = JStr s"
  by (cases v; auto)+

lemma values_equal_str [simp]:
  "stateMutationValuesEqual (Some (JStr s)) v \<longleftrightarrow> v = Some (JStr s)"
  "stateMutationValuesEqual v (Some (JStr s)) \<longleftrightarrow> v = Some (JStr s)"
  by (cases v; auto)+

lemma values_equal_status [simp]:
  "stateMutationValuesEqual (Some (status_json x)) v \<longleftrightarrow> v = Some (status_json x)"
  "stateMutationValuesEqual v (Some (status_json x)) \<longleftrightarrow> v = Some (status_json x)"
  by (cases x; simp add: status_json.simps)+

lemma values_equal_None [simp]:
  "stateMutationValuesEqual None v \<longleftrightarrow> v = None" "stateMutationValuesEqual v None \<longleftrightarrow> v = None"
  by (cases v; simp)+

datatype value_summary =
    SumUndefined
  | SumNull
  | SumString nat bool \<comment> \<open>length, truncated; always redacted\<close>
  | SumBoolean
  | SumNumber
  | SumArray nat bool
  | SumObject

definition MAX_DIAGNOSTIC_STRING_LENGTH :: nat where
  "MAX_DIAGNOSTIC_STRING_LENGTH = 256"

fun summarizeStateMutationValue :: "jval option \<Rightarrow> value_summary" where
  "summarizeStateMutationValue None = SumUndefined"
| "summarizeStateMutationValue (Some JNull) = SumNull"
| "summarizeStateMutationValue (Some (JStr s)) =
     SumString (min (length s) MAX_DIAGNOSTIC_STRING_LENGTH) (length s > MAX_DIAGNOSTIC_STRING_LENGTH)"
| "summarizeStateMutationValue (Some (JBool _)) = SumBoolean"
| "summarizeStateMutationValue (Some (JNum _)) = SumNumber"
| "summarizeStateMutationValue (Some (JArr xs)) =
     SumArray (min (length xs) MAX_DIAGNOSTIC_STRING_LENGTH) (length xs > MAX_DIAGNOSTIC_STRING_LENGTH)"
| "summarizeStateMutationValue (Some (JObj _)) = SumObject"

record diagnostic =
  dg_field :: string
  dg_intent :: string
  dg_disposition :: string
  dg_expected :: value_summary
  dg_current :: value_summary
  dg_next :: value_summary

definition emitDiagnostic :: "string \<Rightarrow> jval option \<Rightarrow> mutation \<Rightarrow> diagnostic" where
  "emitDiagnostic disposition currentValue mu =
     \<lparr>dg_field = mu_field mu, dg_intent = mu_intent mu, dg_disposition = disposition,
      dg_expected = summarizeStateMutationValue (mu_expected mu),
      dg_current = summarizeStateMutationValue currentValue,
      dg_next = summarizeStateMutationValue (Some (mu_next mu))\<rparr>"

section \<open>Conflict evaluation\<close>

datatype rule_phase = BeforeExpected | AfterIdempotent

definition CONDUCT_STATE_DOMAIN_RULES :: "(rule_phase \<times> (jval option \<Rightarrow> mutation \<Rightarrow> bool)) list" where
  "CONDUCT_STATE_DOMAIN_RULES =
     [(BeforeExpected, \<lambda>currentValue mu.
         currentValue = Some (status_json Skipped) \<and> mu_next mu = status_json Stale),
      (AfterIdempotent, \<lambda>currentValue mu.
         mu_field mu = ''feature_status'' \<and> currentValue = Some (JStr ''complete''))]"

definition matchesDomainRule :: "rule_phase \<Rightarrow> jval option \<Rightarrow> mutation \<Rightarrow> bool" where
  "matchesDomainRule ph currentValue mu =
     (\<exists>r\<in>set CONDUCT_STATE_DOMAIN_RULES. fst r = ph \<and> snd r currentValue mu)"

definition conflict_message :: "string \<Rightarrow> string \<Rightarrow> string" where
  "conflict_message field intent = ''Expected '' @ field @ '' to match before '' @ intent"

definition evaluateConductStateMutation ::
  "jval option \<Rightarrow> mutation \<Rightarrow> mutation_result \<times> diagnostic list" where
  "evaluateConductStateMutation currentValue mu =
     (if matchesDomainRule BeforeExpected currentValue mu
      then (Resolved, [emitDiagnostic ''resolved'' currentValue mu])
      else if stateMutationValuesEqual currentValue (mu_expected mu) then (Applied None, [])
      else if stateMutationValuesEqual currentValue (Some (mu_next mu)) then (Idempotent, [])
      else if matchesDomainRule AfterIdempotent currentValue mu
      then (Resolved, [emitDiagnostic ''resolved'' currentValue mu])
      else (Conflict (conflict_message (mu_field mu) (mu_intent mu)),
            [emitDiagnostic ''conflict'' currentValue mu]))"

section \<open>The filesystem adapter\<close>

text \<open>
  What the outside world does to one store call: the lease is refused with a message, the
  atomic write fails, or the release fails. \<open>None\<close> is success.
\<close>

record store_env =
  env_acquire :: "string option"
  env_write :: "string option"
  env_release :: "string option"

definition ok_env :: store_env where
  "ok_env = \<lparr>env_acquire = None, env_write = None, env_release = None\<rparr>"

definition whileHoldingLease ::
  "store_env \<Rightarrow> (state_doc \<Rightarrow> state_doc \<times> mutation_result) \<Rightarrow> state_doc \<Rightarrow> state_doc \<times> mutation_result" where
  "whileHoldingLease env mutate doc =
     (case env_acquire env of
        Some msg \<Rightarrow> (doc, LeaseError msg)
      | None \<Rightarrow>
          (case mutate doc of (doc', result) \<Rightarrow>
             (case env_release env of None \<Rightarrow> (doc', result) | Some msg \<Rightarrow> (doc', LeaseError msg))))"

fun state_error_message :: "state_error \<Rightarrow> string" where
  "state_error_message (Corrupted m) = m"
| "state_error_message (IoError m) = m"

text \<open>The \<^verbatim>\<open>try\<close>/\<^verbatim>\<open>catch\<close> around the atomic write: a failed write leaves the document.\<close>

definition persist_state ::
  "store_env \<Rightarrow> state_doc \<Rightarrow> conduct_state \<Rightarrow> mutation_result \<Rightarrow> state_doc \<times> mutation_result" where
  "persist_state env doc nextState result =
     (case env_write env of
        Some err \<Rightarrow> (doc, Persistence (''Failed to persist state: '' @ err))
      | None \<Rightarrow> (DocState nextState, result))"

definition fs_apply ::
  "custom_step_map \<Rightarrow> store_env \<Rightarrow> state_doc \<Rightarrow> mutation \<Rightarrow> state_doc \<times> mutation_result" where
  "fs_apply customs env doc mu = whileHoldingLease env (\<lambda>doc.
     (case readState customs doc of
        Inl e \<Rightarrow> (doc, Persistence (state_error_message e))
      | Inr s \<Rightarrow>
          (case fst (evaluateConductStateMutation (s (mu_field mu)) mu) of
             Applied _ \<Rightarrow> persist_state env doc (s(mu_field mu \<mapsto> mu_next mu)) (Applied None)
           | result \<Rightarrow> (doc, result)))) doc"

text \<open>The pre-check of a batch: the first mutation whose field matches neither value.\<close>

definition batch_mismatch :: "conduct_state \<Rightarrow> mutation \<Rightarrow> bool" where
  "batch_mismatch s mu =
     (\<not> stateMutationValuesEqual (s (mu_field mu)) (mu_expected mu) \<and>
      \<not> stateMutationValuesEqual (s (mu_field mu)) (Some (mu_next mu)))"

definition mutation_resolved :: "conduct_state \<Rightarrow> mutation \<Rightarrow> bool" where
  "mutation_resolved s mu =
     (fst (evaluateConductStateMutation (s (mu_field mu)) mu) = Resolved)"

definition apply_mutations :: "mutation list \<Rightarrow> conduct_state \<Rightarrow> conduct_state" where
  "apply_mutations mus s = foldl (\<lambda>updated mu. updated(mu_field mu \<mapsto> mu_next mu)) s mus"

definition fs_applyBatch ::
  "custom_step_map \<Rightarrow> store_env \<Rightarrow> state_doc \<Rightarrow> mutation list \<Rightarrow> state_doc \<times> mutation_result" where
  "fs_applyBatch customs env doc mus = whileHoldingLease env (\<lambda>doc.
     (case readState customs doc of
        Inl e \<Rightarrow> (doc, Persistence (state_error_message e))
      | Inr s \<Rightarrow>
          (case find (batch_mismatch s) mus of
             Some mu \<Rightarrow> (doc, Conflict (conflict_message (mu_field mu) (mu_intent mu)))
           | None \<Rightarrow>
               let resolvedFields = map mu_field (filter (mutation_resolved s) mus);
                   appliedMutations = filter (\<lambda>mu. \<not> mutation_resolved s mu) mus
               in persist_state env doc (apply_mutations appliedMutations s)
                    (Applied (if resolvedFields = [] then None else Some resolvedFields))))) doc"

definition deletion_mismatch :: "conduct_state \<Rightarrow> deletion \<Rightarrow> bool" where
  "deletion_mismatch s d =
     (\<not> stateMutationValuesEqual (s (del_field d)) (del_expected d) \<and> s (del_field d) \<noteq> None)"

definition fs_applyCorrection ::
  "custom_step_map \<Rightarrow> store_env \<Rightarrow> state_doc \<Rightarrow> correction \<Rightarrow> state_doc \<times> mutation_result" where
  "fs_applyCorrection customs env doc cor = whileHoldingLease env (\<lambda>doc.
     (case readState customs doc of
        Inl e \<Rightarrow> (doc, Persistence (state_error_message e))
      | Inr s \<Rightarrow>
          (case find (deletion_mismatch s) (co_deletions cor) of
             Some d \<Rightarrow> (doc, Conflict (conflict_message (del_field d) (del_intent d)))
           | None \<Rightarrow>
               (case find (batch_mismatch s) (co_mutations cor) of
                  Some mu \<Rightarrow> (doc, Conflict (conflict_message (mu_field mu) (mu_intent mu)))
                | None \<Rightarrow>
                    persist_state env doc
                      (apply_mutations (co_mutations cor)
                         (foldl (\<lambda>st d. st(del_field d := None)) s (co_deletions cor)))
                      (Applied None))))) doc"

definition fs_replace ::
  "custom_step_map \<Rightarrow> store_env \<Rightarrow> state_doc \<Rightarrow> conduct_state \<Rightarrow> state_doc \<times> mutation_result" where
  "fs_replace customs env doc nextState = whileHoldingLease env (\<lambda>doc.
     (case readState customs doc of
        Inl e \<Rightarrow> (doc, Persistence (state_error_message e))
      | Inr s \<Rightarrow> persist_state env doc nextState (Applied None))) doc"

section \<open>The child overlay and the routed adapter\<close>

definition CHILD_REGION_STEPS :: "step_name list" where
  "CHILD_REGION_STEPS = [''acceptance_specs'', ''build'', ''test_suite'', ''build_review'']"

definition isRegionStep :: "step_name \<Rightarrow> bool" where
  "isRegionStep step = (step \<in> set CHILD_REGION_STEPS)"

definition overlay_state :: "conduct_state \<Rightarrow> conduct_state \<Rightarrow> conduct_state" where
  "overlay_state flat region field =
     (if isRegionStep field \<or> field = ''last_step'' then region field else flat field)"

text \<open>A worktree's documents: the feature-wide one and the active child's, if any.\<close>

record routed_docs =
  rd_flat :: state_doc
  rd_region :: state_doc

definition readConductStateOverlay ::
  "custom_step_map \<Rightarrow> bool \<Rightarrow> routed_docs \<Rightarrow> state_error + conduct_state" where
  "readConductStateOverlay customs has_child docs =
     (case readState customs (rd_flat docs) of
        Inl e \<Rightarrow> Inl e
      | Inr base \<Rightarrow>
          if \<not> has_child then Inr base
          else (case readState customs (rd_region docs) of
                  Inl e \<Rightarrow> Inl e
                | Inr region \<Rightarrow> Inr (overlay_state base region)))"

definition alignCursor ::
  "custom_step_map \<Rightarrow> mutation list \<Rightarrow> state_doc \<Rightarrow> state_doc \<Rightarrow> mutation list" where
  "alignCursor customs mus target other =
     (case find_idx (\<lambda>mu. mu_field mu = ''last_step'') mus of
        None \<Rightarrow> mus
      | Some i \<Rightarrow>
          (case readState customs target of
             Inl _ \<Rightarrow> mus
           | Inr current \<Rightarrow>
               if current ''last_step'' = mu_expected (mus ! i) then mus
               else (case readState customs other of
                       Inl _ \<Rightarrow> mus
                     | Inr crossed \<Rightarrow>
                         if crossed ''last_step'' \<noteq> mu_expected (mus ! i) then mus
                         else mus[i := (mus ! i)\<lparr>mu_expected := current ''last_step''\<rparr>])))"

definition routed_apply ::
  "custom_step_map \<Rightarrow> store_env \<Rightarrow> routed_docs \<Rightarrow> mutation \<Rightarrow> routed_docs \<times> mutation_result" where
  "routed_apply customs env docs mu =
     (if mu_field mu \<noteq> ''last_step'' then
        (if isRegionStep (mu_field mu)
         then (case fs_apply customs env (rd_region docs) mu of (d, r) \<Rightarrow> (docs\<lparr>rd_region := d\<rparr>, r))
         else (case fs_apply customs env (rd_flat docs) mu of (d, r) \<Rightarrow> (docs\<lparr>rd_flat := d\<rparr>, r)))
      else (case fs_apply customs env (rd_flat docs)
                   (hd (alignCursor customs [mu] (rd_flat docs) (rd_region docs))) of
              (d, r) \<Rightarrow> (docs\<lparr>rd_flat := d\<rparr>, r)))"

fun landed :: "mutation_result \<Rightarrow> bool" where
  "landed (Applied _) = True"
| "landed Idempotent = True"
| "landed _ = False"

definition region_mutation :: "mutation list \<Rightarrow> mutation \<Rightarrow> bool" where
  "region_mutation mus mu =
     (isRegionStep (mu_field mu) \<or>
      ((\<exists>m\<in>set mus. isRegionStep (mu_field m)) \<and> mu_field mu = ''last_step''))"

definition routed_applyBatch ::
  "custom_step_map \<Rightarrow> store_env \<Rightarrow> store_env \<Rightarrow> routed_docs \<Rightarrow> mutation list
   \<Rightarrow> routed_docs \<times> mutation_result" where
  "routed_applyBatch customs env_region env_flat docs mus =
     (let regionMutations = alignCursor customs (filter (region_mutation mus) mus)
                              (rd_region docs) (rd_flat docs);
          flatMutations = alignCursor customs (filter (\<lambda>mu. \<not> region_mutation mus mu) mus)
                              (rd_flat docs) (rd_region docs);
          (docs1, result1) =
            (if regionMutations = [] then (docs, Applied None)
             else (case fs_applyBatch customs env_region (rd_region docs) regionMutations of
                     (d, r) \<Rightarrow> (docs\<lparr>rd_region := d\<rparr>, r)))
      in if regionMutations \<noteq> [] \<and> \<not> landed result1 then (docs1, result1)
         else if flatMutations = [] then (docs1, Applied None)
         else (case fs_applyBatch customs env_flat (rd_flat docs1) flatMutations of
                 (d, r) \<Rightarrow> (docs1\<lparr>rd_flat := d\<rparr>, r)))"

definition routed_replace ::
  "custom_step_map \<Rightarrow> store_env \<Rightarrow> store_env \<Rightarrow> routed_docs \<Rightarrow> conduct_state
   \<Rightarrow> routed_docs \<times> mutation_result" where
  "routed_replace customs env_region env_flat docs nextState =
     (let region = (\<lambda>f. if isRegionStep f then nextState f else None);
          feature = (\<lambda>f. if isRegionStep f then None else nextState f)
      in case fs_replace customs env_region (rd_region docs) region of
           (d, r) \<Rightarrow>
             (let docs1 = docs\<lparr>rd_region := d\<rparr> in
              if \<not> landed r then (docs1, r)
              else (case fs_replace customs env_flat (rd_flat docs1) feature of
                      (d', r') \<Rightarrow> (docs1\<lparr>rd_flat := d'\<rparr>, r'))))"

end
