(* ===== verification/StoreLaws.thy ===== *)
theory StoreLaws
  imports StateStore
begin

text \<open>
  The contract of a conduct-state store, as its clients in \<^verbatim>\<open>engine/state.ts\<close> rely on it, and
  the two adapters that provide it. A batch built from a fresh snapshot lands and reads
  back; the filesystem adapter also leaves the document alone whenever it refuses.
\<close>

section \<open>The clients\<close>

text \<open>
  \<^verbatim>\<open>Object.is\<close> on a field value and a change: primitives by value; two parsed arrays or
  objects are distinct references.
\<close>

fun object_is :: "jval option \<Rightarrow> jval option \<Rightarrow> bool" where
  "object_is (Some l) (Some r) = (l = r \<and> primitive l)"
| "object_is l r = (l = r)"

definition changed_fields :: "conduct_state \<Rightarrow> (string \<times> jval option) list \<Rightarrow> (string \<times> jval option) list" where
  "changed_fields previous changes = filter (\<lambda>(field, nxt). \<not> object_is (previous field) nxt) changes"

definition applyStateChanges ::
  "('d \<Rightarrow> mutation list \<Rightarrow> 'd \<times> mutation_result) \<Rightarrow> 'd \<Rightarrow> conduct_state \<Rightarrow> (string \<times> jval option) list
   \<Rightarrow> string \<Rightarrow> ('d \<times> mutation_result) throws" where
  "applyStateChanges store_applyBatch d previous changes intent =
     (case find (\<lambda>(field, nxt). nxt = None) (changed_fields previous changes) of
        Some (field, _) \<Rightarrow> Inl (''Ordinary state mutation cannot clear '' @ field)
      | None \<Rightarrow>
          let mutations = map (\<lambda>(field, nxt). \<lparr>mu_field = field, mu_expected = previous field,
                                 mu_intent = intent, mu_next = the nxt\<rparr>)
                            (changed_fields previous changes)
          in if mutations = [] then Inr (d, Idempotent) else Inr (store_applyBatch d mutations))"

definition saveStepStatus ::
  "('d \<Rightarrow> state_error + conduct_state) \<Rightarrow> ('d \<Rightarrow> mutation list \<Rightarrow> 'd \<times> mutation_result) \<Rightarrow> 'd
   \<Rightarrow> step_name \<Rightarrow> step_status \<Rightarrow> 'd \<times> mutation_result" where
  "saveStepStatus store_read store_applyBatch d step status =
     (case store_read d of
        Inl e \<Rightarrow> (d, Persistence (state_error_message e))
      | Inr s \<Rightarrow> store_applyBatch d
          [\<lparr>mu_field = step, mu_expected = s step,
            mu_intent = ''save '' @ step @ '' step status'', mu_next = status_json status\<rparr>,
           \<lparr>mu_field = ''last_step'', mu_expected = s ''last_step'',
            mu_intent = ''record last completed step'', mu_next = JStr step\<rparr>])"

definition save_field ::
  "('d \<Rightarrow> state_error + conduct_state) \<Rightarrow> ('d \<Rightarrow> mutation \<Rightarrow> 'd \<times> mutation_result) \<Rightarrow> 'd
   \<Rightarrow> string \<Rightarrow> string \<Rightarrow> jval \<Rightarrow> 'd \<times> mutation_result" where
  "save_field store_read store_apply d field intent nxt =
     (case store_read d of
        Inl e \<Rightarrow> (d, Persistence (state_error_message e))
      | Inr s \<Rightarrow> store_apply d \<lparr>mu_field = field, mu_expected = s field, mu_intent = intent, mu_next = nxt\<rparr>)"

fun tier_json :: "complexity_tier \<Rightarrow> jval" where
  "tier_json TierS = JStr ''S''"
| "tier_json TierM = JStr ''M''"
| "tier_json TierL = JStr ''L''"

definition setComplexityTier where
  "setComplexityTier store_read store_apply d tier =
     save_field store_read store_apply d ''complexity_tier'' ''store complexity tier'' (tier_json tier)"

definition savePrUrl where
  "savePrUrl store_read store_apply d url =
     save_field store_read store_apply d ''pr_url'' ''store pull request URL'' (JStr url)"

definition markFeatureComplete where
  "markFeatureComplete store_read store_apply d =
     save_field store_read store_apply d ''feature_status'' ''mark feature complete'' (JStr ''complete'')"

text \<open>\<open>Inl\<close> is the error \<^verbatim>\<open>requireStateMutation\<close> throws.\<close>

fun requireStateMutation :: "mutation_result \<Rightarrow> string \<Rightarrow> unit throws" where
  "requireStateMutation (Conflict m) act = Inl (act @ '' failed (conflict): '' @ m)"
| "requireStateMutation (LeaseError m) act = Inl (act @ '' failed (lease): '' @ m)"
| "requireStateMutation (Persistence m) act = Inl (act @ '' failed (persistence): '' @ m)"
| "requireStateMutation _ act = Inr ()"

section \<open>The contract\<close>

text \<open>Fields whose write changes how the document reads: a legacy key and a removed step.\<close>

definition ordinary_field :: "string \<Rightarrow> bool" where
  "ordinary_field f = (f \<noteq> ''brainstorm'' \<and> f \<noteq> ''retro'')"

definition stale_over_skipped :: "conduct_state \<Rightarrow> mutation \<Rightarrow> bool" where
  "stale_over_skipped s mu =
     (s (mu_field mu) = Some (status_json Skipped) \<and> mu_next mu = status_json Stale)"

definition fresh_batch :: "conduct_state \<Rightarrow> mutation list \<Rightarrow> bool" where
  "fresh_batch s mus =
     (distinct (map mu_field mus) \<and>
      (\<forall>mu\<in>set mus. mu_expected mu = s (mu_field mu) \<and> ordinary_field (mu_field mu)))"

definition batch_effect :: "conduct_state \<Rightarrow> mutation list \<Rightarrow> conduct_state" where
  "batch_effect s mus = apply_mutations (filter (\<lambda>mu. \<not> stale_over_skipped s mu) mus) s"

locale fresh_store =
  fixes sread :: "'d \<Rightarrow> state_error + conduct_state"
    and sapply :: "'d \<Rightarrow> mutation \<Rightarrow> 'd \<times> mutation_result"
    and sbatch :: "'d \<Rightarrow> mutation list \<Rightarrow> 'd \<times> mutation_result"
    and observed :: "string \<Rightarrow> bool"
  assumes batch_lands:
    "sread d = Inr s \<Longrightarrow> fresh_batch s mus \<Longrightarrow> sbatch d mus = (d', r) \<Longrightarrow>
       (\<exists>rf. r = Applied rf) \<and>
       (\<exists>s'. sread d' = Inr s' \<and> (\<forall>f. observed f \<longrightarrow> s' f = batch_effect s mus f))"
begin

lemma apply_state_changes_lands:
  assumes "sread d = Inr s" "changes \<noteq> []" "distinct (map fst changes)"
    and "\<And>f v. (f, v) \<in> set changes \<Longrightarrow> v \<noteq> None \<and> ordinary_field f \<and> \<not> object_is (s f) v"
  shows "\<exists>d' rf s'. applyStateChanges sbatch d s changes intent = Inr (d', Applied rf) \<and>
           sread d' = Inr s' \<and>
           (\<forall>f. observed f \<longrightarrow> f \<notin> fst ` set changes \<longrightarrow> s' f = s f)"
proof -
  let ?mk = "\<lambda>(field, nxt). \<lparr>mu_field = field, mu_expected = s field, mu_intent = intent, mu_next = the nxt\<rparr>"
  let ?mus = "map ?mk changes"
  have cf: "changed_fields s changes = changes"
    using assms(4) by (auto simp: changed_fields_def intro: filter_True)
  have none: "find (\<lambda>(field, nxt). nxt = None) changes = None"
    using assms(4) by (auto simp: find_None_iff)
  have eq: "applyStateChanges sbatch d s changes intent = Inr (sbatch d ?mus)"
    using assms(2) by (simp add: applyStateChanges_def cf none Let_def)
  have "map mu_field ?mus = map fst changes" by auto
  then have "distinct (map mu_field ?mus)" using assms(3) by (simp only:)
  then have fresh: "fresh_batch s ?mus" unfolding fresh_batch_def using assms(4) by auto
  obtain d' r where run: "sbatch d ?mus = (d', r)" by (cases "sbatch d ?mus")
  from batch_lands [OF assms(1) fresh run] obtain rf s' where
    "r = Applied rf" "sread d' = Inr s'" and s': "\<And>f. observed f \<Longrightarrow> s' f = batch_effect s ?mus f" by auto
  moreover have "batch_effect s ?mus f = s f" if "f \<notin> fst ` set changes" for f
  proof -
    have gen: "apply_mutations ms t f = t f" if "\<And>m. m \<in> set ms \<Longrightarrow> mu_field m \<noteq> f" for ms t
      using that by (induction ms arbitrary: t) (auto simp: apply_mutations_def)
    show ?thesis unfolding batch_effect_def by (rule gen) (use that in force)
  qed
  ultimately show ?thesis using eq run by auto
qed

end

locale atomic_store = fresh_store +
  assumes apply_lands:
    "sread d = Inr s \<Longrightarrow> fresh_batch s [mu] \<Longrightarrow> sapply d mu = (d', r) \<Longrightarrow>
       (r = Applied None \<and> sread d' = Inr (s(mu_field mu \<mapsto> mu_next mu)) \<and> \<not> stale_over_skipped s mu) \<or>
       (r = Resolved \<and> d' = d \<and> stale_over_skipped s mu)"
  and apply_refuses: "sapply d mu = (d', r) \<Longrightarrow> r \<noteq> Applied None \<Longrightarrow> d' = d"
  and batch_refuses: "sbatch d mus = (d', r) \<Longrightarrow> (\<And>rf. r \<noteq> Applied rf) \<Longrightarrow> d' = d"
  and all_observed: "observed f"
begin

lemma save_step_status_reads_back:
  assumes "sread d = Inr s" "ordinary_field step" "step \<noteq> ''last_step''" "step \<noteq> ''stale''"
    and "saveStepStatus sread sbatch d step status = (d', r)"
  shows "\<exists>rf s'. r = Applied rf \<and> sread d' = Inr s' \<and>
     s' step = (if s step = Some (status_json Skipped) \<and> status = Stale then s step
                else Some (status_json status)) \<and>
     s' ''last_step'' = Some (JStr step) \<and>
     (\<forall>f. f \<noteq> step \<and> f \<noteq> ''last_step'' \<longrightarrow> s' f = s f)"
proof -
  let ?a = "\<lparr>mu_field = step, mu_expected = s step, mu_intent = ''save '' @ step @ '' step status'',
             mu_next = status_json status\<rparr>"
  let ?b = "\<lparr>mu_field = ''last_step'', mu_expected = s ''last_step'',
             mu_intent = ''record last completed step'', mu_next = JStr step\<rparr>"
  from assms(1,5) have run: "sbatch d [?a, ?b] = (d', r)" by (simp add: saveStepStatus_def)
  have b: "\<not> stale_over_skipped s ?b"
    using assms(4) by (simp add: stale_over_skipped_def status_json.simps)
  have fresh: "fresh_batch s [?a, ?b]"
    using assms(2,3) by (simp add: fresh_batch_def ordinary_field_def)
  from batch_lands [OF assms(1) fresh run] all_observed obtain rf s' where
    *: "r = Applied rf" "sread d' = Inr s'" "\<And>f. s' f = batch_effect s [?a, ?b] f" by auto
  with b assms(3) show ?thesis
    by (auto simp: batch_effect_def apply_mutations_def stale_over_skipped_def)
qed

lemma save_field_reads_back:
  assumes "sread d = Inr s" "ordinary_field field" "nxt \<noteq> status_json Stale"
    and "save_field sread sapply d field intent nxt = (d', r)"
  shows "r = Applied None \<and> sread d' = Inr (s(field \<mapsto> nxt))"
proof -
  let ?m = "\<lparr>mu_field = field, mu_expected = s field, mu_intent = intent, mu_next = nxt\<rparr>"
  from assms(1,4) have run: "sapply d ?m = (d', r)" by (simp add: save_field_def)
  have "fresh_batch s [?m]" using assms(2) by (simp add: fresh_batch_def)
  from apply_lands [OF assms(1) this run] assms(3) show ?thesis
    by (auto simp: stale_over_skipped_def)
qed

end

section \<open>The filesystem adapter keeps it\<close>

lemma apply_mutations_other: "f \<notin> mu_field ` set mus \<Longrightarrow> apply_mutations mus s f = s f"
  by (induction mus arbitrary: s) (auto simp: apply_mutations_def)

lemma apply_mutations_migrated:
  "migrateState s = s \<Longrightarrow> (\<And>m. m \<in> set mus \<Longrightarrow> ordinary_field (mu_field m)) \<Longrightarrow>
     migrateState (apply_mutations mus s) = apply_mutations mus s"
  by (induction mus arbitrary: s) (auto simp: apply_mutations_def ordinary_field_def migrateState_upd)

lemma readState_written:
  assumes "readState customs doc = Inr s" "migrateState nxt = nxt" "nxt ''retro'' = s ''retro''"
  shows "readState customs (DocState nxt) = Inr nxt"
proof -
  have "s ''retro'' = None \<or> (\<exists>d. getStepDefinition customs ''retro'' = Inr d)"
    using assms(1)
    by (cases doc) (auto simp: readState_def migrateState_def Let_def split: if_splits sum.splits)
  with assms(2,3) show ?thesis by (auto simp: readState_def)
qed

lemma matchesDomainRule_simps [simp]:
  "matchesDomainRule BeforeExpected cur mu \<longleftrightarrow>
     cur = Some (status_json Skipped) \<and> mu_next mu = status_json Stale"
  "matchesDomainRule AfterIdempotent cur mu \<longleftrightarrow>
     mu_field mu = ''feature_status'' \<and> cur = Some (JStr ''complete'')"
  by (auto simp: matchesDomainRule_def CONDUCT_STATE_DOMAIN_RULES_def)

lemma evaluate_fresh:
  "mu_expected mu = s (mu_field mu) \<Longrightarrow>
     fst (evaluateConductStateMutation (s (mu_field mu)) mu) =
       (if stale_over_skipped s mu then Resolved else Applied None)"
  by (simp add: evaluateConductStateMutation_def stale_over_skipped_def)

lemma ok_env_simps [simp]:
  "env_acquire ok_env = None" "env_write ok_env = None" "env_release ok_env = None"
  by (simp_all add: ok_env_def)

lemma whileHoldingLease_ok [simp]: "whileHoldingLease ok_env mutate doc = mutate doc"
  by (simp add: whileHoldingLease_def split: prod.splits)

lemma persist_state_ok [simp]: "persist_state ok_env doc s r = (DocState s, r)"
  by (simp add: persist_state_def)

lemma fs_batch_fresh:
  assumes "readState customs doc = Inr s" "fresh_batch s mus"
  shows "fs_applyBatch customs ok_env doc mus =
     (DocState (batch_effect s mus),
      Applied (let rf = map mu_field (filter (stale_over_skipped s) mus) in if rf = [] then None else Some rf))"
proof -
  have none: "find (batch_mismatch s) mus = None"
    using assms(2) by (auto simp: find_None_iff batch_mismatch_def fresh_batch_def)
  have res: "mutation_resolved s mu = stale_over_skipped s mu" if "mu \<in> set mus" for mu
    using that assms(2) evaluate_fresh [of mu s] by (auto simp: fresh_batch_def mutation_resolved_def)
  have "filter (mutation_resolved s) mus = filter (stale_over_skipped s) mus"
    and "filter (\<lambda>mu. \<not> mutation_resolved s mu) mus = filter (\<lambda>mu. \<not> stale_over_skipped s mu) mus"
    by (rule filter_cong; simp add: res)+
  then show ?thesis
    by (simp add: fs_applyBatch_def assms(1) none batch_effect_def Let_def)
qed

lemma batch_effect_reads:
  assumes "readState customs doc = Inr s" "fresh_batch s mus"
  shows "readState customs (DocState (batch_effect s mus)) = Inr (batch_effect s mus)"
proof (rule readState_written [OF assms(1)])
  show "migrateState (batch_effect s mus) = batch_effect s mus"
    unfolding batch_effect_def
    by (rule apply_mutations_migrated)
       (use assms in \<open>auto simp: fresh_batch_def dest: readState_migrated\<close>)
  show "batch_effect s mus ''retro'' = s ''retro''"
    unfolding batch_effect_def
    by (rule apply_mutations_other) (use assms(2) in \<open>auto simp: fresh_batch_def ordinary_field_def\<close>)
qed

interpretation fs: atomic_store "readState customs" "fs_apply customs ok_env"
    "fs_applyBatch customs ok_env" "\<lambda>_. True"
proof unfold_locales
  fix d s mus d' r
  assume *: "readState customs d = Inr s" "fresh_batch s mus" "fs_applyBatch customs ok_env d mus = (d', r)"
  then show "(\<exists>rf. r = Applied rf) \<and>
      (\<exists>s'. readState customs d' = Inr s' \<and> (\<forall>f. True \<longrightarrow> s' f = batch_effect s mus f))"
    using fs_batch_fresh [OF *(1,2)] batch_effect_reads [OF *(1,2)] by auto
next
  fix d s mu d' r
  assume *: "readState customs d = Inr s" "fresh_batch s [mu]" "fs_apply customs ok_env d mu = (d', r)"
  have eff: "\<not> stale_over_skipped s mu \<Longrightarrow> batch_effect s [mu] = s(mu_field mu \<mapsto> mu_next mu)"
    by (simp add: batch_effect_def apply_mutations_def)
  from * show "(r = Applied None \<and> readState customs d' = Inr (s(mu_field mu \<mapsto> mu_next mu)) \<and>
        \<not> stale_over_skipped s mu) \<or> (r = Resolved \<and> d' = d \<and> stale_over_skipped s mu)"
    using evaluate_fresh [of mu s] batch_effect_reads [OF *(1,2)] eff
    by (auto simp: fs_apply_def fresh_batch_def split: if_splits)
next
  fix d mu d' r
  assume "fs_apply customs ok_env d mu = (d', r)" "r \<noteq> Applied None"
  then show "d' = d"
    by (auto simp: fs_apply_def evaluateConductStateMutation_def split: sum.splits if_splits)
next
  fix d mus d' r
  assume "fs_applyBatch customs ok_env d mus = (d', r)" "\<And>rf. r \<noteq> Applied rf"
  then show "d' = d"
    by (auto simp: fs_applyBatch_def Let_def split: sum.splits option.splits)
qed simp

section \<open>The routed adapter keeps the weaker one\<close>

lemma batch_effect_find:
  assumes "distinct (map mu_field mus)"
  shows "batch_effect s mus f =
    (case find (\<lambda>m. mu_field m = f) mus of None \<Rightarrow> s f
     | Some m \<Rightarrow> if stale_over_skipped s m then s f else Some (mu_next m))"
proof -
  have gen: "distinct (map mu_field ms) \<Longrightarrow> apply_mutations ms t f =
      (case find (\<lambda>m. mu_field m = f) ms of None \<Rightarrow> t f | Some m \<Rightarrow> Some (mu_next m))" for ms t
  proof (induction ms arbitrary: t)
    case Nil
    then show ?case by (simp add: apply_mutations_def)
  next
    case (Cons m ms)
    have step: "apply_mutations (m # ms) t = apply_mutations ms (t(mu_field m \<mapsto> mu_next m))"
      by (simp add: apply_mutations_def)
    show ?case
    proof (cases "mu_field m = f")
      case True
      with Cons.prems have "f \<notin> mu_field ` set ms" by auto
      with True show ?thesis by (simp add: step apply_mutations_other)
    next
      case False
      with Cons show ?thesis by (simp add: step split: option.splits)
    qed
  qed
  have dist: "distinct (map mu_field (filter Q mus))" for Q
    using assms by (rule distinct_map_filter)
  have uniq: "find (\<lambda>m. mu_field m = f) (filter Q mus) =
      (case find (\<lambda>m. mu_field m = f) mus of None \<Rightarrow> None | Some m \<Rightarrow> if Q m then Some m else None)" for Q
    using assms
  proof (induction mus)
    case Nil
    then show ?case by simp
  next
    case (Cons m ms)
    have "find (\<lambda>m. mu_field m = f) (filter Q ms) = None" if "mu_field m = f"
      using that Cons.prems by (auto simp: find_None_iff) (metis image_eqI)
    with Cons show ?case by auto
  qed
  show ?thesis
    by (simp add: batch_effect_def gen [OF dist] uniq split: option.splits)
qed

lemma find_filter_all:
  "(\<And>x. x \<in> set xs \<Longrightarrow> P x \<Longrightarrow> Q x) \<Longrightarrow> find P (filter Q xs) = find P xs"
  by (induction xs) auto

lemma find_cursor_update:
  "f \<noteq> ''last_step'' \<Longrightarrow> i < length xs \<Longrightarrow> mu_field (xs ! i) = ''last_step'' \<Longrightarrow>
     find (\<lambda>m. mu_field m = f) (xs[i := (xs ! i)\<lparr>mu_expected := e\<rparr>]) = find (\<lambda>m. mu_field m = f) xs"
  by (induction xs arbitrary: i) (auto split: nat.splits simp: nth_Cons)

lemma find_aligned:
  "f \<noteq> ''last_step'' \<Longrightarrow>
     find (\<lambda>m. mu_field m = f) (alignCursor customs mus target other) = find (\<lambda>m. mu_field m = f) mus"
  by (auto simp: alignCursor_def find_cursor_update split: option.splits sum.splits dest!: find_idx_SomeD)

lemma alignCursor_fields: "map mu_field (alignCursor customs mus target other) = map mu_field mus"
  by (auto simp: alignCursor_def map_update split: option.splits sum.splits dest!: find_idx_SomeD)
     (metis list_update_id nth_map)+

text \<open>Aligned against the document it is applied to, the cursor of a fresh batch is fresh there.\<close>

lemma aligned_fresh:
  assumes "readState customs target = Inr t" "readState customs other = Inr oth"
    and dist: "distinct (map mu_field mus)"
    and fields: "\<And>m. m \<in> set mus \<Longrightarrow> ordinary_field (mu_field m) \<and>
      (mu_field m \<noteq> ''last_step'' \<longrightarrow> mu_expected m = t (mu_field m)) \<and>
      (mu_field m = ''last_step'' \<longrightarrow> mu_expected m \<in> {t ''last_step'', oth ''last_step''})"
  shows "fresh_batch t (alignCursor customs mus target other)"
proof (cases "find_idx (\<lambda>m. mu_field m = ''last_step'') mus")
  case None
  then have "alignCursor customs mus target other = mus" by (simp add: alignCursor_def)
  moreover have "m \<in> set mus \<Longrightarrow> mu_field m \<noteq> ''last_step''" for m
    using None by (auto simp: find_idx_None_iff)
  ultimately show ?thesis using dist fields by (auto simp: fresh_batch_def)
next
  case (Some i)
  from find_idx_SomeD [OF Some] have i: "i < length mus" "mu_field (mus ! i) = ''last_step''" by auto
  let ?m = "(mus ! i)\<lparr>mu_expected := t ''last_step''\<rparr>"
  have al: "alignCursor customs mus target other = mus[i := ?m]"
  proof (cases "t ''last_step'' = mu_expected (mus ! i)")
    case True
    then have "?m = mus ! i" by simp
    then show ?thesis using Some assms(1) True by (simp add: alignCursor_def)
  next
    case False
    with fields [of "mus ! i"] i have "oth ''last_step'' = mu_expected (mus ! i)" by auto
    then show ?thesis using Some assms(1,2) False by (simp add: alignCursor_def)
  qed
  have "mu_expected (mus[i := ?m] ! k) = t (mu_field (mus[i := ?m] ! k)) \<and>
      ordinary_field (mu_field (mus[i := ?m] ! k))" if k: "k < length mus" for k
  proof (cases "k = i")
    case True
    with i fields [of "mus ! i"] show ?thesis by simp
  next
    case False
    have "mu_field (mus ! k) \<noteq> ''last_step''"
      using nth_eq_iff_index_eq [OF dist, of k i] k i False by simp
    with i k fields [of "mus ! k"] False show ?thesis by simp
  qed
  then have "mu_expected m = t (mu_field m) \<and> ordinary_field (mu_field m)" if "m \<in> set (mus[i := ?m])" for m
    using that by (metis in_set_conv_nth length_list_update)
  moreover have "distinct (map mu_field (mus[i := ?m]))"
    using dist i by (simp add: al [symmetric] alignCursor_fields)
  ultimately show ?thesis by (simp add: al fresh_batch_def)
qed

text \<open>The two halves of a routed batch, against the documents they go to.\<close>

lemma routed_batch_lands:
  assumes read: "readConductStateOverlay customs True docs = Inr s"
    and fresh: "fresh_batch s mus"
    and run: "routed_applyBatch customs ok_env ok_env docs mus = (docs', r)"
  shows "(\<exists>rf. r = Applied rf) \<and>
    (\<exists>s'. readConductStateOverlay customs True docs' = Inr s' \<and>
       (\<forall>f. f \<noteq> ''last_step'' \<longrightarrow> s' f = batch_effect s mus f))"
proof -
  from read obtain base region where b: "readState customs (rd_flat docs) = Inr base"
    and g: "readState customs (rd_region docs) = Inr region" and s: "s = overlay_state base region"
    by (auto simp: readConductStateOverlay_def split: sum.splits)
  have dist: "distinct (map mu_field mus)"
    and ex: "\<And>m. m \<in> set mus \<Longrightarrow> mu_expected m = s (mu_field m) \<and> ordinary_field (mu_field m)"
    using fresh by (auto simp: fresh_batch_def)
  let ?R = "filter (region_mutation mus) mus" and ?F = "filter (\<lambda>m. \<not> region_mutation mus m) mus"
  let ?ra = "alignCursor customs ?R (rd_region docs) (rd_flat docs)"
  let ?fa = "alignCursor customs ?F (rd_flat docs) (rd_region docs)"
  have fr: "fresh_batch region ?ra"
    by (rule aligned_fresh [OF g b])
       (use dist ex in \<open>auto simp: s overlay_state_def region_mutation_def intro: distinct_map_filter\<close>)
  have ff: "fresh_batch base ?fa"
    by (rule aligned_fresh [OF b g])
       (use dist ex in \<open>auto simp: s overlay_state_def region_mutation_def intro: distinct_map_filter\<close>)
  let ?region' = "batch_effect region ?ra" and ?base' = "batch_effect base ?fa"
  have empty: "?ra = [] \<longleftrightarrow> ?R = []" "?fa = [] \<longleftrightarrow> ?F = []"
    using alignCursor_fields [of customs] by (metis list.map_disc_iff)+
  have none: "batch_effect t [] = t" for t by (simp add: batch_effect_def apply_mutations_def)
  have run': "(\<exists>rf. r = Applied rf) \<and> readState customs (rd_region docs') = Inr ?region' \<and>
      readState customs (rd_flat docs') = Inr ?base'"
    using run fs_batch_fresh [OF g fr] fs_batch_fresh [OF b ff]
      batch_effect_reads [OF g fr] batch_effect_reads [OF b ff] b g none
    by (cases "?ra = []"; cases "?fa = []") (auto simp: routed_applyBatch_def Let_def)
  have eff: "overlay_state ?base' ?region' f = batch_effect s mus f" if f: "f \<noteq> ''last_step''" for f
  proof -
    have dR: "distinct (map mu_field ?ra)" and dF: "distinct (map mu_field ?fa)"
      using dist by (simp_all add: alignCursor_fields distinct_map_filter)
    show ?thesis
    proof (cases "isRegionStep f")
      case True
      have "find (\<lambda>m. mu_field m = f) ?R = find (\<lambda>m. mu_field m = f) mus"
        by (rule find_filter_all) (use True in \<open>simp add: region_mutation_def\<close>)
      with True f show ?thesis
        by (simp add: overlay_state_def batch_effect_find [OF dR] batch_effect_find [OF dist]
            find_aligned s stale_over_skipped_def split: option.splits)
           (auto simp: find_Some_iff)
    next
      case False
      have "find (\<lambda>m. mu_field m = f) ?F = find (\<lambda>m. mu_field m = f) mus"
        by (rule find_filter_all) (use False f in \<open>auto simp: region_mutation_def\<close>)
      with False f show ?thesis
        by (simp add: overlay_state_def batch_effect_find [OF dF] batch_effect_find [OF dist]
            find_aligned s stale_over_skipped_def split: option.splits)
           (auto simp: find_Some_iff)
    qed
  qed
  from run' eff show ?thesis by (auto simp: readConductStateOverlay_def)
qed

interpretation routed: fresh_store "readConductStateOverlay customs True" "routed_apply customs ok_env"
    "routed_applyBatch customs ok_env ok_env" "\<lambda>f. f \<noteq> ''last_step''"
  by unfold_locales (rule routed_batch_lands)

end
