(* ===== verification/StoreProps.thy ===== *)
theory StoreProps
  imports StoreLaws
begin

text \<open>
  What the conduct-state store guarantees its callers, on the model of the two adapters:
  durability of a saved step status, no lost update between writers of one snapshot, a
  skip that no restage overwrites, and the reading of a routed batch through the child
  overlay; and the one promise the routed adapter does not keep.
\<close>

text \<open>
  Saving a step's status through the filesystem store, from a readable
  document, lands and reads back: the step has the new status (a skipped step is not made
  stale), \<^verbatim>\<open>last_step\<close> names it, and no other field moved.
\<close>

theorem save_step_status_durable:
  assumes "readState customs doc = Inr s" "ordinary_field step"
    and "step \<noteq> ''last_step''" "step \<noteq> ''stale''"
    and "saveStepStatus (readState customs) (fs_applyBatch customs ok_env) doc step status = (doc', r)"
  shows "\<exists>rf s'. r = Applied rf \<and> readState customs doc' = Inr s' \<and>
     s' step = (if s step = Some (status_json Skipped) \<and> status = Stale then s step
                else Some (status_json status)) \<and>
     s' ''last_step'' = Some (JStr step) \<and>
     (\<forall>f. f \<noteq> step \<and> f \<noteq> ''last_step'' \<longrightarrow> s' f = s f)"
  using assms by (rule fs.save_step_status_reads_back)

theorem save_step_status_durable_witness:
  "\<exists>doc' r rf s'. saveStepStatus (readState Map.empty) (fs_applyBatch Map.empty ok_env)
       (DocState [''plan'' \<mapsto> status_json Done]) ''build'' Done = (doc', r) \<and> r = Applied rf \<and>
     readState Map.empty doc' = Inr s' \<and> s' ''build'' = Some (status_json Done) \<and>
     s' ''plan'' = Some (status_json Done)"
proof -
  let ?s = "[''plan'' \<mapsto> status_json Done]"
  have rd: "readState Map.empty (DocState ?s) = Inr ?s"
    by (simp add: readState_def migrateState_def)
  obtain doc' r where run: "saveStepStatus (readState Map.empty) (fs_applyBatch Map.empty ok_env)
       (DocState ?s) ''build'' Done = (doc', r)" by (metis surj_pair)
  from save_step_status_durable [OF rd _ _ _ run] obtain rf s' where *: "r = Applied rf"
     "readState Map.empty doc' = Inr s'" "s' ''build'' = Some (status_json Done)"
     "\<forall>f. f \<noteq> ''build'' \<and> f \<noteq> ''last_step'' \<longrightarrow> s' f = ?s f"
    by (auto simp: ordinary_field_def)
  from *(4) have "s' ''plan'' = Some (status_json Done)" by simp
  with * run show ?thesis by blast
qed

text \<open>
  C1: two writers that observed the same value of a field cannot both win: once the
  first write landed with a genuinely new value, the second, with another value and the
  old expectation, changes nothing and does not report success, whatever the environment
  does to it.
\<close>

theorem no_lost_update:
  assumes "readState customs doc = Inr s" "ordinary_field f"
    and "mu_field m1 = f" "mu_expected m1 = s f" "mu_field m2 = f" "mu_expected m2 = s f"
    and "\<not> stateMutationValuesEqual (Some (mu_next m1)) (s f)"
    and "\<not> stateMutationValuesEqual (Some (mu_next m1)) (Some (mu_next m2))"
    and "fs_apply customs ok_env doc m1 = (doc1, Applied None)"
    and "fs_apply customs env doc1 m2 = (doc2, r)"
  shows "doc2 = doc1 \<and> (\<forall>rf. r \<noteq> Applied rf)"
proof -
  have fr: "fresh_batch s [m1]" using assms(2,3,4) by (simp add: fresh_batch_def)
  from fs.apply_lands [OF assms(1) fr assms(9)]
  have rd: "readState customs doc1 = Inr (s(f \<mapsto> mu_next m1))" using assms(3) by auto
  have ev: "fst (evaluateConductStateMutation (Some (mu_next m1)) m2) \<noteq> Applied x" for x
    using assms(6,7,8) by (simp add: evaluateConductStateMutation_def)
  show ?thesis
    using assms(10) ev
    by (auto simp: fs_apply_def whileHoldingLease_def rd assms(5)
        split: option.splits mutation_result.splits prod.splits)
qed

theorem no_lost_update_witness:
  "\<exists>doc1. fs_apply Map.empty ok_env DocMissing
       \<lparr>mu_field = ''pr_url'', mu_expected = None, mu_intent = ''a'', mu_next = JStr ''u1''\<rparr> = (doc1, Applied None) \<and>
     fst (fs_apply Map.empty ok_env doc1
       \<lparr>mu_field = ''pr_url'', mu_expected = None, mu_intent = ''b'', mu_next = JStr ''u2''\<rparr>) = doc1"
proof -
  let ?a = "\<lparr>mu_field = ''pr_url'', mu_expected = None, mu_intent = ''a'', mu_next = JStr ''u1''\<rparr>"
  let ?b = "\<lparr>mu_field = ''pr_url'', mu_expected = None, mu_intent = ''b'', mu_next = JStr ''u2''\<rparr>"
  have rd: "readState Map.empty DocMissing = Inr Map.empty" by (simp add: readState_def)
  have a: "fs_apply Map.empty ok_env DocMissing ?a = (DocState [''pr_url'' \<mapsto> JStr ''u1''], Applied None)"
    by (simp add: fs_apply_def rd evaluateConductStateMutation_def status_json.simps)
  obtain d2 r where b: "fs_apply Map.empty ok_env (DocState [''pr_url'' \<mapsto> JStr ''u1'']) ?b = (d2, r)"
    by (metis surj_pair)
  have "d2 = DocState [''pr_url'' \<mapsto> JStr ''u1'']"
    using no_lost_update [where f = "''pr_url''", OF rd _ _ _ _ _ _ _ a b]
    by (simp add: ordinary_field_def)
  with a b show ?thesis by simp
qed

text \<open>
  A batch that restages a skipped step as stale leaves it skipped, for every
  outcome of the lease and of the write, and whatever else the batch holds.
\<close>

theorem skip_survives_restage:
  assumes "readState customs doc = Inr s" "s f = Some (status_json Skipped)"
    and "\<forall>mu\<in>set mus. ordinary_field (mu_field mu) \<and> (mu_field mu = f \<longrightarrow> mu_next mu = status_json Stale)"
    and "fs_applyBatch customs env doc mus = (doc', r)"
  shows "\<exists>s'. readState customs doc' = Inr s' \<and> s' f = Some (status_json Skipped)"
proof -
  let ?kept = "filter (\<lambda>mu. \<not> mutation_resolved s mu) mus"
  let ?s' = "apply_mutations ?kept s"
  have "f \<notin> mu_field ` set ?kept"
    using assms(2,3) by (auto simp: mutation_resolved_def evaluateConductStateMutation_def)
  then have f: "?s' f = Some (status_json Skipped)" using assms(2) by (simp add: apply_mutations_other)
  have rd: "readState customs (DocState ?s') = Inr ?s'"
  proof (rule readState_written [OF assms(1)])
    show "migrateState ?s' = ?s'"
      by (rule apply_mutations_migrated [OF readState_migrated [OF assms(1)]]) (use assms(3) in auto)
    show "?s' ''retro'' = s ''retro''"
      by (rule apply_mutations_other) (use assms(3) in \<open>auto simp: ordinary_field_def\<close>)
  qed
  have "doc' = doc \<or> doc' = DocState ?s'"
    using assms(4)
    by (auto simp: fs_applyBatch_def whileHoldingLease_def persist_state_def assms(1) Let_def
        split: option.splits prod.splits)
  then show ?thesis using assms(1,2) rd f by auto
qed

theorem skip_survives_restage_witness:
  "\<exists>s'. readState Map.empty (fst (fs_applyBatch Map.empty ok_env
          (DocState [''manual_test'' \<mapsto> status_json Skipped])
          [\<lparr>mu_field = ''manual_test'', mu_expected = Some (status_json Skipped), mu_intent = ''restage'',
            mu_next = status_json Stale\<rparr>])) = Inr s' \<and>
        s' ''manual_test'' = Some (status_json Skipped)"
proof -
  let ?s = "[''manual_test'' \<mapsto> status_json Skipped]"
  let ?m = "\<lparr>mu_field = ''manual_test'', mu_expected = Some (status_json Skipped), mu_intent = ''restage'',
            mu_next = status_json Stale\<rparr>"
  have rd: "readState Map.empty (DocState ?s) = Inr ?s" by (simp add: readState_def migrateState_def)
  obtain d r where run: "fs_applyBatch Map.empty ok_env (DocState ?s) [?m] = (d, r)" by (metis surj_pair)
  from skip_survives_restage [OF rd _ _ run, of "''manual_test''"] run show ?thesis
    by (simp add: ordinary_field_def)
qed

text \<open>
  C36: with an active child and stores that answer without errors, a batch of ordinary
  fields built from a fresh overlay snapshot and routed to the two documents is applied and has, read back
  through the overlay, exactly the effect the batch has on one flat state, on every field but the
  resume cursor \<^verbatim>\<open>last_step\<close>.
\<close>

theorem routed_batch_refines_overlay:
  assumes "readConductStateOverlay customs True docs = Inr s" "fresh_batch s mus"
    and "routed_applyBatch customs ok_env ok_env docs mus = (docs', r)"
  shows "(\<exists>rf. r = Applied rf) \<and>
    (\<exists>s'. readConductStateOverlay customs True docs' = Inr s' \<and>
       (\<forall>f. f \<noteq> ''last_step'' \<longrightarrow> s' f = batch_effect s mus f))"
  using assms by (rule routed.batch_lands)

theorem routed_batch_refines_overlay_witness:
  "\<exists>docs' r s'. routed_applyBatch Map.empty ok_env ok_env
        \<lparr>rd_flat = DocState [''build'' \<mapsto> status_json Done], rd_region = DocMissing\<rparr>
        [\<lparr>mu_field = ''build'', mu_expected = None, mu_intent = ''start'', mu_next = status_json In_progress\<rparr>,
         \<lparr>mu_field = ''pr_url'', mu_expected = None, mu_intent = ''pr'', mu_next = JStr ''u''\<rparr>] = (docs', r) \<and>
     readConductStateOverlay Map.empty True docs' = Inr s' \<and>
     s' ''build'' = Some (status_json In_progress) \<and> s' ''pr_url'' = Some (JStr ''u'')"
proof -
  let ?docs = "\<lparr>rd_flat = DocState [''build'' \<mapsto> status_json Done], rd_region = DocMissing\<rparr>"
  let ?mus = "[\<lparr>mu_field = ''build'', mu_expected = None, mu_intent = ''start'', mu_next = status_json In_progress\<rparr>,
         \<lparr>mu_field = ''pr_url'', mu_expected = None, mu_intent = ''pr'', mu_next = JStr ''u''\<rparr>]"
  let ?s = "overlay_state [''build'' \<mapsto> status_json Done] Map.empty"
  have rd: "readConductStateOverlay Map.empty True ?docs = Inr ?s"
    by (simp add: readConductStateOverlay_def readState_def migrateState_def)
  have fr: "fresh_batch ?s ?mus"
    by (simp add: fresh_batch_def ordinary_field_def overlay_state_def isRegionStep_def CHILD_REGION_STEPS_def)
  obtain docs' r where run: "routed_applyBatch Map.empty ok_env ok_env ?docs ?mus = (docs', r)"
    by (metis surj_pair)
  from routed_batch_refines_overlay [OF rd fr run] obtain s' where
    "readConductStateOverlay Map.empty True docs' = Inr s'"
    and e: "\<And>f. f \<noteq> ''last_step'' \<Longrightarrow> s' f = batch_effect ?s ?mus f" by auto
  moreover have "s' ''build'' = Some (status_json In_progress)" "s' ''pr_url'' = Some (JStr ''u'')"
    by (simp_all add: e batch_effect_def apply_mutations_def stale_over_skipped_def overlay_state_def
        isRegionStep_def CHILD_REGION_STEPS_def)
  ultimately show ?thesis using run by blast
qed

text \<open>
  A child's document and a batch whose region half matches and whose feature half is stale:
  another writer recorded a pull request since the snapshot.
\<close>

definition crossing_docs :: routed_docs where
  "crossing_docs = \<lparr>rd_flat = DocState [''pr_url'' \<mapsto> JStr ''other''], rd_region = DocMissing\<rparr>"

definition crossing_batch :: "mutation list" where
  "crossing_batch =
     [\<lparr>mu_field = ''build'', mu_expected = None, mu_intent = ''finish build'', mu_next = status_json Done\<rparr>,
      \<lparr>mu_field = ''pr_url'', mu_expected = None, mu_intent = ''record pr'', mu_next = JStr ''mine''\<rparr>]"

text \<open>
  A named batch is documented as all-or-nothing, and the routed adapter is
  not: for the batch above it answers with a conflict, having already written the child's
  document.
\<close>

theorem routed_batch_not_atomic:
  "snd (routed_applyBatch Map.empty ok_env ok_env crossing_docs crossing_batch) =
     Conflict (conflict_message ''pr_url'' ''record pr'') \<and>
   rd_region (fst (routed_applyBatch Map.empty ok_env ok_env crossing_docs crossing_batch)) =
     DocState [''build'' \<mapsto> status_json Done] \<and>
   rd_region crossing_docs = DocMissing"
  by (simp add: routed_applyBatch_def crossing_docs_def crossing_batch_def alignCursor_def
      region_mutation_def isRegionStep_def CHILD_REGION_STEPS_def fs_applyBatch_def readState_def
      migrateState_def batch_mismatch_def mutation_resolved_def evaluateConductStateMutation_def
      apply_mutations_def)

text \<open>
  Restaging after a target turns exactly the done steps after it, and not in the
  preserve list, stale; every other status is kept; and doing it twice is doing it once.
\<close>

theorem restage_exact:
  "getStepStatus (markDownstreamStale s target names preserve) f =
     (if f \<in> set (drop (case index_of target names of None \<Rightarrow> 0 | Some i \<Rightarrow> i + 1) names) \<and>
         f \<notin> set preserve \<and> getStepStatus s f = Done
      then Stale else getStepStatus s f) \<and>
   markDownstreamStale (markDownstreamStale s target names preserve) target names preserve =
     markDownstreamStale s target names preserve"
  by (auto simp: getStepStatus_markDownstreamStale markDownstreamStale_field fun_eq_iff)

text \<open>
  Reading is stable: what a readable document reads as (after the forward
  migration of a pre-split state) reads as itself once written back.
\<close>

theorem read_write_read:
  assumes "readState customs doc = Inr s"
  shows "readState customs (DocState s) = Inr s"
  using readState_written [OF assms readState_migrated [OF assms]] by simp

theorem read_write_read_witness:
  "readState Map.empty (DocState [''brainstorm'' \<mapsto> status_json Done, ''explore'' \<mapsto> status_json Done,
       ''prd'' \<mapsto> status_json Done]) =
     Inr [''brainstorm'' \<mapsto> status_json Done, ''explore'' \<mapsto> status_json Done, ''prd'' \<mapsto> status_json Done]"
proof -
  have "readState Map.empty (DocState [''brainstorm'' \<mapsto> status_json Done]) =
     Inr [''brainstorm'' \<mapsto> status_json Done, ''explore'' \<mapsto> status_json Done, ''prd'' \<mapsto> status_json Done]"
    by (simp add: readState_def migrateState_def status_json.simps Let_def fun_eq_iff)
  from read_write_read [OF this] show ?thesis .
qed

end
