(* ===== verification/GateVerdict.thy ===== *)
theory GateVerdict
  imports StoreLaws
begin

text \<open>
  Gate verdicts (\<^verbatim>\<open>engine/gate-verdicts.ts\<close>) and the child layout they are stored under
  (\<^verbatim>\<open>engine/child-context.ts\<close>): one JSON file per gate, whose satisfied flag the
  selector trusts, and the rebase operation that fences publication while it is applied.
\<close>

section \<open>Children and paths\<close>

definition MAX_CHILD_ID :: int where
  "MAX_CHILD_ID = 9"

text \<open>The argument of \<open>parseChildId\<close>: a string, an integral number or another number.\<close>

datatype child_raw = RawStr string | RawInt int | RawNonInteger

definition parseChildId :: "child_raw \<Rightarrow> int option" where
  "parseChildId raw =
     (let check = (\<lambda>n. if n < 1 \<or> n > MAX_CHILD_ID then None else Some n) in
      case raw of
        RawStr s \<Rightarrow> if s = [] \<or> \<not> list_all is_digit s then None else check (digits_value s)
      | RawInt n \<Rightarrow> check n
      | RawNonInteger \<Rightarrow> None)"

definition pipelinePathFor :: "string \<Rightarrow> string \<Rightarrow> int option \<Rightarrow> string" where
  "pipelinePathFor root relative child =
     (case child of
        None \<Rightarrow> root @ ''/.pipeline/'' @ relative
      | Some c \<Rightarrow> root @ ''/.pipeline/children/'' @ int_str c @ ''/'' @ relative)"

text \<open>A \<^verbatim>\<open>readdir\<close> with file types: absent, failed, or the entries and whether each is a directory.\<close>

datatype dir_listing = DirMissing | DirError string | DirEntries "(string \<times> bool) list"

definition listExistingChildren :: "dir_listing \<Rightarrow> int list throws" where
  "listExistingChildren entries =
     (case entries of
        DirMissing \<Rightarrow> Inr []
      | DirError msg \<Rightarrow> Inl msg
      | DirEntries es \<Rightarrow>
          Inr (sort (List.map_filter (\<lambda>(nm, isdir). if isdir then parseChildId (RawStr nm) else None) es)))"

section \<open>The rebase operation record\<close>

text \<open>The record is read from disk unvalidated; this is its one structural contract.\<close>

fun nonempty_jstring :: "jval option \<Rightarrow> bool" where
  "nonempty_jstring (Some (JStr s)) = (s \<noteq> [])"
| "nonempty_jstring _ = False"

fun is_jstring :: "jval \<Rightarrow> bool" where
  "is_jstring (JStr _) = True"
| "is_jstring _ = False"

fun array_elems :: "jval option \<Rightarrow> jval list option" where
  "array_elems (Some (JArr xs)) = Some xs"
| "array_elems _ = None"

definition hex_lower :: "char \<Rightarrow> bool" where
  "hex_lower c = (is_digit c \<or> (97 \<le> (of_char c :: nat) \<and> (of_char c :: nat) \<le> 102))"

definition sha256_text :: "string \<Rightarrow> bool" where
  "sha256_text s = (take 7 s = ''sha256:'' \<and> length s = 71 \<and> list_all hex_lower (drop 7 s))"

definition candidate_ok :: "jval \<Rightarrow> bool" where
  "candidate_ok e =
     (let original = (\<lambda>f. Option.bind (jget e ''original'') (\<lambda>o'. jget o' f)) in
      jstring e ''gate'' \<noteq> None \<and>
      nonempty_jstring (original ''artifactDigest'') \<and>
      nonempty_jstring (original ''attemptId'') \<and>
      nonempty_jstring (original ''runId'') \<and>
      nonempty_jstring (original ''codeStamp'') \<and>
      (case jstring e ''originalVerdictDigest'' of Some d \<Rightarrow> sha256_text d | None \<Rightarrow> False) \<and>
      (case array_elems (jget e ''relevantInputIdentities'') of
         Some ids \<Rightarrow> list_all is_jstring ids | None \<Rightarrow> False))"

definition evidence_ok :: "jval list \<Rightarrow> jval list \<Rightarrow> bool" where
  "evidence_ok preserved evidence =
     (list_all candidate_ok evidence \<and>
      (let gates = map (\<lambda>e. the (jget e ''gate'')) evidence in
       length gates = length preserved \<and> set_size gates = length gates \<and>
       list_all (\<lambda>g. g \<in> set preserved) gates))"

definition validRebaseOperationRecord :: "jval option \<Rightarrow> bool" where
  "validRebaseOperationRecord operation =
     (case operation of None \<Rightarrow> False | Some op \<Rightarrow>
      (let transition = jget op ''transition''; replay = jget op ''replay'';
           appliedAt = jget op ''appliedAt'';
           tr = (\<lambda>f. Option.bind transition (\<lambda>t. jget t f));
           rp = (\<lambda>f. Option.bind replay (\<lambda>r. jget r f)) in
       if \<not> truthy (Some op) \<or> \<not> truthy (jget op ''id'') \<or> \<not> truthy transition \<or> \<not> truthy replay
       then False
       else if jget op ''status'' = Some (JStr ''applying'') \<and> appliedAt \<noteq> None then False
       else if \<not> (case appliedAt of None \<Rightarrow> True | Some (JNum n) \<Rightarrow> n > 0 | Some _ \<Rightarrow> False) then False
       else (case (array_elems (tr ''preserved''), array_elems (tr ''invalidated''),
                   array_elems (tr ''reverified'')) of
         (Some preserved, Some invalidated, Some reverified) \<Rightarrow>
           (let named = preserved @ invalidated @ reverified in
            set_size named = length named \<and>
            list_all (\<lambda>f. nonempty_jstring (rp f))
              [''preRebaseHead'', ''mergeBase'', ''target'', ''completedHead''] \<and>
            (case jget op ''preservationEvidence'' of
               None \<Rightarrow> True
             | Some ev \<Rightarrow> (case array_elems (Some ev) of None \<Rightarrow> False
                          | Some evidence \<Rightarrow> evidence_ok preserved evidence)) \<and>
            (if rp ''kind'' = Some (JStr ''unproved'')
             then preserved = [] \<and> rp ''expectedTree'' = None
             else nonempty_jstring (rp ''expectedTree'')))
       | _ \<Rightarrow> False)))"

section \<open>Verdict files\<close>

record kickback_mark =
  kb_from :: step_name
  kb_evidence :: string
  kb_cause :: "jval option"

record gate_verdict =
  gv_satisfied :: bool
  gv_routedRound :: "string option"
  gv_outcome :: "string option"
  gv_reason :: "string option"
  gv_checkedAt :: int
  gv_kickback :: "kickback_mark option"
  gv_preservation :: "jval option"
  gv_rebaseOperation :: "jval option"

text \<open>
  A verdict file holds a verdict, or text that is no verdict (no JSON, or no boolean
  \<^verbatim>\<open>satisfied\<close>). The files of a worktree are a map from paths.
\<close>

datatype verdict_doc = VerdictMalformed | VerdictDoc gate_verdict

type_synonym verdict_files = "string \<rightharpoonup> verdict_doc"

definition GATES_DIR :: string where
  "GATES_DIR = ''.pipeline/gates''"

definition verdictPathFor :: "string \<Rightarrow> step_name \<Rightarrow> int option \<Rightarrow> string throws" where
  "verdictPathFor dir step child =
     (case child of
        None \<Rightarrow> Inr (dir @ ''/'' @ GATES_DIR @ ''/'' @ step @ ''.json'')
      | Some c \<Rightarrow>
          if isRegionStep step then Inr (pipelinePathFor dir (''gates/'' @ step @ ''.json'') (Some c))
          else Inl (''gate verdict for whole-feature step '' @ [CHR 0x22] @ step @ [CHR 0x22] @
                    '' cannot be stored under a child''))"

definition readVerdict :: "verdict_files \<Rightarrow> string \<Rightarrow> step_name \<Rightarrow> int option \<Rightarrow> gate_verdict option" where
  "readVerdict files dir step child =
     (case verdictPathFor dir step child of
        Inl _ \<Rightarrow> None
      | Inr path \<Rightarrow> (case files path of Some (VerdictDoc v) \<Rightarrow> Some v | _ \<Rightarrow> None))"

text \<open>\<open>io\<close> is the failure of the write or rename, if any: the record on disk is then the old one.\<close>

definition writeVerdict ::
  "string option \<Rightarrow> verdict_files \<Rightarrow> string \<Rightarrow> step_name \<Rightarrow> gate_verdict \<Rightarrow> int option \<Rightarrow> string option
   \<Rightarrow> verdict_files throws" where
  "writeVerdict io files dir step verdict child routedRound =
     (case verdictPathFor dir step child of
        Inl msg \<Rightarrow> Inl msg
      | Inr path \<Rightarrow>
          (let prior = (if step = ''rebase'' then readVerdict files dir step None else None);
               priorOperation = Option.bind prior gv_rebaseOperation;
               persisted = (if gv_rebaseOperation verdict = None \<and> priorOperation \<noteq> None
                            then verdict\<lparr>gv_rebaseOperation := priorOperation\<rparr> else verdict);
               persisted' = (if child \<noteq> None \<and> isRegionStep step \<and> routedRound \<noteq> None
                             then persisted\<lparr>gv_routedRound := routedRound\<rparr> else persisted)
           in case io of Some msg \<Rightarrow> Inl msg
              | None \<Rightarrow> Inr (files(path \<mapsto> VerdictDoc persisted'))))"

record completion_result =
  cr_done :: bool
  cr_reason :: "string option"
  cr_acceptanceOutcome :: "string option"

text \<open>The completion predicates of \<^verbatim>\<open>artifacts.ts\<close> (file probes) are arguments.\<close>

definition checkGateCompletion ::
  "(step_name \<rightharpoonup> completion_result) \<Rightarrow> (step_name \<Rightarrow> completion_result) \<Rightarrow> step_name \<Rightarrow> completion_result" where
  "checkGateCompletion GATE_ONLY_PREDICATES checkStepCompletion step =
     (case GATE_ONLY_PREDICATES step of Some r \<Rightarrow> r | None \<Rightarrow> checkStepCompletion step)"

definition computeAndWriteVerdict ::
  "string option \<Rightarrow> verdict_files \<Rightarrow> string \<Rightarrow> step_name \<Rightarrow> completion_result \<Rightarrow> int \<Rightarrow> int option
   \<Rightarrow> string option \<Rightarrow> bool \<Rightarrow> (verdict_files \<times> gate_verdict) throws" where
  "computeAndWriteVerdict io files dir step result now activeChild routedRound retain =
     (let child = (if isRegionStep step then activeChild else None);
          prior = readVerdict files dir step child;
          verdict = \<lparr>gv_satisfied = cr_done result,
                     gv_routedRound = (if child \<noteq> None then routedRound else None),
                     gv_outcome = cr_acceptanceOutcome result,
                     gv_reason = cr_reason result,
                     gv_checkedAt = now,
                     gv_kickback = None,
                     gv_preservation =
                       (case prior of Some p \<Rightarrow>
                          if retain \<and> cr_done result \<and> gv_satisfied p then gv_preservation p else None
                        | None \<Rightarrow> None),
                     gv_rebaseOperation = None\<rparr>
      in map_sum id (\<lambda>files'. (files', verdict))
           (writeVerdict io files dir step verdict child routedRound))"

definition SKIP_VERDICT_PREFIX :: string where
  "SKIP_VERDICT_PREFIX = ''skipped: ''"

definition RETIRED_VERDICT_FILES :: "string list" where
  "RETIRED_VERDICT_FILES = [''coverage_binding.json'']"

definition recordSkipVerdict ::
  "string option \<Rightarrow> verdict_files \<Rightarrow> string \<Rightarrow> step_name \<Rightarrow> string \<Rightarrow> int
   \<Rightarrow> (verdict_files \<times> gate_verdict) throws" where
  "recordSkipVerdict io files dir step cause now =
     (let verdict = \<lparr>gv_satisfied = True, gv_routedRound = None, gv_outcome = None,
                     gv_reason = Some (SKIP_VERDICT_PREFIX @ cause), gv_checkedAt = now,
                     gv_kickback = None, gv_preservation = None, gv_rebaseOperation = None\<rparr>
      in map_sum id (\<lambda>files'. (files', verdict)) (writeVerdict io files dir step verdict None None))"

definition isSkipVerdict :: "gate_verdict option \<Rightarrow> bool" where
  "isSkipVerdict verdict =
     (case Option.bind verdict gv_reason of
        None \<Rightarrow> False
      | Some r \<Rightarrow> take (length SKIP_VERDICT_PREFIX) r = SKIP_VERDICT_PREFIX)"

fun collect_verdicts ::
  "verdict_files \<Rightarrow> string \<Rightarrow> string list \<Rightarrow> (step_name \<rightharpoonup> gate_verdict) \<Rightarrow> (step_name \<rightharpoonup> gate_verdict)" where
  "collect_verdicts files dir [] out = out"
| "collect_verdicts files dir (entry # rest) out =
     collect_verdicts files dir rest
       (if \<not> ends_with entry ''.json'' \<or> entry \<in> set RETIRED_VERDICT_FILES then out
        else let step = take (length entry - 5) entry in
             (case readVerdict files dir step None of
                None \<Rightarrow> out | Some v \<Rightarrow> out(step \<mapsto> v)))"

text \<open>\<open>entries\<close> is the listing of the gates directory, \<open>None\<close> when \<^verbatim>\<open>readdir\<close> throws.\<close>

definition readAllVerdicts ::
  "verdict_files \<Rightarrow> string \<Rightarrow> string list option \<Rightarrow> (step_name \<rightharpoonup> gate_verdict)" where
  "readAllVerdicts files dir entries =
     (case entries of None \<Rightarrow> Map.empty | Some es \<Rightarrow> collect_verdicts files dir es Map.empty)"

section \<open>Facts\<close>

lemma int_str_digit: "0 \<le> n \<Longrightarrow> n \<le> 9 \<Longrightarrow> int_str n = [char_of (48 + nat n)]"
  by (subst int_str_def, subst nat_str.simps) auto

lemma int_str_digit_inj:
  assumes "0 \<le> n" "n \<le> 9" "0 \<le> m" "m \<le> 9" "int_str n = int_str m"
  shows "n = m"
proof -
  have "(of_char (char_of (48 + nat n) :: char) :: nat) = of_char (char_of (48 + nat m) :: char)"
    using assms by (simp add: int_str_digit)
  then have "48 + nat n = 48 + nat m"
    unfolding of_char_of using assms by (simp add: take_bit_eq_mod)
  with assms show ?thesis by simp
qed

lemma int_str_digit_prefix:
  assumes "0 \<le> n" "n \<le> 9" "0 \<le> m" "m \<le> 9" "int_str n @ xs = int_str m @ ys"
  shows "n = m \<and> xs = ys"
proof -
  have "length (int_str n) = length (int_str m)" using assms by (simp add: int_str_digit)
  then have "int_str n = int_str m \<and> xs = ys" using assms(5) append_eq_append_conv by blast
  then show ?thesis using int_str_digit_inj assms(1-4) by blast
qed

text \<open>Two verdicts share a file only when they are the same gate of the same child.\<close>

lemma verdictPathFor_inj:
  assumes "verdictPathFor dir s c = Inr p" "verdictPathFor dir s' c' = Inr p"
    and "\<And>n. c = Some n \<Longrightarrow> 0 \<le> n \<and> n \<le> 9" "\<And>n. c' = Some n \<Longrightarrow> 0 \<le> n \<and> n \<le> 9"
  shows "s = s' \<and> c = c'"
proof (cases c)
  case None
  then show ?thesis using assms(1,2)
    by (cases c') (auto simp: verdictPathFor_def pipelinePathFor_def GATES_DIR_def split: if_splits)
next
  case (Some n)
  then obtain m where m: "c' = Some m" using assms(1,2)
    by (cases c') (auto simp: verdictPathFor_def pipelinePathFor_def GATES_DIR_def split: if_splits)
  have bounds: "0 \<le> n" "n \<le> 9" "0 \<le> m" "m \<le> 9" using assms(3,4) Some m by auto
  have "int_str n @ ''/gates/'' @ s @ ''.json'' = int_str m @ ''/gates/'' @ s' @ ''.json''"
    using assms(1,2) Some m
    by (auto simp: verdictPathFor_def pipelinePathFor_def split: if_splits)
  from int_str_digit_prefix [OF bounds this] show ?thesis using Some m by simp
qed

lemma verdictPathFor_flat: "verdictPathFor dir step None = Inr (dir @ ''/.pipeline/gates/'' @ step @ ''.json'')"
  by (simp add: verdictPathFor_def GATES_DIR_def)

lemma rebase_not_region [simp]: "\<not> isRegionStep ''rebase''"
  by (simp add: isRegionStep_def CHILD_REGION_STEPS_def)

end
