(* ===== verification/VerdictProps.thy ===== *)
theory VerdictProps
  imports GateVerdict
begin

text \<open>
  What the gate verdict store guarantees: the rebase publication fence outlives every
  ordinary verdict write, a skip is told apart from evidence when read back, and a valid
  rebase record carries authority for exactly the gates it preserves.
\<close>

section \<open>Ordinary writes\<close>

text \<open>
  One ordinary verdict write of the engine: a recheck, a skip record, or a direct write (a
  kickback) that carries no rebase operation. Only the rebase transition itself writes one.
\<close>

inductive verdict_step :: "string \<Rightarrow> verdict_files \<Rightarrow> verdict_files \<Rightarrow> bool" for dir where
  recheck: "computeAndWriteVerdict io files dir step result now child rr retain = Inr (files', v)
     \<Longrightarrow> verdict_step dir files files'"
| skip: "recordSkipVerdict io files dir step cause now = Inr (files', v)
     \<Longrightarrow> verdict_step dir files files'"
| direct: "writeVerdict io files dir step verdict child rr = Inr files'
     \<Longrightarrow> gv_rebaseOperation verdict = None \<Longrightarrow> verdict_step dir files files'"

inductive_cases verdict_stepE: "verdict_step dir files files'"

text \<open>Every ordinary write is a \<open>writeVerdict\<close> of a verdict without an operation.\<close>

lemma verdict_step_write:
  assumes "verdict_step dir files files'"
  shows "\<exists>io step verdict child rr.
     writeVerdict io files dir step verdict child rr = Inr files' \<and> gv_rebaseOperation verdict = None"
  using assms
  by (elim verdict_stepE)
     (fastforce simp: computeAndWriteVerdict_def recordSkipVerdict_def Let_def map_sum_Inr_iff)+

lemma writeVerdict_cases:
  assumes "writeVerdict io files dir step verdict child rr = Inr files'"
  obtains path persisted where "verdictPathFor dir step child = Inr path"
    and "files' = files(path \<mapsto> VerdictDoc persisted)"
    and "gv_satisfied persisted = gv_satisfied verdict"
    and "gv_reason persisted = gv_reason verdict"
    and "gv_rebaseOperation persisted =
      (if gv_rebaseOperation verdict = None \<and> step = ''rebase''
       then Option.bind (readVerdict files dir step None) gv_rebaseOperation
       else gv_rebaseOperation verdict)"
  using assms
  by (auto simp: writeVerdict_def Let_def split: sum.splits option.splits if_splits)

lemma rebase_path_flat:
  assumes "verdictPathFor dir step child = Inr p" "verdictPathFor dir ''rebase'' None = Inr p"
  shows "step = ''rebase'' \<and> child = None"
  using assms by (cases child)
    (auto simp: verdictPathFor_def pipelinePathFor_def GATES_DIR_def split: if_splits)

lemma write_keeps_operation:
  assumes "writeVerdict io files dir step verdict child rr = Inr files'"
    and "gv_rebaseOperation verdict = None"
  shows "Option.bind (readVerdict files' dir ''rebase'' None) gv_rebaseOperation =
         Option.bind (readVerdict files dir ''rebase'' None) gv_rebaseOperation"
proof -
  obtain rp where rp: "verdictPathFor dir ''rebase'' None = Inr rp"
    by (simp add: verdictPathFor_flat)
  from assms(1) obtain path persisted where w: "verdictPathFor dir step child = Inr path"
      "files' = files(path \<mapsto> VerdictDoc persisted)"
      "gv_rebaseOperation persisted =
        (if gv_rebaseOperation verdict = None \<and> step = ''rebase''
         then Option.bind (readVerdict files dir step None) gv_rebaseOperation
         else gv_rebaseOperation verdict)"
    by (rule writeVerdict_cases)
  show ?thesis
  proof (cases "path = rp")
    case True
    with rebase_path_flat [OF w(1)] rp have "step = ''rebase''" by simp
    then show ?thesis using True w rp assms(2) by (simp add: readVerdict_def)
  next
    case False
    then show ?thesis using w rp by (simp add: readVerdict_def)
  qed
qed

text \<open>
  No run of ordinary verdict writes (rechecks, skip records,
  kickbacks, on any gate and child, in any order) changes the rebase operation that is recorded on
  the rebase gate: an in-flight transition stays the publication fence until its owner replaces it.
\<close>

theorem rebase_fence_survives_writes:
  assumes "(verdict_step dir)\<^sup>*\<^sup>* files files'"
  shows "Option.bind (readVerdict files' dir ''rebase'' None) gv_rebaseOperation =
         Option.bind (readVerdict files dir ''rebase'' None) gv_rebaseOperation"
  using assms
proof (induction rule: rtranclp_induct)
  case (step y z)
  from verdict_step_write [OF step.hyps(2)] write_keeps_operation step.IH show ?case by metis
qed simp

definition plain_verdict :: "bool \<Rightarrow> jval option \<Rightarrow> gate_verdict" where
  "plain_verdict sat op = \<lparr>gv_satisfied = sat, gv_routedRound = None, gv_outcome = None,
     gv_reason = None, gv_checkedAt = 1, gv_kickback = None, gv_preservation = None,
     gv_rebaseOperation = op\<rparr>"

definition applying_files :: verdict_files where
  "applying_files = [''w/.pipeline/gates/rebase.json'' \<mapsto> VerdictDoc (plain_verdict True (Some (JStr ''op'')))]"

theorem rebase_fence_survives_writes_witness:
  "\<exists>files'. verdict_step ''w'' applying_files files' \<and>
     Option.bind (readVerdict files' ''w'' ''rebase'' None) gv_rebaseOperation = Some (JStr ''op'')"
proof -
  obtain files' where w: "writeVerdict None applying_files ''w'' ''rebase'' (plain_verdict False None) None None
      = Inr files'"
    by (simp add: writeVerdict_def verdictPathFor_flat Let_def)
  have s: "verdict_step ''w'' applying_files files'"
    by (rule direct [OF w]) (simp add: plain_verdict_def)
  from rebase_fence_survives_writes [OF r_into_rtranclp [of "verdict_step ''w''", OF s]]
  have "Option.bind (readVerdict files' ''w'' ''rebase'' None) gv_rebaseOperation = Some (JStr ''op'')"
    by (simp add: readVerdict_def verdictPathFor_flat applying_files_def plain_verdict_def)
  with s show ?thesis by blast
qed

section \<open>Skips\<close>

text \<open>
  A recorded skip reads back as a satisfied verdict that is recognised as
  a skip, and no other gate's verdict, of the feature or of a child, is touched.
\<close>

theorem skip_verdict_readable:
  assumes "recordSkipVerdict io files dir step cause now = Inr (files', v)"
  shows "(\<exists>r. readVerdict files' dir step None = Some r \<and> gv_satisfied r \<and> isSkipVerdict (Some r)) \<and>
     (\<forall>step' child'. (\<forall>n. child' = Some n \<longrightarrow> 0 \<le> n \<and> n \<le> 9) \<longrightarrow> step' \<noteq> step \<or> child' \<noteq> None \<longrightarrow>
        readVerdict files' dir step' child' = readVerdict files dir step' child')"
proof -
  from assms obtain verdict where
    wr: "writeVerdict io files dir step verdict None None = Inr files'"
    and vd: "gv_satisfied verdict" "gv_reason verdict = Some (SKIP_VERDICT_PREFIX @ cause)"
    by (auto simp: recordSkipVerdict_def Let_def map_sum_Inr_iff)
  from wr obtain path persisted where w: "verdictPathFor dir step None = Inr path"
      "files' = files(path \<mapsto> VerdictDoc persisted)"
      "gv_satisfied persisted = gv_satisfied verdict" "gv_reason persisted = gv_reason verdict"
    by (rule writeVerdict_cases)
  have rd: "\<exists>r. readVerdict files' dir step None = Some r \<and> gv_satisfied r \<and> isSkipVerdict (Some r)"
    using w vd by (simp add: readVerdict_def isSkipVerdict_def)
  have "readVerdict files' dir step' child' = readVerdict files dir step' child'"
    if b: "\<forall>n. child' = Some n \<longrightarrow> 0 \<le> n \<and> n \<le> (9::int)" "step' \<noteq> step \<or> child' \<noteq> None" for step' child'
  proof -
    have "p \<noteq> path" if "verdictPathFor dir step' child' = Inr p" for p
      using verdictPathFor_inj [OF that, of step None] w(1) b by auto
    then show ?thesis using w(2) by (auto simp: readVerdict_def split: sum.splits)
  qed
  with rd show ?thesis by blast
qed

theorem skip_verdict_readable_witness:
  "\<exists>files' v. recordSkipVerdict None applying_files ''w'' ''prd'' ''tier S'' 5 = Inr (files', v) \<and>
     (\<exists>r. readVerdict files' ''w'' ''prd'' None = Some r \<and> gv_satisfied r \<and> isSkipVerdict (Some r)) \<and>
     readVerdict files' ''w'' ''build'' (Some 3) = None"
proof -
  obtain files' v where r: "recordSkipVerdict None applying_files ''w'' ''prd'' ''tier S'' 5 = Inr (files', v)"
    by (simp add: recordSkipVerdict_def writeVerdict_def verdictPathFor_flat Let_def)
  have "readVerdict files' ''w'' ''build'' (Some 3) = readVerdict applying_files ''w'' ''build'' (Some 3)"
    using skip_verdict_readable [OF r] by auto
  also have "\<dots> = None"
    by (simp add: readVerdict_def verdictPathFor_def pipelinePathFor_def isRegionStep_def
        CHILD_REGION_STEPS_def applying_files_def)
  finally show ?thesis using r skip_verdict_readable [OF r] by simp
qed

section \<open>The rebase record\<close>

lemma evidence_ok_gates:
  assumes "evidence_ok preserved evidence" and "distinct (filter primitive preserved)"
  shows "mset (map (\<lambda>e. the (jget e ''gate'')) evidence) = mset preserved"
proof -
  let ?gs = "map (\<lambda>e. the (jget e ''gate'')) evidence"
  from assms(1) have len: "length ?gs = length preserved" and sub: "set ?gs \<subseteq> set preserved"
    and full: "set_size ?gs = length ?gs" and ok: "list_all candidate_ok evidence"
    by (auto simp: evidence_ok_def Let_def list_all_iff)
  have prim: "primitive g" if "g \<in> set ?gs" for g
    using that ok by (auto simp: list_all_iff candidate_ok_def Let_def)
  then have "filter primitive ?gs = ?gs" by (simp add: filter_id_conv)
  moreover have "distinct (filter primitive ?gs)" using full by (simp only: set_size_full)
  ultimately have d: "distinct ?gs" by (simp only:)
  have "card (set ?gs) = length preserved" using d len distinct_card by metis
  moreover have "card (set preserved) \<le> length preserved" by (rule card_length)
  moreover have "card (set ?gs) \<le> card (set preserved)" using sub by (simp add: card_mono)
  ultimately have c: "card (set ?gs) = card (set preserved)" "card (set preserved) = length preserved"
    by linarith+
  have eq: "set ?gs = set preserved" using sub c(1) by (rule card_subset_eq [OF finite_set])
  have "distinct preserved" using c(2) by (rule card_distinct)
  with d eq show ?thesis by (metis set_eq_iff_mset_eq_distinct)
qed

text \<open>
  In a structurally valid rebase record, a gate is named in at most
  one of the preserved, invalidated and reverified lists; an unproved replay preserves nothing and
  names no expected tree; and when preservation evidence is attached, it is for exactly the
  preserved gates, each once.
\<close>

theorem valid_rebase_record_exact:
  assumes "validRebaseOperationRecord (Some op)"
    and "jget op ''transition'' = Some t" "jget op ''replay'' = Some r"
    and "jget t ''preserved'' = Some (JArr pres)" "jget t ''invalidated'' = Some (JArr ivd)"
    and "jget t ''reverified'' = Some (JArr rvf)"
  shows "(JStr g \<in> set pres \<longrightarrow> JStr g \<notin> set ivd \<and> JStr g \<notin> set rvf) \<and>
     (jget r ''kind'' = Some (JStr ''unproved'') \<longrightarrow> pres = [] \<and> jget r ''expectedTree'' = None) \<and>
     (jget op ''preservationEvidence'' = Some (JArr ev) \<longrightarrow>
        mset (map (\<lambda>e. the (jget e ''gate'')) ev) = mset pres)"
proof -
  from assms have nm: "set_size (pres @ ivd @ rvf) = length (pres @ ivd @ rvf)"
    and kind: "if jget r ''kind'' = Some (JStr ''unproved'') then pres = [] \<and> jget r ''expectedTree'' = None
         else nonempty_jstring (jget r ''expectedTree'')"
    and ev: "case jget op ''preservationEvidence'' of None \<Rightarrow> True
             | Some ev \<Rightarrow> (case array_elems (Some ev) of None \<Rightarrow> False
                          | Some evidence \<Rightarrow> evidence_ok pres evidence)"
    by (simp_all add: validRebaseOperationRecord_def Let_def split: if_splits)
  from nm have d: "distinct (filter primitive (pres @ ivd @ rvf))" by (simp only: set_size_full)
  have "JStr g \<in> set pres \<Longrightarrow> JStr g \<notin> set ivd \<and> JStr g \<notin> set rvf"
    using d by auto
  moreover have "jget op ''preservationEvidence'' = Some (JArr ev) \<Longrightarrow>
      mset (map (\<lambda>e. the (jget e ''gate'')) ev) = mset pres"
    using ev d by (intro evidence_ok_gates) auto
  ultimately show ?thesis using kind by simp
qed

definition sample_candidate :: jval where
  "sample_candidate = JObj [(''gate'', JStr ''prd_audit''),
     (''original'', JObj [(''artifactDigest'', JStr ''a''), (''attemptId'', JStr ''b''),
        (''runId'', JStr ''c''), (''codeStamp'', JStr ''d'')]),
     (''originalVerdictDigest'', JStr (''sha256:'' @ replicate 64 (CHR ''0''))),
     (''relevantInputIdentities'', JArr [JStr ''x''])]"

definition sample_transition :: jval where
  "sample_transition = JObj [(''preserved'', JArr [JStr ''prd_audit'']),
     (''invalidated'', JArr [JStr ''test_suite'']), (''reverified'', JArr [])]"

definition sample_replay :: jval where
  "sample_replay = JObj [(''kind'', JStr ''proved''), (''preRebaseHead'', JStr ''p''),
     (''mergeBase'', JStr ''m''), (''target'', JStr ''t''), (''completedHead'', JStr ''h''),
     (''expectedTree'', JStr ''e'')]"

definition sample_rebase :: jval where
  "sample_rebase = JObj [(''id'', JStr ''op-1''), (''status'', JStr ''applying''),
     (''transition'', sample_transition), (''replay'', sample_replay),
     (''preservationEvidence'', JArr [sample_candidate])]"

lemma sample_rebase_fields [simp]:
  "jget sample_rebase ''id'' = Some (JStr ''op-1'')"
  "jget sample_rebase ''status'' = Some (JStr ''applying'')"
  "jget sample_rebase ''appliedAt'' = None"
  "jget sample_rebase ''transition'' = Some sample_transition"
  "jget sample_rebase ''replay'' = Some sample_replay"
  "jget sample_rebase ''preservationEvidence'' = Some (JArr [sample_candidate])"
  "jget sample_transition ''preserved'' = Some (JArr [JStr ''prd_audit''])"
  "jget sample_transition ''invalidated'' = Some (JArr [JStr ''test_suite''])"
  "jget sample_transition ''reverified'' = Some (JArr [])"
  "truthy (Some sample_rebase)" "truthy (Some sample_transition)" "truthy (Some sample_replay)"
  "jget sample_candidate ''gate'' = Some (JStr ''prd_audit'')"
  by (simp_all add: sample_rebase_def sample_transition_def sample_replay_def sample_candidate_def)

lemma sample_candidate_ok: "candidate_ok sample_candidate"
  by (simp add: candidate_ok_def sample_candidate_def jstring_def sha256_text_def hex_lower_def
      is_digit_def list_all_iff)

theorem valid_rebase_record_exact_witness:
  "validRebaseOperationRecord (Some sample_rebase) \<and> JStr ''prd_audit'' \<notin> set [JStr ''test_suite''] \<and>
   mset (map (\<lambda>e. the (jget e ''gate'')) [sample_candidate]) = mset [JStr ''prd_audit'']"
proof -
  have v: "validRebaseOperationRecord (Some sample_rebase)"
    by (simp add: validRebaseOperationRecord_def evidence_ok_def set_size_def Let_def sample_candidate_ok)
       (simp add: sample_replay_def)
  from valid_rebase_record_exact [OF v sample_rebase_fields(4,5,7-9),
      of "''prd_audit''" "[sample_candidate]"] v
  show ?thesis by simp
qed

end
