(* ===== verification/Selector.thy ===== *)
theory Selector
  imports GateVerdict
begin

text \<open>
  Gates and the loop selector: \<^verbatim>\<open>engine/gates.ts\<close> (prerequisites of a step),
  \<^verbatim>\<open>engine/selector.ts\<close> (the earliest unsatisfied gate of the looped region) and
  \<^verbatim>\<open>engine/resume-entry.ts\<close> (gate topology, navigation back, resume index and its clamp).
\<close>

section \<open>Gates\<close>

datatype gate_result = GatePassed | GateBlocked string "step_name list"

text \<open>
  \<open>checkGate\<close> on a definition; the string form resolves the name first and throws when it
  is unknown.
\<close>

definition checkGate :: "step_def \<Rightarrow> conduct_state \<Rightarrow> gate_result" where
  "checkGate def s =
     (let unsatisfied = filter (\<lambda>prereq. \<not> stepSatisfied s prereq) (sd_prerequisites def)
      in if length unsatisfied = 0 then GatePassed
         else GateBlocked (''Prerequisites not satisfied: '' @ join '', '' unsatisfied) unsatisfied)"

definition checkGate_named :: "custom_step_map \<Rightarrow> step_name \<Rightarrow> conduct_state \<Rightarrow> gate_result throws" where
  "checkGate_named customs step s = map_sum id (\<lambda>d. checkGate d s) (getStepDefinition customs step)"

definition isGatingStep :: "custom_step_map \<Rightarrow> step_name \<Rightarrow> bool throws" where
  "isGatingStep customs step = map_sum id (\<lambda>d. sd_enforcement d = Gating) (getStepDefinition customs step)"

definition canSkipStep :: "custom_step_map \<Rightarrow> step_name \<Rightarrow> bool throws" where
  "canSkipStep customs step = map_sum id Not (isGatingStep customs step)"

section \<open>The selector\<close>

datatype routed_parking = ParkChild int | ParkLeafHost | ParkQueue

type_synonym verdicts = "step_name \<rightharpoonup> gate_verdict"

record selector_input =
  si_steps :: "step_def list"
  si_state :: conduct_state
  si_verdicts :: verdicts
  si_regionStart :: step_name
  si_routedParking :: "routed_parking option"

datatype selector_decision = Run step_name string | Parked string | AllDone string

definition gateSatisfied :: "step_name \<Rightarrow> conduct_state \<Rightarrow> verdicts \<Rightarrow> bool" where
  "gateSatisfied step s verdicts =
     (if getStepStatus s step = Stale then False
      else (case verdicts step of
              Some v \<Rightarrow> gv_satisfied v
            | None \<Rightarrow> (let status = getStepStatus s step in status = Done \<or> status = Skipped)))"

definition isSkipped :: "step_def \<Rightarrow> conduct_state \<Rightarrow> bool" where
  "isSkipped step s =
     (if getStepStatus s (sd_name step) = Skipped then True
      else if (case state_tier s of Some t \<Rightarrow> t \<in> set (sd_skippableForTiers step) | None \<Rightarrow> False) then True
      else if shouldSkipForBootstrapMode (sd_name step) (state_bootstrap_mode s) then True
      else if shouldSkipForUpstreamSkip step (step_field s) then True
      else False)"

text \<open>Whether the loop body \<^verbatim>\<open>return i\<close> is reached at \<open>i\<close>: the negation of its four \<^verbatim>\<open>continue\<close>s.\<close>

definition selectable :: "selector_input \<Rightarrow> nat option \<Rightarrow> nat \<Rightarrow> step_def \<Rightarrow> bool" where
  "selectable inp buildReviewIdx i step =
     (if (case si_routedParking inp of Some (ParkChild _) \<Rightarrow> True | Some ParkLeafHost \<Rightarrow> True | _ \<Rightarrow> False) \<and>
         sd_name step \<notin> set CHILD_REGION_STEPS then False
      else if si_routedParking inp = Some ParkQueue \<and>
         (case buildReviewIdx of None \<Rightarrow> True | Some b \<Rightarrow> i > b) then False
      else if isSkipped step (si_state inp) then False
      else if gateSatisfied (sd_name step) (si_state inp) (si_verdicts inp) then False
      else True)"

definition findNextGateInRegion :: "selector_input \<Rightarrow> nat option throws" where
  "findNextGateInRegion inp =
     (case find_idx (\<lambda>s. sd_name s = si_regionStart inp) (si_steps inp) of
        None \<Rightarrow> Inl (''findNextGateInRegion: regionStart '' @ [CHR 0x22] @ si_regionStart inp @ [CHR 0x22] @
                    '' is not in the resolved step list'')
      | Some startIdx \<Rightarrow>
          (let buildReviewIdx = find_idx (\<lambda>s. sd_name s = ''build_review'') (si_steps inp)
           in Inr (scan_from startIdx (selectable inp buildReviewIdx) (si_steps inp))))"

fun parking_kind :: "routed_parking \<Rightarrow> string" where
  "parking_kind (ParkChild _) = ''child''"
| "parking_kind ParkLeafHost = ''leaf-host''"
| "parking_kind ParkQueue = ''queue''"

definition selectNextGate :: "selector_input \<Rightarrow> selector_decision throws" where
  "selectNextGate inp =
     (case findNextGateInRegion inp of
        Inl msg \<Rightarrow> Inl msg
      | Inr None \<Rightarrow>
          (case si_routedParking inp of
             Some p \<Rightarrow> Inr (Parked (''routed '' @ parking_kind p @ '' work is awaiting admission''))
           | None \<Rightarrow> Inr (AllDone ''all gates in the looped region are satisfied''))
      | Inr (Some idx) \<Rightarrow>
          (let step = si_steps inp ! idx; v = si_verdicts inp (sd_name step) in
           Inr (Run (sd_name step)
             (case Option.bind v gv_kickback of
                Some k \<Rightarrow> ''kickback from '' @ kb_from k @ '': '' @ kb_evidence k
              | None \<Rightarrow> (case Option.bind v gv_reason of
                  Some r \<Rightarrow> r | None \<Rightarrow> sd_name step @ '' not yet satisfied'')))))"

definition earliestUnsatisfiedGateIndex :: "selector_input \<Rightarrow> nat option throws" where
  "earliestUnsatisfiedGateIndex inp = findNextGateInRegion inp"

section \<open>Gate topology and navigation\<close>

record gate_topology =
  gt_verdictSteps :: "step_name list"
  gt_kickbackTargets :: "step_name list"
  gt_firstLoopIndex :: nat
  gt_regionStart :: "step_name option"

text \<open>
  The \<^verbatim>\<open>forEach\<close> with its index and its three variables (\<^verbatim>\<open>verdictSteps\<close>, a set in
  insertion order; \<^verbatim>\<open>kickbackTargets\<close>; \<^verbatim>\<open>firstLoopIndex\<close>).
\<close>

fun topology_loop ::
  "nat \<Rightarrow> step_def list \<Rightarrow> step_name list \<times> step_name list \<times> nat \<Rightarrow> step_name list \<times> step_name list \<times> nat" where
  "topology_loop i [] acc = acc"
| "topology_loop i (s # ss) (verdictSteps, kickbackTargets, firstLoopIndex) =
     (let (vs, fl) = (if truthy_flag (sd_loopGate s)
                      then (List.insert (sd_name s) verdictSteps,
                            if i < firstLoopIndex then i else firstLoopIndex)
                      else (verdictSteps, firstLoopIndex));
          (vs', kt) = (if truthy_flag (sd_kickbackTarget s)
                       then (List.insert (sd_name s) vs, kickbackTargets @ [sd_name s])
                       else (vs, kickbackTargets))
      in topology_loop (Suc i) ss (vs', kt, fl))"

definition deriveGateTopology :: "step_def list \<Rightarrow> gate_topology" where
  "deriveGateTopology steps =
     (case topology_loop 0 steps ([], [], length steps) of
        (verdictSteps, kickbackTargets, firstLoopIndex) \<Rightarrow>
          \<lparr>gt_verdictSteps = verdictSteps, gt_kickbackTargets = kickbackTargets,
           gt_firstLoopIndex = firstLoopIndex,
           gt_regionStart =
             (case kickbackTargets of t # _ \<Rightarrow> Some t
              | [] \<Rightarrow> (case find (\<lambda>s. sd_phase s = DECIDE) steps of
                  Some s \<Rightarrow> Some (sd_name s)
                | None \<Rightarrow> (case steps of s # _ \<Rightarrow> Some (sd_name s) | [] \<Rightarrow> None)))\<rparr>)"

definition navigateBack ::
  "conduct_state \<Rightarrow> step_name \<Rightarrow> step_def list \<Rightarrow> step_name list \<Rightarrow> conduct_state \<times> nat option" where
  "navigateBack s target steps preserve =
     (let allStepNames = map sd_name steps;
          updated = (markDownstreamStale s target allStepNames preserve)(target \<mapsto> status_json Pending);
          index = find_idx (\<lambda>st. sd_name st = target) steps
      in (updated, index))"

record navigable_step =
  nv_name :: step_name
  nv_label :: string
  nv_status :: step_status
  nv_phase :: phase

definition getNavigableSteps :: "conduct_state \<Rightarrow> step_def list \<Rightarrow> navigable_step list" where
  "getNavigableSteps s steps =
     map (\<lambda>st. \<lparr>nv_name = sd_name st, nv_label = sd_label st,
                nv_status = the (step_field s (sd_name st)), nv_phase = sd_phase st\<rparr>)
       (filter (\<lambda>st. step_field s (sd_name st) = Some Done \<or> step_field s (sd_name st) = Some Stale) steps)"

text \<open>The loop over the table keeps the last match, as every later index is larger.\<close>

fun furthest_done :: "nat \<Rightarrow> step_def list \<Rightarrow> conduct_state \<Rightarrow> (nat \<times> step_name) option \<Rightarrow> step_name option" where
  "furthest_done i [] s best = map_option snd best"
| "furthest_done i (st # rest) s best =
     furthest_done (Suc i) rest s
       (if step_field s (sd_name st) = Some Done \<and> (case best of None \<Rightarrow> True | Some (k, _) \<Rightarrow> i > k)
        then Some (i, sd_name st) else best)"

definition resolveLastStep :: "conduct_state \<Rightarrow> string option \<Rightarrow> string" where
  "resolveLastStep s lastAdvancedStep =
     (let last_step = Option.bind (s ''last_step'') (\<lambda>v. case v of JStr t \<Rightarrow> Some t | _ \<Rightarrow> None) in
      if \<not> falsy_string last_step then the last_step
      else if \<not> falsy_string lastAdvancedStep then the lastAdvancedStep
      else (case furthest_done 0 ALL_STEPS s None of
              Some nm \<Rightarrow> nm | None \<Rightarrow> ''no step recorded''))"

section \<open>Resume\<close>

text \<open>The second loop of \<open>findResumeIndex\<close>, which keeps the last done index.\<close>

fun last_done_loop :: "nat \<Rightarrow> step_def list \<Rightarrow> conduct_state \<Rightarrow> int \<Rightarrow> int" where
  "last_done_loop i [] s lastDone = lastDone"
| "last_done_loop i (st # rest) s lastDone =
     last_done_loop (Suc i) rest s (if getStepStatus s (sd_name st) = Done then int i else lastDone)"

definition findResumeIndex :: "conduct_state \<Rightarrow> step_def list \<Rightarrow> nat" where
  "findResumeIndex s steps =
     (if feature_complete s then 0
      else (case find_idx (\<lambda>st. getStepStatus s (sd_name st) = In_progress) steps of
              Some i \<Rightarrow> i
            | None \<Rightarrow> nat (last_done_loop 0 steps s (- 1) + 1)))"

text \<open>The loop of \<open>earliestResolvablePrerequisiteIndex\<close> over the prerequisites.\<close>

fun earliest_prereq_loop ::
  "step_def list \<Rightarrow> conduct_state \<Rightarrow> nat \<Rightarrow> (step_name \<Rightarrow> bool) \<Rightarrow> step_name list \<Rightarrow> nat option \<Rightarrow> nat option" where
  "earliest_prereq_loop steps s beforeIndex include [] earliest = earliest"
| "earliest_prereq_loop steps s beforeIndex include (prereq # rest) earliest =
     earliest_prereq_loop steps s beforeIndex include rest
       (if stepSatisfied s prereq then earliest
        else if \<not> include prereq then earliest
        else (case find_idx (\<lambda>c. sd_name c = prereq) steps of
                None \<Rightarrow> earliest
              | Some prereqIdx \<Rightarrow>
                  if prereqIdx \<ge> beforeIndex then earliest
                  else (case earliest of
                          None \<Rightarrow> Some prereqIdx
                        | Some e \<Rightarrow> if prereqIdx < e then Some prereqIdx else earliest)))"

definition earliestResolvablePrerequisiteIndex ::
  "step_def list \<Rightarrow> conduct_state \<Rightarrow> step_def \<Rightarrow> nat \<Rightarrow> (step_name \<Rightarrow> bool) \<Rightarrow> nat option" where
  "earliestResolvablePrerequisiteIndex steps s step beforeIndex include =
     earliest_prereq_loop steps s beforeIndex include (sd_prerequisites step) None"

text \<open>The guarded loop; \<open>fuel\<close> counts the iterations left.\<close>

fun clamp_loop :: "nat \<Rightarrow> step_def list \<Rightarrow> conduct_state \<Rightarrow> nat \<Rightarrow> nat" where
  "clamp_loop 0 steps s idx = idx"
| "clamp_loop (Suc fuel) steps s idx =
     (if idx \<ge> length steps then idx
      else let step = steps ! idx in
        if checkGate step s = GatePassed then idx
        else (case earliestResolvablePrerequisiteIndex steps s step idx (\<lambda>_. True) of
                None \<Rightarrow> idx
              | Some earliest \<Rightarrow> clamp_loop fuel steps s earliest))"

definition clampToRunnablePrerequisite :: "step_def list \<Rightarrow> conduct_state \<Rightarrow> nat \<Rightarrow> nat" where
  "clampToRunnablePrerequisite steps s candidate = clamp_loop (length steps) steps s candidate"

definition resolveRunnableResumeEntry :: "step_def list \<Rightarrow> conduct_state \<Rightarrow> nat \<Rightarrow> nat" where
  "resolveRunnableResumeEntry steps s candidate = clampToRunnablePrerequisite steps s candidate"

section \<open>Group membership\<close>

datatype verdict_word = VPass | VFail | VBlocked
datatype member_outcome =
    OVerdict verdict_word | ONoVerdict string | OMechanicalFault string | OPermissionDenied string string
  | OSkipped | OParked "nat option"

record group_member =
  gm_name :: step_name
  gm_skill :: string
  gm_outcome :: member_outcome

text \<open>\<open>disabled\<close> is the \<^verbatim>\<open>disable: true\<close> override of the step's configuration entry.\<close>

definition resolve_member ::
  "custom_step_map \<Rightarrow> conduct_state \<Rightarrow> track \<Rightarrow> (step_name \<Rightarrow> bool) \<Rightarrow> bool \<Rightarrow> step_name \<Rightarrow> group_member throws" where
  "resolve_member customs s trk disabled reverifyDoneMembers nm =
     map_sum id (\<lambda>stepDef.
       (let tier = (case state_tier s of Some t \<Rightarrow> t | None \<Rightarrow> TierL);
            skip = (getStepStatus s nm = Skipped \<or>
                    tier \<in> set (sd_skippableForTiers stepDef) \<or>
                    trk \<in> set (case sd_skippableForTracks stepDef of None \<Rightarrow> [] | Some ts \<Rightarrow> ts) \<or>
                    shouldSkipForUpstreamSkip stepDef (step_field s) \<or>
                    shouldSkipForBootstrapMode (sd_name stepDef) (state_bootstrap_mode s) \<or>
                    disabled (sd_name stepDef));
            alreadyDone = (\<not> skip \<and> \<not> reverifyDoneMembers \<and> getStepStatus s nm = Done)
        in \<lparr>gm_name = nm, gm_skill = (case sd_skillName stepDef of None \<Rightarrow> [] | Some sk \<Rightarrow> sk),
            gm_outcome = (if skip then OSkipped
                          else if alreadyDone then OVerdict VPass else ONoVerdict ''not-run'')\<rparr>))
       (getStepDefinition customs nm)"

fun traverse :: "('a \<Rightarrow> 'b throws) \<Rightarrow> 'a list \<Rightarrow> 'b list throws" where
  "traverse f [] = Inr []"
| "traverse f (x # xs) =
     (case f x of Inl e \<Rightarrow> Inl e
      | Inr y \<Rightarrow> (case traverse f xs of Inl e \<Rightarrow> Inl e | Inr ys \<Rightarrow> Inr (y # ys)))"

definition resolveGroupMembership ::
  "custom_step_map \<Rightarrow> step_group \<Rightarrow> conduct_state \<Rightarrow> track \<Rightarrow> (step_name \<Rightarrow> bool) \<Rightarrow> bool
   \<Rightarrow> (group_member list \<times> group_member list \<times> bool) throws" where
  "resolveGroupMembership customs grp s trk disabled reverifyDoneMembers =
     map_sum id (\<lambda>members.
       (let dispatchable = filter (\<lambda>m. gm_outcome m = ONoVerdict ''not-run'') members
        in (members, dispatchable, length dispatchable = 0)))
       (traverse (resolve_member customs s trk disabled reverifyDoneMembers) (sg_members grp))"

end
