(* ===== verification/SelectorProps.thy ===== *)
theory SelectorProps
  imports Selector
begin

text \<open>
  The selector picks exactly the earliest gate that still has to run, so driving the loop by it
  makes progress; and a resume always starts at a step the gate admits.
\<close>

section \<open>The earliest unsatisfied gate\<close>

definition start_index :: "selector_input \<Rightarrow> nat option" where
  "start_index inp = find_idx (\<lambda>s. sd_name s = si_regionStart inp) (si_steps inp)"

definition admitted :: "routed_parking option \<Rightarrow> step_def list \<Rightarrow> nat \<Rightarrow> bool" where
  "admitted parking steps i =
     (case parking of
        None \<Rightarrow> True
      | Some ParkQueue \<Rightarrow> (\<exists>k. find_idx (\<lambda>s. sd_name s = ''build_review'') steps = Some k \<and> i \<le> k)
      | Some _ \<Rightarrow> sd_name (steps ! i) \<in> set CHILD_REGION_STEPS)"

definition runnable :: "selector_input \<Rightarrow> nat \<Rightarrow> bool" where
  "runnable inp i =
     (i < length (si_steps inp) \<and>
      (let step = si_steps inp ! i; status = getStepStatus (si_state inp) (sd_name step) in
         status \<noteq> Skipped \<and>
         (\<forall>t. state_tier (si_state inp) = Some t \<longrightarrow> t \<notin> set (sd_skippableForTiers step)) \<and>
         \<not> shouldSkipForBootstrapMode (sd_name step) (state_bootstrap_mode (si_state inp)) \<and>
         \<not> shouldSkipForUpstreamSkip step (step_field (si_state inp)) \<and>
         (status = Stale \<or>
          (case si_verdicts inp (sd_name step) of
             Some v \<Rightarrow> \<not> gv_satisfied v
           | None \<Rightarrow> status \<noteq> Done))) \<and>
      admitted (si_routedParking inp) (si_steps inp) i)"

lemma runnable_open:
  "runnable inp i \<longleftrightarrow>
     i < length (si_steps inp) \<and> \<not> isSkipped (si_steps inp ! i) (si_state inp) \<and>
     \<not> gateSatisfied (sd_name (si_steps inp ! i)) (si_state inp) (si_verdicts inp) \<and>
     admitted (si_routedParking inp) (si_steps inp) i"
  by (auto simp: runnable_def isSkipped_def gateSatisfied_def Let_def split: option.splits)

lemma runnable_selectable:
  "runnable inp i \<longleftrightarrow>
     i < length (si_steps inp) \<and>
     selectable inp (find_idx (\<lambda>s. sd_name s = ''build_review'') (si_steps inp)) i (si_steps inp ! i)"
  by (auto simp: runnable_open admitted_def selectable_def not_less split: option.splits routed_parking.splits)

lemma findNext_Some:
  "findNextGateInRegion inp = Inr (Some i) \<longleftrightarrow>
     (\<exists>st. start_index inp = Some st \<and> st \<le> i \<and> runnable inp i \<and> (\<forall>j. st \<le> j \<and> j < i \<longrightarrow> \<not> runnable inp j))"
proof
  assume "findNextGateInRegion inp = Inr (Some i)"
  then obtain st where st: "start_index inp = Some st" and
    sc: "scan_from st (selectable inp (find_idx (\<lambda>s. sd_name s = ''build_review'') (si_steps inp)))
           (si_steps inp) = Some i"
    by (auto simp: findNextGateInRegion_def start_index_def Let_def split: option.splits)
  from scan_from_SomeD [OF sc] st
  show "\<exists>st. start_index inp = Some st \<and> st \<le> i \<and> runnable inp i \<and> (\<forall>j. st \<le> j \<and> j < i \<longrightarrow> \<not> runnable inp j)"
    by (auto simp: runnable_selectable)
next
  assume "\<exists>st. start_index inp = Some st \<and> st \<le> i \<and> runnable inp i \<and> (\<forall>j. st \<le> j \<and> j < i \<longrightarrow> \<not> runnable inp j)"
  then obtain st where st: "start_index inp = Some st" "st \<le> i" "runnable inp i"
      "\<forall>j. st \<le> j \<and> j < i \<longrightarrow> \<not> runnable inp j" by blast
  have "scan_from st (selectable inp (find_idx (\<lambda>s. sd_name s = ''build_review'') (si_steps inp)))
           (si_steps inp) = Some i"
    using st(2-4) by (intro scan_from_SomeI) (auto simp: runnable_selectable)
  with st(1) show "findNextGateInRegion inp = Inr (Some i)"
    by (simp add: findNextGateInRegion_def start_index_def Let_def)
qed

lemma findNext_None:
  "findNextGateInRegion inp = Inr None \<longleftrightarrow>
     (\<exists>st. start_index inp = Some st \<and> (\<forall>j. st \<le> j \<longrightarrow> \<not> runnable inp j))"
  by (auto simp: findNextGateInRegion_def start_index_def Let_def scan_from_None_iff runnable_selectable
      split: option.splits)

lemma findNext_Inl: "(\<exists>msg. findNextGateInRegion inp = Inl msg) \<longleftrightarrow> start_index inp = None"
  by (auto simp: findNextGateInRegion_def start_index_def Let_def split: option.splits)

lemma selects_Run:
  "(\<exists>reason. selectNextGate inp = Inr (Run nm reason)) \<longleftrightarrow>
     (\<exists>k. findNextGateInRegion inp = Inr (Some k) \<and> nm = sd_name (si_steps inp ! k))"
  by (auto simp: selectNextGate_def Let_def split: sum.splits option.splits)

lemma selects_rest:
  "(\<exists>r. selectNextGate inp = Inr (AllDone r)) \<longleftrightarrow> si_routedParking inp = None \<and> findNextGateInRegion inp = Inr None"
  "(\<exists>r. selectNextGate inp = Inr (Parked r)) \<longleftrightarrow> si_routedParking inp \<noteq> None \<and> findNextGateInRegion inp = Inr None"
  "(\<exists>msg. selectNextGate inp = Inl msg) \<longleftrightarrow> (\<exists>msg. findNextGateInRegion inp = Inl msg)"
  by (auto simp: selectNextGate_def Let_def split: sum.splits option.splits)

text \<open>
  C5: the selector's answer is characterised completely. It runs exactly the
  step at the first index from the region start whose gate is neither skipped nor satisfied (nor
  excluded by the routed parking); where there is no such index it says that everything is done when
  nothing is parked and that the work is parked otherwise; and it throws exactly when the region
  start is not in the step list. A stale gate is never satisfied, a recorded verdict decides before
  the status does.
\<close>

theorem selector_picks_earliest:
  "(findNextGateInRegion inp = Inr (Some i) \<longleftrightarrow>
      (\<exists>st. start_index inp = Some st \<and> st \<le> i \<and> runnable inp i \<and> (\<forall>j. st \<le> j \<and> j < i \<longrightarrow> \<not> runnable inp j))) \<and>
   (\<forall>nm. (\<exists>reason. selectNextGate inp = Inr (Run nm reason)) \<longleftrightarrow>
      (\<exists>st k. start_index inp = Some st \<and> st \<le> k \<and> runnable inp k \<and> (\<forall>j. st \<le> j \<and> j < k \<longrightarrow> \<not> runnable inp j) \<and>
              nm = sd_name (si_steps inp ! k))) \<and>
   ((\<exists>r. selectNextGate inp = Inr (AllDone r)) \<longleftrightarrow>
      si_routedParking inp = None \<and>
      (\<exists>st. start_index inp = Some st \<and> (\<forall>j. st \<le> j \<longrightarrow> \<not> runnable inp j))) \<and>
   ((\<exists>r. selectNextGate inp = Inr (Parked r)) \<longleftrightarrow>
      si_routedParking inp \<noteq> None \<and>
      (\<exists>st. start_index inp = Some st \<and> (\<forall>j. st \<le> j \<longrightarrow> \<not> runnable inp j))) \<and>
   ((\<exists>msg. selectNextGate inp = Inl msg) \<longleftrightarrow> start_index inp = None)"
  unfolding selects_Run selects_rest findNext_Some findNext_None findNext_Inl by blast

section \<open>Progress of the loop\<close>

text \<open>The input after the gate at a step has been judged satisfied by its verdict.\<close>

definition judged :: "selector_input \<Rightarrow> step_name \<Rightarrow> gate_verdict \<Rightarrow> selector_input" where
  "judged inp step v =
     inp\<lparr>si_state := (si_state inp)(step \<mapsto> status_json Done),
         si_verdicts := (si_verdicts inp)(step \<mapsto> v)\<rparr>"

lemma judged_fields [simp]:
  "si_steps (judged inp step v) = si_steps inp"
  "si_regionStart (judged inp step v) = si_regionStart inp"
  "si_routedParking (judged inp step v) = si_routedParking inp"
  by (simp_all add: judged_def)

text \<open>
  A step name is ordinary when writing it does not change what the skip rules read: it is no
  metadata field.
\<close>

definition skip_inputs :: "string list" where
  "skip_inputs = [''complexity_tier'', ''bootstrap_mode'']"

lemma isSkipped_iff:
  "isSkipped d s \<longleftrightarrow> getStepStatus s (sd_name d) = Skipped \<or>
     (case state_tier s of Some t \<Rightarrow> t \<in> set (sd_skippableForTiers d) | None \<Rightarrow> False) \<or>
     shouldSkipForBootstrapMode (sd_name d) (state_bootstrap_mode s) \<or>
     shouldSkipForUpstreamSkip d (step_field s)"
  by (simp add: isSkipped_def)

lemma skip_inputs_upd:
  assumes "step \<notin> set skip_inputs"
  shows "state_tier (s(step \<mapsto> x)) = state_tier s"
    and "state_bootstrap_mode (s(step \<mapsto> x)) = state_bootstrap_mode s"
  using assms by (auto simp: skip_inputs_def state_tier_def state_bootstrap_mode_def)

lemma upstream_skip_judged:
  "shouldSkipForUpstreamSkip d (step_field s) \<Longrightarrow>
     shouldSkipForUpstreamSkip d (step_field (s(step \<mapsto> status_json Done))) \<or>
     (sd_skipWhenSkipped d = Some step \<and> getStepStatus s step = Skipped)"
  by (auto simp: shouldSkipForUpstreamSkip_def getStepStatus_def split: option.splits)

lemma runnable_judged:
  assumes "step \<notin> set skip_inputs" and "gv_satisfied v"
  shows "runnable (judged inp step v) j \<Longrightarrow> runnable inp j \<or>
           (j < length (si_steps inp) \<and> sd_skipWhenSkipped (si_steps inp ! j) = Some step \<and>
            getStepStatus (si_state inp) step = Skipped)"
    and "runnable (judged inp step v) j \<Longrightarrow> sd_name (si_steps inp ! j) \<noteq> step"
proof -
  assume r: "runnable (judged inp step v) j"
  show ne: "sd_name (si_steps inp ! j) \<noteq> step"
    using r assms by (auto simp: runnable_open gateSatisfied_def judged_def split: if_splits)
  have j: "j < length (si_steps inp)" using r by (simp add: runnable_open)
  have gs: "gateSatisfied (sd_name (si_steps inp ! j)) (si_state (judged inp step v)) (si_verdicts (judged inp step v)) =
       gateSatisfied (sd_name (si_steps inp ! j)) (si_state inp) (si_verdicts inp)"
    using ne not_sym [OF ne] by (auto simp: gateSatisfied_def judged_def Let_def split: option.splits)
  have sk: "isSkipped (si_steps inp ! j) (si_state inp) \<Longrightarrow>
       isSkipped (si_steps inp ! j) (si_state (judged inp step v)) \<or>
       (sd_skipWhenSkipped (si_steps inp ! j) = Some step \<and> getStepStatus (si_state inp) step = Skipped)"
    using ne not_sym [OF ne] assms(1) upstream_skip_judged
    by (auto simp: isSkipped_iff judged_def skip_inputs_upd)
  show "runnable inp j \<or> (j < length (si_steps inp) \<and> sd_skipWhenSkipped (si_steps inp ! j) = Some step \<and>
            getStepStatus (si_state inp) step = Skipped)"
    using r j gs sk by (auto simp: runnable_open)
qed

text \<open>Judging the selected gate satisfied never re-opens an earlier one.\<close>

lemma next_gate_later:
  assumes "findNextGateInRegion inp = Inr (Some i)" and "sd_name (si_steps inp ! i) = step"
    and "step \<notin> set skip_inputs" and "gv_satisfied v"
    and "findNextGateInRegion (judged inp step v) = Inr (Some k)"
  shows "i < k"
proof -
  from assms(1) obtain st where st: "start_index inp = Some st" "st \<le> i" "runnable inp i"
      "\<forall>j. st \<le> j \<and> j < i \<longrightarrow> \<not> runnable inp j" by (auto simp: findNext_Some)
  from assms(5) obtain st' where st': "start_index (judged inp step v) = Some st'" "st' \<le> k"
      "runnable (judged inp step v) k" by (auto simp: findNext_Some)
  have same: "st' = st" using st(1) st'(1) by (simp add: start_index_def)
  have "getStepStatus (si_state inp) step \<noteq> Skipped"
    using st(3) assms(2) by (auto simp: runnable_open isSkipped_def split: if_splits)
  with runnable_judged [OF assms(3,4) st'(3)] have "runnable inp k" "sd_name (si_steps inp ! k) \<noteq> step" by auto
  with st(4) st'(2) same assms(2) show ?thesis by (metis linorder_neqE_nat)
qed

lemma start_index_judged [simp]: "start_index (judged inp step v) = start_index inp"
  by (simp add: start_index_def)

text \<open>The loop: run the selected gate, record its passing verdict, select again.\<close>

fun drive :: "nat \<Rightarrow> gate_verdict \<Rightarrow> selector_input \<Rightarrow> selector_input" where
  "drive 0 v inp = inp"
| "drive (Suc n) v inp =
     (case findNextGateInRegion inp of
        Inr (Some i) \<Rightarrow> drive n v (judged inp (sd_name (si_steps inp ! i)) v)
      | _ \<Rightarrow> inp)"

lemma drive_reaches_end:
  assumes "start_index inp \<noteq> None" and "gv_satisfied v"
    and "\<forall>st\<in>set (si_steps inp). sd_name st \<notin> set skip_inputs"
    and "\<And>i. findNextGateInRegion inp = Inr (Some i) \<Longrightarrow> length (si_steps inp) \<le> i + n"
  shows "findNextGateInRegion (drive n v inp) = Inr None"
  using assms
proof (induction n arbitrary: inp)
  case (0 inp)
  have "findNextGateInRegion inp \<noteq> Inr (Some i)" for i
  proof
    assume f: "findNextGateInRegion inp = Inr (Some i)"
    then have "i < length (si_steps inp)" by (auto simp: findNext_Some runnable_open)
    with "0.prems"(4) [OF f] show False by simp
  qed
  moreover have "findNextGateInRegion inp \<noteq> Inl msg" for msg
    using "0.prems"(1) findNext_Inl [of inp] by auto
  ultimately have "findNextGateInRegion inp = Inr None"
    by (metis option.exhaust sum.exhaust_sel)
  then show ?case by simp
next
  case (Suc n inp)
  consider (none) "findNextGateInRegion inp = Inr None" | (some) i where "findNextGateInRegion inp = Inr (Some i)"
    using Suc.prems(1) findNext_Inl [of inp] by (metis option.exhaust sum.exhaust_sel)
  then show ?case
  proof cases
    case none
    then show ?thesis by simp
  next
    case (some i)
    let ?step = "sd_name (si_steps inp ! i)"
    have i: "i < length (si_steps inp)" using some by (auto simp: findNext_Some runnable_open)
    then have ns: "?step \<notin> set skip_inputs" using Suc.prems(3) by simp
    have "length (si_steps (judged inp ?step v)) \<le> k + n"
      if k: "findNextGateInRegion (judged inp ?step v) = Inr (Some k)" for k
      using next_gate_later [OF some refl ns Suc.prems(2) k] Suc.prems(4) [OF some] by simp
    then have "findNextGateInRegion (drive n v (judged inp ?step v)) = Inr None"
      using Suc.prems by (intro Suc.IH) simp_all
    then show ?thesis using some by simp
  qed
qed

text \<open>
  Running the selected gate and recording that it passed never re-opens an
  earlier gate, so from any state and verdicts the loop visits each step at most once: after as many
  rounds as there are steps, the selector reports that no gate of the region is left.
\<close>

theorem gate_loop_ends:
  assumes "start_index inp \<noteq> None" and "gv_satisfied v"
    and "\<forall>st\<in>set (si_steps inp). sd_name st \<notin> set skip_inputs"
  shows "findNextGateInRegion (drive (length (si_steps inp)) v inp) = Inr None"
  using drive_reaches_end [OF assms] by simp

definition two_gates :: selector_input where
  "two_gates = \<lparr>si_steps = [step_build, step_finish], si_state = [''build'' \<mapsto> status_json Stale],
     si_verdicts = Map.empty, si_regionStart = ''build'', si_routedParking = None\<rparr>"

definition pass_verdict :: gate_verdict where
  "pass_verdict = \<lparr>gv_satisfied = True, gv_routedRound = None, gv_outcome = None,
     gv_reason = None, gv_checkedAt = 1, gv_kickback = None, gv_preservation = None,
     gv_rebaseOperation = None\<rparr>"

lemmas selector_eval_simps =
  findNextGateInRegion_def selectable_def isSkipped_def gateSatisfied_def state_tier_def
  state_bootstrap_mode_def shouldSkipForBootstrapMode_def shouldSkipForUpstreamSkip_def
  getStepStatus_def step_field_def

theorem selector_picks_earliest_witness:
  "findNextGateInRegion two_gates = Inr (Some 0) \<and>
   (\<exists>reason. selectNextGate two_gates = Inr (Run (sd_name (si_steps two_gates ! 0)) reason)) \<and>
   \<not> (\<exists>r. selectNextGate two_gates = Inr (AllDone r))"
proof -
  have i: "findNextGateInRegion two_gates = Inr (Some 0)"
    by (simp add: selector_eval_simps two_gates_def builtin_step_defs step_literal_def scan_from.simps)
  from selector_picks_earliest [of two_gates 0, THEN conjunct1, THEN iffD1, OF i]
  obtain st where st: "start_index two_gates = Some st \<and> st \<le> 0 \<and> runnable two_gates 0 \<and>
     (\<forall>j. st \<le> j \<and> j < 0 \<longrightarrow> \<not> runnable two_gates j)" by (elim exE)
  then have "\<exists>st k. start_index two_gates = Some st \<and> st \<le> k \<and> runnable two_gates k \<and>
     (\<forall>j. st \<le> j \<and> j < k \<longrightarrow> \<not> runnable two_gates j) \<and>
     sd_name (si_steps two_gates ! 0) = sd_name (si_steps two_gates ! k)" by (intro exI conjI) simp_all
  from selector_picks_earliest [of two_gates 0, THEN conjunct2, THEN conjunct1, THEN spec, THEN iffD2, OF this]
  show ?thesis using i selects_rest(1) [of two_gates] by simp
qed

theorem gate_loop_ends_witness:
  "findNextGateInRegion two_gates = Inr (Some 0) \<and>
   findNextGateInRegion (drive 2 pass_verdict two_gates) = Inr None"
proof -
  have "start_index two_gates \<noteq> None" "gv_satisfied pass_verdict"
      "\<forall>st\<in>set (si_steps two_gates). sd_name st \<notin> set skip_inputs" "length (si_steps two_gates) = 2"
    by (simp_all add: start_index_def two_gates_def pass_verdict_def builtin_step_defs
        step_literal_def skip_inputs_def)
  moreover have "findNextGateInRegion two_gates = Inr (Some 0)"
    by (simp add: selector_eval_simps two_gates_def builtin_step_defs step_literal_def scan_from.simps)
  ultimately show ?thesis using gate_loop_ends [of two_gates pass_verdict] by simp
qed

section \<open>Restaging by navigation\<close>

lemma index_of_map: "index_of t (map f xs) = find_idx (\<lambda>x. f x = t) xs"
  by (simp add: index_of_def find_idx_cong_map)

text \<open>
  Navigating back to a step makes it pending and points at its index;
  every finished step after it that is not preserved is re-run whatever verdict it still carries;
  and no other step's status changes.
\<close>

theorem navigate_back_reopens:
  assumes "find_idx (\<lambda>st. sd_name st = target) steps = Some t"
    and "distinct (map sd_name steps)"
    and "navigateBack s target steps preserve = (s', idx)"
  shows "idx = Some t \<and> getStepStatus s' target = Pending \<and>
     (\<forall>k. t < k \<and> k < length steps \<and> sd_name (steps ! k) \<notin> set preserve \<and>
          getStepStatus s (sd_name (steps ! k)) = Done
        \<longrightarrow> (\<forall>verdicts. \<not> gateSatisfied (sd_name (steps ! k)) s' verdicts)) \<and>
     (\<forall>f. f \<noteq> target \<and> f \<notin> sd_name ` set (drop (Suc t) steps) \<longrightarrow> getStepStatus s' f = getStepStatus s f)"
proof -
  have io: "index_of target (map sd_name steps) = Some t" using assms(1) by (simp add: index_of_map)
  have s': "s' = (markDownstreamStale s target (map sd_name steps) preserve)(target \<mapsto> status_json Pending)"
    and idx: "idx = Some t" using assms(1,3) by (auto simp: navigateBack_def Let_def)
  have stat: "getStepStatus s' f = (if f = target then Pending
      else if f \<in> sd_name ` set (drop (Suc t) steps) \<and> f \<notin> set preserve \<and> getStepStatus s f = Done then Stale
      else getStepStatus s f)" for f
    by (simp add: s' getStepStatus_markDownstreamStale io drop_map)
  have "\<not> gateSatisfied (sd_name (steps ! k)) s' verdicts"
    if k: "t < k" "k < length steps" "sd_name (steps ! k) \<notin> set preserve"
      "getStepStatus s (sd_name (steps ! k)) = Done" for k verdicts
  proof -
    from assms(1) have "t < length steps" "sd_name (steps ! t) = target" by (auto dest: find_idx_SomeD)
    with assms(2) k have "sd_name (steps ! k) \<noteq> target"
      by (metis distinct_conv_nth length_map nat_neq_iff nth_map)
    moreover have "steps ! k \<in> set (drop (Suc t) steps)"
      using k(1,2) by (auto simp: in_set_conv_nth intro!: exI [where x = "k - Suc t"])
    ultimately have "getStepStatus s' (sd_name (steps ! k)) = Stale" using k by (simp add: stat)
    then show ?thesis by (simp add: gateSatisfied_def)
  qed
  with idx show ?thesis by (auto simp: stat)
qed

theorem navigate_back_reopens_witness:
  "\<exists>s'. navigateBack [''build'' \<mapsto> status_json Done, ''finish'' \<mapsto> status_json Done] ''build''
         [step_build, step_finish] [] = (s', Some 0) \<and>
     getStepStatus s' ''build'' = Pending \<and> \<not> gateSatisfied ''finish'' s' [''finish'' \<mapsto> pass_verdict]"
proof -
  let ?s = "[''build'' \<mapsto> status_json Done, ''finish'' \<mapsto> status_json Done]"
  obtain s' idx where nb: "navigateBack ?s ''build'' [step_build, step_finish] [] = (s', idx)"
    by (cases "navigateBack ?s ''build'' [step_build, step_finish] []")
  have f: "find_idx (\<lambda>st. sd_name st = ''build'') [step_build, step_finish] = Some 0"
      "distinct (map sd_name [step_build, step_finish])"
    by (simp_all add: builtin_step_defs step_literal_def)
  have "getStepStatus ?s ''finish'' = Done" by (simp add: getStepStatus_def step_field_def)
  with navigate_back_reopens [OF f nb] nb show ?thesis
    by (auto simp: builtin_step_defs step_literal_def dest!: spec [where x = 1])
qed

end
