(* ===== verification/ResumeProps.thy ===== *)
theory ResumeProps
  imports SelectorProps
begin

text \<open>
  Resume entry: the backward clamp ends within its iteration bound, and on a registry whose
  prerequisites precede their steps it always reaches a step that the gate admits; the resume
  index and the members of the validation group are characterised.
\<close>

section \<open>The clamp\<close>

text \<open>What the loop over the prerequisites has found so far.\<close>

definition resolvable_prereq ::
  "step_def list \<Rightarrow> conduct_state \<Rightarrow> nat \<Rightarrow> (step_name \<Rightarrow> bool) \<Rightarrow> step_name \<Rightarrow> nat \<Rightarrow> bool" where
  "resolvable_prereq steps s before include p k =
     (\<not> stepSatisfied s p \<and> include p \<and> find_idx (\<lambda>c. sd_name c = p) steps = Some k \<and> k < before)"

lemma earliest_prereq_loop_Some:
  "earliest_prereq_loop steps s before include ps acc = Some e \<Longrightarrow>
     acc = Some e \<or> (\<exists>p\<in>set ps. resolvable_prereq steps s before include p e)"
  by (induction ps arbitrary: acc)
     (fastforce simp: resolvable_prereq_def split: if_splits option.splits)+

lemma earliest_prereq_loop_le:
  "acc = Some a \<Longrightarrow> \<exists>e. earliest_prereq_loop steps s before include ps acc = Some e \<and> e \<le> a"
proof (induction ps arbitrary: acc a)
  case Nil
  then show ?case by simp
next
  case (Cons p ps)
  let ?acc' = "if stepSatisfied s p then acc else if \<not> include p then acc
        else (case find_idx (\<lambda>c. sd_name c = p) steps of None \<Rightarrow> acc
              | Some k \<Rightarrow> if k \<ge> before then acc
                  else (case acc of None \<Rightarrow> Some k | Some e \<Rightarrow> if k < e then Some k else acc))"
  have "\<exists>a'. ?acc' = Some a' \<and> a' \<le> a"
    using Cons.prems by (auto split: option.splits)
  then obtain a' where a': "?acc' = Some a'" "a' \<le> a" by blast
  from Cons.IH [OF a'(1)] obtain e where
    "earliest_prereq_loop steps s before include ps ?acc' = Some e" "e \<le> a'" by blast
  then show ?case unfolding earliest_prereq_loop.simps using a'(2) order_trans by blast
qed

lemma earliest_prereq_loop_complete:
  "\<exists>p\<in>set ps. resolvable_prereq steps s before include p k \<Longrightarrow>
     \<exists>e. earliest_prereq_loop steps s before include ps acc = Some e \<and> e \<le> k"
proof (induction ps arbitrary: acc)
  case Nil
  then show ?case by simp
next
  case (Cons p ps)
  show ?case
  proof (cases "resolvable_prereq steps s before include p k")
    case True
    let ?acc' = "case acc of None \<Rightarrow> Some k | Some e \<Rightarrow> if k < e then Some k else acc"
    have "\<exists>a'. ?acc' = Some a' \<and> a' \<le> k" by (cases acc) auto
    then obtain a' where a': "?acc' = Some a'" "a' \<le> k" by blast
    from earliest_prereq_loop_le [OF a'(1)] a'(2) True show ?thesis
      by (fastforce simp: resolvable_prereq_def)
  next
    case False
    with Cons.prems have "\<exists>p\<in>set ps. resolvable_prereq steps s before include p k" by auto
    from Cons.IH [OF this] show ?thesis by simp
  qed
qed

text \<open>The search returns the least index of an unsatisfied, included prerequisite before the bound.\<close>

lemma earliest_prereq_spec:
  "earliestResolvablePrerequisiteIndex steps s step before include = Some e \<longleftrightarrow>
     (\<exists>p\<in>set (sd_prerequisites step). resolvable_prereq steps s before include p e) \<and>
     (\<forall>p\<in>set (sd_prerequisites step). \<forall>k. resolvable_prereq steps s before include p k \<longrightarrow> e \<le> k)"
  (is "?l \<longleftrightarrow> ?r")
proof
  assume ?l
  then have f: "earliest_prereq_loop steps s before include (sd_prerequisites step) None = Some e"
    by (simp add: earliestResolvablePrerequisiteIndex_def)
  have "e \<le> k" if "p \<in> set (sd_prerequisites step)" "resolvable_prereq steps s before include p k" for p k
    using earliest_prereq_loop_complete [of "sd_prerequisites step" steps s before "include" k None] that f
    by auto
  with earliest_prereq_loop_Some [OF f] show ?r by auto
next
  assume r: ?r
  then obtain e' where e': "earliest_prereq_loop steps s before include (sd_prerequisites step) None = Some e'" "e' \<le> e"
    using earliest_prereq_loop_complete by blast
  from earliest_prereq_loop_Some [OF e'(1)] r have "e \<le> e'" by auto
  with e' show ?l by (simp add: earliestResolvablePrerequisiteIndex_def)
qed

lemma earliest_prereq_None:
  "earliestResolvablePrerequisiteIndex steps s step before include = None \<longleftrightarrow>
     (\<forall>p\<in>set (sd_prerequisites step). \<forall>k. \<not> resolvable_prereq steps s before include p k)"
proof -
  have "\<exists>e. earliestResolvablePrerequisiteIndex steps s step before include = Some e"
    if "p \<in> set (sd_prerequisites step)" "resolvable_prereq steps s before include p k" for p k
    using earliest_prereq_loop_complete [of "sd_prerequisites step" steps s before "include" k None] that
    by (auto simp: earliestResolvablePrerequisiteIndex_def)
  moreover have "\<exists>p\<in>set (sd_prerequisites step). resolvable_prereq steps s before include p e"
    if "earliestResolvablePrerequisiteIndex steps s step before include = Some e" for e
    using that by (simp add: earliest_prereq_spec)
  ultimately show ?thesis by (metis not_Some_eq)
qed

definition clamp_stop :: "step_def list \<Rightarrow> conduct_state \<Rightarrow> nat \<Rightarrow> bool" where
  "clamp_stop steps s r =
     (length steps \<le> r \<or> checkGate (steps ! r) s = GatePassed \<or>
      earliestResolvablePrerequisiteIndex steps s (steps ! r) r (\<lambda>_. True) = None)"

lemma clamp_loop_stops: "idx < fuel \<or> length steps \<le> idx \<and> 0 < fuel \<Longrightarrow>
   clamp_loop fuel steps s idx \<le> idx \<and> clamp_stop steps s (clamp_loop fuel steps s idx)"
proof (induction fuel arbitrary: idx)
  case 0
  then show ?case by simp
next
  case (Suc fuel)
  show ?case
  proof (cases "clamp_stop steps s idx")
    case True
    then show ?thesis by (auto simp: clamp_stop_def Let_def)
  next
    case False
    then obtain e where e: "earliestResolvablePrerequisiteIndex steps s (steps ! idx) idx (\<lambda>_. True) = Some e"
      and lt: "idx < length steps" and ng: "checkGate (steps ! idx) s \<noteq> GatePassed"
      by (auto simp: clamp_stop_def)
    from e have "e < idx" by (auto simp: earliest_prereq_spec resolvable_prereq_def)
    moreover have "clamp_loop fuel steps s e \<le> e \<and> clamp_stop steps s (clamp_loop fuel steps s e)"
      using Suc.prems lt \<open>e < idx\<close> by (intro Suc.IH) auto
    ultimately show ?thesis using e lt ng by (simp add: Let_def)
  qed
qed

lemma clamp_settled:
  "clampToRunnablePrerequisite steps s candidate \<le> candidate \<and>
   clamp_stop steps s (clampToRunnablePrerequisite steps s candidate)"
proof (cases "steps = []")
  case True
  then show ?thesis by (simp add: clampToRunnablePrerequisite_def clamp_stop_def)
next
  case False
  then have "candidate < length steps \<or> length steps \<le> candidate \<and> 0 < length steps" by auto
  from clamp_loop_stops [OF this] show ?thesis by (simp add: clampToRunnablePrerequisite_def)
qed

text \<open>
  The bound of one iteration per step is enough: from every candidate,
  the clamp moves only backward and stops at an index that is past the list, or whose gate
  passes, or from which no unsatisfied prerequisite can be reached, never because the bound ran
  out. It holds for malformed registries too, cyclic prerequisites included.
\<close>

theorem clamp_terminates_settled:
  "clampToRunnablePrerequisite steps s candidate \<le> candidate \<and>
   clamp_stop steps s (clampToRunnablePrerequisite steps s candidate)"
  by (rule clamp_settled)

lemma prereqs_ok_nth:
  "prereqs_ok seen steps \<Longrightarrow> k < length steps \<Longrightarrow>
     set (sd_prerequisites (steps ! k)) \<subseteq> set seen \<union> sd_name ` set (take k steps)"
proof (induction steps arbitrary: seen k)
  case Nil
  then show ?case by simp
next
  case (Cons d ds)
  then show ?case by (cases k) fastforce+
qed

lemma find_idx_before:
  assumes "p \<in> sd_name ` set (take k steps)"
  shows "\<exists>j<k. find_idx (\<lambda>c. sd_name c = p) steps = Some j"
proof -
  from assms obtain j where j: "j < k" "j < length steps" "sd_name (steps ! j) = p"
    by (auto simp: in_set_conv_nth)
  then have "find_idx (\<lambda>c. sd_name c = p) steps \<noteq> None"
    by (auto simp: find_idx_None_iff)
  then obtain m where m: "find_idx (\<lambda>c. sd_name c = p) steps = Some m" by auto
  from find_idx_SomeD [OF m] j have "m \<le> j" by (metis linorder_not_le)
  with m j show ?thesis by auto
qed

lemma checkGate_passed: "checkGate d s = GatePassed \<longleftrightarrow> (\<forall>p\<in>set (sd_prerequisites d). stepSatisfied s p)"
  by (auto simp: checkGate_def Let_def filter_empty_conv)

lemma clamp_gate_passes:
  assumes "prereqs_precede steps" and "candidate < length steps"
  shows "checkGate (steps ! clampToRunnablePrerequisite steps s candidate) s = GatePassed"
proof -
  let ?r = "clampToRunnablePrerequisite steps s candidate"
  have r: "?r \<le> candidate" "clamp_stop steps s ?r"
    using clamp_settled by simp_all
  have lt: "?r < length steps" using r(1) assms(2) by simp
  show ?thesis
  proof (rule ccontr)
    assume ng: "checkGate (steps ! ?r) s \<noteq> GatePassed"
    then obtain p where p: "p \<in> set (sd_prerequisites (steps ! ?r))" "\<not> stepSatisfied s p"
      by (auto simp: checkGate_passed)
    from prereqs_ok_nth [OF assms(1) [unfolded prereqs_precede_def] lt] p(1)
    have "p \<in> sd_name ` set (take ?r steps)" by auto
    from find_idx_before [OF this] obtain j where "j < ?r" "find_idx (\<lambda>c. sd_name c = p) steps = Some j" by auto
    with p have "resolvable_prereq steps s ?r (\<lambda>_. True) p j" by (simp add: resolvable_prereq_def)
    with p(1) have "earliestResolvablePrerequisiteIndex steps s (steps ! ?r) ?r (\<lambda>_. True) \<noteq> None"
      by (auto simp: earliest_prereq_None)
    with r(2) ng lt show False by (simp add: clamp_stop_def)
  qed
qed

text \<open>
  On a step list whose prerequisites precede their steps (the built-in
  table, and every registry that keeps the built-in order), a resume candidate is clamped to a step
  at or before it that the gate check admits, so the loop does not exit at once as gate-blocked.
\<close>

theorem clamp_reaches_runnable:
  assumes "prereqs_precede steps" and "candidate < length steps"
  shows "checkGate (steps ! resolveRunnableResumeEntry steps s candidate) s = GatePassed \<and>
         resolveRunnableResumeEntry steps s candidate \<le> candidate"
  using clamp_gate_passes [OF assms] clamp_settled [of steps s candidate]
  by (simp add: resolveRunnableResumeEntry_def)

theorem clamp_reaches_runnable_witness:
  "checkGate (ALL_STEPS ! resolveRunnableResumeEntry ALL_STEPS Map.empty 13) Map.empty = GatePassed \<and>
   resolveRunnableResumeEntry ALL_STEPS Map.empty 13 \<le> 13"
  by (rule clamp_reaches_runnable [OF ALL_STEPS_prereqs])
     (simp add: ALL_STEPS_def)

section \<open>The resume index\<close>

lemma last_done_none:
  "\<forall>d\<in>set steps. getStepStatus s (sd_name d) \<noteq> Done \<Longrightarrow> last_done_loop i steps s acc = acc"
  by (induction steps arbitrary: i) auto

lemma last_done_append:
  "last_done_loop i (xs @ ys) s acc = last_done_loop (i + length xs) ys s (last_done_loop i xs s acc)"
  by (induction xs arbitrary: i acc) auto

lemma last_done_at:
  assumes "k < length steps" "getStepStatus s (sd_name (steps ! k)) = Done"
    and "\<forall>j. k < j \<and> j < length steps \<longrightarrow> getStepStatus s (sd_name (steps ! j)) \<noteq> Done"
  shows "last_done_loop 0 steps s acc = int k"
proof -
  have sp: "steps = take k steps @ steps ! k # drop (Suc k) steps"
    using assms(1) by (rule id_take_nth_drop)
  have nd: "\<forall>d\<in>set (drop (Suc k) steps). getStepStatus s (sd_name d) \<noteq> Done"
  proof
    fix d assume "d \<in> set (drop (Suc k) steps)"
    then obtain j where "j < length (drop (Suc k) steps)" "d = drop (Suc k) steps ! j"
      by (auto simp: in_set_conv_nth)
    then have "Suc (k + j) < length steps" "d = steps ! Suc (k + j)" by auto
    with assms(3) show "getStepStatus s (sd_name d) \<noteq> Done" by auto
  qed
  have "last_done_loop 0 steps s acc =
      last_done_loop (length (take k steps)) (steps ! k # drop (Suc k) steps) s
        (last_done_loop 0 (take k steps) s acc)"
    using last_done_append [of 0 "take k steps" "steps ! k # drop (Suc k) steps" s acc]
    by (simp only: sp [symmetric] add_0)
  then show ?thesis using assms(1,2) nd by (simp add: last_done_none)
qed

text \<open>
  An unfinished feature resumes at its first in-progress step; without one,
  right after the last done step, so that no step after the resume index is done; with nothing
  done, at the start.
\<close>

theorem resume_index_exact:
  assumes "\<not> feature_complete s"
  shows "(\<forall>i. find_idx (\<lambda>st. getStepStatus s (sd_name st) = In_progress) steps = Some i
            \<longrightarrow> findResumeIndex s steps = i) \<and>
     (find_idx (\<lambda>st. getStepStatus s (sd_name st) = In_progress) steps = None \<longrightarrow>
        findResumeIndex s steps \<le> length steps \<and>
        (\<forall>j. findResumeIndex s steps \<le> j \<and> j < length steps \<longrightarrow> getStepStatus s (sd_name (steps ! j)) \<noteq> Done) \<and>
        (findResumeIndex s steps \<noteq> 0 \<longrightarrow>
           getStepStatus s (sd_name (steps ! (findResumeIndex s steps - 1))) = Done))"
proof (cases "\<exists>k<length steps. getStepStatus s (sd_name (steps ! k)) = Done")
  case False
  then have "\<forall>d\<in>set steps. getStepStatus s (sd_name d) \<noteq> Done" by (auto simp: in_set_conv_nth)
  then have "last_done_loop 0 steps s (- 1) = - 1" by (rule last_done_none)
  with False assms show ?thesis by (auto simp: findResumeIndex_def)
next
  case True
  let ?P = "\<lambda>k. k < length steps \<and> getStepStatus s (sd_name (steps ! k)) = Done"
  let ?k = "GREATEST k. ?P k"
  from True obtain k0 where k0: "?P k0" by blast
  have bnd: "\<And>y. ?P y \<Longrightarrow> y \<le> length steps" by simp
  have k: "?P ?k" using GreatestI_nat [of ?P, OF k0 bnd] .
  have mx: "\<forall>j. ?k < j \<and> j < length steps \<longrightarrow> getStepStatus s (sd_name (steps ! j)) \<noteq> Done"
    using Greatest_le_nat [of ?P, OF _ bnd] by (metis linorder_not_le)
  have "last_done_loop 0 steps s (- 1) = int ?k"
    using k mx by (intro last_done_at) auto
  then have "find_idx (\<lambda>st. getStepStatus s (sd_name st) = In_progress) steps = None \<Longrightarrow>
      findResumeIndex s steps = Suc ?k"
    using assms by (simp add: findResumeIndex_def nat_add_distrib)
  then show ?thesis using assms k mx by (auto simp: findResumeIndex_def)
qed

theorem resume_index_exact_witness:
  "findResumeIndex [''worktree'' \<mapsto> status_json Done] [step_worktree, step_memory] = 1"
proof -
  let ?s = "[''worktree'' \<mapsto> status_json Done]" and ?steps = "[step_worktree, step_memory]"
  have nf: "\<not> feature_complete ?s" by (simp add: feature_complete_def)
  have st: "getStepStatus ?s (sd_name step_worktree) = Done" "getStepStatus ?s (sd_name step_memory) \<noteq> Done"
    by (simp_all add: builtin_step_defs step_literal_def getStepStatus_def step_field_def)
  have "find_idx (\<lambda>st. getStepStatus ?s (sd_name st) = In_progress) ?steps = None"
    by (simp add: builtin_step_defs step_literal_def getStepStatus_def step_field_def)
  with resume_index_exact [OF nf, of ?steps]
  have r: "findResumeIndex ?s ?steps \<le> 2"
    "\<forall>j. findResumeIndex ?s ?steps \<le> j \<and> j < 2 \<longrightarrow> getStepStatus ?s (sd_name (?steps ! j)) \<noteq> Done"
    "findResumeIndex ?s ?steps \<noteq> 0 \<longrightarrow> getStepStatus ?s (sd_name (?steps ! (findResumeIndex ?s ?steps - 1))) = Done"
    by simp_all
  from r(2) [rule_format, of 0] st(1) have "findResumeIndex ?s ?steps \<noteq> 0" by auto
  moreover have "findResumeIndex ?s ?steps \<noteq> 2"
  proof
    assume "findResumeIndex ?s ?steps = 2"
    with r(3) have "getStepStatus ?s (sd_name (?steps ! 1)) = Done" by (simp del: getStepStatus_upd)
    with st(2) show False by (simp del: getStepStatus_upd)
  qed
  ultimately show ?thesis using r(1) by linarith
qed

section \<open>The validation group\<close>

text \<open>How one member is resolved: skipped as the selector skips it, or for its track or configuration.\<close>

definition group_outcome :: "conduct_state \<Rightarrow> track \<Rightarrow> (step_name \<Rightarrow> bool) \<Rightarrow> bool \<Rightarrow> step_def \<Rightarrow> member_outcome" where
  "group_outcome s trk disabled reverify d =
     (if isSkipped d s \<or> trk \<in> set (case sd_skippableForTracks d of None \<Rightarrow> [] | Some ts \<Rightarrow> ts) \<or>
         disabled (sd_name d)
      then OSkipped
      else if \<not> reverify \<and> getStepStatus s (sd_name d) = Done then OVerdict VPass
      else ONoVerdict ''not-run'')"

lemma resolve_member_outcome:
  assumes "getStepDefinition customs nm = Inr d" and "sd_name d = nm" and "TierL \<notin> set (sd_skippableForTiers d)"
  shows "\<exists>sk. resolve_member customs s trk disabled reverify nm =
     Inr \<lparr>gm_name = nm, gm_skill = sk, gm_outcome = group_outcome s trk disabled reverify d\<rparr>"
proof -
  have "tier \<in> set (sd_skippableForTiers d) \<longleftrightarrow> (case state_tier s of Some t \<Rightarrow> t \<in> set (sd_skippableForTiers d) | None \<Rightarrow> False)"
    if "tier = (case state_tier s of Some t \<Rightarrow> t | None \<Rightarrow> TierL)" for tier
    using that assms(3) by (cases "state_tier s") auto
  then show ?thesis
    using assms(1,2) by (auto simp: resolve_member_def Let_def group_outcome_def isSkipped_def)
qed

lemma validation_definitions:
  "getStepDefinition customs ''manual_test'' = Inr step_manual_test"
  "getStepDefinition customs ''prd_audit'' = Inr step_prd_audit"
  "getStepDefinition customs ''architecture_review_as_built'' = Inr step_architecture_review_as_built"
  by (simp_all add: getStepDefinition_def stepMap_def ALL_STEPS_def builtin_step_defs step_literal_def)

text \<open>
  Resolving the validation group never throws and never drops a member:
  there is one entry per member in the group's order; a member is skipped exactly when the selector
  would skip it, or for its track or by configuration; of the others, the done ones count as passed
  unless the round is a re-verification, and exactly the rest is dispatched.
\<close>

theorem validation_group_members:
  "\<exists>members. resolveGroupMembership customs VALIDATION_GROUP s trk disabled reverify =
       Inr (members, filter (\<lambda>m. gm_outcome m = ONoVerdict ''not-run'') members,
            filter (\<lambda>m. gm_outcome m = ONoVerdict ''not-run'') members = []) \<and>
     map (\<lambda>m. (gm_name m, gm_outcome m)) members =
       map (\<lambda>d. (sd_name d, group_outcome s trk disabled reverify d))
         [step_manual_test, step_prd_audit, step_architecture_review_as_built]"
proof -
  have names: "sd_name step_manual_test = ''manual_test''" "sd_name step_prd_audit = ''prd_audit''"
      "sd_name step_architecture_review_as_built = ''architecture_review_as_built''"
      "TierL \<notin> set (sd_skippableForTiers step_manual_test)" "TierL \<notin> set (sd_skippableForTiers step_prd_audit)"
      "TierL \<notin> set (sd_skippableForTiers step_architecture_review_as_built)"
    by (simp_all add: builtin_step_defs step_literal_def)
  note member = resolve_member_outcome [where customs = customs and s = s and trk = trk and
      disabled = disabled and reverify = reverify]
  obtain k1 k2 k3 where k:
    "resolve_member customs s trk disabled reverify ''manual_test'' =
       Inr \<lparr>gm_name = ''manual_test'', gm_skill = k1,
            gm_outcome = group_outcome s trk disabled reverify step_manual_test\<rparr>"
    "resolve_member customs s trk disabled reverify ''prd_audit'' =
       Inr \<lparr>gm_name = ''prd_audit'', gm_skill = k2,
            gm_outcome = group_outcome s trk disabled reverify step_prd_audit\<rparr>"
    "resolve_member customs s trk disabled reverify ''architecture_review_as_built'' =
       Inr \<lparr>gm_name = ''architecture_review_as_built'', gm_skill = k3,
            gm_outcome = group_outcome s trk disabled reverify step_architecture_review_as_built\<rparr>"
    using member [OF validation_definitions(1) names(1,4)] member [OF validation_definitions(2) names(2,5)]
      member [OF validation_definitions(3) names(3,6)] by blast
  show ?thesis
    by (simp add: resolveGroupMembership_def VALIDATION_GROUP_def k names Let_def)
qed

end
