(* ===== verification/Ladder.thy ===== *)
theory Ladder
  imports Steps
begin

text \<open>
  Model policies and the two ladders of a step dispatch: the built-in policies
  (\<^verbatim>\<open>execution/provider-model-policy-defaults.ts\<close>), their resolution for a provider
  (\<^verbatim>\<open>engine/provider-model-policy.ts\<close>), the upgrade of tiered model ids
  (\<^verbatim>\<open>engine/model-tier-resolution.ts\<close>) and retry escalation (\<^verbatim>\<open>engine/escalation.ts\<close>).
\<close>

section \<open>Efforts\<close>

datatype effort_level = EffLow | EffMedium | EffHigh | EffXhigh | EffMax

text \<open>The reasoning efforts are ordered as the built-in \<^verbatim>\<open>effortOrder\<close> lists them.\<close>

primrec effort_rank :: "effort_level \<Rightarrow> nat" where
  "effort_rank EffLow = 0"
| "effort_rank EffMedium = 1"
| "effort_rank EffHigh = 2"
| "effort_rank EffXhigh = 3"
| "effort_rank EffMax = 4"

lemma effort_rank_inj: "effort_rank a = effort_rank b \<Longrightarrow> a = b"
  by (cases a; cases b) simp_all

instantiation effort_level :: linorder
begin

definition less_eq_effort_level :: "effort_level \<Rightarrow> effort_level \<Rightarrow> bool" where
  "less_eq_effort_level a b = (effort_rank a \<le> effort_rank b)"

definition less_effort_level :: "effort_level \<Rightarrow> effort_level \<Rightarrow> bool" where
  "less_effort_level a b = (effort_rank a < effort_rank b)"

instance
  by standard (auto simp: less_eq_effort_level_def less_effort_level_def dest: effort_rank_inj)

end

section \<open>Policies\<close>

record tier_override =
  to_model :: "string option"
  to_effort :: "effort_level option"
  to_max_retries :: "int option"

type_synonym tier_overrides = "(step_name \<times> (complexity_tier \<times> tier_override) list) list"

record model_policy =
  mp_requiresConfiguredModels :: bool
  mp_stepModels :: "(step_name \<times> string) list"
  mp_stepEfforts :: "(step_name \<times> effort_level) list"
  mp_stepTierOverrides :: tier_overrides
  mp_effortOrder :: "effort_level list"
  mp_modelEscalationOrder :: "string list"
  mp_modelFallbackLadder :: "string list"

definition CLAUDE_STEP_MODELS :: "(step_name \<times> string) list" where
  "CLAUDE_STEP_MODELS =
     [(''bootstrap'', ''sonnet''), (''memory'', ''haiku''), (''assess'', ''sonnet''),
      (''explore'', ''opus''), (''prd'', ''opus''), (''complexity'', ''sonnet''),
      (''stories'', ''sonnet''), (''conflict_check'', ''opus''), (''plan'', ''opus''),
      (''coherence_check'', ''sonnet''), (''plan_review'', ''opus''),
      (''architecture_diagram'', ''sonnet''), (''architecture_review'', ''opus''),
      (''worktree'', ''haiku''), (''acceptance_specs'', ''opus''), (''build'', ''sonnet''),
      (''build_review'', ''opus''), (''test_suite'', ''sonnet''), (''manual_test'', ''sonnet''),
      (''prd_audit'', ''opus''), (''architecture_review_as_built'', ''opus''),
      (''rebase'', ''opus''), (''finish'', ''sonnet''), (''remediate'', ''opus''),
      (''attribution_verify'', ''opus'')]"

definition CODEX_STEP_MODELS :: "(step_name \<times> string) list" where
  "CODEX_STEP_MODELS =
     [(''bootstrap'', ''gpt-5.6-terra''), (''memory'', ''gpt-5.6-luna''), (''assess'', ''gpt-5.6-terra''),
      (''explore'', ''gpt-5.6-sol''), (''prd'', ''gpt-5.6-sol''), (''complexity'', ''gpt-5.6-terra''),
      (''stories'', ''gpt-5.6-terra''), (''conflict_check'', ''gpt-5.6-terra''), (''plan'', ''gpt-5.6-sol''),
      (''coherence_check'', ''gpt-5.6-terra''), (''plan_review'', ''gpt-5.6-sol''),
      (''architecture_diagram'', ''gpt-5.6-terra''), (''architecture_review'', ''gpt-5.6-sol''),
      (''worktree'', ''gpt-5.6-luna''), (''acceptance_specs'', ''gpt-5.6-sol''), (''build'', ''gpt-5.6-terra''),
      (''build_review'', ''gpt-5.6-sol''), (''test_suite'', ''gpt-5.6-terra''), (''manual_test'', ''gpt-5.6-terra''),
      (''prd_audit'', ''gpt-5.6-sol''), (''architecture_review_as_built'', ''gpt-5.6-sol''),
      (''rebase'', ''gpt-5.6-terra''), (''finish'', ''gpt-5.6-terra''), (''remediate'', ''gpt-5.6-sol''),
      (''attribution_verify'', ''gpt-5.6-sol'')]"

definition STEP_EFFORTS :: "(step_name \<times> effort_level) list" where
  "STEP_EFFORTS =
     [(''bootstrap'', EffLow), (''memory'', EffLow), (''assess'', EffHigh), (''explore'', EffHigh),
      (''prd'', EffHigh), (''complexity'', EffLow), (''stories'', EffMedium),
      (''conflict_check'', EffMedium), (''plan'', EffHigh), (''coherence_check'', EffMedium),
      (''plan_review'', EffHigh), (''architecture_diagram'', EffMedium), (''architecture_review'', EffHigh),
      (''worktree'', EffLow), (''acceptance_specs'', EffMedium), (''build'', EffMedium),
      (''build_review'', EffHigh), (''test_suite'', EffLow), (''manual_test'', EffMedium),
      (''prd_audit'', EffHigh), (''architecture_review_as_built'', EffHigh), (''rebase'', EffHigh),
      (''finish'', EffMedium), (''remediate'', EffMedium), (''attribution_verify'', EffHigh)]"

definition effort_only :: "effort_level \<Rightarrow> tier_override" where
  "effort_only e = \<lparr>to_model = None, to_effort = Some e, to_max_retries = None\<rparr>"

definition model_only :: "string \<Rightarrow> tier_override" where
  "model_only m = \<lparr>to_model = Some m, to_effort = None, to_max_retries = None\<rparr>"

definition COMMON_TIER_OVERRIDES :: tier_overrides where
  "COMMON_TIER_OVERRIDES =
     [(''stories'', [(TierS, effort_only EffLow), (TierL, effort_only EffHigh)]),
      (''explore'', [(TierS, effort_only EffLow)]),
      (''plan'', [(TierS, \<lparr>to_model = None, to_effort = Some EffMedium, to_max_retries = Some 3\<rparr>)]),
      (''acceptance_specs'', [(TierL, effort_only EffHigh)]),
      (''build'', [(TierS, \<lparr>to_model = None, to_effort = None, to_max_retries = Some 3\<rparr>),
                  (TierL, effort_only EffHigh)])]"

text \<open>The object spread of the common overrides with a plan, conflict and coherence model.\<close>

definition tier_overrides_with :: "string \<Rightarrow> tier_overrides" where
  "tier_overrides_with best =
     map (\<lambda>(step, tiers). if step = ''plan''
            then (step, tiers @ [(TierL, \<lparr>to_model = Some best, to_effort = Some EffXhigh,
                                          to_max_retries = None\<rparr>)])
            else (step, tiers)) COMMON_TIER_OVERRIDES
     @ [(''conflict_check'', [(TierL, model_only best)]), (''coherence_check'', [(TierL, model_only best)])]"

definition CLAUDE_MODEL_POLICY :: model_policy where
  "CLAUDE_MODEL_POLICY =
     \<lparr>mp_requiresConfiguredModels = False, mp_stepModels = CLAUDE_STEP_MODELS,
      mp_stepEfforts = STEP_EFFORTS, mp_stepTierOverrides = tier_overrides_with ''opus'',
      mp_effortOrder = [EffLow, EffMedium, EffHigh, EffXhigh, EffMax],
      mp_modelEscalationOrder = [''haiku'', ''sonnet'', ''opus'', ''fable''],
      mp_modelFallbackLadder = [''fable'', ''opus'', ''sonnet'']\<rparr>"

definition CODEX_MODEL_POLICY :: model_policy where
  "CODEX_MODEL_POLICY =
     \<lparr>mp_requiresConfiguredModels = False, mp_stepModels = CODEX_STEP_MODELS,
      mp_stepEfforts = STEP_EFFORTS, mp_stepTierOverrides = tier_overrides_with ''gpt-5.6-sol'',
      mp_effortOrder = [EffLow, EffMedium, EffHigh, EffXhigh, EffMax],
      mp_modelEscalationOrder = [''gpt-5.6-luna'', ''gpt-5.6-terra'', ''gpt-5.6-sol'', ''gpt-6-astra''],
      mp_modelFallbackLadder = [''gpt-5.6-sol'', ''gpt-5.6-terra'', ''gpt-5.6-luna'']\<rparr>"

text \<open>The policy of \<^verbatim>\<open>pi\<close>, which owns its default model (\<^verbatim>\<open>execution/provider-catalog.ts\<close>).\<close>

definition PI_MODEL_POLICY :: model_policy where
  "PI_MODEL_POLICY =
     \<lparr>mp_requiresConfiguredModels = True,
      mp_stepModels = map (\<lambda>(step, _). (step, '''')) (mp_stepModels CLAUDE_MODEL_POLICY),
      mp_stepEfforts = mp_stepEfforts CLAUDE_MODEL_POLICY, mp_stepTierOverrides = [],
      mp_effortOrder = mp_effortOrder CLAUDE_MODEL_POLICY,
      mp_modelEscalationOrder = [], mp_modelFallbackLadder = []\<rparr>"

section \<open>Tiered model ids\<close>

definition model_tiers :: "string list" where
  "model_tiers = [''luna'', ''terra'', ''sol'', ''astra'']"

record tiered_model_id =
  tm_id :: string
  tm_version :: "int list"
  tm_tier :: string

text \<open>
  The pattern \<^verbatim>\<open>^gpt-(\d+(?:\.\d+)*)-(luna|terra|sol|astra)$\<close>: the version holds no dash,
  so the tier is the text after the last one.
\<close>

definition version_of :: "string \<Rightarrow> int list option" where
  "version_of v =
     (let segments = split_on (CHR ''.'') v in
      if list_all (\<lambda>sg. sg \<noteq> [] \<and> list_all is_digit sg) segments
      then Some (map digits_value segments) else None)"

definition parseTieredModelId :: "string \<Rightarrow> tiered_model_id option" where
  "parseTieredModelId mid =
     (if \<not> starts_with mid ''gpt-'' then None
      else (let rest = drop 4 mid in
        case find (\<lambda>t. ends_with rest (''-'' @ t)) model_tiers of
          None \<Rightarrow> None
        | Some t \<Rightarrow> map_option (\<lambda>v. \<lparr>tm_id = mid, tm_version = v, tm_tier = t\<rparr>)
                     (version_of (take (length rest - (length t + 1)) rest))))"

fun compareVersions :: "int list \<Rightarrow> int list \<Rightarrow> int" where
  "compareVersions [] [] = 0"
| "compareVersions (l # ls) [] = (if l < 0 then - 1 else if l > 0 then 1 else compareVersions ls [])"
| "compareVersions [] (r # rs) = (if - r < 0 then - 1 else if - r > 0 then 1 else compareVersions [] rs)"
| "compareVersions (l # ls) (r # rs) =
     (if l - r < 0 then - 1 else if l - r > 0 then 1 else compareVersions ls rs)"

fun newest_listed ::
  "tiered_model_id \<Rightarrow> tiered_model_id list \<Rightarrow> tiered_model_id option \<Rightarrow> tiered_model_id option" where
  "newest_listed floor [] best = best"
| "newest_listed floor (candidate # rest) best =
     newest_listed floor rest
       (if tm_tier candidate \<noteq> tm_tier floor \<or>
           compareVersions (tm_version candidate) (tm_version floor) \<le> 0 \<or>
           (case best of None \<Rightarrow> False
            | Some b \<Rightarrow> compareVersions (tm_version candidate) (tm_version b) \<le> 0)
        then best else Some candidate)"

definition resolve_floor :: "string list \<Rightarrow> string \<Rightarrow> string" where
  "resolve_floor listedIds floor =
     (let listed = List.map_filter parseTieredModelId listedIds in
      case parseTieredModelId floor of
        None \<Rightarrow> floor
      | Some parsedFloor \<Rightarrow>
          (case newest_listed parsedFloor listed None of
             None \<Rightarrow> floor | Some newest \<Rightarrow> tm_id newest))"

definition resolveModelTierFloors :: "string list \<Rightarrow> string list \<Rightarrow> (string \<times> string) list" where
  "resolveModelTierFloors floors listedIds = map (\<lambda>floor. (floor, resolve_floor listedIds floor)) floors"

definition newerSameTierModelIds :: "string list \<Rightarrow> string list \<Rightarrow> string list" where
  "newerSameTierModelIds floors listedIds =
     (let parsedFloors = List.map_filter parseTieredModelId floors in
      filter (\<lambda>i. case parseTieredModelId i of
          None \<Rightarrow> False
        | Some candidate \<Rightarrow> list_ex (\<lambda>floor. tm_tier floor = tm_tier candidate \<and>
            compareVersions (tm_version candidate) (tm_version floor) > 0) parsedFloors) listedIds)"

definition resolveModel :: "(string \<times> string) list \<Rightarrow> string \<Rightarrow> string" where
  "resolveModel resolvedIds model =
     (case map_of (rev resolvedIds) model of None \<Rightarrow> model | Some m \<Rightarrow> m)"

definition materializeModelTierPolicy :: "model_policy \<Rightarrow> (string \<times> string) list \<Rightarrow> model_policy" where
  "materializeModelTierPolicy policy resolvedIds =
     policy\<lparr>mp_stepModels := map (\<lambda>(step, model). (step, resolveModel resolvedIds model)) (mp_stepModels policy),
            mp_stepTierOverrides := map (\<lambda>(step, tiers). (step, map (\<lambda>(tier, ov). (tier,
              case to_model ov of None \<Rightarrow> ov
              | Some m \<Rightarrow> ov\<lparr>to_model := Some (resolveModel resolvedIds m)\<rparr>)) tiers)) (mp_stepTierOverrides policy),
            mp_modelEscalationOrder := map (resolveModel resolvedIds) (mp_modelEscalationOrder policy),
            mp_modelFallbackLadder := map (resolveModel resolvedIds) (mp_modelFallbackLadder policy)\<rparr>"

text \<open>The process-local registry of materialized policies.\<close>

type_synonym resolved_policies = "string \<rightharpoonup> model_policy"

definition installResolvedModelTiers ::
  "resolved_policies \<Rightarrow> string \<Rightarrow> model_policy \<Rightarrow> (string \<times> string) list \<Rightarrow> resolved_policies" where
  "installResolvedModelTiers reg providerKey policy resolvedIds =
     reg(providerKey \<mapsto> materializeModelTierPolicy policy resolvedIds)"

section \<open>Policy of a provider\<close>

definition BUILT_IN_PROVIDER_MODEL_POLICIES :: "(string \<times> model_policy) list" where
  "BUILT_IN_PROVIDER_MODEL_POLICIES =
     [(''claude'', CLAUDE_MODEL_POLICY), (''codex'', CODEX_MODEL_POLICY), (''pi'', PI_MODEL_POLICY)]"

definition hasBuiltInProviderModelPolicy :: "string \<Rightarrow> bool" where
  "hasBuiltInProviderModelPolicy providerKey =
     (map_of BUILT_IN_PROVIDER_MODEL_POLICIES providerKey \<noteq> None)"

record configured_policy =
  cp_model :: "string option"
  cp_model_escalation_order :: "string list option"
  cp_model_fallback_ladder :: "string list option"

text \<open>\<open>llm_providers\<close> is the configuration section; the second result is the warning, if any.\<close>

definition resolveProviderModelPolicy ::
  "resolved_policies \<Rightarrow> (string \<rightharpoonup> configured_policy) \<Rightarrow> string \<Rightarrow> model_policy \<times> bool" where
  "resolveProviderModelPolicy reg llm_providers providerKey =
     (case map_of BUILT_IN_PROVIDER_MODEL_POLICIES providerKey of
        None \<Rightarrow> (CLAUDE_MODEL_POLICY, True)
      | Some builtin \<Rightarrow>
          (let catalogPolicy = (case reg providerKey of Some p \<Rightarrow> p | None \<Rightarrow> builtin) in
           case llm_providers providerKey of
             None \<Rightarrow> (catalogPolicy, False)
           | Some c \<Rightarrow>
               (catalogPolicy\<lparr>
                  mp_stepModels := (case cp_model c of None \<Rightarrow> mp_stepModels catalogPolicy
                    | Some m \<Rightarrow> map (\<lambda>(step, _). (step, m)) (mp_stepModels catalogPolicy)),
                  mp_modelEscalationOrder := (case cp_model_escalation_order c of
                      None \<Rightarrow> mp_modelEscalationOrder catalogPolicy | Some xs \<Rightarrow> xs),
                  mp_modelFallbackLadder := (case cp_model_fallback_ladder c of
                      None \<Rightarrow> mp_modelFallbackLadder catalogPolicy | Some xs \<Rightarrow> xs)\<rparr>, False)))"

section \<open>Retry escalation\<close>

text \<open>The bump is written twice in the source, for efforts and for models, with one body.\<close>

definition bumpEffort :: "effort_level \<Rightarrow> int \<Rightarrow> effort_level list \<Rightarrow> effort_level" where
  "bumpEffort effort steps effortOrder =
     (case index_of effort effortOrder of
        None \<Rightarrow> effort
      | Some idx \<Rightarrow> (let advance = (if steps > 0 then steps else 0);
                        nxt = min (int idx + advance) (int (length effortOrder) - 1)
                    in effortOrder ! nat nxt))"

definition bumpModel :: "string \<Rightarrow> int \<Rightarrow> string list \<Rightarrow> string" where
  "bumpModel model steps modelTierOrder =
     (case index_of model modelTierOrder of
        None \<Rightarrow> model
      | Some idx \<Rightarrow> (let advance = (if steps > 0 then steps else 0);
                        nxt = min (int idx + advance) (int (length modelTierOrder) - 1)
                    in modelTierOrder ! nat nxt))"

definition escalateAttempt ::
  "string \<Rightarrow> effort_level \<Rightarrow> int \<Rightarrow> bool \<Rightarrow> model_policy \<Rightarrow> string \<times> effort_level" where
  "escalateAttempt baseModel baseEffort attempt escalate policy =
     (if escalate = False \<or> attempt \<le> 1 then (baseModel, baseEffort)
      else if attempt = 2 then (baseModel, bumpEffort baseEffort 1 (mp_effortOrder policy))
      else (bumpModel baseModel (attempt - 2) (mp_modelEscalationOrder policy),
            bumpEffort baseEffort 1 (mp_effortOrder policy)))"

section \<open>The ladder contract\<close>

text \<open>
  What a bump promises on a ladder without repetitions: a rung that is not on the ladder is left
  alone, and otherwise the position moves up by the steps and stops at the top.
\<close>

locale rung_ladder =
  fixes bump :: "'a \<Rightarrow> int \<Rightarrow> 'a list \<Rightarrow> 'a"
  assumes bump_off: "x \<notin> set rungs \<Longrightarrow> bump x n rungs = x"
    and bump_on: "i < length rungs \<Longrightarrow> distinct rungs \<Longrightarrow>
      bump (rungs ! i) n rungs = rungs ! min (i + nat n) (length rungs - 1)"
begin

lemma bump_member: "distinct rungs \<Longrightarrow> x \<in> set rungs \<Longrightarrow> bump x n rungs \<in> set rungs"
  by (auto simp: set_conv_nth bump_on)

lemma bump_top: "distinct rungs \<Longrightarrow> rungs \<noteq> [] \<Longrightarrow> bump (last rungs) n rungs = last rungs"
  using bump_on [of "length rungs - 1" rungs n] by (simp add: last_conv_nth min_def split: if_splits)

lemma bump_bump:
  assumes "distinct rungs" "0 \<le> a" "0 \<le> b"
  shows "bump (bump x a rungs) b rungs = bump x (a + b) rungs"
proof (cases "x \<in> set rungs")
  case False
  then show ?thesis by (simp add: bump_off)
next
  case True
  then obtain i where i: "i < length rungs" "x = rungs ! i" by (auto simp: in_set_conv_nth)
  let ?j = "min (i + nat a) (length rungs - 1)"
  have j: "?j < length rungs" using i by (auto simp: min_def)
  have "bump (bump x a rungs) b rungs = rungs ! min (?j + nat b) (length rungs - 1)"
    using i j assms(1) by (simp add: bump_on)
  also have "min (?j + nat b) (length rungs - 1) = min (i + nat (a + b)) (length rungs - 1)"
    using assms(2,3) by (auto simp: min_def nat_add_distrib)
  finally show ?thesis using i assms(1) by (simp add: bump_on)
qed

end

interpretation effort: rung_ladder bumpEffort
proof
  show "x \<notin> set rungs \<Longrightarrow> bumpEffort x n rungs = x" for x rungs n
    by (simp add: bumpEffort_def engine_simps split: option.splits)
      (metis index_of_None_iff option.distinct(1))
  show "i < length rungs \<Longrightarrow> distinct rungs \<Longrightarrow>
      bumpEffort (rungs ! i) n rungs = rungs ! min (i + nat n) (length rungs - 1)" for i rungs n
    by (auto simp: bumpEffort_def index_of_nth Let_def intro!: arg_cong2 [where f = nth])
qed

interpretation model: rung_ladder bumpModel
proof
  show "x \<notin> set rungs \<Longrightarrow> bumpModel x n rungs = x" for x rungs n
    by (simp add: bumpModel_def engine_simps split: option.splits)
      (metis index_of_None_iff option.distinct(1))
  show "i < length rungs \<Longrightarrow> distinct rungs \<Longrightarrow>
      bumpModel (rungs ! i) n rungs = rungs ! min (i + nat n) (length rungs - 1)" for i rungs n
    by (auto simp: bumpModel_def index_of_nth Let_def intro!: arg_cong2 [where f = nth])
qed

end
