(* ===== verification/Availability.thy ===== *)
theory Availability
  imports Ladder
begin

text \<open>
  Live models and live providers: the fallback walk of one attempt and its spend accounting
  (\<^verbatim>\<open>engine/model-availability.ts\<close>, \<^verbatim>\<open>execution/token-usage.ts\<close>), provider selection
  (\<^verbatim>\<open>engine/provider-selection.ts\<close>) and the suppression windows of exhausted providers
  (\<^verbatim>\<open>engine/provider-availability.ts\<close>).
\<close>

section \<open>Token usage\<close>

text \<open>
  Counts and durations are the finite numbers of the records; a dollar amount is an integer
  in a unit fine enough for every price, so that its sums are exact.
\<close>

datatype cost_source = FromProvider | FromRateCard

record token_usage =
  tu_input :: int
  tu_output :: int
  tu_reasoningOutput :: "int option"
  tu_cacheRead :: "int option"
  tu_cacheCreation :: "int option"
  tu_numTurns :: "int option"
  tu_durationMs :: "int option"
  tu_costUsd :: "int option"
  tu_costSource :: "cost_source option"
  tu_attributedModel :: "string option"

definition withholdCost :: "token_usage option \<Rightarrow> token_usage option" where
  "withholdCost usage =
     map_option (\<lambda>u. u\<lparr>tu_costUsd := None, tu_costSource := None\<rparr>) usage"

definition sumOptional :: "int option \<Rightarrow> int option \<Rightarrow> int option" where
  "sumOptional a b =
     (if a \<noteq> None \<or> b \<noteq> None
      then Some ((case a of Some x \<Rightarrow> x | None \<Rightarrow> 0) + (case b of Some y \<Rightarrow> y | None \<Rightarrow> 0))
      else None)"

definition combineTokenUsage ::
  "token_usage option \<Rightarrow> token_usage option \<Rightarrow> token_usage option" where
  "combineTokenUsage first second =
     (case first of None \<Rightarrow> second | Some f \<Rightarrow>
      (case second of None \<Rightarrow> first | Some s \<Rightarrow>
        (let priced = (tu_costUsd f \<noteq> None \<and> tu_costUsd s \<noteq> None) in
         Some \<lparr>tu_input = tu_input f + tu_input s,
               tu_output = tu_output f + tu_output s,
               tu_reasoningOutput = sumOptional (tu_reasoningOutput f) (tu_reasoningOutput s),
               tu_cacheRead = sumOptional (tu_cacheRead f) (tu_cacheRead s),
               tu_cacheCreation = sumOptional (tu_cacheCreation f) (tu_cacheCreation s),
               tu_numTurns = sumOptional (tu_numTurns f) (tu_numTurns s),
               tu_durationMs = sumOptional (tu_durationMs f) (tu_durationMs s),
               tu_costUsd = (if priced then Some (the (tu_costUsd f) + the (tu_costUsd s)) else None),
               tu_costSource = (if priced
                 then (if tu_costSource f = tu_costSource s then tu_costSource f else Some FromRateCard)
                 else None),
               tu_attributedModel = (case tu_attributedModel s of Some m \<Rightarrow> Some m
                                     | None \<Rightarrow> tu_attributedModel f)\<rparr>)))"

section \<open>The fallback ladder\<close>

definition selectFallbackLadder ::
  "model_policy \<Rightarrow> string \<Rightarrow> string list option \<Rightarrow> (string \<rightharpoonup> string list option) \<Rightarrow> string list" where
  "selectFallbackLadder policy providerKey global_ladder llm_providers =
     (case Option.bind (llm_providers providerKey) id of
        Some ladder \<Rightarrow> ladder
      | None \<Rightarrow>
          (if \<not> mp_requiresConfiguredModels policy \<and> global_ladder \<noteq> None then the global_ladder
           else mp_modelFallbackLadder policy))"

text \<open>The state of a \<open>ModelAvailability\<close> is its set of dead models; the ladder is fixed.\<close>

definition markDead :: "string \<Rightarrow> string set \<Rightarrow> string set" where
  "markDead model dead = insert model dead"

text \<open>\<open>effectiveModel\<close>: the model and whether the request was downgraded.\<close>

definition effectiveModel :: "string list \<Rightarrow> string set \<Rightarrow> string \<Rightarrow> string \<times> bool" where
  "effectiveModel ladder dead configured =
     (if configured \<notin> dead then (configured, False)
      else let candidates = (case index_of configured ladder of
                 Some i \<Rightarrow> drop (i + 1) ladder | None \<Rightarrow> ladder)
           in (case find (\<lambda>c. c \<notin> dead) candidates of
                 Some candidate \<Rightarrow> (candidate, True)
               | None \<Rightarrow> (configured, True)))"

text \<open>
  The answer of one invocation. \<open>ir_other\<close> holds the fields the walk carries through unread, as the
  provider reported them; \<open>ir_notStarted\<close> is the execution disposition.
\<close>

record invoke_result =
  ir_success :: bool
  ir_output :: string
  ir_exitCode :: int
  ir_modelUnavailable :: bool
  ir_authFailure :: bool
  ir_rateLimited :: bool
  ir_tokenUsage :: "token_usage option"
  ir_observedIntervals :: "(int \<times> int) list option"
  ir_notStarted :: bool
  ir_other :: "(string \<times> jval) list"

definition exhausted_result :: "string \<Rightarrow> invoke_result" where
  "exhausted_result requested = \<lparr>ir_success = False,
     ir_output = ''Model fallback ladder exhausted: no live model remains after '' @ requested @ ''.'',
     ir_exitCode = 1, ir_modelUnavailable = True, ir_authFailure = False, ir_rateLimited = False,
     ir_tokenUsage = None, ir_observedIntervals = None, ir_notStarted = False, ir_other = []\<rparr>"

text \<open>The result of a rung that was followed by another one.\<close>

definition merge_results :: "invoke_result \<Rightarrow> invoke_result \<Rightarrow> invoke_result" where
  "merge_results result resolved =
     (let observedIntervals = (case ir_observedIntervals result of None \<Rightarrow> [] | Some xs \<Rightarrow> xs) @
                              (case ir_observedIntervals resolved of None \<Rightarrow> [] | Some xs \<Rightarrow> xs);
          tokenUsage = combineTokenUsage (ir_tokenUsage result) (ir_tokenUsage resolved)
      in resolved\<lparr>ir_tokenUsage := (case tokenUsage of Some u \<Rightarrow> Some u | None \<Rightarrow> ir_tokenUsage resolved),
           ir_observedIntervals := (if observedIntervals \<noteq> [] then Some observedIntervals
                                    else ir_observedIntervals resolved),
           ir_notStarted := (\<not> ir_success result \<and> \<not> ir_success resolved \<and>
                             ir_notStarted result \<and> ir_notStarted resolved)\<rparr>)"

text \<open>
  \<open>invokeWithLadderResolved\<close>. \<open>invoke n model\<close> is what the provider answers to the \<open>n\<close>-th rung
  of the attempt; the value is the dead set left behind, the models invoked in order with their
  answers, the result and the model it is for.
\<close>

definition live_count :: "string list \<Rightarrow> string set \<Rightarrow> nat" where
  "live_count ladder dead = card (set ladder - dead)"

lemma effectiveModel_cases:
  obtains "requested \<notin> dead" "effectiveModel ladder dead requested = (requested, False)"
  | "requested \<in> dead" "effectiveModel ladder dead requested = (requested, True)"
  | m where "requested \<in> dead" "effectiveModel ladder dead requested = (m, True)" "m \<in> set ladder" "m \<notin> dead"
      "m \<noteq> requested"
proof -
  let ?cs = "case index_of requested ladder of Some i \<Rightarrow> drop (i + 1) ladder | None \<Rightarrow> ladder"
  have sub: "set ?cs \<subseteq> set ladder" by (auto split: option.splits dest: in_set_dropD)
  consider "requested \<notin> dead" | (d) "requested \<in> dead" by blast
  then show thesis
  proof cases
    case 1
    then show thesis by (intro that(1)) (simp_all add: effectiveModel_def)
  next
    case d
    show thesis
    proof (cases "find (\<lambda>c. c \<notin> dead) ?cs")
      case None
      with d show thesis by (intro that(2)) (simp_all add: effectiveModel_def Let_def)
    next
      case (Some m)
      then have "m \<in> set ?cs" "m \<notin> dead" by (auto simp: find_Some_iff)
      with d Some sub show thesis by (intro that(3) [of m]) (auto simp: effectiveModel_def Let_def)
    qed
  qed
qed

lemma effectiveModel_fst_live:
  "fst (effectiveModel ladder dead m) \<noteq> m \<Longrightarrow>
     fst (effectiveModel ladder dead m) \<in> set ladder \<and> fst (effectiveModel ladder dead m) \<notin> dead"
  by (rule effectiveModel_cases [of m dead ladder]) auto

lemma live_count_markDead: "m \<in> set ladder \<Longrightarrow> m \<notin> dead \<Longrightarrow>
   live_count ladder (markDead m dead) < live_count ladder dead"
  unfolding live_count_def markDead_def by (intro psubset_card_mono) auto

lemma live_count_markDead_le: "live_count ladder (markDead m dead) \<le> live_count ladder dead"
  unfolding live_count_def markDead_def by (intro card_mono) auto

function invokeWithLadderResolved ::
  "string list \<Rightarrow> (nat \<Rightarrow> string \<Rightarrow> invoke_result) \<Rightarrow> nat \<Rightarrow> string set \<Rightarrow> string
   \<Rightarrow> string set \<times> (string \<times> invoke_result) list \<times> invoke_result \<times> string" where
  "invokeWithLadderResolved ladder invoke n dead requested =
     (let effective = fst (effectiveModel ladder dead requested) in
      if effective = requested \<and> snd (effectiveModel ladder dead requested)
      then (dead, [], exhausted_result requested, requested)
      else (let result = invoke n effective in
        if ir_authFailure result \<or> ir_rateLimited result then (dead, [(effective, result)], result, effective)
        else if \<not> ir_modelUnavailable result then (dead, [(effective, result)], result, effective)
        else if length ladder = 0 then (dead, [(effective, result)], result, requested)
        else (let dead1 = markDead effective dead;
                  nextModel = fst (effectiveModel ladder dead1 effective)
          in if nextModel = effective then (dead1, [(effective, result)], result, effective)
             else (case invokeWithLadderResolved ladder invoke (Suc n) dead1 nextModel of
                     (dead2, calls, resolved, model) \<Rightarrow>
                       (dead2, (effective, result) # calls, merge_results result resolved, model)))))"
  by pat_completeness auto
termination
proof (relation "measure (\<lambda>(ladder, invoke, n, dead, req).
    2 * live_count ladder dead + (if req \<in> set ladder \<and> req \<notin> dead then 0 else 1))", goal_cases)
  case 1
  then show ?case by simp
next
  case (2 ladder invoke n dead requested effective result dead1 nextModel)
  have nx: "nextModel \<in> set ladder" "nextModel \<notin> dead1"
    using effectiveModel_fst_live 2 by auto
  have "2 * live_count ladder dead1 < 2 * live_count ladder dead + (if requested \<in> set ladder \<and> requested \<notin> dead then 0 else (1::nat))"
  proof (cases "effective \<in> set ladder \<and> effective \<notin> dead")
    case True
    then show ?thesis using live_count_markDead 2(7) by fastforce
  next
    case False
    then have "\<not> (requested \<in> set ladder \<and> requested \<notin> dead)"
      using effectiveModel_cases [of requested dead ladder] 2(1,2) by (metis fst_conv)
    moreover have "live_count ladder dead1 \<le> live_count ladder dead"
      using live_count_markDead_le 2(7) by simp
    ultimately show ?thesis by auto
  qed
  with nx show ?case by simp
qed

declare invokeWithLadderResolved.simps [simp del]

definition invokeWithLadder ::
  "string list \<Rightarrow> (nat \<Rightarrow> string \<Rightarrow> invoke_result) \<Rightarrow> string set \<Rightarrow> string \<Rightarrow> invoke_result" where
  "invokeWithLadder ladder invoke dead requested =
     fst (snd (snd (invokeWithLadderResolved ladder invoke 0 dead requested)))"

section \<open>Provider selection\<close>

definition DEFAULT_PROVIDER :: string where
  "DEFAULT_PROVIDER = ''claude''"

datatype provider_selection = OneProvider string | ManyProviders "string list"

definition normalizeProviderSelection :: "provider_selection option \<Rightarrow> string list" where
  "normalizeProviderSelection selection =
     (case selection of None \<Rightarrow> [DEFAULT_PROVIDER]
      | Some (ManyProviders ps) \<Rightarrow> ps
      | Some (OneProvider p) \<Rightarrow> [p])"

definition resolveProviderCandidates ::
  "string list \<Rightarrow> provider_selection option \<Rightarrow> bool \<Rightarrow> string list" where
  "resolveProviderCandidates configuredProviders stepSelection disallow =
     (let selectedProviders = (if stepSelection = None then [] else normalizeProviderSelection stepSelection)
      in if disallow \<and> length selectedProviders > 0 then stable_unique selectedProviders
         else stable_unique (selectedProviders @ configuredProviders))"

text \<open>
  The selections of a configuration with their paths: the global one, then the steps', then
  the review rubrics', each section an association list in file order.
\<close>

record provider_config =
  pc_llm_provider :: "provider_selection option"
  pc_steps :: "(string \<times> provider_selection option) list"
  pc_rubrics :: "(string \<times> provider_selection option) list"
  pc_custom_rubrics :: "(string \<times> provider_selection option) list"

fun section_selections :: "(string \<Rightarrow> string) \<Rightarrow> (string \<times> provider_selection option) list \<Rightarrow> (string list \<times> string) list" where
  "section_selections path [] = []"
| "section_selections path ((nm, sel) # rest) =
     (if sel = None then section_selections path rest
      else (normalizeProviderSelection sel, path nm) # section_selections path rest)"

definition configuredProviderSelections :: "provider_config \<Rightarrow> (string list \<times> string) list" where
  "configuredProviderSelections config =
     (normalizeProviderSelection (pc_llm_provider config), ''llm_provider'') #
     section_selections (\<lambda>nm. ''steps.'' @ nm @ ''.llm_provider'') (pc_steps config) @
     section_selections (\<lambda>nm. ''build_review.rubrics.'' @ nm @ ''.llm_provider'') (pc_rubrics config) @
     section_selections (\<lambda>nm. ''build_review.custom_rubrics.'' @ nm @ ''.llm_provider'') (pc_custom_rubrics config)"

text \<open>The first provider of a selection that cannot run, with its path and discovery reason.\<close>

fun assertInstalled_loop ::
  "nat \<Rightarrow> string list \<Rightarrow> nat \<Rightarrow> string \<Rightarrow> string list \<Rightarrow> (string \<rightharpoonup> string) \<Rightarrow> (string \<times> string \<times> string) option" where
  "assertInstalled_loop i [] len path installed missing = None"
| "assertInstalled_loop i (provider # rest) len path installed missing =
     (if \<not> hasBuiltInProviderModelPolicy provider \<or> provider \<in> set installed
      then assertInstalled_loop (Suc i) rest len path installed missing
      else Some (provider,
                 if len > 1 then path @ ''['' @ nat_str i @ '']'' else path,
                 case missing provider of Some r \<Rightarrow> r | None \<Rightarrow> ''not-found''))"

fun validateInstalled_loop ::
  "(string list \<times> string) list \<Rightarrow> string list \<Rightarrow> (string \<rightharpoonup> string) \<Rightarrow> (string \<times> string \<times> string) option" where
  "validateInstalled_loop [] installed missing = None"
| "validateInstalled_loop ((selection, path) # rest) installed missing =
     (case assertInstalled_loop 0 selection (length selection) path installed missing of
        Some e \<Rightarrow> Some e
      | None \<Rightarrow> validateInstalled_loop rest installed missing)"

definition validateProviderInstallation ::
  "provider_config \<Rightarrow> string list \<Rightarrow> (string \<rightharpoonup> string) \<Rightarrow> (string \<times> string \<times> string) option" where
  "validateProviderInstallation config installed missing =
     validateInstalled_loop (configuredProviderSelections config) installed missing"

definition unknown_provider_message :: "string \<Rightarrow> string \<Rightarrow> string list \<Rightarrow> string" where
  "unknown_provider_message path provider available =
     path @ '' names unknown provider '' @ [CHR 0x22] @ provider @ [CHR 0x22] @
     ''. Available registered providers: '' @
     (if join '', '' available = [] then ''(none)'' else join '', '' available)"

fun validateRegistered_loop :: "(string list \<times> string) list \<Rightarrow> string list \<Rightarrow> unit throws" where
  "validateRegistered_loop [] registered = Inr ()"
| "validateRegistered_loop ((selection, path) # rest) registered =
     (case find (\<lambda>p. p \<notin> set registered) selection of
        Some p \<Rightarrow> Inl (unknown_provider_message path p registered)
      | None \<Rightarrow> validateRegistered_loop rest registered)"

definition validateRegisteredProviderSelections :: "provider_config \<Rightarrow> string list \<Rightarrow> unit throws" where
  "validateRegisteredProviderSelections config registeredProviders =
     validateRegistered_loop (configuredProviderSelections config) registeredProviders"

section \<open>Suppression windows\<close>

definition MAX_PROVIDER_SUPPRESSION_MS :: int where
  "MAX_PROVIDER_SUPPRESSION_MS = 6 * 60 * 60 * 1000"

record suppression_window =
  sw_untilMs :: int
  sw_openedAtMs :: int

type_synonym suppressions = "string \<rightharpoonup> suppression_window"

text \<open>The clock is injected: \<open>now\<close> is what it reads during the operation.\<close>

definition suppress :: "int \<Rightarrow> string \<Rightarrow> int \<Rightarrow> suppressions \<Rightarrow> suppressions" where
  "suppress now provider untilMs windows =
     (let openedAtMs = now;
          boundedUntil = min untilMs (openedAtMs + MAX_PROVIDER_SUPPRESSION_MS)
      in if boundedUntil \<le> openedAtMs then windows
         else (case windows provider of
                 None \<Rightarrow> windows(provider \<mapsto> \<lparr>sw_untilMs = boundedUntil, sw_openedAtMs = openedAtMs\<rparr>)
               | Some w \<Rightarrow>
                   if boundedUntil > sw_untilMs w
                   then windows(provider \<mapsto> \<lparr>sw_untilMs = boundedUntil, sw_openedAtMs = openedAtMs\<rparr>)
                   else windows))"

definition isAvailable :: "int \<Rightarrow> string \<Rightarrow> suppressions \<Rightarrow> suppressions \<times> bool" where
  "isAvailable now provider windows =
     (case windows provider of
        None \<Rightarrow> (windows, True)
      | Some w \<Rightarrow>
          if now < sw_openedAtMs w then (windows(provider := None), True)
          else if now < min (sw_untilMs w) (sw_openedAtMs w + MAX_PROVIDER_SUPPRESSION_MS)
          then (windows, False)
          else (windows(provider := None), True))"

definition snapshot :: "int \<Rightarrow> suppressions \<Rightarrow> (string \<rightharpoonup> int)" where
  "snapshot now windows = (\<lambda>provider.
     case windows provider of
       None \<Rightarrow> None
     | Some w \<Rightarrow> if now \<ge> sw_openedAtMs w \<and>
                    now < min (sw_untilMs w) (sw_openedAtMs w + MAX_PROVIDER_SUPPRESSION_MS)
                then Some (sw_untilMs w) else None)"

text \<open>A ledger line, parsed: a suppression record or anything else.\<close>

datatype daemon_line = SuppressedLine string int | OtherLine

fun restoreProviderAvailability :: "int \<Rightarrow> int \<Rightarrow> daemon_line list \<Rightarrow> suppressions \<Rightarrow> suppressions" where
  "restoreProviderAvailability clock now [] windows = windows"
| "restoreProviderAvailability clock now (OtherLine # rest) windows =
     restoreProviderAvailability clock now rest windows"
| "restoreProviderAvailability clock now (SuppressedLine provider deadline # rest) windows =
     restoreProviderAvailability clock now rest
       (if deadline \<le> now \<or> deadline > now + MAX_PROVIDER_SUPPRESSION_MS then windows
        else suppress clock provider deadline windows)"

end
