(* ===== verification/LadderProps.thy ===== *)
theory LadderProps
  imports Availability
begin

text \<open>
  What one attempt does on the fallback ladder, what a retry escalates, which model a tier
  resolves to, and how long a provider stays suppressed.
\<close>

section \<open>The walk down the ladder\<close>

text \<open>An answer that takes its model out of the ladder.\<close>

definition kills :: "invoke_result \<Rightarrow> bool" where
  "kills r = (ir_modelUnavailable r \<and> \<not> ir_authFailure r \<and> \<not> ir_rateLimited r)"

lemma effective_stop:
  "fst (effectiveModel ladder dead m) = m \<and> snd (effectiveModel ladder dead m) \<Longrightarrow> m \<in> dead"
  by (rule effectiveModel_cases [of m dead ladder]) auto

lemma effective_live:
  "\<not> (fst (effectiveModel ladder dead m) = m \<and> snd (effectiveModel ladder dead m)) \<Longrightarrow>
     fst (effectiveModel ladder dead m) \<notin> dead"
  by (rule effectiveModel_cases [of m dead ladder]) auto

lemma ladder_walk_facts:
  "invokeWithLadderResolved ladder invoke n dead req = (dead', calls, res, model) \<Longrightarrow> ladder \<noteq> [] \<Longrightarrow>
     distinct (map fst calls) \<and> set (map fst calls) \<inter> dead = {} \<and>
     set (tl (map fst calls)) \<subseteq> set ladder \<and>
     (\<forall>i<length calls. snd (calls ! i) = invoke (n + i) (fst (calls ! i))) \<and>
     (\<forall>i<length calls - 1. kills (snd (calls ! i))) \<and>
     dead' = dead \<union> fst ` {c \<in> set calls. kills (snd c)} \<and>
     (calls = [] \<longrightarrow> req \<in> dead \<and> res = exhausted_result req) \<and>
     (req \<in> set ladder \<longrightarrow> set (map fst calls) \<subseteq> set ladder)"
proof (induction ladder invoke n dead req arbitrary: dead' calls res model
       rule: invokeWithLadderResolved.induct)
  case (1 ladder invoke n dead req)
  let ?eff = "fst (effectiveModel ladder dead req)"
  let ?r = "invoke n ?eff"
  let ?next = "fst (effectiveModel ladder (markDead ?eff dead) ?eff)"
  have effl: "req \<in> set ladder \<Longrightarrow> ?eff \<in> set ladder"
    using effectiveModel_fst_live [of ladder dead req] by metis
  show ?case
  proof (cases "?eff = req \<and> snd (effectiveModel ladder dead req)")
    case True
    with "1.prems" effective_stop [OF True] show ?thesis
      by (subst (asm) invokeWithLadderResolved.simps) (auto simp: Let_def)
  next
    case False
    note live = effective_live [OF False]
    show ?thesis
    proof (cases "kills ?r \<and> ?next \<noteq> ?eff")
      case nostep: False
      have "dead' = (if kills ?r then markDead ?eff dead else dead) \<and> calls = [(?eff, ?r)]"
        using "1.prems" False nostep
        by (subst (asm) invokeWithLadderResolved.simps) (auto simp: Let_def kills_def split: if_splits)
      then show ?thesis using live effl "1.prems"(2) by (auto simp: markDead_def)
    next
      case step: True
      obtain dead2 calls2 res2 model2 where
        rec: "invokeWithLadderResolved ladder invoke (Suc n) (markDead ?eff dead) ?next = (dead2, calls2, res2, model2)"
        by (cases "invokeWithLadderResolved ladder invoke (Suc n) (markDead ?eff dead) ?next")
      have eqs: "dead' = dead2" "calls = (?eff, ?r) # calls2"
        using "1.prems" False step rec
        by (subst (asm) invokeWithLadderResolved.simps, simp add: Let_def kills_def)+
      have nx: "?next \<in> set ladder" using effectiveModel_fst_live step by metis
      have ih: "distinct (map fst calls2)" "set (map fst calls2) \<inter> markDead ?eff dead = {}"
        "\<forall>i<length calls2. snd (calls2 ! i) = invoke (Suc n + i) (fst (calls2 ! i))"
        "\<forall>i<length calls2 - 1. kills (snd (calls2 ! i))"
        "dead2 = markDead ?eff dead \<union> fst ` {c \<in> set calls2. kills (snd c)}"
        "set (map fst calls2) \<subseteq> set ladder"
        using "1.IH" [OF refl False refl _ _ _ refl refl _ rec "1.prems"(2)] step nx "1.prems"(2)
        by (auto simp: kills_def)
      have "snd (calls ! i) = invoke (n + i) (fst (calls ! i))" if "i < length calls" for i
        using that ih(3) eqs(2) by (cases i) auto
      moreover have "kills (snd (calls ! i))" if "i < length calls - 1" for i
        using that ih(4) eqs(2) step by (cases i) auto
      moreover have "dead' = dead \<union> fst ` {c \<in> set calls. kills (snd c)}"
      proof -
        have "fst ` {c \<in> set calls. kills (snd c)} = insert ?eff (fst ` {c \<in> set calls2. kills (snd c)})"
          using eqs(2) step by force
        then show ?thesis using eqs(1) ih(5) by (auto simp: markDead_def)
      qed
      ultimately show ?thesis
        using ih(1,2,6) eqs live effl by (auto simp: markDead_def)
    qed
  qed
qed

text \<open>
  C30: one attempt always ends: it invokes only models that were not known
  dead, each at most once, moves on only after an answer that the model is unavailable (never after
  an authentication or rate-limit failure), and afterwards exactly the models that gave that answer
  have been added to the dead set. At most one model beyond the ladder's own is invoked.
\<close>

theorem ladder_attempt_bounded:
  assumes "invokeWithLadderResolved ladder invoke n dead req = (dead', calls, res, model)"
    and "ladder \<noteq> []"
  shows "length calls \<le> Suc (card (set ladder)) \<and> distinct (map fst calls) \<and>
     set (map fst calls) \<inter> dead = {} \<and>
     (\<forall>i<length calls - 1. kills (snd (calls ! i))) \<and>
     dead' = dead \<union> fst ` {c \<in> set calls. kills (snd c)} \<and>
     (calls = [] \<longrightarrow> req \<in> dead \<and> res = exhausted_result req)"
proof -
  note f = ladder_walk_facts [OF assms]
  have d: "distinct (map fst calls)" using f by blast
  then have "length (tl (map fst calls)) = card (set (tl (map fst calls)))"
    by (simp add: distinct_tl distinct_card)
  also have "\<dots> \<le> card (set ladder)" using f by (intro card_mono) auto
  finally have "length calls \<le> Suc (card (set ladder))" by simp
  with f show ?thesis by blast
qed

definition usage_of :: "int \<Rightarrow> int option \<Rightarrow> token_usage" where
  "usage_of n cost = \<lparr>tu_input = n, tu_output = 1, tu_reasoningOutput = None, tu_cacheRead = None,
     tu_cacheCreation = None, tu_numTurns = None, tu_durationMs = None, tu_costUsd = cost,
     tu_costSource = None, tu_attributedModel = None\<rparr>"

definition sample_answer :: "nat \<Rightarrow> string \<Rightarrow> invoke_result" where
  "sample_answer n m =
     \<lparr>ir_success = (m = ''sonnet''), ir_output = '''', ir_exitCode = 0, ir_modelUnavailable = (m \<noteq> ''sonnet''), ir_authFailure = False,
      ir_rateLimited = False, ir_tokenUsage = Some (usage_of 10 (Some 2)), ir_observedIntervals = None,
      ir_notStarted = False, ir_other = []\<rparr>"

lemma sample_walk:
  "\<exists>res model. invokeWithLadderResolved [''opus'', ''sonnet''] sample_answer 0 {} ''opus'' =
     ({''opus''}, [(''opus'', sample_answer 0 ''opus''), (''sonnet'', sample_answer 1 ''sonnet'')], res, model)"
  by (simp add: invokeWithLadderResolved.simps effectiveModel_def index_of_def markDead_def Let_def)
     (simp add: sample_answer_def)

theorem ladder_attempt_bounded_witness:
  "\<exists>calls res model. invokeWithLadderResolved [''opus'', ''sonnet''] sample_answer 0 {} ''opus'' =
      ({''opus''}, calls, res, model) \<and> length calls \<le> Suc (card (set [''opus'', ''sonnet''])) \<and>
      distinct (map fst calls)"
proof -
  from sample_walk obtain res model where w:
    "invokeWithLadderResolved [''opus'', ''sonnet''] sample_answer 0 {} ''opus'' =
     ({''opus''}, [(''opus'', sample_answer 0 ''opus''), (''sonnet'', sample_answer 1 ''sonnet'')], res, model)"
    by blast
  have "[''opus'', ''sonnet''] \<noteq> []" by simp
  note b = ladder_attempt_bounded [OF w this]
  show ?thesis
    by (intro exI conjI, rule w, rule conjunct1 [OF b], rule conjunct1 [OF conjunct2 [OF b]])
qed

section \<open>Spend of an attempt\<close>

definition usages :: "(string \<times> invoke_result) list \<Rightarrow> token_usage list" where
  "usages calls = List.map_filter (\<lambda>c. ir_tokenUsage (snd c)) calls"

lemma usages_simps [simp]:
  "usages [] = []"
  "usages (c # cs) = (case ir_tokenUsage (snd c) of None \<Rightarrow> usages cs | Some u \<Rightarrow> u # usages cs)"
  by (auto simp: usages_def List.map_filter_simps split: option.split)

text \<open>What a usage record has to be for the list of rung usages it reports.\<close>

definition reports :: "token_usage option \<Rightarrow> token_usage list \<Rightarrow> bool" where
  "reports tot us =
     (case tot of
        None \<Rightarrow> us = []
      | Some t \<Rightarrow> us \<noteq> [] \<and>
          tu_input t = sum_list (map tu_input us) \<and> tu_output t = sum_list (map tu_output us) \<and>
          (tu_costUsd t \<noteq> None \<longleftrightarrow> (\<forall>u\<in>set us. tu_costUsd u \<noteq> None)) \<and>
          (tu_costUsd t \<noteq> None \<longrightarrow> the (tu_costUsd t) = sum_list (map (the \<circ> tu_costUsd) us)))"

lemma reports_combine: "reports b us \<Longrightarrow> reports (combineTokenUsage (Some a) b) (a # us)"
  by (cases b) (auto simp: reports_def combineTokenUsage_def Let_def)

lemma reports_combine_None: "reports b us \<Longrightarrow> reports (combineTokenUsage None b) us"
  by (simp add: combineTokenUsage_def)

lemma merge_usage: "ir_tokenUsage (merge_results r s) = combineTokenUsage (ir_tokenUsage r) (ir_tokenUsage s)"
  by (auto simp: merge_results_def Let_def combineTokenUsage_def split: option.splits)


section \<open>Escalation\<close>

definition builtin_policies :: "model_policy list" where
  "builtin_policies = [CLAUDE_MODEL_POLICY, CODEX_MODEL_POLICY]"

lemma builtin_ladders:
  "p \<in> set builtin_policies \<Longrightarrow> distinct (mp_modelEscalationOrder p) \<and> distinct (mp_effortOrder p) \<and>
     sorted (mp_effortOrder p) \<and> set (mp_effortOrder p) = UNIV"
proof -
  have "set [EffLow, EffMedium, EffHigh, EffXhigh, EffMax] = UNIV"
    using effort_level.exhaust by auto
  then show "p \<in> set builtin_policies \<Longrightarrow> ?thesis"
    by (auto simp: builtin_policies_def CLAUDE_MODEL_POLICY_def CODEX_MODEL_POLICY_def less_eq_effort_level_def)
qed

lemma effort_bump_up:
  assumes "distinct rungs" "sorted rungs" "set rungs = UNIV"
  shows "e \<le> bumpEffort e n rungs"
proof -
  obtain i where i: "i < length rungs" "e = rungs ! i" using assms(3) by (metis UNIV_I in_set_conv_nth)
  have "rungs ! i \<le> rungs ! min (i + nat n) (length rungs - 1)"
    using i(1) assms(2) by (intro sorted_nth_mono) auto
  then show ?thesis using i assms(1) by (simp add: effort.bump_on)
qed

text \<open>
  Under a built-in policy, a later retry never runs a weaker configuration: for
  attempts \<open>a \<le> b\<close> the effort of \<open>b\<close> is at least that of \<open>a\<close> and its model at least as high
  on the escalation order; the first attempt, and every attempt when escalation is off, runs the
  base configuration; and a model that is not on the order is never replaced.
\<close>

theorem escalation_monotone:
  assumes "policy \<in> set builtin_policies" and "a \<le> b"
    and "escalateAttempt m e a escalate policy = (ma, ea)"
    and "escalateAttempt m e b escalate policy = (mb, eb)"
  shows "ea \<le> eb \<and> e \<le> ea \<and>
     (a \<le> 1 \<or> \<not> escalate \<longrightarrow> ma = m \<and> ea = e) \<and>
     (m \<notin> set (mp_modelEscalationOrder policy) \<longrightarrow> ma = m) \<and>
     (\<forall>i. index_of m (mp_modelEscalationOrder policy) = Some i \<longrightarrow>
        (\<exists>j k. index_of ma (mp_modelEscalationOrder policy) = Some j \<and>
               index_of mb (mp_modelEscalationOrder policy) = Some k \<and> i \<le> j \<and> j \<le> k))"
proof -
  let ?M = "mp_modelEscalationOrder policy"
  let ?k = "\<lambda>t. if escalate = False \<or> t \<le> 2 then 0 else t - 2"
  note l = builtin_ladders [OF assms(1)]
  have up: "e \<le> bumpEffort e 1 (mp_effortOrder policy)" using l by (intro effort_bump_up) auto
  have bump0: "bumpModel m 0 ?M = m"
  proof (cases "m \<in> set ?M")
    case True
    then obtain i where "i < length ?M" "m = ?M ! i" by (auto simp: in_set_conv_nth)
    then show ?thesis using l by (simp add: model.bump_on)
  qed (rule model.bump_off)
  have md: "ma = bumpModel m (?k a) ?M" "mb = bumpModel m (?k b) ?M"
    using assms(3,4) bump0 by (auto simp: escalateAttempt_def split: if_splits)
  have eff: "ea = (if escalate = False \<or> a \<le> 1 then e else bumpEffort e 1 (mp_effortOrder policy))"
      "eb = (if escalate = False \<or> b \<le> 1 then e else bumpEffort e 1 (mp_effortOrder policy))"
    using assms(3,4) by (auto simp: escalateAttempt_def split: if_splits)
  have idx: "\<exists>j k. index_of ma ?M = Some j \<and> index_of mb ?M = Some k \<and> i \<le> j \<and> j \<le> k"
    if "index_of m ?M = Some i" for i
  proof -
    from that have i: "i < length ?M" "?M ! i = m" by (auto dest: index_of_SomeD)
    let ?pos = "\<lambda>t. min (i + nat (?k t)) (length ?M - 1)"
    have pos: "?pos t < length ?M" for t using i(1) by (auto simp: min_def)
    have at: "bumpModel m (?k t) ?M = ?M ! ?pos t" for t
      using model.bump_on [of i ?M "?k t"] i l by simp
    have "index_of ma ?M = Some (?pos a)" "index_of mb ?M = Some (?pos b)"
      unfolding md at using pos l by (simp_all add: index_of_nth)
    moreover have "i \<le> ?pos a" "?pos a \<le> ?pos b" using i(1) assms(2) by (auto simp: min_def)
    ultimately show ?thesis by blast
  qed
  have off: "m \<notin> set ?M \<Longrightarrow> ma = m" unfolding md(1) by (rule model.bump_off)
  have base: "a \<le> 1 \<or> \<not> escalate \<Longrightarrow> ma = m \<and> ea = e"
    using assms(3) by (auto simp: escalateAttempt_def)
  show ?thesis using up eff assms(2) idx off base by auto
qed

theorem escalation_monotone_witness:
  "(EffHigh \<le> EffHigh) \<and>
   escalateAttempt ''sonnet'' EffMedium 2 True CLAUDE_MODEL_POLICY = (''sonnet'', EffHigh) \<and>
   escalateAttempt ''sonnet'' EffMedium 4 True CLAUDE_MODEL_POLICY = (''fable'', EffHigh) \<and>
   (\<exists>j k. index_of ''sonnet'' (mp_modelEscalationOrder CLAUDE_MODEL_POLICY) = Some j \<and>
          index_of ''fable'' (mp_modelEscalationOrder CLAUDE_MODEL_POLICY) = Some k \<and> j \<le> k)"
proof -
  have a: "escalateAttempt ''sonnet'' EffMedium 2 True CLAUDE_MODEL_POLICY = (''sonnet'', EffHigh)"
   and b: "escalateAttempt ''sonnet'' EffMedium 4 True CLAUDE_MODEL_POLICY = (''fable'', EffHigh)"
   and i: "index_of ''sonnet'' (mp_modelEscalationOrder CLAUDE_MODEL_POLICY) = Some 1"
    by (simp_all add: escalateAttempt_def bumpEffort_def bumpModel_def CLAUDE_MODEL_POLICY_def
        index_of_def Let_def)
  have p: "CLAUDE_MODEL_POLICY \<in> set builtin_policies" by (simp add: builtin_policies_def)
  have "(2::int) \<le> 4" by simp
  from escalation_monotone [OF p this a b] i a b show ?thesis by blast
qed

section \<open>Model tiers\<close>

lemma compareVersions_Nil: "compareVersions [] ys = - compareVersions ys []"
  by (induction ys) auto

lemma compareVersions_swap: "compareVersions xs ys = - compareVersions ys xs"
  by (induction xs ys rule: compareVersions.induct) auto

lemma compareVersions_refl [simp]: "compareVersions xs xs = 0"
  by (induction xs) auto

lemma compareVersions_sign: "compareVersions xs ys = - 1 \<or> compareVersions xs ys = 0 \<or> compareVersions xs ys = 1"
  by (induction xs ys rule: compareVersions.induct) auto

text \<open>Padding with zeros makes the comparison one on lists of equal heads and tails.\<close>

definition hd0 :: "int list \<Rightarrow> int" where
  "hd0 xs = (case xs of [] \<Rightarrow> 0 | x # _ \<Rightarrow> x)"

lemma compareVersions_step:
  "xs \<noteq> [] \<or> ys \<noteq> [] \<Longrightarrow> compareVersions xs ys =
     (if hd0 xs < hd0 ys then - 1 else if hd0 xs > hd0 ys then 1 else compareVersions (tl xs) (tl ys))"
  by (cases xs; cases ys) (auto simp: hd0_def)

lemma compareVersions_trans:
  "compareVersions xs ys \<le> 0 \<Longrightarrow> compareVersions ys zs \<le> 0 \<Longrightarrow> compareVersions xs zs \<le> 0"
proof (induction "length xs + length ys + length zs" arbitrary: xs ys zs rule: less_induct)
  case less
  show ?case
  proof (cases "xs = [] \<and> ys = [] \<or> ys = [] \<and> zs = [] \<or> xs = [] \<and> zs = []")
    case True
    then show ?thesis using less.prems by auto
  next
    case False
    then have ne: "xs \<noteq> [] \<or> ys \<noteq> []" "ys \<noteq> [] \<or> zs \<noteq> []" "xs \<noteq> [] \<or> zs \<noteq> []" by auto
    have sm: "length (tl xs) + length (tl ys) + length (tl zs) < length xs + length ys + length zs"
      using ne by (cases xs; cases ys; cases zs) auto
    note s = compareVersions_step [OF ne(1)] compareVersions_step [OF ne(2)] compareVersions_step [OF ne(3)]
    from less.prems show ?thesis
      using less.hyps [OF sm] unfolding s by (auto split: if_splits)
  qed
qed

lemma newest_listed_spec:
  "newest_listed floor ms best = Some r \<Longrightarrow>
     (\<forall>b. best = Some b \<longrightarrow> tm_tier b = tm_tier floor \<and> compareVersions (tm_version b) (tm_version floor) > 0) \<Longrightarrow>
     (best = Some r \<or> r \<in> set ms) \<and> tm_tier r = tm_tier floor \<and>
     compareVersions (tm_version r) (tm_version floor) > 0 \<and>
     (\<forall>b. best = Some b \<longrightarrow> compareVersions (tm_version b) (tm_version r) \<le> 0) \<and>
     (\<forall>c\<in>set ms. tm_tier c = tm_tier floor \<longrightarrow> compareVersions (tm_version c) (tm_version r) \<le> 0)"
proof (induction ms arbitrary: best)
  case Nil
  then show ?case by simp
next
  case (Cons c ms)
  let ?skip = "tm_tier c \<noteq> tm_tier floor \<or> compareVersions (tm_version c) (tm_version floor) \<le> 0 \<or>
           (case best of None \<Rightarrow> False | Some b \<Rightarrow> compareVersions (tm_version c) (tm_version b) \<le> 0)"
  show ?case
  proof (cases ?skip)
    case True
    with Cons.prems have ih: "(best = Some r \<or> r \<in> set ms) \<and> tm_tier r = tm_tier floor \<and>
        compareVersions (tm_version r) (tm_version floor) > 0 \<and>
        (\<forall>b. best = Some b \<longrightarrow> compareVersions (tm_version b) (tm_version r) \<le> 0) \<and>
        (\<forall>c\<in>set ms. tm_tier c = tm_tier floor \<longrightarrow> compareVersions (tm_version c) (tm_version r) \<le> 0)"
      by (intro Cons.IH) simp_all
    have "tm_tier c = tm_tier floor \<Longrightarrow> compareVersions (tm_version c) (tm_version r) \<le> 0"
    proof -
      assume t: "tm_tier c = tm_tier floor"
      with True consider "compareVersions (tm_version c) (tm_version floor) \<le> 0"
        | b where "best = Some b" "compareVersions (tm_version c) (tm_version b) \<le> 0"
        by (auto split: option.splits)
      then show ?thesis
      proof cases
        case 1
        have "compareVersions (tm_version floor) (tm_version r) \<le> 0"
          using ih compareVersions_swap [of "tm_version floor" "tm_version r"] by simp
        with 1 show ?thesis by (rule compareVersions_trans)
      next
        case 2
        with ih compareVersions_trans show ?thesis by blast
      qed
    qed
    with ih show ?thesis by auto
  next
    case False
    with Cons.prems have ih: "(Some c = Some r \<or> r \<in> set ms) \<and> tm_tier r = tm_tier floor \<and>
        compareVersions (tm_version r) (tm_version floor) > 0 \<and>
        (\<forall>b. Some c = Some b \<longrightarrow> compareVersions (tm_version b) (tm_version r) \<le> 0) \<and>
        (\<forall>c\<in>set ms. tm_tier c = tm_tier floor \<longrightarrow> compareVersions (tm_version c) (tm_version r) \<le> 0)"
      by (intro Cons.IH) simp_all
    have "compareVersions (tm_version b) (tm_version r) \<le> 0" if "best = Some b" for b
    proof -
      have "compareVersions (tm_version b) (tm_version c) \<le> 0"
        using False that compareVersions_swap [of "tm_version b" "tm_version c"] by auto
      moreover have "compareVersions (tm_version c) (tm_version r) \<le> 0" using ih by blast
      ultimately show ?thesis by (rule compareVersions_trans)
    qed
    with ih show ?thesis by auto
  qed
qed

lemma newest_listed_None:
  "newest_listed floor ms best = None \<longleftrightarrow> best = None \<and>
     (\<forall>c\<in>set ms. tm_tier c = tm_tier floor \<longrightarrow> compareVersions (tm_version c) (tm_version floor) \<le> 0)"
  by (induction ms arbitrary: best) (auto split: option.splits)

text \<open>
  A tiered floor model resolves to itself, or to a listed id of its own tier
  that is strictly newer than it and than which no listed id of that tier is newer; it stays
  itself only when no listed id of its tier is newer.
\<close>

theorem tier_floor_newest:
  assumes "parseTieredModelId floor = Some pf"
  shows "(\<exists>r. r \<in> set (List.map_filter parseTieredModelId listed) \<and> resolve_floor listed floor = tm_id r \<and>
            tm_tier r = tm_tier pf \<and> compareVersions (tm_version r) (tm_version pf) > 0 \<and>
            (\<forall>c\<in>set (List.map_filter parseTieredModelId listed). tm_tier c = tm_tier pf \<longrightarrow>
               compareVersions (tm_version c) (tm_version r) \<le> 0)) \<or>
         (resolve_floor listed floor = floor \<and>
          (\<forall>c\<in>set (List.map_filter parseTieredModelId listed). tm_tier c = tm_tier pf \<longrightarrow>
             compareVersions (tm_version c) (tm_version pf) \<le> 0))"
proof (cases "newest_listed pf (List.map_filter parseTieredModelId listed) None")
  case None
  then have "resolve_floor listed floor = floor" using assms by (simp add: resolve_floor_def Let_def)
  then show ?thesis using None by (simp add: newest_listed_None)
next
  case (Some r)
  with newest_listed_spec [OF Some] assms show ?thesis by (auto simp: resolve_floor_def Let_def)
qed

theorem tier_floor_newest_witness:
  "resolve_floor [''gpt-5.10-sol'', ''gpt-5.9-sol'', ''gpt-6-luna''] ''gpt-5.6-sol'' = ''gpt-5.10-sol'' \<and>
   (\<exists>pf. parseTieredModelId ''gpt-5.6-sol'' = Some pf \<and> tm_version pf = [5, 6])"
proof -
  note ev = parseTieredModelId_def starts_with_def ends_with_def model_tiers_def version_of_def
    digits_value_def is_digit_def Let_def
  have p: "parseTieredModelId ''gpt-5.6-sol'' = Some \<lparr>tm_id = ''gpt-5.6-sol'', tm_version = [5, 6], tm_tier = ''sol''\<rparr>"
    "parseTieredModelId ''gpt-5.10-sol'' = Some \<lparr>tm_id = ''gpt-5.10-sol'', tm_version = [5, 10], tm_tier = ''sol''\<rparr>"
    "parseTieredModelId ''gpt-5.9-sol'' = Some \<lparr>tm_id = ''gpt-5.9-sol'', tm_version = [5, 9], tm_tier = ''sol''\<rparr>"
    "parseTieredModelId ''gpt-6-luna'' = Some \<lparr>tm_id = ''gpt-6-luna'', tm_version = [6], tm_tier = ''luna''\<rparr>"
    by (simp_all add: ev)
  from tier_floor_newest [OF p(1), of "[''gpt-5.10-sol'', ''gpt-5.9-sol'', ''gpt-6-luna'']"] p
  show ?thesis by (auto simp: List.map_filter_simps)
qed

section \<open>Providers\<close>

text \<open>
  The candidates of a step are its own selection in order followed by
  the configured providers, each once; when substitution is disallowed and the step selects
  providers, no other provider is ever a candidate.
\<close>

theorem provider_candidates_ordered:
  "distinct (resolveProviderCandidates configured sel disallow) \<and>
   (\<exists>rest. resolveProviderCandidates configured sel disallow =
      stable_unique (if sel = None then [] else normalizeProviderSelection sel) @ rest) \<and>
   set (resolveProviderCandidates configured sel disallow) =
     (let own = (if sel = None then [] else normalizeProviderSelection sel) in
      if disallow \<and> own \<noteq> [] then set own else set own \<union> set configured)"
proof -
  let ?own = "if sel = None then [] else normalizeProviderSelection sel"
  obtain ys where "stable_unique (?own @ configured) = stable_unique ?own @ ys"
    using stable_unique_append by blast
  then have "\<exists>rest. resolveProviderCandidates configured sel disallow = stable_unique ?own @ rest"
    unfolding resolveProviderCandidates_def Let_def by auto
  moreover have "distinct (resolveProviderCandidates configured sel disallow)"
    by (simp add: resolveProviderCandidates_def Let_def)
  moreover have "set (resolveProviderCandidates configured sel disallow) =
      (let own = ?own in if disallow \<and> own \<noteq> [] then set own else set own \<union> set configured)"
    by (simp add: resolveProviderCandidates_def Let_def)
  ultimately show ?thesis by blast
qed

text \<open>
  With a clock that has not gone back before the open window, suppressing a
  provider refuses it for the whole requested time, up to six hours; a longer window that is
  already open is kept; the snapshot for child processes lists exactly the refused providers;
  and from six hours after the last opening the provider is available again.
\<close>

theorem suppression_refuses_window:
  assumes "now < until" and "\<forall>w. windows p = Some w \<longrightarrow> sw_openedAtMs w \<le> now \<and>
             sw_untilMs w \<le> sw_openedAtMs w + MAX_PROVIDER_SUPPRESSION_MS"
  shows "(\<forall>t. now \<le> t \<and> t < min until (now + MAX_PROVIDER_SUPPRESSION_MS) \<longrightarrow>
            \<not> snd (isAvailable t p (suppress now p until windows))) \<and>
     (\<forall>t q. snd (isAvailable t q (suppress now p until windows)) \<longleftrightarrow>
            snapshot t (suppress now p until windows) q = None) \<and>
     (\<forall>t. \<not> snd (isAvailable t p windows) \<and> now \<le> t \<longrightarrow>
            \<not> snd (isAvailable t p (suppress now p until windows))) \<and>
     (\<forall>t. t \<ge> now + MAX_PROVIDER_SUPPRESSION_MS \<longrightarrow>
            snd (isAvailable t p (suppress now p until windows)))"
  using assms
  by (auto simp: suppress_def isAvailable_def snapshot_def Let_def MAX_PROVIDER_SUPPRESSION_MS_def
      split: option.splits)

theorem suppression_refuses_window_witness:
  "\<not> snd (isAvailable 150 ''claude'' (suppress 100 ''claude'' 200 Map.empty)) \<and>
   snd (isAvailable 30000000 ''claude'' (suppress 100 ''claude'' 200 Map.empty))"
proof -
  have "(100::int) < 200" by simp
  moreover have "\<forall>w. Map.empty ''claude'' = Some w \<longrightarrow> sw_openedAtMs w \<le> 100 \<and>
      sw_untilMs w \<le> sw_openedAtMs w + MAX_PROVIDER_SUPPRESSION_MS" by simp
  ultimately show ?thesis
    using suppression_refuses_window [of 100 200 Map.empty "''claude''"]
    by (auto simp: MAX_PROVIDER_SUPPRESSION_MS_def)
qed

text \<open>
  When the clock has gone back before the open window, a new
  suppression that ends earlier is dropped in favour of the open one, and the next availability
  check then discards that one too: the provider that was just reported exhausted is
  admitted again at once, inside the time it was suppressed for.
\<close>

theorem suppression_lost_on_rollback:
  "let windows = suppress 100 ''claude'' 200 Map.empty;
       rolled_back = suppress 50 ''claude'' 150 windows
   in snd (isAvailable 60 ''claude'' rolled_back)"
  by (simp add: suppress_def isAvailable_def MAX_PROVIDER_SUPPRESSION_MS_def Let_def)

end
