(* ===== verification/KickbackData.thy ===== *)
theory KickbackData
  imports Json "HOL-Library.AList"
begin

text \<open>
  The kickback ledger (\<^verbatim>\<open>engine/kickback-ledger.ts\<close>), part one: what is durably recorded
  about a gate's remediation budget, and the pure transitions of one gate entry and of the plan
  growth record.
\<close>

section \<open>Records\<close>

record last_mechanical_fault =
  lf_rubric :: string
  lf_reason :: string
  lf_detail :: string
  lf_lapId :: string

datatype adjustment_kind = RaiseLimit | ResetCount

datatype allowance = AllowLaps | AllowGrowth | AllowRestacks

record budget_adjustment =
  ba_id :: string
  ba_kind :: adjustment_kind
  ba_beforeConsumed :: int
  ba_afterConsumed :: int
  ba_beforeLimit :: int
  ba_afterLimit :: int
  ba_operator :: string
  ba_rationale :: string
  ba_timestamp :: string
  ba_haltGeneration :: string
  ba_allowance :: "allowance option"

record cap_evidence =
  ce_gate :: string
  ce_consumed :: int
  ce_limit :: int
  ce_latestReason :: string
  ce_haltGeneration :: string
  ce_allowance :: "allowance option"

record resume_authorization =
  ra_adjustmentId :: string
  ra_haltGeneration :: string
  ra_consumed :: bool

text \<open>
  A gate entry. \<^verbatim>\<open>adjustmentsKnown\<close> (only ever \<^verbatim>\<open>true\<close>) and
  \<^verbatim>\<open>adjustmentsUnavailable\<close> are flags; a \<^verbatim>\<open>null\<close> tree hash is \<open>None\<close>.
\<close>

record gate_entry =
  ge_count :: int
  ge_cumulative :: int
  ge_laps :: "int option"
  ge_chargedEffectIds :: "string list option"
  ge_mechanicalFaults :: "int option"
  ge_suiteInfrastructureRetries :: "int option"
  ge_lastMechanicalFault :: "last_mechanical_fault option"
  ge_effectiveLimit :: "int option"
  ge_effectiveLapCap :: "int option"
  ge_adjustments :: "budget_adjustment list option"
  ge_adjustmentsKnown :: bool
  ge_adjustmentsUnavailable :: bool
  ge_pendingAdjustment :: "budget_adjustment option"
  ge_capEvidence :: "cap_evidence option"
  ge_resumeAuthorization :: "resume_authorization option"
  ge_treeHash :: "string option"
  ge_lastReason :: string
  ge_priorVerdict :: bool
  ge_resolvedBefore :: int

record plan_growth_record =
  pg_authored :: int
  pg_added :: int
  pg_byGate :: "(string \<times> int) list"

text \<open>\<^verbatim>\<open>PlanGrowth\<close> adds the remaining allowance under the caller's cap.\<close>

record plan_growth = plan_growth_record +
  pg_remaining :: int

datatype authored_source = FromPlan | FromLedger | Unresolved

record pending_gate_charge =
  pc_laps :: int
  pc_growth :: int

record pending_repair =
  pr_receiptId :: string
  pr_charges :: "(string \<times> pending_gate_charge) list"
  pr_taskIds :: "string list"
  pr_prdAuditCriteria :: "string list option"

record routed_repair_credit =
  rc_roundId :: string
  rc_consumed :: bool

text \<open>
  The ledger. Objects keyed by gate or receipt are association lists in insertion order, updated
  in place as JavaScript objects are (\<open>AList.update\<close>). The three sentinels are the
  non-enumerable properties of an unreadable ledger; a pending as-built finding is kept as parsed,
  and a convergence credit receipt, whose only value is the build review gate, as its id.
\<close>

record kickback_ledger =
  kl_gates :: "(string \<times> gate_entry) list"
  kl_unreadable :: bool
  kl_unreadableGates :: "string list option"
  kl_unreadableGrowth :: bool
  kl_growth :: "plan_growth_record option"
  kl_effectiveGrowthCap :: "int option"
  kl_pendingFindings :: "jval list option"
  kl_pendingRepair :: "pending_repair option"
  kl_settlementReceipts :: "(string \<times> string list) list option"
  kl_convergenceCreditReceipts :: "string list option"
  kl_routedRepairCredit :: "routed_repair_credit option"

section \<open>Limits\<close>

definition KICKBACK_LEDGER_MAX_PER_GATE :: int where "KICKBACK_LEDGER_MAX_PER_GATE = 2"
definition MAX_CUMULATIVE_KICKBACKS_BUILD_REVIEW :: int where "MAX_CUMULATIVE_KICKBACKS_BUILD_REVIEW = 5"
definition MAX_MECHANICAL_FAULTS_BUILD_REVIEW :: int where "MAX_MECHANICAL_FAULTS_BUILD_REVIEW = 3"
definition MAX_SUITE_INFRASTRUCTURE_RETRIES :: int where "MAX_SUITE_INFRASTRUCTURE_RETRIES = 2"
definition RUBRIC_FAILURE_DETAIL_CAP_BYTES :: nat where "RUBRIC_FAILURE_DETAIL_CAP_BYTES = 2048"

lemmas ledger_limits = KICKBACK_LEDGER_MAX_PER_GATE_def MAX_CUMULATIVE_KICKBACKS_BUILD_REVIEW_def
  MAX_MECHANICAL_FAULTS_BUILD_REVIEW_def MAX_SUITE_INFRASTRUCTURE_RETRIES_def

section \<open>Entries\<close>

text \<open>
  The literal several operations start a missing entry from: \<^verbatim>\<open>count\<close>,
  \<^verbatim>\<open>cumulative\<close>, a \<^verbatim>\<open>null\<close> tree, no reason, a consumed verdict, nothing resolved.
\<close>

definition blank_gate_entry :: gate_entry where
  "blank_gate_entry =
     \<lparr>ge_count = 0, ge_cumulative = 0, ge_laps = None, ge_chargedEffectIds = None,
      ge_mechanicalFaults = None, ge_suiteInfrastructureRetries = None, ge_lastMechanicalFault = None,
      ge_effectiveLimit = None, ge_effectiveLapCap = None, ge_adjustments = None,
      ge_adjustmentsKnown = False, ge_adjustmentsUnavailable = False, ge_pendingAdjustment = None,
      ge_capEvidence = None, ge_resumeAuthorization = None, ge_treeHash = None, ge_lastReason = '''',
      ge_priorVerdict = True, ge_resolvedBefore = 0\<rparr>"

definition emptyKickbackGateEntry :: "string \<Rightarrow> gate_entry" where
  "emptyKickbackGateEntry gate =
     blank_gate_entry\<lparr>ge_chargedEffectIds := (if gate = ''build_review'' then Some [] else None),
                      ge_mechanicalFaults := Some 0\<rparr>"

text \<open>Crediting zeroes the counters that are not exempt and forgets the last fault.\<close>

definition creditKickbackGateLaps :: "gate_entry \<Rightarrow> gate_entry" where
  "creditKickbackGateLaps entry =
     entry\<lparr>ge_lastMechanicalFault := None,
           ge_cumulative := 0,
           ge_laps := map_option (\<lambda>_. 0) (ge_laps entry),
           ge_mechanicalFaults := map_option (\<lambda>_. 0) (ge_mechanicalFaults entry),
           ge_suiteInfrastructureRetries := map_option (\<lambda>_. 0) (ge_suiteInfrastructureRetries entry)\<rparr>"

section \<open>Kickbacks\<close>

record bump_input =
  bi_treeHash :: "string option"
  bi_resolvedCount :: int
  bi_reason :: string

record bump_result =
  br_entry :: gate_entry
  br_cumulativeExhausted :: bool
  br_exhausted :: bool

definition made_progress :: "gate_entry \<Rightarrow> bump_input \<Rightarrow> bool" where
  "made_progress previous input =
     (ge_treeHash previous \<noteq> bi_treeHash input \<or> bi_resolvedCount input > ge_resolvedBefore previous)"

definition bumpKickbackGate :: "gate_entry option \<Rightarrow> bump_input \<Rightarrow> bump_result" where
  "bumpKickbackGate entry input =
     (let previous = (case entry of Some e \<Rightarrow> e
            | None \<Rightarrow> blank_gate_entry\<lparr>ge_resolvedBefore := bi_resolvedCount input,
                                      ge_adjustmentsKnown := True\<rparr>);
          madeProgress = made_progress previous input;
          nextCount = (if madeProgress then 1
                       else min (ge_count previous + 1) KICKBACK_LEDGER_MAX_PER_GATE);
          nextEntry = previous\<lparr>ge_adjustmentsKnown := (if entry = None then True else ge_adjustmentsKnown previous),
                               ge_count := nextCount,
                               ge_cumulative := ge_cumulative previous + 1,
                               ge_treeHash := bi_treeHash input,
                               ge_lastReason := bi_reason input,
                               ge_resolvedBefore := bi_resolvedCount input\<rparr>
      in \<lparr>br_entry = nextEntry,
          br_cumulativeExhausted = (ge_cumulative nextEntry >
            (case ge_effectiveLimit nextEntry of Some l \<Rightarrow> l | None \<Rightarrow> MAX_CUMULATIVE_KICKBACKS_BUILD_REVIEW)),
          br_exhausted = (\<not> madeProgress \<and> ge_count previous \<ge> KICKBACK_LEDGER_MAX_PER_GATE)\<rparr>)"

datatype charge_result =
    Charged bump_result
  | AlreadyCharged gate_entry
  | ChargeUnreadable string

definition effect_ids :: "gate_entry option \<Rightarrow> string list" where
  "effect_ids entry = (case Option.bind entry ge_chargedEffectIds of None \<Rightarrow> [] | Some ids \<Rightarrow> ids)"

definition chargeBuildReviewEffect :: "gate_entry option \<Rightarrow> string \<Rightarrow> bump_input \<Rightarrow> charge_result" where
  "chargeBuildReviewEffect entry effectId input =
     (if effectId \<in> set (effect_ids entry) then AlreadyCharged (the entry)
      else (let result = bumpKickbackGate entry input
            in Charged (result\<lparr>br_entry := (br_entry result)
                 \<lparr>ge_chargedEffectIds := Some (effect_ids entry @ [effectId])\<rparr>\<rparr>)))"

text \<open>What a refund puts back: the fields a bump changes, and no others.\<close>

definition refund_entry :: "gate_entry \<Rightarrow> gate_entry \<Rightarrow> gate_entry" where
  "refund_entry prior current =
     current\<lparr>ge_count := ge_count prior, ge_cumulative := ge_cumulative prior,
             ge_treeHash := ge_treeHash prior, ge_lastReason := ge_lastReason prior,
             ge_resolvedBefore := ge_resolvedBefore prior\<rparr>"

section \<open>Faults and retries\<close>

text \<open>
  The head and tail of an over-long text; a character is one of its bytes
  (\<^verbatim>\<open>engine/build-review-test-quality-preflight.ts\<close>).
\<close>

definition EXCERPT_MARKER_RESERVE_BYTES :: nat where
  "EXCERPT_MARKER_RESERVE_BYTES = 64"

definition boundedHeadTailExcerpt :: "string \<Rightarrow> nat \<Rightarrow> string" where
  "boundedHeadTailExcerpt txt capBytes =
     (if length txt \<le> capBytes then txt
      else let half = (capBytes - EXCERPT_MARKER_RESERVE_BYTES) div 2;
               truncated = length txt - half * 2
           in take half txt @ [CHR 0x0A] @ ''[...truncated '' @ nat_str truncated @ '' bytes...]'' @
              [CHR 0x0A] @ drop (length txt - half) txt)"

definition bumpMechanicalFaults :: "gate_entry \<Rightarrow> last_mechanical_fault option \<Rightarrow> gate_entry" where
  "bumpMechanicalFaults entry fault =
     (let bumped = entry\<lparr>ge_mechanicalFaults := Some (min
            ((case ge_mechanicalFaults entry of Some n \<Rightarrow> n | None \<Rightarrow> 0) + 1)
            MAX_MECHANICAL_FAULTS_BUILD_REVIEW)\<rparr>
      in case fault of None \<Rightarrow> bumped
         | Some f \<Rightarrow> bumped\<lparr>ge_lastMechanicalFault :=
             Some (f\<lparr>lf_detail := boundedHeadTailExcerpt (lf_detail f) RUBRIC_FAILURE_DETAIL_CAP_BYTES\<rparr>)\<rparr>)"

definition bumpSuiteInfrastructureRetries :: "gate_entry option \<Rightarrow> gate_entry" where
  "bumpSuiteInfrastructureRetries entry =
     (let e = (case entry of Some e \<Rightarrow> e | None \<Rightarrow> blank_gate_entry\<lparr>ge_adjustmentsKnown := True\<rparr>)
      in e\<lparr>ge_adjustmentsKnown := True,
           ge_suiteInfrastructureRetries :=
             Some ((case ge_suiteInfrastructureRetries e of Some n \<Rightarrow> n | None \<Rightarrow> 0) + 1)\<rparr>)"

section \<open>Plan growth\<close>

definition growth_of :: "int \<Rightarrow> int \<Rightarrow> (string \<times> int) list \<Rightarrow> plan_growth_record" where
  "growth_of authored added byGate = \<lparr>pg_authored = authored, pg_added = added, pg_byGate = byGate\<rparr>"

definition withRemaining :: "plan_growth_record \<Rightarrow> int \<Rightarrow> plan_growth" where
  "withRemaining growth cap =
     \<lparr>pg_authored = pg_authored growth, pg_added = pg_added growth, pg_byGate = pg_byGate growth,
      pg_remaining = max 0 (cap - pg_added growth)\<rparr>"

definition growthTotalsAgree :: "plan_growth_record \<Rightarrow> bool" where
  "growthTotalsAgree growth = (sum_list (map snd (pg_byGate growth)) = pg_added growth)"

record growth_projection =
  gp_total :: int
  gp_byGate :: "(string \<times> int) list"
  gp_projected :: int
  gp_minimumRaise :: "int option"
  gp_exceedingGate :: "string option"

fun projection_loop ::
  "int option \<Rightarrow> (string \<times> pending_gate_charge) list \<Rightarrow> int \<Rightarrow> int \<Rightarrow> (string \<times> int) list \<Rightarrow> string option
   \<Rightarrow> int \<times> int \<times> (string \<times> int) list \<times> string option" where
  "projection_loop cap [] tot cumulative byGate exceeding = (tot, cumulative, byGate, exceeding)"
| "projection_loop cap ((gate, charge) # rest) tot cumulative byGate exceeding =
     (let tot' = tot + pc_growth charge;
          cumulative' = cumulative + pc_growth charge;
          byGate' = (if pc_growth charge > 0 then AList.update gate (pc_growth charge) byGate else byGate);
          exceeding' = (if (case cap of None \<Rightarrow> False | Some c \<Rightarrow> exceeding = None \<and> cumulative' > c)
                        then Some gate else exceeding)
      in projection_loop cap rest tot' cumulative' byGate' exceeding')"

definition projectPendingGrowth ::
  "int \<Rightarrow> (string \<times> pending_gate_charge) list option \<Rightarrow> int option \<Rightarrow> growth_projection option" where
  "projectPendingGrowth added charges cap =
     map_option (\<lambda>cs. case projection_loop cap cs 0 added [] None of
        (tot, cumulative, byGate, exceeding) \<Rightarrow>
          \<lparr>gp_total = tot, gp_byGate = byGate, gp_projected = added + tot,
           gp_minimumRaise = map_option (\<lambda>c. max 0 (added + tot - c)) cap,
           gp_exceedingGate = exceeding\<rparr>) charges"

section \<open>Readability\<close>

definition emptyLedger :: kickback_ledger where
  "emptyLedger =
     \<lparr>kl_gates = [], kl_unreadable = False, kl_unreadableGates = None, kl_unreadableGrowth = False,
      kl_growth = None, kl_effectiveGrowthCap = None, kl_pendingFindings = None, kl_pendingRepair = None,
      kl_settlementReceipts = None, kl_convergenceCreditReceipts = None, kl_routedRepairCredit = None\<rparr>"

definition unreadableLedger ::
  "(string \<times> gate_entry) list \<Rightarrow> string list option \<Rightarrow> bool \<Rightarrow> kickback_ledger" where
  "unreadableLedger gates unreadableGates unreadableGrowth =
     emptyLedger\<lparr>kl_gates := gates, kl_unreadable := True,
       kl_unreadableGates := (case unreadableGates of Some (g # gs) \<Rightarrow> Some (g # gs) | _ \<Rightarrow> None),
       kl_unreadableGrowth := unreadableGrowth\<rparr>"

definition isUnreadableKickbackLedger :: "kickback_ledger \<Rightarrow> bool" where
  "isUnreadableKickbackLedger l = (kl_unreadable l \<and> kl_unreadableGates l = None)"

definition isUnreadableKickbackGate :: "kickback_ledger \<Rightarrow> string \<Rightarrow> bool" where
  "isUnreadableKickbackGate l gate =
     (isUnreadableKickbackLedger l \<or> (case kl_unreadableGates l of None \<Rightarrow> False | Some gs \<Rightarrow> gate \<in> set gs))"

definition isUnreadableKickbackGrowth :: "kickback_ledger \<Rightarrow> bool" where
  "isUnreadableKickbackGrowth l = (isUnreadableKickbackLedger l \<or> kl_unreadableGrowth l)"

definition unreadableKickbackGates :: "kickback_ledger \<Rightarrow> string list" where
  "unreadableKickbackGates l = (case kl_unreadableGates l of None \<Rightarrow> [] | Some gs \<Rightarrow> gs)"

definition requireReadableLedger :: "kickback_ledger \<Rightarrow> unit throws" where
  "requireReadableLedger l =
     (if isUnreadableKickbackLedger l then Inl ''kickback ledger is unreadable'' else Inr ())"

definition requireReadableGrowth :: "kickback_ledger \<Rightarrow> unit throws" where
  "requireReadableGrowth l =
     (if isUnreadableKickbackGrowth l then Inl ''plan growth is unreadable'' else Inr ())"

definition requireReadableGate :: "kickback_ledger \<Rightarrow> string \<Rightarrow> unit throws" where
  "requireReadableGate l gate =
     (case requireReadableLedger l of Inl e \<Rightarrow> Inl e
      | Inr _ \<Rightarrow> (if isUnreadableKickbackGate l gate
                 then Inl (''kickback ledger gate '' @ [CHR 0x27] @ gate @ [CHR 0x27] @ '' is unreadable'')
                 else Inr ()))"

end
