(* ===== verification/KickbackSchema.thy ===== *)
theory KickbackSchema
  imports KickbackData
begin

text \<open>
  The kickback ledger, part two: the validators of its durable JSON, the parse that keeps healthy
  gates next to unreadable ones, and the text that a write leaves.
\<close>

section \<open>Primitive validators\<close>

definition blank :: "string \<Rightarrow> bool" where
  "blank s = list_all js_space s"

fun isNonEmptyString :: "jval \<Rightarrow> bool" where
  "isNonEmptyString (JStr s) = (\<not> blank s)"
| "isNonEmptyString _ = False"

definition MAX_SAFE_INTEGER :: int where
  "MAX_SAFE_INTEGER = 9007199254740991"

definition nonneg_safe :: "int \<Rightarrow> bool" where
  "nonneg_safe n = (0 \<le> n \<and> n \<le> MAX_SAFE_INTEGER)"

fun isNonNegativeInteger :: "jval \<Rightarrow> bool" where
  "isNonNegativeInteger (JNum n) = nonneg_safe n"
| "isNonNegativeInteger _ = False"

fun isPositiveSafeInteger :: "jval \<Rightarrow> bool" where
  "isPositiveSafeInteger (JNum n) = (0 < n \<and> n \<le> MAX_SAFE_INTEGER)"
| "isPositiveSafeInteger _ = False"

fun is_number :: "jval \<Rightarrow> bool" where
  "is_number (JNum _) = True"
| "is_number _ = False"

fun is_bool :: "jval \<Rightarrow> bool" where
  "is_bool (JBool _) = True"
| "is_bool _ = False"

fun is_string :: "jval \<Rightarrow> bool" where
  "is_string (JStr _) = True"
| "is_string _ = False"

fun is_object :: "jval \<Rightarrow> bool" where
  "is_object (JObj _) = True"
| "is_object _ = False"

text \<open>\<open>req\<close> and \<open>opt\<close>: a check of a property that must, or may, be present.\<close>

definition req :: "jval \<Rightarrow> string \<Rightarrow> (jval \<Rightarrow> bool) \<Rightarrow> bool" where
  "req v k P = (case jget v k of None \<Rightarrow> False | Some x \<Rightarrow> P x)"

definition opt :: "jval \<Rightarrow> string \<Rightarrow> (jval \<Rightarrow> bool) \<Rightarrow> bool" where
  "opt v k P = (case jget v k of None \<Rightarrow> True | Some x \<Rightarrow> P x)"

fun array_all :: "(jval \<Rightarrow> bool) \<Rightarrow> jval \<Rightarrow> bool" where
  "array_all P (JArr xs) = list_all P xs"
| "array_all P _ = False"

fun distinct_array :: "jval \<Rightarrow> bool" where
  "distinct_array (JArr xs) = (set_size xs = length xs)"
| "distinct_array _ = False"

fun object_all :: "(string \<Rightarrow> jval \<Rightarrow> bool) \<Rightarrow> jval \<Rightarrow> bool" where
  "object_all P (JObj kvs) = list_all (\<lambda>(k, v). P k v) kvs"
| "object_all P _ = False"

definition one_of :: "string list \<Rightarrow> jval \<Rightarrow> bool" where
  "one_of ss v = (v \<in> JStr ` set ss)"

section \<open>Validators of the gate entry\<close>

definition infrastructure_reasons :: "string list" where
  "infrastructure_reasons =
     [''preflight-failed'', ''artifact-read-failed'', ''artifact-write-failed'', ''malformed-artifact'',
      ''projection-oversized'', ''invalid-structured-result'', ''native-schema-unsupported'',
      ''read-only-review-unavailable'', ''provider-error'', ''missing-artifact'', ''scope-incomplete'']"

definition custom_infrastructure_reasons :: "string list" where
  "custom_infrastructure_reasons =
     [''policy-load-failed'', ''provider-error'', ''retry-exhausted'', ''missing-artifact'',
      ''malformed-artifact'', ''stale-artifact'', ''identity-mismatch'', ''preflight-failed'',
      ''artifact-read-failed'', ''artifact-write-failed'', ''scope-incomplete'', ''projection-oversized'',
      ''invalid-structured-result'', ''native-schema-unsupported'', ''review-input-mutated'',
      ''read-only-review-unavailable'']"

definition isLastMechanicalFault :: "jval \<Rightarrow> bool" where
  "isLastMechanicalFault fault =
     (is_object fault \<and>
      ((req fault ''rubric'' (one_of [''testQuality'', ''security'', ''implementationQuality'']) \<and>
        req fault ''reason'' (one_of infrastructure_reasons) \<and> req fault ''detail'' isNonEmptyString) \<or>
       (req fault ''rubric'' isNonEmptyString \<and> req fault ''reason'' (one_of custom_infrastructure_reasons) \<and>
        req fault ''detail'' isNonEmptyString)) \<and>
      req fault ''lapId'' isNonEmptyString)"

definition is_allowance :: "jval \<Rightarrow> bool" where
  "is_allowance = one_of [''laps'', ''growth'', ''restacks'']"

definition isBudgetAdjustment :: "jval \<Rightarrow> bool" where
  "isBudgetAdjustment a =
     (is_object a \<and> req a ''id'' isNonEmptyString \<and> req a ''kind'' (one_of [''raise'', ''reset'']) \<and>
      req a ''beforeConsumed'' isNonNegativeInteger \<and> req a ''afterConsumed'' isNonNegativeInteger \<and>
      req a ''beforeLimit'' isNonNegativeInteger \<and> req a ''afterLimit'' isNonNegativeInteger \<and>
      req a ''operator'' isNonEmptyString \<and> req a ''rationale'' isNonEmptyString \<and>
      req a ''timestamp'' isNonEmptyString \<and> req a ''haltGeneration'' isNonEmptyString \<and>
      opt a ''allowance'' is_allowance)"

definition isCapEvidence :: "jval \<Rightarrow> bool" where
  "isCapEvidence e =
     (is_object e \<and> req e ''gate'' isNonEmptyString \<and> req e ''consumed'' isNonNegativeInteger \<and>
      req e ''limit'' isNonNegativeInteger \<and> req e ''latestReason'' isNonEmptyString \<and>
      req e ''haltGeneration'' isNonEmptyString \<and> opt e ''allowance'' is_allowance)"

definition isResumeAuthorization :: "jval \<Rightarrow> bool" where
  "isResumeAuthorization a =
     (is_object a \<and> req a ''adjustmentId'' isNonEmptyString \<and> req a ''haltGeneration'' isNonEmptyString \<and>
      req a ''consumed'' is_bool)"

definition isChargedEffectIds :: "jval \<Rightarrow> bool" where
  "isChargedEffectIds v = (array_all isNonEmptyString v \<and> distinct_array v)"

definition isKickbackGateEntry :: "jval \<Rightarrow> bool" where
  "isKickbackGateEntry e =
     (is_object e \<and> req e ''count'' is_number \<and> opt e ''cumulative'' is_number \<and>
      opt e ''laps'' isNonNegativeInteger \<and> opt e ''chargedEffectIds'' isChargedEffectIds \<and>
      opt e ''mechanicalFaults'' (\<lambda>v. case v of JNum n \<Rightarrow> n \<ge> 0 | _ \<Rightarrow> False) \<and>
      opt e ''suiteInfrastructureRetries'' isNonNegativeInteger \<and>
      opt e ''lastMechanicalFault'' isLastMechanicalFault \<and>
      opt e ''effectiveLimit'' isPositiveSafeInteger \<and> opt e ''effectiveLapCap'' isPositiveSafeInteger \<and>
      opt e ''adjustments'' (array_all isBudgetAdjustment) \<and>
      opt e ''pendingAdjustment'' isBudgetAdjustment \<and> opt e ''capEvidence'' isCapEvidence \<and>
      opt e ''resumeAuthorization'' isResumeAuthorization \<and>
      req e ''treeHash'' (\<lambda>v. is_string v \<or> v = JNull) \<and> req e ''lastReason'' is_string \<and>
      req e ''priorVerdict'' is_bool \<and> req e ''resolvedBefore'' is_number)"

section \<open>Validators of the ledger-level records\<close>

definition isRoutedRepairCredit :: "jval \<Rightarrow> bool" where
  "isRoutedRepairCredit c =
     (is_object c \<and>
      (case jstring c ''roundId'' of
         Some (CHR ''r'' # d # ds) \<Rightarrow> d \<noteq> CHR ''0'' \<and> list_all is_digit (d # ds)
       | _ \<Rightarrow> False) \<and>
      opt c ''consumed'' (\<lambda>v. v = JBool True))"

definition isPlanGrowthRecord :: "jval \<Rightarrow> bool" where
  "isPlanGrowthRecord g =
     (is_object g \<and> req g ''authored'' isNonNegativeInteger \<and> req g ''added'' isNonNegativeInteger \<and>
      req g ''byGate'' (object_all (\<lambda>gate count. \<not> blank gate \<and> isNonNegativeInteger count)))"

fun exact_keys :: "jval \<Rightarrow> string list \<Rightarrow> bool" where
  "exact_keys (JObj kvs) ks = (length kvs = length ks \<and> list_all (\<lambda>(k, _). k \<in> set ks) kvs)"
| "exact_keys _ ks = False"

definition isAsBuiltGoverningReference :: "jval \<Rightarrow> bool" where
  "isAsBuiltGoverningReference v =
     (is_object v \<and>
      (if jget v ''kind'' = Some (JStr ''adr-decision'')
       then exact_keys v [''kind'', ''stem'', ''decision''] \<and> req v ''stem'' isNonEmptyString \<and>
            req v ''decision'' is_number
       else if jget v ''kind'' = Some (JStr ''plan-task'')
       then exact_keys v [''kind'', ''taskId''] \<and> req v ''taskId'' isNonEmptyString
       else False))"

definition isPendingAsBuiltRemediationFinding :: "jval \<Rightarrow> bool" where
  "isPendingAsBuiltRemediationFinding f =
     (is_object f \<and> req f ''gate'' (one_of [''architecture_review_as_built'']) \<and>
      req f ''finding'' isNonEmptyString \<and> req f ''class'' (one_of [''REMEDIABLE'']) \<and>
      req f ''governingClause'' isNonEmptyString \<and> opt f ''reference'' isAsBuiltGoverningReference \<and>
      req f ''summary'' isNonEmptyString \<and> req f ''outcome'' (one_of [''remediated'']))"

text \<open>The pattern \<^verbatim>\<open>^as-built:[^:]+:[1-9]\d*$\<close>, by its two colons.\<close>

definition isEngineStampedAsBuiltFindingId :: "string \<Rightarrow> bool" where
  "isEngineStampedAsBuiltFindingId value =
     (case split_on (CHR '':'') value of
        [a, b, d # ds] \<Rightarrow> a = ''as-built'' \<and> b \<noteq> [] \<and> d \<noteq> CHR ''0'' \<and> list_all is_digit (d # ds)
      | _ \<Rightarrow> False)"

definition isPendingAsBuiltRemediationFindings :: "jval \<Rightarrow> bool" where
  "isPendingAsBuiltRemediationFindings v =
     (case v of
        JArr fs \<Rightarrow> list_all isPendingAsBuiltRemediationFinding fs \<and>
          distinct (filter isEngineStampedAsBuiltFindingId (map (\<lambda>f. the (jstring f ''finding'')) fs))
      | _ \<Rightarrow> False)"

definition isPendingRepairGateCharge :: "jval \<Rightarrow> bool" where
  "isPendingRepairGateCharge c =
     (is_object c \<and> req c ''laps'' isPositiveSafeInteger \<and> req c ''growth'' isNonNegativeInteger)"

definition repair_gates :: "string list" where
  "repair_gates = [''prd_audit'', ''architecture_review_as_built'']"

definition isPendingRepair :: "jval \<Rightarrow> bool" where
  "isPendingRepair r =
     (is_object r \<and> req r ''receiptId'' isNonEmptyString \<and>
      req r ''taskIds'' (\<lambda>t. array_all isNonEmptyString t \<and> t \<noteq> JArr [] \<and> distinct_array t) \<and>
      opt r ''prdAuditCriteria'' (\<lambda>t. array_all isNonEmptyString t \<and> distinct_array t) \<and>
      req r ''charges'' (\<lambda>c. c \<noteq> JObj [] \<and>
        object_all (\<lambda>gate charge. gate \<in> set repair_gates \<and> isPendingRepairGateCharge charge) c))"

definition isSettlementReceipts :: "jval \<Rightarrow> bool" where
  "isSettlementReceipts =
     object_all (\<lambda>key receipt. \<not> blank key \<and> req receipt ''gates'' (array_all isNonEmptyString))"

definition isConvergenceReceipts :: "jval \<Rightarrow> bool" where
  "isConvergenceReceipts =
     object_all (\<lambda>id receipt. \<not> blank id \<and> is_object receipt \<and>
       jget receipt ''gate'' = Some (JStr ''build_review''))"

section \<open>Reading typed values\<close>

text \<open>What the typed fields of a validated value hold.\<close>

definition jint :: "jval \<Rightarrow> string \<Rightarrow> int option" where
  "jint v k = (case jget v k of Some (JNum n) \<Rightarrow> Some n | _ \<Rightarrow> None)"

definition jflag :: "jval \<Rightarrow> string \<Rightarrow> bool" where
  "jflag v k = (jget v k = Some (JBool True))"

fun strings_of :: "jval \<Rightarrow> string list" where
  "strings_of (JArr xs) = map (\<lambda>v. case v of JStr s \<Rightarrow> s | _ \<Rightarrow> []) xs"
| "strings_of _ = []"

fun entries_of :: "jval \<Rightarrow> (string \<times> jval) list" where
  "entries_of (JObj kvs) = kvs"
| "entries_of _ = []"

fun elems_of :: "jval \<Rightarrow> jval list" where
  "elems_of (JArr xs) = xs"
| "elems_of _ = []"

definition text_of :: "jval \<Rightarrow> string \<Rightarrow> string" where
  "text_of v k = (case jstring v k of Some s \<Rightarrow> s | None \<Rightarrow> [])"

definition int_of :: "jval \<Rightarrow> string \<Rightarrow> int" where
  "int_of v k = (case jint v k of Some n \<Rightarrow> n | None \<Rightarrow> 0)"

definition allowance_of :: "jval \<Rightarrow> allowance option" where
  "allowance_of v =
     (case jstring v ''allowance'' of
        Some t \<Rightarrow> (if t = ''laps'' then Some AllowLaps else if t = ''growth'' then Some AllowGrowth
                  else if t = ''restacks'' then Some AllowRestacks else None)
      | None \<Rightarrow> None)"

definition fault_of :: "jval \<Rightarrow> last_mechanical_fault" where
  "fault_of v = \<lparr>lf_rubric = text_of v ''rubric'', lf_reason = text_of v ''reason'',
                 lf_detail = text_of v ''detail'', lf_lapId = text_of v ''lapId''\<rparr>"

definition adjustment_of :: "jval \<Rightarrow> budget_adjustment" where
  "adjustment_of v =
     \<lparr>ba_id = text_of v ''id'',
      ba_kind = (if jget v ''kind'' = Some (JStr ''raise'') then RaiseLimit else ResetCount),
      ba_beforeConsumed = int_of v ''beforeConsumed'', ba_afterConsumed = int_of v ''afterConsumed'',
      ba_beforeLimit = int_of v ''beforeLimit'', ba_afterLimit = int_of v ''afterLimit'',
      ba_operator = text_of v ''operator'', ba_rationale = text_of v ''rationale'',
      ba_timestamp = text_of v ''timestamp'', ba_haltGeneration = text_of v ''haltGeneration'',
      ba_allowance = allowance_of v\<rparr>"

definition cap_evidence_of :: "jval \<Rightarrow> cap_evidence" where
  "cap_evidence_of v =
     \<lparr>ce_gate = text_of v ''gate'', ce_consumed = int_of v ''consumed'', ce_limit = int_of v ''limit'',
      ce_latestReason = text_of v ''latestReason'', ce_haltGeneration = text_of v ''haltGeneration'',
      ce_allowance = allowance_of v\<rparr>"

definition resume_of :: "jval \<Rightarrow> resume_authorization" where
  "resume_of v = \<lparr>ra_adjustmentId = text_of v ''adjustmentId'',
                  ra_haltGeneration = text_of v ''haltGeneration'', ra_consumed = jflag v ''consumed''\<rparr>"

text \<open>The entry after \<open>normalizeKickbackLedger\<close>, which fills the two counters and the ids.\<close>

definition gate_entry_of :: "string \<Rightarrow> jval \<Rightarrow> gate_entry" where
  "gate_entry_of gate v =
     \<lparr>ge_count = int_of v ''count'', ge_cumulative = int_of v ''cumulative'', ge_laps = jint v ''laps'',
      ge_chargedEffectIds = (case jget v ''chargedEffectIds'' of
          Some ids \<Rightarrow> Some (strings_of ids)
        | None \<Rightarrow> (if gate = ''build_review'' then Some [] else None)),
      ge_mechanicalFaults = Some (int_of v ''mechanicalFaults''),
      ge_suiteInfrastructureRetries = jint v ''suiteInfrastructureRetries'',
      ge_lastMechanicalFault = map_option fault_of (jget v ''lastMechanicalFault''),
      ge_effectiveLimit = jint v ''effectiveLimit'', ge_effectiveLapCap = jint v ''effectiveLapCap'',
      ge_adjustments = map_option (\<lambda>a. map adjustment_of (elems_of a)) (jget v ''adjustments''),
      ge_adjustmentsKnown = jflag v ''adjustmentsKnown'',
      ge_adjustmentsUnavailable = jflag v ''adjustmentsUnavailable'',
      ge_pendingAdjustment = map_option adjustment_of (jget v ''pendingAdjustment''),
      ge_capEvidence = map_option cap_evidence_of (jget v ''capEvidence''),
      ge_resumeAuthorization = map_option resume_of (jget v ''resumeAuthorization''),
      ge_treeHash = jstring v ''treeHash'', ge_lastReason = text_of v ''lastReason'',
      ge_priorVerdict = jflag v ''priorVerdict'', ge_resolvedBefore = int_of v ''resolvedBefore''\<rparr>"

definition growth_record_of :: "jval \<Rightarrow> plan_growth_record" where
  "growth_record_of v =
     growth_of (int_of v ''authored'') (int_of v ''added'')
       (case jget v ''byGate'' of
          Some b \<Rightarrow> map (\<lambda>(g, c). (g, case c of JNum n \<Rightarrow> n | _ \<Rightarrow> 0)) (entries_of b) | None \<Rightarrow> [])"

definition pending_repair_of :: "jval \<Rightarrow> pending_repair" where
  "pending_repair_of v =
     \<lparr>pr_receiptId = text_of v ''receiptId'',
      pr_charges = (case jget v ''charges'' of
          Some c \<Rightarrow> map (\<lambda>(g, ch). (g, \<lparr>pc_laps = int_of ch ''laps'', pc_growth = int_of ch ''growth''\<rparr>))
                     (entries_of c)
        | None \<Rightarrow> []),
      pr_taskIds = (case jget v ''taskIds'' of Some t \<Rightarrow> strings_of t | None \<Rightarrow> []),
      pr_prdAuditCriteria = map_option strings_of (jget v ''prdAuditCriteria'')\<rparr>"

section \<open>Parsing\<close>

definition object_spread :: "jval \<Rightarrow> (string \<times> jval) list" where
  "object_spread v = entries_of v"

text \<open>
  \<open>normalizeKickbackGateEntry\<close>: the default allowance of cap evidence is written in, and a
  malformed adjustment history is dropped and marked. Reading \<^verbatim>\<open>.allowance\<close> of a
  \<^verbatim>\<open>null\<close> cap evidence throws; the spread of another non-object adds no property the
  validator reads.
\<close>

definition normalizeKickbackGateEntry :: "jval \<Rightarrow> jval option throws" where
  "normalizeKickbackGateEntry value =
     (if \<not> is_object value then Inr None
      else if jget value ''capEvidence'' = Some JNull
      then Inl ''Cannot read properties of null (reading allowance)''
      else (let entry = entries_of value;
                withEvidence = (case jget value ''capEvidence'' of
                    None \<Rightarrow> entry
                  | Some ce \<Rightarrow> AList.update ''capEvidence''
                      (JObj (AList.update ''allowance''
                         (case jget ce ''allowance'' of
                            None \<Rightarrow> JStr ''laps'' | Some JNull \<Rightarrow> JStr ''laps'' | Some a \<Rightarrow> a)
                         (object_spread ce))) entry);
                historyIsValid = opt value ''adjustments'' (array_all isBudgetAdjustment);
                withoutHistory = (if historyIsValid then withEvidence
                   else AList.update ''adjustmentsUnavailable'' (JBool True)
                          (filter (\<lambda>(k, _). k \<noteq> ''adjustments'') withEvidence))
            in Inr (if isKickbackGateEntry (JObj withoutHistory) then Some (JObj withoutHistory) else None)))"

fun parse_gates ::
  "(string \<times> jval) list \<Rightarrow> ((string \<times> gate_entry) list \<times> string list) throws" where
  "parse_gates [] = Inr ([], [])"
| "parse_gates ((gate, v) # rest) =
     (case normalizeKickbackGateEntry v of
        Inl e \<Rightarrow> Inl e
      | Inr None \<Rightarrow> map_sum id (\<lambda>(gates, bad). (gates, gate # bad)) (parse_gates rest)
      | Inr (Some n) \<Rightarrow> map_sum id (\<lambda>(gates, bad). ((gate, gate_entry_of gate n) # gates, bad)) (parse_gates rest))"

definition parseKickbackLedger :: "jval \<Rightarrow> kickback_ledger option throws" where
  "parseKickbackLedger value =
     (if \<not> is_object value \<or> jget value ''version'' \<noteq> Some (JNum 1) \<or> \<not> req value ''gates'' is_object
      then Inr None
      else (case parse_gates (entries_of (the (jget value ''gates''))) of
        Inl e \<Rightarrow> Inl e
      | Inr (gates, unreadableGates) \<Rightarrow> Inr (Some
          (if \<not> opt value ''growth'' isPlanGrowthRecord then unreadableLedger gates None False
           else if \<not> opt value ''effectiveGrowthCap'' isPositiveSafeInteger
           then unreadableLedger gates None False
           else if \<not> opt value ''pendingAsBuiltRemediationFindings'' isPendingAsBuiltRemediationFindings
           then unreadableLedger gates None False
           else if \<not> opt value ''pendingRepair'' isPendingRepair
           then unreadableLedger gates (Some repair_gates) True
           else if \<not> opt value ''convergenceCreditReceipts'' isConvergenceReceipts
           then unreadableLedger gates None False
           else if \<not> opt value ''routedRepairCredit'' isRoutedRepairCredit
           then unreadableLedger gates None False
           else if unreadableGates \<noteq> [] then unreadableLedger gates (Some unreadableGates) False
           else emptyLedger\<lparr>
             kl_gates := gates,
             kl_growth := map_option growth_record_of (jget value ''growth''),
             kl_effectiveGrowthCap := jint value ''effectiveGrowthCap'',
             kl_pendingFindings := map_option elems_of (jget value ''pendingAsBuiltRemediationFindings''),
             kl_pendingRepair := map_option pending_repair_of (jget value ''pendingRepair''),
             kl_settlementReceipts := (case jget value ''settlementReceipts'' of
                 None \<Rightarrow> None
               | Some r \<Rightarrow> if isSettlementReceipts r
                          then Some (map (\<lambda>(k, v). (k, strings_of (the (jget v ''gates'')))) (entries_of r))
                          else None),
             kl_convergenceCreditReceipts :=
               map_option (\<lambda>r. map fst (entries_of r)) (jget value ''convergenceCreditReceipts''),
             kl_routedRepairCredit := map_option (\<lambda>c. \<lparr>rc_roundId = text_of c ''roundId'',
                 rc_consumed = jflag c ''consumed''\<rparr>) (jget value ''routedRepairCredit'')\<rparr>))))"

text \<open>What is at the ledger path: nothing, a read failure, text that is no JSON, or a value.\<close>

datatype ledger_doc = LedgerAbsent | LedgerIoError string | LedgerInvalid | LedgerJson jval

datatype ledger_read = ReadAbsent | ReadOk kickback_ledger | ReadUnreadable string

definition readKickbackLedgerResult :: "ledger_doc \<Rightarrow> ledger_read" where
  "readKickbackLedgerResult doc =
     (case doc of
        LedgerAbsent \<Rightarrow> ReadAbsent
      | LedgerIoError msg \<Rightarrow> ReadUnreadable (''kickback ledger is unreadable: '' @ msg)
      | LedgerInvalid \<Rightarrow> ReadUnreadable ''kickback ledger is unreadable: invalid JSON''
      | LedgerJson parsed \<Rightarrow>
          (case parseKickbackLedger parsed of
             Inl msg \<Rightarrow> ReadUnreadable (''kickback ledger is unreadable: '' @ msg)
           | Inr (Some ledger) \<Rightarrow>
               if \<not> isUnreadableKickbackLedger ledger then ReadOk ledger
               else if is_object parsed \<and> jget parsed ''version'' \<noteq> Some (JNum 1)
               then ReadUnreadable ''kickback ledger has an unsupported version''
               else ReadUnreadable ''kickback ledger is corrupt''
           | Inr None \<Rightarrow>
               if (is_object parsed \<or> (\<exists>xs. parsed = JArr xs)) \<and> jget parsed ''version'' \<noteq> Some (JNum 1)
               then ReadUnreadable ''kickback ledger has an unsupported version''
               else ReadUnreadable ''kickback ledger is corrupt''))"

definition readKickbackLedger :: "ledger_doc \<Rightarrow> kickback_ledger" where
  "readKickbackLedger doc =
     (case readKickbackLedgerResult doc of
        ReadOk l \<Rightarrow> l
      | ReadAbsent \<Rightarrow> emptyLedger
      | ReadUnreadable _ \<Rightarrow> unreadableLedger [] None False)"

datatype retries_read = Retries int | RetriesUnreadable

definition readSuiteInfrastructureRetries :: "ledger_doc \<Rightarrow> retries_read" where
  "readSuiteInfrastructureRetries doc =
     (let ledger = readKickbackLedger doc in
      if isUnreadableKickbackGate ledger ''test_suite'' then RetriesUnreadable
      else Retries (case Option.bind (map_of (kl_gates ledger) ''test_suite'') ge_suiteInfrastructureRetries of
                      Some n \<Rightarrow> n | None \<Rightarrow> 0))"

end
