(* ===== verification/KickbackStore.thy ===== *)
theory KickbackStore
  imports KickbackSchema
begin

text \<open>
  The kickback ledger, part three: the JSON a write leaves, and every leased
  read-modify-write operation on the ledger file.
\<close>

section \<open>The written document\<close>

text \<open>\<^verbatim>\<open>JSON.stringify\<close> leaves out an undefined property.\<close>

definition opt_field :: "string \<Rightarrow> ('a \<Rightarrow> jval) \<Rightarrow> 'a option \<Rightarrow> (string \<times> jval) list" where
  "opt_field k f x = (case x of None \<Rightarrow> [] | Some v \<Rightarrow> [(k, f v)])"

definition flag_field :: "string \<Rightarrow> bool \<Rightarrow> (string \<times> jval) list" where
  "flag_field k b = (if b then [(k, JBool True)] else [])"

fun allowance_json :: "allowance \<Rightarrow> jval" where
  "allowance_json AllowLaps = JStr ''laps''"
| "allowance_json AllowGrowth = JStr ''growth''"
| "allowance_json AllowRestacks = JStr ''restacks''"

definition strings_json :: "string list \<Rightarrow> jval" where
  "strings_json ss = JArr (map JStr ss)"

definition fault_json :: "last_mechanical_fault \<Rightarrow> jval" where
  "fault_json f = JObj [(''rubric'', JStr (lf_rubric f)), (''reason'', JStr (lf_reason f)),
     (''detail'', JStr (lf_detail f)), (''lapId'', JStr (lf_lapId f))]"

definition adjustment_json :: "budget_adjustment \<Rightarrow> jval" where
  "adjustment_json a = JObj ([(''id'', JStr (ba_id a)),
     (''kind'', JStr (case ba_kind a of RaiseLimit \<Rightarrow> ''raise'' | ResetCount \<Rightarrow> ''reset'')),
     (''beforeConsumed'', JNum (ba_beforeConsumed a)), (''afterConsumed'', JNum (ba_afterConsumed a)),
     (''beforeLimit'', JNum (ba_beforeLimit a)), (''afterLimit'', JNum (ba_afterLimit a)),
     (''operator'', JStr (ba_operator a)), (''rationale'', JStr (ba_rationale a)),
     (''timestamp'', JStr (ba_timestamp a)), (''haltGeneration'', JStr (ba_haltGeneration a))]
     @ opt_field ''allowance'' allowance_json (ba_allowance a))"

definition cap_evidence_json :: "cap_evidence \<Rightarrow> jval" where
  "cap_evidence_json c = JObj ([(''gate'', JStr (ce_gate c)), (''consumed'', JNum (ce_consumed c)),
     (''limit'', JNum (ce_limit c)), (''latestReason'', JStr (ce_latestReason c)),
     (''haltGeneration'', JStr (ce_haltGeneration c))]
     @ opt_field ''allowance'' allowance_json (ce_allowance c))"

definition resume_json :: "resume_authorization \<Rightarrow> jval" where
  "resume_json r = JObj [(''adjustmentId'', JStr (ra_adjustmentId r)),
     (''haltGeneration'', JStr (ra_haltGeneration r)), (''consumed'', JBool (ra_consumed r))]"

definition gate_entry_fields :: "gate_entry \<Rightarrow> (string \<times> jval) list" where
  "gate_entry_fields e =
     [(''count'', JNum (ge_count e)), (''cumulative'', JNum (ge_cumulative e))]
     @ opt_field ''laps'' JNum (ge_laps e)
     @ opt_field ''chargedEffectIds'' strings_json (ge_chargedEffectIds e)
     @ opt_field ''mechanicalFaults'' JNum (ge_mechanicalFaults e)
     @ opt_field ''suiteInfrastructureRetries'' JNum (ge_suiteInfrastructureRetries e)
     @ opt_field ''lastMechanicalFault'' fault_json (ge_lastMechanicalFault e)
     @ opt_field ''effectiveLimit'' JNum (ge_effectiveLimit e)
     @ opt_field ''effectiveLapCap'' JNum (ge_effectiveLapCap e)
     @ opt_field ''adjustments'' (\<lambda>as. JArr (map adjustment_json as)) (ge_adjustments e)
     @ flag_field ''adjustmentsKnown'' (ge_adjustmentsKnown e)
     @ flag_field ''adjustmentsUnavailable'' (ge_adjustmentsUnavailable e)
     @ opt_field ''pendingAdjustment'' adjustment_json (ge_pendingAdjustment e)
     @ opt_field ''capEvidence'' cap_evidence_json (ge_capEvidence e)
     @ opt_field ''resumeAuthorization'' resume_json (ge_resumeAuthorization e)
     @ [(''treeHash'', (case ge_treeHash e of None \<Rightarrow> JNull | Some h \<Rightarrow> JStr h)),
        (''lastReason'', JStr (ge_lastReason e)), (''priorVerdict'', JBool (ge_priorVerdict e)),
        (''resolvedBefore'', JNum (ge_resolvedBefore e))]"

definition growth_json :: "plan_growth_record \<Rightarrow> jval" where
  "growth_json g = JObj [(''authored'', JNum (pg_authored g)), (''added'', JNum (pg_added g)),
     (''byGate'', JObj (map (\<lambda>(k, n). (k, JNum n)) (pg_byGate g)))]"

definition charge_json :: "pending_gate_charge \<Rightarrow> jval" where
  "charge_json c = JObj [(''laps'', JNum (pc_laps c)), (''growth'', JNum (pc_growth c))]"

definition repair_json :: "pending_repair \<Rightarrow> jval" where
  "repair_json r = JObj ([(''receiptId'', JStr (pr_receiptId r)),
     (''charges'', JObj (map (\<lambda>(k, c). (k, charge_json c)) (pr_charges r))),
     (''taskIds'', strings_json (pr_taskIds r))]
     @ opt_field ''prdAuditCriteria'' strings_json (pr_prdAuditCriteria r))"

definition credit_json :: "routed_repair_credit \<Rightarrow> jval" where
  "credit_json c = JObj ([(''roundId'', JStr (rc_roundId c))] @ flag_field ''consumed'' (rc_consumed c))"

definition ledger_fields :: "kickback_ledger \<Rightarrow> (string \<times> jval) list" where
  "ledger_fields l =
     [(''version'', JNum 1),
      (''gates'', JObj (map (\<lambda>(g, e). (g, JObj (gate_entry_fields e))) (kl_gates l)))]
     @ opt_field ''growth'' growth_json (kl_growth l)
     @ opt_field ''effectiveGrowthCap'' JNum (kl_effectiveGrowthCap l)
     @ opt_field ''pendingAsBuiltRemediationFindings'' JArr (kl_pendingFindings l)
     @ opt_field ''pendingRepair'' repair_json (kl_pendingRepair l)
     @ opt_field ''settlementReceipts''
         (\<lambda>rs. JObj (map (\<lambda>(k, gs). (k, JObj [(''gates'', strings_json gs)])) rs)) (kl_settlementReceipts l)
     @ opt_field ''convergenceCreditReceipts''
         (\<lambda>ids. JObj (map (\<lambda>i. (i, JObj [(''gate'', JStr ''build_review'')])) ids)) (kl_convergenceCreditReceipts l)
     @ opt_field ''routedRepairCredit'' credit_json (kl_routedRepairCredit l)"

text \<open>
  \<open>withPreservedUnreadableGates\<close>: raw entries that failed validation and are not being rewritten
  are carried over, and so is a malformed pending repair.
\<close>

fun unreadable_raw_gates :: "string list \<Rightarrow> (string \<times> jval) list \<Rightarrow> (string \<times> jval) list throws" where
  "unreadable_raw_gates written [] = Inr []"
| "unreadable_raw_gates written ((gate, entry) # rest) =
     (if gate \<in> set written then unreadable_raw_gates written rest
      else (case normalizeKickbackGateEntry entry of
              Inl e \<Rightarrow> Inl e
            | Inr None \<Rightarrow> map_sum id (\<lambda>r. (gate, entry) # r) (unreadable_raw_gates written rest)
            | Inr (Some _) \<Rightarrow> unreadable_raw_gates written rest))"

definition withPreservedUnreadableGates :: "ledger_doc \<Rightarrow> kickback_ledger \<Rightarrow> (string \<times> jval) list throws" where
  "withPreservedUnreadableGates doc ledger =
     (case doc of
        LedgerJson stored \<Rightarrow>
          (case jget stored ''gates'' of
             Some (JObj raw) \<Rightarrow>
               (case unreadable_raw_gates (map fst (kl_gates ledger)) raw of
                  Inl e \<Rightarrow> Inl e
                | Inr preserved \<Rightarrow>
                    (let flds = (if preserved = [] then ledger_fields ledger
                           else AList.update ''gates''
                             (JObj (map (\<lambda>(g, e). (g, JObj (gate_entry_fields e))) (kl_gates ledger) @ preserved))
                             (ledger_fields ledger))
                     in Inr (case jget stored ''pendingRepair'' of
                          None \<Rightarrow> flds
                        | Some r \<Rightarrow> if isPendingRepair r then flds
                                   else AList.update ''pendingRepair'' r flds)))
           | _ \<Rightarrow> Inr (ledger_fields ledger))
      | _ \<Rightarrow> Inr (ledger_fields ledger))"

record ledger_env =
  le_acquire :: "string option"
  le_write :: "string option"
  le_release :: "string option"

definition ok_ledger_env :: ledger_env where
  "ok_ledger_env = \<lparr>le_acquire = None, le_write = None, le_release = None\<rparr>"

definition writeKickbackLedgerUnsafe ::
  "ledger_env \<Rightarrow> bool \<Rightarrow> ledger_doc \<Rightarrow> kickback_ledger \<Rightarrow> ledger_doc throws" where
  "writeKickbackLedgerUnsafe env child doc ledger =
     (if child \<and> (kl_growth ledger \<noteq> None \<or> kl_effectiveGrowthCap ledger \<noteq> None \<or> kl_pendingRepair ledger \<noteq> None)
      then Inl ''child kickback ledgers cannot contain plan growth, effective growth caps, or pending repairs''
      else (case withPreservedUnreadableGates doc ledger of
              Inl e \<Rightarrow> Inl e
            | Inr flds \<Rightarrow> (case le_write env of Some e \<Rightarrow> Inl e | None \<Rightarrow> Inr (LedgerJson (JObj flds)))))"

section \<open>Leased transactions\<close>

text \<open>
  A transaction reads the ledger and yields a result and, unless it writes nothing, the next
  ledger; it may throw. \<open>leased\<close> is \<^verbatim>\<open>withKickbackLedgerLease\<close> around the read, the
  transaction and the write: a release failure is reported only after a successful operation.
\<close>

type_synonym 'a ledger_tx = "kickback_ledger \<Rightarrow> (kickback_ledger option \<times> 'a) throws"

definition leased :: "ledger_env \<Rightarrow> bool \<Rightarrow> 'a ledger_tx \<Rightarrow> ledger_doc \<Rightarrow> ledger_doc \<times> 'a throws" where
  "leased env child tx doc =
     (case le_acquire env of
        Some e \<Rightarrow> (doc, Inl e)
      | None \<Rightarrow>
          (case tx (readKickbackLedger doc) of
             Inl e \<Rightarrow> (doc, Inl e)
           | Inr (None, r) \<Rightarrow> (doc, case le_release env of Some e \<Rightarrow> Inl e | None \<Rightarrow> Inr r)
           | Inr (Some l, r) \<Rightarrow>
               (case writeKickbackLedgerUnsafe env child doc l of
                  Inl e \<Rightarrow> (doc, Inl e)
                | Inr doc' \<Rightarrow> (doc', case le_release env of Some e \<Rightarrow> Inl e | None \<Rightarrow> Inr r))))"

text \<open>\<open>updateKickbackLedger\<close>: a caller's transaction on a readable ledger, or gate.\<close>

definition guarded :: "string option \<Rightarrow> 'a ledger_tx \<Rightarrow> 'a ledger_tx" where
  "guarded gate tx ledger =
     (case (case gate of None \<Rightarrow> requireReadableLedger ledger | Some g \<Rightarrow> requireReadableGate ledger g) of
        Inl e \<Rightarrow> Inl e | Inr _ \<Rightarrow> tx ledger)"

definition updateKickbackLedger ::
  "ledger_env \<Rightarrow> bool \<Rightarrow> string option \<Rightarrow> 'a ledger_tx \<Rightarrow> ledger_doc \<Rightarrow> ledger_doc \<times> 'a throws" where
  "updateKickbackLedger env child gate tx doc = leased env child (guarded gate tx) doc"

definition set_gate :: "string \<Rightarrow> gate_entry \<Rightarrow> kickback_ledger \<Rightarrow> kickback_ledger" where
  "set_gate gate e ledger = ledger\<lparr>kl_gates := AList.update gate e (kl_gates ledger)\<rparr>"

definition gate_of :: "kickback_ledger \<Rightarrow> string \<Rightarrow> gate_entry option" where
  "gate_of ledger gate = map_of (kl_gates ledger) gate"

section \<open>Kickback charges\<close>

definition bump_tx :: "string \<Rightarrow> bump_input \<Rightarrow> (bump_result \<times> gate_entry option) ledger_tx" where
  "bump_tx gate input = guarded (Some gate) (\<lambda>ledger.
     (let result = bumpKickbackGate (gate_of ledger gate) input
      in Inr (Some (set_gate gate (br_entry result) ledger), (result, gate_of ledger gate))))"

definition bumpKickbackGateInLedger where
  "bumpKickbackGateInLedger env child gate input doc = leased env child (bump_tx gate input) doc"

definition refund_tx :: "gate_entry option \<Rightarrow> unit ledger_tx" where
  "refund_tx before = guarded (Some ''build_review'') (\<lambda>ledger.
     (case gate_of ledger ''build_review'' of
        None \<Rightarrow> Inr (None, ())
      | Some current \<Rightarrow>
          (case before of
             None \<Rightarrow> Inr (Some (ledger\<lparr>kl_gates := filter (\<lambda>(g, _). g \<noteq> ''build_review'') (kl_gates ledger)\<rparr>), ())
           | Some prior \<Rightarrow> Inr (Some (set_gate ''build_review'' (refund_entry prior current) ledger), ()))))"

definition refundBuildReviewKickback where
  "refundBuildReviewKickback env child before doc = leased env child (refund_tx before) doc"

definition charge_tx :: "string \<Rightarrow> bump_input \<Rightarrow> charge_result ledger_tx" where
  "charge_tx effectId input ledger =
     (if isUnreadableKickbackGate ledger ''build_review''
      then Inr (None, ChargeUnreadable (''kickback ledger gate '' @ [CHR 0x27] @ ''build_review'' @ [CHR 0x27] @ '' is unreadable''))
      else (case chargeBuildReviewEffect (gate_of ledger ''build_review'') effectId input of
              Charged r \<Rightarrow> Inr (Some (set_gate ''build_review'' (br_entry r) ledger), Charged r)
            | other \<Rightarrow> Inr (None, other)))"

definition chargeBuildReviewEffectInLedger where
  "chargeBuildReviewEffectInLedger env child effectId input doc = leased env child (charge_tx effectId input) doc"

datatype fault_result = FaultOk gate_entry | FaultUnreadable string

definition bump_faults :: "string \<Rightarrow> last_mechanical_fault option \<Rightarrow> kickback_ledger \<Rightarrow> gate_entry" where
  "bump_faults gate fault ledger =
     bumpMechanicalFaults (case gate_of ledger gate of Some e \<Rightarrow> e | None \<Rightarrow> emptyKickbackGateEntry gate) fault"

definition bumpMechanicalFaultsInLedgerResult ::
  "ledger_env \<Rightarrow> bool \<Rightarrow> string \<Rightarrow> last_mechanical_fault option \<Rightarrow> ledger_doc \<Rightarrow> ledger_doc \<times> fault_result throws" where
  "bumpMechanicalFaultsInLedgerResult env child gate fault doc = leased env child (\<lambda>ledger.
     (if isUnreadableKickbackGate ledger gate
      then Inr (None, FaultUnreadable (''kickback ledger gate '' @ [CHR 0x27] @ gate @ [CHR 0x27] @ '' is unreadable''))
      else (let e = bump_faults gate fault ledger in Inr (Some (set_gate gate e ledger), FaultOk e)))) doc"

definition bumpMechanicalFaultsInLedger ::
  "ledger_env \<Rightarrow> bool \<Rightarrow> string \<Rightarrow> last_mechanical_fault option \<Rightarrow> ledger_doc \<Rightarrow> ledger_doc \<times> gate_entry throws" where
  "bumpMechanicalFaultsInLedger env child gate fault doc = leased env child (guarded (Some gate) (\<lambda>ledger.
     (let e = bump_faults gate fault ledger in Inr (Some (set_gate gate e ledger), e)))) doc"

definition bumpSuiteInfrastructureRetriesInLedger ::
  "ledger_env \<Rightarrow> bool \<Rightarrow> ledger_doc \<Rightarrow> ledger_doc \<times> gate_entry throws" where
  "bumpSuiteInfrastructureRetriesInLedger env child doc = leased env child (guarded (Some ''test_suite'') (\<lambda>ledger.
     (let e = bumpSuiteInfrastructureRetries (gate_of ledger ''test_suite'')
      in Inr (Some (set_gate ''test_suite'' e ledger), e)))) doc"

section \<open>Remediation rounds\<close>

definition entry_or_blank :: "gate_entry option \<Rightarrow> gate_entry" where
  "entry_or_blank e = (case e of Some x \<Rightarrow> x | None \<Rightarrow> blank_gate_entry)"

definition laps_of :: "gate_entry \<Rightarrow> int" where
  "laps_of e = (case ge_laps e of Some n \<Rightarrow> n | None \<Rightarrow> 0)"

definition bump_lap :: "string \<Rightarrow> (string \<times> gate_entry) list \<Rightarrow> (string \<times> gate_entry) list" where
  "bump_lap gate gates =
     (let current = entry_or_blank (map_of gates gate)
      in AList.update gate (current\<lparr>ge_laps := Some (laps_of current + 1)\<rparr>) gates)"

fun require_gates :: "kickback_ledger \<Rightarrow> string list \<Rightarrow> unit throws" where
  "require_gates ledger [] = Inr ()"
| "require_gates ledger (g # gs) =
     (case requireReadableGate ledger g of Inl e \<Rightarrow> Inl e | Inr _ \<Rightarrow> require_gates ledger gs)"

definition settle_round_tx :: "string \<Rightarrow> string list \<Rightarrow> int option \<Rightarrow> (bool \<times> string option) ledger_tx" where
  "settle_round_tx receiptId gates lapCap ledger =
     (let receipts = (case kl_settlementReceipts ledger of None \<Rightarrow> [] | Some r \<Rightarrow> r) in
      if map_of receipts receiptId \<noteq> None then Inr (None, (False, None))
      else (let uniqueGates = stable_unique gates in
        case require_gates ledger uniqueGates of
          Inl e \<Rightarrow> Inl e
        | Inr _ \<Rightarrow>
            (case (case lapCap of None \<Rightarrow> None
                   | Some c \<Rightarrow> find (\<lambda>g. (case gate_of ledger g of Some e \<Rightarrow> laps_of e | None \<Rightarrow> 0) \<ge> c) uniqueGates) of
               Some g \<Rightarrow> Inr (None, (False, Some g))
             | None \<Rightarrow>
                 Inr (Some (ledger\<lparr>kl_gates := fold bump_lap uniqueGates (kl_gates ledger),
                                   kl_settlementReceipts := Some (AList.update receiptId uniqueGates receipts)\<rparr>),
                      (True, None)))))"

definition settleRemediationRound where
  "settleRemediationRound env receiptId gates lapCap doc =
     leased env False (settle_round_tx receiptId gates lapCap) doc"

definition gate_lap_tx :: "string \<Rightarrow> bool \<Rightarrow> (gate_entry \<times> plan_growth_record option) ledger_tx" where
  "gate_lap_tx gate consumesLap = guarded (Some gate) (\<lambda>ledger.
     (let existing = entry_or_blank (gate_of ledger gate);
          entry = existing\<lparr>ge_laps := Some (laps_of existing + (if consumesLap then 1 else 0))\<rparr>
      in Inr (Some (set_gate gate entry ledger), (entry, kl_growth ledger))))"

definition recordRemediationGateLap where
  "recordRemediationGateLap env gate consumesLap doc = leased env False (gate_lap_tx gate consumesLap) doc"

section \<open>Pending repairs\<close>

definition require_all :: "unit throws list \<Rightarrow> unit throws" where
  "require_all cs = fold (\<lambda>c r. case r of Inl e \<Rightarrow> Inl e | Inr _ \<Rightarrow> c) cs (Inr ())"

definition record_repair_tx :: "pending_repair \<Rightarrow> unit ledger_tx" where
  "record_repair_tx repair ledger =
     (case require_all ([requireReadableLedger ledger, requireReadableGrowth ledger] @
                        map (\<lambda>(g, _). requireReadableGate ledger g) (pr_charges repair)) of
        Inl e \<Rightarrow> Inl e
      | Inr _ \<Rightarrow>
          (case kl_pendingRepair ledger of
             Some existing \<Rightarrow>
               (if pr_receiptId existing = pr_receiptId repair then Inr (None, ())
                else Inl (''pending repair '' @ [CHR 0x27] @ pr_receiptId existing @ [CHR 0x27] @ '' is already recorded''))
           | None \<Rightarrow> Inr (Some (ledger\<lparr>kl_pendingRepair := Some repair\<rparr>), ())))"

definition recordPendingRepair :: "ledger_env \<Rightarrow> pending_repair \<Rightarrow> ledger_doc \<Rightarrow> ledger_doc \<times> unit throws" where
  "recordPendingRepair env repair doc =
     (if \<not> isPendingRepair (repair_json repair) then (doc, Inl ''pending repair must be well-formed'')
      else leased env False (record_repair_tx repair) doc)"

definition discardPendingRepair :: "ledger_env \<Rightarrow> ledger_doc \<Rightarrow> ledger_doc \<times> unit throws" where
  "discardPendingRepair env doc = leased env False (guarded None (\<lambda>ledger.
     (if kl_pendingRepair ledger = None then Inr (None, ())
      else Inr (Some (ledger\<lparr>kl_pendingRepair := None\<rparr>), ())))) doc"

record settlement_budget =
  sb_gate :: string
  sb_lapCap :: int
  sb_growthCap :: int
  sb_growth :: plan_growth

datatype settlement_result = SettleNone | Settled | Exhausted string allowance

definition budget_for :: "settlement_budget list \<Rightarrow> string \<Rightarrow> settlement_budget option" where
  "budget_for budgets gate = find (\<lambda>b. sb_gate b = gate) (rev budgets)"

text \<open>The loop over the charges: a thrown error, an exhausted allowance, or the next state.\<close>

fun settle_loop ::
  "kickback_ledger \<Rightarrow> settlement_budget list \<Rightarrow> string option \<Rightarrow> (string \<times> pending_gate_charge) list
   \<Rightarrow> (string \<times> gate_entry) list \<Rightarrow> plan_growth_record
   \<Rightarrow> ((string \<times> allowance) + (string \<times> gate_entry) list \<times> plan_growth_record) throws" where
  "settle_loop ledger budgets exceeding [] gates growth = Inr (Inr (gates, growth))"
| "settle_loop ledger budgets exceeding ((gate, charge) # rest) gates growth =
     (case budget_for budgets gate of
        None \<Rightarrow> Inl (''pending repair settlement is missing '' @ [CHR 0x27] @ gate @ [CHR 0x27] @ '' budget'')
      | Some budget \<Rightarrow>
          (case requireReadableGate ledger gate of
             Inl e \<Rightarrow> Inl e
           | Inr _ \<Rightarrow>
               (let current = entry_or_blank (map_of gates gate) in
                if laps_of current + pc_laps charge > sb_lapCap budget then Inr (Inl (gate, AllowLaps))
                else if exceeding = Some gate then Inr (Inl (gate, AllowGrowth))
                else settle_loop ledger budgets exceeding rest
                  (AList.update gate (current\<lparr>ge_laps := Some (laps_of current + pc_laps charge)\<rparr>) gates)
                  (if pc_growth charge > 0
                   then growth\<lparr>pg_added := pg_added growth + pc_growth charge,
                               pg_byGate := AList.update gate
                                 ((case map_of (pg_byGate growth) gate of Some n \<Rightarrow> n | None \<Rightarrow> 0) + pc_growth charge)
                                 (pg_byGate growth)\<rparr>
                   else growth))))"

text \<open>The validation and view of \<open>recordGrowth\<close> with \<^verbatim>\<open>prepareOnly\<close>.\<close>

definition prepareGrowth :: "plan_growth_record \<Rightarrow> int \<Rightarrow> plan_growth throws" where
  "prepareGrowth growth cap =
     (if \<not> isPlanGrowthRecord (growth_json growth) \<or> \<not> growthTotalsAgree growth
      then Inl ''plan growth must have non-negative counts whose gate total equals added''
      else Inr (withRemaining growth cap))"

definition settle_repair_tx ::
  "settlement_budget list \<Rightarrow> (settlement_result \<times> plan_growth option) ledger_tx" where
  "settle_repair_tx budgets ledger =
     (case require_all [requireReadableLedger ledger, requireReadableGrowth ledger] of
        Inl e \<Rightarrow> Inl e
      | Inr _ \<Rightarrow>
     (case kl_pendingRepair ledger of
        None \<Rightarrow> Inr (None, (SettleNone, None))
      | Some repair \<Rightarrow>
     (case (case kl_growth ledger of Some g \<Rightarrow> Some g
            | None \<Rightarrow> (case budgets of b # _ \<Rightarrow> Some (plan_growth_record.truncate (sb_growth b)) | [] \<Rightarrow> None)) of
        None \<Rightarrow> Inl ''pending repair settlement requires a growth budget''
      | Some initialGrowth \<Rightarrow>
     (let charges = pr_charges repair;
          cap = (case charges of [] \<Rightarrow> None
                 | (g, _) # _ \<Rightarrow> map_option sb_growthCap (budget_for budgets g));
          exceeding = Option.bind (projectPendingGrowth (pg_added initialGrowth) (Some charges) cap) gp_exceedingGate
      in case settle_loop ledger budgets exceeding charges (kl_gates ledger) initialGrowth of
           Inl e \<Rightarrow> Inl e
         | Inr (Inl (gate, al)) \<Rightarrow> Inr (None, (Exhausted gate al, None))
         | Inr (Inr (nextGates, nextGrowth)) \<Rightarrow>
             (let growthChanged = list_ex (\<lambda>(_, c). pc_growth c > 0) charges;
                  next = ledger\<lparr>kl_pendingRepair := None, kl_gates := nextGates,
                    kl_growth := (if growthChanged then Some nextGrowth else kl_growth ledger)\<rparr>
              in if growthChanged
                 then (case prepareGrowth nextGrowth (case cap of Some c \<Rightarrow> c | None \<Rightarrow> pg_added nextGrowth) of
                         Inl e \<Rightarrow> Inl e | Inr g \<Rightarrow> Inr (Some next, (Settled, Some g)))
                 else Inr (Some next, (Settled, None)))))))"

definition settlePendingRepair where
  "settlePendingRepair env budgets doc = leased env False (settle_repair_tx budgets) doc"

section \<open>Operator adjustments\<close>

definition record_evidence_tx :: "string \<Rightarrow> cap_evidence \<Rightarrow> gate_entry ledger_tx" where
  "record_evidence_tx gate evidence = guarded (Some gate) (\<lambda>ledger.
     (let next = (entry_or_blank (gate_of ledger gate))\<lparr>ge_capEvidence := Some (evidence\<lparr>ce_gate := gate\<rparr>)\<rparr>
      in Inr (Some (set_gate gate next ledger), next)))"

definition recordKickbackCapEvidence where
  "recordKickbackCapEvidence env child gate evidence doc = leased env child (record_evidence_tx gate evidence) doc"

definition consume_resume_tx :: "string \<Rightarrow> string \<Rightarrow> bool ledger_tx" where
  "consume_resume_tx gate adjustmentId = guarded (Some gate) (\<lambda>ledger.
     (case gate_of ledger gate of
        None \<Rightarrow> Inr (None, False)
      | Some entry \<Rightarrow>
          (case ge_resumeAuthorization entry of
             None \<Rightarrow> Inr (None, False)
           | Some r \<Rightarrow>
               (if ra_adjustmentId r \<noteq> adjustmentId \<or> ra_consumed r then Inr (None, False)
                else Inr (Some (set_gate gate (entry\<lparr>ge_resumeAuthorization := Some (r\<lparr>ra_consumed := True\<rparr>)\<rparr>) ledger),
                          True)))))"

definition consumeKickbackResumeAuthorization where
  "consumeKickbackResumeAuthorization env child gate adjustmentId doc =
     leased env child (consume_resume_tx gate adjustmentId) doc"

definition is_remediation_gate :: "string \<Rightarrow> bool" where
  "is_remediation_gate gate = (gate \<in> set repair_gates)"

definition growth_added :: "kickback_ledger \<Rightarrow> int" where
  "growth_added ledger = (case kl_growth ledger of Some g \<Rightarrow> pg_added g | None \<Rightarrow> 0)"

definition or_else :: "'a option \<Rightarrow> 'a \<Rightarrow> 'a" where
  "or_else x d = (case x of Some v \<Rightarrow> v | None \<Rightarrow> d)"

definition capEvidenceAgreesWithAdjustment ::
  "gate_entry \<Rightarrow> kickback_ledger \<Rightarrow> string \<Rightarrow> budget_adjustment \<Rightarrow> int option \<Rightarrow> bool" where
  "capEvidenceAgreesWithAdjustment entry ledger gate adjustment defaultLimit =
     (case ge_capEvidence entry of
        None \<Rightarrow> False
      | Some evidence \<Rightarrow>
     (if ce_haltGeneration evidence \<noteq> ba_haltGeneration adjustment \<or> ce_gate evidence \<noteq> gate then False
      else (let allow = or_else (ce_allowance evidence) AllowLaps;
                remediation = is_remediation_gate gate;
                growth = (allow = AllowGrowth);
                restack = (allow = AllowRestacks);
                currentConsumed = (if growth then growth_added ledger
                  else if restack then ce_consumed evidence
                  else if remediation then laps_of entry else ge_cumulative entry);
                currentLimit = (if growth then or_else (kl_effectiveGrowthCap ledger) (ce_limit evidence)
                  else if remediation then or_else (ge_effectiveLapCap entry) (ce_limit evidence)
                  else if restack then ce_limit evidence
                  else or_else (ge_effectiveLimit entry) (or_else defaultLimit (ba_beforeLimit adjustment)));
                legacyGrowthEvidence = (\<not> growth \<and> remediation \<and> ce_consumed evidence \<noteq> currentConsumed \<and>
                  map_option pg_added (kl_growth ledger) = Some (ce_consumed evidence))
            in (legacyGrowthEvidence \<or> ce_consumed evidence = currentConsumed) \<and>
               ce_limit evidence = currentLimit \<and>
               ba_beforeConsumed adjustment = currentConsumed \<and> ba_beforeLimit adjustment = currentLimit)))"

definition stale_evidence :: string where
  "stale_evidence = ''current cap evidence is missing or no longer matches the live halt''"

text \<open>The caller's \<^verbatim>\<open>createAdjustment\<close> and live-halt check are arguments.\<close>

definition stage_tx ::
  "string \<Rightarrow> (gate_entry \<Rightarrow> kickback_ledger \<Rightarrow> budget_adjustment throws) \<Rightarrow> budget_adjustment ledger_tx" where
  "stage_tx gate createAdjustment = guarded (Some gate) (\<lambda>ledger.
     (case gate_of ledger gate of
        None \<Rightarrow> Inl stale_evidence
      | Some entry \<Rightarrow>
          (case createAdjustment entry ledger of
             Inl e \<Rightarrow> Inl e
           | Inr adjustment \<Rightarrow>
               (if \<not> capEvidenceAgreesWithAdjustment entry ledger gate adjustment None then Inl stale_evidence
                else (case ge_pendingAdjustment entry of
                  Some p \<Rightarrow>
                    (if ba_id p \<noteq> ba_id adjustment
                     then Inl ''another kickback adjustment is awaiting reconciliation''
                     else Inr (Some (set_gate gate (entry\<lparr>ge_pendingAdjustment := Some adjustment\<rparr>) ledger), adjustment))
                | None \<Rightarrow> Inr (Some (set_gate gate (entry\<lparr>ge_pendingAdjustment := Some adjustment\<rparr>) ledger), adjustment))))))"

definition stageKickbackBudgetAdjustment where
  "stageKickbackBudgetAdjustment env child gate verifyLiveHalt createAdjustment doc =
     leased env child (\<lambda>ledger. case verifyLiveHalt of
        Some e \<Rightarrow> Inl e | None \<Rightarrow> stage_tx gate createAdjustment ledger) doc"

definition discard_stage_tx :: "string \<Rightarrow> string \<Rightarrow> bool ledger_tx" where
  "discard_stage_tx gate adjustmentId = guarded (Some gate) (\<lambda>ledger.
     (case gate_of ledger gate of
        None \<Rightarrow> Inr (None, False)
      | Some entry \<Rightarrow>
          (case ge_pendingAdjustment entry of
             None \<Rightarrow> Inr (None, False)
           | Some p \<Rightarrow>
               (if ba_id p \<noteq> adjustmentId then Inr (None, False)
                else Inr (Some (set_gate gate (entry\<lparr>ge_pendingAdjustment := None\<rparr>) ledger), True)))))"

definition discardPendingKickbackBudgetAdjustment where
  "discardPendingKickbackBudgetAdjustment env child gate adjustmentId doc =
     leased env child (discard_stage_tx gate adjustmentId) doc"

definition apply_adjustment_tx :: "string \<Rightarrow> budget_adjustment \<Rightarrow> int \<Rightarrow> gate_entry ledger_tx" where
  "apply_adjustment_tx gate adjustment defaultLimit = guarded (Some gate) (\<lambda>ledger.
     (case gate_of ledger gate of
        None \<Rightarrow> Inl stale_evidence
      | Some entry \<Rightarrow>
     (if \<not> capEvidenceAgreesWithAdjustment entry ledger gate adjustment (Some defaultLimit)
      then Inl stale_evidence
      else if list_ex (\<lambda>i. ba_id i = ba_id adjustment) (or_else (ge_adjustments entry) [])
      then Inr (None, entry)
      else if (case ge_pendingAdjustment entry of Some p \<Rightarrow> ba_id p \<noteq> ba_id adjustment | None \<Rightarrow> False)
      then Inl ''staged adjustment does not match the requested authorization''
      else (let evidence = the (ge_capEvidence entry);
                allow = or_else (ce_allowance evidence) AllowLaps;
                remediation = is_remediation_gate gate;
                growth = (allow = AllowGrowth);
                restack = (allow = AllowRestacks);
                beforeLimit = (if growth then or_else (kl_effectiveGrowthCap ledger) (ce_limit evidence)
                  else if remediation then or_else (ge_effectiveLapCap entry) (ce_limit evidence)
                  else if restack then ce_limit evidence else or_else (ge_effectiveLimit entry) defaultLimit);
                beforeConsumed = (if growth then growth_added ledger
                  else if restack then ce_consumed evidence
                  else if remediation then laps_of entry else ge_cumulative entry);
                reset = (ba_kind adjustment = ResetCount);
                raised = (if ba_kind adjustment = RaiseLimit then ba_afterLimit adjustment else beforeLimit);
                budgeted = (if growth \<or> restack then entry
                  else if remediation
                  then entry\<lparr>ge_effectiveLapCap := Some raised, ge_laps := Some (if reset then 0 else laps_of entry)\<rparr>
                  else entry\<lparr>ge_effectiveLimit := Some raised,
                             ge_cumulative := (if reset then 0 else ge_cumulative entry)\<rparr>);
                next = budgeted\<lparr>
                  ge_adjustmentsKnown := True,
                  ge_adjustments := Some (or_else (ge_adjustments entry) [] @
                    [adjustment\<lparr>ba_beforeLimit := beforeLimit, ba_beforeConsumed := beforeConsumed,
                       ba_afterLimit := raised, ba_afterConsumed := (if reset then 0 else beforeConsumed)\<rparr>]),
                  ge_pendingAdjustment := None,
                  ge_resumeAuthorization := Some \<lparr>ra_adjustmentId = ba_id adjustment,
                    ra_haltGeneration = ba_haltGeneration adjustment, ra_consumed = False\<rparr>\<rparr>;
                ledger1 = (if growth then ledger\<lparr>kl_effectiveGrowthCap := Some raised\<rparr> else ledger)
            in Inr (Some (set_gate gate next ledger1), next)))))"

definition applyKickbackBudgetAdjustment where
  "applyKickbackBudgetAdjustment env child gate adjustment defaultLimit doc =
     leased env child (apply_adjustment_tx gate adjustment defaultLimit) doc"

section \<open>Growth accounting\<close>

text \<open>
  The growth derived from the active plan (a file read) is an argument: its record, and whether
  the plan resolved.
\<close>

definition accounting :: "plan_growth_record \<Rightarrow> int \<Rightarrow> authored_source \<Rightarrow> plan_growth \<times> authored_source" where
  "accounting g cap src = (withRemaining g cap, src)"

definition reconcileFlatGrowth ::
  "int \<Rightarrow> bool \<Rightarrow> bool \<Rightarrow> bool \<Rightarrow> plan_growth_record \<times> bool \<Rightarrow> (plan_growth \<times> authored_source) ledger_tx" where
  "reconcileFlatGrowth cap persist pendingGrowth configurationUnavailable derived ledger =
     (let (derivedGrowth, resolved) = derived; stored = kl_growth ledger;
          source = (if resolved then FromPlan else if stored \<noteq> None then FromLedger else Unresolved) in
      if configurationUnavailable
      then Inr (None, accounting (or_else stored (growth_of 0 0 [])) cap Unresolved)
      else (case stored of
        None \<Rightarrow> Inr (None, accounting derivedGrowth cap source)
      | Some s \<Rightarrow>
          (let matchesPlan = (\<not> resolved \<or>
                 (if pendingGrowth then pg_authored s = pg_authored derivedGrowth
                  else pg_authored s + pg_added s = pg_authored derivedGrowth)) in
           if growthTotalsAgree s \<and> matchesPlan then Inr (None, accounting s cap source)
           else if growthTotalsAgree s \<and> resolved
           then (let r = growth_of (max 0 (pg_authored derivedGrowth - pg_added s)) (pg_added s) (pg_byGate s)
                 in Inr (if persist then Some (ledger\<lparr>kl_growth := Some r\<rparr>) else None, accounting r cap source))
           else Inr (if persist then Some (ledger\<lparr>kl_growth := Some derivedGrowth\<rparr>) else None,
                     accounting derivedGrowth cap source))))"

definition denominator_message :: "int \<Rightarrow> string \<Rightarrow> int \<Rightarrow> string" where
  "denominator_message a what b =
     ''stored authored denominator '' @ int_str a @ '' disagrees with '' @ what @ '' denominator '' @ int_str b"

definition reconcileRoutedGrowth ::
  "int \<Rightarrow> bool \<Rightarrow> int option \<Rightarrow> plan_growth_record \<times> bool \<Rightarrow> plan_growth_record \<times> bool
   \<Rightarrow> (plan_growth \<times> authored_source) ledger_tx" where
  "reconcileRoutedGrowth cap persist sealedAuthored derived derivedWithFlatPending ledger =
     (let stored = kl_growth ledger in
      case sealedAuthored of
        Some sealed \<Rightarrow>
          (case stored of
             Some s \<Rightarrow> (if \<not> growthTotalsAgree s \<or> pg_authored s \<noteq> sealed
                then Inl (denominator_message (pg_authored s) ''routed sealed'' sealed)
                else Inr (None, accounting s cap FromLedger))
           | None \<Rightarrow> (let g = growth_of sealed 0 []
                     in Inr (if persist then Some (ledger\<lparr>kl_growth := Some g\<rparr>) else None, accounting g cap FromPlan)))
      | None \<Rightarrow>
          (let (dg, resolved) = derived; (fg, fresolved) = derivedWithFlatPending;
               source = (if resolved then FromPlan else if stored \<noteq> None then FromLedger else Unresolved) in
           case stored of
             None \<Rightarrow> Inr (if persist \<and> resolved then Some (ledger\<lparr>kl_growth := Some dg\<rparr>) else None,
                         accounting dg cap source)
           | Some s \<Rightarrow>
               (if pg_authored s = 0 \<and> resolved \<and> pg_authored dg > 0
                then Inl (denominator_message 0 ''sealed plan'' (pg_authored dg))
                else (let expected = pg_authored s; legacy = pg_authored s + pg_added s;
                          matchesPlan = (\<not> resolved \<or> expected = pg_authored dg \<or> legacy = pg_authored dg \<or>
                            (fresolved \<and> (expected = pg_authored fg \<or> legacy = pg_authored fg))) in
                  if growthTotalsAgree s \<and> matchesPlan then Inr (None, accounting s cap source)
                  else if growthTotalsAgree s \<and> resolved \<and> \<not> matchesPlan
                  then Inl (denominator_message (pg_authored s) ''sealed plan'' (pg_authored dg))
                  else Inr (if persist then Some (ledger\<lparr>kl_growth := Some dg\<rparr>) else None,
                            accounting dg cap source)))))"

definition has_pending_growth :: "kickback_ledger \<Rightarrow> bool" where
  "has_pending_growth ledger =
     (case kl_pendingRepair ledger of None \<Rightarrow> False
      | Some r \<Rightarrow> list_ex (\<lambda>(_, c). pc_growth c > 0) (pr_charges r))"

definition record_growth_tx :: "plan_growth_record \<Rightarrow> int \<Rightarrow> plan_growth ledger_tx" where
  "record_growth_tx growth cap ledger =
     (case require_all [requireReadableLedger ledger, requireReadableGrowth ledger] of
        Inl e \<Rightarrow> Inl e
      | Inr _ \<Rightarrow> Inr (Some (ledger\<lparr>kl_growth := Some growth\<rparr>), withRemaining growth cap))"

definition recordGrowth ::
  "ledger_env \<Rightarrow> plan_growth_record \<Rightarrow> int option \<Rightarrow> ledger_doc \<Rightarrow> ledger_doc \<times> plan_growth throws" where
  "recordGrowth env growth cap doc =
     (if \<not> isPlanGrowthRecord (growth_json growth) \<or> \<not> growthTotalsAgree growth
      then (doc, Inl ''plan growth must have non-negative counts whose gate total equals added'')
      else leased env False (record_growth_tx growth (or_else cap (pg_added growth))) doc)"

end
