(* ===== verification/KickbackLaws.thy ===== *)
theory KickbackLaws
  imports KickbackStore
begin

text \<open>
  Laws of the kickback ledger: what is written reads back as it was, transactions on a readable
  ledger compose, and healthy writes carry unreadable siblings over.
\<close>

section \<open>Field lookups\<close>

declare map_of_append [simp del]

lemma map_of_opt_field [simp]:
  "map_of (opt_field k f x @ ys) k' = (if k' = k \<and> x \<noteq> None then map_option f x else map_of ys k')"
  by (auto simp: opt_field_def split: option.splits)

lemma map_of_opt_field_end [simp]:
  "map_of (opt_field k f x) k' = (if k' = k then map_option f x else None)"
  by (auto simp: opt_field_def split: option.splits)

lemma map_of_flag_field [simp]:
  "map_of (flag_field k b @ ys) k' = (if k' = k \<and> b then Some (JBool True) else map_of ys k')"
  by (auto simp: flag_field_def)

lemma map_of_flag_field_end [simp]:
  "map_of (flag_field k b) k' = (if k' = k \<and> b then Some (JBool True) else None)"
  by (auto simp: flag_field_def)

lemma if_Some_map [simp]: "(if x \<noteq> None then map_option f x else None) = map_option f x"
  by (cases x) auto

lemma is_some_map [simp]: "(if \<exists>y. x = Some y then map_option f x else None) = map_option f x"
  by (cases x) auto

lemma gate_entry_lookup [simp]:
  "map_of (gate_entry_fields e) ''count'' = Some (JNum (ge_count e))"
  "map_of (gate_entry_fields e) ''cumulative'' = Some (JNum (ge_cumulative e))"
  "map_of (gate_entry_fields e) ''laps'' = map_option JNum (ge_laps e)"
  "map_of (gate_entry_fields e) ''chargedEffectIds'' = map_option strings_json (ge_chargedEffectIds e)"
  "map_of (gate_entry_fields e) ''mechanicalFaults'' = map_option JNum (ge_mechanicalFaults e)"
  "map_of (gate_entry_fields e) ''suiteInfrastructureRetries'' = map_option JNum (ge_suiteInfrastructureRetries e)"
  "map_of (gate_entry_fields e) ''lastMechanicalFault'' = map_option fault_json (ge_lastMechanicalFault e)"
  "map_of (gate_entry_fields e) ''effectiveLimit'' = map_option JNum (ge_effectiveLimit e)"
  "map_of (gate_entry_fields e) ''effectiveLapCap'' = map_option JNum (ge_effectiveLapCap e)"
  "map_of (gate_entry_fields e) ''adjustments'' = map_option (\<lambda>as. JArr (map adjustment_json as)) (ge_adjustments e)"
  "map_of (gate_entry_fields e) ''adjustmentsKnown'' = (if ge_adjustmentsKnown e then Some (JBool True) else None)"
  "map_of (gate_entry_fields e) ''adjustmentsUnavailable'' =
     (if ge_adjustmentsUnavailable e then Some (JBool True) else None)"
  "map_of (gate_entry_fields e) ''pendingAdjustment'' = map_option adjustment_json (ge_pendingAdjustment e)"
  "map_of (gate_entry_fields e) ''capEvidence'' = map_option cap_evidence_json (ge_capEvidence e)"
  "map_of (gate_entry_fields e) ''resumeAuthorization'' = map_option resume_json (ge_resumeAuthorization e)"
  "map_of (gate_entry_fields e) ''treeHash'' = Some (case ge_treeHash e of None \<Rightarrow> JNull | Some h \<Rightarrow> JStr h)"
  "map_of (gate_entry_fields e) ''lastReason'' = Some (JStr (ge_lastReason e))"
  "map_of (gate_entry_fields e) ''priorVerdict'' = Some (JBool (ge_priorVerdict e))"
  "map_of (gate_entry_fields e) ''resolvedBefore'' = Some (JNum (ge_resolvedBefore e))"
  by (simp_all add: gate_entry_fields_def)

lemma ledger_lookup [simp]:
  "map_of (ledger_fields l) ''version'' = Some (JNum 1)"
  "map_of (ledger_fields l) ''gates'' =
     Some (JObj (map (\<lambda>(g, e). (g, JObj (gate_entry_fields e))) (kl_gates l)))"
  "map_of (ledger_fields l) ''growth'' = map_option growth_json (kl_growth l)"
  "map_of (ledger_fields l) ''effectiveGrowthCap'' = map_option JNum (kl_effectiveGrowthCap l)"
  "map_of (ledger_fields l) ''pendingAsBuiltRemediationFindings'' = map_option JArr (kl_pendingFindings l)"
  "map_of (ledger_fields l) ''pendingRepair'' = map_option repair_json (kl_pendingRepair l)"
  "map_of (ledger_fields l) ''settlementReceipts'' = map_option
     (\<lambda>rs. JObj (map (\<lambda>(k, gs). (k, JObj [(''gates'', strings_json gs)])) rs)) (kl_settlementReceipts l)"
  "map_of (ledger_fields l) ''convergenceCreditReceipts'' = map_option
     (\<lambda>ids. JObj (map (\<lambda>i. (i, JObj [(''gate'', JStr ''build_review'')])) ids)) (kl_convergenceCreditReceipts l)"
  "map_of (ledger_fields l) ''routedRepairCredit'' = map_option credit_json (kl_routedRepairCredit l)"
  by (simp_all add: ledger_fields_def)

section \<open>Reading back one record\<close>

lemma strings_of_json [simp]: "strings_of (strings_json ss) = ss"
  by (simp add: strings_json_def comp_def)

lemma text_of_Some [simp]: "jget v k = Some (JStr s) \<Longrightarrow> text_of v k = s"
  by (simp add: text_of_def jstring_def)

lemma int_of_Some [simp]: "jget v k = Some (JNum n) \<Longrightarrow> int_of v k = n"
  by (simp add: int_of_def jint_def)

lemma jint_map [simp]: "jget v k = map_option JNum x \<Longrightarrow> jint v k = x"
  by (cases x) (simp_all add: jint_def)

lemma fault_of_json [simp]: "fault_of (fault_json f) = f"
  by (simp add: fault_of_def fault_json_def)

lemma allowance_of_json: "jget v ''allowance'' = map_option allowance_json x \<Longrightarrow> allowance_of v = x"
  by (cases x; cases "the x") (auto simp: allowance_of_def jstring_def)

lemma adjustment_of_json [simp]: "adjustment_of (adjustment_json a) = a"
  by (cases a) (auto simp: adjustment_of_def adjustment_json_def allowance_of_json split: adjustment_kind.splits)

lemma cap_evidence_of_json [simp]: "cap_evidence_of (cap_evidence_json c) = c"
  by (simp add: cap_evidence_of_def cap_evidence_json_def allowance_of_json)

lemma resume_of_json [simp]: "resume_of (resume_json r) = r"
  by (simp add: resume_of_def resume_json_def jflag_def)

lemma growth_record_of_json [simp]: "growth_record_of (growth_json g) = g"
  by (simp add: growth_record_of_def growth_json_def growth_of_def comp_def split_def)

lemma charge_surj: "\<lparr>pc_laps = pc_laps c, pc_growth = pc_growth c\<rparr> = c"
  by simp

lemma pending_repair_of_json [simp]: "pending_repair_of (repair_json r) = r"
  by (cases r) (auto simp: pending_repair_of_def repair_json_def charge_json_def comp_def split_def
      option.map_comp option.map_ident charge_surj)

section \<open>Well-formed ledgers\<close>

text \<open>
  A well-formed entry passes the engine's own validator; a well-formed ledger has such entries,
  one per gate, and valid ledger-level records. A read fills in what older records lack:
  \<open>norm_ledger\<close> is the ledger as the next read returns it.
\<close>

definition wf_entry :: "gate_entry \<Rightarrow> bool" where
  "wf_entry e = isKickbackGateEntry (JObj (gate_entry_fields e))"

definition norm_evidence :: "cap_evidence \<Rightarrow> cap_evidence" where
  "norm_evidence c = c\<lparr>ce_allowance := Some (or_else (ce_allowance c) AllowLaps)\<rparr>"

definition norm_entry :: "string \<Rightarrow> gate_entry \<Rightarrow> gate_entry" where
  "norm_entry gate e =
     e\<lparr>ge_chargedEffectIds := (case ge_chargedEffectIds e of Some ids \<Rightarrow> Some ids
         | None \<Rightarrow> (if gate = ''build_review'' then Some [] else None)),
       ge_mechanicalFaults := Some (or_else (ge_mechanicalFaults e) 0),
       ge_capEvidence := map_option norm_evidence (ge_capEvidence e)\<rparr>"

definition norm_ledger :: "kickback_ledger \<Rightarrow> kickback_ledger" where
  "norm_ledger l = l\<lparr>kl_gates := map (\<lambda>(g, e). (g, norm_entry g e)) (kl_gates l)\<rparr>"

definition wf_ledger :: "kickback_ledger \<Rightarrow> bool" where
  "wf_ledger l =
     (list_all (\<lambda>(g, e). wf_entry e) (kl_gates l) \<and> distinct (map fst (kl_gates l)) \<and>
      \<not> kl_unreadable l \<and> kl_unreadableGates l = None \<and> \<not> kl_unreadableGrowth l \<and>
      (\<forall>g. kl_growth l = Some g \<longrightarrow> isPlanGrowthRecord (growth_json g)) \<and>
      (\<forall>c. kl_effectiveGrowthCap l = Some c \<longrightarrow> isPositiveSafeInteger (JNum c)) \<and>
      (\<forall>fs. kl_pendingFindings l = Some fs \<longrightarrow> isPendingAsBuiltRemediationFindings (JArr fs)) \<and>
      (\<forall>r. kl_pendingRepair l = Some r \<longrightarrow> isPendingRepair (repair_json r)) \<and>
      (\<forall>rs. kl_settlementReceipts l = Some rs \<longrightarrow>
         list_all (\<lambda>(k, gs). \<not> blank k \<and> list_all (\<lambda>g. \<not> blank g) gs) rs) \<and>
      (\<forall>ids. kl_convergenceCreditReceipts l = Some ids \<longrightarrow> list_all (\<lambda>i. \<not> blank i) ids) \<and>
      (\<forall>c. kl_routedRepairCredit l = Some c \<longrightarrow> isRoutedRepairCredit (credit_json c)))"

lemma alist_update_same: "map_of kvs k = Some v \<Longrightarrow> AList.update k v kvs = kvs"
  by (induction kvs) (auto split: if_splits)

lemma opt_written: "jget v k = map_option f x \<Longrightarrow> opt v k P = (\<forall>y. x = Some y \<longrightarrow> P (f y))"
  by (cases x) (auto simp: opt_def)

lemma opt_field_written:
  "opt (JObj (gate_entry_fields e)) ''laps'' P = (\<forall>y. ge_laps e = Some y \<longrightarrow> P (JNum y))"
  "opt (JObj (gate_entry_fields e)) ''cumulative'' P = P (JNum (ge_cumulative e))"
  "opt (JObj (gate_entry_fields e)) ''chargedEffectIds'' P = (\<forall>y. ge_chargedEffectIds e = Some y \<longrightarrow> P (strings_json y))"
  "opt (JObj (gate_entry_fields e)) ''mechanicalFaults'' P = (\<forall>y. ge_mechanicalFaults e = Some y \<longrightarrow> P (JNum y))"
  "opt (JObj (gate_entry_fields e)) ''suiteInfrastructureRetries'' P =
     (\<forall>y. ge_suiteInfrastructureRetries e = Some y \<longrightarrow> P (JNum y))"
  "opt (JObj (gate_entry_fields e)) ''lastMechanicalFault'' P = (\<forall>y. ge_lastMechanicalFault e = Some y \<longrightarrow> P (fault_json y))"
  "opt (JObj (gate_entry_fields e)) ''effectiveLimit'' P = (\<forall>y. ge_effectiveLimit e = Some y \<longrightarrow> P (JNum y))"
  "opt (JObj (gate_entry_fields e)) ''effectiveLapCap'' P = (\<forall>y. ge_effectiveLapCap e = Some y \<longrightarrow> P (JNum y))"
  "opt (JObj (gate_entry_fields e)) ''adjustments'' P =
     (\<forall>y. ge_adjustments e = Some y \<longrightarrow> P (JArr (map adjustment_json y)))"
  "opt (JObj (gate_entry_fields e)) ''pendingAdjustment'' P = (\<forall>y. ge_pendingAdjustment e = Some y \<longrightarrow> P (adjustment_json y))"
  "opt (JObj (gate_entry_fields e)) ''capEvidence'' P = (\<forall>y. ge_capEvidence e = Some y \<longrightarrow> P (cap_evidence_json y))"
  "opt (JObj (gate_entry_fields e)) ''resumeAuthorization'' P =
     (\<forall>y. ge_resumeAuthorization e = Some y \<longrightarrow> P (resume_json y))"
  by (simp_all add: opt_written) (simp add: opt_def)

text \<open>The validator of a written entry, in terms of its typed fields.\<close>

lemma wf_entry_fields:
  "wf_entry e \<longleftrightarrow>
     (\<forall>n. ge_laps e = Some n \<longrightarrow> nonneg_safe n) \<and>
     (\<forall>ids. ge_chargedEffectIds e = Some ids \<longrightarrow> list_all (\<lambda>i. \<not> blank i) ids \<and> distinct ids) \<and>
     (\<forall>n. ge_mechanicalFaults e = Some n \<longrightarrow> 0 \<le> n) \<and>
     (\<forall>n. ge_suiteInfrastructureRetries e = Some n \<longrightarrow> nonneg_safe n) \<and>
     (\<forall>f. ge_lastMechanicalFault e = Some f \<longrightarrow> isLastMechanicalFault (fault_json f)) \<and>
     (\<forall>n. ge_effectiveLimit e = Some n \<longrightarrow> 0 < n \<and> n \<le> MAX_SAFE_INTEGER) \<and>
     (\<forall>n. ge_effectiveLapCap e = Some n \<longrightarrow> 0 < n \<and> n \<le> MAX_SAFE_INTEGER) \<and>
     (\<forall>as. ge_adjustments e = Some as \<longrightarrow> list_all (\<lambda>a. isBudgetAdjustment (adjustment_json a)) as) \<and>
     (\<forall>a. ge_pendingAdjustment e = Some a \<longrightarrow> isBudgetAdjustment (adjustment_json a)) \<and>
     (\<forall>c. ge_capEvidence e = Some c \<longrightarrow> isCapEvidence (cap_evidence_json c)) \<and>
     (\<forall>r. ge_resumeAuthorization e = Some r \<longrightarrow> isResumeAuthorization (resume_json r))"
proof -
  have ids: "isChargedEffectIds (strings_json ids) \<longleftrightarrow> list_all (\<lambda>i. \<not> blank i) ids \<and> distinct ids" for ids
  proof -
    have "filter primitive (map JStr ids) = map JStr ids" by (simp add: filter_id_conv)
    then have "set_size (map JStr ids) = length ids \<longleftrightarrow> distinct ids"
      using set_size_full [of "map JStr ids"] by (simp add: distinct_map inj_on_def)
    then show ?thesis
      by (auto simp: isChargedEffectIds_def strings_json_def list_all_iff)
  qed
  have th: "is_string (case ge_treeHash e of None \<Rightarrow> JNull | Some h \<Rightarrow> JStr h) \<or>
      (case ge_treeHash e of None \<Rightarrow> JNull | Some h \<Rightarrow> JStr h) = JNull"
    by (cases "ge_treeHash e") auto
  show ?thesis
    unfolding wf_entry_def isKickbackGateEntry_def opt_field_written ids
    by (simp add: req_def list_all_iff th conj_ac)
qed

lemma isCapEvidence_norm: "isCapEvidence (cap_evidence_json c) \<Longrightarrow> isCapEvidence (cap_evidence_json (norm_evidence c))"
  by (cases "ce_allowance c")
     (auto simp: isCapEvidence_def cap_evidence_json_def norm_evidence_def req_def opt_def or_else_def
        is_allowance_def one_of_def)

lemma wf_norm_entry: "wf_entry e \<Longrightarrow> wf_entry (norm_entry g e)"
  by (auto simp: wf_entry_fields norm_entry_def or_else_def isCapEvidence_norm split: option.splits)

text \<open>The normalization of a written entry changes its cap evidence only.\<close>

lemma normalize_written:
  assumes "wf_entry e"
  shows "normalizeKickbackGateEntry (JObj (gate_entry_fields e)) =
     Inr (Some (JObj (gate_entry_fields (e\<lparr>ge_capEvidence := map_option norm_evidence (ge_capEvidence e)\<rparr>))))"
proof -
  let ?e' = "e\<lparr>ge_capEvidence := map_option norm_evidence (ge_capEvidence e)\<rparr>"
  have v: "isKickbackGateEntry (JObj (gate_entry_fields ?e'))"
    using assms unfolding wf_entry_def [symmetric] by (auto simp: wf_entry_fields isCapEvidence_norm)
  have h: "opt (JObj (gate_entry_fields e)) ''adjustments'' (array_all isBudgetAdjustment)"
    using assms by (simp add: wf_entry_def isKickbackGateEntry_def)
  show ?thesis
  proof (cases "ge_capEvidence e")
    case None
    then have eq: "?e' = e" by (cases e) simp
    show ?thesis unfolding eq using v [unfolded eq] h None by (simp add: normalizeKickbackGateEntry_def Let_def)
  next
    case (Some c)
    have ev: "JObj (AList.update ''allowance''
          (case jget (cap_evidence_json c) ''allowance'' of
             None \<Rightarrow> JStr ''laps'' | Some JNull \<Rightarrow> JStr ''laps'' | Some a \<Rightarrow> a)
          (object_spread (cap_evidence_json c))) = cap_evidence_json (norm_evidence c)"
    proof (cases "ce_allowance c")
      case None
      then show ?thesis
        by (simp add: cap_evidence_json_def norm_evidence_def or_else_def object_spread_def opt_field_def)
    next
      case al: (Some al)
      then have "norm_evidence c = c" by (simp add: norm_evidence_def or_else_def)
      then show ?thesis using al
        by (cases al) (simp_all add: cap_evidence_json_def object_spread_def opt_field_def)
    qed
    have upd: "AList.update ''capEvidence'' (cap_evidence_json (norm_evidence c)) (gate_entry_fields e) =
        gate_entry_fields ?e'"
    proof -
      have app: "AList.update k v (xs @ (k, w) # ys) = xs @ (k, v) # ys" if "k \<notin> fst ` set xs"
        for k and v w :: jval and xs ys using that by (induction xs) auto
      have nin: "k \<noteq> k' \<Longrightarrow> k \<notin> fst ` set (opt_field k' f x)" for k k' x and f :: "'x \<Rightarrow> jval"
        by (auto simp: opt_field_def split: option.splits)
      have nfl: "k \<noteq> k' \<Longrightarrow> k \<notin> fst ` set (flag_field k' b)" for k k' b
        by (auto simp: flag_field_def)
      have one: "opt_field ''capEvidence'' cap_evidence_json (Some x) = [(''capEvidence'', cap_evidence_json x)]" for x
        by (simp add: opt_field_def)
      obtain xs ys where xy: "gate_entry_fields e = xs @ (''capEvidence'', cap_evidence_json c) # ys"
        "gate_entry_fields ?e' = xs @ (''capEvidence'', cap_evidence_json (norm_evidence c)) # ys"
        "''capEvidence'' \<notin> fst ` set xs"
      proof
        let ?xs = "[(''count'', JNum (ge_count e)), (''cumulative'', JNum (ge_cumulative e))]
          @ opt_field ''laps'' JNum (ge_laps e)
          @ opt_field ''chargedEffectIds'' strings_json (ge_chargedEffectIds e)
          @ opt_field ''mechanicalFaults'' JNum (ge_mechanicalFaults e)
          @ opt_field ''suiteInfrastructureRetries'' JNum (ge_suiteInfrastructureRetries e)
          @ opt_field ''lastMechanicalFault'' fault_json (ge_lastMechanicalFault e)
          @ opt_field ''effectiveLimit'' JNum (ge_effectiveLimit e)
          @ opt_field ''effectiveLapCap'' JNum (ge_effectiveLapCap e)
          @ opt_field ''adjustments'' (\<lambda>as. JArr (map adjustment_json as)) (ge_adjustments e)
          @ flag_field ''adjustmentsKnown'' (ge_adjustmentsKnown e)
          @ flag_field ''adjustmentsUnavailable'' (ge_adjustmentsUnavailable e)
          @ opt_field ''pendingAdjustment'' adjustment_json (ge_pendingAdjustment e)"
        let ?ys = "opt_field ''resumeAuthorization'' resume_json (ge_resumeAuthorization e)
          @ [(''treeHash'', (case ge_treeHash e of None \<Rightarrow> JNull | Some h \<Rightarrow> JStr h)),
            (''lastReason'', JStr (ge_lastReason e)), (''priorVerdict'', JBool (ge_priorVerdict e)),
            (''resolvedBefore'', JNum (ge_resolvedBefore e))]"
        show "gate_entry_fields e = ?xs @ (''capEvidence'', cap_evidence_json c) # ?ys"
          by (simp add: gate_entry_fields_def Some one)
        show "gate_entry_fields ?e' = ?xs @ (''capEvidence'', cap_evidence_json (norm_evidence c)) # ?ys"
          by (simp add: gate_entry_fields_def Some one)
        show "''capEvidence'' \<notin> fst ` set ?xs"
          by (simp add: image_Un nin nfl)
      qed
      show ?thesis unfolding xy(1,2) by (rule app [OF xy(3)])
    qed
    have nn: "cap_evidence_json c \<noteq> JNull" by (simp add: cap_evidence_json_def)
    have "normalizeKickbackGateEntry (JObj (gate_entry_fields e)) =
        Inr (if isKickbackGateEntry (JObj (gate_entry_fields ?e'))
             then Some (JObj (gate_entry_fields ?e')) else None)"
      unfolding normalizeKickbackGateEntry_def Let_def
      using h nn Some ev upd by simp
    then show ?thesis using v by simp
  qed
qed

lemma gate_entry_of_json:
  "gate_entry_of gate (JObj (gate_entry_fields (e\<lparr>ge_capEvidence := map_option norm_evidence (ge_capEvidence e)\<rparr>))) =
     norm_entry gate e"
  by (cases e) (auto simp: gate_entry_of_def norm_entry_def jflag_def int_of_def jint_def jstring_def
      comp_def or_else_def option.map_comp option.map_ident split: option.splits)

lemma parse_gates_written:
  "list_all (\<lambda>(g, e). wf_entry e) gs \<Longrightarrow>
     parse_gates (map (\<lambda>(g, e). (g, JObj (gate_entry_fields e))) gs) =
       Inr (map (\<lambda>(g, e). (g, norm_entry g e)) gs, [])"
  by (induction gs) (auto simp: normalize_written gate_entry_of_json)

text \<open>The round trip of the whole document.\<close>

lemma parse_written:
  assumes "wf_ledger l"
  shows "parseKickbackLedger (JObj (ledger_fields l)) = Inr (Some (norm_ledger l))"
proof -
  have gates: "parse_gates (map (\<lambda>(g, e). (g, JObj (gate_entry_fields e))) (kl_gates l)) =
      Inr (kl_gates (norm_ledger l), [])"
    using assms parse_gates_written by (simp add: wf_ledger_def norm_ledger_def)
  have opts: "opt (JObj (ledger_fields l)) ''growth'' isPlanGrowthRecord"
    "opt (JObj (ledger_fields l)) ''effectiveGrowthCap'' isPositiveSafeInteger"
    "opt (JObj (ledger_fields l)) ''pendingAsBuiltRemediationFindings'' isPendingAsBuiltRemediationFindings"
    "opt (JObj (ledger_fields l)) ''pendingRepair'' isPendingRepair"
    "opt (JObj (ledger_fields l)) ''convergenceCreditReceipts'' isConvergenceReceipts"
    "opt (JObj (ledger_fields l)) ''routedRepairCredit'' isRoutedRepairCredit"
    using assms
    by (auto simp: opt_def wf_ledger_def isConvergenceReceipts_def list_all_iff split: option.splits)
  have receipts: "(case jget (JObj (ledger_fields l)) ''settlementReceipts'' of None \<Rightarrow> None
      | Some r \<Rightarrow> if isSettlementReceipts r
          then Some (map (\<lambda>(k, v). (k, strings_of (the (jget v ''gates'')))) (entries_of r)) else None) =
      kl_settlementReceipts l"
  proof (cases "kl_settlementReceipts l")
    case (Some rs)
    then have "isSettlementReceipts (JObj (map (\<lambda>(k, gs). (k, JObj [(''gates'', strings_json gs)])) rs))"
      using assms by (auto simp: wf_ledger_def isSettlementReceipts_def req_def list_all_iff strings_json_def)
    with Some show ?thesis by (simp add: comp_def split_def)
  qed simp
  have conv: "map_option (\<lambda>r. map fst (entries_of r)) (jget (JObj (ledger_fields l)) ''convergenceCreditReceipts'') =
      kl_convergenceCreditReceipts l"
    by (simp add: option.map_comp comp_def option.map_ident)
  have cred: "map_option (\<lambda>c. \<lparr>rc_roundId = text_of c ''roundId'', rc_consumed = jflag c ''consumed''\<rparr>)
      (jget (JObj (ledger_fields l)) ''routedRepairCredit'') = kl_routedRepairCredit l"
    by (cases "kl_routedRepairCredit l") (simp_all add: credit_json_def jflag_def)
  have rest: "map_option growth_record_of (jget (JObj (ledger_fields l)) ''growth'') = kl_growth l"
    "jint (JObj (ledger_fields l)) ''effectiveGrowthCap'' = kl_effectiveGrowthCap l"
    "map_option elems_of (jget (JObj (ledger_fields l)) ''pendingAsBuiltRemediationFindings'') = kl_pendingFindings l"
    "map_option pending_repair_of (jget (JObj (ledger_fields l)) ''pendingRepair'') = kl_pendingRepair l"
    by (simp_all add: option.map_comp comp_def option.map_ident)
  have "parseKickbackLedger (JObj (ledger_fields l)) = Inr (Some (emptyLedger\<lparr>
      kl_gates := kl_gates (norm_ledger l), kl_growth := kl_growth l, kl_effectiveGrowthCap := kl_effectiveGrowthCap l,
      kl_pendingFindings := kl_pendingFindings l, kl_pendingRepair := kl_pendingRepair l,
      kl_settlementReceipts := kl_settlementReceipts l,
      kl_convergenceCreditReceipts := kl_convergenceCreditReceipts l,
      kl_routedRepairCredit := kl_routedRepairCredit l\<rparr>))"
    unfolding parseKickbackLedger_def receipts conv cred rest
    using gates opts by (simp add: req_def)
  also have "\<dots> = Inr (Some (norm_ledger l))"
    using assms by (cases l) (simp add: emptyLedger_def wf_ledger_def norm_ledger_def)
  finally show ?thesis .
qed

section \<open>Writing over a readable ledger\<close>

text \<open>A document that reads without any unreadable part, or no document at all.\<close>

definition readable_doc :: "ledger_doc \<Rightarrow> bool" where
  "readable_doc doc = (doc = LedgerAbsent \<or>
     (\<exists>v. doc = LedgerJson v \<and> \<not> kl_unreadable (readKickbackLedger doc)))"

lemma parse_gates_no_bad:
  "parse_gates raw = Inr (gs, []) \<Longrightarrow> unreadable_raw_gates written raw = Inr []"
  by (induction raw arbitrary: gs) (auto split: sum.splits option.splits simp: map_sum_Inr_iff)

lemma kl_unreadable_unreadableLedger [simp]: "kl_unreadable (unreadableLedger g u b)"
  by (simp add: unreadableLedger_def)

lemma readable_parse:
  assumes "\<not> kl_unreadable (readKickbackLedger (LedgerJson v))"
  obtains gs where "is_object v" "req v ''gates'' is_object"
    "parse_gates (entries_of (the (jget v ''gates''))) = Inr (gs, [])" "opt v ''pendingRepair'' isPendingRepair"
proof -
  from assms obtain l where l: "parseKickbackLedger v = Inr (Some l)" "\<not> kl_unreadable l"
    by (auto simp: readKickbackLedger_def readKickbackLedgerResult_def split: sum.splits option.splits if_splits)
  from l(1) have o: "is_object v" "req v ''gates'' is_object"
    by (auto simp: parseKickbackLedger_def split: if_splits)
  obtain gs bad where p: "parse_gates (entries_of (the (jget v ''gates''))) = Inr (gs, bad)"
    using l(1) by (auto simp: parseKickbackLedger_def split: if_splits sum.splits)
  have "opt v ''pendingRepair'' isPendingRepair \<and> bad = []"
    using l p o by (auto simp: parseKickbackLedger_def split: if_splits)
  with o p that show thesis by simp
qed

lemma preserved_nothing:
  assumes "readable_doc doc"
  shows "withPreservedUnreadableGates doc l = Inr (ledger_fields l)"
proof (cases doc)
  case (LedgerJson v)
  with assms have "\<not> kl_unreadable (readKickbackLedger (LedgerJson v))" by (simp add: readable_doc_def)
  then obtain gs where r: "is_object v" "req v ''gates'' is_object"
    "parse_gates (entries_of (the (jget v ''gates''))) = Inr (gs, [])" "opt v ''pendingRepair'' isPendingRepair"
    by (rule readable_parse)
  from r(2) obtain raw where raw: "jget v ''gates'' = Some (JObj raw)"
    by (auto simp: req_def elim: is_object.elims split: option.splits)
  have "unreadable_raw_gates (map fst (kl_gates l)) raw = Inr []"
    using r(3) raw by (intro parse_gates_no_bad) simp
  with raw r(4) LedgerJson show ?thesis
    by (auto simp: withPreservedUnreadableGates_def opt_def split: option.splits)
qed (simp_all add: withPreservedUnreadableGates_def)

lemma read_written:
  "wf_ledger l \<Longrightarrow> readKickbackLedger (LedgerJson (JObj (ledger_fields l))) = norm_ledger l"
  by (simp add: readKickbackLedger_def readKickbackLedgerResult_def parse_written
      isUnreadableKickbackLedger_def wf_ledger_def norm_ledger_def)

lemma readable_written: "wf_ledger l \<Longrightarrow> readable_doc (LedgerJson (JObj (ledger_fields l)))"
  by (simp add: readable_doc_def read_written) (simp add: wf_ledger_def norm_ledger_def)

section \<open>The transaction contract\<close>

text \<open>
  What a client of the ledger relies on: a transaction that yields a well-formed ledger leaves
  it readable and unchanged, and one that yields none, or throws, leaves the document alone.
  Two transactions in a row are then one on the ledger itself.
\<close>

locale ledger_store =
  fixes run :: "'r ledger_tx \<Rightarrow> 'd \<Rightarrow> 'd \<times> 'r throws" and sees :: "'d \<Rightarrow> kickback_ledger \<Rightarrow> bool"
  assumes commit: "sees d l \<Longrightarrow> tx l = Inr (Some l', r) \<Longrightarrow> wf_ledger l' \<Longrightarrow>
      \<exists>d'. run tx d = (d', Inr r) \<and> sees d' (norm_ledger l')"
    and no_write: "sees d l \<Longrightarrow> tx l = Inr (None, r) \<Longrightarrow> run tx d = (d, Inr r)"
    and refuse: "sees d l \<Longrightarrow> tx l = Inl e \<Longrightarrow> run tx d = (d, Inl e)"
begin

text \<open>A transaction whose successor yields nothing more is idempotent on the document.\<close>

lemma run_twice:
  assumes "sees d l" "tx l = Inr (Some l', r)" "wf_ledger l'"
    "tx (norm_ledger l') = Inr (None, r')"
  shows "\<exists>d'. run tx d = (d', Inr r) \<and> run tx d' = (d', Inr r') \<and> sees d' (norm_ledger l')"
proof -
  obtain d' where d': "run tx d = (d', Inr r)" "sees d' (norm_ledger l')"
    using commit [where d = d and l = l and tx = tx and l' = l' and r = r] assms by blast
  have "run tx d' = (d', Inr r')"
    using no_write [where d = d' and l = "norm_ledger l'" and tx = tx and r = r'] d' assms(4) by blast
  with d' show ?thesis by blast
qed

lemma run_never_partial:
  assumes "sees d l" "\<forall>l' r. tx l = Inr (Some l', r) \<longrightarrow> wf_ledger l'" "run tx d = (d', res)"
  shows "(\<exists>l' r. tx l = Inr (Some l', r) \<and> res = Inr r \<and> sees d' (norm_ledger l')) \<or>
         (d' = d \<and> ((\<exists>r. tx l = Inr (None, r) \<and> res = Inr r) \<or> (\<exists>e. tx l = Inl e \<and> res = Inl e)))"
proof (cases "tx l")
  case (Inl e)
  then show ?thesis using refuse [where d = d and l = l and tx = tx and e = e] assms(1,3) by simp
next
  case (Inr p)
  obtain o' r where p: "p = (o', r)" by (cases p)
  show ?thesis
  proof (cases o')
    case None
    then show ?thesis
      using no_write [where d = d and l = l and tx = tx and r = r] assms(1,3) Inr p by simp
  next
    case (Some l')
    with Inr p assms(2) have "wf_ledger l'" by simp
    with commit [where d = d and l = l and tx = tx and l' = l' and r = r] assms(1,3) Inr p Some
    show ?thesis by auto
  qed
qed

end

text \<open>A flat ledger file, seen through its document.\<close>

definition sees_ledger :: "ledger_doc \<Rightarrow> kickback_ledger \<Rightarrow> bool" where
  "sees_ledger doc l = (readable_doc doc \<and> readKickbackLedger doc = l)"

interpretation flat: ledger_store
  "leased ok_ledger_env False :: 'r ledger_tx \<Rightarrow> ledger_doc \<Rightarrow> ledger_doc \<times> 'r throws" sees_ledger
proof
  fix d l l' and tx :: "'r ledger_tx" and r
  assume "sees_ledger d l" "tx l = Inr (Some l', r)" "wf_ledger l'"
  then show "\<exists>d'. leased ok_ledger_env False tx d = (d', Inr r) \<and> sees_ledger d' (norm_ledger l')"
    by (auto simp: sees_ledger_def leased_def ok_ledger_env_def writeKickbackLedgerUnsafe_def
        preserved_nothing read_written readable_written)
next
  fix d l and tx :: "'r ledger_tx" and r
  assume "sees_ledger d l" "tx l = Inr (None, r)"
  then show "leased ok_ledger_env False tx d = (d, Inr r)"
    by (auto simp: sees_ledger_def leased_def ok_ledger_env_def)
next
  fix d l and tx :: "'r ledger_tx" and e
  assume "sees_ledger d l" "tx l = Inl e"
  then show "leased ok_ledger_env False tx d = (d, Inl e)"
    by (auto simp: sees_ledger_def leased_def ok_ledger_env_def)
qed

section \<open>Well-formedness is kept\<close>

text \<open>What a readable document shows is well-formed as far as its entries go, and normalized.\<close>

lemma normalize_evidence:
  assumes "normalizeKickbackGateEntry v = Inr (Some n)" "jget n ''capEvidence'' = Some ce"
  shows "allowance_of ce \<noteq> None"
proof -
  have val: "isKickbackGateEntry n"
    using assms(1) by (auto simp: normalizeKickbackGateEntry_def Let_def split: if_splits)
  obtain kvs where v: "v = JObj kvs"
    using assms(1) by (auto simp: normalizeKickbackGateEntry_def elim: is_object.elims split: if_splits)
  have filt: "map_of (filter (\<lambda>(k, _). k \<noteq> ''adjustments'') xs) ''capEvidence'' = map_of xs ''capEvidence''" for xs :: "(string \<times> jval) list"
    by (induction xs) auto
  obtain ce0 a where ce: "ce = JObj (AList.update ''allowance'' a (object_spread ce0))"
    using assms v
    by (cases "jget v ''capEvidence''")
       (auto simp: normalizeKickbackGateEntry_def Let_def update_conv' filt split: if_splits)
  from val assms(2) have "isCapEvidence ce" by (simp add: isKickbackGateEntry_def opt_def)
  then have "is_allowance a" using ce by (simp add: isCapEvidence_def opt_def update_conv')
  then show ?thesis using ce
    by (auto simp: is_allowance_def one_of_def allowance_of_def jstring_def update_conv')
qed

lemma norm_entry_of: "normalizeKickbackGateEntry v = Inr (Some n) \<Longrightarrow> norm_entry g (gate_entry_of g n) = gate_entry_of g n"
  using normalize_evidence [of v n]
  by (cases "jget n ''capEvidence''")
     (auto simp: norm_entry_def gate_entry_of_def or_else_def norm_evidence_def cap_evidence_of_def
      split: option.splits)

lemma parse_gates_norm:
  "parse_gates raw = Inr (gs, bad) \<Longrightarrow> map (\<lambda>(g, e). (g, norm_entry g e)) gs = gs"
  by (induction raw arbitrary: gs bad)
     (auto split: sum.splits option.splits simp: map_sum_Inr_iff norm_entry_of)

lemma sees_ledger_norm:
  assumes "sees_ledger doc l"
  shows "norm_ledger l = l"
proof (cases doc)
  case (LedgerJson v)
  with assms have nu: "\<not> kl_unreadable (readKickbackLedger (LedgerJson v))"
    by (auto simp: sees_ledger_def readable_doc_def)
  then have "parseKickbackLedger v = Inr (Some l)"
    using assms LedgerJson
    by (auto simp: sees_ledger_def readKickbackLedger_def readKickbackLedgerResult_def
        split: sum.splits option.splits if_splits)
  moreover obtain gs where r: "is_object v" "req v ''gates'' is_object"
    "parse_gates (entries_of (the (jget v ''gates''))) = Inr (gs, [])" "opt v ''pendingRepair'' isPendingRepair"
    using nu by (rule readable_parse)
  ultimately have "kl_gates l = gs"
    by (auto simp: parseKickbackLedger_def unreadableLedger_def split: if_splits)
  with parse_gates_norm [OF r(3)] show ?thesis by (simp add: norm_ledger_def)
next
  case LedgerAbsent
  with assms have "l = emptyLedger"
    by (simp add: sees_ledger_def readKickbackLedger_def readKickbackLedgerResult_def)
  then show ?thesis by (simp add: norm_ledger_def emptyLedger_def)
qed (use assms in \<open>simp_all add: sees_ledger_def readable_doc_def\<close>)

lemma wf_gate_of: "wf_ledger l \<Longrightarrow> gate_of l g = Some e \<Longrightarrow> wf_entry e"
  by (auto simp: wf_ledger_def gate_of_def list_all_iff dest!: map_of_SomeD)

lemma wf_set_gate: "wf_ledger l \<Longrightarrow> wf_entry e \<Longrightarrow> wf_ledger (set_gate g e l)"
proof -
  assume l: "wf_ledger l" and e: "wf_entry e"
  have "list_all (\<lambda>(g, e). wf_entry e) (AList.update g e gs)"
    if "list_all (\<lambda>(g, e). wf_entry e) gs" for gs
    using that e by (induction gs) auto
  with l show ?thesis
    by (auto simp: wf_ledger_def set_gate_def distinct_update)
qed

lemma gate_of_set_gate [simp]: "gate_of (set_gate g e l) g' = (if g' = g then Some e else gate_of l g')"
  by (auto simp: gate_of_def set_gate_def update_conv')

lemma set_gate_other [simp]:
  "kl_growth (set_gate g e l) = kl_growth l" "kl_unreadable (set_gate g e l) = kl_unreadable l"
  "kl_unreadableGates (set_gate g e l) = kl_unreadableGates l"
  "kl_pendingRepair (set_gate g e l) = kl_pendingRepair l"
  by (simp_all add: set_gate_def)

lemma gate_of_norm [simp]: "gate_of (norm_ledger l) g = map_option (norm_entry g) (gate_of l g)"
proof -
  have "map_of (map (\<lambda>(g, e). (g, norm_entry g e)) gs) g = map_option (norm_entry g) (map_of gs g)" for gs
    by (induction gs) auto
  then show ?thesis by (simp add: gate_of_def norm_ledger_def)
qed

lemma norm_ledger_other [simp]:
  "kl_growth (norm_ledger l) = kl_growth l" "kl_unreadable (norm_ledger l) = kl_unreadable l"
  "kl_unreadableGates (norm_ledger l) = kl_unreadableGates l"
  "kl_unreadableGrowth (norm_ledger l) = kl_unreadableGrowth l"
  "kl_pendingRepair (norm_ledger l) = kl_pendingRepair l"
  "kl_settlementReceipts (norm_ledger l) = kl_settlementReceipts l"
  by (simp_all add: norm_ledger_def)

lemma wf_norm_ledger: "wf_ledger l \<Longrightarrow> wf_ledger (norm_ledger l)"
proof -
  assume l: "wf_ledger l"
  have "list_all (\<lambda>(g, e). wf_entry e) (map (\<lambda>(g, e). (g, norm_entry g e)) gs)"
    if "list_all (\<lambda>(g, e). wf_entry e) gs" for gs
    using that by (induction gs) (auto simp: wf_norm_entry)
  with l show ?thesis by (simp add: wf_ledger_def norm_ledger_def comp_def split_def)
qed

lemma wf_readable: "wf_ledger l \<Longrightarrow> requireReadableGate l g = Inr ()"
  by (simp add: requireReadableGate_def requireReadableLedger_def isUnreadableKickbackGate_def
      isUnreadableKickbackLedger_def wf_ledger_def)

lemma wf_readable_all [simp]:
  assumes "wf_ledger l"
  shows "requireReadableLedger l = Inr ()" "requireReadableGrowth l = Inr ()"
    "isUnreadableKickbackGate l g = False"
  using assms by (simp_all add: requireReadableLedger_def requireReadableGrowth_def
      isUnreadableKickbackGate_def isUnreadableKickbackGrowth_def isUnreadableKickbackLedger_def wf_ledger_def)

end
