(* ===== verification/KickbackProps.thy ===== *)
theory KickbackProps
  imports KickbackLaws
begin

text \<open>
  What the kickback ledger guarantees across restarts and replays: what is written is what is
  read, a lap is charged once, a refund takes back exactly one charge, a repair settles as a
  whole and within its caps, and unreadable records are neither trusted nor lost.
\<close>

section \<open>Durability\<close>

text \<open>
  C32: a well-formed ledger written over a readable document reads back as itself
  (with the fields an older record may lack filled in), so no operation's result is
  refused by the next read's validators.
\<close>

theorem ledger_write_read:
  assumes "wf_ledger l" and "readable_doc doc"
  shows "\<exists>doc'. writeKickbackLedgerUnsafe ok_ledger_env False doc l = Inr doc' \<and>
     readKickbackLedger doc' = norm_ledger l \<and> readable_doc doc'"
  using assms
  by (simp add: writeKickbackLedgerUnsafe_def ok_ledger_env_def preserved_nothing read_written readable_written)

definition sample_entry :: gate_entry where
  "sample_entry = blank_gate_entry\<lparr>ge_cumulative := 2, ge_count := 1, ge_lastReason := ''why''\<rparr>"

definition sample_ledger :: kickback_ledger where
  "sample_ledger = emptyLedger\<lparr>kl_gates := [(''build_review'', sample_entry)]\<rparr>"

lemma sample_ledger_wf: "wf_ledger sample_ledger"
  by (simp add: wf_ledger_def sample_ledger_def sample_entry_def emptyLedger_def wf_entry_fields
      blank_gate_entry_def)

lemma absent_readable: "readable_doc LedgerAbsent" "sees_ledger LedgerAbsent emptyLedger"
  by (simp_all add: readable_doc_def sees_ledger_def readKickbackLedger_def readKickbackLedgerResult_def)

lemma emptyLedger_wf: "wf_ledger emptyLedger"
  by (simp add: wf_ledger_def emptyLedger_def)

theorem ledger_write_read_witness:
  "\<exists>doc'. writeKickbackLedgerUnsafe ok_ledger_env False LedgerAbsent sample_ledger = Inr doc' \<and>
     readKickbackLedger doc' = norm_ledger sample_ledger \<and> readable_doc doc'"
  by (rule ledger_write_read [OF sample_ledger_wf absent_readable(1)])

lemma unreadable_raw_kept:
  "unreadable_raw_gates written raw = Inr kept \<Longrightarrow> map_of raw g = Some x \<Longrightarrow> g \<notin> set written \<Longrightarrow>
     normalizeKickbackGateEntry x = Inr None \<Longrightarrow> map_of kept g = Some x"
  by (induction written raw arbitrary: kept rule: unreadable_raw_gates.induct)
     (auto split: if_splits sum.splits option.splits simp: map_sum_Inr_iff)

text \<open>
  Writing a ledger never repairs, defaults or drops another gate's
  malformed record: a stored entry that the validators reject, of a gate that is not being
  written, is in the new document verbatim.
\<close>

theorem unreadable_sibling_kept:
  assumes "jget stored ''gates'' = Some (JObj raw)" and "map_of raw g = Some x"
    and "normalizeKickbackGateEntry x = Inr None" and "g \<notin> fst ` set (kl_gates l)"
    and "writeKickbackLedgerUnsafe env child (LedgerJson stored) l = Inr doc'"
  shows "\<exists>v gates. doc' = LedgerJson v \<and> jget v ''gates'' = Some gates \<and> jget gates g = Some x"
proof -
  from assms(5) obtain flds where w: "withPreservedUnreadableGates (LedgerJson stored) l = Inr flds"
    "doc' = LedgerJson (JObj flds)"
    by (auto simp: writeKickbackLedgerUnsafe_def split: if_splits sum.splits option.splits)
  from w(1) assms(1) obtain kept where kept: "unreadable_raw_gates (map fst (kl_gates l)) raw = Inr kept"
    by (auto simp: withPreservedUnreadableGates_def split: sum.splits)
  have k: "map_of kept g = Some x"
    using unreadable_raw_kept [OF kept assms(2) _ assms(3)] assms(4) by simp
  let ?new = "map (\<lambda>(g, e). (g, JObj (gate_entry_fields e))) (kl_gates l)"
  have "map_of ?new g = None" using assms(4) by (force simp: map_of_eq_None_iff)
  then have g: "map_of (?new @ kept) g = Some x" using k by (simp add: map_of_append map_add_def)
  have "kept \<noteq> []" using k by auto
  then have "map_of flds ''gates'' = Some (JObj (?new @ kept))"
    using w(1) assms(1) kept
    by (auto simp: withPreservedUnreadableGates_def Let_def update_conv' split: option.splits if_splits)
  with g w(2) show ?thesis by simp
qed

definition damaged_doc :: jval where
  "damaged_doc = JObj [(''version'', JNum 1), (''gates'', JObj [(''prd_audit'', JNum 7)])]"

theorem unreadable_sibling_kept_witness:
  "\<exists>doc' v gates. writeKickbackLedgerUnsafe ok_ledger_env False (LedgerJson damaged_doc) sample_ledger = Inr doc' \<and>
     doc' = LedgerJson v \<and> jget v ''gates'' = Some gates \<and> jget gates ''prd_audit'' = Some (JNum 7)"
proof -
  have g: "jget damaged_doc ''gates'' = Some (JObj [(''prd_audit'', JNum 7)])" by (simp add: damaged_doc_def)
  have n: "normalizeKickbackGateEntry (JNum 7) = Inr None" by (simp add: normalizeKickbackGateEntry_def)
  obtain doc' where w: "writeKickbackLedgerUnsafe ok_ledger_env False (LedgerJson damaged_doc) sample_ledger = Inr doc'"
    by (simp add: writeKickbackLedgerUnsafe_def ok_ledger_env_def withPreservedUnreadableGates_def
        damaged_doc_def sample_ledger_def n Let_def)
  have "''prd_audit'' \<notin> fst ` set (kl_gates sample_ledger)" by (simp add: sample_ledger_def)
  from unreadable_sibling_kept [OF g _ n this w] w show ?thesis by auto
qed

definition null_evidence_doc :: "jval \<Rightarrow> jval" where
  "null_evidence_doc ev = JObj [(''version'', JNum 1),
     (''gates'', JObj [(''build_review'', JObj (gate_entry_fields sample_entry)),
                       (''prd_audit'', JObj [(''capEvidence'', ev)])])]"

text \<open>
  One gate whose cap evidence is \<^verbatim>\<open>null\<close> makes the read of the
  whole ledger fail, so that the counts of every healthy gate are unavailable too; with any other
  malformed cap evidence only that gate is.
\<close>

theorem null_evidence_hides_ledger:
  "isUnreadableKickbackGate (readKickbackLedger (LedgerJson (null_evidence_doc JNull))) ''build_review'' \<and>
   \<not> isUnreadableKickbackGate (readKickbackLedger (LedgerJson (null_evidence_doc (JNum 1)))) ''build_review'' \<and>
   isUnreadableKickbackGate (readKickbackLedger (LedgerJson (null_evidence_doc (JNum 1)))) ''prd_audit''"
proof -
  have w: "wf_entry sample_entry"
    by (simp add: sample_entry_def wf_entry_fields blank_gate_entry_def)
  have bad: "normalizeKickbackGateEntry (JObj [(''capEvidence'', JNum 1)]) = Inr None"
    by (simp add: normalizeKickbackGateEntry_def opt_def isKickbackGateEntry_def req_def)
  have nul: "normalizeKickbackGateEntry (JObj [(''capEvidence'', JNull)]) =
      Inl ''Cannot read properties of null (reading allowance)''"
    by (simp add: normalizeKickbackGateEntry_def)
  obtain n where nrm: "normalizeKickbackGateEntry (JObj (gate_entry_fields sample_entry)) = Inr (Some n)"
    using normalize_written [OF w] by blast
  have p1: "parseKickbackLedger (null_evidence_doc JNull) = Inl ''Cannot read properties of null (reading allowance)''"
    using nrm nul by (simp add: parseKickbackLedger_def null_evidence_doc_def req_def)
  have p2: "parseKickbackLedger (null_evidence_doc (JNum 1)) = Inr (Some (unreadableLedger
      [(''build_review'', gate_entry_of ''build_review'' n)] (Some [''prd_audit'']) False))"
    using nrm bad
    by (simp add: parseKickbackLedger_def null_evidence_doc_def req_def opt_def)
  show ?thesis using p1 p2
    by (auto simp: readKickbackLedger_def readKickbackLedgerResult_def isUnreadableKickbackGate_def
        isUnreadableKickbackLedger_def unreadableLedger_def emptyLedger_def)
qed

section \<open>Charges\<close>

lemma wf_bump:
  assumes "case e of None \<Rightarrow> True | Some x \<Rightarrow> wf_entry x"
  shows "wf_entry (br_entry (bumpKickbackGate e input))"
  using assms
  by (cases e) (auto simp: bumpKickbackGate_def Let_def wf_entry_fields blank_gate_entry_def)

lemma wf_with_effects:
  "wf_entry x \<Longrightarrow> list_all (\<lambda>i. \<not> blank i) ids \<Longrightarrow> distinct ids \<Longrightarrow> wf_entry (x\<lparr>ge_chargedEffectIds := Some ids\<rparr>)"
  by (simp add: wf_entry_fields)

lemma wf_charge:
  assumes "case e of None \<Rightarrow> True | Some x \<Rightarrow> wf_entry x" "\<not> blank eff" "chargeBuildReviewEffect e eff input = Charged r"
  shows "wf_entry (br_entry r)"
proof -
  have "wf_entry (br_entry (bumpKickbackGate e input))" using assms(1) by (rule wf_bump)
  moreover have "list_all (\<lambda>i. \<not> blank i) (effect_ids e) \<and> distinct (effect_ids e)"
    using assms(1) by (cases e) (auto simp: effect_ids_def wf_entry_fields split: option.splits)
  moreover have "br_entry r = (br_entry (bumpKickbackGate e input))\<lparr>ge_chargedEffectIds := Some (effect_ids e @ [eff])\<rparr>"
    and "eff \<notin> set (effect_ids e)"
    using assms(3) by (auto simp: chargeBuildReviewEffect_def Let_def split: if_splits)
  ultimately show ?thesis using assms(2) by (simp add: wf_with_effects)
qed

lemma norm_effect_ids: "effect_ids (map_option (norm_entry g) e) = effect_ids e"
  by (cases e) (auto simp: effect_ids_def norm_entry_def split: option.splits)

lemmas norm_effect_ids_Some = norm_effect_ids [of g "Some x" for g x, simplified]

lemma charged_entry:
  "chargeBuildReviewEffect e eff input = Charged r \<Longrightarrow>
     eff \<notin> set (effect_ids e) \<and> effect_ids (Some (br_entry r)) = effect_ids e @ [eff] \<and>
     ge_cumulative (br_entry r) = (case e of None \<Rightarrow> 0 | Some x \<Rightarrow> ge_cumulative x) + 1"
  by (cases e) (auto simp: chargeBuildReviewEffect_def bumpKickbackGate_def effect_ids_def Let_def
      blank_gate_entry_def split: if_splits)

text \<open>
  Charging a build-review effect is idempotent on the durable ledger: the
  first charge of an id adds exactly one lap to the cumulative count, and every later charge of it,
  with whatever tree and reason, leaves the file as it is and reports the charge as made.
\<close>

theorem effect_charged_once:
  assumes "sees_ledger doc l" and "wf_ledger l" and "\<not> blank eff"
  shows "\<exists>doc' r e. chargeBuildReviewEffectInLedger ok_ledger_env False eff input doc = (doc', Inr r) \<and>
     (\<forall>input'. chargeBuildReviewEffectInLedger ok_ledger_env False eff input' doc' = (doc', Inr (AlreadyCharged e))) \<and>
     gate_of (readKickbackLedger doc') ''build_review'' = Some e \<and>
     ge_cumulative e = (case gate_of l ''build_review'' of None \<Rightarrow> 0 | Some x \<Rightarrow> ge_cumulative x) +
       (if eff \<in> set (effect_ids (gate_of l ''build_review'')) then 0 else 1)"
proof (cases "chargeBuildReviewEffect (gate_of l ''build_review'') eff input")
  case (AlreadyCharged x)
  then have mem: "eff \<in> set (effect_ids (gate_of l ''build_review''))" "gate_of l ''build_review'' = Some x"
    by (cases "gate_of l ''build_review''";
        auto simp: chargeBuildReviewEffect_def effect_ids_def Let_def split: if_splits)+
  have tx: "charge_tx eff i l = Inr (None, AlreadyCharged x)" for i
    using mem assms(2) by (simp add: charge_tx_def chargeBuildReviewEffect_def)
  have "leased ok_ledger_env False (charge_tx eff i) doc = (doc, Inr (AlreadyCharged x))" for i
    by (rule flat.no_write [where tx = "charge_tx eff i", OF assms(1) tx])
  then show ?thesis using mem assms(1)
    by (auto simp: chargeBuildReviewEffectInLedger_def sees_ledger_def)
next
  case (Charged r)
  let ?l' = "set_gate ''build_review'' (br_entry r) l"
  let ?e = "norm_entry ''build_review'' (br_entry r)"
  have wfe: "wf_entry (br_entry r)"
    using Charged assms(2,3) wf_gate_of by (intro wf_charge [OF _ assms(3) Charged]) (auto split: option.splits)
  then have wf': "wf_ledger ?l'" using assms(2) by (rule wf_set_gate [rotated])
  have tx: "charge_tx eff input l = Inr (Some ?l', Charged r)"
    using Charged assms(2) by (simp add: charge_tx_def)
  obtain doc' where
    d: "leased ok_ledger_env False (charge_tx eff input) doc = (doc', Inr (Charged r))"
       "sees_ledger doc' (norm_ledger ?l')"
    using flat.commit [where tx = "charge_tx eff input", OF assms(1) tx wf'] by blast
  have ids: "eff \<in> set (effect_ids (gate_of (norm_ledger ?l') ''build_review''))"
    using charged_entry [OF Charged] by (simp add: norm_effect_ids_Some)
  have tx2: "charge_tx eff i (norm_ledger ?l') = Inr (None, AlreadyCharged ?e)" for i
    using ids wf_norm_ledger [OF wf'] by (simp add: charge_tx_def chargeBuildReviewEffect_def)
  have again: "leased ok_ledger_env False (charge_tx eff i) doc' = (doc', Inr (AlreadyCharged ?e))" for i
    by (rule flat.no_write [where tx = "charge_tx eff i", OF d(2) tx2])
  have "gate_of (readKickbackLedger doc') ''build_review'' = Some ?e"
    using d(2) by (simp add: sees_ledger_def)
  moreover have "ge_cumulative ?e = ge_cumulative (br_entry r)" by (simp add: norm_entry_def)
  ultimately show ?thesis using d(1) again charged_entry [OF Charged]
    by (auto simp: chargeBuildReviewEffectInLedger_def)
next
  case (ChargeUnreadable m)
  then show ?thesis by (simp add: chargeBuildReviewEffect_def Let_def split: if_splits)
qed

definition sample_input :: bump_input where
  "sample_input = \<lparr>bi_treeHash = Some ''t1'', bi_resolvedCount = 0, bi_reason = ''FAIL''\<rparr>"

theorem effect_charged_once_witness:
  "\<exists>doc' r e. chargeBuildReviewEffectInLedger ok_ledger_env False ''effect-1'' sample_input LedgerAbsent = (doc', Inr r) \<and>
     chargeBuildReviewEffectInLedger ok_ledger_env False ''effect-1'' sample_input doc' = (doc', Inr (AlreadyCharged e)) \<and>
     ge_cumulative e = 1"
proof -
  have "\<not> blank ''effect-1''" by (simp add: blank_def js_space_def)
  from effect_charged_once [OF absent_readable(2) emptyLedger_wf this, of sample_input]
  show ?thesis by (auto simp: effect_ids_def gate_of_def emptyLedger_def)
qed

lemma refund_bump: "refund_entry e (norm_entry g (br_entry (bumpKickbackGate (Some e) input))) = norm_entry g e"
  by (cases e) (simp add: refund_entry_def bumpKickbackGate_def norm_entry_def Let_def)

lemma filter_update_new: "g \<notin> fst ` set gs \<Longrightarrow> filter (\<lambda>(k, _). k \<noteq> g) (map (\<lambda>(k, e). (k, f k e)) (AList.update g x gs)) =
    map (\<lambda>(k, e). (k, f k e)) gs"
  by (induction gs) auto

lemma update_map_update:
  "map_of gs g = Some e \<Longrightarrow> AList.update g (f g e) (map (\<lambda>(k, x). (k, f k x)) (AList.update g y gs)) =
     map (\<lambda>(k, x). (k, f k x)) gs"
  by (induction gs) (auto split: if_splits)

text \<open>
  Refunding a charge with the entry it replaced restores the durable ledger
  exactly: a gate the charge created is gone again, and an existing one has its counts back.
\<close>

theorem refund_undoes_charge:
  assumes "sees_ledger doc l" and "wf_ledger l"
  shows "\<exists>doc1 res before doc2. bumpKickbackGateInLedger ok_ledger_env False ''build_review'' input doc =
       (doc1, Inr (res, before)) \<and>
     refundBuildReviewKickback ok_ledger_env False before doc1 = (doc2, Inr ()) \<and>
     readKickbackLedger doc2 = l"
proof -
  let ?b = "gate_of l ''build_review''"
  let ?res = "bumpKickbackGate ?b input"
  let ?l1 = "set_gate ''build_review'' (br_entry ?res) l"
  have nl: "norm_ledger l = l" using assms(1) by (rule sees_ledger_norm)
  have wf1: "wf_ledger ?l1"
    using assms(2) wf_gate_of by (intro wf_set_gate wf_bump) (auto split: option.splits)
  have tx1: "bump_tx ''build_review'' input l = Inr (Some ?l1, (?res, ?b))"
    using assms(2) by (simp add: bump_tx_def guarded_def wf_readable Let_def)
  obtain doc1 where
    d1: "leased ok_ledger_env False (bump_tx ''build_review'' input) doc = (doc1, Inr (?res, ?b))"
      "sees_ledger doc1 (norm_ledger ?l1)"
    using flat.commit [where tx = "bump_tx ''build_review'' input", OF assms(1) tx1 wf1] by blast
  have "\<exists>l2. refund_tx ?b (norm_ledger ?l1) = Inr (Some l2, ()) \<and> l2 = l"
  proof (cases ?b)
    case None
    then have "''build_review'' \<notin> fst ` set (kl_gates l)"
      by (simp add: gate_of_def map_of_eq_None_iff)
    then have "filter (\<lambda>(g, _). g \<noteq> ''build_review'') (kl_gates (norm_ledger ?l1)) = kl_gates (norm_ledger l)"
      by (simp add: norm_ledger_def set_gate_def filter_update_new)
    moreover have "(norm_ledger ?l1)\<lparr>kl_gates := kl_gates l\<rparr> = l"
      by (simp add: norm_ledger_def set_gate_def)
    ultimately show ?thesis
      using None wf_norm_ledger [OF wf1] nl by (simp add: refund_tx_def guarded_def wf_readable)
  next
    case (Some e)
    have "set_gate ''build_review'' (norm_entry ''build_review'' e) (norm_ledger ?l1) = norm_ledger l"
      using Some update_map_update [of "kl_gates l" "''build_review''" e norm_entry]
      by (simp add: norm_ledger_def set_gate_def gate_of_def)
    then show ?thesis
      using Some wf_norm_ledger [OF wf1] nl by (simp add: refund_tx_def guarded_def wf_readable refund_bump)
  qed
  then have tx2: "refund_tx ?b (norm_ledger ?l1) = Inr (Some l, ())" by simp
  obtain doc2 where
    d2: "leased ok_ledger_env False (refund_tx ?b) doc1 = (doc2, Inr ())" "sees_ledger doc2 (norm_ledger l)"
    using flat.commit [where tx = "refund_tx ?b", OF d1(2) tx2 assms(2)] by blast
  with d1(1) nl show ?thesis
    by (auto simp: bumpKickbackGateInLedger_def refundBuildReviewKickback_def sees_ledger_def)
qed

theorem refund_undoes_charge_witness:
  "\<exists>doc1 res before doc2. bumpKickbackGateInLedger ok_ledger_env False ''build_review'' sample_input LedgerAbsent =
       (doc1, Inr (res, before)) \<and>
     refundBuildReviewKickback ok_ledger_env False before doc1 = (doc2, Inr ()) \<and>
     readKickbackLedger doc2 = emptyLedger"
  by (rule refund_undoes_charge [OF absent_readable(2) emptyLedger_wf])

end
