(* ===== verification/KickbackBudget.thy ===== *)
theory KickbackBudget
  imports KickbackLaws
begin

text \<open>
  The budgets of the kickback ledger: how many kickbacks a gate gets per tree and in all, how a
  repair settles against its lap and growth caps, and what an operator's adjustment changes.
\<close>

section \<open>Kickback counts\<close>

text \<open>A run of kickbacks of one gate.\<close>

definition bump_run :: "bump_input list \<Rightarrow> gate_entry option \<Rightarrow> gate_entry option" where
  "bump_run inputs e = fold (\<lambda>i x. Some (br_entry (bumpKickbackGate x i))) inputs e"

lemma bump_run_snoc: "bump_run (is @ [i]) e = Some (br_entry (bumpKickbackGate (bump_run is e) i))"
  by (simp add: bump_run_def)

lemma bump_run_cumulative:
  "inputs \<noteq> [] \<Longrightarrow> \<exists>x. bump_run inputs None = Some x \<and> ge_cumulative x = int (length inputs) \<and>
     ge_effectiveLimit x = None \<and> ge_treeHash x = bi_treeHash (last inputs) \<and>
     ge_resolvedBefore x = bi_resolvedCount (last inputs) \<and> 1 \<le> ge_count x \<and> ge_count x \<le> 2"
proof (induction inputs rule: rev_induct)
  case Nil
  then show ?case by simp
next
  case (snoc i inputs)
  show ?case
  proof (cases "inputs = []")
    case True
    then show ?thesis
      by (simp add: bump_run_def bumpKickbackGate_def Let_def made_progress_def blank_gate_entry_def ledger_limits)
  next
    case False
    with snoc.IH obtain x where "bump_run inputs None = Some x" "ge_cumulative x = int (length inputs)"
      "ge_effectiveLimit x = None" "1 \<le> ge_count x" "ge_count x \<le> 2" by blast
    then show ?thesis
      by (auto simp: bump_run_snoc bumpKickbackGate_def Let_def ledger_limits)
  qed
qed

lemma bump_run_stuck:
  assumes "\<forall>i\<in>set inputs. bi_treeHash i = Some h \<and> bi_resolvedCount i = k" "inputs \<noteq> []"
  shows "\<exists>x. bump_run inputs None = Some x \<and> ge_count x = min (int (length inputs)) 2 \<and>
     ge_treeHash x = Some h \<and> ge_resolvedBefore x = k"
  using assms
proof (induction inputs rule: rev_induct)
  case Nil
  then show ?case by simp
next
  case (snoc i inputs)
  show ?case
  proof (cases "inputs = []")
    case True
    then show ?thesis using snoc.prems
      by (simp add: bump_run_def bumpKickbackGate_def Let_def made_progress_def blank_gate_entry_def)
  next
    case False
    have p: "\<forall>i\<in>set inputs. bi_treeHash i = Some h \<and> bi_resolvedCount i = k" using snoc.prems by simp
    from snoc.IH [OF p False] obtain x where "bump_run inputs None = Some x"
      "ge_count x = min (int (length inputs)) 2" "ge_treeHash x = Some h" "ge_resolvedBefore x = k" by blast
    moreover have "bi_treeHash i = Some h" "bi_resolvedCount i = k" using snoc.prems by auto
    moreover have "1 \<le> length inputs" using False by (cases inputs) auto
    ultimately show ?thesis
      by (simp add: bump_run_snoc bumpKickbackGate_def Let_def made_progress_def ledger_limits)
  qed
qed

text \<open>
  On an unchanged tree with nothing newly resolved, a gate's third kickback
  in a row, and no earlier one, is refused as exhausted; and the convergence count grows by one
  with every kickback whatever progress was made in between, so it reports exhaustion from the
  sixth on, exactly, unless an operator has set another limit.
\<close>

theorem kickback_budget_exact:
  assumes "\<forall>i\<in>set (inputs @ [next]). bi_treeHash i = Some h \<and> bi_resolvedCount i = k"
  shows "(br_exhausted (bumpKickbackGate (bump_run inputs None) next) \<longleftrightarrow> 2 \<le> length inputs) \<and>
     (\<forall>others. br_cumulativeExhausted (bumpKickbackGate (bump_run others None) next) \<longleftrightarrow> 5 \<le> length others)"
proof
  show "br_exhausted (bumpKickbackGate (bump_run inputs None) next) \<longleftrightarrow> 2 \<le> length inputs"
  proof (cases "inputs = []")
    case True
    then show ?thesis
      by (simp add: bump_run_def bumpKickbackGate_def Let_def made_progress_def blank_gate_entry_def ledger_limits)
  next
    case False
    with assms bump_run_stuck [of inputs h k] obtain x where "bump_run inputs None = Some x"
      "ge_count x = min (int (length inputs)) 2" "ge_treeHash x = Some h" "ge_resolvedBefore x = k" by auto
    then show ?thesis using assms
      by (auto simp: bumpKickbackGate_def Let_def made_progress_def ledger_limits)
  qed
  show "\<forall>others. br_cumulativeExhausted (bumpKickbackGate (bump_run others None) next) \<longleftrightarrow> 5 \<le> length others"
  proof
    fix others
    show "br_cumulativeExhausted (bumpKickbackGate (bump_run others None) next) \<longleftrightarrow> 5 \<le> length others"
    proof (cases "others = []")
      case True
      then show ?thesis
        by (simp add: bump_run_def bumpKickbackGate_def Let_def blank_gate_entry_def ledger_limits)
    next
      case False
      with bump_run_cumulative [of others] obtain x where "bump_run others None = Some x"
        "ge_cumulative x = int (length others)" "ge_effectiveLimit x = None" by blast
      then show ?thesis by (auto simp: bumpKickbackGate_def Let_def ledger_limits)
    qed
  qed
qed

definition fail_input :: bump_input where
  "fail_input = \<lparr>bi_treeHash = Some ''t1'', bi_resolvedCount = 0, bi_reason = ''FAIL''\<rparr>"

theorem kickback_budget_exact_witness:
  "br_exhausted (bumpKickbackGate (bump_run [fail_input, fail_input] None) fail_input) \<and>
   \<not> br_exhausted (bumpKickbackGate (bump_run [fail_input] None) fail_input)"
  using kickback_budget_exact [of "[fail_input, fail_input]" fail_input "''t1''" 0]
    kickback_budget_exact [of "[fail_input]" fail_input "''t1''" 0]
  by (simp add: fail_input_def)

section \<open>Settlement of a pending repair\<close>

lemma projection_loop_exceeding:
  "projection_loop (Some c) cs tot cum bg ex = (t, c', b', None) \<Longrightarrow> cs \<noteq> [] \<Longrightarrow>
     ex = None \<and> c' \<le> c \<and> c' = cum + sum_list (map (pc_growth \<circ> snd) cs)"
proof (induction cs arbitrary: tot cum bg ex)
  case Nil
  then show ?case by simp
next
  case (Cons p cs)
  obtain g ch where p: "p = (g, ch)" by (cases p)
  show ?case
  proof (cases "cs = []")
    case True
    then show ?thesis using Cons.prems p by (auto simp: Let_def split: if_splits)
  next
    case False
    obtain tot' bg' where
      "projection_loop (Some c) cs tot' (cum + pc_growth ch) bg'
         (if ex = None \<and> cum + pc_growth ch > c then Some g else ex) = (t, c', b', None)"
      using Cons.prems p by (auto simp: Let_def)
    from Cons.IH [OF this False] p show ?thesis by (auto split: if_splits)
  qed
qed

lemma projection_loop_member:
  "projection_loop cap cs tot cum bg ex = (t, c', b', Some g) \<Longrightarrow> ex = Some g \<or> g \<in> fst ` set cs"
proof (induction cs arbitrary: tot cum bg ex)
  case Nil
  then show ?case by simp
next
  case (Cons p cs)
  obtain h ch where p: "p = (h, ch)" by (cases p)
  obtain tot' bg' ex' where
    "projection_loop cap cs tot' (cum + pc_growth ch) bg' ex' = (t, c', b', Some g)" "ex' = Some h \<or> ex' = ex"
    using Cons.prems p by (auto simp: Let_def split: if_splits option.splits)
  from Cons.IH [OF this(1)] this(2) p show ?case by auto
qed

lemma laps_update [simp]:
  "laps_of (entry_or_blank (map_of (AList.update g x gs) g')) =
     (if g' = g then laps_of x else laps_of (entry_or_blank (map_of gs g')))"
  by (simp add: update_conv' entry_or_blank_def)

text \<open>What a completed loop has done to every gate and to the growth record.\<close>

lemma settle_loop_done:
  "settle_loop l budgets ex cs gates growth = Inr (Inr (gates', growth')) \<Longrightarrow> distinct (map fst cs) \<Longrightarrow>
     (\<forall>(g, c)\<in>set cs. \<exists>b. budget_for budgets g = Some b \<and> ex \<noteq> Some g \<and>
        laps_of (entry_or_blank (map_of gates' g)) = laps_of (entry_or_blank (map_of gates g)) + pc_laps c \<and>
        laps_of (entry_or_blank (map_of gates' g)) \<le> sb_lapCap b) \<and>
     (\<forall>g. g \<notin> fst ` set cs \<longrightarrow> map_of gates' g = map_of gates g) \<and>
     pg_authored growth' = pg_authored growth \<and>
     pg_added growth' = pg_added growth + sum_list (map (\<lambda>c. max 0 (pc_growth (snd c))) cs)"
proof (induction cs arbitrary: gates growth)
  case Nil
  then show ?case by simp
next
  case (Cons p cs)
  obtain g c where p: "p = (g, c)" by (cases p)
  let ?cur = "entry_or_blank (map_of gates g)"
  let ?gates1 = "AList.update g (?cur\<lparr>ge_laps := Some (laps_of ?cur + pc_laps c)\<rparr>) gates"
  let ?growth1 = "if pc_growth c > 0
      then growth\<lparr>pg_added := pg_added growth + pc_growth c,
                  pg_byGate := AList.update g
                    ((case map_of (pg_byGate growth) g of Some n \<Rightarrow> n | None \<Rightarrow> 0) + pc_growth c) (pg_byGate growth)\<rparr>
      else growth"
  from Cons.prems p obtain b where b: "budget_for budgets g = Some b" "ex \<noteq> Some g"
      "laps_of ?cur + pc_laps c \<le> sb_lapCap b"
    and rec: "settle_loop l budgets ex cs ?gates1 ?growth1 = Inr (Inr (gates', growth'))"
    by (auto simp: Let_def split: option.splits sum.splits if_splits)
  have d: "distinct (map fst cs)" "g \<notin> fst ` set cs" using Cons.prems(2) p by auto
  note ih = Cons.IH [OF rec d(1)]
  have head: "laps_of (entry_or_blank (map_of gates' g)) = laps_of ?cur + pc_laps c"
  proof -
    have "map_of gates' g = map_of ?gates1 g" using ih d(2) by blast
    then show ?thesis by (simp add: update_conv' entry_or_blank_def laps_of_def)
  qed
  have tail: "\<exists>b. budget_for budgets g' = Some b \<and> ex \<noteq> Some g' \<and>
        laps_of (entry_or_blank (map_of gates' g')) = laps_of (entry_or_blank (map_of gates g')) + pc_laps c' \<and>
        laps_of (entry_or_blank (map_of gates' g')) \<le> sb_lapCap b" if "(g', c') \<in> set cs" for g' c'
  proof -
    have "g' \<noteq> g" using that d(2) by force
    with ih that show ?thesis by fastforce
  qed
  have other: "map_of gates' g' = map_of gates g'" if "g' \<notin> fst ` set (p # cs)" for g'
    using ih that p by (auto simp: update_conv')
  show ?case using ih p b head tail other by auto
qed

lemma settle_tx_cases:
  assumes "settle_repair_tx budgets l = Inr (Some l', r)" "kl_pendingRepair l = Some repair"
  obtains growth gates' growth' cap where
    "kl_growth l = Some growth \<or> (kl_growth l = None \<and> (\<exists>b bs. budgets = b # bs \<and>
        growth = plan_growth_record.truncate (sb_growth b)))"
    "cap = (case pr_charges repair of [] \<Rightarrow> None | (g, _) # _ \<Rightarrow> map_option sb_growthCap (budget_for budgets g))"
    "settle_loop l budgets (Option.bind (projectPendingGrowth (pg_added growth) (Some (pr_charges repair)) cap)
        gp_exceedingGate) (pr_charges repair) (kl_gates l) growth = Inr (Inr (gates', growth'))"
    "l' = l\<lparr>kl_pendingRepair := None, kl_gates := gates',
       kl_growth := (if list_ex (\<lambda>(_, c). pc_growth c > 0) (pr_charges repair) then Some growth' else kl_growth l)\<rparr>"
    "fst r = Settled"
    "list_ex (\<lambda>(_, c). pc_growth c > 0) (pr_charges repair) \<Longrightarrow>
       isPlanGrowthRecord (growth_json growth') \<and> growthTotalsAgree growth'"
proof -
  let ?cap = "case pr_charges repair of [] \<Rightarrow> None | (g, _) # _ \<Rightarrow> map_option sb_growthCap (budget_for budgets g)"
  obtain growth where g: "(case kl_growth l of Some g \<Rightarrow> Some g
            | None \<Rightarrow> (case budgets of b # _ \<Rightarrow> Some (plan_growth_record.truncate (sb_growth b)) | [] \<Rightarrow> None)) = Some growth"
    using assms by (auto simp: settle_repair_tx_def split: sum.splits option.splits list.splits)
  have g': "kl_growth l = Some growth \<or> (kl_growth l = None \<and> (\<exists>b bs. budgets = b # bs \<and>
        growth = plan_growth_record.truncate (sb_growth b)))"
    using g by (auto split: option.splits list.splits)
  show thesis
    using assms g
    by (auto simp: settle_repair_tx_def Let_def prepareGrowth_def split: sum.splits if_splits
        intro!: that [OF g' refl])
qed

lemma repair_charges:
  "isPendingRepair (repair_json r) \<Longrightarrow> \<forall>(g, c)\<in>set (pr_charges r). nonneg_safe (pc_laps c) \<and> nonneg_safe (pc_growth c)"
proof -
  assume "isPendingRepair (repair_json r)"
  then have "\<forall>p\<in>set (pr_charges r). isPendingRepairGateCharge (charge_json (snd p))"
    by (fastforce simp: isPendingRepair_def repair_json_def req_def list_all_iff split: if_splits)
  then show ?thesis
    by (auto simp: charge_json_def isPendingRepairGateCharge_def req_def nonneg_safe_def)
qed

lemma wf_laps: "wf_entry e \<Longrightarrow> nonneg_safe n \<Longrightarrow> wf_entry (e\<lparr>ge_laps := Some n\<rparr>)"
  by (auto simp: wf_entry_fields)

lemma wf_entry_or_blank: "list_all (\<lambda>(g, e). wf_entry e) gs \<Longrightarrow> wf_entry (entry_or_blank (map_of gs g))"
  by (cases "map_of gs g")
     (auto simp: entry_or_blank_def blank_gate_entry_def wf_entry_fields list_all_iff dest!: map_of_SomeD)

lemma wf_gates_update:
  "list_all (\<lambda>(g, e). wf_entry e) gs \<Longrightarrow> wf_entry x \<Longrightarrow> list_all (\<lambda>(g, e). wf_entry e) (AList.update g x gs)"
  by (induction gs) auto

lemma settle_loop_wf:
  "settle_loop l budgets ex cs gates growth = Inr (Inr (gates', growth')) \<Longrightarrow>
     list_all (\<lambda>(g, e). wf_entry e) gates \<Longrightarrow> distinct (map fst gates) \<Longrightarrow>
     \<forall>(g, c)\<in>set cs. 0 \<le> pc_laps c \<Longrightarrow> \<forall>b\<in>set budgets. sb_lapCap b \<le> MAX_SAFE_INTEGER \<Longrightarrow>
     list_all (\<lambda>(g, e). wf_entry e) gates' \<and> distinct (map fst gates')"
proof (induction cs arbitrary: gates growth)
  case Nil
  then show ?case by simp
next
  case (Cons p cs)
  obtain g c where p: "p = (g, c)" by (cases p)
  let ?cur = "entry_or_blank (map_of gates g)"
  from Cons.prems(1) p obtain b growth1 where b: "budget_for budgets g = Some b"
      "laps_of ?cur + pc_laps c \<le> sb_lapCap b"
    and rec: "settle_loop l budgets ex cs
      (AList.update g (?cur\<lparr>ge_laps := Some (laps_of ?cur + pc_laps c)\<rparr>) gates) growth1 = Inr (Inr (gates', growth'))"
    by (auto simp: Let_def split: option.splits sum.splits if_splits)
  have cur: "wf_entry ?cur" using Cons.prems(2) by (rule wf_entry_or_blank)
  then have "0 \<le> laps_of ?cur" by (auto simp: wf_entry_fields laps_of_def nonneg_safe_def split: option.splits)
  moreover have "b \<in> set budgets" using b(1) 
    by (metis budget_for_def find_Some_iff nth_mem set_rev)
  ultimately have "nonneg_safe (laps_of ?cur + pc_laps c)"
    using b(2) Cons.prems(4,5) p by (fastforce simp: nonneg_safe_def)
  with cur have "wf_entry (?cur\<lparr>ge_laps := Some (laps_of ?cur + pc_laps c)\<rparr>)" by (rule wf_laps)
  from Cons.IH [OF rec wf_gates_update [OF Cons.prems(2) this]] Cons.prems show ?case
    by (simp add: distinct_update)
qed

lemma settle_tx_wf:
  assumes "wf_ledger l" and "settle_repair_tx budgets l = Inr (Some l', r)"
    and "\<forall>b\<in>set budgets. sb_lapCap b \<le> MAX_SAFE_INTEGER"
  shows "wf_ledger l'"
proof -
  from assms(2) obtain repair where rep: "kl_pendingRepair l = Some repair"
    by (auto simp: settle_repair_tx_def split: sum.splits option.splits)
  from assms(2) rep obtain growth gates' growth' ex where c:
    "settle_loop l budgets ex (pr_charges repair) (kl_gates l) growth = Inr (Inr (gates', growth'))"
    "l' = l\<lparr>kl_pendingRepair := None, kl_gates := gates',
       kl_growth := (if list_ex (\<lambda>(_, c). pc_growth c > 0) (pr_charges repair) then Some growth' else kl_growth l)\<rparr>"
    "list_ex (\<lambda>(_, c). pc_growth c > 0) (pr_charges repair) \<Longrightarrow> isPlanGrowthRecord (growth_json growth')"
    by (rule settle_tx_cases) blast
  have "\<forall>(g, c)\<in>set (pr_charges repair). 0 \<le> pc_laps c"
    using assms(1) rep repair_charges by (fastforce simp: wf_ledger_def nonneg_safe_def)
  with settle_loop_wf [OF c(1)] assms(1,3)
  have "list_all (\<lambda>(g, e). wf_entry e) gates' \<and> distinct (map fst gates')" by (simp add: wf_ledger_def)
  with c(2,3) assms(1) show ?thesis by (auto simp: wf_ledger_def)
qed

text \<open>
  The four parts of a settlement's effect: no gate exceeds the growth cap, the growth it adds is within
  that cap, the record grows by exactly the charges, and every gate by exactly its laps.
\<close>

definition settle_exceeding :: "settlement_budget list \<Rightarrow> pending_repair \<Rightarrow> plan_growth_record \<Rightarrow> string option" where
  "settle_exceeding budgets repair growth =
     Option.bind (projectPendingGrowth (pg_added growth) (Some (pr_charges repair))
       (case pr_charges repair of [] \<Rightarrow> None | (g, _) # _ \<Rightarrow> map_option sb_growthCap (budget_for budgets g)))
       gp_exceedingGate"

lemma settle_none_exceeds:
  assumes "settle_loop l budgets (settle_exceeding budgets repair growth) (pr_charges repair) gates growth
      = Inr (Inr (gates', growth'))" "distinct (map fst (pr_charges repair))"
  shows "settle_exceeding budgets repair growth = None"
proof (rule ccontr)
  assume "settle_exceeding budgets repair growth \<noteq> None"
  then obtain g where g: "settle_exceeding budgets repair growth = Some g" by auto
  then obtain t c b cap where "projection_loop cap (pr_charges repair) 0 (pg_added growth) [] None = (t, c, b, Some g)"
    by (auto simp: settle_exceeding_def projectPendingGrowth_def split: prod.splits)
  then have "g \<in> fst ` set (pr_charges repair)" using projection_loop_member by fastforce
  with settle_loop_done [OF assms] g show False by fastforce
qed

lemma settle_within_growth_cap:
  assumes "settle_exceeding budgets repair growth = None"
    "pr_charges repair = (g, ch) # rest" "budget_for budgets g = Some b"
  shows "pg_added growth + sum_list (map (pc_growth \<circ> snd) (pr_charges repair)) \<le> sb_growthCap b"
proof -
  obtain t c' b' e where pl: "projection_loop (Some (sb_growthCap b)) (pr_charges repair) 0 (pg_added growth) [] None
      = (t, c', b', e)"
    by (cases "projection_loop (Some (sb_growthCap b)) (pr_charges repair) 0 (pg_added growth) [] None")
  with assms have "e = None" by (simp add: settle_exceeding_def projectPendingGrowth_def)
  with projection_loop_exceeding pl assms(2) show ?thesis by fastforce
qed

lemma settle_growth_exact:
  assumes "\<forall>(g, c)\<in>set cs. 0 \<le> pc_growth c"
  shows "sum_list (map (\<lambda>c. max 0 (pc_growth (snd c))) cs) = sum_list (map (pc_growth \<circ> snd) cs)"
    and "\<not> list_ex (\<lambda>(_, c). pc_growth c > 0) cs \<Longrightarrow> sum_list (map (pc_growth \<circ> snd) cs) = 0"
  using assms by (induction cs) fastforce+

lemma norm_gate_laps [simp]:
  "laps_of (entry_or_blank (map_option (norm_entry g) e)) = laps_of (entry_or_blank e)"
  by (cases e) (simp_all add: entry_or_blank_def norm_entry_def laps_of_def)

text \<open>What a growth record says a gate has added.\<close>

definition gate_growth :: "plan_growth_record \<Rightarrow> string \<Rightarrow> int" where
  "gate_growth r g = (case map_of (pg_byGate r) g of Some n \<Rightarrow> n | None \<Rightarrow> 0)"

lemma settle_loop_by_gate:
  "settle_loop l budgets ex cs gates growth = Inr (Inr (gates', growth')) \<Longrightarrow> distinct (map fst cs) \<Longrightarrow>
     gate_growth growth' g = gate_growth growth g + (case map_of cs g of Some c \<Rightarrow> max 0 (pc_growth c) | None \<Rightarrow> 0)"
proof (induction cs arbitrary: gates growth)
  case Nil
  then show ?case by simp
next
  case (Cons p cs)
  obtain g1 c where p: "p = (g1, c)" by (cases p)
  let ?growth1 = "if pc_growth c > 0
      then growth\<lparr>pg_added := pg_added growth + pc_growth c,
                  pg_byGate := AList.update g1
                    ((case map_of (pg_byGate growth) g1 of Some n \<Rightarrow> n | None \<Rightarrow> 0) + pc_growth c) (pg_byGate growth)\<rparr>
      else growth"
  from Cons.prems p obtain gates1 where
    rec: "settle_loop l budgets ex cs gates1 ?growth1 = Inr (Inr (gates', growth'))"
    by (auto simp: Let_def split: option.splits sum.splits if_splits)
  from Cons.prems(2) p have d: "distinct (map fst cs)" "map_of cs g1 = None" by (auto simp: map_of_eq_None_iff)
  have "gate_growth ?growth1 g = gate_growth growth g + (if g = g1 then max 0 (pc_growth c) else 0)"
    by (simp add: gate_growth_def update_conv')
  with Cons.IH [OF rec d(1)] d(2) p show ?case by auto
qed

lemma settled_effect:
  assumes "sees_ledger doc l" and "kl_pendingRepair l = Some repair"
    and "\<forall>(g, c)\<in>set (pr_charges repair). 0 \<le> pc_growth c" and "distinct (map fst (pr_charges repair))"
    and "settle_repair_tx budgets l = Inr (Some l', r)"
  shows "fst r = Settled" "kl_pendingRepair l' = None"
    "\<forall>(g, c)\<in>set (pr_charges repair).
       laps_of (entry_or_blank (gate_of (norm_ledger l') g)) = laps_of (entry_or_blank (gate_of l g)) + pc_laps c \<and>
       (\<exists>b. budget_for budgets g = Some b \<and> laps_of (entry_or_blank (gate_of (norm_ledger l') g)) \<le> sb_lapCap b)"
    "\<forall>g. g \<notin> fst ` set (pr_charges repair) \<longrightarrow> gate_of (norm_ledger l') g = gate_of l g"
    "if \<exists>(g, c)\<in>set (pr_charges repair). 0 < pc_growth c
     then \<exists>g0 g1. (kl_growth l = Some g0 \<or>
             kl_growth l = None \<and> (\<exists>b bs. budgets = b # bs \<and> g0 = plan_growth_record.truncate (sb_growth b))) \<and>
           kl_growth (norm_ledger l') = Some g1 \<and> pg_authored g1 = pg_authored g0 \<and>
           pg_added g1 = pg_added g0 + sum_list (map (pc_growth \<circ> snd) (pr_charges repair)) \<and>
           (\<forall>g. gate_growth g1 g = gate_growth g0 g +
                  (case map_of (pr_charges repair) g of Some c \<Rightarrow> pc_growth c | None \<Rightarrow> 0)) \<and>
           (\<forall>g c rest b. pr_charges repair = (g, c) # rest \<and> budget_for budgets g = Some b \<longrightarrow> pg_added g1 \<le> sb_growthCap b)
     else kl_growth (norm_ledger l') = kl_growth l"
proof -
  from assms(5,2) obtain growth gates' growth' where c:
    "kl_growth l = Some growth \<or> kl_growth l = None \<and> (\<exists>b bs. budgets = b # bs \<and>
        growth = plan_growth_record.truncate (sb_growth b))"
    "settle_loop l budgets (settle_exceeding budgets repair growth) (pr_charges repair) (kl_gates l) growth
      = Inr (Inr (gates', growth'))"
    "l' = l\<lparr>kl_pendingRepair := None, kl_gates := gates',
       kl_growth := (if list_ex (\<lambda>(_, c). pc_growth c > 0) (pr_charges repair) then Some growth' else kl_growth l)\<rparr>"
    "fst r = Settled"
    by (rule settle_tx_cases) (auto simp: settle_exceeding_def)
  note f = settle_loop_done [OF c(2) assms(4)] and s = settle_growth_exact [OF assms(3)]
  have gates: "gate_of (norm_ledger l') g = map_option (norm_entry g) (map_of gates' g)" for g
    using c(3) by (simp add: gate_of_def [symmetric]) (simp add: gate_of_def)
  have gl: "gate_of l g = map_option (norm_entry g) (map_of (kl_gates l) g)" for g
    using sees_ledger_norm [OF assms(1)] gate_of_norm [of l g] by (simp add: gate_of_def)
  show "fst r = Settled" "kl_pendingRepair l' = None" using c(3,4) by simp_all
  show "\<forall>(g, c)\<in>set (pr_charges repair).
       laps_of (entry_or_blank (gate_of (norm_ledger l') g)) = laps_of (entry_or_blank (gate_of l g)) + pc_laps c \<and>
       (\<exists>b. budget_for budgets g = Some b \<and> laps_of (entry_or_blank (gate_of (norm_ledger l') g)) \<le> sb_lapCap b)"
    unfolding gates gl norm_gate_laps using f by fastforce
  show "\<forall>g. g \<notin> fst ` set (pr_charges repair) \<longrightarrow> gate_of (norm_ledger l') g = gate_of l g"
    unfolding gates gl using f by simp
  have some_growth: "list_ex (\<lambda>(_, c). pc_growth c > 0) (pr_charges repair) \<longleftrightarrow> (\<exists>(g, c)\<in>set (pr_charges repair). 0 < pc_growth c)"
    by (auto simp: list_ex_iff)
  have added: "pg_added growth' = pg_added growth + sum_list (map (pc_growth \<circ> snd) (pr_charges repair))"
    "pg_authored growth' = pg_authored growth"
    using f s(1) by simp_all
  have by_gate: "gate_growth growth' g = gate_growth growth g +
      (case map_of (pr_charges repair) g of Some c \<Rightarrow> pc_growth c | None \<Rightarrow> 0)" for g
    using settle_loop_by_gate [OF c(2) assms(4)] assms(3)
    by (fastforce split: option.splits dest: map_of_SomeD)
  have within: "\<forall>g c rest b. pr_charges repair = (g, c) # rest \<and> budget_for budgets g = Some b \<longrightarrow> pg_added growth' \<le> sb_growthCap b"
    using settle_within_growth_cap [OF settle_none_exceeds [OF c(2) assms(4)]] added(1) by simp
  show "if \<exists>(g, c)\<in>set (pr_charges repair). 0 < pc_growth c
     then \<exists>g0 g1. (kl_growth l = Some g0 \<or>
             kl_growth l = None \<and> (\<exists>b bs. budgets = b # bs \<and> g0 = plan_growth_record.truncate (sb_growth b))) \<and>
           kl_growth (norm_ledger l') = Some g1 \<and> pg_authored g1 = pg_authored g0 \<and>
           pg_added g1 = pg_added g0 + sum_list (map (pc_growth \<circ> snd) (pr_charges repair)) \<and>
           (\<forall>g. gate_growth g1 g = gate_growth g0 g +
                  (case map_of (pr_charges repair) g of Some c \<Rightarrow> pc_growth c | None \<Rightarrow> 0)) \<and>
           (\<forall>g c rest b. pr_charges repair = (g, c) # rest \<and> budget_for budgets g = Some b \<longrightarrow> pg_added g1 \<le> sb_growthCap b)
     else kl_growth (norm_ledger l') = kl_growth l"
  proof (cases "\<exists>(g, c)\<in>set (pr_charges repair). 0 < pc_growth c")
    case True
    then have kept: "kl_growth (norm_ledger l') = Some growth'" using c(3) some_growth by simp
    show ?thesis
      by (subst if_P [OF True], rule exI [of _ growth], rule exI [of _ growth'], intro conjI)
        (use c(1) kept added by_gate within in simp_all)
  next
    case False
    then show ?thesis using c(3) some_growth by simp
  qed
qed

text \<open>
  C3: settling a pending repair either charges every one of its gates, each
  by exactly its laps and within its lap cap, adds to the growth record exactly the growth of the charges, gate
  by gate and within the growth cap of the repair, clears the repair and leaves all other gates
  alone, or it leaves the ledger file untouched; and a replay after it has settled finds nothing to charge.
  A ledger without a growth record starts from the one of the first budget; a
  repair that charges no growth leaves the record as it is.
\<close>

theorem settlement_all_or_nothing:
  assumes "sees_ledger doc l" and "wf_ledger l" and "kl_pendingRepair l = Some repair"
    and "distinct (map fst (pr_charges repair))" and "\<forall>b\<in>set budgets. sb_lapCap b \<le> MAX_SAFE_INTEGER"
    and "settlePendingRepair ok_ledger_env budgets doc = (doc', res)"
  shows "(doc' = doc \<and> \<not> (\<exists>g. res = Inr (Settled, g))) \<or>
     (\<exists>l'. readKickbackLedger doc' = l' \<and> (\<exists>g. res = Inr (Settled, g)) \<and> kl_pendingRepair l' = None \<and>
        (\<forall>(g, c)\<in>set (pr_charges repair).
           laps_of (entry_or_blank (gate_of l' g)) = laps_of (entry_or_blank (gate_of l g)) + pc_laps c \<and>
           (\<exists>b. budget_for budgets g = Some b \<and> laps_of (entry_or_blank (gate_of l' g)) \<le> sb_lapCap b)) \<and>
        (\<forall>g. g \<notin> fst ` set (pr_charges repair) \<longrightarrow> gate_of l' g = gate_of l g) \<and>
        (if \<exists>(g, c)\<in>set (pr_charges repair). 0 < pc_growth c
         then \<exists>g0 g1. (kl_growth l = Some g0 \<or>
                 kl_growth l = None \<and> (\<exists>b bs. budgets = b # bs \<and> g0 = plan_growth_record.truncate (sb_growth b))) \<and>
               kl_growth l' = Some g1 \<and> pg_authored g1 = pg_authored g0 \<and>
               pg_added g1 = pg_added g0 + sum_list (map (pc_growth \<circ> snd) (pr_charges repair)) \<and>
               (\<forall>g. gate_growth g1 g = gate_growth g0 g +
                      (case map_of (pr_charges repair) g of Some c \<Rightarrow> pc_growth c | None \<Rightarrow> 0)) \<and>
               (\<forall>g c rest b. pr_charges repair = (g, c) # rest \<and> budget_for budgets g = Some b \<longrightarrow>
                  pg_added g1 \<le> sb_growthCap b)
         else kl_growth l' = kl_growth l) \<and>
        settlePendingRepair ok_ledger_env budgets doc' = (doc', Inr (SettleNone, None)))"
proof -
  have run: "leased ok_ledger_env False (settle_repair_tx budgets) doc = (doc', res)"
    using assms(6) by (simp add: settlePendingRepair_def)
  have wf: "\<forall>l' r. settle_repair_tx budgets l = Inr (Some l', r) \<longrightarrow> wf_ledger l'"
    using settle_tx_wf assms(2,5) by blast
  have nonneg: "\<forall>(g, c)\<in>set (pr_charges repair). 0 \<le> pc_growth c"
    using assms(2,3) repair_charges by (fastforce simp: wf_ledger_def nonneg_safe_def)
  from flat.run_never_partial [where tx = "settle_repair_tx budgets", OF assms(1) wf run]
  consider (fin) l' r where "settle_repair_tx budgets l = Inr (Some l', r)" "res = Inr r" "sees_ledger doc' (norm_ledger l')"
    | (no) r where "doc' = doc" "settle_repair_tx budgets l = Inr (None, r)" "res = Inr r"
    | (err) e where "doc' = doc" "res = Inl e" by blast
  then show ?thesis
  proof cases
    case err
    then show ?thesis by simp
  next
    case no
    then have "fst r \<noteq> Settled" using assms(3)
      by (auto simp: settle_repair_tx_def Let_def split: sum.splits option.splits if_splits)
    with no show ?thesis by auto
  next
    case fin
    note eff = settled_effect [OF assms(1,3) nonneg assms(4) fin(1)]
    have "settle_repair_tx budgets (norm_ledger l') = Inr (None, (SettleNone, None))"
      using wf fin(1) eff(2) by (simp add: settle_repair_tx_def require_all_def wf_norm_ledger)
    from flat.no_write [where tx = "settle_repair_tx budgets", OF fin(3) this]
    have replay: "settlePendingRepair ok_ledger_env budgets doc' = (doc', Inr (SettleNone, None))"
      by (simp add: settlePendingRepair_def)
    have "readKickbackLedger doc' = norm_ledger l'" using fin(3) by (simp add: sees_ledger_def)
    moreover have "\<exists>g. res = Inr (Settled, g)" using fin(2) eff(1) by (cases r) auto
    moreover have "kl_pendingRepair (norm_ledger l') = None" using eff(2) by simp
    ultimately show ?thesis using eff(3-5) replay
      by (intro disjI2 exI [of _ "norm_ledger l'"] conjI)
  qed
qed

definition sample_repair :: pending_repair where
  "sample_repair = \<lparr>pr_receiptId = ''round-1'',
     pr_charges = [(''prd_audit'', \<lparr>pc_laps = 1, pc_growth = 2\<rparr>), (''architecture_review_as_built'', \<lparr>pc_laps = 1, pc_growth = 0\<rparr>)],
     pr_taskIds = [''7''], pr_prdAuditCriteria = None\<rparr>"

definition sample_budgets :: "settlement_budget list" where
  "sample_budgets = map (\<lambda>g. \<lparr>sb_gate = g, sb_lapCap = 3, sb_growthCap = 8,
     sb_growth = \<lparr>pg_authored = 4, pg_added = 0, pg_byGate = [], pg_remaining = 8\<rparr>\<rparr>) [''prd_audit'', ''architecture_review_as_built'']"

definition repair_ledger :: kickback_ledger where
  "repair_ledger = emptyLedger\<lparr>kl_pendingRepair := Some sample_repair\<rparr>"

lemma repair_ledger_wf: "wf_ledger repair_ledger"
  by (simp add: wf_ledger_def repair_ledger_def emptyLedger_def sample_repair_def isPendingRepair_def
      repair_json_def req_def opt_def charge_json_def isPendingRepairGateCharge_def strings_json_def blank_def js_space_def
      nonneg_safe_def MAX_SAFE_INTEGER_def repair_gates_def set_size_def)

lemma sample_settles: "\<exists>l' g. settle_repair_tx sample_budgets repair_ledger = Inr (Some l', (Settled, Some g))"
proof -
  have ok: "require_all [requireReadableLedger repair_ledger, requireReadableGrowth repair_ledger] = Inr ()"
    "\<forall>g. requireReadableGate repair_ledger g = Inr ()"
    using repair_ledger_wf by (simp_all add: require_all_def wf_readable)
  have p: "kl_pendingRepair repair_ledger = Some sample_repair" by (simp add: repair_ledger_def)
  show ?thesis
    unfolding settle_repair_tx_def ok p
    using ok(2)
    by (simp add: sample_repair_def sample_budgets_def budget_for_def repair_ledger_def emptyLedger_def
         projectPendingGrowth_def entry_or_blank_def laps_of_def blank_gate_entry_def prepareGrowth_def growthTotalsAgree_def
         plan_growth_record.truncate_def growth_json_def isPlanGrowthRecord_def req_def nonneg_safe_def MAX_SAFE_INTEGER_def blank_def js_space_def)
qed

theorem settlement_all_or_nothing_witness:
  "\<exists>doc doc' g r. sees_ledger doc repair_ledger \<and>
     settlePendingRepair ok_ledger_env sample_budgets doc = (doc', Inr (Settled, g)) \<and>
     laps_of (entry_or_blank (gate_of (readKickbackLedger doc') ''prd_audit'')) = 1 \<and>
     kl_growth (readKickbackLedger doc') = Some r \<and> pg_added r = 2 \<and> gate_growth r ''prd_audit'' = 2 \<and>
     settlePendingRepair ok_ledger_env sample_budgets doc' = (doc', Inr (SettleNone, None))"
proof -
  let ?doc = "LedgerJson (JObj (ledger_fields repair_ledger))"
  have p: "kl_pendingRepair repair_ledger = Some sample_repair" by (simp add: repair_ledger_def)
  have "norm_ledger repair_ledger = repair_ledger"
    by (simp add: norm_ledger_def repair_ledger_def emptyLedger_def)
  then have sees: "sees_ledger ?doc repair_ledger"
    using read_written [OF repair_ledger_wf] readable_written [OF repair_ledger_wf] by (simp add: sees_ledger_def)
  obtain l' g where tx: "settle_repair_tx sample_budgets repair_ledger = Inr (Some l', (Settled, Some g))"
    using sample_settles by blast
  have caps: "\<forall>b\<in>set sample_budgets. sb_lapCap b \<le> MAX_SAFE_INTEGER"
    by (simp add: sample_budgets_def MAX_SAFE_INTEGER_def)
  have wf': "wf_ledger l'" by (rule settle_tx_wf [OF repair_ledger_wf tx caps])
  obtain doc' where d: "settlePendingRepair ok_ledger_env sample_budgets ?doc = (doc', Inr (Settled, Some g))"
    using flat.commit [where tx = "settle_repair_tx sample_budgets", OF sees tx wf']
    by (auto simp: settlePendingRepair_def)
  have dist: "distinct (map fst (pr_charges sample_repair))" by (simp add: sample_repair_def)
  note all = settlement_all_or_nothing [OF sees repair_ledger_wf p dist caps d]
  have grows: "\<exists>(g, c)\<in>set (pr_charges sample_repair). 0 < pc_growth c" by (simp add: sample_repair_def)
  from all have charged: "\<forall>(g, c)\<in>set (pr_charges sample_repair).
       laps_of (entry_or_blank (gate_of (readKickbackLedger doc') g)) =
         laps_of (entry_or_blank (gate_of repair_ledger g)) + pc_laps c"
    and replay: "settlePendingRepair ok_ledger_env sample_budgets doc' = (doc', Inr (SettleNone, None))"
    by blast+
  from all grows obtain g0 r where r: "kl_growth repair_ledger = Some g0 \<or>
      kl_growth repair_ledger = None \<and> (\<exists>b bs. sample_budgets = b # bs \<and> g0 = plan_growth_record.truncate (sb_growth b))"
      "kl_growth (readKickbackLedger doc') = Some r"
      "pg_added r = pg_added g0 + sum_list (map (pc_growth \<circ> snd) (pr_charges sample_repair))"
      "gate_growth r ''prd_audit'' = gate_growth g0 ''prd_audit'' +
         (case map_of (pr_charges sample_repair) ''prd_audit'' of Some c \<Rightarrow> pc_growth c | None \<Rightarrow> 0)"
    by (simp only: if_True) blast
  have "pg_added r = 2" "gate_growth r ''prd_audit'' = 2"
    using r(1,3,4)
    by (auto simp: repair_ledger_def emptyLedger_def sample_repair_def sample_budgets_def gate_growth_def
        plan_growth_record.truncate_def)
  moreover have "laps_of (entry_or_blank (gate_of repair_ledger g)) = 0" for g
    by (simp add: repair_ledger_def emptyLedger_def gate_of_def entry_or_blank_def blank_gate_entry_def laps_of_def)
  moreover have "(''prd_audit'', \<lparr>pc_laps = 1, pc_growth = 2\<rparr>) \<in> set (pr_charges sample_repair)"
    by (simp add: sample_repair_def)
  ultimately have "laps_of (entry_or_blank (gate_of (readKickbackLedger doc') ''prd_audit'')) = 1 \<and>
      pg_added r = 2 \<and> gate_growth r ''prd_audit'' = 2" using charged by fastforce
  with replay sees d r(2) show ?thesis by blast
qed

end
