(* ===== verification/Lease.thy ===== *)
theory Lease
  imports Json
begin

text \<open>
  The lease that serialises writers of one state file (\<^verbatim>\<open>engine/conduct-state-lease.ts\<close>). First the
  validation of the records found on disk, then the protocol: every \<^verbatim>\<open>await\<close> of \<^verbatim>\<open>acquire\<close>,
  \<^verbatim>\<open>recoverDeadOwner\<close> and \<^verbatim>\<open>release\<close> is one atomic step of a contender on the lease directory, and
  any number of contenders in any number of processes interleave, fail, time out and die.
\<close>

section \<open>Records on disk\<close>

record lease_owner_record =
  lr_pid :: int
  lr_token :: string
  lr_acquiredAt :: string

record claim_identity =
  ci_pid :: int
  ci_token :: string
  ci_claimedAt :: string

datatype parsed_claim =
    InvalidClaim
  | LegacyClaim claim_identity
  | BoundClaim claim_identity string "string option"

definition positive_pid :: "jval option \<Rightarrow> int option" where
  "positive_pid v = (case v of Some (JNum n) \<Rightarrow> if 0 < n then Some n else None | _ \<Rightarrow> None)"

definition nonempty_text :: "jval option \<Rightarrow> string option" where
  "nonempty_text v = (case v of Some (JStr s) \<Rightarrow> if s \<noteq> [] then Some s else None | _ \<Rightarrow> None)"

text \<open>\<open>is_date s\<close> is \<^verbatim>\<open>!Number.isNaN(Date.parse(s))\<close>; \<open>None\<close> as a parsed value is text that is no JSON.\<close>

definition date_text :: "(string \<Rightarrow> bool) \<Rightarrow> jval option \<Rightarrow> string option" where
  "date_text is_date v = (case v of Some (JStr s) \<Rightarrow> if is_date s then Some s else None | _ \<Rightarrow> None)"

definition parseLeaseOwner :: "(string \<Rightarrow> bool) \<Rightarrow> jval option \<Rightarrow> lease_owner_record option" where
  "parseLeaseOwner is_date parsed =
     (case parsed of None \<Rightarrow> None | Some v \<Rightarrow>
        if jget v ''version'' \<noteq> Some (JNum 1) then None
        else case (positive_pid (jget v ''pid''), nonempty_text (jget v ''token''), date_text is_date (jget v ''acquiredAt'')) of
          (Some pid, Some token, Some at) \<Rightarrow> Some \<lparr>lr_pid = pid, lr_token = token, lr_acquiredAt = at\<rparr>
        | _ \<Rightarrow> None)"

definition parseRecoveryClaim :: "(string \<Rightarrow> bool) \<Rightarrow> jval option \<Rightarrow> parsed_claim" where
  "parseRecoveryClaim is_date parsed =
     (case parsed of None \<Rightarrow> InvalidClaim | Some v \<Rightarrow>
        if jget v ''version'' \<noteq> Some (JNum 1) then InvalidClaim
        else case (positive_pid (jget v ''pid''), nonempty_text (jget v ''token''), date_text is_date (jget v ''claimedAt'')) of
          (Some pid, Some token, Some at) \<Rightarrow>
            (let identity = \<lparr>ci_pid = pid, ci_token = token, ci_claimedAt = at\<rparr>
             in if jhas v ''ownerToken'' \<noteq> jhas v ''predecessorToken'' then InvalidClaim
                else if \<not> jhas v ''ownerToken'' then LegacyClaim identity
                else case (nonempty_text (jget v ''ownerToken''), jget v ''predecessorToken'') of
                    (Some owner, Some JNull) \<Rightarrow> BoundClaim identity owner None
                  | (Some owner, Some (JStr p)) \<Rightarrow>
                      if p \<noteq> [] then BoundClaim identity owner (Some p) else InvalidClaim
                  | _ \<Rightarrow> InvalidClaim)
        | _ \<Rightarrow> InvalidClaim)"

definition claim_json :: "claim_identity \<Rightarrow> string \<Rightarrow> string option \<Rightarrow> jval" where
  "claim_json identity owner predecessor = JObj
     [(''version'', JNum 1), (''pid'', JNum (ci_pid identity)), (''token'', JStr (ci_token identity)),
      (''claimedAt'', JStr (ci_claimedAt identity)), (''ownerToken'', JStr owner),
      (''predecessorToken'', (case predecessor of None \<Rightarrow> JNull | Some p \<Rightarrow> JStr p))]"

definition owner_json :: "lease_owner_record \<Rightarrow> jval" where
  "owner_json owner = JObj [(''version'', JNum 1), (''pid'', JNum (lr_pid owner)), (''token'', JStr (lr_token owner)),
     (''acquiredAt'', JStr (lr_acquiredAt owner))]"

text \<open>What the protocol writes is what its readers accept, so the protocol below keeps parsed records.\<close>

lemma owner_roundtrip:
  "0 < lr_pid o' \<Longrightarrow> lr_token o' \<noteq> [] \<Longrightarrow> is_date (lr_acquiredAt o') \<Longrightarrow> parseLeaseOwner is_date (Some (owner_json o')) = Some o'"
  by (simp add: parseLeaseOwner_def owner_json_def positive_pid_def nonempty_text_def date_text_def)

lemma claim_roundtrip:
  "0 < ci_pid i \<Longrightarrow> ci_token i \<noteq> [] \<Longrightarrow> is_date (ci_claimedAt i) \<Longrightarrow> owner \<noteq> [] \<Longrightarrow> predecessor \<noteq> Some [] \<Longrightarrow>
     parseRecoveryClaim is_date (Some (claim_json i owner predecessor)) = BoundClaim i owner predecessor"
  by (cases predecessor)
     (simp_all add: parseRecoveryClaim_def claim_json_def positive_pid_def nonempty_text_def date_text_def jhas_def)

section \<open>The protocol state\<close>

text \<open>
  A contender is one call of \<^verbatim>\<open>acquire\<close> with the handle it may return. Its fresh token is its own name; its
  claim tokens carry a counter. \<open>proc_of\<close> is the process it runs in, \<open>pid_of\<close> the number the
  operating system gives that process, which a later process may get again.
\<close>

type_synonym contender = nat
type_synonym process_id = nat
type_synonym claim_token = "contender \<times> nat"

record lease_env =
  proc_of :: "contender \<Rightarrow> process_id"
  pid_of :: "process_id \<Rightarrow> int"

record lease_owner =
  lo_pid :: int
  lo_token :: contender

record recovery_claim =
  cl_pid :: int
  cl_token :: claim_token
  cl_ownerToken :: contender
  cl_predecessor :: "claim_token option"

text \<open>
  \<open>RootSlot\<close> is \<^verbatim>\<open>recovery.json\<close>; a successor slot is the file named by the digest of the owner token
  and the predecessor token, which distinct pairs do not share.
\<close>

datatype claim_slot = RootSlot | SuccessorSlot contender "claim_token option"

record lease_dir =
  ld_owner :: "lease_owner option"
  ld_claims :: "claim_slot \<rightharpoonup> recovery_claim"

datatype acquire_failure = TimedOut | RecoveryRefused | Interrupted | FilesystemFailed

datatype release_failure = OwnershipLost | RecoveryInProgress | ReleaseError

text \<open>Where a contender is: each value names the operation it performs next, or its outcome.\<close>

datatype lease_pc =
    Acquiring
  | Publishing
  | PublishFailed
  | CleaningUp
  | Holding
  | ReleaseReadRoot
  | ReleaseReadAuthority
  | Releasing
  | Released
  | ReleaseFailed release_failure
  | AcquireFailed acquire_failure
  | Retrying bool
  | ReadingOwner
  | ProbingOwner lease_owner
  | ClaimingRoot lease_owner
  | Walking lease_owner claim_slot "claim_token option" bool "claim_token list"
  | ProbingClaim lease_owner recovery_claim bool "claim_token list"
  | WritingClaim lease_owner claim_slot "claim_token option" bool "claim_token list"
  | Confirming lease_owner claim_slot recovery_claim bool bool
  | Moving lease_owner claim_slot recovery_claim
  | Quarantined lease_owner claim_slot recovery_claim lease_dir
  | RemovingQuarantine

definition own :: "lease_env \<Rightarrow> contender \<Rightarrow> lease_owner" where
  "own env c = \<lparr>lo_pid = pid_of env (proc_of env c), lo_token = c\<rparr>"

definition claimFor :: "lease_env \<Rightarrow> contender \<Rightarrow> nat \<Rightarrow> lease_owner \<Rightarrow> claim_token option \<Rightarrow> recovery_claim" where
  "claimFor env c n owner predecessor =
     \<lparr>cl_pid = pid_of env (proc_of env c), cl_token = (c, n), cl_ownerToken = lo_token owner, cl_predecessor = predecessor\<rparr>"

text \<open>
  \<open>processIsLive\<close> may call a dead process live (its number was reused, or it may not be probed), never a
  live one dead. It may also throw.
\<close>

definition provably_dead :: "lease_env \<Rightarrow> process_id set \<Rightarrow> int \<Rightarrow> bool" where
  "provably_dead env live pid = (\<forall>p\<in>live. pid_of env p \<noteq> pid)"

definition dir_owner :: "lease_dir option \<Rightarrow> lease_owner option" where
  "dir_owner D = Option.bind D ld_owner"

definition dir_claim :: "lease_dir option \<Rightarrow> claim_slot \<Rightarrow> recovery_claim option" where
  "dir_claim D slot = Option.bind D (\<lambda>d. ld_claims d slot)"

definition foreign_root :: "contender \<Rightarrow> recovery_claim \<Rightarrow> bool" where
  "foreign_root token k = (cl_ownerToken k \<noteq> token \<and> cl_predecessor k = None)"

section \<open>Steps of one contender\<close>

text \<open>
  \<open>contender_step env live c (D, pc, n) (D', pc', n')\<close>: contender \<open>c\<close> performs its next operation on the lease
  directory \<open>D\<close>; \<open>n\<close> counts the claim tokens it has drawn.
\<close>

inductive contender_step ::
  "lease_env \<Rightarrow> process_id set \<Rightarrow> contender \<Rightarrow> lease_dir option \<times> lease_pc \<times> nat
     \<Rightarrow> lease_dir option \<times> lease_pc \<times> nat \<Rightarrow> bool"
  for env :: lease_env and live :: "process_id set" and c :: contender where
  create: "contender_step env live c (None, Acquiring, n)
      (Some \<lparr>ld_owner = None, ld_claims = Map.empty\<rparr>, Publishing, n)"
| held: "contender_step env live c (Some d, Acquiring, n) (Some d, ReadingOwner, n)"
| create_error: "contender_step env live c (D, Acquiring, n) (D, AcquireFailed FilesystemFailed, n)"
| publish: "ld_owner d = None \<Longrightarrow> contender_step env live c (Some d, Publishing, n)
      (Some (d\<lparr>ld_owner := Some (own env c)\<rparr>), Holding, n)"
| publish_error: "contender_step env live c (D, Publishing, n) (D, PublishFailed, n)"
| cleanup_absent: "dir_owner D = None \<Longrightarrow> contender_step env live c (D, PublishFailed, n) (D, CleaningUp, n)"
| cleanup_present: "contender_step env live c (D, PublishFailed, n) (D, AcquireFailed FilesystemFailed, n)"
| cleanup_remove: "contender_step env live c (D, CleaningUp, n) (None, AcquireFailed FilesystemFailed, n)"
| cleanup_error: "contender_step env live c (D, CleaningUp, n) (D, AcquireFailed FilesystemFailed, n)"
| release_owner: "dir_owner D = Some (own env c) \<Longrightarrow>
      contender_step env live c (D, Holding, n) (D, ReleaseReadRoot, n)"
| release_lost: "dir_owner D \<noteq> None \<Longrightarrow> dir_owner D \<noteq> Some (own env c) \<Longrightarrow>
      contender_step env live c (D, Holding, n) (D, ReleaseFailed OwnershipLost, n)"
| release_owner_error: "contender_step env live c (D, Holding, n) (D, ReleaseFailed ReleaseError, n)"
| release_no_root: "dir_claim D RootSlot = None \<Longrightarrow>
      contender_step env live c (D, ReleaseReadRoot, n) (D, Releasing, n)"
| release_foreign_root: "dir_claim D RootSlot = Some k \<Longrightarrow> foreign_root c k \<Longrightarrow>
      contender_step env live c (D, ReleaseReadRoot, n) (D, ReleaseReadAuthority, n)"
| release_own_root: "dir_claim D RootSlot = Some k \<Longrightarrow> \<not> foreign_root c k \<Longrightarrow>
      contender_step env live c (D, ReleaseReadRoot, n) (D, ReleaseFailed RecoveryInProgress, n)"
| release_root_error: "contender_step env live c (D, ReleaseReadRoot, n) (D, ReleaseFailed ReleaseError, n)"
| release_no_authority: "dir_claim D (SuccessorSlot c None) = None \<Longrightarrow>
      contender_step env live c (D, ReleaseReadAuthority, n) (D, Releasing, n)"
| release_authority: "dir_claim D (SuccessorSlot c None) = Some k \<Longrightarrow>
      contender_step env live c (D, ReleaseReadAuthority, n) (D, ReleaseFailed RecoveryInProgress, n)"
| release_authority_error: "contender_step env live c (D, ReleaseReadAuthority, n) (D, ReleaseFailed ReleaseError, n)"
| release_remove: "contender_step env live c (Some d, Releasing, n) (None, Released, n)"
| release_remove_error: "contender_step env live c (D, Releasing, n) (D, ReleaseFailed ReleaseError, n)"
| retry: "contender_step env live c (D, Retrying waits, n) (D, Acquiring, n)"
| retry_timeout: "contender_step env live c (D, Retrying waits, n) (D, AcquireFailed TimedOut, n)"
| retry_interrupted: "contender_step env live c (D, Retrying True, n) (D, AcquireFailed Interrupted, n)"
| owner_absent: "dir_owner D = None \<Longrightarrow> contender_step env live c (D, ReadingOwner, n) (D, Retrying True, n)"
| owner_read: "dir_owner D = Some o' \<Longrightarrow> contender_step env live c (D, ReadingOwner, n) (D, ProbingOwner o', n)"
| owner_error: "contender_step env live c (D, ReadingOwner, n) (D, AcquireFailed RecoveryRefused, n)"
| owner_live: "contender_step env live c (D, ProbingOwner o', n) (D, Retrying True, n)"
| owner_unverifiable: "contender_step env live c (D, ProbingOwner o', n) (D, AcquireFailed RecoveryRefused, n)"
| owner_dead: "provably_dead env live (lo_pid o') \<Longrightarrow>
      contender_step env live c (D, ProbingOwner o', n) (D, ClaimingRoot o', n)"
| owner_dead_late: "provably_dead env live (lo_pid o') \<Longrightarrow>
      contender_step env live c (D, ProbingOwner o', n) (D, AcquireFailed TimedOut, n)"
| root_claimed: "ld_claims d RootSlot = None \<Longrightarrow> k = claimFor env c n o' None \<Longrightarrow>
      contender_step env live c (Some d, ClaimingRoot o', n)
        (Some (d\<lparr>ld_claims := (ld_claims d)(RootSlot \<mapsto> k)\<rparr>), Confirming o' RootSlot k False False, Suc n)"
| root_exists: "dir_claim D RootSlot \<noteq> None \<Longrightarrow>
      contender_step env live c (D, ClaimingRoot o', n) (D, Walking o' RootSlot None False [], n)"
| root_vanished: "contender_step env live c (None, ClaimingRoot o', n) (None, Retrying False, n)"
| root_error: "contender_step env live c (D, ClaimingRoot o', n) (D, AcquireFailed RecoveryRefused, n)"
| walk_late: "contender_step env live c (D, Walking o' slot pred cur vs, n) (D, AcquireFailed TimedOut, n)"
| walk_error: "contender_step env live c (D, Walking o' slot pred cur vs, n) (D, AcquireFailed RecoveryRefused, n)"
| walk_vanished: "dir_claim D slot = None \<Longrightarrow>
      contender_step env live c (D, Walking o' slot pred cur vs, n) (D, Retrying False, n)"
| walk_foreign: "dir_claim D slot = Some k \<Longrightarrow> \<not> cur \<Longrightarrow> foreign_root (lo_token o') k \<Longrightarrow> pred = None \<Longrightarrow>
      contender_step env live c (D, Walking o' slot pred cur vs, n)
        (D, WritingClaim o' (SuccessorSlot (lo_token o') None) None True vs, n)"
| walk_inconsistent: "dir_claim D slot = Some k \<Longrightarrow> cur \<or> \<not> foreign_root (lo_token o') k \<or> pred \<noteq> None \<Longrightarrow>
      cl_ownerToken k \<noteq> lo_token o' \<or> cl_predecessor k \<noteq> pred \<or> cl_token k \<in> set vs \<Longrightarrow>
      contender_step env live c (D, Walking o' slot pred cur vs, n) (D, AcquireFailed RecoveryRefused, n)"
| walk_claim: "dir_claim D slot = Some k \<Longrightarrow> cl_ownerToken k = lo_token o' \<Longrightarrow> cl_predecessor k = pred \<Longrightarrow> cl_token k \<notin> set vs \<Longrightarrow>
      contender_step env live c (D, Walking o' slot pred cur vs, n) (D, ProbingClaim o' k cur (cl_token k # vs), n)"
| claimant_live: "contender_step env live c (D, ProbingClaim o' k cur vs, n) (D, Retrying True, n)"
| claimant_unverifiable: "contender_step env live c (D, ProbingClaim o' k cur vs, n) (D, AcquireFailed RecoveryRefused, n)"
| claimant_dead_late: "provably_dead env live (cl_pid k) \<Longrightarrow>
      contender_step env live c (D, ProbingClaim o' k cur vs, n) (D, AcquireFailed TimedOut, n)"
| claimant_dead: "provably_dead env live (cl_pid k) \<Longrightarrow>
      contender_step env live c (D, ProbingClaim o' k cur vs, n)
        (D, WritingClaim o' (SuccessorSlot (lo_token o') (Some (cl_token k))) (Some (cl_token k)) cur vs, n)"
| successor_claimed: "ld_claims d slot = None \<Longrightarrow> k = claimFor env c n o' pred \<Longrightarrow>
      contender_step env live c (Some d, WritingClaim o' slot pred cur vs, n)
        (Some (d\<lparr>ld_claims := (ld_claims d)(slot \<mapsto> k)\<rparr>), Confirming o' slot k False False, Suc n)"
| successor_exists: "dir_claim D slot \<noteq> None \<Longrightarrow>
      contender_step env live c (D, WritingClaim o' slot pred cur vs, n) (D, Walking o' slot pred cur vs, n)"
| successor_vanished: "contender_step env live c (None, WritingClaim o' slot pred cur vs, n) (None, Retrying False, n)"
| successor_error: "contender_step env live c (D, WritingClaim o' slot pred cur vs, n) (D, AcquireFailed RecoveryRefused, n)"
| confirm_late: "contender_step env live c (D, Confirming o' slot k False False, n) (D, AcquireFailed TimedOut, n)"
| confirm_owner: "dir_owner D = Some o' \<Longrightarrow>
      contender_step env live c (D, Confirming o' slot k okO okC, n) (D, Confirming o' slot k True okC, n)"
| confirm_claim: "dir_claim D slot = Some k \<Longrightarrow>
      contender_step env live c (D, Confirming o' slot k okO okC, n) (D, Confirming o' slot k okO True, n)"
| confirm_changed: "dir_owner D \<noteq> Some o' \<or> dir_claim D slot \<noteq> Some k \<Longrightarrow>
      contender_step env live c (D, Confirming o' slot k okO okC, n) (D, Retrying False, n)"
| confirm_error: "contender_step env live c (D, Confirming o' slot k okO okC, n) (D, AcquireFailed RecoveryRefused, n)"
| confirmed: "contender_step env live c (D, Confirming o' slot k True True, n) (D, Moving o' slot k, n)"
| move: "contender_step env live c (Some d, Moving o' slot k, n) (None, Quarantined o' slot k d, n)"
| move_vanished: "contender_step env live c (None, Moving o' slot k, n) (None, Retrying False, n)"
| move_error: "contender_step env live c (D, Moving o' slot k, n) (D, AcquireFailed RecoveryRefused, n)"
| quarantine_confirmed: "ld_owner q = Some o' \<Longrightarrow> ld_claims q slot = Some k \<Longrightarrow>
      contender_step env live c (D, Quarantined o' slot k q, n) (D, RemovingQuarantine, n)"
| quarantine_refused: "contender_step env live c (D, Quarantined o' slot k q, n) (D, AcquireFailed RecoveryRefused, n)"
| recovered: "contender_step env live c (D, RemovingQuarantine, n) (D, Acquiring, n)"
| recovered_error: "contender_step env live c (D, RemovingQuarantine, n) (D, AcquireFailed RecoveryRefused, n)"

section \<open>The system\<close>

record lease_world =
  lw_dir :: "lease_dir option"
  lw_pc :: "contender \<Rightarrow> lease_pc"
  lw_seq :: "contender \<Rightarrow> nat"
  lw_live :: "process_id set"

text \<open>A contender of a live process takes a step, or a process dies and its contenders stop for good.\<close>

inductive lease_step :: "lease_env \<Rightarrow> lease_world \<Rightarrow> lease_world \<Rightarrow> bool" for env :: lease_env where
  act: "proc_of env c \<in> lw_live w \<Longrightarrow>
      contender_step env (lw_live w) c (lw_dir w, lw_pc w c, lw_seq w c) (D', pc', n') \<Longrightarrow>
      lease_step env w (w\<lparr>lw_dir := D', lw_pc := (lw_pc w)(c := pc'), lw_seq := (lw_seq w)(c := n')\<rparr>)"
| die: "lease_step env w (w\<lparr>lw_live := lw_live w - {p}\<rparr>)"

definition lease_start :: "process_id set \<Rightarrow> lease_world" where
  "lease_start processes = \<lparr>lw_dir = None, lw_pc = (\<lambda>_. Acquiring), lw_seq = (\<lambda>_. 0), lw_live = processes\<rparr>"

definition lease_reachable :: "lease_env \<Rightarrow> process_id set \<Rightarrow> lease_world \<Rightarrow> bool" where
  "lease_reachable env processes w = (lease_step env)\<^sup>*\<^sup>* (lease_start processes) w"

text \<open>A contender is inside from the success of its acquisition to the removal of the directory on release.\<close>

fun inside :: "lease_pc \<Rightarrow> bool" where
  "inside Holding = True"
| "inside ReleaseReadRoot = True"
| "inside ReleaseReadAuthority = True"
| "inside Releasing = True"
| "inside _ = False"

section \<open>Messages of a timeout\<close>

datatype lease_blocker =
    OwnerLive int | ClaimantLive int | InitializingOwner | ChangedOwner | DeadOwner int | UnresolvedRecovery int

definition timeoutMessage :: "string \<Rightarrow> int \<Rightarrow> lease_blocker option \<Rightarrow> string" where
  "timeoutMessage leaseName waitTimeoutMs blocker =
     ''Unable to acquire '' @ leaseName @ '' lease within '' @ int_str waitTimeoutMs @ ''ms'' @
     (case blocker of
        Some (OwnerLive pid) \<Rightarrow> ''; owner pid '' @ int_str pid @ '' is live''
      | Some (ClaimantLive pid) \<Rightarrow> ''; recovery claimant pid '' @ int_str pid @ '' is live''
      | Some InitializingOwner \<Rightarrow> ''; lease owner is initializing''
      | Some ChangedOwner \<Rightarrow> ''; lease ownership changed during acquisition''
      | Some (DeadOwner pid) \<Rightarrow> ''; dead owner pid '' @ int_str pid @ '' could not be recovered''
      | Some (UnresolvedRecovery pid) \<Rightarrow> ''; recovery claimant pid '' @ int_str pid @ '' is unresolved''
      | None \<Rightarrow> [])"

end
