(* ===== verification/LeaseSafety.thy ===== *)
theory LeaseSafety
  imports Lease
begin

text \<open>
  Why the lease excludes: within the directory of one owner the claims form a chain in which only the
  last claimant can be alive, so at most one live contender has the authority to move a directory,
  and then its owner is dead. The invariant below says this of every reachable state.
\<close>

section \<open>The chain of recovery claims\<close>

definition base_slot :: "contender \<Rightarrow> (claim_slot \<rightharpoonup> recovery_claim) \<Rightarrow> claim_slot" where
  "base_slot token cl =
     (case cl RootSlot of
        Some k \<Rightarrow> if cl_ownerToken k = token then RootSlot else SuccessorSlot token None
      | None \<Rightarrow> RootSlot)"

definition next_slot :: "contender \<Rightarrow> recovery_claim \<Rightarrow> claim_slot" where
  "next_slot token k = SuccessorSlot token (Some (cl_token k))"

fun chain_from :: "(claim_slot \<rightharpoonup> recovery_claim) \<Rightarrow> contender \<Rightarrow> claim_slot \<Rightarrow> recovery_claim list \<Rightarrow> bool" where
  "chain_from cl token slot [] = (cl slot = None)"
| "chain_from cl token slot (k # ks) = (cl slot = Some k \<and> chain_from cl token (next_slot token k) ks)"

fun end_slot :: "contender \<Rightarrow> claim_slot \<Rightarrow> recovery_claim list \<Rightarrow> claim_slot" where
  "end_slot token slot [] = slot"
| "end_slot token slot (k # ks) = end_slot token (next_slot token k) ks"

lemma chain_end_free: "chain_from cl token slot ks \<Longrightarrow> cl (end_slot token slot ks) = None"
  by (induction ks arbitrary: slot) auto

lemma chain_add:
  "chain_from cl token slot ks \<Longrightarrow> s = end_slot token slot ks \<Longrightarrow> cl (next_slot token k) = None \<Longrightarrow> next_slot token k \<noteq> s \<Longrightarrow>
     chain_from (cl(s \<mapsto> k)) token slot (ks @ [k])"
proof (induction ks arbitrary: slot)
  case (Cons x ks)
  have "s \<noteq> slot" using chain_end_free [OF Cons.prems(1)] Cons.prems(1,2) by auto
  with Cons show ?case by simp
qed simp

lemma chain_other:
  "chain_from cl token slot ks \<Longrightarrow> cl s = None \<Longrightarrow> s \<noteq> end_slot token slot ks \<Longrightarrow> chain_from (cl(s \<mapsto> k)) token slot ks"
proof (induction ks arbitrary: slot)
  case (Cons x ks)
  then have "s \<noteq> slot" by auto
  with Cons show ?case by simp
qed simp

lemma chain_not_last:
  "chain_from cl token slot ks \<Longrightarrow> k \<in> set ks \<Longrightarrow> cl (next_slot token k) = None \<Longrightarrow> k = last ks"
proof (induction ks arbitrary: slot)
  case (Cons x ks)
  show ?case
  proof (cases "ks = []")
    case False
    then obtain y ys where "ks = y # ys" by (meson neq_Nil_conv)
    with Cons.prems have "cl (next_slot token x) \<noteq> None" by simp
    with Cons.prems(2,3) have "k \<in> set ks" by auto
    then show ?thesis using Cons.IH [of "next_slot token x"] Cons.prems(1,3) False by simp
  qed (use Cons.prems in simp)
qed simp

lemma end_slot_last: "ks \<noteq> [] \<Longrightarrow> end_slot token slot ks = next_slot token (last ks)"
  by (induction ks arbitrary: slot) (auto split: if_splits)

definition gone :: "lease_env \<Rightarrow> process_id set \<Rightarrow> contender \<Rightarrow> bool" where
  "gone env live c = (proc_of env c \<notin> live)"

definition claimant :: "recovery_claim \<Rightarrow> contender" where
  "claimant k = fst (cl_token k)"

text \<open>The claims bound to one owner: a chain from the base slot whose claimants but the last are gone.\<close>

definition chain_ok :: "lease_env \<Rightarrow> process_id set \<Rightarrow> (claim_slot \<rightharpoonup> recovery_claim) \<Rightarrow> contender \<Rightarrow> bool" where
  "chain_ok env live cl token =
     (\<exists>ks. chain_from cl token (base_slot token cl) ks \<and>
        set ks = {k. cl_ownerToken k = token \<and> k \<in> ran cl} \<and>
        (\<forall>k\<in>set (butlast ks). gone env live (claimant k)))"

lemma chain_unique_live:
  assumes "chain_ok env live cl token" "k \<in> ran cl" "k' \<in> ran cl" "cl_ownerToken k = token" "cl_ownerToken k' = token"
    "\<not> gone env live (claimant k)" "\<not> gone env live (claimant k')"
  shows "k = k'"
proof -
  obtain ks where ks: "set ks = {k. cl_ownerToken k = token \<and> k \<in> ran cl}" "\<forall>k\<in>set (butlast ks). gone env live (claimant k)"
    using assms(1) by (auto simp: chain_ok_def)
  then have "x = last ks" if "x \<in> set ks" "\<not> gone env live (claimant x)" for x
    using that by (metis append_butlast_last_id empty_iff empty_set in_set_conv_decomp list.set_cases rotate1.simps(2) set_ConsD set_rotate1)
  with ks(1) assms(2-) show ?thesis by auto
qed

section \<open>The invariant\<close>

fun published :: "lease_pc \<Rightarrow> bool" where
  "published Released = True"
| "published (ReleaseFailed r) = True"
| "published pc = inside pc"

text \<open>The labels of a claim in its slot, for tokens drawn so far.\<close>

definition issued :: "lease_world \<Rightarrow> claim_token \<Rightarrow> bool" where
  "issued w t = (snd t < lw_seq w (fst t))"

definition slot_matches :: "contender \<Rightarrow> claim_slot \<Rightarrow> claim_token option \<Rightarrow> bool" where
  "slot_matches token slot pred = ((slot = RootSlot \<and> pred = None) \<or> slot = SuccessorSlot token pred)"

definition claim_labels :: "lease_env \<Rightarrow> lease_world \<Rightarrow> claim_slot \<Rightarrow> recovery_claim \<Rightarrow> bool" where
  "claim_labels env w slot k =
     (cl_pid k = pid_of env (proc_of env (claimant k)) \<and> issued w (cl_token k) \<and>
      published (lw_pc w (cl_ownerToken k)) \<and> gone env (lw_live w) (cl_ownerToken k) \<and>
      slot_matches (cl_ownerToken k) slot (cl_predecessor k) \<and>
      (\<forall>t. cl_predecessor k = Some t \<longrightarrow> issued w t))"

definition owner_labels :: "lease_env \<Rightarrow> lease_world \<Rightarrow> lease_owner \<Rightarrow> bool" where
  "owner_labels env w o' = (o' = own env (lo_token o') \<and> published (lw_pc w (lo_token o')))"

definition dir_ok :: "lease_env \<Rightarrow> lease_world \<Rightarrow> lease_dir \<Rightarrow> bool" where
  "dir_ok env w d =
     ((\<forall>o'. ld_owner d = Some o' \<longrightarrow> owner_labels env w o' \<and> chain_ok env (lw_live w) (ld_claims d) (lo_token o')) \<and>
      (\<forall>slot k. ld_claims d slot = Some k \<longrightarrow> claim_labels env w slot k))"

text \<open>What a contender that recovers from owner \<open>o'\<close> relies on, if the directory is still that owner's.\<close>

definition slot_known :: "lease_env \<Rightarrow> lease_world \<Rightarrow> lease_owner \<Rightarrow> claim_slot \<Rightarrow> claim_token option \<Rightarrow> bool" where
  "slot_known env w o' slot pred =
     (slot_matches (lo_token o') slot pred \<and>
      (\<forall>t. pred = Some t \<longrightarrow> issued w t \<and> gone env (lw_live w) (fst t)) \<and>
      (\<forall>d. lw_dir w = Some d \<and> ld_owner d = Some o' \<longrightarrow>
         (slot = SuccessorSlot (lo_token o') None \<longrightarrow> (\<exists>k. ld_claims d RootSlot = Some k \<and> cl_ownerToken k \<noteq> lo_token o')) \<and>
         (\<forall>t. pred = Some t \<longrightarrow> (\<exists>k. k \<in> ran (ld_claims d) \<and> cl_ownerToken k = lo_token o' \<and> cl_token k = t))))"

definition condemned :: "lease_env \<Rightarrow> lease_world \<Rightarrow> lease_owner \<Rightarrow> bool" where
  "condemned env w o' = (owner_labels env w o' \<and> gone env (lw_live w) (lo_token o'))"

definition claim_held :: "lease_env \<Rightarrow> lease_world \<Rightarrow> contender \<Rightarrow> lease_owner \<Rightarrow> claim_slot \<Rightarrow> recovery_claim \<Rightarrow> bool" where
  "claim_held env w c o' slot k =
     (condemned env w o' \<and> claimant k = c \<and> cl_ownerToken k = lo_token o' \<and>
      (\<forall>d. lw_dir w = Some d \<and> ld_owner d = Some o' \<longrightarrow> ld_claims d slot = Some k))"

fun pc_knows :: "lease_env \<Rightarrow> lease_world \<Rightarrow> contender \<Rightarrow> lease_pc \<Rightarrow> bool" where
  "pc_knows env w c (ProbingOwner o') = owner_labels env w o'"
| "pc_knows env w c (ClaimingRoot o') = condemned env w o'"
| "pc_knows env w c (Walking o' slot pred cur vs) = (condemned env w o' \<and> slot_known env w o' slot pred)"
| "pc_knows env w c (ProbingClaim o' k cur vs) =
     (condemned env w o' \<and> cl_ownerToken k = lo_token o' \<and> issued w (cl_token k) \<and>
      cl_pid k = pid_of env (proc_of env (claimant k)) \<and>
      (\<forall>d. lw_dir w = Some d \<and> ld_owner d = Some o' \<longrightarrow> k \<in> ran (ld_claims d)))"
| "pc_knows env w c (WritingClaim o' slot pred cur vs) =
     (condemned env w o' \<and> slot_known env w o' slot pred \<and> slot \<noteq> RootSlot)"
| "pc_knows env w c (Confirming o' slot k okO okC) = claim_held env w c o' slot k"
| "pc_knows env w c (Moving o' slot k) = claim_held env w c o' slot k"
| "pc_knows env w c _ = True"

text \<open>The owner record a contender depends on while it may change or remove the directory.\<close>

fun grip :: "lease_env \<Rightarrow> contender \<Rightarrow> lease_pc \<Rightarrow> lease_owner option option" where
  "grip env c Publishing = Some None"
| "grip env c PublishFailed = Some None"
| "grip env c CleaningUp = Some None"
| "grip env c Holding = Some (Some (own env c))"
| "grip env c ReleaseReadRoot = Some (Some (own env c))"
| "grip env c ReleaseReadAuthority = Some (Some (own env c))"
| "grip env c Releasing = Some (Some (own env c))"
| "grip env c (Confirming o' slot k okO okC) = (if okO then Some (Some o') else None)"
| "grip env c (Moving o' slot k) = Some (Some o')"
| "grip env c _ = None"

definition gripped :: "lease_env \<Rightarrow> lease_world \<Rightarrow> contender \<Rightarrow> lease_pc \<Rightarrow> bool" where
  "gripped env w c pc =
     (\<forall>ow. grip env c pc = Some ow \<and> \<not> gone env (lw_live w) c \<longrightarrow> (\<exists>d. lw_dir w = Some d \<and> ld_owner d = ow))"

definition one_creator :: "lease_env \<Rightarrow> lease_world \<Rightarrow> bool" where
  "one_creator env w =
     (\<forall>c c'. grip env c (lw_pc w c) = Some None \<and> grip env c' (lw_pc w c') = Some None \<and>
        \<not> gone env (lw_live w) c \<and> \<not> gone env (lw_live w) c' \<longrightarrow> c = c')"

definition lease_inv :: "lease_env \<Rightarrow> lease_world \<Rightarrow> bool" where
  "lease_inv env w =
     ((\<forall>d. lw_dir w = Some d \<longrightarrow> dir_ok env w d) \<and>
      (\<forall>c. pc_knows env w c (lw_pc w c)) \<and> (\<forall>c. gripped env w c (lw_pc w c)) \<and> one_creator env w)"

lemma lease_invD:
  assumes "lease_inv env w"
  shows "lw_dir w = Some d \<Longrightarrow> dir_ok env w d" "pc_knows env w c (lw_pc w c)" "gripped env w c (lw_pc w c)"
    "one_creator env w"
  using assms by (auto simp: lease_inv_def)

lemma lease_inv_start: "lease_inv env (lease_start processes)"
  by (simp add: lease_inv_def lease_start_def gripped_def one_creator_def)

section \<open>At most one live contender grips the directory\<close>

lemma grip_cases:
  assumes "grip env c pc = Some ow"
  obtains (creator) "ow = None"
  | (holder) "ow = Some (own env c)" "inside pc"
  | (mover) o' slot k where "ow = Some o'" "pc_knows env w c pc = claim_held env w c o' slot k"
  using assms by (cases pc) (auto split: if_splits)

lemma grip_unique:
  assumes inv: "lease_inv env w" and "grip env c (lw_pc w c) = Some ow" "grip env c' (lw_pc w c') = Some ow'"
    and live: "\<not> gone env (lw_live w) c" "\<not> gone env (lw_live w) c'"
  shows "c = c'"
proof -
  obtain d where d: "lw_dir w = Some d" "ld_owner d = ow" "ow' = ow"
    using lease_invD(3) [OF inv, of c] lease_invD(3) [OF inv, of c'] assms by (auto simp: gripped_def)
  have holder_live: "x = y" if "ow = Some (own env x)" "ow = Some (own env y)" for x y
    using that by (simp add: own_def)
  have mover_not_holder: False
    if "claim_held env w x o' slot k" "ow = Some o'" "ow = Some (own env y)" "\<not> gone env (lw_live w) y" for x y o' slot k
    using that by (auto simp: claim_held_def condemned_def own_def)
  have movers: "x = y"
    if "claim_held env w x o' slot k" "ow = Some o'" "claim_held env w y o' slot' k'"
      "\<not> gone env (lw_live w) x" "\<not> gone env (lw_live w) y" for x y o' slot slot' k k'
  proof -
    have "ld_claims d slot = Some k" "ld_claims d slot' = Some k'" using that d by (auto simp: claim_held_def)
    moreover have "chain_ok env (lw_live w) (ld_claims d) (lo_token o')"
      using lease_invD(1) [OF inv d(1)] that(2) d(2) by (auto simp: dir_ok_def)
    ultimately have "k = k'" using that
      by (intro chain_unique_live [of env "lw_live w" "ld_claims d" "lo_token o'"]) (auto simp: claim_held_def ranI)
    with that show ?thesis by (auto simp: claim_held_def)
  qed
  note knows = lease_invD(2) [OF inv]
  from assms(2) show ?thesis
  proof (cases rule: grip_cases [where w = w])
    case creator
    then show ?thesis using assms(2,3) d(3) lease_invD(4) [OF inv] live by (auto simp: one_creator_def)
  next
    case holder
    from assms(3) show ?thesis
    proof (cases rule: grip_cases [where w = w])
      case creator
      then show ?thesis using holder d by simp
    next
      case h: holder
      then show ?thesis using holder_live holder d by blast
    next
      case (mover o' slot k)
      then show ?thesis using mover_not_holder [of c' o' slot k c] knows [of c'] holder d live by auto
    qed
  next
    case m: (mover o' slot k)
    from assms(3) show ?thesis
    proof (cases rule: grip_cases [where w = w])
      case creator
      then show ?thesis using m d by simp
    next
      case holder
      then show ?thesis using mover_not_holder [of c o' slot k c'] knows [of c] m d live by auto
    next
      case (mover o'' slot' k')
      then show ?thesis using movers [of c o' slot k c' slot' k'] knows [of c] knows [of c'] m d live by auto
    qed
  qed
qed

section \<open>What every step leaves true\<close>

text \<open>
  Processes only die, tokens are only drawn, published owners stay published, and a directory that
  belongs to a published owner already belonged to it, with at most fewer claims.
\<close>

definition evolves :: "lease_world \<Rightarrow> lease_world \<Rightarrow> bool" where
  "evolves w w' =
     (lw_live w' \<subseteq> lw_live w \<and> (\<forall>x. lw_seq w x \<le> lw_seq w' x) \<and>
      (\<forall>x. published (lw_pc w x) \<longrightarrow> published (lw_pc w' x)) \<and>
      (\<forall>d' o'. lw_dir w' = Some d' \<and> ld_owner d' = Some o' \<and> published (lw_pc w (lo_token o')) \<longrightarrow>
         (\<exists>d. lw_dir w = Some d \<and> ld_owner d = Some o' \<and> map_le (ld_claims d) (ld_claims d'))))"

lemma gone_mono: "gone env (lw_live w) x \<Longrightarrow> evolves w w' \<Longrightarrow> gone env (lw_live w') x"
  by (auto simp: gone_def evolves_def)

lemma issued_mono: "issued w t \<Longrightarrow> evolves w w' \<Longrightarrow> issued w' t"
  unfolding issued_def evolves_def by (meson order_less_le_trans)

lemma published_mono: "published (lw_pc w x) \<Longrightarrow> evolves w w' \<Longrightarrow> published (lw_pc w' x)"
  by (simp add: evolves_def)

lemma condemned_mono: "condemned env w o' \<Longrightarrow> evolves w w' \<Longrightarrow> condemned env w' o'"
  by (auto simp: condemned_def owner_labels_def intro: gone_mono published_mono)

lemma owner_labels_mono: "owner_labels env w o' \<Longrightarrow> evolves w w' \<Longrightarrow> owner_labels env w' o'"
  by (auto simp: owner_labels_def intro: published_mono)

lemma claim_labels_mono: "claim_labels env w slot k \<Longrightarrow> evolves w w' \<Longrightarrow> claim_labels env w' slot k"
  by (auto simp: claim_labels_def intro: gone_mono published_mono issued_mono)

lemma evolves_dir:
  assumes "evolves w w'" "owner_labels env w o'" "lw_dir w' = Some d'" "ld_owner d' = Some o'"
  obtains d where "lw_dir w = Some d" "ld_owner d = Some o'" "map_le (ld_claims d) (ld_claims d')"
  using assms unfolding evolves_def owner_labels_def by blast

lemma map_le_Some: "map_le m m' \<Longrightarrow> m x = Some y \<Longrightarrow> m' x = Some y"
  by (metis domI map_le_def)

lemma map_le_ran: "map_le m m' \<Longrightarrow> y \<in> ran m \<Longrightarrow> y \<in> ran m'"
  by (auto simp: ran_def intro: map_le_Some)

lemma slot_known_mono:
  assumes "slot_known env w o' slot pred" "condemned env w o'" "evolves w w'"
  shows "slot_known env w' o' slot pred"
proof -
  have "(slot = SuccessorSlot (lo_token o') None \<longrightarrow> (\<exists>k. ld_claims d' RootSlot = Some k \<and> cl_ownerToken k \<noteq> lo_token o')) \<and>
      (\<forall>t. pred = Some t \<longrightarrow> (\<exists>k. k \<in> ran (ld_claims d') \<and> cl_ownerToken k = lo_token o' \<and> cl_token k = t))"
    if d': "lw_dir w' = Some d'" "ld_owner d' = Some o'" for d'
  proof -
    have "owner_labels env w o'" using assms(2) by (simp add: condemned_def)
    from evolves_dir [OF assms(3) this d'] obtain d where
      d: "lw_dir w = Some d" "ld_owner d = Some o'" "map_le (ld_claims d) (ld_claims d')" .
    have "slot = SuccessorSlot (lo_token o') None \<longrightarrow> (\<exists>k. ld_claims d RootSlot = Some k \<and> cl_ownerToken k \<noteq> lo_token o')"
      "\<forall>t. pred = Some t \<longrightarrow> (\<exists>k. k \<in> ran (ld_claims d) \<and> cl_ownerToken k = lo_token o' \<and> cl_token k = t)"
      using assms(1) d(1,2) by (simp_all add: slot_known_def)
    then show ?thesis using map_le_Some [OF d(3)] map_le_ran [OF d(3)] by blast
  qed
  with assms(1,3) show ?thesis by (auto simp: slot_known_def intro: gone_mono issued_mono)
qed

lemma claim_held_mono:
  assumes "claim_held env w c o' slot k" "evolves w w'"
  shows "claim_held env w' c o' slot k"
proof -
  have "ld_claims d' slot = Some k" if d': "lw_dir w' = Some d'" "ld_owner d' = Some o'" for d'
  proof -
    have "owner_labels env w o'" using assms(1) by (simp add: claim_held_def condemned_def)
    from evolves_dir [OF assms(2) this d'] obtain d where
      "lw_dir w = Some d" "ld_owner d = Some o'" "map_le (ld_claims d) (ld_claims d')" .
    with assms(1) show ?thesis by (auto simp: claim_held_def intro: map_le_Some)
  qed
  with assms show ?thesis by (auto simp: claim_held_def intro: condemned_mono)
qed

lemma pc_knows_mono:
  assumes "pc_knows env w c pc" "evolves w w'"
  shows "pc_knows env w' c pc"
proof (cases pc)
  case (ProbingClaim o' k cur vs)
  have "k \<in> ran (ld_claims d')" if d': "lw_dir w' = Some d'" "ld_owner d' = Some o'" for d'
  proof -
    have "owner_labels env w o'" using assms(1) ProbingClaim by (simp add: condemned_def)
    from evolves_dir [OF assms(2) this d'] obtain d where
      "lw_dir w = Some d" "ld_owner d = Some o'" "map_le (ld_claims d) (ld_claims d')" .
    with assms(1) ProbingClaim show ?thesis by (auto intro: map_le_ran)
  qed
  with assms ProbingClaim show ?thesis by (auto intro: condemned_mono issued_mono)
qed (use assms in \<open>auto intro: condemned_mono owner_labels_mono slot_known_mono claim_held_mono\<close>)

lemma chain_ok_mono: "chain_ok env live cl token \<Longrightarrow> live' \<subseteq> live \<Longrightarrow> chain_ok env live' cl token"
  unfolding chain_ok_def gone_def by blast

lemma dir_ok_mono: "dir_ok env w d \<Longrightarrow> evolves w w' \<Longrightarrow> dir_ok env w' d"
  unfolding dir_ok_def
  by (meson chain_ok_mono claim_labels_mono evolves_def owner_labels_mono)

section \<open>Adding a claim\<close>

lemma chain_add_foreign_root:
  assumes ok: "chain_ok env live cl token" and free: "cl RootSlot = None" and k: "cl_ownerToken k \<noteq> token"
    and labels: "\<And>slot k. cl slot = Some k \<Longrightarrow> slot_matches (cl_ownerToken k) slot (cl_predecessor k)"
  shows "chain_ok env live (cl(RootSlot \<mapsto> k)) token"
proof -
  have base: "base_slot token cl = RootSlot" using free by (simp add: base_slot_def)
  from ok obtain ks where ks: "chain_from cl token RootSlot ks" "set ks = {k. cl_ownerToken k = token \<and> k \<in> ran cl}"
    by (auto simp: chain_ok_def base)
  have "ks = []" using ks(1) free by (cases ks) auto
  with ks(2) have none: "cl_ownerToken x \<noteq> token" if "x \<in> ran cl" for x using that by auto
  have "cl (SuccessorSlot token None) = None"
  proof (rule ccontr)
    assume "cl (SuccessorSlot token None) \<noteq> None"
    then obtain x where x: "cl (SuccessorSlot token None) = Some x" by auto
    from labels [OF x] have "cl_ownerToken x = token" by (simp add: slot_matches_def)
    with none x show False by (auto simp: ran_def)
  qed
  moreover have "base_slot token (cl(RootSlot \<mapsto> k)) = SuccessorSlot token None" using k by (simp add: base_slot_def)
  moreover have "{x. cl_ownerToken x = token \<and> x \<in> ran (cl(RootSlot \<mapsto> k))} = {}"
    using none k free by (auto simp: ran_map_upd)
  ultimately show ?thesis unfolding chain_ok_def by (intro exI [where x = "[]"]) simp
qed

lemma chain_add_other:
  assumes ok: "chain_ok env live cl token" and free: "cl slot = None" and k: "cl_ownerToken k \<noteq> token"
    and slot: "slot = SuccessorSlot (cl_ownerToken k) pred"
  shows "chain_ok env live (cl(slot \<mapsto> k)) token"
proof -
  from ok obtain ks where ks: "chain_from cl token (base_slot token cl) ks" "set ks = {k. cl_ownerToken k = token \<and> k \<in> ran cl}"
    "\<forall>k\<in>set (butlast ks). gone env live (claimant k)"
    by (auto simp: chain_ok_def)
  have base: "base_slot token (cl(slot \<mapsto> k)) = base_slot token cl" using slot by (simp add: base_slot_def)
  have "end_slot token s ks = RootSlot \<or> (\<exists>p. end_slot token s ks = SuccessorSlot token p) \<or> end_slot token s ks = s" for s
    by (induction ks arbitrary: s) (auto simp: next_slot_def)
  moreover have "base_slot token cl = RootSlot \<or> base_slot token cl = SuccessorSlot token None"
    by (auto simp: base_slot_def split: option.splits)
  ultimately have "end_slot token (base_slot token cl) ks \<noteq> slot" using slot k by (metis claim_slot.distinct(1) claim_slot.inject)
  then have "chain_from (cl(slot \<mapsto> k)) token (base_slot token cl) ks" using chain_other [OF ks(1) free] by metis
  moreover have "{x. cl_ownerToken x = token \<and> x \<in> ran (cl(slot \<mapsto> k))} = {x. cl_ownerToken x = token \<and> x \<in> ran cl}"
    using k free by (auto simp: ran_map_upd)
  ultimately show ?thesis using ks base unfolding chain_ok_def by auto
qed

text \<open>The writer of the next claim of the chain knows that the last claimant so far is gone.\<close>

lemma chain_extend:
  assumes ok: "chain_ok env live cl token" and free: "cl slot = None" and k: "cl_ownerToken k = token"
    and fresh: "cl (next_slot token k) = None" "next_slot token k \<noteq> slot"
    and slot: "(slot = RootSlot) \<or>
      (slot = SuccessorSlot token None \<and> (\<exists>r. cl RootSlot = Some r \<and> cl_ownerToken r \<noteq> token)) \<or>
      (\<exists>p. slot = next_slot token p \<and> p \<in> ran cl \<and> cl_ownerToken p = token \<and> gone env live (claimant p))"
  shows "chain_ok env live (cl(slot \<mapsto> k)) token"
proof -
  let ?base = "base_slot token cl"
  from ok obtain ks where ks: "chain_from cl token ?base ks" "set ks = {k. cl_ownerToken k = token \<and> k \<in> ran cl}"
    "\<forall>k\<in>set (butlast ks). gone env live (claimant k)"
    by (auto simp: chain_ok_def)
  have at_base: "ks = []" if "slot = ?base" using that ks(1) free by (cases ks) auto
  have last: "slot = end_slot token ?base ks \<and> (\<forall>x\<in>set ks. gone env live (claimant x))"
    using slot
  proof (elim disjE exE conjE)
    assume "slot = RootSlot"
    then have "slot = ?base" using free by (simp add: base_slot_def)
    then show ?thesis using at_base by simp
  next
    fix r assume "slot = SuccessorSlot token None" "cl RootSlot = Some r" "cl_ownerToken r \<noteq> token"
    then have "slot = ?base" by (simp add: base_slot_def)
    then show ?thesis using at_base by simp
  next
    fix p assume p: "slot = next_slot token p" "p \<in> ran cl" "cl_ownerToken p = token" "gone env live (claimant p)"
    then have mem: "p \<in> set ks" using ks(2) by simp
    then have pl: "p = last ks" using chain_not_last [OF ks(1)] p(1) free by simp
    from mem have ne: "ks \<noteq> []" by auto
    then have "set ks = insert (last ks) (set (butlast ks))"
      by (metis append_butlast_last_id list.simps(15) rotate1.simps(2) set_rotate1)
    then show ?thesis using end_slot_last [OF ne] p pl ks(3) by auto
  qed
  have "base_slot token (cl(slot \<mapsto> k)) = ?base"
    using free k slot by (auto simp: base_slot_def next_slot_def split: option.splits)
  moreover have "chain_from (cl(slot \<mapsto> k)) token ?base (ks @ [k])"
    using chain_add [OF ks(1)] last fresh by simp
  moreover have "{x. cl_ownerToken x = token \<and> x \<in> ran (cl(slot \<mapsto> k))} = set (ks @ [k])"
    using ks(2) k free by (auto simp: ran_map_upd)
  ultimately show ?thesis unfolding chain_ok_def
    using last by (intro exI [where x = "ks @ [k]"]) simp
qed

section \<open>Preservation by a contender's step\<close>

definition after :: "lease_world \<Rightarrow> contender \<Rightarrow> lease_dir option \<times> lease_pc \<times> nat \<Rightarrow> lease_world" where
  "after w c r = w\<lparr>lw_dir := fst r, lw_pc := (lw_pc w)(c := fst (snd r)), lw_seq := (lw_seq w)(c := snd (snd r))\<rparr>"

abbreviation taking :: "lease_env \<Rightarrow> lease_world \<Rightarrow> contender \<Rightarrow> lease_dir option \<times> lease_pc \<times> nat \<Rightarrow> bool" where
  "taking env w c r \<equiv> contender_step env (lw_live w) c (lw_dir w, lw_pc w c, lw_seq w c) r"

lemma after_simps [simp]:
  "lw_dir (after w c (D, pc, n)) = D" "lw_live (after w c (D, pc, n)) = lw_live w"
  "lw_pc (after w c (D, pc, n)) x = (if x = c then pc else lw_pc w x)"
  "lw_seq (after w c (D, pc, n)) x = (if x = c then n else lw_seq w x)"
  by (simp_all add: after_def)

lemma published_inside: "inside pc \<Longrightarrow> published pc"
  by (cases pc) auto

lemma step_published:
  "contender_step env live c (D, pc, n) (D', pc', n') \<Longrightarrow> (published pc \<longrightarrow> published pc') \<and> n \<le> n'"
  by (erule contender_step.cases) auto

text \<open>How a step changes the directory.\<close>

lemma step_dir:
  "contender_step env live c (D, pc, n) (D', pc', n') \<Longrightarrow>
     D' = D \<or> D' = None \<and> grip env c pc \<noteq> None \<or>
     D = None \<and> D' = Some \<lparr>ld_owner = None, ld_claims = Map.empty\<rparr> \<and> pc' = Publishing \<or>
     (\<exists>d. D = Some d \<and> ld_owner d = None \<and> pc = Publishing \<and> pc' = Holding \<and> D' = Some (d\<lparr>ld_owner := Some (own env c)\<rparr>)) \<or>
     (\<exists>d o' slot pred. D = Some d \<and> ld_claims d slot = None \<and>
        D' = Some (d\<lparr>ld_claims := (ld_claims d)(slot \<mapsto> claimFor env c n o' pred)\<rparr>) \<and>
        n' = Suc n \<and> pc' = Confirming o' slot (claimFor env c n o' pred) False False \<and>
        (pc = ClaimingRoot o' \<and> slot = RootSlot \<and> pred = None \<or> (\<exists>cur vs. pc = WritingClaim o' slot pred cur vs)))"
  by (erule contender_step.cases) (auto split: if_splits)

lemma map_le_refl_upd: "m x = None \<Longrightarrow> map_le m (m(x \<mapsto> y))"
  by (simp add: map_le_def) (metis domIff)

lemma step_evolves:
  assumes "taking env w c (D', pc', n')"
  shows "evolves w (after w c (D', pc', n'))"
proof -
  have "\<exists>d. lw_dir w = Some d \<and> ld_owner d = Some o' \<and> map_le (ld_claims d) (ld_claims d')"
    if "D' = Some d'" "ld_owner d' = Some o'" "published (lw_pc w (lo_token o'))" for d' o'
    using step_dir [OF assms] that by (auto simp: own_def map_le_refl_upd eq_commute [of "Some d'"])
  with step_published [OF assms] show ?thesis by (auto simp: evolves_def)
qed

lemma grip_dir:
  assumes "lease_inv env w" "\<not> gone env (lw_live w) c" "grip env c (lw_pc w c) = Some ow"
  shows "\<exists>d. lw_dir w = Some d \<and> ld_owner d = ow"
  using lease_invD(3) [OF assms(1), of c] assms(2,3) by (auto simp: gripped_def)

lemma provably_dead_gone:
  assumes "provably_dead env live (pid_of env (proc_of env x))"
  shows "gone env live x"
  using assms by (auto simp: provably_dead_def gone_def)

text \<open>A new claim has the labels it should have, and extends the chain of the directory's owner.\<close>

lemma new_claim_labels:
  assumes "condemned env w o'" "slot_known env w o' slot pred" "taking env w c (D', pc', Suc (lw_seq w c))"
  shows "claim_labels env (after w c (D', pc', Suc (lw_seq w c))) slot (claimFor env c (lw_seq w c) o' pred)"
proof -
  let ?w' = "after w c (D', pc', Suc (lw_seq w c))"
  have ev: "evolves w ?w'" by (rule step_evolves [OF assms(3)])
  have "condemned env ?w' o'" using assms(1) ev by (rule condemned_mono)
  moreover have "\<forall>t. pred = Some t \<longrightarrow> issued ?w' t" using assms(2) ev by (auto simp: slot_known_def intro: issued_mono)
  ultimately show ?thesis using assms(2)
    by (simp add: claim_labels_def claimFor_def claimant_def condemned_def owner_labels_def slot_known_def issued_def)
qed

lemma new_claim_chain:
  assumes ok: "dir_ok env w d" and dir: "lw_dir w = Some d" and owner: "ld_owner d = Some x"
    and c: "condemned env w o'" and known: "slot_known env w o' slot pred" and free: "ld_claims d slot = None"
  shows "chain_ok env (lw_live w) ((ld_claims d)(slot \<mapsto> claimFor env c (lw_seq w c) o' pred)) (lo_token x)"
proof -
  let ?k = "claimFor env c (lw_seq w c) o' pred"
  have chain: "chain_ok env (lw_live w) (ld_claims d) (lo_token x)" and x: "owner_labels env w x"
    using ok owner by (auto simp: dir_ok_def)
  have labels: "claim_labels env w s k" if "ld_claims d s = Some k" for s k
    using ok that by (auto simp: dir_ok_def)
  show ?thesis
  proof (cases "lo_token o' = lo_token x")
    case False
    have slot: "slot = RootSlot \<or> slot = SuccessorSlot (cl_ownerToken ?k) pred"
      using known by (auto simp: slot_known_def slot_matches_def claimFor_def)
    have "cl_ownerToken ?k \<noteq> lo_token x" using False by (simp add: claimFor_def)
    with slot show ?thesis
      using chain_add_foreign_root [OF chain] chain_add_other [OF chain free] free labels
      by (auto simp: claim_labels_def)
  next
    case True
    have same: "x = o'" using x c True by (auto simp: owner_labels_def condemned_def own_def)
    have "ld_claims d (next_slot (lo_token x) ?k) = None"
    proof (rule ccontr)
      assume "ld_claims d (next_slot (lo_token x) ?k) \<noteq> None"
      then obtain y where y: "ld_claims d (SuccessorSlot (lo_token x) (Some (c, lw_seq w c))) = Some y"
        by (auto simp: next_slot_def claimFor_def)
      from labels [OF y] have "cl_predecessor y = Some (c, lw_seq w c)"
        by (simp add: claim_labels_def slot_matches_def)
      with labels [OF y] show False by (simp add: claim_labels_def issued_def)
    qed
    moreover have "next_slot (lo_token x) ?k \<noteq> slot"
      using known by (auto simp: next_slot_def claimFor_def slot_known_def slot_matches_def issued_def)
    moreover have "slot = RootSlot \<or>
      (slot = SuccessorSlot (lo_token x) None \<and> (\<exists>r. ld_claims d RootSlot = Some r \<and> cl_ownerToken r \<noteq> lo_token x)) \<or>
      (\<exists>p. slot = next_slot (lo_token x) p \<and> p \<in> ran (ld_claims d) \<and> cl_ownerToken p = lo_token x \<and> gone env (lw_live w) (claimant p))"
    proof (cases pred)
      case None
      then show ?thesis using known dir owner same by (auto simp: slot_known_def slot_matches_def)
    next
      case (Some t)
      with known dir owner same obtain p where "p \<in> ran (ld_claims d)" "cl_ownerToken p = lo_token o'" "cl_token p = t"
        "gone env (lw_live w) (fst t)" "slot = SuccessorSlot (lo_token o') (Some t)"
        by (auto simp: slot_known_def slot_matches_def)
      then show ?thesis using same by (auto simp: next_slot_def claimant_def)
    qed
    ultimately show ?thesis
      using chain_extend [OF chain free] True by (simp add: claimFor_def)
  qed
qed

lemma step_dir_ok:
  assumes inv: "lease_inv env w" and live: "\<not> gone env (lw_live w) c"
    and step: "taking env w c (D', pc', n')" and d': "D' = Some d'"
  shows "dir_ok env (after w c (D', pc', n')) d'"
proof -
  let ?w' = "after w c (D', pc', n')"
  note ev = step_evolves [OF step]
  consider (same) "D' = lw_dir w"
    | (create) "d' = \<lparr>ld_owner = None, ld_claims = Map.empty\<rparr>"
    | (publish) d where "lw_dir w = Some d" "ld_owner d = None" "lw_pc w c = Publishing" "pc' = Holding"
        "d' = d\<lparr>ld_owner := Some (own env c)\<rparr>"
    | (claim) d o' slot pred where "lw_dir w = Some d" "ld_claims d slot = None"
        "d' = d\<lparr>ld_claims := (ld_claims d)(slot \<mapsto> claimFor env c (lw_seq w c) o' pred)\<rparr>" "n' = Suc (lw_seq w c)"
        "condemned env w o'" "slot_known env w o' slot pred"
  proof -
    have root: "slot_known env w o' RootSlot None" for o' by (simp add: slot_known_def slot_matches_def)
    show ?thesis
      using step_dir [OF step] d' lease_invD(2) [OF inv, of c] root
      by (elim disjE exE conjE) (auto intro: that)
  qed
  then show ?thesis
  proof cases
    case same
    then show ?thesis using d' lease_invD(1) [OF inv] dir_ok_mono ev by metis
  next
    case create
    then show ?thesis by (simp add: dir_ok_def)
  next
    case publish
    have labels: "claim_labels env w slot k" if "ld_claims d slot = Some k" for slot k
      using lease_invD(1) [OF inv publish(1)] that by (auto simp: dir_ok_def)
    have none: "cl_ownerToken k \<noteq> c" if "k \<in> ran (ld_claims d)" for k
      using that labels publish(3) by (force simp: ran_def claim_labels_def)
    have "ld_claims d (base_slot c (ld_claims d)) = None"
    proof (rule ccontr)
      assume "ld_claims d (base_slot c (ld_claims d)) \<noteq> None"
      then obtain y where y: "ld_claims d (base_slot c (ld_claims d)) = Some y" by auto
      show False using none [of y] labels [OF y] y
        by (auto simp: base_slot_def claim_labels_def slot_matches_def ran_def split: option.splits if_splits)
    qed
    then have "chain_ok env (lw_live w) (ld_claims d) c"
      unfolding chain_ok_def using none by (intro exI [where x = "[]"]) auto
    then show ?thesis using publish labels claim_labels_mono [OF _ ev]
      by (auto simp: dir_ok_def owner_labels_def own_def)
  next
    case claim
    have ok: "dir_ok env w d" using lease_invD(1) [OF inv claim(1)] .
    have new: "claim_labels env ?w' slot (claimFor env c (lw_seq w c) o' pred)"
      using new_claim_labels [OF claim(5,6)] step claim(4) by simp
    have "chain_ok env (lw_live w) ((ld_claims d)(slot \<mapsto> claimFor env c (lw_seq w c) o' pred)) (lo_token x)"
      if "ld_owner d = Some x" for x
      using new_claim_chain [OF ok claim(1) that claim(5,6,2)] .
    then show ?thesis using claim ok new claim_labels_mono [OF _ ev] owner_labels_mono [OF _ ev]
      by (auto simp: dir_ok_def)
  qed
qed

lemma dir_owner_Some: "dir_owner D = Some o' \<longleftrightarrow> (\<exists>d. D = Some d \<and> ld_owner d = Some o')"
  by (cases D) (auto simp: dir_owner_def)

lemma dir_owner_None: "dir_owner D = None \<longleftrightarrow> (\<forall>d. D = Some d \<longrightarrow> ld_owner d = None)"
  by (cases D) (auto simp: dir_owner_def)

lemma dir_claim_Some: "dir_claim D slot = Some k \<longleftrightarrow> (\<exists>d. D = Some d \<and> ld_claims d slot = Some k)"
  by (cases D) (auto simp: dir_claim_def)

text \<open>What the contender learns from a read or a probe.\<close>

lemma learn_owner: "lease_inv env w \<Longrightarrow> dir_owner (lw_dir w) = Some o' \<Longrightarrow> owner_labels env w o'"
  by (auto simp: dir_owner_Some dir_ok_def dest!: lease_invD(1))

lemma learn_owner_dead:
  "owner_labels env w o' \<Longrightarrow> provably_dead env (lw_live w) (lo_pid o') \<Longrightarrow> condemned env w o'"
  unfolding condemned_def owner_labels_def using provably_dead_gone by (metis lease_owner.select_convs(1) own_def)

lemma learn_foreign_root:
  assumes "slot_known env w o' slot None" "dir_claim (lw_dir w) slot = Some k" "foreign_root (lo_token o') k"
  shows "slot_known env w o' (SuccessorSlot (lo_token o') None) None"
proof -
  have "\<exists>r. ld_claims d RootSlot = Some r \<and> cl_ownerToken r \<noteq> lo_token o'"
    if "lw_dir w = Some d" "ld_owner d = Some o'" for d
    using assms that by (auto simp: slot_known_def slot_matches_def dir_claim_Some foreign_root_def)
  then show ?thesis by (simp add: slot_known_def slot_matches_def)
qed

lemma learn_claim:
  assumes "lease_inv env w" "dir_claim (lw_dir w) slot = Some k"
  shows "issued w (cl_token k)" "cl_pid k = pid_of env (proc_of env (claimant k))"
    "\<forall>d. lw_dir w = Some d \<longrightarrow> k \<in> ran (ld_claims d)"
  using assms lease_invD(1) [OF assms(1)] by (auto simp: dir_claim_Some dir_ok_def claim_labels_def ran_def)

lemma learn_claimant_dead:
  assumes "pc_knows env w c (ProbingClaim o' k cur vs)" "provably_dead env (lw_live w) (cl_pid k)"
  shows "slot_known env w o' (SuccessorSlot (lo_token o') (Some (cl_token k))) (Some (cl_token k))"
proof -
  have "gone env (lw_live w) (fst (cl_token k))"
    using assms provably_dead_gone [of env "lw_live w" "claimant k"] by (simp add: claimant_def)
  with assms show ?thesis by (auto simp: slot_known_def slot_matches_def)
qed

lemma step_learns:
  assumes inv: "lease_inv env w" and step: "taking env w c (D', pc', n')"
  shows "pc_knows env w c pc' \<or>
     (\<exists>d o' slot pred. condemned env w o' \<and> pc' = Confirming o' slot (claimFor env c (lw_seq w c) o' pred) False False \<and>
        D' = Some d \<and> ld_claims d slot = Some (claimFor env c (lw_seq w c) o' pred))"
proof -
  note known = lease_invD(2) [OF inv, of c]
  from step show ?thesis
  proof cases
    case owner_read
    then show ?thesis using learn_owner [OF inv] by simp
  next
    case owner_dead
    then show ?thesis using known learn_owner_dead by simp
  next
    case root_exists
    then show ?thesis using known by (simp add: slot_known_def slot_matches_def)
  next
    case walk_foreign
    then show ?thesis using known learn_foreign_root by auto
  next
    case walk_claim
    then show ?thesis using known learn_claim [OF inv] by auto
  next
    case claimant_dead
    then show ?thesis using known learn_claimant_dead by auto
  qed (use known in \<open>auto split: if_splits\<close>)
qed

lemma step_knows:
  assumes inv: "lease_inv env w" and step: "taking env w c (D', pc', n')"
  shows "pc_knows env (after w c (D', pc', n')) c pc'"
  using step_learns [OF assms]
proof (elim disjE exE conjE)
  assume "pc_knows env w c pc'"
  then show ?thesis using step_evolves [OF step] by (rule pc_knows_mono)
next
  fix d o' slot pred
  assume a: "condemned env w o'" "pc' = Confirming o' slot (claimFor env c (lw_seq w c) o' pred) False False"
    "D' = Some d" "ld_claims d slot = Some (claimFor env c (lw_seq w c) o' pred)"
  then show ?thesis using condemned_mono [OF a(1) step_evolves [OF step]]
    by (simp add: claim_held_def claimFor_def claimant_def)
qed

text \<open>A grip a step takes or keeps is on the directory as it is.\<close>

lemma step_grip:
  assumes inv: "lease_inv env w" and live: "\<not> gone env (lw_live w) c" and step: "taking env w c (D', pc', n')"
  shows "gripped env (after w c (D', pc', n')) c pc'"
proof -
  note g = grip_dir [OF inv live]
  from step show ?thesis
    by cases (use g in \<open>auto simp: gripped_def dir_owner_Some split: if_splits\<close>)
qed

lemma others_grip:
  assumes inv: "lease_inv env w" and live: "\<not> gone env (lw_live w) c" and step: "taking env w c (D', pc', n')"
    and other: "x \<noteq> c" "\<not> gone env (lw_live w) x" "grip env x (lw_pc w x) = Some ow"
  shows "(\<exists>d. D' = Some d \<and> ld_owner d = ow) \<and> grip env c (lw_pc w c) = None \<and> pc' \<noteq> Publishing"
proof -
  have alone: "grip env c (lw_pc w c) = None"
    using grip_unique [OF inv _ other(3) live other(2)] other(1) by (cases "grip env c (lw_pc w c)") auto
  obtain d where d: "lw_dir w = Some d" "ld_owner d = ow" using grip_dir [OF inv other(2,3)] by auto
  have "\<exists>d. D' = Some d \<and> ld_owner d = ow" using step_dir [OF step] alone d by auto
  moreover have "pc' \<noteq> Publishing" using step d by (auto elim: contender_step.cases)
  ultimately show ?thesis using alone by blast
qed

lemma step_keeps_inv:
  assumes inv: "lease_inv env w" and live: "\<not> gone env (lw_live w) c" and step: "taking env w c (D', pc', n')"
  shows "lease_inv env (after w c (D', pc', n'))"
proof -
  let ?w' = "after w c (D', pc', n')"
  note ev = step_evolves [OF step] and others = others_grip [OF inv live step]
  have knows: "pc_knows env ?w' x (lw_pc ?w' x)" for x
    using step_knows [OF inv step] pc_knows_mono [OF lease_invD(2) [OF inv] ev] by simp
  have grips: "gripped env ?w' x (lw_pc ?w' x)" for x
    using step_grip [OF inv live step] others [of x] by (cases "x = c") (auto simp: gripped_def)
  have one: "one_creator env ?w'"
  proof -
    have "False" if "x \<noteq> c" "grip env x (lw_pc w x) = Some None" "grip env c pc' = Some None" "\<not> gone env (lw_live w) x" for x
    proof -
      from others [OF that(1,4,2)] have "grip env c (lw_pc w c) = None" "pc' \<noteq> Publishing" by simp_all
      with that(3) step show False by (auto elim!: contender_step.cases split: if_splits)
    qed
    then show ?thesis using lease_invD(4) [OF inv] unfolding one_creator_def by auto
  qed
  show ?thesis using step_dir_ok [OF inv live step] knows grips one by (auto simp: lease_inv_def)
qed

lemma death_keeps_inv:
  assumes "lease_inv env w"
  shows "lease_inv env (w\<lparr>lw_live := lw_live w - {p}\<rparr>)"
proof -
  let ?w' = "w\<lparr>lw_live := lw_live w - {p}\<rparr>"
  have ev: "evolves w ?w'" by (auto simp: evolves_def)
  have still: "\<not> gone env (lw_live w) x" if "\<not> gone env (lw_live ?w') x" for x using that by (auto simp: gone_def)
  have dirs: "dir_ok env ?w' d" if "lw_dir ?w' = Some d" for d
    using dir_ok_mono [OF lease_invD(1) [OF assms] ev] that by simp
  have knows: "pc_knows env ?w' x (lw_pc ?w' x)" for x
    using pc_knows_mono [OF lease_invD(2) [OF assms] ev] by simp
  have grips: "gripped env ?w' x (lw_pc ?w' x)" for x
    using lease_invD(3) [OF assms, of x] still [of x] by (simp add: gripped_def)
  have one: "one_creator env ?w'"
    unfolding one_creator_def using lease_invD(4) [OF assms] still by (auto simp: one_creator_def)
  show ?thesis using dirs knows grips one by (auto simp: lease_inv_def)
qed

lemma lease_step_after:
  assumes "lease_step env w w'"
  obtains (act) c D' pc' n' where "\<not> gone env (lw_live w) c" "taking env w c (D', pc', n')" "w' = after w c (D', pc', n')"
  | (die) p where "w' = w\<lparr>lw_live := lw_live w - {p}\<rparr>"
  using assms by (cases rule: lease_step.cases) (auto simp: gone_def after_def)

lemma lease_inv_step: "lease_step env w w' \<Longrightarrow> lease_inv env w \<Longrightarrow> lease_inv env w'"
  by (erule lease_step_after) (auto intro: step_keeps_inv death_keeps_inv)

lemma lease_inv_steps: "(lease_step env)\<^sup>*\<^sup>* w w' \<Longrightarrow> lease_inv env w \<Longrightarrow> lease_inv env w'"
  by (induction rule: rtranclp_induct) (auto intro: lease_inv_step)

lemma lease_inv_reachable: "lease_reachable env processes w \<Longrightarrow> lease_inv env w"
  unfolding lease_reachable_def using lease_inv_steps lease_inv_start by blast

lemma inside_grip: "inside pc \<Longrightarrow> grip env c pc = Some (Some (own env c))"
  by (cases pc) auto

section \<open>Properties\<close>

text \<open>
  C2: however any number of contenders in any number of processes interleave, fail,
  time out and die, two contenders of live processes are never both inside the lease; and while one
  is, the directory carries its own owner record and no recovery claim against it, so neither can it
  be evicted nor its release be refused as lost or as being recovered.
\<close>

theorem lease_mutual_exclusion:
  assumes "lease_reachable env processes w"
    and "inside (lw_pc w c)" "proc_of env c \<in> lw_live w"
    and "inside (lw_pc w c')" "proc_of env c' \<in> lw_live w"
  shows "c = c' \<and>
     (\<exists>d. lw_dir w = Some d \<and> ld_owner d = Some (own env c) \<and>
        (\<forall>slot k. ld_claims d slot = Some k \<longrightarrow> cl_ownerToken k \<noteq> c))"
proof -
  have inv: "lease_inv env w" using assms(1) by (rule lease_inv_reachable)
  have live: "\<not> gone env (lw_live w) c" "\<not> gone env (lw_live w) c'" using assms(3,5) by (simp_all add: gone_def)
  have "c = c'" using grip_unique [OF inv inside_grip inside_grip live] assms(2,4) by simp
  moreover obtain d where d: "lw_dir w = Some d" "ld_owner d = Some (own env c)"
    using grip_dir [OF inv live(1) inside_grip [OF assms(2)]] by blast
  moreover have "cl_ownerToken k \<noteq> c" if "ld_claims d slot = Some k" for slot k
    using lease_invD(1) [OF inv d(1)] that live(1) by (auto simp: dir_ok_def claim_labels_def)
  ultimately show ?thesis by blast
qed

text \<open>Two processes; contender 0 runs in the first, the others in the second.\<close>

definition two_processes :: lease_env where
  "two_processes = \<lparr>proc_of = (\<lambda>c. if c = 0 then 0 else 1), pid_of = (\<lambda>p. 100 + int p)\<rparr>"

abbreviation run_of :: "lease_world \<Rightarrow> bool" where
  "run_of w \<equiv> lease_reachable two_processes {0, 1} w"

lemma run_act:
  "run_of w \<Longrightarrow> proc_of two_processes c \<in> lw_live w \<Longrightarrow> taking two_processes w c r \<Longrightarrow> run_of (after w c r)"
proof -
  assume a: "run_of w" "proc_of two_processes c \<in> lw_live w" "taking two_processes w c r"
  have "lease_step two_processes w (after w c (fst r, fst (snd r), snd (snd r)))"
    using lease_step.act [OF a(2), of "fst r" "fst (snd r)" "snd (snd r)"] a(3) by (simp add: after_def)
  with a(1) show ?thesis unfolding lease_reachable_def by (simp add: rtranclp.rtrancl_into_rtrancl)
qed

definition held_dir :: lease_dir where
  "held_dir = \<lparr>ld_owner = Some (own two_processes 0), ld_claims = Map.empty\<rparr>"

lemma run_held: "\<exists>w. run_of w \<and> lw_dir w = Some held_dir \<and> lw_pc w = (\<lambda>_. Acquiring)(0 := Holding) \<and> lw_seq w = (\<lambda>_. 0) \<and> lw_live w = {0, 1}"
proof -
  let ?s = "lease_start {0, 1}"
  have s: "run_of ?s" by (simp add: lease_reachable_def)
  let ?a = "after ?s 0 (Some \<lparr>ld_owner = None, ld_claims = Map.empty\<rparr>, Publishing, 0)"
  have a: "run_of ?a"
    by (rule run_act [OF s]) (simp_all add: lease_start_def two_processes_def contender_step.create)
  let ?b = "after ?a 0 (Some held_dir, Holding, 0)"
  have "run_of ?b"
    by (rule run_act [OF a])
       (use contender_step.publish [of "\<lparr>ld_owner = None, ld_claims = Map.empty\<rparr>" two_processes "{0, 1}" 0 0]
        in \<open>simp_all add: lease_start_def held_dir_def two_processes_def after_def\<close>)
  moreover have "lw_dir ?b = Some held_dir" "lw_pc ?b = (\<lambda>_. Acquiring)(0 := Holding)" "lw_seq ?b = (\<lambda>_. 0)" "lw_live ?b = {0, 1}"
    by (auto simp: after_def lease_start_def fun_eq_iff)
  ultimately show ?thesis by blast
qed

theorem lease_mutual_exclusion_witness:
  "\<exists>w. lease_reachable two_processes {0, 1} w \<and> inside (lw_pc w 0) \<and>
     (\<exists>d. lw_dir w = Some d \<and> ld_owner d = Some (own two_processes 0))"
proof -
  obtain w where w: "run_of w" "lw_pc w = (\<lambda>_. Acquiring)(0 := Holding)" "lw_live w = {0, 1}" using run_held by blast
  have i: "inside (lw_pc w 0)" "proc_of two_processes 0 \<in> lw_live w" using w by (simp_all add: two_processes_def)
  from lease_mutual_exclusion [OF w(1) i i] w(1) i show ?thesis by blast
qed

text \<open>
  A contender that is about to move the lease directory moves exactly the
  directory of the owner it observed: its process is gone, the terminal claim in it is the
  contender's own, and no other live contender is about to move or remove it or is inside.
\<close>

theorem recovery_evicts_only_dead:
  assumes "lease_reachable env processes w"
    and "lw_pc w c = Moving o' slot k" "proc_of env c \<in> lw_live w"
  shows "(\<exists>d. lw_dir w = Some d \<and> ld_owner d = Some o' \<and> ld_claims d slot = Some k) \<and>
     claimant k = c \<and> proc_of env (lo_token o') \<notin> lw_live w \<and>
     (\<forall>x. proc_of env x \<in> lw_live w \<and> grip env x (lw_pc w x) \<noteq> None \<longrightarrow> x = c)"
proof -
  have inv: "lease_inv env w" using assms(1) by (rule lease_inv_reachable)
  have live: "\<not> gone env (lw_live w) c" using assms(3) by (simp add: gone_def)
  have grip: "grip env c (lw_pc w c) = Some (Some o')" using assms(2) by simp
  have held: "claim_held env w c o' slot k" using lease_invD(2) [OF inv, of c] assms(2) by simp
  obtain d where "lw_dir w = Some d" "ld_owner d = Some o'" using grip_dir [OF inv live grip] by blast
  moreover have "x = c" if "proc_of env x \<in> lw_live w" "grip env x (lw_pc w x) \<noteq> None" for x
    using grip_unique [OF inv _ grip _ live, of x] that by (auto simp: gone_def)
  ultimately show ?thesis using held by (auto simp: claim_held_def condemned_def gone_def)
qed

text \<open>The owner dies; contender 1 claims its recovery.\<close>

abbreviation recovery_claim_1 :: recovery_claim where
  "recovery_claim_1 \<equiv> claimFor two_processes 1 0 (own two_processes 0) None"

definition claimed_dir :: lease_dir where
  "claimed_dir = held_dir\<lparr>ld_claims := [RootSlot \<mapsto> recovery_claim_1]\<rparr>"

lemma run_step:
  assumes "\<exists>w. run_of w \<and> lw_dir w = D \<and> lw_pc w = pcs \<and> lw_seq w = ns \<and> lw_live w = {1}"
    and "contender_step two_processes {1} 1 (D, pcs 1, ns 1) (D', pc', n')"
  shows "\<exists>w. run_of w \<and> lw_dir w = D' \<and> lw_pc w = pcs(1 := pc') \<and> lw_seq w = ns(1 := n') \<and> lw_live w = {1}"
proof -
  from assms(1) obtain w where w: "run_of w" "lw_dir w = D" "lw_pc w = pcs" "lw_seq w = ns" "lw_live w = {1}" by blast
  have "run_of (after w 1 (D', pc', n'))"
    by (rule run_act [OF w(1)]) (use w assms(2) in \<open>simp_all add: two_processes_def\<close>)
  moreover have "lw_dir (after w 1 (D', pc', n')) = D'" "lw_pc (after w 1 (D', pc', n')) = pcs(1 := pc')"
    "lw_seq (after w 1 (D', pc', n')) = ns(1 := n')" "lw_live (after w 1 (D', pc', n')) = {1}"
    using w by (simp_all add: after_def)
  ultimately show ?thesis by blast
qed

lemma run_claimed:
  "\<exists>w. run_of w \<and> lw_dir w = Some claimed_dir \<and>
     lw_pc w = (\<lambda>_. Acquiring)(0 := Holding, 1 := Confirming (own two_processes 0) RootSlot recovery_claim_1 False False) \<and>
     lw_seq w = (\<lambda>_. 0)(1 := 1) \<and> lw_live w = {1}"
proof -
  let ?o = "own two_processes 0"
  obtain w where w: "run_of w" "lw_dir w = Some held_dir" "lw_pc w = (\<lambda>_. Acquiring)(0 := Holding)" "lw_seq w = (\<lambda>_. 0)"
    "lw_live w = {0, 1}" using run_held by blast
  have "lease_step two_processes w (w\<lparr>lw_live := lw_live w - {0}\<rparr>)" by (rule lease_step.die)
  then have "run_of (w\<lparr>lw_live := lw_live w - {0}\<rparr>)"
    using w(1) unfolding lease_reachable_def by (simp add: rtranclp.rtrancl_into_rtrancl)
  then have s0: "\<exists>w. run_of w \<and> lw_dir w = Some held_dir \<and> lw_pc w = (\<lambda>_. Acquiring)(0 := Holding) \<and> lw_seq w = (\<lambda>_. 0) \<and> lw_live w = {1}"
    using w by (intro exI [where x = "w\<lparr>lw_live := lw_live w - {0}\<rparr>"]) auto
  have dead: "provably_dead two_processes {1} (lo_pid ?o)" by (simp add: provably_dead_def own_def two_processes_def)
  have s1: "\<exists>w. run_of w \<and> lw_dir w = Some held_dir \<and> lw_pc w = ((\<lambda>_. Acquiring)(0 := Holding))(1 := ReadingOwner) \<and> lw_seq w = (\<lambda>_. 0)(1 := 0) \<and> lw_live w = {1}"
    by (rule run_step [OF s0]) (simp add: contender_step.held)
  have s2: "\<exists>w. run_of w \<and> lw_dir w = Some held_dir \<and> lw_pc w = ((\<lambda>_. Acquiring)(0 := Holding, 1 := ReadingOwner))(1 := ProbingOwner ?o) \<and> lw_seq w = ((\<lambda>_. 0)(1 := 0))(1 := 0) \<and> lw_live w = {1}"
    by (rule run_step [OF s1]) (simp add: contender_step.owner_read dir_owner_def held_dir_def)
  have s3: "\<exists>w. run_of w \<and> lw_dir w = Some held_dir \<and> lw_pc w = ((\<lambda>_. Acquiring)(0 := Holding, 1 := ProbingOwner ?o))(1 := ClaimingRoot ?o) \<and> lw_seq w = ((\<lambda>_. 0)(1 := 0))(1 := 0) \<and> lw_live w = {1}"
    using run_step [OF s2 [unfolded fun_upd_upd], of "Some held_dir" "ClaimingRoot ?o" 0] contender_step.owner_dead [OF dead] by simp
  have "contender_step two_processes {1} 1 (Some held_dir, ClaimingRoot ?o, 0)
      (Some claimed_dir, Confirming ?o RootSlot recovery_claim_1 False False, 1)"
    using contender_step.root_claimed [of held_dir recovery_claim_1 two_processes 1 0 ?o "{1}"]
    by (simp add: held_dir_def claimed_dir_def)
  then show ?thesis
    using run_step [OF s3 [unfolded fun_upd_upd], of "Some claimed_dir" "Confirming ?o RootSlot recovery_claim_1 False False" 1]
    by simp
qed

lemma claimed_dir_reads:
  "dir_owner (Some claimed_dir) = Some (own two_processes 0)" "dir_claim (Some claimed_dir) RootSlot = Some recovery_claim_1"
  by (simp_all add: dir_owner_def dir_claim_def claimed_dir_def held_dir_def)

theorem recovery_evicts_only_dead_witness:
  "\<exists>w d. lease_reachable two_processes {0, 1} w \<and>
     lw_pc w 1 = Moving (own two_processes 0) RootSlot recovery_claim_1 \<and>
     lw_dir w = Some d \<and> ld_owner d = Some (own two_processes 0) \<and> 0 \<notin> lw_live w"
proof -
  let ?o = "own two_processes 0"
  let ?pcs = "(\<lambda>_. Acquiring)(0 := Holding)"
  have s1: "\<exists>w. run_of w \<and> lw_dir w = Some claimed_dir \<and> lw_pc w = ?pcs(1 := Confirming ?o RootSlot recovery_claim_1 True False) \<and>
      lw_seq w = (\<lambda>_. 0)(1 := 1) \<and> lw_live w = {1}"
    using run_step [OF run_claimed, of "Some claimed_dir" "Confirming ?o RootSlot recovery_claim_1 True False" 1]
      contender_step.confirm_owner [OF claimed_dir_reads(1)] by simp
  have s2: "\<exists>w. run_of w \<and> lw_dir w = Some claimed_dir \<and> lw_pc w = ?pcs(1 := Confirming ?o RootSlot recovery_claim_1 True True) \<and>
      lw_seq w = (\<lambda>_. 0)(1 := 1) \<and> lw_live w = {1}"
    using run_step [OF s1, of "Some claimed_dir" "Confirming ?o RootSlot recovery_claim_1 True True" 1]
      contender_step.confirm_claim [OF claimed_dir_reads(2)] by simp
  have "\<exists>w. run_of w \<and> lw_dir w = Some claimed_dir \<and> lw_pc w = ?pcs(1 := Moving ?o RootSlot recovery_claim_1) \<and>
      lw_seq w = (\<lambda>_. 0)(1 := 1) \<and> lw_live w = {1}"
    using run_step [OF s2, of "Some claimed_dir" "Moving ?o RootSlot recovery_claim_1" 1]
      contender_step.confirmed by simp
  then obtain w where w: "run_of w" "lw_pc w = ?pcs(1 := Moving ?o RootSlot recovery_claim_1)" "lw_live w = {1}" by blast
  have m: "lw_pc w 1 = Moving ?o RootSlot recovery_claim_1" "proc_of two_processes 1 \<in> lw_live w"
    using w by (simp_all add: two_processes_def)
  from recovery_evicts_only_dead [OF w(1) m] w(1) m(1) show ?thesis by (auto simp: two_processes_def own_def)
qed

text \<open>
  A contender that gives up after writing its claim leaves the claim behind. Nobody can supersede it
  while the contender's process lives.
\<close>

definition abandoned :: "lease_env \<Rightarrow> lease_world \<Rightarrow> contender \<Rightarrow> lease_owner \<Rightarrow> claim_slot \<Rightarrow> recovery_claim \<Rightarrow> bool" where
  "abandoned env w c o' slot k =
     ((\<exists>f. lw_pc w c = AcquireFailed f) \<and> claimant k = c \<and> cl_ownerToken k = lo_token o' \<and>
      (\<exists>d. lw_dir w = Some d \<and> ld_owner d = Some o' \<and> ld_claims d slot = Some k))"

lemma abandoned_blocks_grip:
  assumes inv: "lease_inv env w" and a: "abandoned env w c o' slot k" and live: "proc_of env c \<in> lw_live w"
    and x: "proc_of env x \<in> lw_live w"
  shows "grip env x (lw_pc w x) = None"
proof (cases "grip env x (lw_pc w x)")
  case (Some ow)
  obtain d where d: "lw_dir w = Some d" "ld_owner d = Some o'" "ld_claims d slot = Some k" using a by (auto simp: abandoned_def)
  have ok: "chain_ok env (lw_live w) (ld_claims d) (lo_token o')" "claim_labels env w slot k" "owner_labels env w o'"
    using lease_invD(1) [OF inv d(1)] d by (auto simp: dir_ok_def)
  have alive: "\<not> gone env (lw_live w) x" "\<not> gone env (lw_live w) c" using x live by (simp_all add: gone_def)
  have ow: "ow = Some o'" using grip_dir [OF inv alive(1) Some] d by simp
  from Some show ?thesis
  proof (cases rule: grip_cases [where w = w])
    case holder
    then have "gone env (lw_live w) x" using ok(2) ow a by (simp add: claim_labels_def abandoned_def own_def)
    with alive show ?thesis by blast
  next
    case (mover o'' slot' k')
    then have held: "claim_held env w x o' slot' k'" using lease_invD(2) [OF inv, of x] ow by simp
    then have "ld_claims d slot' = Some k'" using d by (simp add: claim_held_def)
    then have "k' = k" using held a d alive
      by (intro chain_unique_live [OF ok(1)]) (auto simp: claim_held_def abandoned_def ranI)
    then have "x = c" using held a by (simp add: claim_held_def abandoned_def)
    then show ?thesis using a by (auto simp: abandoned_def)
  qed (use ow in simp)
qed simp

lemma abandoned_step:
  assumes inv: "lease_inv env w" and a: "abandoned env w c o' slot k" and live: "proc_of env c \<in> lw_live w"
    and step: "lease_step env w w'"
  shows "abandoned env w' c o' slot k"
  using step
proof (cases rule: lease_step_after)
  case (act x D' pc' n')
  have "x \<noteq> c" using act(2) a by (auto simp: abandoned_def elim: contender_step.cases)
  moreover have "grip env x (lw_pc w x) = None"
    using abandoned_blocks_grip [OF inv a live, of x] act(1) by (simp add: gone_def)
  ultimately show ?thesis using step_dir [OF act(2)] a unfolding act(3) by (auto simp: abandoned_def)
qed (use a in \<open>auto simp: abandoned_def\<close>)

text \<open>
  Once a contender has failed (for instance timed out) after creating its
  recovery claim, the lease stays with its dead owner for as long as that contender's process runs:
  whatever everybody does, nobody is ever inside.
\<close>

theorem abandoned_claim_blocks_lease:
  assumes "lease_reachable env processes w" and "abandoned env w c o' slot k"
    and "(lease_step env)\<^sup>*\<^sup>* w w'" and "proc_of env c \<in> lw_live w'"
  shows "dir_owner (lw_dir w') = Some o' \<and> (\<forall>x. proc_of env x \<in> lw_live w' \<longrightarrow> \<not> inside (lw_pc w' x))"
proof -
  have inv: "lease_inv env w" using assms(1) by (rule lease_inv_reachable)
  have mono: "lease_step env v v' \<Longrightarrow> lw_live v' \<subseteq> lw_live v" for v v' by (auto elim: lease_step.cases)
  have "abandoned env w' c o' slot k \<and> lease_inv env w'"
    using assms(3,4)
  proof (induction rule: rtranclp_induct)
    case base
    then show ?case using assms(2) inv by blast
  next
    case (step v v')
    then have "proc_of env c \<in> lw_live v" using mono by blast
    with step show ?case using abandoned_step lease_inv_step by blast
  qed
  then have a: "abandoned env w' c o' slot k" and i: "lease_inv env w'" by simp_all
  have "\<not> inside (lw_pc w' x)" if "proc_of env x \<in> lw_live w'" for x
    using abandoned_blocks_grip [OF i a assms(4) that] inside_grip [of "lw_pc w' x" env x] by auto
  with a show ?thesis by (auto simp: abandoned_def dir_owner_def)
qed

theorem abandoned_claim_blocks_lease_witness:
  "\<exists>w. lease_reachable two_processes {0, 1} w \<and> lw_pc w 1 = AcquireFailed TimedOut \<and>
     dir_owner (lw_dir w) = Some (own two_processes 0)"
proof -
  have "\<exists>w. run_of w \<and> lw_dir w = Some claimed_dir \<and> lw_pc w = (\<lambda>_. Acquiring)(0 := Holding, 1 := AcquireFailed TimedOut) \<and>
      lw_seq w = (\<lambda>_. 0)(1 := 1) \<and> lw_live w = {1}"
    using run_step [OF run_claimed, of "Some claimed_dir" "AcquireFailed TimedOut" 1] contender_step.confirm_late by simp
  then obtain w where w: "run_of w" "lw_dir w = Some claimed_dir" "lw_pc w = (\<lambda>_. Acquiring)(0 := Holding, 1 := AcquireFailed TimedOut)"
    "lw_live w = {1}" by blast
  have "abandoned two_processes w 1 (own two_processes 0) RootSlot recovery_claim_1"
    using w by (simp add: abandoned_def claimant_def claimFor_def claimed_dir_def held_dir_def)
  from abandoned_claim_blocks_lease [OF w(1) this, of w] w have "dir_owner (lw_dir w) = Some (own two_processes 0)"
    by (simp add: two_processes_def)
  with w show ?thesis by (intro exI [where x = w]) simp
qed

end
