(* ===== verification/GateInvalidation.thy ===== *)
theory GateInvalidation
  imports Steps GateVerdict
begin

text \<open>
  Which judged gates a rebase re-opens: the path conventions (\<^verbatim>\<open>engine/test-path.ts\<close> and
  \<^verbatim>\<open>isCodeOrTestPath\<close> of \<^verbatim>\<open>engine/rebase.ts\<close>), the gate surfaces and the two classifiers of
  \<^verbatim>\<open>engine/gate-invalidation.ts\<close>, and the comparison of a completed replay with the tree git would
  have produced (\<^verbatim>\<open>engine/rebase-replay.ts\<close>).
\<close>

section \<open>Paths\<close>

text \<open>
  \<open>marked_extension mark path\<close> is the pattern of \<^verbatim>\<open>isTestFilePath\<close> for one marker: the marker, then
  one or more characters other than a slash up to the end, ignoring case.
\<close>

definition marked_extension :: "string \<Rightarrow> string \<Rightarrow> bool" where
  "marked_extension mark path =
     list_ex (\<lambda>s. starts_with s mark \<and> drop (length mark) s \<noteq> [] \<and> CHR ''/'' \<notin> set (drop (length mark) s))
       (tails (lower path))"

definition isTestSupportPath :: "string \<Rightarrow> bool" where
  "isTestSupportPath path =
     list_ex (\<lambda>seg. seg \<in> set [''test'', ''tests'', ''__tests__'', ''spec'']) (split_on (CHR ''/'') (lower path))"

definition isTestFilePath :: "string \<Rightarrow> bool" where
  "isTestFilePath path =
     (marked_extension ''.test.'' path \<or> marked_extension ''.spec.'' path \<or>
      (isTestSupportPath path \<and> (marked_extension ''_test.'' path \<or> marked_extension ''_spec.'' path)))"

definition isTestPath :: "string \<Rightarrow> bool" where
  "isTestPath path = (isTestFilePath path \<or> isTestSupportPath path)"

text \<open>The last segment is README, bare or with a purely alphabetic extension, ignoring case.\<close>

definition is_letter :: "char \<Rightarrow> bool" where
  "is_letter c = (97 \<le> (of_char (lower_char c) :: nat) \<and> (of_char (lower_char c) :: nat) \<le> 122)"

definition readme_path :: "string \<Rightarrow> bool" where
  "readme_path p =
     (let name = last (split_on (CHR ''/'') p); ext = drop 6 name
      in lower (take 6 name) = ''readme'' \<and>
         (ext = [] \<or> (hd ext = CHR ''.'' \<and> tl ext \<noteq> [] \<and> list_all is_letter (tl ext))))"

definition isCodeOrTestPath :: "string \<Rightarrow> bool" where
  "isCodeOrTestPath path =
     (let p = js_trim path
      in p \<noteq> [] \<and> p \<noteq> ''CHANGELOG.md'' \<and> \<not> starts_with p ''.docs/'' \<and> \<not> starts_with p ''docs/'' \<and> \<not> readme_path p)"

definition filterCodeOrTestPaths :: "string list \<Rightarrow> string list" where
  "filterCodeOrTestPaths paths = filter isCodeOrTestPath paths"

definition isRuntimeSourcePath :: "string \<Rightarrow> bool" where
  "isRuntimeSourcePath path = (isCodeOrTestPath path \<and> \<not> isTestPath path)"

section \<open>Surfaces\<close>

datatype gate_surface_kind =
    FeatureRuntime
  | FeatureCodetest
  | FeatureRuntimeOrPrdInputs
  | FeatureRuntimeOrCoverageInputs
  | FeaturePrdInputs
  | FeatureCoverageInputs
  | AllRuntime
  | AnyCodetest

definition PRD_AUDIT_DOCUMENT_INPUT_PREFIXES :: "string list" where
  "PRD_AUDIT_DOCUMENT_INPUT_PREFIXES = [''.docs/stories/'', ''.docs/specs/'']"

definition COVERAGE_DOCUMENT_INPUT_PREFIXES :: "string list" where
  "COVERAGE_DOCUMENT_INPUT_PREFIXES =
     PRD_AUDIT_DOCUMENT_INPUT_PREFIXES @ [''.docs/plans/'', ''.docs/coherence/'', ''.docs/decisions/'']"

definition has_prefix_in :: "string list \<Rightarrow> string \<Rightarrow> bool" where
  "has_prefix_in prefixList path = list_ex (\<lambda>pre. starts_with path pre) prefixList"

definition isReviewDocumentPath :: "string \<Rightarrow> bool" where
  "isReviewDocumentPath path = has_prefix_in COVERAGE_DOCUMENT_INPUT_PREFIXES path"

text \<open>\<^verbatim>\<open>Object.entries(GATE_SURFACE)\<close>, in the order of the literal.\<close>

definition GATE_SURFACE :: "(step_name \<times> gate_surface_kind) list" where
  "GATE_SURFACE =
     [(''build_review'', FeatureCodetest), (''test_suite'', AnyCodetest), (''manual_test'', AllRuntime),
      (''prd_audit'', FeaturePrdInputs), (''architecture_review_as_built'', FeatureCoverageInputs)]"

record delta_partition =
  dp_test :: "string list"
  dp_featureSrc :: "string list"
  dp_foreignSrc :: "string list"

fun partitionDelta :: "string list \<Rightarrow> string list \<Rightarrow> delta_partition" where
  "partitionDelta [] F = \<lparr>dp_test = [], dp_featureSrc = [], dp_foreignSrc = []\<rparr>"
| "partitionDelta (path # D) F =
     (let rest = partitionDelta D F
      in if isTestPath path then rest\<lparr>dp_test := path # dp_test rest\<rparr>
         else if isRuntimeSourcePath path then
           (if path \<in> set F then rest\<lparr>dp_featureSrc := path # dp_featureSrc rest\<rparr>
            else rest\<lparr>dp_foreignSrc := path # dp_foreignSrc rest\<rparr>)
         else rest)"

definition featureTestPaths :: "string list \<Rightarrow> string list \<Rightarrow> string list" where
  "featureTestPaths D F = filter (\<lambda>path. isTestPath path \<and> path \<in> set F) D"

record surface_projection =
  sp_matchedPaths :: "string list"
  sp_declaredSurface :: "string list"

definition document_projection :: "string list \<Rightarrow> string list option \<Rightarrow> string list \<Rightarrow> surface_projection" where
  "document_projection D documentInputs prefixList =
     (let declared = map_option (filter (has_prefix_in prefixList)) documentInputs
      in \<lparr>sp_matchedPaths = filter (\<lambda>path. has_prefix_in prefixList path \<and>
              (case declared of None \<Rightarrow> True | Some ds \<Rightarrow> path \<in> set ds)) D,
          sp_declaredSurface = (case declared of
              Some (d # ds) \<Rightarrow> d # ds
            | _ \<Rightarrow> [''<'' @ join ''|'' prefixList @ ''>''])\<rparr>)"

definition projectGateSurfaces ::
  "string list \<Rightarrow> string list \<Rightarrow> string list option \<Rightarrow> gate_surface_kind \<Rightarrow> surface_projection" where
  "projectGateSurfaces D F documentInputs kind =
     (let p = partitionDelta D F;
          featureTest = featureTestPaths D F;
          featureRuntimeSurface = filter isRuntimeSourcePath F;
          featureCodeTestSurface = filter (\<lambda>path. isRuntimeSourcePath path \<or> isTestPath path) F;
          prdInputs = document_projection D documentInputs PRD_AUDIT_DOCUMENT_INPUT_PREFIXES;
          coverageInputs = document_projection D documentInputs COVERAGE_DOCUMENT_INPUT_PREFIXES
      in case kind of
           FeatureRuntime \<Rightarrow> \<lparr>sp_matchedPaths = dp_featureSrc p, sp_declaredSurface = featureRuntimeSurface\<rparr>
         | FeatureCodetest \<Rightarrow> \<lparr>sp_matchedPaths = dp_featureSrc p @ featureTest, sp_declaredSurface = featureCodeTestSurface\<rparr>
         | FeatureRuntimeOrPrdInputs \<Rightarrow>
             \<lparr>sp_matchedPaths = dp_featureSrc p @ sp_matchedPaths prdInputs,
              sp_declaredSurface = featureRuntimeSurface @ sp_declaredSurface prdInputs\<rparr>
         | FeatureRuntimeOrCoverageInputs \<Rightarrow>
             \<lparr>sp_matchedPaths = dp_featureSrc p @ sp_matchedPaths coverageInputs,
              sp_declaredSurface = featureRuntimeSurface @ sp_declaredSurface coverageInputs\<rparr>
         | FeaturePrdInputs \<Rightarrow> prdInputs
         | FeatureCoverageInputs \<Rightarrow> coverageInputs
         | AllRuntime \<Rightarrow>
             \<lparr>sp_matchedPaths = dp_featureSrc p @ dp_foreignSrc p, sp_declaredSurface = [''<all runtime source>'']\<rparr>
         | AnyCodetest \<Rightarrow>
             \<lparr>sp_matchedPaths = dp_test p @ dp_featureSrc p @ dp_foreignSrc p,
              sp_declaredSurface = [''<all code or test paths>'']\<rparr>)"

section \<open>The classifiers\<close>

fun classify_gates ::
  "(gate_surface_kind \<Rightarrow> surface_projection) \<Rightarrow> bool \<Rightarrow> (step_name \<times> gate_surface_kind) list
    \<Rightarrow> step_name list \<times> step_name list" where
  "classify_gates projections ranManualTest [] = ([], [])"
| "classify_gates projections ranManualTest ((gate, surface) # gates) =
     (let (preserved, invalidated) = classify_gates projections ranManualTest gates
      in if gate = ''manual_test'' \<and> \<not> ranManualTest then (preserved, invalidated)
         else if sp_matchedPaths (projections surface) = [] then (gate # preserved, invalidated)
         else (preserved, gate # invalidated))"

definition classifyGateInvalidation ::
  "string list \<Rightarrow> string list \<Rightarrow> bool \<Rightarrow> string list option \<Rightarrow> step_name list \<times> step_name list" where
  "classifyGateInvalidation D F ranManualTest documentInputs =
     classify_gates (projectGateSurfaces D F documentInputs) ranManualTest GATE_SURFACE"

fun isFeatureScopedReview :: "gate_surface_kind \<Rightarrow> bool" where
  "isFeatureScopedReview AllRuntime = False"
| "isFeatureScopedReview AnyCodetest = False"
| "isFeatureScopedReview _ = True"

text \<open>The completed replay, compared with the tree git reconstructs.\<close>

record replay_identity =
  rid_preRebaseHead :: string
  rid_mergeBase :: string
  rid_target :: string
  rid_completedHead :: string

datatype replay_comparison =
    ReplayUnchanged replay_identity string string
  | ReplayChanged replay_identity string string
  | ReplayUnproved replay_identity string

definition validObject :: "string \<Rightarrow> bool" where
  "validObject value =
     (40 \<le> length value \<and> length value \<le> 64 \<and>
      list_all (\<lambda>c. is_digit c \<or> lower_char c \<in> set ''abcdef'') value)"

fun replay_kind :: "replay_comparison \<Rightarrow> string" where
  "replay_kind (ReplayUnchanged _ _ _) = ''unchanged''"
| "replay_kind (ReplayChanged _ _ _) = ''changed''"
| "replay_kind (ReplayUnproved _ _) = ''unproved''"

text \<open>
  The two git commands answer \<open>None\<close> when they throw, else the exit code and the output.
\<close>

definition compareReplayTree ::
  "(int \<times> string) option \<Rightarrow> (int \<times> string) option \<Rightarrow> replay_identity \<Rightarrow> replay_comparison" where
  "compareReplayTree merge completed identity =
     (if \<not> validObject (rid_preRebaseHead identity) \<or> \<not> validObject (rid_mergeBase identity) \<or>
         \<not> validObject (rid_target identity) \<or> \<not> validObject (rid_completedHead identity)
      then ReplayUnproved identity ''replay identity is missing or malformed''
      else case merge of
        None \<Rightarrow> ReplayUnproved identity ''replay reconstruction command failed''
      | Some (mergeExit, mergeOut) \<Rightarrow>
          if mergeExit \<noteq> 0
          then ReplayUnproved identity ''clean replay reconstruction was unavailable or conflicted''
          else (case completed of
            None \<Rightarrow> ReplayUnproved identity ''replay reconstruction command failed''
          | Some (completedExit, completedOut) \<Rightarrow>
              (let expectedTree = js_trim mergeOut;
                   completedTree = (if completedExit = 0 then js_trim completedOut else [])
               in if \<not> validObject expectedTree \<or> \<not> validObject completedTree
                  then ReplayUnproved identity ''replay reconstruction returned malformed tree identity''
                  else if expectedTree = completedTree then ReplayUnchanged identity expectedTree completedTree
                  else ReplayChanged identity expectedTree completedTree)))"

definition captureReplayIdentity ::
  "(int \<times> string) option \<Rightarrow> string \<Rightarrow> string \<Rightarrow> string \<Rightarrow> replay_identity" where
  "captureReplayIdentity completed preRebaseHead mergeBase target =
     \<lparr>rid_preRebaseHead = js_trim preRebaseHead, rid_mergeBase = js_trim mergeBase, rid_target = js_trim target,
      rid_completedHead = (case completed of
        Some (exitCode, stdout) \<Rightarrow> if exitCode = 0 then js_trim stdout else [] | None \<Rightarrow> [])\<rparr>"

datatype replay_decision = Preserve | Invalidate | SkipGate

record replay_gate_candidate =
  rc_gate :: step_name
  rc_decision :: replay_decision
  rc_surface :: gate_surface_kind
  rc_combinedDelta :: "string list"
  rc_featureContribution :: "string list"
  rc_activeInputs :: "string list"
  rc_replay :: string

record replay_gate_invalidation =
  rg_preserved :: "step_name list"
  rg_invalidated :: "step_name list"
  rg_candidates :: "replay_gate_candidate list"

definition gate_decision ::
  "(gate_surface_kind \<Rightarrow> surface_projection) \<Rightarrow> bool \<Rightarrow> replay_comparison \<Rightarrow> step_name \<Rightarrow> gate_surface_kind \<Rightarrow> replay_decision" where
  "gate_decision projections ranManualTest replay gate surface =
     (let matched = sp_matchedPaths (projections surface);
          activeInputs = filter isReviewDocumentPath matched;
          preserveUnchangedFeatureContribution =
            (replay_kind replay = ''unchanged'' \<and> isFeatureScopedReview surface \<and> activeInputs = []);
          unprovedFeatureScopedReplay = (replay_kind replay = ''unproved'' \<and> isFeatureScopedReview surface)
      in if gate = ''manual_test'' \<and> \<not> ranManualTest then SkipGate
         else if \<not> unprovedFeatureScopedReplay \<and> (preserveUnchangedFeatureContribution \<or> matched = []) then Preserve
         else Invalidate)"

definition classifyReplayGateInvalidation ::
  "string list \<Rightarrow> string list \<Rightarrow> bool \<Rightarrow> replay_comparison \<Rightarrow> string list option \<Rightarrow> replay_gate_invalidation" where
  "classifyReplayGateInvalidation D F ranManualTest replay documentInputs =
     (let projections = projectGateSurfaces D F documentInputs;
          featureContribution = filter (\<lambda>path. path \<in> set F \<and> (isRuntimeSourcePath path \<or> isTestPath path)) D;
          candidates = map (\<lambda>(gate, surface).
            \<lparr>rc_gate = gate, rc_decision = gate_decision projections ranManualTest replay gate surface,
             rc_surface = surface, rc_combinedDelta = D, rc_featureContribution = featureContribution,
             rc_activeInputs = filter isReviewDocumentPath (sp_matchedPaths (projections surface)),
             rc_replay = replay_kind replay\<rparr>) GATE_SURFACE;
          decided = (\<lambda>d. map rc_gate (filter (\<lambda>c. rc_decision c = d) candidates))
      in \<lparr>rg_preserved = decided Preserve, rg_invalidated = decided Invalidate, rg_candidates = candidates\<rparr>)"

section \<open>The decision table\<close>

text \<open>The paths of the delta that matter to a surface, as a set.\<close>

definition code_or_test :: "string \<Rightarrow> bool" where
  "code_or_test path = (isTestPath path \<or> isCodeOrTestPath path)"

definition declared_inputs :: "string list option \<Rightarrow> string list \<Rightarrow> string set" where
  "declared_inputs documentInputs prefixList =
     {path. has_prefix_in prefixList path \<and> (case documentInputs of None \<Rightarrow> True | Some ds \<Rightarrow> path \<in> set ds)}"

fun relevant_paths :: "string list \<Rightarrow> string list option \<Rightarrow> gate_surface_kind \<Rightarrow> string set" where
  "relevant_paths F documentInputs FeatureRuntime = {path. isRuntimeSourcePath path} \<inter> set F"
| "relevant_paths F documentInputs FeatureCodetest = {path. code_or_test path} \<inter> set F"
| "relevant_paths F documentInputs FeatureRuntimeOrPrdInputs =
     {path. isRuntimeSourcePath path} \<inter> set F \<union> declared_inputs documentInputs PRD_AUDIT_DOCUMENT_INPUT_PREFIXES"
| "relevant_paths F documentInputs FeatureRuntimeOrCoverageInputs =
     {path. isRuntimeSourcePath path} \<inter> set F \<union> declared_inputs documentInputs COVERAGE_DOCUMENT_INPUT_PREFIXES"
| "relevant_paths F documentInputs FeaturePrdInputs =
     declared_inputs documentInputs PRD_AUDIT_DOCUMENT_INPUT_PREFIXES"
| "relevant_paths F documentInputs FeatureCoverageInputs =
     declared_inputs documentInputs COVERAGE_DOCUMENT_INPUT_PREFIXES"
| "relevant_paths F documentInputs AllRuntime = {path. isRuntimeSourcePath path}"
| "relevant_paths F documentInputs AnyCodetest = {path. code_or_test path}"

lemma partition_filters:
  "partitionDelta D F =
     \<lparr>dp_test = filter isTestPath D,
      dp_featureSrc = filter (\<lambda>p. isRuntimeSourcePath p \<and> p \<in> set F) D,
      dp_foreignSrc = filter (\<lambda>p. isRuntimeSourcePath p \<and> p \<notin> set F) D\<rparr>"
  by (induction D) (auto simp: Let_def isRuntimeSourcePath_def)

lemma document_matched:
  "set (sp_matchedPaths (document_projection D docs prefixList)) = set D \<inter> declared_inputs docs prefixList"
  by (auto simp: document_projection_def Let_def declared_inputs_def split: option.splits)

lemma matched_relevant:
  "set (sp_matchedPaths (projectGateSurfaces D F docs kind)) = set D \<inter> relevant_paths F docs kind"
  by (cases kind)
     (auto simp: projectGateSurfaces_def Let_def partition_filters document_matched featureTestPaths_def
        isRuntimeSourcePath_def code_or_test_def)

lemma matched_Nil:
  "sp_matchedPaths (projectGateSurfaces D F docs kind) = [] \<longleftrightarrow> set D \<inter> relevant_paths F docs kind = {}"
  by (metis matched_relevant set_empty)

definition considered_gate :: "bool \<Rightarrow> step_name \<Rightarrow> bool" where
  "considered_gate ranManualTest gate = (gate \<noteq> ''manual_test'' \<or> ranManualTest)"

lemma classify_gates_filters:
  "classify_gates projections ranManualTest gates =
     (map fst (filter (\<lambda>(g, k). considered_gate ranManualTest g \<and> sp_matchedPaths (projections k) = []) gates),
      map fst (filter (\<lambda>(g, k). considered_gate ranManualTest g \<and> sp_matchedPaths (projections k) \<noteq> []) gates))"
  by (induction projections ranManualTest gates rule: classify_gates.induct) (auto simp: Let_def considered_gate_def)

lemma gates_distinct: "distinct (map fst GATE_SURFACE)"
  by (simp add: GATE_SURFACE_def)

lemma gate_surface_unique: "(g, k) \<in> set GATE_SURFACE \<Longrightarrow> (g, k') \<in> set GATE_SURFACE \<Longrightarrow> k = k'"
  using gates_distinct by (metis eq_key_imp_eq_value)

lemma filtered_gate:
  assumes "(gate, surface) \<in> set GATE_SURFACE"
  shows "gate \<in> set (map fst (filter (\<lambda>(g, k). P g k) GATE_SURFACE)) \<longleftrightarrow> P gate surface"
proof -
  have "gate \<in> set (map fst (filter (\<lambda>(g, k). P g k) GATE_SURFACE)) \<longleftrightarrow> (\<exists>k. (gate, k) \<in> set GATE_SURFACE \<and> P gate k)"
    by force
  with assms gate_surface_unique [OF assms] show ?thesis by metis
qed

lemma filtered_gates_subset: "set (map fst (filter P GATE_SURFACE)) \<subseteq> fst ` set GATE_SURFACE"
  by auto

lemma classify_members:
  assumes "classifyGateInvalidation D F ranManualTest documentInputs = (preserved, invalidated)"
    and "(gate, surface) \<in> set GATE_SURFACE"
  shows "(gate \<in> set preserved \<longleftrightarrow>
        considered_gate ranManualTest gate \<and> set D \<inter> relevant_paths F documentInputs surface = {}) \<and>
     (gate \<in> set invalidated \<longleftrightarrow>
        considered_gate ranManualTest gate \<and> set D \<inter> relevant_paths F documentInputs surface \<noteq> {}) \<and>
     set preserved \<union> set invalidated \<subseteq> fst ` set GATE_SURFACE"
proof -
  have "preserved = map fst (filter (\<lambda>(g, k). considered_gate ranManualTest g \<and>
      sp_matchedPaths (projectGateSurfaces D F documentInputs k) = []) GATE_SURFACE)"
    "invalidated = map fst (filter (\<lambda>(g, k). considered_gate ranManualTest g \<and>
      sp_matchedPaths (projectGateSurfaces D F documentInputs k) \<noteq> []) GATE_SURFACE)"
    using assms(1) by (simp_all add: classifyGateInvalidation_def classify_gates_filters)
  then show ?thesis
    using filtered_gates_subset by (simp only: filtered_gate [OF assms(2)] matched_Nil) blast
qed

text \<open>
  C33: after a rebase with delta \<open>D\<close> every judged gate is preserved or
  invalidated, never both, manual testing only when it ran; and a gate is preserved exactly when the
  delta meets none of the paths its surface depends on: the feature's own code and tests for build
  review, every code or test path for the test suite, all runtime source for manual testing, the
  declared stories and specs for the requirements audit, and in addition plans, coherence and
  decision records for the as-built review.
\<close>

theorem gate_invalidation_exact:
  assumes "classifyGateInvalidation D F ranManualTest documentInputs = (preserved, invalidated)"
    and "(gate, surface) \<in> set GATE_SURFACE"
  shows "(gate \<in> set preserved \<longleftrightarrow>
        considered_gate ranManualTest gate \<and> set D \<inter> relevant_paths F documentInputs surface = {}) \<and>
     (gate \<in> set invalidated \<longleftrightarrow>
        considered_gate ranManualTest gate \<and> set D \<inter> relevant_paths F documentInputs surface \<noteq> {}) \<and>
     set preserved \<union> set invalidated \<subseteq> fst ` set GATE_SURFACE"
  using classify_members [OF assms] .

theorem gate_invalidation_exact_witness:
  "\<exists>preserved invalidated. classifyGateInvalidation [''lib/a.ts'', ''test/b.ts''] [''src/c.ts''] True None = (preserved, invalidated) \<and>
     ''build_review'' \<in> set preserved \<and> ''manual_test'' \<in> set invalidated"
proof -
  obtain preserved invalidated where
    c: "classifyGateInvalidation [''lib/a.ts'', ''test/b.ts''] [''src/c.ts''] True None = (preserved, invalidated)"
    by fastforce
  have "isRuntimeSourcePath ''lib/a.ts''" by code_simp
  with gate_invalidation_exact [OF c, of "''build_review''" FeatureCodetest]
    gate_invalidation_exact [OF c, of "''manual_test''" AllRuntime] c
  show ?thesis by (auto simp: GATE_SURFACE_def considered_gate_def)
qed

section \<open>Replay\<close>

lemma validObject_Nil [simp]: "\<not> validObject []"
  by (simp add: validObject_def)

lemma replay_unchangedD:
  "replay_kind (compareReplayTree merge completed identity) = ''unchanged'' \<Longrightarrow>
     \<exists>out out'. merge = Some (0, out) \<and> completed = Some (0, out') \<and> js_trim out = js_trim out' \<and> validObject (js_trim out)"
  by (auto simp: compareReplayTree_def Let_def split: if_splits option.splits)

lemma replay_lists:
  "rg_preserved (classifyReplayGateInvalidation D F ranManualTest replay docs) =
     map fst (filter (\<lambda>(g, k). gate_decision (projectGateSurfaces D F docs) ranManualTest replay g k = Preserve) GATE_SURFACE)"
  "rg_invalidated (classifyReplayGateInvalidation D F ranManualTest replay docs) =
     map fst (filter (\<lambda>(g, k). gate_decision (projectGateSurfaces D F docs) ranManualTest replay g k = Invalidate) GATE_SURFACE)"
  by (simp_all add: classifyReplayGateInvalidation_def Let_def filter_map comp_def case_prod_unfold)

lemma active_inputs_Nil:
  "filter isReviewDocumentPath (sp_matchedPaths (projectGateSurfaces D F docs kind)) = [] \<longleftrightarrow>
     set D \<inter> relevant_paths F docs kind \<inter> {path. isReviewDocumentPath path} = {}"
  using matched_relevant [of D F docs kind] by (auto simp: filter_empty_conv)

lemma gate_decision_Preserve:
  "gate_decision (projectGateSurfaces D F docs) ranManualTest replay gate surface = Preserve \<longleftrightarrow>
     considered_gate ranManualTest gate \<and> \<not> (replay_kind replay = ''unproved'' \<and> isFeatureScopedReview surface) \<and>
     (set D \<inter> relevant_paths F docs surface = {} \<or>
      (replay_kind replay = ''unchanged'' \<and> isFeatureScopedReview surface \<and>
       set D \<inter> relevant_paths F docs surface \<inter> {path. isReviewDocumentPath path} = {}))"
  by (auto simp: gate_decision_def Let_def considered_gate_def active_inputs_Nil matched_Nil)

lemma gate_decision_Invalidate:
  "gate_decision (projectGateSurfaces D F docs) ranManualTest replay gate surface = Invalidate \<longleftrightarrow>
     considered_gate ranManualTest gate \<and>
     gate_decision (projectGateSurfaces D F docs) ranManualTest replay gate surface \<noteq> Preserve"
  by (auto simp: gate_decision_def Let_def considered_gate_def)

text \<open>
  C34: a considered gate that a replay preserves although the delta meets its
  surface is a feature-scoped review, none of its documents changed, and git rebuilt exactly the
  completed tree; when the comparison gave no proof, no feature-scoped review is preserved at all;
  a changed replay preserves exactly what the paths alone preserve; and whatever is not preserved
  is invalidated.
\<close>

theorem replay_preservation_sound:
  assumes "classifyReplayGateInvalidation D F ranManualTest (compareReplayTree merge completed identity) documentInputs = r"
    and "(gate, surface) \<in> set GATE_SURFACE" and "considered_gate ranManualTest gate"
  shows "(gate \<in> set (rg_preserved r) \<and> set D \<inter> relevant_paths F documentInputs surface \<noteq> {} \<longrightarrow>
       isFeatureScopedReview surface \<and>
       set D \<inter> relevant_paths F documentInputs surface \<inter> {path. isReviewDocumentPath path} = {} \<and>
       (\<exists>out out'. merge = Some (0, out) \<and> completed = Some (0, out') \<and> js_trim out = js_trim out')) \<and>
     (replay_kind (compareReplayTree merge completed identity) = ''unproved'' \<and> isFeatureScopedReview surface \<longrightarrow>
       gate \<notin> set (rg_preserved r)) \<and>
     (replay_kind (compareReplayTree merge completed identity) = ''changed'' \<longrightarrow>
       (gate \<in> set (rg_preserved r) \<longleftrightarrow>
        gate \<in> set (fst (classifyGateInvalidation D F ranManualTest documentInputs)))) \<and>
     (gate \<in> set (rg_invalidated r) \<longleftrightarrow> gate \<notin> set (rg_preserved r))"
proof -
  let ?kind = "replay_kind (compareReplayTree merge completed identity)"
  have pres: "gate \<in> set (rg_preserved r) \<longleftrightarrow>
      gate_decision (projectGateSurfaces D F documentInputs) ranManualTest (compareReplayTree merge completed identity)
        gate surface = Preserve"
    and inval: "gate \<in> set (rg_invalidated r) \<longleftrightarrow>
      gate_decision (projectGateSurfaces D F documentInputs) ranManualTest (compareReplayTree merge completed identity)
        gate surface = Invalidate"
    unfolding assms(1) [symmetric] replay_lists by (rule filtered_gate [OF assms(2)])+
  obtain p i where c: "classifyGateInvalidation D F ranManualTest documentInputs = (p, i)" by fastforce
  have path: "gate \<in> set p \<longleftrightarrow> set D \<inter> relevant_paths F documentInputs surface = {}"
    using classify_members [OF c assms(2)] assms(3) by simp
  have proof_of: "?kind = ''unchanged'' \<Longrightarrow>
      \<exists>out out'. merge = Some (0, out) \<and> completed = Some (0, out') \<and> js_trim out = js_trim out'"
    using replay_unchangedD by blast
  show ?thesis
    unfolding pres inval c gate_decision_Invalidate unfolding gate_decision_Preserve
    using proof_of path assms(3) by auto
qed

definition rebased_identity :: replay_identity where
  "rebased_identity = \<lparr>rid_preRebaseHead = replicate 40 CHR ''a'', rid_mergeBase = replicate 40 CHR ''b'',
     rid_target = replicate 40 CHR ''c'', rid_completedHead = replicate 40 CHR ''d''\<rparr>"

theorem replay_preservation_sound_witness:
  "\<exists>r. classifyReplayGateInvalidation [''src/c.ts''] [''src/c.ts''] True
       (compareReplayTree (Some (0, replicate 40 CHR ''e'')) (Some (0, replicate 40 CHR ''f'')) rebased_identity) None = r \<and>
     ''build_review'' \<in> set (rg_invalidated r) \<and> ''prd_audit'' \<in> set (rg_preserved r)"
proof -
  let ?c = "compareReplayTree (Some (0, replicate 40 CHR ''e'')) (Some (0, replicate 40 CHR ''f'')) rebased_identity"
  obtain r where r: "classifyReplayGateInvalidation [''src/c.ts''] [''src/c.ts''] True ?c None = r" by blast
  have k: "replay_kind ?c = ''changed''" by code_simp
  have m: "(''build_review'', FeatureCodetest) \<in> set GATE_SURFACE" "(''prd_audit'', FeaturePrdInputs) \<in> set GATE_SURFACE"
    by (simp_all add: GATE_SURFACE_def)
  have cg: "considered_gate True g" for g by (simp add: considered_gate_def)
  have "isCodeOrTestPath ''src/c.ts''" "\<not> has_prefix_in PRD_AUDIT_DOCUMENT_INPUT_PREFIXES ''src/c.ts''" by code_simp+
  then have "set [''src/c.ts''] \<inter> relevant_paths [''src/c.ts''] None FeatureCodetest \<noteq> {}"
    "set [''src/c.ts''] \<inter> relevant_paths [''src/c.ts''] None FeaturePrdInputs = {}"
    by (auto simp: code_or_test_def declared_inputs_def)
  with replay_preservation_sound [OF r m(1) cg] replay_preservation_sound [OF r m(2) cg] k r show ?thesis
    using classify_members [OF prod.collapse [symmetric] m(1)] classify_members [OF prod.collapse [symmetric] m(2)]
    by (metis cg)
qed

end
