(* ===== verification/RebaseTransition.thy ===== *)
theory RebaseTransition
  imports GateVerdict KickbackLaws
begin

text \<open>
  Applying a rebase decision across three files (\<^verbatim>\<open>engine/rebase-transition.ts\<close>): the rebase gate's operation
  record, the conduct state and the preserved gates' verdicts, with the refund of convergence on the
  kickback ledger. The model runs \<^verbatim>\<open>applyRebaseTransition\<close> and keeps every durable state it passes
  through, so that a crash is a prefix of the run; other writers act before and after the batch of
  the state store, the two moments at which the code waits for it.
\<close>

section \<open>Operations and candidates\<close>

record preserved_candidate =
  pc_gate :: step_name
  pc_original :: jval
  pc_originalVerdictDigest :: string
  pc_relevantInputIdentities :: "string list"

record rebase_operation =
  ro_id :: string
  ro_appliedAt :: "int option"
  ro_preserved :: "step_name list"
  ro_invalidated :: "step_name list"
  ro_reverified :: "step_name list"
  ro_replay :: jval
  ro_cause :: "string option"
  ro_evidence :: "preserved_candidate list option"

definition candidate_json :: "preserved_candidate \<Rightarrow> jval" where
  "candidate_json c = JObj
     [(''gate'', JStr (pc_gate c)), (''original'', pc_original c),
      (''originalVerdictDigest'', JStr (pc_originalVerdictDigest c)),
      (''relevantInputIdentities'', JArr (map JStr (pc_relevantInputIdentities c)))]"

text \<open>An operation is \<^verbatim>\<open>applied\<close> exactly when it carries \<^verbatim>\<open>appliedAt\<close>.\<close>

definition operation_json :: "rebase_operation \<Rightarrow> jval" where
  "operation_json r = JObj
     ([(''id'', JStr (ro_id r)),
       (''status'', JStr (case ro_appliedAt r of None \<Rightarrow> ''applying'' | Some _ \<Rightarrow> ''applied'')),
       (''transition'', JObj [(''preserved'', JArr (map JStr (ro_preserved r))),
          (''invalidated'', JArr (map JStr (ro_invalidated r))), (''reverified'', JArr (map JStr (ro_reverified r)))]),
       (''replay'', ro_replay r)]
      @ (case ro_cause r of None \<Rightarrow> [] | Some c \<Rightarrow> [(''cause'', JStr c)])
      @ (case ro_evidence r of None \<Rightarrow> [] | Some cs \<Rightarrow> [(''preservationEvidence'', JArr (map candidate_json cs))])
      @ (case ro_appliedAt r of None \<Rightarrow> [] | Some n \<Rightarrow> [(''appliedAt'', JNum n)]))"

definition stamp_json :: "preserved_candidate \<Rightarrow> jval \<Rightarrow> string \<Rightarrow> jval" where
  "stamp_json c replay operationId = JObj
     [(''gate'', JStr (pc_gate c)), (''original'', pc_original c), (''replay'', replay),
      (''relevantInputIdentities'', JArr (map JStr (pc_relevantInputIdentities c))), (''operationId'', JStr operationId)]"

section \<open>The transition\<close>

record transition_options =
  to_replay :: jval
  to_invalidated :: "step_name list"
  to_preserved :: "step_name list"
  to_candidates :: "preserved_candidate list"
  to_reverified :: "step_name list"
  to_operationId :: "string option"
  to_child :: "int option"
  to_cause :: "string option"

record rt_world =
  rw_files :: verdict_files
  rw_doc :: state_doc
  rw_ledger :: ledger_doc

text \<open>
  What surrounds the transition: the project root, the digest of a verdict and of an operation's
  content, the clock, the state store's batch port, the lease and write outcomes of the kickback ledger, and
  what other writers do while the store is awaited.
\<close>

record transition_env =
  te_dir :: string
  te_verdictDigest :: "gate_verdict \<Rightarrow> string"
  te_contentDigest :: "transition_options \<Rightarrow> string"
  te_replayDigest :: "jval \<Rightarrow> string"
  te_now :: int
  te_customs :: custom_step_map
  te_applyBatch :: "state_doc \<Rightarrow> mutation list \<Rightarrow> state_doc \<times> mutation_result"
  te_ledger :: ledger_env
  te_others :: "nat \<Rightarrow> rt_world \<Rightarrow> rt_world"

datatype state_result = StateApplied | AlreadyApplied | StateRefused

record applied_transition =
  at_operation :: jval
  at_stateResult :: state_result
  at_convergenceCredit :: bool

definition childForGate :: "step_name \<Rightarrow> int option \<Rightarrow> int option" where
  "childForGate gate child = (if isRegionStep gate then child else None)"

definition gate_verdict_of :: "transition_env \<Rightarrow> transition_options \<Rightarrow> rt_world \<Rightarrow> step_name \<Rightarrow> gate_verdict option" where
  "gate_verdict_of env opts w gate = readVerdict (rw_files w) (te_dir env) gate (childForGate gate (to_child opts))"

definition write_gate :: "transition_env \<Rightarrow> transition_options \<Rightarrow> step_name \<Rightarrow> gate_verdict \<Rightarrow> rt_world \<Rightarrow> rt_world" where
  "write_gate env opts gate verdict w =
     (case writeVerdict None (rw_files w) (te_dir env) gate verdict (childForGate gate (to_child opts)) None of
        Inr files \<Rightarrow> w\<lparr>rw_files := files\<rparr> | Inl _ \<Rightarrow> w)"

text \<open>\<^verbatim>\<open>new Map(candidates.map(c => [c.gate, c]))\<close>: the last candidate of a gate wins.\<close>

definition candidate_for :: "transition_options \<Rightarrow> step_name \<Rightarrow> preserved_candidate option" where
  "candidate_for opts gate = map_of (rev (map (\<lambda>c. (pc_gate c, c)) (to_candidates opts))) gate"

definition transition_operation :: "transition_env \<Rightarrow> transition_options \<Rightarrow> rebase_operation" where
  "transition_operation env opts =
     \<lparr>ro_id = (case to_operationId opts of Some i \<Rightarrow> i | None \<Rightarrow> te_contentDigest env opts),
      ro_appliedAt = None, ro_preserved = to_preserved opts, ro_invalidated = to_invalidated opts,
      ro_reverified = to_reverified opts, ro_replay = to_replay opts, ro_cause = to_cause opts,
      ro_evidence = Some (List.map_filter (candidate_for opts) (to_preserved opts))\<rparr>"

text \<open>The operation of a transition that is refused before it writes anything.\<close>

definition bare_operation :: "transition_env \<Rightarrow> transition_options \<Rightarrow> rebase_operation" where
  "bare_operation env opts =
     (transition_operation env opts)
       \<lparr>ro_id := (case to_operationId opts of Some i \<Rightarrow> i | None \<Rightarrow> te_replayDigest env (to_replay opts)),
        ro_cause := None, ro_evidence := None\<rparr>"

definition rebase_marker :: "transition_env \<Rightarrow> gate_verdict option \<Rightarrow> rebase_operation \<Rightarrow> gate_verdict" where
  "rebase_marker env prior operation =
     \<lparr>gv_satisfied = True, gv_routedRound = None, gv_outcome = None,
      gv_reason = (case prior of Some v \<Rightarrow> (case gv_reason v of Some [] \<Rightarrow> None | r \<Rightarrow> r) | None \<Rightarrow> None),
      gv_checkedAt = te_now env, gv_kickback = None, gv_preservation = None,
      gv_rebaseOperation = Some (operation_json operation)\<rparr>"

definition operation_applied :: "string \<Rightarrow> gate_verdict option \<Rightarrow> bool" where
  "operation_applied operationId verdict =
     (case Option.bind verdict gv_rebaseOperation of
        None \<Rightarrow> False
      | Some v \<Rightarrow> jget v ''id'' = Some (JStr operationId) \<and> jget v ''status'' = Some (JStr ''applied''))"

definition stamped_by :: "string \<Rightarrow> gate_verdict option \<Rightarrow> bool" where
  "stamped_by operationId verdict =
     (case Option.bind verdict gv_preservation of
        None \<Rightarrow> False | Some v \<Rightarrow> jget v ''operationId'' = Some (JStr operationId))"

definition credit_tx :: "string \<Rightarrow> bool ledger_tx" where
  "credit_tx operationId ledger =
     (case kl_convergenceCreditReceipts ledger of
        Some ids \<Rightarrow> if operationId \<in> set ids then Inr (None, False) else
          (case gate_of ledger ''build_review'' of
             None \<Rightarrow> Inr (None, False)
           | Some entry \<Rightarrow> Inr (Some ((set_gate ''build_review'' (creditKickbackGateLaps entry) ledger)
               \<lparr>kl_convergenceCreditReceipts := Some (ids @ [operationId])\<rparr>), True))
      | None \<Rightarrow>
          (case gate_of ledger ''build_review'' of
             None \<Rightarrow> Inr (None, False)
           | Some entry \<Rightarrow> Inr (Some ((set_gate ''build_review'' (creditKickbackGateLaps entry) ledger)
               \<lparr>kl_convergenceCreditReceipts := Some [operationId]\<rparr>), True)))"

definition creditBuildReviewConvergence ::
  "transition_env \<Rightarrow> transition_options \<Rightarrow> string \<Rightarrow> rt_world \<Rightarrow> rt_world \<times> bool throws" where
  "creditBuildReviewConvergence env opts operationId w =
     (if to_cause opts = Some ''feature-repair'' \<or> ''build_review'' \<notin> set (to_invalidated opts) then (w, Inr False)
      else (case updateKickbackLedger (te_ledger env) (to_child opts \<noteq> None) (Some ''build_review'')
                 (credit_tx operationId) (rw_ledger w) of
              (doc, r) \<Rightarrow> (w\<lparr>rw_ledger := doc\<rparr>, r)))"

text \<open>The candidates whose original verdict is still the one on disk when the transition starts.\<close>

definition original_preserved :: "transition_env \<Rightarrow> transition_options \<Rightarrow> rt_world \<Rightarrow> step_name \<Rightarrow> preserved_candidate option" where
  "original_preserved env opts w gate =
     (case (candidate_for opts gate, gate_verdict_of env opts w gate) of
        (Some c, Some v) \<Rightarrow>
          if gate \<in> set (to_preserved opts) \<and> gv_satisfied v \<and> gv_kickback v = None \<and>
             truthy (jget (to_replay opts) ''expectedTree'') \<and> te_verdictDigest env v = pc_originalVerdictDigest c
          then Some c else None
      | _ \<Rightarrow> None)"

definition invalidation_mutations :: "transition_options \<Rightarrow> string \<Rightarrow> conduct_state \<Rightarrow> mutation list" where
  "invalidation_mutations opts operationId snapshot =
     map (\<lambda>gate. \<lparr>mu_field = gate, mu_expected = snapshot gate,
                  mu_intent = ''apply rebase operation '' @ operationId, mu_next = status_json Pending\<rparr>)
       (stable_unique (to_invalidated opts))"

fun has_message :: "mutation_result \<Rightarrow> bool" where
  "has_message (Conflict _) = True"
| "has_message (LeaseError _) = True"
| "has_message (Persistence _) = True"
| "has_message _ = False"

text \<open>One preserved gate: stamped when its verdict is still the original one, else left alone.\<close>

definition stamp_gate ::
  "transition_env \<Rightarrow> transition_options \<Rightarrow> string \<Rightarrow> (step_name \<Rightarrow> preserved_candidate option) \<Rightarrow> rt_world \<Rightarrow> step_name \<Rightarrow> rt_world" where
  "stamp_gate env opts operationId originals w gate =
     (case (originals gate, gate_verdict_of env opts w gate) of
        (Some c, Some v) \<Rightarrow>
          if gv_satisfied v \<and> gv_kickback v = None \<and> te_verdictDigest env v = pc_originalVerdictDigest c
          then write_gate env opts gate (v\<lparr>gv_preservation := Some (stamp_json c (to_replay opts) operationId)\<rparr>) w
          else w
      | _ \<Rightarrow> w)"

fun stamp_trace ::
  "transition_env \<Rightarrow> transition_options \<Rightarrow> string \<Rightarrow> (step_name \<Rightarrow> preserved_candidate option) \<Rightarrow> step_name list \<Rightarrow> rt_world
     \<Rightarrow> rt_world list" where
  "stamp_trace env opts operationId originals [] w = []"
| "stamp_trace env opts operationId originals (gate # gates) w =
     (let w' = stamp_gate env opts operationId originals w gate
      in w' # stamp_trace env opts operationId originals gates w')"

definition invalidation_agrees :: "transition_env \<Rightarrow> transition_options \<Rightarrow> rt_world \<Rightarrow> bool" where
  "invalidation_agrees env opts w =
     (case readState (te_customs env) (rw_doc w) of
        Inl _ \<Rightarrow> False
      | Inr s \<Rightarrow> list_all (\<lambda>gate. s gate = Some (status_json Pending)) (to_invalidated opts) \<and>
          list_all (\<lambda>gate. case gate_verdict_of env opts w gate of Some v \<Rightarrow> \<not> gv_satisfied v | None \<Rightarrow> False)
            (to_invalidated opts))"

definition preservation_agrees :: "transition_env \<Rightarrow> transition_options \<Rightarrow> string \<Rightarrow> rt_world \<Rightarrow> bool" where
  "preservation_agrees env opts operationId w =
     list_all (\<lambda>gate. case gate_verdict_of env opts w gate of
         None \<Rightarrow> False
       | Some v \<Rightarrow> gv_satisfied v \<and> stamped_by operationId (Some v) \<and>
           Option.bind (gv_preservation v) (\<lambda>p. jget p ''gate'') = Some (JStr gate))
       (to_preserved opts)"

definition refused_at :: "rebase_operation \<Rightarrow> applied_transition throws" where
  "refused_at operation = Inr \<lparr>at_operation = operation_json operation, at_stateResult = StateRefused, at_convergenceCredit = False\<rparr>"

text \<open>
  The last part, from the agreement of state and verdicts to the commit marker. It yields the durable
  states it adds.
\<close>

definition settle_transition ::
  "transition_env \<Rightarrow> transition_options \<Rightarrow> rebase_operation \<Rightarrow> gate_verdict option \<Rightarrow> (step_name \<Rightarrow> preserved_candidate option)
     \<Rightarrow> bool \<Rightarrow> rt_world \<Rightarrow> rt_world list \<times> applied_transition throws" where
  "settle_transition env opts operation prior originals idempotent w =
     (if \<not> invalidation_agrees env opts w then ([], refused_at operation)
      else
        let stamps = stamp_trace env opts (ro_id operation) originals (to_preserved opts) w;
            stamped = last (w # stamps)
        in if \<not> preservation_agrees env opts (ro_id operation) stamped then (stamps, refused_at operation)
           else
             let applied = operation\<lparr>ro_appliedAt := Some (te_now env)\<rparr>;
                 (credited, credit) = creditBuildReviewConvergence env opts (ro_id operation) stamped
             in (case credit of
                   Inl e \<Rightarrow> (stamps @ [credited], Inl e)
                 | Inr c \<Rightarrow>
                     (stamps @ [credited, write_gate env opts ''rebase'' (rebase_marker env prior applied) credited],
                      Inr \<lparr>at_operation = operation_json applied,
                           at_stateResult = (if idempotent then AlreadyApplied else StateApplied),
                           at_convergenceCredit = c\<rparr>)))"

text \<open>The state half: a snapshot and the batch that holds the invalidated gates open, \<open>None\<close> on a failed read.\<close>

definition apply_pending ::
  "transition_env \<Rightarrow> transition_options \<Rightarrow> string \<Rightarrow> state_doc \<Rightarrow> (state_doc \<times> mutation_result) option" where
  "apply_pending env opts operationId doc =
     (case readState (te_customs env) doc of
        Inl _ \<Rightarrow> None
      | Inr snapshot \<Rightarrow>
          (let mutations = invalidation_mutations opts operationId snapshot
           in Some (if mutations = [] then (doc, Idempotent) else te_applyBatch env doc mutations)))"

text \<open>From the operation marker on. \<open>w\<close> is the state with the marker written.\<close>

definition run_marked ::
  "transition_env \<Rightarrow> transition_options \<Rightarrow> rebase_operation \<Rightarrow> gate_verdict option \<Rightarrow> (step_name \<Rightarrow> preserved_candidate option)
     \<Rightarrow> rt_world \<Rightarrow> rt_world list \<times> applied_transition throws" where
  "run_marked env opts operation prior originals w =
     (let before = te_others env 0 w
      in (case apply_pending env opts (ro_id operation) (rw_doc before) of
            None \<Rightarrow> ([before], refused_at operation)
          | Some (doc, result) \<Rightarrow>
              (let batched = before\<lparr>rw_doc := doc\<rparr>; after = te_others env 1 batched
               in if has_message result then ([before, batched, after], refused_at operation)
                  else (case settle_transition env opts operation prior originals (result = Idempotent) after of
                          (added, r) \<Rightarrow> ([before, batched, after] @ added, r)))))"

definition already_applied :: "gate_verdict option \<Rightarrow> bool \<Rightarrow> applied_transition" where
  "already_applied prior credit =
     \<lparr>at_operation = the (Option.bind prior gv_rebaseOperation), at_stateResult = AlreadyApplied,
      at_convergenceCredit = credit\<rparr>"

definition applyRebaseTransition ::
  "transition_env \<Rightarrow> transition_options \<Rightarrow> rt_world \<Rightarrow> rt_world list \<times> applied_transition throws" where
  "applyRebaseTransition env opts w =
     (let operation = transition_operation env opts;
          prior = readVerdict (rw_files w) (te_dir env) ''rebase'' None
      in if operation_applied (ro_id operation) prior \<and>
            list_all (\<lambda>gate. stamped_by (ro_id operation) (gate_verdict_of env opts w gate)) (to_preserved opts)
         then
           (let (credited, credit) = creditBuildReviewConvergence env opts (ro_id operation) w
            in ([credited], map_sum id (already_applied prior) credit))
         else if list_ex (\<lambda>gate. candidate_for opts gate = None) (to_preserved opts)
         then ([], refused_at (bare_operation env opts))
         else
           let marked = write_gate env opts ''rebase'' (rebase_marker env prior operation) w
           in (case run_marked env opts operation prior (original_preserved env opts w) marked of
                 (added, r) \<Rightarrow> (marked # added, r)))"

section \<open>What each write touches\<close>

definition child_ok :: "transition_options \<Rightarrow> bool" where
  "child_ok opts = (case to_child opts of None \<Rightarrow> True | Some n \<Rightarrow> 0 \<le> n \<and> n \<le> 9)"

definition rebase_verdict :: "transition_env \<Rightarrow> rt_world \<Rightarrow> gate_verdict option" where
  "rebase_verdict env w = readVerdict (rw_files w) (te_dir env) ''rebase'' None"

lemma gate_path: "\<exists>p. verdictPathFor dir gate (childForGate gate child) = Inr p"
  by (cases child) (auto simp: verdictPathFor_def childForGate_def)

lemma gate_path_inj:
  assumes "verdictPathFor dir g (childForGate g child) = Inr p" "verdictPathFor dir h (childForGate h child) = Inr p"
    "case child of None \<Rightarrow> True | Some n \<Rightarrow> 0 \<le> n \<and> n \<le> (9 :: int)"
  shows "g = h"
proof -
  have "0 \<le> n \<and> n \<le> 9" if "childForGate x child = Some n" for x n
    using that assms(3) by (auto simp: childForGate_def split: if_splits)
  then show ?thesis using verdictPathFor_inj [OF assms(1,2)] by blast
qed

lemma childForGate_rebase [simp]: "childForGate ''rebase'' child = None"
  by (simp add: childForGate_def)

lemma rebase_verdict_gate: "rebase_verdict env w = gate_verdict_of env opts w ''rebase''"
  by (simp add: rebase_verdict_def gate_verdict_of_def)

lemma write_gate_keeps [simp]:
  "rw_doc (write_gate env opts gate v w) = rw_doc w" "rw_ledger (write_gate env opts gate v w) = rw_ledger w"
  by (auto simp: write_gate_def split: sum.splits)

lemma write_gate_other:
  assumes "child_ok opts" "h \<noteq> g"
  shows "gate_verdict_of env opts (write_gate env opts g v w) h = gate_verdict_of env opts w h"
proof -
  obtain p q where p: "verdictPathFor (te_dir env) g (childForGate g (to_child opts)) = Inr p"
    and q: "verdictPathFor (te_dir env) h (childForGate h (to_child opts)) = Inr q"
    using gate_path by metis
  have "p \<noteq> q" using gate_path_inj p q assms by (metis child_ok_def)
  then show ?thesis by (simp add: write_gate_def gate_verdict_of_def readVerdict_def writeVerdict_def p q Let_def)
qed

lemma write_gate_same:
  assumes "g \<noteq> ''rebase''"
  shows "gate_verdict_of env opts (write_gate env opts g v w) g = Some v"
proof -
  obtain p where p: "verdictPathFor (te_dir env) g (childForGate g (to_child opts)) = Inr p" using gate_path by metis
  then show ?thesis using assms
    by (simp add: write_gate_def gate_verdict_of_def readVerdict_def writeVerdict_def Let_def)
qed

lemma write_marker: "rebase_verdict env (write_gate env opts ''rebase'' (rebase_marker env prior r) w) = Some (rebase_marker env prior r)"
  by (simp add: rebase_verdict_def write_gate_def readVerdict_def writeVerdict_def verdictPathFor_def Let_def rebase_marker_def)

lemma marker_applied:
  "operation_applied i (Some (rebase_marker env prior r)) \<longleftrightarrow> ro_id r = i \<and> ro_appliedAt r \<noteq> None"
  by (auto simp: operation_applied_def rebase_marker_def operation_json_def split: option.splits)

section \<open>Stamping\<close>

lemma stamp_gate_cases:
  "stamp_gate env opts i originals w gate = w \<or>
     (\<exists>v c. gate_verdict_of env opts w gate = Some v \<and> originals gate = Some c \<and> gv_satisfied v \<and> gv_kickback v = None \<and>
        te_verdictDigest env v = pc_originalVerdictDigest c \<and>
        stamp_gate env opts i originals w gate =
          write_gate env opts gate (v\<lparr>gv_preservation := Some (stamp_json c (to_replay opts) i)\<rparr>) w)"
  by (auto simp: stamp_gate_def split: option.splits)

lemma stamp_gate_other:
  "child_ok opts \<Longrightarrow> h \<noteq> gate \<Longrightarrow> gate_verdict_of env opts (stamp_gate env opts i originals w gate) h = gate_verdict_of env opts w h"
  using stamp_gate_cases [of env opts i originals w gate] write_gate_other by metis

lemma stamp_gate_rest [simp]:
  "rw_doc (stamp_gate env opts i originals w gate) = rw_doc w" "rw_ledger (stamp_gate env opts i originals w gate) = rw_ledger w"
  using stamp_gate_cases [of env opts i originals w gate] by auto

lemma stamp_gate_satisfied:
  assumes "child_ok opts" "gate \<noteq> ''rebase''"
  shows "map_option gv_satisfied (gate_verdict_of env opts (stamp_gate env opts i originals w gate) h)
    = map_option gv_satisfied (gate_verdict_of env opts w h)"
proof (cases "h = gate")
  case True
  then show ?thesis using stamp_gate_cases [of env opts i originals w gate] write_gate_same [OF assms(2)] by auto
qed (simp add: stamp_gate_other [OF assms(1)])

lemma stamp_trace_invariant:
  assumes "child_ok opts" "''rebase'' \<notin> set gates" "v \<in> set (stamp_trace env opts i originals gates w)"
  shows "rw_doc v = rw_doc w \<and> rw_ledger v = rw_ledger w \<and> rebase_verdict env v = rebase_verdict env w \<and>
    (\<forall>h. map_option gv_satisfied (gate_verdict_of env opts v h) = map_option gv_satisfied (gate_verdict_of env opts w h))"
  using assms(2,3)
proof (induction gates arbitrary: w)
  case (Cons g gates)
  let ?w = "stamp_gate env opts i originals w g"
  have g: "g \<noteq> ''rebase''" "''rebase'' \<notin> set gates" using Cons.prems(1) by auto
  have here: "rw_doc ?w = rw_doc w" "rw_ledger ?w = rw_ledger w" "rebase_verdict env ?w = rebase_verdict env w"
    "\<forall>h. map_option gv_satisfied (gate_verdict_of env opts ?w h) = map_option gv_satisfied (gate_verdict_of env opts w h)"
    using stamp_gate_other [OF assms(1)] g(1) stamp_gate_satisfied [OF assms(1) g(1)]
    by (auto simp: rebase_verdict_gate [of env _ opts])
  from Cons.prems(2) consider "v = ?w" | "v \<in> set (stamp_trace env opts i originals gates ?w)" by (auto simp: Let_def)
  then show ?case using here Cons.IH [OF g(2), of ?w] by cases auto
qed simp

lemma stamp_last_invariant:
  assumes "child_ok opts" "''rebase'' \<notin> set gates"
  shows "rw_doc (last (w # stamp_trace env opts i originals gates w)) = rw_doc w"
    "rw_ledger (last (w # stamp_trace env opts i originals gates w)) = rw_ledger w"
    "rebase_verdict env (last (w # stamp_trace env opts i originals gates w)) = rebase_verdict env w"
    "map_option gv_satisfied (gate_verdict_of env opts (last (w # stamp_trace env opts i originals gates w)) h)
      = map_option gv_satisfied (gate_verdict_of env opts w h)"
proof -
  let ?t = "stamp_trace env opts i originals gates w"
  show "rw_doc (last (w # ?t)) = rw_doc w" "rw_ledger (last (w # ?t)) = rw_ledger w"
    "rebase_verdict env (last (w # ?t)) = rebase_verdict env w"
    "map_option gv_satisfied (gate_verdict_of env opts (last (w # ?t)) h) = map_option gv_satisfied (gate_verdict_of env opts w h)"
    using stamp_trace_invariant [OF assms last_in_set, of env i originals w] by (cases "?t = []"; simp)+
qed

lemma invalidation_agrees_iff:
  "invalidation_agrees env opts w \<longleftrightarrow>
     (\<exists>s. readState (te_customs env) (rw_doc w) = Inr s \<and> (\<forall>g\<in>set (to_invalidated opts). s g = Some (status_json Pending))) \<and>
     (\<forall>g\<in>set (to_invalidated opts). map_option gv_satisfied (gate_verdict_of env opts w g) = Some False)"
  by (auto simp: invalidation_agrees_def list_all_iff split: sum.splits option.splits)

lemma invalidation_agrees_cong:
  assumes "rw_doc v = rw_doc w"
    "\<forall>h\<in>set (to_invalidated opts). map_option gv_satisfied (gate_verdict_of env opts v h) = map_option gv_satisfied (gate_verdict_of env opts w h)"
  shows "invalidation_agrees env opts v = invalidation_agrees env opts w"
  unfolding invalidation_agrees_iff using assms by simp

lemma preservation_agrees_cong:
  "\<forall>h\<in>set (to_preserved opts). gate_verdict_of env opts v h = gate_verdict_of env opts w h \<Longrightarrow>
     preservation_agrees env opts i v = preservation_agrees env opts i w"
  by (auto simp: preservation_agrees_def list_all_iff)

lemma credit_files [simp]:
  "rw_files (fst (creditBuildReviewConvergence env opts i w)) = rw_files w"
  "rw_doc (fst (creditBuildReviewConvergence env opts i w)) = rw_doc w"
  by (auto simp: creditBuildReviewConvergence_def split: prod.splits)

lemma credit_verdicts [simp]:
  "gate_verdict_of env opts (fst (creditBuildReviewConvergence env opts i w)) h = gate_verdict_of env opts w h"
  "rebase_verdict env (fst (creditBuildReviewConvergence env opts i w)) = rebase_verdict env w"
  by (simp_all add: gate_verdict_of_def rebase_verdict_def)

section \<open>The shapes of a run\<close>

lemma settle_forms:
  assumes "settle_transition env opts operation prior originals idem w = (vs, r)"
  shows "let stamps = stamp_trace env opts (ro_id operation) originals (to_preserved opts) w;
       stamped = last (w # stamps); applied = operation\<lparr>ro_appliedAt := Some (te_now env)\<rparr>;
       credit = creditBuildReviewConvergence env opts (ro_id operation) stamped
     in (r = refused_at operation \<and> (vs = [] \<or> vs = stamps)) \<or>
        (\<exists>e. snd credit = Inl e \<and> vs = stamps @ [fst credit] \<and> r = Inl e) \<or>
        (\<exists>c. snd credit = Inr c \<and>
           vs = stamps @ [fst credit, write_gate env opts ''rebase'' (rebase_marker env prior applied) (fst credit)] \<and>
           r = Inr \<lparr>at_operation = operation_json applied,
                    at_stateResult = (if idem then AlreadyApplied else StateApplied), at_convergenceCredit = c\<rparr> \<and>
           invalidation_agrees env opts w \<and> preservation_agrees env opts (ro_id operation) stamped)"
  using assms
  by (cases "snd (creditBuildReviewConvergence env opts (ro_id operation)
       (last (w # stamp_trace env opts (ro_id operation) originals (to_preserved opts) w)))")
     (auto simp: settle_transition_def Let_def case_prod_unfold simp del: last.simps split: if_splits)

lemma run_marked_forms:
  assumes "run_marked env opts operation prior originals w = (vs, r)"
  shows "(vs = [te_others env 0 w] \<and> r = refused_at operation \<and> apply_pending env opts (ro_id operation) (rw_doc (te_others env 0 w)) = None) \<or>
     (\<exists>d m. apply_pending env opts (ro_id operation) (rw_doc (te_others env 0 w)) = Some (d, m) \<and>
        (let before = te_others env 0 w; batched = before\<lparr>rw_doc := d\<rparr>; after = te_others env 1 batched
         in (has_message m \<and> vs = [before, batched, after] \<and> r = refused_at operation) \<or>
            (\<not> has_message m \<and> (\<exists>added. settle_transition env opts operation prior originals (m = Idempotent) after = (added, r) \<and>
               vs = [before, batched, after] @ added))))"
proof (cases "apply_pending env opts (ro_id operation) (rw_doc (te_others env 0 w))")
  case None
  then show ?thesis using assms by (simp add: run_marked_def)
next
  case (Some p)
  obtain d m where p: "p = (d, m)" by (cases p)
  show ?thesis using assms Some p
    by (cases "has_message m") (auto simp: run_marked_def Let_def split: prod.splits)
qed

lemma apply_forms:
  assumes "applyRebaseTransition env opts w = (vs, r)"
  shows "let operation = transition_operation env opts;
       prior = readVerdict (rw_files w) (te_dir env) ''rebase'' None;
       credit = creditBuildReviewConvergence env opts (ro_id operation) w
     in (operation_applied (ro_id operation) prior \<and>
          list_all (\<lambda>gate. stamped_by (ro_id operation) (gate_verdict_of env opts w gate)) (to_preserved opts) \<and>
          vs = [fst credit] \<and>
          r = map_sum id (already_applied prior) (snd credit)) \<or>
        (list_ex (\<lambda>gate. candidate_for opts gate = None) (to_preserved opts) \<and> vs = [] \<and> r = refused_at (bare_operation env opts)) \<or>
        (\<not> list_ex (\<lambda>gate. candidate_for opts gate = None) (to_preserved opts) \<and>
         (\<exists>added. run_marked env opts operation prior (original_preserved env opts w)
             (write_gate env opts ''rebase'' (rebase_marker env prior operation) w) = (added, r) \<and>
           vs = write_gate env opts ''rebase'' (rebase_marker env prior operation) w # added))"
  using assms by (auto simp: applyRebaseTransition_def Let_def case_prod_unfold split: if_splits)

section \<open>The commit marker\<close>

lemma settle_trace:
  assumes ok: "child_ok opts" "''rebase'' \<notin> set (to_invalidated opts)" "''rebase'' \<notin> set (to_preserved opts)"
    and run: "settle_transition env opts operation prior originals idem w = (vs, r)" "ro_appliedAt operation = None"
    and v: "v \<in> set vs" "operation_applied (ro_id operation) (rebase_verdict env v)"
    and start: "\<not> operation_applied (ro_id operation) (rebase_verdict env w)"
  shows "v = last vs \<and> invalidation_agrees env opts v \<and> preservation_agrees env opts (ro_id operation) v \<and>
    (\<exists>x. r = Inr x \<and> at_stateResult x \<noteq> StateRefused)"
proof -
  let ?i = "ro_id operation"
  let ?stamps = "stamp_trace env opts ?i originals (to_preserved opts) w"
  let ?stamped = "last (w # ?stamps)"
  let ?credit = "creditBuildReviewConvergence env opts ?i ?stamped"
  let ?final = "write_gate env opts ''rebase'' (rebase_marker env prior (operation\<lparr>ro_appliedAt := Some (te_now env)\<rparr>)) (fst ?credit)"
  note inv = stamp_trace_invariant [OF ok(1,3)]
  have stamps: "\<not> operation_applied ?i (rebase_verdict env u)" if "u \<in> set ?stamps" for u
    using inv [OF that] start by simp
  note stamped = stamp_last_invariant [OF ok(1,3), where w = w and i = ?i and originals = originals and env = env]
  have "v \<notin> set ?stamps" "v \<noteq> fst ?credit" using stamps v(2) stamped(3) start credit_verdicts(2) by metis+
  with run(1) v(1) have final: "invalidation_agrees env opts w" "preservation_agrees env opts ?i ?stamped" "v = ?final"
      "vs = ?stamps @ [fst ?credit, ?final]"
      "\<exists>c. r = Inr \<lparr>at_operation = operation_json (operation\<lparr>ro_appliedAt := Some (te_now env)\<rparr>),
         at_stateResult = (if idem then AlreadyApplied else StateApplied), at_convergenceCredit = c\<rparr>"
    by (auto simp: settle_transition_def Let_def split: if_splits prod.splits sum.splits)
  have gates: "gate_verdict_of env opts v h = gate_verdict_of env opts ?stamped h" if "h \<noteq> ''rebase''" for h
    unfolding final(3) using write_gate_other [OF ok(1) that] by simp
  have "preservation_agrees env opts ?i v"
    using preservation_agrees_cong [of opts env v ?stamped ?i] gates ok(3) final(2) by metis
  moreover have "invalidation_agrees env opts v"
  proof -
    have "rw_doc v = rw_doc w" using final(3) stamped by simp
    moreover have "\<forall>h\<in>set (to_invalidated opts). map_option gv_satisfied (gate_verdict_of env opts v h)
        = map_option gv_satisfied (gate_verdict_of env opts w h)"
      using gates stamped ok(2) by metis
    ultimately show ?thesis using invalidation_agrees_cong final(1) by metis
  qed
  ultimately show ?thesis using final by auto
qed

lemma run_marked_trace:
  assumes ok: "child_ok opts" "''rebase'' \<notin> set (to_invalidated opts)" "''rebase'' \<notin> set (to_preserved opts)"
    and others: "\<forall>n u. rebase_verdict env (te_others env n u) = rebase_verdict env u"
    and run: "run_marked env opts operation prior originals w = (vs, r)" "ro_appliedAt operation = None"
    and v: "v \<in> set vs" "operation_applied (ro_id operation) (rebase_verdict env v)"
    and start: "\<not> operation_applied (ro_id operation) (rebase_verdict env w)"
  shows "v = last vs \<and> invalidation_agrees env opts v \<and> preservation_agrees env opts (ro_id operation) v \<and>
    (\<exists>x. r = Inr x \<and> at_stateResult x \<noteq> StateRefused)"
proof -
  have doc: "rebase_verdict env (u\<lparr>rw_doc := d\<rparr>) = rebase_verdict env u" for u d by (simp add: rebase_verdict_def)
  have quiet: "v \<noteq> te_others env 0 w" "v \<noteq> (te_others env 0 w)\<lparr>rw_doc := d\<rparr>"
    "v \<noteq> te_others env 1 ((te_others env 0 w)\<lparr>rw_doc := d\<rparr>)" for d
    using v(2) start others doc by metis+
  show ?thesis
  proof (cases "apply_pending env opts (ro_id operation) (rw_doc (te_others env 0 w))")
    case None
    then show ?thesis using run(1) v(1) quiet(1) by (auto simp: run_marked_def)
  next
    case (Some p)
    obtain d m where p: "p = (d, m)" by (cases p)
    let ?after = "te_others env 1 ((te_others env 0 w)\<lparr>rw_doc := d\<rparr>)"
    obtain added r' where settle: "settle_transition env opts operation prior originals (m = Idempotent) ?after = (added, r')"
      by fastforce
    have form: "(vs, r) = (if has_message m then ([te_others env 0 w, (te_others env 0 w)\<lparr>rw_doc := d\<rparr>, ?after], refused_at operation)
        else ([te_others env 0 w, (te_others env 0 w)\<lparr>rw_doc := d\<rparr>, ?after] @ added, r'))"
      using run(1) Some p settle by (cases "has_message m") (simp_all add: run_marked_def Let_def)
    with v(1) quiet have "v \<in> set added" "vs = [te_others env 0 w, (te_others env 0 w)\<lparr>rw_doc := d\<rparr>, ?after] @ added" "r = r'"
      by (auto split: if_splits)
    moreover from this(1) have "added \<noteq> []" by auto
    moreover have "\<not> operation_applied (ro_id operation) (rebase_verdict env ?after)" using start others doc by metis
    ultimately show ?thesis using settle_trace [OF ok settle run(2) _ v(2)] by auto
  qed
qed

lemma applied_is_last:
  assumes "child_ok opts" and "''rebase'' \<notin> set (to_invalidated opts @ to_preserved opts)"
    and "\<forall>n u. rebase_verdict env (te_others env n u) = rebase_verdict env u"
    and "\<not> operation_applied (ro_id (transition_operation env opts)) (rebase_verdict env w)"
    and "applyRebaseTransition env opts w = (vs, r)" and "v \<in> set vs"
    and "operation_applied (ro_id (transition_operation env opts)) (rebase_verdict env v)"
  shows "v = last vs \<and> invalidation_agrees env opts v \<and>
     preservation_agrees env opts (ro_id (transition_operation env opts)) v \<and>
     (\<exists>x. r = Inr x \<and> at_stateResult x \<noteq> StateRefused)"
proof -
  let ?op = "transition_operation env opts"
  let ?prior = "readVerdict (rw_files w) (te_dir env) ''rebase'' None"
  let ?marked = "write_gate env opts ''rebase'' (rebase_marker env ?prior ?op) w"
  have op: "ro_appliedAt ?op = None" by (simp add: transition_operation_def)
  have fresh: "\<not> operation_applied (ro_id ?op) ?prior" using assms(4) by (simp add: rebase_verdict_def)
  have marked: "\<not> operation_applied (ro_id ?op) (rebase_verdict env ?marked)"
    using op by (simp add: write_marker marker_applied)
  obtain added r' where run: "run_marked env opts ?op ?prior (original_preserved env opts w) ?marked = (added, r')" by fastforce
  have "vs = [] \<or> (vs = ?marked # added \<and> r = r')"
    using assms(5) fresh run by (auto simp: applyRebaseTransition_def Let_def split: if_splits)
  with assms(6,7) marked have v: "v \<in> set added" "vs = ?marked # added" "r = r'" by auto
  have gates: "''rebase'' \<notin> set (to_invalidated opts)" "''rebase'' \<notin> set (to_preserved opts)" using assms(2) by auto
  from v(1) have "added \<noteq> []" by auto
  with run_marked_trace [OF assms(1) gates assms(3) run op v(1) assms(7) marked] v(2,3) show ?thesis by auto
qed

text \<open>
  C4: the commit marker of a rebase decision is its last durable write: in every state a
  crash can leave, whatever other writers do to states, verdicts and ledgers meanwhile, an operation
  that was not applied before and reads as applied now has all its invalidated gates pending with
  an unsatisfied verdict and all its preserved gates satisfied and stamped with this operation.
\<close>

theorem rebase_commit_sound:
  assumes "child_ok opts" and "''rebase'' \<notin> set (to_invalidated opts @ to_preserved opts)"
    and "\<forall>n u. rebase_verdict env (te_others env n u) = rebase_verdict env u"
    and "\<not> operation_applied (ro_id (transition_operation env opts)) (rebase_verdict env w)"
    and "applyRebaseTransition env opts w = (vs, r)" and "v \<in> set vs"
    and "operation_applied (ro_id (transition_operation env opts)) (rebase_verdict env v)"
  shows "v = last vs \<and> invalidation_agrees env opts v \<and>
     preservation_agrees env opts (ro_id (transition_operation env opts)) v \<and>
     (\<exists>x. r = Inr x \<and> at_stateResult x \<noteq> StateRefused)"
  by (rule applied_is_last [OF assms])

section \<open>The refund of convergence\<close>

definition has_receipt :: "string \<Rightarrow> kickback_ledger \<Rightarrow> bool" where
  "has_receipt i l = (case kl_convergenceCreditReceipts l of Some ids \<Rightarrow> i \<in> set ids | None \<Rightarrow> False)"

lemma credit_tx_cases:
  assumes "credit_tx i l = Inr (o', r)"
  obtains (none) "o' = None" "\<not> r"
  | (credit) entry ids where "\<not> has_receipt i l" "gate_of l ''build_review'' = Some entry" "r"
      "o' = Some ((set_gate ''build_review'' (creditKickbackGateLaps entry) l)\<lparr>kl_convergenceCreditReceipts := Some (ids @ [i])\<rparr>)"
      "ids = (case kl_convergenceCreditReceipts l of Some ids \<Rightarrow> ids | None \<Rightarrow> [])"
  using assms by (auto simp: credit_tx_def has_receipt_def split: option.splits if_splits)

lemma wf_credit_entry: "wf_entry e \<Longrightarrow> wf_entry (creditKickbackGateLaps e)"
  by (cases "ge_laps e"; cases "ge_mechanicalFaults e"; cases "ge_suiteInfrastructureRetries e")
     (auto simp: creditKickbackGateLaps_def wf_entry_fields nonneg_safe_def MAX_SAFE_INTEGER_def)

lemma wf_credit:
  assumes "wf_ledger l" "\<not> blank i" "credit_tx i l = Inr (Some l', r)"
  shows "wf_ledger l'" "has_receipt i l'"
proof -
  from assms(3) obtain entry ids where c: "gate_of l ''build_review'' = Some entry"
    "l' = (set_gate ''build_review'' (creditKickbackGateLaps entry) l)\<lparr>kl_convergenceCreditReceipts := Some (ids @ [i])\<rparr>"
    "ids = (case kl_convergenceCreditReceipts l of Some ids \<Rightarrow> ids | None \<Rightarrow> [])"
    by (rule credit_tx_cases) auto
  have "wf_ledger (set_gate ''build_review'' (creditKickbackGateLaps entry) l)"
    using wf_set_gate [OF assms(1) wf_credit_entry [OF wf_gate_of [OF assms(1) c(1)]]] .
  moreover have "list_all (\<lambda>i. \<not> blank i) ids" using assms(1) c(3) by (auto simp: wf_ledger_def split: option.splits)
  ultimately show "wf_ledger l'" using c(2) assms(2) by (simp add: wf_ledger_def)
  show "has_receipt i l'" using c(2) by (simp add: has_receipt_def)
qed

lemma has_receipt_norm [simp]: "has_receipt i (norm_ledger l) = has_receipt i l"
  by (simp add: has_receipt_def norm_ledger_def)

lemma credit_run:
  assumes env: "te_ledger env = ok_ledger_env" "to_child opts = None"
    and l: "sees_ledger (rw_ledger w) l" "wf_ledger l" "\<not> blank i"
    and run: "creditBuildReviewConvergence env opts i w = (w', res)"
  shows "\<exists>c. res = Inr c \<and>
     (c = False \<and> w' = w \<or>
      (\<exists>l'. sees_ledger (rw_ledger w') l' \<and> wf_ledger l' \<and> has_receipt i l' \<and> \<not> has_receipt i l))"
proof (cases "to_cause opts = Some ''feature-repair'' \<or> ''build_review'' \<notin> set (to_invalidated opts)")
  case True
  then have "w' = w" "res = Inr False" using run by (simp_all add: creditBuildReviewConvergence_def)
  then show ?thesis by auto
next
  case False
  let ?tx = "guarded (Some ''build_review'') (credit_tx i)"
  obtain doc where u: "leased ok_ledger_env False ?tx (rw_ledger w) = (doc, res)" "w' = w\<lparr>rw_ledger := doc\<rparr>"
    using run False env by (auto simp: creditBuildReviewConvergence_def updateKickbackLedger_def split: prod.splits)
  have tx: "?tx l = credit_tx i l" using wf_readable [OF l(2)] by (simp add: guarded_def)
  have total: "\<exists>p. credit_tx i l = Inr p" by (auto simp: credit_tx_def split: option.splits)
  have wf: "\<forall>l' r. ?tx l = Inr (Some l', r) \<longrightarrow> wf_ledger l'" using tx wf_credit(1) [OF l(2,3)] by simp
  from flat.run_never_partial [where tx = ?tx, OF l(1) wf u(1)]
  consider (fin) l' r where "credit_tx i l = Inr (Some l', r)" "res = Inr r" "sees_ledger doc (norm_ledger l')"
    | (no) r where "doc = rw_ledger w" "credit_tx i l = Inr (None, r)" "res = Inr r"
    using tx total by auto
  then show ?thesis
  proof cases
    case fin
    have "\<not> has_receipt i l" using fin(1) by (rule credit_tx_cases) auto
    then show ?thesis using fin wf_credit [OF l(2,3) fin(1)] wf_norm_ledger u(2) by (auto intro!: exI [where x = "norm_ledger l'"])
  next
    case no
    have "\<not> r" using no(2) by (rule credit_tx_cases) auto
    then show ?thesis using no u(2) by auto
  qed
qed

lemma credit_pays:
  assumes env: "te_ledger env = ok_ledger_env" "to_child opts = None"
    and l: "sees_ledger (rw_ledger w) l" "wf_ledger l" "\<not> blank i"
    and open_: "to_cause opts \<noteq> Some ''feature-repair''" "''build_review'' \<in> set (to_invalidated opts)"
      "\<exists>entry. gate_of l ''build_review'' = Some entry" "\<not> has_receipt i l"
  shows "snd (creditBuildReviewConvergence env opts i w) = Inr True"
proof -
  obtain entry where entry: "gate_of l ''build_review'' = Some entry" using open_(3) by blast
  have "\<exists>l'. credit_tx i l = Inr (Some l', True)"
    using open_(4) entry by (auto simp: credit_tx_def has_receipt_def split: option.splits)
  then obtain l' where l': "credit_tx i l = Inr (Some l', True)" by blast
  have "guarded (Some ''build_review'') (credit_tx i) l = credit_tx i l" using wf_readable [OF l(2)] by (simp add: guarded_def)
  with flat.commit [OF l(1), of "guarded (Some ''build_review'') (credit_tx i)"] l' wf_credit(1) [OF l(2,3) l']
  obtain d where "leased ok_ledger_env False (guarded (Some ''build_review'') (credit_tx i)) (rw_ledger w) = (d, Inr True)" by auto
  then show ?thesis using env open_ by (simp add: creditBuildReviewConvergence_def updateKickbackLedger_def)
qed

lemma settle_ledgers:
  assumes ok: "child_ok opts" "''rebase'' \<notin> set (to_preserved opts)"
    and run: "settle_transition env opts operation prior originals idem w = (vs, r)"
  obtains u c res where "rw_ledger u = rw_ledger w" "creditBuildReviewConvergence env opts (ro_id operation) u = (c, res)"
    "\<forall>v\<in>set vs. rw_ledger v = rw_ledger w \<or> rw_ledger v = rw_ledger c"
    "(\<exists>x. r = Inr x \<and> at_convergenceCredit x) \<longrightarrow> res = Inr True \<and> vs \<noteq> [] \<and> rw_ledger (last vs) = rw_ledger c"
proof -
  let ?stamps = "stamp_trace env opts (ro_id operation) originals (to_preserved opts) w"
  obtain c res where c: "creditBuildReviewConvergence env opts (ro_id operation) (last (w # ?stamps)) = (c, res)" by fastforce
  have mem: "rw_ledger u = rw_ledger w" if "u \<in> set ?stamps" for u using stamp_trace_invariant [OF ok that] by simp
  show thesis
  proof (rule that [OF stamp_last_invariant(2) [OF ok] c])
    show "\<forall>v\<in>set vs. rw_ledger v = rw_ledger w \<or> rw_ledger v = rw_ledger c"
      using settle_forms [OF run] c mem by (auto simp: Let_def simp del: last.simps)
    show "(\<exists>x. r = Inr x \<and> at_convergenceCredit x) \<longrightarrow> res = Inr True \<and> vs \<noteq> [] \<and> rw_ledger (last vs) = rw_ledger c"
      using settle_forms [OF run] c by (auto simp: Let_def refused_at_def last_append simp del: last.simps)
        (simp_all add: last.simps)
  qed
qed

lemma apply_ledgers:
  assumes ok: "child_ok opts" "''rebase'' \<notin> set (to_preserved opts)"
    and others: "\<forall>n u. rw_ledger (te_others env n u) = rw_ledger u"
    and run: "applyRebaseTransition env opts w = (vs, r)"
  shows "\<exists>u c res. rw_ledger u = rw_ledger w \<and>
     creditBuildReviewConvergence env opts (ro_id (transition_operation env opts)) u = (c, res) \<and>
     (\<forall>v\<in>set vs. rw_ledger v = rw_ledger w \<or> rw_ledger v = rw_ledger c) \<and>
     ((\<exists>x. r = Inr x \<and> at_convergenceCredit x) \<longrightarrow> res = Inr True \<and> vs \<noteq> [] \<and> rw_ledger (last vs) = rw_ledger c)"
proof -
  let ?op = "transition_operation env opts"
  obtain c0 res0 where c0: "creditBuildReviewConvergence env opts (ro_id ?op) w = (c0, res0)" by fastforce
  from apply_forms [OF run] consider
    "vs = []" "r = refused_at (bare_operation env opts)"
  | "vs = [c0]" "r = map_sum id (already_applied (readVerdict (rw_files w) (te_dir env) ''rebase'' None)) res0"
  | marked added prior where "vs = marked # added" "rw_ledger marked = rw_ledger w"
      "run_marked env opts ?op prior (original_preserved env opts w) marked = (added, r)"
    using c0 by (auto simp: Let_def)
  then show ?thesis
  proof cases
    case 1
    then show ?thesis using c0 by (auto simp: refused_at_def)
  next
    case 2
    then show ?thesis using c0 by (intro exI [where x = w] exI [where x = c0] exI [where x = res0]) (auto simp: map_sum_Inr_iff already_applied_def)
  next
    case 3
    let ?before = "te_others env 0 marked"
    have docs: "rw_ledger (te_others env n (u\<lparr>rw_doc := d\<rparr>)) = rw_ledger u" for n u d using others by simp
    have before: "rw_ledger ?before = rw_ledger w" using 3(2) others by simp
    from run_marked_forms [OF 3(3)] consider
      (refused) "r = refused_at ?op" "\<forall>v\<in>set added. rw_ledger v = rw_ledger w"
    | (settled) d m settled where
        "settle_transition env opts ?op prior (original_preserved env opts w) (m = Idempotent)
           (te_others env 1 (?before\<lparr>rw_doc := d\<rparr>)) = (settled, r)"
        "added = [?before, ?before\<lparr>rw_doc := d\<rparr>, te_others env 1 (?before\<lparr>rw_doc := d\<rparr>)] @ settled"
      using before docs by (auto simp: Let_def)
    then show ?thesis
    proof cases
      case refused
      then show ?thesis using c0 3 by (intro exI [where x = w] exI [where x = c0] exI [where x = res0]) (auto simp: refused_at_def)
    next
      case settled
      obtain u c res where "rw_ledger u = rw_ledger (te_others env 1 (?before\<lparr>rw_doc := d\<rparr>))"
        "creditBuildReviewConvergence env opts (ro_id ?op) u = (c, res)"
        "\<forall>v\<in>set settled. rw_ledger v = rw_ledger (te_others env 1 (?before\<lparr>rw_doc := d\<rparr>)) \<or> rw_ledger v = rw_ledger c"
        "(\<exists>x. r = Inr x \<and> at_convergenceCredit x) \<longrightarrow> res = Inr True \<and> settled \<noteq> [] \<and> rw_ledger (last settled) = rw_ledger c"
        by (rule settle_ledgers [OF ok settled(1)])
      then show ?thesis using settled(2) 3(1,2) before docs
        by (intro exI [where x = u] exI [where x = c] exI [where x = res]) auto
    qed
  qed
qed

text \<open>
  Build review's convergence is refunded at most once per operation, whatever crashes
  and retries: every durable state of a run leaves the ledger as it was or has just added the
  operation's receipt, which was absent before; and a run that reports the refund found no receipt
  and leaves one, so that no later run of the same operation changes the ledger again.
\<close>

theorem rebase_credit_once:
  assumes "child_ok opts" and "''rebase'' \<notin> set (to_preserved opts)" and "to_child opts = None"
    and "te_ledger env = ok_ledger_env" and "\<forall>n u. rw_ledger (te_others env n u) = rw_ledger u"
    and "sees_ledger (rw_ledger w) l" and "wf_ledger l" and "\<not> blank (ro_id (transition_operation env opts))"
    and "applyRebaseTransition env opts w = (vs, r)"
  shows "(\<forall>v\<in>set vs. rw_ledger v = rw_ledger w \<or>
       (\<exists>l'. sees_ledger (rw_ledger v) l' \<and> wf_ledger l' \<and> has_receipt (ro_id (transition_operation env opts)) l' \<and>
          \<not> has_receipt (ro_id (transition_operation env opts)) l)) \<and>
     ((\<exists>x. r = Inr x \<and> at_convergenceCredit x) \<longrightarrow>
       \<not> has_receipt (ro_id (transition_operation env opts)) l \<and>
       has_receipt (ro_id (transition_operation env opts)) (readKickbackLedger (rw_ledger (last vs))))"
proof -
  let ?op = "transition_operation env opts"
  obtain u c res where u: "rw_ledger u = rw_ledger w" "creditBuildReviewConvergence env opts (ro_id ?op) u = (c, res)"
    and vs: "\<forall>v\<in>set vs. rw_ledger v = rw_ledger w \<or> rw_ledger v = rw_ledger c"
    and credit: "(\<exists>x. r = Inr x \<and> at_convergenceCredit x) \<longrightarrow> res = Inr True \<and> vs \<noteq> [] \<and> rw_ledger (last vs) = rw_ledger c"
    using apply_ledgers [OF assms(1,2,5,9)] by blast
  have "sees_ledger (rw_ledger u) l" using u(1) assms(6) by simp
  from credit_run [OF assms(4,3) this assms(7,8) u(2)] u(1) vs credit
  show ?thesis by (auto simp: sees_ledger_def)
qed

section \<open>Completing an interrupted transition\<close>

text \<open>
  The condition under which a run of the same operation completes: every preserved gate has a candidate, and
  still its original verdict or already the stamp; every invalidated gate is open; the state document
  and the ledger can be read.
\<close>

definition kept_gate :: "transition_env \<Rightarrow> transition_options \<Rightarrow> string \<Rightarrow> rt_world \<Rightarrow> step_name \<Rightarrow> bool" where
  "kept_gate env opts i w gate =
     (case gate_verdict_of env opts w gate of
        None \<Rightarrow> False
      | Some v \<Rightarrow> gv_satisfied v \<and> stamped_by i (Some v) \<and>
          Option.bind (gv_preservation v) (\<lambda>p. jget p ''gate'') = Some (JStr gate))"

lemma preservation_kept: "preservation_agrees env opts i w = list_all (kept_gate env opts i w) (to_preserved opts)"
  unfolding preservation_agrees_def kept_gate_def by (rule refl)

definition resumable :: "transition_env \<Rightarrow> transition_options \<Rightarrow> rt_world \<Rightarrow> bool" where
  "resumable env opts w =
     (\<not> list_ex (\<lambda>gate. candidate_for opts gate = None) (to_preserved opts) \<and>
      (\<exists>s. readState (te_customs env) (rw_doc w) = Inr s) \<and>
      (\<forall>g\<in>set (to_invalidated opts). map_option gv_satisfied (gate_verdict_of env opts w g) = Some False) \<and>
      (\<forall>g\<in>set (to_preserved opts). kept_gate env opts (ro_id (transition_operation env opts)) w g \<or>
         original_preserved env opts w g \<noteq> None) \<and>
      (\<exists>l. sees_ledger (rw_ledger w) l \<and> wf_ledger l))"

definition quiet_env :: "transition_env \<Rightarrow> bool" where
  "quiet_env env = (te_others env = (\<lambda>n u. u) \<and> te_ledger env = ok_ledger_env \<and>
     te_applyBatch env = fs_applyBatch (te_customs env) ok_env)"

lemma candidate_gate: "candidate_for opts g = Some c \<Longrightarrow> pc_gate c = g"
  by (auto simp: candidate_for_def dest!: map_of_SomeD)

lemma original_preserved_SomeD:
  "original_preserved env opts w g = Some c \<Longrightarrow> \<exists>v. gate_verdict_of env opts w g = Some v \<and> pc_gate c = g \<and>
     gv_satisfied v \<and> gv_kickback v = None \<and> te_verdictDigest env v = pc_originalVerdictDigest c"
  by (auto simp: original_preserved_def candidate_gate split: option.splits if_splits)

lemma original_preserved_cong:
  "gate_verdict_of env opts v g = gate_verdict_of env opts w g \<Longrightarrow> original_preserved env opts v g = original_preserved env opts w g"
  by (simp add: original_preserved_def)

abbreviation stamped :: "transition_options \<Rightarrow> string \<Rightarrow> preserved_candidate \<Rightarrow> gate_verdict \<Rightarrow> gate_verdict" where
  "stamped opts i c x \<equiv> x\<lparr>gv_preservation := Some (stamp_json c (to_replay opts) i)\<rparr>"

lemma stamped_kept:
  "gate_verdict_of env opts v g = Some (stamped opts i c x) \<Longrightarrow> pc_gate c = g \<Longrightarrow> gv_satisfied x \<Longrightarrow> kept_gate env opts i v g"
  by (simp add: kept_gate_def stamped_by_def stamp_json_def)

lemma stamp_forms:
  assumes "child_ok opts" "''rebase'' \<notin> set gates" "v \<in> set (stamp_trace env opts i originals gates w)"
  shows "gate_verdict_of env opts v g = gate_verdict_of env opts w g \<or>
     (\<exists>c x. originals g = Some c \<and> gate_verdict_of env opts w g = Some x \<and> gv_satisfied x \<and>
        gate_verdict_of env opts v g = Some (stamped opts i c x))"
  using assms(2,3)
proof (induction gates arbitrary: w)
  case (Cons h gates)
  let ?w = "stamp_gate env opts i originals w h"
  have here: "gate_verdict_of env opts ?w g = gate_verdict_of env opts w g \<or>
     (\<exists>c x. originals g = Some c \<and> gate_verdict_of env opts w g = Some x \<and> gv_satisfied x \<and>
        gate_verdict_of env opts ?w g = Some (stamped opts i c x))"
    using stamp_gate_cases [of env opts i originals w h] stamp_gate_other [OF assms(1), of g h] write_gate_same [of h] Cons.prems(1)
    by (cases "g = h") auto
  from Cons.prems(2) consider "v = ?w" | "v \<in> set (stamp_trace env opts i originals gates ?w)" by (auto simp: Let_def)
  then show ?case
  proof cases
    case 2
    with Cons.IH [OF _ 2] Cons.prems(1) here show ?thesis by auto
  qed (use here in simp)
qed simp

lemma stamp_last:
  assumes "child_ok opts" "''rebase'' \<notin> set gates" "g \<in> set gates" "originals g = Some c"
    "gate_verdict_of env opts w g = Some x" "gv_satisfied x" "gv_kickback x = None"
    "te_verdictDigest env x = pc_originalVerdictDigest c"
  shows "gate_verdict_of env opts (last (w # stamp_trace env opts i originals gates w)) g = Some (stamped opts i c x)"
  using assms(2-)
proof (induction gates arbitrary: w)
  case (Cons h gates)
  let ?w = "stamp_gate env opts i originals w h"
  have ok: "''rebase'' \<notin> set gates" using Cons.prems(1) by simp
  have rest: "last (w # stamp_trace env opts i originals (h # gates) w) = last (?w # stamp_trace env opts i originals gates ?w)"
    by (simp add: Let_def)
  show ?case
  proof (cases "h = g")
    case True
    have "g \<noteq> ''rebase''" using True Cons.prems(1) by auto
    then have here: "gate_verdict_of env opts ?w g = Some (stamped opts i c x)"
      using True Cons.prems write_gate_same by (simp add: stamp_gate_def)
    show ?thesis
    proof (cases "stamp_trace env opts i originals gates ?w = []")
      case False
      with stamp_forms [OF assms(1) ok last_in_set, of env i originals ?w g] here Cons.prems(3)
      show ?thesis unfolding rest by auto
    qed (use here rest in simp)
  next
    case False
    then have "gate_verdict_of env opts ?w g = Some x" using stamp_gate_other [OF assms(1)] Cons.prems(4) by metis
    then show ?thesis using Cons.IH [OF ok, of ?w] False Cons.prems unfolding rest by simp
  qed
qed simp

lemma apply_all_next:
  "\<forall>m\<in>set mus. mu_next m = x \<Longrightarrow> f \<in> mu_field ` set mus \<Longrightarrow> apply_mutations mus s f = Some x"
proof (induction mus arbitrary: s)
  case (Cons m mus)
  show ?case
  proof (cases "f \<in> mu_field ` set mus")
    case True
    with Cons show ?thesis by (simp add: apply_mutations_def)
  next
    case False
    with Cons.prems apply_mutations_other [OF False, of "s(mu_field m \<mapsto> mu_next m)"] show ?thesis
      by (auto simp: apply_mutations_def)
  qed
qed simp

lemma pending_batch:
  assumes env: "te_applyBatch env = fs_applyBatch (te_customs env) ok_env"
    and s: "readState (te_customs env) doc = Inr s" and fields: "list_all ordinary_field (to_invalidated opts)"
  shows "\<exists>d m s'. apply_pending env opts i doc = Some (d, m) \<and> \<not> has_message m \<and> readState (te_customs env) d = Inr s' \<and>
     (\<forall>g\<in>set (to_invalidated opts). s' g = Some (status_json Pending))"
proof (cases "to_invalidated opts = []")
  case True
  then show ?thesis using s by (simp add: apply_pending_def invalidation_mutations_def stable_unique_def)
next
  case False
  let ?mus = "invalidation_mutations opts i s"
  have "stable_unique (to_invalidated opts) \<noteq> []" using False by (metis set_empty set_stable_unique)
  then have ne: "?mus \<noteq> []" by (simp add: invalidation_mutations_def)
  have fresh: "fresh_batch s ?mus"
    using fields by (auto simp: fresh_batch_def invalidation_mutations_def comp_def list_all_iff)
  have not_stale: "filter (\<lambda>mu. \<not> stale_over_skipped s mu) ?mus = ?mus"
    by (auto simp: filter_id_conv invalidation_mutations_def stale_over_skipped_def)
  have "batch_effect s ?mus g = Some (status_json Pending)" if "g \<in> set (to_invalidated opts)" for g
    unfolding batch_effect_def not_stale
    by (rule apply_all_next) (use that in \<open>auto simp: invalidation_mutations_def image_image\<close>)
  with batch_effect_reads [OF s fresh] fs_batch_fresh [OF s fresh] ne show ?thesis
    by (simp add: apply_pending_def s env Let_def)
qed

lemma resumable_completes:
  assumes ok: "child_ok opts" "''rebase'' \<notin> set (to_invalidated opts @ to_preserved opts)" "to_child opts = None"
    "list_all ordinary_field (to_invalidated opts)" "\<not> blank (ro_id (transition_operation env opts))"
    and env: "quiet_env env" and w: "resumable env opts w"
    and fresh: "\<not> (operation_applied (ro_id (transition_operation env opts)) (rebase_verdict env w) \<and>
       list_all (\<lambda>gate. stamped_by (ro_id (transition_operation env opts)) (gate_verdict_of env opts w gate)) (to_preserved opts))"
  shows "\<exists>vs y. applyRebaseTransition env opts w = (vs, Inr y) \<and> at_stateResult y \<noteq> StateRefused \<and> vs \<noteq> [] \<and>
     invalidation_agrees env opts (last vs) \<and>
     preservation_agrees env opts (ro_id (transition_operation env opts)) (last vs) \<and>
     operation_applied (ro_id (transition_operation env opts)) (rebase_verdict env (last vs)) \<and>
     (\<exists>u. rw_ledger u = rw_ledger w \<and>
        snd (creditBuildReviewConvergence env opts (ro_id (transition_operation env opts)) u) = Inr (at_convergenceCredit y))"
proof -
  let ?op = "transition_operation env opts" and ?i = "ro_id (transition_operation env opts)"
  let ?prior = "readVerdict (rw_files w) (te_dir env) ''rebase'' None"
  let ?marked = "write_gate env opts ''rebase'' (rebase_marker env ?prior ?op) w"
  let ?orig = "original_preserved env opts w"
  have gates: "''rebase'' \<notin> set (to_invalidated opts)" "''rebase'' \<notin> set (to_preserved opts)" using ok(2) by auto
  have quiet: "te_others env n u = u" "te_ledger env = ok_ledger_env" "te_applyBatch env = fs_applyBatch (te_customs env) ok_env" for n u
    using env by (auto simp: quiet_env_def)
  obtain s where s: "readState (te_customs env) (rw_doc ?marked) = Inr s" using w by (auto simp: resumable_def)
  from pending_batch [OF quiet(3) s ok(4)] obtain d m s' where b: "apply_pending env opts ?i (rw_doc ?marked) = Some (d, m)"
    "\<not> has_message m" "readState (te_customs env) d = Inr s'" "\<forall>g\<in>set (to_invalidated opts). s' g = Some (status_json Pending)" by blast
  let ?after = "?marked\<lparr>rw_doc := d\<rparr>"
  let ?stamps = "stamp_trace env opts ?i ?orig (to_preserved opts) ?after"
  let ?fin = "last (?after # ?stamps)"
  have same: "gate_verdict_of env opts ?after g = gate_verdict_of env opts w g" if "g \<noteq> ''rebase''" for g
    using write_gate_other [OF ok(1) that, of env "rebase_marker env ?prior ?op" w]
    by (simp add: gate_verdict_of_def del: split_paired_All)
  have "map_option gv_satisfied (gate_verdict_of env opts ?after g) = Some False" if "g \<in> set (to_invalidated opts)" for g
  proof -
    have "g \<noteq> ''rebase''" using that gates(1) by auto
    then show ?thesis using same [of g] w that by (simp add: resumable_def)
  qed
  then have inval: "invalidation_agrees env opts ?after"
    using b(3,4) by (simp add: invalidation_agrees_iff)
  have "kept_gate env opts ?i ?fin g" if g: "g \<in> set (to_preserved opts)" for g
  proof -
    have gr: "g \<noteq> ''rebase''" using g gates(2) by auto
    show ?thesis
    proof (cases "?orig g")
      case (Some c)
      from original_preserved_SomeD [OF Some] obtain x where x: "gate_verdict_of env opts w g = Some x" "pc_gate c = g"
        "gv_satisfied x" "gv_kickback x = None" "te_verdictDigest env x = pc_originalVerdictDigest c" by blast
      have "gate_verdict_of env opts ?fin g = Some (stamped opts ?i c x)"
        by (rule stamp_last [where originals = ?orig and c = c]) (use ok(1) gates(2) g Some x same [OF gr] in auto)
      with x(2,3) stamped_kept show ?thesis by metis
    next
      case None
      then have k: "kept_gate env opts ?i w g" using w g by (auto simp: resumable_def)
      have "gate_verdict_of env opts ?fin g = gate_verdict_of env opts ?after g"
        using stamp_forms [OF ok(1) gates(2) last_in_set, of env ?i ?orig ?after g] None by (cases "?stamps = []") auto
      with k same [OF gr] show ?thesis by (simp add: kept_gate_def)
    qed
  qed
  then have pres: "preservation_agrees env opts ?i ?fin" by (simp add: preservation_kept list_all_iff)
  obtain l where l: "sees_ledger (rw_ledger w) l" "wf_ledger l" using w by (auto simp: resumable_def)
  obtain c res where credit: "creditBuildReviewConvergence env opts ?i ?fin = (c, res)" by fastforce
  have end_ledger: "rw_ledger ?fin = rw_ledger w" using stamp_last_invariant(2) [OF ok(1) gates(2), of ?after env ?i ?orig] by simp
  with l(1) have "sees_ledger (rw_ledger ?fin) l" by simp
  from credit_run [OF quiet(2) ok(3) this l(2) ok(5) credit] obtain x where res: "res = Inr x" by blast
  let ?applied = "?op\<lparr>ro_appliedAt := Some (te_now env)\<rparr>"
  let ?final = "write_gate env opts ''rebase'' (rebase_marker env ?prior ?applied) c"
  obtain y where settle: "settle_transition env opts ?op ?prior ?orig (m = Idempotent) ?after = (?stamps @ [c, ?final], Inr y)"
    "at_stateResult y \<noteq> StateRefused" "at_convergenceCredit y = x"
    using inval pres credit res by (simp add: settle_transition_def Let_def del: last.simps)
  have run: "run_marked env opts ?op ?prior ?orig ?marked = ([?marked, ?after, ?after] @ ?stamps @ [c, ?final], Inr y)"
    using b(1,2) quiet(1) settle(1) by (simp add: run_marked_def Let_def)
  have result: "applyRebaseTransition env opts w = (?marked # [?marked, ?after, ?after] @ ?stamps @ [c, ?final], Inr y)"
    using run fresh w by (auto simp: applyRebaseTransition_def Let_def rebase_verdict_def resumable_def)
  have op: "ro_appliedAt ?op = None" by (simp add: transition_operation_def)
  have applied: "operation_applied ?i (rebase_verdict env ?final)" by (simp add: write_marker marker_applied)
  moreover have "\<not> operation_applied ?i (rebase_verdict env ?marked)" using op by (simp add: write_marker marker_applied)
  ultimately have "invalidation_agrees env opts ?final \<and> preservation_agrees env opts ?i ?final"
    using run_marked_trace [OF ok(1) gates _ run op, of ?final] quiet(1) by auto
  moreover have "snd (creditBuildReviewConvergence env opts ?i ?fin) = Inr (at_convergenceCredit y)"
    using credit res settle(3) by simp
  ultimately show ?thesis using result settle(2) applied end_ledger by (intro exI conjI) auto
qed

text \<open>Every durable state of a run that completes can be resumed.\<close>

lemma completed_trace_resumable:
  assumes ok: "child_ok opts" "''rebase'' \<notin> set (to_invalidated opts @ to_preserved opts)" "to_child opts = None"
    "\<not> blank (ro_id (transition_operation env opts))"
    and env: "quiet_env env" and l: "sees_ledger (rw_ledger w) l" "wf_ledger l"
    and fresh: "\<not> operation_applied (ro_id (transition_operation env opts)) (rebase_verdict env w)"
    and run: "applyRebaseTransition env opts w = (vs, Inr x)" "at_stateResult x \<noteq> StateRefused" and v: "v \<in> set vs"
  shows "resumable env opts v"
proof -
  let ?op = "transition_operation env opts" and ?i = "ro_id (transition_operation env opts)"
  let ?prior = "readVerdict (rw_files w) (te_dir env) ''rebase'' None"
  let ?marked = "write_gate env opts ''rebase'' (rebase_marker env ?prior ?op) w"
  let ?orig = "original_preserved env opts w"
  have gates: "''rebase'' \<notin> set (to_invalidated opts)" "''rebase'' \<notin> set (to_preserved opts)" using ok(2) by auto
  have quiet: "te_others env n u = u" "te_ledger env = ok_ledger_env" for n u using env by (auto simp: quiet_env_def)
  have notref: "Inr x \<noteq> refused_at o'" for o' using run(2) by (auto simp: refused_at_def)
  from apply_forms [OF run(1)] fresh notref obtain added where
    cands: "\<not> list_ex (\<lambda>gate. candidate_for opts gate = None) (to_preserved opts)" and
    marked: "run_marked env opts ?op ?prior ?orig ?marked = (added, Inr x)" and vs: "vs = ?marked # added"
    by (auto simp: Let_def rebase_verdict_def)
  from run_marked_forms [OF marked] notref quiet(1) obtain d m settled where
    batch: "apply_pending env opts ?i (rw_doc ?marked) = Some (d, m)" and
    settle: "settle_transition env opts ?op ?prior ?orig (m = Idempotent) (?marked\<lparr>rw_doc := d\<rparr>) = (settled, Inr x)" and
    added: "added = [?marked, ?marked\<lparr>rw_doc := d\<rparr>, ?marked\<lparr>rw_doc := d\<rparr>] @ settled"
    by (auto simp: Let_def)
  let ?after = "?marked\<lparr>rw_doc := d\<rparr>"
  let ?stamps = "stamp_trace env opts ?i ?orig (to_preserved opts) ?after"
  let ?fin = "last (?after # ?stamps)"
  let ?credit = "creditBuildReviewConvergence env opts ?i ?fin"
  from settle_forms [OF settle] notref obtain c final where
    done': "snd ?credit = Inr c" "settled = ?stamps @ [fst ?credit, write_gate env opts ''rebase'' final (fst ?credit)]"
      "invalidation_agrees env opts ?after" "preservation_agrees env opts ?i ?fin"
    by (auto simp: Let_def simp del: last.simps)
  have same: "gate_verdict_of env opts ?after g = gate_verdict_of env opts w g" if "g \<noteq> ''rebase''" for g
    using write_gate_other [OF ok(1) that, of env "rebase_marker env ?prior ?op" w] by (simp add: gate_verdict_of_def)
  have forms: "gate_verdict_of env opts u g = gate_verdict_of env opts w g \<or>
      (\<exists>c y. ?orig g = Some c \<and> gate_verdict_of env opts w g = Some y \<and> gv_satisfied y \<and>
         gate_verdict_of env opts u g = Some (stamped opts ?i c y))"
    if "u = ?after \<or> u \<in> set ?stamps" "g \<noteq> ''rebase''" for u g
    using that stamp_forms [OF ok(1) gates(2), of u env ?i ?orig ?after g] same [OF that(2)] by auto
  have end_mem: "?fin = ?after \<or> ?fin \<in> set ?stamps" by (cases "?stamps = []") auto
  have kept: "kept_gate env opts ?i u g \<or> original_preserved env opts u g \<noteq> None"
    if u: "u = ?after \<or> u \<in> set ?stamps" and g: "g \<in> set (to_preserved opts)" for u g
  proof -
    have gr: "g \<noteq> ''rebase''" using g gates(2) by auto
    have "kept_gate env opts ?i ?fin g" using done'(4) g by (simp add: preservation_kept list_all_iff)
    then have untouched: "kept_gate env opts ?i w g" if "?orig g = None"
      using forms [OF end_mem gr] that by (simp add: kept_gate_def)
    from forms [OF u gr] show ?thesis
    proof
      assume e: "gate_verdict_of env opts u g = gate_verdict_of env opts w g"
      show ?thesis using untouched original_preserved_cong [OF e] e by (cases "?orig g") (auto simp: kept_gate_def)
    next
      assume "\<exists>c y. ?orig g = Some c \<and> gate_verdict_of env opts w g = Some y \<and> gv_satisfied y \<and>
         gate_verdict_of env opts u g = Some (stamped opts ?i c y)"
      then show ?thesis using stamped_kept original_preserved_SomeD by metis
    qed
  qed
  have doc: "\<exists>s. readState (te_customs env) (rw_doc ?marked) = Inr s"
    using batch by (auto simp: apply_pending_def split: sum.splits)
  have doc': "\<exists>s. readState (te_customs env) d = Inr s" using done'(3) by (auto simp: invalidation_agrees_iff)
  have open': "map_option gv_satisfied (gate_verdict_of env opts w g) = Some False" if "g \<in> set (to_invalidated opts)" for g
  proof -
    have "g \<noteq> ''rebase''" using that gates(1) by auto
    then have "gate_verdict_of env opts ?after g = gate_verdict_of env opts w g" by (rule same)
    moreover have "map_option gv_satisfied (gate_verdict_of env opts ?after g) = Some False"
      using done'(3) that unfolding invalidation_agrees_iff by blast
    ultimately show ?thesis by simp
  qed
  have end_ledger: "rw_ledger ?fin = rw_ledger w" using stamp_last_invariant(2) [OF ok(1) gates(2), of ?after env ?i ?orig] by simp
  have "sees_ledger (rw_ledger ?fin) l" using l(1) end_ledger by simp
  from credit_run [OF quiet(2) ok(3) this l(2) ok(4) surjective_pairing]
  have credited: "\<exists>l'. sees_ledger (rw_ledger (fst ?credit)) l' \<and> wf_ledger l'"
    using l end_ledger by auto
  have base: "resumable env opts u"
    if "u' = ?after \<or> u' \<in> set ?stamps" "\<forall>g. g \<noteq> ''rebase'' \<longrightarrow> gate_verdict_of env opts u g = gate_verdict_of env opts u' g"
      "\<exists>s. readState (te_customs env) (rw_doc u) = Inr s" "\<exists>l. sees_ledger (rw_ledger u) l \<and> wf_ledger l" for u u'
  proof -
    have open_u: "map_option gv_satisfied (gate_verdict_of env opts u g) = Some False" if g: "g \<in> set (to_invalidated opts)" for g
    proof -
      have "g \<noteq> ''rebase''" using g gates(1) by auto
      with forms [OF \<open>u' = ?after \<or> u' \<in> set ?stamps\<close>] open' [OF g] that show ?thesis
        using \<open>\<forall>g. g \<noteq> ''rebase'' \<longrightarrow> gate_verdict_of env opts u g = gate_verdict_of env opts u' g\<close> by fastforce
    qed
    have kept_u: "kept_gate env opts ?i u g \<or> original_preserved env opts u g \<noteq> None" if g: "g \<in> set (to_preserved opts)" for g
    proof -
      have "g \<noteq> ''rebase''" using g gates(2) by auto
      then have "gate_verdict_of env opts u g = gate_verdict_of env opts u' g"
        using \<open>\<forall>g. g \<noteq> ''rebase'' \<longrightarrow> gate_verdict_of env opts u g = gate_verdict_of env opts u' g\<close> by blast
      with kept [OF \<open>u' = ?after \<or> u' \<in> set ?stamps\<close> g] show ?thesis by (simp add: kept_gate_def original_preserved_def)
    qed
    show ?thesis using cands open_u kept_u that(3,4) by (simp add: resumable_def)
  qed
  from v vs added done'(2) consider "v = ?marked" | "v = ?after" | "v \<in> set ?stamps" | "v = fst ?credit"
    | "v = write_gate env opts ''rebase'' final (fst ?credit)"
    by auto
  then show ?thesis
  proof cases
    case 1
    then show ?thesis using doc l by (intro base [where u' = ?after]) (auto simp: gate_verdict_of_def)
  next
    case 2
    then show ?thesis using doc' l by (intro base [where u' = ?after]) auto
  next
    case 3
    then show ?thesis using doc' l stamp_trace_invariant [OF ok(1) gates(2) 3] by (intro base [where u' = v]) auto
  next
    case 4
    then show ?thesis using doc' credited end_mem stamp_last_invariant(1) [OF ok(1) gates(2), of ?after env ?i ?orig]
      by (intro base [where u' = ?fin]) (auto simp del: last.simps)
  next
    case 5
    then show ?thesis
      using doc' credited end_mem stamp_last_invariant(1) [OF ok(1) gates(2), of ?after env ?i ?orig] write_gate_other [OF ok(1)]
      by (intro base [where u' = ?fin]) (auto simp del: last.simps)
  qed
qed

text \<open>The clock is read for the time stamps alone.\<close>

lemma later_clock [simp]:
  "transition_operation (env\<lparr>te_now := t\<rparr>) opts = transition_operation env opts"
  "gate_verdict_of (env\<lparr>te_now := t\<rparr>) opts = gate_verdict_of env opts"
  "rebase_verdict (env\<lparr>te_now := t\<rparr>) = rebase_verdict env"
  "invalidation_agrees (env\<lparr>te_now := t\<rparr>) opts = invalidation_agrees env opts"
  "preservation_agrees (env\<lparr>te_now := t\<rparr>) opts = preservation_agrees env opts"
  "original_preserved (env\<lparr>te_now := t\<rparr>) opts = original_preserved env opts"
  "kept_gate (env\<lparr>te_now := t\<rparr>) opts = kept_gate env opts"
  "quiet_env (env\<lparr>te_now := t\<rparr>) = quiet_env env"
  "creditBuildReviewConvergence (env\<lparr>te_now := t\<rparr>) opts = creditBuildReviewConvergence env opts"
proof -
  show g: "gate_verdict_of (env\<lparr>te_now := t\<rparr>) opts = gate_verdict_of env opts" by (simp add: gate_verdict_of_def fun_eq_iff)
  show "invalidation_agrees (env\<lparr>te_now := t\<rparr>) opts = invalidation_agrees env opts"
    "preservation_agrees (env\<lparr>te_now := t\<rparr>) opts = preservation_agrees env opts"
    "original_preserved (env\<lparr>te_now := t\<rparr>) opts = original_preserved env opts"
    "kept_gate (env\<lparr>te_now := t\<rparr>) opts = kept_gate env opts"
    unfolding invalidation_agrees_def preservation_agrees_def original_preserved_def kept_gate_def g by (simp_all cong: option.case_cong)
qed (simp_all add: transition_operation_def rebase_verdict_def quiet_env_def creditBuildReviewConvergence_def fun_eq_iff cong: option.case_cong)

lemma later_resumable [simp]: "resumable (env\<lparr>te_now := t\<rparr>) opts = resumable env opts"
  by (simp add: resumable_def fun_eq_iff)

text \<open>A run of an operation that is already applied and stamped ends in its state, the ledger apart.\<close>

lemma applied_again:
  assumes "operation_applied (ro_id (transition_operation env opts)) (rebase_verdict env w)"
    and "list_all (\<lambda>gate. stamped_by (ro_id (transition_operation env opts)) (gate_verdict_of env opts w gate)) (to_preserved opts)"
    and "te_ledger env = ok_ledger_env" "to_child opts = None" "sees_ledger (rw_ledger w) l" "wf_ledger l"
      "\<not> blank (ro_id (transition_operation env opts))"
  shows "\<exists>u y. applyRebaseTransition env opts w = ([u], Inr y) \<and> at_stateResult y = AlreadyApplied \<and>
     rw_files u = rw_files w \<and> rw_doc u = rw_doc w"
proof -
  obtain u res where credit: "creditBuildReviewConvergence env opts (ro_id (transition_operation env opts)) w = (u, res)" by fastforce
  then have "rw_files u = rw_files w \<and> rw_doc u = rw_doc w"
    by (auto simp: creditBuildReviewConvergence_def split: if_splits prod.splits)
  moreover from credit_run [OF assms(3-7) credit] obtain c where "res = Inr c" by blast
  ultimately show ?thesis
    using assms(1,2) credit by (simp add: applyRebaseTransition_def Let_def rebase_verdict_def already_applied_def)
qed

text \<open>
  C31: recovery from a crash of a feature-wide operation (one without a child) whose
  invalidated gates are ordinary fields, while nobody else writes and store and ledger answer without
  errors. Take any durable state of a run that would have completed; running the same operation
  from it, whatever the clock shows then, completes too: the invalidated gates are pending with unsatisfied
  verdicts, the preserved gates satisfied and stamped, and the commit marker is written.
\<close>

theorem interrupted_transition_completes:
  assumes "''rebase'' \<notin> set (to_invalidated opts @ to_preserved opts)" and "to_child opts = None"
    and "list_all ordinary_field (to_invalidated opts)" and "\<not> blank (ro_id (transition_operation env opts))"
    and "quiet_env env" and "sees_ledger (rw_ledger w) l" and "wf_ledger l"
    and "\<not> operation_applied (ro_id (transition_operation env opts)) (rebase_verdict env w)"
    and "applyRebaseTransition env opts w = (vs, Inr x)" and "at_stateResult x \<noteq> StateRefused" and "v \<in> set vs"
  shows "\<exists>vs' y. applyRebaseTransition (env\<lparr>te_now := t\<rparr>) opts v = (vs', Inr y) \<and> at_stateResult y \<noteq> StateRefused \<and>
     invalidation_agrees env opts (last vs') \<and>
     preservation_agrees env opts (ro_id (transition_operation env opts)) (last vs') \<and>
     operation_applied (ro_id (transition_operation env opts)) (rebase_verdict env (last vs'))"
proof -
  let ?env = "env\<lparr>te_now := t\<rparr>" and ?i = "ro_id (transition_operation env opts)"
  have ok: "child_ok opts" using assms(2) by (simp add: child_ok_def)
  have v: "resumable env opts v" by (rule completed_trace_resumable [OF ok assms(1,2,4-7) assms(8-11)])
  show ?thesis
  proof (cases "operation_applied ?i (rebase_verdict env v) \<and>
      list_all (\<lambda>gate. stamped_by ?i (gate_verdict_of env opts v gate)) (to_preserved opts)")
    case False
    from resumable_completes [OF ok assms(1-3), of ?env v] v False assms(4,5) show ?thesis by auto
  next
    case True
    have others: "\<forall>n u. rebase_verdict env (te_others env n u) = rebase_verdict env u"
      using assms(5) by (simp add: quiet_env_def)
    from applied_is_last [OF ok assms(1) others assms(8,9,11)] True
    have agree: "invalidation_agrees env opts v" "preservation_agrees env opts ?i v" by auto
    obtain l' where l': "sees_ledger (rw_ledger v) l'" "wf_ledger l'" using v by (auto simp: resumable_def)
    have quiet: "te_ledger ?env = ok_ledger_env" using assms(5) by (simp add: quiet_env_def)
    from applied_again [of ?env opts v, OF _ _ quiet assms(2) l'] True assms(4) obtain u y where
      u: "applyRebaseTransition ?env opts v = ([u], Inr y)" "at_stateResult y = AlreadyApplied"
        "rw_files u = rw_files v" "rw_doc u = rw_doc v" by auto
    have same: "gate_verdict_of env opts u = gate_verdict_of env opts v" by (intro ext) (simp add: gate_verdict_of_def u(3))
    have "invalidation_agrees env opts u" "preservation_agrees env opts ?i u"
      using agree unfolding invalidation_agrees_def preservation_agrees_def same u(4) by simp_all
    moreover have "rebase_verdict env u = rebase_verdict env v" using u(3) by (simp add: rebase_verdict_def)
    ultimately show ?thesis using u True by auto
  qed
qed

section \<open>A sample run\<close>

text \<open>The build review gate is invalidated, the PRD audit preserved by its candidate.\<close>

definition sample_verdict :: "bool \<Rightarrow> gate_verdict" where
  "sample_verdict ok = \<lparr>gv_satisfied = ok, gv_routedRound = None, gv_outcome = None, gv_reason = None, gv_checkedAt = 1,
     gv_kickback = None, gv_preservation = None, gv_rebaseOperation = None\<rparr>"

definition rebase_env :: transition_env where
  "rebase_env = \<lparr>te_dir = ''/p'', te_verdictDigest = (\<lambda>_. ''d''), te_contentDigest = (\<lambda>_. ''op''), te_replayDigest = (\<lambda>_. ''r''),
     te_now = 7, te_customs = Map.empty, te_applyBatch = fs_applyBatch Map.empty ok_env, te_ledger = ok_ledger_env,
     te_others = (\<lambda>n u. u)\<rparr>"

definition rebase_opts :: transition_options where
  "rebase_opts = \<lparr>to_replay = JObj [(''expectedTree'', JStr ''t'')], to_invalidated = [''build_review''],
     to_preserved = [''prd_audit''],
     to_candidates = [\<lparr>pc_gate = ''prd_audit'', pc_original = JObj [], pc_originalVerdictDigest = ''d'',
       pc_relevantInputIdentities = []\<rparr>],
     to_reverified = [], to_operationId = Some ''op'', to_child = None, to_cause = None\<rparr>"

definition reviewed_ledger :: kickback_ledger where
  "reviewed_ledger = emptyLedger\<lparr>kl_gates := [(''build_review'', blank_gate_entry\<lparr>ge_count := 1\<rparr>)]\<rparr>"

definition rebase_world :: rt_world where
  "rebase_world = \<lparr>rw_files = [''/p/.pipeline/gates/build_review.json'' \<mapsto> VerdictDoc (sample_verdict False),
       ''/p/.pipeline/gates/prd_audit.json'' \<mapsto> VerdictDoc (sample_verdict True)],
     rw_doc = DocMissing, rw_ledger = LedgerJson (JObj (ledger_fields reviewed_ledger))\<rparr>"

lemma rebase_sample:
  "ro_id (transition_operation rebase_env rebase_opts) = ''op''" "quiet_env rebase_env" "child_ok rebase_opts"
  "te_ledger rebase_env = ok_ledger_env" "te_others rebase_env n u = u" "te_applyBatch rebase_env = fs_applyBatch Map.empty ok_env"
  "to_invalidated rebase_opts = [''build_review'']" "to_preserved rebase_opts = [''prd_audit'']" "to_child rebase_opts = None" "to_cause rebase_opts = None"
  "\<not> operation_applied ''op'' (rebase_verdict rebase_env rebase_world)"
  by (simp_all add: transition_operation_def rebase_env_def rebase_opts_def quiet_env_def child_ok_def rebase_world_def
      rebase_verdict_def readVerdict_def verdictPathFor_def GATES_DIR_def operation_applied_def)

lemma rebase_sample_ledger:
  "sees_ledger (rw_ledger rebase_world) (norm_ledger reviewed_ledger)" "wf_ledger (norm_ledger reviewed_ledger)"
  "\<exists>entry. gate_of (norm_ledger reviewed_ledger) ''build_review'' = Some entry" "\<not> has_receipt i reviewed_ledger"
proof -
  have wf: "wf_ledger reviewed_ledger"
    by (simp add: wf_ledger_def reviewed_ledger_def emptyLedger_def wf_entry_fields blank_gate_entry_def)
  then show "wf_ledger (norm_ledger reviewed_ledger)" by (rule wf_norm_ledger)
  show "sees_ledger (rw_ledger rebase_world) (norm_ledger reviewed_ledger)"
    using wf by (simp add: sees_ledger_def rebase_world_def read_written readable_written)
  show "\<exists>entry. gate_of (norm_ledger reviewed_ledger) ''build_review'' = Some entry" "\<not> has_receipt i reviewed_ledger"
    by (simp_all add: reviewed_ledger_def norm_ledger_def has_receipt_def emptyLedger_def gate_of_def)
qed

lemma rebase_sample_resumable: "resumable rebase_env rebase_opts rebase_world"
  using rebase_sample_ledger(1,2)
  by (simp add: resumable_def candidate_for_def rebase_opts_def rebase_world_def rebase_env_def readState_def migrateState_def
      original_preserved_def gate_verdict_of_def readVerdict_def verdictPathFor_def GATES_DIR_def childForGate_def
      sample_verdict_def) blast

lemma rebase_sample_run:
  "\<exists>vs y. applyRebaseTransition rebase_env rebase_opts rebase_world = (vs, Inr y) \<and> at_stateResult y \<noteq> StateRefused \<and> vs \<noteq> [] \<and>
     operation_applied ''op'' (rebase_verdict rebase_env (last vs)) \<and> at_convergenceCredit y"
proof -
  have "\<not> blank ''op''" by (simp add: blank_def js_space_def)
  with resumable_completes [of rebase_opts rebase_env rebase_world] obtain vs y u where
    run: "applyRebaseTransition rebase_env rebase_opts rebase_world = (vs, Inr y)" "at_stateResult y \<noteq> StateRefused" "vs \<noteq> []"
      "operation_applied ''op'' (rebase_verdict rebase_env (last vs))" and u: "rw_ledger u = rw_ledger rebase_world"
      "snd (creditBuildReviewConvergence rebase_env rebase_opts ''op'' u) = Inr (at_convergenceCredit y)"
    by (auto simp: rebase_sample rebase_sample_resumable ordinary_field_def)
  have "snd (creditBuildReviewConvergence rebase_env rebase_opts ''op'' u) = Inr True"
    using rebase_sample_ledger u(1) by (intro credit_pays [where l = "norm_ledger reviewed_ledger"])
      (auto simp: rebase_sample blank_def js_space_def)
  with run u(2) show ?thesis by simp
qed

theorem rebase_commit_sound_witness:
  "\<exists>vs r. applyRebaseTransition rebase_env rebase_opts rebase_world = (vs, r) \<and> vs \<noteq> [] \<and>
     invalidation_agrees rebase_env rebase_opts (last vs) \<and> preservation_agrees rebase_env rebase_opts ''op'' (last vs) \<and>
     (\<exists>x. r = Inr x \<and> at_stateResult x \<noteq> StateRefused)"
proof -
  from rebase_sample_run obtain vs y where run: "applyRebaseTransition rebase_env rebase_opts rebase_world = (vs, Inr y)"
    "vs \<noteq> []" "operation_applied ''op'' (rebase_verdict rebase_env (last vs))" by blast
  from rebase_commit_sound [where env = rebase_env and opts = rebase_opts, OF rebase_sample(3) _ _ _ run(1) last_in_set]
  show ?thesis using run by (simp add: rebase_sample)
qed

theorem rebase_credit_once_witness:
  "\<exists>vs x. applyRebaseTransition rebase_env rebase_opts rebase_world = (vs, Inr x) \<and> at_convergenceCredit x \<and>
     \<not> has_receipt ''op'' (norm_ledger reviewed_ledger) \<and> has_receipt ''op'' (readKickbackLedger (rw_ledger (last vs)))"
proof -
  from rebase_sample_run obtain vs y where run: "applyRebaseTransition rebase_env rebase_opts rebase_world = (vs, Inr y)"
    "at_convergenceCredit y" by blast
  have "\<not> blank ''op''" by (simp add: blank_def js_space_def)
  with rebase_credit_once [where env = rebase_env and opts = rebase_opts,
      OF rebase_sample(3) _ rebase_sample(9,4) _ rebase_sample_ledger(1,2) _ run(1)]
  show ?thesis using run by (simp add: rebase_sample)
qed

theorem interrupted_transition_completes_witness:
  "\<exists>vs x v vs' y. applyRebaseTransition rebase_env rebase_opts rebase_world = (vs, Inr x) \<and> v = hd vs \<and>
     applyRebaseTransition (rebase_env\<lparr>te_now := 9\<rparr>) rebase_opts v = (vs', Inr y) \<and> at_stateResult y \<noteq> StateRefused \<and>
     operation_applied ''op'' (rebase_verdict rebase_env (last vs'))"
proof -
  from rebase_sample_run obtain vs y where run: "applyRebaseTransition rebase_env rebase_opts rebase_world = (vs, Inr y)"
    "at_stateResult y \<noteq> StateRefused" "vs \<noteq> []" by blast
  have "\<not> blank ''op''" by (simp add: blank_def js_space_def)
  with interrupted_transition_completes [where env = rebase_env and opts = rebase_opts and t = 9, OF _ rebase_sample(9) _ _
      rebase_sample(2) rebase_sample_ledger(1,2) _ run(1,2) list.set_sel(1) [OF run(3)]] run(1)
  show ?thesis by (auto simp: rebase_sample ordinary_field_def)
qed

end
