(* ===== verification/Intervals.thy ===== *)
theory Intervals
  imports Json "HOL-Library.Product_Lexorder"
begin

text \<open>
  The interval algebra of \<^verbatim>\<open>engine/interval-algebra.ts\<close>: validation of observed intervals, their
  union by sorting and merging, and the intersection of two unions by a two-pointer sweep. Times are
  whole numbers of the clock's unit, below 2^53, so every sum is a finite number. An interval denotes
  the half-open set of instants from its start to its end, and the lemmas say what the two routines
  compute on these sets.
\<close>

record observed_interval =
  oi_startedAtMs :: int
  oi_durationMs :: int

record interval_union =
  iu_intervals :: "observed_interval list"
  iu_invalidIntervals :: "jval list"

definition intervalEndMs :: "observed_interval \<Rightarrow> int" where
  "intervalEndMs i = oi_startedAtMs i + oi_durationMs i"

text \<open>\<open>isValidInterval\<close> narrows an unknown value: the accepted value is returned as an interval.\<close>

definition isValidInterval :: "jval \<Rightarrow> observed_interval option" where
  "isValidInterval v =
     (case (jget v ''startedAtMs'', jget v ''durationMs'') of
        (Some (JNum s), Some (JNum d)) \<Rightarrow>
          if 0 \<le> d then Some \<lparr>oi_startedAtMs = s, oi_durationMs = d\<rparr> else None
      | _ \<Rightarrow> None)"

fun split_valid :: "jval list \<Rightarrow> observed_interval list \<times> jval list" where
  "split_valid [] = ([], [])"
| "split_valid (v # vs) =
     (case (isValidInterval v, split_valid vs) of
        (Some i, (valid, invalid)) \<Rightarrow> (i # valid, invalid)
      | (None, (valid, invalid)) \<Rightarrow> (valid, v # invalid))"

definition interval_order :: "observed_interval \<Rightarrow> int \<times> int" where
  "interval_order i = (oi_startedAtMs i, intervalEndMs i)"

text \<open>
  One round of the merging loop. The interval last pushed is \<^verbatim>\<open>union.at(-1)\<close> and is extended in
  place.
\<close>

definition merge_interval :: "observed_interval list \<Rightarrow> observed_interval \<Rightarrow> observed_interval list" where
  "merge_interval merged interval =
     (if merged = [] \<or> intervalEndMs (last merged) < oi_startedAtMs interval then merged @ [interval]
      else let previous = last merged;
               mergedEndMs = max (intervalEndMs previous) (intervalEndMs interval)
           in butlast merged @ [previous\<lparr>oi_durationMs := mergedEndMs - oi_startedAtMs previous\<rparr>])"

definition unionIntervals :: "jval list \<Rightarrow> interval_union" where
  "unionIntervals intervals =
     (let (valid, invalid) = split_valid intervals
      in \<lparr>iu_intervals = foldl merge_interval [] (sort_key interval_order valid),
          iu_invalidIntervals = invalid\<rparr>)"

text \<open>
  The sweep over two unions. The two indices are the two remaining lists, and every round drops the
  head that ends first.
\<close>

function sweep :: "observed_interval list \<Rightarrow> observed_interval list \<Rightarrow> observed_interval list" where
  "sweep [] right = []"
| "sweep (l # left) [] = []"
| "sweep (l # left) (r # right) =
     (let startMs = max (oi_startedAtMs l) (oi_startedAtMs r);
          endMs = min (intervalEndMs l) (intervalEndMs r);
          rest = (if intervalEndMs l \<le> intervalEndMs r then sweep left (r # right)
                  else sweep (l # left) right)
      in if startMs < endMs
         then \<lparr>oi_startedAtMs = startMs, oi_durationMs = endMs - startMs\<rparr> # rest
         else rest)"
  by pat_completeness auto
termination
  by (relation "measure (\<lambda>(left, right). length left + length right)") auto

definition intersectIntervalUnions :: "jval list \<Rightarrow> jval list \<Rightarrow> interval_union" where
  "intersectIntervalUnions leftIntervals rightIntervals =
     (let left = unionIntervals leftIntervals; right = unionIntervals rightIntervals
      in \<lparr>iu_intervals = sweep (iu_intervals left) (iu_intervals right),
          iu_invalidIntervals = iu_invalidIntervals left @ iu_invalidIntervals right\<rparr>)"

text \<open>An interval as the value a caller passes on.\<close>

definition interval_json :: "observed_interval \<Rightarrow> jval" where
  "interval_json i = JObj [(''startedAtMs'', JNum (oi_startedAtMs i)), (''durationMs'', JNum (oi_durationMs i))]"

definition duration_sum :: "observed_interval list \<Rightarrow> int" where
  "duration_sum is = foldl (\<lambda>total interval. total + oi_durationMs interval) 0 is"

section \<open>The set an interval list denotes\<close>

definition instants :: "observed_interval \<Rightarrow> int set" where
  "instants i = {oi_startedAtMs i ..< intervalEndMs i}"

definition covered_instants :: "observed_interval list \<Rightarrow> int set" where
  "covered_instants is = (\<Union>i\<in>set is. instants i)"

text \<open>\<open>separated\<close> is the normal form of a union: non-negative, ascending, with a gap between two.\<close>

fun separated :: "observed_interval list \<Rightarrow> bool" where
  "separated [] = True"
| "separated (i # is) = (0 \<le> oi_durationMs i \<and> (\<forall>j\<in>set is. intervalEndMs i < oi_startedAtMs j) \<and> separated is)"

lemma covered_instants_simps [simp]:
  "covered_instants [] = {}" "covered_instants (i # is) = instants i \<union> covered_instants is" "covered_instants (xs @ ys) = covered_instants xs \<union> covered_instants ys"
  by (auto simp: covered_instants_def)

lemma finite_covered [simp]: "finite (covered_instants is)"
  by (simp add: covered_instants_def instants_def)

lemma covered_mset: "mset xs = mset ys \<Longrightarrow> covered_instants xs = covered_instants ys"
  unfolding covered_instants_def by (metis set_mset_mset)

lemma separated_append:
  "separated (xs @ ys) \<longleftrightarrow> separated xs \<and> separated ys \<and> (\<forall>x\<in>set xs. \<forall>y\<in>set ys. intervalEndMs x < oi_startedAtMs y)"
  by (induction xs) auto

lemma separated_starts: "separated (i # is) \<Longrightarrow> j \<in> set is \<Longrightarrow> oi_startedAtMs i < oi_startedAtMs j"
  by (fastforce simp: intervalEndMs_def)

lemma duration_sum_Cons: "duration_sum (i # is) = oi_durationMs i + duration_sum is"
proof -
  have "foldl (\<lambda>t j. t + oi_durationMs j) a xs = a + foldl (\<lambda>t j. t + oi_durationMs j) 0 xs" for a xs
  proof (induction xs arbitrary: a)
    case (Cons x xs)
    then show ?case by (metis (no_types, lifting) add.assoc add.left_neutral foldl_Cons)
  qed simp
  from this [of "oi_durationMs i" "is"] show ?thesis by (simp add: duration_sum_def)
qed

text \<open>In normal form the durations add up to the number of instants.\<close>

lemma duration_sum_card: "separated is \<Longrightarrow> duration_sum is = int (card (covered_instants is))"
proof (induction "is")
  case Nil
  then show ?case by (simp add: duration_sum_def)
next
  case (Cons i "is")
  have "instants i \<inter> covered_instants is = {}" using Cons.prems by (force simp: covered_instants_def instants_def)
  then have "card (covered_instants (i # is)) = card (instants i) + card (covered_instants is)"
    by (simp add: card_Un_disjoint instants_def)
  moreover have "int (card (instants i)) = oi_durationMs i"
    using Cons.prems by (simp add: instants_def intervalEndMs_def)
  ultimately show ?case using Cons by (simp add: duration_sum_Cons)
qed

section \<open>Union\<close>

lemma split_valid_iff:
  "split_valid vs = (List.map_filter isValidInterval vs, filter (\<lambda>v. isValidInterval v = None) vs)"
  by (induction vs) (auto simp: map_filter_simps split: option.splits prod.splits)

lemma isValidInterval_nonneg: "isValidInterval v = Some i \<Longrightarrow> 0 \<le> oi_durationMs i"
  by (auto simp: isValidInterval_def split: option.splits jval.splits if_splits)

lemma isValidInterval_json [simp]: "isValidInterval (interval_json i) = (if 0 \<le> oi_durationMs i then Some i else None)"
  by (simp add: isValidInterval_def interval_json_def)

lemma split_valid_json: "\<forall>i\<in>set is. 0 \<le> oi_durationMs i \<Longrightarrow> split_valid (map interval_json is) = (is, [])"
  by (induction "is") auto

text \<open>
  The invariant of the merging loop: the union so far is in normal form, and what is still to come
  starts no earlier than its last interval.
\<close>

lemma merge_interval_step:
  assumes "separated merged" "0 \<le> oi_durationMs i" "\<forall>u\<in>set merged. oi_startedAtMs u \<le> oi_startedAtMs i"
  shows "separated (merge_interval merged i)" "covered_instants (merge_interval merged i) = covered_instants merged \<union> instants i"
    "\<forall>u\<in>set (merge_interval merged i). oi_startedAtMs u \<le> oi_startedAtMs i"
proof -
  show "separated (merge_interval merged i)"
  proof (cases "merged = [] \<or> intervalEndMs (last merged) < oi_startedAtMs i")
    case True
    have "intervalEndMs x < oi_startedAtMs i" if "x \<in> set merged" for x
    proof -
      from that True have l: "intervalEndMs (last merged) < oi_startedAtMs i" by auto
      from that have "merged \<noteq> []" by auto
      then have u: "merged = butlast merged @ [last merged]" by simp
      show ?thesis
      proof (cases "x = last merged")
        case False
        with that u have "x \<in> set (butlast merged)" by (metis Un_iff empty_iff empty_set set_ConsD set_append)
        with assms(1) u have "intervalEndMs x < oi_startedAtMs (last merged)"
          by (metis list.set_intros(1) separated_append)
        also have "\<dots> \<le> oi_startedAtMs i" using assms(3) that by (metis last_in_set list.set_cases list.distinct(1))
        finally show ?thesis .
      qed (use l in simp)
    qed
    with True assms show ?thesis by (auto simp: merge_interval_def separated_append)
  next
    case False
    then have u: "merged = butlast merged @ [last merged]" by simp
    obtain us p where us: "merged = us @ [p]" using u by blast
    with assms(1) False show ?thesis
      by (auto simp: merge_interval_def Let_def separated_append intervalEndMs_def)
  qed
  show "covered_instants (merge_interval merged i) = covered_instants merged \<union> instants i"
  proof (cases "merged = [] \<or> intervalEndMs (last merged) < oi_startedAtMs i")
    case True
    then show ?thesis by (auto simp: merge_interval_def)
  next
    case False
    then have u: "merged = butlast merged @ [last merged]" by simp
    then obtain us p where us: "merged = us @ [p]" by blast
    have "oi_startedAtMs p \<le> oi_startedAtMs i" "\<not> intervalEndMs p < oi_startedAtMs i" using assms(3) us False by auto
    moreover from this have "instants (p\<lparr>oi_durationMs := max (intervalEndMs p) (intervalEndMs i) - oi_startedAtMs p\<rparr>)
        = instants p \<union> instants i"
      using assms(2) by (auto simp: instants_def intervalEndMs_def)
    ultimately show ?thesis using us by (simp add: merge_interval_def Un_assoc)
  qed
  show "\<forall>u\<in>set (merge_interval merged i). oi_startedAtMs u \<le> oi_startedAtMs i"
    using assms(3) by (auto simp: merge_interval_def Let_def dest: in_set_butlastD)
qed

lemma merge_fold:
  assumes "separated merged" "\<forall>i\<in>set is. 0 \<le> oi_durationMs i" "sorted (map interval_order is)"
    "\<forall>u\<in>set merged. \<forall>i\<in>set is. oi_startedAtMs u \<le> oi_startedAtMs i"
  shows "separated (foldl merge_interval merged is) \<and>
     covered_instants (foldl merge_interval merged is) = covered_instants merged \<union> covered_instants is"
  using assms
proof (induction "is" arbitrary: merged)
  case Nil
  then show ?case by simp
next
  case (Cons i "is")
  have le: "\<forall>j\<in>set is. oi_startedAtMs i \<le> oi_startedAtMs j"
    using Cons.prems(3) by (fastforce simp: interval_order_def)
  have pre: "0 \<le> oi_durationMs i" "\<forall>u\<in>set merged. oi_startedAtMs u \<le> oi_startedAtMs i" using Cons.prems by auto
  note m = merge_interval_step [OF Cons.prems(1) pre]
  have "\<forall>u\<in>set (merge_interval merged i). \<forall>j\<in>set is. oi_startedAtMs u \<le> oi_startedAtMs j"
    using m(3) le by fastforce
  from Cons.IH [OF m(1) _ _ this] Cons.prems m(2) show ?case by auto
qed

lemma union_spec:
  "separated (iu_intervals (unionIntervals vs))"
  "covered_instants (iu_intervals (unionIntervals vs)) = covered_instants (List.map_filter isValidInterval vs)"
  "iu_invalidIntervals (unionIntervals vs) = filter (\<lambda>v. isValidInterval v = None) vs"
proof -
  let ?valid = "List.map_filter isValidInterval vs"
  have "\<forall>i\<in>set (sort_key interval_order ?valid). 0 \<le> oi_durationMs i"
    by (auto simp: map_filter_def dest: isValidInterval_nonneg)
  from merge_fold [OF _ this, of "[]"]
  show "separated (iu_intervals (unionIntervals vs))"
    "covered_instants (iu_intervals (unionIntervals vs)) = covered_instants ?valid"
    using covered_mset [of "sort_key interval_order ?valid" ?valid]
    by (simp_all add: unionIntervals_def split_valid_iff)
  show "iu_invalidIntervals (unionIntervals vs) = filter (\<lambda>v. isValidInterval v = None) vs"
    by (simp add: unionIntervals_def split_valid_iff)
qed

text \<open>A list in normal form is its own union.\<close>

lemma merge_separated: "separated (us @ is) \<Longrightarrow> foldl merge_interval us is = us @ is"
proof (induction "is" arbitrary: us)
  case Nil
  then show ?case by simp
next
  case (Cons i "is")
  have "us = [] \<or> intervalEndMs (last us) < oi_startedAtMs i"
    using Cons.prems by (cases us rule: rev_cases) (auto simp: separated_append)
  then have "merge_interval us i = us @ [i]" by (auto simp: merge_interval_def)
  with Cons.IH [of "us @ [i]"] Cons.prems show ?case by simp
qed

lemma separated_sorted: "separated is \<Longrightarrow> sorted (map interval_order is)"
proof (induction "is")
  case (Cons i "is")
  with separated_starts [of i "is"] show ?case by (force simp: interval_order_def less_eq_prod_def)
qed simp

lemma separated_nonneg: "separated is \<Longrightarrow> i \<in> set is \<Longrightarrow> 0 \<le> oi_durationMs i"
  by (induction "is") auto

lemma union_json:
  assumes "separated is"
  shows "unionIntervals (map interval_json is) = \<lparr>iu_intervals = is, iu_invalidIntervals = []\<rparr>"
proof -
  have "sort_key interval_order is = is"
    using separated_sorted [OF assms] by (simp add: sort_key_id_if_sorted)
  moreover have "split_valid (map interval_json is) = (is, [])"
    using separated_nonneg [OF assms] by (intro split_valid_json) blast
  ultimately show ?thesis using merge_separated [of "[]"] assms by (simp add: unionIntervals_def)
qed

section \<open>Intersection\<close>

lemma sweep_covered:
  "separated left \<Longrightarrow> separated right \<Longrightarrow> covered_instants (sweep left right) = covered_instants left \<inter> covered_instants right"
proof (induction left right rule: sweep.induct)
  case (3 l left r right)
  let ?here = "{max (oi_startedAtMs l) (oi_startedAtMs r) ..< min (intervalEndMs l) (intervalEndMs r)}"
  have here: "?here = instants l \<inter> instants r" by (auto simp: instants_def)
  have out: "covered_instants (sweep (l # left) (r # right)) = ?here \<union>
      covered_instants (if intervalEndMs l \<le> intervalEndMs r then sweep left (r # right) else sweep (l # left) right)"
    by (auto simp: Let_def instants_def intervalEndMs_def)
  have later: "instants i \<inter> covered_instants js = {}" if "\<forall>j\<in>set js. intervalEndMs i < oi_startedAtMs j" for i js
    using that by (force simp: covered_instants_def instants_def)
  show ?case
  proof (cases "intervalEndMs l \<le> intervalEndMs r")
    case True
    then have "\<forall>j\<in>set right. intervalEndMs l < oi_startedAtMs j" using "3.prems" by force
    from later [OF this] "3.IH"(1) True "3.prems" show ?thesis unfolding out here by auto
  next
    case False
    then have "\<forall>j\<in>set left. intervalEndMs r < oi_startedAtMs j" using "3.prems" by force
    from later [OF this] "3.IH"(2) False "3.prems" show ?thesis unfolding out here by auto
  qed
qed auto

lemma sweep_bounds:
  "i \<in> set (sweep left right) \<Longrightarrow>
     oi_startedAtMs i < intervalEndMs i \<and> (\<exists>l\<in>set left. \<exists>r\<in>set right. oi_startedAtMs l \<le> oi_startedAtMs i \<and> oi_startedAtMs r \<le> oi_startedAtMs i)"
proof (induction left right rule: sweep.induct)
  case (3 l left r right)
  then show ?case by (fastforce simp: Let_def intervalEndMs_def split: if_splits)
qed auto

lemma sweep_separated: "separated left \<Longrightarrow> separated right \<Longrightarrow> separated (sweep left right)"
proof (induction left right rule: sweep.induct)
  case (3 l left r right)
  let ?rest = "if intervalEndMs l \<le> intervalEndMs r then sweep left (r # right) else sweep (l # left) right"
  have rest: "separated ?rest" using 3 by simp
  have after: "min (intervalEndMs l) (intervalEndMs r) < oi_startedAtMs i" if "i \<in> set ?rest" for i
  proof (cases "intervalEndMs l \<le> intervalEndMs r")
    case True
    with that sweep_bounds [of i left "r # right"] "3.prems"(1) show ?thesis by force
  next
    case False
    with that sweep_bounds [of i "l # left" right] "3.prems"(2) show ?thesis by force
  qed
  show ?case using rest after by (auto simp: Let_def intervalEndMs_def)
qed auto

lemma intersection_spec:
  "separated (iu_intervals (intersectIntervalUnions xs ys))"
  "covered_instants (iu_intervals (intersectIntervalUnions xs ys)) =
     covered_instants (List.map_filter isValidInterval xs) \<inter> covered_instants (List.map_filter isValidInterval ys)"
  by (simp_all add: intersectIntervalUnions_def Let_def sweep_separated sweep_covered union_spec)

text \<open>
  The merged union and the two-pointer intersection compute exactly the union
  and the intersection of the sets of instants of their valid inputs, as non-negative intervals in
  ascending order with a gap between neighbours, so that summing the durations counts every instant
  once; and every value that is not an interval is reported.
\<close>

theorem interval_algebra_exact:
  "covered_instants (iu_intervals (unionIntervals xs)) = covered_instants (List.map_filter isValidInterval xs) \<and>
   covered_instants (iu_intervals (intersectIntervalUnions xs ys)) =
     covered_instants (List.map_filter isValidInterval xs) \<inter> covered_instants (List.map_filter isValidInterval ys) \<and>
   separated (iu_intervals (unionIntervals xs)) \<and> separated (iu_intervals (intersectIntervalUnions xs ys)) \<and>
   duration_sum (iu_intervals (unionIntervals xs)) = int (card (covered_instants (List.map_filter isValidInterval xs))) \<and>
   iu_invalidIntervals (intersectIntervalUnions xs ys) = filter (\<lambda>v. isValidInterval v = None) (xs @ ys)"
  by (simp add: union_spec intersection_spec duration_sum_card) (simp add: intersectIntervalUnions_def Let_def union_spec)

end
