(* ===== verification/ExecIdentity.thy ===== *)
theory ExecIdentity
  imports Steps Json
begin

text \<open>
  The identity of an execution in the event ledger (\<^verbatim>\<open>engine/execution-identity.ts\<close>): validation of
  an execution context, the correlation key and the display label. The key is the text of a
  JSON array, so the theory also has \<^verbatim>\<open>JSON.stringify\<close> on strings and \<^verbatim>\<open>encodeURIComponent\<close>
  (characters are the code units below 256), with the proof that both can be undone.
\<close>

section \<open>Prefix codes\<close>

text \<open>
  A code of characters whose words can be read back one at a time from the front of a text is
  injective on texts, also when a terminator that no word starts with follows.
\<close>

lemma prefix_code_inj:
  assumes step: "\<And>a b x y. f a @ x = f b @ y \<Longrightarrow> a = b \<and> x = (y :: 'b list)"
    and stop: "\<And>a x y. f a @ x \<noteq> t # y"
  shows "concat (map f xs) @ t # u = concat (map f ys) @ t # v \<Longrightarrow> xs = ys \<and> u = v"
proof (induction xs arbitrary: ys)
  case Nil
  show ?case
  proof (cases ys)
    case (Cons b bs)
    then show ?thesis using Nil stop [of b "concat (map f bs) @ t # v" u] by simp
  qed (use Nil in simp)
next
  case (Cons a as)
  show ?case
  proof (cases ys)
    case Nil
    then show ?thesis using Cons.prems stop [of a "concat (map f as) @ t # u" v] by simp
  next
    case ys: (Cons b bs)
    then have "f a @ concat (map f as) @ t # u = f b @ concat (map f bs) @ t # v" using Cons.prems by simp
    from step [OF this] Cons.IH [of bs] ys show ?thesis by simp
  qed
qed

text \<open>Hexadecimal digits, lower case in JSON and upper case in a URI (\<open>alpha\<close> is the code of digit ten).\<close>

definition hex_digit :: "nat \<Rightarrow> nat \<Rightarrow> char" where
  "hex_digit alpha n = char_of (if n < 10 then 48 + n else alpha + n - 10)"

definition hex_value :: "nat \<Rightarrow> char \<Rightarrow> nat" where
  "hex_value alpha c = (if of_char c < (58 :: nat) then of_char c - 48 else of_char c + 10 - alpha)"

lemma hex_value_digit [simp]:
  "n < 16 \<Longrightarrow> 58 \<le> alpha \<Longrightarrow> alpha < 240 \<Longrightarrow> hex_value alpha (hex_digit alpha n) = n"
  by (auto simp: hex_digit_def hex_value_def)

lemma char_code_256: "(of_char c :: nat) < 256"
  by (metis nat_of_char_less_256)

section \<open>Text of a JSON array of strings\<close>

definition json_escape :: "char \<Rightarrow> string" where
  "json_escape c =
     (if c = CHR 0x22 then [CHR 0x5C, CHR 0x22]
      else if c = CHR 0x5C then [CHR 0x5C, CHR 0x5C]
      else if c = CHR 0x08 then [CHR 0x5C, CHR ''b'']
      else if c = CHR 0x09 then [CHR 0x5C, CHR ''t'']
      else if c = CHR 0x0A then [CHR 0x5C, CHR ''n'']
      else if c = CHR 0x0C then [CHR 0x5C, CHR ''f'']
      else if c = CHR 0x0D then [CHR 0x5C, CHR ''r'']
      else if of_char c < (32 :: nat)
      then CHR 0x5C # ''u00'' @ [hex_digit 97 (of_char c div 16), hex_digit 97 (of_char c mod 16)]
      else [c])"

definition json_quote :: "string \<Rightarrow> string" where
  "json_quote s = CHR 0x22 # concat (map json_escape s) @ [CHR 0x22]"

text \<open>\<open>json_strings parts\<close> is \<^verbatim>\<open>JSON.stringify(parts)\<close> for an array of strings.\<close>

definition json_strings :: "string list \<Rightarrow> string" where
  "json_strings parts = CHR ''['' # join '','' (map json_quote parts) @ '']''"

definition json_unescape :: "string \<Rightarrow> char \<times> string" where
  "json_unescape s =
     (let c = hd s; d = s ! 1 in
      if c \<noteq> CHR 0x5C then (c, tl s)
      else if d = CHR ''u'' then (char_of (16 * hex_value 97 (s ! 4) + hex_value 97 (s ! 5)), drop 6 s)
      else if d = CHR ''b'' then (CHR 0x08, drop 2 s)
      else if d = CHR ''t'' then (CHR 0x09, drop 2 s)
      else if d = CHR ''n'' then (CHR 0x0A, drop 2 s)
      else if d = CHR ''f'' then (CHR 0x0C, drop 2 s)
      else if d = CHR ''r'' then (CHR 0x0D, drop 2 s)
      else (d, drop 2 s))"

lemma json_unescape_escape: "json_unescape (json_escape c @ x) = (c, x)"
proof -
  have "hex_value 97 (hex_digit 97 (of_char c div 16)) * 16 + hex_value 97 (hex_digit 97 (of_char c mod 16)) = of_char c"
    using char_code_256 [of c] by (simp add: div_less_iff_less_mult)
  then show ?thesis
    by (simp add: json_escape_def json_unescape_def Let_def mult.commute)
qed

lemma json_escape_step: "json_escape a @ x = json_escape b @ y \<Longrightarrow> a = b \<and> x = y"
  by (metis json_unescape_escape prod.inject)

lemma json_escape_stop: "json_escape a @ x \<noteq> CHR 0x22 # y"
  by (simp add: json_escape_def)

lemma json_quote_inj: "json_quote s @ x = json_quote t @ y \<Longrightarrow> s = t \<and> x = y"
  by (rule prefix_code_inj [OF json_escape_step json_escape_stop]) (simp_all add: json_quote_def)

lemma json_parts_Cons:
  "join '','' (map json_quote (z # zs)) @ '']'' =
     json_quote z @ (if zs = [] then '']'' else '','' @ join '','' (map json_quote zs) @ '']'')"
  by (cases zs) simp_all

lemma json_parts_inj:
  "join '','' (map json_quote xs) @ '']'' = join '','' (map json_quote ys) @ '']'' \<Longrightarrow> xs = ys"
proof (induction xs arbitrary: ys)
  case Nil
  show ?case
  proof (cases ys)
    case (Cons y ys')
    show ?thesis using Nil unfolding Cons json_parts_Cons by (simp add: json_quote_def)
  qed simp
next
  case (Cons x xs)
  show ?case
  proof (cases ys)
    case Nil
    show ?thesis using Cons.prems unfolding Nil json_parts_Cons by (simp add: json_quote_def)
  next
    case ys: (Cons y ys')
    from json_quote_inj [OF Cons.prems [unfolded ys json_parts_Cons]] Cons.IH [of ys'] ys
    show ?thesis by (auto split: if_splits)
  qed
qed

lemma json_strings_inj [simp]: "json_strings xs = json_strings ys \<longleftrightarrow> xs = ys"
  using json_parts_inj [of xs ys] by (auto simp: json_strings_def)

section \<open>Percent encoding\<close>

definition uri_unreserved :: "char \<Rightarrow> bool" where
  "uri_unreserved c =
     (is_digit c \<or> (65 \<le> (of_char c :: nat) \<and> (of_char c :: nat) \<le> 90) \<or>
      (97 \<le> (of_char c :: nat) \<and> (of_char c :: nat) \<le> 122) \<or> c \<in> set ''-_.!~*()'' \<or> c = CHR 0x27)"

definition percent_byte :: "nat \<Rightarrow> string" where
  "percent_byte n = [CHR ''%'', hex_digit 65 (n div 16), hex_digit 65 (n mod 16)]"

definition uri_encode :: "char \<Rightarrow> string" where
  "uri_encode c =
     (if uri_unreserved c then [c]
      else if of_char c < (128 :: nat) then percent_byte (of_char c)
      else percent_byte (192 + of_char c div 64) @ percent_byte (128 + of_char c mod 64))"

definition escapeLabelComponent :: "string \<Rightarrow> string" where
  "escapeLabelComponent s = concat (map uri_encode s)"

definition byte_at :: "nat \<Rightarrow> string \<Rightarrow> nat" where
  "byte_at i s = 16 * hex_value 65 (s ! Suc i) + hex_value 65 (s ! Suc (Suc i))"

definition uri_decode :: "string \<Rightarrow> char \<times> string" where
  "uri_decode s =
     (if hd s \<noteq> CHR ''%'' then (hd s, tl s)
      else if byte_at 0 s < 128 then (char_of (byte_at 0 s), drop 3 s)
      else (char_of (64 * (byte_at 0 s - 192) + (byte_at 3 s - 128)), drop 6 s))"

lemma byte_at_percent [simp]: "n < 256 \<Longrightarrow> 16 * hex_value 65 (hex_digit 65 (n div 16)) + hex_value 65 (hex_digit 65 (n mod 16)) = n"
  by (simp add: div_less_iff_less_mult)

lemma uri_decode_encode: "uri_decode (uri_encode c @ x) = (c, x)"
proof (cases "uri_unreserved c")
  case True
  moreover have "\<not> uri_unreserved (CHR ''%'')" by (simp add: uri_unreserved_def is_digit_def)
  ultimately show ?thesis by (auto simp: uri_encode_def uri_decode_def)
next
  case False
  show ?thesis
  proof (cases "of_char c < (128 :: nat)")
    case True
    with False show ?thesis
      by (simp add: uri_encode_def uri_decode_def percent_byte_def byte_at_def)
  next
    case big: False
    have "(of_char c :: nat) div 64 < 4" using char_code_256 [of c] by (simp add: div_less_iff_less_mult)
    then have b: "(192 + of_char c div 64 :: nat) < 256" "(128 + of_char c mod 64 :: nat) < 256" by simp_all
    note byte_at_percent [OF b(1)] byte_at_percent [OF b(2)]
    with False big show ?thesis
      by (simp add: uri_encode_def uri_decode_def percent_byte_def byte_at_def)
  qed
qed

lemma uri_encode_step: "uri_encode a @ x = uri_encode b @ y \<Longrightarrow> a = b \<and> x = y"
  by (metis uri_decode_encode prod.inject)

lemma uri_encode_stop: "uri_encode a @ x \<noteq> CHR ''/'' # y"
  by (auto simp: uri_encode_def percent_byte_def uri_unreserved_def is_digit_def)

lemma label_components_inj:
  "escapeLabelComponent g @ ''/'' @ escapeLabelComponent m = escapeLabelComponent g' @ ''/'' @ escapeLabelComponent m'
     \<longleftrightarrow> g = g' \<and> m = m'"
proof
  assume eq: "escapeLabelComponent g @ ''/'' @ escapeLabelComponent m = escapeLabelComponent g' @ ''/'' @ escapeLabelComponent m'"
  have "g = g' \<and> escapeLabelComponent m = escapeLabelComponent m'"
    by (rule prefix_code_inj [OF uri_encode_step uri_encode_stop]) (use eq in \<open>simp_all add: escapeLabelComponent_def\<close>)
  moreover have "m = m' \<and> ([] :: string) = []" if "escapeLabelComponent m = escapeLabelComponent m'"
    by (rule prefix_code_inj [OF uri_encode_step uri_encode_stop]) (use that in \<open>simp_all add: escapeLabelComponent_def\<close>)
  ultimately show "g = g' \<and> m = m'" by blast
qed simp

section \<open>Execution identity\<close>

record execution_scope =
  es_featureId :: string
  es_runId :: string

datatype execution_subject =
    LifecycleStep step_name
  | ConfiguredMember string string

record execution_context =
  ec_executionId :: string
  ec_subject :: execution_subject

record resolved_identity =
  ri_correlationKey :: string
  ri_subjectLabel :: string
  ri_metricLabel :: string

definition lifecycleStepNames :: "string list" where
  "lifecycleStepNames =
     map sd_name ALL_STEPS @ [''bootstrap'', ''assess'', ''remediate'', ''attribution_verify'']"

definition isStepName :: "jval \<Rightarrow> step_name option" where
  "isStepName v = (case v of JStr s \<Rightarrow> if s \<in> set lifecycleStepNames then Some s else None | _ \<Rightarrow> None)"

definition nonEmptyStringOf :: "jval option \<Rightarrow> string option" where
  "nonEmptyStringOf v = (case v of Some (JStr s) \<Rightarrow> if s \<noteq> [] then Some s else None | _ \<Rightarrow> None)"

definition isExecutionScope :: "execution_scope \<Rightarrow> bool" where
  "isExecutionScope s = (es_featureId s \<noteq> [] \<and> es_runId s \<noteq> [])"

text \<open>The two type guards return the value they narrow to.\<close>

definition isExecutionSubject :: "jval \<Rightarrow> execution_subject option" where
  "isExecutionSubject v =
     (case jget v ''kind'' of
        Some (JStr kind) \<Rightarrow>
          if kind = ''lifecycle-step''
          then map_option LifecycleStep (Option.bind (jget v ''step'') isStepName)
          else if kind = ''configured-member''
          then (case (nonEmptyStringOf (jget v ''parentGroup''), nonEmptyStringOf (jget v ''member'')) of
                  (Some g, Some m) \<Rightarrow> Some (ConfiguredMember g m) | _ \<Rightarrow> None)
          else None
      | _ \<Rightarrow> None)"

definition isExecutionContext :: "jval \<Rightarrow> execution_context option" where
  "isExecutionContext v =
     (case nonEmptyStringOf (jget v ''executionId'') of
        None \<Rightarrow> None
      | Some eid \<Rightarrow> map_option (\<lambda>sub. \<lparr>ec_executionId = eid, ec_subject = sub\<rparr>)
          (Option.bind (jget v ''subject'') isExecutionSubject))"

definition correlationKey :: "string \<Rightarrow> string list \<Rightarrow> string" where
  "correlationKey namespace parts = namespace @ CHR 0x00 # json_strings parts"

fun subjectKeyParts :: "execution_subject \<Rightarrow> string list" where
  "subjectKeyParts (LifecycleStep step) = [''lifecycle-step'', step]"
| "subjectKeyParts (ConfiguredMember g m) = [''configured-member'', g, m]"

fun subjectLabelFor :: "execution_subject \<Rightarrow> string" where
  "subjectLabelFor (LifecycleStep step) = step"
| "subjectLabelFor (ConfiguredMember g m) =
     ''configured:'' @ escapeLabelComponent g @ ''/'' @ escapeLabelComponent m"

definition resolveLegacyExecutionIdentity :: "execution_scope \<Rightarrow> string \<Rightarrow> resolved_identity" where
  "resolveLegacyExecutionIdentity scope legacyStep =
     \<lparr>ri_correlationKey = correlationKey ''legacy'' [es_featureId scope, es_runId scope, legacyStep],
      ri_subjectLabel = legacyStep, ri_metricLabel = legacyStep\<rparr>"

definition resolveExecutionIdentity ::
  "execution_scope \<Rightarrow> string \<Rightarrow> jval option \<Rightarrow> resolved_identity option" where
  "resolveExecutionIdentity scope legacyStep executionContext =
     (if \<not> isExecutionScope scope \<or> legacyStep = [] then None
      else case executionContext of
        None \<Rightarrow> Some (resolveLegacyExecutionIdentity scope legacyStep)
      | Some v \<Rightarrow>
          (case isExecutionContext v of
             None \<Rightarrow> None
           | Some ctx \<Rightarrow>
               if (case ec_subject ctx of LifecycleStep step \<Rightarrow> step \<noteq> legacyStep | _ \<Rightarrow> False) then None
               else Some \<lparr>ri_correlationKey = correlationKey ''execution''
                            ([es_featureId scope, es_runId scope, ec_executionId ctx] @ subjectKeyParts (ec_subject ctx)),
                          ri_subjectLabel = subjectLabelFor (ec_subject ctx),
                          ri_metricLabel = subjectLabelFor (ec_subject ctx)\<rparr>))"

section \<open>Two records share a key exactly when they name the same execution\<close>

lemma lifecycleStepNames_ok:
  "lifecycleStepNames = map sd_name ALL_STEPS @ map sd_name [oob_bootstrap, oob_assess, oob_remediate, oob_attribution_verify]"
  "dom OUT_OF_BAND_STEPS = set [''bootstrap'', ''assess'', ''remediate'', ''attribution_verify'']"
  by (auto simp: lifecycleStepNames_def OUT_OF_BAND_STEPS_def oob_bootstrap_def oob_assess_def oob_remediate_def
      oob_attribution_verify_def step_literal_def)

lemma correlationKey_inj: "correlationKey n xs = correlationKey n ys \<longleftrightarrow> xs = ys"
  by (simp add: correlationKey_def)

lemma correlationKey_namespaces: "correlationKey ''legacy'' xs \<noteq> correlationKey ''execution'' ys"
  by (simp add: correlationKey_def)

lemma subjectKeyParts_inj: "subjectKeyParts s = subjectKeyParts t \<longleftrightarrow> s = t"
  by (cases s; cases t) auto

text \<open>
  The identity a record denotes: the scope with the bare step for a context-free record, or with the
  validated context.
\<close>

definition denoted_execution :: "string \<Rightarrow> jval option \<Rightarrow> (string + execution_context) option" where
  "denoted_execution legacyStep executionContext =
     (case executionContext of None \<Rightarrow> Some (Inl legacyStep) | Some v \<Rightarrow> map_option Inr (isExecutionContext v))"

lemma resolve_SomeD:
  assumes "resolveExecutionIdentity scope step ctx = Some r"
  obtains (legacy) "ctx = None" "r = resolveLegacyExecutionIdentity scope step" "denoted_execution step ctx = Some (Inl step)"
  | (correlated) c where "denoted_execution step ctx = Some (Inr c)"
      "ri_correlationKey r = correlationKey ''execution''
         ([es_featureId scope, es_runId scope, ec_executionId c] @ subjectKeyParts (ec_subject c))"
      "ri_metricLabel r = subjectLabelFor (ec_subject c)"
  using assms by (auto simp: resolveExecutionIdentity_def denoted_execution_def split: option.splits if_splits)

text \<open>
  Two event records whose identities resolve share a correlation key exactly
  when they have the same feature and run and denote the same execution: the same bare step, both
  being context-free, or the same execution id and subject. A context-free record never joins an
  execution named by a context. Two configured members share a metric label only if they are the
  same member of the same group.
\<close>

theorem execution_identity_exact:
  assumes "resolveExecutionIdentity scope step ctx = Some a"
    and "resolveExecutionIdentity scope' step' ctx' = Some b"
  shows "(ri_correlationKey a = ri_correlationKey b \<longleftrightarrow>
       es_featureId scope = es_featureId scope' \<and> es_runId scope = es_runId scope' \<and>
       denoted_execution step ctx = denoted_execution step' ctx') \<and>
     (\<forall>c d g m g' m'. denoted_execution step ctx = Some (Inr c) \<and> denoted_execution step' ctx' = Some (Inr d) \<and>
        ec_subject c = ConfiguredMember g m \<and> ec_subject d = ConfiguredMember g' m' \<longrightarrow>
        (ri_metricLabel a = ri_metricLabel b \<longleftrightarrow> g = g' \<and> m = m'))"
proof
  have ext: "c = d \<longleftrightarrow> ec_executionId c = ec_executionId d \<and> ec_subject c = ec_subject d" for c d :: execution_context
    by auto
  show "ri_correlationKey a = ri_correlationKey b \<longleftrightarrow>
       es_featureId scope = es_featureId scope' \<and> es_runId scope = es_runId scope' \<and>
       denoted_execution step ctx = denoted_execution step' ctx'"
    using assms
    by (elim resolve_SomeD)
       (auto simp: resolveLegacyExecutionIdentity_def correlationKey_inj correlationKey_namespaces
          correlationKey_namespaces [symmetric] subjectKeyParts_inj ext)
next
  show "\<forall>c d g m g' m'. denoted_execution step ctx = Some (Inr c) \<and> denoted_execution step' ctx' = Some (Inr d) \<and>
        ec_subject c = ConfiguredMember g m \<and> ec_subject d = ConfiguredMember g' m' \<longrightarrow>
        (ri_metricLabel a = ri_metricLabel b \<longleftrightarrow> g = g' \<and> m = m')"
    using assms by (elim resolve_SomeD) (auto simp: label_components_inj dest!: iffD1 [OF label_components_inj, simplified])
qed

definition member_context :: "string \<Rightarrow> jval" where
  "member_context m = JObj [(''executionId'', JStr ''e1''),
     (''subject'', JObj [(''kind'', JStr ''configured-member''), (''parentGroup'', JStr ''a/b''), (''member'', JStr m)])]"

theorem execution_identity_exact_witness:
  "\<exists>a b. resolveExecutionIdentity \<lparr>es_featureId = ''f'', es_runId = ''r''\<rparr> ''build'' (Some (member_context ''m'')) = Some a \<and>
     resolveExecutionIdentity \<lparr>es_featureId = ''f'', es_runId = ''r''\<rparr> ''build'' None = Some b \<and>
     ri_correlationKey a \<noteq> ri_correlationKey b"
proof -
  let ?s = "\<lparr>es_featureId = ''f'', es_runId = ''r''\<rparr>"
  obtain a where a: "resolveExecutionIdentity ?s ''build'' (Some (member_context ''m'')) = Some a"
    by (simp add: resolveExecutionIdentity_def isExecutionScope_def isExecutionContext_def isExecutionSubject_def
        nonEmptyStringOf_def member_context_def)
  obtain b where b: "resolveExecutionIdentity ?s ''build'' None = Some b"
    by (simp add: resolveExecutionIdentity_def isExecutionScope_def)
  have "denoted_execution ''build'' (Some (member_context ''m'')) \<noteq> denoted_execution ''build'' None"
    by (simp add: denoted_execution_def split: option.splits)
  with execution_identity_exact [OF a b] a b show ?thesis by blast
qed

end
