(* ===== verification/Timing.thy ===== *)
theory Timing
  imports Intervals ExecIdentity "HOL-Library.AList" "HOL-Library.List_Lexorder" "HOL-Library.Char_ord"
begin

text \<open>
  The timing rollup of a feature (\<^verbatim>\<open>engine/timing-rollup.ts\<close>): reading the two event ledgers,
  collecting active and provider intervals while pairing every execution's start with its terminal
  record, and the verdict measured, partial or unavailable. A whole number of milliseconds is its own
  \<^verbatim>\<open>Math.round\<close>.
\<close>

section \<open>Reading a ledger\<close>

text \<open>
  A ledger file is absent, unreadable or its lines; a line is blank, broken or the value it parses to.
\<close>

datatype ledger_line = BlankLine | BrokenLine | JsonLine jval

datatype ledger_file = LedgerAbsent | LedgerUnreadable | LedgerLines "ledger_line list"

fun is_object_type :: "jval \<Rightarrow> bool" where
  "is_object_type (JObj _) = True"
| "is_object_type (JArr _) = True"
| "is_object_type _ = False"

fun parseLedger :: "ledger_line list \<Rightarrow> jval list option" where
  "parseLedger [] = Some []"
| "parseLedger (BlankLine # ls) = parseLedger ls"
| "parseLedger (BrokenLine # ls) = None"
| "parseLedger (JsonLine v # ls) = (if is_object_type v then map_option (Cons v) (parseLedger ls) else None)"

fun readTimingLedger :: "ledger_file \<Rightarrow> jval list option" where
  "readTimingLedger LedgerAbsent = Some []"
| "readTimingLedger LedgerUnreadable = None"
| "readTimingLedger (LedgerLines ls) = parseLedger ls"

section \<open>Evidence\<close>

datatype exec_kind = StepExecution | ParallelExecution

fun kind_name :: "exec_kind \<Rightarrow> string" where
  "kind_name StepExecution = ''step''"
| "kind_name ParallelExecution = ''parallel''"

record timing_evidence =
  te_activeIntervals :: "jval list"
  te_providerIntervals :: "jval list"
  te_openExecutions :: "(string \<times> nat) list"
  te_closedParallelExecutions :: "string list"
  te_activeEvidenceIncomplete :: bool
  te_providerEvidenceIncomplete :: bool

definition timingRollupScope :: execution_scope where
  "timingRollupScope = \<lparr>es_featureId = ''timing-rollup'', es_runId = ''persisted-ledger''\<rparr>"

definition isRetiredBuiltInStep :: "string \<Rightarrow> bool" where
  "isRetiredBuiltInStep name = (name = ''coverage_binding'')"

definition retiredLifecycleStepExecutionKey :: "jval \<Rightarrow> exec_kind \<Rightarrow> string \<Rightarrow> string option" where
  "retiredLifecycleStepExecutionKey event kind step =
     (case jget event ''executionContext'' of
        Some (JObj ctx) \<Rightarrow>
          (case (nonEmptyStringOf (jget (JObj ctx) ''executionId''), jget (JObj ctx) ''subject'') of
             (Some eid, Some (JObj subject)) \<Rightarrow>
               if jstring (JObj subject) ''kind'' \<noteq> Some ''lifecycle-step'' \<or>
                  jstring (JObj subject) ''step'' \<noteq> Some step \<or> \<not> isRetiredBuiltInStep step then None
               else Some (kind_name kind @ '':execution'' @ CHR 0x00 #
                 json_strings [es_featureId timingRollupScope, es_runId timingRollupScope, eid, ''lifecycle-step'', step])
           | _ \<Rightarrow> None)
      | _ \<Rightarrow> None)"

definition executionKey :: "jval \<Rightarrow> exec_kind \<Rightarrow> string \<Rightarrow> string option" where
  "executionKey event kind step =
     (case resolveExecutionIdentity timingRollupScope step (jget event ''executionContext'') of
        None \<Rightarrow> retiredLifecycleStepExecutionKey event kind step
      | Some identity \<Rightarrow>
          Some (kind_name kind @ '':'' @
            (if jget event ''executionContext'' = None then step else ri_correlationKey identity)))"

definition event_type :: "jval \<Rightarrow> string list \<Rightarrow> bool" where
  "event_type event types = (case jstring event ''type'' of Some t \<Rightarrow> t \<in> set types | None \<Rightarrow> False)"

definition start_kind :: "jval \<Rightarrow> exec_kind option" where
  "start_kind event =
     (if event_type event [''step_started''] then Some StepExecution
      else if event_type event [''parallel_started''] then Some ParallelExecution else None)"

definition is_open :: "timing_evidence \<Rightarrow> string \<Rightarrow> bool" where
  "is_open evidence key = (map_of (te_openExecutions evidence) key \<noteq> None)"

definition refusal_closes_step :: "jval \<Rightarrow> timing_evidence \<Rightarrow> bool" where
  "refusal_closes_step event evidence =
     (event_type event [''step_refused''] \<and>
      (case jstring event ''step'' of
         None \<Rightarrow> False
       | Some step \<Rightarrow>
           (case executionKey event StepExecution step of Some key \<Rightarrow> is_open evidence key | None \<Rightarrow> False) \<or>
           jhas event ''activeInterval''))"

definition terminal_kind :: "jval \<Rightarrow> timing_evidence \<Rightarrow> exec_kind option" where
  "terminal_kind event evidence =
     (if event_type event [''step_completed'', ''step_failed'', ''step_interrupted''] \<or> refusal_closes_step event evidence
      then Some StepExecution
      else if event_type event [''parallel_completed''] \<or>
        (event_type event [''parallel_failure''] \<and> jget event ''terminal'' \<noteq> Some (JBool False))
      then Some ParallelExecution
      else None)"

definition open_count :: "timing_evidence \<Rightarrow> string \<Rightarrow> nat" where
  "open_count evidence key = (case map_of (te_openExecutions evidence) key of Some n \<Rightarrow> n | None \<Rightarrow> 0)"

definition record_start :: "jval \<Rightarrow> timing_evidence \<Rightarrow> timing_evidence" where
  "record_start event evidence =
     (case (start_kind event, jstring event ''step'') of
        (Some kind, Some step) \<Rightarrow>
          if step = [] then evidence
          else (case executionKey event kind step of
             None \<Rightarrow> evidence\<lparr>te_activeEvidenceIncomplete := True\<rparr>
           | Some key \<Rightarrow>
               evidence\<lparr>te_closedParallelExecutions :=
                   (if kind = ParallelExecution then filter (\<lambda>k. k \<noteq> key) (te_closedParallelExecutions evidence)
                    else te_closedParallelExecutions evidence),
                 te_openExecutions :=
                   AList.update key (Suc (open_count evidence key)) (te_openExecutions evidence)\<rparr>)
      | _ \<Rightarrow> evidence)"

definition close_execution :: "exec_kind \<Rightarrow> string \<Rightarrow> bool \<Rightarrow> timing_evidence \<Rightarrow> timing_evidence" where
  "close_execution kind key hasActiveInterval evidence =
     (let count = open_count evidence key
      in evidence\<lparr>te_openExecutions :=
             (if count > 1 then AList.update key (count - 1) (te_openExecutions evidence)
              else AList.delete key (te_openExecutions evidence)),
           te_closedParallelExecutions :=
             (if kind = ParallelExecution \<and> count \<le> 1 \<and> (count > 0 \<or> hasActiveInterval)
              then List.insert key (te_closedParallelExecutions evidence)
              else te_closedParallelExecutions evidence)\<rparr>)"

definition record_terminal :: "jval \<Rightarrow> exec_kind \<Rightarrow> timing_evidence \<Rightarrow> timing_evidence" where
  "record_terminal event kind evidence =
     (let step = jstring event ''step'';
          key = Option.bind step (executionKey event kind);
          keyOpen = (case key of Some k \<Rightarrow> is_open evidence k | None \<Rightarrow> False);
          closesKnownParallelExecution = (kind = ParallelExecution \<and> \<not> keyOpen \<and>
            (case key of Some k \<Rightarrow> k \<in> set (te_closedParallelExecutions evidence) | None \<Rightarrow> False));
          hasActiveInterval = jhas event ''activeInterval'';
          hasCorrelatedContext = jhas event ''executionContext'';
          incomplete = (step = None \<or> step = Some [] \<or> key = None \<or>
            (\<not> hasActiveInterval \<and> \<not> closesKnownParallelExecution) \<or>
            (hasCorrelatedContext \<and> \<not> keyOpen \<and> \<not> closesKnownParallelExecution));
          marked = evidence\<lparr>te_activeEvidenceIncomplete := te_activeEvidenceIncomplete evidence \<or> incomplete\<rparr>;
          closed = (case key of Some k \<Rightarrow> close_execution kind k hasActiveInterval marked | None \<Rightarrow> marked)
      in (case jget event ''activeInterval'' of
            Some v \<Rightarrow> closed\<lparr>te_activeIntervals := te_activeIntervals closed @ [v]\<rparr>
          | None \<Rightarrow> closed))"

definition collectExecutionEvidence :: "jval \<Rightarrow> timing_evidence \<Rightarrow> exec_kind option \<times> timing_evidence" where
  "collectExecutionEvidence event evidence =
     (let terminalKind = terminal_kind event evidence;
          started = record_start event evidence
      in (terminalKind, (case terminalKind of Some kind \<Rightarrow> record_terminal event kind started | None \<Rightarrow> started)))"

definition collectProviderEvidence :: "jval \<Rightarrow> exec_kind option \<Rightarrow> timing_evidence \<Rightarrow> timing_evidence" where
  "collectProviderEvidence event terminalKind evidence =
     (let attempt = event_type event [''provider_attempt''];
          mayCarryProviderEvidence = (terminalKind \<noteq> None \<or> attempt);
          observed = jget event ''observedIntervals'';
          gathered =
            (case observed of
               None \<Rightarrow> evidence
             | Some (JArr vs) \<Rightarrow>
                 if mayCarryProviderEvidence
                 then evidence\<lparr>te_providerIntervals := te_providerIntervals evidence @ vs\<rparr> else evidence
             | Some _ \<Rightarrow>
                 if mayCarryProviderEvidence then evidence\<lparr>te_providerEvidenceIncomplete := True\<rparr> else evidence)
      in if attempt \<and> jget event ''invoked'' = Some (JBool True) \<and>
            (case observed of Some (JArr vs) \<Rightarrow> vs = [] | _ \<Rightarrow> True)
         then gathered\<lparr>te_providerEvidenceIncomplete := True\<rparr> else gathered)"

definition no_evidence :: timing_evidence where
  "no_evidence = \<lparr>te_activeIntervals = [], te_providerIntervals = [], te_openExecutions = [],
     te_closedParallelExecutions = [], te_activeEvidenceIncomplete = False, te_providerEvidenceIncomplete = False\<rparr>"

definition collect_event :: "timing_evidence \<Rightarrow> jval \<Rightarrow> timing_evidence" where
  "collect_event evidence event =
     (let (terminalKind, evidence') = collectExecutionEvidence event evidence
      in collectProviderEvidence event terminalKind evidence')"

definition collectTimingEvidence :: "jval list \<Rightarrow> timing_evidence" where
  "collectTimingEvidence events = foldl collect_event no_evidence events"

section \<open>The verdict\<close>

datatype timing_rollup =
    Measured int int int
  | PartialTiming "int option" "string option"
  | Unavailable

definition open_reason :: "timing_evidence \<Rightarrow> string" where
  "open_reason evidence = ''open-executions:'' @ join '','' (sort (map fst (te_openExecutions evidence)))"

definition calculateTimingRollup :: "timing_evidence \<Rightarrow> timing_rollup" where
  "calculateTimingRollup evidence =
     (let activeUnion = unionIntervals (te_activeIntervals evidence);
          providerUnion = unionIntervals (te_providerIntervals evidence);
          providerWithinActive = intersectIntervalUnions
            (map interval_json (iu_intervals activeUnion)) (map interval_json (iu_intervals providerUnion));
          activeIncomplete = (te_activeEvidenceIncomplete evidence \<or> iu_invalidIntervals activeUnion \<noteq> []);
          providerIncomplete = (te_providerEvidenceIncomplete evidence \<or> iu_invalidIntervals providerUnion \<noteq> []);
          providerDurationMs = duration_sum (iu_intervals providerUnion);
          providerWithinActiveDurationMs = duration_sum (iu_intervals providerWithinActive);
          activeMs = duration_sum (iu_intervals activeUnion)
      in if iu_intervals activeUnion = [] then
           (if te_openExecutions evidence \<noteq> [] then PartialTiming None (Some (open_reason evidence))
            else if activeIncomplete then PartialTiming None (Some ''empty-active-union'')
            else Unavailable)
         else if activeIncomplete then PartialTiming None (Some ''active-evidence-incomplete'')
         else if te_openExecutions evidence \<noteq> [] then PartialTiming None (Some (open_reason evidence))
         else if providerDurationMs \<noteq> providerWithinActiveDurationMs
         then PartialTiming None (Some ''provider-outside-active-union'')
         else if providerIncomplete then PartialTiming (Some activeMs) (Some ''provider-evidence-incomplete'')
         else Measured activeMs providerWithinActiveDurationMs (activeMs - providerWithinActiveDurationMs))"

definition computeTimingRollup :: "ledger_file \<Rightarrow> ledger_file \<Rightarrow> timing_rollup" where
  "computeTimingRollup eventsFile pipelineFile =
     (case (readTimingLedger eventsFile, readTimingLedger pipelineFile) of
        (Some events, Some pipelineEvents) \<Rightarrow> calculateTimingRollup (collectTimingEvidence (events @ pipelineEvents))
      | _ \<Rightarrow> PartialTiming None None)"

section \<open>A measured rollup counts instants\<close>

definition valid_intervals :: "jval list \<Rightarrow> observed_interval list" where
  "valid_intervals vs = List.map_filter isValidInterval vs"

lemma merge_nonempty: "foldl merge_interval us is = [] \<longleftrightarrow> us = [] \<and> is = []"
proof (induction "is" arbitrary: us)
  case (Cons i "is")
  have "merge_interval us i \<noteq> []" by (auto simp: merge_interval_def Let_def)
  with Cons.IH [of "merge_interval us i"] show ?case by simp
qed simp

lemma sort_key_Nil_iff: "sort_key f xs = [] \<longleftrightarrow> xs = []"
  by (metis length_0_conv length_sort)

lemma union_nonempty: "iu_intervals (unionIntervals vs) = [] \<longleftrightarrow> valid_intervals vs = []"
  by (simp add: unionIntervals_def split_valid_iff merge_nonempty sort_key_Nil_iff valid_intervals_def)

text \<open>What \<^verbatim>\<open>computeTimingRollup\<close> measures, on the sets of instants of the active and provider intervals.\<close>

definition active_instants :: "timing_evidence \<Rightarrow> int set" where
  "active_instants evidence = covered_instants (valid_intervals (te_activeIntervals evidence))"

definition provider_instants :: "timing_evidence \<Rightarrow> int set" where
  "provider_instants evidence = covered_instants (valid_intervals (te_providerIntervals evidence))"

definition complete_evidence :: "timing_evidence \<Rightarrow> bool" where
  "complete_evidence evidence =
     (\<not> te_activeEvidenceIncomplete evidence \<and> \<not> te_providerEvidenceIncomplete evidence \<and>
      te_openExecutions evidence = [] \<and> te_activeIntervals evidence \<noteq> [] \<and>
      list_all (\<lambda>v. isValidInterval v \<noteq> None) (te_activeIntervals evidence @ te_providerIntervals evidence))"

lemma union_durations: "duration_sum (iu_intervals (unionIntervals vs)) = int (card (covered_instants (valid_intervals vs)))"
  by (simp add: duration_sum_card union_spec valid_intervals_def)

lemma within_durations:
  "duration_sum (iu_intervals (intersectIntervalUnions
       (map interval_json (iu_intervals (unionIntervals vs))) (map interval_json (iu_intervals (unionIntervals ws)))))
     = int (card (covered_instants (valid_intervals vs) \<inter> covered_instants (valid_intervals ws)))"
  using union_json [OF union_spec(1)]
  by (simp add: duration_sum_card intersectIntervalUnions_def Let_def sweep_separated sweep_covered union_spec
      valid_intervals_def)

lemma card_inter_eq: "finite P \<Longrightarrow> card P = card (A \<inter> P) \<longleftrightarrow> P \<subseteq> A"
  by (metis Int_lower2 card_subset_eq inf.absorb_iff2)

lemma valid_nonempty: "list_all (\<lambda>v. isValidInterval v \<noteq> None) vs \<Longrightarrow> valid_intervals vs = [] \<longleftrightarrow> vs = []"
  by (cases vs) (auto simp: valid_intervals_def map_filter_simps)

lemma calculated_exact:
  "calculateTimingRollup evidence = Measured activeMs providerMs noProviderMs \<longleftrightarrow>
     complete_evidence evidence \<and> provider_instants evidence \<subseteq> active_instants evidence \<and>
     activeMs = int (card (active_instants evidence)) \<and>
     providerMs = int (card (provider_instants evidence)) \<and>
     noProviderMs = int (card (active_instants evidence - provider_instants evidence))"
proof -
  let ?A = "active_instants evidence" and ?P = "provider_instants evidence"
  have fin: "finite ?A" "finite ?P" by (simp_all add: active_instants_def provider_instants_def)
  have sub: "card ?P = card (?A \<inter> ?P) \<longleftrightarrow> ?P \<subseteq> ?A" using fin(2) by (rule card_inter_eq)
  have diff: "int (card ?A) - int (card ?P) = int (card (?A - ?P))" if "?P \<subseteq> ?A"
    using that fin by (simp add: card_Diff_subset card_mono of_nat_diff)
  have inter: "card (?A \<inter> ?P) = card ?P" if "?P \<subseteq> ?A" using that by (simp add: Int_absorb1)
  have complete: "complete_evidence evidence \<longleftrightarrow>
      \<not> te_activeEvidenceIncomplete evidence \<and> \<not> te_providerEvidenceIncomplete evidence \<and>
      te_openExecutions evidence = [] \<and> valid_intervals (te_activeIntervals evidence) \<noteq> [] \<and>
      iu_invalidIntervals (unionIntervals (te_activeIntervals evidence)) = [] \<and>
      iu_invalidIntervals (unionIntervals (te_providerIntervals evidence)) = []"
    using valid_nonempty [of "te_activeIntervals evidence"]
    by (auto simp: complete_evidence_def union_spec filter_empty_conv list_all_iff)
  show ?thesis
    unfolding complete calculateTimingRollup_def Let_def union_durations within_durations union_nonempty
      active_instants_def [symmetric] provider_instants_def [symmetric] of_nat_eq_iff sub
    using diff inter by auto
qed

text \<open>What a ledger holds when it can be read: the objects of its lines, none of them broken.\<close>

definition ledger_holds :: "ledger_file \<Rightarrow> jval list \<Rightarrow> bool" where
  "ledger_holds ledger events \<longleftrightarrow>
     (ledger = LedgerAbsent \<and> events = []) \<or>
     (\<exists>ls. ledger = LedgerLines ls \<and>
        (\<forall>l\<in>set ls. l = BlankLine \<or> (\<exists>v. l = JsonLine v \<and> is_object_type v)) \<and>
        events = List.map_filter (\<lambda>l. case l of JsonLine v \<Rightarrow> Some v | _ \<Rightarrow> None) ls)"

lemma parsed_ledger:
  "parseLedger ls = Some events \<longleftrightarrow>
     (\<forall>l\<in>set ls. l = BlankLine \<or> (\<exists>v. l = JsonLine v \<and> is_object_type v)) \<and>
     events = List.map_filter (\<lambda>l. case l of JsonLine v \<Rightarrow> Some v | _ \<Rightarrow> None) ls"
proof (induction ls arbitrary: events rule: parseLedger.induct)
  case (4 v ls)
  then show ?case by (auto simp: map_filter_simps)
qed (auto simp: map_filter_simps)

lemma ledger_read: "readTimingLedger ledger = Some events \<longleftrightarrow> ledger_holds ledger events"
  by (cases ledger) (auto simp: ledger_holds_def parsed_ledger)

text \<open>The events that end an execution, and the activity they report.\<close>

definition ends_execution :: "jval \<Rightarrow> bool" where
  "ends_execution event =
     (event_type event [''step_completed'', ''step_failed'', ''step_interrupted''] \<or>
      (event_type event [''step_refused''] \<and> jstring event ''step'' \<noteq> None) \<or>
      event_type event [''parallel_completed''] \<or>
      (event_type event [''parallel_failure''] \<and> jget event ''terminal'' \<noteq> Some (JBool False)))"

definition reported_activity :: "jval list \<Rightarrow> jval list" where
  "reported_activity events = List.map_filter (\<lambda>e. if ends_execution e then jget e ''activeInterval'' else None) events"

lemma active_kept:
  "te_activeIntervals (record_start event ev) = te_activeIntervals ev"
  "te_activeIntervals (close_execution kind key act ev) = te_activeIntervals ev"
  "te_activeIntervals (collectProviderEvidence event t ev) = te_activeIntervals ev"
  by (auto simp: record_start_def close_execution_def collectProviderEvidence_def Let_def split: option.splits jval.splits)

lemma active_terminal:
  "te_activeIntervals (record_terminal event kind ev) =
     te_activeIntervals ev @ (case jget event ''activeInterval'' of None \<Rightarrow> [] | Some v \<Rightarrow> [v])"
  by (auto simp: record_terminal_def Let_def active_kept split: option.splits)

lemma terminal_ends: "jget event ''activeInterval'' \<noteq> None \<Longrightarrow> terminal_kind event ev \<noteq> None \<longleftrightarrow> ends_execution event"
  by (auto simp: terminal_kind_def ends_execution_def refusal_closes_step_def jhas_def simp del: jstring_Some split: option.splits)

lemma active_event:
  "te_activeIntervals (collect_event ev event) = te_activeIntervals ev @ reported_activity [event]"
proof (cases "jget event ''activeInterval''")
  case None
  then show ?thesis
    by (auto simp: collect_event_def collectExecutionEvidence_def reported_activity_def active_kept active_terminal
        Let_def map_filter_simps split: option.splits)
next
  case (Some v)
  with terminal_ends [of event ev] show ?thesis
    by (auto simp: collect_event_def collectExecutionEvidence_def reported_activity_def active_kept active_terminal
        Let_def map_filter_simps split: option.splits)
qed

lemma active_events: "te_activeIntervals (foldl collect_event ev events) = te_activeIntervals ev @ reported_activity events"
proof (induction events arbitrary: ev)
  case (Cons e events)
  have "reported_activity (e # events) = reported_activity [e] @ reported_activity events"
    by (simp add: reported_activity_def map_filter_simps split: option.splits)
  with Cons show ?case by (simp add: active_event)
qed (simp add: reported_activity_def map_filter_simps)


section \<open>An unfinished execution is never measured\<close>

text \<open>The execution an event starts, and the one it can close.\<close>

definition started_key :: "jval \<Rightarrow> string option" where
  "started_key event =
     (case (start_kind event, jstring event ''step'') of
        (Some kind, Some step) \<Rightarrow> if step = [] then None else executionKey event kind step
      | _ \<Rightarrow> None)"

definition closing_kind :: "jval \<Rightarrow> exec_kind option" where
  "closing_kind event =
     (if event_type event [''step_completed'', ''step_failed'', ''step_interrupted'', ''step_refused'']
      then Some StepExecution
      else if event_type event [''parallel_completed'', ''parallel_failure''] then Some ParallelExecution else None)"

definition closed_key :: "jval \<Rightarrow> string option" where
  "closed_key event =
     (case closing_kind event of
        Some kind \<Rightarrow> Option.bind (jstring event ''step'') (executionKey event kind)
      | None \<Rightarrow> None)"

lemma open_count_start:
  "open_count (record_start event ev) k = open_count ev k + (if started_key event = Some k then 1 else 0)"
  by (auto simp: record_start_def started_key_def open_count_def update_conv' simp del: jstring_Some split: option.splits)

lemma open_count_close:
  "open_count (close_execution kind key act ev) k = open_count ev k - (if key = k then 1 else 0)"
  by (auto simp: close_execution_def Let_def open_count_def update_conv' delete_conv' split: option.splits)

lemma open_count_terminal:
  "open_count (record_terminal event kind ev) k =
     open_count ev k - (if Option.bind (jstring event ''step'') (executionKey event kind) = Some k then 1 else 0)"
proof -
  have marks: "open_count (ev\<lparr>te_activeEvidenceIncomplete := b\<rparr>) k = open_count ev k"
    "open_count (ev\<lparr>te_activeIntervals := vs\<rparr>) k = open_count ev k" for ev b vs
    by (simp_all add: open_count_def)
  show ?thesis
    by (auto simp: record_terminal_def Let_def open_count_close marks split: option.splits)
qed

lemma terminal_closing: "terminal_kind event ev = Some kind \<Longrightarrow> closing_kind event = Some kind"
  by (auto simp: terminal_kind_def closing_kind_def refusal_closes_step_def event_type_def split: if_splits option.splits)

lemma open_count_provider: "open_count (collectProviderEvidence event t ev) k = open_count ev k"
  by (auto simp: collectProviderEvidence_def Let_def open_count_def split: option.splits jval.splits)

lemma open_count_event:
  "open_count ev k + (if started_key event = Some k then 1 else 0)
     \<le> open_count (collect_event ev event) k + (if closed_key event = Some k then 1 else 0)"
proof (cases "terminal_kind event ev")
  case None
  then show ?thesis
    by (simp add: collect_event_def collectExecutionEvidence_def open_count_provider open_count_start)
next
  case (Some kind)
  then show ?thesis using terminal_closing [OF Some]
    by (simp add: collect_event_def collectExecutionEvidence_def open_count_provider open_count_terminal
        open_count_start closed_key_def)
qed

lemma open_count_events:
  "open_count ev k + length (filter (\<lambda>e. started_key e = Some k) events)
     \<le> open_count (foldl collect_event ev events) k + length (filter (\<lambda>e. closed_key e = Some k) events)"
proof (induction events arbitrary: ev)
  case (Cons e events)
  from open_count_event [of ev k e] Cons.IH [of "collect_event ev e"] show ?case by (auto split: if_splits)
qed simp

lemma open_never_measured:
  "open_count ev k \<noteq> 0 \<Longrightarrow> \<exists>reason. calculateTimingRollup ev = PartialTiming None (Some reason)"
  by (auto simp: open_count_def calculateTimingRollup_def Let_def)

text \<open>
  When the two ledgers together record more starts of an execution
  than records that could close it, in whatever order, the rollup is partial with a stated
  reason: it is neither measured nor reported as unavailable.
\<close>

theorem open_execution_never_measured:
  assumes "readTimingLedger eventsFile = Some events" and "readTimingLedger pipelineFile = Some pipelineEvents"
    and "length (filter (\<lambda>e. closed_key e = Some key) (events @ pipelineEvents))
       < length (filter (\<lambda>e. started_key e = Some key) (events @ pipelineEvents))"
  shows "\<exists>reason. computeTimingRollup eventsFile pipelineFile = PartialTiming None (Some reason)"
proof -
  have "open_count (collectTimingEvidence (events @ pipelineEvents)) key \<noteq> 0"
    using open_count_events [of no_evidence key "events @ pipelineEvents"] assms(3)
    unfolding collectTimingEvidence_def by linarith
  then show ?thesis using assms(1,2) by (simp add: computeTimingRollup_def open_never_measured)
qed

definition build_event :: "string \<Rightarrow> int \<Rightarrow> int \<Rightarrow> jval" where
  "build_event type s d = JObj [(''type'', JStr type), (''step'', JStr ''build''),
     (''activeInterval'', interval_json \<lparr>oi_startedAtMs = s, oi_durationMs = d\<rparr>)]"

theorem open_execution_never_measured_witness:
  "\<exists>reason. computeTimingRollup
      (LedgerLines [JsonLine (build_event ''step_started'' 0 0), JsonLine (build_event ''step_completed'' 10 5), BlankLine])
      (LedgerLines [JsonLine (build_event ''step_started'' 20 0)]) = PartialTiming None (Some reason)"
proof -
  note keys = build_event_def started_key_def closed_key_def closing_kind_def start_kind_def event_type_def jstring_def
    executionKey_def resolveExecutionIdentity_def isExecutionScope_def timingRollupScope_def
  have "started_key (build_event ''step_started'' s d) = Some ''step:build''"
    "closed_key (build_event ''step_started'' s d) = None"
    "started_key (build_event ''step_completed'' s d) = None"
    "closed_key (build_event ''step_completed'' s d) = Some ''step:build''" for s d
    by (simp_all add: keys)
  note k = this
  have "is_object_type (build_event type s d)" for type s d by (simp add: build_event_def)
  then show ?thesis
    by (intro open_execution_never_measured [where key = "''step:build''"
          and events = "[build_event ''step_started'' 0 0, build_event ''step_completed'' 10 5]"
          and pipelineEvents = "[build_event ''step_started'' 20 0]"]) (simp_all add: k)
qed

end
