(* ===== verification/WhenExpr.thy ===== *)
theory WhenExpr
  imports ConductState "HOL-Library.Monad_Syntax"
begin

text \<open>
  The \<^verbatim>\<open>when:\<close> condition of a configured step (\<^verbatim>\<open>engine/when-expression.ts\<close>): the four atomic
  forms as matchers of the source's regular expressions, evaluation against the conduct state with
  short-circuit conjunction, and the syntax check made at configuration time.
\<close>

section \<open>Matching\<close>

definition word_char :: "char \<Rightarrow> bool" where
  "word_char c = (\<not> js_space c)"

fun line_terminator :: "char \<Rightarrow> bool" where
  "line_terminator c = (c = CHR 0x0A \<or> c = CHR 0x0D)"

definition after_prefix :: "string \<Rightarrow> string \<Rightarrow> string option" where
  "after_prefix pre s = (if starts_with s pre then Some (drop (length pre) s) else None)"

text \<open>\<open>skip_space\<close> is \<^verbatim>\<open>\s*\<close> and \<open>skip_space1\<close> is \<^verbatim>\<open>\s+\<close>.\<close>

definition skip_space :: "string \<Rightarrow> string" where
  "skip_space s = dropWhile js_space s"

definition skip_space1 :: "string \<Rightarrow> string option" where
  "skip_space1 s = (if s \<noteq> [] \<and> js_space (hd s) then Some (skip_space s) else None)"

text \<open>
  Each matcher returns the captured groups of its pattern. They are applied to trimmed texts, whose
  last character is no space, so that the greedy \<^verbatim>\<open>\s*\<close> before the operand never has to give a
  character back.
\<close>

definition match_tier_in :: "string \<Rightarrow> string option" where
  "match_tier_in expr =
     do { a \<leftarrow> after_prefix ''tier'' expr; b \<leftarrow> skip_space1 a;
          c \<leftarrow> after_prefix ''in'' b; d \<leftarrow> skip_space1 c; e \<leftarrow> after_prefix ''['' d;
          (if e \<noteq> [] \<and> last e = CHR '']'' \<and> butlast e \<noteq> [] \<and> CHR '']'' \<notin> set (butlast e)
           then Some (butlast e) else None) }"

definition match_equals :: "string \<Rightarrow> string \<Rightarrow> string option" where
  "match_equals name expr =
     do { a \<leftarrow> after_prefix name expr; b \<leftarrow> after_prefix ''=='' (skip_space a);
          (let operand = skip_space b
           in if operand \<noteq> [] \<and> list_all word_char operand then Some operand else None) }"

definition match_key_equals :: "string \<Rightarrow> (string \<times> string) option" where
  "match_key_equals expr =
     do { a \<leftarrow> after_prefix (CHR ''$'' # ''{'') expr;
          (let key = takeWhile (\<lambda>c. c \<noteq> CHR ''}'') a; rest = drop (length key) a
           in if key = [] \<or> rest = [] then None
              else do { b \<leftarrow> after_prefix ''=='' (skip_space (tl rest));
                        (let operand = skip_space b
                         in if operand \<noteq> [] \<and> list_all (\<lambda>c. \<not> line_terminator c) operand
                            then Some (key, operand) else None) }) }"

fun split_and :: "string \<Rightarrow> (string \<times> string) option" where
  "split_and [] = None"
| "split_and (c # cs) =
     (if c = CHR ''&'' \<and> cs \<noteq> [] \<and> hd cs = CHR ''&'' then Some ([], tl cs)
      else map_option (\<lambda>(l, r). (c # l, r)) (split_and cs))"

section \<open>Evaluation\<close>

record when_result =
  wr_result :: bool
  wr_undefinedKey :: "string option"

text \<open>\<open>js_string v\<close> is \<^verbatim>\<open>String(v)\<close>.\<close>

fun js_string :: "jval \<Rightarrow> string" where
  "js_string JNull = ''null''"
| "js_string (JBool b) = (if b then ''true'' else ''false'')"
| "js_string (JNum n) = int_str n"
| "js_string (JStr s) = s"
| "js_string (JArr vs) = join '','' (map (\<lambda>v. if v = JNull then [] else js_string v) vs)"
| "js_string (JObj _) = ''[object Object]''"

definition plain_result :: "bool \<Rightarrow> when_result" where
  "plain_result b = \<lparr>wr_result = b, wr_undefinedKey = None\<rparr>"

definition undefined_result :: "string \<Rightarrow> when_result" where
  "undefined_result key = \<lparr>wr_result = False, wr_undefinedKey = Some key\<rparr>"

definition tier_value :: "conduct_state \<Rightarrow> jval" where
  "tier_value state =
     (case state ''complexity_tier'' of None \<Rightarrow> JStr [] | Some JNull \<Rightarrow> JStr [] | Some v \<Rightarrow> v)"

definition eval_atom :: "string \<Rightarrow> conduct_state \<Rightarrow> when_result" where
  "eval_atom expr state =
     (case match_tier_in expr of
        Some members \<Rightarrow> plain_result (tier_value state \<in> set (map (\<lambda>m. JStr (js_trim m)) (split_on (CHR '','') members)))
      | None \<Rightarrow>
     (case match_equals ''tier'' expr of
        Some expected \<Rightarrow> plain_result (tier_value state = JStr expected)
      | None \<Rightarrow>
     (case match_equals ''phase'' expr of
        Some expected \<Rightarrow>
          (case state ''current_phase'' of
             None \<Rightarrow> undefined_result ''current_phase''
           | Some v \<Rightarrow> plain_result (js_string v = expected))
      | None \<Rightarrow>
     (case match_key_equals expr of
        Some (keyGroup, operand) \<Rightarrow>
          (case state (js_trim keyGroup) of
             None \<Rightarrow> undefined_result (js_trim keyGroup)
           | Some v \<Rightarrow> plain_result (js_string v = js_trim operand))
      | None \<Rightarrow> plain_result False))))"

lemma length_trim: "length (js_trim s) \<le> length s"
  unfolding js_trim_def by (metis length_dropWhile_le length_rev order_trans)

lemma split_and_length: "split_and s = Some (l, r) \<Longrightarrow> length l < length s \<and> length r < length s"
  by (induction s arbitrary: l) (auto split: if_splits)

function evaluateWhen :: "string \<Rightarrow> conduct_state \<Rightarrow> when_result" where
  "evaluateWhen expression state =
     (let expr = js_trim expression in
      case split_and expr of
        Some (l, r) \<Rightarrow>
          (let leftResult = evaluateWhen (js_trim l) state
           in if \<not> wr_result leftResult then leftResult else evaluateWhen (js_trim r) state)
      | None \<Rightarrow> eval_atom expr state)"
  by pat_completeness auto
termination
  by (relation "measure (\<lambda>(e, s). length e)")
     (auto dest!: split_and_length intro: le_less_trans [OF length_trim] order.strict_trans2 [OF _ length_trim])

declare evaluateWhen.simps [simp del]

section \<open>Validation\<close>

definition unsupported_message :: "string \<Rightarrow> string" where
  "unsupported_message expr =
     ''unsupported when expression: '' @ CHR 0x22 # expr @ CHR 0x22 # ''. '' @
     ''Supported forms: '' @ CHR 0x22 # ''tier == L'' @ CHR 0x22 # '', '' @ CHR 0x22 # ''tier in [M, L]'' @
     CHR 0x22 # '', '' @ CHR 0x22 # ''phase == BUILD'' @ CHR 0x22 # '', '' @
     CHR 0x22 # ''${key} == value'' @ CHR 0x22 # '', '' @ CHR 0x22 # ''A && B'' @ [CHR 0x22]"

definition operand_message :: "string \<Rightarrow> string" where
  "operand_message side = CHR 0x22 # ''&&'' @ CHR 0x22 # '' must have a '' @ side @ ''-hand operand''"

function validateWhenAtom :: "string \<Rightarrow> string option" where
  "validateWhenAtom expr =
     (case split_and expr of
        Some (l, r) \<Rightarrow>
          if js_trim l = [] then Some (operand_message ''left'')
          else if js_trim r = [] then Some (operand_message ''right'')
          else (case validateWhenAtom (js_trim l) of
                  Some err \<Rightarrow> Some err
                | None \<Rightarrow> validateWhenAtom (js_trim r))
      | None \<Rightarrow>
          if match_tier_in expr \<noteq> None \<or> match_equals ''tier'' expr \<noteq> None \<or>
             match_equals ''phase'' expr \<noteq> None \<or> match_key_equals expr \<noteq> None then None
          else Some (unsupported_message expr))"
  by pat_completeness auto
termination
  by (relation "measure length") (auto dest!: split_and_length intro: le_less_trans [OF length_trim])

declare validateWhenAtom.simps [simp del]

definition validateWhenSyntax :: "string \<Rightarrow> string option" where
  "validateWhenSyntax expression =
     (let expr = js_trim expression
      in if expr = [] then Some ''when expression must not be empty'' else validateWhenAtom expr)"

section \<open>Evaluation is a conjunction of atoms\<close>

text \<open>
  \<open>conjuncts e\<close> are the texts between the \<open>&&\<close> of an expression, from left to right and trimmed.
  The reference evaluation asks each of them in turn and stops at the first that fails.
\<close>

function conjuncts :: "string \<Rightarrow> string list" where
  "conjuncts expression =
     (case split_and (js_trim expression) of
        Some (l, r) \<Rightarrow> js_trim l # conjuncts r
      | None \<Rightarrow> [js_trim expression])"
  by pat_completeness auto
termination
  by (relation "measure length") (auto dest!: split_and_length intro: order.strict_trans2 [OF _ length_trim])

declare conjuncts.simps [simp del]

fun first_failure :: "when_result list \<Rightarrow> when_result" where
  "first_failure [] = plain_result True"
| "first_failure [r] = r"
| "first_failure (r # q # rs) = (if wr_result r then first_failure (q # rs) else r)"

lemma dropWhile_idem: "dropWhile P (dropWhile P xs) = dropWhile P xs"
  by (induction xs) auto

lemma js_trim_idem [simp]: "js_trim (js_trim s) = js_trim s"
proof -
  define t where "t = dropWhile js_space s"
  have head: "t = [] \<or> \<not> js_space (hd t)" unfolding t_def by (metis hd_dropWhile)
  let ?u = "rev (dropWhile js_space (rev t))"
  have "dropWhile js_space ?u = ?u"
  proof (cases "?u = []")
    case False
    obtain ys where "rev t = ys @ dropWhile js_space (rev t)" by (metis takeWhile_dropWhile_id)
    then have "t = ?u @ rev ys" by (metis rev_append rev_rev_ident)
    with False have "hd ?u = hd t" by (metis hd_append2)
    moreover from False have "t \<noteq> []" by auto
    ultimately have "\<not> js_space (hd ?u)" using head by simp
    with False show ?thesis by (metis dropWhile.simps(2) list.exhaust_sel)
  next
    case True
    then show ?thesis by (simp only: dropWhile.simps)
  qed
  then show ?thesis unfolding js_trim_def t_def [symmetric] by (simp add: dropWhile_idem)
qed

lemma split_and_None_iff: "split_and s = None \<longleftrightarrow> \<not> (\<exists>l r. s = l @ ''&&'' @ r)"
proof (induction s)
  case (Cons c cs)
  show ?case
  proof (cases "c = CHR ''&'' \<and> cs \<noteq> [] \<and> hd cs = CHR ''&''")
    case True
    then have "c # cs = [] @ ''&&'' @ tl cs" by (cases cs) auto
    then show ?thesis using True by (metis option.distinct(1) split_and.simps(2))
  next
    case False
    have "(\<exists>l r. c # cs = l @ ''&&'' @ r) \<longleftrightarrow> (\<exists>l r. cs = l @ ''&&'' @ r)"
    proof
      assume "\<exists>l r. c # cs = l @ ''&&'' @ r"
      then obtain l r where e: "c # cs = l @ ''&&'' @ r" by blast
      then have "l \<noteq> []" using False by auto
      then show "\<exists>l r. cs = l @ ''&&'' @ r" using e by (metis append_Cons list.inject neq_Nil_conv)
    qed (metis append_Cons)
    moreover have "split_and (c # cs) = None \<longleftrightarrow> split_and cs = None" using False by auto
    ultimately show ?thesis using Cons by metis
  qed
qed simp

lemma split_and_SomeD: "split_and s = Some (l, r) \<Longrightarrow> s = l @ ''&&'' @ r \<and> split_and l = None"
proof (induction s arbitrary: l)
  case (Cons c cs)
  show ?case
  proof (cases "c = CHR ''&'' \<and> cs \<noteq> [] \<and> hd cs = CHR ''&''")
    case True
    then show ?thesis using Cons.prems by (cases cs) auto
  next
    case False
    then obtain l' where l: "split_and cs = Some (l', r)" "l = c # l'" using Cons.prems by (auto split: if_splits)
    note ih = Cons.IH [OF l(1)]
    have "\<not> (c = CHR ''&'' \<and> l' \<noteq> [] \<and> hd l' = CHR ''&'')" using False ih by auto
    with ih l(2) show ?thesis by auto
  qed
qed simp

lemma js_trim_infix: "\<exists>a b. s = a @ js_trim s @ b"
  unfolding js_trim_def by (metis rev_append rev_rev_ident takeWhile_dropWhile_id)

lemma split_and_trim_None: "split_and l = None \<Longrightarrow> split_and (js_trim l) = None"
proof -
  assume n: "split_and l = None"
  obtain a b where l: "l = a @ js_trim l @ b" using js_trim_infix by blast
  show ?thesis
  proof (rule ccontr)
    assume "split_and (js_trim l) \<noteq> None"
    then obtain x y where "js_trim l = x @ ''&&'' @ y" by (auto simp: split_and_None_iff)
    then have "l = (a @ x) @ ''&&'' @ (y @ b)" using l by (metis append.assoc)
    with n show False unfolding split_and_None_iff by blast
  qed
qed

lemma conjuncts_trim: "conjuncts (js_trim e) = conjuncts e"
  by (simp add: conjuncts.simps [of "js_trim e"] conjuncts.simps [of e] split: option.split)

lemma conjuncts_nonempty: "conjuncts e \<noteq> []"
  by (subst conjuncts.simps) (auto split: option.splits)

lemma conjuncts_atomic: "a \<in> set (conjuncts e) \<Longrightarrow> split_and a = None \<and> js_trim a = a"
proof (induction e rule: conjuncts.induct)
  case (1 e)
  show ?case
  proof (cases "split_and (js_trim e)")
    case None
    with "1.prems" show ?thesis by (simp add: conjuncts.simps [of e])
  next
    case (Some p)
    then obtain l r where lr: "split_and (js_trim e) = Some (l, r)" by (cases p) simp
    with "1.prems" have "a = js_trim l \<or> a \<in> set (conjuncts r)" by (simp add: conjuncts.simps [of e])
    with "1.IH" [OF lr refl] split_and_SomeD [OF lr] split_and_trim_None [of l] show ?thesis by auto
  qed
qed

lemma evaluate_trim: "evaluateWhen (js_trim e) state = evaluateWhen e state"
  by (simp add: evaluateWhen.simps [of "js_trim e"] evaluateWhen.simps [of e])

lemma evaluate_conjuncts:
  "evaluateWhen e state = first_failure (map (\<lambda>a. eval_atom a state) (conjuncts e))"
proof (induction e rule: conjuncts.induct)
  case (1 e)
  show ?case
  proof (cases "split_and (js_trim e)")
    case None
    then show ?thesis by (simp add: conjuncts.simps [of e] evaluateWhen.simps [of e])
  next
    case (Some p)
    then obtain l r where lr: "split_and (js_trim e) = Some (l, r)" by (cases p) simp
    have "split_and (js_trim l) = None" using split_and_SomeD [OF lr] split_and_trim_None by blast
    then have left: "evaluateWhen (js_trim l) state = eval_atom (js_trim l) state"
      by (simp add: evaluateWhen.simps [of "js_trim l"])
    obtain q qs where q: "conjuncts r = q # qs" using conjuncts_nonempty [of r] by (meson neq_Nil_conv)
    have "conjuncts e = js_trim l # q # qs" using lr q by (simp add: conjuncts.simps [of e])
    moreover have "evaluateWhen e state =
        (if wr_result (eval_atom (js_trim l) state) then evaluateWhen r state else eval_atom (js_trim l) state)"
      using lr left by (simp add: evaluateWhen.simps [of e] Let_def evaluate_trim)
    ultimately show ?thesis using "1.IH" [OF lr refl] q by simp
  qed
qed

lemma first_failure_result: "rs \<noteq> [] \<Longrightarrow> wr_result (first_failure rs) \<longleftrightarrow> (\<forall>r\<in>set rs. wr_result r)"
  by (induction rs rule: first_failure.induct) auto

text \<open>The text is one of the supported atomic forms.\<close>

definition supported_atom :: "string \<Rightarrow> bool" where
  "supported_atom a = (match_tier_in a \<noteq> None \<or> match_equals ''tier'' a \<noteq> None \<or>
     match_equals ''phase'' a \<noteq> None \<or> match_key_equals a \<noteq> None)"

lemma supported_not_empty [simp]: "\<not> supported_atom []"
  by (simp add: supported_atom_def match_tier_in_def match_equals_def match_key_equals_def after_prefix_def starts_with_def)

lemma validate_conjuncts:
  "js_trim e = e \<Longrightarrow> validateWhenAtom e = None \<longleftrightarrow> list_all supported_atom (conjuncts e)"
proof (induction e rule: validateWhenAtom.induct)
  case (1 e)
  show ?case
  proof (cases "split_and e")
    case None
    with "1.prems" show ?thesis
      by (simp add: conjuncts.simps [of e] validateWhenAtom.simps [of e] supported_atom_def)
  next
    case (Some p)
    then obtain l r where lr: "split_and e = Some (l, r)" by (cases p) simp
    have c: "conjuncts e = js_trim l # conjuncts r" using lr "1.prems" by (simp add: conjuncts.simps [of e])
    have "split_and (js_trim l) = None" using split_and_SomeD [OF lr] split_and_trim_None by blast
    then have left: "validateWhenAtom (js_trim l) = None \<longleftrightarrow> supported_atom (js_trim l)"
      by (simp add: validateWhenAtom.simps [of "js_trim l"] supported_atom_def)
    have v: "validateWhenAtom e = None \<longleftrightarrow> js_trim l \<noteq> [] \<and> js_trim r \<noteq> [] \<and>
        validateWhenAtom (js_trim l) = None \<and> validateWhenAtom (js_trim r) = None"
      using lr by (auto simp: validateWhenAtom.simps [of e] split: option.splits)
    have empty: "conjuncts r = [[]]" if "js_trim r = []" using that by (simp add: conjuncts.simps [of r])
    show ?thesis
    proof (cases "js_trim l \<noteq> [] \<and> js_trim r \<noteq> [] \<and> validateWhenAtom (js_trim l) = None")
      case True
      then have "validateWhenAtom (js_trim r) = None \<longleftrightarrow> list_all supported_atom (conjuncts (js_trim r))"
        using "1.IH"(2) [OF lr refl] by simp
      then show ?thesis using True v c left by (simp add: conjuncts_trim)
    next
      case False
      then show ?thesis using v c left empty by auto
    qed
  qed
qed

text \<open>
  Evaluating a \<^verbatim>\<open>when:\<close> condition gives the result of its first failing
  conjunct, or of the last one when none fails, for any number of conjuncts; it holds exactly when
  every conjunct does; and the configuration check accepts exactly the conditions each of whose
  conjuncts is one of the supported forms, so that an accepted condition never falls through to the
  malformed default.
\<close>

theorem when_expression_exact:
  "evaluateWhen expression state = first_failure (map (\<lambda>a. eval_atom a state) (conjuncts expression)) \<and>
   (wr_result (evaluateWhen expression state) \<longleftrightarrow> list_all (\<lambda>a. wr_result (eval_atom a state)) (conjuncts expression)) \<and>
   (validateWhenSyntax expression = None \<longleftrightarrow> list_all supported_atom (conjuncts expression)) \<and>
   list_all (\<lambda>a. split_and a = None \<and> js_trim a = a) (conjuncts expression)"
proof (intro conjI)
  show e: "evaluateWhen expression state = first_failure (map (\<lambda>a. eval_atom a state) (conjuncts expression))"
    by (rule evaluate_conjuncts)
  show "wr_result (evaluateWhen expression state) \<longleftrightarrow> list_all (\<lambda>a. wr_result (eval_atom a state)) (conjuncts expression)"
    unfolding e using conjuncts_nonempty by (subst first_failure_result) (simp_all add: list_all_iff)
  show "validateWhenSyntax expression = None \<longleftrightarrow> list_all supported_atom (conjuncts expression)"
    using validate_conjuncts [of "js_trim expression"] conjuncts_trim [of expression]
    by (auto simp: validateWhenSyntax_def Let_def conjuncts.simps [of expression])
  show "list_all (\<lambda>a. split_and a = None \<and> js_trim a = a) (conjuncts expression)"
    using conjuncts_atomic by (simp add: list_all_iff)
qed

lemma when_samples:
  "wr_result (evaluateWhen ''tier in [M, L] && phase == BUILD''
     [''complexity_tier'' \<mapsto> JStr ''M'', ''current_phase'' \<mapsto> JStr ''BUILD''])"
  "wr_undefinedKey (evaluateWhen '' tier == L&&${k} == v'' [''complexity_tier'' \<mapsto> JStr ''L'']) = Some ''k''"
  "validateWhenSyntax ''tier in [M'' \<noteq> None"
  by code_simp+

end
