(* ===== verification/DecideEntry.thy ===== *)
theory DecideEntry
  imports ConductState
begin

text \<open>
  Autonomous entry into the DECIDE phase: the pure policy and the operator's grants of
  \<^verbatim>\<open>engine/decide-entry-policy.ts\<close>, and the resolution of an entry with the durable grant in
  \<^verbatim>\<open>engine/conductor.ts\<close>. A path is its list of components; the grant store maps paths to
  what parsing the file gives (a file that is absent, unreadable or no JSON is no entry). The guard at
  the call site, which asks only where artifacts are verified, belongs to the caller. A dash of a
  message is written with hyphens.
\<close>

section \<open>The policy\<close>

record operator_grant =
  og_step :: string
  og_grantedBy :: string

record decide_entry_input =
  de_target :: step_name
  de_steps :: "step_def list"
  de_daemon :: bool
  de_tier :: "complexity_tier option"
  de_hasContract :: bool
  de_artifactPresent :: bool
  de_satisfied :: "bool option"
  de_grant :: "operator_grant option"
  de_sourceGate :: string
  de_evidence :: "string option"

record decide_entry_halt =
  dh_reason :: string
  dh_target :: step_name
  dh_sourceGate :: string
  dh_evidence :: "string option"

datatype decide_disposition =
    EnterDecide string
  | FastForwardDone
  | FastForwardSkipped "string option"
  | HaltDecide decide_entry_halt

definition quoted :: "string \<Rightarrow> string" where
  "quoted s = [CHR 0x27] @ s @ [CHR 0x27]"

definition UNGRANTABLE_STEP :: step_name where
  "UNGRANTABLE_STEP = ''plan''"

definition decide_halt :: "decide_entry_input \<Rightarrow> string \<Rightarrow> decide_disposition" where
  "decide_halt inp reason = HaltDecide \<lparr>dh_reason = reason, dh_target = de_target inp,
     dh_sourceGate = de_sourceGate inp, dh_evidence = de_evidence inp\<rparr>"

text \<open>\<open>de_satisfied\<close> is \<^verbatim>\<open>'unknown'\<close> for \<open>None\<close>.\<close>

definition decideEntryDisposition :: "decide_entry_input \<Rightarrow> decide_disposition" where
  "decideEntryDisposition inp =
     (if \<not> de_daemon inp then EnterDecide ''interactive''
      else (case find (\<lambda>s. sd_name s = de_target inp) (de_steps inp) of
          None \<Rightarrow> decide_halt inp (''DECIDE target '' @ quoted (de_target inp) @
                   '' could not be resolved from the configured steps.'')
        | Some targetStep \<Rightarrow>
            if sd_phase targetStep \<noteq> DECIDE then EnterDecide ''non-decide-target''
            else if (case de_tier inp of Some t \<Rightarrow> t \<in> set (sd_skippableForTiers targetStep) | None \<Rightarrow> False)
              then FastForwardSkipped None
            else if \<not> de_hasContract inp then FastForwardSkipped None
            else if de_satisfied inp = Some True then FastForwardDone
            else if de_target inp = UNGRANTABLE_STEP then
              decide_halt inp (''Autonomous entry to '' @ quoted UNGRANTABLE_STEP @
                '' is never permitted -- the daemon may not re-plan, and no operator grant authorizes this target.'' @
                '' Drive the plan revision interactively, then resume the feature.'')
            else (case de_grant inp of
                Some g \<Rightarrow> if og_step g = de_target inp then EnterDecide (og_grantedBy g)
                  else if sd_absentArtifactReason targetStep \<noteq> None \<and> \<not> de_artifactPresent inp
                  then FastForwardSkipped (sd_absentArtifactReason targetStep)
                  else decide_halt inp (''Autonomous entry to DECIDE target '' @ quoted (de_target inp) @
                    '' requires an in-scope grant from '' @ quoted (de_sourceGate inp) @ ''.'')
              | None \<Rightarrow>
                  if sd_absentArtifactReason targetStep \<noteq> None \<and> \<not> de_artifactPresent inp
                  then FastForwardSkipped (sd_absentArtifactReason targetStep)
                  else decide_halt inp (''Autonomous entry to DECIDE target '' @ quoted (de_target inp) @
                    '' requires an in-scope grant from '' @ quoted (de_sourceGate inp) @ ''.''))))"

section \<open>Grants\<close>

type_synonym grant_store = "string list \<rightharpoonup> jval"

definition grantStorePath :: "string list \<Rightarrow> string \<Rightarrow> string list" where
  "grantStorePath mainRoot slug = mainRoot @ [''.daemon'', ''grants'', slug @ ''.json'']"

definition resolveGrantPath :: "string list \<Rightarrow> string list option" where
  "resolveGrantPath projectRoot =
     (case rev projectRoot of
        slug # worktrees # root \<Rightarrow> if worktrees = ''.worktrees'' then Some (grantStorePath (rev root) slug) else None
      | _ \<Rightarrow> None)"

definition grant_of :: "jval \<Rightarrow> operator_grant option" where
  "grant_of value =
     (case value of
        JObj _ \<Rightarrow> (case (jget value ''step'', jget value ''grantedBy'') of
            (Some (JStr s), Some (JStr g)) \<Rightarrow> Some \<lparr>og_step = s, og_grantedBy = g\<rparr>
          | _ \<Rightarrow> None)
      | _ \<Rightarrow> None)"

definition readOperatorGrant :: "grant_store \<Rightarrow> string list \<Rightarrow> operator_grant option" where
  "readOperatorGrant store projectRoot =
     (case resolveGrantPath projectRoot of None \<Rightarrow> None | Some path \<Rightarrow> Option.bind (store path) grant_of)"

text \<open>\<open>unlinks\<close> tells whether the removal of the file succeeds.\<close>

definition consumeOperatorGrant ::
  "bool \<Rightarrow> grant_store \<Rightarrow> string list \<Rightarrow> step_name \<Rightarrow> grant_store \<times> operator_grant option" where
  "consumeOperatorGrant unlinks store projectRoot target =
     (case resolveGrantPath projectRoot of
        None \<Rightarrow> (store, None)
      | Some path \<Rightarrow>
          (case readOperatorGrant store projectRoot of
             None \<Rightarrow> (store, None)
           | Some grant \<Rightarrow>
               if og_step grant \<noteq> target \<or> target = UNGRANTABLE_STEP then (store, None)
               else if unlinks then (store(path := None), Some grant) else (store, None)))"

section \<open>Resolving an entry\<close>

text \<open>
  \<^verbatim>\<open>resolveDecideEntryDisposition\<close>: the input's own grant counts outside the daemon's DECIDE
  entries only, where the durable one replaces it; \<open>de_artifactPresent\<close> is the lookup of the target's artifact; a dispatch consumes the grant it relies on.
\<close>

definition resolveDecideEntryDisposition ::
  "bool \<Rightarrow> grant_store \<Rightarrow> string list \<Rightarrow> decide_entry_input \<Rightarrow> bool \<Rightarrow> grant_store \<times> decide_disposition" where
  "resolveDecideEntryDisposition unlinks store projectRoot inp consumeGrant =
     (if \<not> de_daemon inp \<or>
         (case find (\<lambda>s. sd_name s = de_target inp) (de_steps inp) of
            Some targetStep \<Rightarrow> sd_phase targetStep \<noteq> DECIDE | None \<Rightarrow> True)
      then (store, decideEntryDisposition inp)
      else
        let grant = readOperatorGrant store projectRoot;
            disposition = decideEntryDisposition (inp\<lparr>de_grant := grant\<rparr>)
        in if \<not> consumeGrant \<or> (\<forall>by. disposition \<noteq> EnterDecide by) \<or>
              (case grant of Some g \<Rightarrow> og_step g \<noteq> de_target inp | None \<Rightarrow> True)
           then (store, disposition)
           else (case consumeOperatorGrant unlinks store projectRoot (de_target inp) of
                   (store', Some _) \<Rightarrow> (store', disposition)
                 | (store', None) \<Rightarrow> (store', decideEntryDisposition (inp\<lparr>de_grant := None\<rparr>))))"

section \<open>Authority to enter\<close>

definition decide_target :: "decide_entry_input \<Rightarrow> step_def option" where
  "decide_target inp =
     (case find (\<lambda>s. sd_name s = de_target inp) (de_steps inp) of
        Some s \<Rightarrow> if sd_phase s = DECIDE then Some s else None | None \<Rightarrow> None)"

lemma decide_enters:
  assumes "de_daemon inp" "decide_target inp = Some s"
  shows "(\<exists>by. decideEntryDisposition inp = EnterDecide by) \<longleftrightarrow>
     (\<exists>g. de_grant inp = Some g \<and> og_step g = de_target inp) \<and> de_target inp \<noteq> ''plan'' \<and> de_hasContract inp \<and>
     de_satisfied inp \<noteq> Some True \<and> (\<forall>t. de_tier inp = Some t \<longrightarrow> t \<notin> set (sd_skippableForTiers s))"
  using assms
  by (auto simp: decideEntryDisposition_def decide_target_def decide_halt_def UNGRANTABLE_STEP_def
      split: option.splits if_splits)

lemma consumed_grant:
  assumes "consumeOperatorGrant unlinks store root target = (store', Some g)"
  shows "readOperatorGrant store root = Some g \<and> og_step g = target \<and> target \<noteq> ''plan'' \<and>
     readOperatorGrant store' root = None"
  using assms
  by (auto simp: consumeOperatorGrant_def readOperatorGrant_def UNGRANTABLE_STEP_def split: option.splits if_splits)

lemma kept_grants:
  "consumeOperatorGrant unlinks store root target = (store', None) \<Longrightarrow> store' = store"
  by (auto simp: consumeOperatorGrant_def split: option.splits if_splits)

lemma dispatch_resolution:
  assumes "de_daemon inp" "decide_target inp = Some s"
    "resolveDecideEntryDisposition unlinks store root inp True = (store', EnterDecide by)"
  shows "(\<exists>g. readOperatorGrant store root = Some g \<and> og_step g = de_target inp) \<and> de_target inp \<noteq> ''plan'' \<and>
     readOperatorGrant store' root = None"
proof -
  let ?inp = "inp\<lparr>de_grant := readOperatorGrant store root\<rparr>"
  have target: "decide_target (inp\<lparr>de_grant := g\<rparr>) = Some s" for g using assms(2) by (simp add: decide_target_def)
  have phase: "\<not> (\<not> de_daemon inp \<or> (case find (\<lambda>s. sd_name s = de_target inp) (de_steps inp) of
            Some targetStep \<Rightarrow> sd_phase targetStep \<noteq> DECIDE | None \<Rightarrow> True))"
    using assms(1,2) by (auto simp: decide_target_def split: option.splits if_splits)
  have none: "decideEntryDisposition (inp\<lparr>de_grant := None\<rparr>) \<noteq> EnterDecide b" for b
    using decide_enters [OF _ target, of None] assms(1) by auto
  have enter: "decideEntryDisposition ?inp = EnterDecide b \<Longrightarrow>
      \<exists>g. readOperatorGrant store root = Some g \<and> og_step g = de_target inp \<and> de_target inp \<noteq> ''plan''" for b
    using decide_enters [OF _ target, of "readOperatorGrant store root"] assms(1) by auto
  obtain store'' r where c: "consumeOperatorGrant unlinks store root (de_target inp) = (store'', r)" by fastforce
  show ?thesis
  proof (cases r)
    case None
    with assms(3) phase c none enter show ?thesis
      by (auto simp: resolveDecideEntryDisposition_def Let_def split: if_splits option.splits)
  next
    case (Some g)
    from consumed_grant [OF c [unfolded Some]] assms(3) phase c Some enter show ?thesis
      by (auto simp: resolveDecideEntryDisposition_def Let_def split: if_splits option.splits)
  qed
qed

text \<open>
  C28: a daemon dispatches into a DECIDE step only on a durable operator grant that
  names exactly this step, never for the plan, and the dispatch spends the grant: a later entry, of
  any step, under any circumstances, is refused until the operator grants again.
\<close>

theorem decide_entry_authority:
  assumes "de_daemon inp" and "decide_target inp = Some s"
    and "resolveDecideEntryDisposition unlinks store root inp True = (store', EnterDecide by)"
  shows "(\<exists>g. readOperatorGrant store root = Some g \<and> og_step g = de_target inp) \<and> de_target inp \<noteq> ''plan'' \<and>
     (\<forall>again unlinks' s' by'. de_daemon again \<longrightarrow> decide_target again = Some s' \<longrightarrow>
        snd (resolveDecideEntryDisposition unlinks' store' root again True) \<noteq> EnterDecide by')"
proof -
  from dispatch_resolution [OF assms] have gone: "readOperatorGrant store' root = None"
    and now: "(\<exists>g. readOperatorGrant store root = Some g \<and> og_step g = de_target inp) \<and> de_target inp \<noteq> ''plan''"
    by auto
  have "snd (resolveDecideEntryDisposition unlinks' store' root again True) \<noteq> EnterDecide by'"
    if "de_daemon again" "decide_target again = Some s'" for again unlinks' s' by'
  proof
    assume "snd (resolveDecideEntryDisposition unlinks' store' root again True) = EnterDecide by'"
    then obtain w where "resolveDecideEntryDisposition unlinks' store' root again True = (w, EnterDecide by')"
      by (metis prod.collapse)
    from dispatch_resolution [OF that this] gone show False by simp
  qed
  with now show ?thesis by blast
qed

definition stories_entry :: decide_entry_input where
  "stories_entry = \<lparr>de_target = ''stories'', de_steps = [step_stories], de_daemon = True, de_tier = None, de_hasContract = True,
     de_artifactPresent = False, de_satisfied = Some False, de_grant = None, de_sourceGate = ''forward-walk'',
     de_evidence = None\<rparr>"

definition stories_grants :: grant_store where
  "stories_grants = [[''repo'', ''.daemon'', ''grants'', ''f.json''] \<mapsto>
     JObj [(''step'', JStr ''stories''), (''grantedBy'', JStr ''op'')]]"

theorem decide_entry_authority_witness:
  "resolveDecideEntryDisposition True stories_grants [''repo'', ''.worktrees'', ''f''] stories_entry True
     = (Map.empty, EnterDecide ''op'') \<and>
   snd (resolveDecideEntryDisposition True Map.empty [''repo'', ''.worktrees'', ''f''] stories_entry True) \<noteq> EnterDecide ''op''"
proof -
  have run: "resolveDecideEntryDisposition True stories_grants [''repo'', ''.worktrees'', ''f''] stories_entry True
     = (Map.empty, EnterDecide ''op'')"
    by (simp add: resolveDecideEntryDisposition_def Let_def readOperatorGrant_def resolveGrantPath_def grantStorePath_def
        stories_grants_def stories_entry_def grant_of_def consumeOperatorGrant_def decideEntryDisposition_def
        UNGRANTABLE_STEP_def step_stories_def step_literal_def)
  have t: "decide_target stories_entry = Some step_stories" "de_daemon stories_entry"
    by (simp_all add: decide_target_def stories_entry_def step_stories_def step_literal_def)
  from decide_entry_authority [OF t(2,1) run] run t show ?thesis by blast
qed

end
