(* ===== verification/Tail.thy ===== *)
theory Tail
  imports SelectorProps ResumeProps StoreLaws KickbackLaws DecideEntry
begin

text \<open>
  The gate-driven tail of the conductor's loop (\<^verbatim>\<open>Conductor.advanceTail\<close>,
  \<^verbatim>\<open>scanKickbackVerdicts\<close>, \<^verbatim>\<open>navigateStateBack\<close> and \<^verbatim>\<open>commitStateChanges\<close> of
  \<^verbatim>\<open>engine/conductor.ts\<close>): after a step has run, its verdict is recomputed, kickbacks it
  wrote are charged and navigated, skipped steps are marked, and the selector's choice becomes the
  next index. Events and pull requests are left out; a halt keeps the reason its marker is written with.
\<close>

section \<open>World and surroundings\<close>

record tail_world =
  tl_state :: conduct_state
  tl_doc :: state_doc
  tl_files :: verdict_files
  tl_ledger :: ledger_doc
  tl_childLedger :: ledger_doc
  tl_stuck :: "string \<rightharpoonup> nat"
  tl_halt :: "string option"

datatype rebase_outcome =
    RebaseNoop | RebaseMergeableSkip | RebaseChanged | RebaseConflict string | RebaseFlattenRefused string | RebaseSetupStop string

datatype routed_admission = RoutedAdmitted | RoutedExhausted string | RoutedHalted string

text \<open>
  What the tail reads around it: the resolved steps, the active child of a stacked region and the
  round routed to it, the store and ledger ports, the listing of the gates directory, the completion
  predicate of the step that ran, the tree and the resolved tasks, the admission of a routed
  custom step, the plan's scheduling, and the outcome of the rebase step. \<open>tn_heal\<close> stands for the
  verdicts \<^verbatim>\<open>applyRebaseVerdicts\<close> writes for an outcome without effect.
\<close>

record tail_env =
  tn_steps :: "step_def list"
  tn_customs :: custom_step_map
  tn_dir :: string
  tn_root :: "string list"
  tn_child :: "int option"
  tn_routedRound :: "string option"
  tn_verifyArtifacts :: bool
  tn_daemon :: bool
  tn_now :: int
  tn_applyBatch :: "state_doc \<Rightarrow> mutation list \<Rightarrow> state_doc \<times> mutation_result"
  tn_ledgerEnv :: ledger_env
  tn_verdictIo :: "string option"
  tn_listing :: "verdict_files \<Rightarrow> string list option"
  tn_completion :: "step_name \<Rightarrow> completion_result"
  tn_routedForward :: "string option option"
  tn_treeHash :: "string option"
  tn_resolvedCount :: "int option \<Rightarrow> int"
  tn_admission :: "step_name \<Rightarrow> int \<Rightarrow> routed_admission"
  tn_hasContract :: "step_name \<Rightarrow> bool"
  tn_artifactPresent :: "step_name \<Rightarrow> bool"
  tn_grants :: grant_store
  tn_skippedSteps :: "step_name list"
  tn_track :: track
  tn_buildReviewEnabled :: bool
  tn_parking :: "routed_parking option"
  tn_sealError :: "string option"
  tn_outcome :: "rebase_outcome option"
  tn_dispatchStartedAt :: "int option"
  tn_heal :: "verdict_files \<Rightarrow> verdict_files"

definition childScopedStepKey :: "step_name \<Rightarrow> int option \<Rightarrow> string" where
  "childScopedStepKey step child =
     step @ ''#'' @ (case child of None \<Rightarrow> ''feature'' | Some c \<Rightarrow> int_str c)"

definition withActiveChild :: "int option \<Rightarrow> string \<Rightarrow> string" where
  "withActiveChild child reason = (case child of None \<Rightarrow> reason | Some c \<Rightarrow> reason @ '' for child '' @ int_str c)"

text \<open>The child of a verdict or a ledger: only steps of the build region have one.\<close>

definition regionChild :: "tail_env \<Rightarrow> step_name \<Rightarrow> int option" where
  "regionChild env step = (if isRegionStep step then tn_child env else None)"

section \<open>State changes\<close>

text \<open>A batch that is refused with a message is thrown.\<close>

fun batch_message :: "mutation_result \<Rightarrow> string option" where
  "batch_message (Conflict m) = Some m"
| "batch_message (LeaseError m) = Some m"
| "batch_message (Persistence m) = Some m"
| "batch_message _ = None"

fun resolved_fields :: "mutation_result \<Rightarrow> string list" where
  "resolved_fields (Applied (Some fs)) = fs"
| "resolved_fields _ = []"

definition applyStateBatch ::
  "tail_env \<Rightarrow> mutation list \<Rightarrow> state_doc \<Rightarrow> (state_doc \<times> mutation_result) throws" where
  "applyStateBatch env mutations doc =
     (case tn_applyBatch env doc mutations of (doc', result) \<Rightarrow>
        (case batch_message result of Some m \<Rightarrow> Inl m | None \<Rightarrow> Inr (doc', result)))"

definition assign_changes :: "conduct_state \<Rightarrow> (string \<times> jval) list \<Rightarrow> conduct_state" where
  "assign_changes s changes = foldl (\<lambda>u (f, v). u(f \<mapsto> v)) s changes"

text \<open>
  Every change carries the in-memory value it was derived from. The recreation of a state file that was
  deleted during the run is left out.
\<close>

definition commitStateChanges ::
  "tail_env \<Rightarrow> string \<Rightarrow> (string \<times> jval) list \<Rightarrow> tail_world \<Rightarrow> tail_world throws" where
  "commitStateChanges env name changes w =
     (let current = tl_state w;
          mutations = map (\<lambda>(field, nxt). \<lparr>mu_field = field, mu_expected = current field, mu_intent = name, mu_next = nxt\<rparr>)
                        (filter (\<lambda>(field, nxt). \<not> object_is (current field) (Some nxt)) changes)
      in if mutations = [] then Inr w
         else (case applyStateBatch env mutations (tl_doc w) of
                 Inl m \<Rightarrow> Inl m
               | Inr (doc, result) \<Rightarrow>
                   Inr (w\<lparr>tl_doc := doc,
                          tl_state := assign_changes current
                            (filter (\<lambda>(field, _). field \<notin> set (resolved_fields result)) changes)\<rparr>)))"

text \<open>The fields navigation changes are the target and steps of the registry.\<close>

definition navigateStateBack :: "tail_env \<Rightarrow> step_name \<Rightarrow> step_name list \<Rightarrow> tail_world \<Rightarrow> tail_world throws" where
  "navigateStateBack env target preserve w =
     (let before = tl_state w;
          next_state = fst (navigateBack before target (tn_steps env) preserve);
          touched = stable_unique (target # map sd_name (tn_steps env));
          changes = List.map_filter (\<lambda>f. case next_state f of
                        Some v \<Rightarrow> if object_is (before f) (Some v) then None else Some (f, v) | None \<Rightarrow> None) touched
      in commitStateChanges env (''navigate back to '' @ target) changes w)"

section \<open>Reading verdicts\<close>

text \<open>
  The overlay of an active child: each region verdict is the child's, and one that only an earlier
  round satisfied is masked. \<open>verdict_order\<close> is the order of the object's properties.
\<close>

definition readGateVerdictOverlay :: "tail_env \<Rightarrow> verdict_files \<Rightarrow> verdicts" where
  "readGateVerdictOverlay env files =
     (let flat = readAllVerdicts files (tn_dir env) (tn_listing env files)
      in case tn_child env of
           None \<Rightarrow> flat
         | Some c \<Rightarrow>
             foldl (\<lambda>verdicts step.
               (case readVerdict files (tn_dir env) step (Some c) of
                  Some v \<Rightarrow> if tn_routedRound env \<noteq> None \<and> gv_satisfied v \<and> gv_routedRound v \<noteq> tn_routedRound env
                    then verdicts(step := None) else verdicts(step \<mapsto> v)
                | None \<Rightarrow> verdicts(step := None))) flat CHILD_REGION_STEPS)"

definition verdict_order :: "tail_env \<Rightarrow> verdict_files \<Rightarrow> step_name list" where
  "verdict_order env files =
     stable_unique (map (\<lambda>entry. take (length entry - 5) entry)
         (filter (\<lambda>entry. ends_with entry ''.json'' \<and> entry \<notin> set RETIRED_VERDICT_FILES)
           (case tn_listing env files of None \<Rightarrow> [] | Some es \<Rightarrow> es))
       @ (if tn_child env = None then [] else CHILD_REGION_STEPS))"

section \<open>Kickbacks\<close>

datatype scan_result = ScanNone | ScanKicked | ScanHalted

definition halted :: "string \<Rightarrow> tail_world \<Rightarrow> tail_world" where
  "halted reason w = w\<lparr>tl_halt := Some reason\<rparr>"

text \<open>The charge of one re-opened gate, on the ledger of its region child.\<close>

definition charge_kickback ::
  "tail_env \<Rightarrow> step_name \<Rightarrow> kickback_mark \<Rightarrow> tail_world \<Rightarrow> tail_world \<times> (bump_result \<times> gate_entry option) throws" where
  "charge_kickback env target mark w =
     (let child = regionChild env target;
          input = \<lparr>bi_treeHash = tn_treeHash env, bi_resolvedCount = tn_resolvedCount env child,
                   bi_reason = kb_evidence mark\<rparr>
      in if child = None
         then (case bumpKickbackGateInLedger (tn_ledgerEnv env) False target input (tl_ledger w) of
                 (doc, r) \<Rightarrow> (w\<lparr>tl_ledger := doc\<rparr>, r))
         else (case bumpKickbackGateInLedger (tn_ledgerEnv env) True target input (tl_childLedger w) of
                 (doc, r) \<Rightarrow> (w\<lparr>tl_childLedger := doc\<rparr>, r)))"

definition ping_pong_reason :: "tail_env \<Rightarrow> step_name \<Rightarrow> gate_entry \<Rightarrow> string" where
  "ping_pong_reason env target entry =
     withActiveChild (regionChild env target)
       (''kickback ping-pong: '' @ target @ '' re-opened '' @ int_str (ge_count entry + 1) @ '' times (cap 2): '' @
        (if ge_lastReason entry = [] then ''no reasons recorded'' else ge_lastReason entry))"

definition kickback_entry :: "tail_env \<Rightarrow> step_name \<Rightarrow> step_name \<Rightarrow> kickback_mark \<Rightarrow> tail_world \<Rightarrow> decide_entry_input" where
  "kickback_entry env stepName target mark w =
     \<lparr>de_target = target, de_steps = tn_steps env, de_daemon = tn_daemon env, de_tier = state_tier (tl_state w),
      de_hasContract = tn_hasContract env target, de_artifactPresent = tn_artifactPresent env target,
      de_satisfied = Some False, de_grant = None, de_sourceGate = stepName, de_evidence = Some (kb_evidence mark)\<rparr>"

definition renderDecideEntryHalt :: "decide_entry_halt \<Rightarrow> string" where
  "renderDecideEntryHalt h =
     join [CHR 0x0A]
       [''DECIDE entry refused -- autonomous run may not enter DECIDE without operator direction.'', '''',
        ''Source gate:       '' @ dh_sourceGate h, ''Requested target:  '' @ dh_target h,
        ''Evidence:          '' @ (case dh_evidence h of Some e \<Rightarrow> e | None \<Rightarrow> ''none provided''),
        ''Why refused:       '' @ dh_reason h,
        ''Operator choices:  direct a return to a named step | correct the routing target | reject the kickback'']"

text \<open>One verdict the step re-opened: charged, admitted, and navigated to.\<close>

definition scan_kickback ::
  "tail_env \<Rightarrow> step_name \<Rightarrow> bool \<Rightarrow> step_name \<Rightarrow> kickback_mark \<Rightarrow> tail_world \<Rightarrow> tail_world \<times> scan_result throws" where
  "scan_kickback env stepName navigate target mark w =
     (case charge_kickback env target mark w of
        (w1, Inl e) \<Rightarrow> (w1, Inl e)
      | (w1, Inr (kickback, _)) \<Rightarrow>
          if br_exhausted kickback then (halted (ping_pong_reason env target (br_entry kickback)) w1, Inr ScanHalted)
          else
            let routedFromCustomStep = (stepName \<notin> set (map sd_name ALL_STEPS))
            in (case (if routedFromCustomStep then tn_admission env stepName (ge_count (br_entry kickback)) else RoutedAdmitted) of
                  RoutedExhausted reason \<Rightarrow> (halted reason w1, Inr ScanHalted)
                | RoutedHalted reason \<Rightarrow> (halted reason w1, Inr ScanHalted)
                | RoutedAdmitted \<Rightarrow>
                    (case snd (resolveDecideEntryDisposition True (tn_grants env) (tn_root env)
                             (kickback_entry env stepName target mark w1) False) of
                       HaltDecide h \<Rightarrow> (halted (renderDecideEntryHalt h) w1, Inr ScanHalted)
                     | _ \<Rightarrow>
                         if navigate then
                           (case navigateStateBack env target [] w1 of
                              Inl e \<Rightarrow> (w1, Inl e) | Inr w2 \<Rightarrow> (w2, Inr ScanKicked))
                         else (w1, Inr ScanKicked))))"

fun scan_loop ::
  "tail_env \<Rightarrow> step_name \<Rightarrow> bool \<Rightarrow> (step_name \<times> gate_verdict option) list \<Rightarrow> tail_world \<Rightarrow> scan_result
     \<Rightarrow> tail_world \<times> scan_result throws" where
  "scan_loop env stepName navigate [] w result = (w, Inr result)"
| "scan_loop env stepName navigate ((target, v) # rest) w result =
     (case Option.bind v (\<lambda>x. if gv_satisfied x then None else gv_kickback x) of
        None \<Rightarrow> scan_loop env stepName navigate rest w result
      | Some mark \<Rightarrow>
          if kb_from mark \<noteq> stepName then scan_loop env stepName navigate rest w result
          else (case scan_kickback env stepName navigate target mark w of
                  (w', Inr ScanKicked) \<Rightarrow> scan_loop env stepName navigate rest w' ScanKicked
                | other \<Rightarrow> other))"

definition scanKickbackVerdicts ::
  "tail_env \<Rightarrow> step_name \<Rightarrow> verdicts \<Rightarrow> step_name list \<Rightarrow> bool \<Rightarrow> tail_world \<Rightarrow> tail_world \<times> scan_result throws" where
  "scanKickbackVerdicts env stepName verdicts order navigate w =
     scan_loop env stepName navigate (map (\<lambda>k. (k, verdicts k)) order) w ScanNone"

section \<open>Skips of the tail\<close>

definition tail_skip_applies :: "tail_env \<Rightarrow> conduct_state \<Rightarrow> step_def \<Rightarrow> bool" where
  "tail_skip_applies env s d =
     (getStepStatus s (sd_name d) = Pending \<and>
      (sd_name d \<in> set (tn_skippedSteps env) \<or>
       tn_track env \<in> set (case sd_skippableForTracks d of None \<Rightarrow> [] | Some ts \<Rightarrow> ts) \<or>
       shouldSkipForBootstrapMode (sd_name d) (state_bootstrap_mode s) \<or>
       shouldSkipForUpstreamSkip d (step_field s) \<or>
       (sd_name d = ''build_review'' \<and> \<not> tn_buildReviewEnabled env)))"

definition skip_cause :: "tail_env \<Rightarrow> step_name \<Rightarrow> string" where
  "skip_cause env step =
     (if step = ''build_review'' \<and> \<not> tn_buildReviewEnabled env then ''build_review disabled in config''
      else ''selector skip (tier / track / bootstrap mode / upstream skip)'')"

text \<open>The loop over the steps; the state it reads already holds the skips before.\<close>

fun skip_loop ::
  "tail_env \<Rightarrow> step_def list \<Rightarrow> tail_world \<Rightarrow> (string \<times> jval) list \<Rightarrow> (tail_world \<times> (string \<times> jval) list) throws" where
  "skip_loop env [] w skipped = Inr (w, skipped)"
| "skip_loop env (d # rest) w skipped =
     (if \<not> tail_skip_applies env (tl_state w) d then skip_loop env rest w skipped
      else
        let w1 = w\<lparr>tl_state := (tl_state w)(sd_name d \<mapsto> status_json Skipped)\<rparr>;
            skipped1 = skipped @ [(sd_name d, status_json Skipped)]
        in if truthy_flag (sd_loopGate d) \<or> truthy_flag (sd_kickbackTarget d) then
             (case recordSkipVerdict (tn_verdictIo env) (tl_files w1) (tn_dir env) (sd_name d) (skip_cause env (sd_name d))
                     (tn_now env) of
                Inl e \<Rightarrow> Inl e
              | Inr (files, _) \<Rightarrow> skip_loop env rest (w1\<lparr>tl_files := files\<rparr>) skipped1)
           else skip_loop env rest w1 skipped1)"

definition tail_skips :: "tail_env \<Rightarrow> tail_world \<Rightarrow> tail_world throws" where
  "tail_skips env w =
     (case skip_loop env (tn_steps env) w [] of
        Inl e \<Rightarrow> Inl e
      | Inr (w1, skipped) \<Rightarrow>
          if skipped = [] then Inr w1
          else (case applyStateBatch env
                  (map (\<lambda>(field, nxt). \<lparr>mu_field = field, mu_expected = tl_state w field,
                          mu_intent = ''record selector tail skips'', mu_next = nxt\<rparr>) skipped) (tl_doc w1) of
                  Inl e \<Rightarrow> Inl e
                | Inr (doc, _) \<Rightarrow> Inr (w1\<lparr>tl_doc := doc\<rparr>)))"

section \<open>Selection\<close>

datatype tail_advance = Linear | GoTo nat | Converged nat | ParkedTail | HaltedTail

definition MAX_GATE_SELECTIONS :: nat where
  "MAX_GATE_SELECTIONS = 6"

definition stuck_reason :: "tail_env \<Rightarrow> step_name \<Rightarrow> nat \<Rightarrow> string \<Rightarrow> string" where
  "stuck_reason env step sel reason =
     withActiveChild (tn_child env)
       (''gate '' @ quoted step @ '' selected '' @ nat_str sel @ '' times without satisfying: '' @ reason)"

definition tail_input :: "tail_env \<Rightarrow> step_name \<Rightarrow> verdicts \<Rightarrow> tail_world \<Rightarrow> selector_input" where
  "tail_input env regionStart verdicts w =
     \<lparr>si_steps = tn_steps env, si_state = tl_state w, si_verdicts = verdicts, si_regionStart = regionStart,
      si_routedParking = tn_parking env\<rparr>"

text \<open>The index of a name, as the caller's \<^verbatim>\<open>indexOf\<close> gives it; a selected name is in the list.\<close>

definition step_index :: "tail_env \<Rightarrow> step_name \<Rightarrow> nat" where
  "step_index env step =
     (case find_idx (\<lambda>d. sd_name d = step) (tn_steps env) of Some i \<Rightarrow> i | None \<Rightarrow> length (tn_steps env))"

definition select_step :: "tail_env \<Rightarrow> step_name \<Rightarrow> string \<Rightarrow> tail_world \<Rightarrow> tail_world \<times> tail_advance throws" where
  "select_step env step reason w =
     (let selectedIndex = clampToRunnablePrerequisite (tn_steps env) (tl_state w) (step_index env step)
      in if length (tn_steps env) \<le> selectedIndex then (w, Inr (GoTo (step_index env step)))
         else
           let selectedStep = sd_name (tn_steps env ! selectedIndex);
               selectedKey = childScopedStepKey selectedStep (tn_child env);
               sel = (case tl_stuck w selectedKey of Some n \<Rightarrow> n | None \<Rightarrow> 0) + 1;
               w1 = w\<lparr>tl_stuck := (tl_stuck w)(selectedKey \<mapsto> sel)\<rparr>
           in if MAX_GATE_SELECTIONS < sel then (halted (stuck_reason env selectedStep sel reason) w1, Inr HaltedTail)
              else if getStepStatus (tl_state w1) selectedStep = Done then
                (case commitStateChanges env (''reopen '' @ selectedStep @ '' selected gate'')
                        [(selectedStep, status_json Pending)] w1 of
                   Inl e \<Rightarrow> (w1, Inl e) | Inr w2 \<Rightarrow> (w2, Inr (GoTo selectedIndex)))
              else (w1, Inr (GoTo selectedIndex)))"

definition select_next :: "tail_env \<Rightarrow> step_name \<Rightarrow> verdicts \<Rightarrow> tail_world \<Rightarrow> tail_world \<times> tail_advance throws" where
  "select_next env regionStart verdicts w =
     (case selectNextGate (tail_input env regionStart verdicts w) of
        Inl e \<Rightarrow> (w, Inl e)
      | Inr (Parked _) \<Rightarrow> (w, Inr ParkedTail)
      | Inr (AllDone _) \<Rightarrow> (w, Inr (Converged (length (tn_steps env))))
      | Inr (Run step reason) \<Rightarrow> select_step env step reason w)"

section \<open>The step that ran\<close>

datatype after_step = AfterHalt | AfterGo

text \<open>\<^verbatim>\<open>reconcileStaleRebaseVerdict\<close>.\<close>

definition reconcileStaleRebaseVerdict :: "tail_env \<Rightarrow> tail_world \<Rightarrow> tail_world \<times> after_step" where
  "reconcileStaleRebaseVerdict env w =
     (case (tn_dispatchStartedAt env, readVerdict (tl_files w) (tn_dir env) ''rebase'' None) of
        (Some started, Some verdict) \<Rightarrow>
          if gv_satisfied verdict \<or> started \<le> gv_checkedAt verdict then (w, AfterGo)
          else if tn_outcome env = Some RebaseNoop \<or> tn_outcome env = Some RebaseMergeableSkip
            then (w\<lparr>tl_files := tn_heal env (tl_files w)\<rparr>, AfterGo)
          else (halted (''step '' @ quoted ''rebase'' @ '' completed but its gate verdict was not refreshed (stale verdict: '' @
                  (case gv_reason verdict of Some r \<Rightarrow> r | None \<Rightarrow> ''no reason recorded'') @ '')'') w, AfterHalt)
      | _ \<Rightarrow> (w, AfterGo))"

text \<open>The refund of a gate a changed rebase re-opened, without a receipt.\<close>

definition refund_review_tx :: "bool ledger_tx" where
  "refund_review_tx ledger =
     (case gate_of ledger ''build_review'' of
        None \<Rightarrow> Inr (None, False)
      | Some entry \<Rightarrow> Inr (Some (set_gate ''build_review'' (creditKickbackGateLaps entry) ledger), True))"

definition refund_review :: "tail_env \<Rightarrow> tail_world \<Rightarrow> tail_world \<times> bool throws" where
  "refund_review env w =
     (if tn_child env = None
      then (case updateKickbackLedger (tn_ledgerEnv env) False (Some ''build_review'') refund_review_tx (tl_ledger w) of
              (doc, r) \<Rightarrow> (w\<lparr>tl_ledger := doc\<rparr>, r))
      else (case updateKickbackLedger (tn_ledgerEnv env) True (Some ''build_review'') refund_review_tx (tl_childLedger w) of
              (doc, r) \<Rightarrow> (w\<lparr>tl_childLedger := doc\<rparr>, r)))"

definition REBASE_REOPENED :: "step_name list" where
  "REBASE_REOPENED = [''build'', ''test_suite'', ''build_review'', ''manual_test'', ''prd_audit'', ''architecture_review_as_built'']"

fun rebase_reopen_loop ::
  "tail_env \<Rightarrow> verdicts \<Rightarrow> step_name list \<Rightarrow> tail_world \<Rightarrow> (string \<times> jval) list \<Rightarrow> tail_world \<times> (string \<times> jval) list throws" where
  "rebase_reopen_loop env verdicts [] w reopened = (w, Inr reopened)"
| "rebase_reopen_loop env verdicts (target # rest) w reopened =
     (case Option.bind (verdicts target) (\<lambda>v. if gv_satisfied v then None else gv_kickback v) of
        None \<Rightarrow> rebase_reopen_loop env verdicts rest w reopened
      | Some mark \<Rightarrow>
          if kb_from mark \<noteq> ''rebase'' then rebase_reopen_loop env verdicts rest w reopened
          else
            (case (if target = ''build_review'' \<and> kb_cause mark \<noteq> Some (JStr ''feature-repair'') then refund_review env w
                   else (w, Inr False)) of
               (w1, Inl e) \<Rightarrow> (w1, Inl e)
             | (w1, Inr _) \<Rightarrow> rebase_reopen_loop env verdicts rest w1
                 (if getStepStatus (tl_state w1) target \<noteq> Skipped then reopened @ [(target, status_json Pending)] else reopened)))"

definition after_rebase :: "tail_env \<Rightarrow> tail_world \<Rightarrow> tail_world \<times> after_step throws" where
  "after_rebase env w =
     (case tn_sealError env of
        Some e \<Rightarrow> (halted e w, Inr AfterHalt)
      | None \<Rightarrow>
          (case tn_outcome env of
             Some (RebaseConflict r) \<Rightarrow> (halted (''rebase conflict -- parked for human resolution: '' @ r) w, Inr AfterHalt)
           | Some (RebaseFlattenRefused r) \<Rightarrow> (halted (''rebase conflict -- parked for human resolution: '' @ r) w, Inr AfterHalt)
           | _ \<Rightarrow>
               (case reconcileStaleRebaseVerdict env w of
                  (w1, AfterHalt) \<Rightarrow> (w1, Inr AfterHalt)
                | (w1, AfterGo) \<Rightarrow>
                    let applied = Option.bind (readVerdict (tl_files w1) (tn_dir env) ''rebase'' None) gv_rebaseOperation
                    in if tn_outcome env = Some RebaseChanged \<and>
                          (case applied of Some op' \<Rightarrow> jget op' ''status'' \<noteq> Some (JStr ''applied'') | None \<Rightarrow> True)
                       then
                         (case rebase_reopen_loop env (readAllVerdicts (tl_files w1) (tn_dir env) (tn_listing env (tl_files w1)))
                                 REBASE_REOPENED w1 [] of
                            (w2, Inl e) \<Rightarrow> (w2, Inl e)
                          | (w2, Inr reopened) \<Rightarrow>
                              (case commitStateChanges env ''reopen persisted rebase kickbacks'' reopened w2 of
                                 Inl e \<Rightarrow> (w2, Inl e) | Inr w3 \<Rightarrow> (w3, Inr AfterGo)))
                       else (w1, Inr AfterGo))))"

text \<open>The verdict of any other verdict-bearing step.\<close>

definition passed_verdict :: "string option \<Rightarrow> int \<Rightarrow> gate_verdict" where
  "passed_verdict reason now =
     \<lparr>gv_satisfied = True, gv_routedRound = None, gv_outcome = None, gv_reason = reason, gv_checkedAt = now,
      gv_kickback = None, gv_preservation = None, gv_rebaseOperation = None\<rparr>"

definition step_verdict :: "tail_env \<Rightarrow> step_name \<Rightarrow> tail_world \<Rightarrow> (tail_world \<times> gate_verdict) throws" where
  "step_verdict env step w =
     (let write = (\<lambda>verdict child. map_sum id (\<lambda>files. (w\<lparr>tl_files := files\<rparr>, verdict))
                    (writeVerdict (tn_verdictIo env) (tl_files w) (tn_dir env) step verdict child
                       (if step = ''build'' then tn_routedRound env else None)))
      in if step = ''build'' \<and> tn_routedForward env \<noteq> None then
           write (passed_verdict (Some (case the (tn_routedForward env) of Some r \<Rightarrow> r
                    | None \<Rightarrow> ''build routed after commit movement'')) (tn_now env)) (tn_child env)
         else if step = ''finish'' then write (passed_verdict None (tn_now env)) None
         else map_sum id (\<lambda>(files, verdict). (w\<lparr>tl_files := files\<rparr>, verdict))
                (computeAndWriteVerdict (tn_verdictIo env) (tl_files w) (tn_dir env) step (tn_completion env step)
                   (tn_now env) (tn_child env) (tn_routedRound env) False))"

definition after_gate :: "tail_env \<Rightarrow> step_def \<Rightarrow> nat \<Rightarrow> tail_world \<Rightarrow> tail_world \<times> after_step throws" where
  "after_gate env step firstLoopIndex w =
     (case step_verdict env (sd_name step) w of
        Inl e \<Rightarrow> (w, Inl e)
      | Inr (w1, verdict) \<Rightarrow>
          let w2 = (if gv_satisfied verdict
                    then w1\<lparr>tl_stuck := (tl_stuck w1)(childScopedStepKey (sd_name step) (tn_child env) := None)\<rparr> else w1)
          in if sd_name step = ''architecture_review'' \<and> \<not> gv_satisfied verdict \<and> step_index env (sd_name step) < firstLoopIndex
             then (case commitStateChanges env (''reopen unsatisfied '' @ sd_name step @ '' gate'')
                          [(sd_name step, status_json Pending)] w2 of
                     Inl e \<Rightarrow> (w2, Inl e)
                   | Inr w3 \<Rightarrow> (halted (case gv_reason verdict of Some r \<Rightarrow> r
                                   | None \<Rightarrow> sd_name step @ '' gate is unsatisfied'') w3, Inr AfterHalt))
             else (w2, Inr AfterGo))"

definition after_step_ran :: "tail_env \<Rightarrow> step_def \<Rightarrow> gate_topology \<Rightarrow> tail_world \<Rightarrow> tail_world \<times> after_step throws" where
  "after_step_ran env step topo w =
     (if sd_name step = ''rebase'' then after_rebase env w
      else if sd_name step \<in> set (gt_verdictSteps topo) then after_gate env step (gt_firstLoopIndex topo) w
      else (w, Inr AfterGo))"

section \<open>The whole advance\<close>

definition advanceTail :: "tail_env \<Rightarrow> step_def \<Rightarrow> tail_world \<Rightarrow> tail_world \<times> tail_advance throws" where
  "advanceTail env step w =
     (if \<not> tn_verifyArtifacts env then (w, Inr Linear)
      else
        let topo = deriveGateTopology (tn_steps env)
        in (case after_step_ran env step topo w of
              (w1, Inl e) \<Rightarrow> (w1, Inl e)
            | (w1, Inr AfterHalt) \<Rightarrow> (w1, Inr HaltedTail)
            | (w1, Inr AfterGo) \<Rightarrow>
                if step_index env (sd_name step) < gt_firstLoopIndex topo then
                  (case scanKickbackVerdicts env (sd_name step)
                          (readAllVerdicts (tl_files w1) (tn_dir env) (tn_listing env (tl_files w1)))
                          (verdict_order (env\<lparr>tn_child := None\<rparr>) (tl_files w1)) False w1 of
                     (w2, Inl e) \<Rightarrow> (w2, Inl e)
                   | (w2, Inr ScanHalted) \<Rightarrow> (w2, Inr HaltedTail)
                   | (w2, Inr _) \<Rightarrow> (w2, Inr Linear))
                else
                  (case tail_skips env w1 of
                     Inl e \<Rightarrow> (w1, Inl e)
                   | Inr w2 \<Rightarrow>
                       let verdicts = readGateVerdictOverlay env (tl_files w2)
                       in (case (if sd_name step = ''rebase'' then (w2, Inr ScanNone)
                                 else scanKickbackVerdicts env (sd_name step) verdicts (verdict_order env (tl_files w2)) True w2) of
                             (w3, Inl e) \<Rightarrow> (w3, Inl e)
                           | (w3, Inr ScanHalted) \<Rightarrow> (w3, Inr HaltedTail)
                           | (w3, Inr _) \<Rightarrow>
                               (case gt_regionStart topo of
                                  None \<Rightarrow> (w3, Inl ''no region start'')
                                | Some regionStart \<Rightarrow> select_next env regionStart verdicts w3)))))"

end
