(* ===== verification/Pool.thy ===== *)
theory Pool
  imports Prelude
begin

text \<open>
  The semaphore of the concurrent group executor (\<^verbatim>\<open>runWithConcurrency\<close> of
  \<^verbatim>\<open>engine/group-core.ts\<close>): its handlers as functions on the closure's variables, its runs as the
  interleavings of the thunks' settlements with one abort. \<open>pl_running\<close> are the indices whose
  promises are pending; the code only counts them.
\<close>

section \<open>The handlers\<close>

datatype 'a pool_end = Resolved "'a list" | Rejected string

record 'a pool =
  pl_results :: "'a option list"
  pl_nextIndex :: nat
  pl_inFlight :: nat
  pl_completed :: nat
  pl_settled :: bool
  pl_aborted :: bool
  pl_running :: "nat set"
  pl_end :: "'a pool_end option"

text \<open>A promise keeps its first settlement.\<close>

definition settle :: "'a pool_end \<Rightarrow> 'a pool \<Rightarrow> 'a pool" where
  "settle e p = p\<lparr>pl_settled := True, pl_end := (case pl_end p of None \<Rightarrow> Some e | Some x \<Rightarrow> Some x)\<rparr>"

definition present :: "'a option list \<Rightarrow> 'a list" where
  "present xs = List.map_filter id xs"

definition finishOnAbort :: "'a pool \<Rightarrow> 'a pool" where
  "finishOnAbort p =
     (if pl_settled p \<or> \<not> pl_aborted p \<or> 0 < pl_inFlight p then p
      else settle (Resolved (present (pl_results p))) p)"

definition launchNext :: "'a pool \<Rightarrow> 'a pool" where
  "launchNext p =
     (if pl_settled p then p
      else if pl_aborted p then p
      else if length (pl_results p) \<le> pl_nextIndex p then p
      else p\<lparr>pl_nextIndex := pl_nextIndex p + 1, pl_inFlight := pl_inFlight p + 1,
             pl_running := insert (pl_nextIndex p) (pl_running p)\<rparr>)"

definition on_value :: "nat \<Rightarrow> 'a \<Rightarrow> 'a pool \<Rightarrow> 'a pool" where
  "on_value index v p =
     (let p1 = p\<lparr>pl_results := (pl_results p)[index := Some v], pl_completed := pl_completed p + 1,
                 pl_inFlight := pl_inFlight p - 1, pl_running := pl_running p - {index}\<rparr>
      in if pl_aborted p1 then finishOnAbort p1
         else if pl_completed p1 = length (pl_results p1) then settle (Resolved (present (pl_results p1))) p1
         else launchNext p1)"

definition on_error :: "nat \<Rightarrow> string \<Rightarrow> 'a pool \<Rightarrow> 'a pool" where
  "on_error index err p =
     (let p1 = p\<lparr>pl_inFlight := pl_inFlight p - 1, pl_running := pl_running p - {index}\<rparr>
      in if pl_aborted p1 then finishOnAbort p1
         else if \<not> pl_settled p1 then settle (Rejected err) p1 else p1)"

definition on_abort :: "'a pool \<Rightarrow> 'a pool" where
  "on_abort p = finishOnAbort (p\<lparr>pl_aborted := True\<rparr>)"

definition fresh_pool :: "nat \<Rightarrow> bool \<Rightarrow> 'a pool" where
  "fresh_pool n aborted = \<lparr>pl_results = replicate n None, pl_nextIndex = 0, pl_inFlight = 0, pl_completed = 0,
     pl_settled = False, pl_aborted = aborted, pl_running = {}, pl_end = None\<rparr>"

text \<open>The synchronous part: up to \<open>limit\<close> launches. \<open>aborted\<close> is the state of the signal at the call.\<close>

definition runWithConcurrency :: "nat \<Rightarrow> int \<Rightarrow> bool \<Rightarrow> 'a pool throws" where
  "runWithConcurrency n limit aborted =
     (if limit < 1 then Inl (''group-core: runWithConcurrency limit must be >= 1, got '' @ int_str limit)
      else if n = 0 then Inr ((fresh_pool n aborted)\<lparr>pl_end := Some (Resolved [])\<rparr>)
      else Inr (finishOnAbort ((launchNext ^^ min (nat limit) n) (fresh_pool n aborted))))"

text \<open>
  A run: \<open>vals\<close> tells how each thunk settles; a pending one may settle at any time, and the signal, if
  there is one, fires at most once.
\<close>

inductive pool_step :: "(nat \<Rightarrow> 'a throws) \<Rightarrow> bool \<Rightarrow> 'a pool \<Rightarrow> 'a pool \<Rightarrow> bool"
  for vals :: "nat \<Rightarrow> 'a throws" and signal :: bool where
  thunk_value: "i \<in> pl_running p \<Longrightarrow> vals i = Inr v \<Longrightarrow> pool_step vals signal p (on_value i v p)"
| thunk_error: "i \<in> pl_running p \<Longrightarrow> vals i = Inl e \<Longrightarrow> pool_step vals signal p (on_error i e p)"
| signal_abort: "signal \<Longrightarrow> \<not> pl_aborted p \<Longrightarrow> pool_step vals signal p (on_abort p)"

inductive_cases pool_stepE: "pool_step vals signal p q"

section \<open>The invariant\<close>

definition finished :: "'a pool \<Rightarrow> nat set" where
  "finished p = {i. i < length (pl_results p) \<and> pl_results p ! i \<noteq> None}"

definition failed :: "'a pool \<Rightarrow> nat set" where
  "failed p = {..<pl_nextIndex p} - pl_running p - finished p"

definition pool_shape :: "nat \<Rightarrow> nat \<Rightarrow> (nat \<Rightarrow> 'a throws) \<Rightarrow> 'a pool \<Rightarrow> bool" where
  "pool_shape n limit vals p =
     (length (pl_results p) = n \<and> pl_nextIndex p \<le> n \<and> pl_running p \<subseteq> {..<pl_nextIndex p} \<and>
      pl_inFlight p = card (pl_running p) \<and> pl_inFlight p \<le> limit \<and> pl_completed p = card (finished p) \<and>
      finished p \<subseteq> {..<pl_nextIndex p} - pl_running p \<and>
      (\<forall>i\<in>finished p. vals i = Inr (the (pl_results p ! i))) \<and> (\<forall>i\<in>failed p. \<exists>e. vals i = Inl e))"

definition pool_open :: "nat \<Rightarrow> nat \<Rightarrow> 'a pool \<Rightarrow> bool" where
  "pool_open n limit p =
     (\<not> pl_settled p \<and> pl_running p \<noteq> {} \<and>
      (\<not> pl_aborted p \<longrightarrow> failed p = {} \<and> (pl_nextIndex p = n \<or> pl_inFlight p = limit)))"

definition pool_closed :: "nat \<Rightarrow> (nat \<Rightarrow> 'a throws) \<Rightarrow> 'a pool \<Rightarrow> 'a pool_end \<Rightarrow> bool" where
  "pool_closed n vals p e =
     (pl_settled p \<and>
      (case e of
         Resolved xs \<Rightarrow> pl_running p = {} \<and> xs = present (pl_results p) \<and> (pl_aborted p \<or> finished p = {..<n})
       | Rejected err \<Rightarrow> (\<exists>i\<in>failed p. vals i = Inl err)))"

definition pool_inv :: "nat \<Rightarrow> nat \<Rightarrow> (nat \<Rightarrow> 'a throws) \<Rightarrow> 'a pool \<Rightarrow> bool" where
  "pool_inv n limit vals p =
     (pool_shape n limit vals p \<and>
      (case pl_end p of None \<Rightarrow> pool_open n limit p | Some e \<Rightarrow> pool_closed n vals p e))"

lemma launch_shape:
  assumes "pool_shape n limit vals p" "pl_inFlight p < limit"
  shows "pool_shape n limit vals (launchNext p)" "finished (launchNext p) = finished p" "failed (launchNext p) = failed p"
proof -
  from assms have sub: "pl_running p \<subseteq> {..<pl_nextIndex p}" "finished p \<subseteq> {..<pl_nextIndex p}"
    and fin: "finite (pl_running p)" and new: "pl_nextIndex p \<notin> pl_running p"
    by (auto simp: pool_shape_def intro: finite_subset)
  show f: "finished (launchNext p) = finished p" by (simp add: launchNext_def finished_def)
  show "failed (launchNext p) = failed p"
    using sub by (auto simp: failed_def f) (auto simp: launchNext_def split: if_splits)
  then show "pool_shape n limit vals (launchNext p)"
    using assms sub fin new unfolding pool_shape_def f
    by (auto simp: launchNext_def less_Suc_eq split: if_splits)
qed

lemma launch_keeps [simp]:
  "pl_settled (launchNext p) = pl_settled p" "pl_aborted (launchNext p) = pl_aborted p" "pl_end (launchNext p) = pl_end p"
  "pl_results (launchNext p) = pl_results p" "pl_completed (launchNext p) = pl_completed p"
  by (simp_all add: launchNext_def)

lemma shape_flags [simp]:
  "pool_shape n limit vals (p\<lparr>pl_settled := a\<rparr>) = pool_shape n limit vals p"
  "pool_shape n limit vals (p\<lparr>pl_aborted := a\<rparr>) = pool_shape n limit vals p"
  "pool_shape n limit vals (p\<lparr>pl_end := e\<rparr>) = pool_shape n limit vals p"
  "finished (p\<lparr>pl_settled := a\<rparr>) = finished p" "finished (p\<lparr>pl_aborted := a\<rparr>) = finished p" "finished (p\<lparr>pl_end := e\<rparr>) = finished p"
  "failed (p\<lparr>pl_settled := a\<rparr>) = failed p" "failed (p\<lparr>pl_aborted := a\<rparr>) = failed p" "failed (p\<lparr>pl_end := e\<rparr>) = failed p"
  by (simp_all add: pool_shape_def finished_def failed_def)

text \<open>One thunk that settles with a value, or fails, before the handler goes on.\<close>

definition took_value :: "nat \<Rightarrow> 'a \<Rightarrow> 'a pool \<Rightarrow> 'a pool" where
  "took_value i v p = p\<lparr>pl_results := (pl_results p)[i := Some v], pl_completed := pl_completed p + 1,
     pl_inFlight := pl_inFlight p - 1, pl_running := pl_running p - {i}\<rparr>"

definition took_error :: "nat \<Rightarrow> 'a pool \<Rightarrow> 'a pool" where
  "took_error i p = p\<lparr>pl_inFlight := pl_inFlight p - 1, pl_running := pl_running p - {i}\<rparr>"

lemma running_fin: "pool_shape n limit vals p \<Longrightarrow> finite (pl_running p)"
  by (auto simp: pool_shape_def intro: finite_subset)

lemma finished_fin: "finite (finished p)"
  by (simp add: finished_def)

lemma took_value_shape:
  assumes "pool_shape n limit vals p" "i \<in> pl_running p" "vals i = Inr v"
  shows "pool_shape n limit vals (took_value i v p)" "finished (took_value i v p) = insert i (finished p)"
    "failed (took_value i v p) = failed p" "pl_inFlight (took_value i v p) < pl_inFlight p"
proof -
  note fin = running_fin [OF assms(1)]
  from assms have i: "i < n" "i \<notin> finished p" "i < pl_nextIndex p" "length (pl_results p) = n"
    by (auto simp: pool_shape_def)
  show f: "finished (took_value i v p) = insert i (finished p)"
    using i by (auto simp: finished_def took_value_def nth_list_update)
  show g: "failed (took_value i v p) = failed p"
    unfolding failed_def f using assms(2) by (auto simp: took_value_def)
  have pos: "0 < card (pl_running p)" using fin assms(2) by (auto simp: card_gt_0_iff)
  with assms(1) show "pl_inFlight (took_value i v p) < pl_inFlight p" by (simp add: pool_shape_def took_value_def)
  show "pool_shape n limit vals (took_value i v p)"
    using assms i fin pos finished_fin [of p] unfolding pool_shape_def f g
    by (auto simp: took_value_def card_Diff_singleton nth_list_update)
qed

lemma took_error_shape:
  assumes "pool_shape n limit vals p" "i \<in> pl_running p" "vals i = Inl e"
  shows "pool_shape n limit vals (took_error i p)" "finished (took_error i p) = finished p"
    "failed (took_error i p) = insert i (failed p)" "pl_inFlight (took_error i p) < pl_inFlight p"
proof -
  note fin = running_fin [OF assms(1)]
  from assms have i: "i < n" "i \<notin> finished p" "i < pl_nextIndex p" by (auto simp: pool_shape_def)
  show f: "finished (took_error i p) = finished p" by (simp add: finished_def took_error_def)
  show g: "failed (took_error i p) = insert i (failed p)"
    unfolding failed_def f using assms(2) i by (auto simp: took_error_def)
  have pos: "0 < card (pl_running p)" using fin assms(2) by (auto simp: card_gt_0_iff)
  with assms(1) show "pl_inFlight (took_error i p) < pl_inFlight p" by (simp add: pool_shape_def took_error_def)
  show "pool_shape n limit vals (took_error i p)"
    using assms i fin pos unfolding pool_shape_def f g
    by (auto simp: took_error_def card_Diff_singleton)
qed

lemma finishOnAbort_inv:
  assumes "pool_shape n limit vals p" "pl_aborted p"
    "case pl_end p of None \<Rightarrow> \<not> pl_settled p | Some e \<Rightarrow> pool_closed n vals p e"
  shows "pool_inv n limit vals (finishOnAbort p)"
proof (cases "pl_end p")
  case (Some e)
  with assms show ?thesis by (simp add: finishOnAbort_def pool_inv_def pool_closed_def)
next
  case None
  have "pl_inFlight p = 0 \<longleftrightarrow> pl_running p = {}"
    using assms(1) running_fin [OF assms(1)] by (simp add: pool_shape_def)
  with None assms show ?thesis
    by (auto simp: finishOnAbort_def pool_inv_def pool_open_def pool_closed_def settle_def split: if_splits)
qed

lemma on_value_took: "on_value i v p =
   (if pl_aborted p then finishOnAbort (took_value i v p)
    else if pl_completed (took_value i v p) = length (pl_results p)
      then settle (Resolved (present (pl_results (took_value i v p)))) (took_value i v p)
    else launchNext (took_value i v p))"
  by (simp add: on_value_def took_value_def Let_def)

lemma on_error_took: "on_error i e p =
   (if pl_aborted p then finishOnAbort (took_error i p)
    else if \<not> pl_settled p then settle (Rejected e) (took_error i p) else took_error i p)"
  by (simp add: on_error_def took_error_def Let_def)

lemma took_keeps [simp]:
  "pl_settled (took_value i v p) = pl_settled p" "pl_aborted (took_value i v p) = pl_aborted p"
  "pl_end (took_value i v p) = pl_end p" "length (pl_results (took_value i v p)) = length (pl_results p)"
  "pl_nextIndex (took_value i v p) = pl_nextIndex p" "pl_running (took_value i v p) = pl_running p - {i}"
  "pl_settled (took_error i p) = pl_settled p" "pl_aborted (took_error i p) = pl_aborted p"
  "pl_end (took_error i p) = pl_end p" "pl_nextIndex (took_error i p) = pl_nextIndex p"
  "pl_running (took_error i p) = pl_running p - {i}" "pl_results (took_error i p) = pl_results p"
  by (simp_all add: took_value_def took_error_def)

lemma all_finished:
  assumes "pool_shape n limit vals p"
  shows "pl_completed p = n \<longleftrightarrow> finished p = {..<n}"
proof
  assume c: "pl_completed p = n"
  have sub: "finished p \<subseteq> {..<n}" using assms by (auto simp: pool_shape_def)
  with c assms show "finished p = {..<n}"
    by (intro card_subset_eq) (auto simp: pool_shape_def)
next
  assume "finished p = {..<n}"
  with assms show "pl_completed p = n" by (simp add: pool_shape_def)
qed

lemma all_finished_idle:
  "pool_shape n limit vals p \<Longrightarrow> finished p = {..<n} \<Longrightarrow> pl_running p = {} \<and> failed p = {}"
proof -
  assume sh: "pool_shape n limit vals p" and fin: "finished p = {..<n}"
  then have "pl_running p \<subseteq> {..<n}" "{..<n} \<inter> pl_running p = {}" "pl_nextIndex p \<le> n" by (auto simp: pool_shape_def)
  then show ?thesis using fin by (auto simp: failed_def)
qed

lemma launch_open:
  assumes "pool_shape n limit vals p" "\<not> pl_settled p" "\<not> pl_aborted p" "failed p = {}" "finished p \<noteq> {..<n}"
    "pl_nextIndex p = n \<or> Suc (pl_inFlight p) = limit" "pl_inFlight p < limit"
  shows "pool_open n limit (launchNext p)"
proof (cases "pl_nextIndex p = n")
  case True
  with assms(1) have same: "launchNext p = p" by (simp add: launchNext_def pool_shape_def)
  from assms(1,5) True obtain i where "i < n" "i \<notin> finished p" by (auto simp: pool_shape_def)
  with assms(4) True have "i \<in> pl_running p" by (auto simp: failed_def)
  with True assms same show ?thesis by (auto simp: pool_open_def)
next
  case False
  with assms show ?thesis
    using launch_shape(3) [OF assms(1,7)]
    by (auto simp: pool_open_def launchNext_def pool_shape_def)
qed

lemma value_inv:
  assumes "pool_inv n limit vals p" "i \<in> pl_running p" "vals i = Inr v"
  shows "pool_inv n limit vals (on_value i v p)"
proof -
  let ?q = "took_value i v p"
  from assms(1) have sh: "pool_shape n limit vals p" by (simp add: pool_inv_def)
  note q = took_value_shape [OF sh assms(2,3)]
  have len: "length (pl_results p) = n" using sh by (simp add: pool_shape_def)
  show ?thesis
  proof (cases "pl_end p")
    case None
    with assms(1) have op: "pool_open n limit p" by (simp add: pool_inv_def)
    show ?thesis
    proof (cases "pl_aborted p")
      case True
      with None op q(1) show ?thesis
        by (simp add: on_value_took) (rule finishOnAbort_inv; simp add: pool_open_def)
    next
      case False
      with op have fl: "failed ?q = {}" and nx: "pl_nextIndex ?q = n \<or> Suc (pl_inFlight ?q) = limit"
        using q(3,4) by (auto simp: pool_open_def took_value_def)
      show ?thesis
      proof (cases "pl_completed ?q = n")
        case True
        with all_finished [OF q(1)] have "finished ?q = {..<n}" by simp
        with all_finished_idle [OF q(1)] True False None len q(1) show ?thesis
          by (simp add: on_value_took settle_def pool_inv_def pool_closed_def)
      next
        case nf: False
        have lt: "pl_inFlight ?q < limit" using q(4) sh by (simp add: pool_shape_def)
        have "pool_open n limit (launchNext ?q)"
          using q(1) op False fl nf all_finished [OF q(1)] nx lt
          by (intro launch_open) (auto simp: pool_open_def)
        with launch_shape(1) [OF q(1) lt] nf False None len show ?thesis
          by (simp add: on_value_took pool_inv_def)
      qed
    qed
  next
    case (Some e)
    with assms(1) have cl: "pool_closed n vals p e" by (simp add: pool_inv_def)
    with assms(2) obtain err where e: "e = Rejected err" and st: "pl_settled p"
      by (auto simp: pool_closed_def split: pool_end.splits)
    from cl e q(3) have clq: "pool_closed n vals ?q e" by (simp add: pool_closed_def)
    from clq e have "failed ?q \<noteq> {}" by (auto simp: pool_closed_def)
    then have "pl_completed ?q \<noteq> n" using all_finished [OF q(1)] all_finished_idle [OF q(1)] by auto
    then have "on_value i v p = ?q"
      using st len by (simp add: on_value_took finishOnAbort_def launchNext_def)
    with q(1) clq Some show ?thesis by (simp add: pool_inv_def)
  qed
qed

lemma error_inv:
  assumes "pool_inv n limit vals p" "i \<in> pl_running p" "vals i = Inl err"
  shows "pool_inv n limit vals (on_error i err p)"
proof -
  let ?q = "took_error i p"
  from assms(1) have sh: "pool_shape n limit vals p" by (simp add: pool_inv_def)
  note q = took_error_shape [OF sh assms(2,3)]
  show ?thesis
  proof (cases "pl_end p")
    case None
    with assms(1) have op: "pool_open n limit p" by (simp add: pool_inv_def)
    show ?thesis
    proof (cases "pl_aborted p")
      case True
      with None op q(1) show ?thesis
        by (simp add: on_error_took) (rule finishOnAbort_inv; simp add: pool_open_def)
    next
      case False
      with None op q(1,3) assms(3) show ?thesis
        by (auto simp: on_error_took settle_def pool_inv_def pool_open_def pool_closed_def)
    qed
  next
    case (Some e)
    with assms(1) have cl: "pool_closed n vals p e" by (simp add: pool_inv_def)
    with assms(2) obtain err' where e: "e = Rejected err'" and st: "pl_settled p"
      by (auto simp: pool_closed_def split: pool_end.splits)
    from cl e q(3) have clq: "pool_closed n vals ?q e" by (auto simp: pool_closed_def)
    have "on_error i err p = ?q" using st by (simp add: on_error_took finishOnAbort_def)
    with q(1) clq Some show ?thesis by (simp add: pool_inv_def)
  qed
qed

lemma abort_inv: "pool_inv n limit vals p \<Longrightarrow> pool_inv n limit vals (on_abort p)"
  unfolding on_abort_def
  by (rule finishOnAbort_inv) (auto simp: pool_inv_def pool_open_def pool_closed_def split: option.splits pool_end.splits)

lemma step_inv: "pool_step vals signal p q \<Longrightarrow> pool_inv n limit vals p \<Longrightarrow> pool_inv n limit vals q"
  by (erule pool_stepE) (auto intro: value_inv error_inv abort_inv)

section \<open>Runs\<close>

lemma fresh_fields [simp]:
  "pl_aborted (fresh_pool n a) = a" "\<not> pl_settled (fresh_pool n a)" "pl_end (fresh_pool n a) = None"
  "pl_inFlight (fresh_pool n a) = 0" "pl_running (fresh_pool n a) = {}" "pl_results (fresh_pool n a) = replicate n None"
  by (simp_all add: fresh_pool_def)

lemma fresh_shape: "0 < limit \<Longrightarrow> pool_shape n limit vals (fresh_pool n aborted)"
  by (auto simp: pool_shape_def fresh_pool_def finished_def failed_def)

lemma launch_loop:
  fixes vals :: "nat \<Rightarrow> 'a throws"
  assumes "\<not> aborted" "m \<le> limit" "m \<le> n" "0 < limit"
  shows "let p = (launchNext ^^ m) (fresh_pool n aborted) in pool_shape n limit vals p \<and> pl_inFlight p = m \<and>
     pl_nextIndex p = m \<and> \<not> pl_settled p \<and> \<not> pl_aborted p \<and> pl_end p = None \<and> failed p = {} \<and> pl_running p = {..<m}"
  using assms(2,3)
proof (induction m)
  case 0
  then show ?case using fresh_shape [OF assms(4), of n vals aborted] assms(1)
    by (simp add: Let_def fresh_pool_def failed_def finished_def)
next
  case (Suc m)
  let ?p = "(launchNext ^^ m) (fresh_pool n aborted) :: 'a pool"
  from Suc have p: "pool_shape n limit vals ?p" "pl_inFlight ?p = m" "pl_nextIndex ?p = m" "\<not> pl_settled ?p"
    "\<not> pl_aborted ?p" "pl_end ?p = None" "failed ?p = {}" "pl_running ?p = {..<m}" by (simp_all add: Let_def)
  have lt: "pl_inFlight ?p < limit" using p(2) Suc.prems by simp
  have "length (pl_results ?p) = n" using p(1) by (simp add: pool_shape_def)
  with p Suc.prems have "pl_inFlight (launchNext ?p) = Suc m" "pl_nextIndex (launchNext ?p) = Suc m"
    "pl_running (launchNext ?p) = {..<Suc m}"
    by (auto simp: launchNext_def lessThan_Suc)
  with launch_shape [OF p(1) lt] p show ?case by (simp add: Let_def)
qed

lemma launch_aborted: "(launchNext ^^ m) (fresh_pool n True) = fresh_pool n True"
  by (induction m) (simp_all add: launchNext_def fresh_pool_def)

lemma start_inv:
  fixes vals :: "nat \<Rightarrow> 'a throws"
  assumes "runWithConcurrency n limit aborted = Inr p" "n \<noteq> 0"
  shows "pool_inv n (nat limit) vals p"
proof -
  from assms have l: "0 < nat limit" and p: "p = finishOnAbort ((launchNext ^^ min (nat limit) n) (fresh_pool n aborted))"
    by (auto simp: runWithConcurrency_def split: if_splits)
  show ?thesis
  proof (cases aborted)
    case True
    show ?thesis unfolding p using l True
      by (intro finishOnAbort_inv) (auto simp: launch_aborted fresh_shape)
  next
    case False
    let ?q = "(launchNext ^^ min (nat limit) n) (fresh_pool n aborted) :: 'a pool"
    have q: "pool_shape n (nat limit) vals ?q" "pl_inFlight ?q = min (nat limit) n" "pl_nextIndex ?q = min (nat limit) n"
      "\<not> pl_settled ?q" "\<not> pl_aborted ?q" "pl_end ?q = None" "failed ?q = {}" "pl_running ?q = {..<min (nat limit) n}"
      using launch_loop [OF False, of "min (nat limit) n" "nat limit" n vals] l by (simp_all add: Let_def)
    have "p = ?q" unfolding p using q(5) by (simp add: finishOnAbort_def)
    with q l assms(2) show ?thesis by (auto simp: pool_inv_def pool_open_def min_def lessThan_empty_iff)
  qed
qed

lemma run_inv:
  assumes "runWithConcurrency n limit aborted = Inr p" "n \<noteq> 0" "(pool_step vals signal)\<^sup>*\<^sup>* p q"
  shows "pool_inv n (nat limit) vals q"
  using assms(3) by induction (auto intro: step_inv start_inv [OF assms(1,2)])

text \<open>The result list in input order.\<close>

lemma present_map:
  "present xs = map (\<lambda>i. the (xs ! i)) (filter (\<lambda>i. xs ! i \<noteq> None) [0..<length xs])"
proof (induction xs rule: rev_induct)
  case Nil
  then show ?case by (simp add: present_def List.map_filter_simps)
next
  case (snoc x xs)
  have "present (xs @ [x]) = present xs @ (case x of None \<Rightarrow> [] | Some y \<Rightarrow> [y])"
    by (cases x) (simp_all add: present_def List.map_filter_def)
  moreover have "filter (\<lambda>i. (xs @ [x]) ! i \<noteq> None) [0..<length xs] = filter (\<lambda>i. xs ! i \<noteq> None) [0..<length xs]"
    by (rule filter_cong) (auto simp: nth_append)
  moreover have "map (\<lambda>i. the ((xs @ [x]) ! i)) (filter (\<lambda>i. xs ! i \<noteq> None) [0..<length xs]) =
      map (\<lambda>i. the (xs ! i)) (filter (\<lambda>i. xs ! i \<noteq> None) [0..<length xs])"
    by (rule map_cong) (auto simp: nth_append)
  ultimately show ?case using snoc by (cases x) (simp_all add: nth_append)
qed

lemma present_vals:
  assumes "pool_shape n limit vals p"
  shows "present (pl_results p) = map (\<lambda>i. projr (vals i)) (filter (\<lambda>i. i \<in> finished p) [0..<n])"
proof -
  have len: "length (pl_results p) = n" using assms by (simp add: pool_shape_def)
  have "filter (\<lambda>i. pl_results p ! i \<noteq> None) [0..<n] = filter (\<lambda>i. i \<in> finished p) [0..<n]"
    by (rule filter_cong) (auto simp: finished_def len)
  moreover have "the (pl_results p ! i) = projr (vals i)" if "i \<in> finished p" for i
    using assms that by (auto simp: pool_shape_def)
  ultimately show ?thesis by (simp add: present_map len)
qed

text \<open>Every settlement is counted: the work left shrinks with each step.\<close>

definition pool_left :: "'a pool \<Rightarrow> nat" where
  "pool_left p = (length (pl_results p) - pl_nextIndex p) + card (pl_running p) + (if pl_aborted p then 0 else 1)"

lemma settle_left [simp]: "pool_left (settle e p) = pool_left p"
  by (simp add: settle_def pool_left_def)

lemma finishOnAbort_left [simp]: "pool_left (finishOnAbort p) = pool_left p"
  by (simp add: finishOnAbort_def)

lemma launch_left: "pool_shape n limit vals p \<Longrightarrow> pool_left (launchNext p) = pool_left p"
  using running_fin [of n limit vals p]
  by (auto simp: launchNext_def pool_left_def pool_shape_def card_insert_if)

lemma took_left:
  assumes "pool_shape n limit vals p" "i \<in> pl_running p"
  shows "pool_left (took_value i v p) + 1 = pool_left p" "pool_left (took_error i p) + 1 = pool_left p"
proof -
  have "0 < card (pl_running p)" using running_fin [OF assms(1)] assms(2) by (auto simp: card_gt_0_iff)
  then show "pool_left (took_value i v p) + 1 = pool_left p" "pool_left (took_error i p) + 1 = pool_left p"
    using running_fin [OF assms(1)] assms(2) by (simp_all add: pool_left_def card_Diff_singleton)
qed

lemma step_left:
  assumes "pool_step vals signal p q" "pool_inv n limit vals p"
  shows "pool_left q + 1 = pool_left p"
proof -
  from assms(2) have sh: "pool_shape n limit vals p" by (simp add: pool_inv_def)
  from assms(1) show ?thesis
  proof cases
    case (thunk_value i v)
    with took_left [OF sh] launch_left [OF took_value_shape(1) [OF sh]] show ?thesis
      by (simp add: on_value_took)
  next
    case (thunk_error i e)
    with took_left [OF sh] show ?thesis by (simp add: on_error_took)
  next
    case signal_abort
    then show ?thesis by (simp add: on_abort_def) (simp add: pool_left_def)
  qed
qed

lemma run_left:
  assumes "runWithConcurrency n limit aborted = Inr p" "n \<noteq> 0" "(pool_step vals signal ^^ k) p q"
  shows "pool_inv n (nat limit) vals q \<and> pool_left q + k = pool_left p"
  using assms(3)
proof (induction k arbitrary: q)
  case 0
  then show ?case using start_inv [OF assms(1,2)] by simp
next
  case (Suc k)
  then obtain r where r: "(pool_step vals signal ^^ k) p r" "pool_step vals signal r q" by auto
  with Suc.IH [OF r(1)] step_left [OF r(2), of n "nat limit"] step_inv [OF r(2), of n "nat limit"] show ?case by simp
qed

lemma start_left:
  assumes "runWithConcurrency n limit aborted = Inr p" "n \<noteq> 0"
  shows "pool_left p \<le> n + 1"
proof -
  have inv: "pool_inv n (nat limit) (\<lambda>_. Inl []) p" using start_inv [OF assms] .
  then have "pl_running p \<subseteq> {..<pl_nextIndex p}" "length (pl_results p) = n" "pl_nextIndex p \<le> n"
    by (auto simp: pool_inv_def pool_shape_def)
  moreover from this have "card (pl_running p) \<le> pl_nextIndex p"
    by (metis card_lessThan card_mono finite_lessThan)
  ultimately show ?thesis by (simp add: pool_left_def le_diff_conv)
qed

text \<open>The order of the starts: a step starts the thunk at the next index, or none.\<close>

lemma launch_running:
  "m \<le> n \<Longrightarrow> pl_running ((launchNext ^^ m) (fresh_pool n False) :: 'a pool) = {..<m} \<and>
     pl_nextIndex ((launchNext ^^ m) (fresh_pool n False) :: 'a pool) = m \<and>
     length (pl_results ((launchNext ^^ m) (fresh_pool n False) :: 'a pool)) = n \<and>
     \<not> pl_settled ((launchNext ^^ m) (fresh_pool n False) :: 'a pool) \<and>
     \<not> pl_aborted ((launchNext ^^ m) (fresh_pool n False) :: 'a pool)"
proof (induction m)
  case 0
  then show ?case by (simp add: fresh_pool_def)
next
  case (Suc m)
  define r :: "'a pool" where "r = (launchNext ^^ m) (fresh_pool n False)"
  from Suc have "pl_running r = {..<m}" "pl_nextIndex r = m" "length (pl_results r) = n" "\<not> pl_settled r" "\<not> pl_aborted r"
    by (simp_all add: r_def)
  with Suc.prems show ?case by (simp add: r_def [symmetric]) (simp add: launchNext_def lessThan_Suc)
qed

lemma start_order:
  fixes p :: "'a pool"
  assumes "runWithConcurrency n limit aborted = Inr p" "n \<noteq> 0"
  shows "pl_nextIndex p = (if aborted then 0 else min (nat limit) n)" "pl_running p = {..<pl_nextIndex p}"
proof -
  from assms have p: "p = finishOnAbort ((launchNext ^^ min (nat limit) n) (fresh_pool n aborted))"
    by (auto simp: runWithConcurrency_def split: if_splits)
  have "pl_nextIndex p = (if aborted then 0 else min (nat limit) n) \<and> pl_running p = {..<pl_nextIndex p}"
  proof (cases aborted)
    case True
    then have "p = finishOnAbort (fresh_pool n True)" unfolding p by (simp add: launch_aborted)
    with True show ?thesis by (simp add: finishOnAbort_def settle_def fresh_pool_def)
  next
    case False
    define r :: "'a pool" where "r = (launchNext ^^ min (nat limit) n) (fresh_pool n False)"
    have "pl_running r = {..<min (nat limit) n}" "pl_nextIndex r = min (nat limit) n" "\<not> pl_aborted r"
      using launch_running [of "min (nat limit) n" n, where 'a = 'a] by (simp_all add: r_def)
    with False show ?thesis unfolding p by (simp add: r_def [symmetric] finishOnAbort_def)
  qed
  then show "pl_nextIndex p = (if aborted then 0 else min (nat limit) n)" "pl_running p = {..<pl_nextIndex p}"
    by simp_all
qed

definition starts_next :: "'a pool \<Rightarrow> 'a pool \<Rightarrow> bool" where
  "starts_next q r \<longleftrightarrow>
     (pl_nextIndex r = pl_nextIndex q \<and> pl_running r \<subseteq> pl_running q) \<or>
     (pl_nextIndex r = pl_nextIndex q + 1 \<and> pl_nextIndex q \<in> pl_running r \<and>
       pl_running r \<subseteq> insert (pl_nextIndex q) (pl_running q))"

lemma settle_running [simp]:
  "pl_running (settle e p) = pl_running p" "pl_nextIndex (settle e p) = pl_nextIndex p"
  "pl_running (finishOnAbort p) = pl_running p" "pl_nextIndex (finishOnAbort p) = pl_nextIndex p"
  by (simp_all add: settle_def finishOnAbort_def)

lemma launch_starts: "pl_nextIndex p = pl_nextIndex q \<Longrightarrow> pl_running p \<subseteq> pl_running q \<Longrightarrow> starts_next q (launchNext p)"
  by (auto simp: launchNext_def starts_next_def)

lemma step_starts: "pool_step vals signal q r \<Longrightarrow> starts_next q r"
proof (erule pool_stepE)
  fix i v assume "r = on_value i v q"
  then show "starts_next q r"
    using launch_starts [of "took_value i v q" q] by (auto simp: on_value_took starts_next_def)
next
  fix i e assume "r = on_error i e q"
  then show "starts_next q r" by (auto simp: on_error_took starts_next_def)
next
  assume "r = on_abort q"
  then show "starts_next q r" by (simp add: on_abort_def starts_next_def)
qed


lemma run_resolved:
  assumes "runWithConcurrency n limit aborted = Inr p" and "n \<noteq> 0" and "(pool_step vals signal ^^ k) p q"
    and "pl_end q = Some (Resolved xs)"
  shows "pl_running q = {}" "xs = map (\<lambda>i. projr (vals i)) (filter (\<lambda>i. i \<in> finished q) [0..<n])"
    "\<not> pl_aborted q \<Longrightarrow> xs = map (\<lambda>i. projr (vals i)) [0..<n] \<and> (\<forall>i<n. \<exists>v. vals i = Inr v)"
proof -
  from run_left [OF assms(1-3)] have inv: "pool_inv n (nat limit) vals q" by simp
  then have sh: "pool_shape n (nat limit) vals q" by (simp add: pool_inv_def)
  from inv assms(4) have c: "pl_running q = {}" "xs = present (pl_results q)" "pl_aborted q \<or> finished q = {..<n}"
    by (auto simp: pool_inv_def pool_closed_def)
  show "pl_running q = {}" by (rule c(1))
  show xs: "xs = map (\<lambda>i. projr (vals i)) (filter (\<lambda>i. i \<in> finished q) [0..<n])"
    using c(2) present_vals [OF sh] by simp
  show "xs = map (\<lambda>i. projr (vals i)) [0..<n] \<and> (\<forall>i<n. \<exists>v. vals i = Inr v)" if "\<not> pl_aborted q"
  proof -
    have f: "finished q = {..<n}" using c(3) that by simp
    then have "filter (\<lambda>i. i \<in> finished q) [0..<n] = [0..<n]" by (auto intro: filter_True)
    moreover have "\<exists>v. vals i = Inr v" if "i < n" for i using sh that f by (auto simp: pool_shape_def)
    ultimately show ?thesis using xs by simp
  qed
qed

text \<open>The first settlement of the promise.\<close>

lemma end_kept: "pool_step vals signal q r \<Longrightarrow> pl_end q \<noteq> None \<Longrightarrow> pl_end r = pl_end q"
  by (erule pool_stepE) (auto simp: on_value_took on_error_took on_abort_def finishOnAbort_def settle_def split: option.splits)

lemma error_rejects: "pl_end q = None \<Longrightarrow> \<not> pl_aborted q \<Longrightarrow> \<not> pl_settled q \<Longrightarrow> pl_end (on_error i err q) = Some (Rejected err)"
  by (simp add: on_error_took settle_def)

lemma rejecting_step:
  assumes "pool_step vals signal q r" "pl_end q = None" "pl_end r = Some (Rejected err)"
  shows "\<exists>i\<in>pl_running q. vals i = Inl err \<and> r = on_error i err q \<and> \<not> pl_aborted q"
  using assms by (cases rule: pool_step.cases) (auto simp: on_value_took on_error_took on_abort_def finishOnAbort_def settle_def split: if_splits)

lemma run_rejected:
  fixes p :: "'a pool"
  assumes "runWithConcurrency n limit aborted = Inr p" "n \<noteq> 0"
  shows "(pool_step vals signal ^^ k) p q \<Longrightarrow> pl_end q = Some (Rejected err) \<Longrightarrow>
    \<exists>j<k. \<exists>r i. (pool_step vals signal ^^ j) p r \<and> pl_end r = None \<and> failed r = {} \<and> \<not> pl_aborted r \<and>
      i \<in> pl_running r \<and> vals i = Inl err \<and> (pool_step vals signal ^^ (k - Suc j)) (on_error i err r) q"
proof (induction k arbitrary: q)
  case 0
  have "pool_inv n (nat limit) vals p" by (rule start_inv [OF assms])
  moreover have "pl_end p \<noteq> Some (Rejected err)"
  proof -
    have "pl_end ((launchNext ^^ m) (fresh_pool n aborted) :: 'a pool) = None" for m
      by (induction m) (simp_all add: fresh_pool_def)
    then have "pl_end (finishOnAbort ((launchNext ^^ m) (fresh_pool n aborted) :: 'a pool)) \<noteq> Some (Rejected err)" for m
      by (simp add: finishOnAbort_def settle_def)
    with assms show ?thesis by (auto simp: runWithConcurrency_def split: if_splits)
  qed
  ultimately show ?case using 0 by simp
next
  case (Suc k)
  then obtain r where r: "(pool_step vals signal ^^ k) p r" "pool_step vals signal r q" by auto
  show ?case
  proof (cases "pl_end r")
    case None
    from run_left [OF assms r(1)] None have "pool_open n (nat limit) r" by (simp add: pool_inv_def)
    moreover from rejecting_step [OF r(2) None Suc.prems(2)] obtain i where
      "i \<in> pl_running r" "vals i = Inl err" "q = on_error i err r" "\<not> pl_aborted r" by auto
    ultimately show ?thesis using r(1) None
      by (intro exI [of _ k]) (auto simp: pool_open_def)
  next
    case (Some e)
    with end_kept [OF r(2)] Suc.prems(2) have "pl_end r = Some (Rejected err)" by simp
    from Suc.IH [OF r(1) this] obtain j u i where j: "j < k" "(pool_step vals signal ^^ j) p u" "pl_end u = None"
      "failed u = {}" "\<not> pl_aborted u" "i \<in> pl_running u" "vals i = Inl err"
      "(pool_step vals signal ^^ (k - Suc j)) (on_error i err u) r" by blast
    have "(pool_step vals signal ^^ (Suc k - Suc j)) (on_error i err u) q"
      using j(1,8) r(2) by (metis Suc_diff_Suc relpowp_Suc_I diff_Suc_Suc)
    with j(1-7) show ?thesis by (intro exI [of _ j]) auto
  qed
qed


text \<open>Without a signal nothing is aborted.\<close>

lemma not_aborted_steps:
  assumes "runWithConcurrency n limit False = Inr p" "(pool_step vals False ^^ k) p q"
  shows "\<not> pl_aborted q"
proof -
  have l: "pl_aborted ((launchNext ^^ m) r) = pl_aborted r" for m and r :: "'a pool" by (induction m) simp_all
  have start: "\<not> pl_aborted p"
    using assms(1) by (auto simp: runWithConcurrency_def finishOnAbort_def settle_def l split: if_splits)
  from assms(2) show ?thesis
  proof (induction k arbitrary: q)
    case 0
    with start show ?case by simp
  next
    case (Suc k)
    then obtain r where r: "(pool_step vals False ^^ k) p r" "pool_step vals False r q" by auto
    from r(2) Suc.IH [OF r(1)] show ?case
      by cases (auto simp: on_value_took on_error_took finishOnAbort_def settle_def)
  qed
qed

definition pair_vals :: "nat \<Rightarrow> string throws" where
  "pair_vals i = Inr (if i = 0 then ''first'' else ''second'')"

definition pair_start :: "string pool" where
  "pair_start = \<lparr>pl_results = [None, None], pl_nextIndex = 2, pl_inFlight = 2, pl_completed = 0,
     pl_settled = False, pl_aborted = False, pl_running = {0, 1}, pl_end = None\<rparr>"

definition pair_mid :: "string pool" where
  "pair_mid = \<lparr>pl_results = [None, Some ''second''], pl_nextIndex = 2, pl_inFlight = 1, pl_completed = 1,
     pl_settled = False, pl_aborted = False, pl_running = {0}, pl_end = None\<rparr>"

definition pair_done :: "string pool" where
  "pair_done = \<lparr>pl_results = [Some ''first'', Some ''second''], pl_nextIndex = 2, pl_inFlight = 0, pl_completed = 2,
     pl_settled = True, pl_aborted = False, pl_running = {}, pl_end = Some (Resolved [''first'', ''second''])\<rparr>"

lemma pair_begin: "runWithConcurrency 2 5 False = Inr pair_start"
  by (auto simp: runWithConcurrency_def fresh_pool_def launchNext_def finishOnAbort_def pair_start_def numeral_2_eq_2)

lemma pair_first: "pool_step pair_vals False pair_start pair_mid"
proof -
  have "on_value 1 ''second'' pair_start = pair_mid"
    by (auto simp: pair_start_def pair_mid_def on_value_def launchNext_def Let_def)
  moreover have "pool_step pair_vals False pair_start (on_value 1 ''second'' pair_start)"
    by (rule pool_step.thunk_value) (simp_all add: pair_start_def pair_vals_def)
  ultimately show ?thesis by simp
qed

lemma pair_second: "pool_step pair_vals False pair_mid pair_done"
proof -
  have "on_value 0 ''first'' pair_mid = pair_done"
    by (auto simp: pair_mid_def pair_done_def on_value_def settle_def present_def Let_def List.map_filter_simps)
  moreover have "pool_step pair_vals False pair_mid (on_value 0 ''first'' pair_mid)"
    by (rule pool_step.thunk_value) (simp_all add: pair_mid_def pair_vals_def)
  ultimately show ?thesis by simp
qed



end
