(* ===== verification/GroupCore.thy ===== *)
theory GroupCore
  imports Tail Pool Intervals Availability
begin

text \<open>
  The branches of a concurrent group (\<^verbatim>\<open>engine/group-core.ts\<close>) and the join of a configured
  group (\<^verbatim>\<open>runParallelGroupViaCore\<close> of \<^verbatim>\<open>engine/conductor.ts\<close>). The surroundings of a branch
  answer turn by turn; what a branch reports and does outside is its list of events.
\<close>

section \<open>Outcomes and their events\<close>

record branch_outcome =
  bo_kind :: member_outcome
  bo_authentication :: "jval option"
  bo_observedIntervals :: "observed_interval list option"

fun verdict_text :: "verdict_word \<Rightarrow> string" where
  "verdict_text VPass = ''pass''"
| "verdict_text VFail = ''fail''"
| "verdict_text VBlocked = ''blocked''"

fun classifyOutcome :: "member_outcome \<Rightarrow> string" where
  "classifyOutcome (OVerdict v) = ''verdict:'' @ verdict_text v"
| "classifyOutcome (ONoVerdict _) = ''no-verdict''"
| "classifyOutcome (OMechanicalFault _) = ''mechanical-fault''"
| "classifyOutcome (OPermissionDenied _ _) = ''permission-denied''"
| "classifyOutcome OSkipped = ''skipped''"
| "classifyOutcome (OParked _) = ''parked''"

definition buildParallelStartedEvent :: "group_member list \<Rightarrow> step_name list" where
  "buildParallelStartedEvent members = map gm_name (filter (\<lambda>m. gm_outcome m \<noteq> OSkipped) members)"

text \<open>One event is the branch it names and its error.\<close>

fun failure_event :: "group_member \<Rightarrow> (step_name \<times> string) option" where
  "failure_event m =
     (case gm_outcome m of
        OSkipped \<Rightarrow> None
      | OParked _ \<Rightarrow> None
      | OVerdict VPass \<Rightarrow> None
      | ONoVerdict reason \<Rightarrow> Some (gm_name m, reason)
      | OMechanicalFault reason \<Rightarrow> Some (gm_name m, reason)
      | outcome \<Rightarrow> Some (gm_name m, ''branch '' @ gm_name m @ '' failed: '' @ classifyOutcome outcome))"

definition buildParallelFailureEvents :: "group_member list \<Rightarrow> (step_name \<times> string) list" where
  "buildParallelFailureEvents members = List.map_filter failure_event members"

definition makeVerdictOutcome :: "verdict_word \<Rightarrow> jval option \<Rightarrow> observed_interval list option \<Rightarrow> branch_outcome" where
  "makeVerdictOutcome v auth ivs = \<lparr>bo_kind = OVerdict v, bo_authentication = auth, bo_observedIntervals = ivs\<rparr>"

definition makeNoVerdictOutcome :: "string \<Rightarrow> jval option \<Rightarrow> observed_interval list option \<Rightarrow> branch_outcome" where
  "makeNoVerdictOutcome reason auth ivs = \<lparr>bo_kind = ONoVerdict reason, bo_authentication = auth, bo_observedIntervals = ivs\<rparr>"

definition makeMechanicalFaultOutcome :: "string \<Rightarrow> jval option \<Rightarrow> observed_interval list option \<Rightarrow> branch_outcome" where
  "makeMechanicalFaultOutcome reason auth ivs =
     \<lparr>bo_kind = OMechanicalFault reason, bo_authentication = auth, bo_observedIntervals = ivs\<rparr>"

definition makeParkedOutcome :: "nat option \<Rightarrow> branch_outcome" where
  "makeParkedOutcome attempt = \<lparr>bo_kind = OParked attempt, bo_authentication = None, bo_observedIntervals = None\<rparr>"

section \<open>One branch\<close>

text \<open>
  The fields of a step's result that a branch reads. \<open>sr_fault\<close> is the deterministic fault of the
  member's own kind (as-built or PRD audit); times are whole milliseconds.
\<close>

record step_run_result =
  sr_success :: bool
  sr_output :: "string option"
  sr_fault :: "string option"
  sr_authentication :: "jval option"
  sr_observedIntervals :: "observed_interval list option"
  sr_rateLimited :: bool
  sr_deadline :: "int option"
  sr_waitSeconds :: "int option"
  sr_usageExhausted :: bool
  sr_actualProvider :: "string option"
  sr_preferredProvider :: "string option"
  sr_authFailure :: bool
  sr_permissionDenied :: bool

text \<open>
  One turn of the loop: the abort signal and the operator's park as they are read before the dispatch, what
  the runner answers or throws, what the verification of a success answers or throws, the clock, and the
  signal after waiting for a rate limit.
\<close>

record branch_turn =
  bt_aborted :: bool
  bt_parked :: bool
  bt_run :: "step_run_result throws"
  bt_verify :: "string option"
  bt_now :: int
  bt_abortedAfter :: bool

datatype branch_event =
    BranchAdmitted
  | BranchDispatch nat
  | BranchAttempt nat "step_run_result throws"
  | BranchRetry nat
  | ProviderSuppressed string int
  | EpisodeEntered int
  | BranchSettled branch_outcome "(nat \<times> step_run_result throws) list"
  | MemberResult string

definition sanitized_authentication :: "jval \<Rightarrow> jval" where
  "sanitized_authentication a =
     JObj (List.map_filter (\<lambda>k. map_option (\<lambda>v. (k, v)) (jget a k)) [''provider'', ''source'', ''state''])"

definition accumulated :: "observed_interval list \<Rightarrow> observed_interval list option" where
  "accumulated ivs = (if ivs = [] then None else Some ivs)"

definition retry_event :: "nat \<Rightarrow> nat \<Rightarrow> branch_event list" where
  "retry_event maxRetries attempt = (if attempt < maxRetries then [BranchRetry (attempt + 1)] else [])"

definition rate_limit_deadline :: "branch_turn \<Rightarrow> step_run_result \<Rightarrow> int" where
  "rate_limit_deadline t r =
     (let requested = (case sr_deadline r of Some d \<Rightarrow> d
            | None \<Rightarrow> bt_now t + (case sr_waitSeconds r of Some s \<Rightarrow> s | None \<Rightarrow> 300) * 1000)
      in min requested (bt_now t + MAX_PROVIDER_SUPPRESSION_MS))"

definition named_provider :: "step_run_result \<Rightarrow> string option" where
  "named_provider r =
     (case sr_actualProvider r of Some p \<Rightarrow> if blank p then None else Some p | None \<Rightarrow> None)"

definition permission_denied :: "step_run_result \<Rightarrow> observed_interval list \<Rightarrow> branch_outcome" where
  "permission_denied r ivs =
     \<lparr>bo_kind = OPermissionDenied
        (case sr_actualProvider r of Some p \<Rightarrow> p
         | None \<Rightarrow> (case sr_preferredProvider r of Some p \<Rightarrow> p | None \<Rightarrow> ''selected provider''))
        (case sr_output r of Some out \<Rightarrow> out | None \<Rightarrow> ''Permission review denied the required action.''),
      bo_authentication = map_option sanitized_authentication (sr_authentication r),
      bo_observedIntervals = accumulated ivs\<rparr>"

text \<open>What one turn does: it ends the branch, or goes on at an attempt with the last output.\<close>

datatype turn_result = TurnEnds branch_outcome | TurnGoes nat string "observed_interval list"

definition branch_turn_result ::
  "bool \<Rightarrow> nat \<Rightarrow> branch_turn \<Rightarrow> nat \<Rightarrow> bool \<Rightarrow> string \<Rightarrow> observed_interval list \<Rightarrow> branch_event list \<times> turn_result" where
  "branch_turn_result episode maxRetries t attempt dispatchedOnce lastOutput ivs =
     (if bt_aborted t then ([], TurnEnds (makeNoVerdictOutcome ''aborted'' None (accumulated ivs)))
      else if dispatchedOnce \<and> bt_parked t then ([], TurnEnds (makeParkedOutcome (Some attempt)))
      else
        (case bt_run t of
           Inl err \<Rightarrow>
             ([BranchDispatch attempt, BranchAttempt attempt (Inl err)] @ retry_event maxRetries attempt,
              TurnGoes (attempt + 1) err ivs)
         | Inr r \<Rightarrow>
             let evs = [BranchDispatch attempt, BranchAttempt attempt (Inr r)];
                 ivs1 = ivs @ (case sr_observedIntervals r of None \<Rightarrow> [] | Some xs \<Rightarrow> xs)
             in (case sr_fault r of
                   Some reason \<Rightarrow> (evs, TurnEnds (makeMechanicalFaultOutcome reason (sr_authentication r) (accumulated ivs1)))
                 | None \<Rightarrow>
                     if sr_success r then
                       (case bt_verify t of
                          Some failure \<Rightarrow> (evs @ retry_event maxRetries attempt, TurnGoes (attempt + 1) failure ivs1)
                        | None \<Rightarrow> (evs, TurnEnds (makeVerdictOutcome VPass (sr_authentication r) (accumulated ivs1))))
                     else if sr_rateLimited r then
                       let deadline = rate_limit_deadline t r;
                           evs1 = evs @ (case named_provider r of
                                           Some p \<Rightarrow> if sr_usageExhausted r then [ProviderSuppressed p deadline] else []
                                         | None \<Rightarrow> [])
                                      @ (if episode then [EpisodeEntered deadline] else [])
                       in if bt_abortedAfter t then (evs1, TurnEnds (makeNoVerdictOutcome ''aborted'' None (accumulated ivs1)))
                          else (evs1, TurnGoes attempt lastOutput ivs1)
                     else if sr_authFailure r then
                       (evs, TurnEnds (makeNoVerdictOutcome ''authFailure'' (sr_authentication r) (accumulated ivs1)))
                     else if sr_permissionDenied r then (evs, TurnEnds (permission_denied r ivs1))
                     else (evs @ retry_event maxRetries attempt,
                           TurnGoes (attempt + 1) (case sr_output r of Some out \<Rightarrow> out | None \<Rightarrow> lastOutput) ivs1))))"

text \<open>\<open>None\<close> when the answers run out before the branch ends.\<close>

fun branch_loop ::
  "bool \<Rightarrow> nat \<Rightarrow> branch_turn list \<Rightarrow> nat \<Rightarrow> bool \<Rightarrow> string \<Rightarrow> observed_interval list
     \<Rightarrow> branch_event list \<times> branch_outcome option" where
  "branch_loop episode maxRetries turns attempt dispatchedOnce lastOutput ivs =
     (if maxRetries < attempt then
        ([], Some (makeNoVerdictOutcome (if lastOutput = [] then ''retries exhausted'' else lastOutput) None (accumulated ivs)))
      else (case turns of
          [] \<Rightarrow> ([], None)
        | t # rest \<Rightarrow>
            (case branch_turn_result episode maxRetries t attempt dispatchedOnce lastOutput ivs of
               (evs, TurnEnds outcome) \<Rightarrow> (evs, Some outcome)
             | (evs, TurnGoes attempt' lastOutput' ivs') \<Rightarrow>
                 (case branch_loop episode maxRetries rest attempt' True lastOutput' ivs' of
                    (evs', outcome) \<Rightarrow> (evs @ evs', outcome)))))"

text \<open>\<open>abortedBefore\<close>, \<open>abortedAtAdmission\<close>: the signal at the two checks before the branch is admitted.\<close>

definition runGroupBranchInner ::
  "bool \<Rightarrow> bool \<Rightarrow> nat \<Rightarrow> branch_turn list \<Rightarrow> branch_event list \<times> branch_outcome option" where
  "runGroupBranchInner episode abortedAtAdmission maxRetries turns =
     (if abortedAtAdmission then ([], Some (makeNoVerdictOutcome ''aborted'' None None))
      else (case branch_loop episode maxRetries turns 1 False [] [] of
              (evs, outcome) \<Rightarrow> (BranchAdmitted # evs, outcome)))"

definition branch_attempts :: "branch_event list \<Rightarrow> (nat \<times> step_run_result throws) list" where
  "branch_attempts evs = List.map_filter (\<lambda>e. case e of BranchAttempt a r \<Rightarrow> Some (a, r) | _ \<Rightarrow> None) evs"

definition runGroupBranch ::
  "bool \<Rightarrow> bool \<Rightarrow> bool \<Rightarrow> nat \<Rightarrow> branch_turn list \<Rightarrow> branch_event list \<times> branch_outcome option" where
  "runGroupBranch episode abortedBefore abortedAtAdmission maxRetries turns =
     (if abortedBefore then ([], Some (makeNoVerdictOutcome ''aborted'' None None))
      else (case runGroupBranchInner episode abortedAtAdmission maxRetries turns of
              (evs, None) \<Rightarrow> (evs, None)
            | (evs, Some outcome) \<Rightarrow>
                (evs @ (if BranchAdmitted \<in> set evs then [BranchSettled outcome (branch_attempts evs)] else [])
                     @ [MemberResult (classifyOutcome (bo_kind outcome))], Some outcome)))"

section \<open>The join of a configured group\<close>

record parallel_branch =
  pb_name :: string
  pb_advisory :: bool

definition synthetic_key :: "step_name \<Rightarrow> parallel_branch \<Rightarrow> string" where
  "synthetic_key grp b = grp @ ''__'' @ pb_name b"

definition outcome_passed :: "member_outcome option \<Rightarrow> bool" where
  "outcome_passed out = (out = Some (OVerdict VPass))"

definition outcome_parked :: "member_outcome option \<Rightarrow> bool" where
  "outcome_parked out = (case out of Some (OParked _) \<Rightarrow> True | _ \<Rightarrow> False)"

definition branch_failed :: "parallel_branch \<times> member_outcome option \<Rightarrow> bool" where
  "branch_failed = (\<lambda>(b, out). \<not> outcome_passed out \<and> \<not> outcome_parked out \<and> \<not> pb_advisory b)"

definition branch_status :: "member_outcome option \<Rightarrow> step_status" where
  "branch_status out = (if outcome_passed out then Done else if outcome_parked out then In_progress else Failed)"

text \<open>An outcome past the end of the answers is the missing one.\<close>

definition join_pairs :: "parallel_branch list \<Rightarrow> member_outcome list \<Rightarrow> (parallel_branch \<times> member_outcome option) list" where
  "join_pairs branches outcomes =
     map (\<lambda>i. (branches ! i, if i < length outcomes then Some (outcomes ! i) else None)) [0..<length branches]"

definition group_status :: "(parallel_branch \<times> member_outcome option) list \<Rightarrow> bool \<Rightarrow> step_status" where
  "group_status pairs parked =
     (if parked \<and> \<not> list_ex branch_failed pairs then In_progress
      else if list_ex branch_failed pairs then Failed else Done)"

definition join_changes ::
  "step_name \<Rightarrow> parallel_branch list \<Rightarrow> member_outcome list \<Rightarrow> (string \<times> jval) list" where
  "join_changes grp branches outcomes =
     (let pairs = join_pairs branches outcomes;
          parked = list_ex (\<lambda>out. outcome_parked (Some out)) outcomes
      in foldl (\<lambda>kvs (k, v). AList.update k v kvs) []
           (map (\<lambda>(b, out). (synthetic_key grp b, status_json (branch_status out))) pairs
            @ [(grp, status_json (group_status pairs parked))]))"

text \<open>The error events of the join, each with whether it ends the group.\<close>

definition join_failures ::
  "parallel_branch list \<Rightarrow> member_outcome list \<Rightarrow> ((step_name \<times> string) \<times> bool) list" where
  "join_failures branches outcomes =
     List.map_filter (\<lambda>(b, out). if outcome_passed out then None else
        map_option (\<lambda>ev. (ev, \<not> pb_advisory b))
          (failure_event \<lparr>gm_name = pb_name b, gm_skill = [],
             gm_outcome = (case out of Some k \<Rightarrow> k | None \<Rightarrow> ONoVerdict ''not-run'')\<rparr>))
       (join_pairs branches outcomes)"

text \<open>The parked member the group returns, unless it failed.\<close>

definition join_parked :: "parallel_branch list \<Rightarrow> member_outcome list \<Rightarrow> (string \<times> nat option) option" where
  "join_parked branches outcomes =
     (if list_ex branch_failed (join_pairs branches outcomes) then None
      else (case find_idx (\<lambda>out. outcome_parked (Some out)) outcomes of
              None \<Rightarrow> None
            | Some i \<Rightarrow> (case outcomes ! i of OParked attempt \<Rightarrow> Some (pb_name (branches ! i), attempt) | _ \<Rightarrow> None)))"

definition runParallelGroupViaCore ::
  "tail_env \<Rightarrow> step_name \<Rightarrow> parallel_branch list \<Rightarrow> member_outcome list \<Rightarrow> tail_world
     \<Rightarrow> (tail_world \<times> (string \<times> nat option) option) throws" where
  "runParallelGroupViaCore env grp branches outcomes w =
     map_sum id (\<lambda>w'. (w', join_parked branches outcomes))
       (commitStateChanges env (''join '' @ grp @ '' parallel group'') (join_changes grp branches outcomes) w)"

definition group_limit :: "int \<Rightarrow> parallel_branch list \<Rightarrow> int" where
  "group_limit validationConcurrency branches = max 1 (min validationConcurrency (int (length branches)))"

end
