(* ===== verification/TailProps.thy ===== *)
theory TailProps
  imports Tail KickbackProps
begin

text \<open>
  The tail cannot run on for ever: convergence means that no gate is left, a selected gate is there to run and runnable,
  it is selected at most six times for every pass that satisfied it, and the kickbacks a step writes are charged one by one
  until the third on an unchanged tree stops the loop.
\<close>

section \<open>What the parts of an advance leave alone\<close>

lemma commit_frame:
  assumes "commitStateChanges env name changes w = Inr w'"
  shows "tl_stuck w' = tl_stuck w" "tl_files w' = tl_files w" "tl_halt w' = tl_halt w"
    "tl_ledger w' = tl_ledger w" "tl_childLedger w' = tl_childLedger w"
  using assms by (auto simp: commitStateChanges_def Let_def split: if_splits sum.splits prod.splits)

lemma navigate_frame:
  assumes "navigateStateBack env target preserve w = Inr w'"
  shows "tl_stuck w' = tl_stuck w" "tl_files w' = tl_files w" "tl_halt w' = tl_halt w"
    "tl_ledger w' = tl_ledger w" "tl_childLedger w' = tl_childLedger w"
  using assms commit_frame by (auto simp: navigateStateBack_def Let_def)

lemma halted_fields [simp]:
  "tl_stuck (halted r w) = tl_stuck w" "tl_files (halted r w) = tl_files w" "tl_state (halted r w) = tl_state w"
  "tl_halt (halted r w) = Some r" "tl_ledger (halted r w) = tl_ledger w" "tl_childLedger (halted r w) = tl_childLedger w"
  by (simp_all add: halted_def)

lemma charge_frame:
  "charge_kickback env target mark w = (w', r) \<Longrightarrow> tl_stuck w' = tl_stuck w \<and> tl_files w' = tl_files w"
  by (auto simp: charge_kickback_def Let_def split: prod.splits if_splits)

lemma scan_kickback_frame:
  "scan_kickback env st nav target mark w = (w', r) \<Longrightarrow> tl_stuck w' = tl_stuck w \<and> tl_files w' = tl_files w"
  unfolding scan_kickback_def
  by (auto simp: Let_def dest!: charge_frame dest: navigate_frame(1,2)
      split: prod.splits sum.splits if_splits routed_admission.splits decide_disposition.splits)

lemma scan_loop_frame:
  "scan_loop env st nav vs w res = (w', r) \<Longrightarrow> tl_stuck w' = tl_stuck w \<and> tl_files w' = tl_files w"
proof (induction vs arbitrary: w res)
  case Nil
  then show ?case by simp
next
  case (Cons tv rest)
  obtain t v where tv: "tv = (t, v)" by fastforce
  show ?case
  proof (cases "Option.bind v (\<lambda>x. if gv_satisfied x then None else gv_kickback x)")
    case None
    with Cons tv show ?thesis by auto
  next
    case (Some mark)
    obtain w1 r1 where s: "scan_kickback env st nav t mark w = (w1, r1)" by fastforce
    from Cons tv Some s scan_kickback_frame [OF s] show ?thesis
      by (auto split: if_splits sum.splits scan_result.splits)
  qed
qed

lemma scan_frame:
  "scanKickbackVerdicts env st vs order nav w = (w', r) \<Longrightarrow> tl_stuck w' = tl_stuck w \<and> tl_files w' = tl_files w"
  by (auto simp: scanKickbackVerdicts_def dest: scan_loop_frame)

lemma skip_loop_stuck: "skip_loop env ds w sk = Inr (w', sk') \<Longrightarrow> tl_stuck w' = tl_stuck w"
  by (induction env ds w sk rule: skip_loop.induct) (auto simp: Let_def split: if_splits sum.splits prod.splits)

lemma tail_skips_stuck: "tail_skips env w = Inr w' \<Longrightarrow> tl_stuck w' = tl_stuck w"
  by (auto simp: tail_skips_def split: sum.splits prod.splits if_splits dest!: skip_loop_stuck)

lemma reconcile_stuck: "reconcileStaleRebaseVerdict env w = (w', r) \<Longrightarrow> tl_stuck w' = tl_stuck w"
  by (auto simp: reconcileStaleRebaseVerdict_def split: option.splits if_splits)

lemma refund_review_stuck: "refund_review env w = (w', r) \<Longrightarrow> tl_stuck w' = tl_stuck w"
  by (auto simp: refund_review_def split: if_splits prod.splits)

lemma reopen_loop_stuck: "rebase_reopen_loop env vs ts w re = (w', r) \<Longrightarrow> tl_stuck w' = tl_stuck w"
proof (induction ts arbitrary: w re)
  case Nil
  then show ?case by simp
next
  case (Cons t rest)
  let ?mark = "Option.bind (vs t) (\<lambda>v. if gv_satisfied v then None else gv_kickback v)"
  show ?case
  proof (cases "\<exists>m. ?mark = Some m \<and> kb_from m = ''rebase''")
    case False
    with Cons show ?thesis by (cases ?mark) auto
  next
    case True
    then obtain m where m: "?mark = Some m" "kb_from m = ''rebase''" by blast
    obtain w1 r1 where s: "(if t = ''build_review'' \<and> kb_cause m \<noteq> Some (JStr ''feature-repair'') then refund_review env w
        else (w, Inr False)) = (w1, r1)" by fastforce
    then have "tl_stuck w1 = tl_stuck w" by (auto dest: refund_review_stuck split: if_splits)
    moreover have "tl_stuck w' = tl_stuck w1"
    proof (cases r1)
      case (Inl e)
      with Cons.prems m s show ?thesis by simp
    next
      case (Inr b)
      with Cons.prems m s have "\<exists>re'. rebase_reopen_loop env vs rest w1 re' = (w', r)" by auto
      with Cons.IH show ?thesis by blast
    qed
    ultimately show ?thesis by simp
  qed
qed

lemma after_rebase_stuck: "after_rebase env w = (w', r) \<Longrightarrow> tl_stuck w' = tl_stuck w"
  unfolding after_rebase_def Let_def
  by (auto dest!: reconcile_stuck reopen_loop_stuck dest: commit_frame(1) 
      split: option.splits rebase_outcome.splits prod.splits sum.splits after_step.splits if_splits)

section \<open>The selection counters\<close>

definition times_selected :: "(string \<rightharpoonup> nat) \<Rightarrow> string \<Rightarrow> nat" where
  "times_selected stuck key = (case stuck key of None \<Rightarrow> 0 | Some n \<Rightarrow> n)"

text \<open>A pass whose step is judged, and judged satisfied; the rebase step is not judged here.\<close>

definition pass_satisfies :: "tail_env \<Rightarrow> step_def \<Rightarrow> tail_world \<Rightarrow> bool" where
  "pass_satisfies env step w =
     (tn_verifyArtifacts env \<and> sd_name step \<noteq> ''rebase'' \<and>
      sd_name step \<in> set (gt_verdictSteps (deriveGateTopology (tn_steps env))) \<and>
      (case step_verdict env (sd_name step) w of Inl _ \<Rightarrow> False | Inr (_, verdict) \<Rightarrow> gv_satisfied verdict))"

definition cleared :: "tail_env \<Rightarrow> step_def \<Rightarrow> tail_world \<Rightarrow> string \<rightharpoonup> nat" where
  "cleared env step w =
     (if pass_satisfies env step w then (tl_stuck w)(childScopedStepKey (sd_name step) (tn_child env) := None) else tl_stuck w)"

lemma step_verdict_stuck: "step_verdict env step w = Inr (w', v) \<Longrightarrow> tl_stuck w' = tl_stuck w"
  by (auto simp: step_verdict_def Let_def map_sum_Inr_iff split: if_splits)

lemma after_gate_stuck:
  assumes "after_gate env step f w = (w', r)"
  shows "tl_stuck w' = (if (case step_verdict env (sd_name step) w of Inl _ \<Rightarrow> False | Inr (_, v) \<Rightarrow> gv_satisfied v)
     then (tl_stuck w)(childScopedStepKey (sd_name step) (tn_child env) := None) else tl_stuck w)"
proof (cases "step_verdict env (sd_name step) w")
  case (Inl e)
  with assms show ?thesis by (simp add: after_gate_def)
next
  case (Inr x)
  then obtain w1 v where x: "step_verdict env (sd_name step) w = Inr (w1, v)" by (cases x) auto
  from step_verdict_stuck [OF x] assms x show ?thesis
    by (auto simp: after_gate_def Let_def dest: commit_frame(1) split: if_splits sum.splits)
qed

lemma after_step_cleared:
  assumes "after_step_ran env step (deriveGateTopology (tn_steps env)) w = (w', r)" and "tn_verifyArtifacts env"
  shows "tl_stuck w' = cleared env step w"
  using assms after_rebase_stuck after_gate_stuck
  by (auto simp: after_step_ran_def cleared_def pass_satisfies_def split: if_splits)

lemma findNext_lt: "findNextGateInRegion inp = Inr (Some i) \<Longrightarrow> i < length (si_steps inp)"
  by (auto simp: findNext_Some runnable_open)

lemma step_index_lt:
  assumes "i < length (tn_steps env)"
  shows "step_index env (sd_name (tn_steps env ! i)) \<le> i \<and>
     sd_name (tn_steps env ! step_index env (sd_name (tn_steps env ! i))) = sd_name (tn_steps env ! i)"
proof (cases "find_idx (\<lambda>d. sd_name d = sd_name (tn_steps env ! i)) (tn_steps env)")
  case None
  with assms show ?thesis by (auto simp: find_idx_None_iff)
next
  case (Some j)
  from find_idx_SomeD [OF Some] have "j \<le> i" "sd_name (tn_steps env ! j) = sd_name (tn_steps env ! i)"
    by (metis linorder_not_le, simp)
  with Some show ?thesis by (simp add: step_index_def)
qed

text \<open>What a selection does: the counter of the step, the bound, and the re-opened step.\<close>

lemma select_step_goto:
  assumes "select_step env step reason w = (w', Inr (GoTo k))" and "step_index env step < length (tn_steps env)"
  shows "k = clampToRunnablePrerequisite (tn_steps env) (tl_state w) (step_index env step)"
    and "k < length (tn_steps env)"
    and "let key = childScopedStepKey (sd_name (tn_steps env ! k)) (tn_child env); n = times_selected (tl_stuck w) key + 1
         in n \<le> 6 \<and> tl_stuck w' = (tl_stuck w)(key \<mapsto> n)"
proof -
  let ?k = "clampToRunnablePrerequisite (tn_steps env) (tl_state w) (step_index env step)"
  have lt: "?k < length (tn_steps env)"
    using clamp_settled [of "tn_steps env" "tl_state w" "step_index env step"] assms(2) by linarith
  with assms show k: "k = ?k"
    by (auto simp: select_step_def Let_def split: if_splits sum.splits)
  with lt show "k < length (tn_steps env)" by simp
  show "let key = childScopedStepKey (sd_name (tn_steps env ! k)) (tn_child env); n = times_selected (tl_stuck w) key + 1
         in n \<le> 6 \<and> tl_stuck w' = (tl_stuck w)(key \<mapsto> n)"
    using assms lt k
    by (auto simp: select_step_def Let_def times_selected_def MAX_GATE_SELECTIONS_def dest!: commit_frame(1)
        split: if_splits sum.splits)
qed


text \<open>An advance that selects, parks or converges does so on the verdicts it has on disk.\<close>

lemma advance_selects:
  assumes "advanceTail env step w = (w', Inr r)" and "(\<exists>k. r = GoTo k) \<or> (\<exists>n. r = Converged n)"
  obtains w3 start where "gt_regionStart (deriveGateTopology (tn_steps env)) = Some start"
    "tl_stuck w3 = cleared env step w"
    "select_next env start (readGateVerdictOverlay env (tl_files w3)) w3 = (w', Inr r)"
proof -
  let ?topo = "deriveGateTopology (tn_steps env)"
  from assms have va: "tn_verifyArtifacts env" by (auto simp: advanceTail_def split: if_splits)
  obtain w1 r1 where r1: "after_step_ran env step ?topo w = (w1, r1)" by fastforce
  from assms va r1 have go: "r1 = Inr AfterGo" by (auto simp: advanceTail_def Let_def split: sum.splits after_step.splits)
  from assms va r1 go have tail: "\<not> step_index env (sd_name step) < gt_firstLoopIndex ?topo"
    by (auto simp: advanceTail_def Let_def split: if_splits prod.splits sum.splits scan_result.splits)
  from assms va r1 go tail obtain w2 where w2: "tail_skips env w1 = Inr w2"
    by (auto simp: advanceTail_def Let_def split: sum.splits)
  let ?vs = "readGateVerdictOverlay env (tl_files w2)"
  obtain w3 r3 where r3: "(if sd_name step = ''rebase'' then (w2, Inr ScanNone)
      else scanKickbackVerdicts env (sd_name step) ?vs (verdict_order env (tl_files w2)) True w2) = (w3, r3)" by fastforce
  then have fr: "tl_stuck w3 = tl_stuck w2 \<and> tl_files w3 = tl_files w2"
    by (auto dest: scan_frame split: if_splits)
  from assms va r1 go tail w2 r3 obtain start where start: "gt_regionStart ?topo = Some start"
      "select_next env start ?vs w3 = (w', Inr r)"
    by (auto simp: advanceTail_def Let_def split: sum.splits scan_result.splits option.splits)
  show thesis
    by (rule that [OF start(1), of w3]) (use fr tail_skips_stuck [OF w2] after_step_cleared [OF r1 va] start(2) in simp_all)
qed

lemma select_next_goto:
  assumes "select_next env start verdicts w = (w', Inr (GoTo k))"
  obtains i reason where "findNextGateInRegion (tail_input env start verdicts w) = Inr (Some i)"
    "i < length (tn_steps env)" "select_step env (sd_name (tn_steps env ! i)) reason w = (w', Inr (GoTo k))"
proof -
  from assms obtain i where i: "findNextGateInRegion (tail_input env start verdicts w) = Inr (Some i)"
    by (auto simp: select_next_def selectNextGate_def Let_def split: sum.splits option.splits)
  then have "i < length (tn_steps env)" by (auto dest!: findNext_lt simp: tail_input_def)
  moreover from assms i obtain reason where
    "select_step env (sd_name (tn_steps env ! i)) reason w = (w', Inr (GoTo k))"
    by (auto simp: select_next_def selectNextGate_def Let_def tail_input_def)
  ultimately show thesis using i that by blast
qed

lemma advance_goto_counts:
  assumes "advanceTail env step w = (w', Inr (GoTo k))"
  shows "k < length (tn_steps env) \<and>
    (let key = childScopedStepKey (sd_name (tn_steps env ! k)) (tn_child env);
         n = times_selected (cleared env step w) key + 1
     in n \<le> 6 \<and> tl_stuck w' = (cleared env step w)(key \<mapsto> n))"
proof -
  from advance_selects [OF assms] obtain w3 start where w3: "tl_stuck w3 = cleared env step w"
    "select_next env start (readGateVerdictOverlay env (tl_files w3)) w3 = (w', Inr (GoTo k))" by blast
  from select_next_goto [OF w3(2)] obtain i reason where i: "i < length (tn_steps env)"
    "select_step env (sd_name (tn_steps env ! i)) reason w3 = (w', Inr (GoTo k))" by blast
  have "step_index env (sd_name (tn_steps env ! i)) < length (tn_steps env)"
    using step_index_lt [OF i(1)] i(1) by simp
  from select_step_goto [OF i(2) this] w3(1) show ?thesis by (simp add: Let_def)
qed

lemma select_next_not_linear: "select_next env start verdicts w \<noteq> (w', Inr Linear)"
  by (auto simp: select_next_def select_step_def Let_def
      split: sum.splits selector_decision.splits if_splits)

lemma advance_linear:
  assumes "advanceTail env step w = (w', Inr Linear)"
  shows "tl_stuck w' = cleared env step w"
proof (cases "tn_verifyArtifacts env")
  case False
  with assms show ?thesis by (simp add: advanceTail_def cleared_def pass_satisfies_def)
next
  case True
  let ?topo = "deriveGateTopology (tn_steps env)"
  obtain w1 r1 where r1: "after_step_ran env step ?topo w = (w1, r1)" by fastforce
  from assms True r1 have go: "r1 = Inr AfterGo" by (auto simp: advanceTail_def Let_def split: sum.splits after_step.splits)
  have front: "step_index env (sd_name step) < gt_firstLoopIndex ?topo"
    using assms True r1 go select_next_not_linear
    by (auto simp: advanceTail_def Let_def split: if_splits sum.splits prod.splits scan_result.splits option.splits)
  with assms True r1 go have "tl_stuck w' = tl_stuck w1"
    by (auto simp: advanceTail_def Let_def dest!: scan_frame split: prod.splits sum.splits scan_result.splits)
  with after_step_cleared [OF r1 True] show ?thesis by simp
qed

section \<open>A run of the tail\<close>

text \<open>
  The passes of one run of the loop: each is an advance after a step. Between two passes steps run and
  may change everything but the selection counters; a pass that answers anything but a next
  index is the last.
\<close>

fun continues :: "tail_advance throws \<Rightarrow> bool" where
  "continues (Inr Linear) = True"
| "continues (Inr (GoTo k)) = True"
| "continues _ = False"

type_synonym tail_pass = "tail_env \<times> step_def \<times> tail_world"

fun tail_trace :: "(string \<rightharpoonup> nat) \<Rightarrow> tail_pass list \<Rightarrow> bool" where
  "tail_trace stuck [] = True"
| "tail_trace stuck ((env, step, w) # rest) =
     (tl_stuck w = stuck \<and>
      (rest = [] \<or> continues (snd (advanceTail env step w)) \<and> tail_trace (tl_stuck (fst (advanceTail env step w))) rest))"

fun selected_key :: "tail_pass \<Rightarrow> string option" where
  "selected_key (env, step, w) =
     (case snd (advanceTail env step w) of
        Inr (GoTo k) \<Rightarrow> Some (childScopedStepKey (sd_name (tn_steps env ! k)) (tn_child env))
      | _ \<Rightarrow> None)"

fun satisfied_key :: "tail_pass \<Rightarrow> string option" where
  "satisfied_key (env, step, w) =
     (if pass_satisfies env step w then Some (childScopedStepKey (sd_name step) (tn_child env)) else None)"

definition selections :: "tail_pass list \<Rightarrow> string \<Rightarrow> nat" where
  "selections tr key = length (filter (\<lambda>p. selected_key p = Some key) tr)"

definition satisfactions :: "tail_pass list \<Rightarrow> string \<Rightarrow> nat" where
  "satisfactions tr key = length (filter (\<lambda>p. satisfied_key p = Some key) tr)"

lemma selections_bound:
  "tail_trace stuck tr \<Longrightarrow> times_selected stuck key \<le> 6 \<Longrightarrow>
     selections tr key + times_selected stuck key \<le> 6 * (1 + satisfactions tr key)"
proof (induction tr arbitrary: stuck)
  case Nil
  then show ?case by (simp add: selections_def satisfactions_def)
next
  case (Cons p rest)
  obtain env step w where p: "p = (env, step, w)" by (cases p) auto
  obtain w' r where adv: "advanceTail env step w = (w', r)" by fastforce
  let ?c = "times_selected (cleared env step w) key"
  have stuck: "tl_stuck w = stuck" using Cons.prems(1) p by simp
  have c: "?c = (if satisfied_key p = Some key then 0 else times_selected stuck key)"
    using p stuck by (auto simp: cleared_def times_selected_def)
  have sat: "satisfactions (p # rest) key = (if satisfied_key p = Some key then 1 else 0) + satisfactions rest key"
    by (simp add: satisfactions_def)
  have sel: "selections (p # rest) key = (if selected_key p = Some key then 1 else 0) + selections rest key"
    by (simp add: selections_def)
  have now: "times_selected (tl_stuck w') key = ?c + (if selected_key p = Some key then 1 else 0) \<and>
      times_selected (tl_stuck w') key \<le> 6" if "continues r"
  proof -
    have "r = Inr Linear \<or> (\<exists>k. r = Inr (GoTo k))" using that by (cases r rule: continues.cases) auto
    then consider "r = Inr Linear" | k where "r = Inr (GoTo k)" by blast
    then show ?thesis
    proof cases
      case 1
      with advance_linear adv p c Cons.prems(2) show ?thesis by simp
    next
      case (2 k)
      with advance_goto_counts [of env step w w' k] adv p c Cons.prems(2) show ?thesis
        by (auto simp: Let_def times_selected_def)
    qed
  qed
  show ?case
  proof (cases "continues r")
    case False
    then have "selected_key p = None" "rest = []"
      using Cons.prems(1) p adv by (auto split: sum.splits tail_advance.splits)
    then show ?thesis using Cons.prems(2) sel sat by (simp add: selections_def)
  next
    case True
    have "rest = [] \<or> tail_trace (tl_stuck w') rest" using Cons.prems(1) p adv by auto
    then have "tail_trace (tl_stuck w') rest" by auto
    from Cons.IH [OF this] now [OF True] c sel sat Cons.prems(2) show ?thesis by (auto split: if_splits)
  qed
qed

lemma key_eq [simp]: "childScopedStepKey a c = childScopedStepKey b c \<longleftrightarrow> a = b"
  by (simp add: childScopedStepKey_def)

lemma length_filter_keys:
  assumes "finite K" "\<forall>p\<in>set tr. \<forall>k. f p = Some k \<longrightarrow> k \<in> K"
  shows "length (filter (\<lambda>p. f p \<noteq> None) tr) = (\<Sum>k\<in>K. length (filter (\<lambda>p. f p = Some k) tr))"
  using assms(2)
proof (induction tr)
  case Nil
  then show ?case by simp
next
  case (Cons p tr)
  have "(\<Sum>k\<in>K. length (filter (\<lambda>p. f p = Some k) (p # tr))) =
      (\<Sum>k\<in>K. (if f p = Some k then 1 else 0) + length (filter (\<lambda>p. f p = Some k) tr))"
    by (rule sum.cong) auto
  also have "\<dots> = (\<Sum>k\<in>K. if f p = Some k then 1 else 0) + (\<Sum>k\<in>K. length (filter (\<lambda>p. f p = Some k) tr))"
    by (rule sum.distrib)
  also have "(\<Sum>k\<in>K. if f p = Some k then 1 else 0) = (if f p = None then 0 else (1::nat))"
    using assms(1) Cons.prems by (cases "f p") (auto simp: sum.delta)
  finally show ?case using Cons by simp
qed

lemma length_filter_keys_le:
  assumes "finite K"
  shows "(\<Sum>k\<in>K. length (filter (\<lambda>p. f p = Some k) tr)) \<le> length (filter (\<lambda>p. f p \<noteq> None) tr)"
proof (induction tr)
  case Nil
  then show ?case by simp
next
  case (Cons p tr)
  have "(\<Sum>k\<in>K. length (filter (\<lambda>p. f p = Some k) (p # tr))) =
      (\<Sum>k\<in>K. (if f p = Some k then 1 else 0) + length (filter (\<lambda>p. f p = Some k) tr))"
    by (rule sum.cong) auto
  also have "\<dots> = (\<Sum>k\<in>K. if f p = Some k then 1 else 0) + (\<Sum>k\<in>K. length (filter (\<lambda>p. f p = Some k) tr))"
    by (rule sum.distrib)
  also have "(\<Sum>k\<in>K. if f p = Some k then 1 else 0) \<le> (if f p = None then 0 else (1::nat))"
    using assms by (cases "f p") (auto simp: sum.delta)
  finally show ?case using Cons by (auto split: if_splits)
qed

lemma selected_in:
  assumes "selected_key (env, step, w) = Some key"
  shows "key \<in> (\<lambda>d. childScopedStepKey (sd_name d) (tn_child env)) ` set (tn_steps env)"
proof -
  obtain w' r where adv: "advanceTail env step w = (w', r)" by fastforce
  with assms obtain k where k: "r = Inr (GoTo k)" "key = childScopedStepKey (sd_name (tn_steps env ! k)) (tn_child env)"
    by (auto split: sum.splits tail_advance.splits)
  from advance_goto_counts [OF adv [unfolded k(1)]] k(2) show ?thesis by (auto simp: Let_def)
qed


text \<open>
  The rebase step is selected at most six times in a run, however often
  it succeeds: a seventh selection halts, although the cap is meant to count selections before the
  gate is satisfied.
\<close>

theorem rebase_cap_ignores_success:
  assumes "tail_trace Map.empty tr" and "\<forall>(env, step, w)\<in>set tr. tn_child env = child"
  shows "selections tr (childScopedStepKey ''rebase'' child) \<le> 6"
proof -
  have "satisfied_key p \<noteq> Some (childScopedStepKey ''rebase'' child)" if "p \<in> set tr" for p
    using that assms(2) by (cases p) (auto simp: pass_satisfies_def split: if_splits)
  then have "satisfactions tr (childScopedStepKey ''rebase'' child) = 0" by (simp add: satisfactions_def)
  with selections_bound [OF assms(1), of "childScopedStepKey ''rebase'' child"] show ?thesis
    by (simp add: times_selected_def)
qed

section \<open>Kickbacks on an unchanged tree\<close>

definition kick_input :: "tail_env \<Rightarrow> kickback_mark \<Rightarrow> bump_input" where
  "kick_input env mark =
     \<lparr>bi_treeHash = tn_treeHash env, bi_resolvedCount = tn_resolvedCount env None, bi_reason = kb_evidence mark\<rparr>"

text \<open>The charge is durable before anything else happens, whatever the scan answers.\<close>

lemma charge_durable:
  assumes "regionChild env target = None" "tn_ledgerEnv env = ok_ledger_env"
    "sees_ledger (tl_ledger w) l" "wf_ledger l"
  obtains doc where "charge_kickback env target mark w =
      (w\<lparr>tl_ledger := doc\<rparr>, Inr (bumpKickbackGate (gate_of l target) (kick_input env mark), gate_of l target))"
    "sees_ledger doc (norm_ledger (set_gate target (br_entry (bumpKickbackGate (gate_of l target) (kick_input env mark))) l))"
proof -
  let ?res = "bumpKickbackGate (gate_of l target) (kick_input env mark)"
  have wf: "wf_ledger (set_gate target (br_entry ?res) l)"
    using assms(4) wf_gate_of by (intro wf_set_gate wf_bump) (auto split: option.splits)
  have tx: "bump_tx target (kick_input env mark) l =
      Inr (Some (set_gate target (br_entry ?res) l), (?res, gate_of l target))"
    using assms(4) by (simp add: bump_tx_def guarded_def wf_readable Let_def)
  obtain doc where
    "leased ok_ledger_env False (bump_tx target (kick_input env mark)) (tl_ledger w) = (doc, Inr (?res, gate_of l target))"
    "sees_ledger doc (norm_ledger (set_gate target (br_entry ?res) l))"
    using flat.commit [where tx = "bump_tx target (kick_input env mark)", OF assms(3) tx wf] by blast
  with that assms(1,2) show thesis
    by (simp add: charge_kickback_def bumpKickbackGateInLedger_def kick_input_def Let_def)
qed

lemma scan_kickback_ledger:
  assumes "charge_kickback env target mark w = (w1, Inr (res, before))"
    "scan_kickback env st nav target mark w = (w', r)"
  shows "tl_ledger w' = tl_ledger w1"
    and "br_exhausted res \<Longrightarrow> r = Inr ScanHalted \<and> w' = halted (ping_pong_reason env target (br_entry res)) w1"
    and "r = Inr ScanKicked \<Longrightarrow> \<not> br_exhausted res"
  using assms unfolding scan_kickback_def
  by (auto simp: Let_def dest: navigate_frame(4) split: sum.splits if_splits routed_admission.splits
      decide_disposition.splits)

text \<open>
  A run of passes in which a step re-opened the same feature-wide gate: between two of them anything
  may happen but a change of that gate's ledger record; a pass that does not navigate is the last.
\<close>

type_synonym kick_pass = "tail_env \<times> step_name \<times> bool \<times> kickback_mark \<times> tail_world"

fun kick_result :: "step_name \<Rightarrow> kick_pass \<Rightarrow> tail_world \<times> scan_result throws" where
  "kick_result target (env, st, nav, mark, w) = scan_kickback env st nav target mark w"

fun on_tree :: "step_name \<Rightarrow> string option \<Rightarrow> int \<Rightarrow> gate_entry option \<Rightarrow> kick_pass \<Rightarrow> bool" where
  "on_tree target h c e (env, st, nav, mark, w) =
     (regionChild env target = None \<and> tn_ledgerEnv env = ok_ledger_env \<and>
      tn_treeHash env = h \<and> tn_resolvedCount env None = c \<and>
      readable_doc (tl_ledger w) \<and> wf_ledger (readKickbackLedger (tl_ledger w)) \<and>
      gate_of (readKickbackLedger (tl_ledger w)) target = e)"

fun kick_trace :: "step_name \<Rightarrow> string option \<Rightarrow> int \<Rightarrow> gate_entry option \<Rightarrow> kick_pass list \<Rightarrow> bool" where
  "kick_trace target h c e [] = True"
| "kick_trace target h c e (p # rest) =
     (on_tree target h c e p \<and>
      (rest = [] \<or> snd (kick_result target p) = Inr ScanKicked \<and>
         kick_trace target h c (gate_of (readKickbackLedger (tl_ledger (fst (kick_result target p)))) target) rest))"

text \<open>The record of a gate that has been kicked back \<open>n\<close> times on a tree.\<close>

definition kicked :: "nat \<Rightarrow> string option \<Rightarrow> int \<Rightarrow> gate_entry option \<Rightarrow> bool" where
  "kicked n h c e =
     (case e of None \<Rightarrow> n = 0
      | Some x \<Rightarrow> 0 \<le> ge_count x \<and> (0 < n \<longrightarrow> int n \<le> ge_count x \<and> ge_treeHash x = h \<and> ge_resolvedBefore x = c))"

lemma kick_step:
  assumes "on_tree target h c e p" "kicked n h c e" "snd (kick_result target p) = Inr ScanKicked"
  shows "n < 2 \<and> kicked (Suc n) h c (gate_of (readKickbackLedger (tl_ledger (fst (kick_result target p)))) target)"
proof -
  obtain env st nav mark w where p: "p = (env, st, nav, mark, w)" by (cases p) auto
  let ?l = "readKickbackLedger (tl_ledger w)"
  let ?res = "bumpKickbackGate e (kick_input env mark)"
  from assms(1) p have t: "regionChild env target = None" "tn_ledgerEnv env = ok_ledger_env"
    "sees_ledger (tl_ledger w) ?l" "wf_ledger ?l" "gate_of ?l target = e"
    "tn_treeHash env = h" "tn_resolvedCount env None = c" by (simp_all add: sees_ledger_def)
  obtain doc where d: "charge_kickback env target mark w = (w\<lparr>tl_ledger := doc\<rparr>, Inr (?res, e))"
    "sees_ledger doc (norm_ledger (set_gate target (br_entry ?res) ?l))"
    using charge_durable [OF t(1-4), of mark] t(5) by metis
  obtain w' r where k: "scan_kickback env st nav target mark w = (w', r)" by fastforce
  with assms(3) p have r: "r = Inr ScanKicked" by simp
  from scan_kickback_ledger [OF d(1) k] r have ne: "\<not> br_exhausted ?res" and led: "tl_ledger w' = doc" by auto
  have g: "gate_of (readKickbackLedger (tl_ledger w')) target = Some (norm_entry target (br_entry ?res))"
    using d(2) led by (simp add: sees_ledger_def)
  have "n < 2 \<and> kicked (Suc n) h c (Some (norm_entry target (br_entry ?res)))"
    using assms(2) ne t(6,7)
    by (cases e) (auto simp: kicked_def bumpKickbackGate_def Let_def made_progress_def kick_input_def norm_entry_def
        blank_gate_entry_def ledger_limits min_def split: if_splits)
  with g k p show ?thesis by simp
qed

lemma kick_exhausted:
  assumes "on_tree target h c e (env, st, nav, mark, w)" "kicked 2 h c e"
  shows "snd (kick_result target (env, st, nav, mark, w)) = Inr ScanHalted"
    and "tl_state (fst (kick_result target (env, st, nav, mark, w))) = tl_state w"
    and "tl_doc (fst (kick_result target (env, st, nav, mark, w))) = tl_doc w"
    and "tl_halt (fst (kick_result target (env, st, nav, mark, w))) \<noteq> None"
proof -
  let ?l = "readKickbackLedger (tl_ledger w)"
  let ?res = "bumpKickbackGate e (kick_input env mark)"
  from assms(1) have t: "regionChild env target = None" "tn_ledgerEnv env = ok_ledger_env"
    "sees_ledger (tl_ledger w) ?l" "wf_ledger ?l" "gate_of ?l target = e"
    "tn_treeHash env = h" "tn_resolvedCount env None = c" by (simp_all add: sees_ledger_def)
  obtain doc where d: "charge_kickback env target mark w = (w\<lparr>tl_ledger := doc\<rparr>, Inr (?res, e))"
    using charge_durable [OF t(1-4), of mark] t(5) by metis
  obtain w' r where k: "scan_kickback env st nav target mark w = (w', r)" by fastforce
  have "br_exhausted ?res" using assms(2) t(6,7)
    by (cases e) (auto simp: kicked_def bumpKickbackGate_def Let_def made_progress_def kick_input_def
        ledger_limits)
  from scan_kickback_ledger(2) [OF d k this] have "r = Inr ScanHalted"
    "w' = halted (ping_pong_reason env target (br_entry ?res)) (w\<lparr>tl_ledger := doc\<rparr>)" by simp_all
  with k show "snd (kick_result target (env, st, nav, mark, w)) = Inr ScanHalted"
    "tl_state (fst (kick_result target (env, st, nav, mark, w))) = tl_state w"
    "tl_doc (fst (kick_result target (env, st, nav, mark, w))) = tl_doc w"
    "tl_halt (fst (kick_result target (env, st, nav, mark, w))) \<noteq> None"
    by (simp_all add: halted_def)
qed

lemma kick_trace_run:
  "kick_trace target h c e ps \<Longrightarrow> kicked n h c e \<Longrightarrow> n \<le> 2 \<Longrightarrow>
     n + length ps \<le> 3 \<and> (n + length ps = 3 \<longrightarrow> ps \<noteq> [] \<longrightarrow>
       snd (kick_result target (last ps)) = Inr ScanHalted \<and>
       (case last ps of (env, st, nav, mark, w) \<Rightarrow>
          tl_state (fst (kick_result target (last ps))) = tl_state w \<and>
          tl_doc (fst (kick_result target (last ps))) = tl_doc w \<and>
          tl_halt (fst (kick_result target (last ps))) \<noteq> None))"
proof (induction ps arbitrary: e n)
  case Nil
  then show ?case by simp
next
  case (Cons p rest)
  obtain env st nav mark w where p: "p = (env, st, nav, mark, w)" by (cases p) auto
  have on: "on_tree target h c e p" using Cons.prems(1) by simp
  show ?case
  proof (cases "rest = []")
    case False
    with Cons.prems(1) have k: "snd (kick_result target p) = Inr ScanKicked"
      and tr: "kick_trace target h c (gate_of (readKickbackLedger (tl_ledger (fst (kick_result target p)))) target) rest"
      by simp_all
    from kick_step [OF on Cons.prems(2) k] have n: "Suc n \<le> 2"
      and kd: "kicked (Suc n) h c (gate_of (readKickbackLedger (tl_ledger (fst (kick_result target p)))) target)" by simp_all
    from Cons.IH [OF tr kd n] False show ?thesis by simp
  next
    case True
    with Cons.prems(2,3) kick_exhausted [of target h c e env st nav mark w] on p show ?thesis
      by (cases "n = 2") auto
  qed
qed

text \<open>
  C11: on an unchanged tree with nothing newly resolved, whichever steps write the
  kickbacks, the loop goes back to a feature-wide gate at most twice: a third kickback halts it before any
  state is changed, whatever had been charged before and however the processes that make the
  passes restart in between.
\<close>

theorem kickback_storm_halts:
  assumes "kick_trace target h c e ps" and "\<forall>x. e = Some x \<longrightarrow> 0 \<le> ge_count x"
  shows "length ps \<le> 3 \<and> (length ps = 3 \<longrightarrow>
       snd (kick_result target (last ps)) = Inr ScanHalted \<and>
       (case last ps of (env, st, nav, mark, w) \<Rightarrow>
          tl_state (fst (kick_result target (last ps))) = tl_state w \<and>
          tl_doc (fst (kick_result target (last ps))) = tl_doc w \<and>
          tl_halt (fst (kick_result target (last ps))) \<noteq> None))"
proof -
  have "kicked 0 h c e" using assms(2) by (auto simp: kicked_def split: option.splits)
  from kick_trace_run [OF assms(1) this] show ?thesis by (cases ps) auto
qed

section \<open>Convergence and selection\<close>

definition quiet_steps :: "step_def list" where
  "quiet_steps = [step_build\<lparr>sd_prerequisites := []\<rparr>, step_rebase\<lparr>sd_prerequisites := [''build'']\<rparr>]"

definition quiet_env :: tail_env where
  "quiet_env = \<lparr>tn_steps = quiet_steps, tn_customs = Map.empty, tn_dir = ''gates'', tn_root = [''repo''],
     tn_child = None, tn_routedRound = None, tn_verifyArtifacts = True, tn_daemon = False, tn_now = 0,
     tn_applyBatch = (\<lambda>d ms. (d, Applied None)), tn_ledgerEnv = ok_ledger_env, tn_verdictIo = None,
     tn_listing = (\<lambda>_. None), tn_completion = (\<lambda>_. \<lparr>cr_done = False, cr_reason = None, cr_acceptanceOutcome = None\<rparr>), tn_routedForward = None,
     tn_treeHash = Some ''t1'', tn_resolvedCount = (\<lambda>_. 0), tn_admission = (\<lambda>_ _. RoutedAdmitted),
     tn_hasContract = (\<lambda>_. True), tn_artifactPresent = (\<lambda>_. False), tn_grants = Map.empty, tn_skippedSteps = [],
     tn_track = Product, tn_buildReviewEnabled = True, tn_parking = None, tn_sealError = None,
     tn_outcome = Some RebaseNoop, tn_dispatchStartedAt = None, tn_heal = id\<rparr>"

definition quiet_world :: "conduct_state \<Rightarrow> (string \<rightharpoonup> nat) \<Rightarrow> tail_world" where
  "quiet_world s stuck = \<lparr>tl_state = s, tl_doc = DocState s, tl_files = Map.empty, tl_ledger = LedgerAbsent,
     tl_childLedger = LedgerAbsent, tl_stuck = stuck, tl_halt = None\<rparr>"

lemma quiet_fields [simp]:
  "tn_steps quiet_env = [step_build\<lparr>sd_prerequisites := []\<rparr>, step_rebase\<lparr>sd_prerequisites := [''build'']\<rparr>]" "tn_child quiet_env = None" "tn_verifyArtifacts quiet_env"
  "tn_sealError quiet_env = None" "tn_outcome quiet_env = Some RebaseNoop" "tn_dispatchStartedAt quiet_env = None"
  "tn_skippedSteps quiet_env = []" "tn_track quiet_env = Product" "tn_buildReviewEnabled quiet_env"
  "tn_parking quiet_env = None" "tn_listing quiet_env = (\<lambda>_. None)" "tn_ledgerEnv quiet_env = ok_ledger_env"
  "tn_treeHash quiet_env = Some ''t1''" "tn_resolvedCount quiet_env = (\<lambda>_. 0)" "\<not> tn_daemon quiet_env"
  "tn_applyBatch quiet_env = (\<lambda>d ms. (d, Applied None))"
  by (simp_all add: quiet_env_def quiet_steps_def)

lemma quiet_topology:
  "deriveGateTopology [step_build\<lparr>sd_prerequisites := []\<rparr>, step_rebase\<lparr>sd_prerequisites := [''build'']\<rparr>] =
     \<lparr>gt_verdictSteps = [''rebase'', ''build''], gt_kickbackTargets = [], gt_firstLoopIndex = 0, gt_regionStart = Some ''build''\<rparr>"
  by (simp add: deriveGateTopology_def step_build_def step_rebase_def step_literal_def List.insert_def truthy_flag_def)

lemma quiet_world_fields [simp]:
  "tl_state (quiet_world s stuck) = s" "tl_files (quiet_world s stuck) = Map.empty" "tl_stuck (quiet_world s stuck) = stuck"
  "tl_ledger (quiet_world s stuck) = LedgerAbsent" "tl_halt (quiet_world s stuck) = None"
  by (simp_all add: quiet_world_def)

lemma quiet_names [simp]: "sd_name step_build = ''build''" "sd_name step_rebase = ''rebase''"
  "sd_skippableForTracks step_build = None" "sd_skippableForTracks step_rebase = None"
  "sd_skipWhenSkipped step_build = None" "sd_skipWhenSkipped step_rebase = None"
  "sd_skippableForTiers step_build = []" "sd_skippableForTiers step_rebase = []"
  by (simp_all add: step_build_def step_rebase_def step_literal_def)

lemma quiet_verdicts: "readGateVerdictOverlay quiet_env files = Map.empty"
  by (simp add: readGateVerdictOverlay_def readAllVerdicts_def Let_def)

lemma quiet_skips: "s ''bootstrap_mode'' = None \<Longrightarrow> tail_skips quiet_env (quiet_world s stuck) = Inr (quiet_world s stuck)"
  by (simp add: tail_skips_def tail_skip_applies_def quiet_world_def shouldSkipForBootstrapMode_def
      state_bootstrap_mode_def shouldSkipForUpstreamSkip_def)

lemma quiet_advance:
  assumes "s ''bootstrap_mode'' = None"
  shows "advanceTail quiet_env step_rebase (quiet_world s stuck) =
     select_next quiet_env ''build'' Map.empty (quiet_world s stuck)"
  using quiet_skips [of s stuck, OF assms]
  by (simp add: advanceTail_def quiet_topology after_step_ran_def after_rebase_def reconcileStaleRebaseVerdict_def
      step_index_def quiet_verdicts)

lemma quiet_select:
  "\<exists>w'. advanceTail quiet_env step_rebase (quiet_world Map.empty stuck) = (w', Inr (GoTo 0)) \<and>
     tl_stuck w' = stuck(''build#feature'' \<mapsto> times_selected stuck ''build#feature'' + 1)"
  if "times_selected stuck ''build#feature'' < 6"
proof -
  let ?inp = "tail_input quiet_env ''build'' Map.empty (quiet_world Map.empty stuck)"
  have "findNextGateInRegion ?inp = Inr (Some 0)"
    by (simp add: selector_eval_simps tail_input_def scan_from.simps)
  then have "selectNextGate ?inp = Inr (Run ''build'' ''build not yet satisfied'')"
    by (simp add: selectNextGate_def tail_input_def Let_def)
  moreover have "clampToRunnablePrerequisite (tn_steps quiet_env) Map.empty 0 = 0"
    using clamp_settled [of "tn_steps quiet_env" Map.empty 0] by simp
  ultimately show ?thesis using that
    by (simp add: quiet_advance select_next_def select_step_def step_index_def Let_def childScopedStepKey_def
        MAX_GATE_SELECTIONS_def times_selected_def getStepStatus_def step_field_def split: option.splits)
qed

lemma quiet_converges:
  "advanceTail quiet_env step_rebase (quiet_world [''build'' \<mapsto> status_json Done, ''rebase'' \<mapsto> status_json Done] Map.empty) =
     (quiet_world [''build'' \<mapsto> status_json Done, ''rebase'' \<mapsto> status_json Done] Map.empty, Inr (Converged 2))"
proof -
  let ?s = "[''build'' \<mapsto> status_json Done, ''rebase'' \<mapsto> status_json Done]"
  have "findNextGateInRegion (tail_input quiet_env ''build'' Map.empty (quiet_world ?s Map.empty)) = Inr None"
    by (simp add: selector_eval_simps tail_input_def scan_from.simps)
  then have "selectNextGate (tail_input quiet_env ''build'' Map.empty (quiet_world ?s Map.empty)) =
      Inr (AllDone ''all gates in the looped region are satisfied'')"
    by (simp add: selectNextGate_def tail_input_def)
  then show ?thesis by (simp add: quiet_advance select_next_def)
qed

text \<open>
  C6: the tail reports convergence only when no gate is left: nothing is parked, and
  by the verdicts on disk and the state it leaves behind every step from the start of the
  looped region is skipped or satisfied. The next index is then the end of the step list.
\<close>

theorem convergence_sound:
  assumes "advanceTail env step w = (w', Inr (Converged n))"
  shows "n = length (tn_steps env) \<and> tn_parking env = None \<and>
     (\<exists>start i. gt_regionStart (deriveGateTopology (tn_steps env)) = Some start \<and>
        find_idx (\<lambda>d. sd_name d = start) (tn_steps env) = Some i \<and>
        (\<forall>d\<in>set (drop i (tn_steps env)). isSkipped d (tl_state w') \<or>
           gateSatisfied (sd_name d) (tl_state w') (readGateVerdictOverlay env (tl_files w'))))"
proof -
  from advance_selects [OF assms] obtain w3 start where
    start: "gt_regionStart (deriveGateTopology (tn_steps env)) = Some start" and
    sel: "select_next env start (readGateVerdictOverlay env (tl_files w3)) w3 = (w', Inr (Converged n))" by blast
  let ?inp = "tail_input env start (readGateVerdictOverlay env (tl_files w3)) w3"
  from sel have "\<exists>r. selectNextGate ?inp = Inr (AllDone r)" and w: "w' = w3" "n = length (tn_steps env)"
    by (auto simp: select_next_def select_step_def Let_def split: sum.splits selector_decision.splits if_splits)
  then have none: "findNextGateInRegion ?inp = Inr None" and park: "tn_parking env = None"
    by (auto simp: selectNextGate_def Let_def tail_input_def split: sum.splits option.splits)
  from none obtain i where i: "find_idx (\<lambda>d. sd_name d = start) (tn_steps env) = Some i"
    "\<forall>j. i \<le> j \<longrightarrow> \<not> runnable ?inp j"
    by (auto simp: findNext_None start_index_def tail_input_def)
  have "isSkipped d (tl_state w') \<or> gateSatisfied (sd_name d) (tl_state w') (readGateVerdictOverlay env (tl_files w'))"
    if "d \<in> set (drop i (tn_steps env))" for d
  proof -
    from that obtain m where "m < length (drop i (tn_steps env))" "d = drop i (tn_steps env) ! m"
      by (metis in_set_conv_nth)
    then have "i + m < length (tn_steps env)" "d = tn_steps env ! (i + m)" by auto
    moreover from i(2) have "\<not> runnable ?inp (i + m)" by simp
    ultimately show ?thesis using park w by (auto simp: runnable_open admitted_def tail_input_def)
  qed
  with start i(1) park w show ?thesis by blast
qed

theorem convergence_sound_witness:
  "let s = [''build'' \<mapsto> status_json Done, ''rebase'' \<mapsto> status_json Done];
       w = quiet_world s Map.empty
   in advanceTail quiet_env step_rebase w = (w, Inr (Converged 2)) \<and>
      gateSatisfied ''build'' s (readGateVerdictOverlay quiet_env Map.empty)"
  using convergence_sound [OF quiet_converges] quiet_converges
  by (auto simp: quiet_topology selector_eval_simps quiet_verdicts)

lemma checkGate_other:
  assumes "prereqs_precede steps" "distinct (map sd_name steps)" "k < length steps"
  shows "checkGate (steps ! k) (s(sd_name (steps ! k) \<mapsto> v)) = GatePassed \<longleftrightarrow> checkGate (steps ! k) s = GatePassed"
proof -
  have "p \<noteq> sd_name (steps ! k)" if "p \<in> set (sd_prerequisites (steps ! k))" for p
  proof
    assume "p = sd_name (steps ! k)"
    with prereqs_ok_nth [OF assms(1) [unfolded prereqs_precede_def] assms(3)] that
    have "sd_name (steps ! k) \<in> sd_name ` set (take k steps)" by auto
    then obtain j where "j < k" "sd_name (steps ! j) = sd_name (steps ! k)"
      using assms(3) by (auto simp: in_set_conv_nth)
    with assms(2,3) show False by (simp add: distinct_conv_nth)
  qed
  then show ?thesis by (simp add: checkGate_passed stepSatisfied_def getStepStatus_def Let_def)
qed

lemma reopen_state:
  assumes "commitStateChanges env name [(f, v)] w = Inr w'"
  shows "tl_state w' = (tl_state w)(f \<mapsto> v) \<or>
     (tl_state w' = tl_state w \<and> (object_is (tl_state w f) (Some v) \<or>
        (\<exists>doc ms fs. snd (tn_applyBatch env doc ms) = Applied (Some fs) \<and> f \<in> set fs)))"
proof -
  have r: "\<exists>fs. r = Applied (Some fs) \<and> f \<in> set fs" if "f \<in> set (resolved_fields r)" for r
    using that by (cases r rule: resolved_fields.cases) auto
  show ?thesis
    using assms r
    by (auto simp: commitStateChanges_def applyStateBatch_def assign_changes_def Let_def
        split: if_splits sum.splits prod.splits option.splits) (metis snd_conv)+
qed

lemma object_is_Some: "object_is x (Some v) \<Longrightarrow> x = Some v"
  by (cases x) auto

text \<open>
  The step the tail sends the loop to exists and passes its gate check in the state
  the loop then reads, so the loop is not stopped as blocked; and it is not marked done, so it is run and
  not passed over, unless the store resolved the re-opening in favour of an operator's change.
\<close>

theorem tail_selects_runnable:
  assumes "advanceTail env step w = (w', Inr (GoTo k))"
    and "prereqs_precede (tn_steps env)" and "distinct (map sd_name (tn_steps env))"
  shows "k < length (tn_steps env) \<and> checkGate (tn_steps env ! k) (tl_state w') = GatePassed \<and>
     (getStepStatus (tl_state w') (sd_name (tn_steps env ! k)) = Done \<longrightarrow>
        (\<exists>doc ms fs. snd (tn_applyBatch env doc ms) = Applied (Some fs) \<and> sd_name (tn_steps env ! k) \<in> set fs))"
proof -
  let ?name = "sd_name (tn_steps env ! k)"
  from advance_selects [OF assms(1)] obtain w3 start where
    "select_next env start (readGateVerdictOverlay env (tl_files w3)) w3 = (w', Inr (GoTo k))" by blast
  from select_next_goto [OF this] obtain i reason where i: "i < length (tn_steps env)"
    and sel: "select_step env (sd_name (tn_steps env ! i)) reason w3 = (w', Inr (GoTo k))" by blast
  have ci: "step_index env (sd_name (tn_steps env ! i)) < length (tn_steps env)" using step_index_lt [OF i] i by simp
  note k = select_step_goto(1,2) [OF sel ci]
  have gate: "checkGate (tn_steps env ! k) (tl_state w3) = GatePassed"
    using clamp_gate_passes [OF assms(2) ci, of "tl_state w3"] k(1) by simp
  have state: "tl_state w' = tl_state w3 \<and> getStepStatus (tl_state w3) ?name \<noteq> Done \<or>
      (\<exists>u nm. commitStateChanges env nm [(?name, status_json Pending)] u = Inr w' \<and> tl_state u = tl_state w3)"
    using sel k
    by (auto simp: select_step_def Let_def split: if_splits sum.splits)
  then consider "tl_state w' = tl_state w3" "getStepStatus (tl_state w3) ?name \<noteq> Done"
    | "tl_state w' = (tl_state w3)(?name \<mapsto> status_json Pending)"
    | "tl_state w' = tl_state w3" "object_is (tl_state w3 ?name) (Some (status_json Pending)) \<or>
        (\<exists>doc ms fs. snd (tn_applyBatch env doc ms) = Applied (Some fs) \<and> ?name \<in> set fs)"
    using reopen_state by metis
  then show ?thesis
  proof cases
    case 1
    with gate k(2) show ?thesis by simp
  next
    case 2
    with gate checkGate_other [OF assms(2,3) k(2)] k(2) show ?thesis by simp
  next
    case 3
    with gate k(2) show ?thesis by (auto dest!: object_is_Some simp: getStepStatus_def step_field_def)
  qed
qed

theorem tail_selects_runnable_witness:
  "\<exists>w'. advanceTail quiet_env step_rebase (quiet_world Map.empty Map.empty) = (w', Inr (GoTo 0)) \<and>
     getStepStatus (tl_state w') ''build'' \<noteq> Done"
proof -
  obtain w' where w: "advanceTail quiet_env step_rebase (quiet_world Map.empty Map.empty) = (w', Inr (GoTo 0))"
    using quiet_select [of Map.empty] by (auto simp: times_selected_def)
  have "prereqs_precede (tn_steps quiet_env)" "distinct (map sd_name (tn_steps quiet_env))"
    by (simp_all add: prereqs_precede_def)
  from tail_selects_runnable [OF w this] w show ?thesis by auto
qed


theorem rebase_cap_ignores_success_witness:
  "\<exists>tr. tail_trace Map.empty tr \<and> tr \<noteq> [] \<and> selections tr ''rebase#feature'' \<le> 6"
proof -
  let ?tr = "[(quiet_env, step_rebase, quiet_world Map.empty Map.empty)]"
  have "tail_trace Map.empty ?tr" by simp
  from rebase_cap_ignores_success [OF this, of None] this show ?thesis
    by (intro exI [of _ ?tr]) (simp add: childScopedStepKey_def)
qed

definition kick_mark :: kickback_mark where
  "kick_mark = \<lparr>kb_from = ''conflict_check'', kb_evidence = ''amend'', kb_cause = None\<rparr>"

definition kick_pass :: "ledger_doc \<Rightarrow> kick_pass" where
  "kick_pass doc = (quiet_env, ''conflict_check'', False, kick_mark, (quiet_world Map.empty Map.empty)\<lparr>tl_ledger := doc\<rparr>)"

lemma kick_pass_step:
  assumes "sees_ledger doc l" "wf_ledger l" "\<not> br_exhausted (bumpKickbackGate (gate_of l ''stories'') (kick_input quiet_env kick_mark))"
  obtains doc' where "kick_result ''stories'' (kick_pass doc) = ((quiet_world Map.empty Map.empty)\<lparr>tl_ledger := doc'\<rparr>, Inr ScanKicked)"
    "sees_ledger doc' (norm_ledger (set_gate ''stories'' (br_entry (bumpKickbackGate (gate_of l ''stories'') (kick_input quiet_env kick_mark))) l))"
proof -
  have reg: "regionChild quiet_env ''stories'' = None" by (simp add: regionChild_def)
  obtain doc' where d: "charge_kickback quiet_env ''stories'' kick_mark ((quiet_world Map.empty Map.empty)\<lparr>tl_ledger := doc\<rparr>) =
      ((quiet_world Map.empty Map.empty)\<lparr>tl_ledger := doc'\<rparr>,
       Inr (bumpKickbackGate (gate_of l ''stories'') (kick_input quiet_env kick_mark), gate_of l ''stories''))"
    "sees_ledger doc' (norm_ledger (set_gate ''stories'' (br_entry (bumpKickbackGate (gate_of l ''stories'') (kick_input quiet_env kick_mark))) l))"
    using charge_durable [OF reg _ _ assms(2), of "(quiet_world Map.empty Map.empty)\<lparr>tl_ledger := doc\<rparr>" kick_mark] assms(1)
    by auto
  have "''conflict_check'' \<in> sd_name ` set ALL_STEPS" by (simp add: ALL_STEPS_def builtin_step_defs step_literal_def)
  with d assms(3) that show thesis
    by (simp add: kick_pass_def scan_kickback_def kickback_entry_def resolveDecideEntryDisposition_def
        decideEntryDisposition_def)
qed

lemma kick_pass_on_tree:
  "on_tree ''stories'' (Some ''t1'') 0 (gate_of l ''stories'') (kick_pass doc)" if "sees_ledger doc l" "wf_ledger l"
  using that by (simp add: kick_pass_def regionChild_def sees_ledger_def)

theorem kickback_storm_halts_witness:
  "\<exists>d1 d2. kick_trace ''stories'' (Some ''t1'') 0 None [kick_pass LedgerAbsent, kick_pass d1, kick_pass d2] \<and>
     snd (kick_result ''stories'' (kick_pass d2)) = Inr ScanHalted"
proof -
  let ?i = "kick_input quiet_env kick_mark"
  let ?e1 = "norm_entry ''stories'' (br_entry (bumpKickbackGate None ?i))"
  let ?e2 = "norm_entry ''stories'' (br_entry (bumpKickbackGate (Some ?e1) ?i))"
  have g0: "gate_of emptyLedger ''stories'' = None" by (simp add: gate_of_def emptyLedger_def)
  have x: "\<not> br_exhausted (bumpKickbackGate None ?i)" "\<not> br_exhausted (bumpKickbackGate (Some ?e1) ?i)"
    by (simp_all add: bumpKickbackGate_def Let_def made_progress_def kick_input_def norm_entry_def
        blank_gate_entry_def ledger_limits)
  let ?l1 = "norm_ledger (set_gate ''stories'' (br_entry (bumpKickbackGate None ?i)) emptyLedger)"
  obtain d1 where d1: "kick_result ''stories'' (kick_pass LedgerAbsent) =
      ((quiet_world Map.empty Map.empty)\<lparr>tl_ledger := d1\<rparr>, Inr ScanKicked)" "sees_ledger d1 ?l1"
    using kick_pass_step [OF absent_readable(2) emptyLedger_wf] x(1) g0 by auto
  have w1: "wf_ledger ?l1" by (intro wf_norm_ledger wf_set_gate emptyLedger_wf wf_bump) simp
  have g1: "gate_of ?l1 ''stories'' = Some ?e1" by simp
  let ?l2 = "norm_ledger (set_gate ''stories'' (br_entry (bumpKickbackGate (gate_of ?l1 ''stories'') ?i)) ?l1)"
  obtain d2 where d2: "kick_result ''stories'' (kick_pass d1) =
      ((quiet_world Map.empty Map.empty)\<lparr>tl_ledger := d2\<rparr>, Inr ScanKicked)" "sees_ledger d2 ?l2"
    using kick_pass_step [OF d1(2) w1] x(2) g1 by metis
  have w2: "wf_ledger ?l2"
    by (intro wf_norm_ledger wf_set_gate wf_bump w1, subst g1) (use wf_gate_of [OF w1 g1] in simp)
  have tr: "kick_trace ''stories'' (Some ''t1'') 0 None [kick_pass LedgerAbsent, kick_pass d1, kick_pass d2]"
    using kick_pass_on_tree [OF absent_readable(2) emptyLedger_wf] kick_pass_on_tree [OF d1(2) w1]
      kick_pass_on_tree [OF d2(2) w2] d1 d2 g0 by (simp add: sees_ledger_def)
  from kickback_storm_halts [OF this] have "snd (kick_result ''stories'' (kick_pass d2)) = Inr ScanHalted" by simp
  with tr show ?thesis by blast
qed

end
