(* ===== verification/GroupProps.thy ===== *)
theory GroupProps
  imports GroupCore TailProps
begin

text \<open>
  A branch spends its budget on failures only and ends; the join of a group records what each branch
  answered, whatever order they settled in, and fails exactly for a branch that has to pass.
\<close>

section \<open>The budget of a branch\<close>

text \<open>A rate-limited answer is retried under the same attempt number.\<close>

definition free_retry :: "step_run_result throws \<Rightarrow> bool" where
  "free_retry run =
     (case run of Inl _ \<Rightarrow> False | Inr r \<Rightarrow> sr_fault r = None \<and> \<not> sr_success r \<and> sr_rateLimited r)"

definition burns :: "branch_turn \<Rightarrow> bool" where
  "burns t =
     (case bt_run t of
        Inl _ \<Rightarrow> True
      | Inr r \<Rightarrow> sr_fault r = None \<and>
          (if sr_success r then bt_verify t \<noteq> None
           else \<not> sr_rateLimited r \<and> \<not> sr_authFailure r \<and> \<not> sr_permissionDenied r))"

fun attempt_chain :: "nat \<Rightarrow> (nat \<times> step_run_result throws) list \<Rightarrow> bool" where
  "attempt_chain a [] = True"
| "attempt_chain a ((b, run) # rest) = (b = a \<and> attempt_chain (if free_retry run then a else a + 1) rest)"

lemma attempts_append [simp]: "branch_attempts (xs @ ys) = branch_attempts xs @ branch_attempts ys"
  by (simp add: branch_attempts_def List.map_filter_def)

lemma attempts_Nil [simp]: "branch_attempts [] = []"
  by (simp add: branch_attempts_def List.map_filter_simps)

lemma attempts_Cons [simp]:
  "branch_attempts (e # es) = (case e of BranchAttempt a r \<Rightarrow> [(a, r)] | _ \<Rightarrow> []) @ branch_attempts es"
  by (cases e) (simp_all add: branch_attempts_def List.map_filter_simps)

lemma attempts_retry [simp]: "branch_attempts (retry_event m a) = []"
  by (simp add: retry_event_def)

declare branch_loop.simps [simp del]

lemma loop_Nil [simp]: "branch_loop episode m [] a d out ivs =
   (if m < a then ([], Some (makeNoVerdictOutcome (if out = [] then ''retries exhausted'' else out) None (accumulated ivs)))
    else ([], None))"
  by (simp add: branch_loop.simps)

lemma loop_Cons [simp]: "branch_loop episode m (t # rest) a d out ivs =
   (if m < a then ([], Some (makeNoVerdictOutcome (if out = [] then ''retries exhausted'' else out) None (accumulated ivs)))
    else (case branch_turn_result episode m t a d out ivs of
            (evs, TurnEnds outcome) \<Rightarrow> (evs, Some outcome)
          | (evs, TurnGoes a' out' ivs') \<Rightarrow>
              (case branch_loop episode m rest a' True out' ivs' of (evs', outcome) \<Rightarrow> (evs @ evs', outcome))))"
  by (subst branch_loop.simps) simp

text \<open>One turn: what it reports, and where it goes.\<close>

lemma turn_goes:
  assumes "branch_turn_result episode m t a d out ivs = (evs, TurnGoes a' out' ivs')"
  shows "branch_attempts evs = [(a, bt_run t)]" "a' = (if free_retry (bt_run t) then a else a + 1)"
    "burns t \<longleftrightarrow> \<not> free_retry (bt_run t)"
  using assms
  by (auto simp: branch_turn_result_def Let_def free_retry_def burns_def
      split: if_splits sum.splits option.splits)

lemma turn_ends:
  assumes "branch_turn_result episode m t a d out ivs = (evs, TurnEnds outcome)"
  shows "(branch_attempts evs = [] \<or> (\<exists>run. branch_attempts evs = [(a, run)])) \<and>
     (bo_kind outcome = OVerdict VPass \<longrightarrow>
        (\<exists>r. branch_attempts evs = [(a, Inr r)] \<and> sr_success r \<and> sr_fault r = None \<and> bt_verify t = None))"
  using assms
  by (auto simp: branch_turn_result_def Let_def makeNoVerdictOutcome_def makeVerdictOutcome_def makeParkedOutcome_def
      makeMechanicalFaultOutcome_def permission_denied_def split: if_splits sum.splits option.splits)

lemma loop_attempts:
  assumes "branch_loop episode m turns a d out ivs = (evs, outcome)"
  shows "attempt_chain a (branch_attempts evs) \<and> (\<forall>(b, run)\<in>set (branch_attempts evs). a \<le> b \<and> b \<le> m)"
  using assms
proof (induction turns arbitrary: a d out ivs evs outcome)
  case Nil
  then show ?case by (auto split: if_splits)
next
  case (Cons t rest)
  show ?case
  proof (cases "m < a")
    case True
    with Cons.prems show ?thesis by simp
  next
    case False
    obtain e1 r1 where t: "branch_turn_result episode m t a d out ivs = (e1, r1)" by fastforce
    show ?thesis
    proof (cases r1)
      case (TurnEnds o1)
      with Cons.prems False t turn_ends [OF t [unfolded TurnEnds]] show ?thesis by auto
    next
      case (TurnGoes a' out' ivs')
      obtain e2 o2 where l: "branch_loop episode m rest a' True out' ivs' = (e2, o2)" by fastforce
      note run = turn_goes(1,2) [OF t [unfolded TurnGoes]]
      from Cons.IH [OF l] run have "attempt_chain a' (branch_attempts e2)"
        "\<forall>(b, run)\<in>set (branch_attempts e2). a \<le> b \<and> b \<le> m" by (auto split: if_splits)
      moreover have "evs = e1 @ e2" using Cons.prems False t TurnGoes l by simp
      ultimately show ?thesis using run False by auto
    qed
  qed
qed

lemma chain_ge: "attempt_chain a as \<Longrightarrow> (c, r) \<in> set as \<Longrightarrow> a \<le> c"
proof (induction as arbitrary: a)
  case Nil
  then show ?case by simp
next
  case (Cons y as)
  obtain b run where y: "y = (b, run)" by fastforce
  show ?case
  proof (cases "(c, r) = y")
    case False
    with Cons.prems y have "(if free_retry run then a else a + 1) \<le> c" by (intro Cons.IH) auto
    then show ?thesis by (auto split: if_splits)
  qed (use Cons.prems y in auto)
qed

lemma chain_budget:
  "attempt_chain a as \<Longrightarrow> \<forall>(b, run)\<in>set as. b \<le> m \<Longrightarrow> a \<le> m + 1 \<Longrightarrow>
     length (filter (\<lambda>(b, run). \<not> free_retry run) as) + a \<le> m + 1"
proof (induction as arbitrary: a)
  case Nil
  then show ?case by simp
next
  case (Cons x as)
  obtain b run where x: "x = (b, run)" by fastforce
  with Cons.prems have "a \<le> m" "attempt_chain (if free_retry run then a else a + 1) as" by auto
  with Cons.IH [of "if free_retry run then a else a + 1"] Cons.prems(2) x show ?case by (auto split: if_splits)
qed

text \<open>A pass is the verified success of the last attempt.\<close>

lemma loop_pass:
  assumes "branch_loop episode m turns a d out ivs = (evs, Some outcome)" "bo_kind outcome = OVerdict VPass"
  shows "\<exists>b r. branch_attempts evs \<noteq> [] \<and> last (branch_attempts evs) = (b, Inr r) \<and> sr_success r \<and> sr_fault r = None"
  using assms
proof (induction turns arbitrary: a d out ivs evs outcome)
  case Nil
  then show ?case by (auto simp: makeNoVerdictOutcome_def split: if_splits)
next
  case (Cons t rest)
  show ?case
  proof (cases "m < a")
    case True
    with Cons.prems show ?thesis by (auto simp: makeNoVerdictOutcome_def)
  next
    case False
    obtain e1 r1 where t: "branch_turn_result episode m t a d out ivs = (e1, r1)" by fastforce
    show ?thesis
    proof (cases r1)
      case (TurnEnds o1)
      with Cons.prems False t turn_ends [OF t [unfolded TurnEnds]] show ?thesis by auto
    next
      case (TurnGoes a' out' ivs')
      obtain e2 o2 where l: "branch_loop episode m rest a' True out' ivs' = (e2, o2)" by fastforce
      with Cons.prems False t TurnGoes have e: "evs = e1 @ e2" "o2 = Some outcome" by simp_all
      from Cons.IH [OF l [unfolded e(2)] Cons.prems(2)] e(1) show ?thesis by auto
    qed
  qed
qed

text \<open>Enough failures end the branch.\<close>

lemma loop_ends:
  "m + 1 \<le> a + length (filter burns turns) \<Longrightarrow> snd (branch_loop episode m turns a d out ivs) \<noteq> None"
proof (induction turns arbitrary: a d out ivs)
  case Nil
  then show ?case by simp
next
  case (Cons t rest)
  show ?case
  proof (cases "m < a")
    case True
    then show ?thesis by simp
  next
    case False
    obtain e1 r1 where t: "branch_turn_result episode m t a d out ivs = (e1, r1)" by fastforce
    show ?thesis
    proof (cases r1)
      case (TurnEnds o1)
      with False t show ?thesis by simp
    next
      case (TurnGoes a' out' ivs')
      with turn_goes [OF t [unfolded TurnGoes]] Cons.prems
      have "m + 1 \<le> a' + length (filter burns rest)" by (auto split: if_splits)
      from Cons.IH [OF this, of True out' ivs'] False t TurnGoes show ?thesis by (auto split: prod.splits)
    qed
  qed
qed

definition fresh_run :: "bool \<Rightarrow> nat \<Rightarrow> branch_turn list \<Rightarrow> branch_event list \<times> branch_outcome option" where
  "fresh_run episode m turns = runGroupBranch episode False False m turns"

text \<open>
  C21: a branch spends its retry budget on failures only. Its attempts are numbered
  from one upwards, a number repeats exactly after a rate-limited answer, none exceeds the budget,
  and so at most that many attempts are not free; it passes only when its last attempt succeeded;
  and once the surroundings have answered with as many failures as the budget it has ended,
  however many rate limits came in between.
\<close>

theorem branch_budget_exact:
  assumes "fresh_run episode m turns = (evs, outcome)"
  shows "attempt_chain 1 (branch_attempts evs) \<and> (\<forall>(b, run)\<in>set (branch_attempts evs). 1 \<le> b \<and> b \<le> m) \<and>
    length (filter (\<lambda>(b, run). \<not> free_retry run) (branch_attempts evs)) \<le> m \<and>
    (\<forall>out. outcome = Some out \<longrightarrow> bo_kind out = OVerdict VPass \<longrightarrow>
       (\<exists>b r. last (branch_attempts evs) = (b, Inr r) \<and> sr_success r \<and> sr_fault r = None)) \<and>
    (m \<le> length (filter burns turns) \<longrightarrow> outcome \<noteq> None)"
proof -
  obtain es out where l: "branch_loop episode m turns 1 False [] [] = (es, out)" by fastforce
  with assms have e: "branch_attempts evs = branch_attempts es" "outcome = out"
    by (auto simp: fresh_run_def runGroupBranch_def runGroupBranchInner_def split: option.splits)
  from loop_attempts [OF l] have c: "attempt_chain 1 (branch_attempts es)"
    "\<forall>(b, run)\<in>set (branch_attempts es). 1 \<le> b \<and> b \<le> m" by simp_all
  have "length (filter (\<lambda>(b, run). \<not> free_retry run) (branch_attempts es)) \<le> m"
    using chain_budget [OF c(1), of m] c(2) by auto
  moreover have "outcome \<noteq> None" if "m \<le> length (filter burns turns)"
    using loop_ends [of m 1 turns episode False "[]" "[]"] that l e by simp
  moreover have "\<exists>b r. last (branch_attempts evs) = (b, Inr r) \<and> sr_success r \<and> sr_fault r = None"
    if "outcome = Some o1" "bo_kind o1 = OVerdict VPass" for o1
    using loop_pass [of episode m turns 1 False "[]" "[]" es o1] l that e by auto
  ultimately show ?thesis using c e by auto
qed

definition plain_result :: step_run_result where
  "plain_result = \<lparr>sr_success = True, sr_output = None, sr_fault = None, sr_authentication = None,
     sr_observedIntervals = None, sr_rateLimited = False, sr_deadline = None, sr_waitSeconds = None,
     sr_usageExhausted = False, sr_actualProvider = None, sr_preferredProvider = None, sr_authFailure = False,
     sr_permissionDenied = False\<rparr>"

definition plain_turn :: "step_run_result throws \<Rightarrow> branch_turn" where
  "plain_turn run = \<lparr>bt_aborted = False, bt_parked = False, bt_run = run, bt_verify = None, bt_now = 0, bt_abortedAfter = False\<rparr>"

definition limited_then_crash :: "branch_turn list" where
  "limited_then_crash =
     [plain_turn (Inr (plain_result\<lparr>sr_success := False, sr_rateLimited := True\<rparr>)), plain_turn (Inl ''crash'')]"

theorem branch_budget_exact_witness:
  "\<exists>evs. fresh_run False 1 limited_then_crash = (evs, Some (makeNoVerdictOutcome ''crash'' None None)) \<and>
     map fst (branch_attempts evs) = [1, 1] \<and>
     length (filter (\<lambda>(b, run). \<not> free_retry run) (branch_attempts evs)) \<le> 1"
proof -
  have run: "fresh_run False 1 limited_then_crash =
     ([BranchAdmitted, BranchDispatch 1, BranchAttempt 1 (Inr (plain_result\<lparr>sr_success := False, sr_rateLimited := True\<rparr>)),
       BranchDispatch 1, BranchAttempt 1 (Inl ''crash''),
       BranchSettled (makeNoVerdictOutcome ''crash'' None None)
         [(1, Inr (plain_result\<lparr>sr_success := False, sr_rateLimited := True\<rparr>)), (1, Inl ''crash'')],
       MemberResult ''no-verdict''], Some (makeNoVerdictOutcome ''crash'' None None))"
    by (simp add: fresh_run_def runGroupBranch_def runGroupBranchInner_def limited_then_crash_def plain_turn_def
        plain_result_def branch_turn_result_def named_provider_def retry_event_def accumulated_def
        makeNoVerdictOutcome_def Let_def)
  from branch_budget_exact [OF run] run show ?thesis by auto
qed

section \<open>The join\<close>

lemma assign_changes_lookup:
  "assign_changes s kvs f = (case map_of (rev kvs) f of Some v \<Rightarrow> Some v | None \<Rightarrow> s f)"
proof (induction kvs rule: rev_induct)
  case Nil
  then show ?case by (simp add: assign_changes_def)
next
  case (snoc kv kvs)
  then show ?case by (cases kv) (auto simp: assign_changes_def split: option.splits)
qed

lemma map_of_rev_distinct: "distinct (map fst kvs) \<Longrightarrow> map_of (rev kvs) = map_of kvs"
  by (subst map_of_inject_set) (simp_all flip: rev_map)

lemma commit_assigns:
  assumes "commitStateChanges env name changes w = Inr w'" "distinct (map fst changes)"
    and "\<forall>doc ms. resolved_fields (snd (tn_applyBatch env doc ms)) = []"
  shows "tl_state w' f = (case map_of changes f of Some v \<Rightarrow> Some v | None \<Rightarrow> tl_state w f)"
proof -
  have rev: "map_of (rev changes) = map_of changes"
    using assms(2) by (rule map_of_rev_distinct)
  show ?thesis
  proof (cases "filter (\<lambda>(field, nxt). \<not> object_is (tl_state w field) (Some nxt)) changes = []")
    case True
    then have "w' = w" using assms(1) by (simp add: commitStateChanges_def Let_def)
    moreover have "tl_state w f = Some v" if "map_of changes f = Some v" for v
      using True map_of_SomeD [OF that] object_is_Some by (fastforce simp: filter_empty_conv)
    ultimately show ?thesis by (auto split: option.splits)
  next
    case False
    define ms where "ms = map (\<lambda>(field, nxt). \<lparr>mu_field = field, mu_expected = tl_state w field, mu_intent = name, mu_next = nxt\<rparr>)
        (filter (\<lambda>(field, nxt). \<not> object_is (tl_state w field) (Some nxt)) changes)"
    have ne: "ms \<noteq> []" using False unfolding ms_def map_is_Nil_conv .
    have run: "(case applyStateBatch env ms (tl_doc w) of Inl m \<Rightarrow> Inl m
        | Inr (doc, result) \<Rightarrow> Inr (w\<lparr>tl_doc := doc, tl_state := assign_changes (tl_state w)
            (filter (\<lambda>(field, _). field \<notin> set (resolved_fields result)) changes)\<rparr>)) = Inr w'"
      using assms(1) ne unfolding commitStateChanges_def Let_def ms_def [symmetric] by (simp only: if_False)
    then obtain doc result where b: "applyStateBatch env ms (tl_doc w) = Inr (doc, result)"
      "tl_state w' = assign_changes (tl_state w) (filter (\<lambda>(field, _). field \<notin> set (resolved_fields result)) changes)"
      by (cases "applyStateBatch env ms (tl_doc w)") auto
    have "resolved_fields result = []"
      using b(1) assms(3) by (auto simp: applyStateBatch_def split: option.splits prod.splits) (metis snd_conv)
    then have "filter (\<lambda>(field, _). field \<notin> set (resolved_fields result)) changes = changes"
      by (simp add: case_prod_unfold)
    with b(2) rev show ?thesis by (simp add: assign_changes_lookup)
  qed
qed

lemma foldl_update_lookup:
  "map_of (foldl (\<lambda>kvs (k, v). AList.update k v kvs) xs kvs) f =
     (case map_of (rev kvs) f of Some v \<Rightarrow> Some v | None \<Rightarrow> map_of xs f)"
proof (induction kvs arbitrary: xs)
  case Nil
  then show ?case by simp
next
  case (Cons kv kvs)
  then show ?case
    by (cases kv) (auto simp: update_conv' map_add_def split: option.splits)
qed

lemma foldl_update_distinct:
  "distinct (map fst xs) \<Longrightarrow> distinct (map fst (foldl (\<lambda>kvs (k, v). AList.update k v kvs) xs kvs))"
  by (induction kvs arbitrary: xs) (auto simp: distinct_update)

lemma foldl_update_keys:
  assumes "distinct (map fst kvs)"
  shows "map_of (foldl (\<lambda>kvs (k, v). AList.update k v kvs) [] kvs) = map_of kvs"
  by (rule ext) (simp add: foldl_update_lookup map_of_rev_distinct [OF assms] split: option.split)

lemma join_lookup:
  assumes "distinct (grp # map (synthetic_key grp) branches)" "length outcomes = length branches"
  shows "distinct (map fst (join_changes grp branches outcomes))"
    and "i < length branches \<Longrightarrow> map_of (join_changes grp branches outcomes) (synthetic_key grp (branches ! i)) =
       Some (status_json (branch_status (Some (outcomes ! i))))"
    and "map_of (join_changes grp branches outcomes) grp =
       Some (status_json (group_status (join_pairs branches outcomes) (list_ex (\<lambda>out. outcome_parked (Some out)) outcomes)))"
proof -
  let ?status = "status_json (group_status (join_pairs branches outcomes) (list_ex (\<lambda>out. outcome_parked (Some out)) outcomes))"
  let ?kvs = "map (\<lambda>i. (synthetic_key grp (branches ! i), status_json (branch_status (Some (outcomes ! i))))) [0..<length branches]"
  have kvs: "map (\<lambda>(b, out). (synthetic_key grp b, status_json (branch_status out))) (join_pairs branches outcomes) = ?kvs"
    using assms(2) by (simp add: join_pairs_def)
  have keys: "map fst ?kvs = map (synthetic_key grp) branches"
    by (rule nth_equalityI) simp_all
  have dist: "distinct (map fst (?kvs @ [(grp, ?status)]))" using assms(1) keys by simp
  have changes: "join_changes grp branches outcomes = foldl (\<lambda>kvs (k, v). AList.update k v kvs) [] (?kvs @ [(grp, ?status)])"
    by (simp add: join_changes_def kvs Let_def)
  have look: "map_of (join_changes grp branches outcomes) = map_of (?kvs @ [(grp, ?status)])"
    unfolding changes using dist by (rule foldl_update_keys)
  show "distinct (map fst (join_changes grp branches outcomes))"
    unfolding changes by (rule foldl_update_distinct) simp
  show "map_of (join_changes grp branches outcomes) (synthetic_key grp (branches ! i)) =
       Some (status_json (branch_status (Some (outcomes ! i))))" if "i < length branches"
    unfolding look using dist that by (intro map_of_is_SomeI) auto
  show "map_of (join_changes grp branches outcomes) grp = Some ?status"
    unfolding look using dist by (intro map_of_is_SomeI) auto
qed

lemma list_ex_upt: "list_ex P (map f [0..<n]) \<longleftrightarrow> (\<exists>i<n. P (f i))"
  by (auto simp: list_ex_iff)

lemma join_failed:
  "length outcomes = length branches \<Longrightarrow> list_ex branch_failed (join_pairs branches outcomes) \<longleftrightarrow>
     (\<exists>i<length branches. branch_failed (branches ! i, Some (outcomes ! i)))"
  by (auto simp: join_pairs_def list_ex_iff)

lemma join_parked_iff:
  assumes "length outcomes = length branches"
  shows "join_parked branches outcomes \<noteq> None \<longleftrightarrow>
     \<not> list_ex branch_failed (join_pairs branches outcomes) \<and> list_ex (\<lambda>out. outcome_parked (Some out)) outcomes"
proof (cases "find_idx (\<lambda>out. outcome_parked (Some out)) outcomes")
  case None
  then have "\<not> list_ex (\<lambda>out. outcome_parked (Some out)) outcomes" by (auto simp: find_idx_None_iff list_ex_iff)
  with None show ?thesis by (simp add: join_parked_def)
next
  case (Some i)
  from find_idx_SomeD [OF Some] have "i < length outcomes" "outcome_parked (Some (outcomes ! i))" by auto
  then have "list_ex (\<lambda>out. outcome_parked (Some out)) outcomes" by (auto simp: list_ex_iff)
  with Some \<open>outcome_parked (Some (outcomes ! i))\<close> show ?thesis
    by (cases "outcomes ! i") (auto simp: join_parked_def outcome_parked_def)
qed

lemma join_parked_first:
  assumes "join_parked branches outcomes = Some (nm, a)"
  shows "\<exists>i<length outcomes. nm = pb_name (branches ! i) \<and> outcomes ! i = OParked a \<and> (\<forall>j<i. \<forall>b. outcomes ! j \<noteq> OParked b)"
proof -
  from assms obtain i where i: "find_idx (\<lambda>out. outcome_parked (Some out)) outcomes = Some i"
    "outcomes ! i = OParked a" "nm = pb_name (branches ! i)"
    by (auto simp: join_parked_def split: if_splits option.splits member_outcome.splits)
  from find_idx_SomeD [OF i(1)] have "i < length outcomes" "\<forall>j<i. \<not> outcome_parked (Some (outcomes ! j))" by auto
  then have "\<forall>j<i. \<forall>b. outcomes ! j \<noteq> OParked b" by (auto simp: outcome_parked_def)
  with i \<open>i < length outcomes\<close> show ?thesis by blast
qed

text \<open>
  C22: the durable record of a configured group does not depend on the order in which its
  branches settle. Every branch's own key is done when it passed, in progress when it was parked and failed
  otherwise, a skipped branch included; and the group is failed exactly when a branch that is not
  advisory neither passed nor was parked, in progress when none did but one was parked (and only
  then is a parked member returned, the first one with its attempt), and done otherwise.
\<close>

theorem group_join_exact:
  assumes "runWithConcurrency (length branches) (group_limit vc branches) False = Inr p"
    and "(pool_step vals False ^^ k) p q" and "pl_end q = Some (Resolved outcomes)"
    and "runParallelGroupViaCore env grp branches outcomes w = Inr (w', parked)"
    and "branches \<noteq> []" and "distinct (grp # map (\<lambda>b. grp @ ''__'' @ pb_name b) branches)"
    and "\<forall>doc ms. resolved_fields (snd (tn_applyBatch env doc ms)) = []"
  shows "(\<forall>i<length branches. tl_state w' (grp @ ''__'' @ pb_name (branches ! i)) =
            Some (status_json (case projr (vals i) of OVerdict VPass \<Rightarrow> Done | OParked _ \<Rightarrow> In_progress | _ \<Rightarrow> Failed))) \<and>
     (let failed = (\<exists>i<length branches. \<not> pb_advisory (branches ! i) \<and> projr (vals i) \<noteq> OVerdict VPass \<and>
                      (\<forall>a. projr (vals i) \<noteq> OParked a));
          waiting = (\<exists>i<length branches. \<exists>a. projr (vals i) = OParked a)
      in tl_state w' grp = Some (status_json (if failed then Failed else if waiting then In_progress else Done)) \<and>
         (parked \<noteq> None \<longleftrightarrow> waiting \<and> \<not> failed) \<and>
         (\<forall>nm a. parked = Some (nm, a) \<longrightarrow> (\<exists>i<length branches. nm = pb_name (branches ! i) \<and> projr (vals i) = OParked a \<and>
            (\<forall>j<i. \<forall>b. projr (vals j) \<noteq> OParked b))))"
proof -
  have n: "length branches \<noteq> 0" using assms(5) by simp
  have outs: "outcomes = map (\<lambda>i. projr (vals i)) [0..<length branches]"
    using run_resolved(3) [OF assms(1) n assms(2,3)] not_aborted_steps [OF assms(1,2)] by simp
  then have len: "length outcomes = length branches" by simp
  from assms(4) have c: "commitStateChanges env (''join '' @ grp @ '' parallel group'') (join_changes grp branches outcomes) w = Inr w'"
    and park: "parked = join_parked branches outcomes"
    by (auto simp: runParallelGroupViaCore_def map_sum_Inr_iff)
  have keys: "synthetic_key grp = (\<lambda>b. grp @ ''__'' @ pb_name b)" by (simp add: synthetic_key_def fun_eq_iff)
  then have "distinct (grp # map (synthetic_key grp) branches)" using assms(6) by simp
  note look = join_lookup [OF this len]
  have state: "tl_state w' f = Some v" if "map_of (join_changes grp branches outcomes) f = Some v" for f v
    using commit_assigns [OF c look(1) assms(7), of f] that by simp
  have status: "branch_status (Some out) = (case out of OVerdict VPass \<Rightarrow> Done | OParked _ \<Rightarrow> In_progress | _ \<Rightarrow> Failed)" for out
    by (auto simp: branch_status_def outcome_passed_def outcome_parked_def split: member_outcome.splits verdict_word.splits)
  have fb: "branch_failed (b, Some out) \<longleftrightarrow> \<not> pb_advisory b \<and> out \<noteq> OVerdict VPass \<and> (\<forall>a. out \<noteq> OParked a)" for b out
    by (cases out) (auto simp: branch_failed_def outcome_passed_def outcome_parked_def)
  have failed: "list_ex branch_failed (join_pairs branches outcomes) \<longleftrightarrow>
      (\<exists>i<length branches. \<not> pb_advisory (branches ! i) \<and> projr (vals i) \<noteq> OVerdict VPass \<and> (\<forall>a. projr (vals i) \<noteq> OParked a))"
    unfolding join_failed [OF len] fb unfolding outs by auto
  have wp: "outcome_parked (Some out) \<longleftrightarrow> (\<exists>a. out = OParked a)" for out
    by (cases out) (simp_all add: outcome_parked_def)
  have waiting: "list_ex (\<lambda>out. outcome_parked (Some out)) outcomes \<longleftrightarrow> (\<exists>i<length branches. \<exists>a. projr (vals i) = OParked a)"
    unfolding outs list_ex_upt wp by blast
  have own: "\<forall>i<length branches. tl_state w' (grp @ ''__'' @ pb_name (branches ! i)) =
      Some (status_json (case projr (vals i) of OVerdict VPass \<Rightarrow> Done | OParked _ \<Rightarrow> In_progress | _ \<Rightarrow> Failed))"
    using state [OF look(2)] outs by (simp add: keys status)
  have first: "\<forall>nm a. parked = Some (nm, a) \<longrightarrow> (\<exists>i<length branches. nm = pb_name (branches ! i) \<and> projr (vals i) = OParked a \<and>
      (\<forall>j<i. \<forall>b. projr (vals j) \<noteq> OParked b))"
    using join_parked_first [of branches outcomes] park outs by fastforce
  note state [OF look(3)] join_parked_iff [OF len]
  with own first show ?thesis unfolding park Let_def group_status_def failed waiting by auto
qed

definition lone_branch :: "parallel_branch list" where
  "lone_branch = [\<lparr>pb_name = ''a'', pb_advisory = False\<rparr>]"

definition lone_start :: "member_outcome pool" where
  "lone_start = \<lparr>pl_results = [None], pl_nextIndex = 1, pl_inFlight = 1, pl_completed = 0, pl_settled = False,
     pl_aborted = False, pl_running = {0}, pl_end = None\<rparr>"

theorem group_join_exact_witness:
  "\<exists>w'. runParallelGroupViaCore quiet_env ''checks'' lone_branch [OVerdict VFail] (quiet_world Map.empty Map.empty) = Inr (w', None) \<and>
     tl_state w' ''checks__a'' = Some (status_json Failed) \<and> tl_state w' ''checks'' = Some (status_json Failed)"
proof -
  let ?vals = "\<lambda>_. Inr (OVerdict VFail)"
  have p: "runWithConcurrency (length lone_branch) (group_limit 4 lone_branch) False = Inr lone_start"
    by (simp add: runWithConcurrency_def lone_branch_def group_limit_def lone_start_def fresh_pool_def launchNext_def
        finishOnAbort_def)
  have st: "(pool_step ?vals False ^^ 1) lone_start (on_value 0 (OVerdict VFail) lone_start)"
    unfolding relpowp_1 by (rule pool_step.thunk_value) (simp_all add: lone_start_def)
  have fin: "pl_end (on_value 0 (OVerdict VFail) lone_start) = Some (Resolved [OVerdict VFail])"
    by (simp add: on_value_def lone_start_def settle_def present_def List.map_filter_simps Let_def)
  have a: "applyStateBatch quiet_env ms d = Inr (d, Applied None)" for ms d by (simp add: applyStateBatch_def)
  have "\<exists>x. commitStateChanges quiet_env n c w = Inr x" for n c w
    unfolding commitStateChanges_def Let_def a by simp
  then obtain w' parked where c: "runParallelGroupViaCore quiet_env ''checks'' lone_branch [OVerdict VFail]
      (quiet_world Map.empty Map.empty) = Inr (w', parked)"
    unfolding runParallelGroupViaCore_def by (metis map_sum.simps(2))
  have "distinct (''checks'' # map (\<lambda>b. ''checks'' @ ''__'' @ pb_name b) lone_branch)" "lone_branch \<noteq> []"
    "\<forall>doc ms. resolved_fields (snd (tn_applyBatch quiet_env doc ms)) = []"
    by (simp_all add: lone_branch_def synthetic_key_def)
  from group_join_exact [OF p st fin c this(2,1,3)] have "tl_state w' ''checks__a'' = Some (status_json Failed) \<and> tl_state w' ''checks'' = Some (status_json Failed) \<and>
      parked = None"
    by (cases parked) (auto simp: lone_branch_def synthetic_key_def branch_status_def branch_failed_def outcome_passed_def
        outcome_parked_def Let_def)
  with c show ?thesis by blast
qed

text \<open>
  A member that was never dispatched fails its group: one skipped member that is
  not advisory, beside a passing one, makes the whole group failed and the member's key failed, and
  no failure is reported for it.
\<close>

theorem skipped_member_fails_group:
  "let branches = [\<lparr>pb_name = ''a'', pb_advisory = False\<rparr>, \<lparr>pb_name = ''b'', pb_advisory = False\<rparr>];
       outcomes = [OVerdict VPass, OSkipped]
   in map_of (join_changes ''checks'' branches outcomes) ''checks'' = Some (status_json Failed) \<and>
      map_of (join_changes ''checks'' branches outcomes) ''checks__b'' = Some (status_json Failed) \<and>
      join_failures branches outcomes = []"
  by (simp add: join_changes_def join_pairs_def synthetic_key_def branch_status_def group_status_def branch_failed_def
      outcome_passed_def outcome_parked_def join_failures_def List.map_filter_simps numeral_2_eq_2)

end
