(* ===== verification/RateLimit.thy ===== *)
theory RateLimit
  imports Prelude
begin

text \<open>
  The coordinator of rate-limit episodes (\<^verbatim>\<open>engine/rate-limit-episode.ts\<close>) that the branches of a group
  and the serial loop share. The closure's variables are a record; times are whole milliseconds and
  waits whole seconds, a number that is not finite is \<open>None\<close>. Timers and subscribers are left out, and
  with them the release of a waiter by its abort signal: a waiter is the sequence of its checks.
\<close>

section \<open>The coordinator\<close>

record episode =
  ep_deadline :: "int option"
  ep_escalationStartDeadline :: "int option"
  ep_escalationCounter :: nat

definition DEFAULT_BASE_WAIT :: int where
  "DEFAULT_BASE_WAIT = 60"

definition DEFAULT_ESCALATION_CAP :: int where
  "DEFAULT_ESCALATION_CAP = 3600"

definition GRACE_PERIOD :: int where
  "GRACE_PERIOD = 60"

definition create_episode :: episode where
  "create_episode = \<lparr>ep_deadline = None, ep_escalationStartDeadline = None, ep_escalationCounter = 0\<rparr>"

definition enter :: "int \<Rightarrow> int option \<Rightarrow> episode \<Rightarrow> episode" where
  "enter now untilMs ep =
     (case untilMs of
        None \<Rightarrow> ep\<lparr>ep_deadline := None\<rparr>
      | Some u \<Rightarrow>
          if u \<le> now then ep\<lparr>ep_deadline := None\<rparr>
          else if (case ep_deadline ep of None \<Rightarrow> True | Some d \<Rightarrow> d < u) then
            ep\<lparr>ep_escalationStartDeadline :=
                 (if 0 < ep_escalationCounter ep \<and> ep_escalationStartDeadline ep = None then Some u
                  else ep_escalationStartDeadline ep),
               ep_deadline := Some u\<rparr>
          else ep)"

definition active :: "int \<Rightarrow> episode \<Rightarrow> bool" where
  "active now ep = (case ep_deadline ep of None \<Rightarrow> False | Some d \<Rightarrow> now < d)"

text \<open>The start of a wait, and one check of a waiter: resolved, or armed for the remaining time.\<close>

definition clear_start :: "episode \<Rightarrow> episode" where
  "clear_start ep = ep\<lparr>ep_escalationCounter := 0, ep_escalationStartDeadline := None\<rparr>"

datatype wait_check = WaitResolved | WaitArmed int

definition scheduleCheck :: "int \<Rightarrow> int \<Rightarrow> episode \<Rightarrow> episode \<times> wait_check" where
  "scheduleCheck now jitterMs ep =
     (case ep_deadline ep of
        None \<Rightarrow> (ep, WaitResolved)
      | Some d \<Rightarrow> if d \<le> now then (ep\<lparr>ep_deadline := None\<rparr>, WaitResolved) else (ep, WaitArmed (d - now + jitterMs)))"

definition wait_base :: "int option option \<Rightarrow> int" where
  "wait_base baseSeconds =
     (case baseSeconds of None \<Rightarrow> DEFAULT_BASE_WAIT
      | Some None \<Rightarrow> DEFAULT_BASE_WAIT
      | Some (Some b) \<Rightarrow> if b \<le> 0 then DEFAULT_BASE_WAIT else b)"

definition nextWaitSeconds :: "int \<Rightarrow> int option option \<Rightarrow> episode \<Rightarrow> episode \<times> int" where
  "nextWaitSeconds now baseSeconds ep =
     (let base = wait_base baseSeconds;
          ep1 = (case ep_escalationStartDeadline ep of
                   Some d \<Rightarrow> if d + GRACE_PERIOD * 1000 < now
                     then ep\<lparr>ep_escalationCounter := 0, ep_escalationStartDeadline := None\<rparr> else ep
                 | None \<Rightarrow> ep)
      in if ep_escalationCounter ep1 = 0 then
           (ep1\<lparr>ep_escalationCounter := 1,
                ep_escalationStartDeadline :=
                  (case ep_deadline ep1 of Some d \<Rightarrow> Some d | None \<Rightarrow> ep_escalationStartDeadline ep1)\<rparr>, base)
         else
           (ep1\<lparr>ep_escalationCounter := ep_escalationCounter ep1 + 1\<rparr>,
            min (base * 2 ^ ep_escalationCounter ep1) DEFAULT_ESCALATION_CAP))"

section \<open>Waiting\<close>

text \<open>What branches and waiters do to the shared coordinator, each at its time.\<close>

datatype episode_op = OpEnter "int option" | OpClear | OpCheck int | OpNext "int option option"

fun episode_step :: "int \<times> episode_op \<Rightarrow> episode \<Rightarrow> episode" where
  "episode_step (now, OpEnter u) ep = enter now u ep"
| "episode_step (now, OpClear) ep = clear_start ep"
| "episode_step (now, OpCheck j) ep = fst (scheduleCheck now j ep)"
| "episode_step (now, OpNext b) ep = fst (nextWaitSeconds now b ep)"

definition episode_run :: "(int \<times> episode_op) list \<Rightarrow> episode \<Rightarrow> episode" where
  "episode_run ops ep = foldl (\<lambda>e op'. episode_step op' e) ep ops"

text \<open>An entry in order: its deadline is finite and still ahead.\<close>

fun timely :: "int \<times> episode_op \<Rightarrow> bool" where
  "timely (now, OpEnter u) = (case u of None \<Rightarrow> False | Some d \<Rightarrow> now < d)"
| "timely _ = True"

fun entered :: "int \<times> episode_op \<Rightarrow> int option" where
  "entered (now, OpEnter u) = u"
| "entered _ = None"

lemma clear_deadline [simp]: "ep_deadline (clear_start ep) = ep_deadline ep"
  by (simp add: clear_start_def)

lemma next_deadline [simp]: "ep_deadline (fst (nextWaitSeconds now b ep)) = ep_deadline ep"
  by (simp add: nextWaitSeconds_def Let_def split: option.splits)

lemma enter_timely:
  "now < u \<Longrightarrow> ep_deadline (enter now (Some u) ep) = Some (case ep_deadline ep of None \<Rightarrow> u | Some d \<Rightarrow> max d u)"
  by (auto simp: enter_def split: option.splits)

text \<open>Every deadline entered so far is at most the stored one, or has passed.\<close>

lemma run_deadline:
  assumes "sorted (map fst ops)" "\<forall>x\<in>set ops. timely x" "\<forall>x\<in>set ops. fst x \<le> now"
  shows "\<forall>x\<in>set ops. \<forall>u. entered x = Some u \<longrightarrow>
    u \<le> now \<or> (\<exists>d. ep_deadline (episode_run ops ep) = Some d \<and> u \<le> d)"
  using assms
proof (induction ops rule: rev_induct)
  case Nil
  then show ?case by simp
next
  case (snoc x ops)
  let ?e = "episode_run ops ep"
  obtain t x' where x: "x = (t, x')" by fastforce
  have "sorted (map fst ops)" "\<forall>x\<in>set ops. fst x \<le> t"
    using snoc.prems(1) x by (auto simp: sorted_append)
  with snoc.prems snoc.IH have IH: "\<forall>x\<in>set ops. \<forall>u. entered x = Some u \<longrightarrow> u \<le> now \<or> (\<exists>d. ep_deadline ?e = Some d \<and> u \<le> d)"
    by simp
  have run: "episode_run (ops @ [x]) ep = episode_step x ?e" by (simp add: episode_run_def)
  have t: "t \<le> now" using snoc.prems(3) x by simp
  show ?case
  proof (cases x')
    case (OpEnter u)
    then obtain d where d: "u = Some d" "t < d" using snoc.prems(2) x by (auto split: option.splits)
    show ?thesis using IH enter_timely [OF d(2), of ?e] d(1) x OpEnter run
      by (fastforce split: option.splits)
  next
    case OpClear
    with IH x run show ?thesis by auto
  next
    case (OpCheck j)
    have "ep_deadline (fst (scheduleCheck t j ?e)) = ep_deadline ?e \<or> (\<exists>d. ep_deadline ?e = Some d \<and> d \<le> t)"
      by (auto simp: scheduleCheck_def split: option.splits)
    with IH x run OpCheck t show ?thesis by fastforce
  next
    case (OpNext b)
    with IH x run show ?thesis by auto
  qed
qed

text \<open>
  C27: as long as no branch enters a deadline that has already passed, the timer of
  a waiter releases it only when every deadline entered by anyone before has passed, however entries,
  waits and checks interleave; otherwise it is armed for at least the time to the latest of them. The
  dispatch gate agrees: it is open then and closed before. (One stale entry voids this, see below; a waiter whose
  abort signal fires is let go at once, which is outside this model.)
\<close>

theorem waiters_respect_every_deadline:
  assumes "sorted (map fst ops)" and "\<forall>x\<in>set ops. timely x" and "\<forall>x\<in>set ops. fst x \<le> now" and "0 \<le> jitter"
  shows "case scheduleCheck now jitter (episode_run ops create_episode) of
      (ep, WaitResolved) \<Rightarrow> \<not> active now ep \<and> (\<forall>x\<in>set ops. \<forall>u. entered x = Some u \<longrightarrow> u \<le> now)
    | (ep, WaitArmed delay) \<Rightarrow> active now ep \<and> (\<forall>x\<in>set ops. \<forall>u. entered x = Some u \<longrightarrow> u \<le> now + delay)"
proof (cases "ep_deadline (episode_run ops create_episode)")
  case None
  with run_deadline [OF assms(1-3), of create_episode] show ?thesis
    by (simp add: scheduleCheck_def active_def)
next
  case (Some d)
  with run_deadline [OF assms(1-3), of create_episode]
  have u: "u \<le> now \<or> u \<le> d" if "x \<in> set ops" "entered x = Some u" for x u using that by fastforce
  show ?thesis
  proof (cases "d \<le> now")
    case True
    with u have "\<forall>x\<in>set ops. \<forall>u. entered x = Some u \<longrightarrow> u \<le> now" by fastforce
    with True Some show ?thesis by (simp add: scheduleCheck_def active_def)
  next
    case False
    with u assms(4) have "\<forall>x\<in>set ops. \<forall>u. entered x = Some u \<longrightarrow> u \<le> now + (d - now + jitter)" by fastforce
    with False Some show ?thesis by (simp add: scheduleCheck_def active_def)
  qed
qed

theorem waiters_respect_every_deadline_witness:
  "snd (scheduleCheck 50 0 (episode_run [(0, OpEnter (Some 100)), (10, OpEnter (Some 40))] create_episode)) = WaitArmed 50"
proof -
  let ?ops = "[(0, OpEnter (Some 100)), (10, OpEnter (Some 40))] :: (int \<times> episode_op) list"
  have r: "scheduleCheck 50 0 (episode_run ?ops create_episode) =
      (\<lparr>ep_deadline = Some 100, ep_escalationStartDeadline = None, ep_escalationCounter = 0\<rparr>, WaitArmed 50)"
    by (simp add: scheduleCheck_def episode_run_def enter_def create_episode_def)
  have "sorted (map fst ?ops)" "\<forall>x\<in>set ?ops. timely x" "\<forall>x\<in>set ?ops. fst x \<le> 50" "(0::int) \<le> 0" by simp_all
  from waiters_respect_every_deadline [OF this] r show ?thesis by simp
qed

text \<open>
  An entry whose deadline is not ahead cancels the episode for everyone: with a
  later deadline of another branch still running, the next check releases its waiter and the
  dispatch gate is open long before that deadline.
\<close>

theorem stale_entry_drops_deadline:
  "let ep = episode_run [(0, OpEnter (Some 100000)), (10, OpEnter (Some 5))] create_episode
   in active 5 (episode_run [(0, OpEnter (Some 100000))] create_episode) \<and> \<not> active 20 ep \<and>
      snd (scheduleCheck 20 0 ep) = WaitResolved"
  by (simp add: scheduleCheck_def episode_run_def enter_def create_episode_def active_def Let_def)

section \<open>Escalation\<close>

fun waits :: "nat \<Rightarrow> int option option \<Rightarrow> int \<Rightarrow> episode \<Rightarrow> int list" where
  "waits 0 base now ep = []"
| "waits (Suc n) base now ep = (case nextWaitSeconds now base ep of (ep', w) \<Rightarrow> w # waits n base now ep')"

lemma waits_escalated:
  assumes "0 < ep_escalationCounter ep"
    "\<forall>d. ep_escalationStartDeadline ep = Some d \<longrightarrow> now \<le> d + 60000"
  shows "waits n base now ep =
     map (\<lambda>i. min (wait_base base * 2 ^ (ep_escalationCounter ep + i)) 3600) [0..<n]"
  using assms
proof (induction n arbitrary: ep)
  case 0
  then show ?case by simp
next
  case (Suc n)
  let ?ep = "ep\<lparr>ep_escalationCounter := ep_escalationCounter ep + 1\<rparr>"
  have step: "nextWaitSeconds now base ep = (?ep, min (wait_base base * 2 ^ ep_escalationCounter ep) 3600)"
    using Suc.prems by (auto simp: nextWaitSeconds_def Let_def GRACE_PERIOD_def DEFAULT_ESCALATION_CAP_def split: option.splits)
  have "waits n base now ?ep = map (\<lambda>i. min (wait_base base * 2 ^ (ep_escalationCounter ?ep + i)) 3600) [0..<n]"
    using Suc.prems by (intro Suc.IH) auto
  moreover have "[0..<Suc n] = 0 # map Suc [0..<n]" by (simp add: upt_conv_Cons map_Suc_upt del: upt_Suc)
  ultimately show ?case using step by (simp add: comp_def)
qed

text \<open>
  The waits of an episode are the base first and from then on the base doubled once more
  each time, so twice the base already at the second call, cut off at an hour; only the first
  wait is never cut off, so a base above an hour makes the second wait shorter than the first.
\<close>

theorem escalation_exact:
  "waits (Suc n) base now create_episode =
     wait_base base # map (\<lambda>i. min (wait_base base * 2 ^ (i + 1)) 3600) [0..<n]"
proof -
  let ?ep = "\<lparr>ep_deadline = None, ep_escalationStartDeadline = None, ep_escalationCounter = 1\<rparr>"
  have "nextWaitSeconds now base create_episode = (?ep, wait_base base)"
    by (simp add: nextWaitSeconds_def create_episode_def Let_def)
  moreover have "waits n base now ?ep = map (\<lambda>i. min (wait_base base * 2 ^ (ep_escalationCounter ?ep + i)) 3600) [0..<n]"
    by (rule waits_escalated) simp_all
  ultimately show ?thesis by simp
qed

end
