(* ===== verification/GitPort.thy ===== *)
theory GitPort
  imports GateVerdict
begin

text \<open>
  The runner through which the engine calls git, an argument of everything that uses it, and the
  names of commits, references and transitions it is used with
  (\<^verbatim>\<open>engine/restack/restack-types.ts\<close>). The runner acts on a state of its own; between two calls other
  processes may have moved it. Standard output is a text and, where the caller
  parses it, the value of \<^verbatim>\<open>JSON.parse\<close> (\<open>None\<close> when it throws). A runner that throws answers \<open>None\<close>.
\<close>

record git_answer =
  ga_exitCode :: int
  ga_stdout :: string
  ga_stderr :: string
  ga_json :: "jval option"

datatype git_input = NoInput | JsonText jval | InputLines "string list"

type_synonym 'g git_runner = "'g \<Rightarrow> string list \<Rightarrow> git_input \<Rightarrow> 'g \<times> git_answer option"

definition answer_ok :: "git_answer option \<Rightarrow> bool" where
  "answer_ok a = (case a of Some x \<Rightarrow> ga_exitCode x = 0 | None \<Rightarrow> False)"

section \<open>Names\<close>

definition parseCommitSha :: "string \<Rightarrow> string option" where
  "parseCommitSha raw = (if length raw \<in> {40, 64} \<and> list_all hex_lower raw then Some raw else None)"

definition parseRefName :: "string \<Rightarrow> string option" where
  "parseRefName raw = (if starts_with raw ''refs/'' \<and> length ''refs/'' < length raw then Some raw else None)"

definition zero_oid :: string where
  "zero_oid = replicate 40 (CHR ''0'')"

datatype journal_state = JPlanned | JReady | JMoved | JSynced | JApplied | JAborted | JRollingBack

definition isLegalJournalTransition :: "journal_state \<Rightarrow> journal_state \<Rightarrow> bool" where
  "isLegalJournalTransition src dst =
     ((src = JPlanned \<and> (dst = JReady \<or> dst = JAborted)) \<or>
      (src = JReady \<and> (dst = JMoved \<or> dst = JAborted)) \<or>
      (src = JMoved \<and> (dst = JSynced \<or> dst = JRollingBack)) \<or>
      (src = JSynced \<and> dst = JApplied) \<or>
      (src = JRollingBack \<and> dst = JAborted))"

datatype child_status = ChildPending | ChildReplayed | ChildResolved

definition isLegalChildStatusTransition :: "child_status \<Rightarrow> child_status \<Rightarrow> bool" where
  "isLegalChildStatusTransition src dst =
     ((src = ChildPending \<and> (dst = ChildReplayed \<or> dst = ChildResolved)) \<or>
      (src = ChildReplayed \<and> dst = ChildResolved))"

section \<open>Lines of a reference transaction\<close>

text \<open>An absent old value of an update is not verified; a zero or empty one means that the reference must not exist.\<close>

datatype ref_line =
    LUpdate string string "string option"
  | LCreate string string
  | LDelete string string
  | LVerify string string

definition line_text :: "ref_line \<Rightarrow> string" where
  "line_text l =
     (case l of
        LUpdate r n old \<Rightarrow> ''update '' @ r @ '' '' @ n @ (case old of None \<Rightarrow> [] | Some b \<Rightarrow> '' '' @ b)
      | LCreate r n \<Rightarrow> ''create '' @ r @ '' '' @ n
      | LDelete r old \<Rightarrow> ''delete '' @ r @ '' '' @ old
      | LVerify r v \<Rightarrow> ''verify '' @ r @ '' '' @ v)"

definition transaction_input :: "string list \<Rightarrow> git_input" where
  "transaction_input texts = InputLines (''start'' # texts @ [''prepare'', ''commit'', []])"

definition old_value :: "string \<Rightarrow> string option" where
  "old_value old = (if old = zero_oid \<or> old = [] then None else Some old)"

definition line_holds :: "(string \<rightharpoonup> string) \<Rightarrow> ref_line \<Rightarrow> bool" where
  "line_holds rs l =
     (case l of
        LUpdate r _ (Some old) \<Rightarrow> rs r = old_value old
      | LUpdate _ _ None \<Rightarrow> True
      | LCreate r _ \<Rightarrow> rs r = None
      | LDelete r old \<Rightarrow> rs r = Some old
      | LVerify r v \<Rightarrow> rs r = old_value v)"

definition line_effect :: "ref_line \<Rightarrow> (string \<rightharpoonup> string) \<Rightarrow> (string \<rightharpoonup> string)" where
  "line_effect l rs =
     (case l of
        LUpdate r n _ \<Rightarrow> rs(r \<mapsto> n)
      | LCreate r n \<Rightarrow> rs(r \<mapsto> n)
      | LDelete r _ \<Rightarrow> rs(r := None)
      | LVerify _ _ \<Rightarrow> rs)"

section \<open>What git documents of references and objects\<close>

text \<open>
  \<open>refs\<close> and \<open>objects\<close> read a state of git; \<open>others\<close> are the moves of other processes, which may happen
  before a call takes effect. A call that does not exit with zero leaves the references alone; one
  that throws may have taken effect.
\<close>

definition quiet_call :: "('g \<Rightarrow> string \<rightharpoonup> string) \<Rightarrow> ('g \<Rightarrow> string \<rightharpoonup> jval) \<Rightarrow> 'g \<Rightarrow> 'g \<Rightarrow> bool" where
  "quiet_call refs objects h g' = (refs g' = refs h \<and> objects h \<subseteq>\<^sub>m objects g')"

definition object_store ::
  "'g git_runner \<Rightarrow> ('g \<Rightarrow> string \<rightharpoonup> string) \<Rightarrow> ('g \<Rightarrow> string \<rightharpoonup> jval) \<Rightarrow> ('g \<Rightarrow> 'g \<Rightarrow> bool) \<Rightarrow> bool" where
  "object_store git refs objects others =
     ((\<forall>g h. others g h \<longrightarrow> objects g \<subseteq>\<^sub>m objects h) \<and>
      (\<forall>g. objects g zero_oid = None) \<and>
      (\<forall>g r. refs g r \<noteq> Some zero_oid) \<and>
      (\<forall>g r g' a. git g [''rev-parse'', ''-q'', ''--verify'', r] NoInput = (g', a) \<longrightarrow>
         (\<exists>h. others\<^sup>*\<^sup>* g h \<and> quiet_call refs objects h g' \<and>
            (\<forall>x. a = Some x \<longrightarrow> ga_exitCode x = 0 \<longrightarrow> refs h r = Some (js_trim (ga_stdout x))) \<and>
            (\<forall>x. a = Some x \<longrightarrow> ga_exitCode x = 1 \<longrightarrow> refs h r = None))) \<and>
      (\<forall>g b g' a. git g [''cat-file'', ''blob'', b] NoInput = (g', a) \<longrightarrow>
         (\<exists>h. others\<^sup>*\<^sup>* g h \<and> quiet_call refs objects h g' \<and>
            (\<forall>x v. a = Some x \<longrightarrow> ga_exitCode x = 0 \<longrightarrow> ga_json x = Some v \<longrightarrow> objects h b = Some v))) \<and>
      (\<forall>g v g' a. git g [''hash-object'', ''-w'', ''--stdin''] (JsonText v) = (g', a) \<longrightarrow>
         (\<exists>h. others\<^sup>*\<^sup>* g h \<and> quiet_call refs objects h g' \<and>
            (\<forall>x. a = Some x \<longrightarrow> ga_exitCode x = 0 \<longrightarrow> objects g' (js_trim (ga_stdout x)) = Some v))) \<and>
      (\<forall>g r b old g' a. b \<noteq> zero_oid \<longrightarrow> git g [''update-ref'', r, b, old] NoInput = (g', a) \<longrightarrow>
         (\<exists>h. others\<^sup>*\<^sup>* g h \<and> objects h \<subseteq>\<^sub>m objects g' \<and>
            (\<forall>x. a = Some x \<longrightarrow> ga_exitCode x = 0 \<longrightarrow>
               refs g' = (refs h)(r \<mapsto> b) \<and> refs h r = old_value old) \<and>
            (\<forall>x. a = Some x \<longrightarrow> ga_exitCode x \<noteq> 0 \<longrightarrow> refs g' = refs h))))"

text \<open>
  A transaction of lines whose names need no quoting (no space, newline or quote) and whose new values name an
  object: all of them at once, each verified, or none.
\<close>

definition plain_name :: "string \<Rightarrow> bool" where
  "plain_name s = list_all (\<lambda>c. c \<noteq> CHR '' '' \<and> c \<noteq> CHR 0x0A \<and> c \<noteq> CHR 0x22) s"

definition plain_line :: "ref_line \<Rightarrow> bool" where
  "plain_line l =
     (case l of
        LUpdate r n old \<Rightarrow> plain_name r \<and> plain_name n \<and> n \<noteq> zero_oid \<and> (case old of None \<Rightarrow> True | Some b \<Rightarrow> plain_name b)
      | LCreate r n \<Rightarrow> plain_name r \<and> plain_name n \<and> n \<noteq> zero_oid
      | LDelete r old \<Rightarrow> plain_name r \<and> plain_name old
      | LVerify r v \<Rightarrow> plain_name r \<and> plain_name v)"

definition ref_transactions ::
  "'g git_runner \<Rightarrow> ('g \<Rightarrow> string \<rightharpoonup> string) \<Rightarrow> ('g \<Rightarrow> string \<rightharpoonup> jval) \<Rightarrow> ('g \<Rightarrow> 'g \<Rightarrow> bool) \<Rightarrow> bool" where
  "ref_transactions git refs objects others =
     (\<forall>g ls g' a. list_all plain_line ls \<longrightarrow> git g [''update-ref'', ''--stdin''] (transaction_input (map line_text ls)) = (g', a) \<longrightarrow>
        (\<exists>h. others\<^sup>*\<^sup>* g h \<and> objects h \<subseteq>\<^sub>m objects g' \<and>
           (\<forall>x. a = Some x \<longrightarrow> ga_exitCode x = 0 \<longrightarrow> list_all (line_holds (refs h)) ls \<and> refs g' = fold line_effect ls (refs h)) \<and>
           (\<forall>x. a = Some x \<longrightarrow> ga_exitCode x \<noteq> 0 \<longrightarrow> refs g' = refs h)))"

lemma object_store_laws:
  assumes "object_store git refs objects others"
  shows others_grow: "others\<^sup>*\<^sup>* g h \<Longrightarrow> objects g \<subseteq>\<^sub>m objects h"
    and no_zero: "refs g r \<noteq> Some zero_oid"
    and no_zero_object: "objects g zero_oid = None"
    and rev_parse_law: "git g [''rev-parse'', ''-q'', ''--verify'', r] NoInput = (g', a) \<Longrightarrow>
      \<exists>h. others\<^sup>*\<^sup>* g h \<and> refs g' = refs h \<and> objects h \<subseteq>\<^sub>m objects g' \<and>
        (\<forall>x. a = Some x \<longrightarrow> ga_exitCode x = 0 \<longrightarrow> refs h r = Some (js_trim (ga_stdout x))) \<and>
        (\<forall>x. a = Some x \<longrightarrow> ga_exitCode x = 1 \<longrightarrow> refs h r = None)"
    and cat_file_law: "git g [''cat-file'', ''blob'', b] NoInput = (g', a) \<Longrightarrow>
      \<exists>h. others\<^sup>*\<^sup>* g h \<and> refs g' = refs h \<and> objects h \<subseteq>\<^sub>m objects g' \<and>
        (\<forall>x v. a = Some x \<longrightarrow> ga_exitCode x = 0 \<longrightarrow> ga_json x = Some v \<longrightarrow> objects h b = Some v)"
    and hash_object_law: "git g [''hash-object'', ''-w'', ''--stdin''] (JsonText v) = (g', a) \<Longrightarrow>
      \<exists>h. others\<^sup>*\<^sup>* g h \<and> refs g' = refs h \<and> objects h \<subseteq>\<^sub>m objects g' \<and>
        (\<forall>x. a = Some x \<longrightarrow> ga_exitCode x = 0 \<longrightarrow> objects g' (js_trim (ga_stdout x)) = Some v)"
    and update_ref_law: "b \<noteq> zero_oid \<Longrightarrow> git g [''update-ref'', r, b, old] NoInput = (g', a) \<Longrightarrow>
      \<exists>h. others\<^sup>*\<^sup>* g h \<and> objects h \<subseteq>\<^sub>m objects g' \<and>
        (\<forall>x. a = Some x \<longrightarrow> ga_exitCode x = 0 \<longrightarrow>
           refs g' = (refs h)(r \<mapsto> b) \<and> refs h r = old_value old) \<and>
        (\<forall>x. a = Some x \<longrightarrow> ga_exitCode x \<noteq> 0 \<longrightarrow> refs g' = refs h)"
proof -
  show "objects g \<subseteq>\<^sub>m objects h" if "others\<^sup>*\<^sup>* g h"
    using that by (induction rule: rtranclp_induct) (use assms in \<open>auto simp: object_store_def intro: map_le_trans\<close>)
qed (use assms in \<open>auto simp: object_store_def quiet_call_def\<close>)

lemma transaction_law:
  assumes "ref_transactions git refs objects others" and "list_all plain_line ls"
    and "git g [''update-ref'', ''--stdin''] (transaction_input (map line_text ls)) = (g', a)"
  shows "\<exists>h. others\<^sup>*\<^sup>* g h \<and> objects h \<subseteq>\<^sub>m objects g' \<and>
    (\<forall>x. a = Some x \<longrightarrow> ga_exitCode x = 0 \<longrightarrow> list_all (line_holds (refs h)) ls \<and> refs g' = fold line_effect ls (refs h)) \<and>
    (\<forall>x. a = Some x \<longrightarrow> ga_exitCode x \<noteq> 0 \<longrightarrow> refs g' = refs h)"
  using assms by (auto simp: ref_transactions_def)

lemma commit_sha_trim: "parseCommitSha (js_trim s) = Some b \<Longrightarrow> b = js_trim s"
  by (auto simp: parseCommitSha_def split: if_splits)

lemma commit_sha_plain: "parseCommitSha s = Some b \<Longrightarrow> plain_name b \<and> b \<noteq> []"
proof -
  assume "parseCommitSha s = Some b"
  then have "list_all hex_lower b" "b \<noteq> []" by (auto simp: parseCommitSha_def split: if_splits)
  moreover have "\<not> hex_lower (CHR '' '')" "\<not> hex_lower (CHR 0x0A)" "\<not> hex_lower (CHR 0x22)"
    by (simp_all add: hex_lower_def is_digit_def)
  ultimately show ?thesis unfolding plain_name_def list_all_iff by metis
qed

section \<open>A small repository\<close>

text \<open>References and numbered objects in memory; with nobody else it has what git documents.\<close>

record tiny_git =
  tg_refs :: "(string \<times> string) list"
  tg_objects :: "jval list"

definition tiny_id :: "nat \<Rightarrow> string" where
  "tiny_id n = replicate n (CHR ''a'') @ replicate (40 - n) (CHR ''b'')"

definition tiny_object :: "tiny_git \<Rightarrow> string \<rightharpoonup> jval" where
  "tiny_object g = map_of (zip (map tiny_id [0..<length (tg_objects g)]) (tg_objects g))"

definition tiny_answer :: "int \<Rightarrow> string \<Rightarrow> jval option \<Rightarrow> git_answer option" where
  "tiny_answer code out v = Some \<lparr>ga_exitCode = code, ga_stdout = out, ga_stderr = [], ga_json = v\<rparr>"

definition tiny_refs :: "tiny_git \<Rightarrow> string \<rightharpoonup> string" where
  "tiny_refs g = map_of (filter (\<lambda>(r, b). js_trim b = b \<and> b \<noteq> zero_oid) (tg_refs g))"

fun decode_words :: "string list \<Rightarrow> ref_line option" where
  "decode_words [k, r, n, old] = (if k = ''update'' then Some (LUpdate r n (Some old)) else None)"
| "decode_words [k, r, v] =
     (if k = ''update'' then Some (LUpdate r v None) else if k = ''create'' then Some (LCreate r v)
      else if k = ''delete'' then Some (LDelete r v) else if k = ''verify'' then Some (LVerify r v) else None)"
| "decode_words _ = None"

definition decode_line :: "string \<Rightarrow> ref_line option" where
  "decode_line text = decode_words (split_on (CHR '' '') text)"

definition sets_value :: "ref_line \<Rightarrow> bool" where
  "sets_value l = (case l of LUpdate _ n _ \<Rightarrow> js_trim n = n \<and> n \<noteq> zero_oid | LCreate _ n \<Rightarrow> js_trim n = n \<and> n \<noteq> zero_oid | _ \<Rightarrow> True)"

definition list_effect :: "ref_line \<Rightarrow> (string \<times> string) list \<Rightarrow> (string \<times> string) list" where
  "list_effect l rs =
     (case l of LUpdate r n _ \<Rightarrow> (r, n) # rs | LCreate r n \<Rightarrow> (r, n) # rs
      | LDelete r _ \<Rightarrow> filter (\<lambda>(k, _). k \<noteq> r) rs | LVerify _ _ \<Rightarrow> rs)"

definition tiny_run :: "tiny_git git_runner" where
  "tiny_run g args inp =
     (case (args, inp) of
        ([''rev-parse'', _, _, r], NoInput) \<Rightarrow>
          (case tiny_refs g r of Some b \<Rightarrow> (g, tiny_answer 0 b None) | None \<Rightarrow> (g, tiny_answer 1 [] None))
      | ([''cat-file'', _, b], NoInput) \<Rightarrow>
          (case tiny_object g b of Some v \<Rightarrow> (g, tiny_answer 0 [] (Some v)) | None \<Rightarrow> (g, tiny_answer 128 [] None))
      | ([''hash-object'', _, _], JsonText v) \<Rightarrow>
          if length (tg_objects g) < 40
          then (g\<lparr>tg_objects := tg_objects g @ [v]\<rparr>, tiny_answer 0 (tiny_id (length (tg_objects g))) None)
          else (g, tiny_answer 128 [] None)
      | ([''update-ref'', r, b, old], NoInput) \<Rightarrow>
          if js_trim b = b \<and> b \<noteq> zero_oid \<and> tiny_refs g r = old_value old
          then (g\<lparr>tg_refs := (r, b) # tg_refs g\<rparr>, tiny_answer 0 [] None) else (g, tiny_answer 128 [] None)
      | ([_, _], InputLines texts) \<Rightarrow>
          (case those (map decode_line (butlast (butlast (butlast (tl texts))))) of
             Some ls \<Rightarrow>
               if list_all (line_holds (tiny_refs g)) ls \<and> list_all sets_value ls
               then (g\<lparr>tg_refs := fold list_effect ls (tg_refs g)\<rparr>, tiny_answer 0 [] None) else (g, tiny_answer 128 [] None)
           | None \<Rightarrow> (g, tiny_answer 128 [] None))
      | _ \<Rightarrow> (g, None))"

lemma tiny_refs_trim: "tiny_refs g r = Some b \<Longrightarrow> js_trim b = b \<and> b \<noteq> zero_oid"
  by (auto simp: tiny_refs_def dest: map_of_SomeD)

lemma tiny_id_length: "n < 40 \<Longrightarrow> length (tiny_id n) = 40"
  by (simp add: tiny_id_def)

lemma tiny_id_eq: "n \<le> 40 \<Longrightarrow> m \<le> 40 \<Longrightarrow> tiny_id n = tiny_id m \<longleftrightarrow> n = m"
proof -
  have "length (takeWhile (\<lambda>c. c = CHR ''a'') (tiny_id k)) = k" for k by (simp add: tiny_id_def takeWhile_append)
  then show "tiny_id n = tiny_id m \<longleftrightarrow> n = m" by metis
qed

lemma tiny_id_trim: "js_trim (tiny_id n) = tiny_id n"
proof -
  have "list_all (\<lambda>c. \<not> js_space c) (tiny_id n)" by (auto simp: tiny_id_def list_all_iff js_space_def)
  moreover have "dropWhile js_space xs = xs" if "list_all (\<lambda>c. \<not> js_space c) xs" for xs
    using that by (cases xs) auto
  ultimately show ?thesis by (simp add: js_trim_def)
qed

lemma tiny_no_zero: "tiny_object g zero_oid = None"
proof -
  have "tiny_id k \<noteq> zero_oid" for k
  proof
    assume e: "tiny_id k = zero_oid"
    have "list_all (\<lambda>c. c \<noteq> CHR ''0'') (tiny_id k)" by (auto simp: tiny_id_def list_all_iff)
    then show False unfolding e zero_oid_def by (simp add: list_all_iff)
  qed
  then have "zero_oid \<notin> fst ` set (zip (map tiny_id [0..<length (tg_objects g)]) (tg_objects g))"
    by (auto simp: set_zip dest: sym)
  then show ?thesis by (simp add: tiny_object_def map_of_eq_None_iff)
qed

lemma tiny_object_grow:
  assumes "length (tg_objects g) < 40"
  shows "tiny_object g \<subseteq>\<^sub>m tiny_object (g\<lparr>tg_objects := tg_objects g @ [v]\<rparr>)"
    "tiny_object (g\<lparr>tg_objects := tg_objects g @ [v]\<rparr>) (tiny_id (length (tg_objects g))) = Some v"
proof -
  let ?n = "length (tg_objects g)"
  have fresh: "tiny_id ?n \<notin> fst ` set (zip (map tiny_id [0..<?n]) (tg_objects g))"
  proof
    assume "tiny_id ?n \<in> fst ` set (zip (map tiny_id [0..<?n]) (tg_objects g))"
    then have "tiny_id ?n \<in> tiny_id ` {0..<?n}" by (auto simp: set_zip)
    with assms show False by (auto simp: tiny_id_eq)
  qed
  have z: "zip (map tiny_id [0..<Suc ?n]) (tg_objects g @ [v]) = zip (map tiny_id [0..<?n]) (tg_objects g) @ [(tiny_id ?n, v)]"
    by simp
  have n: "map_of (zip (map tiny_id [0..<?n]) (tg_objects g)) (tiny_id ?n) = None"
    using fresh by (simp add: map_of_eq_None_iff)
  show "tiny_object g \<subseteq>\<^sub>m tiny_object (g\<lparr>tg_objects := tg_objects g @ [v]\<rparr>)"
    using n unfolding map_le_def tiny_object_def by (auto simp: z map_add_def split: option.splits simp del: upt_Suc)
  have "tiny_object (g\<lparr>tg_objects := tg_objects g @ [v]\<rparr>) = map_of (zip (map tiny_id [0..<?n]) (tg_objects g) @ [(tiny_id ?n, v)])"
    unfolding tiny_object_def z [symmetric] by simp
  then show "tiny_object (g\<lparr>tg_objects := tg_objects g @ [v]\<rparr>) (tiny_id ?n) = Some v"
    unfolding map_of_append map_add_def by (simp only: n option.case map_of.simps fun_upd_same fst_conv snd_conv)
qed

lemma split_on_here: "c \<notin> set xs \<Longrightarrow> split_on c (xs @ c # ys) = xs # split_on c ys"
  by (induction xs) auto

lemma split_on_none: "c \<notin> set xs \<Longrightarrow> split_on c xs = [xs]"
  by (induction xs) auto

lemma plain_no_space: "plain_name s \<Longrightarrow> CHR '' '' \<notin> set s"
  by (auto simp: plain_name_def list_all_iff)

lemma decode_text: "plain_line l \<Longrightarrow> decode_line (line_text l) = Some l"
proof -
  have four: "split_on (CHR '' '') (k @ CHR '' '' # r @ CHR '' '' # n @ CHR '' '' # old) = [k, r, n, old]"
    and three: "split_on (CHR '' '') (k @ CHR '' '' # r @ CHR '' '' # n) = [k, r, n]"
    if "CHR '' '' \<notin> set k" "CHR '' '' \<notin> set r" "CHR '' '' \<notin> set n" "CHR '' '' \<notin> set old" for k r n old
    using that by (simp_all add: split_on_here split_on_none)
  show "plain_line l \<Longrightarrow> decode_line (line_text l) = Some l"
    using four [of "''update''"] three [of "''update''" _ _ "[]"] three [of "''create''" _ _ "[]"]
      three [of "''delete''" _ _ "[]"] three [of "''verify''" _ _ "[]"]
    by (cases l) (auto simp: decode_line_def line_text_def plain_line_def dest!: plain_no_space split: option.splits)
qed

lemma tiny_list_effect:
  "sets_value l \<Longrightarrow> tiny_refs (g\<lparr>tg_refs := list_effect l rs\<rparr>) = line_effect l (tiny_refs (g\<lparr>tg_refs := rs\<rparr>))"
proof (cases l)
  case (LDelete r old)
  have "map_of (filter (\<lambda>(k, b). js_trim b = b \<and> b \<noteq> zero_oid) (filter (\<lambda>(k, _). k \<noteq> r) rs)) =
      (map_of (filter (\<lambda>(k, b). js_trim b = b \<and> b \<noteq> zero_oid) rs))(r := None)"
    by (induction rs) auto
  then show ?thesis using LDelete by (simp add: tiny_refs_def list_effect_def line_effect_def)
qed (auto simp: sets_value_def tiny_refs_def list_effect_def line_effect_def)

lemma tiny_fold_effect:
  "list_all sets_value ls \<Longrightarrow> tiny_refs (g\<lparr>tg_refs := fold list_effect ls rs\<rparr>) = fold line_effect ls (tiny_refs (g\<lparr>tg_refs := rs\<rparr>))"
  by (induction ls arbitrary: rs) (auto simp: tiny_list_effect)

lemma tiny_transactions: "ref_transactions tiny_run tiny_refs tiny_object (\<lambda>_ _. False)"
proof -
  have r: "(\<lambda>_ _. False)\<^sup>*\<^sup>* = ((=) :: tiny_git \<Rightarrow> tiny_git \<Rightarrow> bool)"
    by (auto intro!: ext elim: rtranclp.cases)
  have dec: "those (map decode_line (map line_text ls)) = Some ls" if "list_all plain_line ls" for ls
    using that by (induction ls) (auto simp: decode_text)
  have obj: "tiny_object (g\<lparr>tg_refs := rs\<rparr>) = tiny_object g" for g rs by (simp add: tiny_object_def)
  show ?thesis unfolding ref_transactions_def r
  proof (intro allI impI)
    fix g ls g' a
    assume pl: "list_all plain_line ls"
      and run: "tiny_run g [''update-ref'', ''--stdin''] (transaction_input (map line_text ls)) = (g', a)"
    have b: "butlast (butlast (butlast (tl (''start'' # map line_text ls @ [''prepare'', ''commit'', []])))) = map line_text ls"
      by (simp add: butlast_append)
    have d: "those (map (decode_line \<circ> line_text) ls) = Some ls" using dec [OF pl] by simp
    from run show "\<exists>h. g = h \<and> tiny_object h \<subseteq>\<^sub>m tiny_object g' \<and>
        (\<forall>x. a = Some x \<longrightarrow> ga_exitCode x = 0 \<longrightarrow> list_all (line_holds (tiny_refs h)) ls \<and> tiny_refs g' = fold line_effect ls (tiny_refs h)) \<and>
        (\<forall>x. a = Some x \<longrightarrow> ga_exitCode x \<noteq> 0 \<longrightarrow> tiny_refs g' = tiny_refs h)"
      unfolding tiny_run_def transaction_input_def using b d tiny_fold_effect [of ls "tg_refs g" g]
      by (auto simp: tiny_answer_def obj split: if_splits)
  qed
qed

lemma tiny_store: "object_store tiny_run tiny_refs tiny_object (\<lambda>_ _. False)"
proof -
  have r: "(\<lambda>_ _. False)\<^sup>*\<^sup>* = ((=) :: tiny_git \<Rightarrow> tiny_git \<Rightarrow> bool)"
    by (auto intro!: ext elim: rtranclp.cases)
  have upd: "tiny_refs (g\<lparr>tg_refs := (x, b) # tg_refs g\<rparr>) = (tiny_refs g)(x \<mapsto> b)" if "js_trim b = b" "b \<noteq> zero_oid" for g x b
    using that by (auto simp: tiny_refs_def)
  have obj: "tiny_object (g\<lparr>tg_refs := rs\<rparr>) = tiny_object g" and rfs: "tiny_refs (g\<lparr>tg_objects := os\<rparr>) = tiny_refs g" for g rs os
    by (simp_all add: tiny_object_def tiny_refs_def)
  show ?thesis unfolding object_store_def r
    by (auto simp: tiny_run_def tiny_answer_def quiet_call_def upd obj rfs tiny_id_trim tiny_object_grow tiny_no_zero
        dest: tiny_refs_trim split: option.splits if_splits)
qed

end
