(* ===== verification/CascadeCap.thy ===== *)
theory CascadeCap
  imports GitPort "HOL-Library.AList"
begin

text \<open>
  The durable cascade counters of a stack and their caps (\<^verbatim>\<open>engine/restack/cascade-cap.ts\<close>): one
  JSON object behind a reference, read by every restack and changed by compare-and-set only. The allowance of
  a feature is \<^verbatim>\<open>engine/restack/cascade-allowance.ts\<close>.
\<close>

section \<open>The document\<close>

record adjustment_marker =
  am_child :: int
  am_beforeConsumed :: int
  am_afterConsumed :: int
  am_beforeLimit :: int
  am_afterLimit :: int

record cascade_counts =
  cc_counts :: "(string \<times> int) list"
  cc_limits :: "(string \<times> int) list option"
  cc_adjustments :: "(string \<times> adjustment_marker) list option"

definition MAX_SAFE_COUNT :: int where
  "MAX_SAFE_COUNT = 9007199254740991"

fun is_non_negative_safe :: "jval option \<Rightarrow> bool" where
  "is_non_negative_safe (Some (JNum n)) = (0 \<le> n \<and> n \<le> MAX_SAFE_COUNT)"
| "is_non_negative_safe _ = False"

fun is_positive_safe :: "jval option \<Rightarrow> bool" where
  "is_positive_safe (Some (JNum n)) = (1 \<le> n \<and> n \<le> MAX_SAFE_COUNT)"
| "is_positive_safe _ = False"

definition cascadesRefFor :: "string \<Rightarrow> string" where
  "cascadesRefFor slug = ''refs/conductor/'' @ slug @ ''/cascades''"

fun the_num :: "jval option \<Rightarrow> int" where
  "the_num (Some (JNum n)) = n"
| "the_num _ = 0"

definition canonical_child :: "string \<Rightarrow> bool" where
  "canonical_child raw = (case parseChildId (RawStr raw) of None \<Rightarrow> False | Some c \<Rightarrow> raw = int_str c)"

text \<open>The loop over the entries of \<^verbatim>\<open>counts\<close> and of \<^verbatim>\<open>limits\<close>, which differ in the least value.\<close>

fun parse_child_numbers :: "int \<Rightarrow> (string \<times> jval) list \<Rightarrow> (string \<times> int) list option" where
  "parse_child_numbers least [] = Some []"
| "parse_child_numbers least ((rawChild, raw) # rest) =
     (if canonical_child rawChild \<and> (if least = 1 then is_positive_safe (Some raw) else is_non_negative_safe (Some raw))
      then map_option (\<lambda>kvs. (rawChild, the_num (Some raw)) # kvs) (parse_child_numbers least rest)
      else None)"

definition parse_marker :: "jval \<Rightarrow> adjustment_marker option" where
  "parse_marker marker =
     (case marker of
        JObj _ \<Rightarrow>
          (case jget marker ''child'' of
             Some (JNum n) \<Rightarrow>
               (case parseChildId (RawInt n) of
                  Some child \<Rightarrow>
                    if is_non_negative_safe (jget marker ''beforeConsumed'') \<and>
                       is_non_negative_safe (jget marker ''afterConsumed'') \<and>
                       is_positive_safe (jget marker ''beforeLimit'') \<and>
                       is_positive_safe (jget marker ''afterLimit'')
                    then Some \<lparr>am_child = child,
                      am_beforeConsumed = the_num (jget marker ''beforeConsumed''),
                      am_afterConsumed = the_num (jget marker ''afterConsumed''),
                      am_beforeLimit = the_num (jget marker ''beforeLimit''),
                      am_afterLimit = the_num (jget marker ''afterLimit'')\<rparr>
                    else None
                | None \<Rightarrow> None)
           | _ \<Rightarrow> None)
      | _ \<Rightarrow> None)"

fun parse_markers :: "(string \<times> jval) list \<Rightarrow> (string \<times> adjustment_marker) list option" where
  "parse_markers [] = Some []"
| "parse_markers ((i, raw) # rest) =
     (if i = [] then None
      else (case parse_marker raw of
              None \<Rightarrow> None
            | Some m \<Rightarrow> map_option (\<lambda>kvs. (i, m) # kvs) (parse_markers rest)))"

text \<open>An optional field: absent, or an object that parses.\<close>

definition parse_optional :: "((string \<times> jval) list \<Rightarrow> 'a option) \<Rightarrow> jval option \<Rightarrow> 'a option option" where
  "parse_optional parse v =
     (case v of None \<Rightarrow> Some None | Some (JObj kvs) \<Rightarrow> map_option Some (parse kvs) | Some _ \<Rightarrow> None)"

definition parseCounts :: "jval \<Rightarrow> cascade_counts option" where
  "parseCounts value =
     (case value of
        JObj _ \<Rightarrow>
          (case (jget value ''version'', jget value ''counts'') of
             (Some (JNum v), Some (JObj counts)) \<Rightarrow>
               if v \<noteq> 1 then None
               else (case parse_child_numbers 0 counts of
                  None \<Rightarrow> None
                | Some cs \<Rightarrow>
                    (case parse_optional (parse_child_numbers 1) (jget value ''limits'') of
                       None \<Rightarrow> None
                     | Some limits \<Rightarrow>
                         (case parse_optional parse_markers (jget value ''adjustments'') of
                            None \<Rightarrow> None
                          | Some adjustments \<Rightarrow>
                              Some \<lparr>cc_counts = cs, cc_limits = limits, cc_adjustments = adjustments\<rparr>)))
           | _ \<Rightarrow> None)
      | _ \<Rightarrow> None)"

definition emptyCounts :: cascade_counts where
  "emptyCounts = \<lparr>cc_counts = [], cc_limits = None, cc_adjustments = None\<rparr>"

text \<open>What \<^verbatim>\<open>JSON.stringify\<close> writes of the counters.\<close>

definition marker_json :: "adjustment_marker \<Rightarrow> jval" where
  "marker_json m = JObj
     [(''child'', JNum (am_child m)), (''beforeConsumed'', JNum (am_beforeConsumed m)),
      (''afterConsumed'', JNum (am_afterConsumed m)), (''beforeLimit'', JNum (am_beforeLimit m)),
      (''afterLimit'', JNum (am_afterLimit m))]"

definition numbers_json :: "(string \<times> int) list \<Rightarrow> jval" where
  "numbers_json kvs = JObj (map (map_prod id JNum) kvs)"

definition counts_json :: "cascade_counts \<Rightarrow> jval" where
  "counts_json c = JObj
     ([(''version'', JNum 1), (''counts'', numbers_json (cc_counts c))]
      @ (case cc_limits c of None \<Rightarrow> [] | Some ls \<Rightarrow> [(''limits'', numbers_json ls)])
      @ (case cc_adjustments c of None \<Rightarrow> [] | Some as \<Rightarrow> [(''adjustments'', JObj (map (map_prod id marker_json) as))]))"

section \<open>Reading\<close>

datatype cascade_read =
    CountsRead cascade_counts "string option"
  | CountsUnreadable string

definition readCascadeCounts :: "'g git_runner \<Rightarrow> string \<Rightarrow> 'g \<Rightarrow> 'g \<times> cascade_read" where
  "readCascadeCounts git slug g =
     (let ref = cascadesRefFor slug in
      case git g [''rev-parse'', ''-q'', ''--verify'', ref] NoInput of
        (g1, None) \<Rightarrow> (g1, CountsUnreadable (''cannot read '' @ ref))
      | (g1, Some resolved) \<Rightarrow>
          if ga_exitCode resolved = 1 then (g1, CountsRead emptyCounts None)
          else if ga_exitCode resolved \<noteq> 0 then (g1, CountsUnreadable (''cannot resolve '' @ ref))
          else (case parseCommitSha (js_trim (ga_stdout resolved)) of
              None \<Rightarrow> (g1, CountsUnreadable (ref @ '' does not name a full object id''))
            | Some blob \<Rightarrow>
                (case git g1 [''cat-file'', ''blob'', blob] NoInput of
                   (g2, content) \<Rightarrow>
                     if \<not> answer_ok content then (g2, CountsUnreadable (''cannot read blob at '' @ ref))
                     else (case Option.bind (ga_json (the content)) parseCounts of
                         None \<Rightarrow> (g2, CountsUnreadable (ref @ '' contains malformed cascade counts''))
                       | Some c \<Rightarrow> (g2, CountsRead c (Some blob))))))"

section \<open>Changing a limit, and the exactly-once adjustment\<close>

datatype limit_update =
    LimitUpdated cascade_counts
  | LimitStale
  | LimitUnreadable string

definition limit_of :: "cascade_counts \<Rightarrow> string \<Rightarrow> int option" where
  "limit_of c key = Option.bind (cc_limits c) (\<lambda>ls. map_of ls key)"

definition count_of :: "cascade_counts \<Rightarrow> string \<Rightarrow> int" where
  "count_of c key = (case map_of (cc_counts c) key of Some n \<Rightarrow> n | None \<Rightarrow> 0)"

definition marker_of :: "cascade_counts \<Rightarrow> string \<Rightarrow> adjustment_marker option" where
  "marker_of c i = Option.bind (cc_adjustments c) (\<lambda>as. map_of as i)"

text \<open>Spreading one object over another: later keys win, in place.\<close>

definition spread :: "(string \<times> 'a) list \<Rightarrow> (string \<times> 'a) list \<Rightarrow> (string \<times> 'a) list" where
  "spread old new = foldl (\<lambda>kvs (k, v). AList.update k v kvs) old new"

definition merged_adjustments :: "cascade_counts \<Rightarrow> cascade_counts \<Rightarrow> (string \<times> adjustment_marker) list option" where
  "merged_adjustments current updated =
     (if cc_adjustments current = None \<and> cc_adjustments updated = None then None
      else Some (spread (case cc_adjustments current of Some as \<Rightarrow> as | None \<Rightarrow> [])
                        (case cc_adjustments updated of Some as \<Rightarrow> as | None \<Rightarrow> [])))"

text \<open>The blob and then the compare-and-set that both writers share.\<close>

definition swap_counts ::
  "'g git_runner \<Rightarrow> string \<Rightarrow> cascade_counts \<Rightarrow> string option \<Rightarrow> 'g \<Rightarrow> 'g \<times> limit_update" where
  "swap_counts git slug next old g =
     (let ref = cascadesRefFor slug in
      case git g [''hash-object'', ''-w'', ''--stdin''] (JsonText (counts_json next)) of
        (g1, written) \<Rightarrow>
          (case (if answer_ok written then parseCommitSha (js_trim (ga_stdout (the written))) else None) of
             None \<Rightarrow> (g1, LimitUnreadable (''cannot write cascade counts for '' @ ref))
           | Some blob \<Rightarrow>
               (case git g1 [''update-ref'', ref, blob, case old of Some b \<Rightarrow> b | None \<Rightarrow> zero_oid] NoInput of
                  (g2, result) \<Rightarrow> (g2, if answer_ok result then LimitUpdated next else LimitStale))))"

definition updateCascadeLimit ::
  "'g git_runner \<Rightarrow> string \<Rightarrow> int \<Rightarrow> string option \<Rightarrow> (cascade_counts \<Rightarrow> cascade_counts) \<Rightarrow> 'g \<Rightarrow> 'g \<times> limit_update" where
  "updateCascadeLimit git slug child expectedBlob upd g =
     (case readCascadeCounts git slug g of
        (g1, CountsUnreadable detail) \<Rightarrow> (g1, LimitUnreadable detail)
      | (g1, CountsRead current blob) \<Rightarrow>
          if blob \<noteq> expectedBlob then (g1, LimitStale)
          else
            let updated = upd current;
                next = (case merged_adjustments current updated of
                          None \<Rightarrow> updated | Some as \<Rightarrow> updated\<lparr>cc_adjustments := Some as\<rparr>)
            in if (case limit_of next (int_str child) of None \<Rightarrow> True | Some n \<Rightarrow> n = 0)
               then (g1, LimitUnreadable ''updated cascade limit is missing its child'')
               else swap_counts git slug next expectedBlob g1)"

record cascade_adjustment = adjustment_marker +
  ca_id :: string

definition sameAdjustment :: "adjustment_marker \<Rightarrow> cascade_adjustment \<Rightarrow> bool" where
  "sameAdjustment left right =
     (am_child left = am_child right \<and> am_beforeConsumed left = am_beforeConsumed right \<and>
      am_afterConsumed left = am_afterConsumed right \<and> am_beforeLimit left = am_beforeLimit right \<and>
      am_afterLimit left = am_afterLimit right)"

definition adjusted_counts :: "cascade_counts \<Rightarrow> cascade_adjustment \<Rightarrow> cascade_counts" where
  "adjusted_counts c a =
     (let key = int_str (am_child a) in
      \<lparr>cc_counts = AList.update key (am_afterConsumed a) (cc_counts c),
       cc_limits = Some (AList.update key (am_afterLimit a) (case cc_limits c of Some ls \<Rightarrow> ls | None \<Rightarrow> [])),
       cc_adjustments = Some (AList.update (ca_id a) (adjustment_marker.truncate a)
         (case cc_adjustments c of Some as \<Rightarrow> as | None \<Rightarrow> []))\<rparr>)"

text \<open>What an adjustment does at given counters: nothing (already there, or stale), or a new value.\<close>

definition adjustment_move :: "cascade_counts \<Rightarrow> cascade_adjustment \<Rightarrow> int \<Rightarrow> limit_update + cascade_counts" where
  "adjustment_move c a defaultLimit =
     (case marker_of c (ca_id a) of
        Some existing \<Rightarrow> Inl (if sameAdjustment existing a then LimitUpdated c else LimitStale)
      | None \<Rightarrow>
          let key = int_str (am_child a);
              currentLimit = (case limit_of c key of Some n \<Rightarrow> n | None \<Rightarrow> defaultLimit)
          in if count_of c key \<noteq> am_beforeConsumed a \<or> currentLimit \<noteq> am_beforeLimit a then Inl LimitStale
             else Inr (adjusted_counts c a))"

definition applyCascadeAdjustment ::
  "'g git_runner \<Rightarrow> string \<Rightarrow> cascade_adjustment \<Rightarrow> int \<Rightarrow> 'g \<Rightarrow> 'g \<times> limit_update" where
  "applyCascadeAdjustment git slug a defaultLimit g =
     (case readCascadeCounts git slug g of
        (g1, CountsUnreadable detail) \<Rightarrow> (g1, LimitUnreadable detail)
      | (g1, CountsRead current blob) \<Rightarrow>
          (case adjustment_move current a defaultLimit of
             Inl result \<Rightarrow> (g1, result)
           | Inr next \<Rightarrow> swap_counts git slug next blob g1))"

section \<open>The cap, and the charge of a restack\<close>

datatype cap_result =
    CapClear cascade_counts int
  | CapExhausted int int int bool "string option"

text \<open>The loop over the sorted children: the first exhausted one.\<close>

fun first_exhausted :: "cascade_counts \<Rightarrow> int \<Rightarrow> int list \<Rightarrow> cap_result" where
  "first_exhausted c limit [] = CapClear c limit"
| "first_exhausted c limit (child # rest) =
     (let childLimit = (case limit_of c (int_str child) of Some n \<Rightarrow> n | None \<Rightarrow> limit);
          n = count_of c (int_str child)
      in if childLimit \<le> n then CapExhausted child n childLimit (limit_of c (int_str child) \<noteq> None) None
         else first_exhausted c limit rest)"

definition checkCascadeCap :: "'g git_runner \<Rightarrow> string \<Rightarrow> int list \<Rightarrow> int \<Rightarrow> 'g \<Rightarrow> 'g \<times> cap_result" where
  "checkCascadeCap git slug originatingChildren limit g =
     (case readCascadeCounts git slug g of
        (g1, state) \<Rightarrow>
          let sorted = sort (stable_unique originatingChildren) in
          (g1, case sorted of
                 [] \<Rightarrow> CapClear (case state of CountsRead c _ \<Rightarrow> c | CountsUnreadable _ \<Rightarrow> emptyCounts) limit
               | first # _ \<Rightarrow>
                   (case state of
                      CountsUnreadable detail \<Rightarrow>
                        CapExhausted first limit limit False (Some (detail @ '' ('' @ cascadesRefFor slug @ '')''))
                    | CountsRead c _ \<Rightarrow> first_exhausted c limit sorted)))"

definition charged_counts :: "cascade_counts \<Rightarrow> int list \<Rightarrow> cascade_counts" where
  "charged_counts c originatingChildren =
     c\<lparr>cc_counts := foldl (\<lambda>kvs child. AList.update (int_str child)
         ((case map_of kvs (int_str child) of Some n \<Rightarrow> n | None \<Rightarrow> 0) + 1) kvs)
       (cc_counts c) (stable_unique originatingChildren)\<rparr>"

datatype update_lines =
    UpdateLines "ref_line list" cascade_counts
  | LinesUnreadable string

definition cascadeUpdateLines :: "'g git_runner \<Rightarrow> string \<Rightarrow> int list \<Rightarrow> 'g \<Rightarrow> 'g \<times> update_lines" where
  "cascadeUpdateLines git slug originatingChildren g =
     (case readCascadeCounts git slug g of
        (g1, CountsUnreadable detail) \<Rightarrow> (g1, LinesUnreadable detail)
      | (g1, CountsRead current old) \<Rightarrow>
          let next = charged_counts current originatingChildren in
          (case git g1 [''hash-object'', ''-w'', ''--stdin''] (JsonText (counts_json next)) of
             (g2, written) \<Rightarrow>
               (g2, case (if answer_ok written then parseCommitSha (js_trim (ga_stdout (the written))) else None) of
                      None \<Rightarrow> LinesUnreadable (''cannot write cascade counts for '' @ cascadesRefFor slug)
                    | Some blob \<Rightarrow> UpdateLines [LUpdate (cascadesRefFor slug) blob old] next)))"

section \<open>The allowance of a feature\<close>

datatype allowance_source = FromConfig | FromDefault

record cascade_allowance =
  al_limit :: int
  al_tier :: "complexity_tier option"
  al_source :: allowance_source

datatype cascade_config = FlatCap int | TierCaps "complexity_tier \<rightharpoonup> int"

definition RESTACK_CASCADE_TIER_DEFAULTS :: "complexity_tier \<Rightarrow> int" where
  "RESTACK_CASCADE_TIER_DEFAULTS t = (case t of TierS \<Rightarrow> 3 | TierM \<Rightarrow> 3 | TierL \<Rightarrow> 8)"

definition resolveRestackCascadeAllowance ::
  "cascade_config option \<Rightarrow> complexity_tier option \<Rightarrow> cascade_allowance" where
  "resolveRestackCascadeAllowance configured tier =
     (let effectiveTier = (case tier of Some t \<Rightarrow> t | None \<Rightarrow> TierM) in
      case configured of
        Some (FlatCap n) \<Rightarrow> \<lparr>al_limit = n, al_tier = tier, al_source = FromConfig\<rparr>
      | _ \<Rightarrow>
          (case Option.bind configured (\<lambda>c. case c of TierCaps f \<Rightarrow> f effectiveTier | FlatCap _ \<Rightarrow> None) of
             Some n \<Rightarrow> \<lparr>al_limit = n, al_tier = tier, al_source = FromConfig\<rparr>
           | None \<Rightarrow> \<lparr>al_limit = RESTACK_CASCADE_TIER_DEFAULTS effectiveTier, al_tier = tier, al_source = FromDefault\<rparr>))"

definition tier_letter :: "complexity_tier \<Rightarrow> string" where
  "tier_letter t = (case t of TierS \<Rightarrow> ''S'' | TierM \<Rightarrow> ''M'' | TierL \<Rightarrow> ''L'')"

definition formatCascadeAllowance :: "cascade_allowance \<Rightarrow> string" where
  "formatCascadeAllowance a =
     (case al_tier a of None \<Rightarrow> ''tier unrecorded, treated as M;'' | Some t \<Rightarrow> ''tier '' @ tier_letter t)
     @ '' allowance '' @ int_str (al_limit a)
     @ '' ('' @ (case al_source a of FromConfig \<Rightarrow> ''configured'' | FromDefault \<Rightarrow> ''default'') @ '')''"

text \<open>The children of the summary; the keys are canonical, so \<^verbatim>\<open>Number\<close> is their value.\<close>

record summary_child =
  sc_child :: int
  sc_consumed :: int
  sc_limit :: int
  sc_remaining :: int
  sc_raised :: bool

definition summary_child_of :: "cascade_counts \<Rightarrow> cascade_allowance \<Rightarrow> int \<Rightarrow> summary_child" where
  "summary_child_of c a child =
     (let key = int_str child;
          limit = (case limit_of c key of Some n \<Rightarrow> n | None \<Rightarrow> al_limit a);
          consumed = count_of c key
      in \<lparr>sc_child = child, sc_consumed = consumed, sc_limit = limit, sc_remaining = max 0 (limit - consumed),
          sc_raised = (limit_of c key \<noteq> None)\<rparr>)"

definition summary_children :: "cascade_counts \<Rightarrow> cascade_allowance \<Rightarrow> summary_child list" where
  "summary_children c a =
     map (summary_child_of c a) (sort (map digits_value (stable_unique
       (map fst (cc_counts c) @ map fst (case cc_limits c of Some ls \<Rightarrow> ls | None \<Rightarrow> [])))))"

definition child_fraction :: "summary_child \<Rightarrow> string" where
  "child_fraction s = int_str (sc_consumed s) @ ''/'' @ int_str (sc_limit s)"

definition child_inspect_line :: "summary_child \<Rightarrow> string" where
  "child_inspect_line s = ''child '' @ int_str (sc_child s) @ '': '' @ child_fraction s @ '' consumed; ''
     @ int_str (sc_remaining s) @ '' remaining'' @ (if sc_raised s then '' (raised)'' else [])"

definition child_status_text :: "summary_child list \<Rightarrow> string" where
  "child_status_text children =
     (if children = [] then ''none charged''
      else join '', '' (map (\<lambda>s. ''child '' @ int_str (sc_child s) @ '' '' @ child_fraction s
        @ (if sc_raised s then '' (raised)'' else [])) children))"

text \<open>A child shown with nothing remaining is one the cap refuses.\<close>

lemma remaining_zero_iff:
  "sc_remaining (summary_child_of c a child) = 0 \<longleftrightarrow>
     first_exhausted c (al_limit a) [child] \<noteq> CapClear c (al_limit a)"
  by (auto simp: summary_child_of_def Let_def)

end
