(* ===== verification/CascadeProps.thy ===== *)
theory CascadeProps
  imports CascadeCap
begin

text \<open>
  Properties of the cascade counters: what is read is well-formed and is read back as written, concurrent
  writers behave as if they ran one after the other, an adjustment lands once, and the cap is exact.
\<close>

section \<open>Well-formed counters\<close>

definition wf_numbers :: "int \<Rightarrow> (string \<times> int) list \<Rightarrow> bool" where
  "wf_numbers least kvs = list_all (\<lambda>(k, n). canonical_child k \<and> least \<le> n \<and> n \<le> MAX_SAFE_COUNT) kvs"

definition wf_marker :: "adjustment_marker \<Rightarrow> bool" where
  "wf_marker m =
     (1 \<le> am_child m \<and> am_child m \<le> MAX_CHILD_ID \<and>
      0 \<le> am_beforeConsumed m \<and> am_beforeConsumed m \<le> MAX_SAFE_COUNT \<and>
      0 \<le> am_afterConsumed m \<and> am_afterConsumed m \<le> MAX_SAFE_COUNT \<and>
      1 \<le> am_beforeLimit m \<and> am_beforeLimit m \<le> MAX_SAFE_COUNT \<and>
      1 \<le> am_afterLimit m \<and> am_afterLimit m \<le> MAX_SAFE_COUNT)"

definition wf_counts :: "cascade_counts \<Rightarrow> bool" where
  "wf_counts c =
     (wf_numbers 0 (cc_counts c) \<and>
      (case cc_limits c of None \<Rightarrow> True | Some ls \<Rightarrow> wf_numbers 1 ls) \<and>
      (case cc_adjustments c of None \<Rightarrow> True | Some as \<Rightarrow> list_all (\<lambda>(i, m). i \<noteq> [] \<and> wf_marker m) as))"

lemma parse_child_numbers_iff:
  assumes "least = 0 \<or> least = 1"
  shows "parse_child_numbers least kvs = Some xs \<longleftrightarrow> kvs = map (map_prod id JNum) xs \<and> wf_numbers least xs"
proof (induction kvs arbitrary: xs)
  case Nil
  then show ?case by (auto simp: wf_numbers_def)
next
  case (Cons kv kvs)
  obtain k v where kv: "kv = (k, v)" by fastforce
  have num: "(if least = 1 then is_positive_safe (Some v) else is_non_negative_safe (Some v)) \<longleftrightarrow>
      (\<exists>n. v = JNum n \<and> least \<le> n \<and> n \<le> MAX_SAFE_COUNT)"
    using assms by (cases v) auto
  show ?case unfolding kv parse_child_numbers.simps num
    by (cases xs) (auto simp: Cons.IH wf_numbers_def)
qed

lemma parse_marker_iff: "parse_marker v = Some m \<Longrightarrow> wf_marker m"
  "wf_marker m \<Longrightarrow> parse_marker (marker_json m) = Some m"
proof -
  have nn: "is_non_negative_safe w \<Longrightarrow> 0 \<le> the_num w \<and> the_num w \<le> MAX_SAFE_COUNT" for w
    by (cases w rule: is_non_negative_safe.cases) auto
  have pos: "is_positive_safe w \<Longrightarrow> 1 \<le> the_num w \<and> the_num w \<le> MAX_SAFE_COUNT" for w
    by (cases w rule: is_positive_safe.cases) auto
  have child: "parseChildId (RawInt n) = Some c \<longleftrightarrow> c = n \<and> 1 \<le> n \<and> n \<le> MAX_CHILD_ID" for n c
    by (auto simp: parseChildId_def Let_def)
  show "wf_marker m" if "parse_marker v = Some m"
    using that nn pos
    by (auto simp: parse_marker_def wf_marker_def child split: jval.splits option.splits if_splits)
  show "parse_marker (marker_json m) = Some m" if "wf_marker m"
    using that by (simp add: wf_marker_def parse_marker_def marker_json_def parseChildId_def Let_def)
qed

lemma parse_markers_wf: "parse_markers kvs = Some as \<Longrightarrow> list_all (\<lambda>(i, m). i \<noteq> [] \<and> wf_marker m) as"
  by (induction kvs arbitrary: as rule: parse_markers.induct)
    (auto simp: parse_marker_iff split: if_splits option.splits)

lemma parse_markers_written:
  "list_all (\<lambda>(i, m). i \<noteq> [] \<and> wf_marker m) as \<Longrightarrow> parse_markers (map (map_prod id marker_json) as) = Some as"
  by (induction as) (auto simp: parse_marker_iff)

lemma parse_child_numbers_written:
  "wf_numbers 0 kvs \<Longrightarrow> parse_child_numbers 0 (map (map_prod id JNum) kvs) = Some kvs"
  "wf_numbers 1 kvs \<Longrightarrow> parse_child_numbers 1 (map (map_prod id JNum) kvs) = Some kvs"
  by (simp_all add: parse_child_numbers_iff)

lemma counts_written:
  assumes "wf_counts c"
  shows "parseCounts (counts_json c) = Some c"
proof -
  have lookup: "jget (counts_json c) ''version'' = Some (JNum 1)" "jget (counts_json c) ''counts'' = Some (numbers_json (cc_counts c))"
    "jget (counts_json c) ''limits'' = map_option numbers_json (cc_limits c)"
    "jget (counts_json c) ''adjustments'' = map_option (\<lambda>as. JObj (map (map_prod id marker_json) as)) (cc_adjustments c)"
    by (auto simp: counts_json_def split: option.splits)
  have "parse_optional (parse_child_numbers 1) (map_option numbers_json (cc_limits c)) = Some (cc_limits c)"
    "parse_optional parse_markers (map_option (\<lambda>as. JObj (map (map_prod id marker_json) as)) (cc_adjustments c)) = Some (cc_adjustments c)"
    using assms by (auto simp: wf_counts_def parse_optional_def numbers_json_def parse_child_numbers_written
        parse_markers_written split: option.splits)
  moreover have "parse_child_numbers 0 (map (map_prod id JNum) (cc_counts c)) = Some (cc_counts c)"
    using assms by (simp add: wf_counts_def parse_child_numbers_written)
  moreover obtain kvs where "counts_json c = JObj kvs" by (simp add: counts_json_def)
  ultimately show ?thesis using lookup unfolding parseCounts_def by (simp add: numbers_json_def)
qed

lemma parse_optional_Some: "parse_optional p v = Some (Some x) \<Longrightarrow> \<exists>kvs. p kvs = Some x"
  by (auto simp: parse_optional_def split: option.splits jval.splits)

lemma child_numbers_wf: "parse_child_numbers 0 kvs = Some xs \<Longrightarrow> wf_numbers 0 xs"
  "parse_child_numbers 1 kvs = Some xs \<Longrightarrow> wf_numbers 1 xs"
  by (simp_all add: parse_child_numbers_iff)

lemma parse_fields:
  assumes "parseCounts v = Some c"
  shows "\<exists>counts. parse_child_numbers 0 counts = Some (cc_counts c)"
    "\<exists>w. parse_optional (parse_child_numbers 1) w = Some (cc_limits c)"
    "\<exists>w. parse_optional parse_markers w = Some (cc_adjustments c)"
proof -
  from assms obtain counts limits where
    "parse_child_numbers 0 counts = Some (cc_counts c) \<and>
     parse_optional (parse_child_numbers 1) limits = Some (cc_limits c) \<and>
     parse_optional parse_markers (jget v ''adjustments'') = Some (cc_adjustments c)"
    unfolding parseCounts_def
    by (simp split: jval.splits option.splits if_splits) force
  then show "\<exists>counts. parse_child_numbers 0 counts = Some (cc_counts c)"
    "\<exists>w. parse_optional (parse_child_numbers 1) w = Some (cc_limits c)"
    "\<exists>w. parse_optional parse_markers w = Some (cc_adjustments c)" by blast+
qed

lemma parse_wf:
  assumes "parseCounts v = Some c"
  shows "wf_counts c"
proof -
  note f = parse_fields [OF assms]
  from f(1) have "wf_numbers 0 (cc_counts c)" by (auto intro: child_numbers_wf(1))
  moreover from f(2) have "case cc_limits c of None \<Rightarrow> True | Some ls \<Rightarrow> wf_numbers 1 ls"
    by (auto dest!: parse_optional_Some intro: child_numbers_wf(2) split: option.splits)
  moreover from f(3) have "case cc_adjustments c of None \<Rightarrow> True | Some as \<Rightarrow> list_all (\<lambda>(i, m). i \<noteq> [] \<and> wf_marker m) as"
    by (auto dest!: parse_optional_Some intro: parse_markers_wf split: option.splits)
  ultimately show ?thesis by (simp add: wf_counts_def)
qed

lemma wf_numbers_update:
  assumes "wf_numbers least kvs" "canonical_child k" "least \<le> n" "n \<le> MAX_SAFE_COUNT"
  shows "wf_numbers least (AList.update k n kvs)"
  using assms by (induction kvs) (auto simp: wf_numbers_def)

lemma canonical_int_str:
  assumes "1 \<le> c" "c \<le> MAX_CHILD_ID"
  shows "canonical_child (int_str c)"
proof -
  have t: "int_str c = [char_of (48 + nat c)]" using assms by (simp add: int_str_digit MAX_CHILD_ID_def)
  have v: "of_char (char_of (48 + nat c) :: char) = (48 + nat c)"
    using assms by (simp add: of_char_of take_bit_eq_mod MAX_CHILD_ID_def)
  have "is_digit (char_of (48 + nat c))" using assms v by (simp add: is_digit_def MAX_CHILD_ID_def)
  moreover have "digits_value (int_str c) = c"
  proof -
    have "(of_char (char_of (48 + nat c) :: char) :: int) = int (of_char (char_of (48 + nat c) :: char))"
      by (rule of_nat_of_char [symmetric])
    also have "\<dots> = 48 + c" unfolding v using assms by simp
    finally show ?thesis unfolding t digits_value_def by simp
  qed
  ultimately show ?thesis using assms by (simp add: canonical_child_def parseChildId_def Let_def t)
qed

lemma marker_wf_update:
  "list_all (\<lambda>(i, m). i \<noteq> [] \<and> wf_marker m) as \<Longrightarrow> i \<noteq> [] \<Longrightarrow> wf_marker m \<Longrightarrow>
     list_all (\<lambda>(i, m). i \<noteq> [] \<and> wf_marker m) (AList.update i m as)"
  by (induction as) auto

lemma truncate_fields [simp]:
  "am_child (adjustment_marker.truncate a) = am_child a"
  "am_beforeConsumed (adjustment_marker.truncate a) = am_beforeConsumed a"
  "am_afterConsumed (adjustment_marker.truncate a) = am_afterConsumed a"
  "am_beforeLimit (adjustment_marker.truncate a) = am_beforeLimit a"
  "am_afterLimit (adjustment_marker.truncate a) = am_afterLimit a"
  by (simp_all add: adjustment_marker.truncate_def)

lemma adjusted_wf:
  assumes "wf_counts c" "wf_marker (adjustment_marker.truncate a)" "ca_id a \<noteq> []"
  shows "wf_counts (adjusted_counts c a)"
proof -
  have key: "canonical_child (int_str (am_child a))"
    using assms(2) by (intro canonical_int_str) (simp_all add: wf_marker_def)
  have "wf_numbers 0 (AList.update (int_str (am_child a)) (am_afterConsumed a) (cc_counts c))"
    using assms key by (intro wf_numbers_update) (simp_all add: wf_counts_def wf_marker_def)
  moreover have "wf_numbers 1 (AList.update (int_str (am_child a)) (am_afterLimit a) (case cc_limits c of Some ls \<Rightarrow> ls | None \<Rightarrow> []))"
    using assms key by (intro wf_numbers_update) (auto simp: wf_counts_def wf_marker_def wf_numbers_def split: option.splits)
  moreover have "list_all (\<lambda>(i, m). i \<noteq> [] \<and> wf_marker m)
      (AList.update (ca_id a) (adjustment_marker.truncate a) (case cc_adjustments c of Some as \<Rightarrow> as | None \<Rightarrow> []))"
    using assms by (intro marker_wf_update) (auto simp: wf_counts_def split: option.splits)
  ultimately show ?thesis by (simp add: adjusted_counts_def Let_def wf_counts_def)
qed

section \<open>Charges\<close>

lemma charge_loop:
  assumes "distinct (map f xs)"
  shows "map_of (foldl (\<lambda>kvs child. AList.update (f child)
      ((case map_of kvs (f child) of Some n \<Rightarrow> n | None \<Rightarrow> 0) + (1::int)) kvs) kvs xs) k =
    (if k \<in> f ` set xs then Some ((case map_of kvs k of Some n \<Rightarrow> n | None \<Rightarrow> 0) + 1) else map_of kvs k)"
  using assms by (induction xs arbitrary: kvs) (auto simp: update_conv')

lemma child_key_inj: "inj_on int_str {1..MAX_CHILD_ID}"
  by (auto simp: inj_on_def MAX_CHILD_ID_def dest: int_str_digit_inj [rotated -1])

lemma charged_lookup:
  assumes "\<forall>x\<in>set orig. 1 \<le> x \<and> x \<le> MAX_CHILD_ID"
  shows "map_of (cc_counts (charged_counts c orig)) k =
    (if k \<in> int_str ` set orig then Some (count_of c k + 1) else map_of (cc_counts c) k)"
proof -
  have "inj_on int_str (set orig)" using assms by (intro inj_on_subset [OF child_key_inj]) auto
  then have "distinct (map int_str (stable_unique orig))" by (simp add: distinct_map)
  from charge_loop [OF this] show ?thesis by (simp add: charged_counts_def count_of_def)
qed

lemma charged_rest [simp]:
  "cc_limits (charged_counts c orig) = cc_limits c" "cc_adjustments (charged_counts c orig) = cc_adjustments c"
  "limit_of (charged_counts c orig) k = limit_of c k" "marker_of (charged_counts c orig) i = marker_of c i"
  by (simp_all add: charged_counts_def limit_of_def marker_of_def)

lemma charge_loop_wf:
  assumes "wf_numbers 0 kvs" "distinct (map f xs)" "\<forall>x\<in>set xs. canonical_child (f x)"
    "\<forall>x\<in>set xs. (case map_of kvs (f x) of Some n \<Rightarrow> n | None \<Rightarrow> 0) < MAX_SAFE_COUNT"
  shows "wf_numbers 0 (foldl (\<lambda>kvs child. AList.update (f child)
      ((case map_of kvs (f child) of Some n \<Rightarrow> n | None \<Rightarrow> 0) + (1::int)) kvs) kvs xs)"
  using assms
proof (induction xs arbitrary: kvs)
  case Nil
  then show ?case by simp
next
  case (Cons x xs)
  have "0 \<le> (case map_of kvs (f x) of Some n \<Rightarrow> n | None \<Rightarrow> 0)"
    using Cons.prems(1) by (auto simp: wf_numbers_def list_all_iff dest: map_of_SomeD split: option.splits)
  then have "wf_numbers 0 (AList.update (f x) ((case map_of kvs (f x) of Some n \<Rightarrow> n | None \<Rightarrow> 0) + 1) kvs)"
    using Cons.prems by (intro wf_numbers_update) auto
  then show ?case using Cons.prems by (auto intro!: Cons.IH simp: update_conv') (metis image_eqI)
qed

lemma charged_wf:
  assumes "wf_counts c" "\<forall>x\<in>set orig. 1 \<le> x \<and> x \<le> MAX_CHILD_ID \<and> count_of c (int_str x) < MAX_SAFE_COUNT"
  shows "wf_counts (charged_counts c orig)"
proof -
  have "inj_on int_str (set orig)" using assms by (intro inj_on_subset [OF child_key_inj]) auto
  then have "distinct (map int_str (stable_unique orig))" by (simp add: distinct_map)
  moreover have "\<forall>x\<in>set (stable_unique orig). canonical_child (int_str x)"
    using assms(2) by (auto intro: canonical_int_str)
  ultimately have "wf_numbers 0 (cc_counts (charged_counts c orig))"
    using assms by (auto simp: charged_counts_def wf_counts_def count_of_def intro!: charge_loop_wf)
  then show ?thesis using assms(1) by (simp add: wf_counts_def)
qed

text \<open>
  C38: the counters are well-formed wherever they come from. Whatever is accepted on
  a read has canonical children, counts and limits in the safe range and complete markers, is
  read back exactly as it is written, and stays so under a charge (unless a count is already the
  largest safe integer) and under a well-formed adjustment.
\<close>

theorem cascade_counters_typed:
  assumes "parseCounts v = Some c"
  shows "wf_counts c \<and> parseCounts (counts_json c) = Some c \<and>
    ((\<forall>x\<in>set orig. 1 \<le> x \<and> x \<le> MAX_CHILD_ID \<and> count_of c (int_str x) < MAX_SAFE_COUNT) \<longrightarrow>
       parseCounts (counts_json (charged_counts c orig)) = Some (charged_counts c orig)) \<and>
    (wf_marker (adjustment_marker.truncate a) \<and> ca_id a \<noteq> [] \<longrightarrow>
       parseCounts (counts_json (adjusted_counts c a)) = Some (adjusted_counts c a))"
  using parse_wf [OF assms] counts_written charged_wf [of c orig] adjusted_wf [of c a] by blast

theorem cascade_counters_typed_witness:
  "wf_counts \<lparr>cc_counts = [(''2'', 1)], cc_limits = Some [(''2'', 4)], cc_adjustments = None\<rparr> \<and>
   parseCounts (JObj [(''version'', JNum 1), (''counts'', JObj [(''0'', JNum 1)])]) = None"
proof -
  let ?v = "JObj [(''version'', JNum 1), (''counts'', JObj [(''2'', JNum 1)]), (''limits'', JObj [(''2'', JNum 4)])]"
  have two: "canonical_child ''2''" by code_simp
  have "parseCounts ?v = Some \<lparr>cc_counts = [(''2'', 1)], cc_limits = Some [(''2'', 4)], cc_adjustments = None\<rparr>"
    by (simp add: parseCounts_def parse_optional_def two MAX_SAFE_COUNT_def)
  from cascade_counters_typed [OF this] show ?thesis
    by (simp add: parseCounts_def canonical_child_def parseChildId_def Let_def is_digit_def digits_value_def)
qed

section \<open>The cap\<close>

lemma first_exhausted_iff:
  "first_exhausted c limit xs = CapClear c' l' \<longleftrightarrow> c' = c \<and> l' = limit \<and>
     (\<forall>x\<in>set xs. count_of c (int_str x) < (case limit_of c (int_str x) of Some n \<Rightarrow> n | None \<Rightarrow> limit))"
  by (induction xs) (auto simp: Let_def)

lemma first_exhausted_first:
  "sorted xs \<Longrightarrow> first_exhausted c limit xs = CapExhausted x n l raised detail \<Longrightarrow>
     x \<in> set xs \<and> n = count_of c (int_str x) \<and> l = (case limit_of c (int_str x) of Some m \<Rightarrow> m | None \<Rightarrow> limit) \<and>
     l \<le> n \<and> raised = (limit_of c (int_str x) \<noteq> None) \<and>
     (\<forall>y\<in>set xs. y < x \<longrightarrow> count_of c (int_str y) < (case limit_of c (int_str y) of Some m \<Rightarrow> m | None \<Rightarrow> limit))"
  by (induction xs) (auto simp: Let_def split: if_splits)

lemma first_exhausted_detail: "first_exhausted c limit xs = CapExhausted x n l raised detail \<Longrightarrow> detail = None"
  by (induction xs) (auto simp: Let_def split: if_splits)

definition child_limit :: "cascade_counts \<Rightarrow> int \<Rightarrow> int \<Rightarrow> int" where
  "child_limit c limit x = (case limit_of c (int_str x) of Some n \<Rightarrow> n | None \<Rightarrow> limit)"

text \<open>
  The cap is decided on the durable counters alone. A restack that originates at some
  child is let through exactly when the counters are readable and every originating child is below its own
  limit, the raised one if there is one; otherwise the least child that is not is named with its count and
  limit, and unreadable counters always refuse. A restack that was let through on the counters it is
  charged on leaves every child it charges within its limit.
\<close>

theorem cascade_cap_exact:
  assumes "checkCascadeCap git slug orig limit g = (g', answer)" and "readCascadeCounts git slug g = (g', state)"
    and "orig \<noteq> []" and "\<forall>x\<in>set orig. 1 \<le> x \<and> x \<le> MAX_CHILD_ID"
  shows "case state of
      CountsUnreadable detail \<Rightarrow> (\<exists>d. answer = CapExhausted (Min (set orig)) limit limit False (Some d))
    | CountsRead c blob \<Rightarrow>
        (if \<forall>x\<in>set orig. count_of c (int_str x) < child_limit c limit x
         then answer = CapClear c limit \<and>
           (\<forall>x\<in>set orig. count_of (charged_counts c orig) (int_str x) \<le> child_limit (charged_counts c orig) limit x)
         else let x = Min {x\<in>set orig. child_limit c limit x \<le> count_of c (int_str x)}
              in answer = CapExhausted x (count_of c (int_str x)) (child_limit c limit x)
                   (limit_of c (int_str x) \<noteq> None) None)"
proof -
  let ?xs = "sort (stable_unique orig)"
  have set: "set ?xs = set orig" and srt: "sorted ?xs" by simp_all
  obtain x ys where xs: "?xs = x # ys" using assms(3) set by (cases ?xs) auto
  have hd: "x = Min (set orig)" using srt set unfolding xs by (auto intro!: Min_eqI [symmetric])
  show ?thesis
  proof (cases state)
    case (CountsUnreadable detail)
    with assms(1,2) xs hd show ?thesis by (auto simp: checkCascadeCap_def Let_def)
  next
    case (CountsRead c blob)
    have ans: "answer = first_exhausted c limit ?xs"
      using assms(1,2) xs CountsRead by (auto simp: checkCascadeCap_def Let_def)
    show ?thesis
    proof (cases "\<forall>x\<in>set orig. count_of c (int_str x) < child_limit c limit x")
      case True
      then have "answer = CapClear c limit" unfolding ans first_exhausted_iff set by (simp add: child_limit_def)
      moreover have "count_of (charged_counts c orig) (int_str y) \<le> child_limit (charged_counts c orig) limit y"
        if "y \<in> set orig" for y
        using True that charged_lookup [OF assms(4), of c] by (auto simp: count_of_def [of "charged_counts c orig"] child_limit_def)
      ultimately show ?thesis using True CountsRead by simp
    next
      case False
      then obtain y n l raised detail where e: "first_exhausted c limit ?xs = CapExhausted y n l raised detail"
        using first_exhausted_iff [of c limit ?xs c limit] set
        by (cases "first_exhausted c limit ?xs") (auto simp: child_limit_def first_exhausted_iff)
      note f = first_exhausted_first [OF srt e, unfolded set]
      then have "Min {x\<in>set orig. child_limit c limit x \<le> count_of c (int_str x)} = y"
        by (intro Min_eqI) (auto simp: child_limit_def linorder_not_less [symmetric])
      moreover note first_exhausted_detail [OF e]
      ultimately show ?thesis using f e ans False CountsRead by (simp add: child_limit_def Let_def)
    qed
  qed
qed

text \<open>A repository whose reference names one blob, and that accepts no write.\<close>

definition fixed_git :: "jval \<Rightarrow> unit git_runner" where
  "fixed_git v = (\<lambda>g args inp. (g,
     if args ! 0 = ''rev-parse''
     then Some \<lparr>ga_exitCode = 0, ga_stdout = replicate 40 (CHR ''a''), ga_stderr = [], ga_json = None\<rparr>
     else Some \<lparr>ga_exitCode = 0, ga_stdout = [], ga_stderr = [], ga_json = Some v\<rparr>))"

definition two_charged :: cascade_counts where
  "two_charged = \<lparr>cc_counts = [(''1'', 3), (''2'', 3)], cc_limits = Some [(''1'', 5)], cc_adjustments = None\<rparr>"

lemma fixed_git_read:
  "readCascadeCounts (fixed_git (counts_json two_charged)) ''demo'' () = ((), CountsRead two_charged (Some (replicate 40 (CHR ''a''))))"
  by code_simp

theorem cascade_cap_exact_witness:
  "snd (checkCascadeCap (fixed_git (counts_json two_charged)) ''demo'' [2, 1] 3 ()) = CapExhausted 2 3 3 False None"
proof -
  obtain answer where c: "checkCascadeCap (fixed_git (counts_json two_charged)) ''demo'' [2, 1] 3 () = ((), answer)"
    by (cases "checkCascadeCap (fixed_git (counts_json two_charged)) ''demo'' [2, 1] 3 ()") auto
  have "\<forall>x\<in>set [2, 1]. 1 \<le> x \<and> x \<le> MAX_CHILD_ID" by (simp add: MAX_CHILD_ID_def)
  note p = cascade_cap_exact [OF c fixed_git_read _ this]
  have k: "int_str 1 = ''1''" "int_str 2 = ''2''" by code_simp+
  have "{x\<in>set [2, 1]. child_limit two_charged 3 x \<le> count_of two_charged (int_str x)} = {2}"
    by (auto simp: child_limit_def limit_of_def count_of_def two_charged_def k)
  with p c k show ?thesis
    by (simp add: child_limit_def limit_of_def count_of_def two_charged_def)
qed

section \<open>Concurrent writers\<close>

text \<open>
  A writer reads, decides and writes; between read and write anything may happen. \<open>cw_value\<close> is what the
  reference names, \<open>cw_pending\<close> the writes that were prepared and not yet tried, each with the value it
  was prepared against, and \<open>cw_log\<close> the operations whose write landed. The object id of a blob determines its
  content, so comparing ids compares contents; a charge prepared without a reference carries no old value.
\<close>

datatype cascade_op = OpCharge "int list" | OpAdjust cascade_adjustment

record cascade_world =
  cw_value :: "cascade_counts option"
  cw_pending :: "(cascade_op \<times> cascade_counts option \<times> cascade_counts) list"
  cw_log :: "cascade_op list"

definition current_counts :: "cascade_world \<Rightarrow> cascade_counts" where
  "current_counts w = (case cw_value w of Some c \<Rightarrow> c | None \<Rightarrow> emptyCounts)"

fun op_apply :: "cascade_op \<Rightarrow> cascade_counts \<Rightarrow> cascade_counts" where
  "op_apply (OpCharge orig) c = charged_counts c orig"
| "op_apply (OpAdjust a) c = adjusted_counts c a"

fun lands :: "cascade_op \<Rightarrow> cascade_counts option \<Rightarrow> cascade_counts option \<Rightarrow> bool" where
  "lands (OpCharge _) old now = (old = None \<or> old = now)"
| "lands (OpAdjust _) old now = (old = now)"

inductive cascade_step :: "int \<Rightarrow> cascade_world \<Rightarrow> cascade_world \<Rightarrow> bool" for limit :: int where
  charge_prepared: "cascade_step limit w
     (w\<lparr>cw_pending := cw_pending w @ [(OpCharge orig, cw_value w, charged_counts (current_counts w) orig)]\<rparr>)"
| adjust_prepared: "adjustment_move (current_counts w) a limit = Inr next \<Longrightarrow>
     cascade_step limit w (w\<lparr>cw_pending := cw_pending w @ [(OpAdjust a, cw_value w, next)]\<rparr>)"
| write_landed: "cw_pending w = us @ (op', old, next) # vs \<Longrightarrow> lands op' old (cw_value w) \<Longrightarrow>
     cascade_step limit w \<lparr>cw_value = Some next, cw_pending = us @ vs, cw_log = cw_log w @ [op']\<rparr>"
| write_refused: "cw_pending w = us @ x # vs \<Longrightarrow> cascade_step limit w (w\<lparr>cw_pending := us @ vs\<rparr>)"

definition replayed :: "cascade_op list \<Rightarrow> cascade_counts \<Rightarrow> cascade_counts" where
  "replayed ops c = foldl (\<lambda>c op'. op_apply op' c) c ops"

text \<open>Every adjustment of a log was fresh where it landed.\<close>

definition fresh_log :: "int \<Rightarrow> cascade_counts \<Rightarrow> cascade_op list \<Rightarrow> bool" where
  "fresh_log limit c ops = (\<forall>us a vs. ops = us @ OpAdjust a # vs \<longrightarrow>
     adjustment_move (replayed us c) a limit = Inr (adjusted_counts (replayed us c) a))"

definition pending_ok :: "int \<Rightarrow> cascade_op \<times> cascade_counts option \<times> cascade_counts \<Rightarrow> bool" where
  "pending_ok limit = (\<lambda>(op', old, next). case old of None \<Rightarrow> False | Some c \<Rightarrow>
     next = op_apply op' c \<and> (case op' of OpAdjust a \<Rightarrow> adjustment_move c a limit = Inr next | OpCharge _ \<Rightarrow> True))"

definition cascade_inv :: "int \<Rightarrow> cascade_counts \<Rightarrow> cascade_world \<Rightarrow> bool" where
  "cascade_inv limit c w =
     (cw_value w = Some (replayed (cw_log w) c) \<and> fresh_log limit c (cw_log w) \<and> list_all (pending_ok limit) (cw_pending w))"

lemma adjustment_move_Inr: "adjustment_move c a limit = Inr n \<Longrightarrow> n = adjusted_counts c a \<and> marker_of c (ca_id a) = None"
  by (auto simp: adjustment_move_def Let_def split: option.splits if_splits)

lemma cascade_inv_step: "cascade_step limit w w' \<Longrightarrow> cascade_inv limit c w \<Longrightarrow> cascade_inv limit c w'"
proof (induction rule: cascade_step.induct)
  case (write_landed w us op' old nx vs)
  from write_landed.prems write_landed.hyps have p: "pending_ok limit (op', old, nx)" and
    rest: "list_all (pending_ok limit) (us @ vs)" by (auto simp: cascade_inv_def)
  with write_landed.hyps(2) write_landed.prems have old: "old = Some (replayed (cw_log w) c)"
    by (cases op') (auto simp: pending_ok_def cascade_inv_def split: option.splits)
  with p have nx: "nx = op_apply op' (replayed (cw_log w) c)" by (simp add: pending_ok_def)
  have "fresh_log limit c (cw_log w @ [op'])"
    unfolding fresh_log_def
  proof (intro allI impI)
    fix us a vs assume e: "cw_log w @ [op'] = us @ OpAdjust a # vs"
    show "adjustment_move (replayed us c) a limit = Inr (adjusted_counts (replayed us c) a)"
    proof (cases vs rule: rev_cases)
      case Nil
      with e p old nx show ?thesis by (simp add: pending_ok_def)
    next
      case (snoc vs' v)
      with e write_landed.prems show ?thesis by (simp add: cascade_inv_def fresh_log_def)
    qed
  qed
  with rest nx show ?case by (simp add: cascade_inv_def replayed_def)
qed (auto simp: cascade_inv_def current_counts_def pending_ok_def dest: adjustment_move_Inr)

lemma cascade_inv_run:
  "(cascade_step limit)\<^sup>*\<^sup>* v w \<Longrightarrow> cascade_inv limit c v \<Longrightarrow> cascade_inv limit c w"
  by (induction rule: rtranclp_induct) (auto intro: cascade_inv_step)

lemma marker_adjusted: "marker_of (adjusted_counts c a) i = (if i = ca_id a then Some (adjustment_marker.truncate a) else marker_of c i)"
  by (auto simp: adjusted_counts_def Let_def marker_of_def update_conv' split: option.splits)

lemma replayed_snoc [simp]: "replayed (ops @ [op']) c = op_apply op' (replayed ops c)"
  by (simp add: replayed_def)

lemma fresh_log_prefix: "fresh_log limit c (us @ vs) \<Longrightarrow> fresh_log limit c us"
  by (auto simp: fresh_log_def)

definition adjustments_of :: "cascade_op list \<Rightarrow> cascade_adjustment list" where
  "adjustments_of ops = List.map_filter (\<lambda>op'. case op' of OpAdjust a \<Rightarrow> Some a | OpCharge _ \<Rightarrow> None) ops"

lemma adjustments_of_snoc: "adjustments_of (ops @ [op']) =
   adjustments_of ops @ (case op' of OpAdjust a \<Rightarrow> [a] | OpCharge _ \<Rightarrow> [])"
  by (simp add: adjustments_of_def List.map_filter_def split: cascade_op.split)

lemma fresh_log_markers:
  "fresh_log limit c ops \<Longrightarrow> distinct (map ca_id (adjustments_of ops)) \<and>
     (\<forall>a\<in>set (adjustments_of ops). marker_of (replayed ops c) (ca_id a) = Some (adjustment_marker.truncate a))"
proof (induction ops rule: rev_induct)
  case Nil
  then show ?case by (simp add: adjustments_of_def List.map_filter_simps)
next
  case (snoc op' ops)
  note IH = snoc.IH [OF fresh_log_prefix [OF snoc.prems]]
  show ?case
  proof (cases op')
    case (OpCharge orig)
    with IH show ?thesis by (simp add: adjustments_of_snoc)
  next
    case (OpAdjust a)
    with snoc.prems have "adjustment_move (replayed ops c) a limit = Inr (adjusted_counts (replayed ops c) a)"
      by (simp add: fresh_log_def)
    then have "marker_of (replayed ops c) (ca_id a) = None" by (auto dest: adjustment_move_Inr)
    with IH OpAdjust show ?thesis by (auto simp: adjustments_of_snoc marker_adjusted)
  qed
qed

text \<open>
  C15: once the reference of the counters exists, charges and operator adjustments that run
  side by side, in any interleaving, leave what they would leave one after the other, in the order in which they landed, each
  adjustment on counters it was authorized for. So no landed operation is lost, every adjustment id
  lands at most once, and trying a landed adjustment again, after whatever came since, changes nothing.
\<close>

theorem cascade_writers_serial:
  assumes "(cascade_step limit)\<^sup>*\<^sup>* \<lparr>cw_value = Some c, cw_pending = [], cw_log = []\<rparr> w"
  shows "cw_value w = Some (replayed (cw_log w) c) \<and> fresh_log limit c (cw_log w) \<and>
    distinct (map ca_id (adjustments_of (cw_log w))) \<and>
    (\<forall>a\<in>set (adjustments_of (cw_log w)).
       adjustment_move (current_counts w) a limit = Inl (LimitUpdated (current_counts w)))"
proof -
  have "cascade_inv limit c \<lparr>cw_value = Some c, cw_pending = [], cw_log = []\<rparr>"
    by (simp add: cascade_inv_def replayed_def fresh_log_def)
  from cascade_inv_run [OF assms this] have v: "cw_value w = Some (replayed (cw_log w) c)" and
    f: "fresh_log limit c (cw_log w)" by (simp_all add: cascade_inv_def)
  with fresh_log_markers [OF f] show ?thesis
    by (auto simp: adjustment_move_def current_counts_def sameAdjustment_def)
qed

definition raise_two :: cascade_adjustment where
  "raise_two = \<lparr>am_child = 2, am_beforeConsumed = 0, am_afterConsumed = 0, am_beforeLimit = 3, am_afterLimit = 5, ca_id = ''a1''\<rparr>"

text \<open>Both writers prepare on one value; the adjustment lands first and the charge second, if it may.\<close>

definition prepared_both :: "cascade_counts option \<Rightarrow> cascade_world" where
  "prepared_both v = (let c = (case v of Some x \<Rightarrow> x | None \<Rightarrow> emptyCounts) in
     \<lparr>cw_value = v, cw_pending = [(OpCharge [1], v, charged_counts c [1]), (OpAdjust raise_two, v, adjusted_counts c raise_two)],
      cw_log = []\<rparr>)"

lemma run_to_prepared:
  assumes "adjustment_move (case v of Some x \<Rightarrow> x | None \<Rightarrow> emptyCounts) raise_two 3 =
    Inr (adjusted_counts (case v of Some x \<Rightarrow> x | None \<Rightarrow> emptyCounts) raise_two)"
  shows "(cascade_step 3)\<^sup>*\<^sup>* \<lparr>cw_value = v, cw_pending = [], cw_log = []\<rparr> (prepared_both v)"
proof -
  let ?w = "\<lparr>cw_value = v, cw_pending = [], cw_log = []\<rparr>"
  have a: "cascade_step 3 ?w (?w\<lparr>cw_pending := cw_pending ?w @ [(OpCharge [1], cw_value ?w, charged_counts (current_counts ?w) [1])]\<rparr>)"
    by (rule charge_prepared)
  let ?u = "?w\<lparr>cw_pending := cw_pending ?w @ [(OpCharge [1], cw_value ?w, charged_counts (current_counts ?w) [1])]\<rparr>"
  have "cascade_step 3 ?u (?u\<lparr>cw_pending := cw_pending ?u @ [(OpAdjust raise_two, cw_value ?u, adjusted_counts (current_counts ?u) raise_two)]\<rparr>)"
    using assms by (intro adjust_prepared) (simp add: current_counts_def)
  with a show ?thesis by (simp add: prepared_both_def current_counts_def Let_def)
qed

lemma adjustment_lands:
  "cascade_step 3 (prepared_both v) \<lparr>cw_value = Some (adjusted_counts (case v of Some x \<Rightarrow> x | None \<Rightarrow> emptyCounts) raise_two),
     cw_pending = [(OpCharge [1], v, charged_counts (case v of Some x \<Rightarrow> x | None \<Rightarrow> emptyCounts) [1])], cw_log = [OpAdjust raise_two]\<rparr>"
  using write_landed [of "prepared_both v" "[(OpCharge [1], v, charged_counts (case v of Some x \<Rightarrow> x | None \<Rightarrow> emptyCounts) [1])]"
      "OpAdjust raise_two" v _ "[]" 3]
  by (simp add: prepared_both_def Let_def)

theorem cascade_writers_serial_witness:
  "\<exists>w. (cascade_step 3)\<^sup>*\<^sup>* \<lparr>cw_value = Some emptyCounts, cw_pending = [], cw_log = []\<rparr> w \<and> cw_log w = [OpAdjust raise_two] \<and>
     cw_value w = Some (adjusted_counts emptyCounts raise_two)"
proof -
  have "adjustment_move emptyCounts raise_two 3 = Inr (adjusted_counts emptyCounts raise_two)" by code_simp
  then have run: "(cascade_step 3)\<^sup>*\<^sup>* \<lparr>cw_value = Some emptyCounts, cw_pending = [], cw_log = []\<rparr> (prepared_both (Some emptyCounts))"
    by (intro run_to_prepared) simp
  note run2 = rtranclp.rtrancl_into_rtrancl [OF run adjustment_lands]
  from cascade_writers_serial [OF run2] have "cw_value \<lparr>cw_value = Some (adjusted_counts (case Some emptyCounts of Some x \<Rightarrow> x | None \<Rightarrow> emptyCounts) raise_two),
     cw_pending = [(OpCharge [1], Some emptyCounts, charged_counts (case Some emptyCounts of Some x \<Rightarrow> x | None \<Rightarrow> emptyCounts) [1])],
     cw_log = [OpAdjust raise_two]\<rparr> = Some (replayed [OpAdjust raise_two] emptyCounts)" by simp
  with run2 show ?thesis by (auto simp: replayed_def intro!: exI)
qed

text \<open>
  Before the counters exist the guarantee fails: a charge that was prepared while
  the reference was missing carries no old value, so it also lands on the counters that an
  operator's adjustment has created meanwhile and erases the raised limit and its marker.
\<close>

theorem cascade_raise_lost:
  "\<exists>w. (cascade_step 3)\<^sup>*\<^sup>* \<lparr>cw_value = None, cw_pending = [], cw_log = []\<rparr> w \<and>
     cw_log w = [OpAdjust raise_two, OpCharge [1]] \<and>
     limit_of (current_counts w) ''2'' = None \<and> marker_of (current_counts w) ''a1'' = None"
proof -
  have "adjustment_move emptyCounts raise_two 3 = Inr (adjusted_counts emptyCounts raise_two)" by code_simp
  then have run: "(cascade_step 3)\<^sup>*\<^sup>* \<lparr>cw_value = None, cw_pending = [], cw_log = []\<rparr> (prepared_both None)"
    by (intro run_to_prepared) simp
  let ?v = "\<lparr>cw_value = Some (adjusted_counts emptyCounts raise_two),
     cw_pending = [(OpCharge [1], None, charged_counts emptyCounts [1])], cw_log = [OpAdjust raise_two]\<rparr>"
  let ?w = "\<lparr>cw_value = Some (charged_counts emptyCounts [1]), cw_pending = [], cw_log = [OpAdjust raise_two, OpCharge [1]]\<rparr>"
  have "cascade_step 3 ?v ?w"
    using write_landed [of ?v "[]" "OpCharge [1]" None _ "[]" 3] by simp
  with rtranclp.rtrancl_into_rtrancl [OF run adjustment_lands] have "(cascade_step 3)\<^sup>*\<^sup>* \<lparr>cw_value = None, cw_pending = [], cw_log = []\<rparr> ?w"
    by (auto intro: rtranclp.rtrancl_into_rtrancl)
  moreover have "limit_of (current_counts ?w) ''2'' = None \<and> marker_of (current_counts ?w) ''a1'' = None"
    by (simp add: current_counts_def limit_of_def marker_of_def emptyCounts_def)
  ultimately show ?thesis by (intro exI [of _ ?w]) simp
qed

section \<open>One adjustment against git\<close>

text \<open>What the reference names in a state of git.\<close>

definition counts_at :: "('g \<Rightarrow> string \<rightharpoonup> string) \<Rightarrow> ('g \<Rightarrow> string \<rightharpoonup> jval) \<Rightarrow> string \<Rightarrow> 'g \<Rightarrow> cascade_counts option" where
  "counts_at refs objects slug g =
     (case refs g (cascadesRefFor slug) of
        None \<Rightarrow> Some emptyCounts
      | Some b \<Rightarrow> Option.bind (objects g b) parseCounts)"

lemma read_counts:
  assumes "object_store git refs objects others" and "readCascadeCounts git slug g = (g', CountsRead c blob)"
  shows "(\<forall>b. blob = Some b \<longrightarrow> (\<exists>v. objects g' b = Some v \<and> parseCounts v = Some c) \<and> b \<noteq> zero_oid \<and> b \<noteq> []) \<and>
    (blob = None \<longrightarrow> c = emptyCounts)"
proof -
  let ?r = "cascadesRefFor slug"
  obtain g1 a where r: "git g [''rev-parse'', ''-q'', ''--verify'', ?r] NoInput = (g1, a)" by fastforce
  obtain h1 where h1: "\<forall>x. a = Some x \<longrightarrow> ga_exitCode x = 0 \<longrightarrow> refs h1 ?r = Some (js_trim (ga_stdout x))"
    using rev_parse_law [OF assms(1) r] by blast
  show ?thesis
  proof (cases blob)
    case None
    with assms(2) r show ?thesis
      by (auto simp: readCascadeCounts_def Let_def split: option.splits if_splits prod.splits)
  next
    case (Some b)
    with assms(2) r obtain x y v g2 where x: "a = Some x" "ga_exitCode x = 0" "parseCommitSha (js_trim (ga_stdout x)) = Some b"
      and y: "git g1 [''cat-file'', ''blob'', b] NoInput = (g2, Some y)" "ga_exitCode y = 0" "ga_json y = Some v"
        "parseCounts v = Some c" "g' = g2"
      by (auto simp: readCascadeCounts_def Let_def answer_ok_def bind_eq_Some_conv split: option.splits if_splits prod.splits)
    from cat_file_law [OF assms(1) y(1)] y have "objects g' b = Some v" by (auto simp: map_le_def dom_def)
    moreover have "b \<noteq> zero_oid" using h1 x no_zero [OF assms(1), of h1 ?r] by (auto dest: commit_sha_trim)
    moreover have "b \<noteq> []" using x(3) by (auto simp: parseCommitSha_def split: if_splits)
    ultimately show ?thesis using y Some by simp
  qed
qed

text \<open>
  An operator adjustment that reports success against a git that other
  processes move at any moment either found its own marker already on the counters it read, or
  replaced the value the reference named at that very moment by the same counters with this adjustment
  applied, having checked there the consumption and the limit it was authorized for.
\<close>

theorem adjustment_writes_what_it_read:
  assumes "object_store git refs objects others" and "applyCascadeAdjustment git slug a limit g = (g', LimitUpdated c)"
  shows "(\<exists>b v m. objects g' b = Some v \<and> parseCounts v = Some c \<and> marker_of c (ca_id a) = Some m \<and> sameAdjustment m a) \<or>
    (\<exists>h b before. counts_at refs objects slug h = Some before \<and> adjustment_move before a limit = Inr c \<and>
       refs g' = (refs h)(cascadesRefFor slug \<mapsto> b) \<and> objects g' b = Some (counts_json c))"
proof -
  let ?r = "cascadesRefFor slug"
  obtain g1 before blob where rd: "readCascadeCounts git slug g = (g1, CountsRead before blob)"
    using assms(2) by (auto simp: applyCascadeAdjustment_def split: prod.splits cascade_read.splits)
  note read = read_counts [OF assms(1) rd]
  show ?thesis
  proof (cases "adjustment_move before a limit")
    case (Inl res)
    with assms(2) rd have e: "g' = g1" "res = LimitUpdated c" by (auto simp: applyCascadeAdjustment_def)
    with Inl obtain m where "c = before" "marker_of c (ca_id a) = Some m" "sameAdjustment m a"
      by (auto simp: adjustment_move_def Let_def split: option.splits if_splits)
    moreover from this read have "blob \<noteq> None" by (auto simp: emptyCounts_def marker_of_def)
    ultimately show ?thesis using read e by blast
  next
    case (Inr nx)
    with assms(2) rd have sw: "swap_counts git slug nx blob g1 = (g', LimitUpdated c)" by (simp add: applyCascadeAdjustment_def)
    then obtain g2 x b y where
      w: "git g1 [''hash-object'', ''-w'', ''--stdin''] (JsonText (counts_json nx)) = (g2, Some x)" "ga_exitCode x = 0"
        "parseCommitSha (js_trim (ga_stdout x)) = Some b"
      and u: "git g2 [''update-ref'', ?r, b, case blob of Some b \<Rightarrow> b | None \<Rightarrow> zero_oid] NoInput = (g', Some y)" "ga_exitCode y = 0"
      and c: "c = nx"
      by (auto simp: swap_counts_def Let_def answer_ok_def split: option.splits if_splits prod.splits)
    from hash_object_law [OF assms(1) w(1)] w obtain h1 where h1: "others\<^sup>*\<^sup>* g1 h1" "objects h1 \<subseteq>\<^sub>m objects g2"
      "objects g2 b = Some (counts_json nx)" by (auto dest: commit_sha_trim)
    have "b \<noteq> zero_oid" using h1(3) no_zero_object [OF assms(1)] by auto
    from update_ref_law [OF assms(1) this u(1)] u(2) obtain h where h: "others\<^sup>*\<^sup>* g2 h" "objects h \<subseteq>\<^sub>m objects g'"
      "refs g' = (refs h)(?r \<mapsto> b)"
      "refs h ?r = old_value (case blob of Some b \<Rightarrow> b | None \<Rightarrow> zero_oid)" by blast
    have up: "objects g1 \<subseteq>\<^sub>m objects h" "objects g2 \<subseteq>\<^sub>m objects g'"
      using others_grow [OF assms(1)] h1(1,2) h(1,2) by (meson map_le_trans)+
    then have "objects g' b = Some (counts_json nx)" using h1(3) by (auto simp: map_le_def dom_def)
    moreover have "counts_at refs objects slug h = Some before"
      using read h(4) up(1) by (cases blob) (auto simp: counts_at_def old_value_def map_le_def dom_def)
    ultimately show ?thesis using h(3) Inr c by blast
  qed
qed

theorem adjustment_writes_what_it_read_witness:
  "\<exists>g' b v. applyCascadeAdjustment tiny_run ''demo'' raise_two 3 \<lparr>tg_refs = [], tg_objects = []\<rparr> =
       (g', LimitUpdated (adjusted_counts emptyCounts raise_two)) \<and>
     tiny_object g' b = Some v \<and> parseCounts v = Some (adjusted_counts emptyCounts raise_two)"
proof -
  let ?c = "adjusted_counts emptyCounts raise_two"
  let ?g = "\<lparr>tg_refs = [(cascadesRefFor ''demo'', tiny_id 0)], tg_objects = [counts_json ?c]\<rparr>"
  have r: "applyCascadeAdjustment tiny_run ''demo'' raise_two 3 \<lparr>tg_refs = [], tg_objects = []\<rparr> = (?g, LimitUpdated ?c)"
    by code_simp
  have "parseCounts (counts_json ?c) = Some ?c" by code_simp
  with adjustment_writes_what_it_read [OF tiny_store r] r show ?thesis by blast
qed

end
