(* ===== verification/RouteTypes.thy ===== *)
theory RouteTypes
  imports GitPort "HOL-Library.Monad_Syntax" "HOL-Library.AList"
begin

text \<open>
  The durable records of routed repairs (\<^verbatim>\<open>engine/routing/route-types.ts\<close>): the states of hosts and rounds with
  their legal transitions, the parser of a route record with its lifecycle check, and the revalidation
  queue. A field of a parsed value is \<open>None\<close> when it is absent; \<open>is_date s\<close> is
  \<^verbatim>\<open>!Number.isNaN(Date.parse(s))\<close>. Objects keyed by a child are association lists over its number.
\<close>

section \<open>States and transitions\<close>

datatype host_state =
    HPending | HAdmitted | HRepairing | HRerouteMoved | HBuilt | HRestacked | HDone | HRerouted | HAbandoning | HAbandoned

datatype round_phase = RPrepared | ROpen | RClosed

datatype route_kind = KAudit | KRevalidate | KOperator

definition MAX_ROUTE_ROUNDS :: int where
  "MAX_ROUTE_ROUNDS = 999"

definition isLegalHostTransition :: "host_state \<Rightarrow> host_state \<Rightarrow> bool" where
  "isLegalHostTransition src dst =
     (case src of
        HPending \<Rightarrow> dst = HAdmitted
      | HAdmitted \<Rightarrow> dst = HRepairing \<or> dst = HAbandoning
      | HRepairing \<Rightarrow> dst = HRerouteMoved \<or> dst = HBuilt \<or> dst = HDone \<or> dst = HAbandoning
      | HRerouteMoved \<Rightarrow> dst = HRerouted
      | HBuilt \<Rightarrow> dst = HRestacked
      | HAbandoning \<Rightarrow> dst = HAbandoned
      | HRestacked \<Rightarrow> False
      | HDone \<Rightarrow> False
      | HRerouted \<Rightarrow> False
      | HAbandoned \<Rightarrow> False)"

definition isLegalRoundPhaseTransition :: "round_phase \<Rightarrow> round_phase \<Rightarrow> bool" where
  "isLegalRoundPhaseTransition src dst = ((src = RPrepared \<and> dst = ROpen) \<or> (src = ROpen \<and> dst = RClosed))"

text \<open>\<open>setting\<close> is \<^verbatim>\<open>stacked_prs.route_whole_feature_fixes\<close>.\<close>

definition routingSettingOn :: "bool option \<Rightarrow> bool" where
  "routingSettingOn setting = (setting \<noteq> Some False)"

definition routingEligible :: "string \<Rightarrow> bool option \<Rightarrow> bool" where
  "routingEligible cursorKind setting =
     (routingSettingOn setting \<and> (cursorKind = ''active'' \<or> cursorKind = ''repair-pending''))"

section \<open>Data\<close>

record routed_obligation =
  ro_branch :: string
  ro_head :: string
  ro_tree :: string

record routed_item =
  ri_findingId :: string
  ri_kind :: route_kind
  ri_owner :: int
  ri_host :: int
  ri_reason :: string
  ri_fallback :: "int list"
  ri_rationale :: "string option"
  ri_prerequisitePaths :: "string list option"
  ri_existingTask :: bool
  ri_restage :: "bool option"
  ri_taskIds :: "string list"
  ri_obligation :: "routed_obligation option"

record revalidation_pin =
  rp_queueBlob :: string
  rp_generation :: int
  rp_closureSha :: string

record host_entry =
  he_host :: int
  he_pinnedBase :: string
  he_tree :: string
  he_revalidation :: "revalidation_pin option"

record host_allocation =
  ha_remTaskIds :: "string list"
  ha_blockBodies :: "string list"
  ha_retryHint :: "string option"

record round_receipt =
  rr_laps :: "(string \<times> int) list"
  rr_growth :: int
  rr_taskless :: "(string \<times> int) list"
  rr_echo :: "(string \<times> int) list"
  rr_settlementId :: "string option"
  rr_acks :: "(int \<times> bool) list"

record route_fallback =
  rf_from :: int
  rf_to :: int
  rf_evidence :: "string list"
  rf_branch :: string
  rf_head :: string

record reroute_phase =
  rt_sourceBranch :: string
  rt_rejectedTip :: string
  rt_resetTip :: string
  rt_destination :: int

record outbox_entry =
  ob_eventId :: string
  ob_occurredAt :: string
  ob_event :: jval

record operator_section =
  os_origin :: string
  os_reason :: string
  os_operator :: string
  os_entryStep :: string
  os_park :: "string option"
  os_carried :: "(int \<times> string) list"
  os_otherTips :: "(string \<times> string) list"
  os_statuses :: "(string \<times> string) list"
  os_verdicts :: "(string \<times> string) list"
  os_declaration :: "(string \<times> string) option"
  os_abandon :: "(string \<times> string \<times> string) option"

record pending_finding =
  pf_finding :: string
  pf_governingClause :: string
  pf_summary :: string

record route_record =
  rd_roundId :: string
  rd_kind :: route_kind
  rd_phase :: round_phase
  rd_items :: "routed_item list"
  rd_allocation :: "(int \<times> host_allocation) list"
  rd_hosts :: "(int \<times> host_state) list"
  rd_hostReasons :: "(int \<times> string) list option"
  rd_currentHostIndex :: nat
  rd_receipt :: round_receipt
  rd_operator :: "operator_section option"
  rd_sealedAuthored :: "int option"
  rd_pendingAsBuiltFindings :: "pending_finding list option"
  rd_entry :: "host_entry option"
  rd_fallback :: "route_fallback list option"
  rd_reroute :: "reroute_phase option"
  rd_leafReturn :: "(string \<times> string) option"
  rd_outbox :: "outbox_entry list"

definition emptyUnsettledReceipt :: round_receipt where
  "emptyUnsettledReceipt =
     \<lparr>rr_laps = [], rr_growth = 0, rr_taskless = [], rr_echo = [], rr_settlementId = None, rr_acks = []\<rparr>"

definition WHOLE_FEATURE_BUDGET_GATES :: "string list" where
  "WHOLE_FEATURE_BUDGET_GATES = [''prd_audit'', ''architecture_review_as_built'']"

section \<open>Field parsers\<close>

fun record_entries :: "jval option \<Rightarrow> (string \<times> jval) list option" where
  "record_entries (Some (JObj kvs)) = Some kvs"
| "record_entries _ = None"

fun array_items :: "jval option \<Rightarrow> jval list option" where
  "array_items (Some (JArr vs)) = Some vs"
| "array_items _ = None"

fun text_field :: "jval option \<Rightarrow> string option" where
  "text_field (Some (JStr s)) = Some s"
| "text_field _ = None"

fun int_field :: "jval option \<Rightarrow> int option" where
  "int_field (Some (JNum n)) = Some n"
| "int_field _ = None"

definition ensure :: "bool \<Rightarrow> unit option" where
  "ensure b = (if b then Some () else None)"

definition nonEmptyString :: "jval option \<Rightarrow> string option" where
  "nonEmptyString v = do { s \<leftarrow> text_field v; _ \<leftarrow> ensure (s \<noteq> []); Some s }"

definition parseChild :: "jval option \<Rightarrow> int option" where
  "parseChild v = do { n \<leftarrow> int_field v; parseChildId (RawInt n) }"

definition sha_field :: "jval option \<Rightarrow> string option" where
  "sha_field v = do { s \<leftarrow> text_field v; parseCommitSha s }"

definition nonNegativeInteger :: "jval option \<Rightarrow> int option" where
  "nonNegativeInteger v = do { n \<leftarrow> int_field v; _ \<leftarrow> ensure (0 \<le> n \<and> n \<le> 9007199254740991); Some n }"

text \<open>\<^verbatim>\<open>value === undefined ? undefined : parse(value)\<close>, where a value that does not parse rejects the record.\<close>

definition optional :: "(jval option \<Rightarrow> 'a option) \<Rightarrow> jval option \<Rightarrow> 'a option option" where
  "optional parse v = (case v of None \<Rightarrow> Some None | Some x \<Rightarrow> map_option Some (parse (Some x)))"

definition parse_all :: "(jval option \<Rightarrow> 'a option) \<Rightarrow> jval option \<Rightarrow> 'a list option" where
  "parse_all parse v = do { vs \<leftarrow> array_items v; those (map (\<lambda>x. parse (Some x)) vs) }"

definition parseStringArray :: "(string \<Rightarrow> bool) \<Rightarrow> jval option \<Rightarrow> string list option" where
  "parseStringArray predicate v =
     parse_all (\<lambda>x. do { s \<leftarrow> nonEmptyString x; _ \<leftarrow> ensure (predicate s); Some s }) v"

definition parseNonEmptyStringArray :: "jval option \<Rightarrow> string list option" where
  "parseNonEmptyStringArray v = do { xs \<leftarrow> parseStringArray (\<lambda>_. True) v; _ \<leftarrow> ensure (xs \<noteq> []); Some xs }"

definition named_value :: "(string \<times> 'a) list \<Rightarrow> string \<Rightarrow> 'a option" where
  "named_value table s = map_of table s"

definition host_state_names :: "(string \<times> host_state) list" where
  "host_state_names =
     [(''pending'', HPending), (''admitted'', HAdmitted), (''repairing'', HRepairing), (''reroute-moved'', HRerouteMoved),
      (''built'', HBuilt), (''restacked'', HRestacked), (''done'', HDone), (''rerouted'', HRerouted),
      (''abandoning'', HAbandoning), (''abandoned'', HAbandoned)]"

definition parseHostState :: "jval option \<Rightarrow> host_state option" where
  "parseHostState v = do { s \<leftarrow> text_field v; named_value host_state_names s }"

definition parseRouteKind :: "jval option \<Rightarrow> route_kind option" where
  "parseRouteKind v = do { s \<leftarrow> text_field v;
     named_value [(''audit'', KAudit), (''revalidate'', KRevalidate), (''operator'', KOperator)] s }"

definition parseRoundPhase :: "jval option \<Rightarrow> round_phase option" where
  "parseRoundPhase v = do { s \<leftarrow> text_field v;
     named_value [(''prepared'', RPrepared), (''open'', ROpen), (''closed'', RClosed)] s }"

definition stepStatuses :: "string list" where
  "stepStatuses = [''pending'', ''in_progress'', ''done'', ''failed'', ''refused'', ''skipped'', ''stale'']"

text \<open>\<^verbatim>\<open>/^r([1-9]\d*)$/\<close> and the bound.\<close>

definition parseRoundId :: "string \<Rightarrow> string option" where
  "parseRoundId value =
     (case value of
        c # ds \<Rightarrow>
          if c = CHR ''r'' \<and> ds \<noteq> [] \<and> list_all is_digit ds \<and> hd ds \<noteq> CHR ''0'' \<and> digits_value ds \<le> MAX_ROUTE_ROUNDS
          then Some value else None
      | [] \<Rightarrow> None)"

definition round_id_field :: "jval option \<Rightarrow> string option" where
  "round_id_field v = do { s \<leftarrow> text_field v; parseRoundId s }"

text \<open>\<^verbatim>\<open>engine/git-branch-name.ts\<close>.\<close>

definition has_substring :: "string \<Rightarrow> string \<Rightarrow> bool" where
  "has_substring s sub = list_ex (\<lambda>t. starts_with t sub) (tails s)"

definition forbidden_in_branch :: "char \<Rightarrow> bool" where
  "forbidden_in_branch c =
     ((of_char c :: nat) \<le> 32 \<or> (of_char c :: nat) = 127 \<or> c \<in> {CHR ''~'', CHR ''^'', CHR '':'', CHR ''?'', CHR ''*'', CHR ''['', CHR 0x5C})"

definition isValidGitBranchName :: "string \<Rightarrow> bool" where
  "isValidGitBranchName value =
     (value \<noteq> [] \<and> value \<noteq> ''@'' \<and> \<not> starts_with value ''-'' \<and> \<not> starts_with value ''/'' \<and> \<not> ends_with value ''/'' \<and>
      \<not> ends_with value ''.'' \<and> \<not> has_substring value ''..'' \<and> \<not> has_substring value [CHR ''@'', CHR 0x7B] \<and> \<not> has_substring value ''//'' \<and>
      \<not> list_ex forbidden_in_branch value \<and>
      list_all (\<lambda>component. component \<noteq> [] \<and> \<not> starts_with component ''.'' \<and> \<not> ends_with component ''.lock'')
        (split_on (CHR ''/'') value))"

definition branch_field :: "jval option \<Rightarrow> string option" where
  "branch_field v = do { s \<leftarrow> text_field v; _ \<leftarrow> ensure (isValidGitBranchName s); Some s }"

section \<open>Parsers of the parts\<close>

fun collect_entries :: "(string \<times> jval \<Rightarrow> ('k \<times> 'v) option) \<Rightarrow> (string \<times> jval) list \<Rightarrow> ('k \<times> 'v) list \<Rightarrow> ('k \<times> 'v) list option" where
  "collect_entries parse [] acc = Some acc"
| "collect_entries parse (kv # rest) acc =
     (case parse kv of None \<Rightarrow> None | Some (k, v) \<Rightarrow> collect_entries parse rest (AList.update k v acc))"

text \<open>The loops over \<^verbatim>\<open>Object.entries\<close> that fill an object of their own.\<close>

definition parse_entries :: "(string \<times> jval \<Rightarrow> ('k \<times> 'v) option) \<Rightarrow> jval option \<Rightarrow> ('k \<times> 'v) list option" where
  "parse_entries parse v = do { kvs \<leftarrow> record_entries v; collect_entries parse kvs [] }"

definition parseReceiptCharges :: "string list option \<Rightarrow> jval option \<Rightarrow> (string \<times> int) list option" where
  "parseReceiptCharges allowed v =
     parse_entries (\<lambda>(gate, count). do {
         n \<leftarrow> nonNegativeInteger (Some count);
         _ \<leftarrow> ensure (gate \<noteq> [] \<and> (case allowed of None \<Rightarrow> True | Some gs \<Rightarrow> gate \<in> set gs));
         Some (gate, n) }) v"

definition parse_ack :: "string \<times> jval \<Rightarrow> (int \<times> bool) option" where
  "parse_ack = (\<lambda>(rawChild, acknowledged). do {
     child \<leftarrow> parseChildId (RawStr rawChild);
     _ \<leftarrow> ensure (acknowledged = JBool True);
     Some (child, True) })"

definition receipt_fields :: "string list" where
  "receipt_fields = [''laps'', ''growth'', ''taskless'', ''echo'', ''settlementId'', ''acks'']"

definition parseReceipt :: "jval option \<Rightarrow> round_receipt option" where
  "parseReceipt v = do {
     kvs \<leftarrow> record_entries v;
     if kvs = [] then Some emptyUnsettledReceipt
     else do {
       let value = JObj kvs;
       laps \<leftarrow> parseReceiptCharges (Some WHOLE_FEATURE_BUDGET_GATES) (jget value ''laps'');
       growth \<leftarrow> nonNegativeInteger (jget value ''growth'');
       taskless \<leftarrow> parseReceiptCharges (Some [''manual_test'']) (jget value ''taskless'');
       echo \<leftarrow> parseReceiptCharges None (jget value ''echo'');
       acks \<leftarrow> parse_entries parse_ack (jget value ''acks'');
       settlementId \<leftarrow> optional nonEmptyString (jget value ''settlementId'');
       _ \<leftarrow> ensure (settlementId \<noteq> None \<or> acks = []);
       _ \<leftarrow> ensure (list_all (\<lambda>(k, _). k \<in> set receipt_fields) kvs);
       Some \<lparr>rr_laps = laps, rr_growth = growth, rr_taskless = taskless, rr_echo = echo,
             rr_settlementId = settlementId, rr_acks = acks\<rparr> } }"

definition parse_pin :: "jval option \<Rightarrow> revalidation_pin option" where
  "parse_pin v = do {
     kvs \<leftarrow> record_entries v;
     let value = JObj kvs;
     queueBlob \<leftarrow> sha_field (jget value ''queueBlob'');
     generation \<leftarrow> nonNegativeInteger (jget value ''generation'');
     closureSha \<leftarrow> sha_field (jget value ''closureSha'');
     Some \<lparr>rp_queueBlob = queueBlob, rp_generation = generation, rp_closureSha = closureSha\<rparr> }"

definition parseHostEntry :: "jval option \<Rightarrow> host_entry option" where
  "parseHostEntry v = do {
     kvs \<leftarrow> record_entries v;
     let value = JObj kvs;
     host \<leftarrow> parseChild (jget value ''host'');
     pinnedBase \<leftarrow> sha_field (jget value ''pinnedBase'');
     tree \<leftarrow> sha_field (jget value ''tree'');
     revalidation \<leftarrow> optional parse_pin (jget value ''revalidation'');
     Some \<lparr>he_host = host, he_pinnedBase = pinnedBase, he_tree = tree, he_revalidation = revalidation\<rparr> }"

definition parseRoutedObligation :: "jval option \<Rightarrow> routed_obligation option" where
  "parseRoutedObligation v = do {
     kvs \<leftarrow> record_entries v;
     let value = JObj kvs;
     branch \<leftarrow> branch_field (jget value ''branch'');
     head \<leftarrow> sha_field (jget value ''head'');
     tree \<leftarrow> sha_field (jget value ''tree'');
     Some \<lparr>ro_branch = branch, ro_head = head, ro_tree = tree\<rparr> }"

definition parseRouteFallback :: "jval option \<Rightarrow> route_fallback option" where
  "parseRouteFallback v = do {
     kvs \<leftarrow> record_entries v;
     let value = JObj kvs;
     branch \<leftarrow> branch_field (jget value ''branch'');
     src \<leftarrow> parseChild (jget value ''from'');
     dst \<leftarrow> parseChild (jget value ''to'');
     evidence \<leftarrow> parseStringArray (\<lambda>_. True) (jget value ''evidence'');
     head \<leftarrow> sha_field (jget value ''head'');
     Some \<lparr>rf_from = src, rf_to = dst, rf_evidence = evidence, rf_branch = branch, rf_head = head\<rparr> }"

definition parseReroutePhase :: "jval option \<Rightarrow> reroute_phase option" where
  "parseReroutePhase v = do {
     kvs \<leftarrow> record_entries v;
     let value = JObj kvs;
     sourceBranch \<leftarrow> branch_field (jget value ''sourceBranch'');
     rejectedTip \<leftarrow> sha_field (jget value ''rejectedTip'');
     resetTip \<leftarrow> sha_field (jget value ''resetTip'');
     destination \<leftarrow> parseChild (jget value ''destination'');
     Some \<lparr>rt_sourceBranch = sourceBranch, rt_rejectedTip = rejectedTip, rt_resetTip = resetTip, rt_destination = destination\<rparr> }"

definition parseLeafReturn :: "jval option \<Rightarrow> (string \<times> string) option" where
  "parseLeafReturn v = do {
     kvs \<leftarrow> record_entries v;
     let value = JObj kvs;
     branch \<leftarrow> branch_field (jget value ''branch'');
     head \<leftarrow> sha_field (jget value ''head'');
     Some (branch, head) }"

definition parse_park :: "jval option \<Rightarrow> string option" where
  "parse_park v = do { kvs \<leftarrow> record_entries v; nonEmptyString (jget (JObj kvs) ''token'') }"

definition parse_carried :: "jval option \<Rightarrow> (int \<times> string) option" where
  "parse_carried v = do {
     kvs \<leftarrow> record_entries v;
     child \<leftarrow> parseChild (jget (JObj kvs) ''child'');
     tip \<leftarrow> sha_field (jget (JObj kvs) ''tip'');
     Some (child, tip) }"

definition parse_declaration :: "(string \<Rightarrow> bool) \<Rightarrow> jval option \<Rightarrow> (string \<times> string) option" where
  "parse_declaration is_date v = do {
     kvs \<leftarrow> record_entries v;
     tip \<leftarrow> sha_field (jget (JObj kvs) ''tip'');
     declaredAt \<leftarrow> nonEmptyString (jget (JObj kvs) ''at'');
     _ \<leftarrow> ensure (is_date declaredAt);
     Some (tip, declaredAt) }"

definition parse_abandon :: "jval option \<Rightarrow> (string \<times> string \<times> string) option" where
  "parse_abandon v = do {
     kvs \<leftarrow> record_entries v;
     rejectedTip \<leftarrow> sha_field (jget (JObj kvs) ''rejectedTip'');
     resetTip \<leftarrow> sha_field (jget (JObj kvs) ''resetTip'');
     stage \<leftarrow> text_field (jget (JObj kvs) ''stage'');
     _ \<leftarrow> ensure (stage = ''moved'' \<or> stage = ''synced'');
     Some (rejectedTip, resetTip, stage) }"

definition parse_status :: "jval option \<Rightarrow> string \<Rightarrow> (string \<times> string) option" where
  "parse_status statuses gate = do {
     kvs \<leftarrow> record_entries statuses;
     status \<leftarrow> text_field (jget (JObj kvs) gate);
     _ \<leftarrow> ensure (status \<in> set stepStatuses);
     Some (gate, status) }"

definition parse_tip :: "string \<times> jval \<Rightarrow> (string \<times> string) option" where
  "parse_tip = (\<lambda>(branch, rawTip). do {
     tip \<leftarrow> sha_field (Some rawTip);
     _ \<leftarrow> ensure (isValidGitBranchName branch);
     Some (branch, tip) })"

definition parse_verdict_bytes :: "string \<times> jval \<Rightarrow> (string \<times> string) option" where
  "parse_verdict_bytes = (\<lambda>(file, bytes). do {
     _ \<leftarrow> ensure (file \<noteq> []);
     s \<leftarrow> text_field (Some bytes);
     Some (file, s) })"

definition parseOperatorSection :: "(string \<Rightarrow> bool) \<Rightarrow> jval option \<Rightarrow> operator_section option" where
  "parseOperatorSection is_date v = do {
     kvs \<leftarrow> record_entries v;
     let value = JObj kvs;
     origin \<leftarrow> text_field (jget value ''origin'');
     _ \<leftarrow> ensure (origin = ''land'' \<or> origin = ''rewind'');
     reason \<leftarrow> nonEmptyString (jget value ''reason'');
     operator \<leftarrow> nonEmptyString (jget value ''operator'');
     entryStep \<leftarrow> text_field (jget value ''entryStep'');
     _ \<leftarrow> ensure (entryStep \<in> set CHILD_REGION_STEPS);
     park \<leftarrow> optional parse_park (jget value ''park'');
     carried \<leftarrow> parse_all parse_carried (jget value ''carried'');
     _ \<leftarrow> ensure (distinct (map fst carried));
     otherTips \<leftarrow> parse_entries parse_tip (jget value ''otherTips'');
     _ \<leftarrow> ensure (otherTips \<noteq> []);
     prior \<leftarrow> record_entries (jget value ''priorRegion'');
     statuses \<leftarrow> those (map (parse_status (jget (JObj prior) ''statuses'')) CHILD_REGION_STEPS);
     raw \<leftarrow> record_entries (jget (JObj prior) ''statuses'');
     _ \<leftarrow> ensure (list_all (\<lambda>(k, _). k \<in> set CHILD_REGION_STEPS) raw);
     verdicts \<leftarrow> parse_entries parse_verdict_bytes (jget (JObj prior) ''verdicts'');
     declaration \<leftarrow> optional (parse_declaration is_date) (jget value ''declaration'');
     abandon \<leftarrow> optional parse_abandon (jget value ''abandon'');
     Some \<lparr>os_origin = origin, os_reason = reason, os_operator = operator, os_entryStep = entryStep,
           os_park = park, os_carried = carried, os_otherTips = otherTips, os_statuses = statuses,
           os_verdicts = verdicts, os_declaration = declaration, os_abandon = abandon\<rparr> }"

definition parseOutboxEntry :: "(string \<Rightarrow> bool) \<Rightarrow> jval option \<Rightarrow> outbox_entry option" where
  "parseOutboxEntry is_date v = do {
     kvs \<leftarrow> record_entries v;
     let value = JObj kvs;
     eventId \<leftarrow> nonEmptyString (jget value ''eventId'');
     occurredAt \<leftarrow> nonEmptyString (jget value ''occurredAt'');
     _ \<leftarrow> ensure (is_date occurredAt);
     event \<leftarrow> record_entries (jget value ''event'');
     _ \<leftarrow> nonEmptyString (jget (JObj event) ''type'');
     _ \<leftarrow> ensure (jget (JObj event) ''eventId'' = Some (JStr eventId) \<and> jget (JObj event) ''occurredAt'' = Some (JStr occurredAt));
     Some \<lparr>ob_eventId = eventId, ob_occurredAt = occurredAt, ob_event = JObj event\<rparr> }"

definition parseOutbox :: "(string \<Rightarrow> bool) \<Rightarrow> jval option \<Rightarrow> outbox_entry list option" where
  "parseOutbox is_date v = parse_all (parseOutboxEntry is_date) v"

definition parseRoutedItem :: "jval option \<Rightarrow> routed_item option" where
  "parseRoutedItem v = do {
     kvs \<leftarrow> record_entries v;
     let value = JObj kvs;
     findingId \<leftarrow> nonEmptyString (jget value ''findingId'');
     kind \<leftarrow> parseRouteKind (jget value ''kind'');
     owner \<leftarrow> parseChild (jget value ''owner'');
     host \<leftarrow> parseChild (jget value ''host'');
     reason \<leftarrow> nonEmptyString (jget value ''reason'');
     fallback \<leftarrow> parse_all parseChild (jget value ''fallback'');
     rationale \<leftarrow> optional text_field (jget value ''rationale'');
     prerequisitePaths \<leftarrow> optional (parseStringArray (\<lambda>_. True)) (jget value ''prerequisitePaths'');
     let base = \<lparr>ri_findingId = findingId, ri_kind = kind, ri_owner = owner, ri_host = host, ri_reason = reason,
       ri_fallback = fallback, ri_rationale = rationale, ri_prerequisitePaths = prerequisitePaths,
       ri_existingTask = False, ri_restage = None, ri_taskIds = [], ri_obligation = None\<rparr>;
     if jget value ''existingTask'' \<noteq> Some (JBool True) then do {
       _ \<leftarrow> ensure (list_all (\<lambda>k. jget value k = None) [''existingTask'', ''taskIds'', ''obligation'', ''restage'']);
       Some base }
     else do {
       _ \<leftarrow> ensure (jget value ''restage'' = None \<or> jget value ''restage'' = Some (JBool False));
       taskIds \<leftarrow> parseNonEmptyStringArray (jget value ''taskIds'');
       obligation \<leftarrow> optional parseRoutedObligation (jget value ''obligation'');
       Some (base\<lparr>ri_existingTask := True, ri_taskIds := taskIds,
         ri_restage := map_option (\<lambda>_. False) (jget value ''restage''), ri_obligation := obligation\<rparr>) } }"

definition parse_pending_finding :: "jval option \<Rightarrow> pending_finding option" where
  "parse_pending_finding v = do {
     kvs \<leftarrow> record_entries v;
     let value = JObj kvs;
     _ \<leftarrow> ensure (jget value ''gate'' = Some (JStr ''architecture_review_as_built'') \<and>
               jget value ''class'' = Some (JStr ''REMEDIABLE'') \<and> jget value ''outcome'' = Some (JStr ''remediated''));
     finding \<leftarrow> nonEmptyString (jget value ''finding'');
     governingClause \<leftarrow> nonEmptyString (jget value ''governingClause'');
     summary \<leftarrow> nonEmptyString (jget value ''summary'');
     Some \<lparr>pf_finding = finding, pf_governingClause = governingClause, pf_summary = summary\<rparr> }"

definition parse_host_allocation :: "string \<times> jval \<Rightarrow> (int \<times> host_allocation) option" where
  "parse_host_allocation = (\<lambda>(rawChild, raw). do {
     child \<leftarrow> parseChildId (RawStr rawChild);
     kvs \<leftarrow> record_entries (Some raw);
     let value = JObj kvs;
     remTaskIds \<leftarrow> parseStringArray (\<lambda>i. starts_with i ''rem-'') (jget value ''remTaskIds'');
     blockBodies \<leftarrow> parseStringArray (\<lambda>_. True) (jget value ''blockBodies'');
     _ \<leftarrow> ensure (length remTaskIds = length blockBodies);
     retryHint \<leftarrow> optional text_field (jget value ''retryHint'');
     Some (child, \<lparr>ha_remTaskIds = remTaskIds, ha_blockBodies = blockBodies, ha_retryHint = retryHint\<rparr>) })"

definition parse_host :: "string \<times> jval \<Rightarrow> (int \<times> host_state) option" where
  "parse_host = (\<lambda>(rawChild, rawState). do {
     child \<leftarrow> parseChildId (RawStr rawChild);
     state \<leftarrow> parseHostState (Some rawState);
     Some (child, state) })"

definition parse_host_reason :: "(int \<times> host_state) list \<Rightarrow> string \<times> jval \<Rightarrow> (int \<times> string) option" where
  "parse_host_reason hosts = (\<lambda>(rawChild, rawReason). do {
     child \<leftarrow> parseChildId (RawStr rawChild);
     _ \<leftarrow> ensure (map_of hosts child = Some HRepairing \<and> rawReason = JStr ''derived-already-complete'');
     Some (child, ''derived-already-complete'') })"

definition parseHosts :: "jval option \<Rightarrow> (int \<times> host_state) list option" where
  "parseHosts v = parse_entries parse_host v"

definition parseAllocation :: "jval option \<Rightarrow> (int \<times> host_allocation) list option" where
  "parseAllocation v = parse_entries parse_host_allocation v"

definition parseHostReasons :: "(int \<times> host_state) list \<Rightarrow> jval option \<Rightarrow> (int \<times> string) list option" where
  "parseHostReasons hosts v = parse_entries (parse_host_reason hosts) v"

definition isDerivedAlreadyCompleteHost :: "route_record \<Rightarrow> int \<Rightarrow> bool" where
  "isDerivedAlreadyCompleteHost r host =
     (map_of (rd_hosts r) host = Some HRepairing \<and>
      Option.bind (rd_hostReasons r) (\<lambda>rs. map_of rs host) = Some ''derived-already-complete'')"

section \<open>The lifecycle of a record\<close>

definition host_order :: "(int \<times> host_state) list \<Rightarrow> int list" where
  "host_order hosts = sort (map fst hosts)"

definition currentHostOf :: "(int \<times> host_state) list \<Rightarrow> nat \<Rightarrow> int option" where
  "currentHostOf hosts currentHostIndex =
     (if currentHostIndex < length hosts then parseChildId (RawInt (host_order hosts ! currentHostIndex)) else None)"

definition isActiveHostState :: "host_state \<Rightarrow> bool" where
  "isActiveHostState s = (s \<in> {HAdmitted, HRepairing, HAbandoning})"

definition isCompletedHostState :: "host_state \<Rightarrow> bool" where
  "isCompletedHostState s = (s \<in> {HBuilt, HRestacked, HDone, HAbandoned})"

definition isMovedHostState :: "host_state \<Rightarrow> bool" where
  "isMovedHostState s = (s \<in> {HRerouteMoved, HRerouted})"

definition movement_ok :: "(int \<times> host_state) list \<Rightarrow> route_fallback \<Rightarrow> bool" where
  "movement_ok hosts movement =
     ((case map_of hosts (rf_from movement) of Some s \<Rightarrow> isMovedHostState s | None \<Rightarrow> False) \<and>
      map_of hosts (rf_to movement) \<noteq> None \<and> rf_from movement < rf_to movement)"

definition hasConsistentFallback :: "(int \<times> host_state) list \<Rightarrow> route_fallback list \<Rightarrow> bool" where
  "hasConsistentFallback hosts fallback =
     (list_all (movement_ok hosts) fallback \<and>
      list_all (\<lambda>(child, s). isMovedHostState s \<longrightarrow> child \<in> set (map rf_from fallback)) hosts)"

definition closed_other :: "host_state \<Rightarrow> bool" where
  "closed_other s = (s \<in> {HRestacked, HDone, HRerouted, HAbandoned})"

definition hasConsistentRouteLifecycle ::
  "round_phase \<Rightarrow> (int \<times> host_state) list \<Rightarrow> nat \<Rightarrow> host_entry option \<Rightarrow> route_fallback list option \<Rightarrow> reroute_phase option \<Rightarrow> bool" where
  "hasConsistentRouteLifecycle phase hosts currentHostIndex entry fallback reroute =
     (case currentHostOf hosts currentHostIndex of
        None \<Rightarrow> False
      | Some currentHost \<Rightarrow>
          (case map_of hosts currentHost of
             None \<Rightarrow> False
           | Some current \<Rightarrow>
               (case entry of Some e \<Rightarrow> he_host e = currentHost | None \<Rightarrow> True) \<and>
               (case fallback of Some fb \<Rightarrow> hasConsistentFallback hosts fb | None \<Rightarrow> True) \<and>
               (let others = map snd (filter (\<lambda>(child, _). child \<noteq> currentHost) hosts);
                    movingHosts = length (filter (\<lambda>(_, s). s = HRerouteMoved) hosts)
                in case phase of
                     RPrepared \<Rightarrow> currentHostIndex = 0 \<and> list_all (\<lambda>(_, s). s = HPending) hosts \<and>
                       entry = None \<and> fallback = None \<and> reroute = None
                   | ROpen \<Rightarrow>
                       \<not> list_ex isActiveHostState others \<and>
                       (case reroute of
                          Some rr \<Rightarrow> movingHosts = 1 \<and> current = HPending \<and> entry = None \<and>
                            rt_destination rr = currentHost \<and> fallback \<noteq> None \<and> fallback \<noteq> Some []
                        | None \<Rightarrow> movingHosts = 0 \<and> (isActiveHostState current \<or> isCompletedHostState current))
                   | RClosed \<Rightarrow>
                       reroute = None \<and> current \<in> {HRestacked, HDone, HAbandoned} \<and> list_all closed_other others)))"

definition validatedReroute :: "(int \<times> host_state) list \<Rightarrow> route_fallback list option \<Rightarrow> reroute_phase option \<Rightarrow> (int \<times> int) option" where
  "validatedReroute hosts fallback reroute = do {
     rr \<leftarrow> reroute;
     fb \<leftarrow> fallback;
     _ \<leftarrow> ensure (fb \<noteq> []);
     let movement = last fb;
     _ \<leftarrow> ensure (rf_to movement = rt_destination rr);
     s \<leftarrow> map_of hosts (rf_from movement);
     _ \<leftarrow> ensure (s = HRerouteMoved \<or> s = HRerouted);
     Some (rf_from movement, rt_destination rr) }"

section \<open>The record\<close>

definition parseRouteRecord :: "(string \<Rightarrow> bool) \<Rightarrow> jval option \<Rightarrow> route_record option" where
  "parseRouteRecord is_date blob = do {
     kvs \<leftarrow> record_entries blob;
     let value = JObj kvs;
     roundId \<leftarrow> round_id_field (jget value ''roundId'');
     kind \<leftarrow> parseRouteKind (jget value ''kind'');
     phase \<leftarrow> parseRoundPhase (jget value ''phase'');
     allocation \<leftarrow> parseAllocation (jget value ''allocation'');
     hosts \<leftarrow> parseHosts (jget value ''hosts'');
     hostReasons \<leftarrow> optional (parseHostReasons hosts) (jget value ''hostReasons'');
     outbox \<leftarrow> parseOutbox is_date (jget value ''outbox'');
     receipt \<leftarrow> parseReceipt (jget value ''receipt'');
     sealedAuthored \<leftarrow> optional nonNegativeInteger (jget value ''sealedAuthored'');
     pendingAsBuiltFindings \<leftarrow> optional (parse_all parse_pending_finding) (jget value ''pendingAsBuiltFindings'');
     entry \<leftarrow> optional parseHostEntry (jget value ''entry'');
     fallback \<leftarrow> optional (parse_all parseRouteFallback) (jget value ''fallback'');
     reroute \<leftarrow> optional parseReroutePhase (jget value ''reroute'');
     leafReturn \<leftarrow> optional parseLeafReturn (jget value ''leafReturn'');
     operator \<leftarrow> optional (parseOperatorSection is_date) (jget value ''operator'');
     index \<leftarrow> int_field (jget value ''currentHostIndex'');
     _ \<leftarrow> ensure (0 \<le> index \<and> index < int (length hosts));
     _ \<leftarrow> ensure (rr_settlementId receipt = None \<or>
               (rr_acks receipt \<noteq> [] \<and> list_all (\<lambda>(ack, _). map_of hosts ack \<noteq> None) (rr_acks receipt)));
     _ \<leftarrow> ensure (if kind = KOperator then operator \<noteq> None \<and> length hosts = 1 else operator = None);
     _ \<leftarrow> ensure (hasConsistentRouteLifecycle phase hosts (nat index) entry fallback reroute);
     items \<leftarrow> parse_all parseRoutedItem (jget value ''items'');
     _ \<leftarrow> ensure (reroute = None \<or> validatedReroute hosts fallback reroute \<noteq> None);
     Some \<lparr>rd_roundId = roundId, rd_kind = kind, rd_phase = phase, rd_items = items, rd_allocation = allocation,
           rd_hosts = hosts, rd_hostReasons = hostReasons, rd_currentHostIndex = nat index, rd_receipt = receipt,
           rd_operator = operator, rd_sealedAuthored = sealedAuthored,
           rd_pendingAsBuiltFindings = pendingAsBuiltFindings, rd_entry = entry, rd_fallback = fallback,
           rd_reroute = reroute, rd_leafReturn = leafReturn, rd_outbox = outbox\<rparr> }"

record repair_marker =
  mk_host :: int
  mk_roundId :: string

definition parseRepairMarker :: "jval option \<Rightarrow> repair_marker option" where
  "parseRepairMarker blob = do {
     kvs \<leftarrow> record_entries blob;
     host \<leftarrow> parseChild (jget (JObj kvs) ''host'');
     roundId \<leftarrow> round_id_field (jget (JObj kvs) ''roundId'');
     Some \<lparr>mk_host = host, mk_roundId = roundId\<rparr> }"

section \<open>The revalidation queue\<close>

record queue_entry =
  qe_child :: int
  qe_position :: int
  qe_closureSha :: string
  qe_gates :: "string list"
  qe_oldParent :: string
  qe_newParent :: string

record queue_record =
  qr_generation :: int
  qr_entries :: "queue_entry list"
  qr_outbox :: "outbox_entry list"

definition parse_queue_entry :: "jval option \<Rightarrow> queue_entry option" where
  "parse_queue_entry v = do {
     kvs \<leftarrow> record_entries v;
     let value = JObj kvs;
     child \<leftarrow> parseChild (jget value ''child'');
     position \<leftarrow> parseChild (jget value ''position'');
     closureSha \<leftarrow> sha_field (jget value ''closureSha'');
     replay \<leftarrow> record_entries (jget value ''replay'');
     oldParent \<leftarrow> sha_field (jget (JObj replay) ''oldParent'');
     newParent \<leftarrow> sha_field (jget (JObj replay) ''newParent'');
     gates \<leftarrow> parse_all (\<lambda>g. do { s \<leftarrow> text_field g; _ \<leftarrow> ensure (s \<in> set CHILD_REGION_STEPS); Some s }) (jget value ''gates'');
     _ \<leftarrow> ensure (jget value ''state'' = Some (JStr ''queued''));
     Some \<lparr>qe_child = child, qe_position = position, qe_closureSha = closureSha, qe_gates = gates,
           qe_oldParent = oldParent, qe_newParent = newParent\<rparr> }"

text \<open>The loop over the parsed entries: no child twice, positions strictly ascending.\<close>

fun ordered_entries :: "int list \<Rightarrow> int option \<Rightarrow> queue_entry list \<Rightarrow> bool" where
  "ordered_entries seen previous [] = True"
| "ordered_entries seen previous (e # rest) =
     (if qe_child e \<in> set seen \<or> (case previous of Some p \<Rightarrow> qe_position e \<le> p | None \<Rightarrow> False) then False
      else ordered_entries (qe_child e # seen) (Some (qe_position e)) rest)"

definition parseRevalidationQueueRecord :: "(string \<Rightarrow> bool) \<Rightarrow> jval option \<Rightarrow> queue_record option" where
  "parseRevalidationQueueRecord is_date blob = do {
     kvs \<leftarrow> record_entries blob;
     let value = JObj kvs;
     generation \<leftarrow> int_field (jget value ''generation'');
     _ \<leftarrow> ensure (0 \<le> generation);
     entries \<leftarrow> parse_all parse_queue_entry (jget value ''entries'');
     outbox \<leftarrow> parseOutbox is_date (jget value ''outbox'');
     _ \<leftarrow> ensure (ordered_entries [] None entries);
     Some \<lparr>qr_generation = generation, qr_entries = entries, qr_outbox = outbox\<rparr> }"

end
