(* ===== verification/RestackJournal.thy ===== *)
theory RestackJournal
  imports RouteTypes
begin

text \<open>
  The durable journal of a restack (\<^verbatim>\<open>engine/restack/restack-journal.ts\<close>): a JSON object behind one
  reference per feature, created against its absence and changed by compare-and-set only.
\<close>

section \<open>Data\<close>

datatype restack_cause = FeatureRepair | BaseRefresh

datatype range_kind = RangeClosed | RangeActive | RangeLeafActive | RangeLeafUnentered

record child_range =
  cr_child :: int
  cr_oldParent :: string
  cr_oldTip :: string
  cr_kind :: range_kind

record journal_child =
  jc_child :: int
  jc_status :: child_status
  jc_rewrites :: "(string \<times> string) list option"

record journal_routed =
  jr_roundId :: string
  jr_host :: int
  jr_routeOld :: string
  jr_markerOld :: string
  jr_queueOld :: "string option"
  jr_routeNew :: "string option"
  jr_queueNew :: "string option"

text \<open>A resolution or decision: its child and three commits.\<close>

record journal_evidence =
  je_child :: int
  je_first :: string
  je_record :: string
  je_parent :: string

record restack_draft =
  rj_opId :: string
  rj_cause :: restack_cause
  rj_followOnCause :: "restack_cause option"
  rj_committer :: "string \<times> string \<times> string"
  rj_newDefault :: "string option"
  rj_comparisonCommits :: "string list option"
  rj_originatingChildren :: "int list option"
  rj_routed :: "journal_routed option"
  rj_invalidation :: "(int \<times> string list) list option"
  rj_queueTracked :: bool
  rj_queueOld :: "string option"
  rj_queueNew :: "string option"
  rj_queueInvalidation :: "queue_entry list option"
  rj_dirtyPaths :: "string list"
  rj_refs :: "(string \<times> string) list"
  rj_ranges :: "child_range list"
  rj_children :: "journal_child list"
  rj_consumedResolution :: "journal_evidence option"
  rj_deliveredDecision :: "journal_evidence option"

record journal_owner =
  jo_host :: string
  jo_pid :: int
  jo_processStartTime :: string

record restack_journal = restack_draft +
  rj_state :: journal_state
  rj_owner :: journal_owner

record stored_journal =
  sj_slug :: string
  sj_blob :: string
  sj_journal :: restack_journal

definition journalRefFor :: "string \<Rightarrow> string" where
  "journalRefFor slug = ''refs/conductor/'' @ slug @ ''/restack/journal''"

definition stagingRefFor :: "string \<Rightarrow> int \<Rightarrow> string" where
  "stagingRefFor slug child = ''refs/conductor/'' @ slug @ ''/restack/staging/c'' @ int_str child"

section \<open>Parsing\<close>

definition isStringArray :: "jval option \<Rightarrow> string list option" where
  "isStringArray v = parseStringArray (\<lambda>_. True) v"

definition cause_names :: "(string \<times> restack_cause) list" where
  "cause_names = [(''feature-repair'', FeatureRepair), (''base-refresh'', BaseRefresh)]"

definition journal_state_names :: "(string \<times> journal_state) list" where
  "journal_state_names =
     [(''planned'', JPlanned), (''ready'', JReady), (''moved'', JMoved), (''synced'', JSynced), (''applied'', JApplied),
      (''aborted'', JAborted), (''rolling-back'', JRollingBack)]"

definition child_status_names :: "(string \<times> child_status) list" where
  "child_status_names = [(''pending'', ChildPending), (''replayed'', ChildReplayed), (''resolved'', ChildResolved)]"

definition range_kind_names :: "(string \<times> range_kind) list" where
  "range_kind_names = [(''closed'', RangeClosed), (''active'', RangeActive), (''leaf-active'', RangeLeafActive),
     (''leaf-unentered'', RangeLeafUnentered)]"

definition named_field :: "(string \<times> 'a) list \<Rightarrow> jval option \<Rightarrow> 'a option" where
  "named_field table v = do { s \<leftarrow> text_field v; named_value table s }"

definition parseCause :: "jval option \<Rightarrow> restack_cause option" where
  "parseCause v = named_field cause_names v"

definition parseOwner :: "jval option \<Rightarrow> journal_owner option" where
  "parseOwner v = do {
     kvs \<leftarrow> record_entries v;
     host \<leftarrow> nonEmptyString (jget (JObj kvs) ''host'');
     pid \<leftarrow> int_field (jget (JObj kvs) ''pid'');
     _ \<leftarrow> ensure (0 < pid);
     start \<leftarrow> nonEmptyString (jget (JObj kvs) ''processStartTime'');
     Some \<lparr>jo_host = host, jo_pid = pid, jo_processStartTime = start\<rparr> }"

definition parseCommitter :: "jval option \<Rightarrow> (string \<times> string \<times> string) option" where
  "parseCommitter v = do {
     kvs \<leftarrow> record_entries v;
     name \<leftarrow> nonEmptyString (jget (JObj kvs) ''name'');
     email \<leftarrow> nonEmptyString (jget (JObj kvs) ''email'');
     date \<leftarrow> nonEmptyString (jget (JObj kvs) ''date'');
     Some (name, email, date) }"

definition parse_ref :: "jval option \<Rightarrow> (string \<times> string) option" where
  "parse_ref v = do {
     kvs \<leftarrow> record_entries v;
     raw \<leftarrow> text_field (jget (JObj kvs) ''ref'');
     ref \<leftarrow> parseRefName raw;
     oldSha \<leftarrow> sha_field (jget (JObj kvs) ''oldSha'');
     Some (ref, oldSha) }"

definition parse_range :: "jval option \<Rightarrow> child_range option" where
  "parse_range v = do {
     kvs \<leftarrow> record_entries v;
     child \<leftarrow> parseChild (jget (JObj kvs) ''child'');
     oldParent \<leftarrow> sha_field (jget (JObj kvs) ''oldParent'');
     oldTip \<leftarrow> sha_field (jget (JObj kvs) ''oldTip'');
     kind \<leftarrow> named_field range_kind_names (jget (JObj kvs) ''kind'');
     Some \<lparr>cr_child = child, cr_oldParent = oldParent, cr_oldTip = oldTip, cr_kind = kind\<rparr> }"

definition parse_rewrite :: "jval option \<Rightarrow> (string \<times> string) option" where
  "parse_rewrite v = do {
     kvs \<leftarrow> record_entries v;
     src \<leftarrow> sha_field (jget (JObj kvs) ''from'');
     dst \<leftarrow> sha_field (jget (JObj kvs) ''to'');
     Some (src, dst) }"

definition parseRewrites :: "jval option \<Rightarrow> (string \<times> string) list option" where
  "parseRewrites v = parse_all parse_rewrite v"

definition parse_journal_child :: "jval option \<Rightarrow> journal_child option" where
  "parse_journal_child v = do {
     kvs \<leftarrow> record_entries v;
     child \<leftarrow> parseChild (jget (JObj kvs) ''child'');
     status \<leftarrow> named_field child_status_names (jget (JObj kvs) ''status'');
     rewrites \<leftarrow> optional parseRewrites (jget (JObj kvs) ''rewrites'');
     Some \<lparr>jc_child = child, jc_status = status, jc_rewrites = rewrites\<rparr> }"

definition parseRefs :: "jval option \<Rightarrow> (string \<times> string) list option" where
  "parseRefs v = parse_all parse_ref v"

definition parseRanges :: "jval option \<Rightarrow> child_range list option" where
  "parseRanges v = parse_all parse_range v"

definition parseChildren :: "jval option \<Rightarrow> journal_child list option" where
  "parseChildren v = parse_all parse_journal_child v"

definition parse_evidence :: "string \<Rightarrow> jval option \<Rightarrow> journal_evidence option" where
  "parse_evidence first v = do {
     kvs \<leftarrow> record_entries v;
     child \<leftarrow> parseChild (jget (JObj kvs) ''child'');
     a \<leftarrow> sha_field (jget (JObj kvs) first);
     rec \<leftarrow> sha_field (jget (JObj kvs) ''record'');
     parent \<leftarrow> sha_field (jget (JObj kvs) ''parent'');
     Some \<lparr>je_child = child, je_first = a, je_record = rec, je_parent = parent\<rparr> }"

definition parseConsumedResolution :: "jval option \<Rightarrow> journal_evidence option" where
  "parseConsumedResolution v = parse_evidence ''tip'' v"

definition parseDeliveredDecision :: "jval option \<Rightarrow> journal_evidence option" where
  "parseDeliveredDecision v = parse_evidence ''blob'' v"

definition parseRouted :: "jval option \<Rightarrow> journal_routed option" where
  "parseRouted v = do {
     kvs \<leftarrow> record_entries v;
     let value = JObj kvs;
     roundId \<leftarrow> round_id_field (jget value ''roundId'');
     host \<leftarrow> parseChild (jget value ''host'');
     routeOld \<leftarrow> sha_field (jget value ''routeOld'');
     markerOld \<leftarrow> sha_field (jget value ''markerOld'');
     queueOld \<leftarrow> optional sha_field (jget value ''queueOld'');
     routeNew \<leftarrow> optional sha_field (jget value ''routeNew'');
     queueNew \<leftarrow> optional sha_field (jget value ''queueNew'');
     Some \<lparr>jr_roundId = roundId, jr_host = host, jr_routeOld = routeOld, jr_markerOld = markerOld,
           jr_queueOld = queueOld, jr_routeNew = routeNew, jr_queueNew = queueNew\<rparr> }"

definition parse_invalidated :: "jval option \<Rightarrow> (int \<times> string list) option" where
  "parse_invalidated v = do {
     kvs \<leftarrow> record_entries v;
     child \<leftarrow> parseChild (jget (JObj kvs) ''child'');
     gates \<leftarrow> isStringArray (jget (JObj kvs) ''gates'');
     Some (child, gates) }"

definition parseInvalidation :: "jval option \<Rightarrow> (int \<times> string list) list option" where
  "parseInvalidation v = parse_all parse_invalidated v"

definition parseQueueInvalidation :: "(string \<Rightarrow> bool) \<Rightarrow> jval option \<Rightarrow> queue_entry list option" where
  "parseQueueInvalidation is_date v = do {
     vs \<leftarrow> array_items v;
     q \<leftarrow> parseRevalidationQueueRecord is_date
       (Some (JObj [(''generation'', JNum 0), (''entries'', JArr vs), (''outbox'', JArr [])]));
     Some (qr_entries q) }"

definition parse_true :: "jval option \<Rightarrow> bool option" where
  "parse_true v = (if v = Some (JBool True) then Some True else None)"

definition parseJournal :: "(string \<Rightarrow> bool) \<Rightarrow> jval option \<Rightarrow> restack_journal option" where
  "parseJournal is_date v = do {
     kvs \<leftarrow> record_entries v;
     let value = JObj kvs;
     opId \<leftarrow> nonEmptyString (jget value ''opId'');
     state \<leftarrow> named_field journal_state_names (jget value ''state'');
     cause \<leftarrow> parseCause (jget value ''cause'');
     followOnCause \<leftarrow> optional parseCause (jget value ''followOnCause'');
     owner \<leftarrow> parseOwner (jget value ''owner'');
     committer \<leftarrow> parseCommitter (jget value ''committer'');
     refs \<leftarrow> parseRefs (jget value ''refs'');
     ranges \<leftarrow> parseRanges (jget value ''ranges'');
     children \<leftarrow> parseChildren (jget value ''children'');
     newDefault \<leftarrow> optional sha_field (jget value ''newDefault'');
     comparisonCommits \<leftarrow> optional (parse_all sha_field) (jget value ''comparisonCommits'');
     originatingChildren \<leftarrow> optional (parse_all parseChild) (jget value ''originatingChildren'');
     routed \<leftarrow> optional parseRouted (jget value ''routed'');
     invalidation \<leftarrow> optional parseInvalidation (jget value ''invalidation'');
     queueOld \<leftarrow> optional sha_field (jget value ''queueOld'');
     queueNew \<leftarrow> optional sha_field (jget value ''queueNew'');
     queueInvalidation \<leftarrow> optional (parseQueueInvalidation is_date) (jget value ''queueInvalidation'');
     consumedResolution \<leftarrow> optional parseConsumedResolution (jget value ''consumedResolution'');
     deliveredDecision \<leftarrow> optional parseDeliveredDecision (jget value ''deliveredDecision'');
     dirtyPaths \<leftarrow> isStringArray (jget value ''dirtyPaths'');
     queueTracked \<leftarrow> optional parse_true (jget value ''queueTracked'');
     Some \<lparr>rj_opId = opId, rj_cause = cause, rj_followOnCause = followOnCause, rj_committer = committer,
           rj_newDefault = newDefault, rj_comparisonCommits = comparisonCommits,
           rj_originatingChildren = originatingChildren, rj_routed = routed, rj_invalidation = invalidation,
           rj_queueTracked = (queueTracked = Some True), rj_queueOld = queueOld, rj_queueNew = queueNew,
           rj_queueInvalidation = queueInvalidation, rj_dirtyPaths = dirtyPaths, rj_refs = refs,
           rj_ranges = ranges, rj_children = children, rj_consumedResolution = consumedResolution,
           rj_deliveredDecision = deliveredDecision, rj_state = state, rj_owner = owner\<rparr> }"

section \<open>What is written\<close>

definition name_of :: "(string \<times> 'a) list \<Rightarrow> 'a \<Rightarrow> string" where
  "name_of table x = (case find (\<lambda>(_, y). y = x) table of Some (s, _) \<Rightarrow> s | None \<Rightarrow> [])"

definition opt_entry :: "string \<Rightarrow> ('a \<Rightarrow> jval) \<Rightarrow> 'a option \<Rightarrow> (string \<times> jval) list" where
  "opt_entry k f x = (case x of None \<Rightarrow> [] | Some y \<Rightarrow> [(k, f y)])"

definition string_array_json :: "string list \<Rightarrow> jval" where
  "string_array_json xs = JArr (map JStr xs)"

definition range_json :: "child_range \<Rightarrow> jval" where
  "range_json r = JObj [(''child'', JNum (cr_child r)), (''oldParent'', JStr (cr_oldParent r)),
     (''oldTip'', JStr (cr_oldTip r)), (''kind'', JStr (name_of range_kind_names (cr_kind r)))]"

definition rewrites_json :: "(string \<times> string) list \<Rightarrow> jval" where
  "rewrites_json ws = JArr (map (\<lambda>(src, dst). JObj [(''from'', JStr src), (''to'', JStr dst)]) ws)"

definition child_json :: "journal_child \<Rightarrow> jval" where
  "child_json c = JObj ([(''child'', JNum (jc_child c)), (''status'', JStr (name_of child_status_names (jc_status c)))]
     @ opt_entry ''rewrites'' rewrites_json (jc_rewrites c))"

definition routed_json :: "journal_routed \<Rightarrow> jval" where
  "routed_json r = JObj ([(''roundId'', JStr (jr_roundId r)), (''host'', JNum (jr_host r)),
     (''routeOld'', JStr (jr_routeOld r)), (''markerOld'', JStr (jr_markerOld r))]
     @ opt_entry ''queueOld'' JStr (jr_queueOld r) @ opt_entry ''routeNew'' JStr (jr_routeNew r)
     @ opt_entry ''queueNew'' JStr (jr_queueNew r))"

definition evidence_json :: "string \<Rightarrow> journal_evidence \<Rightarrow> jval" where
  "evidence_json first e = JObj [(''child'', JNum (je_child e)), (first, JStr (je_first e)),
     (''record'', JStr (je_record e)), (''parent'', JStr (je_parent e))]"

definition invalidation_json :: "(int \<times> string list) list \<Rightarrow> jval" where
  "invalidation_json xs = JArr (map (\<lambda>(c, gs). JObj [(''child'', JNum c), (''gates'', string_array_json gs)]) xs)"

definition queue_entry_json :: "queue_entry \<Rightarrow> jval" where
  "queue_entry_json e = JObj [(''child'', JNum (qe_child e)), (''position'', JNum (qe_position e)),
     (''closureSha'', JStr (qe_closureSha e)), (''gates'', string_array_json (qe_gates e)),
     (''replay'', JObj [(''oldParent'', JStr (qe_oldParent e)), (''newParent'', JStr (qe_newParent e))]),
     (''state'', JStr ''queued'')]"

text \<open>The properties in the order of the draft, then state and owner; an absent one is not written.\<close>

definition journal_fields :: "restack_journal \<Rightarrow> (string \<times> jval option) list" where
  "journal_fields j =
     [(''opId'', Some (JStr (rj_opId j))),
      (''cause'', Some (JStr (name_of cause_names (rj_cause j)))),
      (''followOnCause'', map_option (\<lambda>c. JStr (name_of cause_names c)) (rj_followOnCause j)),
      (''committer'', Some (JObj [(''name'', JStr (fst (rj_committer j))), (''email'', JStr (fst (snd (rj_committer j)))),
         (''date'', JStr (snd (snd (rj_committer j))))])),
      (''newDefault'', map_option JStr (rj_newDefault j)),
      (''comparisonCommits'', map_option string_array_json (rj_comparisonCommits j)),
      (''originatingChildren'', map_option (\<lambda>cs. JArr (map JNum cs)) (rj_originatingChildren j)),
      (''routed'', map_option routed_json (rj_routed j)),
      (''invalidation'', map_option invalidation_json (rj_invalidation j)),
      (''queueTracked'', if rj_queueTracked j then Some (JBool True) else None),
      (''queueOld'', map_option JStr (rj_queueOld j)),
      (''queueNew'', map_option JStr (rj_queueNew j)),
      (''queueInvalidation'', map_option (\<lambda>es. JArr (map queue_entry_json es)) (rj_queueInvalidation j)),
      (''consumedResolution'', map_option (evidence_json ''tip'') (rj_consumedResolution j)),
      (''deliveredDecision'', map_option (evidence_json ''blob'') (rj_deliveredDecision j)),
      (''dirtyPaths'', Some (string_array_json (rj_dirtyPaths j))),
      (''refs'', Some (JArr (map (\<lambda>(r, o'). JObj [(''ref'', JStr r), (''oldSha'', JStr o')]) (rj_refs j)))),
      (''ranges'', Some (JArr (map range_json (rj_ranges j)))),
      (''children'', Some (JArr (map child_json (rj_children j)))),
      (''state'', Some (JStr (name_of journal_state_names (rj_state j)))),
      (''owner'', Some (JObj [(''host'', JStr (jo_host (rj_owner j))), (''pid'', JNum (jo_pid (rj_owner j))),
         (''processStartTime'', JStr (jo_processStartTime (rj_owner j)))]))]"

definition journal_json :: "restack_journal \<Rightarrow> jval" where
  "journal_json j = JObj (List.map_filter (\<lambda>(k, v). map_option (Pair k) v) (journal_fields j))"

section \<open>Reading and creating\<close>

datatype journal_read =
    JournalMissing
  | JournalUnreadable string
  | JournalRead stored_journal

definition readRestackJournal :: "(string \<Rightarrow> bool) \<Rightarrow> 'g git_runner \<Rightarrow> string \<Rightarrow> 'g \<Rightarrow> 'g \<times> journal_read" where
  "readRestackJournal is_date git slug g =
     (case git g [''rev-parse'', ''-q'', ''--verify'', journalRefFor slug] NoInput of
        (g1, resolved) \<Rightarrow>
          if map_option ga_exitCode resolved = Some 1 then (g1, JournalMissing)
          else (case (if answer_ok resolved then parseCommitSha (js_trim (ga_stdout (the resolved))) else None) of
              None \<Rightarrow> (g1, JournalUnreadable [])
            | Some blob \<Rightarrow>
                (case git g1 [''cat-file'', ''blob'', blob] NoInput of
                   (g2, contents) \<Rightarrow>
                     if \<not> answer_ok contents then (g2, JournalUnreadable blob)
                     else (case parseJournal is_date (ga_json (the contents)) of
                         None \<Rightarrow> (g2, JournalUnreadable blob)
                       | Some j \<Rightarrow> (g2, JournalRead \<lparr>sj_slug = slug, sj_blob = blob, sj_journal = j\<rparr>)))))"

definition resultDetail :: "git_answer \<Rightarrow> string" where
  "resultDetail a = (if js_trim (ga_stderr a) = [] then ''Git command failed'' else js_trim (ga_stderr a))"

definition writeRestackJournalBlob :: "'g git_runner \<Rightarrow> restack_journal \<Rightarrow> 'g \<Rightarrow> 'g \<times> string throws" where
  "writeRestackJournalBlob git j g =
     (case git g [''hash-object'', ''-w'', ''--stdin''] (JsonText (journal_json j)) of
        (g1, written) \<Rightarrow>
          (g1, case (if answer_ok written then parseCommitSha (js_trim (ga_stdout (the written))) else None) of
                 Some blob \<Rightarrow> Inr blob
               | None \<Rightarrow> Inl (''could not write restack journal blob: ''
                   @ (case written of Some w \<Rightarrow> resultDetail w | None \<Rightarrow> ''Git unavailable''))))"

datatype create_journal =
    JournalCreated stored_journal
  | JournalRefused
  | JournalUnavailable string

definition planned_journal :: "restack_draft \<Rightarrow> journal_owner \<Rightarrow> restack_journal" where
  "planned_journal draft owner = restack_draft.extend draft \<lparr>rj_state = JPlanned, rj_owner = owner\<rparr>"

text \<open>\<open>owner\<close> is the identity of the running process, when its start time can be read.\<close>

definition createRestackJournal ::
  "'g git_runner \<Rightarrow> string \<Rightarrow> restack_draft \<Rightarrow> journal_owner option \<Rightarrow> 'g \<Rightarrow> ('g \<times> create_journal) throws" where
  "createRestackJournal git slug draft owner g =
     (case owner of
        None \<Rightarrow> Inr (g, JournalUnavailable ''cannot determine restack journal owner process start time'')
      | Some o' \<Rightarrow>
          let journal = planned_journal draft o' in
          (case writeRestackJournalBlob git journal g of
             (_, Inl err) \<Rightarrow> Inl err
           | (g1, Inr blob) \<Rightarrow>
               (case git g1 [''update-ref'', journalRefFor slug, blob, []] NoInput of
                  (g2, created) \<Rightarrow> Inr (g2,
                    if answer_ok created then JournalCreated \<lparr>sj_slug = slug, sj_blob = blob, sj_journal = journal\<rparr>
                    else if created \<noteq> None then JournalRefused
                    else JournalUnavailable ''Git unavailable while creating restack journal''))))"

section \<open>Changing\<close>

datatype journal_update =
    JournalUpdated stored_journal
  | JournalStale
  | UpdateUnavailable string

record routed_apply_plan =
  ap_routeNew :: "string option"
  ap_queueNew :: "string option"
  ap_invalidation :: "(int \<times> string list) list"
  ap_queueInvalidation :: "queue_entry list option"

definition field_or :: "'a option \<Rightarrow> 'a option \<Rightarrow> 'a option" where
  "field_or new old = (case new of Some x \<Rightarrow> Some x | None \<Rightarrow> old)"

definition applied_plan :: "restack_journal \<Rightarrow> routed_apply_plan \<Rightarrow> restack_journal" where
  "applied_plan j plan = j\<lparr>
     rj_routed := map_option (\<lambda>r. r\<lparr>jr_routeNew := field_or (ap_routeNew plan) (jr_routeNew r),
                                    jr_queueNew := field_or (ap_queueNew plan) (jr_queueNew r)\<rparr>) (rj_routed j),
     rj_queueNew := field_or (ap_queueNew plan) (rj_queueNew j),
     rj_invalidation := Some (ap_invalidation plan),
     rj_queueInvalidation := field_or (ap_queueInvalidation plan) (rj_queueInvalidation j)\<rparr>"

definition recordRoutedApplyPlan ::
  "'g git_runner \<Rightarrow> stored_journal \<Rightarrow> routed_apply_plan \<Rightarrow> 'g \<Rightarrow> ('g \<times> journal_update) throws" where
  "recordRoutedApplyPlan git previous plan g =
     (if rj_state (sj_journal previous) \<noteq> JSynced \<or> (ap_routeNew plan \<noteq> None \<and> rj_routed (sj_journal previous) = None)
      then Inr (g, JournalStale)
      else
        let journal = applied_plan (sj_journal previous) plan in
        (case writeRestackJournalBlob git journal g of
           (_, Inl err) \<Rightarrow> Inl err
         | (g1, Inr blob) \<Rightarrow>
             (case git g1 [''update-ref'', journalRefFor (sj_slug previous), blob, sj_blob previous] NoInput of
                (g2, updated) \<Rightarrow> Inr (g2,
                  if updated = None then UpdateUnavailable ''Git unavailable while recording routed apply plan''
                  else if \<not> answer_ok updated then JournalStale
                  else JournalUpdated \<lparr>sj_slug = sj_slug previous, sj_blob = blob, sj_journal = journal\<rparr>))))"

definition journalStateUpdateLines :: "stored_journal \<Rightarrow> string \<Rightarrow> journal_state \<Rightarrow> ref_line list throws" where
  "journalStateUpdateLines previous nextBlob nextState =
     (if \<not> isLegalJournalTransition (rj_state (sj_journal previous)) nextState
      then Inl (''illegal restack journal transition: '' @ name_of journal_state_names (rj_state (sj_journal previous))
        @ '' -> '' @ name_of journal_state_names nextState)
      else Inr [LUpdate (journalRefFor (sj_slug previous)) nextBlob (Some (sj_blob previous))])"

definition stagingTip :: "'g git_runner \<Rightarrow> string \<Rightarrow> 'g \<Rightarrow> 'g \<times> string option" where
  "stagingTip git ref g =
     (case git g [''rev-parse'', ''-q'', ''--verify'', ref] NoInput of
        (g1, r) \<Rightarrow> (g1,
          if map_option ga_exitCode r = Some 1 then Some []
          else if answer_ok r then parseCommitSha (js_trim (ga_stdout (the r))) else None))"

definition pinStagingRef :: "'g git_runner \<Rightarrow> string \<Rightarrow> int \<Rightarrow> string \<Rightarrow> 'g \<Rightarrow> 'g \<times> bool" where
  "pinStagingRef git slug child tip g =
     (case stagingTip git (stagingRefFor slug child) g of
        (g1, None) \<Rightarrow> (g1, False)
      | (g1, Some old) \<Rightarrow>
          (case git g1 [''update-ref'', stagingRefFor slug child, tip, old] NoInput of
             (g2, pinned) \<Rightarrow> (g2, answer_ok pinned)))"

definition child_entry_with :: "int \<Rightarrow> child_status \<Rightarrow> (string \<times> string) list \<Rightarrow> journal_child \<Rightarrow> journal_child" where
  "child_entry_with child status rewrites entry =
     (if jc_child entry \<noteq> child \<or> \<not> isLegalChildStatusTransition (jc_status entry) status then entry
      else entry\<lparr>jc_status := status, jc_rewrites := Some rewrites\<rparr>)"

definition childWithStatus ::
  "restack_journal \<Rightarrow> int \<Rightarrow> child_status \<Rightarrow> (string \<times> string) list \<Rightarrow> journal_evidence option \<Rightarrow> journal_evidence option
     \<Rightarrow> restack_journal option" where
  "childWithStatus j child status rewrites consumed delivered =
     (if rj_state j \<noteq> JPlanned then None
      else if list_ex (\<lambda>e. jc_child e = child \<and> isLegalChildStatusTransition (jc_status e) status) (rj_children j)
      then Some (j\<lparr>rj_children := map (child_entry_with child status rewrites) (rj_children j),
                   rj_consumedResolution := field_or consumed (rj_consumedResolution j),
                   rj_deliveredDecision := field_or delivered (rj_deliveredDecision j)\<rparr>)
      else None)"

definition updateRestackChildStatus ::
  "'g git_runner \<Rightarrow> string \<Rightarrow> stored_journal \<Rightarrow> int \<Rightarrow> child_status \<Rightarrow> string \<Rightarrow> (string \<times> string) list
     \<Rightarrow> journal_evidence option \<Rightarrow> journal_evidence option \<Rightarrow> 'g \<Rightarrow> ('g \<times> journal_update) throws" where
  "updateRestackChildStatus git slug previous child status tip rewrites consumed delivered g =
     (if sj_slug previous \<noteq> slug then Inr (g, UpdateUnavailable ''journal slug does not match staging slug'')
      else (case childWithStatus (sj_journal previous) child status rewrites consumed delivered of
          None \<Rightarrow> Inr (g, UpdateUnavailable ''invalid restack child-status transition'')
        | Some journal \<Rightarrow>
            (case writeRestackJournalBlob git journal g of
               (_, Inl err) \<Rightarrow> Inl err
             | (g1, Inr blob) \<Rightarrow>
                 (case stagingTip git (stagingRefFor slug child) g1 of
                    (g2, None) \<Rightarrow> Inr (g2, UpdateUnavailable ''cannot read staging ref'')
                  | (g2, Some oldStage) \<Rightarrow>
                      (case git g2 [''update-ref'', ''--stdin''] (transaction_input (map line_text
                           [LUpdate (journalRefFor slug) blob (Some (sj_blob previous)),
                            LUpdate (stagingRefFor slug child) tip (Some oldStage)])) of
                         (g3, updated) \<Rightarrow> Inr (g3,
                           if \<not> answer_ok updated then JournalStale
                           else JournalUpdated \<lparr>sj_slug = slug, sj_blob = blob, sj_journal = journal\<rparr>))))))"

text \<open>The two words of a listed reference.\<close>

fun js_words :: "string \<Rightarrow> string list" where
  "js_words [] = []"
| "js_words (c # cs) =
     (if js_space c then js_words cs
      else (case cs of [] \<Rightarrow> [[c]] | d # _ \<Rightarrow> if js_space d then [c] # js_words cs
              else (case js_words cs of [] \<Rightarrow> [[c]] | w # ws \<Rightarrow> (c # w) # ws)))"

definition staging_delete_line :: "string \<Rightarrow> ref_line option" where
  "staging_delete_line raw =
     (case js_words raw of
        name # object # _ \<Rightarrow> do { ref \<leftarrow> parseRefName name; sha \<leftarrow> parseCommitSha object; Some (LDelete ref sha) }
      | _ \<Rightarrow> None)"

definition stagingDeleteLines :: "'g git_runner \<Rightarrow> string \<Rightarrow> 'g \<Rightarrow> 'g \<times> ref_line list option" where
  "stagingDeleteLines git slug g =
     (case git g [''for-each-ref'', ''--format=%(refname) %(objectname)'', ''refs/conductor/'' @ slug @ ''/restack/staging/''] NoInput of
        (g1, listed) \<Rightarrow> (g1,
          if \<not> answer_ok listed then None
          else those (map staging_delete_line
            (filter (\<lambda>raw. js_trim raw \<noteq> []) (split_on (CHR 0x0A) (ga_stdout (the listed)))))))"

definition replaceAppliedJournalWithFollowOn ::
  "'g git_runner \<Rightarrow> string \<Rightarrow> stored_journal \<Rightarrow> restack_draft \<Rightarrow> journal_owner option \<Rightarrow> 'g \<Rightarrow> ('g \<times> create_journal) throws" where
  "replaceAppliedJournalWithFollowOn git slug old followOn owner g =
     (if sj_slug old \<noteq> slug \<or> rj_state (sj_journal old) \<noteq> JApplied \<or>
         rj_followOnCause (sj_journal old) \<noteq> Some (rj_cause followOn)
      then Inr (g, JournalRefused)
      else (case owner of
          None \<Rightarrow> Inr (g, JournalUnavailable ''cannot determine restack journal owner process start time'')
        | Some o' \<Rightarrow>
            let journal = planned_journal followOn o' in
            (case writeRestackJournalBlob git journal g of
               (_, Inl err) \<Rightarrow> Inl err
             | (g1, Inr blob) \<Rightarrow>
                 (case stagingDeleteLines git slug g1 of
                    (g2, None) \<Rightarrow> Inr (g2, JournalUnavailable ''cannot list restack staging refs'')
                  | (g2, Some deletes) \<Rightarrow>
                      (case git g2 [''update-ref'', ''--stdin''] (transaction_input (map line_text
                           (LUpdate (journalRefFor slug) blob (Some (sj_blob old)) # deletes))) of
                         (g3, replaced) \<Rightarrow> Inr (g3,
                           if answer_ok replaced then JournalCreated \<lparr>sj_slug = slug, sj_blob = blob, sj_journal = journal\<rparr>
                           else if replaced \<noteq> None then JournalRefused
                           else JournalUnavailable ''Git unavailable while replacing restack journal''))))))"

end
