(* ===== verification/JournalProps.thy ===== *)
theory JournalProps
  imports RestackJournal
begin

text \<open>
  Properties of the restack journal: a written journal is read back, a recorded replay and the commit it
  produced become durable together or not at all, and one restack is outstanding at a time.
\<close>

section \<open>Writing and reading back\<close>

definition sha :: "string \<Rightarrow> bool" where
  "sha s = (parseCommitSha s = Some s)"

definition child_id_ok :: "int \<Rightarrow> bool" where
  "child_id_ok c = (1 \<le> c \<and> c \<le> MAX_CHILD_ID)"

definition opt_all :: "('a \<Rightarrow> bool) \<Rightarrow> 'a option \<Rightarrow> bool" where
  "opt_all P x = (case x of None \<Rightarrow> True | Some y \<Rightarrow> P y)"

definition wf_evidence :: "journal_evidence \<Rightarrow> bool" where
  "wf_evidence e = (child_id_ok (je_child e) \<and> sha (je_first e) \<and> sha (je_record e) \<and> sha (je_parent e))"

definition wf_queue_entry :: "queue_entry \<Rightarrow> bool" where
  "wf_queue_entry e = (child_id_ok (qe_child e) \<and> child_id_ok (qe_position e) \<and> sha (qe_closureSha e) \<and>
     sha (qe_oldParent e) \<and> sha (qe_newParent e) \<and> set (qe_gates e) \<subseteq> set CHILD_REGION_STEPS)"

definition wf_routed :: "journal_routed \<Rightarrow> bool" where
  "wf_routed r = (parseRoundId (jr_roundId r) = Some (jr_roundId r) \<and> child_id_ok (jr_host r) \<and> sha (jr_routeOld r) \<and>
     sha (jr_markerOld r) \<and> opt_all sha (jr_queueOld r) \<and> opt_all sha (jr_routeNew r) \<and> opt_all sha (jr_queueNew r))"

definition wf_child_entry :: "journal_child \<Rightarrow> bool" where
  "wf_child_entry c = (child_id_ok (jc_child c) \<and> opt_all (list_all (\<lambda>(a, b). sha a \<and> sha b)) (jc_rewrites c))"

definition wf_range :: "child_range \<Rightarrow> bool" where
  "wf_range r = (child_id_ok (cr_child r) \<and> sha (cr_oldParent r) \<and> sha (cr_oldTip r))"

definition wf_gates :: "int \<times> string list \<Rightarrow> bool" where
  "wf_gates = (\<lambda>(c, gs). child_id_ok c \<and> [] \<notin> set gs)"

definition wf_journal :: "restack_journal \<Rightarrow> bool" where
  "wf_journal j =
     (rj_opId j \<noteq> [] \<and> (case rj_committer j of (a, b, c) \<Rightarrow> a \<noteq> [] \<and> b \<noteq> [] \<and> c \<noteq> []) \<and>
      jo_host (rj_owner j) \<noteq> [] \<and> 0 < jo_pid (rj_owner j) \<and> jo_processStartTime (rj_owner j) \<noteq> [] \<and>
      [] \<notin> set (rj_dirtyPaths j) \<and>
      list_all (\<lambda>(r, b). parseRefName r = Some r \<and> sha b) (rj_refs j) \<and>
      list_all wf_range (rj_ranges j) \<and> list_all wf_child_entry (rj_children j) \<and>
      opt_all sha (rj_newDefault j) \<and> opt_all (list_all sha) (rj_comparisonCommits j) \<and>
      opt_all (list_all child_id_ok) (rj_originatingChildren j) \<and> opt_all wf_routed (rj_routed j) \<and>
      opt_all (list_all wf_gates) (rj_invalidation j) \<and> opt_all sha (rj_queueOld j) \<and> opt_all sha (rj_queueNew j) \<and>
      opt_all (\<lambda>es. list_all wf_queue_entry es \<and> ordered_entries [] None es) (rj_queueInvalidation j) \<and>
      opt_all wf_evidence (rj_consumedResolution j) \<and> opt_all wf_evidence (rj_deliveredDecision j))"

lemma bind_Some [simp]: "Option.bind (Some x) f = f x"
  by simp

lemma ensure_True [simp]: "ensure True = Some ()"
  by (simp add: ensure_def)

lemma those_map_written: "list_all (\<lambda>x. f (Some (g x)) = Some x) xs \<Longrightarrow> those (map (\<lambda>x. f (Some (g x))) xs) = Some xs"
  by (induction xs) auto

lemma parse_all_written:
  "list_all (\<lambda>x. f (Some (g x)) = Some x) xs \<Longrightarrow> parse_all f (Some (JArr (map g xs))) = Some xs"
  by (simp add: parse_all_def comp_def those_map_written)

lemma optional_written: "opt_all (\<lambda>x. f (Some (g x)) = Some x) x \<Longrightarrow> optional f (map_option g x) = Some x"
  by (cases x) (auto simp: optional_def opt_all_def)

lemma opt_entry_lookup [simp]: "map_of (opt_entry k f x) k' = (if k' = k then map_option f x else None)"
  by (cases x) (auto simp: opt_entry_def)

lemma opt_entry_other: "k' \<noteq> k \<Longrightarrow> map_of (opt_entry k f x @ ys) k' = map_of ys k'"
  by (cases x) (auto simp: opt_entry_def)

lemma opt_entry_here: "map_of ys k = None \<Longrightarrow> map_of (opt_entry k f x @ ys) k = map_option f x"
  by (cases x) (auto simp: opt_entry_def)

lemmas opt_entry_append = opt_entry_other opt_entry_here

lemma sha_written: "sha s \<Longrightarrow> sha_field (Some (JStr s)) = Some s"
  by (simp add: sha_field_def sha_def)

lemma child_written: "child_id_ok c \<Longrightarrow> parseChild (Some (JNum c)) = Some c"
  by (simp add: parseChild_def parseChildId_def child_id_ok_def)

lemma text_written: "s \<noteq> [] \<Longrightarrow> nonEmptyString (Some (JStr s)) = Some s"
  by (simp add: nonEmptyString_def)

lemma strings_written: "[] \<notin> set xs \<Longrightarrow> isStringArray (Some (string_array_json xs)) = Some xs"
  unfolding isStringArray_def parseStringArray_def string_array_json_def
  by (rule parse_all_written) (auto simp: list_all_iff intro!: text_written)

lemma cause_written: "parseCause (Some (JStr (name_of cause_names c))) = Some c"
  by (cases c) (simp_all add: parseCause_def named_field_def named_value_def name_of_def cause_names_def)

lemma state_written: "named_field journal_state_names (Some (JStr (name_of journal_state_names s))) = Some s"
  by (cases s) (simp_all add: named_field_def named_value_def name_of_def journal_state_names_def)

lemma status_written: "named_field child_status_names (Some (JStr (name_of child_status_names s))) = Some s"
  by (cases s) (simp_all add: named_field_def named_value_def name_of_def child_status_names_def)

lemma kind_written: "named_field range_kind_names (Some (JStr (name_of range_kind_names k))) = Some k"
  by (cases k) (simp_all add: named_field_def named_value_def name_of_def range_kind_names_def)

lemma range_written: "wf_range r \<Longrightarrow> parse_range (Some (range_json r)) = Some r"
  by (simp add: parse_range_def range_json_def wf_range_def sha_written child_written kind_written)

lemma rewrites_written:
  "list_all (\<lambda>(a, b). sha a \<and> sha b) ws \<Longrightarrow> parseRewrites (Some (rewrites_json ws)) = Some ws"
  unfolding parseRewrites_def rewrites_json_def
  by (rule parse_all_written) (auto simp: list_all_iff parse_rewrite_def sha_written)

lemma opt_all_mono: "opt_all P x \<Longrightarrow> (\<And>y. P y \<Longrightarrow> Q y) \<Longrightarrow> opt_all Q x"
  by (cases x) (auto simp: opt_all_def)

lemma child_entry_written: "wf_child_entry c \<Longrightarrow> parse_journal_child (Some (child_json c)) = Some c"
proof -
  assume w: "wf_child_entry c"
  then have "optional parseRewrites (map_option rewrites_json (jc_rewrites c)) = Some (jc_rewrites c)"
    by (auto intro!: optional_written elim: opt_all_mono simp: wf_child_entry_def rewrites_written)
  with w show ?thesis
    by (simp add: parse_journal_child_def child_json_def wf_child_entry_def child_written status_written)
qed

lemma routed_written: "wf_routed r \<Longrightarrow> parseRouted (Some (routed_json r)) = Some r"
proof -
  assume w: "wf_routed r"
  have o: "opt_all sha x \<Longrightarrow> optional sha_field (map_option JStr x) = Some x" for x
    by (auto intro!: optional_written elim: opt_all_mono simp: sha_written)
  from w show ?thesis
    by (simp add: parseRouted_def routed_json_def wf_routed_def round_id_field_def child_written sha_written o opt_entry_append del: map_of_append)
qed

lemma evidence_written:
  "wf_evidence e \<Longrightarrow> first \<in> {''tip'', ''blob''} \<Longrightarrow> parse_evidence first (Some (evidence_json first e)) = Some e"
  by (auto simp: parse_evidence_def evidence_json_def wf_evidence_def child_written sha_written)

lemma gates_written: "wf_gates x \<Longrightarrow> parse_invalidated (Some ((\<lambda>(c, gs). JObj [(''child'', JNum c), (''gates'', string_array_json gs)]) x)) = Some x"
  by (cases x) (simp add: parse_invalidated_def wf_gates_def child_written strings_written)

lemma queue_entry_written: "wf_queue_entry e \<Longrightarrow> parse_queue_entry (Some (queue_entry_json e)) = Some e"
proof -
  assume w: "wf_queue_entry e"
  have "parse_all (\<lambda>g. do { s \<leftarrow> text_field g; _ \<leftarrow> ensure (s \<in> set CHILD_REGION_STEPS); Some s })
      (Some (string_array_json (qe_gates e))) = Some (qe_gates e)"
    unfolding string_array_json_def
    by (rule parse_all_written) (use w in \<open>auto simp: list_all_iff wf_queue_entry_def\<close>)
  with w show ?thesis
    by (simp add: parse_queue_entry_def queue_entry_json_def wf_queue_entry_def child_written sha_written)
qed

lemma queue_written:
  "list_all wf_queue_entry es \<Longrightarrow> ordered_entries [] None es \<Longrightarrow>
     parseQueueInvalidation is_date (Some (JArr (map queue_entry_json es))) = Some es"
proof -
  assume w: "list_all wf_queue_entry es" and srt: "ordered_entries [] None es"
  have "parse_all parse_queue_entry (Some (JArr (map queue_entry_json es))) = Some es"
    by (rule parse_all_written) (use w in \<open>auto simp: list_all_iff queue_entry_written\<close>)
  with srt show ?thesis
    by (simp add: parseQueueInvalidation_def parseRevalidationQueueRecord_def parseOutbox_def parse_all_def)
qed

lemma written_fields:
  "distinct (map fst fs) \<Longrightarrow> map_of (List.map_filter (\<lambda>(k, v). map_option (Pair k) v) fs) k =
     (case map_of fs k of Some v \<Rightarrow> v | None \<Rightarrow> None)"
proof (induction fs)
  case Nil
  then show ?case by (simp add: List.map_filter_simps)
next
  case (Cons f fs)
  obtain k' v where f: "f = (k', v)" by fastforce
  have "map_of fs k' = None" using Cons.prems f by (simp add: map_of_eq_None_iff)
  with Cons f show ?case by (cases v) (auto simp: List.map_filter_simps)
qed

lemma journal_keys: "distinct (map fst (journal_fields j))"
  by (simp add: journal_fields_def)

lemma journal_lookup: "jget (journal_json j) k = (case map_of (journal_fields j) k of Some v \<Rightarrow> v | None \<Rightarrow> None)"
  by (simp add: journal_json_def written_fields journal_keys)

lemma journal_lookups:
  "jget (journal_json j) ''opId'' = Some (JStr (rj_opId j))"
  "jget (journal_json j) ''state'' = Some (JStr (name_of journal_state_names (rj_state j)))"
  "jget (journal_json j) ''cause'' = Some (JStr (name_of cause_names (rj_cause j)))"
  "jget (journal_json j) ''followOnCause'' = map_option (\<lambda>c. JStr (name_of cause_names c)) (rj_followOnCause j)"
  "jget (journal_json j) ''owner'' = Some (JObj [(''host'', JStr (jo_host (rj_owner j))), (''pid'', JNum (jo_pid (rj_owner j))),
      (''processStartTime'', JStr (jo_processStartTime (rj_owner j)))])"
  "jget (journal_json j) ''committer'' = Some (JObj [(''name'', JStr (fst (rj_committer j))), (''email'', JStr (fst (snd (rj_committer j)))),
      (''date'', JStr (snd (snd (rj_committer j))))])"
  "jget (journal_json j) ''refs'' = Some (JArr (map (\<lambda>(r, o'). JObj [(''ref'', JStr r), (''oldSha'', JStr o')]) (rj_refs j)))"
  "jget (journal_json j) ''ranges'' = Some (JArr (map range_json (rj_ranges j)))"
  "jget (journal_json j) ''children'' = Some (JArr (map child_json (rj_children j)))"
  "jget (journal_json j) ''newDefault'' = map_option JStr (rj_newDefault j)"
  "jget (journal_json j) ''comparisonCommits'' = map_option string_array_json (rj_comparisonCommits j)"
  "jget (journal_json j) ''originatingChildren'' = map_option (\<lambda>cs. JArr (map JNum cs)) (rj_originatingChildren j)"
  "jget (journal_json j) ''routed'' = map_option routed_json (rj_routed j)"
  "jget (journal_json j) ''invalidation'' = map_option invalidation_json (rj_invalidation j)"
  "jget (journal_json j) ''queueOld'' = map_option JStr (rj_queueOld j)"
  "jget (journal_json j) ''queueNew'' = map_option JStr (rj_queueNew j)"
  "jget (journal_json j) ''queueInvalidation'' = map_option (\<lambda>es. JArr (map queue_entry_json es)) (rj_queueInvalidation j)"
  "jget (journal_json j) ''consumedResolution'' = map_option (evidence_json ''tip'') (rj_consumedResolution j)"
  "jget (journal_json j) ''deliveredDecision'' = map_option (evidence_json ''blob'') (rj_deliveredDecision j)"
  "jget (journal_json j) ''dirtyPaths'' = Some (string_array_json (rj_dirtyPaths j))"
  "jget (journal_json j) ''queueTracked'' = (if rj_queueTracked j then Some (JBool True) else None)"
  by (simp_all only: journal_lookup) (simp_all add: journal_fields_def)

lemma written_optionals:
  assumes "wf_journal j"
  shows "optional parseCause (map_option (\<lambda>c. JStr (name_of cause_names c)) (rj_followOnCause j)) = Some (rj_followOnCause j)"
    "optional (parse_all sha_field) (map_option string_array_json (rj_comparisonCommits j)) = Some (rj_comparisonCommits j)"
    "optional (parse_all parseChild) (map_option (\<lambda>cs. JArr (map JNum cs)) (rj_originatingChildren j)) = Some (rj_originatingChildren j)"
    "optional parseRouted (map_option routed_json (rj_routed j)) = Some (rj_routed j)"
    "optional parseInvalidation (map_option invalidation_json (rj_invalidation j)) = Some (rj_invalidation j)"
    "optional (parseQueueInvalidation is_date) (map_option (\<lambda>es. JArr (map queue_entry_json es)) (rj_queueInvalidation j)) =
      Some (rj_queueInvalidation j)"
    "optional parseConsumedResolution (map_option (evidence_json ''tip'') (rj_consumedResolution j)) = Some (rj_consumedResolution j)"
    "optional parseDeliveredDecision (map_option (evidence_json ''blob'') (rj_deliveredDecision j)) = Some (rj_deliveredDecision j)"
proof -
  show "optional parseCause (map_option (\<lambda>c. JStr (name_of cause_names c)) (rj_followOnCause j)) = Some (rj_followOnCause j)"
    by (rule optional_written) (auto simp: opt_all_def cause_written split: option.splits)
  show "optional (parse_all sha_field) (map_option string_array_json (rj_comparisonCommits j)) = Some (rj_comparisonCommits j)"
    unfolding string_array_json_def
    by (rule optional_written, rule opt_all_mono [where P = "list_all sha"])
      (use assms in \<open>auto simp: wf_journal_def list_all_iff sha_written intro!: parse_all_written\<close>)
  show "optional (parse_all parseChild) (map_option (\<lambda>cs. JArr (map JNum cs)) (rj_originatingChildren j)) = Some (rj_originatingChildren j)"
    by (rule optional_written, rule opt_all_mono [where P = "list_all child_id_ok"])
      (use assms in \<open>auto simp: wf_journal_def list_all_iff child_written intro!: parse_all_written\<close>)
  show "optional parseRouted (map_option routed_json (rj_routed j)) = Some (rj_routed j)"
    by (rule optional_written, rule opt_all_mono [where P = wf_routed]) (use assms in \<open>auto simp: wf_journal_def routed_written\<close>)
  show "optional parseInvalidation (map_option invalidation_json (rj_invalidation j)) = Some (rj_invalidation j)"
    unfolding invalidation_json_def parseInvalidation_def
    by (rule optional_written, rule opt_all_mono [where P = "list_all wf_gates"])
      (use assms in \<open>auto simp: wf_journal_def list_all_iff gates_written intro!: parse_all_written\<close>)
  show "optional (parseQueueInvalidation is_date) (map_option (\<lambda>es. JArr (map queue_entry_json es)) (rj_queueInvalidation j)) =
      Some (rj_queueInvalidation j)"
    by (rule optional_written, rule opt_all_mono [where P = "\<lambda>es. list_all wf_queue_entry es \<and> ordered_entries [] None es"])
      (use assms in \<open>auto simp: wf_journal_def queue_written\<close>)
  show "optional parseConsumedResolution (map_option (evidence_json ''tip'') (rj_consumedResolution j)) = Some (rj_consumedResolution j)"
    "optional parseDeliveredDecision (map_option (evidence_json ''blob'') (rj_deliveredDecision j)) = Some (rj_deliveredDecision j)"
    by (rule optional_written, rule opt_all_mono [where P = wf_evidence],
        use assms in \<open>auto simp: wf_journal_def parseConsumedResolution_def parseDeliveredDecision_def evidence_written\<close>)+
qed

lemma written_parts:
  assumes "wf_journal j"
  shows "parseRefs (Some (JArr (map (\<lambda>(r, o'). JObj [(''ref'', JStr r), (''oldSha'', JStr o')]) (rj_refs j)))) = Some (rj_refs j)"
    "parseRanges (Some (JArr (map range_json (rj_ranges j)))) = Some (rj_ranges j)"
    "parseChildren (Some (JArr (map child_json (rj_children j)))) = Some (rj_children j)"
    "parseOwner (Some (JObj [(''host'', JStr (jo_host (rj_owner j))), (''pid'', JNum (jo_pid (rj_owner j))),
            (''processStartTime'', JStr (jo_processStartTime (rj_owner j)))])) = Some (rj_owner j)"
    "parseCommitter (Some (JObj [(''name'', JStr (fst (rj_committer j))), (''email'', JStr (fst (snd (rj_committer j)))),
           (''date'', JStr (snd (snd (rj_committer j))))])) = Some (rj_committer j)"
    "optional parse_true (if rj_queueTracked j then Some (JBool True) else None) =
      Some (if rj_queueTracked j then Some True else None)"
proof -
  show "parseRefs (Some (JArr (map (\<lambda>(r, o'). JObj [(''ref'', JStr r), (''oldSha'', JStr o')]) (rj_refs j)))) = Some (rj_refs j)"
    unfolding parseRefs_def
    by (rule parse_all_written) (use assms in \<open>auto simp: wf_journal_def list_all_iff parse_ref_def sha_written\<close>)
  show "parseRanges (Some (JArr (map range_json (rj_ranges j)))) = Some (rj_ranges j)"
    "parseChildren (Some (JArr (map child_json (rj_children j)))) = Some (rj_children j)"
    unfolding parseRanges_def parseChildren_def
    by (rule parse_all_written, use assms in \<open>auto simp: wf_journal_def list_all_iff range_written child_entry_written\<close>)+
  show "parseOwner (Some (JObj [(''host'', JStr (jo_host (rj_owner j))), (''pid'', JNum (jo_pid (rj_owner j))),
            (''processStartTime'', JStr (jo_processStartTime (rj_owner j)))])) = Some (rj_owner j)"
    using assms by (simp add: wf_journal_def parseOwner_def text_written)
  show "parseCommitter (Some (JObj [(''name'', JStr (fst (rj_committer j))), (''email'', JStr (fst (snd (rj_committer j)))),
           (''date'', JStr (snd (snd (rj_committer j))))])) = Some (rj_committer j)"
    using assms by (auto simp: wf_journal_def parseCommitter_def text_written split: prod.splits)
  show "optional parse_true (if rj_queueTracked j then Some (JBool True) else None) =
      Some (if rj_queueTracked j then Some True else None)"
    by (simp add: optional_def parse_true_def)
qed

lemma written_values:
  assumes "wf_journal j"
  shows "nonEmptyString (Some (JStr (rj_opId j))) = Some (rj_opId j)" "isStringArray (Some (string_array_json (rj_dirtyPaths j))) = Some (rj_dirtyPaths j)"
    "optional sha_field (map_option JStr (rj_newDefault j)) = Some (rj_newDefault j)"
    "optional sha_field (map_option JStr (rj_queueOld j)) = Some (rj_queueOld j)"
    "optional sha_field (map_option JStr (rj_queueNew j)) = Some (rj_queueNew j)"
proof -
  have o: "opt_all sha x \<Longrightarrow> optional sha_field (map_option JStr x) = Some x" for x
    by (auto intro!: optional_written elim: opt_all_mono simp: sha_written)
  show "nonEmptyString (Some (JStr (rj_opId j))) = Some (rj_opId j)" "isStringArray (Some (string_array_json (rj_dirtyPaths j))) = Some (rj_dirtyPaths j)"
    "optional sha_field (map_option JStr (rj_newDefault j)) = Some (rj_newDefault j)"
    "optional sha_field (map_option JStr (rj_queueOld j)) = Some (rj_queueOld j)"
    "optional sha_field (map_option JStr (rj_queueNew j)) = Some (rj_queueNew j)"
    using assms o by (simp_all add: wf_journal_def text_written strings_written)
qed

text \<open>
  C37: a journal is read back exactly as it was written, whatever optional parts it carries:
  every well-formed journal survives \<^verbatim>\<open>JSON.stringify\<close> and the schema check of the reader.
\<close>

theorem journal_written_read:
  assumes "wf_journal j"
  shows "parseJournal is_date (Some (journal_json j)) = Some j"
proof -
  obtain kvs where kvs: "journal_json j = JObj kvs" by (simp add: journal_json_def)
  show ?thesis
    using written_optionals(1-5,7,8) [OF assms] written_optionals(6) [OF assms, of is_date] written_parts [OF assms] written_values [OF assms]
      cause_written [of "rj_cause j"] state_written [of "rj_state j"]
    unfolding kvs parseJournal_def record_entries.simps bind_Some Let_def journal_lookups [of j, unfolded kvs]
    by (simp del: jget.simps)
qed

definition sample_sha :: "char \<Rightarrow> string" where
  "sample_sha c = replicate 40 c"

definition sample_journal :: restack_journal where
  "sample_journal = \<lparr>rj_opId = ''op1'', rj_cause = FeatureRepair, rj_followOnCause = Some BaseRefresh,
     rj_committer = (''n'', ''e'', ''d''), rj_newDefault = Some (sample_sha (CHR ''1'')), rj_comparisonCommits = None,
     rj_originatingChildren = Some [2], rj_routed = None, rj_invalidation = Some [(3, [''build''])], rj_queueTracked = True,
     rj_queueOld = None, rj_queueNew = None, rj_queueInvalidation = None, rj_dirtyPaths = [],
     rj_refs = [(''refs/heads/x'', sample_sha (CHR ''2''))],
     rj_ranges = [], rj_children = [\<lparr>jc_child = 2, jc_status = ChildPending, jc_rewrites = None\<rparr>],
     rj_consumedResolution = None, rj_deliveredDecision = None, rj_state = JPlanned,
     rj_owner = \<lparr>jo_host = ''h'', jo_pid = 7, jo_processStartTime = ''9''\<rparr>\<rparr>"

theorem journal_written_read_witness:
  "parseJournal (\<lambda>_. True) (Some (journal_json sample_journal)) = Some sample_journal"
proof (rule journal_written_read)
  show "wf_journal sample_journal" by code_simp
qed

section \<open>Recording a replay\<close>

lemma write_blob:
  assumes "object_store git refs objects others" and "writeRestackJournalBlob git j g = (g1, Inr blob)"
  shows "objects g1 blob = Some (journal_json j) \<and> plain_name blob \<and> blob \<noteq> zero_oid"
proof -
  obtain x where x: "git g [''hash-object'', ''-w'', ''--stdin''] (JsonText (journal_json j)) = (g1, Some x)" "ga_exitCode x = 0"
    "parseCommitSha (js_trim (ga_stdout x)) = Some blob"
    using assms(2) by (auto simp: writeRestackJournalBlob_def answer_ok_def split: prod.splits option.splits if_splits)
  with hash_object_law [OF assms(1) x(1)] have "objects g1 blob = Some (journal_json j) \<and> plain_name blob"
    by (auto dest: commit_sha_trim commit_sha_plain)
  then show ?thesis using no_zero_object [OF assms(1), of g1] by auto
qed

lemma staging_tip_plain: "stagingTip git ref g = (g1, Some old) \<Longrightarrow> plain_name old"
  by (auto simp: stagingTip_def dest: commit_sha_plain split: prod.splits if_splits) (simp_all add: plain_name_def)

lemma staging_tip_state:
  assumes "object_store git refs objects others" and "stagingTip git ref g = (g1, Some old)"
  shows "objects g \<subseteq>\<^sub>m objects g1"
proof -
  obtain a where "git g [''rev-parse'', ''-q'', ''--verify'', ref] NoInput = (g1, a)"
    using assms(2) by (auto simp: stagingTip_def split: prod.splits)
  from rev_parse_law [OF assms(1) this] others_grow [OF assms(1)] show ?thesis by (meson map_le_trans)
qed

text \<open>The entries of a journal around the record of one replayed child.\<close>

lemma child_entries:
  assumes "childWithStatus j child status rewrites consumed delivered = Some j'" "i < length (rj_children j)"
  shows "if jc_child (rj_children j ! i) = child \<and> isLegalChildStatusTransition (jc_status (rj_children j ! i)) status
      then rj_children j' ! i = \<lparr>jc_child = child, jc_status = status, jc_rewrites = Some rewrites\<rparr>
      else rj_children j' ! i = rj_children j ! i"
  using assms by (auto simp: childWithStatus_def child_entry_with_def split: if_splits)

lemma child_advanced:
  assumes "childWithStatus j child status rewrites consumed delivered = Some j'"
  shows "\<exists>i<length (rj_children j). jc_child (rj_children j ! i) = child \<and>
      isLegalChildStatusTransition (jc_status (rj_children j ! i)) status"
    "length (rj_children j') = length (rj_children j)" "rj_state j = JPlanned"
    "j'\<lparr>rj_children := [], rj_consumedResolution := None, rj_deliveredDecision := None\<rparr> =
     j\<lparr>rj_children := [], rj_consumedResolution := None, rj_deliveredDecision := None\<rparr>"
  using assms by (auto simp: childWithStatus_def list_ex_length split: if_splits)

lemma child_step: "isLegalChildStatusTransition src dst \<longleftrightarrow>
    (src, dst) \<in> {(ChildPending, ChildReplayed), (ChildPending, ChildResolved), (ChildReplayed, ChildResolved)}"
  by (auto simp: isLegalChildStatusTransition_def)

text \<open>
  C14: recording that a child was replayed is atomic against every other
  process: a reported success replaced, at one moment, the very journal that was read and pinned the staged
  commit, nothing else moved, and the new journal is the old one, still planned, except for an entry of exactly that
  child, whose status advanced from pending to replayed or resolved, or from replayed to resolved, and whose rewrites
  are the given ones, and for the evidence handed along. No other entry changed.
\<close>

theorem replay_recorded_with_its_commit:
  assumes "object_store git refs objects others" and "ref_transactions git refs objects others"
    and "updateRestackChildStatus git slug previous child status tip rewrites consumed delivered g = Inr (g', JournalUpdated stored)"
    and "plain_name (journalRefFor slug)" and "plain_name (stagingRefFor slug child)" and "plain_name tip" and "plain_name (sj_blob previous)"
    and "tip \<noteq> zero_oid"
  shows "(\<exists>h. refs h (journalRefFor slug) = old_value (sj_blob previous) \<and>
        refs g' = (refs h)(journalRefFor slug \<mapsto> sj_blob stored, stagingRefFor slug child \<mapsto> tip)) \<and>
      objects g' (sj_blob stored) = Some (journal_json (sj_journal stored)) \<and>
      rj_state (sj_journal previous) = JPlanned \<and> rj_state (sj_journal stored) = JPlanned \<and>
      (let before = rj_children (sj_journal previous); after = rj_children (sj_journal stored);
           advances = (\<lambda>e. jc_child e = child \<and> (jc_status e, status) \<in>
             {(ChildPending, ChildReplayed), (ChildPending, ChildResolved), (ChildReplayed, ChildResolved)})
       in length after = length before \<and> (\<exists>i<length before. advances (before ! i)) \<and>
          (\<forall>i<length before. if advances (before ! i)
             then after ! i = \<lparr>jc_child = child, jc_status = status, jc_rewrites = Some rewrites\<rparr>
             else after ! i = before ! i)) \<and>
      (sj_journal stored)\<lparr>rj_children := [], rj_consumedResolution := None, rj_deliveredDecision := None\<rparr> =
      (sj_journal previous)\<lparr>rj_children := [], rj_consumedResolution := None, rj_deliveredDecision := None\<rparr>"
proof -
  obtain j g1 blob g2 old a where slug: "sj_slug previous = slug"
    and j: "childWithStatus (sj_journal previous) child status rewrites consumed delivered = Some j"
    and w: "writeRestackJournalBlob git j g = (g1, Inr blob)"
    and t: "stagingTip git (stagingRefFor slug child) g1 = (g2, Some old)"
    and u: "git g2 [''update-ref'', ''--stdin''] (transaction_input (map line_text
        [LUpdate (journalRefFor slug) blob (Some (sj_blob previous)), LUpdate (stagingRefFor slug child) tip (Some old)])) = (g', a)"
    and a: "answer_ok a" and s: "stored = \<lparr>sj_slug = slug, sj_blob = blob, sj_journal = j\<rparr>"
    using assms(3) by (auto simp: updateRestackChildStatus_def split: if_splits option.splits prod.splits sum.splits)
  note blob = write_blob [OF assms(1) w]
  have "list_all plain_line [LUpdate (journalRefFor slug) blob (Some (sj_blob previous)), LUpdate (stagingRefFor slug child) tip (Some old)]"
    using assms(4-8) blob staging_tip_plain [OF t] by (simp add: plain_line_def)
  from transaction_law [OF assms(2) this u] a obtain h where h: "others\<^sup>*\<^sup>* g2 h" "objects h \<subseteq>\<^sub>m objects g'"
    "refs h (journalRefFor slug) = old_value (sj_blob previous)"
    "refs g' = (refs h)(journalRefFor slug \<mapsto> blob, stagingRefFor slug child \<mapsto> tip)"
    by (auto simp: answer_ok_def line_holds_def line_effect_def split: option.splits)
  have "objects g1 \<subseteq>\<^sub>m objects g'"
    using staging_tip_state [OF assms(1) t] others_grow [OF assms(1) h(1)] h(2) by (meson map_le_trans)
  with blob have o: "objects g' blob = Some (journal_json j)" by (auto simp: map_le_def dom_def)
  note c = child_advanced [OF j] child_entries [OF j]
  have "rj_state j = JPlanned" using j by (auto simp: childWithStatus_def split: if_splits)
  with h(3,4) o c s show ?thesis unfolding child_step Let_def by (intro conjI exI [of _ h]) simp_all
qed

definition replayed_journal :: restack_journal where
  "replayed_journal = sample_journal\<lparr>rj_children := [\<lparr>jc_child = 2, jc_status = ChildReplayed, jc_rewrites = Some []\<rparr>]\<rparr>"

definition journal_git :: tiny_git where
  "journal_git = \<lparr>tg_refs = [(journalRefFor ''demo'', tiny_id 0)], tg_objects = [journal_json sample_journal]\<rparr>"

lemma sample_status:
  "childWithStatus sample_journal 2 ChildReplayed [] None None = Some replayed_journal"
  by code_simp

lemma sample_blob:
  "writeRestackJournalBlob tiny_run replayed_journal journal_git =
     (journal_git\<lparr>tg_objects := [journal_json sample_journal, journal_json replayed_journal]\<rparr>, Inr (tiny_id 1))"
proof -
  have "parseCommitSha (tiny_id 1) = Some (tiny_id 1)" by code_simp
  then show ?thesis
    by (simp add: writeRestackJournalBlob_def tiny_run_def journal_git_def tiny_answer_def answer_ok_def tiny_id_trim)
qed

lemma sample_staging:
  "stagingTip tiny_run (stagingRefFor ''demo'' 2) (journal_git\<lparr>tg_objects := objs\<rparr>) = (journal_git\<lparr>tg_objects := objs\<rparr>, Some [])"
proof -
  have "journalRefFor ''demo'' \<noteq> stagingRefFor ''demo'' 2" by code_simp
  then show ?thesis by (simp add: stagingTip_def tiny_run_def tiny_refs_def journal_git_def tiny_answer_def)
qed

lemma sample_names: "plain_name (journalRefFor ''demo'')" "plain_name (stagingRefFor ''demo'' 2)" "plain_name (sample_sha (CHR ''3''))"
  "plain_name (tiny_id n)" "journalRefFor ''demo'' \<noteq> stagingRefFor ''demo'' 2"
  by (code_simp, code_simp, code_simp) (auto simp: plain_name_def tiny_id_def list_all_iff journalRefFor_def stagingRefFor_def)

lemma tiny_transaction:
  assumes "list_all plain_line ls" "list_all (line_holds (tiny_refs g)) ls" "list_all sets_value ls"
  shows "tiny_run g [''update-ref'', ''--stdin''] (transaction_input (map line_text ls)) =
    (g\<lparr>tg_refs := fold list_effect ls (tg_refs g)\<rparr>, tiny_answer 0 [] None)"
proof -
  have "butlast (butlast (butlast (tl (''start'' # map line_text ls @ [''prepare'', ''commit'', []])))) = map line_text ls"
    by (simp add: butlast_append)
  moreover have "those (map (decode_line \<circ> line_text) ls) = Some ls"
    using assms(1) by (induction ls) (auto simp: decode_text)
  ultimately show ?thesis using assms(2,3) by (simp add: tiny_run_def transaction_input_def)
qed

lemma sample_replay:
  "\<exists>g'. updateRestackChildStatus tiny_run ''demo'' \<lparr>sj_slug = ''demo'', sj_blob = tiny_id 0, sj_journal = sample_journal\<rparr> 2
     ChildReplayed (sample_sha (CHR ''3'')) [] None None journal_git =
   Inr (g', JournalUpdated \<lparr>sj_slug = ''demo'', sj_blob = tiny_id 1, sj_journal = replayed_journal\<rparr>)"
proof -
  let ?g = "journal_git\<lparr>tg_objects := [journal_json sample_journal, journal_json replayed_journal]\<rparr>"
  let ?ls = "[LUpdate (journalRefFor ''demo'') (tiny_id 1) (Some (tiny_id 0)),
    LUpdate (stagingRefFor ''demo'' 2) (sample_sha (CHR ''3'')) (Some [])]"
  have id0: "tiny_id 0 \<noteq> zero_oid" "tiny_id 0 \<noteq> []" "tiny_id 1 \<noteq> zero_oid" "sample_sha (CHR ''3'') \<noteq> zero_oid"
    "js_trim (sample_sha (CHR ''3'')) = sample_sha (CHR ''3'')" by code_simp+
  have "list_all plain_line ?ls" using id0 by (simp add: plain_line_def sample_names plain_name_def [of "[]"])
  moreover have "list_all (line_holds (tiny_refs ?g)) ?ls"
    using sample_names(5) id0 by (simp add: line_holds_def old_value_def tiny_refs_def journal_git_def tiny_id_trim)
  moreover have "list_all sets_value ?ls" using id0 by (simp add: sets_value_def tiny_id_trim)
  ultimately have "\<exists>g'. tiny_run ?g [''update-ref'', ''--stdin''] (transaction_input (map line_text ?ls)) = (g', tiny_answer 0 [] None)"
    using tiny_transaction [of ?ls ?g] by blast
  then obtain g' where "tiny_run ?g [''update-ref'', ''--stdin''] (transaction_input (map line_text ?ls)) = (g', tiny_answer 0 [] None)" ..
  then show ?thesis
    by (simp add: updateRestackChildStatus_def sample_status sample_blob sample_staging answer_ok_def tiny_answer_def)
qed

theorem replay_recorded_with_its_commit_witness:
  "\<exists>g'. updateRestackChildStatus tiny_run ''demo'' \<lparr>sj_slug = ''demo'', sj_blob = tiny_id 0, sj_journal = sample_journal\<rparr> 2
       ChildReplayed (sample_sha (CHR ''3'')) [] None None journal_git =
       Inr (g', JournalUpdated \<lparr>sj_slug = ''demo'', sj_blob = tiny_id 1, sj_journal = replayed_journal\<rparr>) \<and>
     tiny_object g' (tiny_id 1) = Some (journal_json replayed_journal)"
proof -
  obtain g' where r: "updateRestackChildStatus tiny_run ''demo'' \<lparr>sj_slug = ''demo'', sj_blob = tiny_id 0, sj_journal = sample_journal\<rparr> 2
     ChildReplayed (sample_sha (CHR ''3'')) [] None None journal_git =
   Inr (g', JournalUpdated \<lparr>sj_slug = ''demo'', sj_blob = tiny_id 1, sj_journal = replayed_journal\<rparr>)" using sample_replay ..
  have "sample_sha (CHR ''3'') \<noteq> zero_oid" by code_simp
  with replay_recorded_with_its_commit [OF tiny_store tiny_transactions r sample_names(1,2,3)] r show ?thesis
    by (auto simp: sample_names)
qed

end
