(* ===== verification/RouteStore.thy ===== *)
theory RouteStore
  imports RestackJournal
begin

text \<open>
  The store of route records (\<^verbatim>\<open>engine/routing/route-record-store.ts\<close>): every routing mutation is one
  reference transaction that also verifies the restack journal it was fenced on.
\<close>

section \<open>References\<close>

definition routeRecordRefFor :: "string \<Rightarrow> string \<Rightarrow> string" where
  "routeRecordRefFor slug roundId = ''refs/conductor/'' @ slug @ ''/routes/'' @ roundId"

definition repairMarkerRefFor :: "string \<Rightarrow> string" where
  "repairMarkerRefFor slug = ''refs/conductor/'' @ slug @ ''/repairing''"

definition revalidationQueueRefFor :: "string \<Rightarrow> string" where
  "revalidationQueueRefFor slug = ''refs/conductor/'' @ slug @ ''/revalidate''"

definition redRefFor :: "string \<Rightarrow> int \<Rightarrow> string" where
  "redRefFor slug child = ''refs/conductor/'' @ slug @ ''/red/c'' @ int_str child"

definition closureRefFor :: "string \<Rightarrow> int \<Rightarrow> string" where
  "closureRefFor slug child = ''refs/conductor/'' @ slug @ ''/closed/c'' @ int_str child"

definition MAX_REJECTED_PINS_PER_ROUND :: int where
  "MAX_REJECTED_PINS_PER_ROUND = MAX_CHILD_ID - 1"

definition rejectedPinRefFor :: "string \<Rightarrow> string \<Rightarrow> int \<Rightarrow> string throws" where
  "rejectedPinRefFor slug roundId n =
     (if n < 1 \<or> MAX_REJECTED_PINS_PER_ROUND < n
      then Inl (''rejected routing pin must be between 1 and '' @ int_str MAX_REJECTED_PINS_PER_ROUND)
      else Inr (''refs/conductor/'' @ slug @ ''/rejected/'' @ roundId @ ''/'' @ int_str n))"

definition isFeatureBranchRef :: "string \<Rightarrow> bool" where
  "isFeatureBranchRef ref =
     (let word = (\<lambda>s. case s of [] \<Rightarrow> False | c # cs \<Rightarrow>
            (is_digit c \<or> (97 \<le> (of_char c :: nat) \<and> (of_char c :: nat) \<le> 122)) \<and>
            list_all (\<lambda>d. is_digit d \<or> (97 \<le> (of_char d :: nat) \<and> (of_char d :: nat) \<le> 122) \<or> d = CHR ''-'') cs);
          feat = ''refs/heads/feat/'';
          rest = drop (length feat) ref
      in starts_with ref feat \<and>
         ((case rest of c # d # s # name \<Rightarrow> c = CHR ''c'' \<and> is_digit d \<and> d \<noteq> CHR ''0'' \<and> s = CHR ''/'' \<and> word name | _ \<Rightarrow> False) \<or>
          (starts_with rest ''daemon-'' \<and> word (drop 7 rest))))"

definition positive_digits :: "string \<Rightarrow> bool" where
  "positive_digits s = (case s of [] \<Rightarrow> False | c # cs \<Rightarrow> is_digit c \<and> c \<noteq> CHR ''0'' \<and> list_all is_digit cs)"

definition isRejectedPinRef :: "string \<Rightarrow> string \<Rightarrow> bool" where
  "isRejectedPinRef slug ref =
     (let pre = ''refs/conductor/'' @ slug @ ''/rejected/r'' in
      starts_with ref pre \<and>
      (case split_on (CHR ''/'') (drop (length pre) ref) of
         [r, n] \<Rightarrow> positive_digits r \<and> positive_digits n
       | _ \<Rightarrow> False))"

section \<open>What is written\<close>

definition route_kind_name :: "route_kind \<Rightarrow> string" where
  "route_kind_name k = (case k of KAudit \<Rightarrow> ''audit'' | KRevalidate \<Rightarrow> ''revalidate'' | KOperator \<Rightarrow> ''operator'')"

definition phase_name :: "round_phase \<Rightarrow> string" where
  "phase_name p = (case p of RPrepared \<Rightarrow> ''prepared'' | ROpen \<Rightarrow> ''open'' | RClosed \<Rightarrow> ''closed'')"

definition written :: "(string \<times> jval option) list \<Rightarrow> jval" where
  "written fs = JObj (List.map_filter (\<lambda>(k, v). map_option (Pair k) v) fs)"

definition charges_json :: "(string \<times> int) list \<Rightarrow> jval" where
  "charges_json cs = JObj (map (map_prod id JNum) cs)"

definition obligation_json :: "routed_obligation \<Rightarrow> jval" where
  "obligation_json b = JObj [(''branch'', JStr (ro_branch b)), (''head'', JStr (ro_head b)), (''tree'', JStr (ro_tree b))]"

definition item_json :: "routed_item \<Rightarrow> jval" where
  "item_json i = written
     ([(''findingId'', Some (JStr (ri_findingId i))), (''kind'', Some (JStr (route_kind_name (ri_kind i)))),
       (''owner'', Some (JNum (ri_owner i))), (''host'', Some (JNum (ri_host i))), (''reason'', Some (JStr (ri_reason i))),
       (''fallback'', Some (JArr (map JNum (ri_fallback i)))),
       (''rationale'', map_option JStr (ri_rationale i)),
       (''prerequisitePaths'', map_option string_array_json (ri_prerequisitePaths i))]
      @ (if ri_existingTask i then
           [(''existingTask'', Some (JBool True)), (''taskIds'', Some (string_array_json (ri_taskIds i))),
            (''restage'', map_option JBool (ri_restage i)), (''obligation'', map_option obligation_json (ri_obligation i))]
         else []))"

definition entry_json :: "host_entry \<Rightarrow> jval" where
  "entry_json e = written
     [(''host'', Some (JNum (he_host e))), (''pinnedBase'', Some (JStr (he_pinnedBase e))), (''tree'', Some (JStr (he_tree e))),
      (''revalidation'', map_option (\<lambda>p. JObj [(''queueBlob'', JStr (rp_queueBlob p)), (''generation'', JNum (rp_generation p)),
         (''closureSha'', JStr (rp_closureSha p))]) (he_revalidation e))]"

definition allocation_json :: "host_allocation \<Rightarrow> jval" where
  "allocation_json a = written
     [(''remTaskIds'', Some (string_array_json (ha_remTaskIds a))), (''blockBodies'', Some (string_array_json (ha_blockBodies a))),
      (''retryHint'', map_option JStr (ha_retryHint a))]"

definition receipt_json :: "round_receipt \<Rightarrow> jval" where
  "receipt_json r = written
     [(''laps'', Some (charges_json (rr_laps r))), (''growth'', Some (JNum (rr_growth r))),
      (''taskless'', Some (charges_json (rr_taskless r))), (''echo'', Some (charges_json (rr_echo r))),
      (''settlementId'', map_option JStr (rr_settlementId r)),
      (''acks'', Some (JObj (map (\<lambda>(c, b). (int_str c, JBool b)) (rr_acks r))))]"

definition fallback_json :: "route_fallback \<Rightarrow> jval" where
  "fallback_json f = JObj [(''from'', JNum (rf_from f)), (''to'', JNum (rf_to f)), (''evidence'', string_array_json (rf_evidence f)),
     (''branch'', JStr (rf_branch f)), (''head'', JStr (rf_head f))]"

definition reroute_json :: "reroute_phase \<Rightarrow> jval" where
  "reroute_json r = JObj [(''sourceBranch'', JStr (rt_sourceBranch r)), (''rejectedTip'', JStr (rt_rejectedTip r)),
     (''resetTip'', JStr (rt_resetTip r)), (''destination'', JNum (rt_destination r))]"

definition texts_json :: "(string \<times> string) list \<Rightarrow> jval" where
  "texts_json kvs = JObj (map (map_prod id JStr) kvs)"

definition operator_json :: "operator_section \<Rightarrow> jval" where
  "operator_json s = written
     [(''origin'', Some (JStr (os_origin s))), (''reason'', Some (JStr (os_reason s))), (''operator'', Some (JStr (os_operator s))),
      (''entryStep'', Some (JStr (os_entryStep s))),
      (''park'', map_option (\<lambda>t. JObj [(''token'', JStr t)]) (os_park s)),
      (''carried'', Some (JArr (map (\<lambda>(c, t). JObj [(''child'', JNum c), (''tip'', JStr t)]) (os_carried s)))),
      (''otherTips'', Some (texts_json (os_otherTips s))),
      (''priorRegion'', Some (JObj [(''statuses'', texts_json (os_statuses s)), (''verdicts'', texts_json (os_verdicts s))])),
      (''declaration'', map_option (\<lambda>(t, at'). JObj [(''tip'', JStr t), (''at'', JStr at')]) (os_declaration s)),
      (''abandon'', map_option (\<lambda>(a, b, st). JObj [(''rejectedTip'', JStr a), (''resetTip'', JStr b), (''stage'', JStr st)]) (os_abandon s))]"

definition outbox_json :: "outbox_entry list \<Rightarrow> jval" where
  "outbox_json es = JArr (map (\<lambda>e. JObj [(''eventId'', JStr (ob_eventId e)), (''occurredAt'', JStr (ob_occurredAt e)),
     (''event'', ob_event e)]) es)"

definition finding_json :: "pending_finding \<Rightarrow> jval" where
  "finding_json f = JObj [(''gate'', JStr ''architecture_review_as_built''), (''finding'', JStr (pf_finding f)),
     (''class'', JStr ''REMEDIABLE''), (''governingClause'', JStr (pf_governingClause f)), (''summary'', JStr (pf_summary f)),
     (''outcome'', JStr ''remediated'')]"

definition route_fields :: "route_record \<Rightarrow> (string \<times> jval option) list" where
  "route_fields r =
     [(''roundId'', Some (JStr (rd_roundId r))), (''kind'', Some (JStr (route_kind_name (rd_kind r)))),
      (''phase'', Some (JStr (phase_name (rd_phase r)))), (''items'', Some (JArr (map item_json (rd_items r)))),
      (''allocation'', Some (JObj (map (\<lambda>(c, a). (int_str c, allocation_json a)) (rd_allocation r)))),
      (''hosts'', Some (JObj (map (\<lambda>(c, s). (int_str c, JStr (name_of host_state_names s))) (rd_hosts r)))),
      (''hostReasons'', map_option (\<lambda>rs. JObj (map (\<lambda>(c, s). (int_str c, JStr s)) rs)) (rd_hostReasons r)),
      (''currentHostIndex'', Some (JNum (int (rd_currentHostIndex r)))), (''receipt'', Some (receipt_json (rd_receipt r))),
      (''operator'', map_option operator_json (rd_operator r)),
      (''sealedAuthored'', map_option JNum (rd_sealedAuthored r)),
      (''pendingAsBuiltFindings'', map_option (\<lambda>fs. JArr (map finding_json fs)) (rd_pendingAsBuiltFindings r)),
      (''entry'', map_option entry_json (rd_entry r)),
      (''fallback'', map_option (\<lambda>fs. JArr (map fallback_json fs)) (rd_fallback r)),
      (''reroute'', map_option reroute_json (rd_reroute r)),
      (''leafReturn'', map_option (\<lambda>(b, h). JObj [(''branch'', JStr b), (''head'', JStr h)]) (rd_leafReturn r)),
      (''outbox'', Some (outbox_json (rd_outbox r)))]"

definition route_json :: "route_record \<Rightarrow> jval" where
  "route_json r = written (route_fields r)"

definition marker_record_json :: "repair_marker \<Rightarrow> jval" where
  "marker_record_json m = JObj [(''host'', JNum (mk_host m)), (''roundId'', JStr (mk_roundId m))]"

definition queue_json :: "queue_record \<Rightarrow> jval" where
  "queue_json q = JObj [(''generation'', JNum (qr_generation q)), (''entries'', JArr (map queue_entry_json (qr_entries q))),
     (''outbox'', outbox_json (qr_outbox q))]"

definition serializeRouteRecord :: "(string \<Rightarrow> bool) \<Rightarrow> route_record \<Rightarrow> jval option" where
  "serializeRouteRecord is_date r =
     (if parseRouteRecord is_date (Some (route_json r)) = None then None else Some (route_json r))"

section \<open>Reading\<close>

datatype 'a blob_read = BlobAbsent | BlobUnreadable "string option" | BlobRead string 'a

definition readBlob :: "'g git_runner \<Rightarrow> string \<Rightarrow> 'g \<Rightarrow> 'g \<times> jval option blob_read" where
  "readBlob git ref g =
     (case git g [''rev-parse'', ''-q'', ''--verify'', ref] NoInput of
        (g1, None) \<Rightarrow> (g1, BlobUnreadable None)
      | (g1, Some r) \<Rightarrow>
          if ga_exitCode r = 1 then (g1, BlobAbsent)
          else (case (if ga_exitCode r = 0 then parseCommitSha (js_trim (ga_stdout r)) else None) of
              None \<Rightarrow> (g1, BlobUnreadable None)
            | Some blob \<Rightarrow>
                (case git g1 [''cat-file'', ''-p'', blob] NoInput of
                   (g2, content) \<Rightarrow>
                     (g2, if answer_ok content then BlobRead blob (ga_json (the content)) else BlobUnreadable None))))"

definition parse_read :: "(jval option \<Rightarrow> 'a option) \<Rightarrow> jval option blob_read \<Rightarrow> 'a blob_read" where
  "parse_read parse v =
     (case v of
        BlobAbsent \<Rightarrow> BlobAbsent
      | BlobUnreadable b \<Rightarrow> BlobUnreadable b
      | BlobRead blob content \<Rightarrow> (case parse content of Some x \<Rightarrow> BlobRead blob x | None \<Rightarrow> BlobUnreadable (Some blob)))"

definition readRouteRecord :: "(string \<Rightarrow> bool) \<Rightarrow> 'g git_runner \<Rightarrow> string \<Rightarrow> string \<Rightarrow> 'g \<Rightarrow> 'g \<times> route_record blob_read" where
  "readRouteRecord is_date git slug roundId g =
     map_prod id (parse_read (parseRouteRecord is_date)) (readBlob git (routeRecordRefFor slug roundId) g)"

definition readRepairMarker :: "'g git_runner \<Rightarrow> string \<Rightarrow> 'g \<Rightarrow> 'g \<times> repair_marker blob_read" where
  "readRepairMarker git slug g = map_prod id (parse_read parseRepairMarker) (readBlob git (repairMarkerRefFor slug) g)"

definition readRevalidationQueue :: "(string \<Rightarrow> bool) \<Rightarrow> 'g git_runner \<Rightarrow> string \<Rightarrow> 'g \<Rightarrow> 'g \<times> queue_record blob_read" where
  "readRevalidationQueue is_date git slug g =
     map_prod id (parse_read (parseRevalidationQueueRecord is_date)) (readBlob git (revalidationQueueRefFor slug) g)"

datatype next_round = NextRound string | RoundLimit | RoundUnavailable

definition nextRoundId :: "'g git_runner \<Rightarrow> string \<Rightarrow> 'g \<Rightarrow> 'g \<times> next_round" where
  "nextRoundId git slug g =
     (let pre = ''refs/conductor/'' @ slug @ ''/routes/'' in
      case git g [''for-each-ref'', ''--format=%(refname)'', pre] NoInput of
        (g1, None) \<Rightarrow> (g1, RoundUnavailable)
      | (g1, Some listed) \<Rightarrow> (g1,
          if ga_exitCode listed \<noteq> 0 then RoundUnavailable
          else (case those (map (\<lambda>ref. parseRoundId (drop (length pre) ref))
                  (filter (\<lambda>l. l \<noteq> []) (split_on (CHR 0x0A) (ga_stdout listed)))) of
              None \<Rightarrow> RoundUnavailable
            | Some rounds \<Rightarrow>
                let top = foldl max 0 (map (\<lambda>r. digits_value (tl r)) rounds) in
                if top = MAX_ROUTE_ROUNDS then RoundLimit
                else (case parseRoundId (''r'' @ int_str (top + 1)) of Some r \<Rightarrow> NextRound r | None \<Rightarrow> RoundUnavailable))))"

section \<open>The transaction\<close>

record stored_route =
  sr_slug :: string
  sr_blob :: string
  sr_record :: route_record

record stored_marker =
  sm_slug :: string
  sm_blob :: string

record stored_queue =
  sq_slug :: string
  sq_blob :: string

datatype routing_op =
    CreateRecord route_record
  | UpdateRecord stored_route route_record
  | DeleteRecord stored_route
  | CreateMarker repair_marker
  | ReplaceMarker stored_marker repair_marker
  | UpdateQueue stored_queue queue_record
  | DeleteQueue stored_queue
  | UpdateBranch string string string
  | CreatePin string string
  | UpdateMarker string string
  | DeleteMarker string
  | VerifyRef string string

datatype route_write = RouteUpdated | RouteCasFailed | RouteFenced | RouteUnavailable

definition routingFenceOpen :: "journal_read \<Rightarrow> string option \<Rightarrow> bool" where
  "routingFenceOpen journal ownerOpId =
     (case journal of
        JournalMissing \<Rightarrow> True
      | JournalUnreadable _ \<Rightarrow> False
      | JournalRead s \<Rightarrow>
          let j = sj_journal s in
          rj_state j = JAborted \<or> (rj_state j = JApplied \<and> rj_followOnCause j = None) \<or>
          (rj_state j = JSynced \<and> ownerOpId = Some (rj_opId j)))"

definition hash_blob :: "'g git_runner \<Rightarrow> jval \<Rightarrow> 'g \<Rightarrow> 'g \<times> string option" where
  "hash_blob git v g =
     (case git g [''hash-object'', ''-w'', ''--stdin''] (JsonText v) of
        (g1, r) \<Rightarrow> (g1, if answer_ok r then parseCommitSha (js_trim (ga_stdout (the r))) else None))"

text \<open>The line of one operation; \<open>None\<close> makes the whole transaction unavailable.\<close>

definition blob_line :: "'g git_runner \<Rightarrow> jval option \<Rightarrow> (string \<Rightarrow> ref_line) \<Rightarrow> 'g \<Rightarrow> 'g \<times> ref_line option" where
  "blob_line git v line g =
     (case v of None \<Rightarrow> (g, None) | Some w \<Rightarrow> map_prod id (map_option line) (hash_blob git w g))"

definition op_line :: "(string \<Rightarrow> bool) \<Rightarrow> 'g git_runner \<Rightarrow> string \<Rightarrow> routing_op \<Rightarrow> 'g \<Rightarrow> 'g \<times> ref_line option" where
  "op_line is_date git slug op' g =
     (case op' of
        CreateRecord r \<Rightarrow>
          blob_line git (serializeRouteRecord is_date r) (\<lambda>b. LUpdate (routeRecordRefFor slug (rd_roundId r)) b (Some zero_oid)) g
      | UpdateRecord previous r \<Rightarrow>
          if sr_slug previous \<noteq> slug \<or> rd_roundId (sr_record previous) \<noteq> rd_roundId r then (g, None)
          else blob_line git (serializeRouteRecord is_date r)
            (\<lambda>b. LUpdate (routeRecordRefFor slug (rd_roundId r)) b (Some (sr_blob previous))) g
      | DeleteRecord previous \<Rightarrow>
          (g, if sr_slug previous \<noteq> slug then None
              else Some (LDelete (routeRecordRefFor slug (rd_roundId (sr_record previous))) (sr_blob previous)))
      | CreateMarker m \<Rightarrow>
          blob_line git (Some (marker_record_json m)) (\<lambda>b. LUpdate (repairMarkerRefFor slug) b (Some zero_oid)) g
      | ReplaceMarker previous m \<Rightarrow>
          if sm_slug previous \<noteq> slug then (g, None)
          else blob_line git (Some (marker_record_json m)) (\<lambda>b. LUpdate (repairMarkerRefFor slug) b (Some (sm_blob previous))) g
      | UpdateQueue previous q \<Rightarrow>
          if sq_slug previous \<noteq> slug then (g, None)
          else blob_line git (if parseRevalidationQueueRecord is_date (Some (queue_json q)) = None then None else Some (queue_json q))
            (\<lambda>b. LUpdate (revalidationQueueRefFor slug) b (Some (sq_blob previous))) g
      | DeleteQueue previous \<Rightarrow>
          (g, if sq_slug previous \<noteq> slug then None else Some (LDelete (revalidationQueueRefFor slug) (sq_blob previous)))
      | UpdateBranch ref old new \<Rightarrow> (g, if isFeatureBranchRef ref then Some (LUpdate ref new (Some old)) else None)
      | CreatePin ref new \<Rightarrow> (g, if isRejectedPinRef slug ref then Some (LUpdate ref new (Some zero_oid)) else None)
      | UpdateMarker old new \<Rightarrow> (g, Some (LUpdate (repairMarkerRefFor slug) new (Some old)))
      | DeleteMarker old \<Rightarrow> (g, Some (LDelete (repairMarkerRefFor slug) old))
      | VerifyRef ref value \<Rightarrow> (g, Some (LVerify ref value)))"

fun op_lines :: "(string \<Rightarrow> bool) \<Rightarrow> 'g git_runner \<Rightarrow> string \<Rightarrow> routing_op list \<Rightarrow> 'g \<Rightarrow> 'g \<times> ref_line list option" where
  "op_lines is_date git slug [] g = (g, Some [])"
| "op_lines is_date git slug (op' # ops) g =
     (case op_line is_date git slug op' g of
        (g1, None) \<Rightarrow> (g1, None)
      | (g1, Some l) \<Rightarrow> map_prod id (map_option (\<lambda>ls. l # ls)) (op_lines is_date git slug ops g1))"

text \<open>The reference each operation fenced and the value it expected there.\<close>

definition op_expects :: "string \<Rightarrow> routing_op \<Rightarrow> string \<times> string option" where
  "op_expects slug op' =
     (case op' of
        CreateRecord r \<Rightarrow> (routeRecordRefFor slug (rd_roundId r), None)
      | UpdateRecord previous r \<Rightarrow> (routeRecordRefFor slug (rd_roundId r), Some (sr_blob previous))
      | DeleteRecord previous \<Rightarrow> (routeRecordRefFor slug (rd_roundId (sr_record previous)), Some (sr_blob previous))
      | CreateMarker m \<Rightarrow> (repairMarkerRefFor slug, None)
      | ReplaceMarker previous m \<Rightarrow> (repairMarkerRefFor slug, Some (sm_blob previous))
      | UpdateQueue previous q \<Rightarrow> (revalidationQueueRefFor slug, Some (sq_blob previous))
      | DeleteQueue previous \<Rightarrow> (revalidationQueueRefFor slug, Some (sq_blob previous))
      | UpdateBranch ref old new \<Rightarrow> (ref, Some old)
      | CreatePin ref new \<Rightarrow> (ref, None)
      | UpdateMarker old new \<Rightarrow> (repairMarkerRefFor slug, Some old)
      | DeleteMarker old \<Rightarrow> (repairMarkerRefFor slug, Some old)
      | VerifyRef ref value \<Rightarrow> (ref, Some value))"

text \<open>\<open>None\<close> when two operations expect different values of one reference.\<close>

fun expected_refs :: "(string \<times> string option) list \<Rightarrow> (string \<times> string option) list \<Rightarrow> (string \<times> string option) list option" where
  "expected_refs acc [] = Some acc"
| "expected_refs acc ((ref, v) # rest) =
     (case map_of acc ref of
        Some prior \<Rightarrow> if prior = v then expected_refs acc rest else None
      | None \<Rightarrow> expected_refs (acc @ [(ref, v)]) rest)"

fun classify_failure :: "'g git_runner \<Rightarrow> (string \<times> string option) list \<Rightarrow> 'g \<Rightarrow> 'g \<times> route_write" where
  "classify_failure git [] g = (g, RouteUnavailable)"
| "classify_failure git ((ref, v) # rest) g =
     (case git g [''rev-parse'', ''-q'', ''--verify'', ref] NoInput of
        (g1, None) \<Rightarrow> (g1, RouteUnavailable)
      | (g1, Some r) \<Rightarrow>
          if ga_exitCode r \<noteq> 0 \<and> ga_exitCode r \<noteq> 1 then (g1, RouteUnavailable)
          else if (if ga_exitCode r = 1 then None else parseCommitSha (js_trim (ga_stdout r))) \<noteq> v then (g1, RouteCasFailed)
          else classify_failure git rest g1)"

definition journal_value :: "journal_read \<Rightarrow> string option" where
  "journal_value journal = (case journal of JournalRead s \<Rightarrow> Some (sj_blob s) | _ \<Rightarrow> None)"

definition fence_line :: "string \<Rightarrow> journal_read \<Rightarrow> ref_line" where
  "fence_line slug journal =
     LVerify (journalRefFor slug) (case journal_value journal of Some b \<Rightarrow> b | None \<Rightarrow> zero_oid)"

definition writeRoutingTransaction ::
  "(string \<Rightarrow> bool) \<Rightarrow> 'g git_runner \<Rightarrow> string \<Rightarrow> routing_op list \<Rightarrow> 'g \<Rightarrow> 'g \<times> route_write" where
  "writeRoutingTransaction is_date git slug ops g =
     (if slug = [] \<or> ops = [] then (g, RouteUnavailable)
      else (case readRestackJournal is_date git slug g of
          (g0, JournalUnreadable _) \<Rightarrow> (g0, RouteUnavailable)
        | (g0, journal) \<Rightarrow>
            if \<not> routingFenceOpen journal None then (g0, RouteFenced)
            else (case op_lines is_date git slug ops g0 of
                (g1, None) \<Rightarrow> (g1, RouteUnavailable)
              | (g1, Some ls) \<Rightarrow>
                  (case git g1 [''update-ref'', ''--stdin''] (transaction_input (map line_text (ls @ [fence_line slug journal]))) of
                     (g2, None) \<Rightarrow> (g2, RouteUnavailable)
                   | (g2, Some updated) \<Rightarrow>
                       if ga_exitCode updated = 0 then (g2, RouteUpdated)
                       else (case expected_refs [] (map (op_expects slug) ops @ [(journalRefFor slug, journal_value journal)]) of
                           None \<Rightarrow> (g2, RouteUnavailable)
                         | Some expected \<Rightarrow> classify_failure git expected g2)))))"

definition writeRouteRecord :: "(string \<Rightarrow> bool) \<Rightarrow> 'g git_runner \<Rightarrow> stored_route \<Rightarrow> route_record \<Rightarrow> 'g \<Rightarrow> 'g \<times> route_write" where
  "writeRouteRecord is_date git previous nx g =
     writeRoutingTransaction is_date git (sr_slug previous) [UpdateRecord previous nx] g"

section \<open>Records\<close>

text \<open>\<open>input\<close> carries the round id, kind, items, allocation, findings, operator section and denominator.\<close>

definition createRouteRecord ::
  "(string \<Rightarrow> bool) \<Rightarrow> 'g git_runner \<Rightarrow> string \<Rightarrow> route_record \<Rightarrow> round_receipt option \<Rightarrow> 'g \<Rightarrow> 'g \<times> (route_write \<times> route_record option)" where
  "createRouteRecord is_date git slug input receipt g =
     (if rd_allocation input = [] then (g, (RouteUnavailable, None))
      else
        let r = input\<lparr>rd_phase := RPrepared, rd_hosts := map (\<lambda>(c, _). (c, HPending)) (rd_allocation input),
                      rd_currentHostIndex := 0, rd_hostReasons := None, rd_entry := None, rd_fallback := None,
                      rd_reroute := None, rd_leafReturn := None,
                      rd_receipt := (case receipt of Some x \<Rightarrow> x | None \<Rightarrow> emptyUnsettledReceipt), rd_outbox := []\<rparr>
        in (case writeRoutingTransaction is_date git slug [CreateRecord r] g of
              (g1, RouteUpdated) \<Rightarrow> (g1, (RouteUpdated, Some r))
            | (g1, w) \<Rightarrow> (g1, (w, None))))"

text \<open>\<open>event\<close> is the entry of the phase event, with its fresh id and time.\<close>

definition transitionHost ::
  "route_record \<Rightarrow> int \<Rightarrow> host_state \<Rightarrow> string option \<Rightarrow> outbox_entry \<Rightarrow> route_record option" where
  "transitionHost r host dst reason event =
     (case map_of (rd_hosts r) host of
        None \<Rightarrow> None
      | Some src \<Rightarrow>
          if \<not> isLegalHostTransition src dst \<or> (reason \<noteq> None \<and> dst \<noteq> HRepairing) then None
          else
            let prior = (case rd_hostReasons r of Some rs \<Rightarrow> rs | None \<Rightarrow> []);
                reasons = (case reason of None \<Rightarrow> filter (\<lambda>(c, _). c \<noteq> host) prior | Some t \<Rightarrow> AList.update host t prior)
            in Some (r\<lparr>rd_hosts := AList.update host dst (rd_hosts r),
                       rd_hostReasons := (if reasons = [] then None else Some reasons),
                       rd_outbox := rd_outbox r @ [event]\<rparr>))"

definition routedAppliedLines :: "string \<Rightarrow> restack_journal \<Rightarrow> string \<Rightarrow> ref_line list option" where
  "routedAppliedLines slug j ownerOpId =
     (case rj_routed j of
        None \<Rightarrow> None
      | Some routed \<Rightarrow>
          if \<not> routingFenceOpen (JournalRead \<lparr>sj_slug = slug, sj_blob = jr_routeOld routed, sj_journal = j\<rparr>) (Some ownerOpId) then None
          else map_option (\<lambda>new. [LUpdate (routeRecordRefFor slug (jr_roundId routed)) new (Some (jr_routeOld routed)),
                                  LDelete (repairMarkerRefFor slug) (jr_markerOld routed)]) (jr_routeNew routed))"

end
