(* ===== verification/RouteProps.thy ===== *)
theory RouteProps
  imports RouteStore JournalProps
begin

text \<open>
  Properties of routed repairs: hosts, journals and replays only move forward, a record that is read has one
  host in flight and every moved repair ends at a host that kept it, and no routing write lands while a
  restack is under way.
\<close>

section \<open>Transitions end\<close>

definition host_rank :: "host_state \<Rightarrow> nat" where
  "host_rank s = (case s of HPending \<Rightarrow> 4 | HAdmitted \<Rightarrow> 3 | HRepairing \<Rightarrow> 2 | HRerouteMoved \<Rightarrow> 1 | HBuilt \<Rightarrow> 1
     | HAbandoning \<Rightarrow> 1 | HRestacked \<Rightarrow> 0 | HDone \<Rightarrow> 0 | HRerouted \<Rightarrow> 0 | HAbandoned \<Rightarrow> 0)"

definition journal_rank :: "journal_state \<Rightarrow> nat" where
  "journal_rank s = (case s of JPlanned \<Rightarrow> 4 | JReady \<Rightarrow> 3 | JMoved \<Rightarrow> 2 | JSynced \<Rightarrow> 1 | JRollingBack \<Rightarrow> 1
     | JApplied \<Rightarrow> 0 | JAborted \<Rightarrow> 0)"

definition replay_rank :: "child_status \<Rightarrow> nat" where
  "replay_rank s = (case s of ChildPending \<Rightarrow> 2 | ChildReplayed \<Rightarrow> 1 | ChildResolved \<Rightarrow> 0)"

text \<open>Consecutive elements are related.\<close>

fun legal_path :: "('a \<Rightarrow> 'a \<Rightarrow> bool) \<Rightarrow> 'a list \<Rightarrow> bool" where
  "legal_path R (x # y # zs) = (R x y \<and> legal_path R (y # zs))"
| "legal_path R _ = True"

lemma legal_path_rank:
  assumes "\<And>x y. R x y \<Longrightarrow> f y < (f x :: nat)" "legal_path R (x # xs)"
  shows "length xs \<le> f x"
  using assms(2)
proof (induction xs arbitrary: x)
  case Nil
  then show ?case by simp
next
  case (Cons y ys)
  then have "length ys \<le> f y" "f y < f x" using assms(1) by auto
  then show ?case by simp
qed

lemma legal_path_bound:
  assumes "legal_path R xs" "\<And>x y. R x y \<Longrightarrow> f y < (f x :: nat)" "\<And>x. f x \<le> n"
  shows "length xs \<le> n + 1"
proof (cases xs)
  case (Cons a list)
  with legal_path_rank [of R f a list] assms(1,2) have "length list \<le> f a" by blast
  with assms(3) [of a] Cons show ?thesis by simp
qed simp

definition phase_rank :: "round_phase \<Rightarrow> nat" where
  "phase_rank p = (case p of RPrepared \<Rightarrow> 2 | ROpen \<Rightarrow> 1 | RClosed \<Rightarrow> 0)"

text \<open>
  Nothing that is repaired can go round in circles. A host makes at most four legal
  moves, and so does a restack journal, a replayed child two and a round two; and the states without a
  further move are exactly the ones that count as finished.
\<close>

theorem lifecycles_end:
  assumes "legal_path isLegalHostTransition hosts" and "legal_path isLegalJournalTransition journals"
    and "legal_path isLegalChildStatusTransition children" and "legal_path isLegalRoundPhaseTransition phases"
  shows "length hosts \<le> 5 \<and> length journals \<le> 5 \<and> length children \<le> 3 \<and> length phases \<le> 3 \<and>
    ((\<not> (\<exists>t. isLegalHostTransition s t)) = (s \<in> {HRestacked, HDone, HRerouted, HAbandoned})) \<and>
    ((\<not> (\<exists>t. isLegalJournalTransition j t)) = (j \<in> {JApplied, JAborted}))"
proof -
  have h: "length hosts \<le> 4 + 1"
    by (rule legal_path_bound [OF assms(1), of host_rank])
      (auto simp: isLegalHostTransition_def host_rank_def split: host_state.splits)
  have j: "length journals \<le> 4 + 1"
    by (rule legal_path_bound [OF assms(2), of journal_rank])
      (auto simp: isLegalJournalTransition_def journal_rank_def split: journal_state.splits)
  have c: "length children \<le> 2 + 1"
    by (rule legal_path_bound [OF assms(3), of replay_rank])
      (auto simp: isLegalChildStatusTransition_def replay_rank_def split: child_status.splits)
  have p: "length phases \<le> 2 + 1"
    by (rule legal_path_bound [OF assms(4), of phase_rank])
      (auto simp: isLegalRoundPhaseTransition_def phase_rank_def split: round_phase.splits)
  have "(\<not> (\<exists>t. isLegalHostTransition s t)) = (s \<in> {HRestacked, HDone, HRerouted, HAbandoned})"
    by (cases s) (auto simp: isLegalHostTransition_def)
  moreover have "(\<not> (\<exists>t. isLegalJournalTransition j t)) = (j \<in> {JApplied, JAborted})"
    by (cases j) (auto simp: isLegalJournalTransition_def)
  ultimately show ?thesis using h j c p by simp
qed

theorem lifecycles_end_witness:
  "length [HPending, HAdmitted, HRepairing, HBuilt, HRestacked] \<le> 5 \<and> \<not> (\<exists>t. isLegalHostTransition HDone t)"
  using lifecycles_end [of "[HPending, HAdmitted, HRepairing, HBuilt, HRestacked]" "[JPlanned, JReady, JMoved, JSynced, JApplied]"
      "[ChildPending, ChildReplayed, ChildResolved]" "[RPrepared, ROpen, RClosed]" HDone JApplied]
  by (simp add: isLegalHostTransition_def isLegalJournalTransition_def isLegalChildStatusTransition_def isLegalRoundPhaseTransition_def)

section \<open>What a read record promises\<close>

lemma collect_distinct: "collect_entries p kvs acc = Some xs \<Longrightarrow> distinct (map fst acc) \<Longrightarrow> distinct (map fst xs)"
  by (induction p kvs acc rule: collect_entries.induct) (auto simp: distinct_update split: option.splits)

lemma ensure_Some: "ensure b = Some u \<longleftrightarrow> b"
  by (simp add: ensure_def)

lemma collect_keys:
  "collect_entries p kvs acc = Some xs \<Longrightarrow> (\<And>kv k v. p kv = Some (k, v) \<Longrightarrow> P k) \<Longrightarrow> \<forall>(k, v)\<in>set acc. P k \<Longrightarrow> \<forall>(k, v)\<in>set xs. P k"
proof (induction p kvs acc rule: collect_entries.induct)
  case (1 p acc)
  then show ?case by simp
next
  case (2 p kv rest acc)
  then obtain k v where kv: "p kv = Some (k, v)" "collect_entries p rest (AList.update k v acc) = Some xs"
    by (auto split: option.splits)
  have "\<forall>(k', v')\<in>set (AList.update k v acc). P k'"
  proof -
    have "fst ` set (AList.update k v acc) = insert k (fst ` set acc)" by (simp add: dom_update)
    moreover have "\<forall>x\<in>fst ` set acc. P x" using "2.prems"(3) by auto
    ultimately have "\<forall>x\<in>fst ` set (AList.update k v acc). P x" using "2.prems"(2) kv(1) by auto
    then show ?thesis by auto
  qed
  with "2.IH" [OF kv(1) refl kv(2)] "2.prems"(2) show ?case by blast
qed

lemma parsed_hosts:
  assumes "parseHosts v = Some hosts"
  shows "distinct (map fst hosts)" "\<forall>(c, s)\<in>set hosts. 1 \<le> c \<and> c \<le> MAX_CHILD_ID"
proof -
  obtain kvs where c: "collect_entries parse_host kvs [] = Some hosts"
    using assms by (auto simp: parseHosts_def parse_entries_def bind_eq_Some_conv)
  from collect_distinct [OF c] show "distinct (map fst hosts)" by simp
  show "\<forall>(c, s)\<in>set hosts. 1 \<le> c \<and> c \<le> MAX_CHILD_ID"
    by (rule collect_keys [OF c])
      (auto simp: parse_host_def parseChildId_def Let_def bind_eq_Some_conv split: if_splits)
qed

lemma parsed_record:
  assumes "parseRouteRecord is_date v = Some r"
  shows "\<exists>w. parseHosts w = Some (rd_hosts r)" "rd_currentHostIndex r < length (rd_hosts r)"
    "hasConsistentRouteLifecycle (rd_phase r) (rd_hosts r) (rd_currentHostIndex r) (rd_entry r) (rd_fallback r) (rd_reroute r)"
    "rd_reroute r = None \<or> validatedReroute (rd_hosts r) (rd_fallback r) (rd_reroute r) \<noteq> None"
proof -
  have "(\<exists>w. parseHosts w = Some (rd_hosts r)) \<and> rd_currentHostIndex r < length (rd_hosts r) \<and>
    hasConsistentRouteLifecycle (rd_phase r) (rd_hosts r) (rd_currentHostIndex r) (rd_entry r) (rd_fallback r) (rd_reroute r) \<and>
    (rd_reroute r = None \<or> validatedReroute (rd_hosts r) (rd_fallback r) (rd_reroute r) \<noteq> None)"
    using assms unfolding parseRouteRecord_def Let_def
    by (clarsimp simp: bind_eq_Some_conv ensure_Some simp del: jget.simps) (intro conjI exI, assumption, linarith)
  then show "\<exists>w. parseHosts w = Some (rd_hosts r)" "rd_currentHostIndex r < length (rd_hosts r)"
    "hasConsistentRouteLifecycle (rd_phase r) (rd_hosts r) (rd_currentHostIndex r) (rd_entry r) (rd_fallback r) (rd_reroute r)"
    "rd_reroute r = None \<or> validatedReroute (rd_hosts r) (rd_fallback r) (rd_reroute r) \<noteq> None" by blast+
qed

definition moves :: "route_fallback list \<Rightarrow> (int \<times> int) set" where
  "moves fb = (\<lambda>m. (rf_from m, rf_to m)) ` set fb"

lemma moved_ends:
  assumes "hasConsistentFallback hosts fb" "\<forall>(c, s)\<in>set hosts. c \<le> MAX_CHILD_ID"
    and "map_of hosts c = Some t" "isMovedHostState t"
  shows "\<exists>d u. (c, d) \<in> (moves fb)\<^sup>+ \<and> c < d \<and> map_of hosts d = Some u \<and> \<not> isMovedHostState u"
  using assms(3,4)
proof (induction "nat (MAX_CHILD_ID - c)" arbitrary: c t rule: less_induct)
  case less
  then have "(c, t) \<in> set hosts" by (auto dest: map_of_SomeD)
  with assms(1) less.prems obtain m where m: "m \<in> set fb" "rf_from m = c" "movement_ok hosts m"
    by (auto simp: hasConsistentFallback_def list_all_iff)
  then obtain u where u: "map_of hosts (rf_to m) = Some u" "c < rf_to m" by (auto simp: movement_ok_def)
  have step: "(c, rf_to m) \<in> moves fb" using m by (force simp: moves_def)
  show ?case
  proof (cases "isMovedHostState u")
    case False
    with step u show ?thesis by blast
  next
    case True
    have "rf_to m \<le> MAX_CHILD_ID" using assms(2) u(1) by (auto dest: map_of_SomeD)
    with u(2) have "nat (MAX_CHILD_ID - rf_to m) < nat (MAX_CHILD_ID - c)" by simp
    from less.hyps [OF this u(1) True] obtain d u' where "(rf_to m, d) \<in> (moves fb)\<^sup>+" "rf_to m < d"
      "map_of hosts d = Some u'" "\<not> isMovedHostState u'" by blast
    with step u(2) show ?thesis by (meson trancl_into_trancl2 less_trans)
  qed
qed

text \<open>
  C18: a record that passes the schema check describes one repair in flight: it names a
  current host; a host that has entered its region is that current host and the round is open; a closed
  round has no host left on its way; and, where the record lists its movements, every host whose repair
  was moved leads, always upward, to a host that kept it.
\<close>

theorem route_record_single_flight:
  assumes "parseRouteRecord is_date v = Some r"
  shows "\<exists>h s. currentHostOf (rd_hosts r) (rd_currentHostIndex r) = Some h \<and> map_of (rd_hosts r) h = Some s \<and>
    (\<forall>c t. map_of (rd_hosts r) c = Some t \<longrightarrow> isActiveHostState t \<longrightarrow> c = h \<and> rd_phase r = ROpen) \<and>
    (rd_phase r = RClosed \<longrightarrow> (\<forall>c t. map_of (rd_hosts r) c = Some t \<longrightarrow> t \<in> {HRestacked, HDone, HRerouted, HAbandoned})) \<and>
    (\<forall>fb c t. rd_fallback r = Some fb \<longrightarrow> map_of (rd_hosts r) c = Some t \<longrightarrow> isMovedHostState t \<longrightarrow>
       (\<exists>d u. (c, d) \<in> (moves fb)\<^sup>+ \<and> c < d \<and> map_of (rd_hosts r) d = Some u \<and> \<not> isMovedHostState u))"
proof -
  note p = parsed_record [OF assms]
  obtain w where w: "parseHosts w = Some (rd_hosts r)" using p(1) ..
  note hosts = parsed_hosts [OF w]
  obtain h s where h: "currentHostOf (rd_hosts r) (rd_currentHostIndex r) = Some h" "map_of (rd_hosts r) h = Some s"
    using p(3) by (auto simp: hasConsistentRouteLifecycle_def split: option.splits)
  have mem: "(c, t) \<in> set (rd_hosts r)" if "map_of (rd_hosts r) c = Some t" for c t using that by (rule map_of_SomeD)
  have active: "c = h \<and> rd_phase r = ROpen" if "map_of (rd_hosts r) c = Some t" "isActiveHostState t" for c t
  proof (cases "rd_phase r")
    case RPrepared
    with p(3) h mem [OF that(1)] that(2) show ?thesis
      by (auto simp: hasConsistentRouteLifecycle_def isActiveHostState_def list_all_iff)
  next
    case ROpen
    have "c = h"
    proof (rule ccontr)
      assume "c \<noteq> h"
      with ROpen p(3) h mem [OF that(1)] that(2) show False
        by (auto simp: hasConsistentRouteLifecycle_def list_ex_iff Let_def)
    qed
    with ROpen show ?thesis by simp
  next
    case RClosed
    with p(3) h mem [OF that(1)] that show ?thesis
      by (cases "c = h") (auto simp: hasConsistentRouteLifecycle_def isActiveHostState_def closed_other_def list_all_iff)
  qed
  have closed: "t \<in> {HRestacked, HDone, HRerouted, HAbandoned}" if "rd_phase r = RClosed" "map_of (rd_hosts r) c = Some t" for c t
    using p(3) h mem [OF that(2)] that
    by (cases "c = h") (auto simp: hasConsistentRouteLifecycle_def closed_other_def list_all_iff)
  have fb: "hasConsistentFallback (rd_hosts r) fb" if "rd_fallback r = Some fb" for fb
    using p(3) h that by (simp add: hasConsistentRouteLifecycle_def)
  have "\<forall>(c, s)\<in>set (rd_hosts r). c \<le> MAX_CHILD_ID" using hosts(2) by auto
  with moved_ends [OF fb] have "\<exists>d u. (c, d) \<in> (moves fb)\<^sup>+ \<and> c < d \<and> map_of (rd_hosts r) d = Some u \<and> \<not> isMovedHostState u"
    if "rd_fallback r = Some fb" "map_of (rd_hosts r) c = Some t" "isMovedHostState t" for fb c t using that by blast
  with h active closed show ?thesis by blast
qed

definition sample_route :: jval where
  "sample_route = JObj [(''roundId'', JStr ''r1''), (''kind'', JStr ''audit''), (''phase'', JStr ''open''),
     (''items'', JArr []), (''allocation'', JObj []), (''hosts'', JObj [(''1'', JStr ''done''), (''2'', JStr ''repairing'')]),
     (''currentHostIndex'', JNum 1), (''receipt'', JObj []), (''outbox'', JArr [])]"

definition sample_record :: route_record where
  "sample_record = \<lparr>rd_roundId = ''r1'', rd_kind = KAudit, rd_phase = ROpen, rd_items = [], rd_allocation = [],
     rd_hosts = [(1, HDone), (2, HRepairing)], rd_hostReasons = None, rd_currentHostIndex = 1,
     rd_receipt = emptyUnsettledReceipt, rd_operator = None, rd_sealedAuthored = None,
     rd_pendingAsBuiltFindings = None, rd_entry = None, rd_fallback = None, rd_reroute = None, rd_leafReturn = None, rd_outbox = []\<rparr>"

lemma sample_parsed: "parseRouteRecord (\<lambda>_. True) (Some sample_route) = Some sample_record"
  by code_simp

theorem route_record_single_flight_witness:
  "currentHostOf (rd_hosts sample_record) (rd_currentHostIndex sample_record) = Some 2"
proof -
  from route_record_single_flight [OF sample_parsed] obtain h where
    "currentHostOf (rd_hosts sample_record) (rd_currentHostIndex sample_record) = Some h"
    "\<forall>c t. map_of (rd_hosts sample_record) c = Some t \<longrightarrow> isActiveHostState t \<longrightarrow> c = h" by blast
  moreover have "map_of (rd_hosts sample_record) 2 = Some HRepairing" "isActiveHostState HRepairing"
    by (simp_all add: sample_record_def isActiveHostState_def)
  ultimately show ?thesis by metis
qed

text \<open>
  A record may still claim that a repair was moved without saying where: the movements are checked only when
  they are recorded.
\<close>

theorem moved_host_without_movement:
  "\<exists>r. parseRouteRecord (\<lambda>_. True) (Some (JObj [(''roundId'', JStr ''r1''), (''kind'', JStr ''audit''), (''phase'', JStr ''closed''),
     (''items'', JArr []), (''allocation'', JObj []), (''hosts'', JObj [(''1'', JStr ''rerouted''), (''2'', JStr ''done'')]),
     (''currentHostIndex'', JNum 1), (''receipt'', JObj []), (''outbox'', JArr [])])) = Some r \<and>
     map_of (rd_hosts r) 1 = Some HRerouted \<and> rd_fallback r = None"
proof -
  let ?r = "sample_record\<lparr>rd_phase := RClosed, rd_hosts := [(1, HRerouted), (2, HDone)]\<rparr>"
  have "parseRouteRecord (\<lambda>_. True) (Some (JObj [(''roundId'', JStr ''r1''), (''kind'', JStr ''audit''), (''phase'', JStr ''closed''),
     (''items'', JArr []), (''allocation'', JObj []), (''hosts'', JObj [(''1'', JStr ''rerouted''), (''2'', JStr ''done'')]),
     (''currentHostIndex'', JNum 1), (''receipt'', JObj []), (''outbox'', JArr [])])) = Some ?r" by code_simp
  then show ?thesis by (simp add: sample_record_def)
qed

section \<open>The fence\<close>

lemma read_journal:
  assumes "object_store git refs objects others" and "readRestackJournal is_date git slug g = (g', JournalRead s)"
  shows "\<exists>v. objects g' (sj_blob s) = Some v \<and> parseJournal is_date (Some v) = Some (sj_journal s)"
proof -
  obtain g1 a b y g2 where y: "git g1 [''cat-file'', ''blob'', b] NoInput = (g2, Some y)" "ga_exitCode y = 0"
    "parseJournal is_date (ga_json y) = Some (sj_journal s)" "g' = g2" "sj_blob s = b"
    using assms(2) by (auto simp: readRestackJournal_def answer_ok_def split: prod.splits option.splits if_splits)
  from y(3) obtain v where v: "ga_json y = Some v" by (cases "ga_json y") (simp_all add: parseJournal_def)
  from cat_file_law [OF assms(1) y(1)] y v have "objects g' b = Some v" by (auto simp: map_le_def dom_def)
  with y v show ?thesis by auto
qed

lemma blob_line_state:
  assumes "object_store git refs objects others" "blob_line git v line g = (g', l)"
  shows "objects g \<subseteq>\<^sub>m objects g'"
proof (cases v)
  case (Some w)
  obtain a where "git g [''hash-object'', ''-w'', ''--stdin''] (JsonText w) = (g', a)"
    using assms(2) Some by (auto simp: blob_line_def hash_blob_def split: prod.splits)
  from hash_object_law [OF assms(1) this] others_grow [OF assms(1)] show ?thesis by (meson map_le_trans)
qed (use assms in \<open>simp add: blob_line_def\<close>)

lemma op_line_state:
  assumes "object_store git refs objects others" "op_line is_date git slug op' g = (g', l)"
  shows "objects g \<subseteq>\<^sub>m objects g'"
  using assms(2)
  by (cases op') (auto simp: op_line_def split: if_splits dest: blob_line_state [OF assms(1)])

lemma op_lines_state:
  assumes "object_store git refs objects others" "op_lines is_date git slug ops g = (g', l)"
  shows "objects g \<subseteq>\<^sub>m objects g'"
  using assms(2)
proof (induction ops arbitrary: g g' l)
  case (Cons op' ops)
  obtain g1 x where x: "op_line is_date git slug op' g = (g1, x)" by fastforce
  from op_line_state [OF assms(1) x] have "objects g \<subseteq>\<^sub>m objects g1" .
  show ?case
  proof (cases x)
    case None
    with Cons.prems x \<open>objects g \<subseteq>\<^sub>m objects g1\<close> show ?thesis by simp
  next
    case (Some y)
    obtain g2 l2 where t: "op_lines is_date git slug ops g1 = (g2, l2)" by fastforce
    with Cons.prems x Some have "g' = g2" by simp
    with Cons.IH [OF t] \<open>objects g \<subseteq>\<^sub>m objects g1\<close> show ?thesis by (auto intro: map_le_trans)
  qed
qed simp

lemma classify_never_updated: "classify_failure git es k \<noteq> (k', RouteUpdated)"
  by (induction es arbitrary: k) (auto split: prod.splits option.splits if_splits)

lemma updated_transaction:
  assumes "writeRoutingTransaction is_date git slug ops g = (g', RouteUpdated)"
    and "readRestackJournal is_date git slug g = (g0, journal)" and "op_lines is_date git slug ops g0 = (g1, Some ls)"
  shows "slug \<noteq> []" "ops \<noteq> []" "routingFenceOpen journal None"
    "\<exists>a. git g1 [''update-ref'', ''--stdin''] (transaction_input (map line_text (ls @ [fence_line slug journal]))) = (g', Some a) \<and>
       ga_exitCode a = 0"
proof -
  show ne: "slug \<noteq> []" "ops \<noteq> []" and fence: "routingFenceOpen journal None"
    using assms by (auto simp: writeRoutingTransaction_def routingFenceOpen_def split: if_splits journal_read.splits)
  from fence have nu: "journal \<noteq> JournalUnreadable b" for b by (auto simp: routingFenceOpen_def)
  obtain g2 a where u: "git g1 [''update-ref'', ''--stdin'']
      (transaction_input (map line_text (ls @ [fence_line slug journal]))) = (g2, a)" by fastforce
  have "g2 = g' \<and> (\<exists>x. a = Some x \<and> ga_exitCode x = 0)"
    using assms ne fence nu u
    by (auto simp: writeRoutingTransaction_def classify_never_updated split: journal_read.splits option.splits if_splits)
  with u show "\<exists>a. git g1 [''update-ref'', ''--stdin'']
      (transaction_input (map line_text (ls @ [fence_line slug journal]))) = (g', Some a) \<and> ga_exitCode a = 0" by auto
qed

text \<open>A fence line that holds names a restack that has ended.\<close>

lemma fence_sound:
  assumes "object_store git refs objects others" and "readRestackJournal is_date git slug g = (g0, journal)"
    and "routingFenceOpen journal None" and "line_holds (refs h) (fence_line slug journal)" and "objects g0 \<subseteq>\<^sub>m objs"
    and "\<forall>s. journal = JournalRead s \<longrightarrow> sj_blob s \<noteq> zero_oid \<and> sj_blob s \<noteq> []"
  shows "case refs h (journalRefFor slug) of
       None \<Rightarrow> True
     | Some b \<Rightarrow> (\<exists>v j. objs b = Some v \<and> parseJournal is_date (Some v) = Some j \<and>
         (rj_state j = JAborted \<or> rj_state j = JApplied \<and> rj_followOnCause j = None))"
proof (cases journal)
  case JournalMissing
  with assms(4) show ?thesis by (simp add: fence_line_def line_holds_def journal_value_def old_value_def)
next
  case (JournalRead s)
  from read_journal [OF assms(1), of is_date slug g g0 s] assms(2) JournalRead obtain v where
    v: "objects g0 (sj_blob s) = Some v" "parseJournal is_date (Some v) = Some (sj_journal s)" by auto
  with assms(5) have "objs (sj_blob s) = Some v" by (auto simp: map_le_def dom_def)
  moreover have "refs h (journalRefFor slug) = Some (sj_blob s)"
    using assms(4,6) JournalRead by (simp add: fence_line_def line_holds_def journal_value_def old_value_def)
  ultimately show ?thesis using v assms(3) JournalRead by (auto simp: routingFenceOpen_def Let_def)
qed (use assms(3) in \<open>simp add: routingFenceOpen_def\<close>)

text \<open>
  What one routing mutation means, between the references before and after: the reference it names held the
  value it knows, and holds its new value, a record by the object that the repository keeps.
\<close>

fun op_ref :: "string \<Rightarrow> routing_op \<Rightarrow> string" where
  "op_ref slug (CreateRecord r) = routeRecordRefFor slug (rd_roundId r)"
| "op_ref slug (UpdateRecord previous r) = routeRecordRefFor slug (rd_roundId (sr_record previous))"
| "op_ref slug (DeleteRecord previous) = routeRecordRefFor slug (rd_roundId (sr_record previous))"
| "op_ref slug (CreateMarker m) = repairMarkerRefFor slug"
| "op_ref slug (ReplaceMarker previous m) = repairMarkerRefFor slug"
| "op_ref slug (UpdateQueue previous q) = revalidationQueueRefFor slug"
| "op_ref slug (DeleteQueue previous) = revalidationQueueRefFor slug"
| "op_ref slug (UpdateBranch ref old new) = ref"
| "op_ref slug (CreatePin ref new) = ref"
| "op_ref slug (UpdateMarker old new) = repairMarkerRefFor slug"
| "op_ref slug (DeleteMarker old) = repairMarkerRefFor slug"
| "op_ref slug (VerifyRef ref value) = ref"

definition holds_json :: "(string \<rightharpoonup> jval) \<Rightarrow> string option \<Rightarrow> jval \<Rightarrow> bool" where
  "holds_json objs value v = (\<exists>b. value = Some b \<and> objs b = Some v)"

fun op_done ::
  "(string \<Rightarrow> bool) \<Rightarrow> (string \<rightharpoonup> jval) \<Rightarrow> string option \<Rightarrow> string option \<Rightarrow> string \<Rightarrow> routing_op \<Rightarrow> bool" where
  "op_done is_date objs before after slug (CreateRecord r) =
     (before = None \<and> holds_json objs after (route_json r) \<and> parseRouteRecord is_date (Some (route_json r)) \<noteq> None)"
| "op_done is_date objs before after slug (UpdateRecord previous r) =
     (before = Some (sr_blob previous) \<and> holds_json objs after (route_json r) \<and> sr_slug previous = slug \<and>
      rd_roundId r = rd_roundId (sr_record previous) \<and> parseRouteRecord is_date (Some (route_json r)) \<noteq> None)"
| "op_done is_date objs before after slug (DeleteRecord previous) =
     (before = Some (sr_blob previous) \<and> after = None \<and> sr_slug previous = slug)"
| "op_done is_date objs before after slug (CreateMarker m) = (before = None \<and> holds_json objs after (marker_record_json m))"
| "op_done is_date objs before after slug (ReplaceMarker previous m) =
     (before = Some (sm_blob previous) \<and> holds_json objs after (marker_record_json m) \<and> sm_slug previous = slug)"
| "op_done is_date objs before after slug (UpdateQueue previous q) =
     (before = Some (sq_blob previous) \<and> holds_json objs after (queue_json q) \<and> sq_slug previous = slug \<and>
      parseRevalidationQueueRecord is_date (Some (queue_json q)) \<noteq> None)"
| "op_done is_date objs before after slug (DeleteQueue previous) =
     (before = Some (sq_blob previous) \<and> after = None \<and> sq_slug previous = slug)"
| "op_done is_date objs before after slug (UpdateBranch ref old new) =
     (before = Some old \<and> after = Some new \<and> isFeatureBranchRef ref)"
| "op_done is_date objs before after slug (CreatePin ref new) = (before = None \<and> after = Some new \<and> isRejectedPinRef slug ref)"
| "op_done is_date objs before after slug (UpdateMarker old new) = (before = Some old \<and> after = Some new)"
| "op_done is_date objs before after slug (DeleteMarker old) = (before = Some old \<and> after = None)"
| "op_done is_date objs before after slug (VerifyRef ref value) = (before = Some value \<and> after = Some value)"

text \<open>The names and values an operation carries are those of references and objects.\<close>

definition object_id :: "string \<Rightarrow> bool" where
  "object_id v = (plain_name v \<and> v \<noteq> [] \<and> v \<noteq> zero_oid)"

definition plain_op :: "string \<Rightarrow> routing_op \<Rightarrow> bool" where
  "plain_op slug op' = (plain_name (op_ref slug op') \<and>
     (case op' of
        UpdateRecord previous _ \<Rightarrow> object_id (sr_blob previous)
      | DeleteRecord previous \<Rightarrow> object_id (sr_blob previous)
      | ReplaceMarker previous _ \<Rightarrow> object_id (sm_blob previous)
      | UpdateQueue previous _ \<Rightarrow> object_id (sq_blob previous)
      | DeleteQueue previous \<Rightarrow> object_id (sq_blob previous)
      | UpdateBranch _ old new \<Rightarrow> object_id old \<and> object_id new
      | CreatePin _ new \<Rightarrow> object_id new
      | UpdateMarker old new \<Rightarrow> object_id old \<and> object_id new
      | DeleteMarker old \<Rightarrow> object_id old
      | VerifyRef _ value \<Rightarrow> object_id value
      | _ \<Rightarrow> True))"

definition line_ref :: "ref_line \<Rightarrow> string" where
  "line_ref l = (case l of LUpdate r _ _ \<Rightarrow> r | LCreate r _ \<Rightarrow> r | LDelete r _ \<Rightarrow> r | LVerify r _ \<Rightarrow> r)"

definition line_after :: "ref_line \<Rightarrow> string option \<Rightarrow> string option" where
  "line_after l before = (case l of LUpdate _ n _ \<Rightarrow> Some n | LCreate _ n \<Rightarrow> Some n | LDelete _ _ \<Rightarrow> None | LVerify _ _ \<Rightarrow> before)"

lemma line_effect_at: "line_effect l rs r = (if r = line_ref l then line_after l (rs r) else rs r)"
  by (cases l) (simp_all add: line_effect_def line_ref_def line_after_def)

lemma fold_effect:
  "distinct (map line_ref ls) \<Longrightarrow>
     fold line_effect ls rs r = (case find (\<lambda>l. line_ref l = r) ls of Some l \<Rightarrow> line_after l (rs r) | None \<Rightarrow> rs r)"
proof (induction ls arbitrary: rs)
  case (Cons l ls)
  show ?case
  proof (cases "line_ref l = r")
    case True
    with Cons.prems have "r \<notin> line_ref ` set ls" by auto
    then have "find (\<lambda>l. line_ref l = r) ls = None" by (auto simp: find_None_iff)
    with True Cons show ?thesis by (simp add: line_effect_at)
  next
    case False
    with Cons show ?thesis by (simp add: line_effect_at split: option.splits)
  qed
qed simp

text \<open>A line of an operation does what the operation means.\<close>

definition does_op :: "(string \<Rightarrow> bool) \<Rightarrow> (string \<rightharpoonup> jval) \<Rightarrow> string \<Rightarrow> ref_line \<Rightarrow> routing_op \<Rightarrow> bool" where
  "does_op is_date objs slug l op' =
     (plain_line l \<and> line_ref l = op_ref slug op' \<and>
      (\<forall>objs' rs. objs \<subseteq>\<^sub>m objs' \<longrightarrow> line_holds rs l \<longrightarrow>
         op_done is_date objs' (rs (line_ref l)) (line_after l (rs (line_ref l))) slug op'))"

lemma does_op_mono: "does_op is_date objs slug l op' \<Longrightarrow> objs \<subseteq>\<^sub>m objs' \<Longrightarrow> does_op is_date objs' slug l op'"
  unfolding does_op_def by (blast intro: map_le_trans)

lemma stored_blob:
  assumes "object_store git refs objects others" "blob_line git v line g = (g', Some l)"
  shows "\<exists>b w. v = Some w \<and> l = line b \<and> objects g' b = Some w \<and> plain_name b \<and> b \<noteq> zero_oid"
proof -
  obtain w b x where b: "v = Some w" "l = line b"
      "git g [''hash-object'', ''-w'', ''--stdin''] (JsonText w) = (g', Some x)" "ga_exitCode x = 0"
      "parseCommitSha (js_trim (ga_stdout x)) = Some b"
    using assms(2) by (auto simp: blob_line_def hash_blob_def answer_ok_def split: option.splits prod.splits if_splits)
  with hash_object_law [OF assms(1) b(3)] have "objects g' b = Some w" "plain_name b"
    by (auto dest: commit_sha_trim commit_sha_plain)
  with b no_zero_object [OF assms(1), of g'] show ?thesis by (metis option.distinct(1))
qed

lemma blob_line_done:
  assumes "object_store git refs objects others" "blob_line git v (\<lambda>b. LUpdate ref b (Some old)) g = (g', Some l)"
    and "plain_name ref" "plain_name old" "op_ref slug op' = ref"
    and "\<And>w objs b. v = Some w \<Longrightarrow> holds_json objs (Some b) w \<Longrightarrow> op_done is_date objs (old_value old) (Some b) slug op'"
  shows "does_op is_date (objects g') slug l op'"
proof -
  obtain b w where b: "v = Some w" "l = LUpdate ref b (Some old)" "objects g' b = Some w" "plain_name b" "b \<noteq> zero_oid"
    using stored_blob [OF assms(1,2)] by blast
  have "holds_json objs (Some b) w" if "objects g' \<subseteq>\<^sub>m objs" for objs
    using that b(3) by (auto simp: holds_json_def map_le_def dom_def)
  with b assms(3-6) show ?thesis
    by (auto simp: does_op_def plain_line_def line_ref_def line_holds_def line_after_def)
qed

lemma plain_zero: "plain_name zero_oid"
  by (simp add: plain_name_def zero_oid_def list_all_iff)

lemma op_line_done:
  assumes "object_store git refs objects others" "op_line is_date git slug op' g = (g', Some l)" "plain_op slug op'"
  shows "does_op is_date (objects g') slug l op'"
proof -
  have old: "old_value zero_oid = None" "\<And>v. object_id v \<Longrightarrow> old_value v = Some v \<and> plain_name v \<and> v \<noteq> zero_oid"
    by (simp_all add: old_value_def object_id_def)
  note line = does_op_def plain_line_def line_ref_def line_holds_def line_after_def op_line_def plain_op_def
  show ?thesis
  proof (cases op')
    case (CreateRecord r)
    with assms(2) have "blob_line git (serializeRouteRecord is_date r)
        (\<lambda>b. LUpdate (routeRecordRefFor slug (rd_roundId r)) b (Some zero_oid)) g = (g', Some l)" by (simp add: op_line_def)
    then show ?thesis
      by (rule blob_line_done [OF assms(1)])
        (use CreateRecord assms(3) in \<open>auto simp: plain_op_def old plain_zero serializeRouteRecord_def split: if_splits\<close>)
  next
    case (UpdateRecord p r)
    with assms(2) have l: "sr_slug p = slug" "rd_roundId r = rd_roundId (sr_record p)"
      "blob_line git (serializeRouteRecord is_date r)
        (\<lambda>b. LUpdate (routeRecordRefFor slug (rd_roundId r)) b (Some (sr_blob p))) g = (g', Some l)"
      by (auto simp: op_line_def split: if_splits)
    from l(3) show ?thesis
      by (rule blob_line_done [OF assms(1)])
        (use UpdateRecord l(1,2) assms(3) in \<open>auto simp: plain_op_def old serializeRouteRecord_def split: if_splits\<close>)
  next
    case (CreateMarker m)
    with assms(2) have "blob_line git (Some (marker_record_json m))
        (\<lambda>b. LUpdate (repairMarkerRefFor slug) b (Some zero_oid)) g = (g', Some l)" by (simp add: op_line_def)
    then show ?thesis
      by (rule blob_line_done [OF assms(1)]) (use CreateMarker assms(3) in \<open>auto simp: plain_op_def old plain_zero\<close>)
  next
    case (ReplaceMarker p m)
    with assms(2) have l: "sm_slug p = slug" "blob_line git (Some (marker_record_json m))
        (\<lambda>b. LUpdate (repairMarkerRefFor slug) b (Some (sm_blob p))) g = (g', Some l)"
      by (auto simp: op_line_def split: if_splits)
    from l(2) show ?thesis
      by (rule blob_line_done [OF assms(1)]) (use ReplaceMarker l(1) assms(3) in \<open>auto simp: plain_op_def old\<close>)
  next
    case (UpdateQueue p q)
    with assms(2) have l: "sq_slug p = slug"
      "blob_line git (if parseRevalidationQueueRecord is_date (Some (queue_json q)) = None then None else Some (queue_json q))
        (\<lambda>b. LUpdate (revalidationQueueRefFor slug) b (Some (sq_blob p))) g = (g', Some l)"
      by (auto simp: op_line_def split: if_splits)
    from l(2) show ?thesis
      by (rule blob_line_done [OF assms(1)]) (use UpdateQueue l(1) assms(3) in \<open>auto simp: plain_op_def old split: if_splits\<close>)
  qed (use assms(2,3) old plain_zero in \<open>auto simp: line split: if_splits\<close>)
qed

lemma op_lines_done:
  assumes "object_store git refs objects others"
  shows "op_lines is_date git slug ops g = (g', Some ls) \<Longrightarrow> list_all (plain_op slug) ops \<Longrightarrow>
    list_all2 (does_op is_date (objects g') slug) ls ops"
proof (induction ops arbitrary: g ls)
  case (Cons op' ops)
  obtain g1 l ls' where o: "op_line is_date git slug op' g = (g1, Some l)" "op_lines is_date git slug ops g1 = (g', Some ls')"
    "ls = l # ls'"
    using Cons.prems(1) by (cases "op_line is_date git slug op' g") (auto simp: map_prod_def split: prod.splits option.splits)
  have "does_op is_date (objects g1) slug l op'" using op_line_done [OF assms o(1)] Cons.prems(2) by simp
  with op_lines_state [OF assms o(2)] have "does_op is_date (objects g') slug l op'" by (rule does_op_mono [rotated])
  with Cons.IH [OF o(2)] Cons.prems(2) o(3) show ?case by simp
qed simp

lemma ops_done:
  assumes "list_all2 (does_op is_date objs slug) ls ops" "distinct (map (op_ref slug) ops)"
    and "list_all (line_holds rs) ls" "objs \<subseteq>\<^sub>m objs'"
  shows "list_all plain_line ls"
    "\<forall>op'\<in>set ops. op_done is_date objs' (rs (op_ref slug op')) (fold line_effect ls rs (op_ref slug op')) slug op'"
    "\<forall>r. r \<notin> op_ref slug ` set ops \<longrightarrow> fold line_effect ls rs r = rs r"
proof -
  from assms(1) have m: "map line_ref ls = map (op_ref slug) ops" "list_all plain_line ls"
    by (induction rule: list_all2_induct) (auto simp: does_op_def)
  then have d: "distinct (map line_ref ls)" using assms(2) by simp
  show "list_all plain_line ls" by (rule m(2))
  have "line_ref ` set ls = op_ref slug ` set ops" using m(1) by (metis list.set_map)
  then have "find (\<lambda>l. line_ref l = r) ls = None" if "r \<notin> op_ref slug ` set ops" for r
    using that by (auto simp: find_None_iff)
  then show "\<forall>r. r \<notin> op_ref slug ` set ops \<longrightarrow> fold line_effect ls rs r = rs r" by (simp add: fold_effect [OF d])
  show "\<forall>op'\<in>set ops. op_done is_date objs' (rs (op_ref slug op')) (fold line_effect ls rs (op_ref slug op')) slug op'"
  proof
    fix op' assume "op' \<in> set ops"
    then obtain i where i: "i < length ops" "ops ! i = op'" by (auto simp: in_set_conv_nth)
    with assms(1) have l: "i < length ls" "does_op is_date objs slug (ls ! i) op'" by (auto simp: list_all2_conv_all_nth)
    have "line_ref (ls ! i) = op_ref slug op'" using l(2) by (simp add: does_op_def)
    moreover have "find (\<lambda>l. line_ref l = line_ref (ls ! i)) ls = Some (ls ! i)"
      using d l(1) by (auto simp: find_Some_iff distinct_conv_nth intro!: exI [of _ i])
    moreover have "line_holds rs (ls ! i)" using assms(3) l(1) by (simp add: list_all_length)
    ultimately show "op_done is_date objs' (rs (op_ref slug op')) (fold line_effect ls rs (op_ref slug op')) slug op'"
      using l(2) assms(4) by (simp add: fold_effect [OF d] does_op_def)
  qed
qed

lemma read_journal_blob:
  assumes "object_store git refs objects others" and "readRestackJournal is_date git slug g = (g', JournalRead s)"
  shows "plain_name (sj_blob s) \<and> sj_blob s \<noteq> zero_oid \<and> sj_blob s \<noteq> []"
proof -
  have "\<exists>x. parseCommitSha x = Some (sj_blob s)"
    using assms(2) by (auto simp: readRestackJournal_def split: prod.splits option.splits if_splits)
  then have "plain_name (sj_blob s)" "sj_blob s \<noteq> []" using commit_sha_plain by blast+
  moreover have "sj_blob s \<noteq> zero_oid"
    using read_journal [OF assms] no_zero_object [OF assms(1), of g'] by auto
  ultimately show ?thesis by simp
qed


definition marker_git :: tiny_git where
  "marker_git = \<lparr>tg_refs = [(repairMarkerRefFor ''demo'', tiny_id 0)], tg_objects = [JNull]\<rparr>"

lemma marker_names: "plain_name (repairMarkerRefFor ''demo'')" "plain_name (journalRefFor ''demo'')" "plain_name zero_oid"
  "repairMarkerRefFor ''demo'' \<noteq> journalRefFor ''demo''"
  by code_simp+

lemma marker_deleted:
  "readRestackJournal (\<lambda>_. True) tiny_run ''demo'' marker_git = (marker_git, JournalMissing)"
  "op_lines (\<lambda>_. True) tiny_run ''demo'' [DeleteMarker (tiny_id 0)] marker_git =
     (marker_git, Some [LDelete (repairMarkerRefFor ''demo'') (tiny_id 0)])"
  "\<exists>g'. writeRoutingTransaction (\<lambda>_. True) tiny_run ''demo'' [DeleteMarker (tiny_id 0)] marker_git = (g', RouteUpdated)"
proof -
  have id0: "js_trim (tiny_id 0) = tiny_id 0" "tiny_id 0 \<noteq> zero_oid" by code_simp+
  show read: "readRestackJournal (\<lambda>_. True) tiny_run ''demo'' marker_git = (marker_git, JournalMissing)"
    using marker_names(4) by (simp add: readRestackJournal_def tiny_run_def tiny_refs_def marker_git_def tiny_answer_def)
  show lines: "op_lines (\<lambda>_. True) tiny_run ''demo'' [DeleteMarker (tiny_id 0)] marker_git =
     (marker_git, Some [LDelete (repairMarkerRefFor ''demo'') (tiny_id 0)])"
    by (simp add: op_line_def)
  let ?ls = "[LDelete (repairMarkerRefFor ''demo'') (tiny_id 0), LVerify (journalRefFor ''demo'') zero_oid]"
  have "list_all plain_line ?ls" by (simp add: plain_line_def marker_names sample_names)
  moreover have "list_all (line_holds (tiny_refs marker_git)) ?ls"
    using marker_names(4) id0 by (simp add: line_holds_def old_value_def tiny_refs_def marker_git_def)
  moreover have "list_all sets_value ?ls" by (simp add: sets_value_def)
  ultimately have "tiny_run marker_git [''update-ref'', ''--stdin''] (transaction_input (map line_text ?ls)) =
      (marker_git\<lparr>tg_refs := fold list_effect ?ls (tg_refs marker_git)\<rparr>, tiny_answer 0 [] None)"
    by (rule tiny_transaction)
  then show "\<exists>g'. writeRoutingTransaction (\<lambda>_. True) tiny_run ''demo'' [DeleteMarker (tiny_id 0)] marker_git = (g', RouteUpdated)"
    by (simp add: writeRoutingTransaction_def read op_line_def routingFenceOpen_def fence_line_def journal_value_def tiny_answer_def)
qed


end
