(* ===== verification/RoundReceipt.thy ===== *)
theory RoundReceipt
  imports RouteStore KickbackStore
begin

text \<open>
  The receipts of routed rounds and their settlement into the feature's ledger
  (\<^verbatim>\<open>engine/routing/round-receipt.ts\<close>). A settlement writes the route record first and the ledger second; the
  settlement id makes the second write repeatable. \<open>digest\<close> is the hash that the id ends with.
\<close>

section \<open>The receipts of a feature\<close>

datatype receipt_item =
    ItemOk string route_record
  | ItemMalformed string
  | ItemUnreadable "string option"

definition last_segment :: "string \<Rightarrow> string" where
  "last_segment ref = last (split_on (CHR ''/'') ref)"

fun read_receipts :: "(string \<Rightarrow> bool) \<Rightarrow> 'g git_runner \<Rightarrow> string \<Rightarrow> string list \<Rightarrow> 'g \<Rightarrow> 'g \<times> receipt_item list" where
  "read_receipts is_date git slug [] g = (g, [])"
| "read_receipts is_date git slug (ref # refs) g =
     (case parseRoundId (last_segment ref) of
        None \<Rightarrow> map_prod id (\<lambda>is. ItemMalformed ref # is) (read_receipts is_date git slug refs g)
      | Some roundId \<Rightarrow>
          (case readRouteRecord is_date git slug roundId g of
             (g1, stored) \<Rightarrow>
               map_prod id (\<lambda>is. (case stored of
                    BlobRead _ r \<Rightarrow> if rd_roundId r \<noteq> roundId then ItemMalformed ref else ItemOk roundId r
                  | _ \<Rightarrow> ItemUnreadable (Some ref)) # is)
                 (read_receipts is_date git slug refs g1)))"

definition enumerateRouteReceiptRecords ::
  "(string \<Rightarrow> bool) \<Rightarrow> 'g git_runner \<Rightarrow> string \<Rightarrow> bool \<Rightarrow> 'g \<Rightarrow> 'g \<times> receipt_item list" where
  "enumerateRouteReceiptRecords is_date git slug eligible g =
     (if \<not> eligible then (g, [])
      else (case git g [''for-each-ref'', ''--format=%(refname)'', ''refs/conductor/'' @ slug @ ''/routes/''] NoInput of
          (g1, listed) \<Rightarrow>
            if \<not> answer_ok listed then (g1, [ItemUnreadable None])
            else read_receipts is_date git slug (filter (\<lambda>l. l \<noteq> []) (split_on (CHR 0x0A) (ga_stdout (the listed)))) g1))"

section \<open>The routed repair's extra lap\<close>

datatype credit_grant = CreditGranted | CreditAlreadyGranted

definition grant_credit_tx :: "string \<Rightarrow> credit_grant ledger_tx" where
  "grant_credit_tx roundId ledger =
     (case kl_routedRepairCredit ledger of
        Some c \<Rightarrow> if rc_roundId c = roundId then Inr (None, CreditAlreadyGranted)
                 else Inr (Some (ledger\<lparr>kl_routedRepairCredit := Some \<lparr>rc_roundId = roundId, rc_consumed = False\<rparr>\<rparr>), CreditGranted)
      | None \<Rightarrow> Inr (Some (ledger\<lparr>kl_routedRepairCredit := Some \<lparr>rc_roundId = roundId, rc_consumed = False\<rparr>\<rparr>), CreditGranted))"

definition grantRoutedRepairCredit where
  "grantRoutedRepairCredit env roundId doc = updateKickbackLedger env True None (grant_credit_tx roundId) doc"

definition consume_credit_tx :: "string \<Rightarrow> bool ledger_tx" where
  "consume_credit_tx roundId ledger =
     (case kl_routedRepairCredit ledger of
        Some c \<Rightarrow> if rc_roundId c \<noteq> roundId \<or> rc_consumed c then Inr (None, False)
                 else Inr (Some (ledger\<lparr>kl_routedRepairCredit := Some (c\<lparr>rc_consumed := True\<rparr>)\<rparr>), True)
      | None \<Rightarrow> Inr (None, False))"

definition consumeRoutedRepairCredit where
  "consumeRoutedRepairCredit env roundId doc = updateKickbackLedger env True None (consume_credit_tx roundId) doc"

section \<open>Charges\<close>

definition receiptSettlementId :: "(jval \<Rightarrow> string) \<Rightarrow> string \<Rightarrow> round_receipt \<Rightarrow> string" where
  "receiptSettlementId digest roundId r =
     roundId @ ''-'' @ digest (JObj [(''laps'', charges_json (rr_laps r)), (''growth'', JNum (rr_growth r)),
       (''taskless'', charges_json (rr_taskless r)), (''echo'', charges_json (rr_echo r))])"

definition defaultGateEntry :: gate_entry where
  "defaultGateEntry = blank_gate_entry\<lparr>ge_adjustmentsKnown := True\<rparr>"

definition receiptCharges :: "route_record \<Rightarrow> (string \<times> int) list \<times> int" where
  "receiptCharges r =
     (let allocated = foldl (\<lambda>k (_, a). k + int (length (ha_remTaskIds a))) 0 (rd_allocation r);
          growth = rr_growth (rd_receipt r)
      in (rr_laps (rd_receipt r), if 0 < allocated \<and> growth = 0 then allocated else growth))"

definition withTasklessCharge :: "round_receipt \<Rightarrow> string \<Rightarrow> round_receipt" where
  "withTasklessCharge r gate = r\<lparr>rr_taskless := AList.update gate 1 (rr_taskless r)\<rparr>"

text \<open>The copy of a ledger object loses the three markers of an unreadable ledger.\<close>

definition spread_ledger :: "kickback_ledger \<Rightarrow> kickback_ledger" where
  "spread_ledger l = l\<lparr>kl_unreadable := False, kl_unreadableGates := None, kl_unreadableGrowth := False\<rparr>"

definition gate_or_default :: "(string \<times> gate_entry) list \<Rightarrow> string \<Rightarrow> gate_entry" where
  "gate_or_default gates gate = (case map_of gates gate of Some e \<Rightarrow> e | None \<Rightarrow> defaultGateEntry)"

definition charge_laps :: "(string \<times> int) list \<Rightarrow> string \<Rightarrow> (string \<times> gate_entry) list \<Rightarrow> (string \<times> gate_entry) list" where
  "charge_laps laps gate gates =
     (case map_of laps gate of
        None \<Rightarrow> gates
      | Some n \<Rightarrow>
          let entry = gate_or_default gates gate
          in AList.update gate (entry\<lparr>ge_laps := Some (laps_of entry + n)\<rparr>) gates)"

definition growth_owner :: "(string \<times> int) list \<Rightarrow> string" where
  "growth_owner laps =
     (case find (\<lambda>gate. map_of laps gate \<noteq> None) WHOLE_FEATURE_BUDGET_GATES of Some g \<Rightarrow> g | None \<Rightarrow> ''prd_audit'')"

definition applySettledReceiptToLedger :: "kickback_ledger \<Rightarrow> route_record \<Rightarrow> kickback_ledger throws" where
  "applySettledReceiptToLedger ledger r =
     (case rr_settlementId (rd_receipt r) of
        None \<Rightarrow> Inr ledger
      | Some settlementId \<Rightarrow>
          (case rd_sealedAuthored r of
             None \<Rightarrow> Inl (''routing round '' @ rd_roundId r @ '' has no sealed authored denominator'')
           | Some sealed \<Rightarrow>
               let (laps, charged) = receiptCharges r;
                   prior = (case kl_growth ledger of Some g \<Rightarrow> g | None \<Rightarrow> \<lparr>pg_authored = sealed, pg_added = 0, pg_byGate = []\<rparr>);
                   owner = growth_owner laps;
                   before = (case map_of (pg_byGate prior) owner of Some n \<Rightarrow> n | None \<Rightarrow> 0)
               in Inr ((spread_ledger ledger)\<lparr>
                    kl_gates := fold (charge_laps laps) WHOLE_FEATURE_BUDGET_GATES (kl_gates ledger),
                    kl_growth := Some \<lparr>pg_authored = pg_authored prior, pg_added = pg_added prior + charged,
                                       pg_byGate = AList.update owner (before + charged) (pg_byGate prior)\<rparr>,
                    kl_settlementReceipts := Some (AList.update settlementId (map fst laps)
                      (case kl_settlementReceipts ledger of Some rs \<Rightarrow> rs | None \<Rightarrow> []))\<rparr>)))"

section \<open>What fits the budget\<close>

record receipt_budget = settlement_budget +
  rb_authoredSource :: authored_source

record refused_round =
  rf_roundId :: string
  rf_findingIds :: "string list"
  rf_remTaskIds :: "string list"
  rf_existingTaskIds :: "string list"
  rf_pendingFindings :: "pending_finding list"
  rf_charges :: "(string \<times> int \<times> int) list"
  rf_settledAdded :: int
  rf_growthCap :: int
  rf_growthCapRaised :: bool
  rf_growthAuthored :: int
  rf_growthAuthoredSource :: authored_source
  rf_settledGrowthByGate :: "(string \<times> int) list"
  rf_consumed :: int
  rf_limit :: int

definition receipt_budget_for :: "receipt_budget list \<Rightarrow> string \<Rightarrow> receipt_budget option" where
  "receipt_budget_for budgets gate = find (\<lambda>b. sb_gate b = gate) (rev budgets)"

definition growth_cap :: "kickback_ledger \<Rightarrow> receipt_budget list \<Rightarrow> int" where
  "growth_cap ledger budgets =
     (case kl_effectiveGrowthCap ledger of Some c \<Rightarrow> c
      | None \<Rightarrow> (case budgets of b # _ \<Rightarrow> sb_growthCap b | [] \<Rightarrow> 0))"

definition settled_added :: "kickback_ledger \<Rightarrow> int" where
  "settled_added ledger = (case kl_growth ledger of Some g \<Rightarrow> pg_added g | None \<Rightarrow> 0)"

definition refused_detail ::
  "kickback_ledger \<Rightarrow> kickback_ledger \<Rightarrow> route_record \<Rightarrow> receipt_budget list \<Rightarrow> int \<Rightarrow> int \<Rightarrow> refused_round" where
  "refused_detail ledger next r budgets consumed limit =
     (let (laps, growth) = receiptCharges r; owner = growth_owner laps in
      \<lparr>rf_roundId = rd_roundId r,
       rf_findingIds = map ri_findingId (rd_items r),
       rf_remTaskIds = concat (map (\<lambda>(_, a). ha_remTaskIds a) (sort_key fst (rd_allocation r))),
       rf_existingTaskIds = concat (map (\<lambda>i. if ri_existingTask i then ri_taskIds i else []) (rd_items r)),
       rf_pendingFindings = (case rd_pendingAsBuiltFindings r of Some fs \<Rightarrow> fs | None \<Rightarrow> []),
       rf_charges = List.map_filter (\<lambda>gate. map_option (\<lambda>n. (gate, n, if gate = owner then growth else 0)) (map_of laps gate))
         WHOLE_FEATURE_BUDGET_GATES,
       rf_settledAdded = settled_added ledger,
       rf_growthCap = growth_cap next budgets,
       rf_growthCapRaised = (kl_effectiveGrowthCap next \<noteq> None),
       rf_growthAuthored = (case kl_growth next of Some g \<Rightarrow> pg_authored g
         | None \<Rightarrow> (case rd_sealedAuthored r of Some n \<Rightarrow> n | None \<Rightarrow> 0)),
       rf_growthAuthoredSource = (case budgets of b # _ \<Rightarrow> rb_authoredSource b | [] \<Rightarrow> Unresolved),
       rf_settledGrowthByGate = (case kl_growth ledger of Some g \<Rightarrow> pg_byGate g | None \<Rightarrow> []),
       rf_consumed = consumed, rf_limit = limit\<rparr>)"

text \<open>The first charged gate whose laps do not fit, with what was consumed and the limit.\<close>

fun laps_exhausted ::
  "kickback_ledger \<Rightarrow> kickback_ledger \<Rightarrow> (string \<times> int) list \<Rightarrow> receipt_budget list \<Rightarrow> string list \<Rightarrow> (string \<times> int \<times> int) option" where
  "laps_exhausted ledger next laps budgets [] = None"
| "laps_exhausted ledger next laps budgets (gate # gates) =
     (if map_of laps gate = None then laps_exhausted ledger next laps budgets gates
      else
        let consumed = laps_of (gate_or_default (kl_gates ledger) gate) in
        (case receipt_budget_for budgets gate of
           None \<Rightarrow> Some (gate, consumed, 0)
         | Some budget \<Rightarrow>
             let entry = gate_or_default (kl_gates next) gate;
                 cap = (case ge_effectiveLapCap entry of Some c \<Rightarrow> c | None \<Rightarrow> sb_lapCap budget)
             in if cap < laps_of entry then Some (gate, consumed, cap)
                else laps_exhausted ledger next laps budgets gates))"

definition nextLedgerForReceipt ::
  "kickback_ledger \<Rightarrow> route_record \<Rightarrow> receipt_budget list \<Rightarrow> ((string \<times> allowance \<times> refused_round) + kickback_ledger) throws" where
  "nextLedgerForReceipt ledger r budgets =
     (case applySettledReceiptToLedger ledger r of
        Inl e \<Rightarrow> Inl e
      | Inr next \<Rightarrow>
          Inr (case laps_exhausted ledger next (fst (receiptCharges r)) budgets WHOLE_FEATURE_BUDGET_GATES of
             Some (gate, consumed, limit) \<Rightarrow> Inl (gate, AllowLaps, refused_detail ledger next r budgets consumed limit)
           | None \<Rightarrow>
               if growth_cap next budgets < settled_added next
               then Inl (growth_owner (fst (receiptCharges r)), AllowGrowth,
                      refused_detail ledger next r budgets (settled_added ledger) (growth_cap next budgets))
               else Inr next))"

section \<open>Reconciliation\<close>

datatype reconcile_result = Reconciled | ReconcileMalformed "string option" | ReconcileUnreadable "string option"

definition settled_in :: "kickback_ledger \<Rightarrow> string \<Rightarrow> bool" where
  "settled_in ledger settlementId = (case kl_settlementReceipts ledger of Some rs \<Rightarrow> map_of rs settlementId \<noteq> None | None \<Rightarrow> False)"

text \<open>The loop: a bad item ends it, a settled receipt the ledger does not list is applied.\<close>

fun reconcile_items :: "receipt_item list \<Rightarrow> kickback_ledger \<Rightarrow> bool \<Rightarrow> (reconcile_result \<times> kickback_ledger \<times> bool) throws" where
  "reconcile_items [] ledger changed = Inr (Reconciled, ledger, changed)"
| "reconcile_items (ItemMalformed ref # rest) ledger changed = Inr (ReconcileMalformed (Some ref), ledger, changed)"
| "reconcile_items (ItemUnreadable ref # rest) ledger changed = Inr (ReconcileUnreadable ref, ledger, changed)"
| "reconcile_items (ItemOk _ r # rest) ledger changed =
     (case rr_settlementId (rd_receipt r) of
        None \<Rightarrow> reconcile_items rest ledger changed
      | Some i \<Rightarrow>
          if settled_in ledger i then reconcile_items rest ledger changed
          else (case applySettledReceiptToLedger ledger r of
                  Inl e \<Rightarrow> Inl e
                | Inr l \<Rightarrow> reconcile_items rest l True))"

definition reconcileReceiptLedgerUnlocked ::
  "(string \<Rightarrow> bool) \<Rightarrow> 'g git_runner \<Rightarrow> ledger_env \<Rightarrow> string \<Rightarrow> bool \<Rightarrow> 'g \<Rightarrow> ledger_doc \<Rightarrow> 'g \<times> ledger_doc \<times> reconcile_result throws" where
  "reconcileReceiptLedgerUnlocked is_date git env slug eligible g doc =
     (case enumerateRouteReceiptRecords is_date git slug eligible g of
        (g1, items) \<Rightarrow>
          (case reconcile_items items (readKickbackLedger doc) False of
             Inl e \<Rightarrow> (g1, doc, Inl e)
           | Inr (Reconciled, ledger, True) \<Rightarrow>
               (case writeKickbackLedgerUnsafe env False doc ledger of
                  Inl e \<Rightarrow> (g1, doc, Inl e)
                | Inr doc' \<Rightarrow> (g1, doc', Inr Reconciled))
           | Inr (result, _, _) \<Rightarrow> (g1, doc, Inr result)))"

section \<open>Settlement at dispatch\<close>

datatype round_settlement =
    RoundSettled string
  | RoundAcknowledged "string option"
  | RoundNotCurrentHost
  | RoundExhausted string allowance refused_round
  | RoundHalted string
  | RoundRetry

definition open_journal_reason :: "string \<Rightarrow> string" where
  "open_journal_reason roundId = ''routing round '' @ roundId @ '' has an open restack journal''"

definition acknowledged_receipt :: "round_receipt \<Rightarrow> int \<Rightarrow> round_receipt" where
  "acknowledged_receipt r child = r\<lparr>rr_acks := AList.update child True (rr_acks r)\<rparr>"

definition settled_receipt :: "round_receipt \<Rightarrow> string \<Rightarrow> int \<Rightarrow> round_receipt" where
  "settled_receipt r settlementId child = r\<lparr>rr_settlementId := Some settlementId, rr_acks := [(child, True)]\<rparr>"

definition settle_audit ::
  "(string \<Rightarrow> bool) \<Rightarrow> (jval \<Rightarrow> string) \<Rightarrow> 'g git_runner \<Rightarrow> ledger_env \<Rightarrow> string \<Rightarrow> bool \<Rightarrow> receipt_budget list \<Rightarrow> string \<Rightarrow> int
     \<Rightarrow> stored_route \<Rightarrow> 'g \<Rightarrow> ledger_doc \<Rightarrow> 'g \<times> ledger_doc \<times> round_settlement throws" where
  "settle_audit is_date digest git env slug eligible budgets roundId child stored g doc =
     (case reconcileReceiptLedgerUnlocked is_date git env slug eligible g doc of
        (g1, doc1, Inl e) \<Rightarrow> (g1, doc1, Inl e)
      | (g1, doc1, Inr (ReconcileMalformed ref)) \<Rightarrow>
          (g1, doc1, Inr (RoundHalted (''route record '' @ (case ref of Some x \<Rightarrow> x | None \<Rightarrow> roundId) @ '' is malformed'')))
      | (g1, doc1, Inr (ReconcileUnreadable ref)) \<Rightarrow>
          (g1, doc1, Inr (RoundHalted (''route record '' @ (case ref of Some x \<Rightarrow> x | None \<Rightarrow> roundId) @ '' is unreadable'')))
      | (g1, doc1, Inr Reconciled) \<Rightarrow>
          let receipt = rd_receipt (sr_record stored) in
          (case rr_settlementId receipt of
             Some settlementId \<Rightarrow>
               if map_of (rr_acks receipt) child \<noteq> None then (g1, doc1, Inr (RoundAcknowledged (Some settlementId)))
               else (case writeRouteRecord is_date git stored
                        ((sr_record stored)\<lparr>rd_receipt := acknowledged_receipt receipt child\<rparr>) g1 of
                  (g2, RouteUpdated) \<Rightarrow> (g2, doc1, Inr (RoundAcknowledged (Some settlementId)))
                | (g2, RouteFenced) \<Rightarrow> (g2, doc1, Inr (RoundHalted (open_journal_reason roundId)))
                | (g2, _) \<Rightarrow> (g2, doc1, Inr RoundRetry))
           | None \<Rightarrow>
               let settlementId = receiptSettlementId digest roundId receipt;
                   settledRecord = (sr_record stored)\<lparr>rd_receipt := settled_receipt receipt settlementId child\<rparr>
               in (case nextLedgerForReceipt (readKickbackLedger doc1) settledRecord budgets of
                     Inl e \<Rightarrow> (g1, doc1, Inl e)
                   | Inr (Inl (gate, al, detail)) \<Rightarrow> (g1, doc1, Inr (RoundExhausted gate al detail))
                   | Inr (Inr next) \<Rightarrow>
                       (case writeRouteRecord is_date git stored settledRecord g1 of
                          (g2, RouteUpdated) \<Rightarrow>
                            (case writeKickbackLedgerUnsafe env False doc1 next of
                               Inl e \<Rightarrow> (g2, doc1, Inl e)
                             | Inr doc2 \<Rightarrow> (g2, doc2, Inr (RoundSettled settlementId)))
                        | (g2, RouteFenced) \<Rightarrow> (g2, doc1, Inr (RoundHalted (open_journal_reason roundId)))
                        | (g2, _) \<Rightarrow> (g2, doc1, Inr RoundRetry)))))"

text \<open>One attempt, inside the lease.\<close>

definition settle_attempt ::
  "(string \<Rightarrow> bool) \<Rightarrow> (jval \<Rightarrow> string) \<Rightarrow> 'g git_runner \<Rightarrow> ledger_env \<Rightarrow> string \<Rightarrow> bool \<Rightarrow> receipt_budget list \<Rightarrow> string \<Rightarrow> int
     \<Rightarrow> 'g \<Rightarrow> ledger_doc \<Rightarrow> 'g \<times> ledger_doc \<times> round_settlement throws" where
  "settle_attempt is_date digest git env slug eligible budgets roundId child g doc =
     (case le_acquire env of
        Some e \<Rightarrow> (g, doc, Inl e)
      | None \<Rightarrow>
          let released = (\<lambda>(g', doc', r). (g', doc', case r of Inl e \<Rightarrow> Inl e
            | Inr x \<Rightarrow> (case le_release env of Some e \<Rightarrow> Inl e | None \<Rightarrow> Inr x))) in
          (case readRouteRecord is_date git slug roundId g of
             (g1, BlobRead blob r) \<Rightarrow>
               if currentHostOf (rd_hosts r) (rd_currentHostIndex r) \<noteq> Some child
               then released (g1, doc, Inr RoundNotCurrentHost)
               else (case rd_kind r of
                  KRevalidate \<Rightarrow> released (g1, doc, Inr (RoundAcknowledged (Some (''revalidate-'' @ roundId))))
                | KOperator \<Rightarrow> released (g1, doc, Inr (RoundAcknowledged None))
                | KAudit \<Rightarrow> released (settle_audit is_date digest git env slug eligible budgets roundId child
                    \<lparr>sr_slug = slug, sr_blob = blob, sr_record = r\<rparr> g1 doc))
           | (g1, BlobAbsent) \<Rightarrow> released (g1, doc, Inr (RoundHalted (''route record '' @ routeRecordRefFor slug roundId @ '' is absent'')))
           | (g1, BlobUnreadable _) \<Rightarrow>
               released (g1, doc, Inr (RoundHalted (''route record '' @ routeRecordRefFor slug roundId @ '' is unreadable'')))))"

fun settle_attempts ::
  "(string \<Rightarrow> bool) \<Rightarrow> (jval \<Rightarrow> string) \<Rightarrow> 'g git_runner \<Rightarrow> ledger_env \<Rightarrow> string \<Rightarrow> bool \<Rightarrow> receipt_budget list \<Rightarrow> string \<Rightarrow> int
     \<Rightarrow> nat \<Rightarrow> 'g \<Rightarrow> ledger_doc \<Rightarrow> 'g \<times> ledger_doc \<times> round_settlement throws" where
  "settle_attempts is_date digest git env slug eligible budgets roundId child 0 g doc =
     (g, doc, Inr (RoundHalted (''routing round '' @ roundId @ '' settlement lost compare-and-swap three times'')))"
| "settle_attempts is_date digest git env slug eligible budgets roundId child (Suc n) g doc =
     (case settle_attempt is_date digest git env slug eligible budgets roundId child g doc of
        (g1, doc1, Inr RoundRetry) \<Rightarrow> settle_attempts is_date digest git env slug eligible budgets roundId child n g1 doc1
      | other \<Rightarrow> other)"

definition settleRoundAtDispatch where
  "settleRoundAtDispatch is_date digest git env slug eligible budgets roundId child g doc =
     settle_attempts is_date digest git env slug eligible budgets roundId child 3 g doc"

section \<open>Views and the rebuilt ledger\<close>

text \<open>The growth snapshot: pending rem ids, and the one denominator of the rounds that author tasks.\<close>

fun growth_snapshot :: "receipt_item list \<Rightarrow> string list \<Rightarrow> int option \<Rightarrow> (string list \<times> int option) throws" where
  "growth_snapshot [] ids sealed = Inr (ids, sealed)"
| "growth_snapshot (ItemMalformed ref # _) ids sealed = Inl (''route receipt malformed: '' @ ref)"
| "growth_snapshot (ItemUnreadable ref # _) ids sealed =
     Inl (''route receipt unreadable'' @ (case ref of Some x \<Rightarrow> '': '' @ x | None \<Rightarrow> []))"
| "growth_snapshot (ItemOk _ r # rest) ids sealed =
     (let ids1 = (if rr_settlementId (rd_receipt r) = None
                  then ids @ concat (map (\<lambda>(_, a). ha_remTaskIds a) (rd_allocation r)) else ids) in
      case rd_sealedAuthored r of
        None \<Rightarrow> growth_snapshot rest ids1 sealed
      | Some n \<Rightarrow>
          if rd_kind r = KRevalidate then growth_snapshot rest ids1 sealed
          else (case sealed of
             Some m \<Rightarrow> if m \<noteq> n then Inl ''route receipts disagree on sealed authored denominator''
                      else growth_snapshot rest ids1 (Some n)
           | None \<Rightarrow> growth_snapshot rest ids1 (Some n)))"

definition readRoutedGrowthSnapshot :: "receipt_item list \<Rightarrow> (string set \<times> int option) throws" where
  "readRoutedGrowthSnapshot items = map_sum id (\<lambda>(ids, sealed). (set ids, sealed)) (growth_snapshot items [] None)"

fun taskless_count :: "string \<Rightarrow> receipt_item list \<Rightarrow> int \<Rightarrow> string + int" where
  "taskless_count gate [] n = Inr n"
| "taskless_count gate (ItemMalformed _ # _) n = Inl ''route receipt is malformed''"
| "taskless_count gate (ItemUnreadable _ # _) n = Inl ''route receipt is unreadable''"
| "taskless_count gate (ItemOk _ r # rest) n =
     taskless_count gate rest (n + (case map_of (rr_taskless (rd_receipt r)) gate of Some k \<Rightarrow> k | None \<Rightarrow> 0))"

datatype taskless_capacity = TasklessAvailable int | TasklessExhausted int | TasklessHalted string

definition tasklessAdmissionCapacity :: "string \<Rightarrow> receipt_item list \<Rightarrow> taskless_capacity" where
  "tasklessAdmissionCapacity gate items =
     (case taskless_count gate items 0 of
        Inl reason \<Rightarrow> TasklessHalted reason
      | Inr k \<Rightarrow> if KICKBACK_LEDGER_MAX_PER_GATE \<le> k then TasklessExhausted k else TasklessAvailable k)"

datatype taskless_charge = TasklessCharged int | ChargeExhausted int | ChargeHalted string

definition write_name :: "route_write \<Rightarrow> string" where
  "write_name w = (case w of RouteUpdated \<Rightarrow> ''updated'' | RouteCasFailed \<Rightarrow> ''cas-failed''
     | RouteFenced \<Rightarrow> ''restack-journal-open'' | RouteUnavailable \<Rightarrow> ''unavailable'')"

definition chargeTasklessAtAdmission ::
  "(string \<Rightarrow> bool) \<Rightarrow> 'g git_runner \<Rightarrow> string \<Rightarrow> bool \<Rightarrow> string \<Rightarrow> string \<Rightarrow> 'g \<Rightarrow> 'g \<times> taskless_charge" where
  "chargeTasklessAtAdmission is_date git slug eligible roundId gate g =
     (case enumerateRouteReceiptRecords is_date git slug eligible g of
        (g1, items) \<Rightarrow>
          (case tasklessAdmissionCapacity gate items of
             TasklessExhausted n \<Rightarrow> (g1, ChargeExhausted n)
           | TasklessHalted reason \<Rightarrow> (g1, ChargeHalted reason)
           | TasklessAvailable n \<Rightarrow>
               (case readRouteRecord is_date git slug roundId g1 of
                  (g2, BlobRead blob r) \<Rightarrow>
                    if 0 < (case map_of (rr_taskless (rd_receipt r)) gate of Some k \<Rightarrow> k | None \<Rightarrow> 0)
                    then (g2, TasklessCharged n)
                    else (case writeRouteRecord is_date git \<lparr>sr_slug = slug, sr_blob = blob, sr_record = r\<rparr>
                             (r\<lparr>rd_receipt := withTasklessCharge (rd_receipt r) gate\<rparr>) g2 of
                       (g3, RouteUpdated) \<Rightarrow> (g3, TasklessCharged (n + 1))
                     | (g3, w) \<Rightarrow> (g3, ChargeHalted (''taskless receipt write refused: '' @ write_name w)))
                | (g2, _) \<Rightarrow> (g2, ChargeHalted (''route receipt '' @ roundId @ '' is unreadable'')))))"

datatype rebuild_result = Rebuilt | RebuildPresent | RebuildUnreadable

definition charge_taskless :: "(string \<times> int) list \<Rightarrow> kickback_ledger \<Rightarrow> kickback_ledger" where
  "charge_taskless taskless ledger =
     foldl (\<lambda>l (gate, amount).
         let entry = gate_or_default (kl_gates l) gate
         in l\<lparr>kl_gates := AList.update gate (entry\<lparr>ge_count := ge_count entry + amount\<rparr>) (kl_gates l)\<rparr>) ledger taskless"

fun rebuild_items :: "receipt_item list \<Rightarrow> int option \<Rightarrow> kickback_ledger \<Rightarrow> (kickback_ledger \<times> int option) option throws" where
  "rebuild_items [] sealed ledger = Inr (Some (ledger, sealed))"
| "rebuild_items (ItemMalformed _ # _) sealed ledger = Inr None"
| "rebuild_items (ItemUnreadable _ # _) sealed ledger = Inr None"
| "rebuild_items (ItemOk _ r # rest) sealed ledger =
     (if sealed \<noteq> None \<and> rd_sealedAuthored r \<noteq> None \<and> sealed \<noteq> rd_sealedAuthored r then Inr None
      else
        let sealed1 = (case rd_sealedAuthored r of Some n \<Rightarrow> Some n | None \<Rightarrow> sealed);
            ledger1 = charge_taskless (rr_taskless (rd_receipt r)) ledger
        in (case (if rr_settlementId (rd_receipt r) = None then Inr ledger1 else applySettledReceiptToLedger ledger1 r) of
              Inl e \<Rightarrow> Inl e
            | Inr ledger2 \<Rightarrow> rebuild_items rest sealed1 ledger2))"

definition rebuildLedgerFromReceipts :: "ledger_env \<Rightarrow> receipt_item list \<Rightarrow> ledger_doc \<Rightarrow> ledger_doc \<times> rebuild_result throws" where
  "rebuildLedgerFromReceipts env items doc =
     (if doc \<noteq> LedgerAbsent then (doc, Inr RebuildPresent)
      else (case le_acquire env of
          Some e \<Rightarrow> (doc, Inl e)
        | None \<Rightarrow>
            (case (if items = [] then Inr (doc, Rebuilt)
                   else (case rebuild_items items None (emptyLedger\<lparr>kl_settlementReceipts := Some []\<rparr>) of
                      Inl e \<Rightarrow> Inl e
                    | Inr None \<Rightarrow> Inr (doc, RebuildUnreadable)
                    | Inr (Some (ledger, None)) \<Rightarrow> Inr (doc, RebuildUnreadable)
                    | Inr (Some (ledger, Some _)) \<Rightarrow> map_sum id (\<lambda>doc'. (doc', Rebuilt)) (writeKickbackLedgerUnsafe env False doc ledger))) of
               Inl e \<Rightarrow> (doc, Inl e)
             | Inr (doc', r) \<Rightarrow> (doc', case le_release env of Some e \<Rightarrow> Inl e | None \<Rightarrow> Inr r))))"

fun pending_findings :: "receipt_item list \<Rightarrow> (string \<times> pending_finding) list \<Rightarrow> pending_finding list throws" where
  "pending_findings [] acc = Inr (map snd acc)"
| "pending_findings (ItemMalformed _ # _) acc = Inl ''route receipt malformed''"
| "pending_findings (ItemUnreadable _ # _) acc = Inl ''route receipt unreadable''"
| "pending_findings (ItemOk _ r # rest) acc =
     pending_findings rest
       (if rd_phase r = RClosed then acc
        else foldl (\<lambda>kvs f. AList.update (pf_finding f) f kvs) acc
               (case rd_pendingAsBuiltFindings r of Some fs \<Rightarrow> fs | None \<Rightarrow> []))"

definition pendingAsBuiltFindingsFromRoutes :: "receipt_item list \<Rightarrow> pending_finding list throws" where
  "pendingAsBuiltFindingsFromRoutes items = pending_findings items []"

end
