(* ===== verification/ReceiptProps.thy ===== *)
theory ReceiptProps
  imports RoundReceipt RouteProps KickbackLaws
begin

text \<open>
  Properties of the settlement of routed rounds: each receipt is charged once, within the caps, an interrupted
  settlement is completed by the next reconciliation, and a lost ledger is rebuilt with the same charges. Two
  statements record where the code falls short.
\<close>

section \<open>What a receipt charges\<close>

definition gate_laps :: "kickback_ledger \<Rightarrow> string \<Rightarrow> int" where
  "gate_laps l g = laps_of (gate_or_default (kl_gates l) g)"

definition lap_cap :: "kickback_ledger \<Rightarrow> receipt_budget \<Rightarrow> int" where
  "lap_cap l b = (case ge_effectiveLapCap (gate_or_default (kl_gates l) (sb_gate b)) of Some c \<Rightarrow> c | None \<Rightarrow> sb_lapCap b)"

definition lap_charge :: "string \<Rightarrow> route_record \<Rightarrow> int" where
  "lap_charge g r = (case map_of (fst (receiptCharges r)) g of
     Some n \<Rightarrow> if g \<in> set WHOLE_FEATURE_BUDGET_GATES then n else 0 | None \<Rightarrow> 0)"

definition growth_charge :: "route_record \<Rightarrow> int" where
  "growth_charge r = snd (receiptCharges r)"

definition receipt_id :: "receipt_item \<Rightarrow> string option" where
  "receipt_id it = (case it of ItemOk _ r \<Rightarrow> rr_settlementId (rd_receipt r) | _ \<Rightarrow> None)"

definition settlement_ids :: "receipt_item list \<Rightarrow> string list" where
  "settlement_ids items = List.map_filter receipt_id items"

text \<open>The settled receipts that a ledger does not list yet.\<close>

fun due :: "kickback_ledger \<Rightarrow> receipt_item list \<Rightarrow> route_record list" where
  "due l (ItemOk _ r # rest) =
     (case rr_settlementId (rd_receipt r) of
        Some i \<Rightarrow> if settled_in l i then due l rest else r # due l rest
      | None \<Rightarrow> due l rest)"
| "due l (_ # rest) = due l rest"
| "due l [] = []"

lemma gate_or_default_update: "gate_or_default (AList.update g e gs) g' = (if g' = g then e else gate_or_default gs g')"
  by (simp add: gate_or_default_def update_conv')

lemma laps_of_charged [simp]: "laps_of (e\<lparr>ge_laps := Some n\<rparr>) = n"
  by (simp add: laps_of_def)

lemma charge_laps_gate:
  "gate_or_default (charge_laps laps g gs) g' =
     (if g' = g \<and> map_of laps g \<noteq> None
      then (gate_or_default gs g)\<lparr>ge_laps := Some (laps_of (gate_or_default gs g) + the (map_of laps g))\<rparr>
      else gate_or_default gs g')"
  by (auto simp: charge_laps_def gate_or_default_update Let_def split: option.splits)

lemma applied:
  assumes "applySettledReceiptToLedger l r = Inr l'" and "rr_settlementId (rd_receipt r) = Some i"
  shows "gate_laps l' g = gate_laps l g + lap_charge g r" "settled_added l' = settled_added l + growth_charge r"
    "settled_in l' j \<longleftrightarrow> settled_in l j \<or> j = i" "growth_cap l' budgets = growth_cap l budgets" "lap_cap l' b = lap_cap l b"
proof -
  obtain s where s: "rd_sealedAuthored r = Some s"
    using assms by (auto simp: applySettledReceiptToLedger_def split: option.splits)
  note l' = assms(1) [unfolded applySettledReceiptToLedger_def assms(2) s Let_def split_def, simplified, symmetric]
  show "gate_laps l' g = gate_laps l g + lap_charge g r"
    by (auto simp: l' gate_laps_def WHOLE_FEATURE_BUDGET_GATES_def charge_laps_gate lap_charge_def spread_ledger_def split: option.splits)
  show "settled_added l' = settled_added l + growth_charge r"
    by (simp add: l' settled_added_def growth_charge_def split: option.splits)
  show "settled_in l' j \<longleftrightarrow> settled_in l j \<or> j = i"
    by (auto simp: l' settled_in_def update_conv' split: option.splits)
  show "growth_cap l' budgets = growth_cap l budgets"
    by (simp add: l' growth_cap_def spread_ledger_def split: option.splits)
  show "lap_cap l' b = lap_cap l b"
    by (simp add: l' lap_cap_def WHOLE_FEATURE_BUDGET_GATES_def charge_laps_gate spread_ledger_def split: option.splits)
qed

section \<open>Once each\<close>

lemma settlement_ids_simps [simp]:
  "settlement_ids [] = []"
  "settlement_ids (it # items) = (case receipt_id it of None \<Rightarrow> settlement_ids items | Some i \<Rightarrow> i # settlement_ids items)"
  by (simp_all add: settlement_ids_def map_filter_simps split: option.splits)

lemma due_more:
  "(\<And>j. settled_in l' j \<longleftrightarrow> settled_in l j \<or> j = i) \<Longrightarrow> i \<notin> set (settlement_ids items) \<Longrightarrow> due l' items = due l items"
  by (induction l items rule: due.induct) (auto simp: receipt_id_def split: option.splits)

lemma reconcile_flag: "reconcile_items items l True = Inr (res, l', c) \<Longrightarrow> c"
  by (induction items l True rule: reconcile_items.induct) (auto split: option.splits if_splits sum.splits)

lemma reconcile_settled:
  "reconcile_items items l ch = Inr (Reconciled, l', ch') \<Longrightarrow> \<forall>i\<in>set (settlement_ids items). settled_in l'' i \<Longrightarrow>
     reconcile_items items l'' ch'' = Inr (Reconciled, l'', ch'')"
  by (induction items l ch arbitrary: l' ch' rule: reconcile_items.induct)
    (auto simp: receipt_id_def split: option.splits if_splits sum.splits)

lemma reconcile_exact:
  assumes "reconcile_items items l ch = Inr (Reconciled, l', ch')" and "distinct (settlement_ids items)"
  shows "gate_laps l' g = gate_laps l g + (\<Sum>r\<leftarrow>due l items. lap_charge g r) \<and>
    settled_added l' = settled_added l + (\<Sum>r\<leftarrow>due l items. growth_charge r) \<and>
    (\<forall>j. settled_in l' j \<longleftrightarrow> settled_in l j \<or> j \<in> set (settlement_ids items)) \<and>
    ch' = (ch \<or> due l items \<noteq> [])"
  using assms
proof (induction items l ch rule: reconcile_items.induct)
  case (4 rid r rest l ch)
  show ?case
  proof (cases "rr_settlementId (rd_receipt r)")
    case None
    with "4.IH"(1) [OF None] "4.prems" show ?thesis by (simp add: receipt_id_def)
  next
    case (Some i)
    then have ids: "i \<notin> set (settlement_ids rest)" "distinct (settlement_ids rest)" using "4.prems"(2) by (auto simp: receipt_id_def)
    show ?thesis
    proof (cases "settled_in l i")
      case True
      with "4.IH"(2) [OF Some True] "4.prems" Some ids show ?thesis by (auto simp: receipt_id_def)
    next
      case False
      with "4.prems"(1) Some obtain l1 where l1: "applySettledReceiptToLedger l r = Inr l1"
        "reconcile_items rest l1 True = Inr (Reconciled, l', ch')"
        by (cases "applySettledReceiptToLedger l r") auto
      note ap = applied [OF l1(1) Some]
      have d: "due l1 rest = due l rest" by (rule due_more [OF ap(3) ids(1)])
      show ?thesis using "4.IH"(3) [OF Some False l1 ids(2)] ap Some False
        by (simp add: receipt_id_def d ac_simps)
    qed
  qed
qed simp_all

text \<open>
  C12: reconciling the ledger with the receipts of the feature charges each settled
  receipt that the ledger does not list, and only those: the laps of every gate and the growth go up by
  exactly their sum, every settlement id is listed afterwards, a write is asked for only when something was
  charged, and reconciling again changes nothing.
\<close>

theorem settlement_charged_exactly_once:
  assumes "distinct (settlement_ids items)" and "reconcile_items items l False = Inr (Reconciled, l', changed)"
  shows "gate_laps l' g = gate_laps l g + (\<Sum>r\<leftarrow>due l items. lap_charge g r) \<and>
    settled_added l' = settled_added l + (\<Sum>r\<leftarrow>due l items. growth_charge r) \<and>
    (\<forall>j. settled_in l' j = (settled_in l j \<or> j \<in> set (settlement_ids items))) \<and>
    changed = (due l items \<noteq> []) \<and> reconcile_items items l' False = Inr (Reconciled, l', False)"
  using reconcile_exact [OF assms(2,1)] reconcile_settled [OF assms(2), of l' False] by auto

definition settled_sample :: "string \<Rightarrow> route_record" where
  "settled_sample i = sample_record\<lparr>rd_sealedAuthored := Some 5,
     rd_receipt := \<lparr>rr_laps = [(''prd_audit'', 1)], rr_growth = 2, rr_taskless = [], rr_echo = [],
                    rr_settlementId = Some i, rr_acks = [(2, True)]\<rparr>\<rparr>"

lemma settled_sample_simps [simp]:
  "rr_settlementId (rd_receipt (settled_sample i)) = Some i" "rd_sealedAuthored (settled_sample i) = Some 5"
  "receiptCharges (settled_sample i) = ([(''prd_audit'', 1)], 2)"
  by (simp_all add: settled_sample_def sample_record_def receiptCharges_def)

lemma settled_sample_applied: "\<exists>l'. applySettledReceiptToLedger l (settled_sample i) = Inr l'"
  by (simp add: applySettledReceiptToLedger_def Let_def)

theorem settlement_charged_exactly_once_witness:
  "\<exists>l'. reconcile_items [ItemOk ''r1'' (settled_sample ''r1-a''), ItemOk ''r2'' (settled_sample ''r2-b'')] emptyLedger False =
     Inr (Reconciled, l', True) \<and> gate_laps l' ''prd_audit'' = 2 \<and> settled_added l' = 4"
proof -
  let ?items = "[ItemOk ''r1'' (settled_sample ''r1-a''), ItemOk ''r2'' (settled_sample ''r2-b'')]"
  have e: "\<not> settled_in emptyLedger i" "gate_laps emptyLedger g = 0" "settled_added emptyLedger = 0" for i g
    by (simp_all add: settled_in_def emptyLedger_def gate_laps_def gate_or_default_def defaultGateEntry_def laps_of_def
        blank_gate_entry_def settled_added_def)
  obtain l1 where l1: "applySettledReceiptToLedger emptyLedger (settled_sample ''r1-a'') = Inr l1"
    using settled_sample_applied by blast
  obtain l2 where l2: "applySettledReceiptToLedger l1 (settled_sample ''r2-b'') = Inr l2"
    using settled_sample_applied by blast
  have "\<not> settled_in l1 ''r2-b''" using applied(3) [OF l1, of "''r1-a''" "''r2-b''"] e(1) by simp
  with l1 l2 e(1) have r: "reconcile_items ?items emptyLedger False = Inr (Reconciled, l2, True)" by simp
  have d: "distinct (settlement_ids ?items)" by (simp add: receipt_id_def)
  have "lap_charge ''prd_audit'' (settled_sample i) = 1" "growth_charge (settled_sample i) = 2" for i
    by (simp_all add: lap_charge_def growth_charge_def WHOLE_FEATURE_BUDGET_GATES_def)
  with settlement_charged_exactly_once [OF d r, of "''prd_audit''"] e r show ?thesis by simp
qed

section \<open>Within the caps\<close>

text \<open>Every charged gate has a budget and stays within its cap, and the growth within its own.\<close>

definition lap_fits :: "kickback_ledger \<Rightarrow> route_record \<Rightarrow> receipt_budget list \<Rightarrow> string \<Rightarrow> bool" where
  "lap_fits l r budgets g =
     (map_of (fst (receiptCharges r)) g \<noteq> None \<longrightarrow>
        (case receipt_budget_for budgets g of
           Some b \<Rightarrow> gate_laps l g + lap_charge g r \<le> lap_cap l b | None \<Rightarrow> False))"

definition fits :: "kickback_ledger \<Rightarrow> route_record \<Rightarrow> receipt_budget list \<Rightarrow> bool" where
  "fits l r budgets =
     (list_all (lap_fits l r budgets) WHOLE_FEATURE_BUDGET_GATES \<and>
      settled_added l + growth_charge r \<le> growth_cap l budgets)"

lemma receipt_budget_gate: "receipt_budget_for budgets g = Some b \<Longrightarrow> sb_gate b = g"
  by (auto simp: receipt_budget_for_def dest: find_Some_iff [THEN iffD1])

lemma laps_exhausted_None:
  assumes "applySettledReceiptToLedger l r = Inr next" and "rr_settlementId (rd_receipt r) = Some i"
    and "set gs \<subseteq> set WHOLE_FEATURE_BUDGET_GATES"
  shows "laps_exhausted l next (fst (receiptCharges r)) budgets gs = None \<longleftrightarrow> list_all (lap_fits l r budgets) gs"
  using assms(3)
proof (induction gs)
  case (Cons g gs)
  have cap: "(case ge_effectiveLapCap (gate_or_default (kl_gates next) g) of Some c \<Rightarrow> c | None \<Rightarrow> sb_lapCap b) = lap_cap l b"
    if "receipt_budget_for budgets g = Some b" for b
    using applied(5) [OF assms(1,2), of b] receipt_budget_gate [OF that] by (simp add: lap_cap_def)
  have laps: "laps_of (gate_or_default (kl_gates next) g) = gate_laps l g + lap_charge g r"
    using applied(1) [OF assms(1,2), of g] by (simp add: gate_laps_def)
  from Cons cap laps show ?case by (auto simp: lap_fits_def Let_def split: option.splits)
qed simp

text \<open>
  C19: a settlement is granted exactly when every charged gate has a budget whose lap cap, as
  raised by the operator, still covers the round, and the growth cap covers its tasks; what is then written
  is the ledger with exactly these charges and the settlement's id, with no cap moved.
\<close>

theorem settlement_within_caps:
  assumes "rr_settlementId (rd_receipt r) = Some i" and "rd_sealedAuthored r = Some s"
  shows "\<exists>next. applySettledReceiptToLedger l r = Inr next \<and>
    (nextLedgerForReceipt l r budgets = Inr (Inr next)) = fits l r budgets \<and>
    (fits l r budgets \<or> (\<exists>g al detail. nextLedgerForReceipt l r budgets = Inr (Inl (g, al, detail)))) \<and>
    gate_laps next g = gate_laps l g + lap_charge g r \<and> settled_added next = settled_added l + growth_charge r \<and>
    settled_in next i \<and> growth_cap next budgets = growth_cap l budgets \<and> lap_cap next b = lap_cap l b"
proof -
  obtain l' where l': "applySettledReceiptToLedger l r = Inr l'"
    using assms by (simp add: applySettledReceiptToLedger_def Let_def split_def)
  note ap = applied [OF l' assms(1)]
  note ex = laps_exhausted_None [OF l' assms(1) subset_refl, of budgets]
  have res: "nextLedgerForReceipt l r budgets =
      Inr (case laps_exhausted l l' (fst (receiptCharges r)) budgets WHOLE_FEATURE_BUDGET_GATES of
         Some (gate, consumed, limit) \<Rightarrow> Inl (gate, AllowLaps, refused_detail l l' r budgets consumed limit)
       | None \<Rightarrow> if growth_cap l budgets < settled_added l + growth_charge r
           then Inl (growth_owner (fst (receiptCharges r)), AllowGrowth,
              refused_detail l l' r budgets (settled_added l) (growth_cap l budgets))
           else Inr l')"
    by (simp add: nextLedgerForReceipt_def l' ap(2) ap(4) cong: option.case_cong)
  have granted: "(nextLedgerForReceipt l r budgets = Inr (Inr l')) = fits l r budgets"
    using ex by (cases "laps_exhausted l l' (fst (receiptCharges r)) budgets WHOLE_FEATURE_BUDGET_GATES")
      (auto simp: res fits_def)
  have refused: "fits l r budgets \<or> (\<exists>g al detail. nextLedgerForReceipt l r budgets = Inr (Inl (g, al, detail)))"
    using ex by (cases "laps_exhausted l l' (fst (receiptCharges r)) budgets WHOLE_FEATURE_BUDGET_GATES")
      (auto simp: res fits_def)
  from l' granted refused ap show ?thesis by blast
qed

definition sample_budget :: "int \<Rightarrow> receipt_budget" where
  "sample_budget cap = \<lparr>sb_gate = ''prd_audit'', sb_lapCap = cap, sb_growthCap = 3,
     sb_growth = \<lparr>pg_authored = 5, pg_added = 0, pg_byGate = [], pg_remaining = 3\<rparr>, rb_authoredSource = FromPlan\<rparr>"

lemma emptyLedger_counts [simp]:
  "settled_in emptyLedger i = False" "gate_laps emptyLedger g = 0" "settled_added emptyLedger = 0"
  "growth_cap emptyLedger [sample_budget c] = 3" "lap_cap emptyLedger (sample_budget c) = c"
  by (simp_all add: settled_in_def emptyLedger_def gate_laps_def gate_or_default_def defaultGateEntry_def laps_of_def
      blank_gate_entry_def settled_added_def growth_cap_def lap_cap_def sample_budget_def)

lemma settled_sample_charges [simp]:
  "lap_charge ''prd_audit'' (settled_sample i) = 1" "growth_charge (settled_sample i) = 2"
  by (simp_all add: lap_charge_def growth_charge_def WHOLE_FEATURE_BUDGET_GATES_def)

lemma sample_fits: "fits emptyLedger (settled_sample i) [sample_budget c] = (1 \<le> c)"
proof -
  have "receipt_budget_for [sample_budget c] ''prd_audit'' = Some (sample_budget c)"
    by (simp add: receipt_budget_for_def sample_budget_def)
  then show ?thesis by (simp add: fits_def lap_fits_def WHOLE_FEATURE_BUDGET_GATES_def)
qed

theorem settlement_within_caps_witness:
  "(\<exists>next. nextLedgerForReceipt emptyLedger (settled_sample ''r1-a'') [sample_budget 1] = Inr (Inr next) \<and>
      gate_laps next ''prd_audit'' = 1 \<and> settled_added next = 2) \<and>
   (\<exists>g al detail. nextLedgerForReceipt emptyLedger (settled_sample ''r1-a'') [sample_budget 0] = Inr (Inl (g, al, detail)))"
proof -
  note w = settlement_within_caps [of "settled_sample ''r1-a''" "''r1-a''" 5 emptyLedger _ "''prd_audit''"]
  from w [of "[sample_budget 0]" "sample_budget 0"] have
    "\<exists>g al detail. nextLedgerForReceipt emptyLedger (settled_sample ''r1-a'') [sample_budget 0] = Inr (Inl (g, al, detail))"
    by (simp add: sample_fits) blast
  with w [of "[sample_budget 1]" "sample_budget 1"] show ?thesis by (simp add: sample_fits) blast
qed

section \<open>After a crash\<close>

lemma reconcile_nothing:
  "\<forall>it\<in>set items. (\<exists>rid r. it = ItemOk rid r) \<and> (\<forall>i. receipt_id it = Some i \<longrightarrow> settled_in l i) \<Longrightarrow>
     reconcile_items (items @ rest) l ch = reconcile_items rest l ch"
proof (induction items)
  case (Cons it items)
  then obtain rid r where "it = ItemOk rid r" by auto
  with Cons show ?case by (auto simp: receipt_id_def split: option.splits)
qed simp

lemma granted_applied:
  "nextLedgerForReceipt l r budgets = Inr (Inr next) \<Longrightarrow> applySettledReceiptToLedger l r = Inr next"
  by (auto simp: nextLedgerForReceipt_def split: sum.splits option.splits if_splits)

text \<open>
  A settlement whose process stopped between the update of the route record and
  the write of the ledger is completed by the next reconciliation: it writes the very ledger that the
  settlement had computed, whatever the caps are by then.
\<close>

theorem crashed_settlement_recovered:
  assumes "nextLedgerForReceipt (readKickbackLedger doc) r budgets = Inr (Inr next)"
    and "rr_settlementId (rd_receipt r) = Some i" and "\<not> settled_in (readKickbackLedger doc) i"
    and "enumerateRouteReceiptRecords is_date git slug eligible g = (g1, before @ ItemOk rid r # after)"
    and "\<forall>it\<in>set (before @ after). (\<exists>rid' r'. it = ItemOk rid' r') \<and>
           (\<forall>j. receipt_id it = Some j \<longrightarrow> settled_in (readKickbackLedger doc) j)"
  shows "reconcileReceiptLedgerUnlocked is_date git env slug eligible g doc =
    (case writeKickbackLedgerUnsafe env False doc next of
       Inl e \<Rightarrow> (g1, doc, Inl e) | Inr doc' \<Rightarrow> (g1, doc', Inr Reconciled))"
proof -
  let ?l = "readKickbackLedger doc"
  note ap = granted_applied [OF assms(1)]
  have "\<forall>it\<in>set after. (\<exists>rid r. it = ItemOk rid r) \<and> (\<forall>i. receipt_id it = Some i \<longrightarrow> settled_in next i)"
    using assms(5) applied(3) [OF ap assms(2)] by auto
  from reconcile_nothing [OF this, of "[]" True] have rest: "reconcile_items after next True = Inr (Reconciled, next, True)" by simp
  have "reconcile_items (before @ ItemOk rid r # after) ?l False = Inr (Reconciled, next, True)"
    using assms(5) by (subst reconcile_nothing) (auto simp: assms(2,3) ap rest)
  then show ?thesis by (simp add: reconcileReceiptLedgerUnlocked_def assms(4))
qed

text \<open>A repository that lists its routes.\<close>

definition listing_run :: "tiny_git git_runner" where
  "listing_run g args inp =
     (if take 1 args = [''for-each-ref''] then (g, tiny_answer 0 (concat (map (\<lambda>(r, _). r @ [CHR 0x0A]) (tg_refs g))) None)
      else tiny_run g args inp)"

definition settled_git :: tiny_git where
  "settled_git = \<lparr>tg_refs = [(routeRecordRefFor ''demo'' ''r1'', tiny_id 0)],
     tg_objects = [route_json (settled_sample ''r1-a'')]\<rparr>"

lemma settled_record_read:
  "parseRouteRecord (\<lambda>_. True) (Some (route_json (settled_sample ''r1-a''))) = Some (settled_sample ''r1-a'')"
  "parseRoundId (last_segment (routeRecordRefFor ''demo'' ''r1'')) = Some ''r1''"
  "filter (\<lambda>l. l \<noteq> []) (split_on (CHR 0x0A) (routeRecordRefFor ''demo'' ''r1'' @ [CHR 0x0A])) = [routeRecordRefFor ''demo'' ''r1'']"
  by code_simp+

lemma settled_git_lookup:
  "tiny_object settled_git (tiny_id 0) = Some (route_json (settled_sample ''r1-a''))"
  "tiny_refs settled_git (routeRecordRefFor ''demo'' ''r1'') = Some (tiny_id 0)"
  "tg_refs settled_git = [(routeRecordRefFor ''demo'' ''r1'', tiny_id 0)]"
  "js_trim (tiny_id 0) = tiny_id 0" "parseCommitSha (tiny_id 0) = Some (tiny_id 0)"
  by code_simp+

lemma settled_listed:
  "enumerateRouteReceiptRecords (\<lambda>_. True) listing_run ''demo'' True settled_git =
     (settled_git, [ItemOk ''r1'' (settled_sample ''r1-a'')])"
proof -
  have "readBlob listing_run (routeRecordRefFor ''demo'' ''r1'') settled_git =
      (settled_git, BlobRead (tiny_id 0) (Some (route_json (settled_sample ''r1-a''))))"
    by (simp add: readBlob_def listing_run_def tiny_run_def settled_git_lookup tiny_answer_def answer_ok_def)
  then have "readRouteRecord (\<lambda>_. True) listing_run ''demo'' ''r1'' settled_git = (settled_git, BlobRead (tiny_id 0) (settled_sample ''r1-a''))"
    by (simp add: readRouteRecord_def parse_read_def settled_record_read)
  then have "read_receipts (\<lambda>_. True) listing_run ''demo'' [routeRecordRefFor ''demo'' ''r1''] settled_git =
      (settled_git, [ItemOk ''r1'' (settled_sample ''r1-a'')])"
    by (simp add: settled_record_read(2)) (simp add: settled_sample_def sample_record_def)
  then show ?thesis
    by (simp add: enumerateRouteReceiptRecords_def listing_run_def settled_git_lookup(3) tiny_answer_def answer_ok_def
        settled_record_read(3) [simplified])
qed

theorem crashed_settlement_recovered_witness:
  "\<exists>doc'. reconcileReceiptLedgerUnlocked (\<lambda>_. True) listing_run ok_ledger_env ''demo'' True settled_git LedgerAbsent =
     (settled_git, doc', Inr Reconciled) \<and> doc' \<noteq> LedgerAbsent"
proof -
  let ?r = "settled_sample ''r1-a''"
  have read: "readKickbackLedger LedgerAbsent = emptyLedger"
    by (simp add: readKickbackLedger_def readKickbackLedgerResult_def)
  have "\<exists>next. nextLedgerForReceipt emptyLedger ?r [sample_budget 1] = Inr (Inr next)"
  proof -
    obtain nxt where n: "applySettledReceiptToLedger emptyLedger ?r = Inr nxt" using settled_sample_applied by blast
    note ap = applied [OF n settled_sample_simps(1)]
    from laps_exhausted_None [OF n settled_sample_simps(1) subset_refl, of "[sample_budget 1]"] sample_fits [of "''r1-a''" 1]
    have "laps_exhausted emptyLedger nxt (fst (receiptCharges ?r)) [sample_budget 1] WHOLE_FEATURE_BUDGET_GATES = None"
      by (simp add: fits_def)
    with n ap(2) ap(4) [of "[sample_budget 1]"] show ?thesis by (simp add: nextLedgerForReceipt_def)
  qed
  then obtain nxt where nx: "nextLedgerForReceipt (readKickbackLedger LedgerAbsent) ?r [sample_budget 1] = Inr (Inr nxt)"
    by (auto simp: read)
  have g: "enumerateRouteReceiptRecords (\<lambda>_. True) listing_run ''demo'' True settled_git =
      (settled_git, [] @ ItemOk ''r1'' ?r # [])" by (simp add: settled_listed)
  from crashed_settlement_recovered [OF nx settled_sample_simps(1) _ g, of ok_ledger_env] read show ?thesis
    by (simp add: writeKickbackLedgerUnsafe_def withPreservedUnreadableGates_def ok_ledger_env_def)
qed

section \<open>A rebuilt ledger\<close>

lemma laps_of_counted [simp]: "laps_of (e\<lparr>ge_count := n\<rparr>) = laps_of e"
  by (simp add: laps_of_def)

lemma charge_taskless_simps:
  "charge_taskless [] l = l"
  "charge_taskless ((gate, n) # ts) l =
     charge_taskless ts (l\<lparr>kl_gates := AList.update gate
       ((gate_or_default (kl_gates l) gate)\<lparr>ge_count := ge_count (gate_or_default (kl_gates l) gate) + n\<rparr>) (kl_gates l)\<rparr>)"
  by (simp_all add: charge_taskless_def Let_def)

lemma taskless_charged:
  "gate_laps (charge_taskless ts l) g = gate_laps l g" "settled_added (charge_taskless ts l) = settled_added l"
  "settled_in (charge_taskless ts l) j = settled_in l j"
proof -
  have "gate_laps (charge_taskless ts l) g = gate_laps l g \<and> settled_added (charge_taskless ts l) = settled_added l \<and>
      settled_in (charge_taskless ts l) j = settled_in l j"
  proof (induction ts arbitrary: l)
    case (Cons t ts)
    obtain gate n where t: "t = (gate, n)" by (cases t)
    show ?case unfolding t charge_taskless_simps
      by (simp only: Cons.IH) (simp add: gate_laps_def gate_or_default_update settled_added_def settled_in_def)
  qed (simp add: charge_taskless_simps)
  then show "gate_laps (charge_taskless ts l) g = gate_laps l g" "settled_added (charge_taskless ts l) = settled_added l"
    "settled_in (charge_taskless ts l) j = settled_in l j" by blast+
qed

lemma due_cong: "(\<And>j. settled_in l' j = settled_in l j) \<Longrightarrow> due l' items = due l items"
  by (induction l items rule: due.induct) (auto split: option.splits)

lemma rebuild_exact:
  assumes "rebuild_items items s l = Inr (Some (l', s'))" and "distinct (settlement_ids items)"
    and "\<forall>i\<in>set (settlement_ids items). \<not> settled_in l i"
  shows "gate_laps l' g = gate_laps l g + (\<Sum>r\<leftarrow>due l items. lap_charge g r) \<and>
    settled_added l' = settled_added l + (\<Sum>r\<leftarrow>due l items. growth_charge r) \<and>
    (\<forall>j. settled_in l' j \<longleftrightarrow> settled_in l j \<or> j \<in> set (settlement_ids items))"
  using assms
proof (induction items arbitrary: s l)
  case (Cons it rest)
  obtain rid r where it: "it = ItemOk rid r" using Cons.prems(1) by (cases it) auto
  let ?l1 = "charge_taskless (rr_taskless (rd_receipt r)) l"
  have d1: "due ?l1 items = due l items" for items by (rule due_cong) (rule taskless_charged)
  show ?case
  proof (cases "rr_settlementId (rd_receipt r)")
    case None
    with Cons.prems it obtain s1 where "rebuild_items rest s1 ?l1 = Inr (Some (l', s'))"
      by (auto simp: Let_def split: if_splits)
    with Cons.IH [OF this] Cons.prems None it d1 show ?thesis by (simp add: receipt_id_def taskless_charged)
  next
    case (Some i)
    obtain l2 s1 where l2: "applySettledReceiptToLedger ?l1 r = Inr l2" "rebuild_items rest s1 l2 = Inr (Some (l', s'))"
      using Cons.prems(1) Some it by (auto simp: Let_def split: if_splits sum.splits)
    have ids: "i \<notin> set (settlement_ids rest)" "distinct (settlement_ids rest)" "\<not> settled_in l i"
      "\<forall>j\<in>set (settlement_ids rest). \<not> settled_in l j"
      using Cons.prems(2,3) Some it by (auto simp: receipt_id_def)
    note ap = applied [OF l2(1) Some, unfolded taskless_charged]
    have d2: "due l2 rest = due l rest" by (rule due_more [OF ap(3) ids(1)])
    have "\<forall>j\<in>set (settlement_ids rest). \<not> settled_in l2 j" using ids ap(3) by auto
    from Cons.IH [OF l2(2) ids(2) this] ap d2 Some it ids(3) show ?thesis by (simp add: receipt_id_def ac_simps)
  qed
qed simp

text \<open>
  A ledger that is rebuilt from the receipts after the loss of its worktree carries the
  same laps per gate, the same growth and the same settlement ids as an empty ledger that is reconciled
  with those receipts.
\<close>

theorem rebuilt_as_reconciled:
  assumes "distinct (settlement_ids items)"
    and "rebuild_items items None (emptyLedger\<lparr>kl_settlementReceipts := Some []\<rparr>) = Inr (Some (l, sealed))"
    and "reconcile_items items emptyLedger False = Inr (Reconciled, l', changed)"
  shows "gate_laps l g = gate_laps l' g \<and> settled_added l = settled_added l' \<and> (\<forall>j. settled_in l j = settled_in l' j)"
proof -
  let ?e = "emptyLedger\<lparr>kl_settlementReceipts := Some []\<rparr>"
  have e: "gate_laps ?e g = 0" "settled_added ?e = 0" "\<not> settled_in ?e j" for j
    using emptyLedger_counts(2) [of g] emptyLedger_counts(3) by (simp_all add: gate_laps_def settled_added_def settled_in_def)
  have "due ?e items = due emptyLedger items" by (rule due_cong) (simp add: e)
  with rebuild_exact [OF assms(2,1), of g] reconcile_exact [OF assms(3,1), of g] e show ?thesis by simp
qed

theorem rebuilt_as_reconciled_witness:
  "\<exists>l l' sealed. rebuild_items [ItemOk ''r1'' (settled_sample ''r1-a'')] None (emptyLedger\<lparr>kl_settlementReceipts := Some []\<rparr>) =
       Inr (Some (l, sealed)) \<and>
     reconcile_items [ItemOk ''r1'' (settled_sample ''r1-a'')] emptyLedger False = Inr (Reconciled, l', True) \<and>
     gate_laps l ''prd_audit'' = gate_laps l' ''prd_audit''"
proof -
  let ?r = "settled_sample ''r1-a''"
  let ?items = "[ItemOk ''r1'' ?r]"
  obtain l where "applySettledReceiptToLedger (charge_taskless (rr_taskless (rd_receipt ?r)) (emptyLedger\<lparr>kl_settlementReceipts := Some []\<rparr>)) ?r = Inr l"
    using settled_sample_applied by blast
  then have b: "rebuild_items ?items None (emptyLedger\<lparr>kl_settlementReceipts := Some []\<rparr>) = Inr (Some (l, Some 5))" by simp
  obtain l' where "applySettledReceiptToLedger emptyLedger ?r = Inr l'" using settled_sample_applied by blast
  then have r: "reconcile_items ?items emptyLedger False = Inr (Reconciled, l', True)" by simp
  have "distinct (settlement_ids ?items)" by (simp add: receipt_id_def)
  from rebuilt_as_reconciled [OF this b r] b r show ?thesis by blast
qed

section \<open>Where the code falls short\<close>


text \<open>
  A feature with a revalidation round from the time when such rounds
  carried the denominator 0 has one growth snapshot, but after the loss of its worktree the ledger cannot be
  rebuilt from the same receipts: the rebuild compares the 0 that the snapshot skips.
\<close>

theorem rebuild_refuses_legacy_placeholder:
  "\<exists>audit legacy. rd_kind audit = KAudit \<and> rd_kind legacy = KRevalidate \<and> rd_sealedAuthored legacy = Some 0 \<and>
     readRoutedGrowthSnapshot [ItemOk ''r1'' audit, ItemOk ''r2'' legacy] = Inr ({}, Some 5) \<and>
     rebuildLedgerFromReceipts ok_ledger_env [ItemOk ''r1'' audit, ItemOk ''r2'' legacy] LedgerAbsent =
       (LedgerAbsent, Inr RebuildUnreadable)"
proof (intro exI conjI)
  let ?a = "settled_sample ''r1-a''"
  let ?b = "sample_record\<lparr>rd_kind := KRevalidate, rd_sealedAuthored := Some 0\<rparr>"
  show "rd_kind ?a = KAudit" "rd_kind ?b = KRevalidate" "rd_sealedAuthored ?b = Some 0"
    by (simp_all add: settled_sample_def sample_record_def)
  show "readRoutedGrowthSnapshot [ItemOk ''r1'' ?a, ItemOk ''r2'' ?b] = Inr ({}, Some 5)"
    by (simp add: readRoutedGrowthSnapshot_def sample_record_def settled_sample_def emptyUnsettledReceipt_def)
  obtain l' where "applySettledReceiptToLedger (charge_taskless (rr_taskless (rd_receipt ?a)) (emptyLedger\<lparr>kl_settlementReceipts := Some []\<rparr>)) ?a = Inr l'"
    using settled_sample_applied by blast
  then show "rebuildLedgerFromReceipts ok_ledger_env [ItemOk ''r1'' ?a, ItemOk ''r2'' ?b] LedgerAbsent = (LedgerAbsent, Inr RebuildUnreadable)"
    by (simp add: rebuildLedgerFromReceipts_def ok_ledger_env_def)
qed

end
