(* ===== verification/BranchName.thy ===== *)
theory BranchName
  imports GitPort
begin

text \<open>
  The names of the branches a feature lives on (\<^verbatim>\<open>engine/feature-branch-identity.ts\<close>): its leaf, its
  children, its specification and interactive branches, and the one parser that tells them apart.
\<close>

section \<open>Building and parsing\<close>

definition LEAF_PREFIX :: string where
  "LEAF_PREFIX = ''feat/daemon-''"

definition SPEC_PREFIX :: string where
  "SPEC_PREFIX = ''spec/''"

definition INTERACTIVE_PREFIX :: string where
  "INTERACTIVE_PREFIX = ''feature/''"

definition CHILD_BRANCH_PREFIX :: string where
  "CHILD_BRANCH_PREFIX = ''feat/c''"

definition LOCAL_REF_PREFIX :: string where
  "LOCAL_REF_PREFIX = ''refs/heads/''"

definition REMOTE_REF_PREFIX :: string where
  "REMOTE_REF_PREFIX = ''refs/remotes/''"

definition OWNED_NON_PREFIX_SEGMENTS :: "string list" where
  "OWNED_NON_PREFIX_SEGMENTS = [''feat'', ''spec'', ''feature'']"

datatype feature_branch =
    LeafBranch string
  | ChildBranch string int
  | SpecBranch string
  | InteractiveBranch string
  | UnrecognizedBranch string string

definition dquoted :: "string \<Rightarrow> string" where
  "dquoted s = CHR 0x22 # s @ [CHR 0x22]"

definition leafBranchFor :: "string \<Rightarrow> string" where
  "leafBranchFor slug = LEAF_PREFIX @ slug"

text \<open>The reason of a refusal on the left, the branch on the right.\<close>

definition childBranchFor :: "string \<Rightarrow> int \<Rightarrow> string throws" where
  "childBranchFor slug child =
     (case parseChildId (RawInt child) of
        None \<Rightarrow> Inl (''invalid child id '' @ dquoted (int_str child))
      | Some i \<Rightarrow>
          if slug = [] \<or> CHR ''/'' \<in> set slug then Inl (''invalid slug '' @ dquoted slug)
          else Inr (''feat/c'' @ int_str i @ ''/'' @ slug))"

definition ends_line :: "char \<Rightarrow> bool" where
  "ends_line c = (c = CHR 0x0A \<or> c = CHR 0x0D)"

text \<open>\<^verbatim>\<open>/^(\d+)(?:\/(.*))?$/\<close>: the digits, and what follows the slash when there is one.\<close>

definition CHILD_BRANCH_REST :: "string \<Rightarrow> (string \<times> string option) option" where
  "CHILD_BRANCH_REST rest =
     (let digits = takeWhile is_digit rest in
      case (digits, dropWhile is_digit rest) of
        ([], _) \<Rightarrow> None
      | (_, []) \<Rightarrow> Some (digits, None)
      | (_, c # tail) \<Rightarrow> if c = CHR ''/'' \<and> \<not> list_ex ends_line tail then Some (digits, Some tail) else None)"

definition parse_child_rest :: "string \<Rightarrow> feature_branch" where
  "parse_child_rest raw =
     (case CHILD_BRANCH_REST (drop (length CHILD_BRANCH_PREFIX) raw) of
        None \<Rightarrow> UnrecognizedBranch raw ''invalid child id''
      | Some (digits, remainder) \<Rightarrow>
          (case parseChildId (RawStr digits) of
             None \<Rightarrow> UnrecognizedBranch raw (''invalid child id '' @ dquoted digits)
           | Some child \<Rightarrow>
               (case remainder of
                  None \<Rightarrow> UnrecognizedBranch raw ''missing slug''
                | Some slug \<Rightarrow>
                    if slug = [] then UnrecognizedBranch raw ''missing slug''
                    else if CHR ''/'' \<in> set slug then UnrecognizedBranch raw ''multi-segment slug''
                    else if childBranchFor slug child \<noteq> Inr raw then UnrecognizedBranch raw ''invalid child id''
                    else ChildBranch slug child)))"

definition named_branch :: "string \<Rightarrow> string \<Rightarrow> (string \<Rightarrow> feature_branch) \<Rightarrow> feature_branch" where
  "named_branch raw pre f =
     (let slug = drop (length pre) raw in if slug = [] then UnrecognizedBranch raw ''empty slug'' else f slug)"

definition parseFeatureBranch :: "string \<Rightarrow> feature_branch" where
  "parseFeatureBranch raw =
     (if starts_with raw LEAF_PREFIX then named_branch raw LEAF_PREFIX LeafBranch
      else if starts_with raw CHILD_BRANCH_PREFIX then parse_child_rest raw
      else if starts_with raw SPEC_PREFIX then named_branch raw SPEC_PREFIX SpecBranch
      else if starts_with raw INTERACTIVE_PREFIX then named_branch raw INTERACTIVE_PREFIX InteractiveBranch
      else UnrecognizedBranch raw ''unrecognized'')"

text \<open>What follows the first slash; the whole text when there is none.\<close>

definition past_slash :: "string \<Rightarrow> string" where
  "past_slash s = (case dropWhile (\<lambda>c. c \<noteq> CHR ''/'') s of [] \<Rightarrow> s | _ # tail \<Rightarrow> tail)"

definition unrecognized :: "feature_branch \<Rightarrow> bool" where
  "unrecognized b = (case b of UnrecognizedBranch _ _ \<Rightarrow> True | _ \<Rightarrow> False)"

definition parseFeatureRef :: "string \<Rightarrow> feature_branch" where
  "parseFeatureRef ref =
     (if starts_with ref LOCAL_REF_PREFIX then parseFeatureBranch (drop (length LOCAL_REF_PREFIX) ref)
      else if starts_with ref REMOTE_REF_PREFIX then parseFeatureBranch (past_slash (drop (length REMOTE_REF_PREFIX) ref))
      else if unrecognized (parseFeatureBranch ref) \<and>
              takeWhile (\<lambda>c. c \<noteq> CHR ''/'') ref \<notin> set OWNED_NON_PREFIX_SEGMENTS
      then parseFeatureBranch (past_slash ref)
      else parseFeatureBranch ref)"

definition is_child_branch :: "feature_branch \<Rightarrow> bool" where
  "is_child_branch b = (case b of ChildBranch _ _ \<Rightarrow> True | _ \<Rightarrow> False)"

definition isDaemonOwnedBranchName :: "string \<Rightarrow> bool" where
  "isDaemonOwnedBranchName name = (starts_with name LEAF_PREFIX \<or> is_child_branch (parseFeatureBranch name))"

definition featureSlugOf :: "feature_branch \<Rightarrow> string option" where
  "featureSlugOf identity =
     (case identity of
        LeafBranch slug \<Rightarrow> Some slug
      | ChildBranch slug _ \<Rightarrow> Some slug
      | SpecBranch slug \<Rightarrow> Some slug
      | InteractiveBranch slug \<Rightarrow> Some slug
      | UnrecognizedBranch _ _ \<Rightarrow> None)"

definition daemonOwnedSlugOfRef :: "string \<Rightarrow> string option" where
  "daemonOwnedSlugOfRef ref =
     (case parseFeatureRef ref of LeafBranch slug \<Rightarrow> Some slug | ChildBranch slug _ \<Rightarrow> Some slug | _ \<Rightarrow> None)"

definition daemonOwnedSlugOfBranch :: "string \<Rightarrow> string option" where
  "daemonOwnedSlugOfBranch branch =
     (let name = (if starts_with branch LOCAL_REF_PREFIX then drop (length LOCAL_REF_PREFIX) branch else branch)
      in daemonOwnedSlugOfRef (LOCAL_REF_PREFIX @ name))"

definition isChildRefOf :: "string \<Rightarrow> string \<Rightarrow> bool" where
  "isChildRefOf ref slug = (case parseFeatureRef ref of ChildBranch s _ \<Rightarrow> s = slug | _ \<Rightarrow> False)"

section \<open>Names and features\<close>

lemma starts_with_append [simp]: "starts_with (p @ s) p"
  by (simp add: starts_with_def)

lemma starts_with_cases: "starts_with s p \<Longrightarrow> \<exists>t. s = p @ t"
  by (metis append_take_drop_id starts_with_def)

lemma child_id_text: "parseChildId (RawInt c) = Some i \<longleftrightarrow> i = c \<and> c \<in> {1..9}"
  by (auto simp: parseChildId_def MAX_CHILD_ID_def Let_def)

lemma small_int_str: "c \<in> {1..9} \<Longrightarrow> int_str c = [char_of (48 + nat c)]"
  by (subst int_str_def, subst nat_str.simps) (auto simp: nat_less_iff)

lemma small_digit: "c \<in> {1..9} \<Longrightarrow> is_digit (char_of (48 + nat c)) \<and> digits_value [char_of (48 + nat c)] = c"
proof -
  assume c: "c \<in> {1..9}"
  then have "(48 + nat c) mod 256 = 48 + nat c" by auto
  then have "(of_char (char_of (48 + nat c) :: char) :: int) = int (48 + nat c)"
    by (subst of_nat_of_char [symmetric]) simp
  with c show ?thesis by (auto simp: is_digit_def digits_value_def)
qed

lemma childBranchFor_Inr:
  "childBranchFor slug c = Inr b \<longleftrightarrow> c \<in> {1..9} \<and> slug \<noteq> [] \<and> CHR ''/'' \<notin> set slug \<and> b = ''feat/c'' @ int_str c @ ''/'' @ slug"
  by (auto simp: childBranchFor_def child_id_text split: option.splits)
     (auto simp: parseChildId_def MAX_CHILD_ID_def Let_def)

lemma child_name_prefixes:
  assumes "childBranchFor slug c = Inr b"
  shows "\<not> starts_with b LEAF_PREFIX" "starts_with b CHILD_BRANCH_PREFIX"
    "CHILD_BRANCH_REST (drop (length CHILD_BRANCH_PREFIX) b) =
       (if list_ex ends_line slug then None else Some (int_str c, Some slug))"
    "parseChildId (RawStr (int_str c)) = Some c"
proof -
  let ?d = "char_of (48 + nat c) :: char"
  have c: "c \<in> {1..9}" and b: "b = ''feat/c'' @ ?d # ''/'' @ slug"
    using assms by (auto simp: childBranchFor_Inr small_int_str)
  have d: "is_digit ?d" "digits_value [?d] = c" using small_digit [OF c] by auto
  show "\<not> starts_with b LEAF_PREFIX" "starts_with b CHILD_BRANCH_PREFIX"
    by (simp_all add: b starts_with_def LEAF_PREFIX_def CHILD_BRANCH_PREFIX_def)
  have "\<not> is_digit (CHR ''/'')" by (simp add: is_digit_def)
  then show "CHILD_BRANCH_REST (drop (length CHILD_BRANCH_PREFIX) b) =
       (if list_ex ends_line slug then None else Some (int_str c, Some slug))"
    using d c by (simp add: b CHILD_BRANCH_PREFIX_def CHILD_BRANCH_REST_def Let_def small_int_str)
  show "parseChildId (RawStr (int_str c)) = Some c"
    using d c by (simp add: parseChildId_def Let_def small_int_str MAX_CHILD_ID_def)
qed

lemma parse_child_iff:
  "parseFeatureBranch raw = ChildBranch slug c \<longleftrightarrow> childBranchFor slug c = Inr raw \<and> \<not> list_ex ends_line slug"
proof
  assume l: "parseFeatureBranch raw = ChildBranch slug c"
  have n: "named_branch raw p f = ChildBranch slug c \<Longrightarrow> \<exists>s. f s = ChildBranch slug c" for p f
    by (auto simp: named_branch_def Let_def split: if_splits)
  from l have r: "parse_child_rest raw = ChildBranch slug c"
    by (auto simp: parseFeatureBranch_def split: if_splits dest!: n)
  then have b: "childBranchFor slug c = Inr raw"
    by (auto simp: parse_child_rest_def split: option.splits if_splits)
  with r child_name_prefixes(3) [OF b] show "childBranchFor slug c = Inr raw \<and> \<not> list_ex ends_line slug"
    by (auto simp: parse_child_rest_def split: if_splits)
next
  assume r: "childBranchFor slug c = Inr raw \<and> \<not> list_ex ends_line slug"
  then have b: "childBranchFor slug c = Inr raw" by simp
  with r child_name_prefixes [OF b] show "parseFeatureBranch raw = ChildBranch slug c"
    by (auto simp: parseFeatureBranch_def parse_child_rest_def childBranchFor_Inr)
qed

lemma parse_leaf_iff: "parseFeatureBranch raw = LeafBranch slug \<longleftrightarrow> slug \<noteq> [] \<and> raw = leafBranchFor slug"
  by (auto simp: parseFeatureBranch_def named_branch_def parse_child_rest_def leafBranchFor_def Let_def
    split: option.splits if_splits dest: starts_with_cases)

text \<open>
  The references that name a branch: local, of a remote in full or abbreviated, and the bare name in one of the
  three namespaces of the engine.
\<close>

definition ref_names :: "string \<Rightarrow> string \<Rightarrow> bool" where
  "ref_names name ref \<longleftrightarrow>
     ref = ''refs/heads/'' @ name \<or>
     (\<exists>remote. CHR ''/'' \<notin> set remote \<and>
        (ref = ''refs/remotes/'' @ remote @ ''/'' @ name \<or>
         (remote \<notin> {''refs'', ''feat'', ''spec'', ''feature''} \<and> ref = remote @ ''/'' @ name))) \<or>
     (ref = name \<and> takeWhile (\<lambda>c. c \<noteq> CHR ''/'') name \<in> {''feat'', ''spec'', ''feature''})"

lemma first_segment: "CHR ''/'' \<notin> set seg \<Longrightarrow> takeWhile (\<lambda>c. c \<noteq> CHR ''/'') (seg @ CHR ''/'' # rest) = seg"
  by (induction seg) auto

lemma past_segment: "CHR ''/'' \<notin> set seg \<Longrightarrow> past_slash (seg @ CHR ''/'' # rest) = rest"
proof -
  assume "CHR ''/'' \<notin> set seg"
  then have "dropWhile (\<lambda>c. c \<noteq> CHR ''/'') (seg @ CHR ''/'' # rest) = CHR ''/'' # rest" by (induction seg) auto
  then show ?thesis by (simp add: past_slash_def)
qed

lemma segment_start:
  "starts_with ref (seg @ CHR ''/'' # rest) \<Longrightarrow> CHR ''/'' \<notin> set seg \<Longrightarrow> takeWhile (\<lambda>c. c \<noteq> CHR ''/'') ref = seg"
  using first_segment [of seg] by (auto dest!: starts_with_cases)

lemma ref_first:
  assumes "starts_with ref LOCAL_REF_PREFIX \<or> starts_with ref REMOTE_REF_PREFIX"
  shows "takeWhile (\<lambda>c. c \<noteq> CHR ''/'') ref = ''refs''"
  using assms segment_start [of ref "''refs''" "''heads/''"] segment_start [of ref "''refs''" "''remotes/''"]
  by (auto simp: LOCAL_REF_PREFIX_def REMOTE_REF_PREFIX_def)

lemma recognized_first:
  assumes "\<not> unrecognized (parseFeatureBranch name)"
  shows "takeWhile (\<lambda>c. c \<noteq> CHR ''/'') name \<in> {''feat'', ''spec'', ''feature''}"
proof -
  from assms have "starts_with name LEAF_PREFIX \<or> starts_with name CHILD_BRANCH_PREFIX \<or> starts_with name SPEC_PREFIX \<or>
      starts_with name INTERACTIVE_PREFIX"
    by (auto simp: parseFeatureBranch_def unrecognized_def split: if_splits)
  then show ?thesis
    using segment_start [of name "''feat''" "''daemon-''"] segment_start [of name "''feat''" "''c''"]
      segment_start [of name "''spec''" "[]"] segment_start [of name "''feature''" "[]"]
    by (auto simp: LEAF_PREFIX_def CHILD_BRANCH_PREFIX_def SPEC_PREFIX_def INTERACTIVE_PREFIX_def)
qed

lemma ref_names_parsed:
  assumes "ref_names name ref"
  shows "parseFeatureRef ref = parseFeatureBranch name"
proof -
  consider (here) "ref = LOCAL_REF_PREFIX @ name"
    | (remote) r where "CHR ''/'' \<notin> set r" "ref = REMOTE_REF_PREFIX @ r @ CHR ''/'' # name"
    | (short) r where "CHR ''/'' \<notin> set r" "r \<notin> {''refs'', ''feat'', ''spec'', ''feature''}" "ref = r @ CHR ''/'' # name"
    | (bare) "ref = name" "takeWhile (\<lambda>c. c \<noteq> CHR ''/'') name \<in> {''feat'', ''spec'', ''feature''}"
    using assms by (auto simp: ref_names_def LOCAL_REF_PREFIX_def REMOTE_REF_PREFIX_def)
  then show ?thesis
  proof cases
    case here
    then show ?thesis by (simp add: parseFeatureRef_def)
  next
    case remote
    moreover have "\<not> starts_with (REMOTE_REF_PREFIX @ t) LOCAL_REF_PREFIX" for t
      by (simp add: starts_with_def REMOTE_REF_PREFIX_def LOCAL_REF_PREFIX_def)
    ultimately show ?thesis by (simp add: parseFeatureRef_def past_segment)
  next
    case short
    then have seg: "takeWhile (\<lambda>c. c \<noteq> CHR ''/'') ref = r" by (simp add: first_segment)
    with short(2) ref_first [of ref] recognized_first [of ref] short(1,3) show ?thesis
      by (auto simp: parseFeatureRef_def past_segment OWNED_NON_PREFIX_SEGMENTS_def)
  next
    case bare
    with ref_first [of ref] show ?thesis by (auto simp: parseFeatureRef_def OWNED_NON_PREFIX_SEGMENTS_def)
  qed
qed

lemma branch_names: "ref_names name (LOCAL_REF_PREFIX @ name)"
  by (simp add: ref_names_def LOCAL_REF_PREFIX_def)

text \<open>C24: a daemon-owned branch has one owner, whatever reference names it:
  the local one, a remote's in full or abbreviated (of a remote without a slash whose name is not one of the
  namespaces), or the bare name. Read through each, a branch is a leaf exactly when it is the leaf branch of that
  feature, and a child exactly when it is the branch built for that child, \<^verbatim>\<open>1\<close> to \<^verbatim>\<open>9\<close>, of a slug without
  a line break; and the feature it is attributed to is exactly the one it was written for.\<close>

theorem owned_branch_names:
  assumes "ref_names name ref"
  shows "(parseFeatureRef ref = LeafBranch slug \<longleftrightarrow> slug \<noteq> [] \<and> name = ''feat/daemon-'' @ slug) \<and>
   (parseFeatureRef ref = ChildBranch slug c \<longleftrightarrow> childBranchFor slug c = Inr name \<and> \<not> list_ex ends_line slug) \<and>
   (daemonOwnedSlugOfRef ref = Some slug \<longleftrightarrow>
      (slug \<noteq> [] \<and> name = leafBranchFor slug) \<or> (\<exists>c. childBranchFor slug c = Inr name \<and> \<not> list_ex ends_line slug)) \<and>
   (daemonOwnedSlugOfBranch (''refs/heads/'' @ name) = daemonOwnedSlugOfRef ref) \<and>
   (isChildRefOf ref slug \<longleftrightarrow> (\<exists>c. childBranchFor slug c = Inr name \<and> \<not> list_ex ends_line slug)) \<and>
   (childBranchFor slug c = Inr name \<longleftrightarrow>
      c \<in> {1..9} \<and> slug \<noteq> [] \<and> CHR ''/'' \<notin> set slug \<and> name = ''feat/c'' @ int_str c @ ''/'' @ slug)"
proof -
  note parsed = ref_names_parsed [OF assms] ref_names_parsed [OF branch_names, of name]
  have leaf: "leafBranchFor slug = ''feat/daemon-'' @ slug" by (simp add: leafBranchFor_def LEAF_PREFIX_def)
  have owned: "daemonOwnedSlugOfRef r = Some slug \<longleftrightarrow>
      parseFeatureRef r = LeafBranch slug \<or> (\<exists>c. parseFeatureRef r = ChildBranch slug c)" for r
    by (auto simp: daemonOwnedSlugOfRef_def split: feature_branch.splits)
  have child: "isChildRefOf ref slug \<longleftrightarrow> (\<exists>c. parseFeatureRef ref = ChildBranch slug c)"
    by (auto simp: isChildRefOf_def split: feature_branch.splits)
  have local: "daemonOwnedSlugOfBranch (''refs/heads/'' @ name) = daemonOwnedSlugOfRef ref"
    unfolding LOCAL_REF_PREFIX_def [symmetric] using parsed by (simp add: daemonOwnedSlugOfBranch_def daemonOwnedSlugOfRef_def)
  show ?thesis
    unfolding local child owned parsed(1) parse_leaf_iff parse_child_iff leaf by (auto simp: childBranchFor_Inr)
qed

theorem owned_branch_names_witness:
  "parseFeatureRef ''refs/remotes/origin/feat/c2/demo'' = ChildBranch ''demo'' 2 \<and>
   daemonOwnedSlugOfRef ''origin/feat/daemon-demo'' = Some ''demo''"
proof -
  have "\<exists>remote. CHR ''/'' \<notin> set remote \<and> (''refs/remotes/origin/feat/c2/demo'' = ''refs/remotes/'' @ remote @ ''/'' @ ''feat/c2/demo'')"
    by (intro exI [of _ "''origin''"]) simp
  then have "ref_names ''feat/c2/demo'' ''refs/remotes/origin/feat/c2/demo''" unfolding ref_names_def by blast
  moreover have "childBranchFor ''demo'' 2 = Inr ''feat/c2/demo''" "\<not> list_ex ends_line ''demo''" by code_simp+
  ultimately have "parseFeatureRef ''refs/remotes/origin/feat/c2/demo'' = ChildBranch ''demo'' 2"
    using owned_branch_names [of "''feat/c2/demo''" _ "''demo''" 2] by blast
  moreover have "\<exists>remote. CHR ''/'' \<notin> set remote \<and> remote \<notin> {''refs'', ''feat'', ''spec'', ''feature''} \<and>
      ''origin/feat/daemon-demo'' = remote @ ''/'' @ ''feat/daemon-demo''"
    by (intro exI [of _ "''origin''"]) simp
  then have "ref_names ''feat/daemon-demo'' ''origin/feat/daemon-demo''" unfolding ref_names_def by blast
  then have "daemonOwnedSlugOfRef ''origin/feat/daemon-demo'' = Some ''demo''"
    using owned_branch_names [of "''feat/daemon-demo''" _ "''demo''"] by (simp add: leafBranchFor_def LEAF_PREFIX_def)
  ultimately show ?thesis ..
qed

end
