(* ===== verification/PlanParse.thy ===== *)
theory PlanParse
  imports WhenExpr "HOL-Library.AList"
begin

text \<open>
  The structure of an implementation plan: its task headings, their bodies and their
  dependencies (\<^verbatim>\<open>engine/plan-task-parse.ts\<close>, \<^verbatim>\<open>engine/plan-dependencies.ts\<close>). The
  regular expressions are matchers of their own; texts hold characters below U+0100, so the two dashes
  that may end a heading instead of a colon do not occur.
\<close>

section \<open>Lines and fences\<close>

definition text_lines :: "string \<Rightarrow> string list" where
  "text_lines text = split_on (CHR 0x0A) text"

text \<open>\<^verbatim>\<open>/^\s*(`{3,}|~{3,})(.*)$/\<close>: the run of fence characters and what follows it.\<close>

definition FENCE_LINE :: "string \<Rightarrow> (string \<times> string) option" where
  "FENCE_LINE line =
     (let s = skip_space line in
      case s of
        [] \<Rightarrow> None
      | c # _ \<Rightarrow>
          let marker = takeWhile (\<lambda>d. d = c) s; info = drop (length marker) s in
          if (c = CHR 0x60 \<or> c = CHR ''~'') \<and> 3 \<le> length marker \<and> \<not> list_ex line_terminator info then Some (marker, info) else None)"

text \<open>One step of the fence state: the open marker after a line, and whether the line counts as fenced.\<close>

definition fence_step :: "string option \<Rightarrow> string \<Rightarrow> string option \<times> bool" where
  "fence_step openMarker line =
     (case FENCE_LINE line of
        None \<Rightarrow> (openMarker, openMarker \<noteq> None)
      | Some (marker, info) \<Rightarrow>
          (case openMarker of
             None \<Rightarrow> (Some marker, True)
           | Some m \<Rightarrow>
               (if hd marker = hd m \<and> length m \<le> length marker \<and> js_trim info = [] then None else Some m, True)))"

fun fenced_from :: "string option \<Rightarrow> string list \<Rightarrow> bool list" where
  "fenced_from m [] = []"
| "fenced_from m (line # rest) = (case fence_step m line of (m', fenced) \<Rightarrow> fenced # fenced_from m' rest)"

definition fencedLineStates :: "string list \<Rightarrow> bool list" where
  "fencedLineStates lines = fenced_from None lines"

definition linesWithFenceState :: "string \<Rightarrow> (string \<times> bool) list" where
  "linesWithFenceState text = (let ls = text_lines text in zip ls (fencedLineStates ls))"

section \<open>Task ids\<close>

definition alpha :: "char \<Rightarrow> bool" where
  "alpha c = ((65 \<le> (of_char c :: nat) \<and> (of_char c :: nat) \<le> 90) \<or> (97 \<le> (of_char c :: nat) \<and> (of_char c :: nat) \<le> 122))"

definition id_char :: "char \<Rightarrow> bool" where
  "id_char c = (alpha c \<or> is_digit c \<or> c \<in> {CHR ''.'', CHR ''_'', CHR ''-''})"

definition TASK_ID_PATTERN :: "string \<Rightarrow> bool" where
  "TASK_ID_PATTERN s = (s \<noteq> [] \<and> list_all id_char s)"

definition isEngineAppendedRemediationTaskId :: "string \<Rightarrow> bool" where
  "isEngineAppendedRemediationTaskId i = (starts_with i ''rem-'' \<and> TASK_ID_PATTERN i)"

text \<open>Trailing blanks removed, as the right half of \<^verbatim>\<open>trim\<close>.\<close>

definition trim_end :: "string \<Rightarrow> string" where
  "trim_end s = rev (dropWhile js_space (rev s))"

text \<open>\<^verbatim>\<open>raw.trim().replace(/\s*\([^()]*\)$/, '')\<close>.\<close>

definition normalizePlanTaskId :: "string \<Rightarrow> string" where
  "normalizePlanTaskId raw =
     (let s = js_trim raw in
      case rev s of
        [] \<Rightarrow> s
      | c # r \<Rightarrow>
          if c \<noteq> CHR '')'' then s
          else (case dropWhile (\<lambda>d. d \<noteq> CHR ''('' \<and> d \<noteq> CHR '')'') r of
              d # before \<Rightarrow> if d = CHR ''('' then trim_end (rev before) else s
            | [] \<Rightarrow> s))"

datatype task_reference =
    TasksResolved "string list"
  | TasksUnresolvable "string list"
  | TasksMalformed string

definition resolvePlanTaskReference :: "string \<Rightarrow> string list \<Rightarrow> task_reference" where
  "resolvePlanTaskReference raw planTaskIds =
     (let ids = map normalizePlanTaskId (split_on (CHR '','') raw) in
      if \<not> list_all TASK_ID_PATTERN ids then TasksMalformed raw
      else let absent = filter (\<lambda>i. i \<notin> set planTaskIds) (stable_unique ids) in
        if absent = [] then TasksResolved (stable_unique ids) else TasksUnresolvable absent)"

text \<open>\<^verbatim>\<open>/^(\d+)\s*-\s*(\d+)$/\<close>.\<close>

definition numeric_range :: "string \<Rightarrow> (int \<times> int) option" where
  "numeric_range piece =
     (let start = takeWhile is_digit piece in
      case skip_space (drop (length start) piece) of
        [] \<Rightarrow> None
      | c # rest \<Rightarrow>
          let end_digits = skip_space rest in
          if start \<noteq> [] \<and> c = CHR ''-'' \<and> end_digits \<noteq> [] \<and> list_all is_digit end_digits
          then Some (digits_value start, digits_value end_digits) else None)"

definition expand_piece :: "string \<Rightarrow> string list" where
  "expand_piece raw =
     (let piece = js_trim raw in
      if piece = [] then []
      else case numeric_range piece of
        Some (first, last_one) \<Rightarrow> map int_str [first..last_one]
      | None \<Rightarrow> if TASK_ID_PATTERN piece then [piece] else [])"

definition expandTaskIds :: "string \<Rightarrow> string list" where
  "expandTaskIds raw = concat (map expand_piece (split_on (CHR '','') raw))"

section \<open>Headings\<close>

text \<open>The level of a Markdown heading, \<^verbatim>\<open>/^(#{1,6})(?:\s|$)/\<close>.\<close>

definition MARKDOWN_HEADING :: "string \<Rightarrow> nat option" where
  "MARKDOWN_HEADING line =
     (let hashes = takeWhile (\<lambda>c. c = CHR ''#'') line; rest = drop (length hashes) line in
      if 1 \<le> length hashes \<and> length hashes \<le> 6 \<and> (rest = [] \<or> js_space (hd rest)) then Some (length hashes) else None)"

text \<open>
  The four alternatives of \<^verbatim>\<open>TASK_HEADER_PATTERN\<close>, after its hashes and blanks. The character class of
  the first and third holds blanks but no colon, so the lazy group ends before the first colon; when
  nothing else is left for it, the first one takes a blank back from \<^verbatim>\<open>\s+\<close>.
\<close>

definition task_words :: "string \<Rightarrow> (string \<times> string) option" where
  "task_words body =
     (case after_prefix ''Task'' body of
        None \<Rightarrow> None
      | Some s \<Rightarrow> (let blanks = takeWhile js_space s in if blanks = [] then None else Some (blanks, drop (length blanks) s)))"

definition list_char :: "char \<Rightarrow> bool" where
  "list_char c = (id_char c \<or> c = CHR '','')"

definition before_colon :: "string \<Rightarrow> string option" where
  "before_colon s =
     (let w = takeWhile (\<lambda>c. list_char c \<or> js_space c) s in
      case drop (length w) s of c # _ \<Rightarrow> if c = CHR '':'' then Some w else None | [] \<Rightarrow> None)"

definition bare_list :: "string \<Rightarrow> string option" where
  "bare_list s =
     (let tok = takeWhile list_char s in
      if list_ex is_digit tok \<and> list_all js_space (drop (length tok) s) then Some tok else None)"

definition task_colon :: "string \<Rightarrow> string option" where
  "task_colon body =
     (case task_words body of
        None \<Rightarrow> None
      | Some (blanks, s) \<Rightarrow>
          (case before_colon s of
             None \<Rightarrow> None
           | Some w \<Rightarrow> if w \<noteq> [] then Some w else if 2 \<le> length blanks then Some [last blanks] else None))"

definition task_bare :: "string \<Rightarrow> string option" where
  "task_bare body = (case task_words body of None \<Rightarrow> None | Some (_, s) \<Rightarrow> bare_list s)"

definition t_number :: "string \<Rightarrow> bool" where
  "t_number body = (case body of c # d # _ \<Rightarrow> c = CHR ''T'' \<and> is_digit d | _ \<Rightarrow> False)"

definition TASK_HEADER_PATTERN :: "string \<Rightarrow> string option" where
  "TASK_HEADER_PATTERN line =
     (let hashes = takeWhile (\<lambda>c. c = CHR ''#'') line; rest = drop (length hashes) line in
      if length hashes < 1 \<or> 6 < length hashes then None
      else case skip_space1 rest of
        None \<Rightarrow> None
      | Some body \<Rightarrow>
          (case task_colon body of
             Some ids \<Rightarrow> Some ids
           | None \<Rightarrow>
               (case task_bare body of
                  Some ids \<Rightarrow> Some ids
                | None \<Rightarrow>
                    if \<not> t_number body then None
                    else case before_colon body of Some ids \<Rightarrow> Some ids | None \<Rightarrow> bare_list body)))"

section \<open>Task bodies\<close>

record task_block =
  tb_heading :: string
  tb_body :: string

record block_scan =
  bs_result :: "(string \<times> task_block) list"
  bs_ids :: "string list"
  bs_level :: nat
  bs_heading :: string
  bs_lines :: "string list"

definition save_block :: "block_scan \<Rightarrow> block_scan" where
  "save_block s =
     (let block = \<lparr>tb_heading = bs_heading s, tb_body = join [CHR 0x0A] (bs_lines s)\<rparr> in
      s\<lparr>bs_result := foldl (\<lambda>r i. AList.update i block r) (bs_result s) (bs_ids s), bs_ids := []\<rparr>)"

definition block_step :: "block_scan \<Rightarrow> string \<times> bool \<Rightarrow> block_scan" where
  "block_step s lf =
     (case lf of (line, fenced) \<Rightarrow>
        let heading = (if fenced then None else MARKDOWN_HEADING line);
            s1 = (case heading of Some level \<Rightarrow> if bs_ids s \<noteq> [] \<and> level \<le> bs_level s then save_block s else s | None \<Rightarrow> s)
        in case (if fenced then None else TASK_HEADER_PATTERN line) of
             Some raw \<Rightarrow>
               (save_block s1)\<lparr>bs_ids := expandTaskIds raw, bs_level := the (MARKDOWN_HEADING line), bs_heading := line, bs_lines := []\<rparr>
           | None \<Rightarrow> if bs_ids s1 \<noteq> [] then s1\<lparr>bs_lines := bs_lines s1 @ [line]\<rparr> else s1)"

definition parsePlanTaskBlocks :: "string \<Rightarrow> (string \<times> task_block) list" where
  "parsePlanTaskBlocks text =
     bs_result (save_block (foldl block_step
       \<lparr>bs_result = [], bs_ids = [], bs_level = 0, bs_heading = [], bs_lines = []\<rparr> (linesWithFenceState text)))"

definition parsePlanTaskBodies :: "string \<Rightarrow> (string \<times> string) list" where
  "parsePlanTaskBodies text = map (\<lambda>(i, b). (i, tb_body b)) (parsePlanTaskBlocks text)"

section \<open>Dependencies\<close>

text \<open>\<^verbatim>\<open>/^\s*\*\*Dependencies:\*\*\s*(.*?)\s*$/\<close>, with the group trimmed.\<close>

definition labelled_value :: "string \<Rightarrow> string \<Rightarrow> string option" where
  "labelled_value label line =
     (case after_prefix label (skip_space line) of
        None \<Rightarrow> None
      | Some rest \<Rightarrow> (let v = js_trim rest in if list_ex line_terminator v then None else Some v))"

definition DEPENDENCIES_LINE :: "string \<Rightarrow> string option" where
  "DEPENDENCIES_LINE line = labelled_value ''**Dependencies:**'' line"

text \<open>\<^verbatim>\<open>segment.trim().replace(/^Tasks?\s+/i, '')\<close>.\<close>

definition without_task_word :: "string \<Rightarrow> string" where
  "without_task_word segment =
     (let s = js_trim segment;
          rest = (if starts_with (lower s) ''tasks'' then drop 5 s else if starts_with (lower s) ''task'' then drop 4 s else [])
      in case skip_space1 rest of Some r \<Rightarrow> r | None \<Rightarrow> s)"

record plan_violation =
  pv_code :: string
  pv_position :: "int option"
  pv_taskId :: "string option"
  pv_message :: string

definition violation :: "string \<Rightarrow> int option \<Rightarrow> string option \<Rightarrow> string \<Rightarrow> plan_violation" where
  "violation code position task message =
     \<lparr>pv_code = code, pv_position = position, pv_taskId = task, pv_message = message\<rparr>"

type_synonym dependency_map = "(string \<times> string list) list"

definition task_dependencies :: "string list \<Rightarrow> string \<Rightarrow> string \<Rightarrow> plan_violation list + string list" where
  "task_dependencies taskIds taskId body =
     (let bodyLines = text_lines body;
          found = List.map_filter (\<lambda>(line, fenced). if fenced then None else DEPENDENCIES_LINE line)
                    (zip bodyLines (fencedLineStates bodyLines))
      in case found of
        [raw] \<Rightarrow>
          if lower raw = ''none'' then Inr []
          else (case resolvePlanTaskReference (join '','' (map without_task_word (split_on (CHR '','') raw))) taskIds of
              TasksMalformed _ \<Rightarrow> Inl [violation ''malformed-dependencies'' None (Some taskId)
                (''Task '' @ taskId @ '' has malformed Dependencies '' @ CHR 0x22 # raw @ CHR 0x22 #
                 ''; expected '' @ CHR 0x22 # ''none'' @ CHR 0x22 # '' or comma-separated task references (for example '' @
                 CHR 0x22 # ''Task 1, Tasks 2'' @ CHR 0x22 # '')'')]
            | TasksUnresolvable ids \<Rightarrow> Inl (map (\<lambda>d. violation ''unknown-dependency'' None (Some taskId)
                (''Task '' @ d @ '' cited by Task '' @ taskId @ CHR 0x27 # ''s Dependencies is an unknown task id'')) ids)
            | TasksResolved ids \<Rightarrow> Inr ids)
      | _ \<Rightarrow> Inl [violation ''dependencies-line'' None (Some taskId)
          (''Task '' @ taskId @ '' must declare exactly one Dependencies line'')])"

fun dependency_graph :: "string list \<Rightarrow> (string \<times> string) list \<Rightarrow> dependency_map \<times> plan_violation list" where
  "dependency_graph taskIds [] = ([], [])"
| "dependency_graph taskIds ((taskId, body) # rest) =
     (case dependency_graph taskIds rest of (deps, vs) \<Rightarrow>
        (case task_dependencies taskIds taskId body of
           Inl more_vs \<Rightarrow> (deps, more_vs @ vs)
         | Inr ids \<Rightarrow> ((taskId, ids) # deps, vs)))"

definition parsePlanDependencyGraph :: "string \<Rightarrow> dependency_map \<times> plan_violation list" where
  "parsePlanDependencyGraph planText =
     (let bodies = parsePlanTaskBodies planText in dependency_graph (map fst bodies) bodies)"

text \<open>The stack of pending ids, its top last, and the ids found so far.\<close>

definition direct :: "dependency_map \<Rightarrow> string \<Rightarrow> string list" where
  "direct deps t = (case map_of deps t of Some ds \<Rightarrow> ds | None \<Rightarrow> [])"

text \<open>Each round of the walk below drops a pending id or visits one of the finitely many ids for the first time.\<close>

definition dependency_ids :: "dependency_map \<Rightarrow> string set" where
  "dependency_ids deps = (\<Union>p\<in>set deps. set (snd p))"

lemma direct_ids: "set (direct deps t) \<subseteq> dependency_ids deps"
proof (cases "map_of deps t")
  case None
  then show ?thesis by (simp add: direct_def)
next
  case (Some ds)
  then have "(t, ds) \<in> set deps" by (rule map_of_SomeD)
  with Some show ?thesis by (force simp: direct_def dependency_ids_def)
qed

lemma finite_dependency_ids [simp]: "finite (dependency_ids deps)"
  by (simp add: dependency_ids_def)

function walk_dependencies :: "dependency_map \<Rightarrow> string list \<Rightarrow> string list \<Rightarrow> string list" where
  "walk_dependencies deps found pending =
     (if pending = [] then found
      else let d = last pending; rest = butlast pending in
        if d \<in> set found then walk_dependencies deps found rest
        else walk_dependencies deps (found @ [d]) (rest @ direct deps d))"
  by pat_completeness auto
termination
proof (relation "measures [\<lambda>(deps, found, pending). card ((set pending \<union> dependency_ids deps) - set found),
    \<lambda>(deps, found, pending). length pending]", simp, goal_cases)
  case (1 deps found pending d rest)
  have "(set (butlast pending) \<union> dependency_ids deps) - set found \<subseteq> (set pending \<union> dependency_ids deps) - set found"
    using in_set_butlastD by fastforce
  then have "card ((set (butlast pending) \<union> dependency_ids deps) - set found) \<le> card ((set pending \<union> dependency_ids deps) - set found)"
    by (intro card_mono) auto
  with 1 show ?case by auto
next
  case (2 deps found pending d rest)
  have d: "d \<in> set pending" "d \<notin> set found" using 2 by auto
  have "(set (rest @ direct deps d) \<union> dependency_ids deps) - set (found @ [d]) \<subset> (set pending \<union> dependency_ids deps) - set found"
    using d 2 direct_ids [of deps d] in_set_butlastD [of _ pending] by (auto simp: subset_eq)
  then have "card ((set (rest @ direct deps d) \<union> dependency_ids deps) - set (found @ [d])) < card ((set pending \<union> dependency_ids deps) - set found)"
    by (intro psubset_card_mono) auto
  then show ?case by simp
qed

declare walk_dependencies.simps [simp del]

definition transitiveDependencies :: "dependency_map \<Rightarrow> string \<Rightarrow> string list" where
  "transitiveDependencies deps t = walk_dependencies deps [] (direct deps t)"

section \<open>The prerequisites of a task\<close>

definition depends :: "dependency_map \<Rightarrow> (string \<times> string) set" where
  "depends deps = {(t, d). d \<in> set (direct deps t)}"

lemma walk_sound:
  "set (walk_dependencies deps found pending) \<subseteq> set found \<union> (depends deps)\<^sup>* `` set pending"
proof (induction deps found pending rule: walk_dependencies.induct)
  case (1 deps found pending)
  show ?case
  proof (cases "pending = []")
    case True
    then show ?thesis by (simp add: walk_dependencies.simps)
  next
    case False
    let ?d = "last pending" and ?rest = "butlast pending"
    have rest: "set ?rest \<subseteq> set pending" "?d \<in> set pending" using False in_set_butlastD by fastforce+
    show ?thesis
    proof (cases "?d \<in> set found")
      case True
      with 1(1) [OF False refl refl] False rest show ?thesis by (subst walk_dependencies.simps) auto
    next
      case visit: False
      have deep: "(depends deps)\<^sup>* `` set (direct deps ?d) \<subseteq> (depends deps)\<^sup>* `` {?d}"
        by (auto simp: depends_def intro: converse_rtrancl_into_rtrancl)
      define I where "I = (depends deps)\<^sup>* `` (set ?rest \<union> set (direct deps ?d))"
      define J where "J = (depends deps)\<^sup>* `` set pending"
      have IJ: "I \<subseteq> J" "?d \<in> J" unfolding I_def J_def using deep rest by blast+
      have "set (walk_dependencies deps (found @ [?d]) (?rest @ direct deps ?d)) \<subseteq> insert ?d (set found) \<union> I"
        using 1(2) [OF False refl refl visit] by (simp add: I_def)
      with IJ have "set (walk_dependencies deps (found @ [?d]) (?rest @ direct deps ?d)) \<subseteq> set found \<union> J" by auto
      then have "set (walk_dependencies deps (found @ [?d]) (?rest @ direct deps ?d)) \<subseteq> set found \<union> (depends deps)\<^sup>* `` set pending"
        by (simp add: J_def)
      with False visit show ?thesis by (subst walk_dependencies.simps) (simp add: Let_def)
    qed
  qed
qed

lemma walk_closed:
  "(\<And>f. f \<in> set found \<Longrightarrow> set (direct deps f) \<subseteq> set found \<union> set pending) \<Longrightarrow> distinct found \<Longrightarrow>
   distinct (walk_dependencies deps found pending) \<and> set found \<union> set pending \<subseteq> set (walk_dependencies deps found pending) \<and>
   (\<forall>f\<in>set (walk_dependencies deps found pending). set (direct deps f) \<subseteq> set (walk_dependencies deps found pending))"
proof (induction deps found pending rule: walk_dependencies.induct)
  case (1 deps found pending)
  show ?case
  proof (cases "pending = []")
    case True
    with 1(3,4) show ?thesis by (simp add: walk_dependencies.simps)
  next
    case False
    have split: "set pending = insert (last pending) (set (butlast pending))"
      using False by (metis append_butlast_last_id insert_is_Un list.simps(15) list.set(1) set_append sup_commute)
    show ?thesis
    proof (cases "last pending \<in> set found")
      case True
      have "\<And>f. f \<in> set found \<Longrightarrow> set (direct deps f) \<subseteq> set found \<union> set (butlast pending)" using 1(3) split True by auto
      with 1(1) [OF False refl refl True] 1(4) False True show ?thesis by (subst (1 2 3 4) walk_dependencies.simps) (auto simp: split)
    next
      case visit: False
      have "\<And>f. f \<in> set (found @ [last pending]) \<Longrightarrow>
          set (direct deps f) \<subseteq> set (found @ [last pending]) \<union> set (butlast pending @ direct deps (last pending))"
        using 1(3) split by auto
      with 1(2) [OF False refl refl visit] 1(4) False visit show ?thesis
        by (subst (1 2 3 4) walk_dependencies.simps) (auto simp: split Let_def)
    qed
  qed
qed

text \<open>C26: the prerequisites the engine computes for a task, with its
  stack and its set of ids already found, are exactly the tasks reachable from it along one or more
  declared dependencies, each listed once, also when the declarations are cyclic.\<close>

theorem prerequisites_exact:
  "set (transitiveDependencies deps t) = {d. (t, d) \<in> (depends deps)\<^sup>+} \<and> distinct (transitiveDependencies deps t)"
proof -
  let ?r = "transitiveDependencies deps t"
  have c: "distinct ?r" "set (direct deps t) \<subseteq> set ?r" "\<And>f. f \<in> set ?r \<Longrightarrow> set (direct deps f) \<subseteq> set ?r"
    using walk_closed [of "[]" deps "direct deps t"] by (auto simp: transitiveDependencies_def)
  have "set ?r \<subseteq> {d. (t, d) \<in> (depends deps)\<^sup>+}"
    using walk_sound [of deps "[]" "direct deps t"]
    by (auto simp: transitiveDependencies_def depends_def intro: rtrancl_into_trancl2)
  moreover have "d \<in> set ?r" if "(t, d) \<in> (depends deps)\<^sup>+" for d
    using that by (induction rule: trancl_induct) (use c in \<open>auto simp: depends_def\<close>)
  ultimately show ?thesis using c(1) by auto
qed

end
