(* ===== verification/PlanSlices.thy ===== *)
theory PlanSlices
  imports PlanParse BranchName
begin

text \<open>
  The slices of a plan (\<^verbatim>\<open>engine/plan-slices.ts\<close>): the table that divides the tasks of a feature into
  children of a stack, its validation, the owner of every story, and when a sliced plan may be
  delivered as a stack.
\<close>

section \<open>The table\<close>

record plan_slice =
  ps_position :: int
  ps_title :: string
  ps_taskIds :: "string list"

datatype slices_validation =
    UnslicedPlan
  | SlicedPlan "plan_slice list"
  | InvalidSlices "plan_violation list"

definition SLICES_HEADING :: "string \<Rightarrow> bool" where
  "SLICES_HEADING line =
     (case after_prefix ''##'' line of
        None \<Rightarrow> False
      | Some s \<Rightarrow> (case skip_space1 s of None \<Rightarrow> False | Some r \<Rightarrow> lower (trim_end r) = ''slices''))"

definition REQUIRED_HEADER :: "string list" where
  "REQUIRED_HEADER = [''Slice'', ''Title'', ''Tasks'']"

text \<open>\<^verbatim>\<open>/^:?-{3,}:?$/\<close>.\<close>

definition TABLE_DELIMITER_CELL :: "string \<Rightarrow> bool" where
  "TABLE_DELIMITER_CELL s =
     (let a = (case s of c # r \<Rightarrow> if c = CHR '':'' then r else s | [] \<Rightarrow> s);
          dashes = takeWhile (\<lambda>c. c = CHR ''-'') a
      in 3 \<le> length dashes \<and> (drop (length dashes) a = [] \<or> drop (length dashes) a = '':''))"

definition planTaskIds :: "string list \<Rightarrow> bool list \<Rightarrow> string list" where
  "planTaskIds lines fenced =
     stable_unique (concat (map (\<lambda>(line, f).
       case (if f then None else TASK_HEADER_PATTERN line) of
         None \<Rightarrow> []
       | Some raw \<Rightarrow> filter (\<lambda>i. i \<noteq> []) (map js_trim (split_on (CHR '','') raw)))
       (zip lines fenced)))"

definition tableCells :: "string option \<Rightarrow> string list option" where
  "tableCells line =
     (case line of
        None \<Rightarrow> None
      | Some l \<Rightarrow>
          let s = js_trim l in
          if \<not> starts_with s ''|'' \<or> \<not> ends_with s ''|'' then None
          else Some (map js_trim (split_on (CHR ''|'') (butlast (tl s)))))"

definition line_at :: "string list \<Rightarrow> nat \<Rightarrow> string option" where
  "line_at ls i = (if i < length ls then Some (ls ! i) else None)"

definition slice_position_text :: "string \<Rightarrow> bool" where
  "slice_position_text s = (case s of [] \<Rightarrow> False | c # cs \<Rightarrow> is_digit c \<and> c \<noteq> CHR ''0'' \<and> list_all is_digit cs)"

text \<open>
  \<^verbatim>\<open>Number(cells[0])\<close>, for a cell of decimal digits with an optional sign and for the empty one.
  Every other cell counts as no number: those JavaScript reads as a fraction, an exponent or a
  hexadecimal are refused as positions anyway, and differ in what further violations name as the position or as a duplicate.
\<close>

definition cell_number :: "string \<Rightarrow> int option" where
  "cell_number s =
     (case s of
        [] \<Rightarrow> Some 0
      | c # cs \<Rightarrow>
          if list_all is_digit s then Some (digits_value s)
          else if cs \<noteq> [] \<and> list_all is_digit cs \<and> c = CHR ''-'' then Some (- digits_value cs)
          else if cs \<noteq> [] \<and> list_all is_digit cs \<and> c = CHR ''+'' then Some (digits_value cs)
          else None)"

definition number_text :: "int option \<Rightarrow> string" where
  "number_text n = (case n of Some i \<Rightarrow> int_str i | None \<Rightarrow> ''NaN'')"

record slice_row =
  sw_position :: "int option"
  sw_title :: string
  sw_taskIds :: "string list"
  sw_hasReferences :: bool

text \<open>The references of a row: those resolved, and a violation for each unknown task.\<close>

fun row_references :: "string \<Rightarrow> int option \<Rightarrow> string list \<Rightarrow> string list \<Rightarrow> string list \<times> plan_violation list" where
  "row_references cell position taskIds [] = ([], [])"
| "row_references cell position taskIds (reference # rest) =
     (case row_references cell position taskIds rest of (ids, vs) \<Rightarrow>
        (case resolvePlanTaskReference reference taskIds of
           TasksResolved found \<Rightarrow> (found @ ids, vs)
         | TasksUnresolvable absent \<Rightarrow>
             (ids, map (\<lambda>t. violation ''unknown-task'' position (Some t)
                (''Task '' @ t @ '' cited by slice '' @ cell @ '' is an unknown task id'')) absent @ vs)
         | TasksMalformed _ \<Rightarrow> (ids, vs)))"

definition row_checks :: "string \<Rightarrow> string \<Rightarrow> string \<Rightarrow> task_reference option \<Rightarrow> plan_violation list" where
  "row_checks c0 c1 c2 resolved =
     (let position = cell_number c0 in
      (if slice_position_text c0 then []
       else [violation ''invalid-position'' None None (''slice position '' @ dquoted c0 @ '' must be a positive integer'')])
      @ (if c1 \<noteq> [] then []
         else [violation ''empty-title'' position None (''slice '' @ c0 @ '' has an empty Title cell; titles must be non-empty'')])
      @ (case resolved of
           Some (TasksMalformed _) \<Rightarrow>
             [violation ''malformed-tasks'' position None (''slice '' @ c0 @ '' has a malformed Tasks cell '' @ dquoted c2)]
         | _ \<Rightarrow> []))"

fun parse_rows :: "string list \<Rightarrow> string list \<Rightarrow> slice_row list \<times> plan_violation list" where
  "parse_rows taskIds [] = ([], [])"
| "parse_rows taskIds (line # rest) =
     (if \<not> starts_with (js_trim line) ''|'' then ([], [])
      else case parse_rows taskIds rest of (rows, vs) \<Rightarrow>
        (case tableCells (Some line) of
           Some [c0, c1, c2] \<Rightarrow>
             let resolved = (if c2 = [] then None else Some (resolvePlanTaskReference c2 taskIds));
                 refs = (case resolved of
                           None \<Rightarrow> ([], [])
                         | Some (TasksMalformed _) \<Rightarrow> ([], [])
                         | Some _ \<Rightarrow> row_references c0 (cell_number c0) taskIds (split_on (CHR '','') c2))
             in (\<lparr>sw_position = cell_number c0, sw_title = c1, sw_taskIds = stable_unique (fst refs),
                  sw_hasReferences = (c2 \<noteq> [])\<rparr> # rows,
                 row_checks c0 c1 c2 resolved @ snd refs @ vs)
         | _ \<Rightarrow> (rows, violation ''malformed-row'' None None
             (''the Slices table row '' @ dquoted line @ '' must have exactly three cells'') # vs)))"

section \<open>Membership and order\<close>

fun slice_violations :: "int option list \<Rightarrow> slice_row list \<Rightarrow> plan_violation list" where
  "slice_violations seen [] = []"
| "slice_violations seen (r # rest) =
     (if sw_position r \<in> set seen
      then [violation ''duplicate-position'' (sw_position r) None (''duplicate slice position '' @ number_text (sw_position r))]
      else [])
     @ (if sw_hasReferences r then []
        else [violation ''empty-slice'' (sw_position r) None (''slice '' @ number_text (sw_position r) @ '' is empty'')])
     @ slice_violations (sw_position r # seen) rest"

definition memberships :: "slice_row list \<Rightarrow> string \<Rightarrow> int option list" where
  "memberships rows t = map sw_position (filter (\<lambda>r. t \<in> set (sw_taskIds r)) rows)"

definition membership_violations :: "slice_row list \<Rightarrow> string \<Rightarrow> plan_violation list" where
  "membership_violations rows t =
     (if isEngineAppendedRemediationTaskId t then []
      else case memberships rows t of
        [] \<Rightarrow> [violation ''unassigned-task'' None (Some t) (''Task '' @ t @ '' is in no slice'')]
      | [_] \<Rightarrow> []
      | ps \<Rightarrow> [violation ''duplicate-task-membership'' None (Some t)
          (''Task '' @ t @ '' appears in slices '' @ join '' and '' (map number_text ps))])"

definition slice_of :: "slice_row list \<Rightarrow> string \<Rightarrow> int option" where
  "slice_of rows t = (case memberships rows t of [] \<Rightarrow> None | p # _ \<Rightarrow> p)"

definition order_violations :: "slice_row list \<Rightarrow> string \<times> string list \<Rightarrow> plan_violation list" where
  "order_violations rows entry =
     (case entry of (t, ds) \<Rightarrow>
        if isEngineAppendedRemediationTaskId t then []
        else List.map_filter (\<lambda>d.
          case (slice_of rows t, slice_of rows d) of
            (Some s, Some e) \<Rightarrow>
              if s < e then Some (violation ''later-slice-dependency'' None (Some t)
                (''Task '' @ t @ '' in slice '' @ int_str s @ '' depends on Task '' @ d @ '' in later slice '' @ int_str e))
              else None
          | _ \<Rightarrow> None) ds)"

definition kept_violation :: "plan_violation \<Rightarrow> bool" where
  "kept_violation v = (case pv_taskId v of Some t \<Rightarrow> \<not> isEngineAppendedRemediationTaskId t | None \<Rightarrow> True)"

definition head_violations :: "string list \<Rightarrow> bool list \<Rightarrow> nat list \<Rightarrow> nat \<Rightarrow> plan_violation list" where
  "head_violations lines fenced headings tableStart =
     (let firstTask = find_idx (\<lambda>(line, f). \<not> f \<and> TASK_HEADER_PATTERN line \<noteq> None) (zip lines fenced);
          delimiterLine = line_at lines (tableStart + 1) in
      (if 1 < length headings
       then [violation ''multiple-sections'' None None ''a plan may declare at most one Slices section''] else [])
      @ (case firstTask of
           Some i \<Rightarrow> if i < hd headings
             then [violation ''section-placement'' None None ''the Slices section must appear before the first task heading''] else []
         | None \<Rightarrow> [])
      @ (if tableCells (line_at lines tableStart) = Some REQUIRED_HEADER then []
         else [violation ''header-columns'' None None ''the Slices table header columns must be exactly Slice, Title, Tasks''])
      @ (case tableCells delimiterLine of
           None \<Rightarrow> [violation ''missing-table'' None None
             ''the Slices section must contain a pipe table with header columns Slice, Title, Tasks'']
         | Some cells \<Rightarrow>
             if length cells = 3 \<and> list_all TABLE_DELIMITER_CELL cells then []
             else [violation ''malformed-delimiter'' None None
               (''the Slices table delimiter '' @ dquoted (case delimiterLine of Some l \<Rightarrow> l | None \<Rightarrow> [])
                @ '' must have exactly three markdown delimiter cells'')]))"

definition table_start :: "string list \<Rightarrow> bool list \<Rightarrow> nat \<Rightarrow> nat" where
  "table_start lines fenced headingIndex =
     (case scan_from (headingIndex + 1) (\<lambda>_ (line, f). js_trim line \<noteq> [] \<and> \<not> f) (zip lines fenced) of
        Some i \<Rightarrow> i | None \<Rightarrow> max (headingIndex + 1) (length lines))"

definition body_violations :: "string \<Rightarrow> string list \<Rightarrow> slice_row list \<Rightarrow> plan_violation list" where
  "body_violations planText taskIds rows =
     (case parsePlanDependencyGraph planText of (deps, vs) \<Rightarrow>
        (if MAX_CHILD_ID < int (length rows)
         then [violation ''max-slices'' None None
           (''plan declares '' @ int_str (int (length rows)) @ '' slices and the bound is '' @ int_str MAX_CHILD_ID)] else [])
        @ slice_violations [] rows
        @ concat (map (membership_violations rows) taskIds)
        @ filter kept_violation vs
        @ concat (map (order_violations rows) deps))"

definition slice_of_row :: "slice_row \<Rightarrow> plan_slice" where
  "slice_of_row r = \<lparr>ps_position = the (sw_position r), ps_title = sw_title r, ps_taskIds = sw_taskIds r\<rparr>"

definition heading_indexes :: "string list \<Rightarrow> bool list \<Rightarrow> nat list" where
  "heading_indexes lines fenced =
     filter (\<lambda>i. \<not> fenced ! i \<and> SLICES_HEADING (lines ! i)) [0..<length lines]"

definition validatePlanSlices :: "string \<Rightarrow> slices_validation" where
  "validatePlanSlices planText =
     (let lines = text_lines planText; fenced = fencedLineStates lines; headings = heading_indexes lines fenced in
      if headings = [] then UnslicedPlan
      else
        let tableStart = table_start lines fenced (hd headings);
            early = head_violations lines fenced headings tableStart
        in if early \<noteq> [] then InvalidSlices early
           else
             let taskIds = planTaskIds lines fenced;
                 parsed = parse_rows taskIds (drop (tableStart + 2) lines);
                 vs = snd parsed @ body_violations planText taskIds (fst parsed)
             in if vs \<noteq> [] then InvalidSlices vs
                else SlicedPlan (sort_key ps_position (map slice_of_row (fst parsed))))"

section \<open>Eligibility\<close>

datatype step_coupling = InRegion | LoopCoupled

record eligibility_input =
  ei_tier :: "complexity_tier option"
  ei_approved :: bool
  ei_slicePositions :: "int list"
  ei_maxSlices :: int
  ei_regionCoupledSteps :: "(string \<times> step_coupling) list"
  ei_complexityPath :: string

datatype stack_eligibility = StackEligible | StackIneligible "string list"

definition evaluateStackEligibility :: "eligibility_input \<Rightarrow> stack_eligibility" where
  "evaluateStackEligibility i =
     (let reasons =
        (if ei_tier i \<noteq> Some TierM \<and> ei_tier i \<noteq> Some TierL
         then [''stacked delivery requires tier M or L (found ''
               @ (case ei_tier i of Some TierS \<Rightarrow> ''S'' | Some TierM \<Rightarrow> ''M'' | Some TierL \<Rightarrow> ''L'' | None \<Rightarrow> ''no tier'') @ '')'']
         else [])
        @ (if \<not> ei_approved i then [''no operator stacking sign-off is recorded in '' @ ei_complexityPath i] else [])
        @ (if ei_maxSlices i < int (length (ei_slicePositions i))
           then [''plan declares '' @ int_str (int (length (ei_slicePositions i)))
                 @ '' slices, exceeding stacked_prs.max_slices = '' @ int_str (ei_maxSlices i)]
           else [])
        @ map (\<lambda>p. ''slice position '' @ int_str p @ '' is above the MAX_CHILD_ID ceiling of '' @ int_str MAX_CHILD_ID)
            (filter (\<lambda>p. MAX_CHILD_ID < p) (ei_slicePositions i))
        @ map (\<lambda>(nm, coupling). case coupling of
              InRegion \<Rightarrow> ''custom step '' @ nm @ '' is inside the per-child region''
            | LoopCoupled \<Rightarrow> ''custom step '' @ nm @ '' is coupled to the per-child loop'') (ei_regionCoupledSteps i)
      in if reasons = [] then StackEligible else StackIneligible reasons)"

definition coupling_of :: "nat \<Rightarrow> nat \<Rightarrow> nat \<Rightarrow> step_def \<Rightarrow> step_coupling option" where
  "coupling_of acceptance review i s =
     (if sd_name s \<in> sd_name ` set ALL_STEPS then None
      else if acceptance < i \<and> i < review then Some InRegion
      else if sd_phase s = BUILD \<and> i < review \<and> (sd_loopGate s = Some True \<or> sd_kickbackTarget s = Some True)
      then Some LoopCoupled else None)"

definition customStepsInPerChildRegion :: "step_def list \<Rightarrow> (string \<times> step_coupling) list" where
  "customStepsInPerChildRegion registry =
     (case (find_idx (\<lambda>s. sd_name s = ''acceptance_specs'') registry, find_idx (\<lambda>s. sd_name s = ''build_review'') registry) of
        (Some a, Some b) \<Rightarrow>
          List.map_filter (\<lambda>(i, s). map_option (\<lambda>c. (sd_name s, c)) (coupling_of a b i s))
            (zip [0..<length registry] registry)
      | _ \<Rightarrow> [])"

section \<open>The stories of a task\<close>

definition word_constituent :: "char \<Rightarrow> bool" where
  "word_constituent c = (alpha c \<or> is_digit c \<or> c = CHR ''_'')"

text \<open>\<^verbatim>\<open>\b\<close> before the rest \<open>s\<close> of a text whose last character so far was \<open>prev\<close>.\<close>

definition word_end :: "string \<Rightarrow> bool" where
  "word_end s = (case s of [] \<Rightarrow> True | c # _ \<Rightarrow> \<not> word_constituent c)"

text \<open>\<^verbatim>\<open>/^[ \t]*\*\*Story:\*\*[ \t]*(.*)$/i\<close>.\<close>

definition blank_or_tab :: "char \<Rightarrow> bool" where
  "blank_or_tab c = (c = CHR '' '' \<or> c = CHR 0x09)"

definition labelled_ci :: "string \<Rightarrow> string \<Rightarrow> string option" where
  "labelled_ci label s = (if lower (take (length label) s) = label then Some (drop (length label) s) else None)"

definition STORY_LINE_VALUE :: "string \<Rightarrow> string option" where
  "STORY_LINE_VALUE line =
     (case labelled_ci ''**story:**'' (dropWhile blank_or_tab line) of
        None \<Rightarrow> None
      | Some r \<Rightarrow> (let v = dropWhile blank_or_tab r in if list_ex line_terminator v then None else Some v))"

text \<open>\<^verbatim>\<open>.replace(/\([^)]*\)/g, '')\<close>.\<close>

function without_parens :: "string \<Rightarrow> string" where
  "without_parens [] = []"
| "without_parens (c # s) =
     (if c = CHR ''('' then (case dropWhile (\<lambda>d. d \<noteq> CHR '')'') s of [] \<Rightarrow> c # without_parens s | _ # r \<Rightarrow> without_parens r)
      else c # without_parens s)"
  by pat_completeness auto
termination
proof (relation "measure length", simp_all)
  fix s d r
  assume "dropWhile (\<lambda>d. d \<noteq> CHR '')'') s = d # r"
  then have "length (d # r) \<le> length s" using length_dropWhile_le [of "\<lambda>d. d \<noteq> CHR '')''" s] by simp
  then show "length r < Suc (length s)" by simp
qed

text \<open>The value before an annotation, \<^verbatim>\<open>.replace(/\s-\s.*|:\s.*/, '')\<close> on a single line.\<close>

fun before_annotation :: "string \<Rightarrow> string" where
  "before_annotation [] = []"
| "before_annotation (c # s) =
     (case s of
        d # r \<Rightarrow>
          if c = CHR '':'' \<and> js_space d then []
          else (case r of
              e # _ \<Rightarrow> if js_space c \<and> d = CHR ''-'' \<and> js_space e then [] else c # before_annotation s
            | [] \<Rightarrow> c # before_annotation s)
      | [] \<Rightarrow> [c])"

definition non_story_values :: "string list" where
  "non_story_values = [''n/a'', ''none'', ''prerequisite'', ''all'']"

definition story_delimiter :: "char \<Rightarrow> bool" where
  "story_delimiter c = (c \<in> {CHR '','', CHR '';'', CHR ''&'', CHR ''+'', CHR ''/''})"

definition around_na :: "char \<Rightarrow> bool" where
  "around_na c = (story_delimiter c \<or> js_space c)"

text \<open>
  Splitting at the delimiters and at the word \<^verbatim>\<open>and\<close>, a complete token \<^verbatim>\<open>n/a\<close> kept whole: \<open>skip\<close> counts
  the characters of a recognised word still to be passed, with whether they belong to the token.
\<close>

fun story_tokens :: "char option \<Rightarrow> nat \<times> bool \<Rightarrow> string \<Rightarrow> string \<Rightarrow> string list" where
  "story_tokens prev skip token [] = [token]"
| "story_tokens prev (Suc n, kept) token (c # s) =
     story_tokens (Some c) (n, kept) (if kept then token @ [c] else token) s"
| "story_tokens prev (0, kept) token (c # s) =
     (let w = c # s in
      if (case prev of None \<Rightarrow> True | Some p \<Rightarrow> around_na p) \<and> lower (take 3 w) = ''n/a'' \<and>
         (case drop 3 w of [] \<Rightarrow> True | d # _ \<Rightarrow> around_na d)
      then story_tokens (Some c) (2, True) (token @ [c]) s
      else if (case prev of None \<Rightarrow> True | Some p \<Rightarrow> \<not> word_constituent p) \<and> lower (take 3 w) = ''and'' \<and> word_end (drop 3 w)
      then token # story_tokens (Some c) (2, False) [] s
      else if story_delimiter c then token # story_tokens (Some c) (0, False) [] s
      else story_tokens (Some c) (0, False) (token @ [c]) s)"

text \<open>\<^verbatim>\<open>.replace(/^(?:story|stories|epic)\b[-\t ]*/i, '')\<close>.\<close>

definition without_story_word :: "string \<Rightarrow> string" where
  "without_story_word s =
     (let rests = filter word_end (List.map_filter (\<lambda>w. labelled_ci w s) [''story'', ''stories'', ''epic'']) in
      case rests of [] \<Rightarrow> s | r # _ \<Rightarrow> dropWhile (\<lambda>c. blank_or_tab c \<or> c = CHR ''-'') r)"

definition story_ids :: "string \<Rightarrow> string list" where
  "story_ids raw =
     (let v = js_trim (before_annotation (without_parens raw)) in
      if lower v \<in> set non_story_values then []
      else filter (\<lambda>t. t \<noteq> []) (map (\<lambda>t. js_trim (without_story_word (js_trim t))) (story_tokens None (0, False) [] v)))"

definition parsePlanTaskStoryLineIds :: "string \<Rightarrow> string list list" where
  "parsePlanTaskStoryLineIds text = map story_ids (List.map_filter STORY_LINE_VALUE (text_lines text))"

text \<open>\<^verbatim>\<open>/^\s*\*\*Story:\*\*\s*(.*?)\s*$/i\<close> and the same for \<^verbatim>\<open>Type:\<close>, with the group trimmed.\<close>

definition labelled_value_ci :: "string \<Rightarrow> string \<Rightarrow> string option" where
  "labelled_value_ci label line =
     (case labelled_ci label (skip_space line) of
        None \<Rightarrow> None
      | Some rest \<Rightarrow> (let v = js_trim rest in if list_ex line_terminator v then None else Some v))"

definition rawStoryLines :: "string \<Rightarrow> string list" where
  "rawStoryLines body = List.map_filter (labelled_value_ci ''**story:**'') (text_lines body)"

definition taskType :: "string \<Rightarrow> string option" where
  "taskType body =
     (case filter (\<lambda>t. t \<noteq> []) (map lower (List.map_filter (labelled_value_ci ''**type:**'') (text_lines body))) of
        [] \<Rightarrow> None | t # _ \<Rightarrow> Some t)"

section \<open>Ownership\<close>

datatype story_ownership =
    StoriesOwned "(string \<times> int) list"
  | OwnershipInvalid "plan_violation list"

type_synonym story_positions = "(string \<times> int list) list"

definition cite_story :: "string \<Rightarrow> int \<Rightarrow> story_positions \<Rightarrow> story_positions" where
  "cite_story story position ps =
     AList.update story (case map_of ps story of
         Some old \<Rightarrow> if position \<in> set old then old else old @ [position] | None \<Rightarrow> [position]) ps"

fun cite_ids :: "string list option \<Rightarrow> int \<Rightarrow> string \<Rightarrow> string list \<Rightarrow> story_positions \<times> plan_violation list \<Rightarrow>
    story_positions \<times> plan_violation list" where
  "cite_ids declared position task [] acc = acc"
| "cite_ids declared position task (story # rest) (ps, vs) =
     (if (case declared of Some ds \<Rightarrow> story \<notin> set ds | None \<Rightarrow> False)
      then cite_ids declared position task rest
        (ps, vs @ [violation ''unknown-story-id'' (Some position) (Some task) (''Task '' @ task @ '' cites unknown story '' @ story)])
      else cite_ids declared position task rest (cite_story story position ps, vs))"

definition cite_line :: "string list option \<Rightarrow> int \<Rightarrow> string \<Rightarrow> bool \<Rightarrow> string list \<times> string option \<Rightarrow>
    story_positions \<times> plan_violation list \<Rightarrow> story_positions \<times> plan_violation list" where
  "cite_line declared position task supporting line acc =
     (case line of (ids, raw) \<Rightarrow>
        let hasDeclared = (case declared of None \<Rightarrow> True | Some ds \<Rightarrow> list_ex (\<lambda>i. i \<in> set ds) ids);
            rawLine = (case raw of Some r \<Rightarrow> r | None \<Rightarrow> join '', '' ids) in
        if ids = [] \<or> (supporting \<and> \<not> hasDeclared) then acc
        else cite_ids declared position task ids
          (if 1 < length ids
           then (fst acc, snd acc @ [violation ''multi-story-line'' (Some position) (Some task)
             (''Task '' @ task @ '' has multiple story ids on Story line '' @ dquoted rawLine)])
           else acc))"

definition cite_task :: "string list option \<Rightarrow> (string \<times> string) list \<Rightarrow> int \<Rightarrow> string \<Rightarrow>
    story_positions \<times> plan_violation list \<Rightarrow> story_positions \<times> plan_violation list" where
  "cite_task declared bodies position task acc =
     (if isEngineAppendedRemediationTaskId task then acc
      else case map_of bodies task of
        None \<Rightarrow> acc
      | Some body \<Rightarrow>
          let ids = parsePlanTaskStoryLineIds body; raws = rawStoryLines body;
              supporting = (taskType body = Some ''infrastructure'' \<or> taskType body = Some ''refactor'')
          in fold (cite_line declared position task supporting)
               (zip ids (map Some (take (length ids) raws) @ replicate (length ids - length raws) None)) acc)"

definition cited_stories :: "string \<Rightarrow> plan_slice list \<Rightarrow> string list option \<Rightarrow> story_positions \<times> plan_violation list" where
  "cited_stories planText slices declared =
     (let bodies = parsePlanTaskBodies planText in
      fold (\<lambda>s. fold (cite_task declared bodies (ps_position s)) (ps_taskIds s)) slices ([], []))"

definition ownership_violations :: "string list option \<Rightarrow> story_positions \<Rightarrow> plan_violation list" where
  "ownership_violations declared ps =
     List.map_filter (\<lambda>(story, positions).
       if 1 < length positions
       then Some (violation ''story-spans-children'' None None
         (''Story '' @ story @ '' spans child positions '' @ join '' and '' (map int_str (sort positions))))
       else None) ps
     @ (case declared of
          None \<Rightarrow> []
        | Some ds \<Rightarrow> map (\<lambda>story. violation ''story-unowned'' None None (''Story '' @ story @ '' is owned by no child position''))
            (filter (\<lambda>story. map_of ps story = None) (stable_unique ds)))"

definition deriveStoryOwnership :: "string \<Rightarrow> plan_slice list \<Rightarrow> string list option \<Rightarrow> story_ownership" where
  "deriveStoryOwnership planText slices declared =
     (case cited_stories planText slices declared of (ps, vs) \<Rightarrow>
        let all_vs = vs @ ownership_violations declared ps in
        if all_vs \<noteq> [] then OwnershipInvalid all_vs
        else StoriesOwned (map (\<lambda>(story, positions). (story, hd positions)) ps))"

end
