(* ===== verification/RestackPlan.thy ===== *)
theory RestackPlan
  imports RestackJournal BranchName
begin

text \<open>
  The plan of a restack (\<^verbatim>\<open>engine/restack/restack-plan.ts\<close>): which commits of which children are to be
  replayed, computed from the closure references and the branches before a journal exists or a
  reference moves. Every question goes through the git runner and may fail.
\<close>

section \<open>Questions to git\<close>

definition git_call :: "'g git_runner \<Rightarrow> string list \<Rightarrow> 'g \<Rightarrow> 'g \<times> git_answer option" where
  "git_call git args g = git g args NoInput"

text \<open>Exit status 0 and 1 are answers, everything else and a thrown error are none.\<close>

definition exit_flag :: "git_answer option \<Rightarrow> bool option" where
  "exit_flag a =
     (case a of Some x \<Rightarrow> if ga_exitCode x = 0 then Some True else if ga_exitCode x = 1 then Some False else None
      | None \<Rightarrow> None)"

definition answer_sha :: "git_answer option \<Rightarrow> string option" where
  "answer_sha a = (if answer_ok a then parseCommitSha (js_trim (ga_stdout (the a))) else None)"

definition resolveTip :: "'g git_runner \<Rightarrow> string \<Rightarrow> 'g \<Rightarrow> 'g \<times> string option" where
  "resolveTip git branchRef g = map_prod id answer_sha (git_call git [''rev-parse'', ''--verify'', branchRef] g)"

definition refExists :: "'g git_runner \<Rightarrow> string \<Rightarrow> 'g \<Rightarrow> 'g \<times> bool option" where
  "refExists git branchRef g =
     map_prod id exit_flag (git_call git [''show-ref'', ''--verify'', ''--quiet'', branchRef] g)"

definition isAncestor :: "'g git_runner \<Rightarrow> string \<Rightarrow> string \<Rightarrow> 'g \<Rightarrow> 'g \<times> bool option" where
  "isAncestor git anc desc g =
     map_prod id exit_flag (git_call git [''merge-base'', ''--is-ancestor'', anc, desc] g)"

definition mergeBase :: "'g git_runner \<Rightarrow> string \<Rightarrow> string \<Rightarrow> 'g \<Rightarrow> 'g \<times> string option" where
  "mergeBase git left right g = map_prod id answer_sha (git_call git [''merge-base'', left, right] g)"

definition output_lines :: "git_answer option \<Rightarrow> string list option" where
  "output_lines a =
     (if answer_ok a then Some (filter (\<lambda>l. l \<noteq> []) (split_on (CHR 0x0A) (ga_stdout (the a)))) else None)"

definition halt_record_path :: "string \<Rightarrow> string" where
  "halt_record_path slug = ''.docs/halted/'' @ slug @ ''.md''"

definition halt_only :: "string \<Rightarrow> string list \<Rightarrow> bool" where
  "halt_only slug paths = (paths \<noteq> [] \<and> list_all (\<lambda>p. p = halt_record_path slug) paths)"

definition isHaltRecordOnly :: "'g git_runner \<Rightarrow> string \<Rightarrow> string \<Rightarrow> 'g \<Rightarrow> 'g \<times> bool option" where
  "isHaltRecordOnly git commit slug g =
     map_prod id (map_option (halt_only slug) \<circ> output_lines)
       (git_call git [''diff-tree'', ''--no-commit-id'', ''--name-only'', ''-r'', commit] g)"

fun all_halt_records :: "'g git_runner \<Rightarrow> string \<Rightarrow> string list \<Rightarrow> 'g \<Rightarrow> 'g \<times> bool option" where
  "all_halt_records git slug [] g = (g, Some True)"
| "all_halt_records git slug (raw # rest) g =
     (case parseCommitSha raw of
        None \<Rightarrow> (g, None)
      | Some commit \<Rightarrow>
          (case isHaltRecordOnly git commit slug g of
             (g1, None) \<Rightarrow> (g1, None)
           | (g1, Some haltOnly) \<Rightarrow> if \<not> haltOnly then (g1, Some False) else all_halt_records git slug rest g1))"

definition hasOnlyHaltRecordsPastClosure ::
  "'g git_runner \<Rightarrow> string \<Rightarrow> string \<Rightarrow> string \<Rightarrow> 'g \<Rightarrow> 'g \<times> bool option" where
  "hasOnlyHaltRecordsPastClosure git closureTip branchTip slug g =
     (case git_call git [''rev-list'', closureTip @ ''..'' @ branchTip] g of
        (g1, commits) \<Rightarrow>
          (case output_lines commits of None \<Rightarrow> (g1, None) | Some cs \<Rightarrow> all_halt_records git slug cs g1))"

section \<open>The closed children\<close>

record closed_child =
  cl_child :: int
  cl_closureTip :: string
  cl_branchRef :: string
  cl_branchTip :: string

definition rawRefForBranch :: "string \<Rightarrow> string option" where
  "rawRefForBranch branch = (if branch = [] then None else Some (''refs/heads/'' @ branch))"

definition closed_prefix :: "string \<Rightarrow> string" where
  "closed_prefix slug = ''refs/conductor/'' @ slug @ ''/closed/c''"

text \<open>The listed closure references: foreign lines are skipped, an invalid one refuses the whole reading.\<close>

fun read_closed :: "'g git_runner \<Rightarrow> string \<Rightarrow> string list \<Rightarrow> 'g \<Rightarrow> 'g \<times> closed_child list option" where
  "read_closed git slug [] g = (g, Some [])"
| "read_closed git slug (line # rest) g =
     (case js_words line of
        rawRef # rawTip # _ \<Rightarrow>
          if \<not> starts_with rawRef (closed_prefix slug) then read_closed git slug rest g
          else
            let rawChild = drop (length (closed_prefix slug)) rawRef in
            (case (parseChildId (RawStr rawChild), parseCommitSha rawTip) of
               (Some child, Some closureTip) \<Rightarrow>
                 (case (case childBranchFor slug child of Inl _ \<Rightarrow> None | Inr b \<Rightarrow> rawRefForBranch b) of
                    None \<Rightarrow> (g, None)
                  | Some branchRef \<Rightarrow>
                      if rawChild \<noteq> int_str child then (g, None)
                      else (case resolveTip git branchRef g of
                          (g1, None) \<Rightarrow> (g1, None)
                        | (g1, Some branchTip) \<Rightarrow>
                            (case read_closed git slug rest g1 of
                               (g2, closed) \<Rightarrow> (g2, map_option (\<lambda>cs.
                                 \<lparr>cl_child = child, cl_closureTip = closureTip, cl_branchRef = branchRef,
                                  cl_branchTip = branchTip\<rparr> # cs) closed))))
             | _ \<Rightarrow> (g, None))
      | _ \<Rightarrow> read_closed git slug rest g)"

definition readClosedChildren :: "'g git_runner \<Rightarrow> string \<Rightarrow> 'g \<Rightarrow> 'g \<times> closed_child list option" where
  "readClosedChildren git slug g =
     (case git_call git [''for-each-ref'', ''--format=%(refname) %(objectname)'', ''refs/conductor/'' @ slug @ ''/closed/''] g of
        (g1, result) \<Rightarrow>
          if \<not> answer_ok result then (g1, None)
          else map_prod id (map_option (sort_key cl_child))
                 (read_closed git slug (split_on (CHR 0x0A) (ga_stdout (the result))) g1))"

section \<open>The plan\<close>

record active_child =
  ac_child :: int
  ac_branchRef :: string
  ac_isLeaf :: bool

record plan_options =
  po_slug :: string
  po_oldDefaultTip :: string
  po_cause :: restack_cause
  po_active :: active_child
  po_unenteredLeaf :: "(int \<times> string) option"

datatype plan_refusal = RangeNotAncestor | ClosedChildRewritten

datatype restack_plan =
    Planned "child_range list" "int list"
  | PlanRefused plan_refusal int
  | RepairPending int
  | PlanUnavailable string

text \<open>A phase of the planner ends the planning or hands on a value.\<close>

type_synonym ('g, 'a) plan_phase = "'g \<Rightarrow> 'g \<times> (restack_plan + 'a)"

definition phase_then :: "('g, 'a) plan_phase \<Rightarrow> ('a \<Rightarrow> ('g, 'b) plan_phase) \<Rightarrow> ('g, 'b) plan_phase" where
  "phase_then m f g = (case m g of (g1, Inl stop) \<Rightarrow> (g1, Inl stop) | (g1, Inr x) \<Rightarrow> f x g1)"

definition phase_value :: "'a \<Rightarrow> ('g, 'a) plan_phase" where
  "phase_value x g = (g, Inr x)"

definition phase_stop :: "restack_plan \<Rightarrow> ('g, 'a) plan_phase" where
  "phase_stop p g = (g, Inl p)"

text \<open>An answer that is missing ends the planning as unavailable.\<close>

definition need :: "string \<Rightarrow> ('g \<Rightarrow> 'g \<times> 'a option) \<Rightarrow> ('g, 'a) plan_phase" where
  "need detail m g = (case m g of (g1, None) \<Rightarrow> (g1, Inl (PlanUnavailable detail)) | (g1, Some x) \<Rightarrow> (g1, Inr x))"

fun check_closures :: "'g git_runner \<Rightarrow> closed_child list \<Rightarrow> ('g, unit) plan_phase" where
  "check_closures git [] = phase_value ()"
| "check_closures git (e # rest) =
     phase_then (need (''cannot inspect closed child '' @ int_str (cl_child e))
                  (isAncestor git (cl_closureTip e) (cl_branchTip e)))
       (\<lambda>containsClosure. if \<not> containsClosure then phase_stop (PlanRefused ClosedChildRewritten (cl_child e))
          else check_closures git rest)"

fun find_originating :: "'g git_runner \<Rightarrow> string \<Rightarrow> restack_cause \<Rightarrow> closed_child list \<Rightarrow> ('g, int list) plan_phase" where
  "find_originating git slug cause [] = phase_value []"
| "find_originating git slug cause (e # rest) =
     (if cl_branchTip e = cl_closureTip e then find_originating git slug cause rest
      else phase_then (need (''cannot inspect commits after closed child '' @ int_str (cl_child e))
                        (hasOnlyHaltRecordsPastClosure git (cl_closureTip e) (cl_branchTip e) slug))
        (\<lambda>haltOnly.
           if haltOnly then find_originating git slug cause rest
           else if cause \<noteq> FeatureRepair then phase_stop (RepairPending (cl_child e))
           else phase_then (find_originating git slug cause rest) (\<lambda>more. phase_value (cl_child e # more))))"

text \<open>The check that both kinds of replayed range pass.\<close>

definition ranged :: "'g git_runner \<Rightarrow> int \<Rightarrow> string \<Rightarrow> string \<Rightarrow> range_kind \<Rightarrow> ('g, child_range) plan_phase" where
  "ranged git child oldParent oldTip kind =
     phase_then (need (''cannot inspect range for child '' @ int_str child) (isAncestor git oldParent oldTip))
       (\<lambda>validRange. if \<not> validRange then phase_stop (PlanRefused RangeNotAncestor child)
          else phase_value \<lparr>cr_child = child, cr_oldParent = oldParent, cr_oldTip = oldTip, cr_kind = kind\<rparr>)"

definition old_parent :: "'g git_runner \<Rightarrow> string option \<Rightarrow> string \<Rightarrow> string \<Rightarrow> 'g \<Rightarrow> 'g \<times> string option" where
  "old_parent git previous tip defaultTip g =
     (case previous of Some closure \<Rightarrow> (g, Some closure) | None \<Rightarrow> mergeBase git tip defaultTip g)"

fun closed_ranges ::
  "'g git_runner \<Rightarrow> string \<Rightarrow> int list \<Rightarrow> string option \<Rightarrow> closed_child list \<Rightarrow> ('g, child_range list) plan_phase" where
  "closed_ranges git defaultTip originating previous [] = phase_value []"
| "closed_ranges git defaultTip originating previous (e # rest) =
     phase_then (need (''cannot resolve old parent for child '' @ int_str (cl_child e))
                  (old_parent git previous (cl_branchTip e) defaultTip))
       (\<lambda>oldParent.
          phase_then (ranged git (cl_child e) oldParent
                        (if cl_child e \<in> set originating then cl_branchTip e else cl_closureTip e) RangeClosed)
            (\<lambda>r. phase_then (closed_ranges git defaultTip originating (Some (cl_closureTip e)) rest)
                   (\<lambda>rs. phase_value (r # rs))))"

text \<open>The tip of a branch that need not exist.\<close>

definition existing_tip :: "'g git_runner \<Rightarrow> string \<Rightarrow> string \<Rightarrow> string \<Rightarrow> ('g, string option) plan_phase" where
  "existing_tip git inspected resolved branchRef =
     phase_then (need inspected (refExists git branchRef))
       (\<lambda>exists. if \<not> exists then phase_value None
          else phase_then (need resolved (resolveTip git branchRef)) (\<lambda>tip. phase_value (Some tip)))"

definition active_tip :: "'g git_runner \<Rightarrow> active_child \<Rightarrow> ('g, string option) plan_phase" where
  "active_tip git a =
     existing_tip git (''cannot inspect active child '' @ int_str (ac_child a))
       (''cannot resolve active child '' @ int_str (ac_child a)) (ac_branchRef a)"

definition last_below :: "closed_child list \<Rightarrow> int \<Rightarrow> string option" where
  "last_below closed child =
     (case filter (\<lambda>e. cl_child e < child) closed of [] \<Rightarrow> None | es \<Rightarrow> Some (cl_closureTip (last es)))"

definition active_range ::
  "'g git_runner \<Rightarrow> plan_options \<Rightarrow> closed_child list \<Rightarrow> string option \<Rightarrow> ('g, child_range list) plan_phase" where
  "active_range git opts closed activeTip =
     (let a = po_active opts in
      case activeTip of
        None \<Rightarrow> phase_value []
      | Some tip \<Rightarrow>
          if ac_child a \<in> cl_child ` set closed then phase_value []
          else phase_then (need (''cannot resolve old parent for child '' @ int_str (ac_child a))
                             (old_parent git (last_below closed (ac_child a)) tip (po_oldDefaultTip opts)))
            (\<lambda>oldParent.
               phase_then (ranged git (ac_child a) oldParent tip (if ac_isLeaf a then RangeLeafActive else RangeActive))
                 (\<lambda>r. phase_value [r])))"

definition leafIsInsideRange :: "'g git_runner \<Rightarrow> string \<Rightarrow> child_range \<Rightarrow> 'g \<Rightarrow> 'g \<times> bool option" where
  "leafIsInsideRange git leafTip r g =
     (if leafTip = cr_oldParent r then (g, Some False)
      else (case isAncestor git (cr_oldParent r) leafTip g of
          (g1, Some True) \<Rightarrow> isAncestor git leafTip (cr_oldTip r) g1
        | (g1, afterParent) \<Rightarrow> (g1, afterParent)))"

fun leaf_inside_some :: "'g git_runner \<Rightarrow> string \<Rightarrow> string \<Rightarrow> child_range list \<Rightarrow> ('g, bool) plan_phase" where
  "leaf_inside_some git detail leafTip [] = phase_value False"
| "leaf_inside_some git detail leafTip (r # rest) =
     phase_then (need detail (leafIsInsideRange git leafTip r))
       (\<lambda>inside. if inside then phase_value True else leaf_inside_some git detail leafTip rest)"

definition unentered_leaf :: "'g git_runner \<Rightarrow> plan_options \<Rightarrow> child_range list \<Rightarrow> ('g, child_range list) plan_phase" where
  "unentered_leaf git opts ranges =
     (case po_unenteredLeaf opts of
        None \<Rightarrow> phase_value []
      | Some (child, branchRef) \<Rightarrow>
          if ac_isLeaf (po_active opts) then phase_value []
          else
            let inspected = ''cannot inspect unentered leaf '' @ int_str child in
            phase_then (existing_tip git inspected (''cannot resolve unentered leaf '' @ int_str child) branchRef)
              (\<lambda>leafTip. case leafTip of
                 None \<Rightarrow> phase_value []
               | Some tip \<Rightarrow>
                   phase_then (leaf_inside_some git inspected tip ranges)
                     (\<lambda>inside. phase_value (if inside
                        then [\<lparr>cr_child = child, cr_oldParent = tip, cr_oldTip = tip, cr_kind = RangeLeafUnentered\<rparr>]
                        else []))))"

definition plan_phases :: "'g git_runner \<Rightarrow> plan_options \<Rightarrow> ('g, restack_plan) plan_phase" where
  "plan_phases git opts =
     phase_then (need ''cannot read closed child refs'' (readClosedChildren git (po_slug opts)))
       (\<lambda>closed. phase_then (check_closures git closed)
         (\<lambda>_. phase_then (active_tip git (po_active opts))
           (\<lambda>activeTip. phase_then (find_originating git (po_slug opts) (po_cause opts) closed)
             (\<lambda>originating. phase_then (closed_ranges git (po_oldDefaultTip opts) originating None closed)
               (\<lambda>ranges. phase_then (active_range git opts closed activeTip)
                 (\<lambda>active. phase_then (unentered_leaf git opts (ranges @ active))
                   (\<lambda>leaf. phase_value (Planned (ranges @ active @ leaf) originating))))))))"

definition planRestackRanges :: "'g git_runner \<Rightarrow> plan_options \<Rightarrow> 'g \<Rightarrow> 'g \<times> restack_plan" where
  "planRestackRanges git opts g =
     (case plan_phases git opts g of (g1, Inl p) \<Rightarrow> (g1, p) | (g1, Inr p) \<Rightarrow> (g1, p))"

end
