(* ===== verification/SliceTopology.thy ===== *)
theory SliceTopology
  imports PlanSlices RestackPlan CascadeCap
begin

text \<open>
  The topology of a stack (\<^verbatim>\<open>engine/slice-topology.ts\<close>): the positions its sealed plan declares,
  checked against the positions recorded when the first child was started. The files and the
  configuration the loader reads are arguments.
\<close>

section \<open>Durable child state\<close>

definition STACK_OWNED_CONDUCTOR_REFS :: "string list" where
  "STACK_OWNED_CONDUCTOR_REFS = [''positions'', ''publication'', ''leaf-moved'', ''cascades'']"

definition STACK_OWNED_CONDUCTOR_REF_DIRS :: "string list" where
  "STACK_OWNED_CONDUCTOR_REF_DIRS = [''closed/'', ''restack/'']"

definition STACK_PUSH_RECEIPT_DIRS :: "string list" where
  "STACK_PUSH_RECEIPT_DIRS = [''pushed/'', ''push-intent/'']"

definition isStackOwnedConductorRef :: "string \<Rightarrow> string \<Rightarrow> bool" where
  "isStackOwnedConductorRef nm slug =
     (case filter (\<lambda>dir. starts_with nm dir) STACK_PUSH_RECEIPT_DIRS of
        dir # _ \<Rightarrow> (case parseFeatureBranch (drop (length dir) nm) of ChildBranch s _ \<Rightarrow> s = slug | _ \<Rightarrow> False)
      | [] \<Rightarrow> nm \<in> set STACK_OWNED_CONDUCTOR_REFS \<or> list_ex (\<lambda>dir. starts_with nm dir) STACK_OWNED_CONDUCTOR_REF_DIRS)"

text \<open>The directory of children, whether there is a git boundary, and the answer; \<open>None\<close> is \<^verbatim>\<open>'git-error'\<close>.\<close>

definition hasDurableChildState ::
  "dir_listing \<Rightarrow> bool \<Rightarrow> 'g git_runner \<Rightarrow> string \<Rightarrow> 'g \<Rightarrow> 'g \<times> bool option" where
  "hasDurableChildState children hasGit git slug g =
     (case children of
        DirError _ \<Rightarrow> (g, None)
      | DirEntries (_ # _) \<Rightarrow> (g, Some True)
      | _ \<Rightarrow>
          if \<not> hasGit then (g, Some False)
          else (case git_call git [''for-each-ref'', ''--format=%(refname)'', ''refs/heads/feat''] g of
              (g1, refs) \<Rightarrow>
                if \<not> answer_ok refs then (g1, None)
                else if list_ex (\<lambda>ref. isChildRefOf (js_trim ref) slug) (text_lines (ga_stdout (the refs))) then (g1, Some True)
                else
                  let pre = ''refs/conductor/'' @ slug @ ''/'' in
                  (case git_call git [''for-each-ref'', ''--format=%(refname)'', pre] g1 of
                     (g2, conductorRefs) \<Rightarrow>
                       (g2, if \<not> answer_ok conductorRefs then None
                            else Some (list_ex (\<lambda>line. let ref = js_trim line in
                                starts_with ref pre \<and> isStackOwnedConductorRef (drop (length pre) ref) slug)
                              (text_lines (ga_stdout (the conductorRefs))))))))"

section \<open>The topology\<close>

datatype topology_cause = PlanMissing | PlanInvalid | PositionsChanged | PositionsRefUnreadable | TopologyGitError

record topology_failure =
  tf_cause :: topology_cause
  tf_violations :: "plan_violation list"
  tf_recorded :: "int list option"
  tf_planned :: "int list option"

definition failed_for :: "topology_cause \<Rightarrow> topology_failure" where
  "failed_for cause = \<lparr>tf_cause = cause, tf_violations = [], tf_recorded = None, tf_planned = None\<rparr>"

record sliced_topology =
  st_positions :: "int list"
  st_taskSlices :: "(string \<times> int) list"
  st_titles :: "string list"
  st_ownership :: "(string \<times> int) list"
  st_eligibility :: stack_eligibility

datatype slice_topology = TopologyUnsliced | TopologySliced sliced_topology | TopologyUnavailable topology_failure

fun safe_positions :: "jval list \<Rightarrow> int list option" where
  "safe_positions [] = Some []"
| "safe_positions (v # vs) =
     (if is_positive_safe (Some v) then map_option (\<lambda>ns. the_num (Some v) # ns) (safe_positions vs) else None)"

definition parseRecordedPositions :: "jval option \<Rightarrow> int list option" where
  "parseRecordedPositions value =
     (case value of
        Some (JArr vs) \<Rightarrow>
          (case safe_positions vs of
             None \<Rightarrow> None
           | Some ns \<Rightarrow> (let positions = sort (stable_unique ns) in if length positions = length ns then Some positions else None))
      | _ \<Rightarrow> None)"

definition verifySlicePositions ::
  "dir_listing \<Rightarrow> bool \<Rightarrow> 'g git_runner \<Rightarrow> string \<Rightarrow> int list \<Rightarrow> bool option option \<Rightarrow> 'g \<Rightarrow> 'g \<times> topology_failure option" where
  "verifySlicePositions children hasGit git slug positions durableChildState g =
     (case (case durableChildState of Some d \<Rightarrow> (g, d) | None \<Rightarrow> hasDurableChildState children hasGit git slug g) of
        (g1, None) \<Rightarrow> (g1, Some (failed_for TopologyGitError))
      | (g1, Some False) \<Rightarrow> (g1, None)
      | (g1, Some True) \<Rightarrow>
          let planPositions = sort positions in
          (case git_call git [''cat-file'', ''-p'', ''refs/conductor/'' @ slug @ ''/positions''] g1 of
             (g2, None) \<Rightarrow> (g2, Some (failed_for TopologyGitError))
           | (g2, Some recorded) \<Rightarrow>
               (g2, case (if ga_exitCode recorded = 0 then parseRecordedPositions (ga_json recorded) else None) of
                      None \<Rightarrow> Some ((failed_for PositionsRefUnreadable)\<lparr>tf_planned := Some planPositions\<rparr>)
                    | Some recordedPositions \<Rightarrow>
                        if recordedPositions \<noteq> planPositions
                        then Some ((failed_for PositionsChanged)\<lparr>tf_recorded := Some recordedPositions, tf_planned := Some planPositions\<rparr>)
                        else None)))"

text \<open>
  What the loader reads: the plan's text, its stories' ids when they resolve and can be read, the
  approval and tier of the complexity artifact, and the project's configuration.
\<close>

record topology_inputs =
  ti_plan :: "string option"
  ti_stories :: "(string list) throws"
  ti_enabled :: "bool option"
  ti_tier :: "complexity_tier option"
  ti_approved :: bool
  ti_maxSlices :: "int option"
  ti_registry :: "step_def list option"
  ti_complexityPath :: string

definition task_slices :: "plan_slice list \<Rightarrow> (string \<times> int) list" where
  "task_slices slices =
     foldl (\<lambda>kvs (t, p). AList.update t p kvs) []
       (concat (map (\<lambda>s. map (\<lambda>t. (t, ps_position s))
         (filter (\<lambda>t. \<not> isEngineAppendedRemediationTaskId t) (ps_taskIds s))) slices))"

definition topology_eligibility :: "topology_inputs \<Rightarrow> int list \<Rightarrow> stack_eligibility" where
  "topology_eligibility ti positions =
     (if ti_enabled ti = Some False then StackIneligible [''stacked_prs.enabled is false'']
      else evaluateStackEligibility
        \<lparr>ei_tier = ti_tier ti, ei_approved = ti_approved ti, ei_slicePositions = positions,
         ei_maxSlices = (case ti_maxSlices ti of Some n \<Rightarrow> n | None \<Rightarrow> 1),
         ei_regionCoupledSteps = (case ti_registry ti of Some r \<Rightarrow> customStepsInPerChildRegion r | None \<Rightarrow> []),
         ei_complexityPath = ti_complexityPath ti\<rparr>)"

definition sliced_or_invalid :: "topology_inputs \<Rightarrow> string \<Rightarrow> plan_slice list \<Rightarrow> slice_topology" where
  "sliced_or_invalid ti planText slices =
     (case ti_stories ti of
        Inl why \<Rightarrow> TopologyUnavailable ((failed_for PlanInvalid)\<lparr>tf_violations := [violation why None None why]\<rparr>)
      | Inr ids \<Rightarrow>
          (case deriveStoryOwnership planText slices (Some ids) of
             OwnershipInvalid vs \<Rightarrow> TopologyUnavailable ((failed_for PlanInvalid)\<lparr>tf_violations := vs\<rparr>)
           | StoriesOwned owners \<Rightarrow>
               TopologySliced \<lparr>st_positions = map ps_position slices, st_taskSlices = task_slices slices,
                 st_titles = map ps_title slices, st_ownership = owners,
                 st_eligibility = topology_eligibility ti (map ps_position slices)\<rparr>))"

definition loadSliceTopology ::
  "topology_inputs \<Rightarrow> dir_listing \<Rightarrow> bool \<Rightarrow> 'g git_runner \<Rightarrow> string \<Rightarrow> bool option option \<Rightarrow> 'g \<Rightarrow> 'g \<times> slice_topology" where
  "loadSliceTopology ti children hasGit git slug durableChildState g =
     (case ti_plan ti of
        None \<Rightarrow> (g, TopologyUnavailable (failed_for PlanMissing))
      | Some planText \<Rightarrow>
          (case validatePlanSlices planText of
             InvalidSlices vs \<Rightarrow> (g, TopologyUnavailable ((failed_for PlanInvalid)\<lparr>tf_violations := vs\<rparr>))
           | validation \<Rightarrow>
               let slices = (case validation of SlicedPlan ss \<Rightarrow> ss | _ \<Rightarrow> []) in
               (case verifySlicePositions children hasGit git slug (map ps_position slices) durableChildState g of
                  (g1, Some failure) \<Rightarrow> (g1, TopologyUnavailable failure)
                | (g1, None) \<Rightarrow>
                    (g1, if validation = UnslicedPlan then TopologyUnsliced else sliced_or_invalid ti planText slices))))"

definition positionsFromTopology :: "slice_topology \<Rightarrow> int list" where
  "positionsFromTopology t =
     (case t of TopologySliced s \<Rightarrow> List.map_filter (\<lambda>p. parseChildId (RawInt p)) (st_positions s) | _ \<Rightarrow> [])"

end
