(* ===== verification/ChildCursor.thy ===== *)
theory ChildCursor
  imports SliceTopology RouteStore
begin

text \<open>
  The cursor over a stack (\<^verbatim>\<open>engine/child-cursor.ts\<close>): which child is worked on, whether a closed
  child carries a repair, whether the stack diverged, and the base a child is compared with. The
  topology is read by the loader, the rewrite map and the configuration are arguments.
\<close>

section \<open>The rewrite map\<close>

text \<open>\<^verbatim>\<open>engine/rebase-translate.ts\<close>: rewrites are followed until a commit without one, or one seen before.\<close>

function follow_map :: "(string \<times> string) list \<Rightarrow> string list \<Rightarrow> string \<Rightarrow> string" where
  "follow_map m seen current =
     (case map_of m current of
        None \<Rightarrow> current
      | Some successor \<Rightarrow> if current \<in> set seen then current else follow_map m (current # seen) successor)"
  by pat_completeness auto
termination
proof (relation "measure (\<lambda>(m, seen, current). card (fst ` set m - set seen))", simp, goal_cases)
  case (1 m seen current successor)
  have "current \<in> fst ` set m" using 1(1) map_of_SomeD by force
  with 1(2) have "fst ` set m - set (current # seen) \<subset> fst ` set m - set seen" by auto
  then have "card (fst ` set m - set (current # seen)) < card (fst ` set m - set seen)" by (intro psubset_card_mono) auto
  then show ?case by simp
qed

declare follow_map.simps [simp del]

definition resolveThroughMap :: "string \<Rightarrow> (string \<times> string) list \<Rightarrow> string" where
  "resolveThroughMap sha m = follow_map m [] sha"

text \<open>The file of rewrites: absent, unreadable, or its text, which may be no JSON.\<close>

datatype rewrite_file = RewritesMissing | RewritesUnreadable | RewritesText "jval option"

fun string_values :: "(string \<times> jval) list \<Rightarrow> (string \<times> string) list option" where
  "string_values [] = Some []"
| "string_values ((k, v) # rest) =
     (case v of JStr s \<Rightarrow> map_option (\<lambda>kvs. (k, s) # kvs) (string_values rest) | _ \<Rightarrow> None)"

definition readRewriteMap :: "rewrite_file \<Rightarrow> (string \<times> string) list option" where
  "readRewriteMap f =
     (case f of
        RewritesMissing \<Rightarrow> Some []
      | RewritesUnreadable \<Rightarrow> None
      | RewritesText (Some (JObj kvs)) \<Rightarrow> string_values kvs
      | RewritesText _ \<Rightarrow> None)"

section \<open>Closures and markers\<close>

record closure =
  cz_child :: int
  cz_tip :: string

definition closure_of_line :: "string \<Rightarrow> int list \<Rightarrow> string \<Rightarrow> closure option" where
  "closure_of_line slug positions line =
     (case js_words line of
        ref # tip # _ \<Rightarrow>
          if \<not> starts_with ref (closed_prefix slug) then None
          else let rawChild = drop (length (closed_prefix slug)) ref in
            (case parseChildId (RawStr rawChild) of
               None \<Rightarrow> None
             | Some child \<Rightarrow>
                 if rawChild = int_str child \<and> child \<in> set positions then Some \<lparr>cz_child = child, cz_tip = tip\<rparr> else None)
      | _ \<Rightarrow> None)"

definition closedChildren :: "'g git_runner \<Rightarrow> string \<Rightarrow> int list \<Rightarrow> 'g \<Rightarrow> 'g \<times> closure list option" where
  "closedChildren git slug positions g =
     (case git_call git [''for-each-ref'', ''--format=%(refname) %(objectname)'', ''refs/conductor/'' @ slug @ ''/closed/''] g of
        (g1, result) \<Rightarrow>
          (g1, if \<not> answer_ok result then None
               else Some (List.map_filter (closure_of_line slug positions) (text_lines (ga_stdout (the result))))))"

definition leaf_moved_ref :: "string \<Rightarrow> string" where
  "leaf_moved_ref slug = ''refs/conductor/'' @ slug @ ''/leaf-moved''"

definition hasLeafMovedMarker :: "'g git_runner \<Rightarrow> string \<Rightarrow> 'g \<Rightarrow> 'g \<times> bool option" where
  "hasLeafMovedMarker git slug g = refExists git (leaf_moved_ref slug) g"

definition writeLeafMovedMarker :: "'g git_runner \<Rightarrow> string \<Rightarrow> 'g \<Rightarrow> 'g \<times> bool" where
  "writeLeafMovedMarker git slug g =
     (case git_call git [''rev-parse'', ''--verify'', ''refs/heads/'' @ leafBranchFor slug] g of
        (g1, leaf) \<Rightarrow>
          if \<not> answer_ok leaf \<or> js_trim (ga_stdout (the leaf)) = [] then (g1, False)
          else (case git_call git [''update-ref'', leaf_moved_ref slug, js_trim (ga_stdout (the leaf))] g1 of
              (g2, moved) \<Rightarrow> (g2, answer_ok moved)))"

section \<open>The commits past a closure\<close>

text \<open>
  \<^verbatim>\<open>message.match(/^Round:\s*(r\d+)\s*$/m)?.[1]\<close>: tried at the start of the message and after
  every line end.
\<close>

definition round_here :: "string \<Rightarrow> string option" where
  "round_here s =
     (case after_prefix ''Round:'' s of
        None \<Rightarrow> None
      | Some r \<Rightarrow>
          (case skip_space r of
             c # ds \<Rightarrow>
               let digits = takeWhile is_digit ds; rest = drop (length digits) ds in
               if c = CHR ''r'' \<and> digits \<noteq> [] \<and> (skip_space rest = [] \<or> list_ex line_terminator (takeWhile js_space rest))
               then Some (c # digits) else None
           | [] \<Rightarrow> None))"

fun round_after :: "string \<Rightarrow> string option" where
  "round_after [] = None"
| "round_after (c # s) =
     (case (if line_terminator c then round_here s else None) of Some r \<Rightarrow> Some r | None \<Rightarrow> round_after s)"

definition round_stamp :: "string \<Rightarrow> string option" where
  "round_stamp message = (case round_here message of Some r \<Rightarrow> Some r | None \<Rightarrow> round_after message)"

record commit_scan =
  cm_needsRepair :: bool
  cm_allUnstamped :: bool
  cm_foreignStamp :: "string option"

definition note_stamp :: "bool \<Rightarrow> string option \<Rightarrow> commit_scan \<Rightarrow> commit_scan" where
  "note_stamp foreign stamp c =
     (case stamp of
        None \<Rightarrow> c\<lparr>cm_needsRepair := True\<rparr>
      | Some r \<Rightarrow> c\<lparr>cm_needsRepair := True, cm_allUnstamped := False,
                   cm_foreignStamp := (if foreign then Some r else cm_foreignStamp c)\<rparr>)"

fun scan_commits ::
  "'g git_runner \<Rightarrow> string \<Rightarrow> repair_marker option \<Rightarrow> int \<Rightarrow> string list \<Rightarrow> commit_scan \<Rightarrow> 'g \<Rightarrow> 'g \<times> commit_scan option" where
  "scan_commits git slug marker child [] c g = (g, Some c)"
| "scan_commits git slug marker child (sha # rest) c g =
     (case isHaltRecordOnly git sha slug g of
        (g1, None) \<Rightarrow> (g1, None)
      | (g1, Some True) \<Rightarrow> scan_commits git slug marker child rest c g1
      | (g1, Some False) \<Rightarrow>
          (case marker of
             None \<Rightarrow> scan_commits git slug marker child rest (c\<lparr>cm_needsRepair := True\<rparr>) g1
           | Some m \<Rightarrow>
               (case git_call git [''log'', ''-1'', ''--format=%B'', sha] g1 of
                  (g2, message) \<Rightarrow>
                    if \<not> answer_ok message then (g2, None)
                    else scan_commits git slug marker child rest
                      (note_stamp (child \<noteq> mk_host m) (round_stamp (ga_stdout (the message))) c) g2)))"

section \<open>Resolution\<close>

record active_target =
  at_child :: int
  at_isLeaf :: bool
  at_branch :: string
  at_leafMovePending :: "bool option"
  at_nextChild :: "int option"
  at_revalidating :: "(int \<times> int) option"
  at_routedRepair :: "(int \<times> string) option"

record repair_target =
  rt_repairChildren :: "int list"
  rt_coOrigins :: "int list"
  rt_foreignRounds :: "(int \<times> string) list"

datatype child_resolution =
    NoChild
  | TopologyFailed topology_failure
  | DetachedHead
  | CursorGitError "string option"
  | Divergent int plan_refusal
  | ActiveChild active_target
  | RepairPendingChild active_target repair_target

text \<open>What the loop over the closures gathers.\<close>

record cursor_scan =
  cu_repair :: "int list"
  cu_coOrigins :: "int list"
  cu_foreignRounds :: "(int \<times> string) list"
  cu_leafMovePending :: bool
  cu_rewriteOnLeaf :: bool

record cursor_env =
  ce_slug :: string
  ce_positions :: "int list"
  ce_rewrites :: "(string \<times> string) list"
  ce_leafMoved :: bool
  ce_marker :: "repair_marker option"
  ce_carried :: "int list"
  ce_lastClosed :: "int option"

definition note_repair :: "cursor_env \<Rightarrow> int \<Rightarrow> commit_scan \<Rightarrow> cursor_scan \<Rightarrow> cursor_scan" where
  "note_repair env child c s =
     (if \<not> cm_needsRepair c then s
      else let s1 = s\<lparr>cu_repair := cu_repair s @ [child]\<rparr> in
        case ce_marker env of
          None \<Rightarrow> s1
        | Some m \<Rightarrow>
            if child = mk_host m then s1
            else if cm_allUnstamped c
            then (if child \<in> set (ce_carried env) then s1\<lparr>cu_coOrigins := cu_coOrigins s1 @ [child]\<rparr> else s1)
            else s1\<lparr>cu_foreignRounds := cu_foreignRounds s1 @
                   [(child, case cm_foreignStamp c of Some r \<Rightarrow> r | None \<Rightarrow> mk_roundId m)]\<rparr>)"

text \<open>The branch of a closed child, when it exists: its closure is still on it, and what follows the closure.\<close>

definition scan_branch ::
  "'g git_runner \<Rightarrow> cursor_env \<Rightarrow> closure \<Rightarrow> cursor_scan \<Rightarrow> 'g \<Rightarrow> 'g \<times> (child_resolution + cursor_scan)" where
  "scan_branch git env c s g =
     (case childBranchFor (ce_slug env) (cz_child c) of
        Inl _ \<Rightarrow> (g, Inl (CursorGitError None))
      | Inr branch \<Rightarrow>
          let ref = ''refs/heads/'' @ branch in
          (case refExists git ref g of
             (g1, None) \<Rightarrow> (g1, Inl (CursorGitError None))
           | (g1, Some False) \<Rightarrow> (g1, Inr s)
           | (g1, Some True) \<Rightarrow>
               (case isAncestor git (cz_tip c) ref g1 of
                  (g2, None) \<Rightarrow> (g2, Inl (CursorGitError None))
                | (g2, Some False) \<Rightarrow> (g2, Inl (Divergent (cz_child c) ClosedChildRewritten))
                | (g2, Some True) \<Rightarrow>
                    (case git_call git [''rev-list'', cz_tip c @ ''..'' @ ref] g2 of
                       (g3, postClosure) \<Rightarrow>
                         (case output_lines postClosure of
                            None \<Rightarrow> (g3, Inl (CursorGitError None))
                          | Some shas \<Rightarrow>
                              (case scan_commits git (ce_slug env) (ce_marker env) (cz_child c) shas
                                      \<lparr>cm_needsRepair = False, cm_allUnstamped = True, cm_foreignStamp = None\<rparr> g3 of
                                 (g4, None) \<Rightarrow> (g4, Inl (CursorGitError None))
                               | (g4, Some found) \<Rightarrow> (g4, Inr (note_repair env (cz_child c) found s))))))))"

definition position_after :: "int list \<Rightarrow> int \<Rightarrow> int option" where
  "position_after positions child =
     (case index_of child positions of
        None \<Rightarrow> None
      | Some i \<Rightarrow> if i + 1 < length positions then Some (positions ! (i + 1)) else None)"

text \<open>The branch of the next position, when it must exist: it is built on the closure.\<close>

definition scan_successor ::
  "'g git_runner \<Rightarrow> cursor_env \<Rightarrow> closure \<Rightarrow> cursor_scan \<Rightarrow> 'g \<Rightarrow> 'g \<times> (child_resolution + cursor_scan)" where
  "scan_successor git env c s g =
     (case position_after (ce_positions env) (cz_child c) of
        None \<Rightarrow> (g, Inr s)
      | Some successor \<Rightarrow>
          let isLeaf = (successor = last (ce_positions env)) in
          (case (if isLeaf then Inr (leafBranchFor (ce_slug env)) else childBranchFor (ce_slug env) successor) of
             Inl _ \<Rightarrow> (g, Inl (CursorGitError None))
           | Inr nextBranch \<Rightarrow>
               (case refExists git (''refs/heads/'' @ nextBranch) g of
                  (g1, None) \<Rightarrow> (g1, Inl (CursorGitError None))
                | (g1, Some nextExists) \<Rightarrow>
                    if \<not> nextExists \<and> \<not> isLeaf then (g1, Inr s)
                    else (case isAncestor git (resolveThroughMap (cz_tip c) (ce_rewrites env)) (''refs/heads/'' @ nextBranch) g1 of
                        (g2, None) \<Rightarrow> (g2, Inl (CursorGitError None))
                      | (g2, Some True) \<Rightarrow>
                          (g2, Inr (if isLeaf \<and> ce_lastClosed env = Some (cz_child c) \<and> map_of (ce_rewrites env) (cz_tip c) \<noteq> None
                                    then s\<lparr>cu_rewriteOnLeaf := True\<rparr> else s))
                      | (g2, Some False) \<Rightarrow>
                          if isLeaf then (g2, Inr (if \<not> ce_leafMoved env then s\<lparr>cu_leafMovePending := True\<rparr> else s))
                          else (g2, Inl (Divergent successor RangeNotAncestor))))))"

fun scan_closures ::
  "'g git_runner \<Rightarrow> cursor_env \<Rightarrow> closure list \<Rightarrow> cursor_scan \<Rightarrow> 'g \<Rightarrow> 'g \<times> (child_resolution + cursor_scan)" where
  "scan_closures git env [] s g = (g, Inr s)"
| "scan_closures git env (c # rest) s g =
     (case scan_branch git env c s g of
        (g1, Inl r) \<Rightarrow> (g1, Inl r)
      | (g1, Inr s1) \<Rightarrow>
          (case scan_successor git env c s1 g1 of
             (g2, Inl r) \<Rightarrow> (g2, Inl r)
           | (g2, Inr s2) \<Rightarrow> scan_closures git env rest s2 g2))"

text \<open>The closed child that comes last in the order of the positions.\<close>

definition last_closed :: "int list \<Rightarrow> closure list \<Rightarrow> int option" where
  "last_closed positions closed =
     foldl (\<lambda>best c. case best of
         None \<Rightarrow> Some (cz_child c)
       | Some b \<Rightarrow> if the (index_of b positions) < the (index_of (cz_child c) positions) then Some (cz_child c) else Some b)
       None closed"

definition active_position :: "int list \<Rightarrow> int list \<Rightarrow> int" where
  "active_position positions closed =
     (case filter (\<lambda>p. p \<notin> set closed) (butlast positions) of p # _ \<Rightarrow> p | [] \<Rightarrow> last positions)"

definition active_of :: "string \<Rightarrow> int list \<Rightarrow> int list \<Rightarrow> bool option \<Rightarrow> active_target option" where
  "active_of slug positions closed pending =
     (let child = active_position positions closed; isLeaf = (child = last positions) in
      case (if isLeaf then Inr (leafBranchFor slug) else childBranchFor slug child) of
        Inl _ \<Rightarrow> None
      | Inr branch \<Rightarrow>
          Some \<lparr>at_child = child, at_isLeaf = isLeaf, at_branch = branch,
                at_leafMovePending = (if isLeaf then pending else None),
                at_nextChild = position_after positions child, at_revalidating = None, at_routedRepair = None\<rparr>)"

definition with_routing :: "repair_marker option \<Rightarrow> queue_record option \<Rightarrow> active_target \<Rightarrow> active_target" where
  "with_routing marker queue a =
     a\<lparr>at_routedRepair := map_option (\<lambda>m. (mk_host m, mk_roundId m)) marker,
       at_revalidating := (case queue of
          Some q \<Rightarrow> (case qr_entries q of e # _ \<Rightarrow> Some (qe_child e, qr_generation q) | [] \<Rightarrow> None)
        | None \<Rightarrow> None)\<rparr>"

text \<open>The answer after the loop; a leaf that now carries the rewritten closure gets its marker.\<close>

definition conclude ::
  "'g git_runner \<Rightarrow> cursor_env \<Rightarrow> queue_record option \<Rightarrow> int list \<Rightarrow> cursor_scan \<Rightarrow> 'g \<Rightarrow> 'g \<times> child_resolution" where
  "conclude git env queue closed s g =
     (let moved = ce_leafMoved env; pending = cu_leafMovePending s in
      case active_of (ce_slug env) (ce_positions env) closed (if pending \<or> moved then Some pending else None) of
        None \<Rightarrow> (g, CursorGitError None)
      | Some a \<Rightarrow>
          if cu_repair s \<noteq> []
          then (g, RepairPendingChild (with_routing (ce_marker env) queue a)
                 \<lparr>rt_repairChildren = cu_repair s, rt_coOrigins = cu_coOrigins s, rt_foreignRounds = cu_foreignRounds s\<rparr>)
          else if at_isLeaf a \<and> \<not> moved \<and> \<not> pending \<and> cu_rewriteOnLeaf s
          then (case writeLeafMovedMarker git (ce_slug env) g of
              (g1, False) \<Rightarrow> (g1, CursorGitError None)
            | (g1, True) \<Rightarrow> (g1, ActiveChild (with_routing (ce_marker env) queue (a\<lparr>at_leafMovePending := Some False\<rparr>))))
          else (g, ActiveChild (with_routing (ce_marker env) queue a)))"

text \<open>The routing state of a stacked feature: the marker with its round, and the queue.\<close>

definition read_routing ::
  "(string \<Rightarrow> bool) \<Rightarrow> 'g git_runner \<Rightarrow> string \<Rightarrow> bool \<Rightarrow> 'g \<Rightarrow>
     'g \<times> (child_resolution + repair_marker option \<times> route_record option \<times> queue_record option)" where
  "read_routing is_date git slug routingOn g =
     (if \<not> routingOn then (g, Inr (None, None, None))
      else case readRepairMarker git slug g of
        (g1, repair) \<Rightarrow>
          (case readRevalidationQueue is_date git slug g1 of
             (g2, queue) \<Rightarrow>
               let q = (case queue of BlobRead _ x \<Rightarrow> Some x | _ \<Rightarrow> None) in
               (case (queue, repair) of
                  (BlobUnreadable _, _) \<Rightarrow> (g2, Inl (CursorGitError (Some (revalidationQueueRefFor slug))))
                | (_, BlobUnreadable _) \<Rightarrow> (g2, Inl (CursorGitError (Some (repairMarkerRefFor slug))))
                | (_, BlobAbsent) \<Rightarrow> (g2, Inr (None, None, q))
                | (_, BlobRead _ m) \<Rightarrow>
                    (case readRouteRecord is_date git slug (mk_roundId m) g2 of
                       (g3, BlobUnreadable _) \<Rightarrow> (g3, Inl (CursorGitError (Some (routeRecordRefFor slug (mk_roundId m)))))
                     | (g3, BlobAbsent) \<Rightarrow> (g3, Inr (Some m, None, q))
                     | (g3, BlobRead _ r) \<Rightarrow> (g3, Inr (Some m, Some r, q))))))"

definition carried_children :: "route_record option \<Rightarrow> int list" where
  "carried_children route =
     (case route of
        Some r \<Rightarrow> if rd_kind r = KOperator \<and> rd_phase r = ROpen
          then (case rd_operator r of Some os \<Rightarrow> map fst (os_carried os) | None \<Rightarrow> []) else []
      | None \<Rightarrow> [])"

definition initial_scan :: cursor_scan where
  "initial_scan =
     \<lparr>cu_repair = [], cu_coOrigins = [], cu_foreignRounds = [], cu_leafMovePending = False, cu_rewriteOnLeaf = False\<rparr>"

definition scan_stack ::
  "'g git_runner \<Rightarrow> cursor_env \<Rightarrow> queue_record option \<Rightarrow> closure list \<Rightarrow> 'g \<Rightarrow> 'g \<times> child_resolution" where
  "scan_stack git env queue closed g =
     (case scan_closures git env closed initial_scan g of
        (g1, Inl r) \<Rightarrow> (g1, r)
      | (g1, Inr s) \<Rightarrow> conclude git env queue (map cz_child closed) s g1)"

definition resolve_stack ::
  "'g git_runner \<Rightarrow> string \<Rightarrow> int list \<Rightarrow> rewrite_file \<Rightarrow> repair_marker option \<Rightarrow> route_record option \<Rightarrow> queue_record option \<Rightarrow>
     'g \<Rightarrow> 'g \<times> child_resolution" where
  "resolve_stack git slug positions rewriteFile marker route queue g =
     (case git_call git [''symbolic-ref'', ''-q'', ''HEAD''] g of
        (g1, symbolic) \<Rightarrow>
          (case exit_flag symbolic of
             None \<Rightarrow> (g1, CursorGitError None)
           | Some False \<Rightarrow> (g1, DetachedHead)
           | Some True \<Rightarrow>
               (case closedChildren git slug positions g1 of
                  (g2, None) \<Rightarrow> (g2, CursorGitError None)
                | (g2, Some closed) \<Rightarrow>
                    (case readRewriteMap rewriteFile of
                       None \<Rightarrow> (g2, CursorGitError None)
                     | Some rewrites \<Rightarrow>
                         (case hasLeafMovedMarker git slug g2 of
                            (g3, None) \<Rightarrow> (g3, CursorGitError None)
                          | (g3, Some leafMoved) \<Rightarrow>
                              scan_stack git
                                \<lparr>ce_slug = slug, ce_positions = positions, ce_rewrites = rewrites, ce_leafMoved = leafMoved,
                                 ce_marker = marker, ce_carried = carried_children route,
                                 ce_lastClosed = last_closed positions closed\<rparr> queue closed g3)))))"

record cursor_inputs =
  ci_topology :: topology_inputs
  ci_children :: dir_listing
  ci_hasGit :: bool
  ci_routing :: "bool option"
  ci_rewrites :: rewrite_file

definition eligible_stack :: "slice_topology \<Rightarrow> bool" where
  "eligible_stack t = (case t of TopologySliced s \<Rightarrow> st_eligibility s = StackEligible | _ \<Rightarrow> False)"

definition resolveActiveChild ::
  "(string \<Rightarrow> bool) \<Rightarrow> 'g git_runner \<Rightarrow> cursor_inputs \<Rightarrow> bool \<Rightarrow> string \<Rightarrow> 'g \<Rightarrow> 'g \<times> child_resolution" where
  "resolveActiveChild is_date git ci reuseDurable slug g =
     (case hasDurableChildState (ci_children ci) (ci_hasGit ci) git slug g of
        (g1, None) \<Rightarrow> (g1, CursorGitError None)
      | (g1, Some artifacts) \<Rightarrow>
          (case loadSliceTopology (ci_topology ci) (ci_children ci) (ci_hasGit ci) git slug
                  (if reuseDurable then Some (Some artifacts) else None) g1 of
             (g2, TopologyUnavailable failure) \<Rightarrow> (g2, if artifacts then TopologyFailed failure else NoChild)
           | (g2, topology) \<Rightarrow>
               let positions = positionsFromTopology topology in
               if positions = [] then (g2, NoChild)
               else if \<not> artifacts \<and> \<not> (2 \<le> length positions \<and> eligible_stack topology) then (g2, NoChild)
               else (case read_routing is_date git slug (artifacts \<and> routingSettingOn (ci_routing ci)) g2 of
                   (g3, Inl r) \<Rightarrow> (g3, r)
                 | (g3, Inr (marker, route, queue)) \<Rightarrow>
                     resolve_stack git slug positions (ci_rewrites ci) marker route queue g3)))"

section \<open>The base of a child\<close>

datatype child_base =
    BaseNone
  | BaseParent int string
  | BaseRoutedRepair int string
  | BaseRevalidation int string
  | BaseRevalidationFix int string
  | BaseParentMissing int string
  | BaseParentNotAncestor int string

definition resolveGitRef :: "'g git_runner \<Rightarrow> string \<Rightarrow> 'g \<Rightarrow> 'g \<times> string option" where
  "resolveGitRef git ref g = map_prod id answer_sha (git_call git [''rev-parse'', ''-q'', ''--verify'', ref] g)"

text \<open>The base of an entered host: the pin of its entry, while it is repairing.\<close>

definition entered_pin :: "route_record \<Rightarrow> int \<Rightarrow> string option" where
  "entered_pin r child =
     (case rd_entry r of
        Some e \<Rightarrow> if he_host e = child \<and> map_of (rd_hosts r) child = Some HRepairing then Some (he_pinnedBase e) else None
      | None \<Rightarrow> None)"

definition revalidation_base ::
  "(string \<Rightarrow> bool) \<Rightarrow> 'g git_runner \<Rightarrow> string \<Rightarrow> int \<Rightarrow> route_record \<Rightarrow> 'g \<Rightarrow> 'g \<times> child_base option" where
  "revalidation_base is_date git slug child r g =
     (case readRevalidationQueue is_date git slug g of
        (g1, queue) \<Rightarrow>
          let entry = (case queue of BlobRead _ q \<Rightarrow> find (\<lambda>e. qe_child e = child) (qr_entries q) | _ \<Rightarrow> None) in
          (case resolveGitRef git ''HEAD'' g1 of
             (g2, head) \<Rightarrow> (g2,
               if (case entry of Some e \<Rightarrow> head = Some (qe_closureSha e) | None \<Rightarrow> False)
               then Some (BaseRevalidation child (qe_newParent (the entry)))
               else case entered_pin r child of
                 Some pin \<Rightarrow> Some (BaseRevalidationFix child pin)
               | None \<Rightarrow> map_option (\<lambda>e. BaseRevalidation child (qe_newParent e)) entry)))"

definition routed_base ::
  "(string \<Rightarrow> bool) \<Rightarrow> 'g git_runner \<Rightarrow> string \<Rightarrow> int \<Rightarrow> 'g \<Rightarrow> 'g \<times> child_base option" where
  "routed_base is_date git slug child g =
     (case readRepairMarker git slug g of
        (g1, BlobRead _ m) \<Rightarrow>
          if mk_host m \<noteq> child then (g1, None)
          else (case readRouteRecord is_date git slug (mk_roundId m) g1 of
              (g2, BlobRead _ r) \<Rightarrow>
                if rd_kind r = KRevalidate then revalidation_base is_date git slug child r g2
                else (g2, map_option (BaseRoutedRepair child) (entered_pin r child))
            | (g2, _) \<Rightarrow> (g2, None))
      | (g1, _) \<Rightarrow> (g1, None))"

definition parent_base ::
  "'g git_runner \<Rightarrow> string \<Rightarrow> rewrite_file \<Rightarrow> int \<Rightarrow> 'g \<Rightarrow> 'g \<times> child_base" where
  "parent_base git slug rewriteFile parent g =
     (case childBranchFor slug parent of
        Inl _ \<Rightarrow> (g, BaseParentMissing parent (''feat/c'' @ int_str parent @ ''/'' @ slug))
      | Inr branch \<Rightarrow>
          (case git_call git [''rev-parse'', ''--verify'', closed_prefix slug @ int_str parent] g of
             (g1, closure) \<Rightarrow>
               if \<not> answer_ok closure \<or> js_trim (ga_stdout (the closure)) = [] then (g1, BaseParentMissing parent branch)
               else let closureSha = js_trim (ga_stdout (the closure)) in
                 (case refExists git (''refs/heads/'' @ branch) g1 of
                    (g2, branchExists) \<Rightarrow>
                      if branchExists \<noteq> Some True then (g2, BaseParentMissing parent branch)
                      else case readRewriteMap rewriteFile of
                        None \<Rightarrow> (g2, BaseParentNotAncestor parent closureSha)
                      | Some rewrites \<Rightarrow>
                          let sha = resolveThroughMap closureSha rewrites in
                          (case isAncestor git sha ''HEAD'' g2 of
                             (g3, ancestry) \<Rightarrow>
                               (g3, if ancestry = Some True then BaseParent parent sha else BaseParentNotAncestor parent sha)))))"

definition declared_parent :: "int list \<Rightarrow> int \<Rightarrow> int option" where
  "declared_parent positions child =
     (case index_of child positions of
        Some i \<Rightarrow> if i = 0 then None else Some (positions ! (i - 1))
      | None \<Rightarrow> if positions = [] \<and> child = 1 then None else parseChildId (RawInt (child - 1)))"

definition resolveChildBase ::
  "(string \<Rightarrow> bool) \<Rightarrow> 'g git_runner \<Rightarrow> cursor_inputs \<Rightarrow> string \<Rightarrow> int option \<Rightarrow> 'g \<Rightarrow> 'g \<times> child_base" where
  "resolveChildBase is_date git ci slug childOpt g =
     (case childOpt of
        None \<Rightarrow> (g, BaseNone)
      | Some child \<Rightarrow>
          (case loadSliceTopology (ci_topology ci) (ci_children ci) (ci_hasGit ci) git slug None g of
             (g1, topology) \<Rightarrow>
               let positions = positionsFromTopology topology in
               (case (if 1 < length positions \<and> routingSettingOn (ci_routing ci)
                      then routed_base is_date git slug child g1 else (g1, None)) of
                  (g2, Some base) \<Rightarrow> (g2, base)
                | (g2, None) \<Rightarrow>
                    (case declared_parent positions child of
                       None \<Rightarrow> (g2, BaseNone)
                     | Some parent \<Rightarrow> parent_base git slug (ci_rewrites ci) parent g2))))"

section \<open>Operator commands\<close>

definition current_branch :: "'g git_runner \<Rightarrow> 'g \<Rightarrow> 'g \<times> string option" where
  "current_branch git g =
     (case git_call git [''symbolic-ref'', ''-q'', ''--short'', ''HEAD''] g of
        (g1, head) \<Rightarrow> (g1, if answer_ok head then Some (js_trim (ga_stdout (the head))) else None))"

definition resolveActiveChildForCurrentFeature ::
  "(string \<Rightarrow> bool) \<Rightarrow> 'g git_runner \<Rightarrow> cursor_inputs \<Rightarrow> 'g \<Rightarrow> 'g \<times> child_resolution" where
  "resolveActiveChildForCurrentFeature is_date git ci g =
     (case current_branch git g of
        (g1, Some branch) \<Rightarrow>
          if branch = [] then (g1, NoChild)
          else (case featureSlugOf (parseFeatureBranch branch) of
              None \<Rightarrow> (g1, NoChild)
            | Some slug \<Rightarrow> resolveActiveChild is_date git ci False slug g1)
      | (g1, None) \<Rightarrow> (g1, NoChild))"

definition currentFeatureTopology :: "'g git_runner \<Rightarrow> cursor_inputs \<Rightarrow> 'g \<Rightarrow> 'g \<times> slice_topology option" where
  "currentFeatureTopology git ci g =
     (case current_branch git g of
        (g1, None) \<Rightarrow> (g1, None)
      | (g1, Some branch) \<Rightarrow>
          (case featureSlugOf (parseFeatureBranch branch) of
             None \<Rightarrow> (g1, None)
           | Some slug \<Rightarrow> map_prod id Some
               (loadSliceTopology (ci_topology ci) (ci_children ci) (ci_hasGit ci) git slug None g1)))"

definition sealed_positions :: "'g git_runner \<Rightarrow> cursor_inputs \<Rightarrow> 'g \<Rightarrow> 'g \<times> int list" where
  "sealed_positions git ci g =
     map_prod id (\<lambda>t. case t of Some topology \<Rightarrow> positionsFromTopology topology | None \<Rightarrow> []) (currentFeatureTopology git ci g)"

definition resolveSealedLeaf :: "'g git_runner \<Rightarrow> cursor_inputs \<Rightarrow> 'g \<Rightarrow> 'g \<times> int option" where
  "resolveSealedLeaf git ci g = map_prod id (\<lambda>ps. if ps = [] then None else Some (last ps)) (sealed_positions git ci g)"

definition resolveSealedFirst :: "'g git_runner \<Rightarrow> cursor_inputs \<Rightarrow> 'g \<Rightarrow> 'g \<times> int option" where
  "resolveSealedFirst git ci g = map_prod id (\<lambda>ps. if ps = [] then None else Some (hd ps)) (sealed_positions git ci g)"

end
