(* ===== verification/StackSamples.thy ===== *)
theory StackSamples
  imports ChildCursor
begin

text \<open>
  The samples on which the properties of plans and stacks are exercised, with what the models compute on
  them: three Markdown plans, a repository with a small stack, and a sealed topology.
\<close>

section \<open>Plans\<close>

definition plan_text :: "string list \<Rightarrow> string" where
  "plan_text ls = join [CHR 0x0A] ls"

definition sample_plan :: string where
  "sample_plan = plan_text
     [''## Slices'', ''| Slice | Title | Tasks |'', ''|---|---|---|'', ''| 1 | A | 1 |'', ''| 2 | B | 2 |'',
      ''### Task 1: x'', ''**Dependencies:** none'', ''### Task 2: y'', ''**Dependencies:** Task 1'']"

definition range_plan :: string where
  "range_plan = plan_text
     [''## Slices'', ''| Slice | Title | Tasks |'', ''|---|---|---|'', ''| 1 | A | 1-2 |'', ''| 2 | B | 3 |'',
      ''### Task 1-2: x'', ''**Dependencies:** Task 3'', ''### Task 3: y'', ''**Dependencies:** none'']"

lemma sample_valid:
  "validatePlanSlices sample_plan = SlicedPlan
     [\<lparr>ps_position = 1, ps_title = ''A'', ps_taskIds = [''1'']\<rparr>, \<lparr>ps_position = 2, ps_title = ''B'', ps_taskIds = [''2'']\<rparr>]"
  by code_simp

lemma range_valid:
  "validatePlanSlices range_plan = SlicedPlan
     [\<lparr>ps_position = 1, ps_title = ''A'', ps_taskIds = [''1-2'']\<rparr>, \<lparr>ps_position = 2, ps_title = ''B'', ps_taskIds = [''3'']\<rparr>]"
  by code_simp

lemma range_dependencies: "fst (parsePlanDependencyGraph range_plan) = [(''1'', [''3'']), (''2'', [''3'']), (''3'', [])]"
  by code_simp

lemma range_expanded: "expandTaskIds ''1-2'' = [''1'', ''2'']"
  by code_simp

definition story_plan :: string where
  "story_plan = plan_text
     [''### Task 1: x'', ''**Story:** Story s1 (first)'', ''### Task 2: y'', ''**Type:** refactor'', ''**Story:** cleanup'',
      ''### Task 3: z'', ''**Story:** s2'']"

definition story_slices :: "plan_slice list" where
  "story_slices = [\<lparr>ps_position = 1, ps_title = ''A'', ps_taskIds = [''1'', ''2'']\<rparr>, \<lparr>ps_position = 2, ps_title = ''B'', ps_taskIds = [''3'']\<rparr>]"

lemma story_owned: "deriveStoryOwnership story_plan story_slices (Some [''s1'', ''s2'']) = StoriesOwned [(''s1'', 1), (''s2'', 2)]"
  by code_simp

section \<open>A small stack\<close>

text \<open>
  Five commits: a default branch, two closed children on top of each other, the first with a repair
  past its closure, and the active leaf.
\<close>

definition stack_sha :: "char \<Rightarrow> string" where
  "stack_sha c = replicate 40 c"

definition stack_commits :: "string list" where
  "stack_commits = map stack_sha ''abcde''"

definition stack_above :: "(char \<times> string) list" where
  "stack_above = [(CHR ''a'', ''abcde''), (CHR ''b'', ''bcde''), (CHR ''c'', ''c''), (CHR ''d'', ''de''), (CHR ''e'', ''e'')]"

definition stack_anc :: "string \<Rightarrow> string \<Rightarrow> bool" where
  "stack_anc x y = list_ex (\<lambda>(c, ds). x = stack_sha c \<and> y \<in> set (map stack_sha ds)) stack_above"

definition stack_touched :: "string \<Rightarrow> string list" where
  "stack_touched c = (if c = stack_sha (CHR ''e'') then [''.docs/halted/demo.md''] else [''src/main.ts''])"

definition stack_refs :: "(string \<times> string) list" where
  "stack_refs = [(''refs/heads/feat/c1/demo'', stack_sha (CHR ''c'')), (''refs/heads/feat/c2/demo'', stack_sha (CHR ''d'')),
     (''refs/heads/feat/daemon-demo'', stack_sha (CHR ''e''))]"

definition lines_text :: "string list \<Rightarrow> string" where
  "lines_text ls = join [CHR 0x0A] ls"

definition past :: "string \<Rightarrow> string \<Rightarrow> string list" where
  "past a b = filter (\<lambda>c. stack_anc c b \<and> \<not> stack_anc c a) stack_commits"

text \<open>The last revision of a question may be named by a reference.\<close>

definition stack_commit :: "string \<Rightarrow> string" where
  "stack_commit r = (case map_of stack_refs r of Some s \<Rightarrow> s | None \<Rightarrow> r)"

definition stack_closures :: string where
  "stack_closures = lines_text
     [''refs/conductor/demo/closed/c1 '' @ stack_sha (CHR ''b''), ''refs/conductor/demo/closed/c2 '' @ stack_sha (CHR ''d'')]"

definition stack_range :: "string \<Rightarrow> git_answer option" where
  "stack_range r =
     (let a = takeWhile (\<lambda>c. c \<noteq> CHR ''.'') r; b = stack_commit (drop (length a + 2) r) in
      if a \<in> set stack_commits \<and> b \<in> set stack_commits then tiny_answer 0 (lines_text (past a b)) None else None)"

definition stack_git :: "unit git_runner" where
  "stack_git g args inp =
     (g, case args of
        [cmd, _, a, b] \<Rightarrow>
          if cmd = ''show-ref'' then tiny_answer (if map_of stack_refs b = None then 1 else 0) [] None
          else if a \<in> set stack_commits \<and> stack_commit b \<in> set stack_commits
          then tiny_answer (if stack_anc a (stack_commit b) then 0 else 1) [] None
          else None
      | [cmd, _, _, _, c] \<Rightarrow> if cmd = ''diff-tree'' then tiny_answer 0 (lines_text (stack_touched c)) None else None
      | [cmd, a, b] \<Rightarrow>
          if cmd = ''for-each-ref'' then tiny_answer 0 stack_closures None
          else if cmd = ''symbolic-ref'' then tiny_answer 0 ''refs/heads/feat/daemon-demo'' None
          else if cmd = ''rev-parse'' then (case map_of stack_refs b of Some s \<Rightarrow> tiny_answer 0 s None | None \<Rightarrow> tiny_answer 128 [] None)
          else if stack_anc a b then tiny_answer 0 a None else if stack_anc b a then tiny_answer 0 b None else None
      | [cmd, r] \<Rightarrow> stack_range r
      | _ \<Rightarrow> None)"

definition stack_options :: plan_options where
  "stack_options = \<lparr>po_slug = ''demo'', po_oldDefaultTip = stack_sha (CHR ''a''), po_cause = FeatureRepair,
     po_active = \<lparr>ac_child = 3, ac_branchRef = ''refs/heads/feat/daemon-demo'', ac_isLeaf = True\<rparr>, po_unenteredLeaf = None\<rparr>"

definition stack_plan :: restack_plan where
  "stack_plan = Planned
     [\<lparr>cr_child = 1, cr_oldParent = stack_sha (CHR ''a''), cr_oldTip = stack_sha (CHR ''c''), cr_kind = RangeClosed\<rparr>,
      \<lparr>cr_child = 2, cr_oldParent = stack_sha (CHR ''b''), cr_oldTip = stack_sha (CHR ''d''), cr_kind = RangeClosed\<rparr>,
      \<lparr>cr_child = 3, cr_oldParent = stack_sha (CHR ''d''), cr_oldTip = stack_sha (CHR ''e''), cr_kind = RangeLeafActive\<rparr>] [1]"

lemma stack_planned: "planRestackRanges stack_git stack_options () = ((), stack_plan)"
  by code_simp

definition stack_target :: active_target where
  "stack_target = \<lparr>at_child = 3, at_isLeaf = True, at_branch = ''feat/daemon-demo'', at_leafMovePending = None,
     at_nextChild = None, at_revalidating = None, at_routedRepair = None\<rparr>"

lemma stack_resolved:
  "resolve_stack stack_git ''demo'' [1, 2, 3] RewritesMissing None None None () =
     ((), RepairPendingChild stack_target \<lparr>rt_repairChildren = [1], rt_coOrigins = [], rt_foreignRounds = []\<rparr>)"
  by code_simp

lemma stack_declared:
  "case readClosedChildren stack_git ''demo'' () of (_, Some cs) \<Rightarrow> cl_child ` set cs \<subseteq> set [1, 2, 3] | _ \<Rightarrow> True"
  by code_simp

section \<open>A sealed topology\<close>

definition sealed_inputs :: topology_inputs where
  "sealed_inputs = \<lparr>ti_plan = Some sample_plan, ti_stories = Inr [], ti_enabled = None, ti_tier = Some TierM, ti_approved = True,
     ti_maxSlices = Some 3, ti_registry = None, ti_complexityPath = ''.docs/complexity/demo.md''\<rparr>"

definition sealed_git :: "unit git_runner" where
  "sealed_git g args inp = (g, tiny_answer 0 [] (Some (JArr [JNum 1, JNum 2])))"

definition sealed_topology :: sliced_topology where
  "sealed_topology = \<lparr>st_positions = [1, 2], st_taskSlices = [(''1'', 1), (''2'', 2)], st_titles = [''A'', ''B''], st_ownership = [],
     st_eligibility = StackEligible\<rparr>"

lemma sealed_loaded:
  "loadSliceTopology sealed_inputs DirMissing True sealed_git ''demo'' (Some (Some True)) () = ((), TopologySliced sealed_topology)"
  by code_simp

end
