(* ===== verification/PlanProps.thy ===== *)
theory PlanProps
  imports StackSamples
begin

text \<open>
  What the plan of a restack promises over a commit history, proved phase by phase with a
  precondition-free Hoare rule: every way a phase stops is justified, every value it hands on has its
  postcondition.
\<close>

section \<open>What git documents of a history\<close>

text \<open>
  Commits are immutable, so ancestry and the paths a commit touches are fixed; \<open>anc a b\<close> says that
  \<open>a\<close> is \<open>b\<close> or one of its ancestors, \<open>touched c\<close> are the paths \<^verbatim>\<open>diff-tree\<close> lists for \<open>c\<close>.
\<close>

definition full_sha :: "string \<Rightarrow> bool" where
  "full_sha s = (parseCommitSha s \<noteq> None)"

definition ancestry_known :: "'g git_runner \<Rightarrow> (string \<Rightarrow> string \<Rightarrow> bool) \<Rightarrow> bool" where
  "ancestry_known git anc =
     (\<forall>g a b g' x. full_sha a \<and> full_sha b \<and> git_call git [''merge-base'', ''--is-ancestor'', a, b] g = (g', Some x) \<longrightarrow>
        (ga_exitCode x = 0 \<longrightarrow> anc a b) \<and> (ga_exitCode x = 1 \<longrightarrow> \<not> anc a b))"

definition merge_base_known :: "'g git_runner \<Rightarrow> (string \<Rightarrow> string \<Rightarrow> bool) \<Rightarrow> bool" where
  "merge_base_known git anc =
     (\<forall>g a b g' x. full_sha a \<and> full_sha b \<and> git_call git [''merge-base'', a, b] g = (g', Some x) \<and> ga_exitCode x = 0 \<longrightarrow>
        anc (js_trim (ga_stdout x)) a \<and> anc (js_trim (ga_stdout x)) b)"

definition revisions_known :: "'g git_runner \<Rightarrow> (string \<Rightarrow> string \<Rightarrow> bool) \<Rightarrow> bool" where
  "revisions_known git anc =
     (\<forall>g a b g' x. full_sha a \<and> full_sha b \<and> git_call git [''rev-list'', a @ ''..'' @ b] g = (g', Some x) \<and> ga_exitCode x = 0 \<longrightarrow>
        set (the (output_lines (Some x))) = {c. anc c b \<and> \<not> anc c a})"

definition changes_known :: "'g git_runner \<Rightarrow> (string \<Rightarrow> string list) \<Rightarrow> bool" where
  "changes_known git touched =
     (\<forall>g c g' x. full_sha c \<and> git_call git [''diff-tree'', ''--no-commit-id'', ''--name-only'', ''-r'', c] g = (g', Some x) \<and>
        ga_exitCode x = 0 \<longrightarrow> the (output_lines (Some x)) = touched c)"

definition commit_history :: "'g git_runner \<Rightarrow> (string \<Rightarrow> string \<Rightarrow> bool) \<Rightarrow> (string \<Rightarrow> string list) \<Rightarrow> bool" where
  "commit_history git anc touched =
     (ancestry_known git anc \<and> merge_base_known git anc \<and> revisions_known git anc \<and> changes_known git touched)"

section \<open>The specification\<close>

text \<open>A closed child carries appended work when a commit past its closure is more than a halt record.\<close>

definition carries_work :: "(string \<Rightarrow> string \<Rightarrow> bool) \<Rightarrow> (string \<Rightarrow> string list) \<Rightarrow> string \<Rightarrow> closed_child \<Rightarrow> bool" where
  "carries_work anc touched slug e =
     (\<exists>c. anc c (cl_branchTip e) \<and> \<not> anc c (cl_closureTip e) \<and> \<not> halt_only slug (touched c))"

text \<open>The range of a closed child: from its predecessor to its closure, or to its branch when it is originating.\<close>

definition range_of :: "int list \<Rightarrow> string \<Rightarrow> closed_child \<Rightarrow> child_range" where
  "range_of originating oldParent e =
     \<lparr>cr_child = cl_child e, cr_oldParent = oldParent,
      cr_oldTip = (if cl_child e \<in> set originating then cl_branchTip e else cl_closureTip e),
      cr_kind = RangeClosed\<rparr>"

definition range_valid :: "(string \<Rightarrow> string \<Rightarrow> bool) \<Rightarrow> child_range \<Rightarrow> bool" where
  "range_valid anc r = anc (cr_oldParent r) (cr_oldTip r)"

text \<open>What the repository answered about a reference at some moment of the planning.\<close>

definition answered_tip :: "'g git_runner \<Rightarrow> string \<Rightarrow> string \<Rightarrow> bool" where
  "answered_tip git ref tip = (\<exists>h h'. resolveTip git ref h = (h', Some tip))"

definition answered_absent :: "'g git_runner \<Rightarrow> string \<Rightarrow> bool" where
  "answered_absent git ref = (\<exists>h h'. refExists git ref h = (h', Some False))"

definition question_failed :: "'g git_runner \<Rightarrow> string \<Rightarrow> bool" where
  "question_failed git slug =
     ((\<exists>a b h. snd (isAncestor git a b h) = None) \<or> (\<exists>a b h. snd (mergeBase git a b h) = None) \<or>
      (\<exists>r h. snd (resolveTip git r h) = None) \<or> (\<exists>r h. snd (refExists git r h) = None) \<or>
      (\<exists>a b h. snd (hasOnlyHaltRecordsPastClosure git a b slug h) = None))"

text \<open>Where the range of a closed child starts: at its predecessor's closure, the first at a common ancestor with the default branch.\<close>

definition starts_at :: "(string \<Rightarrow> string \<Rightarrow> bool) \<Rightarrow> plan_options \<Rightarrow> closed_child list \<Rightarrow> closed_child \<Rightarrow> string \<Rightarrow> bool" where
  "starts_at anc opts older e base =
     (if older = [] then anc base (po_oldDefaultTip opts) \<and> anc base (cl_branchTip e) else base = cl_closureTip (last older))"

text \<open>
  One range of the active child, on its predecessor or on a common ancestor with the default branch; none only
  for a child that is closed or without a branch.
\<close>

definition active_ok ::
  "'g git_runner \<Rightarrow> (string \<Rightarrow> string \<Rightarrow> bool) \<Rightarrow> plan_options \<Rightarrow> closed_child list \<Rightarrow> child_range list \<Rightarrow> bool" where
  "active_ok git anc opts closed rs =
     (case rs of
        [] \<Rightarrow> ac_child (po_active opts) \<in> cl_child ` set closed \<or> answered_absent git (ac_branchRef (po_active opts))
      | [r] \<Rightarrow> cr_child r = ac_child (po_active opts) \<and> cr_child r \<notin> cl_child ` set closed \<and> range_valid anc r \<and>
              answered_tip git (ac_branchRef (po_active opts)) (cr_oldTip r) \<and>
              cr_kind r = (if ac_isLeaf (po_active opts) then RangeLeafActive else RangeActive) \<and>
              (case last_below closed (cr_child r) of
                 Some closure \<Rightarrow> cr_oldParent r = closure
               | None \<Rightarrow> anc (cr_oldParent r) (po_oldDefaultTip opts))
      | _ \<Rightarrow> False)"

text \<open>
  One empty range of a leaf that was not entered, strictly inside a range that is replayed; none only for a leaf
  that is active, not named, without a branch, or outside every range.
\<close>

definition strictly_inside :: "(string \<Rightarrow> string \<Rightarrow> bool) \<Rightarrow> string \<Rightarrow> child_range \<Rightarrow> bool" where
  "strictly_inside anc tip q = (tip \<noteq> cr_oldParent q \<and> anc (cr_oldParent q) tip \<and> anc tip (cr_oldTip q))"

definition leaf_ok ::
  "'g git_runner \<Rightarrow> (string \<Rightarrow> string \<Rightarrow> bool) \<Rightarrow> plan_options \<Rightarrow> child_range list \<Rightarrow> child_range list \<Rightarrow> bool" where
  "leaf_ok git anc opts ranges rs =
     (case rs of
        [] \<Rightarrow> ac_isLeaf (po_active opts) \<or>
             (case po_unenteredLeaf opts of
                None \<Rightarrow> True
              | Some (child, ref) \<Rightarrow> answered_absent git ref \<or>
                  (\<exists>tip. answered_tip git ref tip \<and> \<not> list_ex (strictly_inside anc tip) ranges))
      | [r] \<Rightarrow> (\<exists>ref. po_unenteredLeaf opts = Some (cr_child r, ref) \<and> answered_tip git ref (cr_oldTip r)) \<and>
              \<not> ac_isLeaf (po_active opts) \<and>
              cr_oldParent r = cr_oldTip r \<and> cr_kind r = RangeLeafUnentered \<and>
              list_ex (strictly_inside anc (cr_oldTip r)) ranges
      | _ \<Rightarrow> False)"

definition plan_justified ::
  "'g git_runner \<Rightarrow> (string \<Rightarrow> string \<Rightarrow> bool) \<Rightarrow> (string \<Rightarrow> string list) \<Rightarrow> plan_options \<Rightarrow> closed_child list \<Rightarrow> restack_plan \<Rightarrow> bool" where
  "plan_justified git anc touched opts closed plan =
     (let works = carries_work anc touched (po_slug opts); repairs = map cl_child (filter works closed) in
      case plan of
        Planned ranges originating \<Rightarrow>
          list_all (\<lambda>e. anc (cl_closureTip e) (cl_branchTip e)) closed \<and>
          originating = repairs \<and>
          (originating = [] \<or> po_cause opts = FeatureRepair) \<and>
          (\<exists>base active leaf.
             let replayed = map2 (range_of originating) (base # map cl_closureTip closed) closed in
             ranges = replayed @ active @ leaf \<and> list_all (range_valid anc) replayed \<and>
             (case closed of [] \<Rightarrow> True | e # _ \<Rightarrow> starts_at anc opts [] e base) \<and>
             active_ok git anc opts closed active \<and> leaf_ok git anc opts (replayed @ active) leaf)
      | PlanRefused ClosedChildRewritten child \<Rightarrow>
          \<exists>e. e \<in> set closed \<and> cl_child e = child \<and> \<not> anc (cl_closureTip e) (cl_branchTip e)
      | PlanRefused RangeNotAncestor child \<Rightarrow>
          (\<exists>older e younger base. closed = older @ e # younger \<and> cl_child e = child \<and> starts_at anc opts older e base \<and>
             \<not> range_valid anc (range_of repairs base e)) \<or>
          (child = ac_child (po_active opts) \<and> child \<notin> cl_child ` set closed \<and>
           (\<exists>base tip. last_below closed child = Some base \<and> answered_tip git (ac_branchRef (po_active opts)) tip \<and> \<not> anc base tip))
      | RepairPending child \<Rightarrow>
          po_cause opts \<noteq> FeatureRepair \<and>
          (\<exists>older e younger. closed = older @ e # younger \<and> cl_child e = child \<and> works e \<and> \<not> list_ex works older)
      | PlanUnavailable _ \<Rightarrow> question_failed git (po_slug opts))"

section \<open>Phases that keep their promise\<close>

definition phase_ok :: "(restack_plan \<Rightarrow> bool) \<Rightarrow> ('a \<Rightarrow> bool) \<Rightarrow> ('g, 'a) plan_phase \<Rightarrow> bool" where
  "phase_ok J Q m = (\<forall>g. case m g of (_, Inl p) \<Rightarrow> J p | (_, Inr x) \<Rightarrow> Q x)"

lemma phase_ok_value [simp]: "phase_ok J Q (phase_value x) = Q x"
  by (simp add: phase_ok_def phase_value_def)

lemma phase_ok_stop [simp]: "phase_ok J Q (phase_stop p) = J p"
  by (simp add: phase_ok_def phase_stop_def)

lemma phase_ok_then:
  assumes "phase_ok J R m" "\<And>x. R x \<Longrightarrow> phase_ok J Q (f x)"
  shows "phase_ok J Q (phase_then m f)"
  unfolding phase_ok_def
proof
  fix g
  show "case phase_then m f g of (_, Inl p) \<Rightarrow> J p | (_, Inr x) \<Rightarrow> Q x"
  proof (cases "m g")
    case (Pair g1 r)
    then show ?thesis
    proof (cases r)
      case (Inl p)
      with Pair assms(1) show ?thesis by (auto simp: phase_ok_def phase_then_def dest: spec [of _ g])
    next
      case (Inr x)
      with Pair assms(1) have "R x" by (auto simp: phase_ok_def dest: spec [of _ g])
      with assms(2) Pair Inr show ?thesis by (auto simp: phase_ok_def phase_then_def)
    qed
  qed
qed

lemma phase_ok_need:
  "(\<And>g g1. m g = (g1, None) \<Longrightarrow> J (PlanUnavailable d)) \<Longrightarrow> (\<And>g g1 x. m g = (g1, Some x) \<Longrightarrow> Q x) \<Longrightarrow> phase_ok J Q (need d m)"
  by (auto simp: phase_ok_def need_def split: prod.splits option.splits)

lemma phase_ok_mono: "phase_ok J Q m \<Longrightarrow> (\<And>x. Q x \<Longrightarrow> Q' x) \<Longrightarrow> phase_ok J Q' m"
  by (auto simp: phase_ok_def split: prod.splits sum.splits)

section \<open>Answers over a history\<close>

lemma answer_sha_full: "answer_sha a = Some s \<Longrightarrow> full_sha s"
  by (auto simp: answer_sha_def full_sha_def parseCommitSha_def split: if_splits)

lemma exit_flag_iff: "exit_flag a = Some b \<longleftrightarrow> (\<exists>x. a = Some x \<and> ((b \<and> ga_exitCode x = 0) \<or> (\<not> b \<and> ga_exitCode x = 1)))"
  by (auto simp: exit_flag_def split: option.splits if_splits)

lemma answer_ok_iff: "answer_ok a \<longleftrightarrow> (\<exists>x. a = Some x \<and> ga_exitCode x = 0)"
  by (auto simp: answer_ok_def split: option.splits)

lemma isAncestor_law:
  assumes "commit_history git anc touched" "full_sha a" "full_sha b" "isAncestor git a b g = (g1, Some x)"
  shows "x = anc a b"
proof -
  obtain y where y: "git_call git [''merge-base'', ''--is-ancestor'', a, b] g = (g1, Some y)"
    and x: "(x \<and> ga_exitCode y = 0) \<or> (\<not> x \<and> ga_exitCode y = 1)"
    using assms(4) by (cases "git_call git [''merge-base'', ''--is-ancestor'', a, b] g") (auto simp: isAncestor_def exit_flag_iff)
  have "(ga_exitCode y = 0 \<longrightarrow> anc a b) \<and> (ga_exitCode y = 1 \<longrightarrow> \<not> anc a b)"
    using assms(1-3) y unfolding commit_history_def ancestry_known_def by blast
  with x show ?thesis by auto
qed

lemma mergeBase_law:
  assumes "commit_history git anc touched" "full_sha a" "full_sha b" "mergeBase git a b g = (g1, Some m)"
  shows "anc m a \<and> anc m b \<and> full_sha m"
proof -
  obtain y where y: "git_call git [''merge-base'', a, b] g = (g1, y)" and a: "answer_sha y = Some m"
    using assms(4) by (cases "git_call git [''merge-base'', a, b] g") (auto simp: mergeBase_def)
  from a obtain z where z: "y = Some z" "ga_exitCode z = 0" "m = js_trim (ga_stdout z)"
    by (auto simp: answer_sha_def answer_ok_iff split: if_splits dest: commit_sha_trim)
  have "anc (js_trim (ga_stdout z)) a \<and> anc (js_trim (ga_stdout z)) b"
    using assms(1-3) y z(1,2) unfolding commit_history_def merge_base_known_def by blast
  with z(3) answer_sha_full [OF a] show ?thesis by simp
qed

lemma halt_record_law:
  assumes "commit_history git anc touched" "full_sha c" "isHaltRecordOnly git c slug g = (g1, Some b)"
  shows "b = halt_only slug (touched c)"
proof -
  let ?args = "[''diff-tree'', ''--no-commit-id'', ''--name-only'', ''-r'', c]"
  obtain y where y: "git_call git ?args g = (g1, y)" using assms(3) by (cases "git_call git ?args g") (auto simp: isHaltRecordOnly_def)
  with assms(3) obtain ps where ps: "output_lines y = Some ps" "b = halt_only slug ps" by (auto simp: isHaltRecordOnly_def)
  then obtain z where z: "y = Some z" "ga_exitCode z = 0" by (auto simp: output_lines_def answer_ok_iff split: if_splits)
  have "the (output_lines (Some z)) = touched c" using assms(1,2) y z unfolding commit_history_def changes_known_def by blast
  with ps z show ?thesis by simp
qed

lemma all_halt_records_law:
  assumes "commit_history git anc touched" "all_halt_records git slug cs g = (g1, Some b)"
  shows "b = list_all (\<lambda>c. halt_only slug (touched c)) cs"
  using assms(2)
proof (induction cs arbitrary: g)
  case (Cons c cs)
  then obtain h g2 where c: "parseCommitSha c = Some c" "isHaltRecordOnly git c slug g = (g2, Some h)"
    and r: "if h then all_halt_records git slug cs g2 = (g1, Some b) else b = False"
    by (auto simp: parseCommitSha_def split: option.splits prod.splits if_splits)
  have "full_sha c" using c(1) by (simp add: full_sha_def)
  from halt_record_law [OF assms(1) this c(2)] Cons.IH r show ?case by (auto split: if_splits)
qed simp

lemma past_closure_law:
  assumes "commit_history git anc touched" "full_sha (cl_closureTip e)" "full_sha (cl_branchTip e)"
    and "hasOnlyHaltRecordsPastClosure git (cl_closureTip e) (cl_branchTip e) slug g = (g1, Some b)"
  shows "b \<longleftrightarrow> \<not> carries_work anc touched slug e"
proof -
  let ?args = "[''rev-list'', cl_closureTip e @ ''..'' @ cl_branchTip e]"
  obtain g2 y cs where y: "git_call git ?args g = (g2, y)" "output_lines y = Some cs" "all_halt_records git slug cs g2 = (g1, Some b)"
    using assms(4) by (auto simp: hasOnlyHaltRecordsPastClosure_def split: prod.splits option.splits)
  then obtain z where z: "y = Some z" "ga_exitCode z = 0" by (auto simp: output_lines_def answer_ok_iff split: if_splits)
  have "set (the (output_lines (Some z))) = {c. anc c (cl_branchTip e) \<and> \<not> anc c (cl_closureTip e)}"
    using assms(1-3) y(1) z unfolding commit_history_def revisions_known_def by blast
  then have "set cs = {c. anc c (cl_branchTip e) \<and> \<not> anc c (cl_closureTip e)}" using y(2) z(1) by simp
  with all_halt_records_law [OF assms(1) y(3)] show ?thesis by (auto simp: carries_work_def list_all_iff)
qed

lemma resolveTip_full: "resolveTip git r g = (g1, Some s) \<Longrightarrow> full_sha s"
  by (cases "git_call git [''rev-parse'', ''--verify'', r] g") (auto simp: resolveTip_def dest: answer_sha_full)

definition full_closed :: "closed_child \<Rightarrow> bool" where
  "full_closed e = (full_sha (cl_closureTip e) \<and> full_sha (cl_branchTip e))"

lemma read_closed_full: "read_closed git slug ls g = (g1, Some cs) \<Longrightarrow> list_all full_closed cs"
proof (induction ls arbitrary: g g1 cs)
  case (Cons l ls)
  have sha: "parseCommitSha s = Some t \<Longrightarrow> full_sha t" for s t by (auto simp: full_sha_def parseCommitSha_def split: if_splits)
  from Cons.prems show ?case
    by (auto simp: Let_def full_closed_def split: list.splits if_splits option.splits prod.splits
        dest!: Cons.IH dest: resolveTip_full sha)
qed simp

lemma map_prod_Some: "map_prod id (map_option f) p = (a, Some b) \<longleftrightarrow> (\<exists>c. p = (a, Some c) \<and> b = f c)"
  by (cases p) auto

lemma closed_full:
  assumes "readClosedChildren git slug g = (g1, Some cs)"
  shows "list_all full_closed cs"
proof -
  obtain ls h cs' where r: "read_closed git slug ls h = (g1, Some cs')" and cs: "cs = sort_key cl_child cs'"
    using assms by (auto simp: readClosedChildren_def map_prod_Some split: prod.splits if_splits)
  from read_closed_full [OF r] cs show ?thesis by (simp add: list_all_iff)
qed

section \<open>The phases\<close>

definition full_range :: "child_range \<Rightarrow> bool" where
  "full_range r = (full_sha (cr_oldParent r) \<and> full_sha (cr_oldTip r))"

text \<open>A question without an answer justifies that the plan is unavailable.\<close>

lemma unanswered:
  "isAncestor git a b g = (g1, None) \<Longrightarrow> plan_justified git anc touched opts closed (PlanUnavailable d)"
  "mergeBase git a b g = (g1, None) \<Longrightarrow> plan_justified git anc touched opts closed (PlanUnavailable d)"
  "resolveTip git r g = (g1, None) \<Longrightarrow> plan_justified git anc touched opts closed (PlanUnavailable d)"
  "refExists git r g = (g1, None) \<Longrightarrow> plan_justified git anc touched opts closed (PlanUnavailable d)"
  "hasOnlyHaltRecordsPastClosure git a b (po_slug opts) g = (g1, None) \<Longrightarrow>
     plan_justified git anc touched opts closed (PlanUnavailable d)"
  unfolding plan_justified_def question_failed_def Let_def restack_plan.case by (metis snd_conv)+

lemma closures_ok:
  assumes "commit_history git anc touched" "list_all full_closed closed"
  shows "set es \<subseteq> set closed \<Longrightarrow> phase_ok (plan_justified git anc touched opts closed)
    (\<lambda>_. list_all (\<lambda>e. anc (cl_closureTip e) (cl_branchTip e)) es) (check_closures git es)"
proof (induction es)
  case (Cons e es)
  have f: "full_closed e" using Cons.prems assms(2) by (auto simp: list_all_iff)
  have "phase_ok (plan_justified git anc touched opts closed) (\<lambda>x. x = anc (cl_closureTip e) (cl_branchTip e))
      (need d (isAncestor git (cl_closureTip e) (cl_branchTip e)))" for d
    using isAncestor_law [OF assms(1)] f by (intro phase_ok_need) (auto simp: full_closed_def intro: unanswered)
  then show ?case unfolding check_closures.simps
  proof (rule phase_ok_then)
    fix x assume x: "x = anc (cl_closureTip e) (cl_branchTip e)"
    show "phase_ok (plan_justified git anc touched opts closed) (\<lambda>_. list_all (\<lambda>e. anc (cl_closureTip e) (cl_branchTip e)) (e # es))
        (if \<not> x then phase_stop (PlanRefused ClosedChildRewritten (cl_child e)) else check_closures git es)"
    proof (cases x)
      case True
      with x Cons show ?thesis by (auto elim!: phase_ok_mono)
    next
      case False
      with x Cons.prems show ?thesis by (auto simp: plan_justified_def Let_def)
    qed
  qed
qed simp

lemma originating_ok:
  assumes "commit_history git anc touched" "list_all full_closed closed"
  shows "closed = older @ es \<Longrightarrow> po_cause opts = FeatureRepair \<or> \<not> list_ex (carries_work anc touched (po_slug opts)) older \<Longrightarrow>
    phase_ok (plan_justified git anc touched opts closed)
      (\<lambda>os. os = map cl_child (filter (carries_work anc touched (po_slug opts)) es) \<and> (os = [] \<or> po_cause opts = FeatureRepair))
      (find_originating git (po_slug opts) (po_cause opts) es)"
proof (induction es arbitrary: older)
  case (Cons e es)
  let ?w = "carries_work anc touched (po_slug opts)" and ?J = "plan_justified git anc touched opts closed"
  let ?Q = "\<lambda>es os. os = map cl_child (filter ?w es) \<and> (os = [] \<or> po_cause opts = FeatureRepair)"
  have f: "full_closed e" using Cons.prems(1) assms(2) by simp
  have idle: "phase_ok ?J (?Q (e # es)) (find_originating git (po_slug opts) (po_cause opts) es)" if "\<not> ?w e"
    using Cons.IH [of "older @ [e]"] Cons.prems that by simp
  have ask: "phase_ok ?J (\<lambda>h. h \<longleftrightarrow> \<not> ?w e)
      (need d (hasOnlyHaltRecordsPastClosure git (cl_closureTip e) (cl_branchTip e) (po_slug opts)))" for d
    using past_closure_law [OF assms(1)] f by (intro phase_ok_need) (auto simp: full_closed_def intro: unanswered)
  show ?case
  proof (cases "cl_branchTip e = cl_closureTip e")
    case True
    then have "\<not> ?w e" by (auto simp: carries_work_def)
    with idle True show ?thesis by simp
  next
    case False
    have work: "phase_ok ?J (?Q (e # es)) (phase_then (find_originating git (po_slug opts) (po_cause opts) es)
        (\<lambda>os. phase_value (cl_child e # os)))" if "?w e" "po_cause opts = FeatureRepair"
      by (rule phase_ok_then, rule Cons.IH [of "older @ [e]"]) (use Cons.prems that in auto)
    have stop: "?J (RepairPending (cl_child e))" if "?w e" "po_cause opts \<noteq> FeatureRepair"
      using that Cons.prems by (auto simp: plan_justified_def Let_def)
    show ?thesis unfolding find_originating.simps if_not_P [OF False]
      by (rule phase_ok_then [OF ask], cases "?w e"; cases "po_cause opts = FeatureRepair")
         (use idle work stop in simp_all)
  qed
qed simp

lemma ranged_ok:
  assumes "commit_history git anc touched" "full_sha oldParent" "full_sha oldTip"
    and "\<not> anc oldParent oldTip \<Longrightarrow> plan_justified git anc touched opts closed (PlanRefused RangeNotAncestor child)"
  shows "phase_ok (plan_justified git anc touched opts closed)
    (\<lambda>r. r = \<lparr>cr_child = child, cr_oldParent = oldParent, cr_oldTip = oldTip, cr_kind = kind\<rparr> \<and> range_valid anc r \<and> full_range r)
    (ranged git child oldParent oldTip kind)"
proof -
  have "phase_ok (plan_justified git anc touched opts closed) (\<lambda>x. x = anc oldParent oldTip) (need d (isAncestor git oldParent oldTip))" for d
    using isAncestor_law [OF assms(1-3)] by (intro phase_ok_need) (auto intro: unanswered)
  then show ?thesis unfolding ranged_def using assms(2-4)
    by (auto intro!: phase_ok_then simp: range_valid_def full_range_def)
qed

lemma old_parent_ok:
  assumes "commit_history git anc touched" "full_sha tip" "full_sha (po_oldDefaultTip opts)" "case previous of Some c \<Rightarrow> full_sha c | None \<Rightarrow> True"
  shows "phase_ok (plan_justified git anc touched opts closed)
    (\<lambda>b. full_sha b \<and> (case previous of Some c \<Rightarrow> b = c | None \<Rightarrow> anc b (po_oldDefaultTip opts) \<and> anc b tip))
    (need d (old_parent git previous tip (po_oldDefaultTip opts)))"
  using mergeBase_law [OF assms(1-3)] assms(4)
  by (intro phase_ok_need) (auto simp: old_parent_def intro: unanswered split: option.splits)

text \<open>The closure the next closed child starts at.\<close>

definition closure_before :: "closed_child list \<Rightarrow> string option" where
  "closure_before older = (if older = [] then None else Some (cl_closureTip (last older)))"

lemma closed_ranges_ok:
  assumes "commit_history git anc touched" "list_all full_closed closed" "full_sha (po_oldDefaultTip opts)"
    and "originating = map cl_child (filter (carries_work anc touched (po_slug opts)) closed)"
  shows "closed = older @ es \<Longrightarrow>
    phase_ok (plan_justified git anc touched opts closed)
      (\<lambda>rs. list_all (range_valid anc) rs \<and> list_all full_range rs \<and>
        (\<exists>base. rs = map2 (range_of originating) (base # map cl_closureTip es) es \<and>
          (case es of [] \<Rightarrow> True | e # _ \<Rightarrow> starts_at anc opts older e base)))
      (closed_ranges git (po_oldDefaultTip opts) originating (closure_before older) es)"
proof (induction es arbitrary: older)
  case (Cons e es)
  let ?J = "plan_justified git anc touched opts closed" and ?tip = "if cl_child e \<in> set originating then cl_branchTip e else cl_closureTip e"
  let ?P = "\<lambda>b. full_sha b \<and> starts_at anc opts older e b"
  have f: "full_sha (cl_closureTip e)" "full_sha (cl_branchTip e)" "full_sha ?tip"
    using Cons.prems(1) assms(2) by (auto simp: list_all_iff full_closed_def)
  have before: "case closure_before older of Some c \<Rightarrow> full_sha c | None \<Rightarrow> True"
    using Cons.prems(1) assms(2) last_in_set [of older] by (auto simp: closure_before_def list_all_iff full_closed_def)
  show ?case unfolding closed_ranges.simps
  proof (rule phase_ok_then [where R = ?P])
    show "phase_ok ?J ?P (need (''cannot resolve old parent for child '' @ int_str (cl_child e))
        (old_parent git (closure_before older) (cl_branchTip e) (po_oldDefaultTip opts)))"
      by (rule phase_ok_mono [OF old_parent_ok [OF assms(1) f(2) assms(3) before]])
         (auto simp: starts_at_def closure_before_def split: if_splits)
  next
    fix base assume base: "?P base"
    let ?R = "\<lambda>r. r = range_of originating base e \<and> range_valid anc r \<and> full_range r"
    have refused: "?J (PlanRefused RangeNotAncestor (cl_child e))" if "\<not> anc base ?tip"
    proof -
      have "\<not> range_valid anc (range_of originating base e)" using that by (simp add: range_valid_def range_of_def)
      with Cons.prems base have "\<exists>older e' younger b. closed = older @ e' # younger \<and> cl_child e' = cl_child e \<and>
          starts_at anc opts older e' b \<and> \<not> range_valid anc (range_of originating b e')" by blast
      then show ?thesis unfolding assms(4) by (simp add: plan_justified_def Let_def)
    qed
    have r: "phase_ok ?J ?R (ranged git (cl_child e) base ?tip RangeClosed)"
      using ranged_ok [OF assms(1) _ f(3) refused, where kind = RangeClosed] base by (simp add: range_of_def)
    have "closure_before (older @ [e]) = Some (cl_closureTip e)" by (simp add: closure_before_def)
    then have rest: "phase_ok ?J (\<lambda>rs. list_all (range_valid anc) rs \<and> list_all full_range rs \<and>
        rs = map2 (range_of originating) (cl_closureTip e # map cl_closureTip es) es)
        (closed_ranges git (po_oldDefaultTip opts) originating (Some (cl_closureTip e)) es)"
      using Cons.IH [of "older @ [e]"] Cons.prems
      by (cases es) (auto elim!: phase_ok_mono simp: starts_at_def)
    show "phase_ok ?J (\<lambda>rs. list_all (range_valid anc) rs \<and> list_all full_range rs \<and>
        (\<exists>b. rs = map2 (range_of originating) (b # map cl_closureTip (e # es)) (e # es) \<and>
          (case e # es of [] \<Rightarrow> True | e # _ \<Rightarrow> starts_at anc opts older e b)))
        (phase_then (ranged git (cl_child e) base ?tip RangeClosed)
          (\<lambda>r. phase_then (closed_ranges git (po_oldDefaultTip opts) originating (Some (cl_closureTip e)) es)
            (\<lambda>rs. phase_value (r # rs))))"
      by (rule phase_ok_then [OF r], rule phase_ok_then [OF rest]) (use base in auto)
  qed
qed simp

lemma closed_from_start:
  assumes "commit_history git anc touched" "list_all full_closed closed" "full_sha (po_oldDefaultTip opts)"
    and "originating = map cl_child (filter (carries_work anc touched (po_slug opts)) closed) \<and> P"
  shows "phase_ok (plan_justified git anc touched opts closed)
      (\<lambda>rs. list_all (range_valid anc) rs \<and> list_all full_range rs \<and>
        (\<exists>base. rs = map2 (range_of originating) (base # map cl_closureTip closed) closed \<and>
          (case closed of [] \<Rightarrow> True | e # _ \<Rightarrow> starts_at anc opts [] e base)))
      (closed_ranges git (po_oldDefaultTip opts) originating None closed)"
  using closed_ranges_ok [OF assms(1-3) conjunct1 [OF assms(4)], of "[]" closed] by (simp add: closure_before_def)

definition tip_known :: "'g git_runner \<Rightarrow> string \<Rightarrow> string option \<Rightarrow> bool" where
  "tip_known git ref t = (case t of Some s \<Rightarrow> full_sha s \<and> answered_tip git ref s | None \<Rightarrow> answered_absent git ref)"

lemma answered_flag: "refExists git ref g = (g1, Some x) \<Longrightarrow> x \<or> answered_absent git ref"
  unfolding answered_absent_def by (metis (full_types))

lemma existing_tip_ok: "phase_ok (plan_justified git anc touched opts closed) (tip_known git ref) (existing_tip git d1 d2 ref)"
proof -
  let ?J = "plan_justified git anc touched opts closed"
  have e: "phase_ok ?J (\<lambda>x. x \<or> answered_absent git ref) (need d1 (refExists git ref))"
    by (rule phase_ok_need) (auto intro: unanswered dest: answered_flag)
  have t: "phase_ok ?J (\<lambda>s. full_sha s \<and> answered_tip git ref s) (need d2 (resolveTip git ref))"
    by (rule phase_ok_need) (auto simp: answered_tip_def dest: resolveTip_full intro: unanswered)
  show ?thesis unfolding existing_tip_def
    by (rule phase_ok_then [OF e]) (auto intro!: phase_ok_then [OF t] simp: tip_known_def)
qed

lemma last_below_full: "list_all full_closed closed \<Longrightarrow> last_below closed c = Some s \<Longrightarrow> full_sha s"
proof -
  assume f: "list_all full_closed closed" and l: "last_below closed c = Some s"
  then have "filter (\<lambda>e. cl_child e < c) closed \<noteq> []" "s = cl_closureTip (last (filter (\<lambda>e. cl_child e < c) closed))"
    by (auto simp: last_below_def split: list.splits)
  moreover from this(1) have "last (filter (\<lambda>e. cl_child e < c) closed) \<in> set closed" using last_in_set by fastforce
  ultimately show "full_sha s" using f by (auto simp: list_all_iff full_closed_def)
qed

lemma active_range_ok:
  assumes "commit_history git anc touched" "list_all full_closed closed" "full_sha (po_oldDefaultTip opts)"
    and "tip_known git (ac_branchRef (po_active opts)) tip"
  shows "phase_ok (plan_justified git anc touched opts closed) (\<lambda>rs. active_ok git anc opts closed rs \<and> list_all full_range rs)
    (active_range git opts closed tip)"
proof (cases tip)
  case None
  then show ?thesis using assms(4) by (simp add: active_range_def active_ok_def tip_known_def)
next
  case (Some t)
  let ?J = "plan_justified git anc touched opts closed" and ?a = "po_active opts"
  let ?P = "\<lambda>b. full_sha b \<and> (case last_below closed (ac_child ?a) of Some c \<Rightarrow> b = c | None \<Rightarrow> anc b (po_oldDefaultTip opts) \<and> anc b t)"
  have t: "full_sha t" "answered_tip git (ac_branchRef ?a) t" using assms(4) Some by (auto simp: tip_known_def)
  have p: "phase_ok ?J ?P (need d (old_parent git (last_below closed (ac_child ?a)) t (po_oldDefaultTip opts)))" for d
    by (rule old_parent_ok [OF assms(1) t(1) assms(3)])
       (use last_below_full [OF assms(2)] in \<open>auto split: option.splits\<close>)
  show ?thesis
  proof (cases "ac_child ?a \<in> cl_child ` set closed")
    case True
    with Some show ?thesis by (simp add: active_range_def active_ok_def)
  next
    case False
    have r: "phase_ok ?J (\<lambda>r. r = \<lparr>cr_child = ac_child ?a, cr_oldParent = b, cr_oldTip = t, cr_kind = k\<rparr> \<and> range_valid anc r \<and> full_range r)
        (ranged git (ac_child ?a) b t k)" if b: "?P b" for b k
    proof (rule ranged_ok [OF assms(1) _ t(1)])
      show "full_sha b" using b ..
      assume "\<not> anc b t"
      with b have "last_below closed (ac_child ?a) = Some b" by (auto split: option.splits)
      with False t(2) \<open>\<not> anc b t\<close> show "?J (PlanRefused RangeNotAncestor (ac_child ?a))"
        unfolding plan_justified_def Let_def by auto
    qed
    show ?thesis unfolding active_range_def Let_def Some option.case if_not_P [OF False]
      by (rule phase_ok_then [OF p], rule phase_ok_then [OF r]) (use False t(2) in \<open>auto simp: active_ok_def split: option.splits\<close>)
  qed
qed

lemma inside_law:
  assumes "commit_history git anc touched" "full_sha tip" "full_range r" "leafIsInsideRange git tip r g = (g1, Some b)"
  shows "b = strictly_inside anc tip r"
  using assms(4) isAncestor_law [OF assms(1)] assms(2,3)
  by (auto simp: leafIsInsideRange_def full_range_def strictly_inside_def split: if_splits prod.splits option.splits bool.splits)

lemma inside_unanswered:
  "leafIsInsideRange git tip r g = (g1, None) \<Longrightarrow> plan_justified git anc touched opts closed (PlanUnavailable d)"
  by (auto simp: leafIsInsideRange_def intro: unanswered split: if_splits prod.splits option.splits bool.splits)

lemma inside_some_ok:
  assumes "commit_history git anc touched" "full_sha tip"
  shows "list_all full_range rs \<Longrightarrow> phase_ok (plan_justified git anc touched opts closed)
    (\<lambda>inside. inside = list_ex (strictly_inside anc tip) rs) (leaf_inside_some git d tip rs)"
proof (induction rs)
  case (Cons r rs)
  let ?J = "plan_justified git anc touched opts closed"
  have ask: "phase_ok ?J (\<lambda>i. i = strictly_inside anc tip r) (need d (leafIsInsideRange git tip r))"
    by (rule phase_ok_need, erule inside_unanswered, rule inside_law [OF assms]) (use Cons.prems in auto)
  show ?case unfolding leaf_inside_some.simps
    by (rule phase_ok_then [OF ask]) (use Cons in \<open>auto elim: phase_ok_mono\<close>)
qed simp

lemma unentered_ok:
  assumes "commit_history git anc touched" "list_all full_range rs"
  shows "phase_ok (plan_justified git anc touched opts closed) (leaf_ok git anc opts rs) (unentered_leaf git opts rs)"
proof (cases "po_unenteredLeaf opts")
  case None
  then show ?thesis by (simp add: unentered_leaf_def leaf_ok_def)
next
  case (Some p)
  then obtain child ref where p: "po_unenteredLeaf opts = Some (child, ref)" by (cases p) auto
  show ?thesis
  proof (cases "ac_isLeaf (po_active opts)")
    case True
    with p show ?thesis by (simp add: unentered_leaf_def leaf_ok_def)
  next
    case False
    have tip: "phase_ok (plan_justified git anc touched opts closed) (leaf_ok git anc opts rs)
        (phase_then (leaf_inside_some git d t rs) (\<lambda>inside. phase_value (if inside
           then [\<lparr>cr_child = child, cr_oldParent = t, cr_oldTip = t, cr_kind = RangeLeafUnentered\<rparr>] else [])))"
      if "full_sha t" "answered_tip git ref t" for d t
      by (rule phase_ok_then [OF inside_some_ok [OF assms(1) that(1) assms(2)]]) (use p False that(2) in \<open>auto simp: leaf_ok_def\<close>)
    show ?thesis unfolding unentered_leaf_def p Let_def
      by (simp add: False, rule phase_ok_then [OF existing_tip_ok])
         (auto simp: leaf_ok_def tip_known_def p intro: tip split: option.splits)
  qed
qed

lemma phases_ok:
  assumes "commit_history git anc touched" "list_all full_closed closed" "full_sha (po_oldDefaultTip opts)"
  shows "phase_ok (plan_justified git anc touched opts closed) (plan_justified git anc touched opts closed)
    (phase_then (check_closures git closed)
         (\<lambda>_. phase_then (active_tip git (po_active opts))
           (\<lambda>activeTip. phase_then (find_originating git (po_slug opts) (po_cause opts) closed)
             (\<lambda>originating. phase_then (closed_ranges git (po_oldDefaultTip opts) originating None closed)
               (\<lambda>ranges. phase_then (active_range git opts closed activeTip)
                 (\<lambda>active. phase_then (unentered_leaf git opts (ranges @ active))
                   (\<lambda>leaf. phase_value (Planned (ranges @ active @ leaf) originating))))))))"
  apply (rule phase_ok_then [OF closures_ok [OF assms(1,2) order_refl]])
  apply (rule phase_ok_then, unfold active_tip_def, rule existing_tip_ok)
  apply (rule phase_ok_then [OF originating_ok [OF assms(1,2), of "[]"]], simp, simp)
  apply (rule phase_ok_then [OF closed_from_start [OF assms]], assumption)
  apply (rule phase_ok_then [OF active_range_ok [OF assms]], assumption)
  apply (rule phase_ok_then [OF unentered_ok [OF assms(1)]], simp)
  apply (auto simp: plan_justified_def Let_def)
  done

lemma plan_outcome:
  assumes "commit_history git anc touched" "full_sha (po_oldDefaultTip opts)" "planRestackRanges git opts g = (g', plan)"
  shows "case readClosedChildren git (po_slug opts) g of
      (_, None) \<Rightarrow> plan = PlanUnavailable ''cannot read closed child refs''
    | (_, Some closed) \<Rightarrow> sorted (map cl_child closed) \<and> plan_justified git anc touched opts closed plan"
proof (cases "readClosedChildren git (po_slug opts) g")
  case (Pair g1 read)
  show ?thesis
  proof (cases read)
    case None
    with Pair assms(3) show ?thesis by (simp add: planRestackRanges_def plan_phases_def phase_then_def need_def)
  next
    case (Some closed)
    have full: "list_all full_closed closed" using closed_full [of git "po_slug opts" g g1 closed] Pair Some by simp
    have "sorted (map cl_child closed)"
      using Pair Some by (auto simp: readClosedChildren_def map_prod_Some split: prod.splits if_splits)
    moreover have "plan_justified git anc touched opts closed plan"
      using phases_ok [OF assms(1) full assms(2)] assms(3) Pair Some
      by (auto simp: planRestackRanges_def plan_phases_def phase_then_def [of "need _ _"] need_def phase_ok_def
          split: prod.splits sum.splits dest: spec [of _ g1])
    ultimately show ?thesis using Pair Some by simp
  qed
qed

lemma planned_outcome:
  assumes "commit_history git anc touched" "full_sha (po_oldDefaultTip opts)" "planRestackRanges git opts g = (g', Planned ranges originating)"
  shows "\<exists>g1 cs. readClosedChildren git (po_slug opts) g = (g1, Some cs) \<and> plan_justified git anc touched opts cs (Planned ranges originating)"
  using plan_outcome [OF assms] by (auto split: prod.splits option.splits)

text \<open>C8: every answer of the restack planner is justified by the
  commit history, whatever moves between its questions. A plan chains the closed children in their
  order, each replayed from its predecessor's closure (the first from an ancestor of the default
  branch) to its own closure or, exactly for an originating child, to its branch; the originating
  children are exactly those with a commit past their closure that is more than a halt record, and
  none occurs outside a feature repair; every replayed range runs from an ancestor to its descendant;
  the active child is ranged on its predecessor up to a tip its branch was seen at, and left out only when it is
  closed or its branch was seen absent; a leaf that was not entered is listed exactly when its tip lies inside a
  replayed range. A refusal names a child whose closure was rewritten, or the closed or active child whose
  own range does not run from an ancestor to its descendant; a pending repair names the first closed child that
  carries work; and the plan is unavailable only when a question to the repository can go unanswered.\<close>

theorem restack_plan_justified:
  assumes "commit_history git anc touched" "full_sha (po_oldDefaultTip opts)" "planRestackRanges git opts g = (g', plan)"
  shows "case readClosedChildren git (po_slug opts) g of
      (_, None) \<Rightarrow> plan = PlanUnavailable ''cannot read closed child refs''
    | (_, Some closed) \<Rightarrow> sorted (map cl_child closed) \<and> plan_justified git anc touched opts closed plan"
  by (rule plan_outcome [OF assms])

section \<open>The sample stack\<close>

lemma stack_full: "full_sha (stack_sha (CHR ''a''))"
  by code_simp

lemma stack_lines: "list_all (\<lambda>c. c \<noteq> [] \<and> CHR 0x0A \<notin> set c) cs \<Longrightarrow> filter (\<lambda>l. l \<noteq> []) (split_on (CHR 0x0A) (lines_text cs)) = cs"
  unfolding lines_text_def
proof (induction "[CHR 0x0A]" cs rule: join.induct)
  case (3 x y xs)
  then show ?case by (simp add: split_on_here)
qed (auto simp: split_on_none)

lemma stack_commit_facts: "c \<in> set stack_commits \<Longrightarrow> c \<noteq> [] \<and> CHR 0x0A \<notin> set c \<and> CHR ''.'' \<notin> set c \<and> js_trim c = c"
proof -
  assume "c \<in> set stack_commits"
  then obtain d where d: "c = stack_sha d" "d \<in> set ''abcde''" unfolding stack_commits_def set_map by blast
  then have n: "\<not> js_space d" "d \<noteq> CHR 0x0A" "d \<noteq> CHR ''.''" by (auto simp: js_space_def)
  have "dropWhile js_space (stack_sha d) = stack_sha d" using n(1) by (simp add: stack_sha_def numeral_eq_Suc)
  then show ?thesis using d(1) n by (simp add: js_trim_def) (auto simp: stack_sha_def)
qed

lemma stack_anc_commits: "stack_anc a b \<Longrightarrow> a \<in> set stack_commits \<and> b \<in> set stack_commits"
  by (auto simp: stack_anc_def stack_above_def stack_commits_def)

lemma full_sha_text: "full_sha s \<Longrightarrow> CHR ''.'' \<notin> set s"
proof -
  assume "full_sha s"
  then have "list_all hex_lower s" by (auto simp: full_sha_def parseCommitSha_def split: if_splits)
  moreover have "\<not> hex_lower (CHR ''.'')" by (simp add: hex_lower_def is_digit_def)
  ultimately show ?thesis by (auto simp: list_all_iff)
qed

lemma stack_commit_full: "full_sha s \<Longrightarrow> stack_commit s = s"
proof -
  assume "full_sha s"
  then have "list_all hex_lower s" by (auto simp: full_sha_def parseCommitSha_def split: if_splits)
  moreover have "\<not> hex_lower (CHR ''/'')" by (simp add: hex_lower_def is_digit_def)
  ultimately have "CHR ''/'' \<notin> set s" by (auto simp: list_all_iff)
  then have "map_of stack_refs s = None" by (auto simp: stack_refs_def)
  then show ?thesis by (simp add: stack_commit_def)
qed

lemma stack_past_lines: "the (output_lines (tiny_answer 0 (lines_text (past a b)) None)) = past a b"
  "set (past a b) = {c. stack_anc c b \<and> \<not> stack_anc c a}"
proof -
  have "filter (\<lambda>l. l \<noteq> []) (split_on (CHR 0x0A) (lines_text (past a b))) = past a b"
    by (rule stack_lines) (use stack_commit_facts in \<open>auto simp: past_def list_all_iff\<close>)
  then show "the (output_lines (tiny_answer 0 (lines_text (past a b)) None)) = past a b"
    by (simp add: output_lines_def answer_ok_def tiny_answer_def)
  show "set (past a b) = {c. stack_anc c b \<and> \<not> stack_anc c a}" using stack_anc_commits by (auto simp: past_def)
qed

lemma stack_past:
  "tiny_answer 0 (lines_text (past a b)) None = Some x \<Longrightarrow> set (the (output_lines (Some x))) = {c. stack_anc c b \<and> \<not> stack_anc c a}"
  using stack_past_lines [of a b] by simp

lemma stack_history: "commit_history stack_git stack_anc stack_touched"
proof -
  have "ancestry_known stack_git stack_anc"
    by (auto simp: ancestry_known_def git_call_def stack_git_def tiny_answer_def stack_commit_full split: if_splits)
  moreover have "merge_base_known stack_git stack_anc"
  proof -
    have r: "stack_anc x x" if "x \<in> set stack_commits" for x using that by (auto simp: stack_commits_def stack_anc_def stack_above_def)
    show ?thesis using r stack_anc_commits stack_commit_facts
      by (auto simp: merge_base_known_def git_call_def stack_git_def tiny_answer_def split: if_splits)
  qed
  moreover have "revisions_known stack_git stack_anc"
  proof -
    have "takeWhile (\<lambda>c. c \<noteq> CHR ''.'') (a @ ''..'' @ b) = a" if "full_sha a" for a b
      using full_sha_text [OF that] by (subst takeWhile_append2) auto
    then have "git_call stack_git [''rev-list'', a @ ''..'' @ b] g =
        (g, if a \<in> set stack_commits \<and> b \<in> set stack_commits then tiny_answer 0 (lines_text (past a b)) None else None)"
      if "full_sha a" "full_sha b" for a b g
      using that by (simp add: git_call_def stack_git_def stack_range_def Let_def stack_commit_full)
    then show ?thesis unfolding revisions_known_def by (intro allI impI) (rule stack_past, auto split: if_splits)
  qed
  moreover have "changes_known stack_git stack_touched"
  proof -
    have "filter (\<lambda>l. l \<noteq> []) (split_on (CHR 0x0A) (lines_text (stack_touched c))) = stack_touched c" for c
      by (rule stack_lines) (auto simp: stack_touched_def)
    then show ?thesis
      by (auto simp: changes_known_def git_call_def stack_git_def tiny_answer_def output_lines_def answer_ok_def split: if_splits)
  qed
  ultimately show ?thesis by (simp add: commit_history_def)
qed

theorem restack_plan_justified_witness:
  "commit_history stack_git stack_anc stack_touched \<and> planRestackRanges stack_git stack_options () = ((), stack_plan) \<and>
   (case readClosedChildren stack_git ''demo'' () of
      (_, None) \<Rightarrow> False
    | (_, Some closed) \<Rightarrow> sorted (map cl_child closed) \<and> plan_justified stack_git stack_anc stack_touched stack_options closed stack_plan)"
proof -
  have f: "full_sha (po_oldDefaultTip stack_options)" by (simp add: stack_options_def stack_full)
  have s: "po_slug stack_options = ''demo''" by (simp add: stack_options_def)
  show ?thesis using restack_plan_justified [OF stack_history f stack_planned] stack_history stack_planned
    by (auto simp: s stack_plan_def split: prod.splits option.splits)
qed

end
