(* ===== verification/SliceProps.thy ===== *)
theory SliceProps
  imports StackSamples
begin

text \<open>
  What a sliced plan that passes validation guarantees to the stack built from it, who owns its
  stories, when it may be delivered as a stack, and the plan form whose dependencies escape the check.
\<close>

section \<open>Rows\<close>

lemma digit_code: "is_digit c \<Longrightarrow> 48 \<le> (of_char c :: int)"
  by (subst of_nat_of_char [symmetric]) (simp add: is_digit_def)

lemma digits_grow: "list_all is_digit ds \<Longrightarrow> 0 \<le> a \<Longrightarrow> a \<le> foldl (\<lambda>a c. 10 * a + (of_char c - 48)) a ds" for a :: int
proof (induction ds arbitrary: a)
  case (Cons c ds)
  have "48 \<le> (of_char c :: int)" using Cons.prems(1) digit_code by simp
  then have "0 \<le> 10 * a + (of_char c - 48)" "a \<le> 10 * a + (of_char c - 48)" using Cons.prems(2) by auto
  with Cons show ?case by fastforce
qed simp

lemma position_number: "slice_position_text s \<Longrightarrow> \<exists>p. cell_number s = Some p \<and> 1 \<le> p"
proof -
  assume a: "slice_position_text s"
  then obtain c cs where s: "s = c # cs" "is_digit c" "c \<noteq> CHR ''0''" "list_all is_digit cs"
    by (auto simp: slice_position_text_def split: list.splits)
  have "(of_char c :: nat) \<noteq> 48"
  proof
    assume "(of_char c :: nat) = 48"
    then have "c = char_of (48 :: nat)" by (metis char_of_char)
    moreover have "char_of (48 :: nat) = CHR ''0''" by code_simp
    ultimately show False using s(3) by simp
  qed
  then have "49 \<le> (of_char c :: nat)" using s(2) by (simp add: is_digit_def)
  then have "1 \<le> (of_char c :: int) - 48" by (subst of_nat_of_char [symmetric]) simp
  moreover have "digits_value s = foldl (\<lambda>a c. 10 * a + (of_char c - 48)) (of_char c - 48) cs" by (simp add: digits_value_def s(1))
  ultimately have "1 \<le> digits_value s" using digits_grow [OF s(4), of "of_char c - 48"] by linarith
  then show ?thesis using s by (auto simp: cell_number_def)
qed

lemma resolved_ids: "resolvePlanTaskReference raw ids = TasksResolved found \<Longrightarrow> set found \<subseteq> set ids"
  by (auto simp: resolvePlanTaskReference_def Let_def filter_empty_conv split: if_splits)

lemma reference_ids: "set (fst (row_references c p ids refs)) \<subseteq> set ids"
  by (induction refs) (auto split: prod.splits task_reference.splits dest: resolved_ids)

definition good_row :: "string list \<Rightarrow> slice_row \<Rightarrow> bool" where
  "good_row ids r =
     ((\<exists>p. sw_position r = Some p \<and> 1 \<le> p) \<and> sw_title r \<noteq> [] \<and> distinct (sw_taskIds r) \<and> set (sw_taskIds r) \<subseteq> set ids)"

lemma three_cells: "(case x of Some [a, b, c] \<Rightarrow> f a b c | _ \<Rightarrow> g) = h \<Longrightarrow> g \<noteq> h \<Longrightarrow> \<exists>a b c. x = Some [a, b, c] \<and> f a b c = h"
  by (cases x; auto split: list.splits)

lemma rows_good: "parse_rows ids ls = (rows, []) \<Longrightarrow> list_all (good_row ids) rows"
proof (induction ls arbitrary: rows)
  case (Cons l ls)
  show ?case
  proof (cases "starts_with (js_trim l) ''|''")
    case False
    with Cons.prems show ?thesis by simp
  next
    case True
    obtain rs vs where p: "parse_rows ids ls = (rs, vs)" by fastforce
    let ?resolved = "\<lambda>c2. if c2 = [] then None else Some (resolvePlanTaskReference c2 ids)"
    let ?refs = "\<lambda>c0 c2. case ?resolved c2 of None \<Rightarrow> ([], []) | Some (TasksMalformed _) \<Rightarrow> ([], [])
        | Some _ \<Rightarrow> row_references c0 (cell_number c0) ids (split_on (CHR '','') c2)"
    obtain c0 c1 c2 where c: "tableCells (Some l) = Some [c0, c1, c2]"
      and r: "rows = \<lparr>sw_position = cell_number c0, sw_title = c1, sw_taskIds = stable_unique (fst (?refs c0 c2)),
          sw_hasReferences = (c2 \<noteq> [])\<rparr> # rs"
      and v: "row_checks c0 c1 c2 (?resolved c2) @ snd (?refs c0 c2) @ vs = []"
      using three_cells [OF Cons.prems [unfolded parse_rows.simps p prod.case Let_def, simplified True not_True_eq_False if_False]]
      by auto
    have "list_all (good_row ids) rs" using Cons.IH [of rs] p v by simp
    moreover have "slice_position_text c0" and c1: "c1 \<noteq> []" using v by (auto simp: row_checks_def Let_def split: if_splits)
    then obtain n where n: "cell_number c0 = Some n" "1 \<le> n" using position_number by blast
    have ids: "set (fst (?refs c0 c2)) \<subseteq> set ids"
      using reference_ids by (auto split: option.splits task_reference.splits if_splits)
    moreover have "good_row ids (hd rows)" unfolding r list.sel good_row_def using n c1 ids by simp
    ultimately show ?thesis by (simp add: r)
  qed
qed simp

lemma no_slice_violation: "slice_violations seen rows = [] \<Longrightarrow> distinct (map sw_position rows) \<and> set (map sw_position rows) \<inter> set seen = {}"
proof (induction rows arbitrary: seen)
  case (Cons r rows)
  with Cons.IH [of "sw_position r # seen"] show ?case by (auto split: if_splits)
qed simp

lemma one_membership:
  "membership_violations rows t = [] \<Longrightarrow> isEngineAppendedRemediationTaskId t \<or> length (filter (\<lambda>r. t \<in> set (sw_taskIds r)) rows) = 1"
  by (auto simp: membership_violations_def memberships_def split: if_splits list.splits)

lemma filter_count: "mset xs = mset ys \<Longrightarrow> length (filter P xs) = length (filter P ys)"
  by (metis mset_filter size_mset)

lemma placed:
  assumes "r \<in> set rows" "t \<in> set (sw_taskIds r)" "length (filter (\<lambda>r. t \<in> set (sw_taskIds r)) rows) = 1"
  shows "slice_of rows t = sw_position r"
proof -
  from assms(3) obtain q where q: "filter (\<lambda>r. t \<in> set (sw_taskIds r)) rows = [q]" by (auto simp: length_Suc_conv)
  have "r \<in> set (filter (\<lambda>r. t \<in> set (sw_taskIds r)) rows)" using assms(1,2) by simp
  with q have "q = r" by simp
  with q show ?thesis by (simp add: slice_of_def memberships_def)
qed

section \<open>Validation\<close>

lemma sliced_plan_facts:
  assumes "validatePlanSlices text = SlicedPlan slices"
  defines "ids \<equiv> planTaskIds (text_lines text) (fencedLineStates (text_lines text))"
  shows "length slices \<le> 9 \<and> sorted_wrt (<) (map ps_position slices) \<and>
    list_all (\<lambda>s. 1 \<le> ps_position s \<and> ps_title s \<noteq> [] \<and> distinct (ps_taskIds s) \<and> set (ps_taskIds s) \<subseteq> set ids) slices \<and>
    (\<forall>t\<in>set ids. isEngineAppendedRemediationTaskId t \<or> length (filter (\<lambda>s. t \<in> set (ps_taskIds s)) slices) = 1) \<and>
    (\<forall>(t, ds)\<in>set (fst (parsePlanDependencyGraph text)). \<forall>d\<in>set ds \<inter> set ids. \<forall>s\<in>set slices. \<forall>e\<in>set slices.
       t \<in> set ids \<and> t \<in> set (ps_taskIds s) \<and> d \<in> set (ps_taskIds e) \<and>
       \<not> isEngineAppendedRemediationTaskId t \<and> \<not> isEngineAppendedRemediationTaskId d \<longrightarrow> ps_position e \<le> ps_position s)"
proof -
  let ?lines = "text_lines text" and ?fenced = "fencedLineStates (text_lines text)"
  define start where "start = table_start ?lines ?fenced (hd (heading_indexes ?lines ?fenced))"
  obtain rows where p: "parse_rows ids (drop (start + 2) ?lines) = (rows, [])" and b: "body_violations text ids rows = []"
    and s: "slices = sort_key ps_position (map slice_of_row rows)"
    using assms(1) by (auto simp: validatePlanSlices_def Let_def ids_def start_def split: if_splits)
       (metis prod.collapse)
  obtain deps vs where d: "parsePlanDependencyGraph text = (deps, vs)" by fastforce
  have nv: "length rows \<le> 9" "slice_violations [] rows = []" "\<And>t. t \<in> set ids \<Longrightarrow> membership_violations rows t = []"
    "\<And>x. x \<in> set deps \<Longrightarrow> order_violations rows x = []"
    using b by (auto simp: body_violations_def d MAX_CHILD_ID_def split: if_splits)
  have good: "list_all (good_row ids) rows" by (rule rows_good [OF p])
  have m: "set slices = slice_of_row ` set rows" "length slices = length rows"
    "mset slices = mset (map slice_of_row rows)" by (simp_all add: s)
  have pos: "sw_position r = Some (ps_position (slice_of_row r))" if "r \<in> set rows" for r
    using good that by (auto simp: list_all_iff good_row_def slice_of_row_def)
  have fit: "list_all (\<lambda>s. 1 \<le> ps_position s \<and> ps_title s \<noteq> [] \<and> distinct (ps_taskIds s) \<and> set (ps_taskIds s) \<subseteq> set ids) slices"
    using good by (auto simp: m(1) list_all_iff good_row_def slice_of_row_def)
  have "map (Some \<circ> ps_position \<circ> slice_of_row) rows = map sw_position rows" using pos by simp
  then have "distinct (map (Some \<circ> ps_position \<circ> slice_of_row) rows)"
    using conjunct1 [OF no_slice_violation [OF nv(2)]] by (simp only:)
  then have "distinct (map ps_position (map slice_of_row rows))" by (auto simp: distinct_map inj_on_def)
  then have "distinct (map ps_position slices)" using m(3) by (metis mset_eq_imp_distinct_iff mset_map)
  then have ordered: "sorted_wrt (<) (map ps_position slices)" by (simp add: s strict_sorted_iff)
  have count: "length (filter (\<lambda>s. t \<in> set (ps_taskIds s)) slices) = length (filter (\<lambda>r. t \<in> set (sw_taskIds r)) rows)" for t
    by (subst filter_count [OF m(3)]) (simp add: filter_map o_def slice_of_row_def)
  have one: "isEngineAppendedRemediationTaskId t \<or> length (filter (\<lambda>r. t \<in> set (sw_taskIds r)) rows) = 1" if "t \<in> set ids" for t
    using one_membership nv(3) that by blast
  have place: "slice_of rows t = Some (ps_position (slice_of_row r))"
    if "t \<in> set ids" "\<not> isEngineAppendedRemediationTaskId t" "r \<in> set rows" "t \<in> set (sw_taskIds r)" for t r
    using placed [OF that(3,4)] one [OF that(1)] that(2) pos [OF that(3)] by simp
  have order: "ps_position e \<le> ps_position s"
    if o: "(t, ds) \<in> set deps" "d \<in> set ds" "d \<in> set ids" "s \<in> set slices" "e \<in> set slices" "t \<in> set ids"
      "t \<in> set (ps_taskIds s)" "d \<in> set (ps_taskIds e)" "\<not> isEngineAppendedRemediationTaskId t" "\<not> isEngineAppendedRemediationTaskId d"
    for t ds d s e
  proof -
    obtain r q where "r \<in> set rows" "s = slice_of_row r" "q \<in> set rows" "e = slice_of_row q" using o(4,5) m(1) by auto
    then have "slice_of rows t = Some (ps_position s)" "slice_of rows d = Some (ps_position e)"
      using place o by (auto simp: slice_of_row_def)
    with nv(4) [OF o(1)] o(2,9) show ?thesis by (auto simp: order_violations_def map_filter_def filter_empty_conv split: if_splits)
  qed
  show ?thesis using nv(1) m(2) ordered fit one order by (auto simp: count d)
qed

text \<open>C9: a plan that validates as sliced divides its work soundly. It has
  at most nine slices, in strictly ascending positive positions (gaps are allowed), titled, each with distinct
  tasks of the plan; every task heading the plan declares, other than those the engine appended for
  remediation, is in exactly one slice; and among these headings none depends on one in a later slice. A heading
  that declares a range of tasks is taken here as it is written, unexpanded.\<close>

theorem sliced_plan_sound:
  assumes "validatePlanSlices text = SlicedPlan slices"
  defines "ids \<equiv> planTaskIds (text_lines text) (fencedLineStates (text_lines text))"
  shows "length slices \<le> 9 \<and> sorted_wrt (<) (map ps_position slices) \<and>
    list_all (\<lambda>s. 1 \<le> ps_position s \<and> ps_title s \<noteq> [] \<and> distinct (ps_taskIds s) \<and> set (ps_taskIds s) \<subseteq> set ids) slices \<and>
    (\<forall>t\<in>set ids. isEngineAppendedRemediationTaskId t \<or> length (filter (\<lambda>s. t \<in> set (ps_taskIds s)) slices) = 1) \<and>
    (\<forall>(t, ds)\<in>set (fst (parsePlanDependencyGraph text)). \<forall>d\<in>set ds \<inter> set ids. \<forall>s\<in>set slices. \<forall>e\<in>set slices.
       t \<in> set ids \<and> t \<in> set (ps_taskIds s) \<and> d \<in> set (ps_taskIds e) \<and>
       \<not> isEngineAppendedRemediationTaskId t \<and> \<not> isEngineAppendedRemediationTaskId d \<longrightarrow> ps_position e \<le> ps_position s)"
  unfolding ids_def by (rule sliced_plan_facts [OF assms(1)])

theorem sliced_plan_sound_witness:
  "\<exists>slices. validatePlanSlices sample_plan = SlicedPlan slices \<and> sorted_wrt (<) (map ps_position slices) \<and> length slices \<le> 9"
  using sliced_plan_sound [OF sample_valid] sample_valid by blast

text \<open>One plan whose range heading escapes the order of the slices: it validates, although tasks 1 and 2, which its
  heading \<^verbatim>\<open>Task 1-2\<close> declares and its first slice names, depend on task 3 of the second slice. The
  headings are read unexpanded for the slices and expanded for the dependencies, so the two never meet.\<close>

theorem range_heading_escapes_order:
  "validatePlanSlices range_plan = SlicedPlan
     [\<lparr>ps_position = 1, ps_title = ''A'', ps_taskIds = [''1-2'']\<rparr>, \<lparr>ps_position = 2, ps_title = ''B'', ps_taskIds = [''3'']\<rparr>] \<and>
   fst (parsePlanDependencyGraph range_plan) = [(''1'', [''3'']), (''2'', [''3'']), (''3'', [])] \<and>
   expandTaskIds ''1-2'' = [''1'', ''2'']"
  using range_valid range_dependencies range_expanded by blast

section \<open>Owners of stories\<close>

definition supporting_body :: "string \<Rightarrow> bool" where
  "supporting_body body = (taskType body = Some ''infrastructure'' \<or> taskType body = Some ''refactor'')"

text \<open>A line of a supporting task that names no declared story cites none.\<close>

definition line_cites :: "string list option \<Rightarrow> string \<Rightarrow> string list \<Rightarrow> bool" where
  "line_cites declared body ids =
     (\<not> (supporting_body body \<and> (case declared of None \<Rightarrow> False | Some ds \<Rightarrow> set ids \<inter> set ds = {})))"

definition task_cites :: "string list option \<Rightarrow> (string \<times> string) list \<Rightarrow> string \<Rightarrow> string set" where
  "task_cites declared bodies t =
     (if isEngineAppendedRemediationTaskId t then {}
      else case map_of bodies t of None \<Rightarrow> {}
      | Some body \<Rightarrow> \<Union>(set ` {ids \<in> set (parsePlanTaskStoryLineIds body). line_cites declared body ids}))"

definition slice_cites :: "string list option \<Rightarrow> string \<Rightarrow> plan_slice \<Rightarrow> string set" where
  "slice_cites declared planText s = (\<Union>t\<in>set (ps_taskIds s). task_cites declared (parsePlanTaskBodies planText) t)"

definition cited :: "story_positions \<Rightarrow> (string \<times> int) set" where
  "cited ps = {(story, p). \<exists>l. map_of ps story = Some l \<and> p \<in> set l}"

definition wf_positions :: "story_positions \<Rightarrow> bool" where
  "wf_positions ps = (distinct (map fst ps) \<and> list_all (\<lambda>(_, l). l \<noteq> [] \<and> distinct l) ps)"

definition grows :: "string list option \<Rightarrow> (story_positions \<times> plan_violation list \<Rightarrow> story_positions \<times> plan_violation list) \<Rightarrow>
    (string \<times> int) set \<Rightarrow> bool" where
  "grows declared f D =
     (\<forall>acc. snd (f acc) = [] \<longrightarrow> snd acc = [] \<and> cited (fst (f acc)) = cited (fst acc) \<union> D \<and>
        (wf_positions (fst acc) \<longrightarrow> wf_positions (fst (f acc))) \<and>
        (case declared of Some ds \<Rightarrow> fst ` D \<subseteq> set ds | None \<Rightarrow> True))"

lemma grows_id: "grows declared (\<lambda>acc. acc) {}"
  by (simp add: grows_def split: option.splits)

lemma growsD:
  assumes "grows declared f D" "snd (f acc) = []"
  shows "snd acc = []" "cited (fst (f acc)) = cited (fst acc) \<union> D" "wf_positions (fst acc) \<Longrightarrow> wf_positions (fst (f acc))"
    "declared = Some ds \<Longrightarrow> fst ` D \<subseteq> set ds"
  using assms(1) [unfolded grows_def, THEN spec, THEN mp, OF assms(2)] by auto

lemma growsI:
  assumes "\<And>acc. snd (f acc) = [] \<Longrightarrow> snd acc = []" "\<And>acc. snd (f acc) = [] \<Longrightarrow> cited (fst (f acc)) = cited (fst acc) \<union> D"
    "\<And>acc. snd (f acc) = [] \<Longrightarrow> wf_positions (fst acc) \<Longrightarrow> wf_positions (fst (f acc))"
    "\<And>acc ds. snd (f acc) = [] \<Longrightarrow> declared = Some ds \<Longrightarrow> fst ` D \<subseteq> set ds"
  shows "grows declared f D"
  unfolding grows_def
proof (intro allI impI conjI)
  fix acc assume a: "snd (f acc) = []"
  show "snd acc = []" "cited (fst (f acc)) = cited (fst acc) \<union> D" by (rule assms(1,2) [OF a])+
  show "wf_positions (fst acc) \<Longrightarrow> wf_positions (fst (f acc))" by (rule assms(3) [OF a])
  show "case declared of Some ds \<Rightarrow> fst ` D \<subseteq> set ds | None \<Rightarrow> True"
    using assms(4) [OF a] by (cases declared) auto
qed

lemma grows_comp:
  assumes "grows declared f D" "grows declared g E"
  shows "grows declared (g \<circ> f) (D \<union> E)"
proof (rule growsI)
  fix acc assume a: "snd ((g \<circ> f) acc) = []"
  then have b: "snd (f acc) = []" using growsD(1) [OF assms(2), of "f acc"] by simp
  show "snd acc = []" by (rule growsD(1) [OF assms(1) b])
  show "cited (fst ((g \<circ> f) acc)) = cited (fst acc) \<union> (D \<union> E)"
    using growsD(2) [OF assms(1) b] growsD(2) [OF assms(2), of "f acc"] a by (simp add: Un_assoc)
  show "wf_positions (fst ((g \<circ> f) acc))" if "wf_positions (fst acc)"
    using growsD(3) [OF assms(1) b that] growsD(3) [OF assms(2), of "f acc"] a by simp
  show "fst ` (D \<union> E) \<subseteq> set ds" if "declared = Some ds" for ds
    using growsD(4) [OF assms(1) b that] growsD(4) [OF assms(2), of "f acc", OF _ that] a by auto
qed

lemma grows_fold: "(\<And>x. x \<in> set xs \<Longrightarrow> grows declared (f x) (D x)) \<Longrightarrow> grows declared (fold f xs) (\<Union>x\<in>set xs. D x)"
proof (induction xs)
  case (Cons x xs)
  then have "grows declared (fold f xs \<circ> f x) (D x \<union> (\<Union>x\<in>set xs. D x))" by (intro grows_comp) auto
  then show ?case by (simp add: comp_def)
qed (simp add: grows_id id_def)

lemma cite_story_facts:
  "cited (cite_story story p ps) = cited ps \<union> {(story, p)}" "wf_positions ps \<Longrightarrow> wf_positions (cite_story story p ps)"
proof -
  show "cited (cite_story story p ps) = cited ps \<union> {(story, p)}"
  proof (rule set_eqI, clarify)
    fix s q
    show "(s, q) \<in> cited (cite_story story p ps) \<longleftrightarrow> (s, q) \<in> cited ps \<union> {(story, p)}"
      by (cases "s = story"; cases "map_of ps story") (auto simp: cited_def cite_story_def update_conv')
  qed
  let ?l = "case map_of ps story of Some old \<Rightarrow> if p \<in> set old then old else old @ [p] | None \<Rightarrow> [p]"
  assume w: "wf_positions ps"
  then have "?l \<noteq> [] \<and> distinct ?l"
    by (auto simp: wf_positions_def list_all_iff split: option.splits dest!: map_of_SomeD)
  moreover have "set (AList.update story ?l ps) \<subseteq> insert (story, ?l) (set ps)"
    by (induction ps) auto
  ultimately show "wf_positions (cite_story story p ps)"
    using w unfolding wf_positions_def cite_story_def by (auto simp: list_all_iff distinct_update)
qed

lemma cite_ids_grows: "grows declared (cite_ids declared p t ids) (set ids \<times> {p})"
proof (induction ids)
  case Nil
  then show ?case using grows_id [of declared] by (simp add: grows_def split: option.splits)
next
  case (Cons i ids)
  show ?case
  proof (cases "case declared of Some ds \<Rightarrow> i \<notin> set ds | None \<Rightarrow> False")
    case True
    have "snd (cite_ids declared p t (i # ids) acc) \<noteq> []" for acc
    proof (cases acc)
      case (Pair ps vs)
      then have "cite_ids declared p t (i # ids) acc = cite_ids declared p t ids
          (ps, vs @ [violation ''unknown-story-id'' (Some p) (Some t) (''Task '' @ t @ '' cites unknown story '' @ i)])"
        using True by (auto split: option.splits)
      moreover have "snd (cite_ids declared p t ids (ps', vs' @ [v])) \<noteq> []" for ps' vs' v
        using growsD(1) [OF Cons, of "(ps', vs' @ [v])"] by auto
      ultimately show ?thesis by simp
    qed
    then show ?thesis unfolding grows_def by blast
  next
    case False
    have "grows declared (\<lambda>(ps, vs). (cite_story i p ps, vs)) {(i, p)}"
      by (rule growsI) (use False in \<open>auto simp: cite_story_facts split: prod.splits option.splits\<close>)
    from grows_comp [OF this Cons]
    have "grows declared (cite_ids declared p t ids \<circ> (\<lambda>(ps, vs). (cite_story i p ps, vs))) ({(i, p)} \<union> set ids \<times> {p})" .
    moreover have "set (i # ids) \<times> {p} = {(i, p)} \<union> set ids \<times> {p}" by auto
    moreover have "cite_ids declared p t (i # ids) = cite_ids declared p t ids \<circ> (\<lambda>(ps, vs). (cite_story i p ps, vs))"
      using False by (auto simp: fun_eq_iff)
    ultimately show ?thesis by (simp only:)
  qed
qed

lemma cite_line_grows:
  "grows declared (cite_line declared p t (supporting_body body) (ids, raw)) ((if line_cites declared body ids then set ids else {}) \<times> {p})"
proof (cases "ids = [] \<or> \<not> line_cites declared body ids")
  case True
  then have "cite_line declared p t (supporting_body body) (ids, raw) = (\<lambda>acc. acc)"
    by (auto simp: fun_eq_iff cite_line_def Let_def line_cites_def list_ex_iff split: option.splits)
  moreover have "(if line_cites declared body ids then set ids else {}) \<times> {p} = {}" using True by auto
  ultimately show ?thesis by (simp only: grows_id)
next
  case False
  let ?v = "\<lambda>acc. if 1 < length ids then (fst acc, snd acc @ [violation ''multi-story-line'' (Some p) (Some t)
      (''Task '' @ t @ '' has multiple story ids on Story line '' @ dquoted (case raw of Some r \<Rightarrow> r | None \<Rightarrow> join '', '' ids))]) else acc"
  have go: "\<not> (ids = [] \<or> supporting_body body \<and> \<not> (case declared of None \<Rightarrow> True | Some ds \<Rightarrow> list_ex (\<lambda>i. i \<in> set ds) ids))"
    using False by (auto simp: line_cites_def list_ex_iff split: option.splits)
  have "cite_line declared p t (supporting_body body) (ids, raw) = cite_ids declared p t ids \<circ> ?v"
    by (rule ext) (simp only: cite_line_def Let_def prod.case if_not_P [OF go] comp_def)
  moreover have "grows declared ?v {}" by (rule growsI) (auto split: if_splits)
  ultimately have "grows declared (cite_line declared p t (supporting_body body) (ids, raw)) ({} \<union> set ids \<times> {p})"
    using grows_comp [OF _ cite_ids_grows, of declared ?v "{}" p t ids] by simp
  with False show ?thesis by simp
qed

lemma cite_task_grows: "grows declared (cite_task declared bodies p t) (task_cites declared bodies t \<times> {p})"
proof (cases "isEngineAppendedRemediationTaskId t \<or> map_of bodies t = None")
  case True
  then have "cite_task declared bodies p t = (\<lambda>acc. acc)" "task_cites declared bodies t = {}"
    by (auto simp: cite_task_def task_cites_def fun_eq_iff)
  then show ?thesis using grows_id by simp
next
  case False
  then obtain body where b: "map_of bodies t = Some body" by auto
  let ?ids = "parsePlanTaskStoryLineIds body" and ?raws = "rawStoryLines body"
  let ?zip = "zip ?ids (map Some (take (length ?ids) ?raws) @ replicate (length ?ids - length ?raws) None)"
  let ?D = "\<lambda>l. (if line_cites declared body (fst l) then set (fst l) else {}) \<times> {p}"
  have "map fst ?zip = ?ids" by (simp add: map_fst_zip)
  then have f: "fst ` set ?zip = set ?ids" by (metis list.set_map)
  have "cite_task declared bodies p t = fold (cite_line declared p t (supporting_body body)) ?zip"
    using False b by (auto simp: cite_task_def fun_eq_iff supporting_body_def Let_def)
  moreover have "grows declared (fold (cite_line declared p t (supporting_body body)) ?zip) (\<Union>l\<in>set ?zip. ?D l)"
  proof (rule grows_fold)
    fix l show "grows declared (cite_line declared p t (supporting_body body) l) (?D l)"
      by (cases l) (simp only: cite_line_grows fst_conv)
  qed
  moreover have "(\<Union>l\<in>set ?zip. ?D l) = (\<Union>ids\<in>fst ` set ?zip. (if line_cites declared body ids then set ids else {}) \<times> {p})" by simp
  moreover have "(\<Union>ids\<in>set ?ids. (if line_cites declared body ids then set ids else {}) \<times> {p}) = task_cites declared bodies t \<times> {p}"
    using False b by (auto simp: task_cites_def split: if_splits)
  ultimately show ?thesis using f by simp
qed

lemma cited_stories_grows:
  assumes "cited_stories planText slices declared = (ps, [])"
  shows "cited ps = {(story, p). \<exists>s\<in>set slices. ps_position s = p \<and> story \<in> slice_cites declared planText s}" "wf_positions ps"
    "declared = Some ds \<Longrightarrow> fst ` cited ps \<subseteq> set ds"
proof -
  let ?bodies = "parsePlanTaskBodies planText"
  let ?D = "\<Union>s\<in>set slices. \<Union>t\<in>set (ps_taskIds s). task_cites declared ?bodies t \<times> {ps_position s}"
  have g: "grows declared (fold (\<lambda>s. fold (cite_task declared ?bodies (ps_position s)) (ps_taskIds s)) slices) ?D"
    by (intro grows_fold cite_task_grows)
  have r: "fold (\<lambda>s. fold (cite_task declared ?bodies (ps_position s)) (ps_taskIds s)) slices ([], []) = (ps, [])"
    using assms by (simp add: cited_stories_def Let_def)
  have c: "cited ps = ?D" using growsD(2) [OF g, of "([], [])"] r by (simp add: cited_def)
  show "wf_positions ps" using growsD(3) [OF g, of "([], [])"] r by (simp add: wf_positions_def)
  show "cited ps = {(story, p). \<exists>s\<in>set slices. ps_position s = p \<and> story \<in> slice_cites declared planText s}"
    unfolding c slice_cites_def by auto
  show "fst ` cited ps \<subseteq> set ds" if "declared = Some ds"
    using growsD(4) [OF g, of "([], [])", OF _ that] r unfolding c by simp
qed

text \<open>C25: when the stories of a sliced plan have owners, a story is owned
  by a slice exactly when a task of that slice cites it, so the tasks citing it all lie in one slice; and
  exactly the declared stories are owned. Tasks appended for remediation, and the lines of supporting
  tasks that name no declared story, cite nothing.\<close>

theorem story_owner_unique:
  assumes "deriveStoryOwnership planText slices declared = StoriesOwned owners"
  shows "(map_of owners story = Some p \<longleftrightarrow>
      (\<exists>s. s \<in> set slices \<and> ps_position s = p \<and> story \<in> slice_cites declared planText s)) \<and>
    (case declared of Some ds \<Rightarrow> fst ` set owners = set ds | None \<Rightarrow> True)"
proof -
  obtain ps where c: "cited_stories planText slices declared = (ps, [])" and v: "ownership_violations declared ps = []"
    and o: "owners = map (\<lambda>(story, positions). (story, hd positions)) ps"
    using assms by (auto simp: deriveStoryOwnership_def Let_def split: prod.splits if_splits)
  note facts = cited_stories_grows [OF c]
  have single: "\<exists>q. l = [q]" if "(st, l) \<in> set ps" for st l
  proof -
    have "l \<noteq> []" using facts(2) that by (auto simp: wf_positions_def list_all_iff)
    moreover have "\<not> 1 < length l"
      using v that by (auto simp: ownership_violations_def map_filter_def filter_empty_conv split: if_splits)
    ultimately show ?thesis by (cases l) auto
  qed
  have lookup: "map_of owners st = map_option hd (map_of ps st)" for st unfolding o by (induction ps) auto
  have own: "map_of owners st = Some q \<longleftrightarrow> (st, q) \<in> cited ps" for st q
    using single map_of_SomeD by (fastforce simp: lookup cited_def)
  have "fst ` set owners = set ds" if d: "declared = Some ds" for ds
  proof
    have "fst ` set ps \<subseteq> fst ` cited ps"
    proof
      fix st assume "st \<in> fst ` set ps"
      then obtain l where l: "map_of ps st = Some l" by (cases "map_of ps st") (auto simp: map_of_eq_None_iff)
      with single map_of_SomeD obtain q where "l = [q]" by fast
      with l show "st \<in> fst ` cited ps" by (force simp: cited_def)
    qed
    with facts(3) [OF d] show "fst ` set owners \<subseteq> set ds" unfolding o by force
    show "set ds \<subseteq> fst ` set owners"
      using v d unfolding o by (auto simp: ownership_violations_def filter_empty_conv dest!: not_None_eq [THEN iffD1] map_of_SomeD)
        (metis (no_types, lifting) case_prod_conv fst_conv image_eqI map_of_SomeD not_None_eq)
  qed
  then show ?thesis using own facts(1) by (auto split: option.splits)
qed

theorem story_owner_unique_witness:
  "deriveStoryOwnership story_plan story_slices (Some [''s1'', ''s2'']) = StoriesOwned [(''s1'', 1), (''s2'', 2)] \<and>
   (\<exists>s. s \<in> set story_slices \<and> ps_position s = 2 \<and> ''s2'' \<in> slice_cites (Some [''s1'', ''s2'']) story_plan s)"
  using story_owner_unique [OF story_owned, of "''s2''" 2] story_owned by simp

section \<open>Eligibility\<close>

text \<open>A plan that validates as sliced and is eligible for
  stacked delivery has a sign-off and tier M or L, is within its slice cap, has every position
  within the children the engine can address, one to nine, so that each has a branch of its own, and
  no custom step of the registry lies in the per-child region.\<close>

theorem eligible_children_addressable:
  assumes "validatePlanSlices text = SlicedPlan slices" "evaluateStackEligibility i = StackEligible"
    and "ei_slicePositions i = map ps_position slices" "slug \<noteq> []" "CHR ''/'' \<notin> set slug"
  shows "ei_approved i \<and> ei_tier i \<in> {Some TierM, Some TierL} \<and> int (length slices) \<le> ei_maxSlices i \<and>
    ei_regionCoupledSteps i = [] \<and>
    list_all (\<lambda>s. childBranchFor slug (ps_position s) = Inr (''feat/c'' @ int_str (ps_position s) @ ''/'' @ slug)) slices"
proof -
  have e: "ei_approved i" "ei_tier i \<in> {Some TierM, Some TierL}" "int (length slices) \<le> ei_maxSlices i"
    "ei_regionCoupledSteps i = []" "list_all (\<lambda>s. ps_position s \<le> 9) slices"
    using assms(2,3) by (auto simp: evaluateStackEligibility_def Let_def MAX_CHILD_ID_def filter_empty_conv list_all_iff
        split: if_splits)
  show ?thesis using e sliced_plan_facts [OF assms(1)] assms(4,5) by (auto simp: list_all_iff childBranchFor_Inr)
qed

end
