(* ===== verification/CursorProps.thy ===== *)
theory CursorProps
  imports ChildCursor PlanProps
begin

text \<open>
  What the cursor over a stack reports of a quiet repository, its agreement with the restack planner,
  the seal of the topology, and the end of a chain of rewrites.
\<close>

section \<open>A quiet repository\<close>

text \<open>
  While nobody moves a reference, \<open>R\<close> gives the commit of every reference and \<open>listed\<close> the closure
  references of a feature as they are listed; ancestry relates commits only.
\<close>

definition branch_ref :: "string \<Rightarrow> int \<Rightarrow> string" where
  "branch_ref slug child = ''refs/heads/feat/c'' @ int_str child @ ''/'' @ slug"

definition refs_known :: "'g git_runner \<Rightarrow> (string \<rightharpoonup> string) \<Rightarrow> bool" where
  "refs_known git R =
     ((\<forall>g ref g' x. git_call git [''show-ref'', ''--verify'', ''--quiet'', ref] g = (g', Some x) \<longrightarrow>
         (ga_exitCode x = 0 \<longrightarrow> R ref \<noteq> None) \<and> (ga_exitCode x = 1 \<longrightarrow> R ref = None)) \<and>
      (\<forall>g ref g' x. starts_with ref ''refs/'' \<and> git_call git [''rev-parse'', ''--verify'', ref] g = (g', Some x) \<and> ga_exitCode x = 0 \<longrightarrow>
         R ref = Some (js_trim (ga_stdout x))))"

definition ref_ancestry_known :: "'g git_runner \<Rightarrow> (string \<rightharpoonup> string) \<Rightarrow> (string \<Rightarrow> string \<Rightarrow> bool) \<Rightarrow> bool" where
  "ref_ancestry_known git R anc =
     ((\<forall>g a ref t g' x. R ref = Some t \<and> git_call git [''merge-base'', ''--is-ancestor'', a, ref] g = (g', Some x) \<longrightarrow>
         (ga_exitCode x = 0 \<longrightarrow> anc a t) \<and> (ga_exitCode x = 1 \<longrightarrow> \<not> anc a t)) \<and>
      (\<forall>g a ref t g' x. R ref = Some t \<and> git_call git [''rev-list'', a @ ''..'' @ ref] g = (g', Some x) \<and> ga_exitCode x = 0 \<longrightarrow>
         set (the (output_lines (Some x))) = {c. anc c t \<and> \<not> anc c a}))"

definition closures_listed :: "'g git_runner \<Rightarrow> (string \<Rightarrow> string) \<Rightarrow> bool" where
  "closures_listed git listed =
     (\<forall>g slug g' x. git_call git [''for-each-ref'', ''--format=%(refname) %(objectname)'', ''refs/conductor/'' @ slug @ ''/closed/''] g
         = (g', Some x) \<and> ga_exitCode x = 0 \<longrightarrow> ga_stdout x = listed slug)"

definition quiet_repository ::
  "'g git_runner \<Rightarrow> (string \<rightharpoonup> string) \<Rightarrow> (string \<Rightarrow> string) \<Rightarrow> (string \<Rightarrow> string \<Rightarrow> bool) \<Rightarrow> (string \<Rightarrow> string list) \<Rightarrow> bool" where
  "quiet_repository git R listed anc touched =
     (commit_history git anc touched \<and> refs_known git R \<and> ref_ancestry_known git R anc \<and> closures_listed git listed \<and>
      (\<forall>a b. anc a b \<longrightarrow> full_sha a))"

lemma refExists_law: "refs_known git R \<Longrightarrow> refExists git ref g = (g1, Some b) \<Longrightarrow> b \<longleftrightarrow> R ref \<noteq> None"
proof -
  let ?args = "[''show-ref'', ''--verify'', ''--quiet'', ref]"
  assume k: "refs_known git R" and e: "refExists git ref g = (g1, Some b)"
  then obtain y where y: "git_call git ?args g = (g1, Some y)" "(b \<and> ga_exitCode y = 0) \<or> (\<not> b \<and> ga_exitCode y = 1)"
    by (cases "git_call git ?args g") (auto simp: refExists_def exit_flag_iff)
  have "(ga_exitCode y = 0 \<longrightarrow> R ref \<noteq> None) \<and> (ga_exitCode y = 1 \<longrightarrow> R ref = None)"
    using k y(1) unfolding refs_known_def by blast
  with y(2) show ?thesis by auto
qed

lemma resolveTip_law: "refs_known git R \<Longrightarrow> starts_with ref ''refs/'' \<Longrightarrow> resolveTip git ref g = (g1, Some s) \<Longrightarrow> R ref = Some s"
proof -
  let ?args = "[''rev-parse'', ''--verify'', ref]"
  assume k: "refs_known git R" and p: "starts_with ref ''refs/''" and e: "resolveTip git ref g = (g1, Some s)"
  then obtain y where y: "git_call git ?args g = (g1, Some y)" "ga_exitCode y = 0" "s = js_trim (ga_stdout y)"
    by (cases "git_call git ?args g") (auto simp: resolveTip_def answer_sha_def answer_ok_iff split: if_splits dest: commit_sha_trim)
  then show ?thesis using k p unfolding refs_known_def by blast
qed

lemma ref_ancestor_law:
  assumes "ref_ancestry_known git R anc" "R ref = Some t" "isAncestor git a ref g = (g1, Some b)"
  shows "b \<longleftrightarrow> anc a t"
proof -
  let ?args = "[''merge-base'', ''--is-ancestor'', a, ref]"
  obtain y where y: "git_call git ?args g = (g1, Some y)" "(b \<and> ga_exitCode y = 0) \<or> (\<not> b \<and> ga_exitCode y = 1)"
    using assms(3) by (cases "git_call git ?args g") (auto simp: isAncestor_def exit_flag_iff)
  have "(ga_exitCode y = 0 \<longrightarrow> anc a t) \<and> (ga_exitCode y = 1 \<longrightarrow> \<not> anc a t)"
    using assms(1,2) y(1) unfolding ref_ancestry_known_def by blast
  with y(2) show ?thesis by auto
qed

lemma ref_revisions_law:
  assumes "ref_ancestry_known git R anc" "R ref = Some t" "git_call git [''rev-list'', a @ ''..'' @ ref] g = (g1, ans)"
    and "output_lines ans = Some shas"
  shows "set shas = {c. anc c t \<and> \<not> anc c a}"
proof -
  obtain x where x: "ans = Some x" "ga_exitCode x = 0" using assms(4) by (auto simp: output_lines_def answer_ok_iff split: if_splits)
  with assms(1-3) have "set (the (output_lines (Some x))) = {c. anc c t \<and> \<not> anc c a}" unfolding ref_ancestry_known_def by blast
  with assms(4) x(1) show ?thesis by simp
qed

section \<open>The specification of the cursor\<close>

definition past_work :: "(string \<rightharpoonup> string) \<Rightarrow> (string \<Rightarrow> string \<Rightarrow> bool) \<Rightarrow> (string \<Rightarrow> string list) \<Rightarrow> string \<Rightarrow> closure \<Rightarrow> bool" where
  "past_work R anc touched slug c =
     (\<exists>t k. R (branch_ref slug (cz_child c)) = Some t \<and> anc k t \<and> \<not> anc k (cz_tip c) \<and> \<not> halt_only slug (touched k))"

definition listed_closures :: "(string \<Rightarrow> string) \<Rightarrow> string \<Rightarrow> int list \<Rightarrow> closure list" where
  "listed_closures listed slug positions = List.map_filter (closure_of_line slug positions) (text_lines (listed slug))"

text \<open>A closed child is where it was closed, and an existing branch of the next child is built on its image.\<close>

definition closure_intact ::
  "(string \<rightharpoonup> string) \<Rightarrow> (string \<Rightarrow> string \<Rightarrow> bool) \<Rightarrow> string \<Rightarrow> int list \<Rightarrow> (string \<times> string) list \<Rightarrow> closure \<Rightarrow> bool" where
  "closure_intact R anc slug positions rewrites c =
     ((\<forall>t. R (branch_ref slug (cz_child c)) = Some t \<longrightarrow> anc (cz_tip c) t) \<and>
      (\<forall>successor t. position_after positions (cz_child c) = Some successor \<longrightarrow> successor \<noteq> last positions \<longrightarrow>
         R (branch_ref slug successor) = Some t \<longrightarrow> anc (resolveThroughMap (cz_tip c) rewrites) t))"

lemma childBranchFor_ref: "childBranchFor slug c = Inr b \<Longrightarrow> ''refs/heads/'' @ b = branch_ref slug c"
  by (auto simp: childBranchFor_Inr branch_ref_def)

section \<open>The loop over the closures\<close>

lemma scan_commits_law:
  assumes "commit_history git anc touched"
  shows "scan_commits git slug marker child shas c g = (g1, Some c') \<Longrightarrow> list_all full_sha shas \<Longrightarrow>
    cm_needsRepair c' \<longleftrightarrow> cm_needsRepair c \<or> (\<exists>k\<in>set shas. \<not> halt_only slug (touched k))"
proof (induction shas arbitrary: c g)
  case (Cons sha shas)
  obtain g2 h where h: "isHaltRecordOnly git sha slug g = (g2, Some h)" using Cons.prems(1) by (auto split: prod.splits option.splits)
  have hv: "h = halt_only slug (touched sha)" using halt_record_law [OF assms _ h] Cons.prems(2) by simp
  show ?case
  proof (cases h)
    case True
    with Cons h hv show ?thesis by auto
  next
    case False
    then obtain c2 g3 where c2: "scan_commits git slug marker child shas c2 g3 = (g1, Some c')" "cm_needsRepair c2"
      using Cons.prems(1) h by (auto simp: note_stamp_def split: option.splits prod.splits if_splits)
    with Cons.IH [OF c2(1)] Cons.prems(2) False hv show ?thesis by auto
  qed
qed simp

lemma note_repair_law: "cu_repair (note_repair env child c s) = cu_repair s @ (if cm_needsRepair c then [child] else [])"
  by (simp add: note_repair_def Let_def split: option.split)

lemma scan_branch_law:
  assumes "quiet_repository git R listed anc touched" "scan_branch git env c s g = (g1, r)"
  shows "case r of
      Inr s' \<Rightarrow> (\<forall>t. R (branch_ref (ce_slug env) (cz_child c)) = Some t \<longrightarrow> anc (cz_tip c) t) \<and>
        cu_repair s' = cu_repair s @ (if past_work R anc touched (ce_slug env) c then [cz_child c] else [])
    | Inl stop \<Rightarrow> stop = CursorGitError None \<or>
        (stop = Divergent (cz_child c) ClosedChildRewritten \<and> (\<exists>t. R (branch_ref (ce_slug env) (cz_child c)) = Some t \<and> \<not> anc (cz_tip c) t))"
proof -
  have q: "commit_history git anc touched" "refs_known git R" "ref_ancestry_known git R anc" "\<And>a b. anc a b \<Longrightarrow> full_sha a"
    using assms(1) by (auto simp: quiet_repository_def)
  let ?ref = "branch_ref (ce_slug env) (cz_child c)"
  show ?thesis
  proof (cases "childBranchFor (ce_slug env) (cz_child c)")
    case (Inl why)
    with assms(2) show ?thesis by (auto simp: scan_branch_def)
  next
    case (Inr branch)
    note ref = childBranchFor_ref [OF Inr]
    obtain g2 e where e: "refExists git ?ref g = (g2, e)" by fastforce
    consider "e = None" | "e = Some False" | "e = Some True" by (cases e) auto
    then show ?thesis
    proof cases
      case 1
      with assms(2) Inr e ref show ?thesis by (auto simp: scan_branch_def Let_def)
    next
      case 2
      with refExists_law [OF q(2) e [unfolded 2]] assms(2) Inr e ref show ?thesis
        by (auto simp: scan_branch_def Let_def past_work_def)
    next
      case 3
      obtain t where t: "R ?ref = Some t" using refExists_law [OF q(2) e [unfolded 3]] by auto
      obtain g3 a where a: "isAncestor git (cz_tip c) ?ref g2 = (g3, a)" by fastforce
      note anc = ref_ancestor_law [OF q(3) t]
      obtain g4 ans where ans: "git_call git [''rev-list'', cz_tip c @ ''..'' @ ?ref] g3 = (g4, ans)" by fastforce
      show ?thesis
      proof (cases "a = Some True \<and> output_lines ans \<noteq> None")
        case False
        with assms(2) Inr e 3 a ans t anc ref show ?thesis
          by (cases a; cases "the a") (auto simp: scan_branch_def Let_def)
      next
        case True
        then obtain shas where sh: "output_lines ans = Some shas" and at: "anc (cz_tip c) t" using anc a by auto
        let ?init = "\<lparr>cm_needsRepair = False, cm_allUnstamped = True, cm_foreignStamp = None\<rparr>"
        obtain g5 found where f: "scan_commits git (ce_slug env) (ce_marker env) (cz_child c) shas ?init g4 = (g5, found)" by fastforce
        note revs = ref_revisions_law [OF q(3) t ans sh]
        have r: "r = (case found of None \<Rightarrow> Inl (CursorGitError None) | Some x \<Rightarrow> Inr (note_repair env (cz_child c) x s))"
          using assms(2) Inr e 3 a ans True sh f ref by (auto simp: scan_branch_def Let_def split: option.splits)
        have "cm_needsRepair x \<longleftrightarrow> past_work R anc touched (ce_slug env) c" if "found = Some x" for x
          using scan_commits_law [OF q(1) f [unfolded that]] revs t q(4) by (auto simp: past_work_def list_all_iff)
        then show ?thesis using at t by (auto simp: r note_repair_law split: option.split)
      qed
    qed
  qed
qed

lemma scan_successor_law:
  assumes "quiet_repository git R listed anc touched" "scan_successor git env c s g = (g1, r)"
  shows "case r of
      Inr s' \<Rightarrow> cu_repair s' = cu_repair s \<and>
        (\<forall>successor t. position_after (ce_positions env) (cz_child c) = Some successor \<longrightarrow> successor \<noteq> last (ce_positions env) \<longrightarrow>
           R (branch_ref (ce_slug env) successor) = Some t \<longrightarrow> anc (resolveThroughMap (cz_tip c) (ce_rewrites env)) t)
    | Inl stop \<Rightarrow> stop = CursorGitError None \<or> (\<exists>k. stop = Divergent k RangeNotAncestor)"
proof (cases "position_after (ce_positions env) (cz_child c)")
  case None
  with assms(2) show ?thesis by (auto simp: scan_successor_def)
next
  case (Some successor)
  have q: "refs_known git R" "ref_ancestry_known git R anc" using assms(1) by (auto simp: quiet_repository_def)
  show ?thesis
  proof (cases "successor = last (ce_positions env)")
    case True
    with assms(2) Some show ?thesis
      by (auto simp: scan_successor_def Let_def split: prod.splits option.splits bool.splits if_splits)
  next
    case False
    show ?thesis
    proof (cases "childBranchFor (ce_slug env) successor")
      case (Inl why)
      with assms(2) Some False show ?thesis by (auto simp: scan_successor_def)
    next
      case (Inr branch)
      note ref = childBranchFor_ref [OF Inr]
      let ?ref = "branch_ref (ce_slug env) successor" and ?image = "resolveThroughMap (cz_tip c) (ce_rewrites env)"
      obtain g2 e where e: "refExists git ?ref g = (g2, e)" by fastforce
      consider "e = None" | "e = Some False" | "e = Some True" by (cases e) auto
      then show ?thesis
      proof cases
        case 1
        with assms(2) Some False Inr e ref show ?thesis by (auto simp: scan_successor_def Let_def)
      next
        case 2
        with refExists_law [OF q(1) e [unfolded 2]] assms(2) Some False Inr e ref show ?thesis
          by (auto simp: scan_successor_def Let_def)
      next
        case 3
        obtain t where t: "R ?ref = Some t" using refExists_law [OF q(1) e [unfolded 3]] by auto
        obtain g3 a where a: "isAncestor git ?image ?ref g2 = (g3, a)" by fastforce
        with ref_ancestor_law [OF q(2) t] assms(2) Some False Inr e 3 ref t show ?thesis
          by (cases a; cases "the a") (auto simp: scan_successor_def Let_def)
      qed
    qed
  qed
qed

lemma scan_closures_law:
  assumes "quiet_repository git R listed anc touched"
  shows "scan_closures git env closed s g = (g1, r) \<Longrightarrow> case r of
      Inr s' \<Rightarrow> list_all (closure_intact R anc (ce_slug env) (ce_positions env) (ce_rewrites env)) closed \<and>
        cu_repair s' = cu_repair s @ map cz_child (filter (past_work R anc touched (ce_slug env)) closed)
    | Inl stop \<Rightarrow> stop = CursorGitError None \<or> (\<exists>k. stop = Divergent k RangeNotAncestor) \<or>
        (\<exists>c\<in>set closed. stop = Divergent (cz_child c) ClosedChildRewritten \<and>
           (\<exists>t. R (branch_ref (ce_slug env) (cz_child c)) = Some t \<and> \<not> anc (cz_tip c) t))"
proof (induction closed arbitrary: s g)
  case (Cons c closed)
  obtain g2 r2 where b: "scan_branch git env c s g = (g2, r2)" by fastforce
  note branch = scan_branch_law [OF assms b]
  show ?case
  proof (cases r2)
    case (Inl stop)
    with Cons.prems b branch show ?thesis by auto
  next
    case r2: (Inr s2)
    obtain g3 r3 where d: "scan_successor git env c s2 g2 = (g3, r3)" by fastforce
    note successor = scan_successor_law [OF assms d]
    show ?thesis
    proof (cases r3)
      case (Inl stop)
      with Cons.prems b r2 d successor show ?thesis by auto
    next
      case (Inr s3)
      with Cons.prems b r2 d have "scan_closures git env closed s3 g3 = (g1, r)" by simp
      from Cons.IH [OF this] branch successor r2 Inr show ?thesis
        by (cases r) (auto simp: closure_intact_def)
    qed
  qed
qed auto

section \<open>The answer\<close>

text \<open>The first declared position that is not closed, and the last one when all before it are.\<close>

definition first_open :: "int list \<Rightarrow> int set \<Rightarrow> int \<Rightarrow> bool" where
  "first_open positions closed p =
     (\<exists>earlier later. positions = earlier @ p # later \<and> set earlier \<subseteq> closed \<and> (p \<notin> closed \<or> later = []))"

lemma first_open_active: "positions \<noteq> [] \<Longrightarrow> first_open positions (set closed) (active_position positions closed)"
proof -
  assume ne: "positions \<noteq> []"
  let ?P = "\<lambda>p. p \<notin> set closed"
  show ?thesis
  proof (cases "filter ?P (butlast positions)")
    case Nil
    then have "set (butlast positions) \<subseteq> set closed" by (auto simp: filter_empty_conv)
    moreover have "positions = butlast positions @ last positions # []" using ne by simp
    ultimately show ?thesis using Nil unfolding first_open_def active_position_def by (metis list.case(1))
  next
    case (Cons p rest)
    from filter_eq_ConsD [OF Cons] obtain us vs where "butlast positions = us @ p # vs" "\<forall>u\<in>set us. \<not> ?P u" "?P p" by auto
    moreover have "positions = butlast positions @ [last positions]" using ne by simp
    ultimately have "positions = us @ p # vs @ [last positions]" "set us \<subseteq> set closed" "p \<notin> set closed" by auto
    then show ?thesis using Cons unfolding first_open_def active_position_def by (metis list.case(2))
  qed
qed

lemma active_of_child: "active_of slug positions closed pending = Some a \<Longrightarrow> at_child a = active_position positions closed"
  by (auto simp: active_of_def Let_def split: sum.splits if_splits)

lemma with_routing_child [simp]: "at_child (with_routing m q a) = at_child a"
  by (simp add: with_routing_def)

lemma conclude_law:
  assumes "conclude git env queue closed s g = (g1, r)"
  shows "case r of
      ActiveChild a \<Rightarrow> at_child a = active_position (ce_positions env) closed \<and> cu_repair s = []
    | RepairPendingChild a t \<Rightarrow> at_child a = active_position (ce_positions env) closed \<and> rt_repairChildren t = cu_repair s \<and> cu_repair s \<noteq> []
    | Divergent _ _ \<Rightarrow> False
    | _ \<Rightarrow> True"
  using assms by (auto simp: conclude_def Let_def active_of_child split: option.splits if_splits prod.splits bool.splits dest!: active_of_child)

text \<open>What the answer says of the stack: the child worked on, the children to repair, the closures.\<close>

definition stack_answer ::
  "(string \<rightharpoonup> string) \<Rightarrow> (string \<Rightarrow> string \<Rightarrow> bool) \<Rightarrow> (string \<Rightarrow> string list) \<Rightarrow> string \<Rightarrow> int list \<Rightarrow> (string \<times> string) list \<Rightarrow>
     closure list \<Rightarrow> active_target \<Rightarrow> int list \<Rightarrow> bool" where
  "stack_answer R anc touched slug positions rewrites closed a repairs =
     (first_open positions (set (map cz_child closed)) (at_child a) \<and>
      repairs = map cz_child (filter (past_work R anc touched slug) closed) \<and>
      list_all (closure_intact R anc slug positions rewrites) closed)"

lemma closedChildren_law:
  assumes "closures_listed git listed" "closedChildren git slug positions g = (g1, Some closed)"
  shows "closed = listed_closures listed slug positions"
proof -
  let ?args = "[''for-each-ref'', ''--format=%(refname) %(objectname)'', ''refs/conductor/'' @ slug @ ''/closed/'']"
  obtain ans where a: "git_call git ?args g = (g1, ans)" "answer_ok ans"
    and c: "closed = List.map_filter (closure_of_line slug positions) (text_lines (ga_stdout (the ans)))"
    using assms(2) by (auto simp: closedChildren_def split: prod.splits if_splits)
  then obtain x where x: "ans = Some x" "ga_exitCode x = 0" by (auto simp: answer_ok_iff)
  have "ga_stdout x = listed slug" using assms(1) a(1) x unfolding closures_listed_def by blast
  with c x show ?thesis by (simp add: listed_closures_def)
qed

lemma resolve_stack_cases:
  assumes "resolve_stack git slug positions rf marker route queue g = (g', r)"
  shows "r \<in> {CursorGitError None, DetachedHead} \<or>
    (\<exists>g1 g2 g3 closed env. closedChildren git slug positions g1 = (g2, Some closed) \<and> readRewriteMap rf = Some (ce_rewrites env) \<and>
       ce_slug env = slug \<and> ce_positions env = positions \<and> scan_stack git env queue closed g3 = (g', r))"
proof -
  obtain g1 symbolic where s: "git_call git [''symbolic-ref'', ''-q'', ''HEAD''] g = (g1, symbolic)" by fastforce
  obtain g2 found where c: "closedChildren git slug positions g1 = (g2, found)" by fastforce
  obtain g3 moved where m: "hasLeafMovedMarker git slug g2 = (g3, moved)" by fastforce
  show ?thesis
  proof (cases "exit_flag symbolic = Some True \<and> found \<noteq> None \<and> readRewriteMap rf \<noteq> None \<and> moved \<noteq> None")
    case True
    then obtain closed rw b where "found = Some closed" "readRewriteMap rf = Some rw" "moved = Some b" "exit_flag symbolic = Some True" by auto
    with assms s c m show ?thesis by (auto simp: resolve_stack_def intro!: exI)
  next
    case False
    with assms s c m show ?thesis
      by (cases "exit_flag symbolic"; cases "the (exit_flag symbolic)"; cases found; cases "readRewriteMap rf"; cases moved)
         (auto simp: resolve_stack_def)
  qed
qed

lemma cursor_answer:
  assumes "quiet_repository git R listed anc touched" "positions \<noteq> []"
    and "resolve_stack git slug positions rf marker route queue g = (g', r)"
  shows "case r of
      ActiveChild a \<Rightarrow> stack_answer R anc touched slug positions (the (readRewriteMap rf)) (listed_closures listed slug positions) a []
    | RepairPendingChild a t \<Rightarrow>
        stack_answer R anc touched slug positions (the (readRewriteMap rf)) (listed_closures listed slug positions) a (rt_repairChildren t)
        \<and> rt_repairChildren t \<noteq> []
    | Divergent child ClosedChildRewritten \<Rightarrow>
        \<exists>c t. c \<in> set (listed_closures listed slug positions) \<and> cz_child c = child \<and>
          R (branch_ref slug child) = Some t \<and> \<not> anc (cz_tip c) t
    | _ \<Rightarrow> True"
proof -
  let ?closed = "listed_closures listed slug positions"
  have lists: "closures_listed git listed" using assms(1) by (simp add: quiet_repository_def)
  consider "r \<in> {CursorGitError None, DetachedHead}"
    | g1 g2 g3 cs env where "closedChildren git slug positions g1 = (g2, Some cs)" "readRewriteMap rf = Some (ce_rewrites env)"
      "ce_slug env = slug" "ce_positions env = positions" "scan_stack git env queue cs g3 = (g', r)"
    using resolve_stack_cases [OF assms(3)] by blast
  then show ?thesis 
  proof cases
    case 1
    then show ?thesis by auto
  next
    case (2 g1 g2 g3 cs env)
    have cs: "cs = ?closed" by (rule closedChildren_law [OF lists 2(1)])
    obtain g4 q where q: "scan_closures git env ?closed initial_scan g3 = (g4, q)" by fastforce
    note scan = scan_closures_law [OF assms(1) q]
    show ?thesis
    proof (cases q)
      case (Inl stop)
      then have "r = stop" using 2(5) q cs by (simp add: scan_stack_def)
      with scan Inl 2(3) show ?thesis by (auto split: plan_refusal.split)
    next
      case (Inr s)
      then have "conclude git env queue (map cz_child ?closed) s g4 = (g', r)" using 2(5) q cs by (simp add: scan_stack_def)
      from conclude_law [OF this] scan Inr 2(2-4) first_open_active [OF assms(2), of "map cz_child ?closed"] show ?thesis
        by (cases r) (auto simp: stack_answer_def initial_scan_def)
    qed
  qed
qed

text \<open>C7: over a quiet repository the cursor answers with the stack's state. A
  child is only reported, as active or with repairs pending, when every closed child still carries
  its closure and every started successor, other than the leaf, is built on the rewritten image of it;
  it is the first declared position that is not closed, or the leaf; and the children to repair are exactly the closed ones with a commit past their closure that is more than a halt
  record, of which an active child has none. A divergence on a rewritten child names a
  closed child whose branch lost its closure.\<close>

theorem cursor_sound:
  assumes "quiet_repository git R listed anc touched" "positions \<noteq> []"
    and "resolve_stack git slug positions rf marker route queue g = (g', r)"
  defines "closed \<equiv> listed_closures listed slug positions"
  shows "case r of
      ActiveChild a \<Rightarrow> stack_answer R anc touched slug positions (the (readRewriteMap rf)) closed a []
    | RepairPendingChild a t \<Rightarrow>
        stack_answer R anc touched slug positions (the (readRewriteMap rf)) closed a (rt_repairChildren t) \<and> rt_repairChildren t \<noteq> []
    | Divergent child ClosedChildRewritten \<Rightarrow>
        \<exists>c t. c \<in> set closed \<and> cz_child c = child \<and> R (branch_ref slug child) = Some t \<and> \<not> anc (cz_tip c) t
    | _ \<Rightarrow> True"
  unfolding closed_def by (rule cursor_answer [OF assms(1-3)])

section \<open>The cursor and the planner\<close>

definition as_closure :: "closed_child \<Rightarrow> closure" where
  "as_closure e = \<lparr>cz_child = cl_child e, cz_tip = cl_closureTip e\<rparr>"

lemma commit_sha_same: "parseCommitSha s = Some t \<Longrightarrow> t = s"
  by (simp add: parseCommitSha_def split: if_splits)

lemma read_closed_line:
  assumes "read_closed git slug (line # rest) g = (g1, Some cs)"
  obtains (skip) g2 where "read_closed git slug rest g2 = (g1, Some cs)" "closure_of_line slug positions line = None"
  | (closed) e g2 g3 ds where "cs = e # ds" "read_closed git slug rest g3 = (g1, Some ds)"
      "resolveTip git (branch_ref slug (cl_child e)) g2 = (g3, Some (cl_branchTip e))"
      "cl_child e \<in> set positions \<Longrightarrow> closure_of_line slug positions line = Some (as_closure e)"
proof (cases "js_words line")
  case Nil
  with assms that(1) [of g] show ?thesis by (simp add: closure_of_line_def)
next
  case (Cons ref more)
  show ?thesis
  proof (cases more)
    case Nil
    with Cons assms that(1) [of g] show ?thesis by (simp add: closure_of_line_def)
  next
    case m: (Cons tip more2)
    show ?thesis
    proof (cases "starts_with ref (closed_prefix slug)")
      case False
      with Cons m assms that(1) [of g] show ?thesis by (simp add: closure_of_line_def)
    next
      case True
      let ?raw = "drop (length (closed_prefix slug)) ref"
      obtain child closureTip branch where c: "parseChildId (RawStr ?raw) = Some child" "parseCommitSha tip = Some closureTip"
        "childBranchFor slug child = Inr branch" "?raw = int_str child"
        using assms Cons m True by (auto simp: Let_def rawRefForBranch_def split: option.splits sum.splits if_splits)
      obtain g2 branchTip ds where r: "resolveTip git (''refs/heads/'' @ branch) g = (g2, Some branchTip)"
        "read_closed git slug rest g2 = (g1, Some ds)"
        "cs = \<lparr>cl_child = child, cl_closureTip = closureTip, cl_branchRef = ''refs/heads/'' @ branch, cl_branchTip = branchTip\<rparr> # ds"
        using assms Cons m True c by (auto simp: Let_def rawRefForBranch_def split: option.splits prod.splits if_splits)
      show ?thesis
        by (rule that(2) [OF r(3) r(2), of g])
           (use r(1) c Cons m True childBranchFor_ref [OF c(3)] commit_sha_same [OF c(2)]
             in \<open>auto simp: closure_of_line_def Let_def as_closure_def\<close>)
    qed
  qed
qed

lemma read_closed_listed:
  assumes "refs_known git R"
  shows "read_closed git slug ls g = (g1, Some cs) \<Longrightarrow> cl_child ` set cs \<subseteq> set positions \<Longrightarrow>
    List.map_filter (closure_of_line slug positions) ls = map as_closure cs \<and>
    (\<forall>e\<in>set cs. R (branch_ref slug (cl_child e)) = Some (cl_branchTip e))"
proof (induction ls arbitrary: g cs)
  case Nil
  then show ?case by (simp add: map_filter_def)
next
  case (Cons line ls)
  from Cons.prems(1) show ?case
  proof (cases rule: read_closed_line [where positions = positions])
    case (skip g2)
    with Cons show ?thesis by (simp add: map_filter_simps)
  next
    case (closed e g2 g3 ds)
    have "starts_with (branch_ref slug (cl_child e)) ''refs/''" by (simp add: branch_ref_def starts_with_def)
    then have "R (branch_ref slug (cl_child e)) = Some (cl_branchTip e)" using resolveTip_law [OF assms _ closed(3)] by simp
    with Cons.IH [OF closed(2)] closed Cons.prems(2) show ?thesis by (simp add: map_filter_simps)
  qed
qed

lemma closed_children_listed:
  assumes "quiet_repository git R listed anc touched" "readClosedChildren git slug g = (g1, Some cs)" "cl_child ` set cs \<subseteq> set positions"
  shows "\<exists>ds. cs = sort_key cl_child ds \<and> listed_closures listed slug positions = map as_closure ds \<and>
    (\<forall>e\<in>set ds. R (branch_ref slug (cl_child e)) = Some (cl_branchTip e))"
proof -
  let ?args = "[''for-each-ref'', ''--format=%(refname) %(objectname)'', ''refs/conductor/'' @ slug @ ''/closed/'']"
  have q: "refs_known git R" "closures_listed git listed" using assms(1) by (auto simp: quiet_repository_def)
  obtain g2 ans ds where a: "git_call git ?args g = (g2, ans)" "answer_ok ans"
    and r: "read_closed git slug (split_on (CHR 0x0A) (ga_stdout (the ans))) g2 = (g1, Some ds)" and c: "cs = sort_key cl_child ds"
    using assms(2) by (auto simp: readClosedChildren_def map_prod_Some split: prod.splits if_splits)
  then obtain x where x: "ans = Some x" "ga_exitCode x = 0" by (auto simp: answer_ok_iff)
  have "ga_stdout x = listed slug" using q(2) a(1) x unfolding closures_listed_def by blast
  moreover have "cl_child ` set ds \<subseteq> set positions" using assms(3) c by simp
  ultimately show ?thesis
    using read_closed_listed [OF q(1) r] c x(1) by (auto simp: listed_closures_def text_lines_def)
qed

lemma same_work: "R (branch_ref slug (cl_child e)) = Some (cl_branchTip e) \<Longrightarrow>
    past_work R anc touched slug (as_closure e) = carries_work anc touched slug e"
  by (simp add: past_work_def carries_work_def as_closure_def)

lemma sorted_repairs:
  "sort (map cl_child (filter P ds)) = map cl_child (filter P (sort_key cl_child ds))"
proof (rule properties_for_sort)
  show "mset (map cl_child (filter P (sort_key cl_child ds))) = mset (map cl_child (filter P ds))" by simp
  have "sorted (map cl_child (sort_key cl_child ds))" by simp
  then show "sorted (map cl_child (filter P (sort_key cl_child ds)))" by (rule sorted_filter)
qed

text \<open>C16: the cursor and the restack planner see the same repairs. For
  a quiet stack whose closed children are all declared, when the planner plans a repair of the
  feature, the children it lets originate are exactly those the cursor reports as pending repair, an
  active child is reported exactly of a stack without any, and the cursor reports no rewritten child.\<close>

theorem cursor_agrees_with_planner:
  assumes "quiet_repository git R listed anc touched" "full_sha (po_oldDefaultTip opts)" "positions \<noteq> []"
    and plan: "planRestackRanges git opts g = (g', Planned ranges originating)"
    and declared: "case readClosedChildren git (po_slug opts) g of (_, Some cs) \<Rightarrow> cl_child ` set cs \<subseteq> set positions | _ \<Rightarrow> True"
    and cursor: "resolve_stack git (po_slug opts) positions rf marker route queue h = (h', r)"
  shows "case r of
      ActiveChild _ \<Rightarrow> originating = []
    | RepairPendingChild _ t \<Rightarrow> originating = sort (rt_repairChildren t) \<and> originating \<noteq> []
    | Divergent _ ClosedChildRewritten \<Rightarrow> False
    | _ \<Rightarrow> True"
proof -
  let ?slug = "po_slug opts"
  have history: "commit_history git anc touched" using assms(1) by (simp add: quiet_repository_def)
  obtain g1 cs where cs: "readClosedChildren git ?slug g = (g1, Some cs)" and j: "plan_justified git anc touched opts cs (Planned ranges originating)"
    using planned_outcome [OF history assms(2) plan] by blast
  obtain ds where ds: "cs = sort_key cl_child ds" "listed_closures listed ?slug positions = map as_closure ds"
    "\<And>e. e \<in> set ds \<Longrightarrow> R (branch_ref ?slug (cl_child e)) = Some (cl_branchTip e)"
    using closed_children_listed [OF assms(1) cs, of positions] declared unfolding cs prod.case option.case by blast
  have originating: "originating = sort (map cl_child (filter (carries_work anc touched ?slug) ds))"
    using j ds(1) by (auto simp: plan_justified_def Let_def sorted_repairs)
  have intact: "anc (cl_closureTip e) (cl_branchTip e)" if "e \<in> set ds" for e
    using j ds(1) that by (auto simp: plan_justified_def Let_def list_all_iff)
  have repairs: "map cz_child (filter (past_work R anc touched ?slug) (map as_closure ds)) = map cl_child (filter (carries_work anc touched ?slug) ds)"
    using same_work ds(3) by (induction ds) (auto simp: as_closure_def)
  note sound = cursor_answer [OF assms(1,3) cursor, unfolded ds(2)]
  have "\<not> (\<exists>c t. c \<in> set (map as_closure ds) \<and> cz_child c = k \<and> R (branch_ref ?slug k) = Some t \<and> \<not> anc (cz_tip c) t)" for k
    using intact ds(3) by (auto simp: as_closure_def)
  moreover have "sort xs = [] \<longleftrightarrow> xs = []" for xs :: "int list" by (metis length_0_conv length_sort)
  ultimately show ?thesis using sound repairs originating
    by (auto simp: stack_answer_def split: child_resolution.splits plan_refusal.splits)
qed

section \<open>The small stack\<close>

lemma stack_ref_commit: "map_of stack_refs r = Some t \<Longrightarrow> t \<in> set stack_commits \<and> js_trim t = t \<and> CHR ''.'' \<notin> set r \<and> stack_commit r = t"
proof -
  assume r: "map_of stack_refs r = Some t"
  then have "t \<in> set stack_commits \<and> CHR ''.'' \<notin> set r"
    by (auto simp: stack_refs_def stack_commits_def split: if_splits)
  with r stack_commit_facts show ?thesis by (auto simp: stack_commit_def)
qed

lemma stack_revision: "stack_commit b \<in> set stack_commits \<Longrightarrow> CHR ''.'' \<notin> set b"
proof (cases "map_of stack_refs b")
  case (Some t)
  with stack_ref_commit show ?thesis by blast
next
  case None
  assume "stack_commit b \<in> set stack_commits"
  with None stack_commit_facts show ?thesis by (auto simp: stack_commit_def)
qed

lemma stack_revisions:
  assumes "map_of stack_refs ref = Some t"
  shows "stack_range (a @ ''..'' @ ref) = (if a \<in> set stack_commits then tiny_answer 0 (lines_text (past a t)) None else None)"
proof (cases "CHR ''.'' \<in> set a")
  case False
  then have "takeWhile (\<lambda>c. c \<noteq> CHR ''.'') (a @ ''..'' @ ref) = a" by (subst takeWhile_append2) auto
  with stack_ref_commit [OF assms] show ?thesis by (simp add: stack_range_def Let_def)
next
  case True
  then have a: "a \<notin> set stack_commits" using stack_commit_facts by blast
  from True obtain us vs where a2: "a = us @ CHR ''.'' # vs" "CHR ''.'' \<notin> set us" by (meson split_list_first)
  then have t: "takeWhile (\<lambda>c. c \<noteq> CHR ''.'') (a @ ''..'' @ ref) = us" by (simp add: takeWhile_append)
  have "CHR ''.'' \<in> set (drop (length us + 2) (a @ ''..'' @ ref))" using a2 by (cases vs) auto
  then have "stack_commit (drop (length us + 2) (a @ ''..'' @ ref)) \<notin> set stack_commits" using stack_revision by blast
  with a show ?thesis unfolding stack_range_def Let_def t by argo
qed

lemma stack_rev_list: "git_call stack_git [''rev-list'', r] g = (g, stack_range r)"
  by (simp add: git_call_def stack_git_def)

lemma stack_quiet: "quiet_repository stack_git (map_of stack_refs) (\<lambda>_. stack_closures) stack_anc stack_touched"
proof -
  have "refs_known stack_git (map_of stack_refs)"
    using stack_ref_commit by (auto simp: refs_known_def git_call_def stack_git_def tiny_answer_def split: if_splits option.splits)
  moreover have "ref_ancestry_known stack_git (map_of stack_refs) stack_anc"
  proof -
    have "(ga_exitCode x = 0 \<longrightarrow> stack_anc a t) \<and> (ga_exitCode x = 1 \<longrightarrow> \<not> stack_anc a t)"
      if "map_of stack_refs ref = Some t" "git_call stack_git [''merge-base'', ''--is-ancestor'', a, ref] g = (g', Some x)" for a ref t g g' x
      using that stack_ref_commit [OF that(1)] by (auto simp: git_call_def stack_git_def tiny_answer_def split: if_splits)
    moreover have "set (the (output_lines (Some x))) = {c. stack_anc c t \<and> \<not> stack_anc c a}"
      if "map_of stack_refs ref = Some t" "git_call stack_git [''rev-list'', a @ ''..'' @ ref] g = (g', Some x)" for a ref t g g' x
      using that(2) unfolding stack_rev_list stack_revisions [OF that(1)] by (auto split: if_splits dest: stack_past)
    ultimately show ?thesis unfolding ref_ancestry_known_def by blast
  qed
  moreover have "closures_listed stack_git (\<lambda>_. stack_closures)"
    by (auto simp: closures_listed_def git_call_def stack_git_def tiny_answer_def)
  moreover have "full_sha c" if "c \<in> set stack_commits" for c
    using that by (auto simp: stack_commits_def stack_sha_def full_sha_def parseCommitSha_def list_all_iff hex_lower_def is_digit_def)
  ultimately show ?thesis using stack_history stack_anc_commits by (auto simp: quiet_repository_def)
qed

theorem cursor_sound_witness:
  "stack_answer (map_of stack_refs) stack_anc stack_touched ''demo'' [1, 2, 3] []
     (listed_closures (\<lambda>_. stack_closures) ''demo'' [1, 2, 3]) stack_target [1]"
  using cursor_sound [OF stack_quiet _ stack_resolved] by (simp add: readRewriteMap_def)

theorem cursor_agrees_with_planner_witness:
  "\<exists>ranges. planRestackRanges stack_git stack_options () = ((), Planned ranges [1])"
proof -
  have f: "full_sha (po_oldDefaultTip stack_options)" "po_slug stack_options = ''demo''" by (simp_all add: stack_options_def stack_full)
  have "[1] = sort [1 :: int] \<and> [1 :: int] \<noteq> []"
    using cursor_agrees_with_planner [OF stack_quiet f(1) _ stack_planned [unfolded stack_plan_def], of "[1, 2, 3]"] stack_declared stack_resolved
    by (simp add: f(2))
  then show ?thesis using stack_planned by (auto simp: stack_plan_def)
qed

end
