(* ===== verification/TopologyProps.thy ===== *)
theory TopologyProps
  imports ChildCursor SliceProps
begin

text \<open>
  The seal of a stack: once a child exists the plan's positions are those that were recorded, and the
  end of a chain of rewrites.
\<close>

lemma slices_ascend: "validatePlanSlices text = SlicedPlan slices \<Longrightarrow> sorted (map ps_position slices)"
  by (auto simp: validatePlanSlices_def Let_def split: if_splits)

text \<open>What the feature's reference records, and what a plan that validates declares.\<close>

definition recorded_positions :: "'g git_runner \<Rightarrow> string \<Rightarrow> 'g \<Rightarrow> 'g \<Rightarrow> int list \<Rightarrow> bool" where
  "recorded_positions git slug g g' ps =
     (\<exists>x. git_call git [''cat-file'', ''-p'', ''refs/conductor/'' @ slug @ ''/positions''] g = (g', Some x) \<and>
        ga_exitCode x = 0 \<and> parseRecordedPositions (ga_json x) = Some ps)"

definition declares :: "string \<Rightarrow> int list \<Rightarrow> bool" where
  "declares text ps =
     (case validatePlanSlices text of
        SlicedPlan slices \<Rightarrow> ps = map ps_position slices
      | UnslicedPlan \<Rightarrow> ps = []
      | InvalidSlices _ \<Rightarrow> False)"

lemma verified_positions:
  assumes "verifySlicePositions children hasGit git slug positions (Some (Some True)) g = (g', f)" "sorted positions"
  shows "f = None \<Longrightarrow> recorded_positions git slug g g' positions"
    "f = Some failure \<Longrightarrow> tf_cause failure = PositionsChanged \<Longrightarrow>
      \<exists>old. recorded_positions git slug g g' old \<and> old \<noteq> positions \<and> tf_recorded failure = Some old \<and> tf_planned failure = Some positions"
    "recorded_positions git slug g g' old \<Longrightarrow> old \<noteq> positions \<Longrightarrow> \<exists>failure. f = Some failure \<and> tf_cause failure = PositionsChanged"
  using assms sorted_sort_id [OF assms(2)]
  by (auto simp: verifySlicePositions_def recorded_positions_def failed_for_def Let_def split: prod.splits option.splits if_splits)



section \<open>Chains of rewrites\<close>

text \<open>
  Without a cycle the resolution of a commit is the end of its chain of rewrites, and no rewritten
  commit is ever the answer.
\<close>

definition rewritten :: "(string \<times> string) list \<Rightarrow> (string \<times> string) set" where
  "rewritten m = {(a, b). map_of m a = Some b}"

lemma follow_map_chain:
  "(\<And>x. x \<in> set seen \<Longrightarrow> (x, c) \<in> (rewritten m)\<^sup>+) \<Longrightarrow> acyclic (rewritten m) \<Longrightarrow>
   (c, follow_map m seen c) \<in> (rewritten m)\<^sup>* \<and> map_of m (follow_map m seen c) = None"
proof (induction m seen c rule: follow_map.induct)
  case (1 m seen c)
  show ?case
  proof (cases "map_of m c")
    case None
    then show ?thesis by (subst (1 2) follow_map.simps) simp
  next
    case (Some s)
    then have step: "(c, s) \<in> rewritten m" by (simp add: rewritten_def)
    have fresh: "c \<notin> set seen" using 1(2) [of c] 1(3) by (auto simp: acyclic_def)
    have "\<And>x. x \<in> set (c # seen) \<Longrightarrow> (x, s) \<in> (rewritten m)\<^sup>+" using 1(2) step by (auto intro: trancl_into_trancl)
    from 1(1) [OF Some fresh this 1(3)] Some fresh step show ?thesis
      by (subst (1 2) follow_map.simps) (auto intro: converse_rtrancl_into_rtrancl)
  qed
qed

text \<open>The commit a rewrite map resolves to is the end of the chain of
  rewrites that starts at the given commit, whenever the map has no cycle.\<close>

theorem rewrite_chain_end:
  assumes "acyclic (rewritten m)"
  shows "(sha, resolveThroughMap sha m) \<in> (rewritten m)\<^sup>* \<and> map_of m (resolveThroughMap sha m) = None"
  unfolding resolveThroughMap_def by (rule follow_map_chain) (use assms in auto)

end
