(* ===== verification/Spec2Isabelle.thy ===== *)
theory Spec2Isabelle
  imports Registry StoreProps VerdictProps ResumeProps LadderProps KickbackProps KickbackBudget
    LeaseSafety GateInvalidation RebaseTransition Timing WhenExpr GroupProps RateLimit
    CascadeProps JournalProps RouteProps ReceiptProps BranchName PlanProps SliceProps CursorProps TopologyProps
begin

text \<open>
  Verification library of the conductor engine (\<^verbatim>\<open>src/conductor/src\<close>), the part of the
  repository that drives a feature through its steps: it decides which step runs next, under which
  model and provider, what is durably recorded about it, and how often a failed gate may send the
  feature back to BUILD. The theories follow the modules of the engine; source paths below are
  relative to \<^verbatim>\<open>src/conductor/src\<close>.

  \<^bold>\<open>How the parts interact.\<close> A configuration is assembled into a step registry
  (\<^verbatim>\<open>engine/steps.ts\<close>). The loop keeps one flat state document per feature, and one per
  stacked child, written only through a compare-and-set store under a lease
  (\<^verbatim>\<open>engine/state.ts\<close>, \<^verbatim>\<open>engine/filesystem-conduct-state-store.ts\<close>,
  \<^verbatim>\<open>engine/conduct-state-store.ts\<close>). After a step the loop recomputes the gate's verdict file
  (\<^verbatim>\<open>engine/gate-verdicts.ts\<close>); the selector (\<^verbatim>\<open>engine/selector.ts\<close>) reads state and
  verdicts and picks the earliest open gate; a restarted run finds its entry with
  \<^verbatim>\<open>engine/resume-entry.ts\<close>. \<^verbatim>\<open>Conductor.advanceTail\<close> ties these together after every step, and
  a daemon enters the DECIDE phase only with an operator's grant (\<^verbatim>\<open>engine/decide-entry-policy.ts\<close>). A dispatch resolves its model policy, walks the fallback ladder
  and respects provider suppressions (\<^verbatim>\<open>engine/provider-model-policy.ts\<close>,
  \<^verbatim>\<open>engine/escalation.ts\<close>, \<^verbatim>\<open>engine/model-availability.ts\<close>,
  \<^verbatim>\<open>engine/provider-availability.ts\<close>). A gate that fails kicks the feature back and spends
  from the kickback ledger (\<^verbatim>\<open>engine/kickback-ledger.ts\<close>). State documents and ledger are
  written under a lease directory that a contender may take over from a dead owner
  (\<^verbatim>\<open>engine/conduct-state-lease.ts\<close>). A rebase onto a moved base decides which judged gates
  keep their verdicts (\<^verbatim>\<open>engine/gate-invalidation.ts\<close>) and applies the decision across state,
  verdicts and ledger (\<^verbatim>\<open>engine/rebase-transition.ts\<close>). The event ledgers of a feature are rolled up
  into measured times (\<^verbatim>\<open>engine/timing-rollup.ts\<close>, \<^verbatim>\<open>engine/execution-identity.ts\<close>). A feature that is a
  stack of children keeps its shared state in git references: the journal of a restack, the cascade counters, and
  the records of repairs that whole-feature gates route back to a child (\<^verbatim>\<open>engine/restack\<close>,
  \<^verbatim>\<open>engine/routing\<close>); their receipts are charged to the same kickback ledger.

  \<^bold>\<open>Conventions.\<close> A thrown error is \<open>Inl message\<close> of the sum type \<open>throws\<close>; a JSON value is
  \<open>jval\<close> with numbers as \<open>int\<close>; an object that is read by key is a map from field names, and one whose
  order matters is an association list updated with \<open>AList.update\<close>, as JavaScript updates
  properties in place. A file is the value that reading it gives: absent, unreadable, unparsable or
  parsed. Code outside the repository or below the modelled layer (the lease, the write and rename of a
  file, completion predicates, the provider call, the plan parser) is an argument of the definition that
  uses it, and every outcome of it, failures included, is covered.

  \<^bold>\<open>Theories.\<close>

  \<^item> \<open>Prelude\<close>, \<open>Json\<close>: error values, the string and list operations of the language that the code
    uses, JSON values.
  \<^item> \<open>Steps\<close>, \<open>Registry\<close>: step definitions, the built-in table and groups, the skip rules, the lookup
    by name, and \<open>buildStepRegistry\<close>, which splices configured steps into the table. Its loop runs
    in rounds bounded by the number of pending additions (each round that goes on inserts one). The
    properties: built-ins survive in order, every scheduled step resolves to its own definition,
    nothing resolvable is dropped, prerequisites come first; and the case in which they do not.
  \<^item> \<open>ConductState\<close>, \<open>StateStore\<close>, \<open>StoreLaws\<close>, \<open>StoreProps\<close>: the document, its migration and
    restaging; conflict evaluation of one mutation; the filesystem adapter (lease, read, check, write)
    and the adapter that routes build-region fields to a child's document. The locales
    \<open>fresh_store\<close> and \<open>atomic_store\<close> state what the writers in \<open>state.ts\<close> rely on; both adapters
    interpret them, the routed one only the weaker contract. The properties: durability of a save, no
    lost update, skips survive restaging, the routed store refines the flat one on fresh batches,
    and where it is not atomic.
  \<^item> \<open>GateVerdict\<close>, \<open>VerdictProps\<close>: child ids and paths, verdict files, the structural contract of a
    rebase record, recomputation, skip verdicts. \<open>verdict_step\<close> is the step relation of the
    ordinary writes; an invariant over its runs shows that the publication fence survives.
  \<^item> \<open>Selector\<close>, \<open>SelectorProps\<close>, \<open>ResumeProps\<close>: gate checks, selection in the looped region,
    navigation back, gate topology, resume index, clamping to a runnable entry (bounded by the
    number of steps, and shown never to stop for the bound), membership of the validation group.
  \<^item> \<open>Ladder\<close>, \<open>Availability\<close>, \<open>LadderProps\<close>: model policies, escalation on the effort and model
    orders (the locale \<open>rung_ladder\<close>, interpreted for both), upgrade of tiered model ids, the
    fallback walk (terminating because every step onward kills a live model), its token accounting,
    provider candidates, and suppression windows.
  \<^item> \<open>KickbackData\<close>, \<open>KickbackSchema\<close>, \<open>KickbackStore\<close>: the ledger's records and pure counters, its
    validators and reader, its writer and every leased transaction. \<open>KickbackLaws\<close> shows that a
    well-formed ledger reads back as written and interprets the locale \<open>ledger_store\<close> on the leased
    transaction; \<open>KickbackProps\<close> and \<open>KickbackBudget\<close> hold its properties: round trip, damaged
    siblings kept, charges applied once, refunds exact, exhaustion at the stated counts, settlement
    all or nothing.

  \<^item> \<open>Lease\<close>, \<open>LeaseSafety\<close>: the records of owners and recovery claims; acquisition, publication,
    recovery of a dead owner through a chain of claims, and release, as the step relation of
    contenders over one lease directory (\<open>lease_step\<close>), where processes may die between any two
    steps. An invariant over its runs gives mutual exclusion and that only dead owners are evicted;
    a run shows a claim that blocks recovery. Assumed: each operation on the directory takes effect at one moment
    (in the code the removal of a lease directory is recursive, and its creation, like the publication of a claim,
    takes two or three calls), tokens are fresh, the digests that name claim files do not collide, all
    processes share a host, and a process reported dead is dead. A deadline may pass at any step.
  \<^item> \<open>GateInvalidation\<close>: path predicates, the partition of a delta, the surface of every judged gate, both
    decision tables and the comparison of a replayed tree, against a direct description of which
    paths matter to which gate.
  \<^item> \<open>RebaseTransition\<close>: \<open>applyRebaseTransition\<close> with the list of durable states it passes through, so that a
    crash is a prefix; other writers act at two points, before and after the batch of the state store, and not at the
    other awaits. The properties: the commit marker comes last and only over agreeing states and
    verdicts, the refund of convergence happens once, and an interrupted feature-wide run can be
    completed from any durable state while nobody else writes. The digests are arguments.
  \<^item> \<open>Intervals\<close>, \<open>ExecIdentity\<close>, \<open>Timing\<close>: interval unions and intersections against the instants they cover;
    correlation keys, with decoders that show the encodings injective; the rollup of two event
    ledgers. Times are whole milliseconds.
  \<^item> \<open>WhenExpr\<close>: conditions of configured steps, validated and evaluated by hand-written matchers of the
    source's regular expressions; recursion ends because both sides of a conjunction are shorter.

  \<^item> \<open>DecideEntry\<close>: the policy of autonomous entry into the DECIDE phase, the operator's grants and their
    consumption. The conductor's guards around the resolution (it runs only where artifacts are verified) are not
    part of it, and whether the artifact exists is an argument.
  \<^item> \<open>Tail\<close>, \<open>TailProps\<close>: \<^verbatim>\<open>Conductor.advanceTail\<close>: what happens after a step has run, from its verdict over
    kickbacks and skips to the selection of the next step, composed of the selector, the clamp, the
    verdict files, the ledger and the state store. \<open>tail_trace\<close> is a run of passes between which steps
    may change everything but the selection counters, \<open>kick_trace\<close> a run of kickbacks of one gate. The
    properties: convergence means no open gate, selections and kickbacks are bounded, the selected
    step can run.
  \<^item> \<open>Pool\<close>, \<open>GroupCore\<close>, \<open>GroupProps\<close>: the concurrent groups of \<^verbatim>\<open>engine/group-core.ts\<close>: the semaphore with
    its runs as interleavings of settlements and an abort, one branch with its retries, and the join of a
    configured group in the conductor. What the runner answers is a list of turns; \<open>branch_loop\<close> gives
    None only when the list ends before the branch does, and the budget property says how many failures
    always suffice. The properties: the cap is exact, every run settles, retries are spent on failures only,
    the join does not depend on the order of settlement; and what a skipped member does to it.
  \<^item> \<open>RateLimit\<close>: the shared coordinator of rate-limit waits (\<^verbatim>\<open>engine/rate-limit-episode.ts\<close>), without
    the release of a waiter by its abort signal.

  \<^item> \<open>GitPort\<close>: the git runner of the stacked features: a runner answers a call in a repository state or
    fails. What git documents is a pair of named hypotheses, \<open>object_store\<close> (objects are
    content-addressed and stay, references are read and swapped one by one) and \<open>ref_transactions\<close> (a
    transaction over names that need no quoting applies all its lines at one moment, or none), with other processes moving the repository
    in between; \<open>tiny_run\<close> is a repository that satisfies both.
  \<^item> \<open>CascadeCap\<close>, \<open>CascadeProps\<close>: the counters of restack cascades kept in a reference, their cap, their
    charge and the operator's adjustments. The properties: the counters stay valid, the cap is exact,
    concurrent writers are serial; and the charge that is not compared.
  \<^item> \<open>RestackJournal\<close>, \<open>JournalProps\<close>: the journal of a restack in flight: its validation, the states it goes
    through and the staged commits of its children; it is read back as written, and a recorded replay and
    its commit become durable together.
  \<^item> \<open>RouteTypes\<close>, \<open>RouteStore\<close>, \<open>RouteProps\<close>: the records of routed repairs with the validation of their
    lifecycle, and the one transaction through which they are written, fenced on the restack journal. The
    properties: hosts, journals and rounds only move forward, a valid record has one host in flight, and a
    write lands as a whole on the values it knew, never during a restack.
  \<^item> \<open>RoundReceipt\<close>, \<open>ReceiptProps\<close>: the settlement of routed rounds: receipts are enumerated from references,
    charged to the feature's ledger within its caps and reconciled after a crash, and a lost ledger is
    rebuilt from them. Settlement is tried three times, as the code does. The properties: each receipt is
    charged once and within the caps, a crash is healed, a rebuilt ledger agrees; and two cases in which the
    code does not keep what it promises.

  \<^item> \<open>BranchName\<close>: the branches of a feature and of its children (\<^verbatim>\<open>engine/feature-branch-identity.ts\<close>);
    a branch the daemon owns names one feature and one child.
  \<^item> \<open>PlanParse\<close>, \<open>PlanSlices\<close>, \<open>SliceProps\<close>: the tasks of a Markdown plan with their bodies and declared
    dependencies (\<^verbatim>\<open>engine/plan-task-parse.ts\<close>, \<^verbatim>\<open>engine/plan-dependencies.ts\<close>), the closure of the
    dependencies (a stack of pending tasks that ends because each task is found once), and the table of
    slices (\<^verbatim>\<open>engine/plan-slices.ts\<close>) with its checks, the eligibility of the plan for a stack and the owners
    of its stories. The regular expressions of the code are written out as matchers over characters below U+0100. The
    properties: a plan that validates divides its tasks into ordered slices, stories have one owner,
    the closure is exact; and the heading that escapes the order.
  \<^item> \<open>SliceTopology\<close>, \<open>TopologyProps\<close>: the topology of a stacked feature (\<^verbatim>\<open>engine/slice-topology.ts\<close>): the
    slices of the plan, sealed against the positions recorded when the first child started. What the loader
    reads from files is an argument.
  \<^item> \<open>ChildCursor\<close>, \<open>CursorProps\<close>: the cursor over a stack (\<^verbatim>\<open>engine/child-cursor.ts\<close>): which child is
    active, which closed children need repair, whether a rewritten closure has reached its successors, and
    the base of a child. Over a quiet repository (answers come from one commit history, as the named hypothesis
    \<open>quiet_repository\<close> says) the answer is that of the stack.
  \<^item> \<open>RestackPlan\<close>, \<open>PlanProps\<close>: the plan of a restack (\<^verbatim>\<open>engine/restack/restack-plan.ts\<close>): the ranges of
    commits to replay and its refusals, justified by the commit history while references may move between the
    questions; it agrees with the cursor on which children are to be repaired. \<open>StackSamples\<close> holds the plans and
    the small repository on which the witnesses of these theories compute.

  \<^bold>\<open>Not modelled.\<close> The dispatch of the conductor's driver loop, its retries and its built-in validation group, the daemon and its supervisors, the
  build-review, audit and as-built judges, the drivers of routed rounds and of restacks (routing of findings, region
  entry, replay, recovery, delivery of outbox events), GitHub and git operations, rendering, telemetry and
  command-line entry points. They are input and output around the decisions modelled here, or
  subsystems of their own. Within the modelled modules: console warnings and event emission, lease
  diagnostics, deep freezing, the reconstruction of a rebase transition's options from its persisted candidates, the derivation of plan growth from a Markdown plan, and
  the scanners of task titles, done-when lines and declared paths.
\<close>

end
